(* ===== verification/Hap_Prelude.thy ===== *)
theory Hap_Prelude
  imports Main "HOL-Library.Word" "HOL-Library.Monad_Syntax" "HOL-Library.Signed_Division"
begin

text \<open>
  Shared vocabulary of the development: the machine integer types of the firmware,
  its return codes, bounds-checked access to byte buffers, and singly linked lists in
  an explicit heap.

  A computation that may dereference a bad pointer, leave a buffer or not return has
  an \<open>option\<close> result; \<open>None\<close> stands for that failure, never for an error code the C
  function returns. Error codes are ordinary values.
\<close>

unbundle bit_operations_syntax

section \<open>Machine integers and return codes\<close>

type_synonym byte = "8 word"
type_synonym u16 = "16 word"
type_synonym u32 = "32 word"
type_synonym u64 = "64 word"

abbreviation (input) HAP_SUCCESS :: int where "HAP_SUCCESS \<equiv> 0"
abbreviation (input) HAP_FAIL :: int where "HAP_FAIL \<equiv> - 1"

named_theorems buf_simps \<open>bounds-checked reads and writes of buffers\<close>

text \<open>A value that fits a wider word survives the trip through it.\<close>

lemma ucast_up_down [simp]:
  "LENGTH('a::len) \<le> LENGTH('b::len) \<Longrightarrow>
     (ucast (ucast (x :: 'a word) :: 'b word) :: 'a word) = x"
  by (rule bit_word_eqI) (simp add: bit_simps)

text \<open>Masking a byte with \<open>0xff\<close>, as the C conversions do, changes nothing.\<close>

lemma byte_mask [simp]: "(x :: byte) AND 255 = x"
proof -
  have "(255 :: byte) = - 1" by simp
  then show ?thesis by (simp only: and.right_neutral)
qed

lemma unat_byte_less: "unat (b :: byte) < 256"
proof -
  have "unat b < 2 ^ LENGTH(8)" by (rule unsigned_less)
  then show ?thesis by simp
qed

lemma neg_less_uint [simp]: "- numeral k < uint (x :: 'a::len word)"
  by (rule order_less_le_trans [of _ 0]) simp_all

lemma pow_256: "(256 :: nat) ^ n = 2 ^ (8 * n)"
  by (simp add: power_mult)

lemma uint_of_int_small: "0 \<le> k \<Longrightarrow> k < 2 ^ LENGTH('a) \<Longrightarrow> uint (of_int k :: 'a::len word) = k"
  by (simp add: unsigned_of_int take_bit_int_eq_self)

text \<open>C division truncates towards zero; on non-negative values it is \<open>div\<close>.\<close>

lemma sdiv_nonneg: "0 \<le> (a :: int) \<Longrightarrow> 0 \<le> b \<Longrightarrow> a sdiv b = a div b"
  by (cases "a = 0"; cases "b = 0") (simp_all add: signed_divide_int_def sgn_if)

lemma smod_nonneg: "0 \<le> (a :: int) \<Longrightarrow> 0 \<le> b \<Longrightarrow> a smod b = a mod b"
  by (metis minus_mult_sdiv_eq_smod minus_mult_div_eq_mod sdiv_nonneg)

lemma int_div_less:
  assumes "0 \<le> (m :: int)" "0 < p" "m < k * p"
  shows "m div p < k"
proof (rule ccontr)
  assume "\<not> m div p < k"
  then have "k * p \<le> (m div p) * p" using assms(2) by (simp add: mult_right_mono)
  also have "\<dots> = m - m mod p" by (simp add: minus_mod_eq_div_mult)
  also have "\<dots> \<le> m" using assms(2) by simp
  finally show False using assms(3) by simp
qed

section \<open>Buffers\<close>

text \<open>
  A C buffer is the list of the bytes allocated for it. \<open>rd\<close> reads one element,
  \<open>rd_block\<close> is the source side of \<open>memcpy\<close> and \<open>wr_block\<close> its destination side. An
  access outside the allocation is \<open>None\<close>.
\<close>

definition rd :: "'a list \<Rightarrow> int \<Rightarrow> 'a option" where
  "rd xs i = (if 0 \<le> i \<and> i < int (length xs) then Some (xs ! nat i) else None)"

definition rd_block :: "'a list \<Rightarrow> int \<Rightarrow> int \<Rightarrow> 'a list option" where
  "rd_block xs i n =
     (if 0 \<le> i \<and> 0 \<le> n \<and> i + n \<le> int (length xs)
      then Some (take (nat n) (drop (nat i) xs)) else None)"

definition wr_block :: "'a list \<Rightarrow> int \<Rightarrow> 'a list \<Rightarrow> 'a list option" where
  "wr_block xs i ys =
     (if 0 \<le> i \<and> i + int (length ys) \<le> int (length xs)
      then Some (take (nat i) xs @ ys @ drop (nat i + length ys) xs) else None)"

lemma length_ge_Suc: "Suc n \<le> length p \<longleftrightarrow> (\<exists>b q. p = b # q \<and> n \<le> length q)"
  by (cases p) auto

lemma rd_append_left [buf_simps]:
  "rd (xs @ y # ys) (int (length xs)) = Some y"
  by (simp add: rd_def)

lemma rd_append_second [buf_simps]:
  "rd (xs @ y # z # ys) (int (length xs) + 1) = Some z"
  by (simp add: rd_def nth_append nat_add_distrib)

lemma rd_Some_iff: "(\<exists>x. rd xs i = Some x) \<longleftrightarrow> 0 \<le> i \<and> i < int (length xs)"
  by (simp add: rd_def)

lemma rd_block_append [buf_simps]:
  "rd_block (xs @ ys @ zs) (int (length xs)) (int (length ys)) = Some ys"
  by (simp add: rd_block_def)

lemma length_rd_block:
  "rd_block xs i n = Some ys \<Longrightarrow> int (length ys) = n"
  by (auto simp: rd_block_def split: if_splits)

lemma length_wr_block:
  "wr_block xs i ys = Some zs \<Longrightarrow> length zs = length xs"
  by (auto simp: wr_block_def split: if_splits)

lemma wr_block_mid [buf_simps]:
  "length old = length new \<Longrightarrow>
     wr_block (xs @ old @ zs) (int (length xs)) new = Some (xs @ new @ zs)"
  by (simp add: wr_block_def)

lemma wr_block_Some_iff:
  "(\<exists>zs. wr_block xs i ys = Some zs) \<longleftrightarrow> 0 \<le> i \<and> i + int (length ys) \<le> int (length xs)"
  by (simp add: wr_block_def)

text \<open>Two adjacent writes are one write, failures included.\<close>

lemma wr_block_append:
  "wr_block xs i ys \<bind> (\<lambda>xs'. wr_block xs' (i + int (length ys)) zs) = wr_block xs i (ys @ zs)"
proof (cases "0 \<le> i \<and> i + int (length ys) \<le> int (length xs)")
  case True
  then have ni: "nat (i + int (length ys)) = nat i + length ys" by linarith
  from True have li: "length (take (nat i) xs) = nat i" by (simp add: nat_le_iff)
  from True li show ?thesis
    unfolding wr_block_def ni by (auto simp: ac_simps)
next
  case False
  then show ?thesis by (auto simp: wr_block_def)
qed

section \<open>Linked lists in a heap\<close>

text \<open>
  The objects of the accessory database are linked through \<open>next\<close> pointers. \<open>nx\<close> follows
  one of them: \<open>None\<close> when the pointer does not point to an object, \<open>Some None\<close> at the end of
  the list. The three loops below are the loops of the source; on a cyclic list they do not
  return. \<open>chain\<close> is the abstraction: the addresses met from \<open>p\<close> on, in order.
\<close>

type_synonym ptr = nat

partial_function (option) list_last :: "('a \<Rightarrow> 'a option option) \<Rightarrow> 'a \<Rightarrow> 'a option" where
  "list_last nx p = do { n \<leftarrow> nx p; case n of None \<Rightarrow> Some p | Some q \<Rightarrow> list_last nx q }"

declare list_last.simps [code]

partial_function (option) list_find ::
    "('a \<Rightarrow> 'a option option) \<Rightarrow> ('a \<Rightarrow> bool option) \<Rightarrow> 'a option \<Rightarrow> 'a option option" where
  "list_find nx P p = (case p of None \<Rightarrow> Some None
     | Some x \<Rightarrow> do { b \<leftarrow> P x; if b then Some (Some x) else do { n \<leftarrow> nx x; list_find nx P n } })"

declare list_find.simps [code]

partial_function (option) list_iter ::
    "('s \<Rightarrow> 'a \<Rightarrow> 'a option option) \<Rightarrow> ('s \<Rightarrow> 'a \<Rightarrow> 's option) \<Rightarrow> 's \<Rightarrow> 'a option \<Rightarrow> 's option" where
  "list_iter nx body s p = (case p of None \<Rightarrow> Some s
     | Some x \<Rightarrow> do { s \<leftarrow> body s x; n \<leftarrow> nx s x; list_iter nx body s n })"

declare list_iter.simps [code]

primrec chain :: "('a \<Rightarrow> 'a option option) \<Rightarrow> 'a option \<Rightarrow> 'a list \<Rightarrow> bool" where
  "chain nx p [] \<longleftrightarrow> p = None"
| "chain nx p (x # xs) \<longleftrightarrow> p = Some x \<and> (\<exists>n. nx x = Some n \<and> chain nx n xs)"

lemma chain_None [simp]: "chain nx None xs \<longleftrightarrow> xs = []"
  by (cases xs) auto

lemma chain_unique: "chain nx p xs \<Longrightarrow> chain nx p ys \<Longrightarrow> xs = ys"
proof (induction xs arbitrary: p ys)
  case (Cons x xs)
  then show ?case by (cases ys) auto
qed simp

lemma chain_cong: "(\<And>x. x \<in> set xs \<Longrightarrow> nx x = nx' x) \<Longrightarrow> chain nx p xs = chain nx' p xs"
  by (induction xs arbitrary: p) auto

lemma chain_appendI:
  assumes "chain nx p (xs @ [y])" "nx y = Some None" "nx' y = Some (Some z)" "nx' z = Some None"
    and "\<And>x. x \<in> set xs \<Longrightarrow> nx' x = nx x" "y \<notin> set xs"
  shows "chain nx' p (xs @ [y, z])"
  using assms(1,5,6) by (induction xs arbitrary: p) (auto simp: assms(2-4))

lemma list_last_chain: "chain nx (Some x) (xs @ [y]) \<Longrightarrow> list_last nx x = Some y"
proof (induction xs arbitrary: x)
  case Nil
  then show ?case by (auto simp: list_last.simps)
next
  case (Cons z xs)
  then obtain n where n: "nx x = Some n" "chain nx n (xs @ [y])" by auto
  then obtain q where "n = Some q" by (cases xs) auto
  with n Cons.IH show ?case by (subst list_last.simps) simp
qed

lemma list_find_chain:
  "chain nx p xs \<Longrightarrow> (\<And>x. x \<in> set xs \<Longrightarrow> P x = Some (Q x)) \<Longrightarrow> list_find nx P p = Some (find Q xs)"
proof (induction xs arbitrary: p)
  case (Cons x xs)
  then obtain n where "p = Some x" "nx x = Some n" "chain nx n xs" by auto
  with Cons show ?case by (subst list_find.simps) auto
qed (simp add: list_find.simps)

text \<open>A loop whose body does not change the links runs the body over the chain.\<close>

lemma list_iter_chain:
  assumes "chain (nx s) p xs"
    and "\<And>s x. x \<in> set xs \<Longrightarrow> ok s \<Longrightarrow> \<exists>s'. body s x = Some s' \<and> ok s' \<and> nx s' = nx s"
    and "ok s"
  shows "list_iter nx body s p = foldr (\<lambda>x k s. body s x \<bind> k) xs Some s"
  using assms
proof (induction xs arbitrary: p s)
  case (Cons x xs)
  from Cons.prems(1) obtain n where n: "p = Some x" "nx s x = Some n" "chain (nx s) n xs" by auto
  obtain s' where s': "body s x = Some s'" "ok s'" "nx s' = nx s"
    using Cons.prems(2) [of x s] Cons.prems(3) by auto
  have "list_iter nx body s' n = foldr (\<lambda>x k s. body s x \<bind> k) xs Some s'"
    using Cons.IH [of s' n] Cons.prems(2) n s' by simp
  with n s' show ?case by (subst list_iter.simps) simp
qed (simp add: list_iter.simps)

lemma find_Some_iff_unique:
  assumes "distinct (map f xs)"
  shows "find (\<lambda>x. f x = k) xs = Some x \<longleftrightarrow> x \<in> set xs \<and> f x = k"
  using assms by (induction xs) auto

lemma chain_distinct: "chain nx p xs \<Longrightarrow> distinct xs"
proof (induction xs arbitrary: p)
  case (Cons x xs)
  then have x: "p = Some x" "chain nx p (x # xs)" and d: "distinct xs" by auto
  have "x \<notin> set xs"
  proof
    assume "x \<in> set xs"
    then obtain ys zs where xs: "xs = ys @ x # zs" by (meson split_list)
    have tail: "chain nx q (ys @ x # zs) \<Longrightarrow> chain nx (Some x) (x # zs)" for q ys
      by (induction ys arbitrary: q) auto
    from x have "chain nx q xs" if "nx x = Some q" for q using that by auto
    with x xs tail have "chain nx (Some x) (x # zs)" by (metis chain.simps(2))
    with x have "x # xs = x # zs" by (metis chain_unique)
    with xs show False by simp
  qed
  with d show ?case by simp
qed simp

lemma chain_live: "chain nx p xs \<Longrightarrow> x \<in> set xs \<Longrightarrow> \<exists>n. nx x = Some n"
  by (induction xs arbitrary: p) auto

lemma chain_append_iff:
  "chain nx p (xs @ [y]) \<Longrightarrow> nx y = Some None"
  by (induction xs arbitrary: p) auto

lemma chain_append_single:
  assumes "chain nx p xs" "xs \<noteq> []" "nx' (last xs) = Some (Some z)" "nx' z = Some None"
    and "\<And>x. x \<in> set (butlast xs) \<Longrightarrow> nx' x = nx x"
  shows "chain nx' p (xs @ [z])"
proof -
  obtain ys y where xs: "xs = ys @ [y]" using assms(2) by (cases xs rule: rev_cases) auto
  have "y \<notin> set ys" using chain_distinct [OF assms(1)] xs by simp
  with chain_appendI [of nx p ys y nx' z] assms xs chain_append_iff [of nx p ys y] show ?thesis
    by simp
qed

text \<open>
  The lookups of the database share one contract: walk the list of a container and return the
  first member with the key.
\<close>

locale obj_lookup =
  fixes head :: "'st \<Rightarrow> ptr \<Rightarrow> ptr option option"
    and nx :: "'st \<Rightarrow> ptr \<Rightarrow> ptr option option"
    and key :: "'st \<Rightarrow> ptr \<Rightarrow> 'k option"
    and look :: "ptr \<Rightarrow> 'k \<Rightarrow> 'st \<Rightarrow> ptr option option"
  assumes look_walk: "look h k st = do { p \<leftarrow> head st h;
      list_find (nx st) (\<lambda>x. do { k' \<leftarrow> key st x; Some (k' = k) }) p }"
    and key_live: "nx st x \<noteq> None \<Longrightarrow> key st x \<noteq> None"
begin

lemma look_finds:
  assumes "head st h = Some p" "chain (nx st) p xs"
  shows "look h k st = Some (find (\<lambda>x. key st x = Some k) xs)"
proof -
  have "list_find (nx st) (\<lambda>x. do { k' \<leftarrow> key st x; Some (k' = k) }) p =
      Some (find (\<lambda>x. key st x = Some k) xs)"
  proof (rule list_find_chain [OF assms(2)])
    fix x assume "x \<in> set xs"
    then obtain k' where "key st x = Some k'"
      using chain_live [OF assms(2)] key_live by (metis not_None_eq)
    then show "do { k' \<leftarrow> key st x; Some (k' = k) } = Some (key st x = Some k)" by simp
  qed
  with assms(1) show ?thesis by (simp add: look_walk)
qed

lemma look_unique:
  assumes "head st h = Some p" "chain (nx st) p xs" "distinct (map (key st) xs)"
  shows "look h k st = Some (Some x) \<longleftrightarrow> x \<in> set xs \<and> key st x = Some k"
    and "look h k st = Some None \<longleftrightarrow> Some k \<notin> key st ` set xs"
proof -
  show "look h k st = Some (Some x) \<longleftrightarrow> x \<in> set xs \<and> key st x = Some k"
    using find_Some_iff_unique [OF assms(3), of "Some k" x] by (simp add: look_finds [OF assms(1,2)])
  show "look h k st = Some None \<longleftrightarrow> Some k \<notin> key st ` set xs"
    by (auto simp: look_finds [OF assms(1,2)] find_None_iff image_iff)
qed

end

end
