(* ===== verification/Byte_Convert.thy ===== *)
theory Byte_Convert
  imports Hap_Prelude
begin

text \<open>
  \<open>byte_convert.c\<close>: conversion between integers and little or big endian byte streams.
  A stream is the buffer the C functions get as \<open>val_ptr\<close>; a buffer that is too short
  makes the access fail. The abstract reading of a stream is \<open>le_val\<close> (base 256 digits,
  least significant first); the big endian functions read the reversed digits.
\<close>

section \<open>The conversions of the source\<close>

definition get_u16_le :: "byte list \<Rightarrow> u16 option" where
  "get_u16_le p = do {
     p0 \<leftarrow> rd p 0; p1 \<leftarrow> rd p 1;
     Some (ucast p0 OR push_bit 8 (ucast p1)) }"

definition get_u32_le :: "byte list \<Rightarrow> u32 option" where
  "get_u32_le p = do {
     p0 \<leftarrow> rd p 0; p1 \<leftarrow> rd p 1; p2 \<leftarrow> rd p 2; p3 \<leftarrow> rd p 3;
     Some (((ucast p0 OR push_bit 8 (ucast p1)) OR push_bit 16 (ucast p2)) OR push_bit 24 (ucast p3)) }"

definition get_u64_le :: "byte list \<Rightarrow> u64 option" where
  "get_u64_le p = do {
     p0 \<leftarrow> rd p 0; p1 \<leftarrow> rd p 1; p2 \<leftarrow> rd p 2; p3 \<leftarrow> rd p 3;
     p4 \<leftarrow> rd p 4; p5 \<leftarrow> rd p 5; p6 \<leftarrow> rd p 6; p7 \<leftarrow> rd p 7;
     Some (((((((ucast p0 OR push_bit 8 (ucast p1)) OR push_bit 16 (ucast p2))
       OR push_bit 24 (ucast p3)) OR push_bit 32 (ucast p4)) OR push_bit 40 (ucast p5))
       OR push_bit 48 (ucast p6)) OR push_bit 56 (ucast p7)) }"

definition get_u16_be :: "byte list \<Rightarrow> u16 option" where
  "get_u16_be p = do {
     p0 \<leftarrow> rd p 0; p1 \<leftarrow> rd p 1;
     Some (push_bit 8 (ucast p0) OR ucast p1) }"

definition get_u32_be :: "byte list \<Rightarrow> u32 option" where
  "get_u32_be p = do {
     p0 \<leftarrow> rd p 0; p1 \<leftarrow> rd p 1; p2 \<leftarrow> rd p 2; p3 \<leftarrow> rd p 3;
     Some (((push_bit 24 (ucast p0) OR push_bit 16 (ucast p1)) OR push_bit 8 (ucast p2)) OR ucast p3) }"

definition get_u64_be :: "byte list \<Rightarrow> u64 option" where
  "get_u64_be p = do {
     p0 \<leftarrow> rd p 0; p1 \<leftarrow> rd p 1; p2 \<leftarrow> rd p 2; p3 \<leftarrow> rd p 3;
     p4 \<leftarrow> rd p 4; p5 \<leftarrow> rd p 5; p6 \<leftarrow> rd p 6; p7 \<leftarrow> rd p 7;
     Some (((((((push_bit 56 (ucast p0) OR push_bit 48 (ucast p1)) OR push_bit 40 (ucast p2))
       OR push_bit 32 (ucast p3)) OR push_bit 24 (ucast p4)) OR push_bit 16 (ucast p5))
       OR push_bit 8 (ucast p6)) OR ucast p7) }"

text \<open>The bytes a \<open>put\<close> function stores, in the order of its assignments, and the
  assignments themselves.\<close>

definition put_u16_le :: "byte list \<Rightarrow> u16 \<Rightarrow> byte list option" where
  "put_u16_le p v = do {
     p \<leftarrow> wr_block p 0 [ucast v AND 0xff];
     wr_block p 1 [ucast (drop_bit 8 v) AND 0xff] }"

definition put_u32_le :: "byte list \<Rightarrow> u32 \<Rightarrow> byte list option" where
  "put_u32_le p v = do {
     p \<leftarrow> wr_block p 0 [ucast v AND 0xff];
     p \<leftarrow> wr_block p 1 [ucast (drop_bit 8 v) AND 0xff];
     p \<leftarrow> wr_block p 2 [ucast (drop_bit 16 v) AND 0xff];
     wr_block p 3 [ucast (drop_bit 24 v) AND 0xff] }"

definition put_u64_le :: "byte list \<Rightarrow> u64 \<Rightarrow> byte list option" where
  "put_u64_le p v = do {
     p \<leftarrow> wr_block p 0 [ucast v AND 0xff];
     p \<leftarrow> wr_block p 1 [ucast (drop_bit 8 v) AND 0xff];
     p \<leftarrow> wr_block p 2 [ucast (drop_bit 16 v) AND 0xff];
     p \<leftarrow> wr_block p 3 [ucast (drop_bit 24 v) AND 0xff];
     p \<leftarrow> wr_block p 4 [ucast (drop_bit 32 v) AND 0xff];
     p \<leftarrow> wr_block p 5 [ucast (drop_bit 40 v) AND 0xff];
     p \<leftarrow> wr_block p 6 [ucast (drop_bit 48 v) AND 0xff];
     wr_block p 7 [ucast (drop_bit 56 v) AND 0xff] }"

definition put_u16_be :: "byte list \<Rightarrow> u16 \<Rightarrow> byte list option" where
  "put_u16_be p v = do {
     p \<leftarrow> wr_block p 0 [ucast (drop_bit 8 v) AND 0xff];
     wr_block p 1 [ucast v AND 0xff] }"

definition put_u32_be :: "byte list \<Rightarrow> u32 \<Rightarrow> byte list option" where
  "put_u32_be p v = do {
     p \<leftarrow> wr_block p 0 [ucast (drop_bit 24 v AND 0xff)];
     p \<leftarrow> wr_block p 1 [ucast (drop_bit 16 v AND 0xff)];
     p \<leftarrow> wr_block p 2 [ucast (drop_bit 8 v AND 0xff)];
     wr_block p 3 [ucast (v AND 0xff)] }"

definition put_u64_be :: "byte list \<Rightarrow> u64 \<Rightarrow> byte list option" where
  "put_u64_be p v = do {
     p \<leftarrow> wr_block p 0 [ucast (drop_bit 56 v) AND 0xff];
     p \<leftarrow> wr_block p 1 [ucast (drop_bit 48 v) AND 0xff];
     p \<leftarrow> wr_block p 2 [ucast (drop_bit 40 v) AND 0xff];
     p \<leftarrow> wr_block p 3 [ucast (drop_bit 32 v) AND 0xff];
     p \<leftarrow> wr_block p 4 [ucast (drop_bit 24 v) AND 0xff];
     p \<leftarrow> wr_block p 5 [ucast (drop_bit 16 v) AND 0xff];
     p \<leftarrow> wr_block p 6 [ucast (drop_bit 8 v) AND 0xff];
     wr_block p 7 [ucast v AND 0xff] }"

section \<open>The abstract stream\<close>

primrec le_val :: "byte list \<Rightarrow> nat" where
  "le_val [] = 0"
| "le_val (b # bs) = unat b + 256 * le_val bs"

primrec le_bytes :: "nat \<Rightarrow> 'a::len word \<Rightarrow> byte list" where
  "le_bytes 0 v = []"
| "le_bytes (Suc n) v = ucast v # le_bytes n (drop_bit 8 v)"

lemma length_le_bytes [simp]: "length (le_bytes n v) = n"
  by (induction n arbitrary: v) auto

lemma le_val_le_bytes: "le_val (le_bytes n v) = unat v mod 256 ^ n"
proof (induction n arbitrary: v)
  case (Suc n)
  have "unat (ucast v :: byte) = unat v mod 256"
    by (simp add: unsigned_ucast_eq take_bit_eq_mod)
  moreover have "unat (drop_bit 8 v) = unat v div 256"
    by (subst unat_drop_bit_eq) (simp add: drop_bit_eq_div)
  ultimately show ?case
    by (simp add: Suc mod_mult2_eq)
qed simp

text \<open>One Horner step: a byte below shifted words adds its value.\<close>

lemma or_push_byte:
  "(ucast (b :: byte) OR push_bit 8 w :: 'a::len word) = of_nat (unat b) + 256 * w"
proof -
  have "(ucast b OR push_bit 8 w :: 'a word) = ucast b + push_bit 8 w"
    by (rule disjunctive_add_eq_or [symmetric])
      (rule bit_word_eqI, auto simp: bit_simps dest: bit_imp_le_length)
  then show ?thesis by (simp add: push_bit_eq_mult of_nat_unat)
qed

text \<open>The big endian functions read the mirrored stream.\<close>

lemma buf_ge_2: "2 \<le> length p \<Longrightarrow> \<exists>b0 b1 q. p = b0 # b1 # q"
  by (auto simp: numeral_eq_Suc length_ge_Suc)

lemma buf_ge_4: "4 \<le> length p \<Longrightarrow> \<exists>b0 b1 b2 b3 q. p = b0 # b1 # b2 # b3 # q"
  by (auto simp: numeral_eq_Suc length_ge_Suc)

lemma buf_ge_8:
  "8 \<le> length p \<Longrightarrow> \<exists>b0 b1 b2 b3 b4 b5 b6 b7 q.
     p = b0 # b1 # b2 # b3 # b4 # b5 # b6 # b7 # q"
  by (auto simp: numeral_eq_Suc length_ge_Suc)

lemma get_u16_le_val:
  assumes "2 \<le> length p"
  shows "get_u16_le p = Some (of_nat (le_val (take 2 p)))"
proof -
  from assms obtain b0 b1 q where p: "p = b0 # b1 # q" using buf_ge_2 by blast
  show ?thesis by (simp add: p get_u16_le_def rd_def or_push_byte)
qed

lemma get_u32_le_val:
  assumes "4 \<le> length p"
  shows "get_u32_le p = Some (of_nat (le_val (take 4 p)))"
proof -
  from assms obtain b0 b1 b2 b3 q where p: "p = b0 # b1 # b2 # b3 # q" using buf_ge_4 by blast
  have "get_u32_le p = Some (ucast b0 OR push_bit 8 (ucast b1 OR push_bit 8 (ucast b2
      OR push_bit 8 (ucast b3))))"
    by (simp add: p get_u32_le_def rd_def push_bit_or or.assoc)
  then show ?thesis by (simp add: p or_push_byte)
qed

lemma get_u64_le_val:
  assumes "8 \<le> length p"
  shows "get_u64_le p = Some (of_nat (le_val (take 8 p)))"
proof -
  from assms obtain b0 b1 b2 b3 b4 b5 b6 b7 q
    where p: "p = b0 # b1 # b2 # b3 # b4 # b5 # b6 # b7 # q" using buf_ge_8 by blast
  have "get_u64_le p = Some (ucast b0 OR push_bit 8 (ucast b1 OR push_bit 8 (ucast b2
      OR push_bit 8 (ucast b3 OR push_bit 8 (ucast b4 OR push_bit 8 (ucast b5
      OR push_bit 8 (ucast b6 OR push_bit 8 (ucast b7))))))))"
    by (simp add: p get_u64_le_def rd_def push_bit_or or.assoc)
  then show ?thesis by (simp add: p or_push_byte)
qed

lemma get_u16_be_rev:
  assumes "length p = 2"
  shows "get_u16_be p = get_u16_le (rev p)"
proof -
  from assms obtain b0 b1 where "p = [b0, b1]" using buf_ge_2 [of p] by auto
  then show ?thesis by (simp add: get_u16_be_def get_u16_le_def rd_def or.commute)
qed

lemma get_u32_be_rev:
  assumes "length p = 4"
  shows "get_u32_be p = get_u32_le (rev p)"
proof -
  from assms obtain b0 b1 b2 b3 where "p = [b0, b1, b2, b3]" using buf_ge_4 [of p] by auto
  then show ?thesis
    by (simp add: get_u32_be_def get_u32_le_def rd_def or.commute or.left_commute or.assoc)
qed

lemma get_u64_be_rev:
  assumes "length p = 8"
  shows "get_u64_be p = get_u64_le (rev p)"
proof -
  from assms obtain b0 b1 b2 b3 b4 b5 b6 b7 where "p = [b0, b1, b2, b3, b4, b5, b6, b7]"
    using buf_ge_8 [of p] by auto
  then show ?thesis
    by (simp add: get_u64_be_def get_u64_le_def rd_def or.commute or.left_commute or.assoc)
qed

lemma get_be_prefix:
  "2 \<le> length p \<Longrightarrow> get_u16_be p = get_u16_be (take 2 p)"
  "4 \<le> length p \<Longrightarrow> get_u32_be p = get_u32_be (take 4 p)"
  "8 \<le> length p \<Longrightarrow> get_u64_be p = get_u64_be (take 8 p)"
  by (auto simp: get_u16_be_def get_u32_be_def get_u64_be_def rd_def)

lemma put_u16_bytes:
  assumes "2 \<le> length p"
  shows "put_u16_le p v = Some (le_bytes 2 v @ drop 2 p)"
    and "put_u16_be p v = Some (rev (le_bytes 2 v) @ drop 2 p)"
  using buf_ge_2 [OF assms]
  by (auto simp: put_u16_le_def put_u16_be_def wr_block_def eval_nat_numeral)

lemma put_u32_bytes:
  assumes "4 \<le> length p"
  shows "put_u32_le p v = Some (le_bytes 4 v @ drop 4 p)"
    and "put_u32_be p v = Some (rev (le_bytes 4 v) @ drop 4 p)"
proof -
  obtain b0 b1 b2 b3 q where p: "p = b0 # b1 # b2 # b3 # q" using buf_ge_4 [OF assms] by blast
  have low: "ucast (w AND 255 :: u32) = (ucast w :: byte)" for w
  proof -
    have m: "(255 :: u32) = mask 8" by (simp add: mask_eq_exp_minus_1)
    show ?thesis unfolding m by (rule bit_word_eqI) (auto simp: bit_simps)
  qed
  show "put_u32_le p v = Some (le_bytes 4 v @ drop 4 p)"
    by (simp add: p put_u32_le_def wr_block_def eval_nat_numeral)
  show "put_u32_be p v = Some (rev (le_bytes 4 v) @ drop 4 p)"
    by (simp add: p put_u32_be_def low wr_block_def eval_nat_numeral)
qed

lemma put_u64_bytes:
  assumes "8 \<le> length p"
  shows "put_u64_le p v = Some (le_bytes 8 v @ drop 8 p)"
    and "put_u64_be p v = Some (rev (le_bytes 8 v) @ drop 8 p)"
  using buf_ge_8 [OF assms]
  by (auto simp: put_u64_le_def put_u64_be_def wr_block_def eval_nat_numeral)

text \<open>A stream is determined by its digits, so every full buffer is the stream of one value.\<close>

lemma le_val_bound: "le_val bs < 256 ^ length bs"
proof (induction bs)
  case (Cons b bs)
  with unat_byte_less [of b] show ?case by simp
qed simp

lemma le_val_inj: "length as = length bs \<Longrightarrow> le_val as = le_val bs \<Longrightarrow> as = bs"
proof (induction as bs rule: list_induct2)
  case (Cons a as b bs)
  have lt: "unat a < 256" "unat b < 256" by (rule unat_byte_less)+
  from Cons.prems have eq: "unat a + 256 * le_val as = unat b + 256 * le_val bs" by simp
  have "unat a = (unat a + 256 * le_val as) mod 256" using lt by simp
  also have "\<dots> = unat b" using lt eq by simp
  finally have "unat a = unat b" .
  moreover from this eq have "le_val as = le_val bs" by simp
  ultimately show ?case using Cons.IH by (simp add: word_unat_eq_iff)
qed simp

lemma le_bytes_le_val:
  assumes "8 * length bs = LENGTH('a)"
  shows "le_bytes (length bs) (of_nat (le_val bs) :: 'a::len word) = bs"
proof (rule le_val_inj)
  have "(256 :: nat) ^ length bs = 2 ^ LENGTH('a)"
    using assms by (simp add: pow_256)
  then show "le_val (le_bytes (length bs) (of_nat (le_val bs) :: 'a word)) = le_val bs"
    using le_val_bound [of bs] by (simp add: le_val_le_bytes unat_of_nat)
qed simp

lemma le_val_word:
  assumes "8 * n = LENGTH('a)"
  shows "of_nat (le_val (le_bytes n (v :: 'a::len word))) = v"
proof -
  have "unat v < 256 ^ n" using unsigned_less [of v] by (simp add: pow_256 assms)
  then show ?thesis by (simp add: le_val_le_bytes)
qed

section \<open>The codec contract\<close>

text \<open>
  What callers rely on: \<open>put\<close> stores the \<open>width\<close> bytes of the value and leaves the rest of
  the buffer alone, \<open>get\<close> reads those bytes back, and every \<open>width\<close> bytes are the image
  of a value.
\<close>

locale int_codec =
  fixes width :: nat
    and enc :: "'v \<Rightarrow> byte list"
    and put :: "byte list \<Rightarrow> 'v \<Rightarrow> byte list option"
    and get :: "byte list \<Rightarrow> 'v option"
  assumes enc_width: "length (enc v) = width"
    and put_enc: "width \<le> length p \<Longrightarrow> put p v = Some (enc v @ drop width p)"
    and get_enc: "get (enc v @ q) = Some v"
    and enc_onto: "length p = width \<Longrightarrow> \<exists>v. p = enc v"
begin

lemma put_then_get: "width \<le> length p \<Longrightarrow> put p v \<bind> get = Some v"
  by (simp add: put_enc get_enc)

lemma put_frame:
  "width \<le> length p \<Longrightarrow> put p v = Some q \<Longrightarrow> length q = length p \<and> drop width q = drop width p"
  by (auto simp: put_enc enc_width)

lemma get_then_put:
  assumes "width \<le> length p"
  shows "get p \<bind> put p = Some p"
proof -
  have "length (take width p) = width" using assms by simp
  then obtain v where v: "take width p = enc v" using enc_onto by blast
  then have p: "enc v @ drop width p = p" by (metis append_take_drop_id)
  then have "get p = Some v" using get_enc by metis
  with assms v p show ?thesis by (simp add: put_enc)
qed

end

text \<open>The six pairs of functions of the file provide it.\<close>

lemma le_bytes_onto:
  assumes "length p = n" and "8 * n = LENGTH('a)"
  shows "\<exists>v :: 'a::len word. p = le_bytes n v"
  using le_bytes_le_val [of p, where 'a = 'a] assms by metis

lemma be_bytes_onto:
  assumes "length p = n" and "8 * n = LENGTH('a)"
  shows "\<exists>v :: 'a::len word. p = rev (le_bytes n v)"
proof -
  obtain v :: "'a word" where "rev p = le_bytes n v" using le_bytes_onto [of "rev p"] assms by auto
  then show ?thesis by (metis rev_rev_ident)
qed

lemmas codec_simps = put_u16_bytes put_u32_bytes put_u64_bytes
  get_u16_le_val get_u32_le_val get_u64_le_val le_val_word

interpretation u16_le: int_codec 2 "le_bytes 2" put_u16_le get_u16_le
  by unfold_locales (auto simp: codec_simps intro: le_bytes_onto)

interpretation u32_le: int_codec 4 "le_bytes 4" put_u32_le get_u32_le
  by unfold_locales (auto simp: codec_simps intro: le_bytes_onto)

interpretation u64_le: int_codec 8 "le_bytes 8" put_u64_le get_u64_le
  by unfold_locales (auto simp: codec_simps intro: le_bytes_onto)

interpretation u16_be: int_codec 2 "\<lambda>v. rev (le_bytes 2 v)" put_u16_be get_u16_be
  by unfold_locales
    (auto simp: codec_simps get_be_prefix(1) [of "rev _ @ _"] get_u16_be_rev intro: be_bytes_onto)

interpretation u32_be: int_codec 4 "\<lambda>v. rev (le_bytes 4 v)" put_u32_be get_u32_be
  by unfold_locales
    (auto simp: codec_simps get_be_prefix(2) [of "rev _ @ _"] get_u32_be_rev intro: be_bytes_onto)

interpretation u64_be: int_codec 8 "\<lambda>v. rev (le_bytes 8 v)" put_u64_be get_u64_be
  by unfold_locales
    (auto simp: codec_simps get_be_prefix(3) [of "rev _ @ _"] get_u64_be_rev intro: be_bytes_onto)

section \<open>Properties\<close>

text \<open>Each \<open>put\<close> function followed by the \<open>get\<close> function of the same width and byte
  order on the same buffer gives the value back, for all six pairs.\<close>

theorem byte_convert_roundtrip:
  assumes "8 \<le> length p"
  shows "put_u16_le p a \<bind> get_u16_le = Some a \<and> put_u16_be p a \<bind> get_u16_be = Some a \<and>
    put_u32_le p b \<bind> get_u32_le = Some b \<and> put_u32_be p b \<bind> get_u32_be = Some b \<and>
    put_u64_le p c \<bind> get_u64_le = Some c \<and> put_u64_be p c \<bind> get_u64_be = Some c"
  using assms u16_le.put_then_get [of p a] u16_be.put_then_get [of p a]
    u32_le.put_then_get [of p b] u32_be.put_then_get [of p b]
    u64_le.put_then_get [of p c] u64_be.put_then_get [of p c]
  by linarith

theorem byte_convert_roundtrip_witness:
  "put_u64_le (replicate 8 0) 0x1122334455667788 \<bind> get_u64_le = Some 0x1122334455667788"
  using byte_convert_roundtrip [of "replicate 8 0" 0 0 "0x1122334455667788"] by simp

end
