(* ===== verification/Tlv.thy ===== *)
theory Tlv
  imports Hap_Prelude
begin

text \<open>
  \<open>esp_hap_pair_common.c\<close>: the type-length-value encoding of the pairing messages.
  A value longer than 255 bytes is split into fragments of 255 bytes of the same type.
  Buffers are byte lists of their allocated size, so a read or write outside the
  allocation is a failure (\<open>None\<close>) of the model; the C error result is \<open>- 1\<close>.
\<close>

section \<open>Constants and state\<close>

text \<open>\<open>hap_tlv_type_t\<close> and \<open>hap_tlv_error_t\<close> of \<open>esp_hap_pair_common.h\<close>.\<close>

definition kTLVType_Method :: byte where "kTLVType_Method = 0x00"
definition kTLVType_Identifier :: byte where "kTLVType_Identifier = 0x01"
definition kTLVType_Salt :: byte where "kTLVType_Salt = 0x02"
definition kTLVType_PublicKey :: byte where "kTLVType_PublicKey = 0x03"
definition kTLVType_Proof :: byte where "kTLVType_Proof = 0x04"
definition kTLVType_EncryptedData :: byte where "kTLVType_EncryptedData = 0x05"
definition kTLVType_State :: byte where "kTLVType_State = 0x06"
definition kTLVType_Error :: byte where "kTLVType_Error = 0x07"
definition kTLVType_Signature :: byte where "kTLVType_Signature = 0x0a"
definition kTLVType_Permissions :: byte where "kTLVType_Permissions = 0x0b"
definition kTLVType_Flags :: byte where "kTLVType_Flags = 0x13"
definition kTLVType_Separator :: byte where "kTLVType_Separator = 0xff"

definition kTLVError_Unknown :: byte where "kTLVError_Unknown = 0x01"
definition kTLVError_Authentication :: byte where "kTLVError_Authentication = 0x02"
definition kTLVError_MaxPeers :: byte where "kTLVError_MaxPeers = 0x04"
definition kTLVError_MaxTries :: byte where "kTLVError_MaxTries = 0x05"
definition kTLVError_Unavailable :: byte where "kTLVError_Unavailable = 0x06"
definition kTLVError_Busy :: byte where "kTLVError_Busy = 0x07"

lemmas tlv_consts = kTLVType_Method_def kTLVType_Identifier_def kTLVType_Salt_def
  kTLVType_PublicKey_def kTLVType_Proof_def kTLVType_EncryptedData_def kTLVType_State_def
  kTLVType_Error_def kTLVType_Signature_def kTLVType_Permissions_def kTLVType_Flags_def
  kTLVType_Separator_def kTLVError_Unknown_def kTLVError_Authentication_def
  kTLVError_MaxPeers_def kTLVError_MaxTries_def kTLVError_Unavailable_def kTLVError_Busy_def

record hap_tlv_data =
  bufptr :: "byte list option"
  bufsize :: int
  curlen :: int

definition hap_tlv_data_init :: "byte list option \<Rightarrow> int \<Rightarrow> hap_tlv_data" where
  "hap_tlv_data_init buf buf_size = \<lparr>bufptr = buf, bufsize = buf_size, curlen = 0\<rparr>"

section \<open>Operations of the source\<close>

text \<open>The \<open>while\<close> loop of \<open>get_tlv_length\<close>, with its local \<open>curlen\<close> as \<open>cur\<close>.\<close>

function get_tlv_length_loop ::
    "byte list \<Rightarrow> int \<Rightarrow> byte \<Rightarrow> int \<Rightarrow> int \<Rightarrow> bool \<Rightarrow> int option" where
  "get_tlv_length_loop buf buflen type cur val_len found =
     (if buflen > 0 then
        do { t \<leftarrow> rd buf cur;
             if t = type then
               do { l \<leftarrow> rd buf (cur + 1);
                    let len = uint l;
                    if buflen - len < 2 then Some (- 1)
                    else if len < 255 then Some (val_len + len)
                    else get_tlv_length_loop buf (buflen - (2 + len)) type
                           (cur + (2 + len)) (val_len + len) True }
             else if found then Some val_len
             else do { l \<leftarrow> rd buf (cur + 1);
                       let len = uint l;
                       get_tlv_length_loop buf (buflen - (2 + len)) type
                         (cur + (2 + len)) val_len found } }
      else Some (- 1))"
  by pat_completeness auto
termination
  by (relation "measure (\<lambda>(buf, buflen, type, cur, val_len, found). nat buflen)")
    (auto simp: nat_less_iff add_pos_nonneg)

definition get_tlv_length :: "byte list option \<Rightarrow> int \<Rightarrow> byte \<Rightarrow> int option" where
  "get_tlv_length buf buflen type =
     (case buf of None \<Rightarrow> Some (- 1)
      | Some b \<Rightarrow> get_tlv_length_loop b buflen type 0 0 False)"

text \<open>
  \<open>get_value_from_tlv\<close>: the same loop, which also copies the fragments to \<open>val\<close>. The
  result is the return value with the new contents of \<open>val\<close>.
\<close>

function get_value_loop ::
    "byte list \<Rightarrow> int \<Rightarrow> byte \<Rightarrow> int \<Rightarrow> byte list \<Rightarrow> int \<Rightarrow> int \<Rightarrow> bool \<Rightarrow> (int \<times> byte list) option" where
  "get_value_loop buf buflen type cur val val_size val_len found =
     (if buflen > 0 then
        do { t \<leftarrow> rd buf cur;
             if t = type then
               do { l \<leftarrow> rd buf (cur + 1);
                    let len = uint l;
                    if val_size < len \<or> buflen - len < 2 then Some (- 1, val)
                    else do {
                      src \<leftarrow> rd_block buf (cur + 2) len;
                      val \<leftarrow> wr_block val val_len src;
                      if len < 255 then Some (val_len + len, val)
                      else get_value_loop buf (buflen - (2 + len)) type (cur + (2 + len))
                             val (val_size - len) (val_len + len) True } }
             else if found then Some (val_len, val)
             else do { l \<leftarrow> rd buf (cur + 1);
                       let len = uint l;
                       get_value_loop buf (buflen - (2 + len)) type (cur + (2 + len))
                         val val_size val_len found } }
      else Some (- 1, val))"
  by pat_completeness auto
termination
  by (relation "measure (\<lambda>(buf, buflen, type, cur, val, val_size, val_len, found). nat buflen)")
    (auto simp: nat_less_iff add_pos_nonneg)

definition get_value_from_tlv ::
    "byte list option \<Rightarrow> int \<Rightarrow> byte \<Rightarrow> byte list option \<Rightarrow> int \<Rightarrow> (int \<times> byte list option) option" where
  "get_value_from_tlv buf buflen type val val_size =
     (case (buf, val) of
        (Some b, Some v) \<Rightarrow>
          map_option (\<lambda>(r, v'). (r, Some v')) (get_value_loop b buflen type 0 v val_size 0 False)
      | _ \<Rightarrow> Some (- 1, val))"

text \<open>The \<open>do\<close>-\<open>while\<close> loop of \<open>add_tlv\<close>; \<open>off\<close> is how far \<open>buf_ptr\<close> has moved in \<open>val\<close>.\<close>

function add_tlv_loop ::
    "byte list \<Rightarrow> int \<Rightarrow> byte \<Rightarrow> int \<Rightarrow> byte list \<Rightarrow> int \<Rightarrow> (byte list \<times> int) option" where
  "add_tlv_loop buf cur type len val off = do {
     buf \<leftarrow> wr_block buf cur [type];
     let tmp_len = (if len > 255 then 255 else len);
     buf \<leftarrow> wr_block buf (cur + 1) [of_int tmp_len];
     src \<leftarrow> rd_block val off tmp_len;
     buf \<leftarrow> wr_block buf (cur + 2) src;
     if len - tmp_len \<noteq> 0
     then add_tlv_loop buf (cur + 2 + tmp_len) type (len - tmp_len) val (off + tmp_len)
     else Some (buf, cur + 2 + tmp_len) }"
  by pat_completeness auto
termination
  by (relation "measure (\<lambda>(buf, cur, type, len, val, off). nat len)") auto

definition add_tlv :: "hap_tlv_data \<Rightarrow> byte \<Rightarrow> int \<Rightarrow> byte list \<Rightarrow> (int \<times> hap_tlv_data) option" where
  "add_tlv tlv_data type len val =
     (case bufptr tlv_data of
        None \<Rightarrow> Some (- 1, tlv_data)
      | Some buf \<Rightarrow>
          if len + 2 > bufsize tlv_data - curlen tlv_data then Some (- 1, tlv_data)
          else do {
            (buf', cur') \<leftarrow> add_tlv_loop buf (curlen tlv_data) type len val 0;
            Some (cur' - curlen tlv_data, tlv_data\<lparr>bufptr := Some buf', curlen := cur'\<rparr>) })"

text \<open>\<open>hap_prepare_error_tlv\<close>: the new contents of \<open>buf\<close> and \<open>*outlen\<close>.\<close>

definition hap_prepare_error_tlv :: "byte \<Rightarrow> byte \<Rightarrow> byte list \<Rightarrow> int \<Rightarrow> (byte list \<times> int) option" where
  "hap_prepare_error_tlv state error buf bufsz = do {
     let tlv_data = \<lparr>bufptr = Some buf, bufsize = bufsz, curlen = 0\<rparr>;
     (_, tlv_data) \<leftarrow> add_tlv tlv_data kTLVType_State 1 [state];
     (_, tlv_data) \<leftarrow> add_tlv tlv_data kTLVType_Error 1 [error];
     b \<leftarrow> bufptr tlv_data;
     Some (b, curlen tlv_data) }"

declare get_tlv_length_loop.simps [simp del] get_value_loop.simps [simp del]
  add_tlv_loop.simps [simp del]

section \<open>The abstract stream of fragments\<close>

type_synonym frag = "byte \<times> byte list"

function tlv_frags :: "byte \<Rightarrow> byte list \<Rightarrow> frag list" where
  "tlv_frags t v = (if length v \<le> 255 then [(t, v)] else (t, take 255 v) # tlv_frags t (drop 255 v))"
  by pat_completeness auto
termination
  by (relation "measure (\<lambda>(t, v). length v)") auto

declare tlv_frags.simps [simp del]

primrec tlv_bytes :: "frag list \<Rightarrow> byte list" where
  "tlv_bytes [] = []"
| "tlv_bytes (f # fs) = fst f # of_nat (length (snd f)) # snd f @ tlv_bytes fs"

text \<open>What a reader of the stream is after: the fragments of the first value of a type.\<close>

fun tlv_find :: "byte \<Rightarrow> bool \<Rightarrow> frag list \<Rightarrow> byte list option" where
  "tlv_find t found [] = None"
| "tlv_find t found ((t', v) # fs) =
     (if t' = t
      then if length v < 255 then Some v else map_option ((@) v) (tlv_find t True fs)
      else if found then Some [] else tlv_find t found fs)"

definition wf_frags :: "frag list \<Rightarrow> bool" where
  "wf_frags fs \<longleftrightarrow> (\<forall>f \<in> set fs. length (snd f) \<le> 255)"

lemma wf_frags_simps [simp]:
  "wf_frags []" "wf_frags (f # fs) \<longleftrightarrow> length (snd f) \<le> 255 \<and> wf_frags fs"
  "wf_frags (fs @ gs) \<longleftrightarrow> wf_frags fs \<and> wf_frags gs"
  by (auto simp: wf_frags_def)

lemma wf_tlv_frags [simp]: "wf_frags (tlv_frags t v)"
  by (induction t v rule: tlv_frags.induct) (subst tlv_frags.simps, simp)

lemma tlv_bytes_append [simp]: "tlv_bytes (fs @ gs) = tlv_bytes fs @ tlv_bytes gs"
  by (induction fs) auto

text \<open>Two bytes of header for each fragment.\<close>

lemma length_tlv_frags: "length (tlv_bytes (tlv_frags t v)) = length v + 2 * (1 + (length v - 1) div 255)"
proof (induction t v rule: tlv_frags.induct)
  case (1 t v)
  show ?case
  proof (cases "length v \<le> 255")
    case False
    then have "(length v - 1) div 255 = 1 + (length v - 255 - 1) div 255" by arith
    with 1 [OF False] False show ?thesis by (subst tlv_frags.simps) simp
  qed (subst tlv_frags.simps, simp)
qed

section \<open>Refinement of the stream\<close>

lemma uint_of_nat_byte: "n \<le> 255 \<Longrightarrow> uint (of_nat n :: byte) = int n"
  by (simp add: unsigned_of_nat take_bit_eq_mod)

text \<open>
  The loop on a stream of well-formed fragments: what it returns, and that it writes
  exactly the value found, into the room that \<open>val\<close> has.
\<close>

lemma get_value_loop_stream:
  assumes "wf_frags fs" "0 \<le> val_len" "val_len + val_size \<le> int (length val)" "0 \<le> val_size"
  shows "\<exists>r val'. get_value_loop (pre @ tlv_bytes fs @ post) (int (length (tlv_bytes fs))) type
      (int (length pre)) val val_size val_len found = Some (r, val') \<and> length val' = length val \<and>
    (case tlv_find type found fs of
       None \<Rightarrow> r = - 1
     | Some w \<Rightarrow> if int (length w) \<le> val_size
                 then r = val_len + int (length w) \<and> Some val' = wr_block val val_len w
                 else r = - 1)"
  using assms
proof (induction fs arbitrary: pre val val_size val_len found)
  case Nil
  then show ?case by (subst get_value_loop.simps) simp
next
  case (Cons f fs)
  obtain t v where f: "f = (t, v)" by fastforce
  have lv: "length v \<le> 255" using Cons.prems(1) f by simp
  define buf where "buf = pre @ t # of_nat (length v) # v @ tlv_bytes fs @ post"
  let ?len = "int (length v)"
  have rds: "rd buf (int (length pre)) = Some t"
      "rd buf (int (length pre) + 1) = Some (of_nat (length v))"
    by (simp_all add: buf_def buf_simps)
  have src: "rd_block buf (int (length pre) + 2) ?len = Some v"
    using rd_block_append [of "pre @ [t, of_nat (length v)]" v "tlv_bytes fs @ post"]
    by (simp add: buf_def add.commute)
  let ?rest = "int (length (tlv_bytes fs))"
  have IH: "\<exists>r val'. get_value_loop buf ?rest type (int (length pre) + (2 + ?len)) val2 size2 len2 found2
        = Some (r, val') \<and> length val' = length val2 \<and>
      (case tlv_find type found2 fs of None \<Rightarrow> r = - 1
       | Some w \<Rightarrow> if int (length w) \<le> size2
                   then r = len2 + int (length w) \<and> Some val' = wr_block val2 len2 w else r = - 1)"
    if "0 \<le> len2" "len2 + size2 \<le> int (length val2)" "0 \<le> size2" for val2 len2 size2 found2
    using Cons.IH [of len2 size2 val2 "pre @ t # of_nat (length v) # v" found2] that Cons.prems(1) f
    by (simp add: buf_def ac_simps)
  note unfold = get_value_loop.simps [of buf "2 + ?len + ?rest" type "int (length pre)" val val_size val_len found]
  have goal: "pre @ tlv_bytes (f # fs) @ post = buf"
    "int (length (tlv_bytes (f # fs))) = 2 + ?len + ?rest" by (simp_all add: f buf_def)
  consider (short) "type = t" "val_size < ?len" | (fits) "type = t" "?len \<le> val_size"
    | (other) "type \<noteq> t" by linarith
  then show ?case
  proof cases
    case short
    then have "get_value_loop buf (2 + ?len + ?rest) type (int (length pre)) val val_size val_len
        found = Some (- 1, val)"
      by (subst unfold) (simp add: rds uint_of_nat_byte [OF lv])
    with short show ?thesis unfolding goal by (auto simp: f split: option.splits)
  next
    case fits
    then obtain val2 where val2: "wr_block val val_len v = Some val2"
      using wr_block_Some_iff [of val val_len v] Cons.prems by auto
    have len2: "length val2 = length val" using length_wr_block [OF val2] .
    have join: "wr_block val2 (val_len + ?len) w = wr_block val val_len (v @ w)" for w
      using wr_block_append [of val val_len v w] val2 by simp
    show ?thesis
    proof (cases "length v < 255")
      case True
      with fits val2 have "get_value_loop buf (2 + ?len + ?rest) type (int (length pre)) val val_size
          val_len found = Some (val_len + ?len, val2)"
        by (subst unfold) (simp add: rds src uint_of_nat_byte [OF lv])
      with True fits val2 len2 show ?thesis unfolding goal by (simp add: f)
    next
      case False
      with lv have v: "length v = 255" by simp
      with fits val2 have step: "get_value_loop buf (2 + ?len + ?rest) type (int (length pre)) val val_size
            val_len found = get_value_loop buf ?rest type (int (length pre) + (2 + ?len)) val2
            (val_size - ?len) (val_len + ?len) True"
        using src by (subst unfold) (simp add: rds uint_of_nat_byte [OF lv])
      obtain r val' where ih: "get_value_loop buf ?rest type (int (length pre) + (2 + ?len)) val2
            (val_size - ?len) (val_len + ?len) True = Some (r, val')" "length val' = length val2"
          "case tlv_find type True fs of None \<Rightarrow> r = - 1
           | Some w \<Rightarrow> if int (length w) \<le> val_size - ?len
               then r = val_len + ?len + int (length w) \<and> Some val' = wr_block val2 (val_len + ?len) w
               else r = - 1"
        using IH [of "val_len + ?len" "val_size - ?len" val2 True] fits len2 Cons.prems by auto
      show ?thesis
      proof (cases "tlv_find type True fs")
        case None
        with ih fits v len2 show ?thesis unfolding goal step by (simp add: f)
      next
        case (Some w)
        with ih fits v len2 join [of w] show ?thesis unfolding goal step by (auto simp: f)
      qed
    qed
  next
    case other
    have step: "get_value_loop buf (2 + ?len + ?rest) type (int (length pre)) val val_size val_len found
        = (if found then Some (val_len, val) else get_value_loop buf ?rest type
             (int (length pre) + (2 + ?len)) val val_size val_len found)"
      using other by (subst unfold) (simp add: rds uint_of_nat_byte [OF lv])
    show ?thesis
    proof (cases found)
      case True
      with other Cons.prems show ?thesis unfolding goal step by (simp add: f wr_block_def)
    next
      case False
      with other IH [of val_len val_size val found] Cons.prems show ?thesis
        unfolding goal step by (simp add: f)
    qed
  qed
qed

text \<open>\<open>add_tlv\<close> writes exactly the fragments of the value, if they fit the allocation.\<close>

lemma wr_block_header:
  "wr_block b c [x] \<bind> (\<lambda>b. wr_block b (c + 1) [y] \<bind> (\<lambda>b. wr_block b (c + 2) z \<bind> k))
   = wr_block b c (x # y # z) \<bind> k"
proof -
  have "wr_block b c (x # y # z) = wr_block b c [x] \<bind> (\<lambda>b. wr_block b (c + 1) ([y] @ z))"
    using wr_block_append [of b c "[x]" "[y] @ z"] by simp
  also have "\<dots> = wr_block b c [x] \<bind> (\<lambda>b. wr_block b (c + 1) [y] \<bind> (\<lambda>b. wr_block b (c + 2) z))"
    using wr_block_append [of _ "c + 1" "[y]" z] by (simp add: ac_simps)
  finally show ?thesis by simp
qed

lemma tlv_bytes_frags_long:
  "255 < length v \<Longrightarrow> tlv_bytes (tlv_frags t v) = (t # 255 # take 255 v) @ tlv_bytes (tlv_frags t (drop 255 v))"
  by (subst tlv_frags.simps) simp

lemma tlv_bytes_frags_short:
  "length v \<le> 255 \<Longrightarrow> tlv_bytes (tlv_frags t v) = t # of_nat (length v) # v"
  by (subst tlv_frags.simps) simp

lemma add_tlv_loop_bytes:
  assumes "0 \<le> len" "0 \<le> off" "off + len \<le> int (length val)"
  shows "add_tlv_loop buf cur type len val off =
    (let enc = tlv_bytes (tlv_frags type (take (nat len) (drop (nat off) val)))
     in map_option (\<lambda>b. (b, cur + int (length enc))) (wr_block buf cur enc))"
  using assms
proof (induction "nat len" arbitrary: buf cur len off rule: less_induct)
  case less
  define v where "v = take (nat len) (drop (nat off) val)"
  have lv: "int (length v) = len" using less.prems by (auto simp: v_def)
  note unfold = add_tlv_loop.simps [of buf cur type len val off]
  show ?case unfolding v_def [symmetric]
  proof (cases "len > 255")
    case False
    then have src: "rd_block val off len = Some v"
      using less.prems by (auto simp: rd_block_def v_def)
    have "of_int len = (of_nat (length v) :: byte)" using lv by (metis of_int_of_nat_eq)
    then have "add_tlv_loop buf cur type len val off
        = wr_block buf cur (type # of_nat (length v) # v) \<bind> (\<lambda>b. Some (b, cur + 2 + len))"
      using False by (subst unfold) (simp add: src wr_block_header)
    with False lv show "add_tlv_loop buf cur type len val off =
        (let enc = tlv_bytes (tlv_frags type v)
         in map_option (\<lambda>b. (b, cur + int (length enc))) (wr_block buf cur enc))"
      by (cases "wr_block buf cur (type # of_nat (length v) # v)")
        (simp_all add: tlv_bytes_frags_short ac_simps)
  next
    case True
    define w where "w = take (nat (len - 255)) (drop (nat (off + 255)) val)"
    have w: "drop 255 v = w"
      using True less.prems by (simp add: v_def w_def drop_take nat_add_distrib nat_diff_distrib add.commute)
    have l255: "length (take 255 v) = 255" using True lv by simp
    have src: "rd_block val off 255 = Some (take 255 v)"
      using True less.prems by (simp add: rd_block_def v_def min_def nat_le_iff) linarith
    have IH: "add_tlv_loop b (cur + 257) type (len - 255) val (off + 255)
        = map_option (\<lambda>b. (b, cur + 257 + int (length (tlv_bytes (tlv_frags type w)))))
            (wr_block b (cur + 257) (tlv_bytes (tlv_frags type w)))" for b
      using less.hyps [of "len - 255" "off + 255" b "cur + 257"] True less.prems
      by (simp add: w_def Let_def)
    have "add_tlv_loop buf cur type len val off
        = wr_block buf cur (type # 255 # take 255 v) \<bind>
            (\<lambda>b. add_tlv_loop b (cur + 257) type (len - 255) val (off + 255))"
      using True by (subst unfold) (simp add: src wr_block_header, simp add: add.commute)
    also have "\<dots> = map_option (\<lambda>b. (b, cur + 257 + int (length (tlv_bytes (tlv_frags type w)))))
        (wr_block buf cur ((type # 255 # take 255 v) @ tlv_bytes (tlv_frags type w)))"
      using wr_block_append [of buf cur "type # 255 # take 255 v" "tlv_bytes (tlv_frags type w)"] l255
      by (cases "wr_block buf cur (type # 255 # take 255 v)") (auto simp: IH ac_simps)
    finally show "add_tlv_loop buf cur type len val off =
        (let enc = tlv_bytes (tlv_frags type v)
         in map_option (\<lambda>b. (b, cur + int (length enc))) (wr_block buf cur enc))"
      using True lv l255 by (simp add: tlv_bytes_frags_long w Let_def ac_simps)
  qed
qed

lemma add_tlv_bytes:
  assumes "bufptr tlv = Some buf" "bufsize tlv = int (length buf)" "0 \<le> curlen tlv"
  shows "add_tlv tlv type (int (length v)) v =
    (let enc = tlv_bytes (tlv_frags type v)
     in if int (length v) + 2 > bufsize tlv - curlen tlv then Some (- 1, tlv)
        else map_option (\<lambda>b. (int (length enc), tlv\<lparr>bufptr := Some b, curlen := curlen tlv + int (length enc)\<rparr>))
               (wr_block buf (curlen tlv) enc))"
  using assms add_tlv_loop_bytes [of "int (length v)" 0 v buf "curlen tlv" type]
  by (cases "wr_block buf (curlen tlv) (tlv_bytes (tlv_frags type v))")
    (auto simp: add_tlv_def Let_def)

section \<open>Reading arbitrary bytes\<close>

text \<open>
  Every access of the loop stays inside the buffers when one byte beyond \<open>buflen\<close> may be
  read and \<open>val\<close> has \<open>val_size\<close> bytes, whatever the bytes are.
\<close>

lemma get_value_loop_safe:
  assumes "0 \<le> cur" "cur + buflen + 1 \<le> int (length buf)"
    and "0 \<le> val_len" "0 \<le> val_size" "val_len + val_size \<le> int (length val)"
  shows "\<exists>r val'. get_value_loop buf buflen type cur val val_size val_len found = Some (r, val') \<and>
    length val' = length val \<and> (r = - 1 \<or> val_len \<le> r \<and> r \<le> val_len + val_size)"
  using assms
proof (induction buf buflen type cur val val_size val_len found rule: get_value_loop.induct)
  case (1 buf buflen type cur val val_size val_len found)
  note unfold = get_value_loop.simps [of buf buflen type cur val val_size val_len found]
  show ?case
  proof (cases "buflen > 0")
    case True
    obtain t where t: "rd buf cur = Some t" using rd_Some_iff [of buf cur] "1.prems" True by auto
    obtain l where l: "rd buf (cur + 1) = Some l" using rd_Some_iff [of buf "cur + 1"] "1.prems" True by auto
    have l0: "0 \<le> uint l" by simp
    consider (stop) "t = type" "val_size < uint l \<or> buflen - uint l < 2"
      | (copy) "t = type" "uint l \<le> val_size" "2 \<le> buflen - uint l"
      | (skip) "t \<noteq> type" "\<not> found" | (over) "t \<noteq> type" found by linarith
    then show ?thesis
    proof cases
      case copy
      obtain src where src: "rd_block buf (cur + 2) (uint l) = Some src"
        using "1.prems" copy l0 by (simp add: rd_block_def)
      have lsrc: "int (length src) = uint l" using length_rd_block [OF src] .
      obtain val2 where val2: "wr_block val val_len src = Some val2"
        using wr_block_Some_iff [of val val_len src] "1.prems" copy lsrc by auto
      have len2: "length val2 = length val" using length_wr_block [OF val2] .
      show ?thesis
      proof (cases "uint l < 255")
        case True
        with copy \<open>buflen > 0\<close> t l src val2 len2 l0 show ?thesis by (subst unfold) simp
      next
        case False
        have IH: "\<exists>r val'. get_value_loop buf (buflen - (2 + uint l)) type (cur + (2 + uint l)) val2
            (val_size - uint l) (val_len + uint l) True = Some (r, val') \<and> length val' = length val2 \<and>
            (r = - 1 \<or> val_len + uint l \<le> r \<and> r \<le> val_len + uint l + (val_size - uint l))"
          using "1.prems" copy False l0 len2 \<open>buflen > 0\<close> t l src val2
          by (intro "1.IH"(1)) auto
        have step: "get_value_loop buf buflen type cur val val_size val_len found =
            get_value_loop buf (buflen - (2 + uint l)) type (cur + (2 + uint l)) val2
            (val_size - uint l) (val_len + uint l) True"
          using copy False \<open>buflen > 0\<close> t l src val2 by (subst unfold) (simp add: Let_def)
        have "val_len + uint l \<le> r \<Longrightarrow> val_len \<le> r" for r using l0 by linarith
        then show ?thesis unfolding step using IH len2 by auto
      qed
    next
      case skip
      have IH: "\<exists>r val'. get_value_loop buf (buflen - (2 + uint l)) type (cur + (2 + uint l)) val
          val_size val_len found = Some (r, val') \<and> length val' = length val \<and>
          (r = - 1 \<or> val_len \<le> r \<and> r \<le> val_len + val_size)"
        using "1.prems" skip l0 \<open>buflen > 0\<close> t l by (intro "1.IH"(2)) auto
      have step: "get_value_loop buf buflen type cur val val_size val_len found =
          get_value_loop buf (buflen - (2 + uint l)) type (cur + (2 + uint l)) val val_size val_len found"
        using skip \<open>buflen > 0\<close> t l by (subst unfold) (simp add: Let_def)
      show ?thesis unfolding step by (rule IH)
    next
      case stop
      with \<open>buflen > 0\<close> t l have "get_value_loop buf buflen type cur val val_size val_len found
          = Some (- 1, val)" by (subst unfold) (auto simp: Let_def)
      then show ?thesis by simp
    next
      case over
      with \<open>buflen > 0\<close> t have "get_value_loop buf buflen type cur val val_size val_len found
          = Some (val_len, val)" by (subst unfold) simp
      with "1.prems" show ?thesis by simp
    qed
  qed (simp add: unfold)
qed

text \<open>A stray byte after the fragments makes the loop read the byte after it.\<close>

lemma get_value_loop_stray:
  assumes "wf_frags fs" "\<forall>f \<in> set fs. fst f \<noteq> type"
  shows "get_value_loop (pre @ tlv_bytes fs @ [b]) (int (length (tlv_bytes fs)) + 1) type
    (int (length pre)) val val_size val_len False = None"
  using assms
proof (induction fs arbitrary: pre)
  case Nil
  then show ?case by (subst get_value_loop.simps) (simp add: rd_def nth_append)
next
  case (Cons f fs)
  obtain t v where f: "f = (t, v)" by fastforce
  have lv: "length v \<le> 255" and t: "t \<noteq> type" using Cons.prems f by simp_all
  have "get_value_loop (pre @ tlv_bytes (f # fs) @ [b]) (int (length (tlv_bytes (f # fs))) + 1) type
      (int (length pre)) val val_size val_len False
    = get_value_loop (pre @ tlv_bytes (f # fs) @ [b]) (1 + int (length (tlv_bytes fs))) type
      (int (length pre) + (2 + int (length v))) val val_size val_len False"
    using t by (subst get_value_loop.simps) (simp add: f buf_simps uint_of_nat_byte [OF lv])
  then show ?case
    using Cons.IH [of "pre @ t # of_nat (length v) # v"] Cons.prems by (simp add: f ac_simps)
qed

section \<open>Messages\<close>

text \<open>A message is built by adding items one after the other, giving up at the first error.\<close>

fun add_tlvs :: "hap_tlv_data \<Rightarrow> (byte \<times> byte list) list \<Rightarrow> hap_tlv_data option" where
  "add_tlvs tlv [] = Some tlv"
| "add_tlvs tlv ((t, v) # xs) = do {
     (r, tlv) \<leftarrow> add_tlv tlv t (int (length v)) v;
     if r < 0 then None else add_tlvs tlv xs }"

primrec msg_frags :: "(byte \<times> byte list) list \<Rightarrow> frag list" where
  "msg_frags [] = []"
| "msg_frags (x # xs) = tlv_frags (fst x) (snd x) @ msg_frags xs"

text \<open>
  The first item of type \<open>t\<close> can be told from what follows it: its last fragment is
  shorter than 255 bytes, or another item of a different type follows.
\<close>

fun terminated :: "byte \<Rightarrow> (byte \<times> byte list) list \<Rightarrow> bool" where
  "terminated t [] \<longleftrightarrow> False"
| "terminated t ((t', v) # xs) \<longleftrightarrow>
     (if t' = t then length v mod 255 \<noteq> 0 \<or> v = [] \<or> (xs \<noteq> [] \<and> fst (hd xs) \<noteq> t)
      else terminated t xs)"

lemma tlv_frags_nonempty: "\<exists>v' fs. tlv_frags t v = (t, v') # fs"
  by (subst tlv_frags.simps) simp

lemma tlv_find_skip:
  "t' \<noteq> t \<Longrightarrow> tlv_find t False (tlv_frags t' v @ fs) = tlv_find t False fs"
  by (induction t' v rule: tlv_frags.induct) (subst tlv_frags.simps, simp)

lemma tlv_find_frags:
  assumes "length v mod 255 \<noteq> 0 \<or> v = [] \<or> tlv_find t True fs = Some []"
  shows "tlv_find t found (tlv_frags t v @ fs) = Some v"
  using assms
proof (induction t v arbitrary: found rule: tlv_frags.induct)
  case (1 t v)
  show ?case
  proof (cases "length v < 255")
    case True
    then show ?thesis by (subst tlv_frags.simps) simp
  next
    case False
    show ?thesis
    proof (cases "length v = 255")
      case True
      with "1.prems" have "tlv_find t True fs = Some []" by auto
      with True show ?thesis by (subst tlv_frags.simps) simp
    next
      case long: False
      with False have l: "\<not> length v \<le> 255" by simp
      then have "length (drop 255 v) mod 255 = length v mod 255"
        by (simp add: le_mod_geq)
      then have "tlv_find t True (tlv_frags t (drop 255 v) @ fs) = Some (drop 255 v)"
        using "1.IH" [OF l, of True] "1.prems" l by auto
      with l show ?thesis by (subst tlv_frags.simps) simp
    qed
  qed
qed

lemma tlv_find_msg:
  "map_of xs t = Some v \<Longrightarrow> terminated t xs \<Longrightarrow> tlv_find t False (msg_frags xs) = Some v"
proof (induction t xs rule: terminated.induct)
  case (2 t t' w xs)
  show ?case
  proof (cases "t' = t")
    case True
    have "tlv_find t True (msg_frags xs) = Some []" if "xs \<noteq> []" "fst (hd xs) \<noteq> t"
    proof -
      from that obtain t2 v2 ys where xs: "xs = (t2, v2) # ys" "t2 \<noteq> t" by (cases xs) auto
      obtain v' fs where "tlv_frags t2 v2 = (t2, v') # fs" using tlv_frags_nonempty by blast
      with xs show ?thesis by simp
    qed
    with True 2 show ?thesis by (auto intro!: tlv_find_frags)
  next
    case False
    with 2 show ?thesis by (simp add: tlv_find_skip)
  qed
qed simp

lemma wf_msg_frags [simp]: "wf_frags (msg_frags xs)"
  by (induction xs) auto

lemma add_tlvs_bytes:
  assumes "add_tlvs tlv xs = Some tlv'" "bufptr tlv = Some buf" "bufsize tlv = int (length buf)"
    and "curlen tlv = int n" "n \<le> length buf"
  shows "\<exists>buf'. bufptr tlv' = Some buf' \<and> length buf' = length buf \<and>
    (\<exists>rest. buf' = take n buf @ tlv_bytes (msg_frags xs) @ rest) \<and>
    curlen tlv' = int n + int (length (tlv_bytes (msg_frags xs)))"
  using assms
proof (induction tlv xs arbitrary: buf n rule: add_tlvs.induct)
  case (1 tlv)
  then show ?case by (auto intro!: exI [of _ "drop n buf"])
next
  case (2 tlv t v xs)
  let ?enc = "tlv_bytes (tlv_frags t v)"
  from "2.prems" obtain r tlv1 where add: "add_tlv tlv t (int (length v)) v = Some (r, tlv1)"
    and r: "\<not> r < 0" and rest: "add_tlvs tlv1 xs = Some tlv'"
    by (auto split: if_splits bind_splits)
  from add r add_tlv_bytes [OF "2.prems"(2,3), of t v] "2.prems"(4)
  obtain b where b: "wr_block buf (int n) ?enc = Some b"
    and tlv1: "tlv1 = tlv\<lparr>bufptr := Some b, curlen := int n + int (length ?enc)\<rparr>"
    by (auto simp: Let_def split: if_splits)
  from b have fits: "n + length ?enc \<le> length buf"
    and b': "b = take n buf @ ?enc @ drop (n + length ?enc) buf"
    by (auto simp: wr_block_def split: if_splits)
  have len: "length b = length buf" using length_wr_block [OF b] .
  from "2.IH" [OF add refl r rest, of b "n + length ?enc"] "2.prems"(3) fits len
  show ?case by (auto simp: tlv1 b')
qed

section \<open>Properties\<close>



text \<open>A value whose length is a positive multiple of 255 and which ends the message is
  not read back: after its last full fragment the reader waits for another one and reports
  an error, although \<open>add_tlv\<close> wrote the value without one.\<close>

theorem tlv_full_fragment_lost:
  assumes "length v = 255 * k" and "0 < k" and "sz \<le> int (length val)" and "0 \<le> sz"
    and "add_tlvs (hap_tlv_data_init (Some buf) (int (length buf))) [(t, v)] = Some tlv"
  shows "\<exists>val'. get_value_from_tlv (bufptr tlv) (curlen tlv) t (Some val) sz = Some (- 1, val')"
proof -
  have "tlv_find t found (tlv_frags t v) = None" for found
    using assms(1,2)
  proof (induction k arbitrary: v found)
    case (Suc k)
    show ?case
    proof (cases "k = 0")
      case True
      with Suc.prems show ?thesis by (subst tlv_frags.simps) simp
    next
      case False
      with Suc.prems have "\<not> length v \<le> 255" by simp
      with Suc.prems Suc.IH [of "drop 255 v" True] False show ?thesis
        by (subst tlv_frags.simps) simp
    qed
  qed simp
  moreover obtain rest where "bufptr tlv = Some (tlv_bytes (tlv_frags t v) @ rest)"
      "curlen tlv = int (length (tlv_bytes (tlv_frags t v)))"
    using add_tlvs_bytes [OF assms(5), of buf 0] by (auto simp: hap_tlv_data_init_def)
  ultimately show ?thesis
    using get_value_loop_stream [of "tlv_frags t v" 0 sz val "[]" rest t False] assms(3,4)
    by (auto simp: get_value_from_tlv_def)
qed

theorem tlv_full_fragment_lost_witness:
  "\<exists>tlv val'. add_tlvs (hap_tlv_data_init (Some (replicate 257 0)) 257) [(3, replicate 255 7)] = Some tlv \<and>
    get_value_from_tlv (bufptr tlv) (curlen tlv) 3 (Some (replicate 300 0)) 300 = Some (- 1, val')"
proof -
  let ?enc = "3 # 255 # replicate 255 (7 :: byte)"
  have built: "add_tlvs (hap_tlv_data_init (Some (replicate 257 0)) (int (length (replicate 257 (0 :: byte)))))
      [(3, replicate 255 7)]
    = Some \<lparr>bufptr = Some ?enc, bufsize = 257, curlen = 257\<rparr>"
    using add_tlv_bytes [of "hap_tlv_data_init (Some (replicate 257 0)) 257" "replicate 257 0" 3 "replicate 255 7"]
    by (simp add: hap_tlv_data_init_def tlv_bytes_frags_short wr_block_def)
  show ?thesis
    using tlv_full_fragment_lost [of "replicate 255 7" 1 300 "replicate 300 0", OF _ _ _ _ built] built
    by auto
qed

text \<open>\<open>add_tlv\<close> on a fresh or partly filled buffer stays inside the allocation exactly
  when it refuses the value or the encoding, two header bytes for every started 255 bytes,
  fits. Its own test counts one header only, so a long value that passes the test can be
  written past the end.\<close>

theorem add_tlv_in_bounds:
  assumes "bufptr tlv = Some buf" and "bufsize tlv = int (length buf)" and "0 \<le> curlen tlv"
  shows "(\<exists>res. add_tlv tlv t (int (length v)) v = Some res) \<longleftrightarrow>
    int (length v) + 2 > bufsize tlv - curlen tlv \<or>
    curlen tlv + int (length v) + 2 * (1 + int ((length v - 1) div 255)) \<le> bufsize tlv"
proof -
  let ?enc = "tlv_bytes (tlv_frags t v)"
  have "(\<exists>b. wr_block buf (curlen tlv) ?enc = Some b) \<longleftrightarrow>
      curlen tlv + int (length v) + 2 * (1 + int ((length v - 1) div 255)) \<le> bufsize tlv"
    unfolding wr_block_Some_iff using assms(2,3) by (auto simp: length_tlv_frags)
  then show ?thesis by (auto simp: add_tlv_bytes [OF assms] Let_def)
qed

theorem add_tlv_in_bounds_witness:
  "\<not> (\<exists>res. add_tlv \<lparr>bufptr = Some (replicate 260 0), bufsize = 260, curlen = 0\<rparr> 3 257 (replicate 257 7)
    = Some res)"
  using add_tlv_in_bounds [of "\<lparr>bufptr = Some (replicate 260 0), bufsize = 260, curlen = 0\<rparr>"
      "replicate 260 0" 3 "replicate 257 7"] by simp

text \<open>C40: Whatever bytes the peer sends, \<open>get_value_from_tlv\<close> terminates, reads at most one
  byte beyond the \<open>buflen\<close> bytes it is given, never writes past \<open>val_size\<close> and returns
  \<open>- 1\<close> or a length of at most \<open>val_size\<close>.\<close>

theorem get_value_from_tlv_safe:
  assumes "buflen + 1 \<le> int (length buf)" and "0 \<le> val_size" and "val_size \<le> int (length val)"
  shows "\<exists>r val'. get_value_from_tlv (Some buf) buflen type (Some val) val_size = Some (r, Some val') \<and>
    length val' = length val \<and> (r = - 1 \<or> 0 \<le> r \<and> r \<le> val_size)"
  using get_value_loop_safe [of 0 buflen buf 0 val_size val type False] assms
  by (auto simp: get_value_from_tlv_def)

theorem get_value_from_tlv_safe_witness:
  "\<exists>r val'. get_value_from_tlv (Some [3, 200, 1, 0]) 3 3 (Some [0, 0]) 2 = Some (r, Some val') \<and>
    length val' = length [0, 0 :: byte] \<and> (r = - 1 \<or> 0 \<le> r \<and> r \<le> 2)"
  using get_value_from_tlv_safe [of 3 "[3, 200, 1, 0]" 2 "[0, 0]" 3] by simp

text \<open>The extra byte of the previous claim is needed: when the message fills the buffer
  and ends with a stray type byte, and the wanted type is absent, the reader looks at the
  byte after the buffer.\<close>

theorem get_value_from_tlv_overread:
  assumes "wf_frags fs" and "\<forall>f \<in> set fs. fst f \<noteq> type"
  shows "get_value_from_tlv (Some (tlv_bytes fs @ [b])) (int (length (tlv_bytes fs)) + 1) type (Some val) sz
    = None"
  using get_value_loop_stray [of fs type "[]" b val sz 0] assms by (simp add: get_value_from_tlv_def)

theorem get_value_from_tlv_overread_witness:
  "get_value_from_tlv (Some [6, 1, 3, 5]) 4 3 (Some [0, 0]) 2 = None"
  using get_value_from_tlv_overread [of "[(6, [3])]" 3 5 "[0, 0]" 2] by simp

text \<open>An error reply that fits its buffer is the state item followed by the error item,
  six bytes, with nothing else changed.\<close>

theorem hap_prepare_error_tlv_bytes:
  assumes "6 \<le> length buf" and "bufsz = int (length buf)"
  shows "hap_prepare_error_tlv st err buf bufsz
    = Some ([kTLVType_State, 1, st, kTLVType_Error, 1, err] @ drop 6 buf, 6)"
proof -
  let ?tlv = "\<lparr>bufptr = Some buf, bufsize = bufsz, curlen = 0\<rparr>"
  let ?buf1 = "[kTLVType_State, 1, st] @ drop 3 buf"
  have "add_tlv ?tlv kTLVType_State 1 [st] = Some (3, \<lparr>bufptr = Some ?buf1, bufsize = bufsz, curlen = 3\<rparr>)"
    using add_tlv_bytes [of ?tlv buf kTLVType_State "[st]"] assms
    by (simp add: tlv_bytes_frags_short wr_block_def numeral_eq_Suc)
  moreover have "add_tlv \<lparr>bufptr = Some ?buf1, bufsize = bufsz, curlen = 3\<rparr> kTLVType_Error 1 [err]
      = Some (3, \<lparr>bufptr = Some ([kTLVType_State, 1, st, kTLVType_Error, 1, err] @ drop 6 buf),
          bufsize = bufsz, curlen = 6\<rparr>)"
    using add_tlv_bytes [of "\<lparr>bufptr = Some ?buf1, bufsize = bufsz, curlen = 3\<rparr>" ?buf1 kTLVType_Error "[err]"]
      assms by (simp add: tlv_bytes_frags_short wr_block_def numeral_eq_Suc)
  ultimately show ?thesis by (simp add: hap_prepare_error_tlv_def Let_def)
qed

theorem hap_prepare_error_tlv_bytes_witness:
  "hap_prepare_error_tlv 2 kTLVError_Unknown [0, 0, 0, 0, 0, 0, 9] 7
    = Some ([kTLVType_State, 1, 2, kTLVType_Error, 1, kTLVError_Unknown, 9], 6)"
  using hap_prepare_error_tlv_bytes [of "[0, 0, 0, 0, 0, 0, 9]" 7 2 kTLVError_Unknown] by simp

end
