(* ===== verification/Text_Codec.thy ===== *)
theory Text_Codec
  imports Hap_Prelude
begin

text \<open>
  The text encodings of the core: \<open>hexbin.c\<close> (hexadecimal to bytes), \<open>base36.h\<close> and
  \<open>esp_hap_setup_payload.c\<close> (the setup payload printed in the pairing code). Characters
  of \<open>hexbin.c\<close> are handled as bytes there, and are bytes here; the payload functions
  work on C strings, modelled as \<open>string\<close> without the terminating zero.
\<close>

section \<open>hexbin.c\<close>

text \<open>\<open>hex2bin_byte\<close>: the return code and the new value of \<open>*byte\<close>.\<close>

definition hex2bin_byte :: "byte \<Rightarrow> int \<times> byte" where
  "hex2bin_byte b =
     (if b \<ge> 0x30 \<and> b \<le> 0x39 then (0, b - 0x30)
      else if b \<ge> 0x61 \<and> b \<le> 0x66 then (0, b - (0x61 - 0x0a))
      else if b \<ge> 0x41 \<and> b \<le> 0x46 then (0, b - (0x41 - 0x0a))
      else (- 1, b))"

text \<open>The loop: \<open>n\<close> iterations are left, \<open>i\<close> is done. The result is the return code with the
  output buffer, which keeps what was written before an error.\<close>

fun hex2bin_loop :: "nat \<Rightarrow> nat \<Rightarrow> byte list \<Rightarrow> byte list \<Rightarrow> (int \<times> byte list) option" where
  "hex2bin_loop 0 i ihex obin = Some (0, obin)"
| "hex2bin_loop (Suc n) i ihex obin = do {
     b1 \<leftarrow> rd ihex (2 * int i);
     let (r1, h) = hex2bin_byte b1;
     if r1 < 0 then Some (- 1, obin)
     else do {
       obin \<leftarrow> wr_block obin (int i) [push_bit 4 h];
       b2 \<leftarrow> rd ihex (2 * int i + 1);
       let (r2, l) = hex2bin_byte b2;
       if r2 < 0 then Some (- 1, obin)
       else do {
         obin \<leftarrow> wr_block obin (int i) [push_bit 4 h OR l];
         hex2bin_loop n (Suc i) ihex obin } } }"

text \<open>The result adds the new value of \<open>*olen\<close>.\<close>

definition hex2bin :: "byte list \<Rightarrow> nat \<Rightarrow> byte list \<Rightarrow> nat \<Rightarrow> (int \<times> byte list \<times> nat) option" where
  "hex2bin ihex ilen obin olen =
     (if ilen > 2 * olen then Some (- 1, obin, olen)
      else if ilen mod 2 \<noteq> 0 then Some (- 1, obin, olen)
      else do {
        (r, obin') \<leftarrow> hex2bin_loop (ilen div 2) 0 ihex obin;
        if r < 0 then Some (- 1, obin', olen) else Some (0, obin', ilen div 2) })"

text \<open>Reference: the digits of a byte, most significant first, in either case.\<close>

definition hex_digit :: "bool \<Rightarrow> byte \<Rightarrow> byte" where
  "hex_digit upper n = (if n < 10 then n + 0x30 else if upper then n + 0x37 else n + 0x57)"

definition hex_pair :: "bool \<Rightarrow> byte \<Rightarrow> byte list" where
  "hex_pair upper b = [hex_digit upper (drop_bit 4 b), hex_digit upper (b AND 0xf)]"

definition hex_encode :: "bool \<Rightarrow> byte list \<Rightarrow> byte list" where
  "hex_encode upper bs = concat (map (hex_pair upper) bs)"

lemma nibble_cases:
  assumes "n < (16 :: byte)"
  shows "n \<in> set [0, 1, 2, 3, 4, 5, 6, 7, 8, 9, 10, 11, 12, 13, 14, 15]"
proof -
  have "[0..<16] = [0, 1, 2, 3, 4, 5, 6, 7, 8, 9, 10, 11, 12, 13, 14, 15 :: nat]" by code_simp
  moreover have "unat n \<in> set [0..<16]" using assms by (simp add: word_less_nat_alt)
  ultimately have "(of_nat (unat n) :: byte)
      \<in> of_nat ` set [0, 1, 2, 3, 4, 5, 6, 7, 8, 9, 10, 11, 12, 13, 14, 15]"
    by (metis imageI)
  then show ?thesis by simp
qed

lemma hex2bin_byte_digits:
  "list_all (\<lambda>n. hex2bin_byte (hex_digit True n) = (0, n) \<and> hex2bin_byte (hex_digit False n) = (0, n))
     [0, 1, 2, 3, 4, 5, 6, 7, 8, 9, 10, 11, 12, 13, 14, 15]"
  by code_simp

lemma hex2bin_byte_digit: "n < 16 \<Longrightarrow> hex2bin_byte (hex_digit upper n) = (0, n)"
  using nibble_cases [of n] hex2bin_byte_digits by (cases upper) (auto simp only: list_all_iff)

lemma nibble_high: "drop_bit 4 (b :: byte) < 16"
proof -
  have "drop_bit 4 (unat b) < 16"
    using unat_byte_less [of b] by (simp add: drop_bit_eq_div less_mult_imp_div_less)
  then have "unat (drop_bit 4 b) < unat (16 :: byte)" by (simp add: unat_drop_bit_eq)
  then show ?thesis by (simp only: word_less_nat_alt)
qed

lemma nibble_low: "b AND 15 < (16 :: byte)"
proof -
  have "b AND 15 \<le> 15" by (rule word_and_le1)
  also have "(15 :: byte) < 16" by simp
  finally show ?thesis .
qed

lemma nibbles_join: "push_bit 4 (drop_bit 4 b) OR (b AND 15) = (b :: byte)"
proof -
  have m: "(15 :: byte) = mask 4" by (simp add: mask_eq_exp_minus_1)
  show ?thesis unfolding m by (rule bit_word_eqI) (auto simp: bit_simps)
qed

lemma length_hex_encode: "length (hex_encode upper bs) = 2 * length bs"
  by (induction bs) (auto simp: hex_encode_def hex_pair_def)

lemma hex2bin_loop_encode:
  assumes "length pre = 2 * i" "i + length bs \<le> length obin"
  shows "hex2bin_loop (length bs) i (pre @ hex_encode upper bs @ post) obin
    = Some (0, take i obin @ bs @ drop (i + length bs) obin)"
  using assms
proof (induction bs arbitrary: pre i obin)
  case (Cons b bs)
  define ihex where "ihex = pre @ hex_encode upper (b # bs) @ post"
  let ?d1 = "hex_digit upper (drop_bit 4 b)" and ?d2 = "hex_digit upper (b AND 15)"
  have ihex: "ihex = pre @ ?d1 # ?d2 # hex_encode upper bs @ post"
    by (simp add: ihex_def hex_encode_def hex_pair_def)
  have rds: "rd ihex (2 * int i) = Some ?d1" "rd ihex (2 * int i + 1) = Some ?d2"
    using rd_append_left [of pre] rd_append_second [of pre] Cons.prems(1) by (simp_all add: ihex)
  have wr: "wr_block ob (int i) [x] = Some (ob[i := x])" if "length ob = length obin" for ob x
    using Cons.prems(2) that by (simp add: wr_block_def upd_conv_take_nth_drop)
  have "hex2bin_loop (length (b # bs)) i ihex obin = hex2bin_loop (length bs) (Suc i) ihex (obin[i := b])"
    by (simp add: rds wr hex2bin_byte_digit nibble_high nibble_low nibbles_join)
  also have "\<dots> = Some (0, take (Suc i) (obin[i := b]) @ bs @ drop (Suc i + length bs) (obin[i := b]))"
    using Cons.IH [of "pre @ [?d1, ?d2]" "Suc i" "obin[i := b]"] Cons.prems by (simp add: ihex)
  finally show ?case
    using Cons.prems(2) by (simp add: ihex_def take_Suc_conv_app_nth drop_update_cancel)
qed simp

text \<open>\<open>hex2bin\<close> decodes the hexadecimal text of any bytes, in upper or lower case, into an
  output buffer with room for them: it returns success, the bytes, the rest of the buffer
  unchanged, and the length.\<close>

theorem hex2bin_roundtrip:
  assumes "length bs \<le> olen" and "olen \<le> length obin"
  shows "hex2bin (hex_encode upper bs) (2 * length bs) obin olen
    = Some (0, bs @ drop (length bs) obin, length bs)"
  using hex2bin_loop_encode [of "[]" 0 bs obin upper "[]"] assms by (simp add: hex2bin_def)

theorem hex2bin_roundtrip_witness:
  "hex2bin (hex_encode True [0xa5, 7]) (2 * length [0xa5, 7 :: byte]) [0, 0, 9] 3 = Some (0, [0xa5, 7, 9], 2)"
  using hex2bin_roundtrip [of "[0xa5, 7]" 3 "[0, 0, 9]" True] by simp

section \<open>base36.h\<close>

definition base36_digits :: string where
  "base36_digits = ''0123456789ABCDEFGHIJKLMNOPQRSTUVWXYZ''"

definition base36_powers :: "int list" where
  "base36_powers = [1, 36, 1296, 46656, 1679616, 60466176, 2176782336, 78364164096,
     2821109907456, 101559956668416, 3656158440062976, 131621703842267136, 4738381338321616896]"

text \<open>The loop for \<open>i = n - 1, \<dots>, 0\<close>; the characters stored so far are appended to.
  The 14 bytes of \<open>str\<close> leave room for all 13 digits.\<close>

fun base36_loop :: "nat \<Rightarrow> int \<Rightarrow> bool \<Rightarrow> string \<Rightarrow> string option" where
  "base36_loop 0 m discard str = Some str"
| "base36_loop (Suc i) m discard str = do {
     p \<leftarrow> rd base36_powers (int i);
     let d = m sdiv p;
     let m = m - p * d;
     let discard = (discard \<and> (d = 0 \<and> i > 0));
     if \<not> discard
     then do { c \<leftarrow> rd base36_digits d; base36_loop i m discard (str @ [c]) }
     else base36_loop i m discard str }"

definition base36_to_str :: "int \<Rightarrow> string option" where
  "base36_to_str c = base36_loop 13 c True []"

text \<open>Reference reading of a base 36 string.\<close>

definition digit36 :: "char \<Rightarrow> int" where
  "digit36 c = (let n = of_char c in if n < 58 then n - 48 else n - 55)"

definition base36_val :: "string \<Rightarrow> int" where
  "base36_val s = foldl (\<lambda>a c. 36 * a + digit36 c) 0 s"

lemma base36_powers_eq: "i < 13 \<Longrightarrow> rd base36_powers (int i) = Some (36 ^ i)"
proof -
  have "list_all (\<lambda>i. rd base36_powers (int i) = Some (36 ^ i)) [0..<13]" by code_simp
  then show "i < 13 \<Longrightarrow> rd base36_powers (int i) = Some (36 ^ i)" by (simp add: list_all_iff)
qed

lemma base36_digits_eq:
  assumes "0 \<le> d" "d < 36"
  obtains c where "rd base36_digits d = Some c" "digit36 c = d" "c = CHR ''0'' \<longleftrightarrow> d = 0"
proof -
  have "list_all (\<lambda>n. case rd base36_digits (int n) of None \<Rightarrow> False
      | Some c \<Rightarrow> digit36 c = int n \<and> (c = CHR ''0'' \<longleftrightarrow> n = 0)) [0..<36]" by code_simp
  moreover have "nat d \<in> set [0..<36]" using assms by auto
  ultimately have "case rd base36_digits (int (nat d)) of None \<Rightarrow> False
      | Some c \<Rightarrow> digit36 c = int (nat d) \<and> (c = CHR ''0'' \<longleftrightarrow> nat d = 0)"
    unfolding list_all_iff by blast
  with assms that show ?thesis by (auto split: option.splits)
qed

text \<open>One round of the loop splits off the leading digit.\<close>

lemma base36_digit_bounds:
  assumes "0 \<le> m" "m < 36 ^ Suc i"
  shows "m sdiv 36 ^ i = m div 36 ^ i" "0 \<le> m div 36 ^ i" "m div 36 ^ i < (36 :: int)"
    "m - 36 ^ i * (m div 36 ^ i) = m mod 36 ^ i" "0 \<le> m mod 36 ^ i" "m mod 36 ^ i < 36 ^ i"
  using assms by (simp_all add: sdiv_nonneg minus_mult_div_eq_mod int_div_less pos_imp_zdiv_nonneg_iff)

lemma base36_loop_step:
  assumes "0 \<le> m" "m < 36 ^ Suc i" "i < 13"
  shows "base36_loop (Suc i) m discard str =
    (if discard \<and> m div 36 ^ i = 0 \<and> i > 0 then base36_loop i (m mod 36 ^ i) True str
     else do { c \<leftarrow> rd base36_digits (m div 36 ^ i); base36_loop i (m mod 36 ^ i) False (str @ [c]) })"
  using assms(3) base36_digit_bounds(1,4) [OF assms(1,2)]
  by (cases "m div 36 ^ i = 0") (auto simp: base36_powers_eq Let_def)

declare base36_loop.simps(2) [simp del]

lemma base36_loop_digits:
  assumes "0 \<le> m" "m < 36 ^ n" "n \<le> 13"
  shows "\<exists>s. base36_loop n m False str = Some (str @ s) \<and>
    (\<forall>a. foldl (\<lambda>a c. 36 * a + digit36 c) a s = a * 36 ^ n + m)"
  using assms
proof (induction n arbitrary: m str)
  case (Suc i)
  note d = base36_digit_bounds [OF Suc.prems(1,2)]
  obtain c where c: "rd base36_digits (m div 36 ^ i) = Some c" "digit36 c = m div 36 ^ i"
    using base36_digits_eq [OF d(2,3)] by blast
  from Suc.IH [OF d(5,6), of "str @ [c]"] Suc.prems(3)
  obtain s where s: "base36_loop i (m mod 36 ^ i) False (str @ [c]) = Some (str @ c # s)"
    and v: "\<And>a. foldl (\<lambda>a c. 36 * a + digit36 c) a s = a * 36 ^ i + m mod 36 ^ i"
    by auto
  have run: "base36_loop (Suc i) m False str = Some (str @ c # s)"
    using base36_loop_step [OF Suc.prems(1,2)] Suc.prems(3) by (simp add: c s)
  have "(36 * a + m div 36 ^ i) * 36 ^ i + m mod 36 ^ i = a * 36 ^ Suc i + m" for a
    by (simp add: algebra_simps)
  then show ?case using run c(2) by (intro exI [of _ "c # s"]) (simp add: v)
qed simp

lemma base36_loop_canonical:
  assumes "0 \<le> m" "m < 36 ^ Suc n" "n < 13"
  shows "\<exists>c s. base36_loop (Suc n) m True [] = Some (c # s) \<and> base36_val (c # s) = m \<and>
    (c = CHR ''0'' \<longrightarrow> s = [])"
  using assms
proof (induction n arbitrary: m)
  case 0
  then obtain c where "rd base36_digits m = Some c" "digit36 c = m"
    using base36_digits_eq [of m] by auto
  with 0 show ?case by (simp add: base36_loop_step base36_val_def)
next
  case (Suc n)
  note d = base36_digit_bounds [OF Suc.prems(1,2)]
  show ?case
  proof (cases "m div 36 ^ Suc n = 0")
    case True
    then have "m mod 36 ^ Suc n = m" by (metis mod_div_trivial minus_mult_div_eq_mod diff_zero mult_zero_right)
    with d(6) have m: "m < 36 ^ Suc n" by metis
    from True \<open>m mod 36 ^ Suc n = m\<close> have "base36_loop (Suc (Suc n)) m True [] = base36_loop (Suc n) m True []"
      using base36_loop_step [OF Suc.prems(1,2)] Suc.prems(3) by simp
    with Suc.IH [OF Suc.prems(1) m] Suc.prems(3) show ?thesis by simp
  next
    case False
    obtain c where c: "rd base36_digits (m div 36 ^ Suc n) = Some c" "digit36 c = m div 36 ^ Suc n"
        "c = CHR ''0'' \<longleftrightarrow> m div 36 ^ Suc n = 0"
      using base36_digits_eq [OF d(2,3)] by blast
    from base36_loop_digits [OF d(5,6), of "[c]"] Suc.prems(3)
    obtain s where s: "base36_loop (Suc n) (m mod 36 ^ Suc n) False [c] = Some (c # s)"
      and v: "\<And>a. foldl (\<lambda>a c. 36 * a + digit36 c) a s = a * 36 ^ Suc n + m mod 36 ^ Suc n"
      by auto
    have "base36_loop (Suc (Suc n)) m True [] = Some (c # s)"
      using base36_loop_step [OF Suc.prems(1,2)] Suc.prems(3) False c(1) s by simp
    moreover have "base36_val (c # s) = m" using c(2) v by (simp add: base36_val_def div_mult_mod_eq del: power_Suc)
    ultimately show ?thesis using c(3) False by blast
  qed
qed

text \<open>The base 36 text of a value below \<open>36 ^ 13\<close> exists, reads back as the value, and has
  no leading zero (zero itself is the one digit).\<close>

theorem base36_to_str_correct:
  assumes "0 \<le> c" and "c < 36 ^ 13"
  shows "\<exists>s. base36_to_str c = Some s \<and> base36_val s = c \<and> s \<noteq> [] \<and> (hd s = CHR ''0'' \<longrightarrow> length s = 1)"
proof -
  obtain d s where "base36_to_str c = Some (d # s)" "base36_val (d # s) = c" "d = CHR ''0'' \<longrightarrow> s = []"
    using base36_loop_canonical [of c 12] assms by (auto simp: base36_to_str_def)
  then show ?thesis by auto
qed

theorem base36_to_str_correct_witness:
  "\<exists>s. base36_to_str 4711 = Some s \<and> base36_val s = 4711 \<and> s \<noteq> [] \<and> (hd s = CHR ''0'' \<longrightarrow> length s = 1)"
  using base36_to_str_correct [of 4711] by simp

text \<open>Digits above the leading one cost no space.\<close>

lemma base36_loop_skip:
  assumes "0 \<le> m" "m < 36 ^ Suc k" "k \<le> n" "n < 13"
  shows "base36_loop (Suc n) m True [] = base36_loop (Suc k) m True []"
  using assms(3,4)
proof (induction n rule: dec_induct)
  case (step n)
  have "(36 :: int) ^ Suc k \<le> 36 ^ Suc n" using step by (intro power_increasing) auto
  with assms(2) have less: "m < 36 ^ Suc n" by linarith
  then have "m div 36 ^ Suc n = 0" "m mod 36 ^ Suc n = m"
    using assms(1) by (simp_all only: zdiv_eq_0_iff mod_pos_pos_trivial) simp_all
  moreover have "(36 :: int) ^ Suc n \<le> 36 ^ Suc (Suc n)" by (intro power_increasing) auto
  with less have "m < 36 ^ Suc (Suc n)" by linarith
  ultimately have "base36_loop (Suc (Suc n)) m True [] = base36_loop (Suc n) m True []"
    using base36_loop_step [OF assms(1), of "Suc n" True "[]"] step by simp
  with step show ?case by simp
qed simp

lemma base36_loop_length: "base36_loop n m d str = Some r \<Longrightarrow> length r \<le> length str + n"
proof (induction n m d str rule: base36_loop.induct)
  case (2 i m d str)
  then show ?case by (auto simp: base36_loop.simps(2) Let_def split: bind_splits if_splits) fastforce+
qed simp

lemma base36_to_str_length:
  assumes "0 \<le> m" "m < 36 ^ Suc k" "k \<le> 12" "base36_to_str m = Some s"
  shows "length s \<le> Suc k"
proof -
  have "base36_loop (Suc k) m True [] = Some s"
    using base36_loop_skip [OF assms(1-3)] assms(4) by (simp add: base36_to_str_def)
  from base36_loop_length [OF this] show ?thesis by simp
qed

section \<open>esp_hap_setup_payload.c\<close>

text \<open>\<open>remove_chars\<close> compacts the string in place; the loop reads index \<open>i\<close> and writes \<open>j \<le> i\<close>.\<close>

fun remove_chars :: "string \<Rightarrow> char \<Rightarrow> string" where
  "remove_chars [] c = []"
| "remove_chars (x # str) c = (if x \<noteq> c then x # remove_chars str c else remove_chars str c)"

text \<open>\<open>atoi\<close> of the C library: white space, a sign, the digits up to the first other
  character. The C standard leaves a value outside \<open>int\<close> undefined (\<open>None\<close>).\<close>

fun atoi_digits :: "int \<Rightarrow> string \<Rightarrow> int" where
  "atoi_digits a [] = a"
| "atoi_digits a (c # s) =
     (if 48 \<le> (of_char c :: nat) \<and> (of_char c :: nat) \<le> 57
      then atoi_digits (10 * a + (of_char c - 48)) s else a)"

fun atoi_space :: "string \<Rightarrow> string" where
  "atoi_space [] = []"
| "atoi_space (c # s) =
     (if c = CHR '' '' \<or> (9 \<le> (of_char c :: nat) \<and> (of_char c :: nat) \<le> 13) then atoi_space s else c # s)"

definition atoi :: "string \<Rightarrow> int option" where
  "atoi str =
     (let s = atoi_space str;
          v = (case s of [] \<Rightarrow> 0
               | c # r \<Rightarrow> if c = CHR ''-'' then - atoi_digits 0 r
                          else if c = CHR ''+'' then atoi_digits 0 r else atoi_digits 0 s)
      in if - (2 ^ 31) \<le> v \<and> v < 2 ^ 31 then Some v else None)"

definition HAP_OVER_IP_MASK :: u64 where "HAP_OVER_IP_MASK = 0x10000000"
definition WAC_MASK :: u64 where "WAC_MASK = 0x40000000"
definition SETUP_PAYLOAD_PREFIX :: string where "SETUP_PAYLOAD_PREFIX = ''X-HM://00''"

definition setup_payload_bits :: "int \<Rightarrow> bool \<Rightarrow> int \<Rightarrow> u64" where
  "setup_payload_bits code wac_support cid =
     (let category = push_bit 31 (of_int cid :: u64);
          payload = 0;
          payload = payload OR of_int code;
          payload = payload OR category;
          payload = payload OR HAP_OVER_IP_MASK
      in if wac_support then payload OR WAC_MASK else payload)"

text \<open>The outer option is undefined behaviour, the inner one the \<open>NULL\<close> result. \<open>snprintf\<close> keeps
  23 characters of the result.\<close>

definition esp_hap_get_setup_payload ::
    "string option \<Rightarrow> string option \<Rightarrow> bool \<Rightarrow> int \<Rightarrow> string option option" where
  "esp_hap_get_setup_payload setup_code setup_id wac_support cid =
     (case (setup_code, setup_id) of
        (Some code, Some sid) \<Rightarrow>
          if length code \<noteq> 10 \<or> length sid \<noteq> 4 then Some None
          else do {
            n \<leftarrow> atoi (remove_chars code CHR ''-'');
            let payload = setup_payload_bits n wac_support cid;
            base36_str \<leftarrow> base36_to_str (sint payload);
            Some (Some (take 23 (SETUP_PAYLOAD_PREFIX @ base36_str @ sid))) }
      | _ \<Rightarrow> Some None)"

text \<open>The fields of the payload do not overlap.\<close>

lemma u64_len: "LENGTH(64) = 64"
  by simp

lemma bit_int_less:
  assumes "0 \<le> k" "k < 2 ^ m" "bit (k :: int) n"
  shows "n < m"
proof (rule ccontr)
  assume "\<not> n < m"
  then have "(2 :: int) ^ m \<le> 2 ^ n" by simp
  with assms(2) have "k < 2 ^ n" by (rule order_less_le_trans)
  with assms(1) have "\<not> bit k n" by (simp add: bit_iff_odd)
  with assms(3) show False by simp
qed

lemma setup_payload_bits_sum:
  assumes "0 \<le> code" "code < 2 ^ 27" "0 \<le> cid" "cid < 2 ^ 8"
  shows "uint (setup_payload_bits code wac cid)
    = code + 2 ^ 28 + (if wac then 2 ^ 30 else 0) + cid * 2 ^ 31"
proof -
  let ?code = "of_int code :: u64" and ?cat = "push_bit 31 (of_int cid) :: u64"
  have code: "n < 27" if "bit code n" for n using bit_int_less [OF assms(1,2) that] .
  have ip: "HAP_OVER_IP_MASK = 2 ^ 28" and wm: "WAC_MASK = 2 ^ 30"
    by (simp_all add: HAP_OVER_IP_MASK_def WAC_MASK_def)
  have disj: "x AND y = 0" if "\<And>k. bit x k \<Longrightarrow> bit y k \<Longrightarrow> False" for x y :: u64
    using that by (intro bit_word_eqI) (auto simp: bit_and_iff)
  have bits: "bit ?code k \<Longrightarrow> k < 27" "bit ?cat k \<Longrightarrow> 31 \<le> k" "bit (2 ^ j :: u64) k \<Longrightarrow> k = j" for j k
    using code by (auto simp only: bit_push_bit_iff bit_word_of_int_iff bit_exp_iff)
  have s1: "?code OR ?cat = ?code + ?cat"
    by (rule disjunctive_add_eq_or [symmetric], rule disj) (auto simp only: bit_or_iff dest!: bits)
  have s2: "(?code OR ?cat) OR 2 ^ 28 = (?code OR ?cat) + 2 ^ 28"
    by (rule disjunctive_add_eq_or [symmetric], rule disj) (auto simp only: bit_or_iff dest!: bits)
  have s3: "((?code OR ?cat) OR 2 ^ 28) OR 2 ^ 30 = ((?code OR ?cat) OR 2 ^ 28) + 2 ^ 30"
    by (rule disjunctive_add_eq_or [symmetric], rule disj) (auto simp only: bit_or_iff dest!: bits)
  have "setup_payload_bits code wac cid
      = of_int (code + 2 ^ 28 + (if wac then 2 ^ 30 else 0) + cid * 2 ^ 31)"
    unfolding setup_payload_bits_def Let_def ip wm or.left_neutral s1 s2 [unfolded s1]
      s3 [unfolded s1, unfolded s2 [unfolded s1]]
    by (simp add: push_bit_eq_mult)
  moreover have "0 \<le> code + 2 ^ 28 + (if wac then 2 ^ 30 else 0) + cid * 2 ^ 31"
    "code + 2 ^ 28 + (if wac then 2 ^ 30 else 0) + cid * 2 ^ 31 < 2 ^ 64"
    using assms by auto
  ultimately show ?thesis by (simp only: uint_of_int_small u64_len)
qed

text \<open>For a setup code of 8 digits with two dashes and a 4 character setup id, the payload
  text is the prefix, the base 36 text of the number packing the code, the over-IP flag, the
  WAC flag and the category, and the setup id, none of it truncated.\<close>

theorem esp_hap_get_setup_payload_correct:
  assumes "length code = 10" and "length sid = 4"
    and "atoi (remove_chars code CHR ''-'') = Some n" and "0 \<le> n" and "n < 10 ^ 8"
    and "0 \<le> cid" and "cid < 2 ^ 8"
  shows "\<exists>b. esp_hap_get_setup_payload (Some code) (Some sid) wac cid
      = Some (Some (SETUP_PAYLOAD_PREFIX @ b @ sid)) \<and>
    base36_val b = n + 2 ^ 28 + (if wac then 2 ^ 30 else 0) + cid * 2 ^ 31"
proof -
  let ?v = "n + 2 ^ 28 + (if wac then 2 ^ 30 else 0) + cid * 2 ^ 31"
  have v: "0 \<le> ?v" "?v < 2 ^ 40" using assms(4-7) by auto
  have u: "uint (setup_payload_bits n wac cid) = ?v"
    using assms(4-7) by (intro setup_payload_bits_sum) auto
  have "sint (setup_payload_bits n wac cid) = signed_take_bit 63 ?v"
    by (simp add: sint_uint u)
  then have si: "sint (setup_payload_bits n wac cid) = ?v" using v by (simp add: signed_take_bit_int_eq_self)
  obtain b where b: "base36_to_str ?v = Some b" "base36_val b = ?v"
    using base36_to_str_correct [of ?v] v by auto
  have "length b \<le> 8" using base36_to_str_length [of ?v 7 b] v b(1) by auto
  then have "take 23 (SETUP_PAYLOAD_PREFIX @ b @ sid) = SETUP_PAYLOAD_PREFIX @ b @ sid"
    using assms(2) by (simp add: SETUP_PAYLOAD_PREFIX_def)
  with b show ?thesis
    by (simp add: esp_hap_get_setup_payload_def assms(1-3) si)
qed

theorem esp_hap_get_setup_payload_correct_witness:
  "\<exists>b. esp_hap_get_setup_payload (Some ''111-22-333'') (Some ''ES32'') False 5
      = Some (Some (SETUP_PAYLOAD_PREFIX @ b @ ''ES32'')) \<and>
    base36_val b = 11122333 + 2 ^ 28 + (if False then 2 ^ 30 else 0) + 5 * 2 ^ 31"
proof -
  have "atoi (remove_chars ''111-22-333'' CHR ''-'') = Some 11122333" by code_simp
  then show ?thesis
    using esp_hap_get_setup_payload_correct [of "''111-22-333''" "''ES32''" 11122333 5 False] by simp
qed

end
