(* ===== verification/Hap_Value.thy ===== *)
theory Hap_Value
  imports Hap_Prelude
begin

text \<open>
  The values of characteristics (\<open>esp_hap_core/include/hap.h\<close>): the value formats, the
  union \<open>hap_val_t\<close> and the comparisons of C on \<open>float\<close>.

  The union is a record. The numeric members \<open>b\<close>, \<open>i\<close>, \<open>u\<close>, \<open>f\<close> and \<open>i64\<close> overlap in
  \<open>val_raw\<close>, the first 8 bytes of the union on the little endian target: writing one of them
  changes the bytes that it covers and keeps the others. The pointer members \<open>s\<close> and \<open>d\<close>
  (\<open>t\<close> is the same structure) are kept apart, with what they point to: the code reads
  them only when the format of the characteristic says that they were written. A \<open>float\<close> is
  its IEEE 754 bit pattern.
\<close>

section \<open>Formats and values\<close>

datatype hap_char_format =
    HAP_CHAR_FORMAT_NONE
  | HAP_CHAR_FORMAT_BOOL
  | HAP_CHAR_FORMAT_UINT8
  | HAP_CHAR_FORMAT_UINT16
  | HAP_CHAR_FORMAT_UINT32
  | HAP_CHAR_FORMAT_UINT64
  | HAP_CHAR_FORMAT_INT
  | HAP_CHAR_FORMAT_FLOAT
  | HAP_CHAR_FORMAT_STRING
  | HAP_CHAR_FORMAT_TLV8
  | HAP_CHAR_FORMAT_DATA

record hap_data_val =
  dv_buf :: "byte list option"
  dv_buflen :: u32

record hap_val =
  val_raw :: u64
  val_s :: "string option"
  val_d :: hap_data_val

definition zero_val :: hap_val where
  "zero_val = \<lparr>val_raw = 0, val_s = None, val_d = \<lparr>dv_buf = None, dv_buflen = 0\<rparr>\<rparr>"

definition val_b :: "hap_val \<Rightarrow> bool" where
  "val_b v \<longleftrightarrow> (ucast (val_raw v) :: byte) \<noteq> 0"

definition val_u :: "hap_val \<Rightarrow> u32" where
  "val_u v = ucast (val_raw v)"

definition val_i :: "hap_val \<Rightarrow> int" where
  "val_i v = sint (val_u v)"

definition val_f :: "hap_val \<Rightarrow> u32" where
  "val_f v = val_u v"

definition set_b :: "bool \<Rightarrow> hap_val \<Rightarrow> hap_val" where
  "set_b b v = v\<lparr>val_raw := push_bit 8 (drop_bit 8 (val_raw v)) OR (if b then 1 else 0)\<rparr>"

definition set_u :: "u32 \<Rightarrow> hap_val \<Rightarrow> hap_val" where
  "set_u w v = v\<lparr>val_raw := push_bit 32 (drop_bit 32 (val_raw v)) OR ucast w\<rparr>"

definition set_i :: "int \<Rightarrow> hap_val \<Rightarrow> hap_val" where
  "set_i n v = set_u (word_of_int n) v"

definition set_f :: "u32 \<Rightarrow> hap_val \<Rightarrow> hap_val" where
  "set_f w v = set_u w v"

lemma ucast_low:
  "(ucast (push_bit n (drop_bit n (x :: u64)) OR ucast (w :: 'a::len word)) :: 'a word) = w"
  if "LENGTH('a) \<le> n" "LENGTH('a) \<le> 64"
  using that by (auto intro!: bit_word_eqI simp: bit_simps)

lemma val_u_set_u [simp]: "val_u (set_u w v) = w"
  unfolding val_u_def set_u_def using ucast_low [where 'a = 32 and n = 32] by simp

lemma val_b_set_b [simp]: "val_b (set_b b v) = b"
proof -
  have "ucast (push_bit 8 (drop_bit 8 (val_raw v)) OR ucast (if b then 1 else (0 :: byte))) =
      (if b then 1 else (0 :: byte))"
    by (rule ucast_low) simp_all
  then show ?thesis
    unfolding val_b_def set_b_def by (cases b) (simp_all add: unsigned_1 unsigned_0)
qed

lemma val_f_set_f [simp]: "val_f (set_f w v) = w"
  by (simp add: val_f_def set_f_def)

lemma val_i_set_i: "val_i (set_i n v) = signed_take_bit 31 n"
  by (simp add: val_i_def set_i_def sint_sbintrunc' signed_of_int)

lemma val_i_set_i_small [simp]:
  "- (2 ^ 31) \<le> n \<Longrightarrow> n < 2 ^ 31 \<Longrightarrow> val_i (set_i n v) = n"
  by (simp add: val_i_set_i signed_take_bit_int_eq_self)

lemma set_simps [simp]:
  "val_s (set_u w v) = val_s v" "val_d (set_u w v) = val_d v"
  "val_s (set_b b v) = val_s v" "val_d (set_b b v) = val_d v"
  "val_s (set_i n v) = val_s v" "val_d (set_i n v) = val_d v"
  "val_s (set_f w v) = val_s v" "val_d (set_f w v) = val_d v"
  by (simp_all add: set_u_def set_b_def set_i_def set_f_def)

lemma val_i_range: "- (2 ^ 31) \<le> val_i v" "val_i v < 2 ^ 31"
  using sint_range_size [of "val_u v"] by (simp_all add: val_i_def word_size)

section \<open>Comparison of floats\<close>

text \<open>
  A pattern is a NaN when the exponent is all ones and the fraction is not zero. Two patterns
  that are no NaN compare like their sign and magnitude, with one zero.
\<close>

definition f32_nan :: "u32 \<Rightarrow> bool" where
  "f32_nan w \<longleftrightarrow> w AND 0x7F800000 = 0x7F800000 \<and> w AND 0x007FFFFF \<noteq> 0"

definition f32_key :: "u32 \<Rightarrow> int" where
  "f32_key w = (if bit w 31 then - uint (w AND 0x7FFFFFFF) else uint (w AND 0x7FFFFFFF))"

definition f32_less :: "u32 \<Rightarrow> u32 \<Rightarrow> bool" where
  "f32_less a b \<longleftrightarrow> \<not> f32_nan a \<and> \<not> f32_nan b \<and> f32_key a < f32_key b"

definition f32_neq :: "u32 \<Rightarrow> u32 \<Rightarrow> bool" where
  "f32_neq a b \<longleftrightarrow> f32_nan a \<or> f32_nan b \<or> f32_key a \<noteq> f32_key b"

text \<open>0.0, -0.0, 1.0, -1.0, 0.5 and a NaN.\<close>

lemma f32_examples:
  "\<not> f32_neq 0 0x80000000" "f32_less 0 0x3F800000" "f32_less 0xBF800000 0"
  "f32_less 0x3F000000 0x3F800000" "\<not> f32_less 0x7FC00000 0" "\<not> f32_less 0 0x7FC00000"
  "f32_neq 0x7FC00000 0x7FC00000"
  by code_simp+

lemma f32_less_irrefl [simp]: "\<not> f32_less a a"
  by (simp add: f32_less_def)

lemma f32_less_trans: "f32_less a b \<Longrightarrow> f32_less b c \<Longrightarrow> f32_less a c"
  by (simp add: f32_less_def)

lemma f32_total: "\<not> f32_nan a \<Longrightarrow> \<not> f32_nan b \<Longrightarrow> f32_less a b \<or> f32_less b a \<or> \<not> f32_neq a b"
  by (auto simp: f32_less_def f32_neq_def)

end
