(* ===== verification/Hap_Objs.thy ===== *)
theory Hap_Objs
  imports Hap_Value
begin

text \<open>
  The objects of the accessory database and the two queues: the structures of
  \<open>esp_hap_char.h\<close>, \<open>esp_hap_serv.h\<close> and \<open>esp_hap_acc.h\<close>, the heap that holds them, and
  \<open>hap_send_event\<close> of \<open>esp_hap_main.c\<close>.

  A pointer is \<open>ptr option\<close>, \<open>None\<close> for NULL; every kind of object has a map from addresses
  to its live objects. A function of the code is a function of the state; its result is
  \<open>None\<close> when the code dereferences NULL or a freed object, when it overflows a signed
  integer, and when it stops in \<open>ESP_MFI_ASSERT\<close> (which blocks forever).

  \<open>malloc_ok\<close> and \<open>queue_ok\<close> stand for the platform: whether the n-th allocation succeeds,
  and whether a FreeRTOS queue of some length takes one more item when some are waiting.
  Nothing is assumed of them here.
\<close>

section \<open>The structures\<close>

datatype hap_internal_event =
    HAP_INTERNAL_EVENT_LOOP_STOP
  | HAP_INTERNAL_EVENT_ACC_PAIRED
  | HAP_INTERNAL_EVENT_ACC_UNPAIRED
  | HAP_INTERNAL_EVENT_CONFIG_NUM_UPDATED
  | HAP_INTERNAL_EVENT_BCT_CHANGE_NAME
  | HAP_INTERNAL_EVENT_BCT_HOT_PLUG
  | HAP_INTERNAL_EVENT_RESET_PAIRINGS
  | HAP_INTERNAL_EVENT_RESET_TO_FACTORY
  | HAP_INTERNAL_EVENT_REBOOT
  | HAP_INTERNAL_EVENT_RESET_NETWORK
  | HAP_INTERNAL_EVENT_TRIGGER_NOTIF
  | HAP_INTERNAL_EVENT_RESET_HOMEKIT_DATA

record hap_char =
  c_iid :: u32
  c_type_uuid :: string
  c_permission :: u16
  c_format :: hap_char_format
  c_val :: hap_val
  c_ev :: bool
  c_description :: "string option"
  c_unit :: "string option"
  c_parent :: "ptr option"
  c_constraint_flags :: byte
  c_max :: hap_val
  c_min :: hap_val
  c_step :: hap_val
  c_next_char :: "ptr option"
  c_ev_ctrls :: u16
  c_owner_ctrl :: u16
  c_valid_vals_range :: "byte list option"
  c_valid_vals :: "byte list option"
  c_valid_vals_cnt :: nat
  c_update_called :: bool

text \<open>Function pointers: the functions of the library, or the application's, by a number.\<close>

datatype serv_write_fn = Write_acc_info | Write_app nat
datatype serv_bulk_read_fn = Bulk_read_def | Bulk_read_app nat

record hap_linked_serv =
  l_hs :: ptr
  l_next :: "ptr option"

record hap_serv =
  s_type_uuid :: string
  s_iid :: u32
  s_hidden :: bool
  s_primary :: bool
  s_chars :: "ptr option"
  s_parent :: "ptr option"
  s_next_serv :: "ptr option"
  s_write_cb :: "serv_write_fn option"
  s_read_cb :: "nat option"
  s_bulk_read :: "serv_bulk_read_fn option"
  s_linked_servs :: "ptr option"
  s_priv :: "ptr option"

record hap_acc =
  a_next :: "ptr option"
  a_aid :: u32
  a_servs :: "ptr option"
  a_power_off :: bool
  a_next_iid :: u32
  a_identify_routine :: "nat option"

text \<open>
  The configuration of an accessory (\<open>hap_acc_cfg_t\<close>): strings that may be NULL, the category
  and the identify routine.
\<close>

record hap_acc_cfg =
  cfg_name :: "string option"
  cfg_model :: "string option"
  cfg_manufacturer :: "string option"
  cfg_serial_num :: "string option"
  cfg_fw_rev :: "string option"
  cfg_hw_rev :: "string option"
  cfg_pv :: "string option"
  cfg_cid :: nat
  cfg_identify_routine :: "nat option"

record 'a rtos_queue =
  q_length :: nat
  q_items :: "'a list"

record hap_objs =
  char_at :: "ptr \<rightharpoonup> hap_char"
  serv_at :: "ptr \<rightharpoonup> hap_serv"
  acc_at :: "ptr \<rightharpoonup> hap_acc"
  link_at :: "ptr \<rightharpoonup> hap_linked_serv"
  next_addr :: ptr
  malloc_ok :: "nat \<Rightarrow> bool"
  primary_acc :: "ptr option"
  hap_event_queue :: "ptr rtos_queue option"
  loop_started :: bool
  xQueue :: "hap_internal_event rtos_queue option"
  queue_ok :: "nat \<Rightarrow> nat \<Rightarrow> bool"

text \<open>
  The state at power on (the static variables are zero), on a platform where every allocation
  succeeds and a queue takes as many items as its length: the concrete state of the examples.
\<close>

definition boot_objs :: hap_objs where
  "boot_objs = \<lparr>char_at = Map.empty, serv_at = Map.empty, acc_at = Map.empty, link_at = Map.empty,
     next_addr = 0, malloc_ok = \<lambda>_. True, primary_acc = None, hap_event_queue = None,
     loop_started = False, xQueue = None, queue_ok = \<lambda>n k. k < n\<rparr>"

section \<open>The heap\<close>

text \<open>Every attempt to allocate takes the next number, whether it succeeds or not.\<close>

definition new_addr :: "'s hap_objs_scheme \<Rightarrow> ptr option \<times> 's hap_objs_scheme" where
  "new_addr st = (if malloc_ok st (next_addr st) then Some (next_addr st) else None,
     st\<lparr>next_addr := Suc (next_addr st)\<rparr>)"

definition get_char :: "ptr option \<Rightarrow> 's hap_objs_scheme \<Rightarrow> hap_char option" where
  "get_char hc st = do { p \<leftarrow> hc; char_at st p }"

definition get_serv :: "ptr option \<Rightarrow> 's hap_objs_scheme \<Rightarrow> hap_serv option" where
  "get_serv hs st = do { p \<leftarrow> hs; serv_at st p }"

definition get_acc :: "ptr option \<Rightarrow> 's hap_objs_scheme \<Rightarrow> hap_acc option" where
  "get_acc ha st = do { p \<leftarrow> ha; acc_at st p }"

definition upd_char ::
    "ptr option \<Rightarrow> (hap_char \<Rightarrow> hap_char) \<Rightarrow> 's hap_objs_scheme \<Rightarrow> 's hap_objs_scheme option" where
  "upd_char hc f st = do { p \<leftarrow> hc; c \<leftarrow> char_at st p; Some (st\<lparr>char_at := (char_at st)(p \<mapsto> f c)\<rparr>) }"

definition upd_serv ::
    "ptr option \<Rightarrow> (hap_serv \<Rightarrow> hap_serv) \<Rightarrow> 's hap_objs_scheme \<Rightarrow> 's hap_objs_scheme option" where
  "upd_serv hs f st = do { p \<leftarrow> hs; s \<leftarrow> serv_at st p; Some (st\<lparr>serv_at := (serv_at st)(p \<mapsto> f s)\<rparr>) }"

definition upd_acc ::
    "ptr option \<Rightarrow> (hap_acc \<Rightarrow> hap_acc) \<Rightarrow> 's hap_objs_scheme \<Rightarrow> 's hap_objs_scheme option" where
  "upd_acc ha f st = do { p \<leftarrow> ha; a \<leftarrow> acc_at st p; Some (st\<lparr>acc_at := (acc_at st)(p \<mapsto> f a)\<rparr>) }"

lemmas heap_defs = get_char_def get_serv_def get_acc_def upd_char_def upd_serv_def upd_acc_def

lemma heap_get_simps [simp]:
  "get_char None st = None" "get_serv None st = None" "get_acc None st = None"
  "get_char (Some p) st = char_at st p" "get_serv (Some p) st = serv_at st p"
  "get_acc (Some p) st = acc_at st p"
  by (simp_all add: heap_defs)

lemma heap_upd_simps [simp]:
  "upd_char None f st = None" "upd_serv None g st = None" "upd_acc None h st = None"
  "char_at st p = Some c \<Longrightarrow> upd_char (Some p) f st = Some (st\<lparr>char_at := (char_at st)(p \<mapsto> f c)\<rparr>)"
  "serv_at st p = Some s \<Longrightarrow> upd_serv (Some p) g st = Some (st\<lparr>serv_at := (serv_at st)(p \<mapsto> g s)\<rparr>)"
  "acc_at st p = Some a \<Longrightarrow> upd_acc (Some p) h st = Some (st\<lparr>acc_at := (acc_at st)(p \<mapsto> h a)\<rparr>)"
  "char_at st p = None \<Longrightarrow> upd_char (Some p) f st = None"
  "serv_at st p = None \<Longrightarrow> upd_serv (Some p) g st = None"
  "acc_at st p = None \<Longrightarrow> upd_acc (Some p) h st = None"
  by (simp_all add: heap_defs)

text \<open>The links: the \<open>next\<close> pointer of an object, \<open>None\<close> when there is no object.\<close>

definition char_next :: "'s hap_objs_scheme \<Rightarrow> ptr \<Rightarrow> ptr option option" where
  "char_next st p = map_option c_next_char (char_at st p)"

definition serv_next :: "'s hap_objs_scheme \<Rightarrow> ptr \<Rightarrow> ptr option option" where
  "serv_next st p = map_option s_next_serv (serv_at st p)"

definition acc_next :: "'s hap_objs_scheme \<Rightarrow> ptr \<Rightarrow> ptr option option" where
  "acc_next st p = map_option a_next (acc_at st p)"

definition link_next :: "'s hap_objs_scheme \<Rightarrow> ptr \<Rightarrow> ptr option option" where
  "link_next st p = map_option l_next (link_at st p)"

text \<open>No live object lies at an address that is still to be handed out.\<close>

definition heap_ok :: "'s hap_objs_scheme \<Rightarrow> bool" where
  "heap_ok st \<longleftrightarrow> (\<forall>p \<ge> next_addr st. char_at st p = None \<and> serv_at st p = None \<and>
     acc_at st p = None \<and> link_at st p = None)"

lemma heap_ok_fresh:
  "heap_ok st \<Longrightarrow> next_addr st \<le> p \<Longrightarrow> char_at st p = None"
  "heap_ok st \<Longrightarrow> next_addr st \<le> p \<Longrightarrow> serv_at st p = None"
  "heap_ok st \<Longrightarrow> next_addr st \<le> p \<Longrightarrow> acc_at st p = None"
  "heap_ok st \<Longrightarrow> next_addr st \<le> p \<Longrightarrow> link_at st p = None"
  by (auto simp: heap_ok_def)

lemma heap_ok_less:
  "heap_ok st \<Longrightarrow> char_at st p = Some c \<Longrightarrow> p < next_addr st"
  "heap_ok st \<Longrightarrow> serv_at st p = Some s \<Longrightarrow> p < next_addr st"
  "heap_ok st \<Longrightarrow> acc_at st p = Some a \<Longrightarrow> p < next_addr st"
  by - (metis heap_ok_fresh not_le option.distinct(1))+

lemma new_addr_props:
  assumes "new_addr st = (r, st')"
  shows "st' = st\<lparr>next_addr := Suc (next_addr st)\<rparr>" "r = Some p \<Longrightarrow> p = next_addr st"
    "heap_ok st \<Longrightarrow> heap_ok st'"
  using assms by (auto simp: new_addr_def heap_ok_def split: if_splits)

text \<open>Memory that never runs out.\<close>

definition memory_ok :: "'s hap_objs_scheme \<Rightarrow> bool" where
  "memory_ok st \<longleftrightarrow> (\<forall>k. malloc_ok st k)"

lemma memory_ok_next [simp]: "memory_ok (st\<lparr>next_addr := a\<rparr>) = memory_ok st"
  by (simp add: memory_ok_def)

lemma new_addr_ok [simp]:
  "memory_ok st \<Longrightarrow> new_addr st = (Some (next_addr st), st\<lparr>next_addr := Suc (next_addr st)\<rparr>)"
  by (simp add: memory_ok_def new_addr_def)

section \<open>The event queue of the main loop\<close>

text \<open>
  \<open>xQueueSend\<close> with no waiting and \<open>xQueueSendFromISR\<close> do the same to the queue: the test
  for the interrupt context only picks the call.
\<close>

definition xQueueSend :: "(nat \<Rightarrow> nat \<Rightarrow> bool) \<Rightarrow> 'a rtos_queue \<Rightarrow> 'a \<Rightarrow> 'a rtos_queue option" where
  "xQueueSend ok q x =
     (if ok (q_length q) (length (q_items q)) then Some (q\<lparr>q_items := q_items q @ [x]\<rparr>) else None)"

definition hap_send_event ::
    "hap_internal_event \<Rightarrow> 's hap_objs_scheme \<Rightarrow> int \<times> 's hap_objs_scheme" where
  "hap_send_event event st =
     (if \<not> loop_started st then (HAP_FAIL, st)
      else case xQueue st of
        None \<Rightarrow> (HAP_FAIL, st)
      | Some q \<Rightarrow> (case xQueueSend (queue_ok st) q event of
          None \<Rightarrow> (HAP_FAIL, st)
        | Some q \<Rightarrow> (HAP_SUCCESS, st\<lparr>xQueue := Some q\<rparr>)))"

definition hap_update_config_number :: "'s hap_objs_scheme \<Rightarrow> int \<times> 's hap_objs_scheme" where
  "hap_update_config_number st = hap_send_event HAP_INTERNAL_EVENT_CONFIG_NUM_UPDATED st"

definition hap_loop_stop :: "'s hap_objs_scheme \<Rightarrow> int \<times> 's hap_objs_scheme" where
  "hap_loop_stop st = hap_send_event HAP_INTERNAL_EVENT_LOOP_STOP st"

definition hap_reset_to_factory :: "'s hap_objs_scheme \<Rightarrow> int \<times> 's hap_objs_scheme" where
  "hap_reset_to_factory st = hap_send_event HAP_INTERNAL_EVENT_RESET_TO_FACTORY st"

definition hap_reset_homekit_data :: "'s hap_objs_scheme \<Rightarrow> int \<times> 's hap_objs_scheme" where
  "hap_reset_homekit_data st = hap_send_event HAP_INTERNAL_EVENT_RESET_HOMEKIT_DATA st"

definition hap_reset_pairings :: "'s hap_objs_scheme \<Rightarrow> int \<times> 's hap_objs_scheme" where
  "hap_reset_pairings st = hap_send_event HAP_INTERNAL_EVENT_RESET_PAIRINGS st"

definition hap_reboot_accessory :: "'s hap_objs_scheme \<Rightarrow> int \<times> 's hap_objs_scheme" where
  "hap_reboot_accessory st = hap_send_event HAP_INTERNAL_EVENT_REBOOT st"

definition hap_reset_network :: "'s hap_objs_scheme \<Rightarrow> int \<times> 's hap_objs_scheme" where
  "hap_reset_network st = hap_send_event HAP_INTERNAL_EVENT_RESET_NETWORK st"

lemma hap_send_event_frame:
  "\<exists>q. snd (hap_send_event ev st) = st\<lparr>xQueue := q\<rparr>"
proof -
  have "st = st\<lparr>xQueue := xQueue st\<rparr>" by simp
  then have st: "\<exists>q. st = st\<lparr>xQueue := q\<rparr>" by blast
  then show ?thesis
    by (cases "xQueue st") (auto simp: hap_send_event_def split: option.split)
qed

lemma hap_send_event_queue:
  "fst (hap_send_event ev st) = HAP_SUCCESS \<longleftrightarrow>
     loop_started st \<and> (\<exists>q. xQueue st = Some q \<and> queue_ok st (q_length q) (length (q_items q)))"
  "fst (hap_send_event ev st) = HAP_SUCCESS \<Longrightarrow> xQueue st = Some q \<Longrightarrow>
     xQueue (snd (hap_send_event ev st)) = Some (q\<lparr>q_items := q_items q @ [ev]\<rparr>)"
  "fst (hap_send_event ev st) \<noteq> HAP_SUCCESS \<Longrightarrow> snd (hap_send_event ev st) = st"
  by (auto simp: hap_send_event_def xQueueSend_def split: option.split if_splits)

end
