(* ===== verification/Hap_Char.thy ===== *)
theory Hap_Char
  imports Hap_Objs
begin

text \<open>
  Characteristics (\<open>esp_hap_core/src/esp_hap_char.c\<close>): constructors, accessors, constraints,
  the update of a value with its notification, and the two bitmaps of controllers
  (subscribed to events, owner of the last change). \<open>hap_disable_all_char_notif\<close> walks the
  accessories and is in \<open>Hap_Acc\<close>.
\<close>

section \<open>Constants\<close>

definition HAP_CHAR_PERM_PR :: u16 where "HAP_CHAR_PERM_PR = 0x01"
definition HAP_CHAR_PERM_PW :: u16 where "HAP_CHAR_PERM_PW = 0x02"
definition HAP_CHAR_PERM_EV :: u16 where "HAP_CHAR_PERM_EV = 0x04"
definition HAP_CHAR_PERM_AA :: u16 where "HAP_CHAR_PERM_AA = 0x08"
definition HAP_CHAR_PERM_TW :: u16 where "HAP_CHAR_PERM_TW = 0x10"
definition HAP_CHAR_PERM_HD :: u16 where "HAP_CHAR_PERM_HD = 0x20"
definition HAP_CHAR_PERM_SPECIAL_READ :: u16 where "HAP_CHAR_PERM_SPECIAL_READ = 0x40"

definition HAP_CHAR_MIN_FLAG :: byte where "HAP_CHAR_MIN_FLAG = 0x01"
definition HAP_CHAR_MAX_FLAG :: byte where "HAP_CHAR_MAX_FLAG = 0x02"
definition HAP_CHAR_STEP_FLAG :: byte where "HAP_CHAR_STEP_FLAG = 0x04"
definition HAP_CHAR_MAXLEN_FLAG :: byte where "HAP_CHAR_MAXLEN_FLAG = 0x08"

definition HAP_CHAR_STRING_MAX_LEN :: nat where "HAP_CHAR_STRING_MAX_LEN = 256"

lemmas perm_defs = HAP_CHAR_PERM_PR_def HAP_CHAR_PERM_PW_def HAP_CHAR_PERM_EV_def
  HAP_CHAR_PERM_AA_def HAP_CHAR_PERM_TW_def HAP_CHAR_PERM_HD_def HAP_CHAR_PERM_SPECIAL_READ_def

lemmas flag_defs = HAP_CHAR_MIN_FLAG_def HAP_CHAR_MAX_FLAG_def HAP_CHAR_STEP_FLAG_def
  HAP_CHAR_MAXLEN_FLAG_def

section \<open>Accessors\<close>

definition hap_char_has_permission :: "hap_char \<Rightarrow> u16 \<Rightarrow> bool" where
  "hap_char_has_permission c permission \<longleftrightarrow> c_permission c AND permission \<noteq> 0"

text \<open>The functions that return a pointer into the object return what it points to.\<close>

definition esp_mfi_characteristics_get_value ::
    "ptr option \<Rightarrow> 's hap_objs_scheme \<Rightarrow> hap_val option" where
  "esp_mfi_characteristics_get_value hc st = do { c \<leftarrow> get_char hc st; Some (c_val c) }"

definition hap_char_get_val :: "ptr option \<Rightarrow> 's hap_objs_scheme \<Rightarrow> hap_val option option" where
  "hap_char_get_val hc st =
     (if hc = None then Some None else do { c \<leftarrow> get_char hc st; Some (Some (c_val c)) })"

definition hap_char_get_min_val :: "ptr option \<Rightarrow> 's hap_objs_scheme \<Rightarrow> hap_val option option" where
  "hap_char_get_min_val hc st =
     (if hc = None then Some None else do {
        c \<leftarrow> get_char hc st;
        Some (if c_constraint_flags c AND HAP_CHAR_MIN_FLAG \<noteq> 0 then Some (c_min c) else None) })"

definition hap_char_get_max_val :: "ptr option \<Rightarrow> 's hap_objs_scheme \<Rightarrow> hap_val option option" where
  "hap_char_get_max_val hc st =
     (if hc = None then Some None else do {
        c \<leftarrow> get_char hc st;
        Some (if c_constraint_flags c AND HAP_CHAR_MAX_FLAG \<noteq> 0 \<or>
                 c_constraint_flags c AND HAP_CHAR_MAXLEN_FLAG \<noteq> 0
              then Some (c_max c) else None) })"

definition hap_char_get_step_val :: "ptr option \<Rightarrow> 's hap_objs_scheme \<Rightarrow> hap_val option option" where
  "hap_char_get_step_val hc st =
     (if hc = None then Some None else do {
        c \<leftarrow> get_char hc st;
        Some (if c_constraint_flags c AND HAP_CHAR_STEP_FLAG \<noteq> 0 then Some (c_step c) else None) })"

definition hap_char_get_iid :: "ptr option \<Rightarrow> 's hap_objs_scheme \<Rightarrow> u32 option" where
  "hap_char_get_iid hc st = do { c \<leftarrow> get_char hc st; Some (c_iid c) }"

definition hap_char_get_type_uuid :: "ptr option \<Rightarrow> 's hap_objs_scheme \<Rightarrow> string option" where
  "hap_char_get_type_uuid hc st = do { c \<leftarrow> get_char hc st; Some (c_type_uuid c) }"

definition hap_char_get_perm :: "ptr option \<Rightarrow> 's hap_objs_scheme \<Rightarrow> u16 option" where
  "hap_char_get_perm hc st =
     (if hc = None then Some 0 else do { c \<leftarrow> get_char hc st; Some (c_permission c) })"

definition hap_char_get_format :: "ptr option \<Rightarrow> 's hap_objs_scheme \<Rightarrow> hap_char_format option" where
  "hap_char_get_format hc st =
     (if hc = None then Some HAP_CHAR_FORMAT_NONE else do { c \<leftarrow> get_char hc st; Some (c_format c) })"

definition hap_char_get_next :: "ptr option \<Rightarrow> 's hap_objs_scheme \<Rightarrow> ptr option option" where
  "hap_char_get_next hc st = do { c \<leftarrow> get_char hc st; Some (c_next_char c) }"

definition hap_char_get_parent :: "ptr option \<Rightarrow> 's hap_objs_scheme \<Rightarrow> ptr option option" where
  "hap_char_get_parent hc st = do { c \<leftarrow> get_char hc st; Some (c_parent c) }"

definition hap_char_set_iid ::
    "ptr option \<Rightarrow> u32 \<Rightarrow> 's hap_objs_scheme \<Rightarrow> 's hap_objs_scheme option" where
  "hap_char_set_iid hc iid st =
     (if hc = None then Some st else upd_char hc (\<lambda>c. c\<lparr>c_iid := iid\<rparr>) st)"

definition hap_char_add_description ::
    "ptr option \<Rightarrow> string option \<Rightarrow> 's hap_objs_scheme \<Rightarrow> 's hap_objs_scheme option" where
  "hap_char_add_description hc description st =
     upd_char hc (\<lambda>c. c\<lparr>c_description := description\<rparr>) st"

definition hap_char_add_unit ::
    "ptr option \<Rightarrow> string option \<Rightarrow> 's hap_objs_scheme \<Rightarrow> 's hap_objs_scheme option" where
  "hap_char_add_unit hc u st = upd_char hc (\<lambda>c. c\<lparr>c_unit := u\<rparr>) st"

section \<open>Constructors\<close>

text \<open>
  \<open>calloc\<close> gives an object of zeros. The members that the initialiser of a union leaves out
  are zero here; the code reads only the member that it wrote. \<open>type_uuid\<close> is not NULL.
\<close>

definition zero_char :: hap_char where
  "zero_char = \<lparr>c_iid = 0, c_type_uuid = [], c_permission = 0, c_format = HAP_CHAR_FORMAT_NONE,
     c_val = zero_val, c_ev = False, c_description = None, c_unit = None, c_parent = None,
     c_constraint_flags = 0, c_max = zero_val, c_min = zero_val, c_step = zero_val,
     c_next_char = None, c_ev_ctrls = 0, c_owner_ctrl = 0, c_valid_vals_range = None,
     c_valid_vals = None, c_valid_vals_cnt = 0, c_update_called = False\<rparr>"

lemma zero_char_simps [simp]:
  "c_parent zero_char = None" "c_next_char zero_char = None" "c_constraint_flags zero_char = 0"
  "c_ev_ctrls zero_char = 0" "c_owner_ctrl zero_char = 0" "c_iid zero_char = 0"
  "c_description zero_char = None" "c_unit zero_char = None" "c_min zero_char = zero_val"
  "c_max zero_char = zero_val" "c_step zero_char = zero_val"
  by (simp_all add: zero_char_def)

definition hap_char_create ::
    "string \<Rightarrow> u32 \<Rightarrow> hap_char_format \<Rightarrow> hap_val \<Rightarrow> 's hap_objs_scheme \<Rightarrow>
     ptr option \<times> 's hap_objs_scheme" where
  "hap_char_create type_uuid permission format v st =
     (if format = HAP_CHAR_FORMAT_STRING \<and>
         (case val_s v of None \<Rightarrow> False | Some s \<Rightarrow> length s > HAP_CHAR_STRING_MAX_LEN)
      then (None, st)
      else case new_addr st of
        (None, st) \<Rightarrow> (None, st)
      | (Some p, st) \<Rightarrow>
          (Some p, st\<lparr>char_at := (char_at st)(p \<mapsto> zero_char\<lparr>c_val := v, c_type_uuid := type_uuid,
             c_format := format, c_permission := ucast permission\<rparr>)\<rparr>))"

definition hap_char_bool_create ::
    "string \<Rightarrow> u16 \<Rightarrow> bool \<Rightarrow> 's hap_objs_scheme \<Rightarrow> ptr option \<times> 's hap_objs_scheme" where
  "hap_char_bool_create type_uuid perms b st =
     hap_char_create type_uuid (ucast perms) HAP_CHAR_FORMAT_BOOL (set_b b zero_val) st"

definition hap_char_uint8_create ::
    "string \<Rightarrow> u16 \<Rightarrow> byte \<Rightarrow> 's hap_objs_scheme \<Rightarrow> ptr option \<times> 's hap_objs_scheme" where
  "hap_char_uint8_create type_uuid perms u8 st =
     hap_char_create type_uuid (ucast perms) HAP_CHAR_FORMAT_UINT8 (set_u (ucast u8) zero_val) st"

definition hap_char_uint16_create ::
    "string \<Rightarrow> u16 \<Rightarrow> u16 \<Rightarrow> 's hap_objs_scheme \<Rightarrow> ptr option \<times> 's hap_objs_scheme" where
  "hap_char_uint16_create type_uuid perms w st =
     hap_char_create type_uuid (ucast perms) HAP_CHAR_FORMAT_UINT16 (set_u (ucast w) zero_val) st"

definition hap_char_uint32_create ::
    "string \<Rightarrow> u16 \<Rightarrow> u32 \<Rightarrow> 's hap_objs_scheme \<Rightarrow> ptr option \<times> 's hap_objs_scheme" where
  "hap_char_uint32_create type_uuid perms w st =
     hap_char_create type_uuid (ucast perms) HAP_CHAR_FORMAT_UINT32 (set_u w zero_val) st"

definition hap_char_uint64_create ::
    "string \<Rightarrow> u16 \<Rightarrow> u64 \<Rightarrow> 's hap_objs_scheme \<Rightarrow> ptr option \<times> 's hap_objs_scheme" where
  "hap_char_uint64_create type_uuid perms w st =
     hap_char_create type_uuid (ucast perms) HAP_CHAR_FORMAT_UINT64 (zero_val\<lparr>val_raw := w\<rparr>) st"

definition hap_char_int_create ::
    "string \<Rightarrow> u16 \<Rightarrow> int \<Rightarrow> 's hap_objs_scheme \<Rightarrow> ptr option \<times> 's hap_objs_scheme" where
  "hap_char_int_create type_uuid perms i32 st =
     hap_char_create type_uuid (ucast perms) HAP_CHAR_FORMAT_INT (set_i i32 zero_val) st"

definition hap_char_float_create ::
    "string \<Rightarrow> u16 \<Rightarrow> u32 \<Rightarrow> 's hap_objs_scheme \<Rightarrow> ptr option \<times> 's hap_objs_scheme" where
  "hap_char_float_create type_uuid perms f st =
     hap_char_create type_uuid (ucast perms) HAP_CHAR_FORMAT_FLOAT (set_f f zero_val) st"

text \<open>\<open>strdup\<close> gives NULL when its allocation fails.\<close>

definition strdup :: "string \<Rightarrow> 's hap_objs_scheme \<Rightarrow> string option \<times> 's hap_objs_scheme" where
  "strdup s st = (case new_addr st of (r, st) \<Rightarrow> (if r = None then None else Some s, st))"

definition hap_char_string_create ::
    "string \<Rightarrow> u16 \<Rightarrow> string option \<Rightarrow> 's hap_objs_scheme \<Rightarrow> ptr option \<times> 's hap_objs_scheme" where
  "hap_char_string_create type_uuid perms s st =
     (case (case s of Some s \<Rightarrow> strdup s st | None \<Rightarrow> (None, st)) of (r, st) \<Rightarrow>
        hap_char_create type_uuid (ucast perms) HAP_CHAR_FORMAT_STRING (zero_val\<lparr>val_s := r\<rparr>) st)"

definition hap_char_data_create ::
    "string \<Rightarrow> u16 \<Rightarrow> hap_data_val option \<Rightarrow> 's hap_objs_scheme \<Rightarrow> ptr option \<times> 's hap_objs_scheme" where
  "hap_char_data_create type_uuid perms d st =
     hap_char_create type_uuid (ucast perms) HAP_CHAR_FORMAT_DATA
       (case d of None \<Rightarrow> zero_val | Some d \<Rightarrow> zero_val\<lparr>val_d := d\<rparr>) st"

definition hap_char_tlv8_create ::
    "string \<Rightarrow> u16 \<Rightarrow> hap_data_val option \<Rightarrow> 's hap_objs_scheme \<Rightarrow> ptr option \<times> 's hap_objs_scheme" where
  "hap_char_tlv8_create type_uuid perms t st =
     hap_char_create type_uuid (ucast perms) HAP_CHAR_FORMAT_TLV8
       (case t of None \<Rightarrow> zero_val | Some t \<Rightarrow> zero_val\<lparr>val_d := t\<rparr>) st"

lemmas char_create_defs = hap_char_bool_create_def hap_char_uint8_create_def
  hap_char_uint16_create_def hap_char_uint32_create_def hap_char_uint64_create_def
  hap_char_int_create_def hap_char_float_create_def hap_char_string_create_def
  hap_char_data_create_def hap_char_tlv8_create_def

text \<open>Freeing the strings and arrays of the object is freeing the object itself here.\<close>

definition hap_char_delete :: "ptr option \<Rightarrow> 's hap_objs_scheme \<Rightarrow> 's hap_objs_scheme option" where
  "hap_char_delete hc st = do {
     p \<leftarrow> hc;
     _ \<leftarrow> char_at st p;
     Some (st\<lparr>char_at := (char_at st)(p := None)\<rparr>) }"

section \<open>Constraints\<close>

definition hap_char_int_set_constraints ::
    "ptr option \<Rightarrow> int \<Rightarrow> int \<Rightarrow> int \<Rightarrow> 's hap_objs_scheme \<Rightarrow> 's hap_objs_scheme option" where
  "hap_char_int_set_constraints hc mn mx stp st =
     upd_char hc (\<lambda>c. c\<lparr>c_min := set_i mn (c_min c), c_max := set_i mx (c_max c),
        c_step := set_i stp (c_step c),
        c_constraint_flags := c_constraint_flags c OR
          (if stp \<noteq> 0 then HAP_CHAR_MIN_FLAG OR HAP_CHAR_MAX_FLAG OR HAP_CHAR_STEP_FLAG
           else HAP_CHAR_MIN_FLAG OR HAP_CHAR_MAX_FLAG)\<rparr>) st"

definition hap_char_float_set_constraints ::
    "ptr option \<Rightarrow> u32 \<Rightarrow> u32 \<Rightarrow> u32 \<Rightarrow> 's hap_objs_scheme \<Rightarrow> 's hap_objs_scheme option" where
  "hap_char_float_set_constraints hc mn mx stp st =
     upd_char hc (\<lambda>c. c\<lparr>c_min := set_f mn (c_min c), c_max := set_f mx (c_max c),
        c_step := set_f stp (c_step c),
        c_constraint_flags := c_constraint_flags c OR
          (if f32_neq stp 0 then HAP_CHAR_MIN_FLAG OR HAP_CHAR_MAX_FLAG OR HAP_CHAR_STEP_FLAG
           else HAP_CHAR_MIN_FLAG OR HAP_CHAR_MAX_FLAG)\<rparr>) st"

definition hap_char_string_set_maxlen ::
    "ptr option \<Rightarrow> int \<Rightarrow> 's hap_objs_scheme \<Rightarrow> 's hap_objs_scheme option" where
  "hap_char_string_set_maxlen hc maxlen st =
     upd_char hc (\<lambda>c. c\<lparr>
        c_max := set_i (if maxlen > int HAP_CHAR_STRING_MAX_LEN then int HAP_CHAR_STRING_MAX_LEN
                        else maxlen) (c_max c),
        c_constraint_flags := c_constraint_flags c OR HAP_CHAR_MAXLEN_FLAG\<rparr>) st"

text \<open>
  The difference \<open>value - min\<close> of two \<open>int\<close>s is undefined when it overflows; it is not
  negative here, so \<open>%\<close> is the remainder of C on a dividend that is not negative.
\<close>

definition check_uint :: "hap_char \<Rightarrow> hap_val \<Rightarrow> int option" where
  "check_uint c v =
     (if val_u v > val_u (c_max c) \<or> val_u v < val_u (c_min c) then Some HAP_FAIL
      else if val_u (c_step c) = 0 then Some HAP_SUCCESS
      else if (val_u v - val_u (c_min c)) mod val_u (c_step c) \<noteq> 0 then Some HAP_FAIL
      else Some HAP_SUCCESS)"

definition hap_char_check_val_constraints :: "hap_char \<Rightarrow> hap_val \<Rightarrow> int option" where
  "hap_char_check_val_constraints c v =
     (if c_constraint_flags c = 0 then Some HAP_SUCCESS
      else case c_format c of
        HAP_CHAR_FORMAT_INT \<Rightarrow>
          (if val_i v > val_i (c_max c) \<or> val_i v < val_i (c_min c) then Some HAP_FAIL
           else if val_i (c_step c) = 0 then Some HAP_SUCCESS
           else if val_i v - val_i (c_min c) \<ge> 2 ^ 31 then None
           else if (val_i v - val_i (c_min c)) smod val_i (c_step c) \<noteq> 0 then Some HAP_FAIL
           else Some HAP_SUCCESS)
      | HAP_CHAR_FORMAT_FLOAT \<Rightarrow>
          (if f32_less (val_f (c_max c)) (val_f v) \<or> f32_less (val_f v) (val_f (c_min c))
           then Some HAP_FAIL else Some HAP_SUCCESS)
      | HAP_CHAR_FORMAT_UINT8 \<Rightarrow> check_uint c v
      | HAP_CHAR_FORMAT_UINT16 \<Rightarrow> check_uint c v
      | HAP_CHAR_FORMAT_UINT32 \<Rightarrow> check_uint c v
      | _ \<Rightarrow> Some HAP_SUCCESS)"

section \<open>The queue of characteristics to notify\<close>

text \<open>\<open>hap_event_queue_init\<close> takes the length of the queue from \<open>hap_priv.cfg\<close>.\<close>

definition hap_event_queue_init :: "byte \<Rightarrow> 's hap_objs_scheme \<Rightarrow> int \<times> 's hap_objs_scheme" where
  "hap_event_queue_init max_event_notif_chars st =
     (case new_addr st of
        (None, st) \<Rightarrow> (HAP_FAIL, st\<lparr>hap_event_queue := None\<rparr>)
      | (Some _, st) \<Rightarrow> (HAP_SUCCESS,
          st\<lparr>hap_event_queue := Some \<lparr>q_length = unat max_event_notif_chars, q_items = []\<rparr>\<rparr>))"

definition hap_get_pending_notif_char ::
    "'s hap_objs_scheme \<Rightarrow> (ptr option \<times> 's hap_objs_scheme) option" where
  "hap_get_pending_notif_char st = do {
     q \<leftarrow> hap_event_queue st;
     Some (case q_items q of
         [] \<Rightarrow> (None, st)
       | hc # hcs \<Rightarrow> (Some hc, st\<lparr>hap_event_queue := Some (q\<lparr>q_items := hcs\<rparr>)\<rparr>)) }"

definition hap_queue_event :: "ptr \<Rightarrow> 's hap_objs_scheme \<Rightarrow> int \<times> 's hap_objs_scheme" where
  "hap_queue_event hc st =
     (case hap_event_queue st of
        None \<Rightarrow> (HAP_FAIL, st)
      | Some q \<Rightarrow> (case xQueueSend (queue_ok st) q hc of
          Some q \<Rightarrow> (HAP_SUCCESS,
            snd (hap_send_event HAP_INTERNAL_EVENT_TRIGGER_NOTIF (st\<lparr>hap_event_queue := Some q\<rparr>)))
        | None \<Rightarrow> (HAP_FAIL, st)))"

section \<open>The update of a value\<close>

text \<open>
  The \<open>switch\<close> of \<open>hap_char_update_val\<close>: whether it reached its end (\<open>strdup\<close> may fail),
  \<open>value_changed\<close>, the new value and the state.
\<close>

definition update_val_switch ::
    "hap_char \<Rightarrow> hap_val \<Rightarrow> 's hap_objs_scheme \<Rightarrow> bool \<times> bool \<times> hap_val \<times> 's hap_objs_scheme" where
  "update_val_switch c v st = (let old = c_val c;
       int_case = (if val_i old \<noteq> val_i v then (True, True, set_i (val_i v) old, st)
                   else (True, False, old, st));
       data_case = (True, True, old\<lparr>val_d := val_d v\<rparr>, st)
     in case c_format c of
       HAP_CHAR_FORMAT_BOOL \<Rightarrow>
         if val_b old \<noteq> val_b v then (True, True, set_b (val_b v) old, st) else (True, False, old, st)
     | HAP_CHAR_FORMAT_INT \<Rightarrow> int_case
     | HAP_CHAR_FORMAT_UINT8 \<Rightarrow> int_case
     | HAP_CHAR_FORMAT_UINT16 \<Rightarrow> int_case
     | HAP_CHAR_FORMAT_UINT32 \<Rightarrow> int_case
     | HAP_CHAR_FORMAT_FLOAT \<Rightarrow>
         if f32_neq (val_f old) (val_f v) then (True, True, set_f (val_f v) old, st)
         else (True, False, old, st)
     | HAP_CHAR_FORMAT_STRING \<Rightarrow>
         let changed = \<not> (val_s old \<noteq> None \<and> val_s v \<noteq> None \<and> val_s old = val_s v) in
         (case val_s v of
            None \<Rightarrow> (True, changed, old\<lparr>val_s := None\<rparr>, st)
          | Some s \<Rightarrow> (case strdup s st of
              (r, st) \<Rightarrow> (r \<noteq> None, changed, old\<lparr>val_s := r\<rparr>, st)))
     | HAP_CHAR_FORMAT_DATA \<Rightarrow> data_case
     | HAP_CHAR_FORMAT_TLV8 \<Rightarrow> data_case
     | _ \<Rightarrow> (True, False, old, st))"

definition hap_char_update_val ::
    "ptr option \<Rightarrow> hap_val option \<Rightarrow> 's hap_objs_scheme \<Rightarrow> (int \<times> 's hap_objs_scheme) option" where
  "hap_char_update_val hc v st = (case (hc, v) of
       (Some p, Some v) \<Rightarrow> do {
         st \<leftarrow> upd_char hc (\<lambda>c. c\<lparr>c_update_called := True\<rparr>) st;
         c \<leftarrow> get_char hc st;
         r \<leftarrow> hap_char_check_val_constraints c v;
         if r \<noteq> HAP_SUCCESS then Some (HAP_FAIL, st)
         else (case update_val_switch c v st of (done, value_changed, nv, st) \<Rightarrow> do {
           st \<leftarrow> upd_char hc (\<lambda>c. c\<lparr>c_val := nv\<rparr>) st;
           if \<not> done then Some (HAP_FAIL, st)
           else if value_changed \<or> hap_char_has_permission c HAP_CHAR_PERM_SPECIAL_READ
           then Some (HAP_SUCCESS, snd (hap_queue_event p st))
           else do { st \<leftarrow> upd_char hc (\<lambda>c. c\<lparr>c_owner_ctrl := 0\<rparr>) st; Some (HAP_SUCCESS, st) } }) }
     | _ \<Rightarrow> Some (HAP_FAIL, st))"

section \<open>Controllers: subscriptions and owner\<close>

text \<open>
  The macros \<open>set_bit\<close> and \<open>reset_bit\<close> shift the \<open>int\<close> 1: a shift by a negative amount or
  into the sign bit is undefined. The bitmaps have 16 bits.
\<close>

definition bit_mask16 :: "int \<Rightarrow> u16 option" where
  "bit_mask16 index = (if 0 \<le> index \<and> index < 31 then Some (push_bit (nat index) 1) else None)"

definition hap_char_manage_notification ::
    "ptr option \<Rightarrow> int \<Rightarrow> bool \<Rightarrow> 's hap_objs_scheme \<Rightarrow> 's hap_objs_scheme option" where
  "hap_char_manage_notification hc index ev st = do {
     m \<leftarrow> bit_mask16 index;
     upd_char hc (\<lambda>c. c\<lparr>c_ev_ctrls := if ev then c_ev_ctrls c OR m else c_ev_ctrls c AND NOT m\<rparr>) st }"

definition hap_char_is_ctrl_subscribed :: "ptr option \<Rightarrow> int \<Rightarrow> 's hap_objs_scheme \<Rightarrow> bool option" where
  "hap_char_is_ctrl_subscribed hc index st = do {
     m \<leftarrow> bit_mask16 index; c \<leftarrow> get_char hc st; Some (c_ev_ctrls c AND m \<noteq> 0) }"

definition hap_char_set_owner_ctrl ::
    "ptr option \<Rightarrow> int \<Rightarrow> 's hap_objs_scheme \<Rightarrow> 's hap_objs_scheme option" where
  "hap_char_set_owner_ctrl hc index st = do {
     m \<leftarrow> bit_mask16 index; upd_char hc (\<lambda>c. c\<lparr>c_owner_ctrl := 0 OR m\<rparr>) st }"

definition hap_char_is_ctrl_owner :: "ptr option \<Rightarrow> int \<Rightarrow> 's hap_objs_scheme \<Rightarrow> bool option" where
  "hap_char_is_ctrl_owner hc index st = do {
     m \<leftarrow> bit_mask16 index; c \<leftarrow> get_char hc st; Some (c_owner_ctrl c AND m \<noteq> 0) }"

section \<open>Valid values\<close>

text \<open>The arrays are buffers of the size that the code allocates.\<close>

definition hap_char_add_valid_vals ::
    "ptr option \<Rightarrow> byte list \<Rightarrow> nat \<Rightarrow> 's hap_objs_scheme \<Rightarrow> 's hap_objs_scheme option" where
  "hap_char_add_valid_vals hc valid_vals valid_val_cnt st =
     (if hc = None then Some st
      else case new_addr st of
        (None, st) \<Rightarrow> upd_char hc (\<lambda>c. c\<lparr>c_valid_vals := None\<rparr>) st
      | (Some _, st) \<Rightarrow> do {
          src \<leftarrow> rd_block valid_vals 0 (int valid_val_cnt);
          upd_char hc (\<lambda>c. c\<lparr>c_valid_vals := Some src, c_valid_vals_cnt := valid_val_cnt\<rparr>) st })"

definition hap_char_add_valid_vals_range ::
    "ptr option \<Rightarrow> byte \<Rightarrow> byte \<Rightarrow> 's hap_objs_scheme \<Rightarrow> 's hap_objs_scheme option" where
  "hap_char_add_valid_vals_range hc start_val end_val st =
     (if hc = None then Some st
      else case new_addr st of
        (None, st) \<Rightarrow> upd_char hc (\<lambda>c. c\<lparr>c_valid_vals_range := None\<rparr>) st
      | (Some _, st) \<Rightarrow> do {
          buf \<leftarrow> wr_block (replicate 1 0) 0 [start_val];
          buf \<leftarrow> wr_block buf 1 [end_val];
          upd_char hc (\<lambda>c. c\<lparr>c_valid_vals_range := Some buf\<rparr>) st })"

section \<open>The value constraint\<close>

definition val_allowed :: "hap_char \<Rightarrow> hap_val \<Rightarrow> bool" where
  "val_allowed c v \<longleftrightarrow> c_constraint_flags c = 0 \<or>
     (if c_format c = HAP_CHAR_FORMAT_INT
      then val_i (c_min c) \<le> val_i v \<and> val_i v \<le> val_i (c_max c) \<and>
        (val_i (c_step c) = 0 \<or> val_i (c_step c) dvd val_i v - val_i (c_min c))
      else if c_format c = HAP_CHAR_FORMAT_FLOAT
      then \<not> f32_less (val_f (c_max c)) (val_f v) \<and> \<not> f32_less (val_f v) (val_f (c_min c))
      else if c_format c \<in> {HAP_CHAR_FORMAT_UINT8, HAP_CHAR_FORMAT_UINT16, HAP_CHAR_FORMAT_UINT32}
      then uint (val_u (c_min c)) \<le> uint (val_u v) \<and> uint (val_u v) \<le> uint (val_u (c_max c)) \<and>
        (val_u (c_step c) = 0 \<or> uint (val_u (c_step c)) dvd uint (val_u v) - uint (val_u (c_min c)))
      else True)"

text \<open>The difference that the code computes for an \<open>int\<close> characteristic fits an \<open>int\<close>.\<close>

definition range_fits :: "hap_char \<Rightarrow> bool" where
  "range_fits c \<longleftrightarrow> c_format c = HAP_CHAR_FORMAT_INT \<longrightarrow>
     val_i (c_max c) - val_i (c_min c) < 2 ^ 31"

lemma smod_eq_0_iff:
  assumes "(0 :: int) \<le> a"
  shows "a smod b = 0 \<longleftrightarrow> b dvd a"
proof -
  have "a smod b = a mod \<bar>b\<bar>"
    using assms by (auto simp: signed_modulo_int_def signed_divide_int_def abs_if sgn_if
        minus_mult_div_eq_mod)
  then show ?thesis by (simp add: mod_eq_0_iff_dvd)
qed

lemma check_uint_spec:
  "check_uint c v = Some (if val_u (c_min c) \<le> val_u v \<and> val_u v \<le> val_u (c_max c) \<and>
     (val_u (c_step c) = 0 \<or> uint (val_u (c_step c)) dvd uint (val_u v) - uint (val_u (c_min c)))
     then HAP_SUCCESS else HAP_FAIL)"
proof -
  have eq: "(val_u v - val_u (c_min c)) mod val_u (c_step c) = 0 \<longleftrightarrow>
      uint (val_u (c_step c)) dvd uint (val_u v) - uint (val_u (c_min c))"
    if "val_u (c_min c) \<le> val_u v"
  proof -
    have "uint (val_u v - val_u (c_min c)) = uint (val_u v) - uint (val_u (c_min c))"
      using that by (simp add: uint_sub_if' word_le_def)
    then show ?thesis
      by (simp add: word_uint_eq_iff uint_mod mod_eq_0_iff_dvd)
  qed
  show ?thesis
    unfolding check_uint_def by (auto simp: not_less eq)
qed


lemma check_val_constraints_spec:
  assumes "range_fits c"
  shows "hap_char_check_val_constraints c v = Some (if val_allowed c v then HAP_SUCCESS else HAP_FAIL)"
proof (cases "c_format c = HAP_CHAR_FORMAT_INT")
  case True
  with assms have "val_i (c_max c) - val_i (c_min c) < 2 ^ 31" by (simp add: range_fits_def)
  then show ?thesis
    by (auto simp: hap_char_check_val_constraints_def val_allowed_def True smod_eq_0_iff not_less)
next
  case False
  then show ?thesis
    by (auto simp: hap_char_check_val_constraints_def val_allowed_def check_uint_spec word_le_def
        split: hap_char_format.splits)
qed

section \<open>What an update does\<close>

definition val_same :: "hap_char_format \<Rightarrow> hap_val \<Rightarrow> hap_val \<Rightarrow> bool" where
  "val_same fmt a b = (case fmt of
       HAP_CHAR_FORMAT_BOOL \<Rightarrow> val_b a = val_b b
     | HAP_CHAR_FORMAT_FLOAT \<Rightarrow> val_f a = val_f b \<or> \<not> f32_neq (val_f a) (val_f b)
     | HAP_CHAR_FORMAT_STRING \<Rightarrow> val_s a = val_s b
     | HAP_CHAR_FORMAT_DATA \<Rightarrow> val_d a = val_d b
     | HAP_CHAR_FORMAT_TLV8 \<Rightarrow> val_d a = val_d b
     | HAP_CHAR_FORMAT_NONE \<Rightarrow> True
     | HAP_CHAR_FORMAT_UINT64 \<Rightarrow> True
     | _ \<Rightarrow> val_u a = val_u b)"

text \<open>Whether an accepted update is reported to the controllers.\<close>

definition val_changes :: "hap_char_format \<Rightarrow> hap_val \<Rightarrow> hap_val \<Rightarrow> bool" where
  "val_changes fmt old v = (case fmt of
       HAP_CHAR_FORMAT_BOOL \<Rightarrow> val_b old \<noteq> val_b v
     | HAP_CHAR_FORMAT_FLOAT \<Rightarrow> f32_neq (val_f old) (val_f v)
     | HAP_CHAR_FORMAT_STRING \<Rightarrow> val_s old = None \<or> val_s old \<noteq> val_s v
     | HAP_CHAR_FORMAT_DATA \<Rightarrow> True
     | HAP_CHAR_FORMAT_TLV8 \<Rightarrow> True
     | HAP_CHAR_FORMAT_NONE \<Rightarrow> False
     | HAP_CHAR_FORMAT_UINT64 \<Rightarrow> False
     | _ \<Rightarrow> val_u old \<noteq> val_u v)"

lemma val_i_eq_iff: "val_i a = val_i b \<longleftrightarrow> val_u a = val_u b"
  by (auto simp: val_i_def intro: signed_word_eqI)

lemma set_i_val_i: "val_u (set_i (val_i v) old) = val_u v"
  by (simp add: set_i_def val_i_def)

lemma val_allowed_same:
  assumes "val_allowed c v" "val_same (c_format c) w v"
  shows "val_allowed c w"
proof (cases "c_format c = HAP_CHAR_FORMAT_FLOAT")
  case True
  with assms show ?thesis
    by (auto simp: val_allowed_def val_same_def f32_less_def f32_neq_def)
next
  case False
  with assms show ?thesis
    by (auto simp: val_allowed_def val_same_def val_i_def split: hap_char_format.splits)
qed

text \<open>The part of a characteristic that an update leaves alone.\<close>

definition same_config :: "hap_char \<Rightarrow> hap_char \<Rightarrow> bool" where
  "same_config c c' \<longleftrightarrow> c' = c\<lparr>c_val := c_val c', c_owner_ctrl := c_owner_ctrl c',
     c_update_called := c_update_called c'\<rparr>"

lemma val_allowed_config:
  "val_allowed (c\<lparr>c_val := x\<rparr>) v = val_allowed c v"
  "val_allowed (c\<lparr>c_owner_ctrl := o'\<rparr>) v = val_allowed c v"
  "val_allowed (c\<lparr>c_update_called := u\<rparr>) v = val_allowed c v"
  by (simp_all add: val_allowed_def)

lemma update_val_switch_spec:
  assumes "update_val_switch c v st = (done', changed, nv, st')"
  shows "changed = val_changes (c_format c) (c_val c) v"
    and "done' \<Longrightarrow> val_same (c_format c) nv v"
    and "done' \<longleftrightarrow> \<not> (c_format c = HAP_CHAR_FORMAT_STRING \<and> val_s v \<noteq> None \<and>
      \<not> malloc_ok st (next_addr st))"
    and "\<not> done' \<Longrightarrow> val_s nv = None"
    and "\<exists>n. st' = st\<lparr>next_addr := n\<rparr> \<and> next_addr st \<le> n"
proof -
  have same: "\<exists>n. st = st\<lparr>next_addr := n\<rparr> \<and> next_addr st \<le> n"
    by (rule exI [of _ "next_addr st"]) simp
  show "changed = val_changes (c_format c) (c_val c) v"
    using assms by (auto simp: update_val_switch_def val_changes_def Let_def val_i_eq_iff
        split: hap_char_format.splits option.splits prod.splits if_splits)
  show "done' \<Longrightarrow> val_same (c_format c) nv v"
    using assms by (auto simp: update_val_switch_def val_same_def Let_def val_i_eq_iff set_i_val_i
        strdup_def split: hap_char_format.splits option.splits prod.splits if_splits)
  show "done' \<longleftrightarrow> \<not> (c_format c = HAP_CHAR_FORMAT_STRING \<and> val_s v \<noteq> None \<and>
      \<not> malloc_ok st (next_addr st))"
    using assms by (cases "val_s v"; cases "c_format c"; simp add: update_val_switch_def Let_def
        strdup_def new_addr_def split: if_splits prod.splits; auto)
  show "\<not> done' \<Longrightarrow> val_s nv = None"
    using assms by (cases "val_s v"; cases "c_format c"; simp add: update_val_switch_def Let_def
        strdup_def new_addr_def split: if_splits prod.splits; auto)
  show "\<exists>n. st' = st\<lparr>next_addr := n\<rparr> \<and> next_addr st \<le> n"
    using assms same by (auto simp: update_val_switch_def Let_def strdup_def new_addr_def
        split: hap_char_format.splits option.splits prod.splits if_splits intro: exI [of _ "Suc (next_addr st)"])
qed

definition queue_after :: "'s hap_objs_scheme \<Rightarrow> ptr \<Rightarrow> ptr rtos_queue option" where
  "queue_after st hc = map_option (\<lambda>q.
     if queue_ok st (q_length q) (length (q_items q)) then q\<lparr>q_items := q_items q @ [hc]\<rparr> else q)
     (hap_event_queue st)"

lemma hap_queue_event_frame:
  "\<exists>x. snd (hap_queue_event p st) = st\<lparr>hap_event_queue := queue_after st p, xQueue := x\<rparr>"
proof (cases "hap_event_queue st")
  case None
  then show ?thesis
    by (intro exI [of _ "xQueue st"]) (simp add: hap_queue_event_def queue_after_def)
next
  case (Some q)
  show ?thesis
  proof (cases "queue_ok st (q_length q) (length (q_items q))")
    case True
    let ?q = "q\<lparr>q_items := q_items q @ [p]\<rparr>"
    from hap_send_event_frame [of HAP_INTERNAL_EVENT_TRIGGER_NOTIF "st\<lparr>hap_event_queue := Some ?q\<rparr>"]
    obtain x where "snd (hap_send_event HAP_INTERNAL_EVENT_TRIGGER_NOTIF (st\<lparr>hap_event_queue := Some ?q\<rparr>)) =
        st\<lparr>hap_event_queue := Some ?q\<rparr>\<lparr>xQueue := x\<rparr>" by blast
    with Some True show ?thesis
      by (intro exI [of _ x]) (simp add: hap_queue_event_def queue_after_def xQueueSend_def)
  next
    case False
    with Some show ?thesis
      by (intro exI [of _ "xQueue st"]) (simp add: hap_queue_event_def queue_after_def xQueueSend_def)
  qed
qed

lemma hap_queue_event_spec [simp]:
  "hap_event_queue (snd (hap_queue_event p st)) = queue_after st p"
  "char_at (snd (hap_queue_event p st)) = char_at st"
  "serv_at (snd (hap_queue_event p st)) = serv_at st"
  "acc_at (snd (hap_queue_event p st)) = acc_at st"
  using hap_queue_event_frame [of p st] by auto

lemma same_config_intros:
  "same_config c (c\<lparr>c_update_called := u\<rparr>)"
  "same_config c (c\<lparr>c_update_called := u, c_val := x\<rparr>)"
  "same_config c (c\<lparr>c_update_called := u, c_val := x, c_owner_ctrl := y\<rparr>)"
  by (simp_all add: same_config_def)



section \<open>The bitmaps and the arrays of valid values\<close>

lemma bit_mask16_Some:
  "0 \<le> i \<Longrightarrow> i < 31 \<Longrightarrow> bit_mask16 i = Some (2 ^ nat i)"
  by (simp add: bit_mask16_def)

lemma mask16_test: "n < 16 \<Longrightarrow> (w :: u16) AND 2 ^ n = 0 \<longleftrightarrow> \<not> bit w n"
  by (simp add: and_exp_eq_0_iff_not_bit)

lemma bits16_set:
  "n < 16 \<Longrightarrow> bit ((w :: u16) OR 2 ^ n) m \<longleftrightarrow> bit w m \<or> m = n"
  "n < 16 \<Longrightarrow> bit ((w :: u16) AND NOT (2 ^ n)) m \<longleftrightarrow> bit w m \<and> m \<noteq> n"
  "n < 16 \<Longrightarrow> bit (2 ^ n :: u16) m \<longleftrightarrow> m = n"
  by (auto simp: bit_simps dest: bit_imp_le_length)

text \<open>For the 8 session indices of the server, subscribing and unsubscribing a controller
  changes the answer for that controller only, and setting the owner makes it the only owner.\<close>

theorem ctrl_bitmaps_correct:
  assumes "char_at st p = Some c" "0 \<le> i" "i < 8" "0 \<le> j" "j < 8"
  shows "(do { st' \<leftarrow> hap_char_manage_notification (Some p) i ev st;
               hap_char_is_ctrl_subscribed (Some p) j st' }) =
           (if j = i then Some ev else hap_char_is_ctrl_subscribed (Some p) j st) \<and>
         (do { st' \<leftarrow> hap_char_set_owner_ctrl (Some p) i st;
               hap_char_is_ctrl_owner (Some p) j st' }) = Some (j = i)"
proof -
  have ij: "nat j = nat i \<longleftrightarrow> j = i" using assms by auto
  then show ?thesis using assms
    by (simp add: hap_char_manage_notification_def hap_char_is_ctrl_subscribed_def
        hap_char_set_owner_ctrl_def hap_char_is_ctrl_owner_def bit_mask16_Some mask16_test bits16_set)
qed

lemma ctrl_bitmaps_correct_witness:
  "(do { st' \<leftarrow> hap_char_manage_notification (Some 0) 3 True
           (boot_objs\<lparr>char_at := [0 \<mapsto> zero_char]\<rparr>);
         hap_char_is_ctrl_subscribed (Some 0) 3 st' }) = Some True"
  using ctrl_bitmaps_correct [of "boot_objs\<lparr>char_at := [0 \<mapsto> zero_char]\<rparr>" 0 zero_char 3 3 True]
  by simp

text \<open>Without a session the index is -1, and the shift of the bitmap operations is undefined.\<close>

theorem ctrl_bitmaps_no_session:
  "hap_char_manage_notification hc (- 1) ev st = None \<and> hap_char_set_owner_ctrl hc (- 1) st = None"
  by (simp_all add: hap_char_manage_notification_def hap_char_set_owner_ctrl_def bit_mask16_def)

text \<open>When its allocation succeeds, setting the range of valid values writes the second
  byte behind the one byte that it allocated.\<close>

theorem valid_vals_range_overflow:
  "malloc_ok st (next_addr st) \<Longrightarrow> hap_char_add_valid_vals_range (Some p) a b st = None"
  by (simp add: hap_char_add_valid_vals_range_def new_addr_def wr_block_def)

lemma valid_vals_range_overflow_witness:
  "hap_char_add_valid_vals_range (Some 0) 0 3
     (boot_objs\<lparr>char_at := [0 \<mapsto> zero_char], malloc_ok := \<lambda>_. True\<rparr>) = None"
  by (rule valid_vals_range_overflow) simp

end
