(* ===== verification/Hap_Serv.thy ===== *)
theory Hap_Serv
  imports Hap_Char
begin

text \<open>
  Services (\<open>esp_hap_core/src/esp_hap_serv.c\<close>): construction and deletion, the list of
  characteristics of a service, the links between services and the default bulk read. A
  function of the application is a parameter of the definition that calls it.
\<close>

section \<open>Accessors\<close>

definition set_serv ::
    "ptr option \<Rightarrow> (hap_serv \<Rightarrow> hap_serv) \<Rightarrow> 's hap_objs_scheme \<Rightarrow> 's hap_objs_scheme option" where
  "set_serv hs f st = (if hs = None then Some st else upd_serv hs f st)"

definition hap_serv_mark_primary :: "ptr option \<Rightarrow> 's hap_objs_scheme \<Rightarrow> 's hap_objs_scheme option" where
  "hap_serv_mark_primary hs st = set_serv hs (\<lambda>s. s\<lparr>s_primary := True\<rparr>) st"

definition hap_serv_mark_hidden :: "ptr option \<Rightarrow> 's hap_objs_scheme \<Rightarrow> 's hap_objs_scheme option" where
  "hap_serv_mark_hidden hs st = set_serv hs (\<lambda>s. s\<lparr>s_hidden := True\<rparr>) st"

definition hap_serv_set_iid ::
    "ptr option \<Rightarrow> u32 \<Rightarrow> 's hap_objs_scheme \<Rightarrow> 's hap_objs_scheme option" where
  "hap_serv_set_iid hs iid st = set_serv hs (\<lambda>s. s\<lparr>s_iid := iid\<rparr>) st"

definition hap_serv_set_write_cb ::
    "ptr option \<Rightarrow> serv_write_fn option \<Rightarrow> 's hap_objs_scheme \<Rightarrow> 's hap_objs_scheme option" where
  "hap_serv_set_write_cb hs cb st = set_serv hs (\<lambda>s. s\<lparr>s_write_cb := cb\<rparr>) st"

definition hap_serv_set_read_cb ::
    "ptr option \<Rightarrow> nat option \<Rightarrow> 's hap_objs_scheme \<Rightarrow> 's hap_objs_scheme option" where
  "hap_serv_set_read_cb hs cb st = set_serv hs (\<lambda>s. s\<lparr>s_read_cb := cb\<rparr>) st"

definition hap_serv_set_bulk_read_cb ::
    "ptr option \<Rightarrow> serv_bulk_read_fn option \<Rightarrow> 's hap_objs_scheme \<Rightarrow> 's hap_objs_scheme option" where
  "hap_serv_set_bulk_read_cb hs cb st = set_serv hs (\<lambda>s. s\<lparr>s_bulk_read := cb\<rparr>) st"

definition hap_serv_set_priv ::
    "ptr option \<Rightarrow> ptr option \<Rightarrow> 's hap_objs_scheme \<Rightarrow> 's hap_objs_scheme option" where
  "hap_serv_set_priv hs priv st = set_serv hs (\<lambda>s. s\<lparr>s_priv := priv\<rparr>) st"

text \<open>The getters that test for NULL return a default; the others dereference the pointer.\<close>

definition read_serv :: "'a \<Rightarrow> (hap_serv \<Rightarrow> 'a) \<Rightarrow> ptr option \<Rightarrow> 's hap_objs_scheme \<Rightarrow> 'a option" where
  "read_serv d f hs st = (if hs = None then Some d else do { s \<leftarrow> get_serv hs st; Some (f s) })"

definition hap_serv_get_hidden :: "ptr option \<Rightarrow> 's hap_objs_scheme \<Rightarrow> bool option" where
  "hap_serv_get_hidden hs st = read_serv False s_hidden hs st"

definition hap_serv_get_primary :: "ptr option \<Rightarrow> 's hap_objs_scheme \<Rightarrow> bool option" where
  "hap_serv_get_primary hs st = read_serv False s_primary hs st"

definition hap_serv_get_iid :: "ptr option \<Rightarrow> 's hap_objs_scheme \<Rightarrow> u32 option" where
  "hap_serv_get_iid hs st = read_serv 0 s_iid hs st"

definition hap_serv_get_type_uuid :: "ptr option \<Rightarrow> 's hap_objs_scheme \<Rightarrow> string option option" where
  "hap_serv_get_type_uuid hs st = read_serv None (\<lambda>s. Some (s_type_uuid s)) hs st"

definition hap_serv_get_next :: "ptr option \<Rightarrow> 's hap_objs_scheme \<Rightarrow> ptr option option" where
  "hap_serv_get_next hs st = read_serv None s_next_serv hs st"

definition hap_serv_get_parent :: "ptr option \<Rightarrow> 's hap_objs_scheme \<Rightarrow> ptr option option" where
  "hap_serv_get_parent hs st = read_serv None s_parent hs st"

definition hap_serv_get_priv :: "ptr option \<Rightarrow> 's hap_objs_scheme \<Rightarrow> ptr option option" where
  "hap_serv_get_priv hs st = read_serv None s_priv hs st"

definition hap_serv_get_uuid :: "ptr option \<Rightarrow> 's hap_objs_scheme \<Rightarrow> string option" where
  "hap_serv_get_uuid hs st = do { s \<leftarrow> get_serv hs st; Some (s_type_uuid s) }"

definition hap_serv_get_first_char :: "ptr option \<Rightarrow> 's hap_objs_scheme \<Rightarrow> ptr option option" where
  "hap_serv_get_first_char hs st = do { s \<leftarrow> get_serv hs st; Some (s_chars s) }"

definition hap_serv_get_char_by_iid ::
    "ptr option \<Rightarrow> u32 \<Rightarrow> 's hap_objs_scheme \<Rightarrow> ptr option option" where
  "hap_serv_get_char_by_iid hs iid st =
     (if hs = None then Some None else do {
        hc \<leftarrow> hap_serv_get_first_char hs st;
        list_find (\<lambda>hc. hap_char_get_next (Some hc) st)
          (\<lambda>hc. do { c \<leftarrow> char_at st hc; Some (c_iid c = iid) }) hc })"

definition hap_serv_get_char_by_uuid ::
    "ptr option \<Rightarrow> string option \<Rightarrow> 's hap_objs_scheme \<Rightarrow> ptr option option" where
  "hap_serv_get_char_by_uuid hs uuid st = (case (hs, uuid) of
       (Some _, Some uuid) \<Rightarrow> do {
         hc \<leftarrow> hap_serv_get_first_char hs st;
         list_find (\<lambda>hc. hap_char_get_next (Some hc) st)
           (\<lambda>hc. do { c \<leftarrow> char_at st hc; Some (c_type_uuid c = uuid) }) hc }
     | _ \<Rightarrow> Some None)"

section \<open>The default bulk read\<close>

text \<open>
  \<open>read_fn f hc status priv\<close> is the application's read routine number \<open>f\<close>: its result, the
  status that it leaves in \<open>*status\<close>, and the new state. \<open>None\<close> as a function pointer is NULL.
\<close>

fun bulk_read_loop ::
    "(nat \<Rightarrow> ptr option \<Rightarrow> int \<Rightarrow> ptr option \<Rightarrow> 's hap_objs_scheme \<Rightarrow> (int \<times> int \<times> 's hap_objs_scheme) option) \<Rightarrow>
     ptr option \<Rightarrow> ptr option \<Rightarrow> int \<Rightarrow> (ptr option \<times> int) list \<Rightarrow> 's hap_objs_scheme \<Rightarrow>
     (int \<times> (ptr option \<times> int) list \<times> 's hap_objs_scheme) option" where
  "bulk_read_loop read_fn hs priv ret [] st = Some (ret, [], st)"
| "bulk_read_loop read_fn hs priv ret ((hc, status) # rds) st = do {
     s \<leftarrow> get_serv hs st;
     f \<leftarrow> s_read_cb s;
     (r, status, st) \<leftarrow> read_fn f hc status priv st;
     (ret, rds, st) \<leftarrow> bulk_read_loop read_fn hs priv (if r \<noteq> HAP_SUCCESS then HAP_FAIL else ret) rds st;
     Some (ret, (hc, status) # rds, st) }"

definition hap_serv_def_bulk_read_cb ::
    "(nat \<Rightarrow> ptr option \<Rightarrow> int \<Rightarrow> ptr option \<Rightarrow> 's hap_objs_scheme \<Rightarrow> (int \<times> int \<times> 's hap_objs_scheme) option) \<Rightarrow>
     (ptr option \<times> int) list \<Rightarrow> ptr option \<Rightarrow> 's hap_objs_scheme \<Rightarrow>
     (int \<times> (ptr option \<times> int) list \<times> 's hap_objs_scheme) option" where
  "hap_serv_def_bulk_read_cb read_fn read_data serv_priv st = (case read_data of
       [] \<Rightarrow> Some (HAP_FAIL, [], st)
     | (hc, _) # _ \<Rightarrow> do {
         hs \<leftarrow> hap_char_get_parent hc st;
         s \<leftarrow> get_serv hs st;
         if s_read_cb s = None then Some (HAP_SUCCESS, read_data, st)
         else bulk_read_loop read_fn hs serv_priv HAP_SUCCESS read_data st })"

section \<open>Construction and deletion\<close>

definition zero_serv :: hap_serv where
  "zero_serv = \<lparr>s_type_uuid = [], s_iid = 0, s_hidden = False, s_primary = False, s_chars = None,
     s_parent = None, s_next_serv = None, s_write_cb = None, s_read_cb = None, s_bulk_read = None,
     s_linked_servs = None, s_priv = None\<rparr>"

definition hap_serv_create :: "string \<Rightarrow> 's hap_objs_scheme \<Rightarrow> ptr option \<times> 's hap_objs_scheme" where
  "hap_serv_create type_uuid st = (case new_addr st of
       (None, st) \<Rightarrow> (None, st)
     | (Some p, st) \<Rightarrow> (Some p, st\<lparr>serv_at := (serv_at st)(p \<mapsto>
         zero_serv\<lparr>s_type_uuid := type_uuid, s_bulk_read := Some Bulk_read_def\<rparr>)\<rparr>))"

definition hap_serv_link_serv ::
    "ptr option \<Rightarrow> ptr option \<Rightarrow> 's hap_objs_scheme \<Rightarrow> (int \<times> 's hap_objs_scheme) option" where
  "hap_serv_link_serv hs linked_serv st = (case (hs, linked_serv) of
       (Some _, Some ls) \<Rightarrow> (case new_addr st of
           (None, st) \<Rightarrow> Some (HAP_FAIL, st)
         | (Some cur, st) \<Rightarrow> do {
             let st = st\<lparr>link_at := (link_at st)(cur \<mapsto> \<lparr>l_hs = ls, l_next = None\<rparr>)\<rparr>;
             s \<leftarrow> get_serv hs st;
             case s_linked_servs s of
               None \<Rightarrow> do { st \<leftarrow> upd_serv hs (\<lambda>s. s\<lparr>s_linked_servs := Some cur\<rparr>) st; Some (HAP_SUCCESS, st) }
             | Some linked \<Rightarrow> do {
                 linked \<leftarrow> list_last (link_next st) linked;
                 l \<leftarrow> link_at st linked;
                 Some (HAP_SUCCESS, st\<lparr>link_at := (link_at st)(linked \<mapsto> l\<lparr>l_next := Some cur\<rparr>)\<rparr>) } })
     | _ \<Rightarrow> Some (HAP_FAIL, st))"

text \<open>The two loops of \<open>hap_serv_delete\<close>.\<close>

partial_function (option) serv_delete_chars ::
    "ptr option \<Rightarrow> ptr option \<Rightarrow> 's hap_objs_scheme \<Rightarrow> 's hap_objs_scheme option" where
  "serv_delete_chars hs hc st = (case hc of
       None \<Rightarrow> Some st
     | Some _ \<Rightarrow> do {
         c \<leftarrow> get_char hc st;
         st \<leftarrow> upd_serv hs (\<lambda>s. s\<lparr>s_chars := c_next_char c\<rparr>) st;
         st \<leftarrow> hap_char_delete hc st;
         s \<leftarrow> get_serv hs st;
         serv_delete_chars hs (s_chars s) st })"

declare serv_delete_chars.simps [code]

partial_function (option) serv_free_links ::
    "ptr \<Rightarrow> ptr option \<Rightarrow> 's hap_objs_scheme \<Rightarrow> 's hap_objs_scheme option" where
  "serv_free_links cur nxt st = (case nxt of
       None \<Rightarrow> Some (st\<lparr>link_at := (link_at st)(cur := None)\<rparr>)
     | Some n \<Rightarrow> do {
         let st = st\<lparr>link_at := (link_at st)(cur := None)\<rparr>;
         l \<leftarrow> link_at st n;
         serv_free_links n (l_next l) st })"

declare serv_free_links.simps [code]

definition hap_serv_delete :: "ptr option \<Rightarrow> 's hap_objs_scheme \<Rightarrow> 's hap_objs_scheme option" where
  "hap_serv_delete hs st = (case hs of
       None \<Rightarrow> Some st
     | Some p \<Rightarrow> do {
         s \<leftarrow> serv_at st p;
         st \<leftarrow> serv_delete_chars hs (s_chars s) st;
         s \<leftarrow> serv_at st p;
         st \<leftarrow> (case s_linked_servs s of
             None \<Rightarrow> Some st
           | Some cur \<Rightarrow> do { l \<leftarrow> link_at st cur; serv_free_links cur (l_next l) st });
         Some (st\<lparr>serv_at := (serv_at st)(p := None)\<rparr>) })"

definition hap_serv_add_char ::
    "ptr option \<Rightarrow> ptr option \<Rightarrow> 's hap_objs_scheme \<Rightarrow> (int \<times> 's hap_objs_scheme) option" where
  "hap_serv_add_char hs hc st =
     (if hs = None \<or> hc = None then Some (- 1, st) else do {
        c \<leftarrow> get_char hc st;
        if c_parent c \<noteq> None then Some (HAP_FAIL, st) else do {
          s \<leftarrow> get_serv hs st;
          st \<leftarrow> (case s_chars s of
              None \<Rightarrow> upd_serv hs (\<lambda>s. s\<lparr>s_chars := hc\<rparr>) st
            | Some temp \<Rightarrow> do {
                temp \<leftarrow> list_last (char_next st) temp;
                upd_char (Some temp) (\<lambda>c. c\<lparr>c_next_char := hc\<rparr>) st });
          st \<leftarrow> (case s_parent s of
              None \<Rightarrow> Some st
            | Some _ \<Rightarrow> do {
                a \<leftarrow> get_acc (s_parent s) st;
                st \<leftarrow> upd_acc (s_parent s) (\<lambda>a. a\<lparr>a_next_iid := a_next_iid a + 1\<rparr>) st;
                upd_char hc (\<lambda>c. c\<lparr>c_iid := a_next_iid a\<rparr>) st });
          st \<leftarrow> upd_char hc (\<lambda>c. c\<lparr>c_parent := hs\<rparr>) st;
          Some (0, st) } })"

lemma zero_serv_simps [simp]:
  "s_chars zero_serv = None" "s_parent zero_serv = None" "s_next_serv zero_serv = None"
  "s_linked_servs zero_serv = None" "s_priv zero_serv = None" "s_write_cb zero_serv = None"
  by (simp_all add: zero_serv_def)

section \<open>Lookups\<close>

definition serv_head :: "'s hap_objs_scheme \<Rightarrow> ptr \<Rightarrow> ptr option option" where
  "serv_head st s = map_option s_chars (serv_at st s)"

definition char_iid_key :: "'s hap_objs_scheme \<Rightarrow> ptr \<Rightarrow> u32 option" where
  "char_iid_key st c = map_option c_iid (char_at st c)"

definition char_uuid_key :: "'s hap_objs_scheme \<Rightarrow> ptr \<Rightarrow> string option" where
  "char_uuid_key st c = map_option c_type_uuid (char_at st c)"

lemmas key_defs = serv_head_def char_iid_key_def char_uuid_key_def char_next_def

lemma walk_char_next: "(\<lambda>hc. hap_char_get_next (Some hc) st) = char_next st"
  by (auto simp: hap_char_get_next_def char_next_def fun_eq_iff map_option_case split: option.split)

interpretation char_by_iid: obj_lookup serv_head char_next char_iid_key
    "\<lambda>s iid. hap_serv_get_char_by_iid (Some s) iid"
proof
  show "hap_serv_get_char_by_iid (Some h) k st = do { p \<leftarrow> serv_head st h;
      list_find (char_next st) (\<lambda>x. do { k' \<leftarrow> char_iid_key st x; Some (k' = k) }) p }"
    for h k and st :: "'a hap_objs_scheme"
    by (simp add: hap_serv_get_char_by_iid_def hap_serv_get_first_char_def walk_char_next
        serv_head_def char_iid_key_def map_conv_bind_option)
  show "char_next st x \<noteq> None \<Longrightarrow> char_iid_key st x \<noteq> None" for st :: "'a hap_objs_scheme" and x
    by (simp add: key_defs)
qed

interpretation char_by_uuid: obj_lookup serv_head char_next char_uuid_key
    "\<lambda>s uuid. hap_serv_get_char_by_uuid (Some s) (Some uuid)"
proof
  show "hap_serv_get_char_by_uuid (Some h) (Some k) st = do { p \<leftarrow> serv_head st h;
      list_find (char_next st) (\<lambda>x. do { k' \<leftarrow> char_uuid_key st x; Some (k' = k) }) p }"
    for h k and st :: "'a hap_objs_scheme"
    by (simp add: hap_serv_get_char_by_uuid_def hap_serv_get_first_char_def walk_char_next
        serv_head_def char_uuid_key_def map_conv_bind_option)
  show "char_next st x \<noteq> None \<Longrightarrow> char_uuid_key st x \<noteq> None" for st :: "'a hap_objs_scheme" and x
    by (simp add: key_defs)
qed

section \<open>The list of characteristics of a service\<close>

text \<open>\<open>serv_chars st s cs\<close>: the service \<open>s\<close> is live and its list is \<open>cs\<close>.\<close>

definition serv_chars :: "'s hap_objs_scheme \<Rightarrow> ptr \<Rightarrow> ptr list \<Rightarrow> bool" where
  "serv_chars st s cs \<longleftrightarrow> (\<exists>sv. serv_at st s = Some sv \<and> chain (char_next st) (s_chars sv) cs)"

lemma serv_chars_head: "serv_chars st s cs \<longleftrightarrow> (\<exists>p. serv_head st s = Some p \<and> chain (char_next st) p cs)"
  by (auto simp: serv_chars_def serv_head_def)

lemma serv_chars_unique: "serv_chars st s cs \<Longrightarrow> serv_chars st s cs' \<Longrightarrow> cs = cs'"
  by (auto simp: serv_chars_def dest: chain_unique)

lemma serv_chars_live: "serv_chars st s cs \<Longrightarrow> c \<in> set cs \<Longrightarrow> \<exists>ch. char_at st c = Some ch"
  by (auto simp: serv_chars_def char_next_def dest!: chain_live)

lemma serv_chars_distinct: "serv_chars st s cs \<Longrightarrow> distinct cs"
  by (auto simp: serv_chars_def dest: chain_distinct)

lemma get_char_by_iid_finds:
  assumes "serv_chars st s cs"
  shows "hap_serv_get_char_by_iid (Some s) iid st = Some (find (\<lambda>c. char_iid_key st c = Some iid) cs)"
  using assms char_by_iid.look_finds by (fastforce simp: serv_chars_head)

lemma get_char_by_uuid_finds:
  assumes "serv_chars st s cs"
  shows "hap_serv_get_char_by_uuid (Some s) (Some uuid) st =
    Some (find (\<lambda>c. char_uuid_key st c = Some uuid) cs)"
  using assms char_by_uuid.look_finds by (fastforce simp: serv_chars_head)

text \<open>The effect of \<open>hap_serv_add_char\<close> as one update of the state.\<close>

definition attach_char :: "ptr \<Rightarrow> ptr list \<Rightarrow> ptr \<Rightarrow> 's hap_objs_scheme \<Rightarrow> 's hap_objs_scheme" where
  "attach_char s cs c st = (let sv = the (serv_at st s); ch = the (char_at st c);
       st1 = (if cs = [] then st\<lparr>serv_at := (serv_at st)(s \<mapsto> sv\<lparr>s_chars := Some c\<rparr>)\<rparr>
              else st\<lparr>char_at := (char_at st)(last cs \<mapsto> (the (char_at st (last cs)))\<lparr>c_next_char := Some c\<rparr>)\<rparr>)
     in case s_parent sv of
       None \<Rightarrow> st1\<lparr>char_at := (char_at st1)(c \<mapsto> ch\<lparr>c_parent := Some s\<rparr>)\<rparr>
     | Some a \<Rightarrow> st1\<lparr>
         acc_at := (acc_at st)(a \<mapsto> (the (acc_at st a))\<lparr>a_next_iid := a_next_iid (the (acc_at st a)) + 1\<rparr>),
         char_at := (char_at st1)(c \<mapsto> ch\<lparr>c_iid := a_next_iid (the (acc_at st a)), c_parent := Some s\<rparr>)\<rparr>)"

lemma add_char_effect:
  assumes s: "serv_chars st s cs" and c: "char_at st c = Some ch" "c_parent ch = None" "c_next_char ch = None"
    and "c \<notin> set cs" and a: "\<And>sv a. serv_at st s = Some sv \<Longrightarrow> s_parent sv = Some a \<Longrightarrow> acc_at st a \<noteq> None"
  shows "hap_serv_add_char (Some s) (Some c) st = Some (0, attach_char s cs c st)"
    and "serv_chars (attach_char s cs c st) s (cs @ [c])"
proof -
  obtain sv where sv: "serv_at st s = Some sv" "chain (char_next st) (s_chars sv) cs"
    using s by (auto simp: serv_chars_def)
  show "hap_serv_add_char (Some s) (Some c) st = Some (0, attach_char s cs c st)"
  proof (cases cs rule: rev_cases)
    case Nil
    with sv have "s_chars sv = None" by simp
    with Nil sv c a [OF sv(1)] show ?thesis
      by (auto simp: hap_serv_add_char_def attach_char_def Let_def split: option.split)
  next
    case (snoc ys y)
    then obtain z where z: "s_chars sv = Some z" using sv by (cases ys) auto
    have y: "list_last (char_next st) z = Some y"
      using list_last_chain [of "char_next st" z ys y] sv z snoc by simp
    obtain cy where cy: "char_at st y = Some cy"
      using serv_chars_live [OF s, of y] snoc by auto
    have "y \<noteq> c" using assms(5) snoc by auto
    with snoc sv z y cy c a [OF sv(1)] show ?thesis
      by (cases "s_parent sv")
        (auto simp: hap_serv_add_char_def attach_char_def Let_def fun_upd_twist hd_append
          split: option.split dest!: hd_in_set)
  qed
  show "serv_chars (attach_char s cs c st) s (cs @ [c])"
  proof (cases "cs = []")
    case True
    with sv c show ?thesis
      by (auto simp: serv_chars_def attach_char_def Let_def char_next_def split: option.split)
  next
    case False
    have d: "distinct cs" using sv chain_distinct by blast
    have live: "\<exists>cy. char_at st (last cs) = Some cy" using serv_chars_live [OF s] False by simp
    let ?st = "attach_char s cs c st"
    have nx: "char_next ?st x = (if x = c then Some None else if x = last cs then Some (Some c)
        else char_next st x)" for x
      using False c live by (auto simp: attach_char_def Let_def char_next_def split: option.split)
    have "chain (char_next ?st) (s_chars sv) (cs @ [c])"
    proof (rule chain_append_single [OF sv(2) False])
      show "char_next ?st (last cs) = Some (Some c)" using nx False assms(5) by auto
      show "char_next ?st c = Some None" using nx by simp
      fix x assume x: "x \<in> set (butlast cs)"
      then have "x \<in> set cs" by (simp add: in_set_butlastD)
      moreover have "x \<noteq> last cs"
        using x d False by (metis append_butlast_last_id distinct_append distinct_singleton
            disjoint_iff list.set_intros(1))
      ultimately show "char_next ?st x = char_next st x" using nx assms(5) by auto
    qed
    moreover have "s_chars sv = Some (hd (cs @ [c]))" using sv False by (cases cs) auto
    ultimately show ?thesis using sv
      by (auto simp: serv_chars_def attach_char_def Let_def split: option.split)
  qed
qed

text \<open>A characteristic that belongs to no service is appended to the list of the service, gets
  the next instance id of the accessory when the service is part of one, and cannot be added to
  a service a second time. Every other characteristic keeps all but its link.\<close>

theorem hap_serv_add_char_correct:
  assumes "serv_chars st s cs" "char_at st c = Some ch" "c_parent ch = None" "c_next_char ch = None"
    and "c \<notin> set cs" and "\<And>sv a. serv_at st s = Some sv \<Longrightarrow> s_parent sv = Some a \<Longrightarrow> acc_at st a \<noteq> None"
  shows "\<exists>st' ch'. hap_serv_add_char (Some s) (Some c) st = Some (HAP_SUCCESS, st') \<and>
    serv_chars st' s (cs @ [c]) \<and> char_at st' c = Some ch' \<and> c_parent ch' = Some s \<and>
    (\<forall>sv a ac. serv_at st s = Some sv \<and> s_parent sv = Some a \<and> acc_at st a = Some ac \<longrightarrow>
       c_iid ch' = a_next_iid ac \<and> acc_at st' a = Some (ac\<lparr>a_next_iid := a_next_iid ac + 1\<rparr>)) \<and>
    (\<forall>x. x \<noteq> c \<longrightarrow> map_option (\<lambda>d. d\<lparr>c_next_char := None\<rparr>) (char_at st' x) =
                  map_option (\<lambda>d. d\<lparr>c_next_char := None\<rparr>) (char_at st x)) \<and>
    (\<forall>t. hap_serv_add_char (Some t) (Some c) st' = Some (HAP_FAIL, st'))"
proof -
  obtain sv where sv: "serv_at st s = Some sv" using assms(1) by (auto simp: serv_chars_def)
  let ?st = "attach_char s cs c st"
  obtain ch' where ch': "char_at ?st c = Some ch'" "c_parent ch' = Some s"
    and iid: "\<And>a ac. s_parent sv = Some a \<Longrightarrow> acc_at st a = Some ac \<Longrightarrow>
      c_iid ch' = a_next_iid ac \<and> acc_at ?st a = Some (ac\<lparr>a_next_iid := a_next_iid ac + 1\<rparr>)"
    using sv by (cases "s_parent sv") (auto simp: attach_char_def Let_def)
  have "map_option (\<lambda>d. d\<lparr>c_next_char := None\<rparr>) (char_at ?st x) =
      map_option (\<lambda>d. d\<lparr>c_next_char := None\<rparr>) (char_at st x)" if "x \<noteq> c" for x
  proof (cases "cs = []")
    case True
    with that show ?thesis by (auto simp: attach_char_def Let_def split: option.split)
  next
    case False
    then obtain cl where "char_at st (last cs) = Some cl" using serv_chars_live [OF assms(1), of "last cs"] by auto
    with that False show ?thesis by (auto simp: attach_char_def Let_def split: option.split)
  qed
  moreover have "hap_serv_add_char (Some t) (Some c) ?st = Some (HAP_FAIL, ?st)" for t
    using ch' by (simp add: hap_serv_add_char_def)
  ultimately show ?thesis
    using add_char_effect [OF assms] ch' iid sv by auto
qed

lemma hap_serv_add_char_correct_witness:
  "\<exists>st' ch'. hap_serv_add_char (Some 1) (Some 2)
      (boot_objs\<lparr>serv_at := [1 \<mapsto> zero_serv], char_at := [2 \<mapsto> zero_char]\<rparr>) = Some (HAP_SUCCESS, st') \<and>
    serv_chars st' 1 [2] \<and> char_at st' 2 = Some ch' \<and> c_parent ch' = Some 1"
proof -
  let ?st = "boot_objs\<lparr>serv_at := [1 \<mapsto> zero_serv], char_at := [2 \<mapsto> zero_char]\<rparr>"
  have "serv_chars ?st 1 []" by (simp add: serv_chars_def)
  from hap_serv_add_char_correct [OF this, of 2 zero_char] show ?thesis
    by auto
qed

section \<open>Deletion\<close>

lemma next_Some_iff:
  "char_next st x = Some n \<longleftrightarrow> (\<exists>c. char_at st x = Some c \<and> n = c_next_char c)"
  "link_next st x = Some n \<longleftrightarrow> (\<exists>l. link_at st x = Some l \<and> n = l_next l)"
  "serv_next st x = Some n \<longleftrightarrow> (\<exists>s. serv_at st x = Some s \<and> n = s_next_serv s)"
  "acc_next st x = Some n \<longleftrightarrow> (\<exists>a. acc_at st x = Some a \<and> n = a_next a)"
  by (auto simp: char_next_def link_next_def serv_next_def acc_next_def)


lemma serv_delete_chars_effect:
  "serv_at st s = Some sv \<Longrightarrow> chain (char_next st) (s_chars sv) cs \<Longrightarrow>
   serv_delete_chars (Some s) (s_chars sv) st =
     Some (st\<lparr>char_at := char_at st |` (- set cs), serv_at := (serv_at st)(s \<mapsto> sv\<lparr>s_chars := None\<rparr>)\<rparr>)"
proof (induction cs arbitrary: st sv)
  case Nil
  then have "(serv_at st)(s \<mapsto> sv\<lparr>s_chars := None\<rparr>) = serv_at st" by (auto simp: fun_eq_iff)
  with Nil show ?case
    by (subst serv_delete_chars.simps) (simp add: restrict_map_def)
next
  case (Cons c cs)
  then obtain ch where c: "s_chars sv = Some c" "char_at st c = Some ch"
      "chain (char_next st) (c_next_char ch) cs"
    by (auto simp: next_Some_iff)
  have "c \<notin> set cs" using chain_distinct [OF Cons.prems(2)] by simp
  let ?st = "st\<lparr>serv_at := (serv_at st)(s \<mapsto> sv\<lparr>s_chars := c_next_char ch\<rparr>),
    char_at := (char_at st)(c := None)\<rparr>"
  have "chain (char_next ?st) (c_next_char ch) cs"
    using c(3) \<open>c \<notin> set cs\<close> by (subst chain_cong [of _ _ "char_next st"]) (auto simp: char_next_def)
  then have "serv_delete_chars (Some s) (s_chars (sv\<lparr>s_chars := c_next_char ch\<rparr>)) ?st =
      Some (?st\<lparr>char_at := char_at ?st |` (- set cs),
        serv_at := (serv_at ?st)(s \<mapsto> sv\<lparr>s_chars := c_next_char ch\<rparr>\<lparr>s_chars := None\<rparr>)\<rparr>)"
    by (intro Cons.IH) simp_all
  also have "?st\<lparr>char_at := char_at ?st |` (- set cs),
        serv_at := (serv_at ?st)(s \<mapsto> sv\<lparr>s_chars := c_next_char ch\<rparr>\<lparr>s_chars := None\<rparr>)\<rparr> =
      st\<lparr>char_at := char_at st |` (- set (c # cs)), serv_at := (serv_at st)(s \<mapsto> sv\<lparr>s_chars := None\<rparr>)\<rparr>"
    by (rule hap_objs.equality) (simp_all add: restrict_map_def fun_eq_iff)
  finally show ?case using c Cons.prems(1)
    by (subst serv_delete_chars.simps) (simp add: hap_char_delete_def fun_upd_same del: fun_upd_apply)
qed

lemma serv_free_links_effect:
  "chain (link_next st) (Some l) ls \<Longrightarrow> link_at st l = Some k \<Longrightarrow>
   serv_free_links l (l_next k) st = Some (st\<lparr>link_at := link_at st |` (- set ls)\<rparr>)"
proof (induction ls arbitrary: st l k)
  case (Cons x ls)
  have l: "x = l" "chain (link_next st) (l_next k) ls"
    using Cons.prems by (auto simp: next_Some_iff)
  have "l \<notin> set ls" using chain_distinct [OF Cons.prems(1)] l by simp
  let ?st = "st\<lparr>link_at := (link_at st)(l := None)\<rparr>"
  have ch: "chain (link_next ?st) (l_next k) ls"
    using l(2) \<open>l \<notin> set ls\<close> by (subst chain_cong [of _ _ "link_next st"]) (auto simp: link_next_def)
  have eq: "(link_at st)(l := None) |` (- set ls) = link_at st |` (- set (x # ls))"
    using l by (auto simp: restrict_map_def fun_eq_iff)
  show ?case
  proof (cases "l_next k")
    case None
    then have "ls = []" using l(2) by simp
    with None eq l show ?thesis
      by (subst serv_free_links.simps) (simp add: restrict_map_def fun_upd_def cong: if_cong)
  next
    case (Some n)
    then obtain k' where k': "link_at ?st n = Some k'"
      using ch by (cases ls) (auto simp: link_next_def)
    have "serv_free_links n (l_next k') ?st = Some (?st\<lparr>link_at := link_at ?st |` (- set ls)\<rparr>)"
      using ch Some k' by (intro Cons.IH) simp_all
    also have "?st\<lparr>link_at := link_at ?st |` (- set ls)\<rparr> = st\<lparr>link_at := link_at st |` (- set (x # ls))\<rparr>"
      using eq by (intro hap_objs.equality) (simp_all del: fun_upd_apply)
    finally show ?thesis using Some k'
      by (subst serv_free_links.simps) (simp del: fun_upd_apply)
  qed
qed simp

lemma hap_serv_delete_effect:
  assumes "serv_at st s = Some sv" "chain (char_next st) (s_chars sv) cs"
    and "chain (link_next st) (s_linked_servs sv) ls"
  shows "hap_serv_delete (Some s) st = Some (st\<lparr>char_at := char_at st |` (- set cs),
    link_at := link_at st |` (- set ls), serv_at := (serv_at st)(s := None)\<rparr>)"
proof (cases "s_linked_servs sv")
  case None
  then have "ls = []" using assms(3) by simp
  then show ?thesis
    using assms None serv_delete_chars_effect [OF assms(1,2)]
    by (auto simp: hap_serv_delete_def intro!: hap_objs.equality)
next
  case (Some l)
  let ?st = "st\<lparr>char_at := char_at st |` (- set cs), serv_at := (serv_at st)(s \<mapsto> sv\<lparr>s_chars := None\<rparr>)\<rparr>"
  obtain k where k: "link_at st l = Some k" using assms(3) Some by (cases ls) (auto simp: link_next_def)
  have "link_next ?st = link_next st" by (simp add: link_next_def fun_eq_iff)
  with assms(3) Some have "serv_free_links l (l_next k) ?st = Some (?st\<lparr>link_at := link_at ?st |` (- set ls)\<rparr>)"
    by (intro serv_free_links_effect) (simp_all add: k)
  then show ?thesis
    using assms Some k serv_delete_chars_effect [OF assms(1,2)]
    by (simp add: hap_serv_delete_def)
qed

text \<open>Deleting a service frees it, every characteristic of its list and every link to
  another service, and nothing else.\<close>

theorem hap_serv_delete_correct:
  assumes "serv_at st s = Some sv" "chain (char_next st) (s_chars sv) cs"
    and "chain (link_next st) (s_linked_servs sv) ls"
  shows "hap_serv_delete (Some s) st = Some (st\<lparr>char_at := char_at st |` (- set cs),
    link_at := link_at st |` (- set ls), serv_at := (serv_at st)(s := None)\<rparr>)"
  using assms by (rule hap_serv_delete_effect)

lemma hap_serv_delete_correct_witness:
  "hap_serv_delete (Some 1) (boot_objs\<lparr>serv_at := [1 \<mapsto> zero_serv\<lparr>s_chars := Some 2\<rparr>, 5 \<mapsto> zero_serv],
      char_at := [2 \<mapsto> zero_char]\<rparr>) = Some (boot_objs\<lparr>serv_at := [5 \<mapsto> zero_serv]\<rparr>)"
proof -
  let ?st = "boot_objs\<lparr>serv_at := [1 \<mapsto> zero_serv\<lparr>s_chars := Some 2\<rparr>, 5 \<mapsto> zero_serv], char_at := [2 \<mapsto> zero_char]\<rparr>"
  have "serv_at ?st 1 = Some (zero_serv\<lparr>s_chars := Some 2\<rparr>)" by simp
  from hap_serv_delete_correct [OF this, of "[2]" "[]"] show ?thesis
    by (auto simp: char_next_def boot_objs_def restrict_map_def fun_eq_iff)
qed

end
