(* ===== verification/Hap_Build.thy ===== *)
theory Hap_Build
  imports Hap_Serv
begin

text \<open>
  The construction of a service together with its characteristics. Every constructor of
  \<open>esp_hap_apple_profiles/src/hap_apple_servs.c\<close> has one shape: create the service, add
  characteristics one after the other, each made by a constructor of \<open>hap_apple_chars.c\<close>, and at
  the first failure delete the service and return NULL. The shape is \<open>serv_build\<close>; here is the
  contract of a characteristic constructor (\<open>creates\<close>), and what \<open>serv_build\<close> does with
  constructors that meet it, allocation failures included.
\<close>

section \<open>The shape of the constructors\<close>

type_synonym 's char_ctor = "'s hap_objs_scheme \<Rightarrow> (ptr option \<times> 's hap_objs_scheme) option"

text \<open>A characteristic that was created is configured further; NULL is returned at once.\<close>

definition char_then ::
    "ptr option \<times> 's hap_objs_scheme \<Rightarrow> (ptr option \<Rightarrow> 's hap_objs_scheme \<Rightarrow> 's hap_objs_scheme option) \<Rightarrow>
     (ptr option \<times> 's hap_objs_scheme) option" where
  "char_then r f = (case r of (hc, st) \<Rightarrow>
     if hc = None then Some (None, st) else do { st \<leftarrow> f hc st; Some (hc, st) })"

fun serv_add_all ::
    "ptr option \<Rightarrow> 's char_ctor list \<Rightarrow> 's hap_objs_scheme \<Rightarrow> (bool \<times> 's hap_objs_scheme) option" where
  "serv_add_all hs [] st = Some (True, st)"
| "serv_add_all hs (mk # mks) st = do {
     (hc, st) \<leftarrow> mk st;
     (r, st) \<leftarrow> hap_serv_add_char hs hc st;
     if r \<noteq> HAP_SUCCESS then Some (False, st) else serv_add_all hs mks st }"

definition serv_build ::
    "string \<Rightarrow> 's char_ctor list \<Rightarrow> 's hap_objs_scheme \<Rightarrow> (ptr option \<times> 's hap_objs_scheme) option" where
  "serv_build type_uuid mks st = (case hap_serv_create type_uuid st of
       (None, st) \<Rightarrow> Some (None, st)
     | (Some hs, st) \<Rightarrow> do {
         (ok, st) \<leftarrow> serv_add_all (Some hs) mks st;
         if ok then Some (Some hs, st)
         else do { st \<leftarrow> hap_serv_delete (Some hs) st; Some (None, st) } })"

section \<open>The contract of a characteristic constructor\<close>

text \<open>
  \<open>out_of_memory st n\<close>: one of the allocations of the step from \<open>st\<close> to the address \<open>n\<close> failed.
  A constructor returns either NULL, and then nothing but the allocation counter changed and
  there is a reason (memory, or an argument that is not \<open>valid\<close>), or a fresh characteristic
  with the property \<open>P\<close> that belongs to no service.
\<close>

definition out_of_memory :: "'s hap_objs_scheme \<Rightarrow> nat \<Rightarrow> bool" where
  "out_of_memory st n \<longleftrightarrow> (\<exists>k. next_addr st \<le> k \<and> k < n \<and> \<not> malloc_ok st k)"

definition creates :: "'s char_ctor \<Rightarrow> bool \<Rightarrow> (hap_char \<Rightarrow> bool) \<Rightarrow> bool" where
  "creates mk valid P \<longleftrightarrow> (\<forall>st.
     (\<exists>n \<ge> next_addr st. mk st = Some (None, st\<lparr>next_addr := n\<rparr>) \<and> (valid \<longrightarrow> out_of_memory st n)) \<or>
     (\<exists>p n ch. mk st = Some (Some p, st\<lparr>next_addr := n, char_at := (char_at st)(p \<mapsto> ch)\<rparr>) \<and>
        next_addr st \<le> p \<and> p < n \<and> P ch \<and> c_parent ch = None \<and> c_next_char ch = None))"

lemma creates_mono: "creates mk valid P \<Longrightarrow> (\<And>ch. P ch \<Longrightarrow> Q ch) \<Longrightarrow> creates mk valid Q"
  unfolding creates_def by meson

lemma creates_cases:
  assumes "creates mk valid P"
  obtains (NULL) n where "next_addr st \<le> n" "mk st = Some (None, st\<lparr>next_addr := n\<rparr>)"
      "valid \<Longrightarrow> out_of_memory st n"
    | (char) p n ch where "mk st = Some (Some p, st\<lparr>next_addr := n, char_at := (char_at st)(p \<mapsto> ch)\<rparr>)"
      "next_addr st \<le> p" "p < n" "P ch" "c_parent ch = None" "c_next_char ch = None"
  using assms unfolding creates_def by blast

text \<open>The object that \<open>hap_char_create\<close> makes.\<close>

definition base_char :: "string \<Rightarrow> u16 \<Rightarrow> hap_char_format \<Rightarrow> hap_val \<Rightarrow> hap_char" where
  "base_char type_uuid perms fmt v = zero_char\<lparr>c_val := v, c_type_uuid := type_uuid,
     c_format := fmt, c_permission := perms\<rparr>"

lemma base_char_simps [simp]:
  "c_type_uuid (base_char u p f v) = u" "c_permission (base_char u p f v) = p"
  "c_format (base_char u p f v) = f" "c_val (base_char u p f v) = v"
  "c_constraint_flags (base_char u p f v) = 0" "c_parent (base_char u p f v) = None"
  "c_next_char (base_char u p f v) = None" "c_unit (base_char u p f v) = None"
  "c_min (base_char u p f v) = zero_val" "c_max (base_char u p f v) = zero_val"
  "c_step (base_char u p f v) = zero_val"
  by (simp_all add: base_char_def zero_char_def)

lemma char_then_create:
  assumes f: "\<And>p n. f (Some p) (st\<lparr>next_addr := n, char_at := (char_at st)(p \<mapsto> base_char u perms fmt v)\<rparr>) =
      Some (st\<lparr>next_addr := n, char_at := (char_at st)(p \<mapsto> ch)\<rparr>)"
    and "P ch" "c_parent ch = None" "c_next_char ch = None"
    and "fmt = HAP_CHAR_FORMAT_STRING \<Longrightarrow> (case val_s v of None \<Rightarrow> True | Some s \<Rightarrow> length s \<le> HAP_CHAR_STRING_MAX_LEN)"
  shows "(\<exists>n > next_addr st. char_then (hap_char_create u (ucast perms) fmt v st) f = Some (None, st\<lparr>next_addr := n\<rparr>) \<and>
      out_of_memory st n) \<or>
     (\<exists>p n. char_then (hap_char_create u (ucast perms) fmt v st) f =
        Some (Some p, st\<lparr>next_addr := n, char_at := (char_at st)(p \<mapsto> ch)\<rparr>) \<and>
        next_addr st \<le> p \<and> p < n)"
proof -
  have len: "\<not> (fmt = HAP_CHAR_FORMAT_STRING \<and>
      (case val_s v of None \<Rightarrow> False | Some s \<Rightarrow> length s > HAP_CHAR_STRING_MAX_LEN))"
    using assms(5) by (auto split: option.splits)
  have uc: "ucast (ucast perms :: u32) = perms" by (simp add: ucast_up_down)
  show ?thesis
  proof (cases "malloc_ok st (next_addr st)")
    case True
    have "char_then (hap_char_create u (ucast perms) fmt v st) f =
        Some (Some (next_addr st), st\<lparr>next_addr := Suc (next_addr st), char_at := (char_at st)(next_addr st \<mapsto> ch)\<rparr>)"
      using True len f [of "next_addr st" "Suc (next_addr st)"]
      by (simp add: char_then_def hap_char_create_def new_addr_def uc base_char_def del: fun_upd_apply)
    then show ?thesis by auto
  next
    case False
    then have "out_of_memory st (Suc (next_addr st))" by (auto simp: out_of_memory_def)
    with False len show ?thesis
      by (intro disjI1 exI [of _ "Suc (next_addr st)"])
        (auto simp: char_then_def hap_char_create_def new_addr_def)
  qed
qed

lemma upd_char_bind:
  "(upd_char hc g st \<bind> (\<lambda>st. upd_char hc h st)) = upd_char hc (\<lambda>c. h (g c)) st"
  by (auto simp: upd_char_def fun_upd_upd split: bind_splits)

lemma char_then_id: "char_then r (\<lambda>_ st. Some st) = Some r"
  by (auto simp: char_then_def split: prod.split)

lemma creates_upd:
  assumes "fmt \<noteq> HAP_CHAR_FORMAT_STRING" "P (g (base_char u perms fmt v))"
    and "c_parent (g (base_char u perms fmt v)) = None" "c_next_char (g (base_char u perms fmt v)) = None"
  shows "creates (\<lambda>st. char_then (hap_char_create u (ucast perms) fmt v st) (\<lambda>hc. upd_char hc g)) True P"
  unfolding creates_def
proof
  fix st :: "'a hap_objs_scheme"
  let ?ch = "g (base_char u perms fmt v)"
  from assms show "(\<exists>n \<ge> next_addr st. char_then (hap_char_create u (ucast perms) fmt v st) (\<lambda>hc. upd_char hc g) =
        Some (None, st\<lparr>next_addr := n\<rparr>) \<and> (True \<longrightarrow> out_of_memory st n)) \<or>
     (\<exists>p n ch. char_then (hap_char_create u (ucast perms) fmt v st) (\<lambda>hc. upd_char hc g) =
        Some (Some p, st\<lparr>next_addr := n, char_at := (char_at st)(p \<mapsto> ch)\<rparr>) \<and>
        next_addr st \<le> p \<and> p < n \<and> P ch \<and> c_parent ch = None \<and> c_next_char ch = None)"
    using char_then_create [of "\<lambda>hc. upd_char hc g" st u perms fmt v ?ch P] by (auto intro: less_imp_le)
qed

lemma hap_char_create_cases:
  assumes "fmt \<noteq> HAP_CHAR_FORMAT_STRING \<or> (case val_s v of None \<Rightarrow> True | Some s \<Rightarrow> length s \<le> HAP_CHAR_STRING_MAX_LEN)"
  obtains (NULL) n where "next_addr st < n" "hap_char_create u (ucast perms) fmt v st = (None, st\<lparr>next_addr := n\<rparr>)"
      "out_of_memory st n"
    | (char) p n where "hap_char_create u (ucast perms) fmt v st =
        (Some p, st\<lparr>next_addr := n, char_at := (char_at st)(p \<mapsto> base_char u perms fmt v)\<rparr>)"
      "next_addr st \<le> p" "p < n"
  using char_then_create [where f = "\<lambda>_ st. Some st" and u = u and perms = perms and fmt = fmt and v = v
      and ch = "base_char u perms fmt v" and P = "\<lambda>_. True" and st = st] assms
  by (simp add: char_then_id) blast

lemma creates_plain:
  assumes "fmt \<noteq> HAP_CHAR_FORMAT_STRING" "P (base_char u perms fmt v)"
  shows "creates (\<lambda>st. Some (hap_char_create u (ucast perms) fmt v st)) True P"
  unfolding creates_def
proof
  fix st :: "'a hap_objs_scheme"
  from assms(1) have fmt: "fmt \<noteq> HAP_CHAR_FORMAT_STRING \<or>
      (case val_s v of None \<Rightarrow> True | Some s \<Rightarrow> length s \<le> HAP_CHAR_STRING_MAX_LEN)" by simp
  show "(\<exists>n \<ge> next_addr st. Some (hap_char_create u (ucast perms) fmt v st) = Some (None, st\<lparr>next_addr := n\<rparr>) \<and>
        (True \<longrightarrow> out_of_memory st n)) \<or>
     (\<exists>p n ch. Some (hap_char_create u (ucast perms) fmt v st) =
        Some (Some p, st\<lparr>next_addr := n, char_at := (char_at st)(p \<mapsto> ch)\<rparr>) \<and>
        next_addr st \<le> p \<and> p < n \<and> P ch \<and> c_parent ch = None \<and> c_next_char ch = None)"
    using fmt
  proof (cases rule: hap_char_create_cases [where u = u and perms = perms and st = st])
    case (NULL n)
    then show ?thesis by (intro disjI1 exI [of _ n]) simp
  next
    case (char p n)
    then show ?thesis using assms(2)
      by (intro disjI2 exI [of _ p] exI [of _ n] exI [of _ "base_char u perms fmt v"]) simp
  qed
qed

definition string_fits :: "string option \<Rightarrow> bool" where
  "string_fits s \<longleftrightarrow> (case s of None \<Rightarrow> True | Some s \<Rightarrow> length s \<le> HAP_CHAR_STRING_MAX_LEN)"

lemma creates_string:
  assumes "\<And>r. r = s \<or> r = None \<Longrightarrow> P (base_char u perms HAP_CHAR_FORMAT_STRING (zero_val\<lparr>val_s := r\<rparr>))"
  shows "creates (\<lambda>st. Some (hap_char_string_create u perms s st)) (string_fits s) P"
  unfolding creates_def
proof
  fix st :: "'a hap_objs_scheme"
  obtain r st1 where r: "(case s of Some s \<Rightarrow> strdup s st | None \<Rightarrow> (None, st)) = (r, st1)"
    by fastforce
  then obtain m where m: "st1 = st\<lparr>next_addr := m\<rparr>" "next_addr st \<le> m" "r = s \<or> r = None"
    by (cases s) (auto simp: strdup_def new_addr_def intro: that [of "next_addr st"] split: if_splits)
  let ?v = "zero_val\<lparr>val_s := r\<rparr>"
  have eq: "hap_char_string_create u perms s st = hap_char_create u (ucast perms) HAP_CHAR_FORMAT_STRING ?v st1"
    by (simp add: hap_char_string_create_def r)
  show "(\<exists>n \<ge> next_addr st. Some (hap_char_string_create u perms s st) = Some (None, st\<lparr>next_addr := n\<rparr>) \<and>
        (string_fits s \<longrightarrow> out_of_memory st n)) \<or>
     (\<exists>p n ch. Some (hap_char_string_create u perms s st) =
        Some (Some p, st\<lparr>next_addr := n, char_at := (char_at st)(p \<mapsto> ch)\<rparr>) \<and>
        next_addr st \<le> p \<and> p < n \<and> P ch \<and> c_parent ch = None \<and> c_next_char ch = None)"
  proof (cases "string_fits r")
    case True
    then have "HAP_CHAR_FORMAT_STRING \<noteq> HAP_CHAR_FORMAT_STRING \<or>
      (case val_s ?v of None \<Rightarrow> True | Some s \<Rightarrow> length s \<le> HAP_CHAR_STRING_MAX_LEN)"
      by (simp add: string_fits_def)
    then show ?thesis
    proof (cases rule: hap_char_create_cases [where u = u and perms = perms and st = st1])
      case (NULL n)
      then show ?thesis using m(1,2)
        by (intro disjI1 exI [of _ n]) (auto simp: eq out_of_memory_def intro: le_trans)
    next
      case (char p n)
      then show ?thesis using m assms [OF m(3)]
        by (intro disjI2 exI [of _ p] exI [of _ n]
            exI [of _ "base_char u perms HAP_CHAR_FORMAT_STRING ?v"]) (simp add: eq)
    qed
  next
    case False
    then have "hap_char_create u (ucast perms) HAP_CHAR_FORMAT_STRING ?v st1 = (None, st1)"
      by (auto simp: hap_char_create_def string_fits_def split: option.splits)
    moreover have "\<not> string_fits s" using False m(3) by (auto simp: string_fits_def)
    ultimately show ?thesis using m by (auto simp: eq)
  qed
qed

section \<open>A service under construction\<close>

text \<open>
  \<open>built st0 st s uuid cs\<close>: from \<open>st0\<close> to \<open>st\<close> exactly the service \<open>s\<close> and its
  characteristics \<open>cs\<close> were allocated.
\<close>

definition built ::
    "'s hap_objs_scheme \<Rightarrow> 's hap_objs_scheme \<Rightarrow> ptr \<Rightarrow> string \<Rightarrow> ptr list \<Rightarrow> bool" where
  "built st0 st s uuid cs \<longleftrightarrow> next_addr st0 \<le> s \<and> s < next_addr st \<and>
     (\<exists>sv. serv_at st = (serv_at st0)(s \<mapsto> sv) \<and> s_parent sv = None \<and> s_linked_servs sv = None \<and>
        s_next_serv sv = None \<and> s_type_uuid sv = uuid \<and> chain (char_next st) (s_chars sv) cs) \<and>
     (\<forall>c \<in> set cs. next_addr st0 \<le> c \<and> c < next_addr st \<and>
        (\<exists>ch. char_at st c = Some ch \<and> c_parent ch = Some s)) \<and>
     (\<forall>c. c \<notin> set cs \<longrightarrow> char_at st c = char_at st0 c) \<and>
     st = st0\<lparr>next_addr := next_addr st, serv_at := serv_at st, char_at := char_at st\<rparr>"

definition char_uuids :: "'s hap_objs_scheme \<Rightarrow> ptr list \<Rightarrow> string list" where
  "char_uuids st cs = map (\<lambda>c. c_type_uuid (the (char_at st c))) cs"

lemma built_serv_chars: "built st0 st s uuid cs \<Longrightarrow> serv_chars st s cs"
  by (auto simp: built_def serv_chars_def)

lemma built_create:
  assumes "hap_serv_create uuid st0 = (Some s, st)"
  shows "built st0 st s uuid []"
  using assms by (auto simp: hap_serv_create_def new_addr_def built_def zero_serv_def split: if_splits)

lemma built_add:
  assumes b: "built st0 st s uuid cs" and h: "heap_ok st0"
    and mk: "next_addr st \<le> p" "p < n" "c_parent ch = None" "c_next_char ch = None"
  obtains st' where "hap_serv_add_char (Some s) (Some p) (st\<lparr>next_addr := n, char_at := (char_at st)(p \<mapsto> ch)\<rparr>) =
      Some (0, st')" "built st0 st' s uuid (cs @ [p])" "next_addr st' = n"
    "char_uuids st' (cs @ [p]) = char_uuids st cs @ [c_type_uuid ch]"
proof -
  let ?st = "st\<lparr>next_addr := n, char_at := (char_at st)(p \<mapsto> ch)\<rparr>"
  let ?st' = "attach_char s cs p ?st"
  obtain sv where sv: "serv_at st = (serv_at st0)(s \<mapsto> sv)" "s_parent sv = None" "s_linked_servs sv = None"
      "s_next_serv sv = None" "s_type_uuid sv = uuid" "chain (char_next st) (s_chars sv) cs"
    using b by (auto simp: built_def)
  have p: "p \<notin> set cs" using b mk(1) by (auto simp: built_def)
  have "chain (char_next ?st) (s_chars sv) cs"
    using sv(6) p by (subst chain_cong [of _ _ "char_next st"]) (auto simp: char_next_def)
  with sv have sc: "serv_chars ?st s cs" by (auto simp: serv_chars_def)
  have np: "\<And>sva a. serv_at ?st s = Some sva \<Longrightarrow> s_parent sva = Some a \<Longrightarrow> acc_at ?st a \<noteq> None"
    using sv by simp
  have cp: "char_at ?st p = Some ch" by simp
  have add: "hap_serv_add_char (Some s) (Some p) ?st = Some (0, ?st')" "serv_chars ?st' s (cs @ [p])"
    by (rule add_char_effect [OF sc cp mk(3,4) p]; erule np; assumption)+
  have live: "\<exists>d. char_at st c = Some d \<and> c_parent d = Some s" "next_addr st0 \<le> c" "c < next_addr st"
    if "c \<in> set cs" for c
    using b that by (auto simp: built_def)
  have chars: "char_at ?st' x = (if x = p then Some (ch\<lparr>c_parent := Some s\<rparr>)
      else if cs \<noteq> [] \<and> x = last cs then Some ((the (char_at st x))\<lparr>c_next_char := Some p\<rparr>)
      else char_at st x)" for x
    using sv p by (auto simp: attach_char_def Let_def)
  have serv: "serv_at ?st' = (serv_at st0)(s \<mapsto> if cs = [] then sv\<lparr>s_chars := Some p\<rparr> else sv)"
    using sv by (auto simp: attach_char_def Let_def fun_eq_iff)
  have st: "st = st0\<lparr>next_addr := next_addr st, serv_at := serv_at st, char_at := char_at st\<rparr>"
    and bounds: "next_addr st0 \<le> s" "s < next_addr st"
    and other: "\<And>c. c \<notin> set cs \<Longrightarrow> char_at st c = char_at st0 c"
    using b by (simp_all add: built_def)
  have frame: "?st' = st0\<lparr>next_addr := n, serv_at := serv_at ?st', char_at := char_at ?st'\<rparr>"
    using sv by (subst (1) st) (auto simp: attach_char_def Let_def intro!: hap_objs.equality)
  have nn: "next_addr ?st' = n" using sv by (simp add: attach_char_def Let_def)
  obtain sv' where sv': "serv_at ?st' s = Some sv'" "chain (char_next ?st') (s_chars sv') (cs @ [p])"
    using add(2) unfolding serv_chars_def by blast
  show thesis
  proof (rule that [of ?st'])
    show "hap_serv_add_char (Some s) (Some p) ?st = Some (0, ?st')" by (fact add(1))
    show "next_addr ?st' = n" by (fact nn)
    show "built st0 ?st' s uuid (cs @ [p])"
      unfolding built_def
    proof (intro conjI ballI allI impI exI)
      show "next_addr st0 \<le> s" by fact
      show "s < next_addr ?st'" using bounds mk(1,2) nn by simp
      show "serv_at ?st' = (serv_at st0)(s \<mapsto> sv')" using serv sv'(1) by auto
      show "s_parent sv' = None" "s_linked_servs sv' = None" "s_next_serv sv' = None" "s_type_uuid sv' = uuid"
        using serv sv'(1) sv by auto
      show "chain (char_next ?st') (s_chars sv') (cs @ [p])" by fact
      show "?st' = st0\<lparr>next_addr := next_addr ?st', serv_at := serv_at ?st', char_at := char_at ?st'\<rparr>"
        using frame nn by simp
      fix c
      assume c: "c \<in> set (cs @ [p])"
      show "next_addr st0 \<le> c" using c live(2) bounds mk(1) by fastforce
      show "c < next_addr ?st'" using c live(3) mk(1,2) nn by fastforce
      show "char_at ?st' c = Some (the (char_at ?st' c))"
        "c_parent (the (char_at ?st' c)) = Some s"
        using c live(1) [of c] by (auto simp: chars)
    next
      fix c assume "c \<notin> set (cs @ [p])"
      then show "char_at ?st' c = char_at st0 c" using other by (auto simp: chars)
    qed
    show "char_uuids ?st' (cs @ [p]) = char_uuids st cs @ [c_type_uuid ch]"
      using p by (auto simp: char_uuids_def chars)
  qed
qed

lemma built_frame: "built st0 st s uuid cs \<Longrightarrow>
    st = st0\<lparr>next_addr := next_addr st, serv_at := serv_at st, char_at := char_at st\<rparr>"
  by (simp add: built_def)

lemma built_skip:
  "built st0 st s uuid cs \<Longrightarrow> next_addr st \<le> n \<Longrightarrow> built st0 (st\<lparr>next_addr := n\<rparr>) s uuid cs"
proof -
  assume b: "built st0 st s uuid cs" and n: "next_addr st \<le> n"
  have "st\<lparr>next_addr := n\<rparr> = st0\<lparr>next_addr := n, serv_at := serv_at st, char_at := char_at st\<rparr>"
    by (subst built_frame [OF b]) simp
  moreover have "char_next (st\<lparr>next_addr := n\<rparr>) = char_next st" by (simp add: char_next_def fun_eq_iff)
  ultimately show "built st0 (st\<lparr>next_addr := n\<rparr>) s uuid cs"
    using b n unfolding built_def by (auto intro: less_le_trans)
qed

lemma built_oom:
  assumes "built st0 st s uuid cs" "out_of_memory st n"
  shows "out_of_memory st0 n"
proof -
  have "malloc_ok st = malloc_ok st0" by (subst built_frame [OF assms(1)]) simp
  moreover have "next_addr st0 \<le> next_addr st" using assms(1) by (simp add: built_def)
  ultimately show ?thesis using assms(2) by (auto simp: out_of_memory_def intro: le_trans)
qed

lemma built_delete:
  assumes b: "built st0 st s uuid cs" and h: "heap_ok st0"
  shows "hap_serv_delete (Some s) st = Some (st0\<lparr>next_addr := next_addr st\<rparr>)"
proof -
  obtain sv where sv: "serv_at st = (serv_at st0)(s \<mapsto> sv)" "s_linked_servs sv = None"
      "chain (char_next st) (s_chars sv) cs"
    using b by (auto simp: built_def)
  have fresh: "serv_at st0 s = None" "\<And>c. c \<in> set cs \<Longrightarrow> char_at st0 c = None"
    using b h by (auto simp: built_def intro: heap_ok_fresh)
  have other: "\<And>c. c \<notin> set cs \<Longrightarrow> char_at st c = char_at st0 c" using b by (simp add: built_def)
  have "hap_serv_delete (Some s) st = Some (st\<lparr>char_at := char_at st |` (- set cs),
      link_at := link_at st |` (- set []), serv_at := (serv_at st)(s := None)\<rparr>)"
    using sv by (intro hap_serv_delete_effect [of st s sv]) simp_all
  also have "st\<lparr>char_at := char_at st |` (- set cs), link_at := link_at st |` (- set []),
      serv_at := (serv_at st)(s := None)\<rparr> = st0\<lparr>next_addr := next_addr st\<rparr>"
    by (subst (1) built_frame [OF b])
      (auto intro!: hap_objs.equality simp: restrict_map_def fun_eq_iff sv(1) fresh other
        built_frame [OF b, THEN arg_cong, of link_at])
  finally show ?thesis .
qed

lemma built_heap_ok: "built st0 st s uuid cs \<Longrightarrow> heap_ok st0 \<Longrightarrow> heap_ok st"
proof -
  assume b: "built st0 st s uuid cs" and h: "heap_ok st0"
  obtain sv where sv: "serv_at st = (serv_at st0)(s \<mapsto> sv)" using b by (auto simp: built_def)
  have "acc_at st = acc_at st0" "link_at st = link_at st0" by (subst built_frame [OF b], simp)+
  with b h sv show "heap_ok st" unfolding heap_ok_def built_def
    by (smt (verit, ccfv_threshold) fun_upd_apply le_trans less_imp_le not_le)
qed

lemma serv_add_all_spec:
  assumes "list_all2 (\<lambda>mk vu. creates mk (fst vu) (\<lambda>ch. c_type_uuid ch = snd vu)) mks specs"
    and "built st0 st s uuid cs" "heap_ok st0"
  shows "(\<exists>st' cs'. serv_add_all (Some s) mks st = Some (True, st') \<and> built st0 st' s uuid cs' \<and>
      char_uuids st' cs' = char_uuids st cs @ map snd specs) \<or>
    (\<exists>st' cs'. serv_add_all (Some s) mks st = Some (False, st') \<and> built st0 st' s uuid cs' \<and>
      (list_all fst specs \<longrightarrow> out_of_memory st0 (next_addr st')))"
  using assms
proof (induction mks specs arbitrary: st cs rule: list_all2_induct)
  case Nil
  then show ?case by auto
next
  case (Cons mk mks vu specs)
  from Cons.hyps(1) show ?case
  proof (cases rule: creates_cases [where st = st])
    case (NULL n)
    have "built st0 (st\<lparr>next_addr := n\<rparr>) s uuid cs" using Cons.prems(1) NULL(1) by (rule built_skip)
    moreover have "list_all fst (vu # specs) \<Longrightarrow> out_of_memory st0 n"
      using NULL(3) built_oom [OF Cons.prems(1)] by simp
    ultimately show ?thesis using NULL(2)
      by (intro disjI2 exI [of _ "st\<lparr>next_addr := n\<rparr>"] exI [of _ cs]) (simp add: hap_serv_add_char_def)
  next
    case (char p n ch)
    obtain st' where st': "hap_serv_add_char (Some s) (Some p) (st\<lparr>next_addr := n, char_at := (char_at st)(p \<mapsto> ch)\<rparr>) =
      Some (0, st')" "built st0 st' s uuid (cs @ [p])"
      "char_uuids st' (cs @ [p]) = char_uuids st cs @ [c_type_uuid ch]"
      using built_add [OF Cons.prems char(2,3,5,6)] by metis
    from Cons.IH [OF st'(2) Cons.prems(2)] show ?thesis
      using char(1,4) st'(1,3) by auto
  qed
qed

lemma serv_build_effect:
  assumes "heap_ok st"
    and "list_all2 (\<lambda>mk vu. creates mk (fst vu) (\<lambda>ch. c_type_uuid ch = snd vu)) mks specs"
  shows "(\<exists>n \<ge> next_addr st. serv_build uuid mks st = Some (None, st\<lparr>next_addr := n\<rparr>) \<and>
      (list_all fst specs \<longrightarrow> out_of_memory st n)) \<or>
    (\<exists>s cs st'. serv_build uuid mks st = Some (Some s, st') \<and> built st st' s uuid cs \<and> heap_ok st' \<and>
      char_uuids st' cs = map snd specs)"
proof (cases "malloc_ok st (next_addr st)")
  case False
  then show ?thesis
    by (intro disjI1 exI [of _ "Suc (next_addr st)"])
      (auto simp: serv_build_def hap_serv_create_def new_addr_def out_of_memory_def)
next
  case True
  then obtain s st1 where c: "hap_serv_create uuid st = (Some s, st1)"
    by (simp add: hap_serv_create_def new_addr_def)
  note b = built_create [OF c]
  from serv_add_all_spec [OF assms(2) b assms(1)] show ?thesis
  proof (elim disjE exE conjE)
    fix st' cs'
    assume "serv_add_all (Some s) mks st1 = Some (True, st')" "built st st' s uuid cs'"
      "char_uuids st' cs' = char_uuids st1 [] @ map snd specs"
    then show ?thesis using c built_heap_ok [OF _ assms(1)]
      by (intro disjI2 exI [of _ s] exI [of _ cs'] exI [of _ st'])
        (auto simp: serv_build_def char_uuids_def)
  next
    fix st' cs'
    assume *: "serv_add_all (Some s) mks st1 = Some (False, st')" "built st st' s uuid cs'"
      "list_all fst specs \<longrightarrow> out_of_memory st (next_addr st')"
    have "next_addr st \<le> next_addr st'" using *(2) by (simp add: built_def)
    with * c built_delete [OF *(2) assms(1)] show ?thesis
      by (intro disjI1 exI [of _ "next_addr st'"]) (simp add: serv_build_def)
  qed
qed

text \<open>A service constructor of the profile returns either NULL, and then the heap is as
  before (nothing leaks) and some allocation failed or some argument was too long, or a fresh
  service of its type whose characteristics have the types of the list, in that order.\<close>

theorem serv_build_correct:
  assumes "heap_ok st"
    and "list_all2 (\<lambda>mk vu. creates mk (fst vu) (\<lambda>ch. c_type_uuid ch = snd vu)) mks specs"
  shows "(\<exists>n \<ge> next_addr st. serv_build uuid mks st = Some (None, st\<lparr>next_addr := n\<rparr>) \<and>
      (list_all fst specs \<longrightarrow> out_of_memory st n)) \<or>
    (\<exists>s cs st'. serv_build uuid mks st = Some (Some s, st') \<and> built st st' s uuid cs \<and> heap_ok st' \<and>
      char_uuids st' cs = map snd specs)"
  using assms by (rule serv_build_effect)

lemma boot_heap_ok [simp]: "heap_ok boot_objs"
  by (simp add: heap_ok_def boot_objs_def)

lemma serv_build_correct_witness:
  "\<exists>s cs st'. serv_build ''40'' [\<lambda>st. Some (hap_char_bool_create ''25'' 7 True st)] boot_objs = Some (Some s, st') \<and>
     char_uuids st' cs = [''25'']"
proof -
  have mk: "creates (\<lambda>st. Some (hap_char_bool_create ''25'' 7 True st)) True (\<lambda>ch. c_type_uuid ch = ''25'')"
    unfolding hap_char_bool_create_def by (rule creates_plain) simp_all
  have no: "\<not> out_of_memory boot_objs n" for n by (simp add: out_of_memory_def boot_objs_def)
  from serv_build_correct [of boot_objs "[\<lambda>st. Some (hap_char_bool_create ''25'' 7 True st)]" "[(True, ''25'')]" "''40''"] mk no
  show ?thesis by auto
qed

end
