(* ===== verification/Apple_Chars.thy ===== *)
theory Apple_Chars
  imports Hap_Build
begin

text \<open>
  The characteristics of the HomeKit profile (\<open>esp_hap_apple_profiles/src/hap_apple_chars.c\<close>):
  their types (\<open>hap_apple_chars.h\<close>) and the 106 constructors. A float argument is its bit
  pattern, as are the float constants (\<open>0x3F800000\<close> is 1.0).
\<close>

section \<open>Types\<close>

definition HAP_CHAR_UUID_ADMINISTRATOR_ONLY_ACCESS :: string where "HAP_CHAR_UUID_ADMINISTRATOR_ONLY_ACCESS = ''1''"
definition HAP_CHAR_UUID_BRIGHTNESS :: string where "HAP_CHAR_UUID_BRIGHTNESS = ''8''"
definition HAP_CHAR_UUID_COOLING_THRESHOLD_TEMPERATURE :: string where "HAP_CHAR_UUID_COOLING_THRESHOLD_TEMPERATURE = ''D''"
definition HAP_CHAR_UUID_CURRENT_DOOR_STATE :: string where "HAP_CHAR_UUID_CURRENT_DOOR_STATE = ''E''"
definition HAP_CHAR_UUID_CURRENT_HEATING_COOLING_STATE :: string where "HAP_CHAR_UUID_CURRENT_HEATING_COOLING_STATE = ''F''"
definition HAP_CHAR_UUID_CURRENT_RELATIVE_HUMIDITY :: string where "HAP_CHAR_UUID_CURRENT_RELATIVE_HUMIDITY = ''10''"
definition HAP_CHAR_UUID_CURRENT_TEMPERATURE :: string where "HAP_CHAR_UUID_CURRENT_TEMPERATURE = ''11''"
definition HAP_CHAR_UUID_FIRMWARE_REVISION :: string where "HAP_CHAR_UUID_FIRMWARE_REVISION = ''52''"
definition HAP_CHAR_UUID_HARDWARE_REVISION :: string where "HAP_CHAR_UUID_HARDWARE_REVISION = ''53''"
definition HAP_CHAR_UUID_HEATING_THRESHOLD_TEMPERATURE :: string where "HAP_CHAR_UUID_HEATING_THRESHOLD_TEMPERATURE = ''12''"
definition HAP_CHAR_UUID_HUE :: string where "HAP_CHAR_UUID_HUE = ''13''"
definition HAP_CHAR_UUID_IDENTIFY :: string where "HAP_CHAR_UUID_IDENTIFY = ''14''"
definition HAP_CHAR_UUID_LOCK_CONTROL_POINT :: string where "HAP_CHAR_UUID_LOCK_CONTROL_POINT = ''19''"
definition HAP_CHAR_UUID_LOCK_CURRENT_STATE :: string where "HAP_CHAR_UUID_LOCK_CURRENT_STATE = ''1D''"
definition HAP_CHAR_UUID_LOCK_LAST_KNOWN_ACTION :: string where "HAP_CHAR_UUID_LOCK_LAST_KNOWN_ACTION = ''1C''"
definition HAP_CHAR_UUID_LOCK_MANAGEMENT_AUTO_SECURITY_TIMEOUT :: string where "HAP_CHAR_UUID_LOCK_MANAGEMENT_AUTO_SECURITY_TIMEOUT = ''1A''"
definition HAP_CHAR_UUID_LOCK_TARGET_STATE :: string where "HAP_CHAR_UUID_LOCK_TARGET_STATE = ''1E''"
definition HAP_CHAR_UUID_LOGS :: string where "HAP_CHAR_UUID_LOGS = ''1F''"
definition HAP_CHAR_UUID_MANUFACTURER :: string where "HAP_CHAR_UUID_MANUFACTURER = ''20''"
definition HAP_CHAR_UUID_MODEL :: string where "HAP_CHAR_UUID_MODEL = ''21''"
definition HAP_CHAR_UUID_MOTION_DETECTED :: string where "HAP_CHAR_UUID_MOTION_DETECTED = ''22''"
definition HAP_CHAR_UUID_NAME :: string where "HAP_CHAR_UUID_NAME = ''23''"
definition HAP_CHAR_UUID_OBSTRUCTION_DETECTED :: string where "HAP_CHAR_UUID_OBSTRUCTION_DETECTED = ''24''"
definition HAP_CHAR_UUID_ON :: string where "HAP_CHAR_UUID_ON = ''25''"
definition HAP_CHAR_UUID_OUTLET_IN_USE :: string where "HAP_CHAR_UUID_OUTLET_IN_USE = ''26''"
definition HAP_CHAR_UUID_ROTATION_DIRECTION :: string where "HAP_CHAR_UUID_ROTATION_DIRECTION = ''28''"
definition HAP_CHAR_UUID_ROTATION_SPEED :: string where "HAP_CHAR_UUID_ROTATION_SPEED = ''29''"
definition HAP_CHAR_UUID_SATURATION :: string where "HAP_CHAR_UUID_SATURATION = ''2F''"
definition HAP_CHAR_UUID_SERIAL_NUMBER :: string where "HAP_CHAR_UUID_SERIAL_NUMBER = ''30''"
definition HAP_CHAR_UUID_TARGET_DOOR_STATE :: string where "HAP_CHAR_UUID_TARGET_DOOR_STATE = ''32''"
definition HAP_CHAR_UUID_TARGET_HEATING_COOLING_STATE :: string where "HAP_CHAR_UUID_TARGET_HEATING_COOLING_STATE = ''33''"
definition HAP_CHAR_UUID_TARGET_RELATIVE_HUMIDITY :: string where "HAP_CHAR_UUID_TARGET_RELATIVE_HUMIDITY = ''34''"
definition HAP_CHAR_UUID_TARGET_TEMPERATURE :: string where "HAP_CHAR_UUID_TARGET_TEMPERATURE = ''35''"
definition HAP_CHAR_UUID_TEMPERATURE_DISPLAY_UNITS :: string where "HAP_CHAR_UUID_TEMPERATURE_DISPLAY_UNITS = ''36''"
definition HAP_CHAR_UUID_VERSION :: string where "HAP_CHAR_UUID_VERSION = ''37''"
definition HAP_CHAR_UUID_AIR_PARTICULATE_DENSITY :: string where "HAP_CHAR_UUID_AIR_PARTICULATE_DENSITY = ''64''"
definition HAP_CHAR_UUID_AIR_PARTICULATE_SIZE :: string where "HAP_CHAR_UUID_AIR_PARTICULATE_SIZE = ''65''"
definition HAP_CHAR_UUID_SECURITY_SYSTEM_CURRENT_STATE :: string where "HAP_CHAR_UUID_SECURITY_SYSTEM_CURRENT_STATE = ''66''"
definition HAP_CHAR_UUID_SECURITY_SYSTEM_TARGET_STATE :: string where "HAP_CHAR_UUID_SECURITY_SYSTEM_TARGET_STATE = ''67''"
definition HAP_CHAR_UUID_BATTERY_LEVEL :: string where "HAP_CHAR_UUID_BATTERY_LEVEL = ''68''"
definition HAP_CHAR_UUID_CARBON_MONOXIDE_DETECTED :: string where "HAP_CHAR_UUID_CARBON_MONOXIDE_DETECTED = ''69''"
definition HAP_CHAR_UUID_CONTACT_SENSOR_STATE :: string where "HAP_CHAR_UUID_CONTACT_SENSOR_STATE = ''6A''"
definition HAP_CHAR_UUID_CURRENT_AMBIENT_LIGHT_LEVEL :: string where "HAP_CHAR_UUID_CURRENT_AMBIENT_LIGHT_LEVEL = ''6B''"
definition HAP_CHAR_UUID_CURRENT_HORIZONTAL_TILT_ANGLE :: string where "HAP_CHAR_UUID_CURRENT_HORIZONTAL_TILT_ANGLE = ''6C''"
definition HAP_CHAR_UUID_CURRENT_POSITION :: string where "HAP_CHAR_UUID_CURRENT_POSITION = ''6D''"
definition HAP_CHAR_UUID_CURRENT_VERTICAL_TILT_ANGLE :: string where "HAP_CHAR_UUID_CURRENT_VERTICAL_TILT_ANGLE = ''6E''"
definition HAP_CHAR_UUID_HOLD_POSITION :: string where "HAP_CHAR_UUID_HOLD_POSITION = ''6F''"
definition HAP_CHAR_UUID_LEAK_DETECTED :: string where "HAP_CHAR_UUID_LEAK_DETECTED = ''70''"
definition HAP_CHAR_UUID_OCCUPANCY_DETECTED :: string where "HAP_CHAR_UUID_OCCUPANCY_DETECTED = ''71''"
definition HAP_CHAR_UUID_POSITION_STATE :: string where "HAP_CHAR_UUID_POSITION_STATE = ''72''"
definition HAP_CHAR_UUID_PROGRAMMABLE_SWITCH_EVENT :: string where "HAP_CHAR_UUID_PROGRAMMABLE_SWITCH_EVENT = ''73''"
definition HAP_CHAR_UUID_STATUS_ACTIVE :: string where "HAP_CHAR_UUID_STATUS_ACTIVE = ''75''"
definition HAP_CHAR_UUID_SMOKE_DETECTED :: string where "HAP_CHAR_UUID_SMOKE_DETECTED = ''76''"
definition HAP_CHAR_UUID_STATUS_FAULT :: string where "HAP_CHAR_UUID_STATUS_FAULT = ''77''"
definition HAP_CHAR_UUID_STATUS_JAMMED :: string where "HAP_CHAR_UUID_STATUS_JAMMED = ''78''"
definition HAP_CHAR_UUID_STATUS_LOW_BATTERY :: string where "HAP_CHAR_UUID_STATUS_LOW_BATTERY = ''79''"
definition HAP_CHAR_UUID_STATUS_TAMPERED :: string where "HAP_CHAR_UUID_STATUS_TAMPERED = ''7A''"
definition HAP_CHAR_UUID_TARGET_HORIZONTAL_TILT_ANGLE :: string where "HAP_CHAR_UUID_TARGET_HORIZONTAL_TILT_ANGLE = ''7B''"
definition HAP_CHAR_UUID_TARGET_POSITION :: string where "HAP_CHAR_UUID_TARGET_POSITION = ''7C''"
definition HAP_CHAR_UUID_TARGET_VERTICAL_TILT_ANGLE :: string where "HAP_CHAR_UUID_TARGET_VERTICAL_TILT_ANGLE = ''7D''"
definition HAP_CHAR_UUID_STATUS_SECURITY_SYSTEM_ALARM_TYPE :: string where "HAP_CHAR_UUID_STATUS_SECURITY_SYSTEM_ALARM_TYPE = ''8E''"
definition HAP_CHAR_UUID_CHARGING_STATE :: string where "HAP_CHAR_UUID_CHARGING_STATE = ''8F''"
definition HAP_CHAR_UUID_CARBON_MONOXIDE_LEVEL :: string where "HAP_CHAR_UUID_CARBON_MONOXIDE_LEVEL = ''90''"
definition HAP_CHAR_UUID_CARBON_MONOXIDE_PEAK_LEVEL :: string where "HAP_CHAR_UUID_CARBON_MONOXIDE_PEAK_LEVEL = ''91''"
definition HAP_CHAR_UUID_CARBON_DIOXIDE_DETECTED :: string where "HAP_CHAR_UUID_CARBON_DIOXIDE_DETECTED = ''92''"
definition HAP_CHAR_UUID_CARBON_DIOXIDE_LEVEL :: string where "HAP_CHAR_UUID_CARBON_DIOXIDE_LEVEL = ''93''"
definition HAP_CHAR_UUID_CARBON_DIOXIDE_PEAK_LEVEL :: string where "HAP_CHAR_UUID_CARBON_DIOXIDE_PEAK_LEVEL = ''94''"
definition HAP_CHAR_UUID_AIR_QUALITY :: string where "HAP_CHAR_UUID_AIR_QUALITY = ''95''"
definition HAP_CHAR_UUID_ACCESSORY_FLAGS :: string where "HAP_CHAR_UUID_ACCESSORY_FLAGS = ''A6''"
definition HAP_CHAR_UUID_LOCK_PHYSICAL_CONTROLS :: string where "HAP_CHAR_UUID_LOCK_PHYSICAL_CONTROLS = ''A7''"
definition HAP_CHAR_UUID_CURRENT_AIR_PURIFIER_STATE :: string where "HAP_CHAR_UUID_CURRENT_AIR_PURIFIER_STATE = ''A9''"
definition HAP_CHAR_UUID_CURRENT_SLAT_STATE :: string where "HAP_CHAR_UUID_CURRENT_SLAT_STATE = ''AA''"
definition HAP_CHAR_UUID_SLAT_TYPE :: string where "HAP_CHAR_UUID_SLAT_TYPE = ''C0''"
definition HAP_CHAR_UUID_FILTER_LIFE_LEVEL :: string where "HAP_CHAR_UUID_FILTER_LIFE_LEVEL = ''AB''"
definition HAP_CHAR_UUID_FILTER_CHANGE_INDICATION :: string where "HAP_CHAR_UUID_FILTER_CHANGE_INDICATION = ''AC''"
definition HAP_CHAR_UUID_RESET_FILTER_INDICATION :: string where "HAP_CHAR_UUID_RESET_FILTER_INDICATION = ''AD''"
definition HAP_CHAR_UUID_TARGET_AIR_PURIFIER_STATE :: string where "HAP_CHAR_UUID_TARGET_AIR_PURIFIER_STATE = ''A8''"
definition HAP_CHAR_UUID_TARGET_FAN_STATE :: string where "HAP_CHAR_UUID_TARGET_FAN_STATE = ''BF''"
definition HAP_CHAR_UUID_CURRENT_FAN_STATE :: string where "HAP_CHAR_UUID_CURRENT_FAN_STATE = ''AF''"
definition HAP_CHAR_UUID_ACTIVE :: string where "HAP_CHAR_UUID_ACTIVE = ''B0''"
definition HAP_CHAR_UUID_SWING_MODE :: string where "HAP_CHAR_UUID_SWING_MODE = ''B6''"
definition HAP_CHAR_UUID_CURRENT_TILT_ANGLE :: string where "HAP_CHAR_UUID_CURRENT_TILT_ANGLE = ''C1''"
definition HAP_CHAR_UUID_TARGET_TILT_ANGLE :: string where "HAP_CHAR_UUID_TARGET_TILT_ANGLE = ''C2''"
definition HAP_CHAR_UUID_OZONE_DENSITY :: string where "HAP_CHAR_UUID_OZONE_DENSITY = ''C3''"
definition HAP_CHAR_UUID_NITROGEN_DIOXIDE_DENSITY :: string where "HAP_CHAR_UUID_NITROGEN_DIOXIDE_DENSITY = ''C4''"
definition HAP_CHAR_UUID_SULPHUR_DIOXIDE_DENSITY :: string where "HAP_CHAR_UUID_SULPHUR_DIOXIDE_DENSITY = ''C5''"
definition HAP_CHAR_UUID_PM_2_5_DENSITY :: string where "HAP_CHAR_UUID_PM_2_5_DENSITY = ''C6''"
definition HAP_CHAR_UUID_PM_10_DENSITY :: string where "HAP_CHAR_UUID_PM_10_DENSITY = ''C7''"
definition HAP_CHAR_UUID_VOC_DENSITY :: string where "HAP_CHAR_UUID_VOC_DENSITY = ''C8''"
definition HAP_CHAR_UUID_SERVICE_LABEL_INDEX :: string where "HAP_CHAR_UUID_SERVICE_LABEL_INDEX = ''CB''"
definition HAP_CHAR_UUID_SERVICE_LABEL_NAMESPACE :: string where "HAP_CHAR_UUID_SERVICE_LABEL_NAMESPACE = ''CD''"
definition HAP_CHAR_UUID_COLOR_TEMPERATURE :: string where "HAP_CHAR_UUID_COLOR_TEMPERATURE = ''CE''"
definition HAP_CHAR_UUID_CURRENT_HEATER_COOLER_STATE :: string where "HAP_CHAR_UUID_CURRENT_HEATER_COOLER_STATE = ''B1''"
definition HAP_CHAR_UUID_TARGET_HEATER_COOLER_STATE :: string where "HAP_CHAR_UUID_TARGET_HEATER_COOLER_STATE = ''B2''"
definition HAP_CHAR_UUID_CURRENT_HUMIDIFIER_DEHUMIDIFIER_STATE :: string where "HAP_CHAR_UUID_CURRENT_HUMIDIFIER_DEHUMIDIFIER_STATE = ''B3''"
definition HAP_CHAR_UUID_TARGET_HUMIDIFIER_DEHUMIDIFIER_STATE :: string where "HAP_CHAR_UUID_TARGET_HUMIDIFIER_DEHUMIDIFIER_STATE = ''B4''"
definition HAP_CHAR_UUID_WATER_LEVEL :: string where "HAP_CHAR_UUID_WATER_LEVEL = ''B5''"
definition HAP_CHAR_UUID_RELATIVE_HUMIDITY_DEHUMIDIFIER_THRESHOLD :: string where "HAP_CHAR_UUID_RELATIVE_HUMIDITY_DEHUMIDIFIER_THRESHOLD = ''C9''"
definition HAP_CHAR_UUID_RELATIVE_HUMIDITY_HUMIDIFIER_THRESHOLD :: string where "HAP_CHAR_UUID_RELATIVE_HUMIDITY_HUMIDIFIER_THRESHOLD = ''CA''"
definition HAP_CHAR_UUID_PROGRAM_MODE :: string where "HAP_CHAR_UUID_PROGRAM_MODE = ''D1''"
definition HAP_CHAR_UUID_IN_USE :: string where "HAP_CHAR_UUID_IN_USE = ''D2''"
definition HAP_CHAR_UUID_SET_DURATION :: string where "HAP_CHAR_UUID_SET_DURATION = ''D3''"
definition HAP_CHAR_UUID_REMAINING_DURATION :: string where "HAP_CHAR_UUID_REMAINING_DURATION = ''D4''"
definition HAP_CHAR_UUID_VALVE_TYPE :: string where "HAP_CHAR_UUID_VALVE_TYPE = ''D5''"
definition HAP_CHAR_UUID_IS_CONFIGURED :: string where "HAP_CHAR_UUID_IS_CONFIGURED = ''D6''"
definition HAP_CHAR_UUID_PRODUCT_DATA :: string where "HAP_CHAR_UUID_PRODUCT_DATA = ''220''"

lemmas char_uuid_defs =
  HAP_CHAR_UUID_ADMINISTRATOR_ONLY_ACCESS_def HAP_CHAR_UUID_BRIGHTNESS_def
  HAP_CHAR_UUID_COOLING_THRESHOLD_TEMPERATURE_def HAP_CHAR_UUID_CURRENT_DOOR_STATE_def
  HAP_CHAR_UUID_CURRENT_HEATING_COOLING_STATE_def HAP_CHAR_UUID_CURRENT_RELATIVE_HUMIDITY_def
  HAP_CHAR_UUID_CURRENT_TEMPERATURE_def HAP_CHAR_UUID_FIRMWARE_REVISION_def
  HAP_CHAR_UUID_HARDWARE_REVISION_def HAP_CHAR_UUID_HEATING_THRESHOLD_TEMPERATURE_def
  HAP_CHAR_UUID_HUE_def HAP_CHAR_UUID_IDENTIFY_def
  HAP_CHAR_UUID_LOCK_CONTROL_POINT_def HAP_CHAR_UUID_LOCK_CURRENT_STATE_def
  HAP_CHAR_UUID_LOCK_LAST_KNOWN_ACTION_def HAP_CHAR_UUID_LOCK_MANAGEMENT_AUTO_SECURITY_TIMEOUT_def
  HAP_CHAR_UUID_LOCK_TARGET_STATE_def HAP_CHAR_UUID_LOGS_def
  HAP_CHAR_UUID_MANUFACTURER_def HAP_CHAR_UUID_MODEL_def
  HAP_CHAR_UUID_MOTION_DETECTED_def HAP_CHAR_UUID_NAME_def
  HAP_CHAR_UUID_OBSTRUCTION_DETECTED_def HAP_CHAR_UUID_ON_def
  HAP_CHAR_UUID_OUTLET_IN_USE_def HAP_CHAR_UUID_ROTATION_DIRECTION_def
  HAP_CHAR_UUID_ROTATION_SPEED_def HAP_CHAR_UUID_SATURATION_def
  HAP_CHAR_UUID_SERIAL_NUMBER_def HAP_CHAR_UUID_TARGET_DOOR_STATE_def
  HAP_CHAR_UUID_TARGET_HEATING_COOLING_STATE_def HAP_CHAR_UUID_TARGET_RELATIVE_HUMIDITY_def
  HAP_CHAR_UUID_TARGET_TEMPERATURE_def HAP_CHAR_UUID_TEMPERATURE_DISPLAY_UNITS_def
  HAP_CHAR_UUID_VERSION_def HAP_CHAR_UUID_AIR_PARTICULATE_DENSITY_def
  HAP_CHAR_UUID_AIR_PARTICULATE_SIZE_def HAP_CHAR_UUID_SECURITY_SYSTEM_CURRENT_STATE_def
  HAP_CHAR_UUID_SECURITY_SYSTEM_TARGET_STATE_def HAP_CHAR_UUID_BATTERY_LEVEL_def
  HAP_CHAR_UUID_CARBON_MONOXIDE_DETECTED_def HAP_CHAR_UUID_CONTACT_SENSOR_STATE_def
  HAP_CHAR_UUID_CURRENT_AMBIENT_LIGHT_LEVEL_def HAP_CHAR_UUID_CURRENT_HORIZONTAL_TILT_ANGLE_def
  HAP_CHAR_UUID_CURRENT_POSITION_def HAP_CHAR_UUID_CURRENT_VERTICAL_TILT_ANGLE_def
  HAP_CHAR_UUID_HOLD_POSITION_def HAP_CHAR_UUID_LEAK_DETECTED_def
  HAP_CHAR_UUID_OCCUPANCY_DETECTED_def HAP_CHAR_UUID_POSITION_STATE_def
  HAP_CHAR_UUID_PROGRAMMABLE_SWITCH_EVENT_def HAP_CHAR_UUID_STATUS_ACTIVE_def
  HAP_CHAR_UUID_SMOKE_DETECTED_def HAP_CHAR_UUID_STATUS_FAULT_def
  HAP_CHAR_UUID_STATUS_JAMMED_def HAP_CHAR_UUID_STATUS_LOW_BATTERY_def
  HAP_CHAR_UUID_STATUS_TAMPERED_def HAP_CHAR_UUID_TARGET_HORIZONTAL_TILT_ANGLE_def
  HAP_CHAR_UUID_TARGET_POSITION_def HAP_CHAR_UUID_TARGET_VERTICAL_TILT_ANGLE_def
  HAP_CHAR_UUID_STATUS_SECURITY_SYSTEM_ALARM_TYPE_def HAP_CHAR_UUID_CHARGING_STATE_def
  HAP_CHAR_UUID_CARBON_MONOXIDE_LEVEL_def HAP_CHAR_UUID_CARBON_MONOXIDE_PEAK_LEVEL_def
  HAP_CHAR_UUID_CARBON_DIOXIDE_DETECTED_def HAP_CHAR_UUID_CARBON_DIOXIDE_LEVEL_def
  HAP_CHAR_UUID_CARBON_DIOXIDE_PEAK_LEVEL_def HAP_CHAR_UUID_AIR_QUALITY_def
  HAP_CHAR_UUID_ACCESSORY_FLAGS_def HAP_CHAR_UUID_LOCK_PHYSICAL_CONTROLS_def
  HAP_CHAR_UUID_CURRENT_AIR_PURIFIER_STATE_def HAP_CHAR_UUID_CURRENT_SLAT_STATE_def
  HAP_CHAR_UUID_SLAT_TYPE_def HAP_CHAR_UUID_FILTER_LIFE_LEVEL_def
  HAP_CHAR_UUID_FILTER_CHANGE_INDICATION_def HAP_CHAR_UUID_RESET_FILTER_INDICATION_def
  HAP_CHAR_UUID_TARGET_AIR_PURIFIER_STATE_def HAP_CHAR_UUID_TARGET_FAN_STATE_def
  HAP_CHAR_UUID_CURRENT_FAN_STATE_def HAP_CHAR_UUID_ACTIVE_def
  HAP_CHAR_UUID_SWING_MODE_def HAP_CHAR_UUID_CURRENT_TILT_ANGLE_def
  HAP_CHAR_UUID_TARGET_TILT_ANGLE_def HAP_CHAR_UUID_OZONE_DENSITY_def
  HAP_CHAR_UUID_NITROGEN_DIOXIDE_DENSITY_def HAP_CHAR_UUID_SULPHUR_DIOXIDE_DENSITY_def
  HAP_CHAR_UUID_PM_2_5_DENSITY_def HAP_CHAR_UUID_PM_10_DENSITY_def
  HAP_CHAR_UUID_VOC_DENSITY_def HAP_CHAR_UUID_SERVICE_LABEL_INDEX_def
  HAP_CHAR_UUID_SERVICE_LABEL_NAMESPACE_def HAP_CHAR_UUID_COLOR_TEMPERATURE_def
  HAP_CHAR_UUID_CURRENT_HEATER_COOLER_STATE_def HAP_CHAR_UUID_TARGET_HEATER_COOLER_STATE_def
  HAP_CHAR_UUID_CURRENT_HUMIDIFIER_DEHUMIDIFIER_STATE_def HAP_CHAR_UUID_TARGET_HUMIDIFIER_DEHUMIDIFIER_STATE_def
  HAP_CHAR_UUID_WATER_LEVEL_def HAP_CHAR_UUID_RELATIVE_HUMIDITY_DEHUMIDIFIER_THRESHOLD_def
  HAP_CHAR_UUID_RELATIVE_HUMIDITY_HUMIDIFIER_THRESHOLD_def HAP_CHAR_UUID_PROGRAM_MODE_def
  HAP_CHAR_UUID_IN_USE_def HAP_CHAR_UUID_SET_DURATION_def
  HAP_CHAR_UUID_REMAINING_DURATION_def HAP_CHAR_UUID_VALVE_TYPE_def
  HAP_CHAR_UUID_IS_CONFIGURED_def HAP_CHAR_UUID_PRODUCT_DATA_def

definition HAP_CHAR_UNIT_CELSIUS :: string where "HAP_CHAR_UNIT_CELSIUS = ''celsius''"
definition HAP_CHAR_UNIT_PERCENTAGE :: string where "HAP_CHAR_UNIT_PERCENTAGE = ''percentage''"
definition HAP_CHAR_UNIT_ARCDEGREES :: string where "HAP_CHAR_UNIT_ARCDEGREES = ''arcdegrees''"
definition HAP_CHAR_UNIT_LUX :: string where "HAP_CHAR_UNIT_LUX = ''lux''"
definition HAP_CHAR_UNIT_SECONDS :: string where "HAP_CHAR_UNIT_SECONDS = ''seconds''"

section \<open>Constructors\<close>

definition hap_char_brightness_create :: "int \<Rightarrow> 's char_ctor" where
  "hap_char_brightness_create brightness st = char_then
     (hap_char_int_create HAP_CHAR_UUID_BRIGHTNESS
        (HAP_CHAR_PERM_PR OR HAP_CHAR_PERM_PW OR HAP_CHAR_PERM_EV) brightness st)
     (\<lambda>hc st. do {
        st \<leftarrow> hap_char_int_set_constraints hc 0 100 1 st;
        hap_char_add_unit hc (Some HAP_CHAR_UNIT_PERCENTAGE) st })"

definition hap_char_cooling_threshold_temperature_create :: "u32 \<Rightarrow> 's char_ctor" where
  "hap_char_cooling_threshold_temperature_create cooling_threshold_temp st = char_then
     (hap_char_float_create HAP_CHAR_UUID_COOLING_THRESHOLD_TEMPERATURE
        (HAP_CHAR_PERM_PR OR HAP_CHAR_PERM_PW OR HAP_CHAR_PERM_EV) cooling_threshold_temp st)
     (\<lambda>hc st. do {
        st \<leftarrow> hap_char_float_set_constraints hc 0x41200000 0x420C0000 0x3DCCCCCD st;
        hap_char_add_unit hc (Some HAP_CHAR_UNIT_CELSIUS) st })"

definition hap_char_current_door_state_create :: "byte \<Rightarrow> 's char_ctor" where
  "hap_char_current_door_state_create curr_door_state st = char_then
     (hap_char_uint8_create HAP_CHAR_UUID_CURRENT_DOOR_STATE
        (HAP_CHAR_PERM_PR OR HAP_CHAR_PERM_EV) curr_door_state st)
     (\<lambda>hc st. hap_char_int_set_constraints hc 0 4 1 st)"

definition hap_char_current_heating_cooling_state_create :: "byte \<Rightarrow> 's char_ctor" where
  "hap_char_current_heating_cooling_state_create curr_heating_cooling_state st = char_then
     (hap_char_uint8_create HAP_CHAR_UUID_CURRENT_HEATING_COOLING_STATE
        (HAP_CHAR_PERM_PR OR HAP_CHAR_PERM_EV) curr_heating_cooling_state st)
     (\<lambda>hc st. hap_char_int_set_constraints hc 0 2 1 st)"

definition hap_char_current_relative_humidity_create :: "u32 \<Rightarrow> 's char_ctor" where
  "hap_char_current_relative_humidity_create curr_rel_humidity st = char_then
     (hap_char_float_create HAP_CHAR_UUID_CURRENT_RELATIVE_HUMIDITY
        (HAP_CHAR_PERM_PR OR HAP_CHAR_PERM_EV) curr_rel_humidity st)
     (\<lambda>hc st. do {
        st \<leftarrow> hap_char_float_set_constraints hc 0x00000000 0x42C80000 0x3F800000 st;
        hap_char_add_unit hc (Some HAP_CHAR_UNIT_PERCENTAGE) st })"

definition hap_char_current_temperature_create :: "u32 \<Rightarrow> 's char_ctor" where
  "hap_char_current_temperature_create curr_temp st = char_then
     (hap_char_float_create HAP_CHAR_UUID_CURRENT_TEMPERATURE
        (HAP_CHAR_PERM_PR OR HAP_CHAR_PERM_EV) curr_temp st)
     (\<lambda>hc st. do {
        st \<leftarrow> hap_char_float_set_constraints hc 0x00000000 0x42C80000 0x3DCCCCCD st;
        hap_char_add_unit hc (Some HAP_CHAR_UNIT_CELSIUS) st })"

definition hap_char_firmware_revision_create :: "string option \<Rightarrow> 's char_ctor" where
  "hap_char_firmware_revision_create fw_rev st = char_then
     (hap_char_string_create HAP_CHAR_UUID_FIRMWARE_REVISION
        HAP_CHAR_PERM_PR fw_rev st)
     (\<lambda>_ st. Some st)"

definition hap_char_hardware_revision_create :: "string option \<Rightarrow> 's char_ctor" where
  "hap_char_hardware_revision_create hw_rev st = char_then
     (hap_char_string_create HAP_CHAR_UUID_HARDWARE_REVISION
        HAP_CHAR_PERM_PR hw_rev st)
     (\<lambda>_ st. Some st)"

definition hap_char_heating_threshold_temperature_create :: "u32 \<Rightarrow> 's char_ctor" where
  "hap_char_heating_threshold_temperature_create heating_threshold_temp st = char_then
     (hap_char_float_create HAP_CHAR_UUID_HEATING_THRESHOLD_TEMPERATURE
        (HAP_CHAR_PERM_PR OR HAP_CHAR_PERM_PW OR HAP_CHAR_PERM_EV) heating_threshold_temp st)
     (\<lambda>hc st. do {
        st \<leftarrow> hap_char_float_set_constraints hc 0x00000000 0x41C80000 0x3DCCCCCD st;
        hap_char_add_unit hc (Some HAP_CHAR_UNIT_CELSIUS) st })"

definition hap_char_hue_create :: "u32 \<Rightarrow> 's char_ctor" where
  "hap_char_hue_create hue st = char_then
     (hap_char_float_create HAP_CHAR_UUID_HUE
        (HAP_CHAR_PERM_PR OR HAP_CHAR_PERM_PW OR HAP_CHAR_PERM_EV) hue st)
     (\<lambda>hc st. do {
        st \<leftarrow> hap_char_float_set_constraints hc 0x00000000 0x43B40000 0x3F800000 st;
        hap_char_add_unit hc (Some HAP_CHAR_UNIT_ARCDEGREES) st })"

definition hap_char_identify_create :: "'s char_ctor" where
  "hap_char_identify_create st = char_then
     (hap_char_bool_create HAP_CHAR_UUID_IDENTIFY
        HAP_CHAR_PERM_PW False st)
     (\<lambda>_ st. Some st)"

definition hap_char_lock_current_state_create :: "byte \<Rightarrow> 's char_ctor" where
  "hap_char_lock_current_state_create lock_curr_state st = char_then
     (hap_char_uint8_create HAP_CHAR_UUID_LOCK_CURRENT_STATE
        (HAP_CHAR_PERM_PR OR HAP_CHAR_PERM_EV) lock_curr_state st)
     (\<lambda>hc st. hap_char_int_set_constraints hc 0 3 1 st)"

definition hap_char_lock_target_state_create :: "byte \<Rightarrow> 's char_ctor" where
  "hap_char_lock_target_state_create lock_targ_state st = char_then
     (hap_char_uint8_create HAP_CHAR_UUID_LOCK_TARGET_STATE
        (HAP_CHAR_PERM_PR OR HAP_CHAR_PERM_PW OR HAP_CHAR_PERM_EV) lock_targ_state st)
     (\<lambda>hc st. hap_char_int_set_constraints hc 0 1 1 st)"

definition hap_char_manufacturer_create :: "string option \<Rightarrow> 's char_ctor" where
  "hap_char_manufacturer_create manufacturer st = char_then
     (hap_char_string_create HAP_CHAR_UUID_MANUFACTURER
        HAP_CHAR_PERM_PR manufacturer st)
     (\<lambda>_ st. Some st)"

definition hap_char_model_create :: "string option \<Rightarrow> 's char_ctor" where
  "hap_char_model_create model st = char_then
     (hap_char_string_create HAP_CHAR_UUID_MODEL
        HAP_CHAR_PERM_PR model st)
     (\<lambda>_ st. Some st)"

definition hap_char_motion_detected_create :: "bool \<Rightarrow> 's char_ctor" where
  "hap_char_motion_detected_create motion_detected st = char_then
     (hap_char_bool_create HAP_CHAR_UUID_MOTION_DETECTED
        (HAP_CHAR_PERM_PR OR HAP_CHAR_PERM_EV) motion_detected st)
     (\<lambda>_ st. Some st)"

definition hap_char_name_create :: "string option \<Rightarrow> 's char_ctor" where
  "hap_char_name_create name st = char_then
     (hap_char_string_create HAP_CHAR_UUID_NAME
        HAP_CHAR_PERM_PR name st)
     (\<lambda>_ st. Some st)"

definition hap_char_obstruction_detect_create :: "bool \<Rightarrow> 's char_ctor" where
  "hap_char_obstruction_detect_create obstr_detect st = char_then
     (hap_char_bool_create HAP_CHAR_UUID_OBSTRUCTION_DETECTED
        (HAP_CHAR_PERM_PR OR HAP_CHAR_PERM_EV) obstr_detect st)
     (\<lambda>_ st. Some st)"

definition hap_char_on_create :: "bool \<Rightarrow> 's char_ctor" where
  "hap_char_on_create on st = char_then
     (hap_char_bool_create HAP_CHAR_UUID_ON
        (HAP_CHAR_PERM_PR OR HAP_CHAR_PERM_PW OR HAP_CHAR_PERM_EV) on st)
     (\<lambda>_ st. Some st)"

definition hap_char_outlet_in_use_create :: "bool \<Rightarrow> 's char_ctor" where
  "hap_char_outlet_in_use_create outlet_in_use st = char_then
     (hap_char_bool_create HAP_CHAR_UUID_OUTLET_IN_USE
        (HAP_CHAR_PERM_PR OR HAP_CHAR_PERM_EV) outlet_in_use st)
     (\<lambda>_ st. Some st)"

definition hap_char_rotation_direction_create :: "int \<Rightarrow> 's char_ctor" where
  "hap_char_rotation_direction_create rotation_direction st = char_then
     (hap_char_int_create HAP_CHAR_UUID_ROTATION_DIRECTION
        (HAP_CHAR_PERM_PR OR HAP_CHAR_PERM_PW OR HAP_CHAR_PERM_EV) rotation_direction st)
     (\<lambda>hc st. hap_char_int_set_constraints hc 0 1 1 st)"

definition hap_char_rotation_speed_create :: "u32 \<Rightarrow> 's char_ctor" where
  "hap_char_rotation_speed_create rotation_speed st = char_then
     (hap_char_float_create HAP_CHAR_UUID_ROTATION_SPEED
        (HAP_CHAR_PERM_PR OR HAP_CHAR_PERM_PW OR HAP_CHAR_PERM_EV) rotation_speed st)
     (\<lambda>hc st. do {
        st \<leftarrow> hap_char_float_set_constraints hc 0x00000000 0x42C80000 0x3F800000 st;
        hap_char_add_unit hc (Some HAP_CHAR_UNIT_PERCENTAGE) st })"

definition hap_char_saturation_create :: "u32 \<Rightarrow> 's char_ctor" where
  "hap_char_saturation_create saturation st = char_then
     (hap_char_float_create HAP_CHAR_UUID_SATURATION
        (HAP_CHAR_PERM_PR OR HAP_CHAR_PERM_PW OR HAP_CHAR_PERM_EV) saturation st)
     (\<lambda>hc st. do {
        st \<leftarrow> hap_char_float_set_constraints hc 0x00000000 0x42C80000 0x3F800000 st;
        hap_char_add_unit hc (Some HAP_CHAR_UNIT_PERCENTAGE) st })"

definition hap_char_serial_number_create :: "string option \<Rightarrow> 's char_ctor" where
  "hap_char_serial_number_create serial_num st = char_then
     (hap_char_string_create HAP_CHAR_UUID_SERIAL_NUMBER
        HAP_CHAR_PERM_PR serial_num st)
     (\<lambda>_ st. Some st)"

definition hap_char_target_door_state_create :: "byte \<Rightarrow> 's char_ctor" where
  "hap_char_target_door_state_create targ_door_state st = char_then
     (hap_char_uint8_create HAP_CHAR_UUID_TARGET_DOOR_STATE
        (HAP_CHAR_PERM_PR OR HAP_CHAR_PERM_PW OR HAP_CHAR_PERM_EV) targ_door_state st)
     (\<lambda>hc st. hap_char_int_set_constraints hc 0 1 1 st)"

definition hap_char_target_heating_cooling_state_create :: "byte \<Rightarrow> 's char_ctor" where
  "hap_char_target_heating_cooling_state_create targ_heating_cooling_state st = char_then
     (hap_char_uint8_create HAP_CHAR_UUID_TARGET_HEATING_COOLING_STATE
        (HAP_CHAR_PERM_PR OR HAP_CHAR_PERM_PW OR HAP_CHAR_PERM_EV) targ_heating_cooling_state st)
     (\<lambda>hc st. hap_char_int_set_constraints hc 0 3 1 st)"

definition hap_char_target_relative_humidity_create :: "u32 \<Rightarrow> 's char_ctor" where
  "hap_char_target_relative_humidity_create targ_rel_humidity st = char_then
     (hap_char_float_create HAP_CHAR_UUID_TARGET_RELATIVE_HUMIDITY
        (HAP_CHAR_PERM_PR OR HAP_CHAR_PERM_PW OR HAP_CHAR_PERM_EV) targ_rel_humidity st)
     (\<lambda>hc st. do {
        st \<leftarrow> hap_char_float_set_constraints hc 0x00000000 0x42C80000 0x3F800000 st;
        hap_char_add_unit hc (Some HAP_CHAR_UNIT_PERCENTAGE) st })"

definition hap_char_target_temperature_create :: "u32 \<Rightarrow> 's char_ctor" where
  "hap_char_target_temperature_create targ_temp st = char_then
     (hap_char_float_create HAP_CHAR_UUID_TARGET_TEMPERATURE
        (HAP_CHAR_PERM_PR OR HAP_CHAR_PERM_PW OR HAP_CHAR_PERM_EV) targ_temp st)
     (\<lambda>hc st. do {
        st \<leftarrow> hap_char_float_set_constraints hc 0x41200000 0x42180000 0x3DCCCCCD st;
        hap_char_add_unit hc (Some HAP_CHAR_UNIT_CELSIUS) st })"

definition hap_char_temperature_display_units_create :: "byte \<Rightarrow> 's char_ctor" where
  "hap_char_temperature_display_units_create temp_disp_units st = char_then
     (hap_char_uint8_create HAP_CHAR_UUID_TEMPERATURE_DISPLAY_UNITS
        (HAP_CHAR_PERM_PR OR HAP_CHAR_PERM_PW OR HAP_CHAR_PERM_EV) temp_disp_units st)
     (\<lambda>hc st. hap_char_int_set_constraints hc 0 1 1 st)"

definition hap_char_version_create :: "string option \<Rightarrow> 's char_ctor" where
  "hap_char_version_create version st = char_then
     (hap_char_string_create HAP_CHAR_UUID_VERSION
        HAP_CHAR_PERM_PR version st)
     (\<lambda>_ st. Some st)"

definition hap_char_security_system_current_state_create :: "byte \<Rightarrow> 's char_ctor" where
  "hap_char_security_system_current_state_create security_sys_curr_state st = char_then
     (hap_char_uint8_create HAP_CHAR_UUID_SECURITY_SYSTEM_CURRENT_STATE
        (HAP_CHAR_PERM_PR OR HAP_CHAR_PERM_EV) security_sys_curr_state st)
     (\<lambda>hc st. hap_char_int_set_constraints hc 0 4 1 st)"

definition hap_char_security_system_target_state_create :: "byte \<Rightarrow> 's char_ctor" where
  "hap_char_security_system_target_state_create security_sys_targ_state st = char_then
     (hap_char_uint8_create HAP_CHAR_UUID_SECURITY_SYSTEM_TARGET_STATE
        (HAP_CHAR_PERM_PR OR HAP_CHAR_PERM_PW OR HAP_CHAR_PERM_EV) security_sys_targ_state st)
     (\<lambda>hc st. hap_char_int_set_constraints hc 0 3 1 st)"

definition hap_char_battery_level_create :: "byte \<Rightarrow> 's char_ctor" where
  "hap_char_battery_level_create battery_level st = char_then
     (hap_char_uint8_create HAP_CHAR_UUID_BATTERY_LEVEL
        (HAP_CHAR_PERM_PR OR HAP_CHAR_PERM_EV) battery_level st)
     (\<lambda>hc st. do {
        st \<leftarrow> hap_char_int_set_constraints hc 0 100 1 st;
        hap_char_add_unit hc (Some HAP_CHAR_UNIT_PERCENTAGE) st })"

definition hap_char_carbon_monoxide_detected_create :: "byte \<Rightarrow> 's char_ctor" where
  "hap_char_carbon_monoxide_detected_create carbon_monoxide_detected st = char_then
     (hap_char_uint8_create HAP_CHAR_UUID_CARBON_MONOXIDE_DETECTED
        (HAP_CHAR_PERM_PR OR HAP_CHAR_PERM_EV) carbon_monoxide_detected st)
     (\<lambda>hc st. hap_char_int_set_constraints hc 0 1 1 st)"

definition hap_char_contact_sensor_state_create :: "byte \<Rightarrow> 's char_ctor" where
  "hap_char_contact_sensor_state_create contact_sensor_state st = char_then
     (hap_char_uint8_create HAP_CHAR_UUID_CONTACT_SENSOR_STATE
        (HAP_CHAR_PERM_PR OR HAP_CHAR_PERM_EV) contact_sensor_state st)
     (\<lambda>hc st. hap_char_int_set_constraints hc 0 1 1 st)"

definition hap_char_current_ambient_light_level_create :: "u32 \<Rightarrow> 's char_ctor" where
  "hap_char_current_ambient_light_level_create curr_ambient_light_level st = char_then
     (hap_char_float_create HAP_CHAR_UUID_CURRENT_AMBIENT_LIGHT_LEVEL
        (HAP_CHAR_PERM_PR OR HAP_CHAR_PERM_EV) curr_ambient_light_level st)
     (\<lambda>hc st. do {
        st \<leftarrow> hap_char_float_set_constraints hc 0x38D1B717 0x47C35000 0x00000000 st;
        hap_char_add_unit hc (Some HAP_CHAR_UNIT_LUX) st })"

definition hap_char_current_horizontal_tilt_angle_create :: "int \<Rightarrow> 's char_ctor" where
  "hap_char_current_horizontal_tilt_angle_create curr_horiz_tilt_angle st = char_then
     (hap_char_int_create HAP_CHAR_UUID_CURRENT_HORIZONTAL_TILT_ANGLE
        (HAP_CHAR_PERM_PR OR HAP_CHAR_PERM_EV) curr_horiz_tilt_angle st)
     (\<lambda>hc st. do {
        st \<leftarrow> hap_char_int_set_constraints hc (- 90) 90 1 st;
        hap_char_add_unit hc (Some HAP_CHAR_UNIT_ARCDEGREES) st })"

definition hap_char_current_position_create :: "byte \<Rightarrow> 's char_ctor" where
  "hap_char_current_position_create curr_pos st = char_then
     (hap_char_uint8_create HAP_CHAR_UUID_CURRENT_POSITION
        (HAP_CHAR_PERM_PR OR HAP_CHAR_PERM_EV) curr_pos st)
     (\<lambda>hc st. do {
        st \<leftarrow> hap_char_int_set_constraints hc 0 100 1 st;
        hap_char_add_unit hc (Some HAP_CHAR_UNIT_PERCENTAGE) st })"

definition hap_char_current_vertical_tilt_angle_create :: "int \<Rightarrow> 's char_ctor" where
  "hap_char_current_vertical_tilt_angle_create curr_vert_tilt_angle st = char_then
     (hap_char_int_create HAP_CHAR_UUID_CURRENT_VERTICAL_TILT_ANGLE
        (HAP_CHAR_PERM_PR OR HAP_CHAR_PERM_EV) curr_vert_tilt_angle st)
     (\<lambda>hc st. do {
        st \<leftarrow> hap_char_int_set_constraints hc (- 90) 90 1 st;
        hap_char_add_unit hc (Some HAP_CHAR_UNIT_ARCDEGREES) st })"

definition hap_char_hold_position_create :: "bool \<Rightarrow> 's char_ctor" where
  "hap_char_hold_position_create hold_pos st = char_then
     (hap_char_bool_create HAP_CHAR_UUID_HOLD_POSITION
        HAP_CHAR_PERM_PW hold_pos st)
     (\<lambda>_ st. Some st)"

definition hap_char_leak_detected_create :: "byte \<Rightarrow> 's char_ctor" where
  "hap_char_leak_detected_create leak_detected st = char_then
     (hap_char_uint8_create HAP_CHAR_UUID_LEAK_DETECTED
        (HAP_CHAR_PERM_PR OR HAP_CHAR_PERM_EV) leak_detected st)
     (\<lambda>hc st. hap_char_int_set_constraints hc 0 1 1 st)"

definition hap_char_occupancy_detected_create :: "byte \<Rightarrow> 's char_ctor" where
  "hap_char_occupancy_detected_create occupancy_detected st = char_then
     (hap_char_uint8_create HAP_CHAR_UUID_OCCUPANCY_DETECTED
        (HAP_CHAR_PERM_PR OR HAP_CHAR_PERM_EV) occupancy_detected st)
     (\<lambda>hc st. hap_char_int_set_constraints hc 0 1 1 st)"

definition hap_char_position_state_create :: "byte \<Rightarrow> 's char_ctor" where
  "hap_char_position_state_create pos_state st = char_then
     (hap_char_uint8_create HAP_CHAR_UUID_POSITION_STATE
        (HAP_CHAR_PERM_PR OR HAP_CHAR_PERM_EV) pos_state st)
     (\<lambda>hc st. hap_char_int_set_constraints hc 0 2 1 st)"

definition hap_char_programmable_switch_event_create :: "byte \<Rightarrow> 's char_ctor" where
  "hap_char_programmable_switch_event_create programmable_switch_event st = char_then
     (hap_char_uint8_create HAP_CHAR_UUID_PROGRAMMABLE_SWITCH_EVENT
        (HAP_CHAR_PERM_PR OR HAP_CHAR_PERM_EV OR HAP_CHAR_PERM_SPECIAL_READ) programmable_switch_event st)
     (\<lambda>hc st. hap_char_int_set_constraints hc 0 2 1 st)"

definition hap_char_status_active_create :: "bool \<Rightarrow> 's char_ctor" where
  "hap_char_status_active_create status_active st = char_then
     (hap_char_bool_create HAP_CHAR_UUID_STATUS_ACTIVE
        (HAP_CHAR_PERM_PR OR HAP_CHAR_PERM_EV) status_active st)
     (\<lambda>_ st. Some st)"

definition hap_char_smoke_detected_create :: "byte \<Rightarrow> 's char_ctor" where
  "hap_char_smoke_detected_create smoke_detected st = char_then
     (hap_char_uint8_create HAP_CHAR_UUID_SMOKE_DETECTED
        (HAP_CHAR_PERM_PR OR HAP_CHAR_PERM_EV) smoke_detected st)
     (\<lambda>hc st. hap_char_int_set_constraints hc 0 1 1 st)"

definition hap_char_status_fault_create :: "byte \<Rightarrow> 's char_ctor" where
  "hap_char_status_fault_create status_fault st = char_then
     (hap_char_uint8_create HAP_CHAR_UUID_STATUS_FAULT
        (HAP_CHAR_PERM_PR OR HAP_CHAR_PERM_EV) status_fault st)
     (\<lambda>hc st. hap_char_int_set_constraints hc 0 1 1 st)"

definition hap_char_status_low_battery_create :: "byte \<Rightarrow> 's char_ctor" where
  "hap_char_status_low_battery_create status_low_battery st = char_then
     (hap_char_uint8_create HAP_CHAR_UUID_STATUS_LOW_BATTERY
        (HAP_CHAR_PERM_PR OR HAP_CHAR_PERM_EV) status_low_battery st)
     (\<lambda>hc st. hap_char_int_set_constraints hc 0 1 1 st)"

definition hap_char_status_tampered_create :: "byte \<Rightarrow> 's char_ctor" where
  "hap_char_status_tampered_create status_tampered st = char_then
     (hap_char_uint8_create HAP_CHAR_UUID_STATUS_TAMPERED
        (HAP_CHAR_PERM_PR OR HAP_CHAR_PERM_EV) status_tampered st)
     (\<lambda>hc st. hap_char_int_set_constraints hc 0 1 1 st)"

definition hap_char_target_horizontal_tilt_angle_create :: "int \<Rightarrow> 's char_ctor" where
  "hap_char_target_horizontal_tilt_angle_create targ_horiz_tilt_angle st = char_then
     (hap_char_int_create HAP_CHAR_UUID_TARGET_HORIZONTAL_TILT_ANGLE
        (HAP_CHAR_PERM_PR OR HAP_CHAR_PERM_PW OR HAP_CHAR_PERM_EV) targ_horiz_tilt_angle st)
     (\<lambda>hc st. do {
        st \<leftarrow> hap_char_int_set_constraints hc (- 90) 90 1 st;
        hap_char_add_unit hc (Some HAP_CHAR_UNIT_ARCDEGREES) st })"

definition hap_char_target_position_create :: "byte \<Rightarrow> 's char_ctor" where
  "hap_char_target_position_create targ_pos st = char_then
     (hap_char_uint8_create HAP_CHAR_UUID_TARGET_POSITION
        (HAP_CHAR_PERM_PR OR HAP_CHAR_PERM_PW OR HAP_CHAR_PERM_EV) targ_pos st)
     (\<lambda>hc st. do {
        st \<leftarrow> hap_char_int_set_constraints hc 0 100 1 st;
        hap_char_add_unit hc (Some HAP_CHAR_UNIT_PERCENTAGE) st })"

definition hap_char_target_vertical_tilt_angle_create :: "int \<Rightarrow> 's char_ctor" where
  "hap_char_target_vertical_tilt_angle_create targ_vert_tilt_angle st = char_then
     (hap_char_int_create HAP_CHAR_UUID_TARGET_VERTICAL_TILT_ANGLE
        (HAP_CHAR_PERM_PR OR HAP_CHAR_PERM_PW OR HAP_CHAR_PERM_EV) targ_vert_tilt_angle st)
     (\<lambda>hc st. do {
        st \<leftarrow> hap_char_int_set_constraints hc (- 90) 90 1 st;
        hap_char_add_unit hc (Some HAP_CHAR_UNIT_ARCDEGREES) st })"

definition hap_char_security_system_alarm_type_create :: "byte \<Rightarrow> 's char_ctor" where
  "hap_char_security_system_alarm_type_create security_sys_alarm_type st = char_then
     (hap_char_uint8_create HAP_CHAR_UUID_STATUS_SECURITY_SYSTEM_ALARM_TYPE
        (HAP_CHAR_PERM_PR OR HAP_CHAR_PERM_EV) security_sys_alarm_type st)
     (\<lambda>hc st. hap_char_int_set_constraints hc 0 1 1 st)"

definition hap_char_charging_state_create :: "byte \<Rightarrow> 's char_ctor" where
  "hap_char_charging_state_create charging_state st = char_then
     (hap_char_uint8_create HAP_CHAR_UUID_CHARGING_STATE
        (HAP_CHAR_PERM_PR OR HAP_CHAR_PERM_EV) charging_state st)
     (\<lambda>hc st. hap_char_int_set_constraints hc 0 2 1 st)"

definition hap_char_carbon_monoxide_level_create :: "u32 \<Rightarrow> 's char_ctor" where
  "hap_char_carbon_monoxide_level_create carbon_monoxide_level st = char_then
     (hap_char_float_create HAP_CHAR_UUID_CARBON_MONOXIDE_LEVEL
        (HAP_CHAR_PERM_PR OR HAP_CHAR_PERM_EV) carbon_monoxide_level st)
     (\<lambda>hc st. hap_char_float_set_constraints hc 0x00000000 0x42C80000 0x00000000 st)"

definition hap_char_carbon_monoxide_peak_level_create :: "u32 \<Rightarrow> 's char_ctor" where
  "hap_char_carbon_monoxide_peak_level_create carbon_monoxide_peak_level st = char_then
     (hap_char_float_create HAP_CHAR_UUID_CARBON_MONOXIDE_PEAK_LEVEL
        (HAP_CHAR_PERM_PR OR HAP_CHAR_PERM_EV) carbon_monoxide_peak_level st)
     (\<lambda>hc st. hap_char_float_set_constraints hc 0x00000000 0x42C80000 0x00000000 st)"

definition hap_char_carbon_dioxide_detected_create :: "byte \<Rightarrow> 's char_ctor" where
  "hap_char_carbon_dioxide_detected_create carbon_dioxide_detected st = char_then
     (hap_char_uint8_create HAP_CHAR_UUID_CARBON_DIOXIDE_DETECTED
        (HAP_CHAR_PERM_PR OR HAP_CHAR_PERM_EV) carbon_dioxide_detected st)
     (\<lambda>hc st. hap_char_int_set_constraints hc 0 1 1 st)"

definition hap_char_carbon_dioxide_level_create :: "u32 \<Rightarrow> 's char_ctor" where
  "hap_char_carbon_dioxide_level_create carbon_dioxide_level st = char_then
     (hap_char_float_create HAP_CHAR_UUID_CARBON_DIOXIDE_LEVEL
        (HAP_CHAR_PERM_PR OR HAP_CHAR_PERM_EV) carbon_dioxide_level st)
     (\<lambda>hc st. hap_char_float_set_constraints hc 0x00000000 0x47C35000 0x00000000 st)"

definition hap_char_carbon_dioxide_peak_level_create :: "u32 \<Rightarrow> 's char_ctor" where
  "hap_char_carbon_dioxide_peak_level_create carbon_dioxide_peak_level st = char_then
     (hap_char_float_create HAP_CHAR_UUID_CARBON_DIOXIDE_PEAK_LEVEL
        (HAP_CHAR_PERM_PR OR HAP_CHAR_PERM_EV) carbon_dioxide_peak_level st)
     (\<lambda>hc st. hap_char_float_set_constraints hc 0x00000000 0x47C35000 0x00000000 st)"

definition hap_char_air_quality_create :: "byte \<Rightarrow> 's char_ctor" where
  "hap_char_air_quality_create air_quality st = char_then
     (hap_char_uint8_create HAP_CHAR_UUID_AIR_QUALITY
        (HAP_CHAR_PERM_PR OR HAP_CHAR_PERM_EV) air_quality st)
     (\<lambda>hc st. hap_char_int_set_constraints hc 0 5 1 st)"

definition hap_char_accessory_flags_create :: "u32 \<Rightarrow> 's char_ctor" where
  "hap_char_accessory_flags_create flags st = char_then
     (hap_char_uint32_create HAP_CHAR_UUID_ACCESSORY_FLAGS
        (HAP_CHAR_PERM_PR OR HAP_CHAR_PERM_EV) flags st)
     (\<lambda>_ st. Some st)"

definition hap_char_product_data_create :: "hap_data_val option \<Rightarrow> 's char_ctor" where
  "hap_char_product_data_create product_data st = char_then
     (hap_char_data_create HAP_CHAR_UUID_PRODUCT_DATA
        HAP_CHAR_PERM_PR product_data st)
     (\<lambda>_ st. Some st)"

definition hap_char_lock_physical_controls_create :: "byte \<Rightarrow> 's char_ctor" where
  "hap_char_lock_physical_controls_create lock_physical_controls st = char_then
     (hap_char_uint8_create HAP_CHAR_UUID_LOCK_PHYSICAL_CONTROLS
        (HAP_CHAR_PERM_PR OR HAP_CHAR_PERM_PW OR HAP_CHAR_PERM_EV) lock_physical_controls st)
     (\<lambda>hc st. hap_char_int_set_constraints hc 0 1 1 st)"

definition hap_char_current_air_purifier_state_create :: "byte \<Rightarrow> 's char_ctor" where
  "hap_char_current_air_purifier_state_create curr_air_purifier_state st = char_then
     (hap_char_uint8_create HAP_CHAR_UUID_CURRENT_AIR_PURIFIER_STATE
        (HAP_CHAR_PERM_PR OR HAP_CHAR_PERM_EV) curr_air_purifier_state st)
     (\<lambda>hc st. hap_char_int_set_constraints hc 0 2 1 st)"

definition hap_char_current_slat_state_create :: "byte \<Rightarrow> 's char_ctor" where
  "hap_char_current_slat_state_create curr_slat_state st = char_then
     (hap_char_uint8_create HAP_CHAR_UUID_CURRENT_SLAT_STATE
        (HAP_CHAR_PERM_PR OR HAP_CHAR_PERM_EV) curr_slat_state st)
     (\<lambda>hc st. hap_char_int_set_constraints hc 0 2 1 st)"

definition hap_char_slat_type_create :: "byte \<Rightarrow> 's char_ctor" where
  "hap_char_slat_type_create slat_type st = char_then
     (hap_char_uint8_create HAP_CHAR_UUID_SLAT_TYPE
        HAP_CHAR_PERM_PR slat_type st)
     (\<lambda>hc st. hap_char_int_set_constraints hc 0 1 1 st)"

definition hap_char_filter_life_level_create :: "u32 \<Rightarrow> 's char_ctor" where
  "hap_char_filter_life_level_create filter_life_level st = char_then
     (hap_char_float_create HAP_CHAR_UUID_FILTER_LIFE_LEVEL
        (HAP_CHAR_PERM_PR OR HAP_CHAR_PERM_EV) filter_life_level st)
     (\<lambda>hc st. hap_char_float_set_constraints hc 0x00000000 0x42C80000 0x3F800000 st)"

definition hap_char_filter_change_indication_create :: "byte \<Rightarrow> 's char_ctor" where
  "hap_char_filter_change_indication_create filter_change_indication st = char_then
     (hap_char_uint8_create HAP_CHAR_UUID_FILTER_CHANGE_INDICATION
        (HAP_CHAR_PERM_PR OR HAP_CHAR_PERM_EV) filter_change_indication st)
     (\<lambda>hc st. hap_char_int_set_constraints hc 0 1 1 st)"

definition hap_char_reset_filter_indication_create :: "byte \<Rightarrow> 's char_ctor" where
  "hap_char_reset_filter_indication_create reset_filter_indication st = char_then
     (hap_char_uint8_create HAP_CHAR_UUID_RESET_FILTER_INDICATION
        HAP_CHAR_PERM_PW reset_filter_indication st)
     (\<lambda>hc st. hap_char_int_set_constraints hc 1 1 0 st)"

definition hap_char_target_air_purifier_state_create :: "byte \<Rightarrow> 's char_ctor" where
  "hap_char_target_air_purifier_state_create targ_air_purifier_state st = char_then
     (hap_char_uint8_create HAP_CHAR_UUID_TARGET_AIR_PURIFIER_STATE
        (HAP_CHAR_PERM_PR OR HAP_CHAR_PERM_PW OR HAP_CHAR_PERM_EV) targ_air_purifier_state st)
     (\<lambda>hc st. hap_char_int_set_constraints hc 0 1 1 st)"

definition hap_char_target_fan_state_create :: "byte \<Rightarrow> 's char_ctor" where
  "hap_char_target_fan_state_create targ_fan_state st = char_then
     (hap_char_uint8_create HAP_CHAR_UUID_TARGET_FAN_STATE
        (HAP_CHAR_PERM_PR OR HAP_CHAR_PERM_PW OR HAP_CHAR_PERM_EV) targ_fan_state st)
     (\<lambda>hc st. hap_char_int_set_constraints hc 0 1 1 st)"

definition hap_char_current_fan_state_create :: "byte \<Rightarrow> 's char_ctor" where
  "hap_char_current_fan_state_create curr_fan_state st = char_then
     (hap_char_uint8_create HAP_CHAR_UUID_CURRENT_FAN_STATE
        (HAP_CHAR_PERM_PR OR HAP_CHAR_PERM_EV) curr_fan_state st)
     (\<lambda>hc st. hap_char_int_set_constraints hc 0 2 1 st)"

definition hap_char_active_create :: "byte \<Rightarrow> 's char_ctor" where
  "hap_char_active_create active st = char_then
     (hap_char_uint8_create HAP_CHAR_UUID_ACTIVE
        (HAP_CHAR_PERM_PR OR HAP_CHAR_PERM_PW OR HAP_CHAR_PERM_EV) active st)
     (\<lambda>hc st. hap_char_int_set_constraints hc 0 1 1 st)"

definition hap_char_swing_mode_create :: "byte \<Rightarrow> 's char_ctor" where
  "hap_char_swing_mode_create swing_mode st = char_then
     (hap_char_uint8_create HAP_CHAR_UUID_SWING_MODE
        (HAP_CHAR_PERM_PR OR HAP_CHAR_PERM_PW OR HAP_CHAR_PERM_EV) swing_mode st)
     (\<lambda>hc st. hap_char_int_set_constraints hc 0 1 1 st)"

definition hap_char_current_tilt_angle_create :: "int \<Rightarrow> 's char_ctor" where
  "hap_char_current_tilt_angle_create curr_tilt_angle st = char_then
     (hap_char_int_create HAP_CHAR_UUID_CURRENT_TILT_ANGLE
        (HAP_CHAR_PERM_PR OR HAP_CHAR_PERM_EV) curr_tilt_angle st)
     (\<lambda>hc st. do {
        st \<leftarrow> hap_char_int_set_constraints hc (- 90) 90 1 st;
        hap_char_add_unit hc (Some HAP_CHAR_UNIT_ARCDEGREES) st })"

definition hap_char_target_tilt_angle_create :: "int \<Rightarrow> 's char_ctor" where
  "hap_char_target_tilt_angle_create targ_tilt_angle st = char_then
     (hap_char_int_create HAP_CHAR_UUID_TARGET_TILT_ANGLE
        (HAP_CHAR_PERM_PR OR HAP_CHAR_PERM_PW OR HAP_CHAR_PERM_EV) targ_tilt_angle st)
     (\<lambda>hc st. do {
        st \<leftarrow> hap_char_int_set_constraints hc (- 90) 90 1 st;
        hap_char_add_unit hc (Some HAP_CHAR_UNIT_ARCDEGREES) st })"

definition hap_char_ozone_density_create :: "u32 \<Rightarrow> 's char_ctor" where
  "hap_char_ozone_density_create ozone_density st = char_then
     (hap_char_float_create HAP_CHAR_UUID_OZONE_DENSITY
        (HAP_CHAR_PERM_PR OR HAP_CHAR_PERM_EV) ozone_density st)
     (\<lambda>hc st. hap_char_float_set_constraints hc 0x00000000 0x447A0000 0x00000000 st)"

definition hap_char_nitrogen_dioxide_density_create :: "u32 \<Rightarrow> 's char_ctor" where
  "hap_char_nitrogen_dioxide_density_create nitrogen_dioxide_density st = char_then
     (hap_char_float_create HAP_CHAR_UUID_NITROGEN_DIOXIDE_DENSITY
        (HAP_CHAR_PERM_PR OR HAP_CHAR_PERM_EV) nitrogen_dioxide_density st)
     (\<lambda>hc st. hap_char_float_set_constraints hc 0x00000000 0x447A0000 0x00000000 st)"

definition hap_char_sulphur_dioxide_density_create :: "u32 \<Rightarrow> 's char_ctor" where
  "hap_char_sulphur_dioxide_density_create sulphur_dioxide_density st = char_then
     (hap_char_float_create HAP_CHAR_UUID_SULPHUR_DIOXIDE_DENSITY
        (HAP_CHAR_PERM_PR OR HAP_CHAR_PERM_EV) sulphur_dioxide_density st)
     (\<lambda>hc st. hap_char_float_set_constraints hc 0x00000000 0x447A0000 0x00000000 st)"

definition hap_char_pm_2_5_density_create :: "u32 \<Rightarrow> 's char_ctor" where
  "hap_char_pm_2_5_density_create pm_2_5_density st = char_then
     (hap_char_float_create HAP_CHAR_UUID_PM_2_5_DENSITY
        (HAP_CHAR_PERM_PR OR HAP_CHAR_PERM_EV) pm_2_5_density st)
     (\<lambda>hc st. hap_char_float_set_constraints hc 0x00000000 0x447A0000 0x00000000 st)"

definition hap_char_pm_10_density_create :: "u32 \<Rightarrow> 's char_ctor" where
  "hap_char_pm_10_density_create pm_10_density st = char_then
     (hap_char_float_create HAP_CHAR_UUID_PM_10_DENSITY
        (HAP_CHAR_PERM_PR OR HAP_CHAR_PERM_EV) pm_10_density st)
     (\<lambda>hc st. hap_char_float_set_constraints hc 0x00000000 0x447A0000 0x00000000 st)"

definition hap_char_voc_density_create :: "u32 \<Rightarrow> 's char_ctor" where
  "hap_char_voc_density_create voc_density st = char_then
     (hap_char_float_create HAP_CHAR_UUID_VOC_DENSITY
        (HAP_CHAR_PERM_PR OR HAP_CHAR_PERM_EV) voc_density st)
     (\<lambda>hc st. hap_char_float_set_constraints hc 0x00000000 0x447A0000 0x00000000 st)"

definition hap_char_service_label_index_create :: "byte \<Rightarrow> 's char_ctor" where
  "hap_char_service_label_index_create service_label_index st = char_then
     (hap_char_uint8_create HAP_CHAR_UUID_SERVICE_LABEL_INDEX
        HAP_CHAR_PERM_PR service_label_index st)
     (\<lambda>_ st. Some st)"

definition hap_char_service_label_namespace_create :: "byte \<Rightarrow> 's char_ctor" where
  "hap_char_service_label_namespace_create service_label_namespace st = char_then
     (hap_char_uint8_create HAP_CHAR_UUID_SERVICE_LABEL_NAMESPACE
        HAP_CHAR_PERM_PR service_label_namespace st)
     (\<lambda>hc st. hap_char_int_set_constraints hc 0 1 1 st)"

definition hap_char_color_temperature_create :: "u32 \<Rightarrow> 's char_ctor" where
  "hap_char_color_temperature_create color_temp st = char_then
     (hap_char_uint32_create HAP_CHAR_UUID_COLOR_TEMPERATURE
        (HAP_CHAR_PERM_PR OR HAP_CHAR_PERM_PW OR HAP_CHAR_PERM_EV) color_temp st)
     (\<lambda>hc st. hap_char_int_set_constraints hc 50 400 1 st)"

definition hap_char_current_heater_cooler_state_create :: "byte \<Rightarrow> 's char_ctor" where
  "hap_char_current_heater_cooler_state_create curr_heater_cooler_state st = char_then
     (hap_char_uint8_create HAP_CHAR_UUID_CURRENT_HEATER_COOLER_STATE
        (HAP_CHAR_PERM_PR OR HAP_CHAR_PERM_EV) curr_heater_cooler_state st)
     (\<lambda>hc st. hap_char_int_set_constraints hc 0 3 1 st)"

definition hap_char_target_heater_cooler_state_create :: "byte \<Rightarrow> 's char_ctor" where
  "hap_char_target_heater_cooler_state_create targ_heater_cooler_state st = char_then
     (hap_char_uint8_create HAP_CHAR_UUID_TARGET_HEATER_COOLER_STATE
        (HAP_CHAR_PERM_PR OR HAP_CHAR_PERM_PW OR HAP_CHAR_PERM_EV) targ_heater_cooler_state st)
     (\<lambda>hc st. hap_char_int_set_constraints hc 0 2 1 st)"

definition hap_char_current_humidifier_dehumidifier_state_create :: "byte \<Rightarrow> 's char_ctor" where
  "hap_char_current_humidifier_dehumidifier_state_create curr_humidifier_dehumidifier_state st = char_then
     (hap_char_uint8_create HAP_CHAR_UUID_CURRENT_HUMIDIFIER_DEHUMIDIFIER_STATE
        (HAP_CHAR_PERM_PR OR HAP_CHAR_PERM_EV) curr_humidifier_dehumidifier_state st)
     (\<lambda>hc st. hap_char_int_set_constraints hc 0 3 1 st)"

definition hap_char_target_humidifier_dehumidifier_state_create :: "byte \<Rightarrow> 's char_ctor" where
  "hap_char_target_humidifier_dehumidifier_state_create targ_humidifier_dehumidifier_state st = char_then
     (hap_char_uint8_create HAP_CHAR_UUID_TARGET_HUMIDIFIER_DEHUMIDIFIER_STATE
        (HAP_CHAR_PERM_PR OR HAP_CHAR_PERM_PW OR HAP_CHAR_PERM_EV) targ_humidifier_dehumidifier_state st)
     (\<lambda>hc st. hap_char_int_set_constraints hc 0 2 1 st)"

definition hap_char_water_level_create :: "u32 \<Rightarrow> 's char_ctor" where
  "hap_char_water_level_create water_level st = char_then
     (hap_char_float_create HAP_CHAR_UUID_WATER_LEVEL
        (HAP_CHAR_PERM_PR OR HAP_CHAR_PERM_EV) water_level st)
     (\<lambda>hc st. hap_char_float_set_constraints hc 0x00000000 0x42C80000 0x3F800000 st)"

definition hap_char_relative_humidity_dehumidifier_threshold_create :: "u32 \<Rightarrow> 's char_ctor" where
  "hap_char_relative_humidity_dehumidifier_threshold_create rel_humidity_dehumidifier_threshold st = char_then
     (hap_char_float_create HAP_CHAR_UUID_RELATIVE_HUMIDITY_DEHUMIDIFIER_THRESHOLD
        (HAP_CHAR_PERM_PR OR HAP_CHAR_PERM_PW OR HAP_CHAR_PERM_EV) rel_humidity_dehumidifier_threshold st)
     (\<lambda>hc st. do {
        st \<leftarrow> hap_char_float_set_constraints hc 0x00000000 0x42C80000 0x3F800000 st;
        hap_char_add_unit hc (Some HAP_CHAR_UNIT_PERCENTAGE) st })"

definition hap_char_relative_humidity_humidifier_threshold_create :: "u32 \<Rightarrow> 's char_ctor" where
  "hap_char_relative_humidity_humidifier_threshold_create rel_humidity_humidifier_threshold st = char_then
     (hap_char_float_create HAP_CHAR_UUID_RELATIVE_HUMIDITY_HUMIDIFIER_THRESHOLD
        (HAP_CHAR_PERM_PR OR HAP_CHAR_PERM_PW OR HAP_CHAR_PERM_EV) rel_humidity_humidifier_threshold st)
     (\<lambda>hc st. do {
        st \<leftarrow> hap_char_float_set_constraints hc 0x00000000 0x42C80000 0x3F800000 st;
        hap_char_add_unit hc (Some HAP_CHAR_UNIT_PERCENTAGE) st })"

definition hap_char_program_mode_create :: "byte \<Rightarrow> 's char_ctor" where
  "hap_char_program_mode_create prog_mode st = char_then
     (hap_char_uint8_create HAP_CHAR_UUID_PROGRAM_MODE
        (HAP_CHAR_PERM_PR OR HAP_CHAR_PERM_EV) prog_mode st)
     (\<lambda>hc st. hap_char_int_set_constraints hc 0 2 1 st)"

definition hap_char_in_use_create :: "byte \<Rightarrow> 's char_ctor" where
  "hap_char_in_use_create in_use st = char_then
     (hap_char_uint8_create HAP_CHAR_UUID_IN_USE
        (HAP_CHAR_PERM_PR OR HAP_CHAR_PERM_EV) in_use st)
     (\<lambda>hc st. hap_char_int_set_constraints hc 0 1 1 st)"

definition hap_char_set_duration_create :: "u32 \<Rightarrow> 's char_ctor" where
  "hap_char_set_duration_create set_duration st = char_then
     (hap_char_uint32_create HAP_CHAR_UUID_SET_DURATION
        (HAP_CHAR_PERM_PR OR HAP_CHAR_PERM_PW OR HAP_CHAR_PERM_EV) set_duration st)
     (\<lambda>hc st. hap_char_int_set_constraints hc 0 3600 1 st)"

definition hap_char_remaining_duration_create :: "u32 \<Rightarrow> 's char_ctor" where
  "hap_char_remaining_duration_create remaining_duration st = char_then
     (hap_char_uint32_create HAP_CHAR_UUID_REMAINING_DURATION
        (HAP_CHAR_PERM_PR OR HAP_CHAR_PERM_EV) remaining_duration st)
     (\<lambda>hc st. hap_char_int_set_constraints hc 0 3600 1 st)"

definition hap_char_valve_type_create :: "byte \<Rightarrow> 's char_ctor" where
  "hap_char_valve_type_create valve_type st = char_then
     (hap_char_uint8_create HAP_CHAR_UUID_VALVE_TYPE
        (HAP_CHAR_PERM_PR OR HAP_CHAR_PERM_EV) valve_type st)
     (\<lambda>hc st. hap_char_int_set_constraints hc 0 3 1 st)"

definition hap_char_is_configured_create :: "byte \<Rightarrow> 's char_ctor" where
  "hap_char_is_configured_create is_configured st = char_then
     (hap_char_uint8_create HAP_CHAR_UUID_IS_CONFIGURED
        (HAP_CHAR_PERM_PR OR HAP_CHAR_PERM_PW OR HAP_CHAR_PERM_EV) is_configured st)
     (\<lambda>hc st. hap_char_int_set_constraints hc 0 1 1 st)"

definition hap_char_status_jammed_create :: "byte \<Rightarrow> 's char_ctor" where
  "hap_char_status_jammed_create status_jammed st = char_then
     (hap_char_uint8_create HAP_CHAR_UUID_STATUS_JAMMED
        (HAP_CHAR_PERM_PR OR HAP_CHAR_PERM_EV) status_jammed st)
     (\<lambda>hc st. hap_char_int_set_constraints hc 0 1 1 st)"

definition hap_char_administrator_only_access_create :: "bool \<Rightarrow> 's char_ctor" where
  "hap_char_administrator_only_access_create administrator_only_access st = char_then
     (hap_char_bool_create HAP_CHAR_UUID_ADMINISTRATOR_ONLY_ACCESS
        (HAP_CHAR_PERM_PR OR HAP_CHAR_PERM_PW OR HAP_CHAR_PERM_EV) administrator_only_access st)
     (\<lambda>_ st. Some st)"

definition hap_char_lock_control_point_create :: "hap_data_val option \<Rightarrow> 's char_ctor" where
  "hap_char_lock_control_point_create lock_control_point st = char_then
     (hap_char_tlv8_create HAP_CHAR_UUID_LOCK_CONTROL_POINT
        HAP_CHAR_PERM_PW lock_control_point st)
     (\<lambda>_ st. Some st)"

definition hap_char_lock_last_known_action_create :: "byte \<Rightarrow> 's char_ctor" where
  "hap_char_lock_last_known_action_create lock_last_known_action st = char_then
     (hap_char_uint8_create HAP_CHAR_UUID_LOCK_LAST_KNOWN_ACTION
        (HAP_CHAR_PERM_PR OR HAP_CHAR_PERM_EV) lock_last_known_action st)
     (\<lambda>hc st. hap_char_int_set_constraints hc 0 8 1 st)"

definition hap_char_lock_management_auto_security_timeout_create :: "u32 \<Rightarrow> 's char_ctor" where
  "hap_char_lock_management_auto_security_timeout_create lock_management_auto_security_timeout st = char_then
     (hap_char_uint32_create HAP_CHAR_UUID_LOCK_MANAGEMENT_AUTO_SECURITY_TIMEOUT
        (HAP_CHAR_PERM_PR OR HAP_CHAR_PERM_PW OR HAP_CHAR_PERM_EV) lock_management_auto_security_timeout st)
     (\<lambda>hc st. hap_char_add_unit hc (Some HAP_CHAR_UNIT_SECONDS) st)"

definition hap_char_logs_create :: "hap_data_val option \<Rightarrow> 's char_ctor" where
  "hap_char_logs_create logs st = char_then
     (hap_char_tlv8_create HAP_CHAR_UUID_LOGS
        (HAP_CHAR_PERM_PR OR HAP_CHAR_PERM_EV) logs st)
     (\<lambda>_ st. Some st)"

definition hap_char_air_particulate_density_create :: "u32 \<Rightarrow> 's char_ctor" where
  "hap_char_air_particulate_density_create air_particulate_density st = char_then
     (hap_char_float_create HAP_CHAR_UUID_AIR_PARTICULATE_DENSITY
        (HAP_CHAR_PERM_PR OR HAP_CHAR_PERM_EV) air_particulate_density st)
     (\<lambda>hc st. hap_char_float_set_constraints hc 0x00000000 0x447A0000 0x00000000 st)"

definition hap_char_air_particulate_size_create :: "byte \<Rightarrow> 's char_ctor" where
  "hap_char_air_particulate_size_create air_particulate_size st = char_then
     (hap_char_uint8_create HAP_CHAR_UUID_AIR_PARTICULATE_SIZE
        (HAP_CHAR_PERM_PR OR HAP_CHAR_PERM_EV) air_particulate_size st)
     (\<lambda>hc st. hap_char_int_set_constraints hc 0 1 1 st)"

section \<open>What the constructors make\<close>

text \<open>
  The bounds of a characteristic are consistent: they are in order, they are representable in
  its format, and the check of a value against them cannot overflow.
\<close>

definition range_ok :: "hap_char \<Rightarrow> bool" where
  "range_ok c \<longleftrightarrow> c_constraint_flags c = 0 \<or>
     (if c_format c = HAP_CHAR_FORMAT_INT
      then val_i (c_min c) \<le> val_i (c_max c) \<and> val_i (c_max c) - val_i (c_min c) < 2 ^ 31 \<and>
        0 \<le> val_i (c_step c)
      else if c_format c = HAP_CHAR_FORMAT_UINT8
      then val_u (c_min c) \<le> val_u (c_max c) \<and> val_u (c_max c) \<le> 255
      else if c_format c = HAP_CHAR_FORMAT_UINT32
      then val_u (c_min c) \<le> val_u (c_max c)
      else c_format c = HAP_CHAR_FORMAT_FLOAT \<and> f32_less (val_f (c_min c)) (val_f (c_max c)))"

definition profile_char :: "string \<Rightarrow> u16 \<Rightarrow> hap_char_format \<Rightarrow> hap_char \<Rightarrow> bool" where
  "profile_char u perms fmt c \<longleftrightarrow> c_type_uuid c = u \<and> c_permission c = perms \<and> c_format c = fmt \<and>
     range_ok c \<and> range_fits c"

lemma profile_char_unit [simp]: "profile_char u perms fmt (c\<lparr>c_unit := un\<rparr>) = profile_char u perms fmt c"
  by (simp add: profile_char_def range_ok_def range_fits_def)

lemma profile_char_uuid: "profile_char u perms fmt c \<Longrightarrow> c_type_uuid c = u"
  by (simp add: profile_char_def)

lemma profile_plain [simp]: "profile_char u perms fmt (base_char u perms fmt v)"
  by (simp add: profile_char_def range_ok_def range_fits_def val_i_def val_u_def zero_val_def)

text \<open>The three kinds of constructors with bounds.\<close>

lemma profile_int:
  assumes "- (2 ^ 31) \<le> mn" "mn \<le> mx" "mx < 2 ^ 31" "mx - mn < 2 ^ 31" "0 \<le> stp" "stp < 2 ^ 31"
  shows "profile_char u perms HAP_CHAR_FORMAT_INT
    ((base_char u perms HAP_CHAR_FORMAT_INT v)\<lparr>c_min := set_i mn zero_val, c_max := set_i mx zero_val,
       c_step := set_i stp zero_val, c_constraint_flags := fl\<rparr>)"
  using assms by (simp add: profile_char_def range_ok_def range_fits_def)

lemma profile_uint8:
  assumes "0 \<le> mn" "mn \<le> mx" "mx \<le> 255"
  shows "profile_char u perms HAP_CHAR_FORMAT_UINT8
    ((base_char u perms HAP_CHAR_FORMAT_UINT8 v)\<lparr>c_min := set_i mn zero_val, c_max := set_i mx zero_val,
       c_step := st, c_constraint_flags := fl\<rparr>)"
  using assms by (simp add: profile_char_def range_ok_def range_fits_def set_i_def word_le_def
      uint_word_of_int_eq unsigned_of_int take_bit_int_eq_self)

lemma profile_uint32:
  assumes "0 \<le> mn" "mn \<le> mx" "mx < 2 ^ 32"
  shows "profile_char u perms HAP_CHAR_FORMAT_UINT32
    ((base_char u perms HAP_CHAR_FORMAT_UINT32 v)\<lparr>c_min := set_i mn zero_val, c_max := set_i mx zero_val,
       c_step := st, c_constraint_flags := fl\<rparr>)"
  using assms by (simp add: profile_char_def range_ok_def range_fits_def set_i_def word_le_def
      uint_word_of_int_eq unsigned_of_int take_bit_int_eq_self)

lemma profile_float:
  assumes "f32_less mn mx"
  shows "profile_char u perms HAP_CHAR_FORMAT_FLOAT
    ((base_char u perms HAP_CHAR_FORMAT_FLOAT v)\<lparr>c_min := set_f mn zero_val, c_max := set_f mx zero_val,
       c_step := st, c_constraint_flags := fl\<rparr>)"
  using assms by (simp add: profile_char_def range_ok_def range_fits_def)

lemmas conf_defs = hap_char_bool_create_def hap_char_uint8_create_def hap_char_uint32_create_def
  hap_char_int_create_def hap_char_float_create_def hap_char_data_create_def hap_char_tlv8_create_def
  hap_char_int_set_constraints_def hap_char_float_set_constraints_def
  hap_char_add_unit_def upd_char_bind char_then_id

lemma profile_float_bounds:
  "f32_less 0x00000000 0x41C80000"
  "f32_less 0x00000000 0x42C80000"
  "f32_less 0x00000000 0x43B40000"
  "f32_less 0x00000000 0x447A0000"
  "f32_less 0x00000000 0x47C35000"
  "f32_less 0x38D1B717 0x47C35000"
  "f32_less 0x41200000 0x420C0000"
  "f32_less 0x41200000 0x42180000"
  by code_simp+

section \<open>Every constructor meets its contract\<close>

lemma hap_char_brightness_create_ok:
  "creates (hap_char_brightness_create brightness) True
     (profile_char HAP_CHAR_UUID_BRIGHTNESS (HAP_CHAR_PERM_PR OR HAP_CHAR_PERM_PW OR HAP_CHAR_PERM_EV) HAP_CHAR_FORMAT_INT)"
  unfolding hap_char_brightness_create_def conf_defs
  by (rule creates_upd) (simp_all add: profile_int)

lemma hap_char_cooling_threshold_temperature_create_ok:
  "creates (hap_char_cooling_threshold_temperature_create cooling_threshold_temp) True
     (profile_char HAP_CHAR_UUID_COOLING_THRESHOLD_TEMPERATURE (HAP_CHAR_PERM_PR OR HAP_CHAR_PERM_PW OR HAP_CHAR_PERM_EV) HAP_CHAR_FORMAT_FLOAT)"
  unfolding hap_char_cooling_threshold_temperature_create_def conf_defs
  by (rule creates_upd) (simp_all add: profile_float profile_float_bounds)

lemma hap_char_current_door_state_create_ok:
  "creates (hap_char_current_door_state_create curr_door_state) True
     (profile_char HAP_CHAR_UUID_CURRENT_DOOR_STATE (HAP_CHAR_PERM_PR OR HAP_CHAR_PERM_EV) HAP_CHAR_FORMAT_UINT8)"
  unfolding hap_char_current_door_state_create_def conf_defs
  by (rule creates_upd) (simp_all add: profile_uint8)

lemma hap_char_current_heating_cooling_state_create_ok:
  "creates (hap_char_current_heating_cooling_state_create curr_heating_cooling_state) True
     (profile_char HAP_CHAR_UUID_CURRENT_HEATING_COOLING_STATE (HAP_CHAR_PERM_PR OR HAP_CHAR_PERM_EV) HAP_CHAR_FORMAT_UINT8)"
  unfolding hap_char_current_heating_cooling_state_create_def conf_defs
  by (rule creates_upd) (simp_all add: profile_uint8)

lemma hap_char_current_relative_humidity_create_ok:
  "creates (hap_char_current_relative_humidity_create curr_rel_humidity) True
     (profile_char HAP_CHAR_UUID_CURRENT_RELATIVE_HUMIDITY (HAP_CHAR_PERM_PR OR HAP_CHAR_PERM_EV) HAP_CHAR_FORMAT_FLOAT)"
  unfolding hap_char_current_relative_humidity_create_def conf_defs
  by (rule creates_upd) (simp_all add: profile_float profile_float_bounds)

lemma hap_char_current_temperature_create_ok:
  "creates (hap_char_current_temperature_create curr_temp) True
     (profile_char HAP_CHAR_UUID_CURRENT_TEMPERATURE (HAP_CHAR_PERM_PR OR HAP_CHAR_PERM_EV) HAP_CHAR_FORMAT_FLOAT)"
  unfolding hap_char_current_temperature_create_def conf_defs
  by (rule creates_upd) (simp_all add: profile_float profile_float_bounds)

lemma hap_char_firmware_revision_create_ok:
  "creates (hap_char_firmware_revision_create fw_rev) (string_fits fw_rev)
     (profile_char HAP_CHAR_UUID_FIRMWARE_REVISION HAP_CHAR_PERM_PR HAP_CHAR_FORMAT_STRING)"
  unfolding hap_char_firmware_revision_create_def conf_defs
  by (rule creates_string) simp

lemma hap_char_hardware_revision_create_ok:
  "creates (hap_char_hardware_revision_create hw_rev) (string_fits hw_rev)
     (profile_char HAP_CHAR_UUID_HARDWARE_REVISION HAP_CHAR_PERM_PR HAP_CHAR_FORMAT_STRING)"
  unfolding hap_char_hardware_revision_create_def conf_defs
  by (rule creates_string) simp

lemma hap_char_heating_threshold_temperature_create_ok:
  "creates (hap_char_heating_threshold_temperature_create heating_threshold_temp) True
     (profile_char HAP_CHAR_UUID_HEATING_THRESHOLD_TEMPERATURE (HAP_CHAR_PERM_PR OR HAP_CHAR_PERM_PW OR HAP_CHAR_PERM_EV) HAP_CHAR_FORMAT_FLOAT)"
  unfolding hap_char_heating_threshold_temperature_create_def conf_defs
  by (rule creates_upd) (simp_all add: profile_float profile_float_bounds)

lemma hap_char_hue_create_ok:
  "creates (hap_char_hue_create hue) True
     (profile_char HAP_CHAR_UUID_HUE (HAP_CHAR_PERM_PR OR HAP_CHAR_PERM_PW OR HAP_CHAR_PERM_EV) HAP_CHAR_FORMAT_FLOAT)"
  unfolding hap_char_hue_create_def conf_defs
  by (rule creates_upd) (simp_all add: profile_float profile_float_bounds)

lemma hap_char_identify_create_ok:
  "creates hap_char_identify_create True
     (profile_char HAP_CHAR_UUID_IDENTIFY HAP_CHAR_PERM_PW HAP_CHAR_FORMAT_BOOL)"
  unfolding hap_char_identify_create_def conf_defs
  by (rule creates_plain) simp_all

lemma hap_char_lock_current_state_create_ok:
  "creates (hap_char_lock_current_state_create lock_curr_state) True
     (profile_char HAP_CHAR_UUID_LOCK_CURRENT_STATE (HAP_CHAR_PERM_PR OR HAP_CHAR_PERM_EV) HAP_CHAR_FORMAT_UINT8)"
  unfolding hap_char_lock_current_state_create_def conf_defs
  by (rule creates_upd) (simp_all add: profile_uint8)

lemma hap_char_lock_target_state_create_ok:
  "creates (hap_char_lock_target_state_create lock_targ_state) True
     (profile_char HAP_CHAR_UUID_LOCK_TARGET_STATE (HAP_CHAR_PERM_PR OR HAP_CHAR_PERM_PW OR HAP_CHAR_PERM_EV) HAP_CHAR_FORMAT_UINT8)"
  unfolding hap_char_lock_target_state_create_def conf_defs
  by (rule creates_upd) (simp_all add: profile_uint8)

lemma hap_char_manufacturer_create_ok:
  "creates (hap_char_manufacturer_create manufacturer) (string_fits manufacturer)
     (profile_char HAP_CHAR_UUID_MANUFACTURER HAP_CHAR_PERM_PR HAP_CHAR_FORMAT_STRING)"
  unfolding hap_char_manufacturer_create_def conf_defs
  by (rule creates_string) simp

lemma hap_char_model_create_ok:
  "creates (hap_char_model_create model) (string_fits model)
     (profile_char HAP_CHAR_UUID_MODEL HAP_CHAR_PERM_PR HAP_CHAR_FORMAT_STRING)"
  unfolding hap_char_model_create_def conf_defs
  by (rule creates_string) simp

lemma hap_char_motion_detected_create_ok:
  "creates (hap_char_motion_detected_create motion_detected) True
     (profile_char HAP_CHAR_UUID_MOTION_DETECTED (HAP_CHAR_PERM_PR OR HAP_CHAR_PERM_EV) HAP_CHAR_FORMAT_BOOL)"
  unfolding hap_char_motion_detected_create_def conf_defs
  by (rule creates_plain) simp_all

lemma hap_char_name_create_ok:
  "creates (hap_char_name_create name) (string_fits name)
     (profile_char HAP_CHAR_UUID_NAME HAP_CHAR_PERM_PR HAP_CHAR_FORMAT_STRING)"
  unfolding hap_char_name_create_def conf_defs
  by (rule creates_string) simp

lemma hap_char_obstruction_detect_create_ok:
  "creates (hap_char_obstruction_detect_create obstr_detect) True
     (profile_char HAP_CHAR_UUID_OBSTRUCTION_DETECTED (HAP_CHAR_PERM_PR OR HAP_CHAR_PERM_EV) HAP_CHAR_FORMAT_BOOL)"
  unfolding hap_char_obstruction_detect_create_def conf_defs
  by (rule creates_plain) simp_all

lemma hap_char_on_create_ok:
  "creates (hap_char_on_create on) True
     (profile_char HAP_CHAR_UUID_ON (HAP_CHAR_PERM_PR OR HAP_CHAR_PERM_PW OR HAP_CHAR_PERM_EV) HAP_CHAR_FORMAT_BOOL)"
  unfolding hap_char_on_create_def conf_defs
  by (rule creates_plain) simp_all

lemma hap_char_outlet_in_use_create_ok:
  "creates (hap_char_outlet_in_use_create outlet_in_use) True
     (profile_char HAP_CHAR_UUID_OUTLET_IN_USE (HAP_CHAR_PERM_PR OR HAP_CHAR_PERM_EV) HAP_CHAR_FORMAT_BOOL)"
  unfolding hap_char_outlet_in_use_create_def conf_defs
  by (rule creates_plain) simp_all

lemma hap_char_rotation_direction_create_ok:
  "creates (hap_char_rotation_direction_create rotation_direction) True
     (profile_char HAP_CHAR_UUID_ROTATION_DIRECTION (HAP_CHAR_PERM_PR OR HAP_CHAR_PERM_PW OR HAP_CHAR_PERM_EV) HAP_CHAR_FORMAT_INT)"
  unfolding hap_char_rotation_direction_create_def conf_defs
  by (rule creates_upd) (simp_all add: profile_int)

lemma hap_char_rotation_speed_create_ok:
  "creates (hap_char_rotation_speed_create rotation_speed) True
     (profile_char HAP_CHAR_UUID_ROTATION_SPEED (HAP_CHAR_PERM_PR OR HAP_CHAR_PERM_PW OR HAP_CHAR_PERM_EV) HAP_CHAR_FORMAT_FLOAT)"
  unfolding hap_char_rotation_speed_create_def conf_defs
  by (rule creates_upd) (simp_all add: profile_float profile_float_bounds)

lemma hap_char_saturation_create_ok:
  "creates (hap_char_saturation_create saturation) True
     (profile_char HAP_CHAR_UUID_SATURATION (HAP_CHAR_PERM_PR OR HAP_CHAR_PERM_PW OR HAP_CHAR_PERM_EV) HAP_CHAR_FORMAT_FLOAT)"
  unfolding hap_char_saturation_create_def conf_defs
  by (rule creates_upd) (simp_all add: profile_float profile_float_bounds)

lemma hap_char_serial_number_create_ok:
  "creates (hap_char_serial_number_create serial_num) (string_fits serial_num)
     (profile_char HAP_CHAR_UUID_SERIAL_NUMBER HAP_CHAR_PERM_PR HAP_CHAR_FORMAT_STRING)"
  unfolding hap_char_serial_number_create_def conf_defs
  by (rule creates_string) simp

lemma hap_char_target_door_state_create_ok:
  "creates (hap_char_target_door_state_create targ_door_state) True
     (profile_char HAP_CHAR_UUID_TARGET_DOOR_STATE (HAP_CHAR_PERM_PR OR HAP_CHAR_PERM_PW OR HAP_CHAR_PERM_EV) HAP_CHAR_FORMAT_UINT8)"
  unfolding hap_char_target_door_state_create_def conf_defs
  by (rule creates_upd) (simp_all add: profile_uint8)

lemma hap_char_target_heating_cooling_state_create_ok:
  "creates (hap_char_target_heating_cooling_state_create targ_heating_cooling_state) True
     (profile_char HAP_CHAR_UUID_TARGET_HEATING_COOLING_STATE (HAP_CHAR_PERM_PR OR HAP_CHAR_PERM_PW OR HAP_CHAR_PERM_EV) HAP_CHAR_FORMAT_UINT8)"
  unfolding hap_char_target_heating_cooling_state_create_def conf_defs
  by (rule creates_upd) (simp_all add: profile_uint8)

lemma hap_char_target_relative_humidity_create_ok:
  "creates (hap_char_target_relative_humidity_create targ_rel_humidity) True
     (profile_char HAP_CHAR_UUID_TARGET_RELATIVE_HUMIDITY (HAP_CHAR_PERM_PR OR HAP_CHAR_PERM_PW OR HAP_CHAR_PERM_EV) HAP_CHAR_FORMAT_FLOAT)"
  unfolding hap_char_target_relative_humidity_create_def conf_defs
  by (rule creates_upd) (simp_all add: profile_float profile_float_bounds)

lemma hap_char_target_temperature_create_ok:
  "creates (hap_char_target_temperature_create targ_temp) True
     (profile_char HAP_CHAR_UUID_TARGET_TEMPERATURE (HAP_CHAR_PERM_PR OR HAP_CHAR_PERM_PW OR HAP_CHAR_PERM_EV) HAP_CHAR_FORMAT_FLOAT)"
  unfolding hap_char_target_temperature_create_def conf_defs
  by (rule creates_upd) (simp_all add: profile_float profile_float_bounds)

lemma hap_char_temperature_display_units_create_ok:
  "creates (hap_char_temperature_display_units_create temp_disp_units) True
     (profile_char HAP_CHAR_UUID_TEMPERATURE_DISPLAY_UNITS (HAP_CHAR_PERM_PR OR HAP_CHAR_PERM_PW OR HAP_CHAR_PERM_EV) HAP_CHAR_FORMAT_UINT8)"
  unfolding hap_char_temperature_display_units_create_def conf_defs
  by (rule creates_upd) (simp_all add: profile_uint8)

lemma hap_char_version_create_ok:
  "creates (hap_char_version_create version) (string_fits version)
     (profile_char HAP_CHAR_UUID_VERSION HAP_CHAR_PERM_PR HAP_CHAR_FORMAT_STRING)"
  unfolding hap_char_version_create_def conf_defs
  by (rule creates_string) simp

lemma hap_char_security_system_current_state_create_ok:
  "creates (hap_char_security_system_current_state_create security_sys_curr_state) True
     (profile_char HAP_CHAR_UUID_SECURITY_SYSTEM_CURRENT_STATE (HAP_CHAR_PERM_PR OR HAP_CHAR_PERM_EV) HAP_CHAR_FORMAT_UINT8)"
  unfolding hap_char_security_system_current_state_create_def conf_defs
  by (rule creates_upd) (simp_all add: profile_uint8)

lemma hap_char_security_system_target_state_create_ok:
  "creates (hap_char_security_system_target_state_create security_sys_targ_state) True
     (profile_char HAP_CHAR_UUID_SECURITY_SYSTEM_TARGET_STATE (HAP_CHAR_PERM_PR OR HAP_CHAR_PERM_PW OR HAP_CHAR_PERM_EV) HAP_CHAR_FORMAT_UINT8)"
  unfolding hap_char_security_system_target_state_create_def conf_defs
  by (rule creates_upd) (simp_all add: profile_uint8)

lemma hap_char_battery_level_create_ok:
  "creates (hap_char_battery_level_create battery_level) True
     (profile_char HAP_CHAR_UUID_BATTERY_LEVEL (HAP_CHAR_PERM_PR OR HAP_CHAR_PERM_EV) HAP_CHAR_FORMAT_UINT8)"
  unfolding hap_char_battery_level_create_def conf_defs
  by (rule creates_upd) (simp_all add: profile_uint8)

lemma hap_char_carbon_monoxide_detected_create_ok:
  "creates (hap_char_carbon_monoxide_detected_create carbon_monoxide_detected) True
     (profile_char HAP_CHAR_UUID_CARBON_MONOXIDE_DETECTED (HAP_CHAR_PERM_PR OR HAP_CHAR_PERM_EV) HAP_CHAR_FORMAT_UINT8)"
  unfolding hap_char_carbon_monoxide_detected_create_def conf_defs
  by (rule creates_upd) (simp_all add: profile_uint8)

lemma hap_char_contact_sensor_state_create_ok:
  "creates (hap_char_contact_sensor_state_create contact_sensor_state) True
     (profile_char HAP_CHAR_UUID_CONTACT_SENSOR_STATE (HAP_CHAR_PERM_PR OR HAP_CHAR_PERM_EV) HAP_CHAR_FORMAT_UINT8)"
  unfolding hap_char_contact_sensor_state_create_def conf_defs
  by (rule creates_upd) (simp_all add: profile_uint8)

lemma hap_char_current_ambient_light_level_create_ok:
  "creates (hap_char_current_ambient_light_level_create curr_ambient_light_level) True
     (profile_char HAP_CHAR_UUID_CURRENT_AMBIENT_LIGHT_LEVEL (HAP_CHAR_PERM_PR OR HAP_CHAR_PERM_EV) HAP_CHAR_FORMAT_FLOAT)"
  unfolding hap_char_current_ambient_light_level_create_def conf_defs
  by (rule creates_upd) (simp_all add: profile_float profile_float_bounds)

lemma hap_char_current_horizontal_tilt_angle_create_ok:
  "creates (hap_char_current_horizontal_tilt_angle_create curr_horiz_tilt_angle) True
     (profile_char HAP_CHAR_UUID_CURRENT_HORIZONTAL_TILT_ANGLE (HAP_CHAR_PERM_PR OR HAP_CHAR_PERM_EV) HAP_CHAR_FORMAT_INT)"
  unfolding hap_char_current_horizontal_tilt_angle_create_def conf_defs
  by (rule creates_upd) (simp_all add: profile_int)

lemma hap_char_current_position_create_ok:
  "creates (hap_char_current_position_create curr_pos) True
     (profile_char HAP_CHAR_UUID_CURRENT_POSITION (HAP_CHAR_PERM_PR OR HAP_CHAR_PERM_EV) HAP_CHAR_FORMAT_UINT8)"
  unfolding hap_char_current_position_create_def conf_defs
  by (rule creates_upd) (simp_all add: profile_uint8)

lemma hap_char_current_vertical_tilt_angle_create_ok:
  "creates (hap_char_current_vertical_tilt_angle_create curr_vert_tilt_angle) True
     (profile_char HAP_CHAR_UUID_CURRENT_VERTICAL_TILT_ANGLE (HAP_CHAR_PERM_PR OR HAP_CHAR_PERM_EV) HAP_CHAR_FORMAT_INT)"
  unfolding hap_char_current_vertical_tilt_angle_create_def conf_defs
  by (rule creates_upd) (simp_all add: profile_int)

lemma hap_char_hold_position_create_ok:
  "creates (hap_char_hold_position_create hold_pos) True
     (profile_char HAP_CHAR_UUID_HOLD_POSITION HAP_CHAR_PERM_PW HAP_CHAR_FORMAT_BOOL)"
  unfolding hap_char_hold_position_create_def conf_defs
  by (rule creates_plain) simp_all

lemma hap_char_leak_detected_create_ok:
  "creates (hap_char_leak_detected_create leak_detected) True
     (profile_char HAP_CHAR_UUID_LEAK_DETECTED (HAP_CHAR_PERM_PR OR HAP_CHAR_PERM_EV) HAP_CHAR_FORMAT_UINT8)"
  unfolding hap_char_leak_detected_create_def conf_defs
  by (rule creates_upd) (simp_all add: profile_uint8)

lemma hap_char_occupancy_detected_create_ok:
  "creates (hap_char_occupancy_detected_create occupancy_detected) True
     (profile_char HAP_CHAR_UUID_OCCUPANCY_DETECTED (HAP_CHAR_PERM_PR OR HAP_CHAR_PERM_EV) HAP_CHAR_FORMAT_UINT8)"
  unfolding hap_char_occupancy_detected_create_def conf_defs
  by (rule creates_upd) (simp_all add: profile_uint8)

lemma hap_char_position_state_create_ok:
  "creates (hap_char_position_state_create pos_state) True
     (profile_char HAP_CHAR_UUID_POSITION_STATE (HAP_CHAR_PERM_PR OR HAP_CHAR_PERM_EV) HAP_CHAR_FORMAT_UINT8)"
  unfolding hap_char_position_state_create_def conf_defs
  by (rule creates_upd) (simp_all add: profile_uint8)

lemma hap_char_programmable_switch_event_create_ok:
  "creates (hap_char_programmable_switch_event_create programmable_switch_event) True
     (profile_char HAP_CHAR_UUID_PROGRAMMABLE_SWITCH_EVENT (HAP_CHAR_PERM_PR OR HAP_CHAR_PERM_EV OR HAP_CHAR_PERM_SPECIAL_READ) HAP_CHAR_FORMAT_UINT8)"
  unfolding hap_char_programmable_switch_event_create_def conf_defs
  by (rule creates_upd) (simp_all add: profile_uint8)

lemma hap_char_status_active_create_ok:
  "creates (hap_char_status_active_create status_active) True
     (profile_char HAP_CHAR_UUID_STATUS_ACTIVE (HAP_CHAR_PERM_PR OR HAP_CHAR_PERM_EV) HAP_CHAR_FORMAT_BOOL)"
  unfolding hap_char_status_active_create_def conf_defs
  by (rule creates_plain) simp_all

lemma hap_char_smoke_detected_create_ok:
  "creates (hap_char_smoke_detected_create smoke_detected) True
     (profile_char HAP_CHAR_UUID_SMOKE_DETECTED (HAP_CHAR_PERM_PR OR HAP_CHAR_PERM_EV) HAP_CHAR_FORMAT_UINT8)"
  unfolding hap_char_smoke_detected_create_def conf_defs
  by (rule creates_upd) (simp_all add: profile_uint8)

lemma hap_char_status_fault_create_ok:
  "creates (hap_char_status_fault_create status_fault) True
     (profile_char HAP_CHAR_UUID_STATUS_FAULT (HAP_CHAR_PERM_PR OR HAP_CHAR_PERM_EV) HAP_CHAR_FORMAT_UINT8)"
  unfolding hap_char_status_fault_create_def conf_defs
  by (rule creates_upd) (simp_all add: profile_uint8)

lemma hap_char_status_low_battery_create_ok:
  "creates (hap_char_status_low_battery_create status_low_battery) True
     (profile_char HAP_CHAR_UUID_STATUS_LOW_BATTERY (HAP_CHAR_PERM_PR OR HAP_CHAR_PERM_EV) HAP_CHAR_FORMAT_UINT8)"
  unfolding hap_char_status_low_battery_create_def conf_defs
  by (rule creates_upd) (simp_all add: profile_uint8)

lemma hap_char_status_tampered_create_ok:
  "creates (hap_char_status_tampered_create status_tampered) True
     (profile_char HAP_CHAR_UUID_STATUS_TAMPERED (HAP_CHAR_PERM_PR OR HAP_CHAR_PERM_EV) HAP_CHAR_FORMAT_UINT8)"
  unfolding hap_char_status_tampered_create_def conf_defs
  by (rule creates_upd) (simp_all add: profile_uint8)

lemma hap_char_target_horizontal_tilt_angle_create_ok:
  "creates (hap_char_target_horizontal_tilt_angle_create targ_horiz_tilt_angle) True
     (profile_char HAP_CHAR_UUID_TARGET_HORIZONTAL_TILT_ANGLE (HAP_CHAR_PERM_PR OR HAP_CHAR_PERM_PW OR HAP_CHAR_PERM_EV) HAP_CHAR_FORMAT_INT)"
  unfolding hap_char_target_horizontal_tilt_angle_create_def conf_defs
  by (rule creates_upd) (simp_all add: profile_int)

lemma hap_char_target_position_create_ok:
  "creates (hap_char_target_position_create targ_pos) True
     (profile_char HAP_CHAR_UUID_TARGET_POSITION (HAP_CHAR_PERM_PR OR HAP_CHAR_PERM_PW OR HAP_CHAR_PERM_EV) HAP_CHAR_FORMAT_UINT8)"
  unfolding hap_char_target_position_create_def conf_defs
  by (rule creates_upd) (simp_all add: profile_uint8)

lemma hap_char_target_vertical_tilt_angle_create_ok:
  "creates (hap_char_target_vertical_tilt_angle_create targ_vert_tilt_angle) True
     (profile_char HAP_CHAR_UUID_TARGET_VERTICAL_TILT_ANGLE (HAP_CHAR_PERM_PR OR HAP_CHAR_PERM_PW OR HAP_CHAR_PERM_EV) HAP_CHAR_FORMAT_INT)"
  unfolding hap_char_target_vertical_tilt_angle_create_def conf_defs
  by (rule creates_upd) (simp_all add: profile_int)

lemma hap_char_security_system_alarm_type_create_ok:
  "creates (hap_char_security_system_alarm_type_create security_sys_alarm_type) True
     (profile_char HAP_CHAR_UUID_STATUS_SECURITY_SYSTEM_ALARM_TYPE (HAP_CHAR_PERM_PR OR HAP_CHAR_PERM_EV) HAP_CHAR_FORMAT_UINT8)"
  unfolding hap_char_security_system_alarm_type_create_def conf_defs
  by (rule creates_upd) (simp_all add: profile_uint8)

lemma hap_char_charging_state_create_ok:
  "creates (hap_char_charging_state_create charging_state) True
     (profile_char HAP_CHAR_UUID_CHARGING_STATE (HAP_CHAR_PERM_PR OR HAP_CHAR_PERM_EV) HAP_CHAR_FORMAT_UINT8)"
  unfolding hap_char_charging_state_create_def conf_defs
  by (rule creates_upd) (simp_all add: profile_uint8)

lemma hap_char_carbon_monoxide_level_create_ok:
  "creates (hap_char_carbon_monoxide_level_create carbon_monoxide_level) True
     (profile_char HAP_CHAR_UUID_CARBON_MONOXIDE_LEVEL (HAP_CHAR_PERM_PR OR HAP_CHAR_PERM_EV) HAP_CHAR_FORMAT_FLOAT)"
  unfolding hap_char_carbon_monoxide_level_create_def conf_defs
  by (rule creates_upd) (simp_all add: profile_float profile_float_bounds)

lemma hap_char_carbon_monoxide_peak_level_create_ok:
  "creates (hap_char_carbon_monoxide_peak_level_create carbon_monoxide_peak_level) True
     (profile_char HAP_CHAR_UUID_CARBON_MONOXIDE_PEAK_LEVEL (HAP_CHAR_PERM_PR OR HAP_CHAR_PERM_EV) HAP_CHAR_FORMAT_FLOAT)"
  unfolding hap_char_carbon_monoxide_peak_level_create_def conf_defs
  by (rule creates_upd) (simp_all add: profile_float profile_float_bounds)

lemma hap_char_carbon_dioxide_detected_create_ok:
  "creates (hap_char_carbon_dioxide_detected_create carbon_dioxide_detected) True
     (profile_char HAP_CHAR_UUID_CARBON_DIOXIDE_DETECTED (HAP_CHAR_PERM_PR OR HAP_CHAR_PERM_EV) HAP_CHAR_FORMAT_UINT8)"
  unfolding hap_char_carbon_dioxide_detected_create_def conf_defs
  by (rule creates_upd) (simp_all add: profile_uint8)

lemma hap_char_carbon_dioxide_level_create_ok:
  "creates (hap_char_carbon_dioxide_level_create carbon_dioxide_level) True
     (profile_char HAP_CHAR_UUID_CARBON_DIOXIDE_LEVEL (HAP_CHAR_PERM_PR OR HAP_CHAR_PERM_EV) HAP_CHAR_FORMAT_FLOAT)"
  unfolding hap_char_carbon_dioxide_level_create_def conf_defs
  by (rule creates_upd) (simp_all add: profile_float profile_float_bounds)

lemma hap_char_carbon_dioxide_peak_level_create_ok:
  "creates (hap_char_carbon_dioxide_peak_level_create carbon_dioxide_peak_level) True
     (profile_char HAP_CHAR_UUID_CARBON_DIOXIDE_PEAK_LEVEL (HAP_CHAR_PERM_PR OR HAP_CHAR_PERM_EV) HAP_CHAR_FORMAT_FLOAT)"
  unfolding hap_char_carbon_dioxide_peak_level_create_def conf_defs
  by (rule creates_upd) (simp_all add: profile_float profile_float_bounds)

lemma hap_char_air_quality_create_ok:
  "creates (hap_char_air_quality_create air_quality) True
     (profile_char HAP_CHAR_UUID_AIR_QUALITY (HAP_CHAR_PERM_PR OR HAP_CHAR_PERM_EV) HAP_CHAR_FORMAT_UINT8)"
  unfolding hap_char_air_quality_create_def conf_defs
  by (rule creates_upd) (simp_all add: profile_uint8)

lemma hap_char_accessory_flags_create_ok:
  "creates (hap_char_accessory_flags_create flags) True
     (profile_char HAP_CHAR_UUID_ACCESSORY_FLAGS (HAP_CHAR_PERM_PR OR HAP_CHAR_PERM_EV) HAP_CHAR_FORMAT_UINT32)"
  unfolding hap_char_accessory_flags_create_def conf_defs
  by (rule creates_plain) simp_all

lemma hap_char_product_data_create_ok:
  "creates (hap_char_product_data_create product_data) True
     (profile_char HAP_CHAR_UUID_PRODUCT_DATA HAP_CHAR_PERM_PR HAP_CHAR_FORMAT_DATA)"
  unfolding hap_char_product_data_create_def conf_defs
  by (rule creates_plain) simp_all

lemma hap_char_lock_physical_controls_create_ok:
  "creates (hap_char_lock_physical_controls_create lock_physical_controls) True
     (profile_char HAP_CHAR_UUID_LOCK_PHYSICAL_CONTROLS (HAP_CHAR_PERM_PR OR HAP_CHAR_PERM_PW OR HAP_CHAR_PERM_EV) HAP_CHAR_FORMAT_UINT8)"
  unfolding hap_char_lock_physical_controls_create_def conf_defs
  by (rule creates_upd) (simp_all add: profile_uint8)

lemma hap_char_current_air_purifier_state_create_ok:
  "creates (hap_char_current_air_purifier_state_create curr_air_purifier_state) True
     (profile_char HAP_CHAR_UUID_CURRENT_AIR_PURIFIER_STATE (HAP_CHAR_PERM_PR OR HAP_CHAR_PERM_EV) HAP_CHAR_FORMAT_UINT8)"
  unfolding hap_char_current_air_purifier_state_create_def conf_defs
  by (rule creates_upd) (simp_all add: profile_uint8)

lemma hap_char_current_slat_state_create_ok:
  "creates (hap_char_current_slat_state_create curr_slat_state) True
     (profile_char HAP_CHAR_UUID_CURRENT_SLAT_STATE (HAP_CHAR_PERM_PR OR HAP_CHAR_PERM_EV) HAP_CHAR_FORMAT_UINT8)"
  unfolding hap_char_current_slat_state_create_def conf_defs
  by (rule creates_upd) (simp_all add: profile_uint8)

lemma hap_char_slat_type_create_ok:
  "creates (hap_char_slat_type_create slat_type) True
     (profile_char HAP_CHAR_UUID_SLAT_TYPE HAP_CHAR_PERM_PR HAP_CHAR_FORMAT_UINT8)"
  unfolding hap_char_slat_type_create_def conf_defs
  by (rule creates_upd) (simp_all add: profile_uint8)

lemma hap_char_filter_life_level_create_ok:
  "creates (hap_char_filter_life_level_create filter_life_level) True
     (profile_char HAP_CHAR_UUID_FILTER_LIFE_LEVEL (HAP_CHAR_PERM_PR OR HAP_CHAR_PERM_EV) HAP_CHAR_FORMAT_FLOAT)"
  unfolding hap_char_filter_life_level_create_def conf_defs
  by (rule creates_upd) (simp_all add: profile_float profile_float_bounds)

lemma hap_char_filter_change_indication_create_ok:
  "creates (hap_char_filter_change_indication_create filter_change_indication) True
     (profile_char HAP_CHAR_UUID_FILTER_CHANGE_INDICATION (HAP_CHAR_PERM_PR OR HAP_CHAR_PERM_EV) HAP_CHAR_FORMAT_UINT8)"
  unfolding hap_char_filter_change_indication_create_def conf_defs
  by (rule creates_upd) (simp_all add: profile_uint8)

lemma hap_char_reset_filter_indication_create_ok:
  "creates (hap_char_reset_filter_indication_create reset_filter_indication) True
     (profile_char HAP_CHAR_UUID_RESET_FILTER_INDICATION HAP_CHAR_PERM_PW HAP_CHAR_FORMAT_UINT8)"
  unfolding hap_char_reset_filter_indication_create_def conf_defs
  by (rule creates_upd) (simp_all add: profile_uint8)

lemma hap_char_target_air_purifier_state_create_ok:
  "creates (hap_char_target_air_purifier_state_create targ_air_purifier_state) True
     (profile_char HAP_CHAR_UUID_TARGET_AIR_PURIFIER_STATE (HAP_CHAR_PERM_PR OR HAP_CHAR_PERM_PW OR HAP_CHAR_PERM_EV) HAP_CHAR_FORMAT_UINT8)"
  unfolding hap_char_target_air_purifier_state_create_def conf_defs
  by (rule creates_upd) (simp_all add: profile_uint8)

lemma hap_char_target_fan_state_create_ok:
  "creates (hap_char_target_fan_state_create targ_fan_state) True
     (profile_char HAP_CHAR_UUID_TARGET_FAN_STATE (HAP_CHAR_PERM_PR OR HAP_CHAR_PERM_PW OR HAP_CHAR_PERM_EV) HAP_CHAR_FORMAT_UINT8)"
  unfolding hap_char_target_fan_state_create_def conf_defs
  by (rule creates_upd) (simp_all add: profile_uint8)

lemma hap_char_current_fan_state_create_ok:
  "creates (hap_char_current_fan_state_create curr_fan_state) True
     (profile_char HAP_CHAR_UUID_CURRENT_FAN_STATE (HAP_CHAR_PERM_PR OR HAP_CHAR_PERM_EV) HAP_CHAR_FORMAT_UINT8)"
  unfolding hap_char_current_fan_state_create_def conf_defs
  by (rule creates_upd) (simp_all add: profile_uint8)

lemma hap_char_active_create_ok:
  "creates (hap_char_active_create active) True
     (profile_char HAP_CHAR_UUID_ACTIVE (HAP_CHAR_PERM_PR OR HAP_CHAR_PERM_PW OR HAP_CHAR_PERM_EV) HAP_CHAR_FORMAT_UINT8)"
  unfolding hap_char_active_create_def conf_defs
  by (rule creates_upd) (simp_all add: profile_uint8)

lemma hap_char_swing_mode_create_ok:
  "creates (hap_char_swing_mode_create swing_mode) True
     (profile_char HAP_CHAR_UUID_SWING_MODE (HAP_CHAR_PERM_PR OR HAP_CHAR_PERM_PW OR HAP_CHAR_PERM_EV) HAP_CHAR_FORMAT_UINT8)"
  unfolding hap_char_swing_mode_create_def conf_defs
  by (rule creates_upd) (simp_all add: profile_uint8)

lemma hap_char_current_tilt_angle_create_ok:
  "creates (hap_char_current_tilt_angle_create curr_tilt_angle) True
     (profile_char HAP_CHAR_UUID_CURRENT_TILT_ANGLE (HAP_CHAR_PERM_PR OR HAP_CHAR_PERM_EV) HAP_CHAR_FORMAT_INT)"
  unfolding hap_char_current_tilt_angle_create_def conf_defs
  by (rule creates_upd) (simp_all add: profile_int)

lemma hap_char_target_tilt_angle_create_ok:
  "creates (hap_char_target_tilt_angle_create targ_tilt_angle) True
     (profile_char HAP_CHAR_UUID_TARGET_TILT_ANGLE (HAP_CHAR_PERM_PR OR HAP_CHAR_PERM_PW OR HAP_CHAR_PERM_EV) HAP_CHAR_FORMAT_INT)"
  unfolding hap_char_target_tilt_angle_create_def conf_defs
  by (rule creates_upd) (simp_all add: profile_int)

lemma hap_char_ozone_density_create_ok:
  "creates (hap_char_ozone_density_create ozone_density) True
     (profile_char HAP_CHAR_UUID_OZONE_DENSITY (HAP_CHAR_PERM_PR OR HAP_CHAR_PERM_EV) HAP_CHAR_FORMAT_FLOAT)"
  unfolding hap_char_ozone_density_create_def conf_defs
  by (rule creates_upd) (simp_all add: profile_float profile_float_bounds)

lemma hap_char_nitrogen_dioxide_density_create_ok:
  "creates (hap_char_nitrogen_dioxide_density_create nitrogen_dioxide_density) True
     (profile_char HAP_CHAR_UUID_NITROGEN_DIOXIDE_DENSITY (HAP_CHAR_PERM_PR OR HAP_CHAR_PERM_EV) HAP_CHAR_FORMAT_FLOAT)"
  unfolding hap_char_nitrogen_dioxide_density_create_def conf_defs
  by (rule creates_upd) (simp_all add: profile_float profile_float_bounds)

lemma hap_char_sulphur_dioxide_density_create_ok:
  "creates (hap_char_sulphur_dioxide_density_create sulphur_dioxide_density) True
     (profile_char HAP_CHAR_UUID_SULPHUR_DIOXIDE_DENSITY (HAP_CHAR_PERM_PR OR HAP_CHAR_PERM_EV) HAP_CHAR_FORMAT_FLOAT)"
  unfolding hap_char_sulphur_dioxide_density_create_def conf_defs
  by (rule creates_upd) (simp_all add: profile_float profile_float_bounds)

lemma hap_char_pm_2_5_density_create_ok:
  "creates (hap_char_pm_2_5_density_create pm_2_5_density) True
     (profile_char HAP_CHAR_UUID_PM_2_5_DENSITY (HAP_CHAR_PERM_PR OR HAP_CHAR_PERM_EV) HAP_CHAR_FORMAT_FLOAT)"
  unfolding hap_char_pm_2_5_density_create_def conf_defs
  by (rule creates_upd) (simp_all add: profile_float profile_float_bounds)

lemma hap_char_pm_10_density_create_ok:
  "creates (hap_char_pm_10_density_create pm_10_density) True
     (profile_char HAP_CHAR_UUID_PM_10_DENSITY (HAP_CHAR_PERM_PR OR HAP_CHAR_PERM_EV) HAP_CHAR_FORMAT_FLOAT)"
  unfolding hap_char_pm_10_density_create_def conf_defs
  by (rule creates_upd) (simp_all add: profile_float profile_float_bounds)

lemma hap_char_voc_density_create_ok:
  "creates (hap_char_voc_density_create voc_density) True
     (profile_char HAP_CHAR_UUID_VOC_DENSITY (HAP_CHAR_PERM_PR OR HAP_CHAR_PERM_EV) HAP_CHAR_FORMAT_FLOAT)"
  unfolding hap_char_voc_density_create_def conf_defs
  by (rule creates_upd) (simp_all add: profile_float profile_float_bounds)

lemma hap_char_service_label_index_create_ok:
  "creates (hap_char_service_label_index_create service_label_index) True
     (profile_char HAP_CHAR_UUID_SERVICE_LABEL_INDEX HAP_CHAR_PERM_PR HAP_CHAR_FORMAT_UINT8)"
  unfolding hap_char_service_label_index_create_def conf_defs
  by (rule creates_plain) simp_all

lemma hap_char_service_label_namespace_create_ok:
  "creates (hap_char_service_label_namespace_create service_label_namespace) True
     (profile_char HAP_CHAR_UUID_SERVICE_LABEL_NAMESPACE HAP_CHAR_PERM_PR HAP_CHAR_FORMAT_UINT8)"
  unfolding hap_char_service_label_namespace_create_def conf_defs
  by (rule creates_upd) (simp_all add: profile_uint8)

lemma hap_char_color_temperature_create_ok:
  "creates (hap_char_color_temperature_create color_temp) True
     (profile_char HAP_CHAR_UUID_COLOR_TEMPERATURE (HAP_CHAR_PERM_PR OR HAP_CHAR_PERM_PW OR HAP_CHAR_PERM_EV) HAP_CHAR_FORMAT_UINT32)"
  unfolding hap_char_color_temperature_create_def conf_defs
  by (rule creates_upd) (simp_all add: profile_uint32)

lemma hap_char_current_heater_cooler_state_create_ok:
  "creates (hap_char_current_heater_cooler_state_create curr_heater_cooler_state) True
     (profile_char HAP_CHAR_UUID_CURRENT_HEATER_COOLER_STATE (HAP_CHAR_PERM_PR OR HAP_CHAR_PERM_EV) HAP_CHAR_FORMAT_UINT8)"
  unfolding hap_char_current_heater_cooler_state_create_def conf_defs
  by (rule creates_upd) (simp_all add: profile_uint8)

lemma hap_char_target_heater_cooler_state_create_ok:
  "creates (hap_char_target_heater_cooler_state_create targ_heater_cooler_state) True
     (profile_char HAP_CHAR_UUID_TARGET_HEATER_COOLER_STATE (HAP_CHAR_PERM_PR OR HAP_CHAR_PERM_PW OR HAP_CHAR_PERM_EV) HAP_CHAR_FORMAT_UINT8)"
  unfolding hap_char_target_heater_cooler_state_create_def conf_defs
  by (rule creates_upd) (simp_all add: profile_uint8)

lemma hap_char_current_humidifier_dehumidifier_state_create_ok:
  "creates (hap_char_current_humidifier_dehumidifier_state_create curr_humidifier_dehumidifier_state) True
     (profile_char HAP_CHAR_UUID_CURRENT_HUMIDIFIER_DEHUMIDIFIER_STATE (HAP_CHAR_PERM_PR OR HAP_CHAR_PERM_EV) HAP_CHAR_FORMAT_UINT8)"
  unfolding hap_char_current_humidifier_dehumidifier_state_create_def conf_defs
  by (rule creates_upd) (simp_all add: profile_uint8)

lemma hap_char_target_humidifier_dehumidifier_state_create_ok:
  "creates (hap_char_target_humidifier_dehumidifier_state_create targ_humidifier_dehumidifier_state) True
     (profile_char HAP_CHAR_UUID_TARGET_HUMIDIFIER_DEHUMIDIFIER_STATE (HAP_CHAR_PERM_PR OR HAP_CHAR_PERM_PW OR HAP_CHAR_PERM_EV) HAP_CHAR_FORMAT_UINT8)"
  unfolding hap_char_target_humidifier_dehumidifier_state_create_def conf_defs
  by (rule creates_upd) (simp_all add: profile_uint8)

lemma hap_char_water_level_create_ok:
  "creates (hap_char_water_level_create water_level) True
     (profile_char HAP_CHAR_UUID_WATER_LEVEL (HAP_CHAR_PERM_PR OR HAP_CHAR_PERM_EV) HAP_CHAR_FORMAT_FLOAT)"
  unfolding hap_char_water_level_create_def conf_defs
  by (rule creates_upd) (simp_all add: profile_float profile_float_bounds)

lemma hap_char_relative_humidity_dehumidifier_threshold_create_ok:
  "creates (hap_char_relative_humidity_dehumidifier_threshold_create rel_humidity_dehumidifier_threshold) True
     (profile_char HAP_CHAR_UUID_RELATIVE_HUMIDITY_DEHUMIDIFIER_THRESHOLD (HAP_CHAR_PERM_PR OR HAP_CHAR_PERM_PW OR HAP_CHAR_PERM_EV) HAP_CHAR_FORMAT_FLOAT)"
  unfolding hap_char_relative_humidity_dehumidifier_threshold_create_def conf_defs
  by (rule creates_upd) (simp_all add: profile_float profile_float_bounds)

lemma hap_char_relative_humidity_humidifier_threshold_create_ok:
  "creates (hap_char_relative_humidity_humidifier_threshold_create rel_humidity_humidifier_threshold) True
     (profile_char HAP_CHAR_UUID_RELATIVE_HUMIDITY_HUMIDIFIER_THRESHOLD (HAP_CHAR_PERM_PR OR HAP_CHAR_PERM_PW OR HAP_CHAR_PERM_EV) HAP_CHAR_FORMAT_FLOAT)"
  unfolding hap_char_relative_humidity_humidifier_threshold_create_def conf_defs
  by (rule creates_upd) (simp_all add: profile_float profile_float_bounds)

lemma hap_char_program_mode_create_ok:
  "creates (hap_char_program_mode_create prog_mode) True
     (profile_char HAP_CHAR_UUID_PROGRAM_MODE (HAP_CHAR_PERM_PR OR HAP_CHAR_PERM_EV) HAP_CHAR_FORMAT_UINT8)"
  unfolding hap_char_program_mode_create_def conf_defs
  by (rule creates_upd) (simp_all add: profile_uint8)

lemma hap_char_in_use_create_ok:
  "creates (hap_char_in_use_create in_use) True
     (profile_char HAP_CHAR_UUID_IN_USE (HAP_CHAR_PERM_PR OR HAP_CHAR_PERM_EV) HAP_CHAR_FORMAT_UINT8)"
  unfolding hap_char_in_use_create_def conf_defs
  by (rule creates_upd) (simp_all add: profile_uint8)

lemma hap_char_set_duration_create_ok:
  "creates (hap_char_set_duration_create set_duration) True
     (profile_char HAP_CHAR_UUID_SET_DURATION (HAP_CHAR_PERM_PR OR HAP_CHAR_PERM_PW OR HAP_CHAR_PERM_EV) HAP_CHAR_FORMAT_UINT32)"
  unfolding hap_char_set_duration_create_def conf_defs
  by (rule creates_upd) (simp_all add: profile_uint32)

lemma hap_char_remaining_duration_create_ok:
  "creates (hap_char_remaining_duration_create remaining_duration) True
     (profile_char HAP_CHAR_UUID_REMAINING_DURATION (HAP_CHAR_PERM_PR OR HAP_CHAR_PERM_EV) HAP_CHAR_FORMAT_UINT32)"
  unfolding hap_char_remaining_duration_create_def conf_defs
  by (rule creates_upd) (simp_all add: profile_uint32)

lemma hap_char_valve_type_create_ok:
  "creates (hap_char_valve_type_create valve_type) True
     (profile_char HAP_CHAR_UUID_VALVE_TYPE (HAP_CHAR_PERM_PR OR HAP_CHAR_PERM_EV) HAP_CHAR_FORMAT_UINT8)"
  unfolding hap_char_valve_type_create_def conf_defs
  by (rule creates_upd) (simp_all add: profile_uint8)

lemma hap_char_is_configured_create_ok:
  "creates (hap_char_is_configured_create is_configured) True
     (profile_char HAP_CHAR_UUID_IS_CONFIGURED (HAP_CHAR_PERM_PR OR HAP_CHAR_PERM_PW OR HAP_CHAR_PERM_EV) HAP_CHAR_FORMAT_UINT8)"
  unfolding hap_char_is_configured_create_def conf_defs
  by (rule creates_upd) (simp_all add: profile_uint8)

lemma hap_char_status_jammed_create_ok:
  "creates (hap_char_status_jammed_create status_jammed) True
     (profile_char HAP_CHAR_UUID_STATUS_JAMMED (HAP_CHAR_PERM_PR OR HAP_CHAR_PERM_EV) HAP_CHAR_FORMAT_UINT8)"
  unfolding hap_char_status_jammed_create_def conf_defs
  by (rule creates_upd) (simp_all add: profile_uint8)

lemma hap_char_administrator_only_access_create_ok:
  "creates (hap_char_administrator_only_access_create administrator_only_access) True
     (profile_char HAP_CHAR_UUID_ADMINISTRATOR_ONLY_ACCESS (HAP_CHAR_PERM_PR OR HAP_CHAR_PERM_PW OR HAP_CHAR_PERM_EV) HAP_CHAR_FORMAT_BOOL)"
  unfolding hap_char_administrator_only_access_create_def conf_defs
  by (rule creates_plain) simp_all

lemma hap_char_lock_control_point_create_ok:
  "creates (hap_char_lock_control_point_create lock_control_point) True
     (profile_char HAP_CHAR_UUID_LOCK_CONTROL_POINT HAP_CHAR_PERM_PW HAP_CHAR_FORMAT_TLV8)"
  unfolding hap_char_lock_control_point_create_def conf_defs
  by (rule creates_plain) simp_all

lemma hap_char_lock_last_known_action_create_ok:
  "creates (hap_char_lock_last_known_action_create lock_last_known_action) True
     (profile_char HAP_CHAR_UUID_LOCK_LAST_KNOWN_ACTION (HAP_CHAR_PERM_PR OR HAP_CHAR_PERM_EV) HAP_CHAR_FORMAT_UINT8)"
  unfolding hap_char_lock_last_known_action_create_def conf_defs
  by (rule creates_upd) (simp_all add: profile_uint8)

lemma hap_char_lock_management_auto_security_timeout_create_ok:
  "creates (hap_char_lock_management_auto_security_timeout_create lock_management_auto_security_timeout) True
     (profile_char HAP_CHAR_UUID_LOCK_MANAGEMENT_AUTO_SECURITY_TIMEOUT (HAP_CHAR_PERM_PR OR HAP_CHAR_PERM_PW OR HAP_CHAR_PERM_EV) HAP_CHAR_FORMAT_UINT32)"
  unfolding hap_char_lock_management_auto_security_timeout_create_def conf_defs
  by (rule creates_upd) simp_all

lemma hap_char_logs_create_ok:
  "creates (hap_char_logs_create logs) True
     (profile_char HAP_CHAR_UUID_LOGS (HAP_CHAR_PERM_PR OR HAP_CHAR_PERM_EV) HAP_CHAR_FORMAT_TLV8)"
  unfolding hap_char_logs_create_def conf_defs
  by (rule creates_plain) simp_all

lemma hap_char_air_particulate_density_create_ok:
  "creates (hap_char_air_particulate_density_create air_particulate_density) True
     (profile_char HAP_CHAR_UUID_AIR_PARTICULATE_DENSITY (HAP_CHAR_PERM_PR OR HAP_CHAR_PERM_EV) HAP_CHAR_FORMAT_FLOAT)"
  unfolding hap_char_air_particulate_density_create_def conf_defs
  by (rule creates_upd) (simp_all add: profile_float profile_float_bounds)

lemma hap_char_air_particulate_size_create_ok:
  "creates (hap_char_air_particulate_size_create air_particulate_size) True
     (profile_char HAP_CHAR_UUID_AIR_PARTICULATE_SIZE (HAP_CHAR_PERM_PR OR HAP_CHAR_PERM_EV) HAP_CHAR_FORMAT_UINT8)"
  unfolding hap_char_air_particulate_size_create_def conf_defs
  by (rule creates_upd) (simp_all add: profile_uint8)

lemmas char_ctor_ok =
  hap_char_brightness_create_ok
  hap_char_cooling_threshold_temperature_create_ok
  hap_char_current_door_state_create_ok
  hap_char_current_heating_cooling_state_create_ok
  hap_char_current_relative_humidity_create_ok
  hap_char_current_temperature_create_ok
  hap_char_firmware_revision_create_ok
  hap_char_hardware_revision_create_ok
  hap_char_heating_threshold_temperature_create_ok
  hap_char_hue_create_ok
  hap_char_identify_create_ok
  hap_char_lock_current_state_create_ok
  hap_char_lock_target_state_create_ok
  hap_char_manufacturer_create_ok
  hap_char_model_create_ok
  hap_char_motion_detected_create_ok
  hap_char_name_create_ok
  hap_char_obstruction_detect_create_ok
  hap_char_on_create_ok
  hap_char_outlet_in_use_create_ok
  hap_char_rotation_direction_create_ok
  hap_char_rotation_speed_create_ok
  hap_char_saturation_create_ok
  hap_char_serial_number_create_ok
  hap_char_target_door_state_create_ok
  hap_char_target_heating_cooling_state_create_ok
  hap_char_target_relative_humidity_create_ok
  hap_char_target_temperature_create_ok
  hap_char_temperature_display_units_create_ok
  hap_char_version_create_ok
  hap_char_security_system_current_state_create_ok
  hap_char_security_system_target_state_create_ok
  hap_char_battery_level_create_ok
  hap_char_carbon_monoxide_detected_create_ok
  hap_char_contact_sensor_state_create_ok
  hap_char_current_ambient_light_level_create_ok
  hap_char_current_horizontal_tilt_angle_create_ok
  hap_char_current_position_create_ok
  hap_char_current_vertical_tilt_angle_create_ok
  hap_char_hold_position_create_ok
  hap_char_leak_detected_create_ok
  hap_char_occupancy_detected_create_ok
  hap_char_position_state_create_ok
  hap_char_programmable_switch_event_create_ok
  hap_char_status_active_create_ok
  hap_char_smoke_detected_create_ok
  hap_char_status_fault_create_ok
  hap_char_status_low_battery_create_ok
  hap_char_status_tampered_create_ok
  hap_char_target_horizontal_tilt_angle_create_ok
  hap_char_target_position_create_ok
  hap_char_target_vertical_tilt_angle_create_ok
  hap_char_security_system_alarm_type_create_ok
  hap_char_charging_state_create_ok
  hap_char_carbon_monoxide_level_create_ok
  hap_char_carbon_monoxide_peak_level_create_ok
  hap_char_carbon_dioxide_detected_create_ok
  hap_char_carbon_dioxide_level_create_ok
  hap_char_carbon_dioxide_peak_level_create_ok
  hap_char_air_quality_create_ok
  hap_char_accessory_flags_create_ok
  hap_char_product_data_create_ok
  hap_char_lock_physical_controls_create_ok
  hap_char_current_air_purifier_state_create_ok
  hap_char_current_slat_state_create_ok
  hap_char_slat_type_create_ok
  hap_char_filter_life_level_create_ok
  hap_char_filter_change_indication_create_ok
  hap_char_reset_filter_indication_create_ok
  hap_char_target_air_purifier_state_create_ok
  hap_char_target_fan_state_create_ok
  hap_char_current_fan_state_create_ok
  hap_char_active_create_ok
  hap_char_swing_mode_create_ok
  hap_char_current_tilt_angle_create_ok
  hap_char_target_tilt_angle_create_ok
  hap_char_ozone_density_create_ok
  hap_char_nitrogen_dioxide_density_create_ok
  hap_char_sulphur_dioxide_density_create_ok
  hap_char_pm_2_5_density_create_ok
  hap_char_pm_10_density_create_ok
  hap_char_voc_density_create_ok
  hap_char_service_label_index_create_ok
  hap_char_service_label_namespace_create_ok
  hap_char_color_temperature_create_ok
  hap_char_current_heater_cooler_state_create_ok
  hap_char_target_heater_cooler_state_create_ok
  hap_char_current_humidifier_dehumidifier_state_create_ok
  hap_char_target_humidifier_dehumidifier_state_create_ok
  hap_char_water_level_create_ok
  hap_char_relative_humidity_dehumidifier_threshold_create_ok
  hap_char_relative_humidity_humidifier_threshold_create_ok
  hap_char_program_mode_create_ok
  hap_char_in_use_create_ok
  hap_char_set_duration_create_ok
  hap_char_remaining_duration_create_ok
  hap_char_valve_type_create_ok
  hap_char_is_configured_create_ok
  hap_char_status_jammed_create_ok
  hap_char_administrator_only_access_create_ok
  hap_char_lock_control_point_create_ok
  hap_char_lock_last_known_action_create_ok
  hap_char_lock_management_auto_security_timeout_create_ok
  hap_char_logs_create_ok
  hap_char_air_particulate_density_create_ok
  hap_char_air_particulate_size_create_ok

text \<open>Every one of the 106 characteristic constructors of the profile, on any heap, either
  returns NULL and changes nothing but the allocation counter, for want of memory unless its
  string is too long, or a fresh characteristic that belongs to no service, with the type,
  permissions and format of the profile and with bounds that are in order, fit the format, and
  against which no value makes the check overflow.\<close>

theorem apple_chars_correct:
  "creates (hap_char_brightness_create brightness) True (profile_char HAP_CHAR_UUID_BRIGHTNESS (HAP_CHAR_PERM_PR OR HAP_CHAR_PERM_PW OR HAP_CHAR_PERM_EV) HAP_CHAR_FORMAT_INT) \<and>
   creates (hap_char_cooling_threshold_temperature_create cooling_threshold_temp) True (profile_char HAP_CHAR_UUID_COOLING_THRESHOLD_TEMPERATURE (HAP_CHAR_PERM_PR OR HAP_CHAR_PERM_PW OR HAP_CHAR_PERM_EV) HAP_CHAR_FORMAT_FLOAT) \<and>
   creates (hap_char_current_door_state_create curr_door_state) True (profile_char HAP_CHAR_UUID_CURRENT_DOOR_STATE (HAP_CHAR_PERM_PR OR HAP_CHAR_PERM_EV) HAP_CHAR_FORMAT_UINT8) \<and>
   creates (hap_char_current_heating_cooling_state_create curr_heating_cooling_state) True (profile_char HAP_CHAR_UUID_CURRENT_HEATING_COOLING_STATE (HAP_CHAR_PERM_PR OR HAP_CHAR_PERM_EV) HAP_CHAR_FORMAT_UINT8) \<and>
   creates (hap_char_current_relative_humidity_create curr_rel_humidity) True (profile_char HAP_CHAR_UUID_CURRENT_RELATIVE_HUMIDITY (HAP_CHAR_PERM_PR OR HAP_CHAR_PERM_EV) HAP_CHAR_FORMAT_FLOAT) \<and>
   creates (hap_char_current_temperature_create curr_temp) True (profile_char HAP_CHAR_UUID_CURRENT_TEMPERATURE (HAP_CHAR_PERM_PR OR HAP_CHAR_PERM_EV) HAP_CHAR_FORMAT_FLOAT) \<and>
   creates (hap_char_firmware_revision_create fw_rev) (string_fits fw_rev) (profile_char HAP_CHAR_UUID_FIRMWARE_REVISION HAP_CHAR_PERM_PR HAP_CHAR_FORMAT_STRING) \<and>
   creates (hap_char_hardware_revision_create hw_rev) (string_fits hw_rev) (profile_char HAP_CHAR_UUID_HARDWARE_REVISION HAP_CHAR_PERM_PR HAP_CHAR_FORMAT_STRING) \<and>
   creates (hap_char_heating_threshold_temperature_create heating_threshold_temp) True (profile_char HAP_CHAR_UUID_HEATING_THRESHOLD_TEMPERATURE (HAP_CHAR_PERM_PR OR HAP_CHAR_PERM_PW OR HAP_CHAR_PERM_EV) HAP_CHAR_FORMAT_FLOAT) \<and>
   creates (hap_char_hue_create hue) True (profile_char HAP_CHAR_UUID_HUE (HAP_CHAR_PERM_PR OR HAP_CHAR_PERM_PW OR HAP_CHAR_PERM_EV) HAP_CHAR_FORMAT_FLOAT) \<and>
   creates hap_char_identify_create True (profile_char HAP_CHAR_UUID_IDENTIFY HAP_CHAR_PERM_PW HAP_CHAR_FORMAT_BOOL) \<and>
   creates (hap_char_lock_current_state_create lock_curr_state) True (profile_char HAP_CHAR_UUID_LOCK_CURRENT_STATE (HAP_CHAR_PERM_PR OR HAP_CHAR_PERM_EV) HAP_CHAR_FORMAT_UINT8) \<and>
   creates (hap_char_lock_target_state_create lock_targ_state) True (profile_char HAP_CHAR_UUID_LOCK_TARGET_STATE (HAP_CHAR_PERM_PR OR HAP_CHAR_PERM_PW OR HAP_CHAR_PERM_EV) HAP_CHAR_FORMAT_UINT8) \<and>
   creates (hap_char_manufacturer_create manufacturer) (string_fits manufacturer) (profile_char HAP_CHAR_UUID_MANUFACTURER HAP_CHAR_PERM_PR HAP_CHAR_FORMAT_STRING) \<and>
   creates (hap_char_model_create model) (string_fits model) (profile_char HAP_CHAR_UUID_MODEL HAP_CHAR_PERM_PR HAP_CHAR_FORMAT_STRING) \<and>
   creates (hap_char_motion_detected_create motion_detected) True (profile_char HAP_CHAR_UUID_MOTION_DETECTED (HAP_CHAR_PERM_PR OR HAP_CHAR_PERM_EV) HAP_CHAR_FORMAT_BOOL) \<and>
   creates (hap_char_name_create name) (string_fits name) (profile_char HAP_CHAR_UUID_NAME HAP_CHAR_PERM_PR HAP_CHAR_FORMAT_STRING) \<and>
   creates (hap_char_obstruction_detect_create obstr_detect) True (profile_char HAP_CHAR_UUID_OBSTRUCTION_DETECTED (HAP_CHAR_PERM_PR OR HAP_CHAR_PERM_EV) HAP_CHAR_FORMAT_BOOL) \<and>
   creates (hap_char_on_create on) True (profile_char HAP_CHAR_UUID_ON (HAP_CHAR_PERM_PR OR HAP_CHAR_PERM_PW OR HAP_CHAR_PERM_EV) HAP_CHAR_FORMAT_BOOL) \<and>
   creates (hap_char_outlet_in_use_create outlet_in_use) True (profile_char HAP_CHAR_UUID_OUTLET_IN_USE (HAP_CHAR_PERM_PR OR HAP_CHAR_PERM_EV) HAP_CHAR_FORMAT_BOOL) \<and>
   creates (hap_char_rotation_direction_create rotation_direction) True (profile_char HAP_CHAR_UUID_ROTATION_DIRECTION (HAP_CHAR_PERM_PR OR HAP_CHAR_PERM_PW OR HAP_CHAR_PERM_EV) HAP_CHAR_FORMAT_INT) \<and>
   creates (hap_char_rotation_speed_create rotation_speed) True (profile_char HAP_CHAR_UUID_ROTATION_SPEED (HAP_CHAR_PERM_PR OR HAP_CHAR_PERM_PW OR HAP_CHAR_PERM_EV) HAP_CHAR_FORMAT_FLOAT) \<and>
   creates (hap_char_saturation_create saturation) True (profile_char HAP_CHAR_UUID_SATURATION (HAP_CHAR_PERM_PR OR HAP_CHAR_PERM_PW OR HAP_CHAR_PERM_EV) HAP_CHAR_FORMAT_FLOAT) \<and>
   creates (hap_char_serial_number_create serial_num) (string_fits serial_num) (profile_char HAP_CHAR_UUID_SERIAL_NUMBER HAP_CHAR_PERM_PR HAP_CHAR_FORMAT_STRING) \<and>
   creates (hap_char_target_door_state_create targ_door_state) True (profile_char HAP_CHAR_UUID_TARGET_DOOR_STATE (HAP_CHAR_PERM_PR OR HAP_CHAR_PERM_PW OR HAP_CHAR_PERM_EV) HAP_CHAR_FORMAT_UINT8) \<and>
   creates (hap_char_target_heating_cooling_state_create targ_heating_cooling_state) True (profile_char HAP_CHAR_UUID_TARGET_HEATING_COOLING_STATE (HAP_CHAR_PERM_PR OR HAP_CHAR_PERM_PW OR HAP_CHAR_PERM_EV) HAP_CHAR_FORMAT_UINT8) \<and>
   creates (hap_char_target_relative_humidity_create targ_rel_humidity) True (profile_char HAP_CHAR_UUID_TARGET_RELATIVE_HUMIDITY (HAP_CHAR_PERM_PR OR HAP_CHAR_PERM_PW OR HAP_CHAR_PERM_EV) HAP_CHAR_FORMAT_FLOAT) \<and>
   creates (hap_char_target_temperature_create targ_temp) True (profile_char HAP_CHAR_UUID_TARGET_TEMPERATURE (HAP_CHAR_PERM_PR OR HAP_CHAR_PERM_PW OR HAP_CHAR_PERM_EV) HAP_CHAR_FORMAT_FLOAT) \<and>
   creates (hap_char_temperature_display_units_create temp_disp_units) True (profile_char HAP_CHAR_UUID_TEMPERATURE_DISPLAY_UNITS (HAP_CHAR_PERM_PR OR HAP_CHAR_PERM_PW OR HAP_CHAR_PERM_EV) HAP_CHAR_FORMAT_UINT8) \<and>
   creates (hap_char_version_create version) (string_fits version) (profile_char HAP_CHAR_UUID_VERSION HAP_CHAR_PERM_PR HAP_CHAR_FORMAT_STRING) \<and>
   creates (hap_char_security_system_current_state_create security_sys_curr_state) True (profile_char HAP_CHAR_UUID_SECURITY_SYSTEM_CURRENT_STATE (HAP_CHAR_PERM_PR OR HAP_CHAR_PERM_EV) HAP_CHAR_FORMAT_UINT8) \<and>
   creates (hap_char_security_system_target_state_create security_sys_targ_state) True (profile_char HAP_CHAR_UUID_SECURITY_SYSTEM_TARGET_STATE (HAP_CHAR_PERM_PR OR HAP_CHAR_PERM_PW OR HAP_CHAR_PERM_EV) HAP_CHAR_FORMAT_UINT8) \<and>
   creates (hap_char_battery_level_create battery_level) True (profile_char HAP_CHAR_UUID_BATTERY_LEVEL (HAP_CHAR_PERM_PR OR HAP_CHAR_PERM_EV) HAP_CHAR_FORMAT_UINT8) \<and>
   creates (hap_char_carbon_monoxide_detected_create carbon_monoxide_detected) True (profile_char HAP_CHAR_UUID_CARBON_MONOXIDE_DETECTED (HAP_CHAR_PERM_PR OR HAP_CHAR_PERM_EV) HAP_CHAR_FORMAT_UINT8) \<and>
   creates (hap_char_contact_sensor_state_create contact_sensor_state) True (profile_char HAP_CHAR_UUID_CONTACT_SENSOR_STATE (HAP_CHAR_PERM_PR OR HAP_CHAR_PERM_EV) HAP_CHAR_FORMAT_UINT8) \<and>
   creates (hap_char_current_ambient_light_level_create curr_ambient_light_level) True (profile_char HAP_CHAR_UUID_CURRENT_AMBIENT_LIGHT_LEVEL (HAP_CHAR_PERM_PR OR HAP_CHAR_PERM_EV) HAP_CHAR_FORMAT_FLOAT) \<and>
   creates (hap_char_current_horizontal_tilt_angle_create curr_horiz_tilt_angle) True (profile_char HAP_CHAR_UUID_CURRENT_HORIZONTAL_TILT_ANGLE (HAP_CHAR_PERM_PR OR HAP_CHAR_PERM_EV) HAP_CHAR_FORMAT_INT) \<and>
   creates (hap_char_current_position_create curr_pos) True (profile_char HAP_CHAR_UUID_CURRENT_POSITION (HAP_CHAR_PERM_PR OR HAP_CHAR_PERM_EV) HAP_CHAR_FORMAT_UINT8) \<and>
   creates (hap_char_current_vertical_tilt_angle_create curr_vert_tilt_angle) True (profile_char HAP_CHAR_UUID_CURRENT_VERTICAL_TILT_ANGLE (HAP_CHAR_PERM_PR OR HAP_CHAR_PERM_EV) HAP_CHAR_FORMAT_INT) \<and>
   creates (hap_char_hold_position_create hold_pos) True (profile_char HAP_CHAR_UUID_HOLD_POSITION HAP_CHAR_PERM_PW HAP_CHAR_FORMAT_BOOL) \<and>
   creates (hap_char_leak_detected_create leak_detected) True (profile_char HAP_CHAR_UUID_LEAK_DETECTED (HAP_CHAR_PERM_PR OR HAP_CHAR_PERM_EV) HAP_CHAR_FORMAT_UINT8) \<and>
   creates (hap_char_occupancy_detected_create occupancy_detected) True (profile_char HAP_CHAR_UUID_OCCUPANCY_DETECTED (HAP_CHAR_PERM_PR OR HAP_CHAR_PERM_EV) HAP_CHAR_FORMAT_UINT8) \<and>
   creates (hap_char_position_state_create pos_state) True (profile_char HAP_CHAR_UUID_POSITION_STATE (HAP_CHAR_PERM_PR OR HAP_CHAR_PERM_EV) HAP_CHAR_FORMAT_UINT8) \<and>
   creates (hap_char_programmable_switch_event_create programmable_switch_event) True (profile_char HAP_CHAR_UUID_PROGRAMMABLE_SWITCH_EVENT (HAP_CHAR_PERM_PR OR HAP_CHAR_PERM_EV OR HAP_CHAR_PERM_SPECIAL_READ) HAP_CHAR_FORMAT_UINT8) \<and>
   creates (hap_char_status_active_create status_active) True (profile_char HAP_CHAR_UUID_STATUS_ACTIVE (HAP_CHAR_PERM_PR OR HAP_CHAR_PERM_EV) HAP_CHAR_FORMAT_BOOL) \<and>
   creates (hap_char_smoke_detected_create smoke_detected) True (profile_char HAP_CHAR_UUID_SMOKE_DETECTED (HAP_CHAR_PERM_PR OR HAP_CHAR_PERM_EV) HAP_CHAR_FORMAT_UINT8) \<and>
   creates (hap_char_status_fault_create status_fault) True (profile_char HAP_CHAR_UUID_STATUS_FAULT (HAP_CHAR_PERM_PR OR HAP_CHAR_PERM_EV) HAP_CHAR_FORMAT_UINT8) \<and>
   creates (hap_char_status_low_battery_create status_low_battery) True (profile_char HAP_CHAR_UUID_STATUS_LOW_BATTERY (HAP_CHAR_PERM_PR OR HAP_CHAR_PERM_EV) HAP_CHAR_FORMAT_UINT8) \<and>
   creates (hap_char_status_tampered_create status_tampered) True (profile_char HAP_CHAR_UUID_STATUS_TAMPERED (HAP_CHAR_PERM_PR OR HAP_CHAR_PERM_EV) HAP_CHAR_FORMAT_UINT8) \<and>
   creates (hap_char_target_horizontal_tilt_angle_create targ_horiz_tilt_angle) True (profile_char HAP_CHAR_UUID_TARGET_HORIZONTAL_TILT_ANGLE (HAP_CHAR_PERM_PR OR HAP_CHAR_PERM_PW OR HAP_CHAR_PERM_EV) HAP_CHAR_FORMAT_INT) \<and>
   creates (hap_char_target_position_create targ_pos) True (profile_char HAP_CHAR_UUID_TARGET_POSITION (HAP_CHAR_PERM_PR OR HAP_CHAR_PERM_PW OR HAP_CHAR_PERM_EV) HAP_CHAR_FORMAT_UINT8) \<and>
   creates (hap_char_target_vertical_tilt_angle_create targ_vert_tilt_angle) True (profile_char HAP_CHAR_UUID_TARGET_VERTICAL_TILT_ANGLE (HAP_CHAR_PERM_PR OR HAP_CHAR_PERM_PW OR HAP_CHAR_PERM_EV) HAP_CHAR_FORMAT_INT) \<and>
   creates (hap_char_security_system_alarm_type_create security_sys_alarm_type) True (profile_char HAP_CHAR_UUID_STATUS_SECURITY_SYSTEM_ALARM_TYPE (HAP_CHAR_PERM_PR OR HAP_CHAR_PERM_EV) HAP_CHAR_FORMAT_UINT8) \<and>
   creates (hap_char_charging_state_create charging_state) True (profile_char HAP_CHAR_UUID_CHARGING_STATE (HAP_CHAR_PERM_PR OR HAP_CHAR_PERM_EV) HAP_CHAR_FORMAT_UINT8) \<and>
   creates (hap_char_carbon_monoxide_level_create carbon_monoxide_level) True (profile_char HAP_CHAR_UUID_CARBON_MONOXIDE_LEVEL (HAP_CHAR_PERM_PR OR HAP_CHAR_PERM_EV) HAP_CHAR_FORMAT_FLOAT) \<and>
   creates (hap_char_carbon_monoxide_peak_level_create carbon_monoxide_peak_level) True (profile_char HAP_CHAR_UUID_CARBON_MONOXIDE_PEAK_LEVEL (HAP_CHAR_PERM_PR OR HAP_CHAR_PERM_EV) HAP_CHAR_FORMAT_FLOAT) \<and>
   creates (hap_char_carbon_dioxide_detected_create carbon_dioxide_detected) True (profile_char HAP_CHAR_UUID_CARBON_DIOXIDE_DETECTED (HAP_CHAR_PERM_PR OR HAP_CHAR_PERM_EV) HAP_CHAR_FORMAT_UINT8) \<and>
   creates (hap_char_carbon_dioxide_level_create carbon_dioxide_level) True (profile_char HAP_CHAR_UUID_CARBON_DIOXIDE_LEVEL (HAP_CHAR_PERM_PR OR HAP_CHAR_PERM_EV) HAP_CHAR_FORMAT_FLOAT) \<and>
   creates (hap_char_carbon_dioxide_peak_level_create carbon_dioxide_peak_level) True (profile_char HAP_CHAR_UUID_CARBON_DIOXIDE_PEAK_LEVEL (HAP_CHAR_PERM_PR OR HAP_CHAR_PERM_EV) HAP_CHAR_FORMAT_FLOAT) \<and>
   creates (hap_char_air_quality_create air_quality) True (profile_char HAP_CHAR_UUID_AIR_QUALITY (HAP_CHAR_PERM_PR OR HAP_CHAR_PERM_EV) HAP_CHAR_FORMAT_UINT8) \<and>
   creates (hap_char_accessory_flags_create flags) True (profile_char HAP_CHAR_UUID_ACCESSORY_FLAGS (HAP_CHAR_PERM_PR OR HAP_CHAR_PERM_EV) HAP_CHAR_FORMAT_UINT32) \<and>
   creates (hap_char_product_data_create product_data) True (profile_char HAP_CHAR_UUID_PRODUCT_DATA HAP_CHAR_PERM_PR HAP_CHAR_FORMAT_DATA) \<and>
   creates (hap_char_lock_physical_controls_create lock_physical_controls) True (profile_char HAP_CHAR_UUID_LOCK_PHYSICAL_CONTROLS (HAP_CHAR_PERM_PR OR HAP_CHAR_PERM_PW OR HAP_CHAR_PERM_EV) HAP_CHAR_FORMAT_UINT8) \<and>
   creates (hap_char_current_air_purifier_state_create curr_air_purifier_state) True (profile_char HAP_CHAR_UUID_CURRENT_AIR_PURIFIER_STATE (HAP_CHAR_PERM_PR OR HAP_CHAR_PERM_EV) HAP_CHAR_FORMAT_UINT8) \<and>
   creates (hap_char_current_slat_state_create curr_slat_state) True (profile_char HAP_CHAR_UUID_CURRENT_SLAT_STATE (HAP_CHAR_PERM_PR OR HAP_CHAR_PERM_EV) HAP_CHAR_FORMAT_UINT8) \<and>
   creates (hap_char_slat_type_create slat_type) True (profile_char HAP_CHAR_UUID_SLAT_TYPE HAP_CHAR_PERM_PR HAP_CHAR_FORMAT_UINT8) \<and>
   creates (hap_char_filter_life_level_create filter_life_level) True (profile_char HAP_CHAR_UUID_FILTER_LIFE_LEVEL (HAP_CHAR_PERM_PR OR HAP_CHAR_PERM_EV) HAP_CHAR_FORMAT_FLOAT) \<and>
   creates (hap_char_filter_change_indication_create filter_change_indication) True (profile_char HAP_CHAR_UUID_FILTER_CHANGE_INDICATION (HAP_CHAR_PERM_PR OR HAP_CHAR_PERM_EV) HAP_CHAR_FORMAT_UINT8) \<and>
   creates (hap_char_reset_filter_indication_create reset_filter_indication) True (profile_char HAP_CHAR_UUID_RESET_FILTER_INDICATION HAP_CHAR_PERM_PW HAP_CHAR_FORMAT_UINT8) \<and>
   creates (hap_char_target_air_purifier_state_create targ_air_purifier_state) True (profile_char HAP_CHAR_UUID_TARGET_AIR_PURIFIER_STATE (HAP_CHAR_PERM_PR OR HAP_CHAR_PERM_PW OR HAP_CHAR_PERM_EV) HAP_CHAR_FORMAT_UINT8) \<and>
   creates (hap_char_target_fan_state_create targ_fan_state) True (profile_char HAP_CHAR_UUID_TARGET_FAN_STATE (HAP_CHAR_PERM_PR OR HAP_CHAR_PERM_PW OR HAP_CHAR_PERM_EV) HAP_CHAR_FORMAT_UINT8) \<and>
   creates (hap_char_current_fan_state_create curr_fan_state) True (profile_char HAP_CHAR_UUID_CURRENT_FAN_STATE (HAP_CHAR_PERM_PR OR HAP_CHAR_PERM_EV) HAP_CHAR_FORMAT_UINT8) \<and>
   creates (hap_char_active_create active) True (profile_char HAP_CHAR_UUID_ACTIVE (HAP_CHAR_PERM_PR OR HAP_CHAR_PERM_PW OR HAP_CHAR_PERM_EV) HAP_CHAR_FORMAT_UINT8) \<and>
   creates (hap_char_swing_mode_create swing_mode) True (profile_char HAP_CHAR_UUID_SWING_MODE (HAP_CHAR_PERM_PR OR HAP_CHAR_PERM_PW OR HAP_CHAR_PERM_EV) HAP_CHAR_FORMAT_UINT8) \<and>
   creates (hap_char_current_tilt_angle_create curr_tilt_angle) True (profile_char HAP_CHAR_UUID_CURRENT_TILT_ANGLE (HAP_CHAR_PERM_PR OR HAP_CHAR_PERM_EV) HAP_CHAR_FORMAT_INT) \<and>
   creates (hap_char_target_tilt_angle_create targ_tilt_angle) True (profile_char HAP_CHAR_UUID_TARGET_TILT_ANGLE (HAP_CHAR_PERM_PR OR HAP_CHAR_PERM_PW OR HAP_CHAR_PERM_EV) HAP_CHAR_FORMAT_INT) \<and>
   creates (hap_char_ozone_density_create ozone_density) True (profile_char HAP_CHAR_UUID_OZONE_DENSITY (HAP_CHAR_PERM_PR OR HAP_CHAR_PERM_EV) HAP_CHAR_FORMAT_FLOAT) \<and>
   creates (hap_char_nitrogen_dioxide_density_create nitrogen_dioxide_density) True (profile_char HAP_CHAR_UUID_NITROGEN_DIOXIDE_DENSITY (HAP_CHAR_PERM_PR OR HAP_CHAR_PERM_EV) HAP_CHAR_FORMAT_FLOAT) \<and>
   creates (hap_char_sulphur_dioxide_density_create sulphur_dioxide_density) True (profile_char HAP_CHAR_UUID_SULPHUR_DIOXIDE_DENSITY (HAP_CHAR_PERM_PR OR HAP_CHAR_PERM_EV) HAP_CHAR_FORMAT_FLOAT) \<and>
   creates (hap_char_pm_2_5_density_create pm_2_5_density) True (profile_char HAP_CHAR_UUID_PM_2_5_DENSITY (HAP_CHAR_PERM_PR OR HAP_CHAR_PERM_EV) HAP_CHAR_FORMAT_FLOAT) \<and>
   creates (hap_char_pm_10_density_create pm_10_density) True (profile_char HAP_CHAR_UUID_PM_10_DENSITY (HAP_CHAR_PERM_PR OR HAP_CHAR_PERM_EV) HAP_CHAR_FORMAT_FLOAT) \<and>
   creates (hap_char_voc_density_create voc_density) True (profile_char HAP_CHAR_UUID_VOC_DENSITY (HAP_CHAR_PERM_PR OR HAP_CHAR_PERM_EV) HAP_CHAR_FORMAT_FLOAT) \<and>
   creates (hap_char_service_label_index_create service_label_index) True (profile_char HAP_CHAR_UUID_SERVICE_LABEL_INDEX HAP_CHAR_PERM_PR HAP_CHAR_FORMAT_UINT8) \<and>
   creates (hap_char_service_label_namespace_create service_label_namespace) True (profile_char HAP_CHAR_UUID_SERVICE_LABEL_NAMESPACE HAP_CHAR_PERM_PR HAP_CHAR_FORMAT_UINT8) \<and>
   creates (hap_char_color_temperature_create color_temp) True (profile_char HAP_CHAR_UUID_COLOR_TEMPERATURE (HAP_CHAR_PERM_PR OR HAP_CHAR_PERM_PW OR HAP_CHAR_PERM_EV) HAP_CHAR_FORMAT_UINT32) \<and>
   creates (hap_char_current_heater_cooler_state_create curr_heater_cooler_state) True (profile_char HAP_CHAR_UUID_CURRENT_HEATER_COOLER_STATE (HAP_CHAR_PERM_PR OR HAP_CHAR_PERM_EV) HAP_CHAR_FORMAT_UINT8) \<and>
   creates (hap_char_target_heater_cooler_state_create targ_heater_cooler_state) True (profile_char HAP_CHAR_UUID_TARGET_HEATER_COOLER_STATE (HAP_CHAR_PERM_PR OR HAP_CHAR_PERM_PW OR HAP_CHAR_PERM_EV) HAP_CHAR_FORMAT_UINT8) \<and>
   creates (hap_char_current_humidifier_dehumidifier_state_create curr_humidifier_dehumidifier_state) True (profile_char HAP_CHAR_UUID_CURRENT_HUMIDIFIER_DEHUMIDIFIER_STATE (HAP_CHAR_PERM_PR OR HAP_CHAR_PERM_EV) HAP_CHAR_FORMAT_UINT8) \<and>
   creates (hap_char_target_humidifier_dehumidifier_state_create targ_humidifier_dehumidifier_state) True (profile_char HAP_CHAR_UUID_TARGET_HUMIDIFIER_DEHUMIDIFIER_STATE (HAP_CHAR_PERM_PR OR HAP_CHAR_PERM_PW OR HAP_CHAR_PERM_EV) HAP_CHAR_FORMAT_UINT8) \<and>
   creates (hap_char_water_level_create water_level) True (profile_char HAP_CHAR_UUID_WATER_LEVEL (HAP_CHAR_PERM_PR OR HAP_CHAR_PERM_EV) HAP_CHAR_FORMAT_FLOAT) \<and>
   creates (hap_char_relative_humidity_dehumidifier_threshold_create rel_humidity_dehumidifier_threshold) True (profile_char HAP_CHAR_UUID_RELATIVE_HUMIDITY_DEHUMIDIFIER_THRESHOLD (HAP_CHAR_PERM_PR OR HAP_CHAR_PERM_PW OR HAP_CHAR_PERM_EV) HAP_CHAR_FORMAT_FLOAT) \<and>
   creates (hap_char_relative_humidity_humidifier_threshold_create rel_humidity_humidifier_threshold) True (profile_char HAP_CHAR_UUID_RELATIVE_HUMIDITY_HUMIDIFIER_THRESHOLD (HAP_CHAR_PERM_PR OR HAP_CHAR_PERM_PW OR HAP_CHAR_PERM_EV) HAP_CHAR_FORMAT_FLOAT) \<and>
   creates (hap_char_program_mode_create prog_mode) True (profile_char HAP_CHAR_UUID_PROGRAM_MODE (HAP_CHAR_PERM_PR OR HAP_CHAR_PERM_EV) HAP_CHAR_FORMAT_UINT8) \<and>
   creates (hap_char_in_use_create in_use) True (profile_char HAP_CHAR_UUID_IN_USE (HAP_CHAR_PERM_PR OR HAP_CHAR_PERM_EV) HAP_CHAR_FORMAT_UINT8) \<and>
   creates (hap_char_set_duration_create set_duration) True (profile_char HAP_CHAR_UUID_SET_DURATION (HAP_CHAR_PERM_PR OR HAP_CHAR_PERM_PW OR HAP_CHAR_PERM_EV) HAP_CHAR_FORMAT_UINT32) \<and>
   creates (hap_char_remaining_duration_create remaining_duration) True (profile_char HAP_CHAR_UUID_REMAINING_DURATION (HAP_CHAR_PERM_PR OR HAP_CHAR_PERM_EV) HAP_CHAR_FORMAT_UINT32) \<and>
   creates (hap_char_valve_type_create valve_type) True (profile_char HAP_CHAR_UUID_VALVE_TYPE (HAP_CHAR_PERM_PR OR HAP_CHAR_PERM_EV) HAP_CHAR_FORMAT_UINT8) \<and>
   creates (hap_char_is_configured_create is_configured) True (profile_char HAP_CHAR_UUID_IS_CONFIGURED (HAP_CHAR_PERM_PR OR HAP_CHAR_PERM_PW OR HAP_CHAR_PERM_EV) HAP_CHAR_FORMAT_UINT8) \<and>
   creates (hap_char_status_jammed_create status_jammed) True (profile_char HAP_CHAR_UUID_STATUS_JAMMED (HAP_CHAR_PERM_PR OR HAP_CHAR_PERM_EV) HAP_CHAR_FORMAT_UINT8) \<and>
   creates (hap_char_administrator_only_access_create administrator_only_access) True (profile_char HAP_CHAR_UUID_ADMINISTRATOR_ONLY_ACCESS (HAP_CHAR_PERM_PR OR HAP_CHAR_PERM_PW OR HAP_CHAR_PERM_EV) HAP_CHAR_FORMAT_BOOL) \<and>
   creates (hap_char_lock_control_point_create lock_control_point) True (profile_char HAP_CHAR_UUID_LOCK_CONTROL_POINT HAP_CHAR_PERM_PW HAP_CHAR_FORMAT_TLV8) \<and>
   creates (hap_char_lock_last_known_action_create lock_last_known_action) True (profile_char HAP_CHAR_UUID_LOCK_LAST_KNOWN_ACTION (HAP_CHAR_PERM_PR OR HAP_CHAR_PERM_EV) HAP_CHAR_FORMAT_UINT8) \<and>
   creates (hap_char_lock_management_auto_security_timeout_create lock_management_auto_security_timeout) True (profile_char HAP_CHAR_UUID_LOCK_MANAGEMENT_AUTO_SECURITY_TIMEOUT (HAP_CHAR_PERM_PR OR HAP_CHAR_PERM_PW OR HAP_CHAR_PERM_EV) HAP_CHAR_FORMAT_UINT32) \<and>
   creates (hap_char_logs_create logs) True (profile_char HAP_CHAR_UUID_LOGS (HAP_CHAR_PERM_PR OR HAP_CHAR_PERM_EV) HAP_CHAR_FORMAT_TLV8) \<and>
   creates (hap_char_air_particulate_density_create air_particulate_density) True (profile_char HAP_CHAR_UUID_AIR_PARTICULATE_DENSITY (HAP_CHAR_PERM_PR OR HAP_CHAR_PERM_EV) HAP_CHAR_FORMAT_FLOAT) \<and>
   creates (hap_char_air_particulate_size_create air_particulate_size) True (profile_char HAP_CHAR_UUID_AIR_PARTICULATE_SIZE (HAP_CHAR_PERM_PR OR HAP_CHAR_PERM_EV) HAP_CHAR_FORMAT_UINT8)"
  by (intro conjI char_ctor_ok)

end
