(* ===== verification/Apple_Servs.thy ===== *)
theory Apple_Servs
  imports Apple_Chars
begin

text \<open>
  The services of the HomeKit profile (\<open>esp_hap_apple_profiles/src/hap_apple_servs.c\<close>): their
  types (\<open>hap_apple_servs.h\<close>) and the 37 constructors, all of the shape \<open>serv_build\<close>.
\<close>

section \<open>Types\<close>

definition HAP_SERV_UUID_ACCESSORY_INFORMATION :: string where "HAP_SERV_UUID_ACCESSORY_INFORMATION = ''3E''"
definition HAP_SERV_UUID_PROTOCOL_INFORMATION :: string where "HAP_SERV_UUID_PROTOCOL_INFORMATION = ''A2''"
definition HAP_SERV_UUID_FAN :: string where "HAP_SERV_UUID_FAN = ''40''"
definition HAP_SERV_UUID_GARAGE_DOOR_OPENER :: string where "HAP_SERV_UUID_GARAGE_DOOR_OPENER = ''41''"
definition HAP_SERV_UUID_LIGHTBULB :: string where "HAP_SERV_UUID_LIGHTBULB = ''43''"
definition HAP_SERV_UUID_LOCK_MANAGEMENT :: string where "HAP_SERV_UUID_LOCK_MANAGEMENT = ''44''"
definition HAP_SERV_UUID_LOCK_MECHANISM :: string where "HAP_SERV_UUID_LOCK_MECHANISM = ''45''"
definition HAP_SERV_UUID_SWITCH :: string where "HAP_SERV_UUID_SWITCH = ''49''"
definition HAP_SERV_UUID_OUTLET :: string where "HAP_SERV_UUID_OUTLET = ''47''"
definition HAP_SERV_UUID_THERMOSTAT :: string where "HAP_SERV_UUID_THERMOSTAT = ''4A''"
definition HAP_SERV_UUID_AIR_QUALITY_SENSOR :: string where "HAP_SERV_UUID_AIR_QUALITY_SENSOR = ''8D''"
definition HAP_SERV_UUID_SECURITY_SYSTEM :: string where "HAP_SERV_UUID_SECURITY_SYSTEM = ''7E''"
definition HAP_SERV_UUID_CARBON_MONOXIDE_SENSOR :: string where "HAP_SERV_UUID_CARBON_MONOXIDE_SENSOR = ''7F''"
definition HAP_SERV_UUID_CONTACT_SENSOR :: string where "HAP_SERV_UUID_CONTACT_SENSOR = ''80''"
definition HAP_SERV_UUID_DOOR :: string where "HAP_SERV_UUID_DOOR = ''81''"
definition HAP_SERV_UUID_HUMIDITY_SENSOR :: string where "HAP_SERV_UUID_HUMIDITY_SENSOR = ''82''"
definition HAP_SERV_UUID_LEAK_SENSOR :: string where "HAP_SERV_UUID_LEAK_SENSOR = ''83''"
definition HAP_SERV_UUID_LIGHT_SENSOR :: string where "HAP_SERV_UUID_LIGHT_SENSOR = ''84''"
definition HAP_SERV_UUID_MOTION_SENSOR :: string where "HAP_SERV_UUID_MOTION_SENSOR = ''85''"
definition HAP_SERV_UUID_OCCUPANCY_SENSOR :: string where "HAP_SERV_UUID_OCCUPANCY_SENSOR = ''86''"
definition HAP_SERV_UUID_SMOKE_SENSOR :: string where "HAP_SERV_UUID_SMOKE_SENSOR = ''87''"
definition HAP_SERV_UUID_STATLESS_PROGRAMMABLE_SWITCH :: string where "HAP_SERV_UUID_STATLESS_PROGRAMMABLE_SWITCH = ''89''"
definition HAP_SERV_UUID_TEMPERATURE_SENSOR :: string where "HAP_SERV_UUID_TEMPERATURE_SENSOR = ''8A''"
definition HAP_SERV_UUID_WINDOW :: string where "HAP_SERV_UUID_WINDOW = ''8B''"
definition HAP_SERV_UUID_WINDOW_COVERING :: string where "HAP_SERV_UUID_WINDOW_COVERING = ''8C''"
definition HAP_SERV_UUID_BATTERY_SERVICE :: string where "HAP_SERV_UUID_BATTERY_SERVICE = ''96''"
definition HAP_SERV_UUID_CARBON_DIOXIDE_SENSOR :: string where "HAP_SERV_UUID_CARBON_DIOXIDE_SENSOR = ''97''"
definition HAP_SERV_UUID_FAN_V2 :: string where "HAP_SERV_UUID_FAN_V2 = ''B7''"
definition HAP_SERV_UUID_SLAT :: string where "HAP_SERV_UUID_SLAT = ''B9''"
definition HAP_SERV_UUID_FILTER_MAINTENANCE :: string where "HAP_SERV_UUID_FILTER_MAINTENANCE = ''BA''"
definition HAP_SERV_UUID_AIR_PURIFIER :: string where "HAP_SERV_UUID_AIR_PURIFIER = ''BB''"
definition HAP_SERV_UUID_HEATER_COOLER :: string where "HAP_SERV_UUID_HEATER_COOLER = ''BC''"
definition HAP_SERV_UUID_HUMIDIFIER_DEHUMIDIFIER :: string where "HAP_SERV_UUID_HUMIDIFIER_DEHUMIDIFIER = ''BD''"
definition HAP_SERV_UUID_SERVICE_LABEL :: string where "HAP_SERV_UUID_SERVICE_LABEL = ''CC''"
definition HAP_SERV_UUID_IRRIGATION_SYSTEM :: string where "HAP_SERV_UUID_IRRIGATION_SYSTEM = ''CF''"
definition HAP_SERV_UUID_VALVE :: string where "HAP_SERV_UUID_VALVE = ''D0''"
definition HAP_SERV_UUID_FAUCET :: string where "HAP_SERV_UUID_FAUCET = ''D7''"

section \<open>Constructors\<close>

definition hap_serv_accessory_information_create :: "hap_acc_cfg \<Rightarrow> 's char_ctor" where
  "hap_serv_accessory_information_create cfg st = serv_build HAP_SERV_UUID_ACCESSORY_INFORMATION
      ([hap_char_name_create (cfg_name cfg),
       hap_char_model_create (cfg_model cfg),
       hap_char_manufacturer_create (cfg_manufacturer cfg),
       hap_char_serial_number_create (cfg_serial_num cfg),
       hap_char_firmware_revision_create (cfg_fw_rev cfg),
       hap_char_identify_create]
       @ (if cfg_hw_rev cfg \<noteq> None then [hap_char_hardware_revision_create (cfg_hw_rev cfg)] else [])) st"

definition hap_serv_protocol_information_create :: "string option \<Rightarrow> 's char_ctor" where
  "hap_serv_protocol_information_create version st = serv_build HAP_SERV_UUID_PROTOCOL_INFORMATION
      [hap_char_version_create version] st"

definition hap_serv_fan_create :: "bool \<Rightarrow> 's char_ctor" where
  "hap_serv_fan_create on st = serv_build HAP_SERV_UUID_FAN
      [hap_char_on_create on] st"

definition hap_serv_garage_door_opener_create :: "byte \<Rightarrow> byte \<Rightarrow> bool \<Rightarrow> 's char_ctor" where
  "hap_serv_garage_door_opener_create curr_door_state targ_door_state obstr_detect st = serv_build HAP_SERV_UUID_GARAGE_DOOR_OPENER
      [hap_char_current_door_state_create curr_door_state,
       hap_char_target_door_state_create targ_door_state,
       hap_char_obstruction_detect_create obstr_detect] st"

definition hap_serv_lightbulb_create :: "bool \<Rightarrow> 's char_ctor" where
  "hap_serv_lightbulb_create on st = serv_build HAP_SERV_UUID_LIGHTBULB
      [hap_char_on_create on] st"

definition hap_serv_lock_management_create :: "hap_data_val option \<Rightarrow> string option \<Rightarrow> 's char_ctor" where
  "hap_serv_lock_management_create lock_control_point version st = serv_build HAP_SERV_UUID_LOCK_MANAGEMENT
      [hap_char_lock_control_point_create lock_control_point,
       hap_char_version_create version] st"

definition hap_serv_lock_mechanism_create :: "byte \<Rightarrow> byte \<Rightarrow> 's char_ctor" where
  "hap_serv_lock_mechanism_create lock_curr_state lock_targ_state st = serv_build HAP_SERV_UUID_LOCK_MECHANISM
      [hap_char_lock_current_state_create lock_curr_state,
       hap_char_lock_target_state_create lock_targ_state] st"

definition hap_serv_outlet_create :: "bool \<Rightarrow> bool \<Rightarrow> 's char_ctor" where
  "hap_serv_outlet_create on outlet_in_use st = serv_build HAP_SERV_UUID_OUTLET
      [hap_char_on_create on,
       hap_char_outlet_in_use_create outlet_in_use] st"

definition hap_serv_switch_create :: "bool \<Rightarrow> 's char_ctor" where
  "hap_serv_switch_create on st = serv_build HAP_SERV_UUID_SWITCH
      [hap_char_on_create on] st"

definition hap_serv_thermostat_create :: "byte \<Rightarrow> byte \<Rightarrow> u32 \<Rightarrow> u32 \<Rightarrow> byte \<Rightarrow> 's char_ctor" where
  "hap_serv_thermostat_create curr_heating_cooling_state targ_heating_cooling_state curr_temp targ_temp temp_disp_units st = serv_build HAP_SERV_UUID_THERMOSTAT
      [hap_char_current_heating_cooling_state_create curr_heating_cooling_state,
       hap_char_target_heating_cooling_state_create targ_heating_cooling_state,
       hap_char_current_temperature_create curr_temp,
       hap_char_target_temperature_create targ_temp,
       hap_char_temperature_display_units_create temp_disp_units] st"

definition hap_serv_air_quality_sensor_create :: "byte \<Rightarrow> 's char_ctor" where
  "hap_serv_air_quality_sensor_create air_quality st = serv_build HAP_SERV_UUID_AIR_QUALITY_SENSOR
      [hap_char_air_quality_create air_quality] st"

definition hap_serv_security_system_create :: "byte \<Rightarrow> byte \<Rightarrow> 's char_ctor" where
  "hap_serv_security_system_create security_sys_curr_state security_sys_targ_state st = serv_build HAP_SERV_UUID_SECURITY_SYSTEM
      [hap_char_security_system_current_state_create security_sys_curr_state,
       hap_char_security_system_target_state_create security_sys_targ_state] st"

definition hap_serv_carbon_monoxide_sensor_create :: "byte \<Rightarrow> 's char_ctor" where
  "hap_serv_carbon_monoxide_sensor_create carbon_monoxide_detected st = serv_build HAP_SERV_UUID_CARBON_MONOXIDE_SENSOR
      [hap_char_carbon_monoxide_detected_create carbon_monoxide_detected] st"

definition hap_serv_contact_sensor_create :: "byte \<Rightarrow> 's char_ctor" where
  "hap_serv_contact_sensor_create contact_sensor_state st = serv_build HAP_SERV_UUID_CONTACT_SENSOR
      [hap_char_contact_sensor_state_create contact_sensor_state] st"

definition hap_serv_door_create :: "byte \<Rightarrow> byte \<Rightarrow> byte \<Rightarrow> 's char_ctor" where
  "hap_serv_door_create curr_pos targ_pos pos_state st = serv_build HAP_SERV_UUID_DOOR
      [hap_char_current_position_create curr_pos,
       hap_char_target_position_create targ_pos,
       hap_char_position_state_create pos_state] st"

definition hap_serv_humidity_sensor_create :: "u32 \<Rightarrow> 's char_ctor" where
  "hap_serv_humidity_sensor_create curr_rel_humidity st = serv_build HAP_SERV_UUID_HUMIDITY_SENSOR
      [hap_char_current_relative_humidity_create curr_rel_humidity] st"

definition hap_serv_leak_sensor_create :: "byte \<Rightarrow> 's char_ctor" where
  "hap_serv_leak_sensor_create leak_detected st = serv_build HAP_SERV_UUID_LEAK_SENSOR
      [hap_char_leak_detected_create leak_detected] st"

definition hap_serv_light_sensor_create :: "u32 \<Rightarrow> 's char_ctor" where
  "hap_serv_light_sensor_create curr_ambient_light_level st = serv_build HAP_SERV_UUID_LIGHT_SENSOR
      [hap_char_current_ambient_light_level_create curr_ambient_light_level] st"

definition hap_serv_motion_sensor_create :: "bool \<Rightarrow> 's char_ctor" where
  "hap_serv_motion_sensor_create motion_detected st = serv_build HAP_SERV_UUID_MOTION_SENSOR
      [hap_char_motion_detected_create motion_detected] st"

definition hap_serv_occupancy_sensor_create :: "byte \<Rightarrow> 's char_ctor" where
  "hap_serv_occupancy_sensor_create occupancy_detected st = serv_build HAP_SERV_UUID_OCCUPANCY_SENSOR
      [hap_char_occupancy_detected_create occupancy_detected] st"

definition hap_serv_smoke_sensor_create :: "byte \<Rightarrow> 's char_ctor" where
  "hap_serv_smoke_sensor_create smoke_detected st = serv_build HAP_SERV_UUID_SMOKE_SENSOR
      [hap_char_smoke_detected_create smoke_detected] st"

definition hap_serv_stateless_programmable_switch_create :: "byte \<Rightarrow> 's char_ctor" where
  "hap_serv_stateless_programmable_switch_create programmable_switch_event st = serv_build HAP_SERV_UUID_STATLESS_PROGRAMMABLE_SWITCH
      [hap_char_programmable_switch_event_create programmable_switch_event] st"

definition hap_serv_temperature_sensor_create :: "u32 \<Rightarrow> 's char_ctor" where
  "hap_serv_temperature_sensor_create curr_temp st = serv_build HAP_SERV_UUID_TEMPERATURE_SENSOR
      [hap_char_current_temperature_create curr_temp] st"

definition hap_serv_window_create :: "byte \<Rightarrow> byte \<Rightarrow> byte \<Rightarrow> 's char_ctor" where
  "hap_serv_window_create curr_pos targ_pos pos_state st = serv_build HAP_SERV_UUID_WINDOW
      [hap_char_current_position_create curr_pos,
       hap_char_target_position_create targ_pos,
       hap_char_position_state_create pos_state] st"

definition hap_serv_window_covering_create :: "byte \<Rightarrow> byte \<Rightarrow> byte \<Rightarrow> 's char_ctor" where
  "hap_serv_window_covering_create targ_pos curr_pos pos_state st = serv_build HAP_SERV_UUID_WINDOW_COVERING
      [hap_char_target_position_create targ_pos,
       hap_char_current_position_create curr_pos,
       hap_char_position_state_create pos_state] st"

definition hap_serv_battery_service_create :: "byte \<Rightarrow> byte \<Rightarrow> byte \<Rightarrow> 's char_ctor" where
  "hap_serv_battery_service_create battery_level charging_state status_low_battery st = serv_build HAP_SERV_UUID_BATTERY_SERVICE
      [hap_char_battery_level_create battery_level,
       hap_char_charging_state_create charging_state,
       hap_char_status_low_battery_create status_low_battery] st"

definition hap_serv_carbon_dioxide_sensor_create :: "byte \<Rightarrow> 's char_ctor" where
  "hap_serv_carbon_dioxide_sensor_create carbon_dioxide_detected st = serv_build HAP_SERV_UUID_CARBON_DIOXIDE_SENSOR
      [hap_char_carbon_dioxide_detected_create carbon_dioxide_detected] st"

definition hap_serv_fan_v2_create :: "byte \<Rightarrow> 's char_ctor" where
  "hap_serv_fan_v2_create active st = serv_build HAP_SERV_UUID_FAN_V2
      [hap_char_active_create active] st"

definition hap_serv_slat_create :: "byte \<Rightarrow> byte \<Rightarrow> 's char_ctor" where
  "hap_serv_slat_create curr_slat_state slat_type st = serv_build HAP_SERV_UUID_SLAT
      [hap_char_current_slat_state_create curr_slat_state,
       hap_char_slat_type_create slat_type] st"

definition hap_serv_filter_maintenance_create :: "byte \<Rightarrow> 's char_ctor" where
  "hap_serv_filter_maintenance_create filter_change_indication st = serv_build HAP_SERV_UUID_FILTER_MAINTENANCE
      [hap_char_filter_change_indication_create filter_change_indication] st"

definition hap_serv_air_purifier_create :: "byte \<Rightarrow> byte \<Rightarrow> byte \<Rightarrow> 's char_ctor" where
  "hap_serv_air_purifier_create active curr_air_purifier_state targ_air_purifier_state st = serv_build HAP_SERV_UUID_AIR_PURIFIER
      [hap_char_active_create active,
       hap_char_current_air_purifier_state_create curr_air_purifier_state,
       hap_char_target_air_purifier_state_create targ_air_purifier_state] st"

definition hap_serv_heater_cooler_create :: "byte \<Rightarrow> u32 \<Rightarrow> byte \<Rightarrow> byte \<Rightarrow> 's char_ctor" where
  "hap_serv_heater_cooler_create active curr_temp curr_heater_cooler_state targ_heater_cooler_state st = serv_build HAP_SERV_UUID_HEATER_COOLER
      [hap_char_active_create active,
       hap_char_current_temperature_create curr_temp,
       hap_char_current_heater_cooler_state_create curr_heater_cooler_state,
       hap_char_target_heater_cooler_state_create targ_heater_cooler_state] st"

definition hap_serv_humidifier_dehumidifier_create :: "byte \<Rightarrow> u32 \<Rightarrow> byte \<Rightarrow> byte \<Rightarrow> 's char_ctor" where
  "hap_serv_humidifier_dehumidifier_create active curr_rel_humidity curr_humid_dehumid_state targ_humid_dehumid_state st = serv_build HAP_SERV_UUID_HUMIDIFIER_DEHUMIDIFIER
      [hap_char_active_create active,
       hap_char_current_relative_humidity_create curr_rel_humidity,
       hap_char_current_humidifier_dehumidifier_state_create curr_humid_dehumid_state,
       hap_char_target_humidifier_dehumidifier_state_create targ_humid_dehumid_state] st"

definition hap_serv_service_label_create :: "byte \<Rightarrow> 's char_ctor" where
  "hap_serv_service_label_create service_label_namespace st = serv_build HAP_SERV_UUID_SERVICE_LABEL
      [hap_char_service_label_namespace_create service_label_namespace] st"

definition hap_serv_irrigation_system_create :: "byte \<Rightarrow> byte \<Rightarrow> byte \<Rightarrow> 's char_ctor" where
  "hap_serv_irrigation_system_create active prog_mode in_use st = serv_build HAP_SERV_UUID_IRRIGATION_SYSTEM
      [hap_char_active_create active,
       hap_char_program_mode_create prog_mode,
       hap_char_in_use_create in_use] st"

definition hap_serv_valve_create :: "byte \<Rightarrow> byte \<Rightarrow> byte \<Rightarrow> 's char_ctor" where
  "hap_serv_valve_create active in_use valve_type st = serv_build HAP_SERV_UUID_VALVE
      [hap_char_active_create active,
       hap_char_in_use_create in_use,
       hap_char_valve_type_create valve_type] st"

definition hap_serv_faucet_create :: "byte \<Rightarrow> 's char_ctor" where
  "hap_serv_faucet_create active st = serv_build HAP_SERV_UUID_FAUCET
      [hap_char_active_create active] st"

section \<open>What the constructors make\<close>

text \<open>
  \<open>makes_service mk uuid specs\<close>: on any heap, \<open>mk\<close> returns NULL with the heap as before, for
  want of memory unless an argument is not valid, or a fresh service of type \<open>uuid\<close> whose
  characteristics have the types in \<open>specs\<close>, in order and each type once.
\<close>

definition makes_service :: "'s char_ctor \<Rightarrow> string \<Rightarrow> (bool \<times> string) list \<Rightarrow> bool" where
  "makes_service mk uuid specs \<longleftrightarrow> distinct (map snd specs) \<and>
     (\<forall>st. heap_ok st \<longrightarrow>
        (\<exists>n \<ge> next_addr st. mk st = Some (None, st\<lparr>next_addr := n\<rparr>) \<and>
           (list_all fst specs \<longrightarrow> out_of_memory st n)) \<or>
        (\<exists>s cs st'. mk st = Some (Some s, st') \<and> built st st' s uuid cs \<and> heap_ok st' \<and>
           char_uuids st' cs = map snd specs))"

lemma makes_serviceI:
  assumes "list_all2 (\<lambda>mk vu. creates mk (fst vu) (\<lambda>ch. c_type_uuid ch = snd vu)) mks specs"
    and "distinct (map snd specs)"
  shows "makes_service (serv_build uuid mks) uuid specs"
  using serv_build_effect [OF _ assms(1)] assms(2) by (simp add: makes_service_def)

lemma ctor_uuid:
  assumes "creates mk valid (profile_char u perms fmt)"
  shows "creates mk valid (\<lambda>ch. c_type_uuid ch = u)"
  using assms by (rule creates_mono) (rule profile_char_uuid)

lemmas ctor_uuids = char_ctor_ok [THEN ctor_uuid]

lemma hap_serv_accessory_information_create_ok:
  "makes_service (hap_serv_accessory_information_create cfg) HAP_SERV_UUID_ACCESSORY_INFORMATION
      ([(string_fits (cfg_name cfg), HAP_CHAR_UUID_NAME),
       (string_fits (cfg_model cfg), HAP_CHAR_UUID_MODEL),
       (string_fits (cfg_manufacturer cfg), HAP_CHAR_UUID_MANUFACTURER),
       (string_fits (cfg_serial_num cfg), HAP_CHAR_UUID_SERIAL_NUMBER),
       (string_fits (cfg_fw_rev cfg), HAP_CHAR_UUID_FIRMWARE_REVISION),
       (True, HAP_CHAR_UUID_IDENTIFY)] @
       (if cfg_hw_rev cfg \<noteq> None then [(string_fits (cfg_hw_rev cfg), HAP_CHAR_UUID_HARDWARE_REVISION)] else []))"
  unfolding hap_serv_accessory_information_create_def
  by (rule makes_serviceI) (simp_all add: ctor_uuids, (simp add: char_uuid_defs)?)

lemma hap_serv_protocol_information_create_ok:
  "makes_service (hap_serv_protocol_information_create version) HAP_SERV_UUID_PROTOCOL_INFORMATION
      [(string_fits version, HAP_CHAR_UUID_VERSION)]"
  unfolding hap_serv_protocol_information_create_def
  by (rule makes_serviceI) (simp_all add: ctor_uuids, (simp add: char_uuid_defs)?)

lemma hap_serv_fan_create_ok:
  "makes_service (hap_serv_fan_create on) HAP_SERV_UUID_FAN
      [(True, HAP_CHAR_UUID_ON)]"
  unfolding hap_serv_fan_create_def
  by (rule makes_serviceI) (simp_all add: ctor_uuids, (simp add: char_uuid_defs)?)

lemma hap_serv_garage_door_opener_create_ok:
  "makes_service (hap_serv_garage_door_opener_create curr_door_state targ_door_state obstr_detect) HAP_SERV_UUID_GARAGE_DOOR_OPENER
      [(True, HAP_CHAR_UUID_CURRENT_DOOR_STATE),
       (True, HAP_CHAR_UUID_TARGET_DOOR_STATE),
       (True, HAP_CHAR_UUID_OBSTRUCTION_DETECTED)]"
  unfolding hap_serv_garage_door_opener_create_def
  by (rule makes_serviceI) (simp_all add: ctor_uuids, (simp add: char_uuid_defs)?)

lemma hap_serv_lightbulb_create_ok:
  "makes_service (hap_serv_lightbulb_create on) HAP_SERV_UUID_LIGHTBULB
      [(True, HAP_CHAR_UUID_ON)]"
  unfolding hap_serv_lightbulb_create_def
  by (rule makes_serviceI) (simp_all add: ctor_uuids, (simp add: char_uuid_defs)?)

lemma hap_serv_lock_management_create_ok:
  "makes_service (hap_serv_lock_management_create lock_control_point version) HAP_SERV_UUID_LOCK_MANAGEMENT
      [(True, HAP_CHAR_UUID_LOCK_CONTROL_POINT),
       (string_fits version, HAP_CHAR_UUID_VERSION)]"
  unfolding hap_serv_lock_management_create_def
  by (rule makes_serviceI) (simp_all add: ctor_uuids, (simp add: char_uuid_defs)?)

lemma hap_serv_lock_mechanism_create_ok:
  "makes_service (hap_serv_lock_mechanism_create lock_curr_state lock_targ_state) HAP_SERV_UUID_LOCK_MECHANISM
      [(True, HAP_CHAR_UUID_LOCK_CURRENT_STATE),
       (True, HAP_CHAR_UUID_LOCK_TARGET_STATE)]"
  unfolding hap_serv_lock_mechanism_create_def
  by (rule makes_serviceI) (simp_all add: ctor_uuids, (simp add: char_uuid_defs)?)

lemma hap_serv_outlet_create_ok:
  "makes_service (hap_serv_outlet_create on outlet_in_use) HAP_SERV_UUID_OUTLET
      [(True, HAP_CHAR_UUID_ON),
       (True, HAP_CHAR_UUID_OUTLET_IN_USE)]"
  unfolding hap_serv_outlet_create_def
  by (rule makes_serviceI) (simp_all add: ctor_uuids, (simp add: char_uuid_defs)?)

lemma hap_serv_switch_create_ok:
  "makes_service (hap_serv_switch_create on) HAP_SERV_UUID_SWITCH
      [(True, HAP_CHAR_UUID_ON)]"
  unfolding hap_serv_switch_create_def
  by (rule makes_serviceI) (simp_all add: ctor_uuids, (simp add: char_uuid_defs)?)

lemma hap_serv_thermostat_create_ok:
  "makes_service (hap_serv_thermostat_create curr_heating_cooling_state targ_heating_cooling_state curr_temp targ_temp temp_disp_units) HAP_SERV_UUID_THERMOSTAT
      [(True, HAP_CHAR_UUID_CURRENT_HEATING_COOLING_STATE),
       (True, HAP_CHAR_UUID_TARGET_HEATING_COOLING_STATE),
       (True, HAP_CHAR_UUID_CURRENT_TEMPERATURE),
       (True, HAP_CHAR_UUID_TARGET_TEMPERATURE),
       (True, HAP_CHAR_UUID_TEMPERATURE_DISPLAY_UNITS)]"
  unfolding hap_serv_thermostat_create_def
  by (rule makes_serviceI) (simp_all add: ctor_uuids, (simp add: char_uuid_defs)?)

lemma hap_serv_air_quality_sensor_create_ok:
  "makes_service (hap_serv_air_quality_sensor_create air_quality) HAP_SERV_UUID_AIR_QUALITY_SENSOR
      [(True, HAP_CHAR_UUID_AIR_QUALITY)]"
  unfolding hap_serv_air_quality_sensor_create_def
  by (rule makes_serviceI) (simp_all add: ctor_uuids, (simp add: char_uuid_defs)?)

lemma hap_serv_security_system_create_ok:
  "makes_service (hap_serv_security_system_create security_sys_curr_state security_sys_targ_state) HAP_SERV_UUID_SECURITY_SYSTEM
      [(True, HAP_CHAR_UUID_SECURITY_SYSTEM_CURRENT_STATE),
       (True, HAP_CHAR_UUID_SECURITY_SYSTEM_TARGET_STATE)]"
  unfolding hap_serv_security_system_create_def
  by (rule makes_serviceI) (simp_all add: ctor_uuids, (simp add: char_uuid_defs)?)

lemma hap_serv_carbon_monoxide_sensor_create_ok:
  "makes_service (hap_serv_carbon_monoxide_sensor_create carbon_monoxide_detected) HAP_SERV_UUID_CARBON_MONOXIDE_SENSOR
      [(True, HAP_CHAR_UUID_CARBON_MONOXIDE_DETECTED)]"
  unfolding hap_serv_carbon_monoxide_sensor_create_def
  by (rule makes_serviceI) (simp_all add: ctor_uuids, (simp add: char_uuid_defs)?)

lemma hap_serv_contact_sensor_create_ok:
  "makes_service (hap_serv_contact_sensor_create contact_sensor_state) HAP_SERV_UUID_CONTACT_SENSOR
      [(True, HAP_CHAR_UUID_CONTACT_SENSOR_STATE)]"
  unfolding hap_serv_contact_sensor_create_def
  by (rule makes_serviceI) (simp_all add: ctor_uuids, (simp add: char_uuid_defs)?)

lemma hap_serv_door_create_ok:
  "makes_service (hap_serv_door_create curr_pos targ_pos pos_state) HAP_SERV_UUID_DOOR
      [(True, HAP_CHAR_UUID_CURRENT_POSITION),
       (True, HAP_CHAR_UUID_TARGET_POSITION),
       (True, HAP_CHAR_UUID_POSITION_STATE)]"
  unfolding hap_serv_door_create_def
  by (rule makes_serviceI) (simp_all add: ctor_uuids, (simp add: char_uuid_defs)?)

lemma hap_serv_humidity_sensor_create_ok:
  "makes_service (hap_serv_humidity_sensor_create curr_rel_humidity) HAP_SERV_UUID_HUMIDITY_SENSOR
      [(True, HAP_CHAR_UUID_CURRENT_RELATIVE_HUMIDITY)]"
  unfolding hap_serv_humidity_sensor_create_def
  by (rule makes_serviceI) (simp_all add: ctor_uuids, (simp add: char_uuid_defs)?)

lemma hap_serv_leak_sensor_create_ok:
  "makes_service (hap_serv_leak_sensor_create leak_detected) HAP_SERV_UUID_LEAK_SENSOR
      [(True, HAP_CHAR_UUID_LEAK_DETECTED)]"
  unfolding hap_serv_leak_sensor_create_def
  by (rule makes_serviceI) (simp_all add: ctor_uuids, (simp add: char_uuid_defs)?)

lemma hap_serv_light_sensor_create_ok:
  "makes_service (hap_serv_light_sensor_create curr_ambient_light_level) HAP_SERV_UUID_LIGHT_SENSOR
      [(True, HAP_CHAR_UUID_CURRENT_AMBIENT_LIGHT_LEVEL)]"
  unfolding hap_serv_light_sensor_create_def
  by (rule makes_serviceI) (simp_all add: ctor_uuids, (simp add: char_uuid_defs)?)

lemma hap_serv_motion_sensor_create_ok:
  "makes_service (hap_serv_motion_sensor_create motion_detected) HAP_SERV_UUID_MOTION_SENSOR
      [(True, HAP_CHAR_UUID_MOTION_DETECTED)]"
  unfolding hap_serv_motion_sensor_create_def
  by (rule makes_serviceI) (simp_all add: ctor_uuids, (simp add: char_uuid_defs)?)

lemma hap_serv_occupancy_sensor_create_ok:
  "makes_service (hap_serv_occupancy_sensor_create occupancy_detected) HAP_SERV_UUID_OCCUPANCY_SENSOR
      [(True, HAP_CHAR_UUID_OCCUPANCY_DETECTED)]"
  unfolding hap_serv_occupancy_sensor_create_def
  by (rule makes_serviceI) (simp_all add: ctor_uuids, (simp add: char_uuid_defs)?)

lemma hap_serv_smoke_sensor_create_ok:
  "makes_service (hap_serv_smoke_sensor_create smoke_detected) HAP_SERV_UUID_SMOKE_SENSOR
      [(True, HAP_CHAR_UUID_SMOKE_DETECTED)]"
  unfolding hap_serv_smoke_sensor_create_def
  by (rule makes_serviceI) (simp_all add: ctor_uuids, (simp add: char_uuid_defs)?)

lemma hap_serv_stateless_programmable_switch_create_ok:
  "makes_service (hap_serv_stateless_programmable_switch_create programmable_switch_event) HAP_SERV_UUID_STATLESS_PROGRAMMABLE_SWITCH
      [(True, HAP_CHAR_UUID_PROGRAMMABLE_SWITCH_EVENT)]"
  unfolding hap_serv_stateless_programmable_switch_create_def
  by (rule makes_serviceI) (simp_all add: ctor_uuids, (simp add: char_uuid_defs)?)

lemma hap_serv_temperature_sensor_create_ok:
  "makes_service (hap_serv_temperature_sensor_create curr_temp) HAP_SERV_UUID_TEMPERATURE_SENSOR
      [(True, HAP_CHAR_UUID_CURRENT_TEMPERATURE)]"
  unfolding hap_serv_temperature_sensor_create_def
  by (rule makes_serviceI) (simp_all add: ctor_uuids, (simp add: char_uuid_defs)?)

lemma hap_serv_window_create_ok:
  "makes_service (hap_serv_window_create curr_pos targ_pos pos_state) HAP_SERV_UUID_WINDOW
      [(True, HAP_CHAR_UUID_CURRENT_POSITION),
       (True, HAP_CHAR_UUID_TARGET_POSITION),
       (True, HAP_CHAR_UUID_POSITION_STATE)]"
  unfolding hap_serv_window_create_def
  by (rule makes_serviceI) (simp_all add: ctor_uuids, (simp add: char_uuid_defs)?)

lemma hap_serv_window_covering_create_ok:
  "makes_service (hap_serv_window_covering_create targ_pos curr_pos pos_state) HAP_SERV_UUID_WINDOW_COVERING
      [(True, HAP_CHAR_UUID_TARGET_POSITION),
       (True, HAP_CHAR_UUID_CURRENT_POSITION),
       (True, HAP_CHAR_UUID_POSITION_STATE)]"
  unfolding hap_serv_window_covering_create_def
  by (rule makes_serviceI) (simp_all add: ctor_uuids, (simp add: char_uuid_defs)?)

lemma hap_serv_battery_service_create_ok:
  "makes_service (hap_serv_battery_service_create battery_level charging_state status_low_battery) HAP_SERV_UUID_BATTERY_SERVICE
      [(True, HAP_CHAR_UUID_BATTERY_LEVEL),
       (True, HAP_CHAR_UUID_CHARGING_STATE),
       (True, HAP_CHAR_UUID_STATUS_LOW_BATTERY)]"
  unfolding hap_serv_battery_service_create_def
  by (rule makes_serviceI) (simp_all add: ctor_uuids, (simp add: char_uuid_defs)?)

lemma hap_serv_carbon_dioxide_sensor_create_ok:
  "makes_service (hap_serv_carbon_dioxide_sensor_create carbon_dioxide_detected) HAP_SERV_UUID_CARBON_DIOXIDE_SENSOR
      [(True, HAP_CHAR_UUID_CARBON_DIOXIDE_DETECTED)]"
  unfolding hap_serv_carbon_dioxide_sensor_create_def
  by (rule makes_serviceI) (simp_all add: ctor_uuids, (simp add: char_uuid_defs)?)

lemma hap_serv_fan_v2_create_ok:
  "makes_service (hap_serv_fan_v2_create active) HAP_SERV_UUID_FAN_V2
      [(True, HAP_CHAR_UUID_ACTIVE)]"
  unfolding hap_serv_fan_v2_create_def
  by (rule makes_serviceI) (simp_all add: ctor_uuids, (simp add: char_uuid_defs)?)

lemma hap_serv_slat_create_ok:
  "makes_service (hap_serv_slat_create curr_slat_state slat_type) HAP_SERV_UUID_SLAT
      [(True, HAP_CHAR_UUID_CURRENT_SLAT_STATE),
       (True, HAP_CHAR_UUID_SLAT_TYPE)]"
  unfolding hap_serv_slat_create_def
  by (rule makes_serviceI) (simp_all add: ctor_uuids, (simp add: char_uuid_defs)?)

lemma hap_serv_filter_maintenance_create_ok:
  "makes_service (hap_serv_filter_maintenance_create filter_change_indication) HAP_SERV_UUID_FILTER_MAINTENANCE
      [(True, HAP_CHAR_UUID_FILTER_CHANGE_INDICATION)]"
  unfolding hap_serv_filter_maintenance_create_def
  by (rule makes_serviceI) (simp_all add: ctor_uuids, (simp add: char_uuid_defs)?)

lemma hap_serv_air_purifier_create_ok:
  "makes_service (hap_serv_air_purifier_create active curr_air_purifier_state targ_air_purifier_state) HAP_SERV_UUID_AIR_PURIFIER
      [(True, HAP_CHAR_UUID_ACTIVE),
       (True, HAP_CHAR_UUID_CURRENT_AIR_PURIFIER_STATE),
       (True, HAP_CHAR_UUID_TARGET_AIR_PURIFIER_STATE)]"
  unfolding hap_serv_air_purifier_create_def
  by (rule makes_serviceI) (simp_all add: ctor_uuids, (simp add: char_uuid_defs)?)

lemma hap_serv_heater_cooler_create_ok:
  "makes_service (hap_serv_heater_cooler_create active curr_temp curr_heater_cooler_state targ_heater_cooler_state) HAP_SERV_UUID_HEATER_COOLER
      [(True, HAP_CHAR_UUID_ACTIVE),
       (True, HAP_CHAR_UUID_CURRENT_TEMPERATURE),
       (True, HAP_CHAR_UUID_CURRENT_HEATER_COOLER_STATE),
       (True, HAP_CHAR_UUID_TARGET_HEATER_COOLER_STATE)]"
  unfolding hap_serv_heater_cooler_create_def
  by (rule makes_serviceI) (simp_all add: ctor_uuids, (simp add: char_uuid_defs)?)

lemma hap_serv_humidifier_dehumidifier_create_ok:
  "makes_service (hap_serv_humidifier_dehumidifier_create active curr_rel_humidity curr_humid_dehumid_state targ_humid_dehumid_state) HAP_SERV_UUID_HUMIDIFIER_DEHUMIDIFIER
      [(True, HAP_CHAR_UUID_ACTIVE),
       (True, HAP_CHAR_UUID_CURRENT_RELATIVE_HUMIDITY),
       (True, HAP_CHAR_UUID_CURRENT_HUMIDIFIER_DEHUMIDIFIER_STATE),
       (True, HAP_CHAR_UUID_TARGET_HUMIDIFIER_DEHUMIDIFIER_STATE)]"
  unfolding hap_serv_humidifier_dehumidifier_create_def
  by (rule makes_serviceI) (simp_all add: ctor_uuids, (simp add: char_uuid_defs)?)

lemma hap_serv_service_label_create_ok:
  "makes_service (hap_serv_service_label_create service_label_namespace) HAP_SERV_UUID_SERVICE_LABEL
      [(True, HAP_CHAR_UUID_SERVICE_LABEL_NAMESPACE)]"
  unfolding hap_serv_service_label_create_def
  by (rule makes_serviceI) (simp_all add: ctor_uuids, (simp add: char_uuid_defs)?)

lemma hap_serv_irrigation_system_create_ok:
  "makes_service (hap_serv_irrigation_system_create active prog_mode in_use) HAP_SERV_UUID_IRRIGATION_SYSTEM
      [(True, HAP_CHAR_UUID_ACTIVE),
       (True, HAP_CHAR_UUID_PROGRAM_MODE),
       (True, HAP_CHAR_UUID_IN_USE)]"
  unfolding hap_serv_irrigation_system_create_def
  by (rule makes_serviceI) (simp_all add: ctor_uuids, (simp add: char_uuid_defs)?)

lemma hap_serv_valve_create_ok:
  "makes_service (hap_serv_valve_create active in_use valve_type) HAP_SERV_UUID_VALVE
      [(True, HAP_CHAR_UUID_ACTIVE),
       (True, HAP_CHAR_UUID_IN_USE),
       (True, HAP_CHAR_UUID_VALVE_TYPE)]"
  unfolding hap_serv_valve_create_def
  by (rule makes_serviceI) (simp_all add: ctor_uuids, (simp add: char_uuid_defs)?)

lemma hap_serv_faucet_create_ok:
  "makes_service (hap_serv_faucet_create active) HAP_SERV_UUID_FAUCET
      [(True, HAP_CHAR_UUID_ACTIVE)]"
  unfolding hap_serv_faucet_create_def
  by (rule makes_serviceI) (simp_all add: ctor_uuids, (simp add: char_uuid_defs)?)

lemmas serv_ctor_ok =
  hap_serv_accessory_information_create_ok
  hap_serv_protocol_information_create_ok
  hap_serv_fan_create_ok
  hap_serv_garage_door_opener_create_ok
  hap_serv_lightbulb_create_ok
  hap_serv_lock_management_create_ok
  hap_serv_lock_mechanism_create_ok
  hap_serv_outlet_create_ok
  hap_serv_switch_create_ok
  hap_serv_thermostat_create_ok
  hap_serv_air_quality_sensor_create_ok
  hap_serv_security_system_create_ok
  hap_serv_carbon_monoxide_sensor_create_ok
  hap_serv_contact_sensor_create_ok
  hap_serv_door_create_ok
  hap_serv_humidity_sensor_create_ok
  hap_serv_leak_sensor_create_ok
  hap_serv_light_sensor_create_ok
  hap_serv_motion_sensor_create_ok
  hap_serv_occupancy_sensor_create_ok
  hap_serv_smoke_sensor_create_ok
  hap_serv_stateless_programmable_switch_create_ok
  hap_serv_temperature_sensor_create_ok
  hap_serv_window_create_ok
  hap_serv_window_covering_create_ok
  hap_serv_battery_service_create_ok
  hap_serv_carbon_dioxide_sensor_create_ok
  hap_serv_fan_v2_create_ok
  hap_serv_slat_create_ok
  hap_serv_filter_maintenance_create_ok
  hap_serv_air_purifier_create_ok
  hap_serv_heater_cooler_create_ok
  hap_serv_humidifier_dehumidifier_create_ok
  hap_serv_service_label_create_ok
  hap_serv_irrigation_system_create_ok
  hap_serv_valve_create_ok
  hap_serv_faucet_create_ok

text \<open>Every one of the 37 service constructors of the profile, on any heap, returns either NULL
  with the heap as it was (the characteristics already added are freed with the service), for
  want of memory unless a string is too long, or a fresh service of its type that holds exactly
  its required characteristics, in order, each of a different type.\<close>

theorem apple_servs_correct:
  "makes_service (hap_serv_accessory_information_create cfg) HAP_SERV_UUID_ACCESSORY_INFORMATION
      ([(string_fits (cfg_name cfg), HAP_CHAR_UUID_NAME),
       (string_fits (cfg_model cfg), HAP_CHAR_UUID_MODEL),
       (string_fits (cfg_manufacturer cfg), HAP_CHAR_UUID_MANUFACTURER),
       (string_fits (cfg_serial_num cfg), HAP_CHAR_UUID_SERIAL_NUMBER),
       (string_fits (cfg_fw_rev cfg), HAP_CHAR_UUID_FIRMWARE_REVISION),
       (True, HAP_CHAR_UUID_IDENTIFY)] @
       (if cfg_hw_rev cfg \<noteq> None then [(string_fits (cfg_hw_rev cfg), HAP_CHAR_UUID_HARDWARE_REVISION)] else [])) \<and>
   makes_service (hap_serv_protocol_information_create version) HAP_SERV_UUID_PROTOCOL_INFORMATION
      [(string_fits version, HAP_CHAR_UUID_VERSION)] \<and>
   makes_service (hap_serv_fan_create on) HAP_SERV_UUID_FAN
      [(True, HAP_CHAR_UUID_ON)] \<and>
   makes_service (hap_serv_garage_door_opener_create curr_door_state targ_door_state obstr_detect) HAP_SERV_UUID_GARAGE_DOOR_OPENER
      [(True, HAP_CHAR_UUID_CURRENT_DOOR_STATE),
       (True, HAP_CHAR_UUID_TARGET_DOOR_STATE),
       (True, HAP_CHAR_UUID_OBSTRUCTION_DETECTED)] \<and>
   makes_service (hap_serv_lightbulb_create on) HAP_SERV_UUID_LIGHTBULB
      [(True, HAP_CHAR_UUID_ON)] \<and>
   makes_service (hap_serv_lock_management_create lock_control_point version) HAP_SERV_UUID_LOCK_MANAGEMENT
      [(True, HAP_CHAR_UUID_LOCK_CONTROL_POINT),
       (string_fits version, HAP_CHAR_UUID_VERSION)] \<and>
   makes_service (hap_serv_lock_mechanism_create lock_curr_state lock_targ_state) HAP_SERV_UUID_LOCK_MECHANISM
      [(True, HAP_CHAR_UUID_LOCK_CURRENT_STATE),
       (True, HAP_CHAR_UUID_LOCK_TARGET_STATE)] \<and>
   makes_service (hap_serv_outlet_create on outlet_in_use) HAP_SERV_UUID_OUTLET
      [(True, HAP_CHAR_UUID_ON),
       (True, HAP_CHAR_UUID_OUTLET_IN_USE)] \<and>
   makes_service (hap_serv_switch_create on) HAP_SERV_UUID_SWITCH
      [(True, HAP_CHAR_UUID_ON)] \<and>
   makes_service (hap_serv_thermostat_create curr_heating_cooling_state targ_heating_cooling_state curr_temp targ_temp temp_disp_units) HAP_SERV_UUID_THERMOSTAT
      [(True, HAP_CHAR_UUID_CURRENT_HEATING_COOLING_STATE),
       (True, HAP_CHAR_UUID_TARGET_HEATING_COOLING_STATE),
       (True, HAP_CHAR_UUID_CURRENT_TEMPERATURE),
       (True, HAP_CHAR_UUID_TARGET_TEMPERATURE),
       (True, HAP_CHAR_UUID_TEMPERATURE_DISPLAY_UNITS)] \<and>
   makes_service (hap_serv_air_quality_sensor_create air_quality) HAP_SERV_UUID_AIR_QUALITY_SENSOR
      [(True, HAP_CHAR_UUID_AIR_QUALITY)] \<and>
   makes_service (hap_serv_security_system_create security_sys_curr_state security_sys_targ_state) HAP_SERV_UUID_SECURITY_SYSTEM
      [(True, HAP_CHAR_UUID_SECURITY_SYSTEM_CURRENT_STATE),
       (True, HAP_CHAR_UUID_SECURITY_SYSTEM_TARGET_STATE)] \<and>
   makes_service (hap_serv_carbon_monoxide_sensor_create carbon_monoxide_detected) HAP_SERV_UUID_CARBON_MONOXIDE_SENSOR
      [(True, HAP_CHAR_UUID_CARBON_MONOXIDE_DETECTED)] \<and>
   makes_service (hap_serv_contact_sensor_create contact_sensor_state) HAP_SERV_UUID_CONTACT_SENSOR
      [(True, HAP_CHAR_UUID_CONTACT_SENSOR_STATE)] \<and>
   makes_service (hap_serv_door_create curr_pos targ_pos pos_state) HAP_SERV_UUID_DOOR
      [(True, HAP_CHAR_UUID_CURRENT_POSITION),
       (True, HAP_CHAR_UUID_TARGET_POSITION),
       (True, HAP_CHAR_UUID_POSITION_STATE)] \<and>
   makes_service (hap_serv_humidity_sensor_create curr_rel_humidity) HAP_SERV_UUID_HUMIDITY_SENSOR
      [(True, HAP_CHAR_UUID_CURRENT_RELATIVE_HUMIDITY)] \<and>
   makes_service (hap_serv_leak_sensor_create leak_detected) HAP_SERV_UUID_LEAK_SENSOR
      [(True, HAP_CHAR_UUID_LEAK_DETECTED)] \<and>
   makes_service (hap_serv_light_sensor_create curr_ambient_light_level) HAP_SERV_UUID_LIGHT_SENSOR
      [(True, HAP_CHAR_UUID_CURRENT_AMBIENT_LIGHT_LEVEL)] \<and>
   makes_service (hap_serv_motion_sensor_create motion_detected) HAP_SERV_UUID_MOTION_SENSOR
      [(True, HAP_CHAR_UUID_MOTION_DETECTED)] \<and>
   makes_service (hap_serv_occupancy_sensor_create occupancy_detected) HAP_SERV_UUID_OCCUPANCY_SENSOR
      [(True, HAP_CHAR_UUID_OCCUPANCY_DETECTED)] \<and>
   makes_service (hap_serv_smoke_sensor_create smoke_detected) HAP_SERV_UUID_SMOKE_SENSOR
      [(True, HAP_CHAR_UUID_SMOKE_DETECTED)] \<and>
   makes_service (hap_serv_stateless_programmable_switch_create programmable_switch_event) HAP_SERV_UUID_STATLESS_PROGRAMMABLE_SWITCH
      [(True, HAP_CHAR_UUID_PROGRAMMABLE_SWITCH_EVENT)] \<and>
   makes_service (hap_serv_temperature_sensor_create curr_temp) HAP_SERV_UUID_TEMPERATURE_SENSOR
      [(True, HAP_CHAR_UUID_CURRENT_TEMPERATURE)] \<and>
   makes_service (hap_serv_window_create curr_pos targ_pos pos_state) HAP_SERV_UUID_WINDOW
      [(True, HAP_CHAR_UUID_CURRENT_POSITION),
       (True, HAP_CHAR_UUID_TARGET_POSITION),
       (True, HAP_CHAR_UUID_POSITION_STATE)] \<and>
   makes_service (hap_serv_window_covering_create targ_pos curr_pos pos_state) HAP_SERV_UUID_WINDOW_COVERING
      [(True, HAP_CHAR_UUID_TARGET_POSITION),
       (True, HAP_CHAR_UUID_CURRENT_POSITION),
       (True, HAP_CHAR_UUID_POSITION_STATE)] \<and>
   makes_service (hap_serv_battery_service_create battery_level charging_state status_low_battery) HAP_SERV_UUID_BATTERY_SERVICE
      [(True, HAP_CHAR_UUID_BATTERY_LEVEL),
       (True, HAP_CHAR_UUID_CHARGING_STATE),
       (True, HAP_CHAR_UUID_STATUS_LOW_BATTERY)] \<and>
   makes_service (hap_serv_carbon_dioxide_sensor_create carbon_dioxide_detected) HAP_SERV_UUID_CARBON_DIOXIDE_SENSOR
      [(True, HAP_CHAR_UUID_CARBON_DIOXIDE_DETECTED)] \<and>
   makes_service (hap_serv_fan_v2_create active) HAP_SERV_UUID_FAN_V2
      [(True, HAP_CHAR_UUID_ACTIVE)] \<and>
   makes_service (hap_serv_slat_create curr_slat_state slat_type) HAP_SERV_UUID_SLAT
      [(True, HAP_CHAR_UUID_CURRENT_SLAT_STATE),
       (True, HAP_CHAR_UUID_SLAT_TYPE)] \<and>
   makes_service (hap_serv_filter_maintenance_create filter_change_indication) HAP_SERV_UUID_FILTER_MAINTENANCE
      [(True, HAP_CHAR_UUID_FILTER_CHANGE_INDICATION)] \<and>
   makes_service (hap_serv_air_purifier_create active curr_air_purifier_state targ_air_purifier_state) HAP_SERV_UUID_AIR_PURIFIER
      [(True, HAP_CHAR_UUID_ACTIVE),
       (True, HAP_CHAR_UUID_CURRENT_AIR_PURIFIER_STATE),
       (True, HAP_CHAR_UUID_TARGET_AIR_PURIFIER_STATE)] \<and>
   makes_service (hap_serv_heater_cooler_create active curr_temp curr_heater_cooler_state targ_heater_cooler_state) HAP_SERV_UUID_HEATER_COOLER
      [(True, HAP_CHAR_UUID_ACTIVE),
       (True, HAP_CHAR_UUID_CURRENT_TEMPERATURE),
       (True, HAP_CHAR_UUID_CURRENT_HEATER_COOLER_STATE),
       (True, HAP_CHAR_UUID_TARGET_HEATER_COOLER_STATE)] \<and>
   makes_service (hap_serv_humidifier_dehumidifier_create active curr_rel_humidity curr_humid_dehumid_state targ_humid_dehumid_state) HAP_SERV_UUID_HUMIDIFIER_DEHUMIDIFIER
      [(True, HAP_CHAR_UUID_ACTIVE),
       (True, HAP_CHAR_UUID_CURRENT_RELATIVE_HUMIDITY),
       (True, HAP_CHAR_UUID_CURRENT_HUMIDIFIER_DEHUMIDIFIER_STATE),
       (True, HAP_CHAR_UUID_TARGET_HUMIDIFIER_DEHUMIDIFIER_STATE)] \<and>
   makes_service (hap_serv_service_label_create service_label_namespace) HAP_SERV_UUID_SERVICE_LABEL
      [(True, HAP_CHAR_UUID_SERVICE_LABEL_NAMESPACE)] \<and>
   makes_service (hap_serv_irrigation_system_create active prog_mode in_use) HAP_SERV_UUID_IRRIGATION_SYSTEM
      [(True, HAP_CHAR_UUID_ACTIVE),
       (True, HAP_CHAR_UUID_PROGRAM_MODE),
       (True, HAP_CHAR_UUID_IN_USE)] \<and>
   makes_service (hap_serv_valve_create active in_use valve_type) HAP_SERV_UUID_VALVE
      [(True, HAP_CHAR_UUID_ACTIVE),
       (True, HAP_CHAR_UUID_IN_USE),
       (True, HAP_CHAR_UUID_VALVE_TYPE)] \<and>
   makes_service (hap_serv_faucet_create active) HAP_SERV_UUID_FAUCET
      [(True, HAP_CHAR_UUID_ACTIVE)]"
  by (intro conjI serv_ctor_ok)

end
