(* ===== verification/Keystore.thy ===== *)
theory Keystore
  imports Hap_Objs Byte_Convert
begin

text \<open>
  The key-value store: \<open>esp_hap_platform/src/hap_platform_keystore.c\<close> over the NVS library of
  ESP-IDF, and \<open>esp_hap_core/src/esp_hap_keystore.c\<close> over it.

  NVS is not part of the repository: its functions are the fields of \<open>nvs_api\<close>, on a state and
  handles of any type. \<open>nvs_lawful\<close> is the documented behaviour that the code relies on, for
  the sequences in which it calls them (open, one operation, commit, close), in terms of what a
  reader sees (\<open>nvs_view\<close>). The error code \<open>ESP_OK\<close> is 0.
\<close>

section \<open>The interface of NVS\<close>

record ('n, 'h) nvs_api =
  nvs_open_from_partition :: "string \<Rightarrow> string \<Rightarrow> bool \<Rightarrow> 'n \<Rightarrow> int \<times> 'h \<times> 'n"
  nvs_get_blob :: "'h \<Rightarrow> string \<Rightarrow> nat \<Rightarrow> 'n \<Rightarrow> int \<times> byte list \<times> nat \<times> 'n"
  nvs_set_blob :: "'h \<Rightarrow> string \<Rightarrow> byte list \<Rightarrow> 'n \<Rightarrow> int \<times> 'n"
  nvs_get_str :: "'h \<Rightarrow> string \<Rightarrow> nat \<Rightarrow> 'n \<Rightarrow> int \<times> byte list \<times> nat \<times> 'n"
  nvs_set_str :: "'h \<Rightarrow> string \<Rightarrow> string \<Rightarrow> 'n \<Rightarrow> int \<times> 'n"
  nvs_erase_key :: "'h \<Rightarrow> string \<Rightarrow> 'n \<Rightarrow> int \<times> 'n"
  nvs_erase_all :: "'h \<Rightarrow> 'n \<Rightarrow> int \<times> 'n"
  nvs_commit :: "'h \<Rightarrow> 'n \<Rightarrow> int \<times> 'n"
  nvs_close :: "'h \<Rightarrow> 'n \<Rightarrow> 'n"
  nvs_flash_init_partition :: "string \<Rightarrow> 'n \<Rightarrow> int \<times> 'n"
  nvs_flash_erase_partition :: "string \<Rightarrow> 'n \<Rightarrow> int \<times> 'n"
  ESP_ERR_NVS_NO_FREE_PAGES :: int

section \<open>The platform layer\<close>

text \<open>
  \<open>val\<close> is the buffer of the caller, \<open>val_size\<close> the length that it states. NVS writes the
  buffer only when it succeeds; it may change \<open>*val_size\<close> in any case.
\<close>

definition hap_platform_keystore_init_partition ::
    "('n, 'h) nvs_api \<Rightarrow> string \<Rightarrow> bool \<Rightarrow> 'n \<Rightarrow> (int \<times> 'n) option" where
  "hap_platform_keystore_init_partition api part_name read_only n = do {
     let (err, n) = nvs_flash_init_partition api part_name n;
     (err, n) \<leftarrow>
       (if \<not> read_only \<and> err = ESP_ERR_NVS_NO_FREE_PAGES api
        then (case nvs_flash_erase_partition api part_name n of (e, n) \<Rightarrow>
          if e \<noteq> 0 then None else Some (nvs_flash_init_partition api part_name n))
        else Some (err, n));
     Some (if err = 0 then 0 else - 1, n) }"

definition hap_platform_keystore_get ::
    "('n, 'h) nvs_api \<Rightarrow> string \<Rightarrow> string \<Rightarrow> string \<Rightarrow> byte list \<Rightarrow> nat \<Rightarrow> 'n \<Rightarrow>
     (int \<times> byte list \<times> nat \<times> 'n) option" where
  "hap_platform_keystore_get api part_name name_space key val val_size n =
     (case nvs_open_from_partition api part_name name_space False n of (err, handle, n) \<Rightarrow>
        if err \<noteq> 0 then Some (- 1, val, val_size, n)
        else case nvs_get_blob api handle key val_size n of (err, bs, len, n) \<Rightarrow>
          let n = nvs_close api handle n in
          if err = 0 then do { val \<leftarrow> wr_block val 0 bs; Some (0, val, len, n) }
          else Some (- 1, val, len, n))"

definition hap_platform_keystore_get_u64 ::
    "('n, 'h) nvs_api \<Rightarrow> string \<Rightarrow> string \<Rightarrow> string \<Rightarrow> byte list \<Rightarrow> nat \<Rightarrow> 'n \<Rightarrow>
     (int \<times> byte list \<times> nat \<times> 'n) option" where
  "hap_platform_keystore_get_u64 api part_name name_space key val val_size n =
     (case nvs_open_from_partition api part_name name_space False n of (err, handle, n) \<Rightarrow>
        if err \<noteq> 0 then Some (- 1, val, val_size, n)
        else case nvs_get_blob api handle key val_size n of (err, bs, len, n) \<Rightarrow>
          let n = nvs_close api handle n in
          if err = 0 then do { val \<leftarrow> wr_block val 0 bs; Some (0, val, len, n) }
          else Some (- 1, val, len, n))"

definition hap_platform_keystore_get_str ::
    "('n, 'h) nvs_api \<Rightarrow> string \<Rightarrow> string \<Rightarrow> string \<Rightarrow> byte list \<Rightarrow> nat \<Rightarrow> 'n \<Rightarrow>
     (int \<times> byte list \<times> nat \<times> 'n) option" where
  "hap_platform_keystore_get_str api part_name name_space key val val_size n =
     (case nvs_open_from_partition api part_name name_space False n of (err, handle, n) \<Rightarrow>
        if err \<noteq> 0 then Some (- 1, val, val_size, n)
        else case nvs_get_str api handle key val_size n of (err, bs, len, n) \<Rightarrow>
          let n = nvs_close api handle n in
          if err = 0 then do { val \<leftarrow> wr_block val 0 bs; Some (0, val, len, n) }
          else Some (- 1, val, len, n))"

text \<open>The writers share one shape: open, one operation, commit when it succeeded, close.\<close>

definition nvs_write ::
    "('n, 'h) nvs_api \<Rightarrow> string \<Rightarrow> string \<Rightarrow> ('h \<Rightarrow> 'n \<Rightarrow> int \<times> 'n) \<Rightarrow> 'n \<Rightarrow> int \<times> 'n" where
  "nvs_write api part_name name_space oper n =
     (case nvs_open_from_partition api part_name name_space True n of (err, handle, n) \<Rightarrow>
        if err \<noteq> 0 then (- 1, n)
        else case oper handle n of (err, n) \<Rightarrow>
          let n = (if err \<noteq> 0 then n else snd (nvs_commit api handle n));
              n = nvs_close api handle n
          in if err = 0 then (0, n) else (- 1, n))"

definition hap_platform_keystore_set ::
    "('n, 'h) nvs_api \<Rightarrow> string \<Rightarrow> string \<Rightarrow> string \<Rightarrow> byte list \<Rightarrow> 'n \<Rightarrow> int \<times> 'n" where
  "hap_platform_keystore_set api part_name name_space key val n =
     nvs_write api part_name name_space (\<lambda>h. nvs_set_blob api h key val) n"

definition hap_platform_keystore_set_u64 ::
    "('n, 'h) nvs_api \<Rightarrow> string \<Rightarrow> string \<Rightarrow> string \<Rightarrow> byte list \<Rightarrow> 'n \<Rightarrow> int \<times> 'n" where
  "hap_platform_keystore_set_u64 api part_name name_space key val n =
     nvs_write api part_name name_space (\<lambda>h. nvs_set_blob api h key val) n"

definition hap_platform_keystore_set_str ::
    "('n, 'h) nvs_api \<Rightarrow> string \<Rightarrow> string \<Rightarrow> string \<Rightarrow> string \<Rightarrow> 'n \<Rightarrow> int \<times> 'n" where
  "hap_platform_keystore_set_str api part_name name_space key val n =
     nvs_write api part_name name_space (\<lambda>h. nvs_set_str api h key val) n"

definition hap_platform_keystore_delete ::
    "('n, 'h) nvs_api \<Rightarrow> string \<Rightarrow> string \<Rightarrow> string \<Rightarrow> 'n \<Rightarrow> int \<times> 'n" where
  "hap_platform_keystore_delete api part_name name_space key n =
     nvs_write api part_name name_space (\<lambda>h. nvs_erase_key api h key) n"

definition hap_platform_keystore_delete_namespace ::
    "('n, 'h) nvs_api \<Rightarrow> string \<Rightarrow> string \<Rightarrow> 'n \<Rightarrow> int \<times> 'n" where
  "hap_platform_keystore_delete_namespace api part_name name_space n =
     nvs_write api part_name name_space (\<lambda>h. nvs_erase_all api h) n"

definition hap_platfrom_keystore_erase_partition ::
    "('n, 'h) nvs_api \<Rightarrow> string \<Rightarrow> 'n \<Rightarrow> int \<times> 'n" where
  "hap_platfrom_keystore_erase_partition api part_name n =
     (case nvs_flash_erase_partition api part_name n of (err, n) \<Rightarrow> (if err = 0 then 0 else - 1, n))"

section \<open>The keystore of the library\<close>

text \<open>
  The state is extended by NVS, the partition names of the build configuration, and the three
  static variables of \<open>esp_hap_keystore.c\<close> (a partition name is NULL before the init).
\<close>

record ('n, 'h) hap_ks = hap_objs +
  nvs_fn :: "('n, 'h) nvs_api"
  nvs :: 'n
  runtime_partition :: string
  factory_partition :: string
  keystore_init_done :: bool
  hap_platform_nvs_partition :: "string option"
  hap_platform_factory_nvs_partition :: "string option"

definition hap_keystore_init :: "('n, 'h, 's) hap_ks_scheme \<Rightarrow> (int \<times> ('n, 'h, 's) hap_ks_scheme) option" where
  "hap_keystore_init st =
     (if keystore_init_done st then Some (HAP_SUCCESS, st) else do {
        let st = st\<lparr>hap_platform_nvs_partition := Some (runtime_partition st)\<rparr>;
        (err, n) \<leftarrow> hap_platform_keystore_init_partition (nvs_fn st) (runtime_partition st) False (nvs st);
        let st = st\<lparr>nvs := n\<rparr>;
        if err \<noteq> 0 then Some (HAP_FAIL, st) else do {
          let st = st\<lparr>hap_platform_factory_nvs_partition := Some (factory_partition st)\<rparr>;
          (_, n) \<leftarrow> hap_platform_keystore_init_partition (nvs_fn st) (factory_partition st) True (nvs st);
          Some (HAP_SUCCESS, st\<lparr>nvs := n, keystore_init_done := True\<rparr>) } })"

definition hap_keystore_get_part ::
    "string option \<Rightarrow> string \<Rightarrow> string \<Rightarrow> byte list \<Rightarrow> nat \<Rightarrow> ('n, 'h, 's) hap_ks_scheme \<Rightarrow>
     (int \<times> byte list \<times> nat \<times> ('n, 'h, 's) hap_ks_scheme) option" where
  "hap_keystore_get_part part_name name_space key val val_size st =
     (if \<not> keystore_init_done st then Some (HAP_FAIL, val, val_size, st) else do {
        part \<leftarrow> part_name;
        (err, val, val_size, n) \<leftarrow> hap_platform_keystore_get (nvs_fn st) part name_space key val val_size (nvs st);
        Some (if err \<noteq> 0 then HAP_FAIL else HAP_SUCCESS, val, val_size, st\<lparr>nvs := n\<rparr>) })"

definition hap_keystore_get ::
    "string \<Rightarrow> string \<Rightarrow> byte list \<Rightarrow> nat \<Rightarrow> ('n, 'h, 's) hap_ks_scheme \<Rightarrow>
     (int \<times> byte list \<times> nat \<times> ('n, 'h, 's) hap_ks_scheme) option" where
  "hap_keystore_get name_space key val val_size st =
     hap_keystore_get_part (hap_platform_nvs_partition st) name_space key val val_size st"

definition hap_factory_keystore_get ::
    "string \<Rightarrow> string \<Rightarrow> byte list \<Rightarrow> nat \<Rightarrow> ('n, 'h, 's) hap_ks_scheme \<Rightarrow>
     (int \<times> byte list \<times> nat \<times> ('n, 'h, 's) hap_ks_scheme) option" where
  "hap_factory_keystore_get name_space key val val_size st =
     hap_keystore_get_part (hap_platform_factory_nvs_partition st) name_space key val val_size st"

definition keystore_op ::
    "string option \<Rightarrow> (string \<Rightarrow> 'n \<Rightarrow> int \<times> 'n) \<Rightarrow> ('n, 'h, 's) hap_ks_scheme \<Rightarrow>
     (int \<times> ('n, 'h, 's) hap_ks_scheme) option" where
  "keystore_op part_name f st =
     (if \<not> keystore_init_done st then Some (HAP_FAIL, st) else do {
        part \<leftarrow> part_name;
        let (err, n) = f part (nvs st);
        Some (if err \<noteq> 0 then HAP_FAIL else HAP_SUCCESS, st\<lparr>nvs := n\<rparr>) })"

definition hap_keystore_set ::
    "string \<Rightarrow> string \<Rightarrow> byte list \<Rightarrow> ('n, 'h, 's) hap_ks_scheme \<Rightarrow>
     (int \<times> ('n, 'h, 's) hap_ks_scheme) option" where
  "hap_keystore_set name_space key val st = keystore_op (hap_platform_nvs_partition st)
     (\<lambda>part. hap_platform_keystore_set (nvs_fn st) part name_space key val) st"

definition hap_factory_keystore_set ::
    "string \<Rightarrow> string \<Rightarrow> byte list \<Rightarrow> ('n, 'h, 's) hap_ks_scheme \<Rightarrow>
     (int \<times> ('n, 'h, 's) hap_ks_scheme) option" where
  "hap_factory_keystore_set name_space key val st = keystore_op (hap_platform_factory_nvs_partition st)
     (\<lambda>part. hap_platform_keystore_set (nvs_fn st) part name_space key val) st"

definition hap_keystore_delete ::
    "string \<Rightarrow> string \<Rightarrow> ('n, 'h, 's) hap_ks_scheme \<Rightarrow> (int \<times> ('n, 'h, 's) hap_ks_scheme) option" where
  "hap_keystore_delete name_space key st = keystore_op (hap_platform_nvs_partition st)
     (\<lambda>part. hap_platform_keystore_delete (nvs_fn st) part name_space key) st"

definition hap_keystore_delete_namespace ::
    "string \<Rightarrow> ('n, 'h, 's) hap_ks_scheme \<Rightarrow> (int \<times> ('n, 'h, 's) hap_ks_scheme) option" where
  "hap_keystore_delete_namespace name_space st = keystore_op (hap_platform_nvs_partition st)
     (\<lambda>part. hap_platform_keystore_delete_namespace (nvs_fn st) part name_space) st"

definition hap_keystore_erase_all_data ::
    "('n, 'h, 's) hap_ks_scheme \<Rightarrow> ('n, 'h, 's) hap_ks_scheme option" where
  "hap_keystore_erase_all_data st = do {
     part \<leftarrow> hap_platform_nvs_partition st;
     Some (st\<lparr>nvs := snd (hap_platfrom_keystore_erase_partition (nvs_fn st) part (nvs st))\<rparr>) }"

section \<open>The behaviour of NVS that the code relies on\<close>

type_synonym kv = "string \<times> string \<times> string \<Rightarrow> byte list option"

text \<open>What a reader of a partition, namespace and key gets.\<close>

definition nvs_view :: "('n, 'h) nvs_api \<Rightarrow> 'n \<Rightarrow> kv" where
  "nvs_view api n = (\<lambda>(p, ns, k). case nvs_open_from_partition api p ns False n of (e, h, n) \<Rightarrow>
     if e \<noteq> 0 then None
     else case nvs_get_blob api h k (2 ^ 32 - 1) n of (e, bs, _) \<Rightarrow> if e = 0 then Some bs else None)"

definition nvs_reads :: "('n, 'h) nvs_api \<Rightarrow> bool" where
  "nvs_reads api \<longleftrightarrow> (\<forall>p ns n e h n1. nvs_open_from_partition api p ns False n = (e, h, n1) \<longrightarrow>
     (e \<noteq> 0 \<longrightarrow> nvs_view api n1 = nvs_view api n) \<and>
     (e = 0 \<longrightarrow> (\<forall>k sz e2 bs len n2. sz < 2 ^ 32 \<longrightarrow> nvs_get_blob api h k sz n1 = (e2, bs, len, n2) \<longrightarrow>
        nvs_view api (nvs_close api h n2) = nvs_view api n \<and>
        (e2 = 0 \<longleftrightarrow> (\<exists>v. nvs_view api n (p, ns, k) = Some v \<and> length v \<le> sz)) \<and>
        (e2 = 0 \<longrightarrow> nvs_view api n (p, ns, k) = Some bs \<and> len = length bs))))"

text \<open>A writing operation either fails and changes nothing, or has the effect \<open>f\<close> when committed.\<close>

definition nvs_effect ::
    "('n, 'h) nvs_api \<Rightarrow> string \<Rightarrow> string \<Rightarrow> ('h \<Rightarrow> 'n \<Rightarrow> int \<times> 'n) \<Rightarrow> (kv \<Rightarrow> kv) \<Rightarrow> bool" where
  "nvs_effect api p ns oper f \<longleftrightarrow> (\<forall>n e h n1. nvs_open_from_partition api p ns True n = (e, h, n1) \<longrightarrow>
     (e \<noteq> 0 \<longrightarrow> nvs_view api n1 = nvs_view api n) \<and>
     (e = 0 \<longrightarrow> (\<forall>e2 n2. oper h n1 = (e2, n2) \<longrightarrow>
        (e2 \<noteq> 0 \<longrightarrow> nvs_view api (nvs_close api h n2) = nvs_view api n) \<and>
        (e2 = 0 \<longrightarrow> (\<forall>n3. nvs_commit api h n2 = (0, n3) \<longrightarrow>
           nvs_view api (nvs_close api h n3) = f (nvs_view api n))))))"

definition drop_namespace :: "string \<Rightarrow> string \<Rightarrow> kv \<Rightarrow> kv" where
  "drop_namespace p ns m = (\<lambda>(p', ns', k). if p' = p \<and> ns' = ns then None else m (p', ns', k))"

definition nvs_lawful :: "('n, 'h) nvs_api \<Rightarrow> bool" where
  "nvs_lawful api \<longleftrightarrow> nvs_reads api \<and> (\<forall>h n. fst (nvs_commit api h n) = 0) \<and>
     (\<forall>p ns. (\<forall>k v. nvs_effect api p ns (\<lambda>h. nvs_set_blob api h k v) (\<lambda>m. m((p, ns, k) \<mapsto> v))) \<and>
             (\<forall>k. nvs_effect api p ns (\<lambda>h. nvs_erase_key api h k) (\<lambda>m. m((p, ns, k) := None))) \<and>
             nvs_effect api p ns (nvs_erase_all api) (drop_namespace p ns))"

text \<open>An NVS that meets the hypothesis: a map, with handles that are the names that were opened.\<close>

definition map_nvs :: "(kv, string \<times> string) nvs_api" where
  "map_nvs = \<lparr>nvs_open_from_partition = \<lambda>p ns rw n. (0, (p, ns), n),
     nvs_get_blob = \<lambda>(p, ns) k sz n. (case n (p, ns, k) of None \<Rightarrow> (1, [], sz, n)
       | Some v \<Rightarrow> if length v \<le> sz then (0, v, length v, n) else (2, [], length v, n)),
     nvs_set_blob = \<lambda>(p, ns) k v n. if length v < 2 ^ 32 then (0, n((p, ns, k) \<mapsto> v)) else (3, n),
     nvs_get_str = \<lambda>(p, ns) k sz n. (1, [], sz, n), nvs_set_str = \<lambda>h k v n. (3, n),
     nvs_erase_key = \<lambda>(p, ns) k n. if n (p, ns, k) = None then (1, n) else (0, n((p, ns, k) := None)),
     nvs_erase_all = \<lambda>(p, ns) n. (0, drop_namespace p ns n),
     nvs_commit = \<lambda>h n. (0, n), nvs_close = \<lambda>h n. n,
     nvs_flash_init_partition = \<lambda>p n. (0, n), nvs_flash_erase_partition = \<lambda>p n. (0, n),
     ESP_ERR_NVS_NO_FREE_PAGES = 4\<rparr>"

lemma nvs_effect_write:
  assumes "nvs_effect api p ns oper f" "\<And>h n. fst (nvs_commit api h n) = 0"
    and "nvs_write api p ns oper n = (r, n')"
  shows "(r = 0 \<and> nvs_view api n' = f (nvs_view api n)) \<or> (r = - 1 \<and> nvs_view api n' = nvs_view api n)"
proof -
  obtain e h n1 where o: "nvs_open_from_partition api p ns True n = (e, h, n1)" by (metis prod_cases3)
  obtain e2 n2 where op: "oper h n1 = (e2, n2)" by fastforce
  obtain n3 where c: "nvs_commit api h n2 = (0, n3)" using assms(2) [of h n2] by (metis prod.collapse)
  from assms(1,3) o op c show ?thesis
    unfolding nvs_effect_def nvs_write_def by (cases "e = 0"; cases "e2 = 0") (auto simp: Let_def)
qed

section \<open>The contract of the keystore\<close>

text \<open>
  \<open>rest\<close> is the part of the state outside the store. A getter reads into a buffer that is large
  enough for the size it states.
\<close>

locale kv_store =
  fixes ready :: "'st \<Rightarrow> bool"
    and view :: "'st \<Rightarrow> string \<times> string \<Rightarrow> byte list option"
    and rest :: "'st \<Rightarrow> 'r"
    and get :: "string \<Rightarrow> string \<Rightarrow> byte list \<Rightarrow> nat \<Rightarrow> 'st \<Rightarrow> (int \<times> byte list \<times> nat \<times> 'st) option"
    and set_key :: "string \<Rightarrow> string \<Rightarrow> byte list \<Rightarrow> 'st \<Rightarrow> (int \<times> 'st) option"
    and del :: "string \<Rightarrow> string \<Rightarrow> 'st \<Rightarrow> (int \<times> 'st) option"
    and del_ns :: "string \<Rightarrow> 'st \<Rightarrow> (int \<times> 'st) option"
  assumes get_law: "ready st \<Longrightarrow> sz \<le> length buf \<Longrightarrow> sz < 2 ^ 32 \<Longrightarrow>
      \<exists>r buf' n st'. get ns k buf sz st = Some (r, buf', n, st') \<and> ready st' \<and> view st' = view st \<and>
        rest st' = rest st \<and>
        (case view st (ns, k) of
           Some v \<Rightarrow> if length v \<le> sz then r = 0 \<and> buf' = v @ drop (length v) buf \<and> n = length v
                     else r = - 1 \<and> buf' = buf
         | None \<Rightarrow> r = - 1 \<and> buf' = buf)"
    and set_law: "ready st \<Longrightarrow> \<exists>r st'. set_key ns k v st = Some (r, st') \<and> ready st' \<and> rest st' = rest st \<and>
        ((r = 0 \<and> view st' = (view st)((ns, k) \<mapsto> v)) \<or> (r = - 1 \<and> view st' = view st))"
    and del_law: "ready st \<Longrightarrow> \<exists>r st'. del ns k st = Some (r, st') \<and> ready st' \<and> rest st' = rest st \<and>
        ((r = 0 \<and> view st' = (view st)((ns, k) := None)) \<or> (r = - 1 \<and> view st' = view st))"
    and del_ns_law: "ready st \<Longrightarrow> \<exists>r st'. del_ns ns st = Some (r, st') \<and> ready st' \<and> rest st' = rest st \<and>
        ((r = 0 \<and> view st' = (\<lambda>(ns', k). if ns' = ns then None else view st (ns', k))) \<or>
         (r = - 1 \<and> view st' = view st))"
begin

lemma get_hit:
  assumes "ready st" "view st (ns, k) = Some v" "length v \<le> sz" "sz \<le> length buf" "sz < 2 ^ 32"
  obtains st' where "get ns k buf sz st = Some (0, v @ drop (length v) buf, length v, st')"
    "ready st'" "view st' = view st" "rest st' = rest st"
  using get_law [OF assms(1,4,5), of ns k] assms(2,3) by auto

lemma get_miss:
  assumes "ready st" "view st (ns, k) = None" "sz \<le> length buf" "sz < 2 ^ 32"
  obtains n st' where "get ns k buf sz st = Some (- 1, buf, n, st')"
    "ready st'" "view st' = view st" "rest st' = rest st"
  using get_law [OF assms(1,3,4), of ns k] assms(2) by auto

lemma set_get:
  assumes "ready st" "set_key ns k v st = Some (0, st1)" "length v \<le> sz" "sz \<le> length buf" "sz < 2 ^ 32"
  obtains st2 where "get ns k buf sz st1 = Some (0, v @ drop (length v) buf, length v, st2)"
    "ready st2" "view st2 = view st1" "rest st2 = rest st"
proof -
  have 1: "ready st1" "view st1 = (view st)((ns, k) \<mapsto> v)" "rest st1 = rest st"
    using set_law [OF assms(1), of ns k v] assms(2) by auto
  show thesis
    by (rule get_hit [of st1 ns k v sz buf]) (use 1 assms that in auto)
qed

lemma set_get_other:
  assumes "ready st" "set_key ns k v st = Some (r, st1)" "(ns', k') \<noteq> (ns, k)"
  shows "view st1 (ns', k') = view st (ns', k')"
  using set_law [OF assms(1), of ns k v] assms(2,3) by auto

lemma del_get:
  assumes "ready st" "del ns k st = Some (0, st1)" "sz \<le> length buf" "sz < 2 ^ 32"
  obtains n st2 where "get ns k buf sz st1 = Some (- 1, buf, n, st2)"
proof -
  have "ready st1" "view st1 (ns, k) = None"
    using del_law [OF assms(1), of ns k] assms(2) by auto
  from get_miss [OF this assms(3,4)] show thesis by (metis that)
qed

end

definition ks_ready :: "('n, 'h, 's) hap_ks_scheme \<Rightarrow> bool" where
  "ks_ready st \<longleftrightarrow> nvs_lawful (nvs_fn st) \<and> keystore_init_done st \<and> hap_platform_nvs_partition st \<noteq> None"

definition ks_view :: "('n, 'h, 's) hap_ks_scheme \<Rightarrow> string \<times> string \<Rightarrow> byte list option" where
  "ks_view st = (\<lambda>(ns, k). nvs_view (nvs_fn st) (nvs st) (the (hap_platform_nvs_partition st), ns, k))"

definition ks_rest :: "('n, 'h, 's) hap_ks_scheme \<Rightarrow> ('n, 'h, 's) hap_ks_scheme" where
  "ks_rest st = st\<lparr>nvs := undefined\<rparr>"

lemma ks_rest_upd [simp]: "ks_rest (st\<lparr>nvs := n\<rparr>) = ks_rest st"
  by (simp add: ks_rest_def)

lemma ks_ready_upd [simp]: "ks_ready (st\<lparr>nvs := n\<rparr>) = ks_ready st"
  by (simp add: ks_ready_def)

lemma keystore_op_law:
  assumes "ks_ready st" "\<And>p. nvs_effect (nvs_fn st) p ns (oper p) (f p)"
  shows "\<exists>r n. keystore_op (hap_platform_nvs_partition st) (\<lambda>p. nvs_write (nvs_fn st) p ns (oper p)) st =
      Some (r, st\<lparr>nvs := n\<rparr>) \<and>
    ((r = 0 \<and> nvs_view (nvs_fn st) n = f (the (hap_platform_nvs_partition st)) (nvs_view (nvs_fn st) (nvs st))) \<or>
     (r = - 1 \<and> nvs_view (nvs_fn st) n = nvs_view (nvs_fn st) (nvs st)))"
proof -
  obtain p where p: "hap_platform_nvs_partition st = Some p" using assms(1) by (auto simp: ks_ready_def)
  obtain r n where w: "nvs_write (nvs_fn st) p ns (oper p) (nvs st) = (r, n)" by fastforce
  have "\<And>h m. fst (nvs_commit (nvs_fn st) h m) = 0"
    using assms(1) by (simp add: ks_ready_def nvs_lawful_def)
  from nvs_effect_write [OF assms(2) this w] w p assms(1) show ?thesis
    by (auto simp: keystore_op_def ks_ready_def)
qed

interpretation ks: kv_store ks_ready ks_view ks_rest hap_keystore_get hap_keystore_set
    hap_keystore_delete hap_keystore_delete_namespace
proof
  fix st :: "('a, 'b, 'c) hap_ks_scheme" and ns k :: string and v :: "byte list"
  assume r: "ks_ready st"
  then have law: "nvs_lawful (nvs_fn st)" by (simp add: ks_ready_def)
  obtain p where p: "hap_platform_nvs_partition st = Some p" using r by (auto simp: ks_ready_def)
  have view: "ks_view (st\<lparr>nvs := n\<rparr>) = (\<lambda>(ns, k). nvs_view (nvs_fn st) n (p, ns, k))" for n
    by (simp add: ks_view_def p)
  have view0: "ks_view st = (\<lambda>(ns, k). nvs_view (nvs_fn st) (nvs st) (p, ns, k))"
    by (simp add: ks_view_def p)
  {
    have "\<And>p. nvs_effect (nvs_fn st) p ns (\<lambda>h. nvs_set_blob (nvs_fn st) h k v) (\<lambda>m. m((p, ns, k) \<mapsto> v))"
      using law by (simp add: nvs_lawful_def)
    from keystore_op_law [OF r this] obtain q n where "keystore_op (Some p) (\<lambda>p. nvs_write (nvs_fn st) p ns (\<lambda>h. nvs_set_blob (nvs_fn st) h k v)) st = Some (q, st\<lparr>nvs := n\<rparr>)" and
        "(q = 0 \<and> nvs_view (nvs_fn st) n = (nvs_view (nvs_fn st) (nvs st))((p, ns, k) \<mapsto> v)) \<or>
         (q = - 1 \<and> nvs_view (nvs_fn st) n = nvs_view (nvs_fn st) (nvs st))"
      unfolding p by auto
    with r p
    show "\<exists>r st'. hap_keystore_set ns k v st = Some (r, st') \<and> ks_ready st' \<and> ks_rest st' = ks_rest st \<and>
        ((r = 0 \<and> ks_view st' = (ks_view st)((ns, k) \<mapsto> v)) \<or> (r = - 1 \<and> ks_view st' = ks_view st))"
      by (intro exI [of _ q] exI [of _ "st\<lparr>nvs := n\<rparr>"]) (auto simp: hap_keystore_set_def hap_platform_keystore_set_def [abs_def] view view0 fun_eq_iff)
  next
    have "\<And>p. nvs_effect (nvs_fn st) p ns (\<lambda>h. nvs_erase_key (nvs_fn st) h k) (\<lambda>m. m((p, ns, k) := None))"
      using law by (simp add: nvs_lawful_def)
    from keystore_op_law [OF r this] obtain q n where "keystore_op (Some p) (\<lambda>p. nvs_write (nvs_fn st) p ns (\<lambda>h. nvs_erase_key (nvs_fn st) h k)) st = Some (q, st\<lparr>nvs := n\<rparr>)" and
        "(q = 0 \<and> nvs_view (nvs_fn st) n = (nvs_view (nvs_fn st) (nvs st))((p, ns, k) := None)) \<or>
         (q = - 1 \<and> nvs_view (nvs_fn st) n = nvs_view (nvs_fn st) (nvs st))"
      unfolding p by auto
    with r p
    show "\<exists>r st'. hap_keystore_delete ns k st = Some (r, st') \<and> ks_ready st' \<and> ks_rest st' = ks_rest st \<and>
        ((r = 0 \<and> ks_view st' = (ks_view st)((ns, k) := None)) \<or> (r = - 1 \<and> ks_view st' = ks_view st))"
      by (intro exI [of _ q] exI [of _ "st\<lparr>nvs := n\<rparr>"]) (auto simp: hap_keystore_delete_def hap_platform_keystore_delete_def [abs_def] view view0 fun_eq_iff)
  next
    have "\<And>p. nvs_effect (nvs_fn st) p ns (nvs_erase_all (nvs_fn st)) (drop_namespace p ns)"
      using law by (simp add: nvs_lawful_def)
    from keystore_op_law [OF r this] obtain q n where "keystore_op (Some p) (\<lambda>p. nvs_write (nvs_fn st) p ns (nvs_erase_all (nvs_fn st))) st = Some (q, st\<lparr>nvs := n\<rparr>)" and
        "(q = 0 \<and> nvs_view (nvs_fn st) n = drop_namespace p ns (nvs_view (nvs_fn st) (nvs st))) \<or>
         (q = - 1 \<and> nvs_view (nvs_fn st) n = nvs_view (nvs_fn st) (nvs st))"
      unfolding p by auto
    with r p
    show "\<exists>r st'. hap_keystore_delete_namespace ns st = Some (r, st') \<and> ks_ready st' \<and> ks_rest st' = ks_rest st \<and>
        ((r = 0 \<and> ks_view st' = (\<lambda>(ns', k). if ns' = ns then None else ks_view st (ns', k))) \<or>
         (r = - 1 \<and> ks_view st' = ks_view st))"
      by (intro exI [of _ q] exI [of _ "st\<lparr>nvs := n\<rparr>"]) (auto simp: hap_keystore_delete_namespace_def hap_platform_keystore_delete_namespace_def [abs_def]
          view view0 fun_eq_iff drop_namespace_def)
  }
  fix sz :: nat and buf :: "byte list"
  assume sz: "sz \<le> length buf" "sz < 2 ^ 32"
  let ?api = "nvs_fn st"
  obtain e h n1 where o: "nvs_open_from_partition ?api p ns False (nvs st) = (e, h, n1)" by (metis prod_cases3)
  have reads: "nvs_reads ?api" using law by (simp add: nvs_lawful_def)
  show "\<exists>r buf' n st'. hap_keystore_get ns k buf sz st = Some (r, buf', n, st') \<and> ks_ready st' \<and>
      ks_view st' = ks_view st \<and> ks_rest st' = ks_rest st \<and>
      (case ks_view st (ns, k) of
         Some v \<Rightarrow> if length v \<le> sz then r = 0 \<and> buf' = v @ drop (length v) buf \<and> n = length v
                   else r = - 1 \<and> buf' = buf
       | None \<Rightarrow> r = - 1 \<and> buf' = buf)"
  proof (cases "e = 0")
    case False
    have "ks_view st (ns, k) = None" using o False by (simp add: view0 nvs_view_def)
    moreover have "nvs_view ?api n1 = nvs_view ?api (nvs st)"
      using reads o False unfolding nvs_reads_def by blast
    ultimately show ?thesis using o False r p
      by (simp add: hap_keystore_get_def hap_keystore_get_part_def hap_platform_keystore_get_def
          ks_ready_def view view0)
  next
    case True
    obtain e2 bs len n2 where g: "nvs_get_blob ?api h k sz n1 = (e2, bs, len, n2)" by (metis prod_cases4)
    have *: "nvs_view ?api (nvs_close ?api h n2) = nvs_view ?api (nvs st)"
      "e2 = 0 \<longleftrightarrow> (\<exists>v. nvs_view ?api (nvs st) (p, ns, k) = Some v \<and> length v \<le> sz)"
      "e2 = 0 \<Longrightarrow> nvs_view ?api (nvs st) (p, ns, k) = Some bs \<and> len = length bs"
      using reads o g True sz(2) unfolding nvs_reads_def by blast+
    show ?thesis
    proof (cases "e2 = 0")
      case True
      with * have bs: "nvs_view ?api (nvs st) (p, ns, k) = Some bs" "length bs \<le> sz" "len = length bs" by auto
      then have "wr_block buf 0 bs = Some (bs @ drop (length bs) buf)" using sz by (simp add: wr_block_def)
      with True \<open>e = 0\<close> o g r p bs *(1) show ?thesis
        by (simp add: hap_keystore_get_def hap_keystore_get_part_def hap_platform_keystore_get_def
            ks_ready_def view view0 Let_def)
    next
      case False
      with * \<open>e = 0\<close> o g r p show ?thesis
        by (auto simp: hap_keystore_get_def hap_keystore_get_part_def hap_platform_keystore_get_def
            ks_ready_def view view0 Let_def split: option.split)
    qed
  qed
qed

section \<open>Properties\<close>

lemma map_nvs_view:
  "nvs_view map_nvs n = (\<lambda>x. case n x of None \<Rightarrow> None | Some v \<Rightarrow> if length v < 2 ^ 32 then Some v else None)"
proof
  fix x :: "string \<times> string \<times> string"
  obtain p ns k where "x = (p, ns, k)" by (cases x)
  then show "nvs_view map_nvs n x =
      (case n x of None \<Rightarrow> None | Some v \<Rightarrow> if length v < 2 ^ 32 then Some v else None)"
    by (cases "n x") (auto simp: nvs_view_def map_nvs_def)
qed

lemma map_nvs_lawful: "nvs_lawful map_nvs"
  unfolding nvs_lawful_def
proof (intro conjI allI)
  show "nvs_reads map_nvs"
    unfolding nvs_reads_def map_nvs_view by (auto simp: map_nvs_def split: option.splits if_splits)
  show "fst (nvs_commit map_nvs h n) = 0" for h n by (simp add: map_nvs_def)
  show "nvs_effect map_nvs p ns (\<lambda>h. nvs_set_blob map_nvs h k v) (\<lambda>m. m((p, ns, k) \<mapsto> v))" for p ns k v
    unfolding nvs_effect_def map_nvs_view by (auto simp: map_nvs_def intro!: ext split: if_splits)
  show "nvs_effect map_nvs p ns (\<lambda>h. nvs_erase_key map_nvs h k) (\<lambda>m. m((p, ns, k) := None))" for p ns k
    unfolding nvs_effect_def map_nvs_view by (auto simp: map_nvs_def intro!: ext split: if_splits)
  show "nvs_effect map_nvs p ns (nvs_erase_all map_nvs) (drop_namespace p ns)" for p ns
    unfolding nvs_effect_def map_nvs_view
    by (auto simp: map_nvs_def drop_namespace_def intro!: ext split: if_splits)
qed

text \<open>A device with this NVS, after the init of the keystore.\<close>

definition boot_ks :: "(kv, string \<times> string) hap_ks" where
  "boot_ks = hap_objs.extend boot_objs \<lparr>nvs_fn = map_nvs, nvs = Map.empty, runtime_partition = ''nvs'',
     factory_partition = ''factory_nvs'', keystore_init_done = True,
     hap_platform_nvs_partition = Some ''nvs'',
     hap_platform_factory_nvs_partition = Some ''factory_nvs''\<rparr>"

lemma boot_ks_ready [simp]: "ks_ready boot_ks"
  by (simp add: ks_ready_def boot_ks_def hap_objs.defs map_nvs_lawful)



text \<open>A value that was written but could not be committed is reported as stored.\<close>

theorem keystore_commit_unchecked:
  assumes "nvs_open_from_partition api p ns True n = (0, h, n1)"
    and "nvs_set_blob api h k v n1 = (0, n2)" and "nvs_commit api h n2 = (e, n3)"
  shows "hap_platform_keystore_set api p ns k v n = (0, nvs_close api h n3)"
  using assms by (simp add: hap_platform_keystore_set_def nvs_write_def)

lemma keystore_commit_unchecked_witness:
  "hap_platform_keystore_set (map_nvs\<lparr>nvs_commit := \<lambda>h n. (5, n)\<rparr>) ''nvs'' ''a'' ''b'' [1] Map.empty =
     (0, [(''nvs'', ''a'', ''b'') \<mapsto> [1]])"
  by (subst keystore_commit_unchecked [where e = 5 and h = "(''nvs'', ''a'')"]) (auto simp: map_nvs_def)

end
