(* ===== verification/Hap_Priv.thy ===== *)
theory Hap_Priv
  imports Keystore
begin

text \<open>
  The global state \<open>hap_priv\<close> (\<open>esp_hap_database.h\<close>), the controllers that are paired with the
  accessory (\<open>esp_hap_controllers.h\<close>) and the functions of the platform that the core calls:
  the random numbers, SHA-512, base64 and Ed25519 key pairs of ESP-IDF, mbedTLS and libsodium are
  fields of \<open>hap_env\<close> about which nothing is assumed. An event that is reported to the
  application is appended to a log; what the application does with it is outside the model.
\<close>

section \<open>Structures\<close>

datatype hap_event =
    HAP_EVENT_CTRL_PAIRED
  | HAP_EVENT_CTRL_UNPAIRED
  | HAP_EVENT_CTRL_CONNECTED
  | HAP_EVENT_CTRL_DISCONNECTED
  | HAP_EVENT_PAIRING_STARTED
  | HAP_EVENT_PAIRING_ABORTED
  | HAP_EVENT_GET_ACC_COMPLETED
  | HAP_EVENT_GET_CHAR_COMPLETED
  | HAP_EVENT_SET_CHAR_COMPLETED
  | HAP_EVENT_ACC_REBOOTING

datatype hap_unique_param = UNIQUE_NONE | UNIQUE_SSID | UNIQUE_NAME

record hap_cfg =
  task_stack_size :: u32
  task_priority :: byte
  max_event_notif_chars :: byte
  unique_param :: hap_unique_param
  recv_timeout :: byte
  send_timeout :: byte
  sw_token_max_len :: nat
  disable_config_num_update :: bool

record hap_setup_info =
  si_salt :: "byte list"
  si_verifier :: "byte list"

text \<open>
  \<open>hap_ctrl_info_t\<close> is packed: 64 bytes of identifier, 32 bytes of key and one byte of
  permissions. It is kept as its 97 bytes, the form in which it is stored in the keystore.
\<close>

definition HAP_MAX_CONTROLLERS :: nat where "HAP_MAX_CONTROLLERS = 16"
definition HAP_CTRL_ID_LEN :: nat where "HAP_CTRL_ID_LEN = 64"
definition ED_KEY_LEN :: nat where "ED_KEY_LEN = 32"
definition HAP_MAX_SESSIONS :: nat where "HAP_MAX_SESSIONS = 8"

definition ctrl_info_size :: nat where "ctrl_info_size = 97"

record hap_ctrl_data =
  ci_info :: "byte list"
  ci_valid :: bool
  ci_index :: byte

definition info_id :: "byte list \<Rightarrow> byte list" where "info_id b = take 64 b"
definition info_ltpk :: "byte list \<Rightarrow> byte list" where "info_ltpk b = take 32 (drop 64 b)"
definition info_perms :: "byte list \<Rightarrow> byte" where "info_perms b = b ! 96"

definition zero_ctrl :: hap_ctrl_data where
  "zero_ctrl = \<lparr>ci_info = replicate ctrl_info_size 0, ci_valid = False, ci_index = 0\<rparr>"

text \<open>\<open>ltska\<close> and \<open>ltpka\<close> are adjacent 32 byte arrays; \<open>p_ltk\<close> is the two of them.\<close>

record hap_priv =
  p_primary_acc :: hap_acc_cfg
  p_config_num :: u32
  p_cur_aid :: u32
  p_raw_acc_id :: "byte list"
  p_acc_id :: string
  p_setup_id :: string
  p_setup_hash :: "byte list"
  p_setup_hash_str :: string
  p_ltk :: "byte list"
  p_cid :: nat
  p_controllers :: "hap_ctrl_data list"
  p_sessions :: "ptr option list"
  p_pair_attempts :: byte
  p_setup_info :: "hap_setup_info option"
  p_setup_code :: "string option"
  p_features :: byte
  p_cfg :: hap_cfg
  p_transport :: nat
  p_pairing_flags :: u32
  p_state_num :: u16
  p_disconnected_event_sent :: bool
  p_auth_type :: nat

record hap_env =
  esp_random :: "nat \<Rightarrow> u32"
  sha512 :: "byte list \<Rightarrow> byte list"
  base64_encode :: "byte list \<Rightarrow> string"
  ed25519_keypair :: "nat \<Rightarrow> byte list \<times> byte list"
  wifi_mac :: "byte list"

record ('n, 'h) hap_sys = "('n, 'h) hap_ks" +
  priv :: hap_priv
  env :: hap_env
  rng_count :: nat
  reported :: "(hap_event \<times> byte list) list"

definition upd_priv :: "(hap_priv \<Rightarrow> hap_priv) \<Rightarrow> ('n, 'h, 's) hap_sys_scheme \<Rightarrow> ('n, 'h, 's) hap_sys_scheme" where
  "upd_priv f st = st\<lparr>priv := f (priv st)\<rparr>"

definition hap_report_event ::
    "hap_event \<Rightarrow> byte list \<Rightarrow> ('n, 'h, 's) hap_sys_scheme \<Rightarrow> ('n, 'h, 's) hap_sys_scheme" where
  "hap_report_event ev d st = st\<lparr>reported := reported st @ [(ev, d)]\<rparr>"

definition cfg_init :: hap_cfg where
  "cfg_init = \<lparr>task_stack_size = 4096, task_priority = 7, max_event_notif_chars = 8,
     unique_param = UNIQUE_SSID, recv_timeout = 10, send_timeout = 10, sw_token_max_len = 1200,
     disable_config_num_update = False\<rparr>"

definition zero_priv :: hap_priv where
  "zero_priv = \<lparr>p_primary_acc = \<lparr>cfg_name = None, cfg_model = None, cfg_manufacturer = None,
       cfg_serial_num = None, cfg_fw_rev = None, cfg_hw_rev = None, cfg_pv = None, cfg_cid = 0,
       cfg_identify_routine = None\<rparr>,
     p_config_num = 0, p_cur_aid = 0, p_raw_acc_id = replicate 6 0, p_acc_id = '''', p_setup_id = '''',
     p_setup_hash = replicate 4 0, p_setup_hash_str = '''', p_ltk = replicate 64 0, p_cid = 0,
     p_controllers = replicate HAP_MAX_CONTROLLERS zero_ctrl,
     p_sessions = replicate HAP_MAX_SESSIONS None, p_pair_attempts = 0, p_setup_info = None,
     p_setup_code = None, p_features = 0, p_cfg = cfg_init, p_transport = 0, p_pairing_flags = 0,
     p_state_num = 0, p_disconnected_event_sent = False, p_auth_type = 0\<rparr>"

text \<open>\<open>hap_priv\<close> at power on, on the device of \<open>boot_ks\<close>.\<close>

definition boot_sys :: "(kv, string \<times> string) hap_sys" where
  "boot_sys = hap_ks.extend boot_ks \<lparr>priv = zero_priv,
     env = \<lparr>esp_random = \<lambda>n. of_nat n, sha512 = \<lambda>b. replicate 64 0, base64_encode = \<lambda>b. ''AAAAAA=='',
       ed25519_keypair = \<lambda>n. (replicate 32 0, replicate 64 0), wifi_mac = [0, 0, 0, 0, 0, 0]\<rparr>,
     rng_count = 0, reported = []\<rparr>"

text \<open>\<open>esp_mfi_get_random\<close>: the bytes of successive random words, least significant first.\<close>

definition esp_mfi_get_random :: "nat \<Rightarrow> ('n, 'h, 's) hap_sys_scheme \<Rightarrow> byte list \<times> ('n, 'h, 's) hap_sys_scheme" where
  "esp_mfi_get_random len st =
     (take len (concat (map (\<lambda>i. le_bytes 4 (esp_random (env st) (rng_count st + i))) [0..<(len + 3) div 4])),
      st\<lparr>rng_count := rng_count st + (len + 3) div 4\<rparr>)"

section \<open>C strings\<close>

text \<open>\<open>strcmp\<close> on two buffers: \<open>None\<close> when it runs past the end of one of them.\<close>

fun strcmp_eq :: "byte list \<Rightarrow> byte list \<Rightarrow> bool option" where
  "strcmp_eq (x # xs) (y # ys) =
     (if x \<noteq> y then Some False else if x = 0 then Some True else strcmp_eq xs ys)"
| "strcmp_eq _ _ = None"

definition c_str :: "byte list \<Rightarrow> byte list" where
  "c_str b = takeWhile (\<lambda>x. x \<noteq> 0) b"

lemma strcmp_eq_c_str:
  "0 \<in> set a \<Longrightarrow> 0 \<in> set b \<Longrightarrow> strcmp_eq a b = Some (c_str a = c_str b)"
  by (induction a b rule: strcmp_eq.induct) (auto simp: c_str_def)

text \<open>\<open>%d\<close> of a number that is not negative.\<close>

fun dec_str :: "nat \<Rightarrow> string" where
  "dec_str n = (if n < 10 then [char_of (48 + n)] else dec_str (n div 10) @ [char_of (48 + n mod 10)])"

declare dec_str.simps [simp del]

lemma dec_str_index_inj: "i < 16 \<Longrightarrow> j < 16 \<Longrightarrow> dec_str i = dec_str j \<longleftrightarrow> i = j"
proof -
  have "distinct (map dec_str [0..<16])" by code_simp
  then have inj: "inj_on dec_str {0..<16}" by (simp add: distinct_map)
  show "i < 16 \<Longrightarrow> j < 16 \<Longrightarrow> dec_str i = dec_str j \<longleftrightarrow> i = j"
    using inj by (auto simp: inj_on_def)
qed

end
