(* ===== verification/Controllers.thy ===== *)
theory Controllers
  imports Hap_Priv
begin

text \<open>
  The paired controllers (\<open>esp_hap_core/src/esp_hap_controllers.c\<close>): a table of 16 entries in
  \<open>hap_priv\<close> and its copy in the keystore, one key per entry. A pointer to an entry is its
  position in the table.
\<close>

section \<open>The code\<close>

definition HAP_KEYSTORE_NAMESPACE_CTRL :: string where "HAP_KEYSTORE_NAMESPACE_CTRL = ''hap_ctrl''"

definition upd_ctrl ::
    "nat \<Rightarrow> (hap_ctrl_data \<Rightarrow> hap_ctrl_data) \<Rightarrow> ('n, 'h, 's) hap_sys_scheme \<Rightarrow> ('n, 'h, 's) hap_sys_scheme" where
  "upd_ctrl i f st = upd_priv (\<lambda>p. p\<lparr>p_controllers := (p_controllers p)[i := f (p_controllers p ! i)]\<rparr>) st"

fun controllers_load :: "nat list \<Rightarrow> ('n, 'h, 's) hap_sys_scheme \<Rightarrow> ('n, 'h, 's) hap_sys_scheme option" where
  "controllers_load [] st = Some st"
| "controllers_load (i # is) st = do {
     (ret, info, info_size, st) \<leftarrow> hap_keystore_get HAP_KEYSTORE_NAMESPACE_CTRL (dec_str i)
        (ci_info (p_controllers (priv st) ! i)) ctrl_info_size st;
     let st = upd_ctrl i (\<lambda>c. c\<lparr>ci_info := info\<rparr>) st;
     let st = (if ret = HAP_SUCCESS \<and> info_size = ctrl_info_size
               then upd_ctrl i (\<lambda>c. c\<lparr>ci_index := of_nat i, ci_valid := True\<rparr>) st else st);
     controllers_load is st }"

definition hap_controllers_init ::
    "('n, 'h, 's) hap_sys_scheme \<Rightarrow> (int \<times> ('n, 'h, 's) hap_sys_scheme) option" where
  "hap_controllers_init st = do {
     let st = upd_priv (\<lambda>p. p\<lparr>p_controllers := replicate HAP_MAX_CONTROLLERS zero_ctrl\<rparr>) st;
     st \<leftarrow> controllers_load [0..<HAP_MAX_CONTROLLERS] st;
     Some (HAP_SUCCESS, st) }"

definition hap_controller_get_empty_loc ::
    "('n, 'h, 's) hap_sys_scheme \<Rightarrow> nat option \<times> ('n, 'h, 's) hap_sys_scheme" where
  "hap_controller_get_empty_loc st =
     (case find (\<lambda>i. \<not> ci_valid (p_controllers (priv st) ! i)) [0..<HAP_MAX_CONTROLLERS] of
        None \<Rightarrow> (None, st)
      | Some i \<Rightarrow> (Some i, upd_ctrl i (\<lambda>c. c\<lparr>ci_index := of_nat i\<rparr>) st))"

definition hap_get_paired_controller_count :: "('n, 'h, 's) hap_sys_scheme \<Rightarrow> nat" where
  "hap_get_paired_controller_count st =
     length (filter (\<lambda>i. ci_valid (p_controllers (priv st) ! i)) [0..<HAP_MAX_CONTROLLERS])"

definition is_accessory_paired :: "('n, 'h, 's) hap_sys_scheme \<Rightarrow> bool" where
  "is_accessory_paired st \<longleftrightarrow> list_ex (\<lambda>i. ci_valid (p_controllers (priv st) ! i)) [0..<HAP_MAX_CONTROLLERS]"

definition is_admin_paired :: "('n, 'h, 's) hap_sys_scheme \<Rightarrow> bool" where
  "is_admin_paired st \<longleftrightarrow> list_ex (\<lambda>i. ci_valid (p_controllers (priv st) ! i) \<and>
     info_perms (ci_info (p_controllers (priv st) ! i)) \<noteq> 0) [0..<HAP_MAX_CONTROLLERS]"

definition hap_controller_save ::
    "nat \<Rightarrow> ('n, 'h, 's) hap_sys_scheme \<Rightarrow> (int \<times> ('n, 'h, 's) hap_sys_scheme) option" where
  "hap_controller_save i st = do {
     let st = upd_ctrl i (\<lambda>c. c\<lparr>ci_valid := True\<rparr>) st;
     let c = p_controllers (priv st) ! i;
     (ret, st) \<leftarrow> hap_keystore_set HAP_KEYSTORE_NAMESPACE_CTRL (dec_str (unat (ci_index c))) (ci_info c) st;
     if ret \<noteq> HAP_SUCCESS then Some (HAP_FAIL, st)
     else Some (HAP_SUCCESS, hap_report_event HAP_EVENT_CTRL_PAIRED (info_id (ci_info c)) st) }"

text \<open>\<open>strncpy\<close> copies up to the terminator and fills the rest with zeros.\<close>

definition strncpy :: "nat \<Rightarrow> byte list \<Rightarrow> byte list" where
  "strncpy n b = take n (c_str b @ replicate n 0)"

definition hap_controller_remove ::
    "nat option \<Rightarrow> ('n, 'h, 's) hap_sys_scheme \<Rightarrow> ('n, 'h, 's) hap_sys_scheme option" where
  "hap_controller_remove ctrl st = (case ctrl of
       None \<Rightarrow> Some st
     | Some i \<Rightarrow> do {
         let c = p_controllers (priv st) ! i;
         let old_id = strncpy HAP_CTRL_ID_LEN (ci_info c);
         (_, st) \<leftarrow> hap_keystore_delete HAP_KEYSTORE_NAMESPACE_CTRL (dec_str (unat (ci_index c))) st;
         let st = upd_ctrl i (\<lambda>_. zero_ctrl) st;
         Some (hap_report_event HAP_EVENT_CTRL_UNPAIRED old_id st) })"

fun find_ctrl :: "byte list \<Rightarrow> hap_ctrl_data list \<Rightarrow> nat list \<Rightarrow> nat option option" where
  "find_ctrl ctrl_id cs [] = Some None"
| "find_ctrl ctrl_id cs (i # is) =
     (if \<not> ci_valid (cs ! i) then find_ctrl ctrl_id cs is
      else do { b \<leftarrow> strcmp_eq (ci_info (cs ! i)) ctrl_id; if b then Some (Some i) else find_ctrl ctrl_id cs is })"

definition hap_get_controller :: "byte list \<Rightarrow> ('n, 'h, 's) hap_sys_scheme \<Rightarrow> nat option option" where
  "hap_get_controller ctrl_id st = find_ctrl ctrl_id (p_controllers (priv st)) [0..<HAP_MAX_CONTROLLERS]"

definition hap_erase_controller_info ::
    "('n, 'h, 's) hap_sys_scheme \<Rightarrow> ('n, 'h, 's) hap_sys_scheme option" where
  "hap_erase_controller_info st = do {
     (_, st) \<leftarrow> hap_keystore_delete_namespace HAP_KEYSTORE_NAMESPACE_CTRL st; Some st }"

section \<open>The table\<close>

lemma priv_upd_simps [simp]:
  "priv (upd_priv f st) = f (priv st)" "ks_ready (upd_priv f st) = ks_ready st"
  "ks_view (upd_priv f st) = ks_view st"
  by (simp_all add: upd_priv_def ks_ready_def ks_view_def)

lemma upd_ctrl_simps [simp]:
  "ks_ready (upd_ctrl i f st) = ks_ready st" "ks_view (upd_ctrl i f st) = ks_view st"
  "p_controllers (priv (upd_ctrl i f st)) = (p_controllers (priv st))[i := f (p_controllers (priv st) ! i)]"
  by (simp_all add: upd_ctrl_def)

lemma report_simps [simp]:
  "priv (hap_report_event e d st) = priv st" "ks_ready (hap_report_event e d st) = ks_ready st"
  "ks_view (hap_report_event e d st) = ks_view st"
  by (simp_all add: hap_report_event_def ks_ready_def ks_view_def)

lemma ks_rest_priv: "ks_rest st' = ks_rest st \<Longrightarrow> priv st' = priv st"
  unfolding ks_rest_def by (metis hap_ks.select_convs hap_ks.surjective hap_sys.select_convs(1)
      hap_sys.surjective hap_sys.update_convs(1) hap_ks.update_convs(2))

section \<open>The table and its copy in the keystore\<close>

definition ctrl_key :: "nat \<Rightarrow> string \<times> string" where
  "ctrl_key i = (HAP_KEYSTORE_NAMESPACE_CTRL, dec_str i)"

text \<open>The entry that the keystore gives for a position.\<close>

definition ctrl_entry :: "(string \<times> string \<Rightarrow> byte list option) \<Rightarrow> nat \<Rightarrow> hap_ctrl_data" where
  "ctrl_entry m i = (case m (ctrl_key i) of
       None \<Rightarrow> zero_ctrl
     | Some v \<Rightarrow> if length v = ctrl_info_size then \<lparr>ci_info = v, ci_valid = True, ci_index = of_nat i\<rparr>
                 else if length v < ctrl_info_size
                 then zero_ctrl\<lparr>ci_info := v @ replicate (ctrl_info_size - length v) 0\<rparr>
                 else zero_ctrl)"

definition synced :: "('n, 'h, 's) hap_sys_scheme \<Rightarrow> bool" where
  "synced st \<longleftrightarrow> ks_ready st \<and> length (p_controllers (priv st)) = 16 \<and>
     (\<forall>i < 16. let c = p_controllers (priv st) ! i in
        if ci_valid c
        then ci_index c = of_nat i \<and> length (ci_info c) = ctrl_info_size \<and> ks_view st (ctrl_key i) = Some (ci_info c)
        else \<forall>v. ks_view st (ctrl_key i) = Some v \<longrightarrow> length v \<noteq> ctrl_info_size)"

lemma ctrl_key_inj: "i < 16 \<Longrightarrow> j < 16 \<Longrightarrow> ctrl_key i = ctrl_key j \<longleftrightarrow> i = j"
  by (simp add: ctrl_key_def dec_str_index_inj)

text \<open>Everything of \<open>hap_priv\<close> but the table.\<close>

definition priv_frame :: "('n, 'h, 's) hap_sys_scheme \<Rightarrow> hap_priv" where
  "priv_frame st = (priv st)\<lparr>p_controllers := []\<rparr>"

lemma priv_frame_upd_ctrl [simp]: "priv_frame (upd_ctrl i f st) = priv_frame st"
  by (simp add: priv_frame_def upd_ctrl_def)

lemma zero_ctrl_simps [simp]:
  "ci_valid zero_ctrl = False" "ci_index zero_ctrl = 0" "ci_info zero_ctrl = replicate ctrl_info_size 0"
  by (simp_all add: zero_ctrl_def)

lemma controllers_load_step:
  assumes "ks_ready st" "length (p_controllers (priv st)) = 16" "i < 16" "p_controllers (priv st) ! i = zero_ctrl"
  obtains st' where "controllers_load (i # is) st = controllers_load is st'" "ks_ready st'"
    "ks_view st' = ks_view st" "priv_frame st' = priv_frame st"
    "p_controllers (priv st') = (p_controllers (priv st))[i := ctrl_entry (ks_view st) i]"
proof -
  have sz: "ctrl_info_size \<le> length (replicate ctrl_info_size (0 :: byte))" "ctrl_info_size < 2 ^ 32"
    by (simp_all add: ctrl_info_size_def)
  note gl = ks.get_law [OF assms(1) sz, of HAP_KEYSTORE_NAMESPACE_CTRL "dec_str i", folded ctrl_key_def]
  from gl obtain r buf n st1 where g: "hap_keystore_get HAP_KEYSTORE_NAMESPACE_CTRL (dec_str i)
      (replicate ctrl_info_size 0) ctrl_info_size st = Some (r, buf, n, st1)"
    and st1: "ks_ready st1" "ks_view st1 = ks_view st" "ks_rest st1 = ks_rest st"
    and c: "case ks_view st (ctrl_key i) of
         Some v \<Rightarrow> if length v \<le> ctrl_info_size
           then r = 0 \<and> buf = v @ drop (length v) (replicate ctrl_info_size 0) \<and> n = length v
           else r = - 1 \<and> buf = replicate ctrl_info_size 0
       | None \<Rightarrow> r = - 1 \<and> buf = replicate ctrl_info_size 0"
    by (elim exE conjE)
  have p: "priv st1 = priv st" using st1(3) by (rule ks_rest_priv)
  let ?st2 = "upd_ctrl i (\<lambda>c. c\<lparr>ci_info := buf\<rparr>) st1"
  let ?st3 = "if r = HAP_SUCCESS \<and> n = ctrl_info_size
    then upd_ctrl i (\<lambda>c. c\<lparr>ci_index := of_nat i, ci_valid := True\<rparr>) ?st2 else ?st2"
  show thesis
  proof (rule that [of ?st3])
    show "controllers_load (i # is) st = controllers_load is ?st3"
      using g assms(4) by (simp add: Let_def)
    show "ks_ready ?st3" "ks_view ?st3 = ks_view st" using st1 by simp_all
    have "priv_frame st1 = priv_frame st" using p by (simp add: priv_frame_def)
    then show "priv_frame ?st3 = priv_frame st" by simp
    have len: "i < length (p_controllers (priv st))" using assms(2,3) by simp
    have tab: "p_controllers (priv ?st3) = (p_controllers (priv st))[i := if r = HAP_SUCCESS \<and> n = ctrl_info_size
        then zero_ctrl\<lparr>ci_info := buf, ci_index := of_nat i, ci_valid := True\<rparr> else zero_ctrl\<lparr>ci_info := buf\<rparr>]"
      using len assms(4) p by simp
    have "(if r = HAP_SUCCESS \<and> n = ctrl_info_size
        then zero_ctrl\<lparr>ci_info := buf, ci_index := of_nat i, ci_valid := True\<rparr> else zero_ctrl\<lparr>ci_info := buf\<rparr>) =
        ctrl_entry (ks_view st) i"
      using c by (cases "ks_view st (ctrl_key i)")
        (auto simp: ctrl_entry_def zero_ctrl_def split: if_splits)
    then show "p_controllers (priv ?st3) = (p_controllers (priv st))[i := ctrl_entry (ks_view st) i]"
      unfolding tab by simp
  qed
qed

lemma controllers_load_spec:
  assumes "ks_ready st" "length (p_controllers (priv st)) = 16" "distinct is" "\<forall>i \<in> set is. i < 16"
    and "\<forall>i \<in> set is. p_controllers (priv st) ! i = zero_ctrl"
  shows "\<exists>st'. controllers_load is st = Some st' \<and> ks_ready st' \<and> ks_view st' = ks_view st \<and>
    priv_frame st' = priv_frame st \<and> p_controllers (priv st') =
      map (\<lambda>j. if j \<in> set is then ctrl_entry (ks_view st) j else p_controllers (priv st) ! j) [0..<16]"
  using assms
proof (induction "is" arbitrary: st)
  case Nil
  then show ?case by (auto simp: list_eq_iff_nth_eq)
next
  case (Cons i "is")
  then obtain st1 where st1: "controllers_load (i # is) st = controllers_load is st1" "ks_ready st1"
    "ks_view st1 = ks_view st" "priv_frame st1 = priv_frame st"
    "p_controllers (priv st1) = (p_controllers (priv st))[i := ctrl_entry (ks_view st) i]"
    using controllers_load_step [of st i "is"] by auto
  have "\<exists>st'. controllers_load is st1 = Some st' \<and> ks_ready st' \<and> ks_view st' = ks_view st1 \<and>
    priv_frame st' = priv_frame st1 \<and> p_controllers (priv st') =
      map (\<lambda>j. if j \<in> set is then ctrl_entry (ks_view st1) j else p_controllers (priv st1) ! j) [0..<16]"
    using Cons.prems st1 by (intro Cons.IH) (auto simp: nth_list_update)
  moreover have "map (\<lambda>j. if j \<in> set is then ctrl_entry (ks_view st1) j else p_controllers (priv st1) ! j) [0..<16] =
      map (\<lambda>j. if j \<in> set (i # is) then ctrl_entry (ks_view st) j else p_controllers (priv st) ! j) [0..<16]"
    using Cons.prems st1 by (auto simp: nth_list_update)
  ultimately show ?case using st1 by auto
qed

lemma hap_controllers_table:
  assumes "ks_ready st"
  obtains st' where "hap_controllers_init st = Some (HAP_SUCCESS, st')" "ks_view st' = ks_view st"
    "p_controllers (priv st') = map (ctrl_entry (ks_view st)) [0..<16]" "synced st'"
    "priv_frame st' = priv_frame st"
proof -
  let ?st = "upd_priv (\<lambda>p. p\<lparr>p_controllers := replicate HAP_MAX_CONTROLLERS zero_ctrl\<rparr>) st"
  have f: "priv_frame ?st = priv_frame st" by (simp add: priv_frame_def)
  have "\<exists>st'. controllers_load [0..<HAP_MAX_CONTROLLERS] ?st = Some st' \<and> ks_ready st' \<and>
    ks_view st' = ks_view ?st \<and> priv_frame st' = priv_frame ?st \<and> p_controllers (priv st') =
      map (\<lambda>j. if j \<in> set [0..<HAP_MAX_CONTROLLERS] then ctrl_entry (ks_view ?st) j
               else p_controllers (priv ?st) ! j) [0..<16]"
    using assms by (intro controllers_load_spec) (simp_all add: HAP_MAX_CONTROLLERS_def)
  then obtain st' where st': "controllers_load [0..<HAP_MAX_CONTROLLERS] ?st = Some st'" "ks_ready st'"
    "ks_view st' = ks_view st" "priv_frame st' = priv_frame st"
    "p_controllers (priv st') = map (ctrl_entry (ks_view st)) [0..<16]"
    using f by (auto simp: HAP_MAX_CONTROLLERS_def cong: map_cong)
  have "synced st'"
    using st' by (auto simp: synced_def Let_def ctrl_entry_def split: option.splits)
  with st' show ?thesis using that [of st'] by (simp add: hap_controllers_init_def)
qed

text \<open>After \<open>hap_controllers_init\<close> the table is what the keystore holds: an entry is valid
  exactly when its key holds 97 bytes, and then it holds these bytes and its own index.\<close>

theorem hap_controllers_init_correct:
  assumes "ks_ready st"
  shows "\<exists>st'. hap_controllers_init st = Some (HAP_SUCCESS, st') \<and> ks_view st' = ks_view st \<and>
    p_controllers (priv st') = map (ctrl_entry (ks_view st)) [0..<16] \<and> synced st' \<and>
    (priv st')\<lparr>p_controllers := []\<rparr> = (priv st)\<lparr>p_controllers := []\<rparr>"
  by (rule hap_controllers_table [OF assms]) (simp add: priv_frame_def)

lemma boot_sys_ready [simp]: "ks_ready boot_sys"
  by (simp add: ks_ready_def boot_sys_def hap_ks.defs boot_ks_def hap_objs.defs map_nvs_lawful)

lemma hap_controllers_init_correct_witness:
  "\<exists>st'. hap_controllers_init boot_sys = Some (HAP_SUCCESS, st') \<and> synced st'"
  using hap_controllers_init_correct [OF boot_sys_ready] by blast

lemma find_empty:
  assumes "hap_controller_get_empty_loc st = (Some i, st1)"
  shows "i < 16" "\<not> ci_valid (p_controllers (priv st) ! i)" "st1 = upd_ctrl i (\<lambda>c. c\<lparr>ci_index := of_nat i\<rparr>) st"
  using assms by (auto simp: hap_controller_get_empty_loc_def HAP_MAX_CONTROLLERS_def find_Some_iff
      split: option.splits)

lemma controller_added:
  assumes "synced st" "hap_controller_get_empty_loc st = (Some i, st1)" "length info = ctrl_info_size"
    and "hap_controller_save i (upd_ctrl i (\<lambda>c. c\<lparr>ci_info := info\<rparr>) st1) = Some (HAP_SUCCESS, st2)"
  shows "synced st2 \<and> ci_valid (p_controllers (priv st2) ! i) \<and> ci_info (p_controllers (priv st2) ! i) = info \<and>
    (\<forall>j < 16. j \<noteq> i \<longrightarrow> p_controllers (priv st2) ! j = p_controllers (priv st) ! j) \<and>
    (\<exists>st3. hap_controllers_init st2 = Some (HAP_SUCCESS, st3) \<and>
       (\<forall>j < 16. ci_valid (p_controllers (priv st3) ! j) = ci_valid (p_controllers (priv st2) ! j) \<and>
          (ci_valid (p_controllers (priv st2) ! j) \<longrightarrow>
             p_controllers (priv st3) ! j = p_controllers (priv st2) ! j)))"
proof -
  have len: "length (p_controllers (priv st)) = 16" "ks_ready st" using assms(1) by (simp_all add: synced_def)
  note e = find_empty [OF assms(2)]
  let ?c = "(p_controllers (priv st) ! i)\<lparr>ci_index := of_nat i, ci_info := info, ci_valid := True\<rparr>"
  let ?st = "upd_ctrl i (\<lambda>c. c\<lparr>ci_valid := True\<rparr>) (upd_ctrl i (\<lambda>c. c\<lparr>ci_info := info\<rparr>) st1)"
  have tab: "p_controllers (priv ?st) = (p_controllers (priv st))[i := ?c]"
    using e len by simp
  have idx: "unat (ci_index ?c) = i" using e(1) by (simp add: unat_of_nat)
  have rdy: "ks_ready ?st" "ks_view ?st = ks_view st" using e len by simp_all
  note sl = ks.set_law [OF rdy(1), of HAP_KEYSTORE_NAMESPACE_CTRL "dec_str i" info, folded ctrl_key_def]
  from sl obtain r st' where s: "hap_keystore_set HAP_KEYSTORE_NAMESPACE_CTRL (dec_str i) info ?st = Some (r, st')"
    "ks_ready st'" "ks_rest st' = ks_rest ?st"
    "(r = 0 \<and> ks_view st' = (ks_view ?st)(ctrl_key i \<mapsto> info)) \<or> (r = - 1 \<and> ks_view st' = ks_view ?st)"
    by (elim exE conjE)
  have p: "priv st' = priv ?st" using s(3) by (rule ks_rest_priv)
  have sv: "hap_controller_save i (upd_ctrl i (\<lambda>c. c\<lparr>ci_info := info\<rparr>) st1) =
     (if r \<noteq> HAP_SUCCESS then Some (HAP_FAIL, st') else Some (HAP_SUCCESS, hap_report_event HAP_EVENT_CTRL_PAIRED (info_id info) st'))"
    unfolding hap_controller_save_def tab Let_def using s(1) idx e(1) len(1) by (simp add: tab)
  then have r0: "r = 0" and st2: "st2 = hap_report_event HAP_EVENT_CTRL_PAIRED (info_id info) st'"
    using assms(4) by (auto split: if_splits)
  have view: "ks_view st2 = (ks_view st)(ctrl_key i \<mapsto> info)" using s(4) r0 rdy(2) st2 by simp
  have tab2: "p_controllers (priv st2) = (p_controllers (priv st))[i := ?c]" using st2 p tab by simp
  have sync: "synced st2"
    unfolding synced_def Let_def
  proof (intro conjI allI impI)
    show "ks_ready st2" "length (p_controllers (priv st2)) = 16" using st2 s(2) tab2 len by simp_all
    fix j :: nat assume j: "j < 16"
    show "if ci_valid (p_controllers (priv st2) ! j)
       then ci_index (p_controllers (priv st2) ! j) = of_nat j \<and>
         length (ci_info (p_controllers (priv st2) ! j)) = ctrl_info_size \<and>
         ks_view st2 (ctrl_key j) = Some (ci_info (p_controllers (priv st2) ! j))
       else \<forall>v. ks_view st2 (ctrl_key j) = Some v \<longrightarrow> length v \<noteq> ctrl_info_size"
      using assms(1,3) j e(1) ctrl_key_inj [OF j e(1)] len
      by (cases "j = i") (auto simp: tab2 view synced_def Let_def nth_list_update)
  qed
  obtain st3 where "hap_controllers_init st2 = Some (HAP_SUCCESS, st3)"
    "p_controllers (priv st3) = map (ctrl_entry (ks_view st2)) [0..<16]"
    by (rule hap_controllers_table [of st2]) (use sync in \<open>auto simp: synced_def\<close>)
  moreover have "ctrl_entry (ks_view st2) j = p_controllers (priv st2) ! j"
    if "j < 16" "ci_valid (p_controllers (priv st2) ! j)" for j
    using sync that by (auto simp: synced_def Let_def ctrl_entry_def)
  moreover have "\<not> ci_valid (ctrl_entry (ks_view st2) j)"
    if "j < 16" "\<not> ci_valid (p_controllers (priv st2) ! j)" for j
    using sync that by (auto simp: synced_def Let_def ctrl_entry_def split: option.split)
  ultimately have "\<exists>st3. hap_controllers_init st2 = Some (HAP_SUCCESS, st3) \<and>
       (\<forall>j < 16. ci_valid (p_controllers (priv st3) ! j) = ci_valid (p_controllers (priv st2) ! j) \<and>
          (ci_valid (p_controllers (priv st2) ! j) \<longrightarrow>
             p_controllers (priv st3) ! j = p_controllers (priv st2) ! j))"
    by (intro exI [of _ st3]) auto
  with sync tab2 e(1) len(1) show ?thesis by (simp add: nth_list_update)
qed


text \<open>A complete pairing on a fresh device, for the examples.\<close>

definition demo_info :: "byte list" where
  "demo_info = replicate 36 65 @ replicate 28 0 @ replicate 32 7 @ [1]"

lemma synced_fresh: "synced (upd_priv (\<lambda>p. p) boot_sys)"
proof -
  have "length (p_controllers (priv boot_sys)) = 16" "\<And>i. i < 16 \<Longrightarrow> p_controllers (priv boot_sys) ! i = zero_ctrl"
    by (simp_all add: boot_sys_def hap_ks.defs zero_priv_def HAP_MAX_CONTROLLERS_def)
  moreover have "ks_view boot_sys x = None" for x
    by (simp add: ks_view_def map_nvs_view boot_sys_def hap_ks.defs boot_ks_def hap_objs.defs split: prod.split)
  ultimately show ?thesis by (simp add: synced_def)
qed

lemma upd_priv_id [simp]: "upd_priv (\<lambda>p. p) st = st"
  by (simp add: upd_priv_def)

lemma empty_loc_boot:
  "hap_controller_get_empty_loc boot_sys = (Some 0, upd_ctrl 0 (\<lambda>c. c\<lparr>ci_index := of_nat 0\<rparr>) boot_sys)"
proof -
  have "find (\<lambda>i. \<not> ci_valid (p_controllers (priv boot_sys) ! i)) [0..<16] = Some 0"
    by (simp add: upt_rec boot_sys_def hap_ks.defs zero_priv_def HAP_MAX_CONTROLLERS_def)
  then show ?thesis by (simp add: hap_controller_get_empty_loc_def HAP_MAX_CONTROLLERS_def)
qed

lemma map_nvs_set:
  assumes "nvs_fn st = map_nvs" "keystore_init_done st" "hap_platform_nvs_partition st = Some p" "length v < 2 ^ 32"
  shows "hap_keystore_set ns k v st = Some (0, st\<lparr>nvs := (nvs st)((p, ns, k) \<mapsto> v)\<rparr>)"
  using assms by (simp add: hap_keystore_set_def keystore_op_def hap_platform_keystore_set_def nvs_write_def
      map_nvs_def)

lemma boot_ctrls [simp]: "p_controllers (priv boot_sys) = replicate 16 zero_ctrl"
  by (simp add: boot_sys_def hap_ks.defs zero_priv_def HAP_MAX_CONTROLLERS_def)

lemma save_boot:
  assumes "length info = ctrl_info_size"
  shows "\<exists>st. hap_controller_save 0 (upd_ctrl 0 (\<lambda>c. c\<lparr>ci_info := info\<rparr>)
      (upd_ctrl 0 (\<lambda>c. c\<lparr>ci_index := of_nat 0\<rparr>) boot_sys)) = Some (HAP_SUCCESS, st)"
proof -
  let ?st = "upd_ctrl 0 (\<lambda>c. c\<lparr>ci_valid := True\<rparr>) (upd_ctrl 0 (\<lambda>c. c\<lparr>ci_info := info\<rparr>)
      (upd_ctrl 0 (\<lambda>c. c\<lparr>ci_index := of_nat 0\<rparr>) boot_sys))"
  have c: "ci_index (p_controllers (priv ?st) ! 0) = 0" "ci_info (p_controllers (priv ?st) ! 0) = info"
    by (simp_all add: boot_ctrls)
  have "hap_keystore_set HAP_KEYSTORE_NAMESPACE_CTRL (dec_str 0) info ?st =
      Some (0, ?st\<lparr>nvs := (nvs ?st)((''nvs'', HAP_KEYSTORE_NAMESPACE_CTRL, dec_str 0) \<mapsto> info)\<rparr>)"
    by (rule map_nvs_set) (simp_all add: upd_ctrl_def upd_priv_def boot_sys_def hap_ks.defs boot_ks_def
        hap_objs.defs assms ctrl_info_size_def)
  then show ?thesis
    unfolding hap_controller_save_def Let_def c by simp
qed


lemma find_ctrl_spec:
  assumes "\<forall>i \<in> set is. ci_valid (cs ! i) \<longrightarrow> 0 \<in> set (ci_info (cs ! i))" "0 \<in> set ctrl_id"
  shows "find_ctrl ctrl_id cs is =
    Some (find (\<lambda>i. ci_valid (cs ! i) \<and> c_str (ci_info (cs ! i)) = c_str ctrl_id) is)"
  using assms by (induction "is") (auto simp: strcmp_eq_c_str)

text \<open>When the identifiers in the table are terminated and different, a controller is found
  by its identifier, and only by it.\<close>

theorem hap_get_controller_correct:
  assumes "0 \<in> set ctrl_id"
    and "\<forall>i < 16. ci_valid (p_controllers (priv st) ! i) \<longrightarrow> 0 \<in> set (ci_info (p_controllers (priv st) ! i))"
    and "\<forall>i < 16. \<forall>j < 16. ci_valid (p_controllers (priv st) ! i) \<and> ci_valid (p_controllers (priv st) ! j) \<and>
      c_str (ci_info (p_controllers (priv st) ! i)) = c_str (ci_info (p_controllers (priv st) ! j)) \<longrightarrow> i = j"
  shows "hap_get_controller ctrl_id st = Some (Some i) \<longleftrightarrow>
    i < 16 \<and> ci_valid (p_controllers (priv st) ! i) \<and> c_str (ci_info (p_controllers (priv st) ! i)) = c_str ctrl_id"
proof -
  have eq: "hap_get_controller ctrl_id st = Some (find (\<lambda>i. ci_valid (p_controllers (priv st) ! i) \<and>
      c_str (ci_info (p_controllers (priv st) ! i)) = c_str ctrl_id) [0..<16])"
    unfolding hap_get_controller_def HAP_MAX_CONTROLLERS_def
    by (rule find_ctrl_spec [OF _ assms(1)]) (simp add: assms(2))
  show ?thesis
  proof
    assume "hap_get_controller ctrl_id st = Some (Some i)"
    then show "i < 16 \<and> ci_valid (p_controllers (priv st) ! i) \<and>
        c_str (ci_info (p_controllers (priv st) ! i)) = c_str ctrl_id"
      by (auto simp: eq find_Some_iff)
  next
    assume i: "i < 16 \<and> ci_valid (p_controllers (priv st) ! i) \<and>
        c_str (ci_info (p_controllers (priv st) ! i)) = c_str ctrl_id"
    then obtain j where j: "find (\<lambda>i. ci_valid (p_controllers (priv st) ! i) \<and>
      c_str (ci_info (p_controllers (priv st) ! i)) = c_str ctrl_id) [0..<16] = Some j"
      by (cases "find (\<lambda>i. ci_valid (p_controllers (priv st) ! i) \<and>
          c_str (ci_info (p_controllers (priv st) ! i)) = c_str ctrl_id) [0..<16]") (auto simp: find_None_iff)
    then have "j < 16" "ci_valid (p_controllers (priv st) ! j)"
      "c_str (ci_info (p_controllers (priv st) ! j)) = c_str ctrl_id"
      by (auto simp: find_Some_iff)
    then have "i = j" using assms(3) i by metis
    with j show "hap_get_controller ctrl_id st = Some (Some i)" by (simp add: eq)
  qed
qed

lemma hap_get_controller_correct_witness:
  "hap_get_controller [65, 0] (upd_ctrl 3 (\<lambda>c. \<lparr>ci_info = 65 # replicate 96 0, ci_valid = True, ci_index = 3\<rparr>) boot_sys)
     = Some (Some 3)"
proof -
  let ?st = "upd_ctrl 3 (\<lambda>c. \<lparr>ci_info = 65 # replicate 96 0, ci_valid = True, ci_index = 3\<rparr>) boot_sys"
  have "hap_get_controller [65, 0] ?st = Some (Some 3) \<longleftrightarrow> 3 < (16 :: nat) \<and> ci_valid (p_controllers (priv ?st) ! 3) \<and>
      c_str (ci_info (p_controllers (priv ?st) ! 3)) = c_str [65, 0]"
    by (rule hap_get_controller_correct) (auto simp: nth_list_update split: if_splits)
  then show ?thesis by (simp add: c_str_def)
qed

text \<open>Removing a controller frees its place only; the table stays in step with the keystore if
  the key is gone. If the keystore could not delete the key, which the code does not look at,
  the controller is paired again after the next reboot.\<close>

theorem hap_controller_remove_correct:
  assumes "synced st" "i < 16" "ci_valid (p_controllers (priv st) ! i)"
  shows "\<exists>st'. hap_controller_remove (Some i) st = Some st' \<and> \<not> ci_valid (p_controllers (priv st') ! i) \<and>
    (\<forall>j < 16. j \<noteq> i \<longrightarrow> p_controllers (priv st') ! j = p_controllers (priv st) ! j) \<and>
    (synced st' \<or> ks_view st' = ks_view st \<and> (\<exists>st2. hap_controllers_init st' = Some (HAP_SUCCESS, st2) \<and>
       p_controllers (priv st2) ! i = p_controllers (priv st) ! i))"
proof -
  let ?c = "p_controllers (priv st) ! i"
  have len: "length (p_controllers (priv st)) = 16" "ks_ready st" using assms(1) by (simp_all add: synced_def)
  have c: "ci_index ?c = of_nat i" "length (ci_info ?c) = ctrl_info_size" "ks_view st (ctrl_key i) = Some (ci_info ?c)"
    using assms by (auto simp: synced_def Let_def)
  have idx: "unat (ci_index ?c) = i" using assms(2) c by (simp add: unat_of_nat)
  note dl = ks.del_law [OF len(2), of HAP_KEYSTORE_NAMESPACE_CTRL "dec_str i", folded ctrl_key_def]
  from dl obtain r st1 where d: "hap_keystore_delete HAP_KEYSTORE_NAMESPACE_CTRL (dec_str i) st = Some (r, st1)"
    "ks_ready st1" "ks_rest st1 = ks_rest st"
    "(r = 0 \<and> ks_view st1 = (ks_view st)(ctrl_key i := None)) \<or> (r = - 1 \<and> ks_view st1 = ks_view st)"
    by (elim exE conjE)
  have p: "priv st1 = priv st" using d(3) by (rule ks_rest_priv)
  let ?st' = "hap_report_event HAP_EVENT_CTRL_UNPAIRED (strncpy HAP_CTRL_ID_LEN (ci_info ?c)) (upd_ctrl i (\<lambda>_. zero_ctrl) st1)"
  have rm: "hap_controller_remove (Some i) st = Some ?st'"
    unfolding hap_controller_remove_def Let_def option.case idx d(1) by simp
  have tab: "p_controllers (priv ?st') = (p_controllers (priv st))[i := zero_ctrl]" using p by simp
  have "synced ?st' \<or> ks_view ?st' = ks_view st \<and> (\<exists>st2. hap_controllers_init ?st' = Some (HAP_SUCCESS, st2) \<and>
       p_controllers (priv st2) ! i = ?c)"
    using d(4)
  proof (elim disjE conjE)
    assume v: "ks_view st1 = (ks_view st)(ctrl_key i := None)"
    have "synced ?st'"
      unfolding synced_def Let_def
    proof (intro conjI allI impI)
      show "ks_ready ?st'" "length (p_controllers (priv ?st')) = 16" using d(2) tab len by simp_all
      fix j :: nat assume j: "j < 16"
      show "if ci_valid (p_controllers (priv ?st') ! j)
         then ci_index (p_controllers (priv ?st') ! j) = of_nat j \<and>
           length (ci_info (p_controllers (priv ?st') ! j)) = ctrl_info_size \<and>
           ks_view ?st' (ctrl_key j) = Some (ci_info (p_controllers (priv ?st') ! j))
         else \<forall>v. ks_view ?st' (ctrl_key j) = Some v \<longrightarrow> length v \<noteq> ctrl_info_size"
        using assms j ctrl_key_inj [OF j assms(2)] len
        by (cases "j = i") (auto simp: tab v p synced_def Let_def nth_list_update)
    qed
    then show ?thesis ..
  next
    assume v: "ks_view st1 = ks_view st"
    obtain st2 where "hap_controllers_init ?st' = Some (HAP_SUCCESS, st2)"
      "p_controllers (priv st2) = map (ctrl_entry (ks_view ?st')) [0..<16]"
      by (rule hap_controllers_table [of ?st']) (use d(2) in auto)
    moreover have "ctrl_entry (ks_view ?st') i = ?c"
      using c v assms(3) by (simp add: ctrl_entry_def)
    ultimately show ?thesis using v assms(2) by auto
  qed
  with rm tab assms(2) len show ?thesis by (intro exI [of _ ?st']) (simp add: nth_list_update)
qed

lemma hap_controller_remove_correct_witness:
  "\<exists>(st :: (kv, string \<times> string) hap_sys) st'. ci_valid (p_controllers (priv st) ! 0) \<and> hap_controller_remove (Some 0) st = Some st' \<and>
     \<not> ci_valid (p_controllers (priv st') ! 0)"
proof -
  have len: "length demo_info = ctrl_info_size" by (simp add: demo_info_def ctrl_info_size_def)
  have sync: "synced boot_sys" using synced_fresh by simp
  from save_boot [OF len] obtain st where st: "hap_controller_save 0 (upd_ctrl 0 (\<lambda>c. c\<lparr>ci_info := demo_info\<rparr>)
      (upd_ctrl 0 (\<lambda>c. c\<lparr>ci_index := of_nat 0\<rparr>) boot_sys)) = Some (HAP_SUCCESS, st)" by blast
  have add: "synced st" "ci_valid (p_controllers (priv st) ! 0)"
    using controller_added [OF sync empty_loc_boot len st] by simp_all
  from hap_controller_remove_correct [OF add(1) _ add(2)] obtain st' where
    "hap_controller_remove (Some 0) st = Some st'" "\<not> ci_valid (p_controllers (priv st') ! 0)" by auto
  with add(2) show ?thesis by blast
qed

end
