(* ===== verification/Database.thy ===== *)
theory Database
  imports Controllers
begin

text \<open>
  The database of the accessory (\<open>esp_hap_core/src/esp_hap_database.c\<close>): identity and keys, the
  configuration number, the counter of accessory ids, the state number and the setup data, in
  \<open>hap_priv\<close> and in the keystore. A number is stored as its bytes in memory (little endian).
  \<open>hap_priv.setup_info\<close> and the SHA-512 context come from an allocation that may fail.
\<close>

section \<open>Numbers in the keystore\<close>

definition HAP_KEYSTORE_NAMESPACE_HAPMAIN :: string where "HAP_KEYSTORE_NAMESPACE_HAPMAIN = ''hap_main''"
definition HAP_FACTORY_NAMESPACE_HAP_SETUP :: string where "HAP_FACTORY_NAMESPACE_HAP_SETUP = ''hap_setup''"
definition HAP_KEY_ACC_ID :: string where "HAP_KEY_ACC_ID = ''acc_id''"
definition HAP_KEY_LTSKA :: string where "HAP_KEY_LTSKA = ''ltska''"
definition HAP_KEY_LTPKA :: string where "HAP_KEY_LTPKA = ''ltpka''"
definition HAP_KEY_CONFIG_NUM :: string where "HAP_KEY_CONFIG_NUM = ''config_num''"
definition HAP_KEY_FW_REV :: string where "HAP_KEY_FW_REV = ''fw_rev''"
definition HAP_KEY_CUR_AID :: string where "HAP_KEY_CUR_AID = ''cur_aid''"
definition HAP_KEY_STATE_NUM :: string where "HAP_KEY_STATE_NUM = ''state_num''"
definition HAP_KEY_SETUP_ID :: string where "HAP_KEY_SETUP_ID = ''setup_id''"
definition HAP_KEY_SETUP_SALT :: string where "HAP_KEY_SETUP_SALT = ''setup_salt''"
definition HAP_KEY_SETUP_VERIFIER :: string where "HAP_KEY_SETUP_VERIFIER = ''setup_verifier''"

lemmas db_key_defs = HAP_KEY_ACC_ID_def HAP_KEY_LTSKA_def HAP_KEY_LTPKA_def HAP_KEY_CONFIG_NUM_def
  HAP_KEY_FW_REV_def HAP_KEY_CUR_AID_def HAP_KEY_STATE_NUM_def

type_synonym ('n, 'h, 's) sys_step = "('n, 'h, 's) hap_sys_scheme \<Rightarrow> ('n, 'h, 's) hap_sys_scheme option"

definition keystore_save ::
    "string \<Rightarrow> (hap_priv \<Rightarrow> byte list) \<Rightarrow> ('n, 'h, 's) sys_step" where
  "keystore_save key f st = do {
     (_, st) \<leftarrow> hap_keystore_set HAP_KEYSTORE_NAMESPACE_HAPMAIN key (f (priv st)) st; Some st }"

definition hap_save_config_number :: "('n, 'h, 's) sys_step" where
  "hap_save_config_number st = keystore_save HAP_KEY_CONFIG_NUM (\<lambda>p. le_bytes 4 (p_config_num p)) st"

definition hap_get_config_number :: "('n, 'h, 's) sys_step" where
  "hap_get_config_number st = do {
     (ret, buf, _, st) \<leftarrow> hap_keystore_get HAP_KEYSTORE_NAMESPACE_HAPMAIN HAP_KEY_CONFIG_NUM
        (le_bytes 4 (p_config_num (priv st))) 4 st;
     let st = upd_priv (\<lambda>p. p\<lparr>p_config_num := of_nat (le_val buf)\<rparr>) st;
     st \<leftarrow> (if ret \<noteq> HAP_SUCCESS
            then hap_save_config_number (upd_priv (\<lambda>p. p\<lparr>p_config_num := 1\<rparr>) st) else Some st);
     if p_config_num (priv st) > 65535
     then hap_save_config_number (upd_priv (\<lambda>p. p\<lparr>p_config_num := 1\<rparr>) st) else Some st }"

definition hap_increment_and_save_config_num :: "('n, 'h, 's) sys_step" where
  "hap_increment_and_save_config_num st = do {
     let st = upd_priv (\<lambda>p. p\<lparr>p_config_num := p_config_num p + 1\<rparr>) st;
     let st = (if p_config_num (priv st) > 65535 then upd_priv (\<lambda>p. p\<lparr>p_config_num := 1\<rparr>) st else st);
     hap_save_config_number st }"

definition hap_save_state_number :: "('n, 'h, 's) sys_step" where
  "hap_save_state_number st = keystore_save HAP_KEY_STATE_NUM (\<lambda>p. le_bytes 2 (p_state_num p)) st"

definition hap_increment_and_save_state_num :: "('n, 'h, 's) sys_step" where
  "hap_increment_and_save_state_num st =
     (if is_accessory_paired st then do {
        let st = upd_priv (\<lambda>p. p\<lparr>p_state_num := p_state_num p + 1\<rparr>) st;
        let st = (if p_state_num (priv st) = 0 then upd_priv (\<lambda>p. p\<lparr>p_state_num := 1\<rparr>) st else st);
        hap_save_state_number st }
      else Some st)"

definition hap_init_state_number :: "('n, 'h, 's) sys_step" where
  "hap_init_state_number st = do {
     (ret, buf, _, st) \<leftarrow> hap_keystore_get HAP_KEYSTORE_NAMESPACE_HAPMAIN HAP_KEY_STATE_NUM
        (le_bytes 2 (p_state_num (priv st))) 2 st;
     let st = upd_priv (\<lambda>p. p\<lparr>p_state_num := of_nat (le_val buf)\<rparr>) st;
     if ret \<noteq> HAP_SUCCESS then hap_save_state_number (upd_priv (\<lambda>p. p\<lparr>p_state_num := 1\<rparr>) st)
     else hap_increment_and_save_state_num st }"

definition hap_save_cur_aid :: "('n, 'h, 's) sys_step" where
  "hap_save_cur_aid st = keystore_save HAP_KEY_CUR_AID (\<lambda>p. le_bytes 4 (p_cur_aid p)) st"

definition hap_get_cur_aid :: "('n, 'h, 's) sys_step" where
  "hap_get_cur_aid st = do {
     (ret, buf, _, st) \<leftarrow> hap_keystore_get HAP_KEYSTORE_NAMESPACE_HAPMAIN HAP_KEY_CUR_AID
        (le_bytes 4 (p_cur_aid (priv st))) 4 st;
     let st = upd_priv (\<lambda>p. p\<lparr>p_cur_aid := of_nat (le_val buf)\<rparr>) st;
     if ret \<noteq> HAP_SUCCESS then hap_save_cur_aid (upd_priv (\<lambda>p. p\<lparr>p_cur_aid := 1\<rparr>) st) else Some st }"

definition hap_get_next_aid :: "('n, 'h, 's) hap_sys_scheme \<Rightarrow> (u32 \<times> ('n, 'h, 's) hap_sys_scheme) option" where
  "hap_get_next_aid st = do {
     let st = upd_priv (\<lambda>p. p\<lparr>p_cur_aid := p_cur_aid p + 1\<rparr>) st;
     st \<leftarrow> hap_save_cur_aid st;
     Some (p_cur_aid (priv st), st) }"

section \<open>Setup data\<close>

text \<open>
  Strings of the keystore are bytes; \<open>hap_priv.setup_id\<close> is a buffer of 5 bytes, read as a C
  string (all of it when no terminator was stored).
\<close>

definition bytes_of :: "string \<Rightarrow> byte list" where "bytes_of s = map (\<lambda>c. of_nat (of_char c)) s"
definition string_of :: "byte list \<Rightarrow> string" where "string_of b = map (\<lambda>x. char_of (unat x)) (c_str b)"

definition hap_get_setup_id :: "('n, 'h, 's) hap_sys_scheme \<Rightarrow> (int \<times> ('n, 'h, 's) hap_sys_scheme) option" where
  "hap_get_setup_id st =
     (if p_setup_id (priv st) = [] then do {
        (ret, buf, _, st) \<leftarrow> hap_factory_keystore_get HAP_FACTORY_NAMESPACE_HAP_SETUP HAP_KEY_SETUP_ID
           (replicate 5 0) 5 st;
        let st = upd_priv (\<lambda>p. p\<lparr>p_setup_id := string_of buf\<rparr>) st;
        Some (if ret \<noteq> HAP_SUCCESS then HAP_FAIL else HAP_SUCCESS, st) }
      else Some (HAP_SUCCESS, st))"

definition hap_get_setup_info :: "('n, 'h, 's) hap_sys_scheme \<Rightarrow> (int \<times> ('n, 'h, 's) hap_sys_scheme) option" where
  "hap_get_setup_info st =
     (if p_setup_code (priv st) \<noteq> None then Some (HAP_SUCCESS, st)
      else if p_setup_info (priv st) \<noteq> None then Some (HAP_SUCCESS, st)
      else case new_addr st of
        (None, st) \<Rightarrow> Some (HAP_FAIL, st)
      | (Some _, st) \<Rightarrow> do {
          (r1, salt, _, st) \<leftarrow> hap_factory_keystore_get HAP_FACTORY_NAMESPACE_HAP_SETUP HAP_KEY_SETUP_SALT
             (replicate 16 0) 16 st;
          (r2, verifier, _, st) \<leftarrow> hap_factory_keystore_get HAP_FACTORY_NAMESPACE_HAP_SETUP HAP_KEY_SETUP_VERIFIER
             (replicate 384 0) 384 st;
          if r1 \<noteq> HAP_SUCCESS \<or> r2 \<noteq> HAP_SUCCESS
          then Some (HAP_FAIL, upd_priv (\<lambda>p. p\<lparr>p_setup_info := None\<rparr>) st)
          else Some (HAP_SUCCESS,
            upd_priv (\<lambda>p. p\<lparr>p_setup_info := Some \<lparr>si_salt = salt, si_verifier = verifier\<rparr>\<rparr>) st) })"

text \<open>\<open>strncmp\<close> over the 64 byte buffer and the firmware revision of the primary accessory.\<close>

definition hap_check_fw_version :: "('n, 'h, 's) sys_step" where
  "hap_check_fw_version st = do {
     (ret, fw_rev, _, st) \<leftarrow> hap_keystore_get HAP_KEYSTORE_NAMESPACE_HAPMAIN HAP_KEY_FW_REV (replicate 64 0) 64 st;
     cur \<leftarrow> cfg_fw_rev (p_primary_acc (priv st));
     if ret = HAP_SUCCESS \<and> take 64 (c_str fw_rev) = take 64 (bytes_of cur) then Some st
     else do {
       st \<leftarrow> (if ret = HAP_SUCCESS then hap_increment_and_save_config_num st else Some st);
       (_, st) \<leftarrow> hap_keystore_set HAP_KEYSTORE_NAMESPACE_HAPMAIN HAP_KEY_FW_REV (bytes_of cur) st;
       Some st } }"

definition hap_acc_setup_init :: "('n, 'h, 's) hap_sys_scheme \<Rightarrow> (int \<times> ('n, 'h, 's) hap_sys_scheme) option" where
  "hap_acc_setup_init st = do {
     (r, st) \<leftarrow> hap_get_setup_id st;
     if r \<noteq> HAP_SUCCESS then Some (HAP_FAIL, st) else do {
     (r, st) \<leftarrow> hap_get_setup_info st;
     if r \<noteq> HAP_SUCCESS then Some (HAP_FAIL, st) else
     case new_addr st of
       (None, st) \<Rightarrow> Some (HAP_FAIL, st)
     | (Some _, st) \<Rightarrow> do {
         let digest = sha512 (env st) (bytes_of (p_setup_id (priv st)) @ bytes_of (p_acc_id (priv st)));
         let hash = take 4 digest;
         let st = upd_priv (\<lambda>p. p\<lparr>p_setup_hash := hash, p_setup_hash_str := base64_encode (env st) hash\<rparr>) st;
         st \<leftarrow> hap_check_fw_version st;
         Some (HAP_SUCCESS, st) } } }"

section \<open>Identity\<close>

definition hex_upper :: "nat \<Rightarrow> char" where
  "hex_upper n = char_of (if n < 10 then 48 + n else 55 + n)"

definition hex02X :: "byte \<Rightarrow> string" where
  "hex02X b = [hex_upper (unat b div 16), hex_upper (unat b mod 16)]"

fun join_colon :: "string list \<Rightarrow> string" where
  "join_colon [] = []"
| "join_colon [s] = s"
| "join_colon (s # ss) = s @ CHR '':'' # join_colon ss"

text \<open>
  A key that is missing from the keystore leaves its array as it is. \<open>crypto_sign_ed25519_keypair\<close>
  writes 32 bytes to \<open>ltpka\<close> and 64 bytes to \<open>ltska\<close>, which has 32: the 64 bytes cover both
  arrays of \<open>p_ltk\<close>.
\<close>

definition hap_database_init :: "('n, 'h, 's) hap_sys_scheme \<Rightarrow> (int \<times> ('n, 'h, 's) hap_sys_scheme) option" where
  "hap_database_init st = do {
     (ret, acc_id, _, st) \<leftarrow> hap_keystore_get HAP_KEYSTORE_NAMESPACE_HAPMAIN HAP_KEY_ACC_ID (replicate 6 0) 6 st;
     (acc_id, st) \<leftarrow> (if ret = HAP_SUCCESS then do {
         (_, ltska, _, st) \<leftarrow> hap_keystore_get HAP_KEYSTORE_NAMESPACE_HAPMAIN HAP_KEY_LTSKA
            (take 32 (p_ltk (priv st))) 32 st;
         let st = upd_priv (\<lambda>p. p\<lparr>p_ltk := ltska @ drop 32 (p_ltk p)\<rparr>) st;
         (_, ltpka, _, st) \<leftarrow> hap_keystore_get HAP_KEYSTORE_NAMESPACE_HAPMAIN HAP_KEY_LTPKA
            (drop 32 (p_ltk (priv st))) 32 st;
         let st = upd_priv (\<lambda>p. p\<lparr>p_ltk := take 32 (p_ltk p) @ ltpka\<rparr>) st;
         Some (acc_id, st) }
       else do {
         let (acc_id, st) = esp_mfi_get_random 6 st;
         (_, st) \<leftarrow> hap_keystore_set HAP_KEYSTORE_NAMESPACE_HAPMAIN HAP_KEY_ACC_ID acc_id st;
         let (_, st) = esp_mfi_get_random 32 st;
         let (pk, sk) = ed25519_keypair (env st) (rng_count st);
         let st = upd_priv (\<lambda>p. p\<lparr>p_ltk := take 32 (p_ltk p) @ pk\<rparr>) st;
         let st = upd_priv (\<lambda>p. p\<lparr>p_ltk := sk\<rparr>) st\<lparr>rng_count := rng_count st + 1\<rparr>;
         (_, st) \<leftarrow> hap_keystore_set HAP_KEYSTORE_NAMESPACE_HAPMAIN HAP_KEY_LTSKA (take 32 (p_ltk (priv st))) st;
         (_, st) \<leftarrow> hap_keystore_set HAP_KEYSTORE_NAMESPACE_HAPMAIN HAP_KEY_LTPKA (drop 32 (p_ltk (priv st))) st;
         Some (acc_id, st) });
     let st = upd_priv (\<lambda>p. p\<lparr>p_raw_acc_id := acc_id, p_acc_id := join_colon (map hex02X acc_id)\<rparr>) st;
     (_, st) \<leftarrow> hap_controllers_init st;
     st \<leftarrow> hap_get_config_number st;
     st \<leftarrow> hap_get_cur_aid st;
     st \<leftarrow> hap_init_state_number st;
     Some (HAP_SUCCESS, st) }"

definition hap_get_acc_id :: "('n, 'h, 's) hap_sys_scheme \<Rightarrow> string" where
  "hap_get_acc_id st = p_acc_id (priv st)"

definition hap_erase_accessory_info :: "('n, 'h, 's) sys_step" where
  "hap_erase_accessory_info st = do {
     (_, st) \<leftarrow> hap_keystore_delete_namespace HAP_KEYSTORE_NAMESPACE_HAPMAIN st; Some st }"

definition hap_configure_unique_param ::
    "hap_unique_param \<Rightarrow> ('n, 'h, 's) hap_sys_scheme \<Rightarrow> ('n, 'h, 's) hap_sys_scheme" where
  "hap_configure_unique_param param st =
     upd_priv (\<lambda>p. p\<lparr>p_cfg := (p_cfg p)\<lparr>unique_param := param\<rparr>\<rparr>) st"

text \<open>The two configuration functions take a pointer that may be NULL.\<close>

definition hap_get_config :: "hap_cfg option \<Rightarrow> ('n, 'h, 's) hap_sys_scheme \<Rightarrow> int \<times> hap_cfg option" where
  "hap_get_config cfg st = (if cfg = None then (HAP_FAIL, None) else (HAP_SUCCESS, Some (p_cfg (priv st))))"

definition hap_set_config ::
    "hap_cfg option \<Rightarrow> ('n, 'h, 's) hap_sys_scheme \<Rightarrow> int \<times> ('n, 'h, 's) hap_sys_scheme" where
  "hap_set_config cfg st = (case cfg of
       None \<Rightarrow> (HAP_FAIL, st)
     | Some c \<Rightarrow> (HAP_SUCCESS, upd_priv (\<lambda>p. p\<lparr>p_cfg := c\<rparr>) st))"

section \<open>Reading and writing the keystore\<close>

lemma ks_rest_eq:
  assumes "ks_rest st' = ks_rest st"
  shows "st' = st\<lparr>nvs := nvs st'\<rparr>"
proof -
  have "(ks_rest st')\<lparr>nvs := nvs st'\<rparr> = (ks_rest st)\<lparr>nvs := nvs st'\<rparr>" using assms by simp
  then show ?thesis by (simp add: ks_rest_def)
qed

lemma priv_nvs [simp]: "priv (st\<lparr>nvs := n\<rparr>) = priv st" "env (st\<lparr>nvs := n\<rparr>) = env st"
  by (simp_all)

lemma ks_get_hit:
  assumes "ks_ready st" "ks_view st (ns, k) = Some v" "length v \<le> sz" "sz \<le> length buf" "sz < 2 ^ 32"
  obtains m where "hap_keystore_get ns k buf sz st = Some (0, v @ drop (length v) buf, length v, st\<lparr>nvs := m\<rparr>)"
    "ks_view (st\<lparr>nvs := m\<rparr>) = ks_view st"
  by (rule ks.get_hit [OF assms]) (metis ks_rest_eq that)

lemma ks_get_miss:
  assumes "ks_ready st" "ks_view st (ns, k) = None" "sz \<le> length buf" "sz < 2 ^ 32"
  obtains m n where "hap_keystore_get ns k buf sz st = Some (- 1, buf, n, st\<lparr>nvs := m\<rparr>)"
    "ks_view (st\<lparr>nvs := m\<rparr>) = ks_view st"
  by (rule ks.get_miss [OF assms]) (metis ks_rest_eq that)

lemma ks_set_cases:
  assumes "ks_ready st"
  obtains m where "hap_keystore_set ns k v st = Some (0, st\<lparr>nvs := m\<rparr>)"
      "ks_view (st\<lparr>nvs := m\<rparr>) = (ks_view st)((ns, k) \<mapsto> v)"
    | m where "hap_keystore_set ns k v st = Some (- 1, st\<lparr>nvs := m\<rparr>)" "ks_view (st\<lparr>nvs := m\<rparr>) = ks_view st"
proof -
  from ks.set_law [OF assms, of ns k v] obtain r st' where
    s: "hap_keystore_set ns k v st = Some (r, st')" "ks_rest st' = ks_rest st"
    "(r = 0 \<and> ks_view st' = (ks_view st)((ns, k) \<mapsto> v)) \<or> (r = - 1 \<and> ks_view st' = ks_view st)"
    by (elim exE conjE)
  have eq: "st' = st\<lparr>nvs := nvs st'\<rparr>" using s(2) by (rule ks_rest_eq)
  from s(3) show thesis
  proof (elim disjE conjE)
    assume "r = 0" "ks_view st' = (ks_view st)((ns, k) \<mapsto> v)"
    with s(1) eq show thesis using that(1) [of "nvs st'"] by simp
  next
    assume "r = - 1" "ks_view st' = ks_view st"
    with s(1) eq show thesis using that(2) [of "nvs st'"] by simp
  qed
qed

text \<open>Saving a number writes its key, or leaves the keystore as it was.\<close>

lemma keystore_save_effect:
  assumes "ks_ready st"
  obtains m where "keystore_save key f st = Some (st\<lparr>nvs := m\<rparr>)"
    "ks_view (st\<lparr>nvs := m\<rparr>) = (ks_view st)((HAP_KEYSTORE_NAMESPACE_HAPMAIN, key) \<mapsto> f (priv st)) \<or>
     ks_view (st\<lparr>nvs := m\<rparr>) = ks_view st"
proof (cases rule: ks_set_cases [OF assms, of HAP_KEYSTORE_NAMESPACE_HAPMAIN key "f (priv st)"])
  case (1 m)
  then show thesis using that [of m] by (simp add: keystore_save_def)
next
  case (2 m)
  then show thesis using that [of m] by (simp add: keystore_save_def)
qed

lemma of_nat_le_val_bytes:
  "(of_nat (le_val (le_bytes 4 w)) :: u32) = w" "(of_nat (le_val (le_bytes 2 v)) :: u16) = v"
proof -
  have "unat w < 2 ^ 32" "unat v < 2 ^ 16" using unsigned_less [of w] unsigned_less [of v] by simp_all
  then show "(of_nat (le_val (le_bytes 4 w)) :: u32) = w" "(of_nat (le_val (le_bytes 2 v)) :: u16) = v"
    by (simp_all add: le_val_le_bytes of_nat_unat)
qed

section \<open>The configuration number\<close>

definition config_key :: "string \<times> string" where
  "config_key = (HAP_KEYSTORE_NAMESPACE_HAPMAIN, HAP_KEY_CONFIG_NUM)"

definition aid_key :: "string \<times> string" where
  "aid_key = (HAP_KEYSTORE_NAMESPACE_HAPMAIN, HAP_KEY_CUR_AID)"

lemma get_config_number_reads:
  assumes "ks_ready st2" "ks_view st2 config_key = Some (le_bytes 4 n)" "n \<le> 65535"
  shows "\<exists>st3. hap_get_config_number st2 = Some st3 \<and> p_config_num (priv st3) = n"
proof -
  have "ks_view st2 (HAP_KEYSTORE_NAMESPACE_HAPMAIN, HAP_KEY_CONFIG_NUM) = Some (le_bytes 4 n)"
    using assms(2) by (simp add: config_key_def)
  from ks_get_hit [OF assms(1) this, of 4 "le_bytes 4 (p_config_num (priv st2))"]
  obtain m where "hap_keystore_get HAP_KEYSTORE_NAMESPACE_HAPMAIN HAP_KEY_CONFIG_NUM
      (le_bytes 4 (p_config_num (priv st2))) 4 st2 = Some (0, le_bytes 4 n, 4, st2\<lparr>nvs := m\<rparr>)"
    by auto
  moreover have "\<not> 65535 < n" using assms(3) by (simp add: not_less)
  ultimately show ?thesis
    by (simp add: hap_get_config_number_def Let_def of_nat_le_val_bytes)
qed

lemma next_aid_step:
  assumes "ks_ready s"
  shows "\<exists>st'. hap_get_next_aid s = Some (p_cur_aid (priv s) + 1, st') \<and>
    (ks_view st' = (ks_view s)(aid_key \<mapsto> le_bytes 4 (p_cur_aid (priv s) + 1)) \<or> ks_view st' = ks_view s)"
proof -
  let ?s = "upd_priv (\<lambda>p. p\<lparr>p_cur_aid := p_cur_aid p + 1\<rparr>) s"
  have "ks_ready ?s" using assms by simp
  from keystore_save_effect [OF this, of HAP_KEY_CUR_AID "\<lambda>p. le_bytes 4 (p_cur_aid p)"]
  obtain m where "hap_save_cur_aid ?s = Some (?s\<lparr>nvs := m\<rparr>)"
    "ks_view (?s\<lparr>nvs := m\<rparr>) = (ks_view ?s)(aid_key \<mapsto> le_bytes 4 (p_cur_aid (priv ?s))) \<or>
     ks_view (?s\<lparr>nvs := m\<rparr>) = ks_view ?s"
    unfolding hap_save_cur_aid_def aid_key_def by blast
  then show ?thesis
    by (intro exI [of _ "?s\<lparr>nvs := m\<rparr>"]) (simp add: hap_get_next_aid_def)
qed

text \<open>Incrementing the configuration number keeps it between 1 and 65535, wrapping to 1; when
  the keystore took it, the next boot reads it back.\<close>

theorem config_num_increment:
  assumes "ks_ready st" "1 \<le> p_config_num (priv st)" "p_config_num (priv st) \<le> 65535"
  shows "\<exists>st'. hap_increment_and_save_config_num st = Some st' \<and>
    p_config_num (priv st') = (if p_config_num (priv st) = 65535 then 1 else p_config_num (priv st) + 1) \<and>
    1 \<le> p_config_num (priv st') \<and> p_config_num (priv st') \<le> 65535 \<and>
    (ks_view st' = ks_view st \<or>
     (\<forall>st2. ks_ready st2 \<and> ks_view st2 = ks_view st' \<longrightarrow>
        (\<exists>st3. hap_get_config_number st2 = Some st3 \<and> p_config_num (priv st3) = p_config_num (priv st'))))"
proof -
  define w where "w = p_config_num (priv st)"
  define n where "n = (if w = 65535 then 1 else w + 1)"
  let ?st = "upd_priv (\<lambda>p. p\<lparr>p_config_num := n\<rparr>) st"
  have un: "unat w \<le> 65535" "1 \<le> unat w" using assms(2,3) by (simp_all add: word_le_nat_alt w_def)
  have succ: "unat (w + 1) = unat w + 1" using un by (simp add: unat_word_ariths)
  have big: "w + 1 > 65535 \<longleftrightarrow> w = 65535"
    using un succ by (auto simp: word_less_nat_alt word_unat_eq_iff)
  have n: "1 \<le> n" "n \<le> 65535"
    using un succ by (auto simp: word_le_nat_alt word_unat_eq_iff n_def)
  have start: "hap_increment_and_save_config_num st = hap_save_config_number ?st"
    using big by (simp add: hap_increment_and_save_config_num_def Let_def upd_priv_def n_def w_def)
  have "ks_ready ?st" using assms(1) by simp
  from keystore_save_effect [OF this, of HAP_KEY_CONFIG_NUM "\<lambda>p. le_bytes 4 (p_config_num p)"]
  obtain m where m: "hap_save_config_number ?st = Some (?st\<lparr>nvs := m\<rparr>)"
    "ks_view (?st\<lparr>nvs := m\<rparr>) = (ks_view ?st)(config_key \<mapsto> le_bytes 4 (p_config_num (priv ?st))) \<or>
     ks_view (?st\<lparr>nvs := m\<rparr>) = ks_view ?st"
    unfolding hap_save_config_number_def config_key_def by blast
  let ?st' = "?st\<lparr>nvs := m\<rparr>"
  have num: "p_config_num (priv ?st') = n" by simp
  have "ks_view ?st' = ks_view st \<or> ks_view ?st' config_key = Some (le_bytes 4 n)"
    using m(2) by auto
  then have "ks_view ?st' = ks_view st \<or> (\<forall>st2. ks_ready st2 \<and> ks_view st2 = ks_view ?st' \<longrightarrow>
      (\<exists>st3. hap_get_config_number st2 = Some st3 \<and> p_config_num (priv st3) = p_config_num (priv ?st')))"
    using get_config_number_reads [OF _ _ n(2)] num by metis
  with start m(1) n num show ?thesis
    by (intro exI [of _ ?st']) (simp only: n_def w_def simp_thms)
qed

lemma boot_priv [simp]: "priv boot_sys = zero_priv"
  by (simp add: boot_sys_def hap_ks.defs)

lemma config_num_increment_witness:
  "\<exists>st'. hap_increment_and_save_config_num (upd_priv (\<lambda>p. p\<lparr>p_config_num := 65535\<rparr>) boot_sys) = Some st' \<and>
     p_config_num (priv st') = 1"
  using config_num_increment [of "upd_priv (\<lambda>p. p\<lparr>p_config_num := 65535\<rparr>) boot_sys"] by auto

text \<open>A new accessory id is one more than the last, and when the keystore took it, the first
  id that is handed out after a reboot is the next one: no id is used twice until the counter of
  32 bits wraps.\<close>

theorem next_aid_after_reboot:
  assumes "ks_ready st" "hap_get_next_aid st = Some (a, st1)" "ks_view st1 \<noteq> ks_view st"
    and "ks_ready st2" "ks_view st2 = ks_view st1"
  shows "a = p_cur_aid (priv st) + 1 \<and>
    (\<exists>st3 st4. hap_get_cur_aid st2 = Some st3 \<and> hap_get_next_aid st3 = Some (a + 1, st4))"
proof -
  let ?n = "p_cur_aid (priv st) + 1"
  from next_aid_step [OF assms(1)] assms(2,3) have a: "a = ?n" and v: "ks_view st1 aid_key = Some (le_bytes 4 a)"
    by auto
  have "ks_view st2 (HAP_KEYSTORE_NAMESPACE_HAPMAIN, HAP_KEY_CUR_AID) = Some (le_bytes 4 a)"
    using v assms(5) by (simp add: aid_key_def)
  from ks_get_hit [OF assms(4) this, of 4 "le_bytes 4 (p_cur_aid (priv st2))"]
  obtain m where g: "hap_keystore_get HAP_KEYSTORE_NAMESPACE_HAPMAIN HAP_KEY_CUR_AID
      (le_bytes 4 (p_cur_aid (priv st2))) 4 st2 = Some (0, le_bytes 4 a, 4, st2\<lparr>nvs := m\<rparr>)"
    by auto
  let ?st3 = "upd_priv (\<lambda>p. p\<lparr>p_cur_aid := a\<rparr>) (st2\<lparr>nvs := m\<rparr>)"
  have 3: "hap_get_cur_aid st2 = Some ?st3"
    using g by (simp add: hap_get_cur_aid_def Let_def of_nat_le_val_bytes)
  have "ks_ready ?st3" using assms(4) by simp
  from next_aid_step [OF this] obtain st4 where "hap_get_next_aid ?st3 = Some (a + 1, st4)" by auto
  with a 3 show ?thesis by blast
qed

lemma next_aid_after_reboot_witness:
  "\<exists>st1 st3 st4. hap_get_next_aid boot_sys = Some (1, st1) \<and> hap_get_cur_aid st1 = Some st3 \<and>
     hap_get_next_aid st3 = Some (2, st4)"
proof -
  let ?s = "upd_priv (\<lambda>p. p\<lparr>p_cur_aid := p_cur_aid p + 1\<rparr>) boot_sys"
  have s: "hap_keystore_set HAP_KEYSTORE_NAMESPACE_HAPMAIN HAP_KEY_CUR_AID (le_bytes 4 (1 :: u32)) ?s =
      Some (0, ?s\<lparr>nvs := (nvs ?s)((''nvs'', HAP_KEYSTORE_NAMESPACE_HAPMAIN, HAP_KEY_CUR_AID) \<mapsto> le_bytes 4 (1 :: u32))\<rparr>)"
    by (rule map_nvs_set) (simp_all add: upd_priv_def boot_sys_def hap_ks.defs boot_ks_def hap_objs.defs)
  let ?st1 = "?s\<lparr>nvs := (nvs ?s)((''nvs'', HAP_KEYSTORE_NAMESPACE_HAPMAIN, HAP_KEY_CUR_AID) \<mapsto> le_bytes 4 (1 :: u32))\<rparr>"
  have aid0: "p_cur_aid zero_priv = 0" by (simp add: zero_priv_def)
  have n: "hap_get_next_aid boot_sys = Some (1, ?st1)"
    using s by (simp add: hap_get_next_aid_def hap_save_cur_aid_def keystore_save_def Let_def aid0)
  have fn: "nvs_fn ?st1 = map_nvs" "hap_platform_nvs_partition ?st1 = Some ''nvs''" "nvs_fn boot_sys = map_nvs"
    "hap_platform_nvs_partition boot_sys = Some ''nvs''" "nvs boot_sys = Map.empty"
    by (simp_all add: upd_priv_def boot_sys_def hap_ks.defs boot_ks_def hap_objs.defs)
  have "ks_view ?st1 aid_key = Some (le_bytes 4 (1 :: u32))"
    by (simp add: ks_view_def aid_key_def fn map_nvs_view)
  moreover have "ks_view boot_sys aid_key = None"
    by (simp add: ks_view_def aid_key_def fn map_nvs_view)
  ultimately have "ks_view ?st1 \<noteq> ks_view boot_sys" by (metis option.distinct(1))
  from next_aid_after_reboot [OF boot_sys_ready n this _ refl] n show ?thesis by auto
qed

section \<open>The identity of the accessory\<close>

definition ident :: "hap_priv \<Rightarrow> byte list \<times> string \<times> byte list \<times> hap_ctrl_data list" where
  "ident p = (p_raw_acc_id p, p_acc_id p, p_ltk p, p_controllers p)"

lemma ident_upd [simp]:
  "ident (p\<lparr>p_config_num := x\<rparr>) = ident p" "ident (p\<lparr>p_cur_aid := x\<rparr>) = ident p"
  "ident (p\<lparr>p_state_num := y\<rparr>) = ident p"
  by (simp_all add: ident_def)

lemma ident_frame:
  assumes "priv_frame st' = priv_frame st"
  shows "p_raw_acc_id (priv st') = p_raw_acc_id (priv st)" "p_acc_id (priv st') = p_acc_id (priv st)"
    "p_ltk (priv st') = p_ltk (priv st)"
proof -
  have "p_raw_acc_id (priv_frame st') = p_raw_acc_id (priv_frame st)" "p_acc_id (priv_frame st') = p_acc_id (priv_frame st)"
    "p_ltk (priv_frame st') = p_ltk (priv_frame st)" using assms by simp_all
  then show "p_raw_acc_id (priv st') = p_raw_acc_id (priv st)" "p_acc_id (priv st') = p_acc_id (priv st)"
    "p_ltk (priv st') = p_ltk (priv st)" by (simp_all add: priv_frame_def)
qed

text \<open>A step of the start that always returns and keeps the identity and the keystore ready.\<close>

definition ident_step :: "('n, 'h, 's) sys_step \<Rightarrow> bool" where
  "ident_step f \<longleftrightarrow> (\<forall>st. ks_ready st \<longrightarrow>
     (\<exists>st'. f st = Some st' \<and> ks_ready st' \<and> ident (priv st') = ident (priv st)))"

lemma ident_step_save: "ident_step (keystore_save key f)"
  unfolding ident_step_def
proof (intro allI impI)
  fix st :: "('a, 'b, 'c) hap_sys_scheme" assume r: "ks_ready st"
  obtain m where "keystore_save key f st = Some (st\<lparr>nvs := m\<rparr>)"
    by (rule keystore_save_effect [OF r])
  with r show "\<exists>st'. keystore_save key f st = Some st' \<and> ks_ready st' \<and> ident (priv st') = ident (priv st)"
    by simp
qed

lemma ident_step_upd:
  assumes "ident_step g" "\<And>p. ident (h p) = ident p" "ks_ready st"
  obtains st' where "g (upd_priv h st) = Some st'" "ks_ready st'" "ident (priv st') = ident (priv st)"
  using assms unfolding ident_step_def by (metis priv_upd_simps(1,2))

lemma ks_get_any:
  assumes "ks_ready st" "sz \<le> length buf" "sz < 2 ^ 32"
  obtains r b n m where "hap_keystore_get ns k buf sz st = Some (r, b, n, st\<lparr>nvs := m\<rparr>)"
  using ks.get_law [OF assms, of ns k] by (metis ks_rest_eq)

lemma ident_step_config: "ident_step hap_get_config_number"
  unfolding ident_step_def
proof (intro allI impI)
  fix st :: "('a, 'b, 'c) hap_sys_scheme" assume r: "ks_ready st"
  have sv: "ident_step (hap_save_config_number :: ('a, 'b, 'c) sys_step)"
    unfolding hap_save_config_number_def [abs_def] by (rule ident_step_save)
  obtain q b n m where g: "hap_keystore_get HAP_KEYSTORE_NAMESPACE_HAPMAIN HAP_KEY_CONFIG_NUM
      (le_bytes 4 (p_config_num (priv st))) 4 st = Some (q, b, n, st\<lparr>nvs := m\<rparr>)"
    by (rule ks_get_any [OF r, of 4 "le_bytes 4 (p_config_num (priv st))"]) auto
  let ?s = "upd_priv (\<lambda>p. p\<lparr>p_config_num := of_nat (le_val b)\<rparr>) (st\<lparr>nvs := m\<rparr>)"
  have s: "ks_ready ?s" "ident (priv ?s) = ident (priv st)" using r by simp_all
  obtain s1 where s1: "(if q \<noteq> HAP_SUCCESS then hap_save_config_number (upd_priv (\<lambda>p. p\<lparr>p_config_num := 1\<rparr>) ?s)
      else Some ?s) = Some s1" "ks_ready s1" "ident (priv s1) = ident (priv st)"
    using ident_step_upd [OF sv _ s(1), of "\<lambda>p. p\<lparr>p_config_num := 1\<rparr>"] s by (metis ident_upd(1))
  show "\<exists>st'. hap_get_config_number st = Some st' \<and> ks_ready st' \<and> ident (priv st') = ident (priv st)"
  proof (cases "p_config_num (priv s1) > 65535")
    case True
    obtain s2 where "hap_save_config_number (upd_priv (\<lambda>p. p\<lparr>p_config_num := 1\<rparr>) s1) = Some s2" "ks_ready s2"
      "ident (priv s2) = ident (priv s1)"
      by (rule ident_step_upd [OF sv _ s1(2), of "\<lambda>p. p\<lparr>p_config_num := 1\<rparr>"]) auto
    with True g s1 show ?thesis by (simp add: hap_get_config_number_def Let_def)
  next
    case False
    with g s1 show ?thesis by (simp add: hap_get_config_number_def Let_def)
  qed
qed

lemma ident_step_aid: "ident_step hap_get_cur_aid"
  unfolding ident_step_def
proof (intro allI impI)
  fix st :: "('a, 'b, 'c) hap_sys_scheme" assume r: "ks_ready st"
  have sv: "ident_step (hap_save_cur_aid :: ('a, 'b, 'c) sys_step)"
    unfolding hap_save_cur_aid_def [abs_def] by (rule ident_step_save)
  obtain q b n m where g: "hap_keystore_get HAP_KEYSTORE_NAMESPACE_HAPMAIN HAP_KEY_CUR_AID
      (le_bytes 4 (p_cur_aid (priv st))) 4 st = Some (q, b, n, st\<lparr>nvs := m\<rparr>)"
    by (rule ks_get_any [OF r, of 4 "le_bytes 4 (p_cur_aid (priv st))"]) auto
  let ?s = "upd_priv (\<lambda>p. p\<lparr>p_cur_aid := of_nat (le_val b)\<rparr>) (st\<lparr>nvs := m\<rparr>)"
  have s: "ks_ready ?s" "ident (priv ?s) = ident (priv st)" using r by simp_all
  obtain s2 where "hap_save_cur_aid (upd_priv (\<lambda>p. p\<lparr>p_cur_aid := 1\<rparr>) ?s) = Some s2" "ks_ready s2"
      "ident (priv s2) = ident (priv ?s)"
    by (rule ident_step_upd [OF sv _ s(1), of "\<lambda>p. p\<lparr>p_cur_aid := 1\<rparr>"]) auto
  with g s show "\<exists>st'. hap_get_cur_aid st = Some st' \<and> ks_ready st' \<and> ident (priv st') = ident (priv st)"
    by (simp add: hap_get_cur_aid_def Let_def)
qed

lemma ident_step_state_inc: "ident_step hap_increment_and_save_state_num"
  unfolding ident_step_def
proof (intro allI impI)
  fix st :: "('a, 'b, 'c) hap_sys_scheme" assume r: "ks_ready st"
  have sv: "ident_step (hap_save_state_number :: ('a, 'b, 'c) sys_step)"
    unfolding hap_save_state_number_def [abs_def] by (rule ident_step_save)
  let ?n = "if p_state_num (priv st) + 1 = 0 then 1 else p_state_num (priv st) + 1"
  obtain s2 where "hap_save_state_number (upd_priv (\<lambda>p. p\<lparr>p_state_num := ?n\<rparr>) st) = Some s2" "ks_ready s2"
      "ident (priv s2) = ident (priv st)"
    by (rule ident_step_upd [OF sv _ r, of "\<lambda>p. p\<lparr>p_state_num := ?n\<rparr>"]) auto
  then show "\<exists>st'. hap_increment_and_save_state_num st = Some st' \<and> ks_ready st' \<and> ident (priv st') = ident (priv st)"
    using r by (simp add: hap_increment_and_save_state_num_def Let_def upd_priv_def split: if_splits)
qed

lemma ident_step_state: "ident_step hap_init_state_number"
  unfolding ident_step_def
proof (intro allI impI)
  fix st :: "('a, 'b, 'c) hap_sys_scheme" assume r: "ks_ready st"
  have sv: "ident_step (hap_save_state_number :: ('a, 'b, 'c) sys_step)"
    unfolding hap_save_state_number_def [abs_def] by (rule ident_step_save)
  obtain q b n m where g: "hap_keystore_get HAP_KEYSTORE_NAMESPACE_HAPMAIN HAP_KEY_STATE_NUM
      (le_bytes 2 (p_state_num (priv st))) 2 st = Some (q, b, n, st\<lparr>nvs := m\<rparr>)"
    by (rule ks_get_any [OF r, of 2 "le_bytes 2 (p_state_num (priv st))"]) auto
  let ?s = "upd_priv (\<lambda>p. p\<lparr>p_state_num := of_nat (le_val b)\<rparr>) (st\<lparr>nvs := m\<rparr>)"
  have s: "ks_ready ?s" "ident (priv ?s) = ident (priv st)" using r by simp_all
  obtain s2 where "hap_save_state_number (upd_priv (\<lambda>p. p\<lparr>p_state_num := 1\<rparr>) ?s) = Some s2" "ks_ready s2"
      "ident (priv s2) = ident (priv ?s)"
    by (rule ident_step_upd [OF sv _ s(1), of "\<lambda>p. p\<lparr>p_state_num := 1\<rparr>"]) auto
  moreover obtain s3 where "hap_increment_and_save_state_num ?s = Some s3" "ks_ready s3"
      "ident (priv s3) = ident (priv ?s)"
    using ident_step_state_inc s(1) unfolding ident_step_def by blast
  ultimately show "\<exists>st'. hap_init_state_number st = Some st' \<and> ks_ready st' \<and> ident (priv st') = ident (priv st)"
    using g s by (simp add: hap_init_state_number_def Let_def)
qed

text \<open>C37: On a device that holds its identity in the keystore (6 bytes of accessory id and the two
  32 byte keys), the start of the database succeeds and restores exactly this identity and the
  paired controllers, whatever the state of the other keys.\<close>

theorem database_init_restores:
  assumes "ks_ready st" "length (p_ltk (priv st)) = 64"
    and "ks_view st (HAP_KEYSTORE_NAMESPACE_HAPMAIN, HAP_KEY_ACC_ID) = Some aid" "length aid = 6"
    and "ks_view st (HAP_KEYSTORE_NAMESPACE_HAPMAIN, HAP_KEY_LTSKA) = Some sk" "length sk = 32"
    and "ks_view st (HAP_KEYSTORE_NAMESPACE_HAPMAIN, HAP_KEY_LTPKA) = Some pk" "length pk = 32"
  shows "\<exists>st'. hap_database_init st = Some (HAP_SUCCESS, st') \<and> p_raw_acc_id (priv st') = aid \<and>
    p_acc_id (priv st') = join_colon (map hex02X aid) \<and> p_ltk (priv st') = sk @ pk \<and>
    p_controllers (priv st') = map (ctrl_entry (ks_view st)) [0..<16]"
proof -
  obtain m1 where g1: "hap_keystore_get HAP_KEYSTORE_NAMESPACE_HAPMAIN HAP_KEY_ACC_ID (replicate 6 0) 6 st =
      Some (0, aid, 6, st\<lparr>nvs := m1\<rparr>)" "ks_view (st\<lparr>nvs := m1\<rparr>) = ks_view st"
    by (rule ks_get_hit [OF assms(1,3), of 6 "replicate 6 0"]) (use assms(4) in auto)
  let ?s1 = "st\<lparr>nvs := m1\<rparr>"
  have r1: "ks_ready ?s1" using assms(1) by simp
  obtain m2 where g2: "hap_keystore_get HAP_KEYSTORE_NAMESPACE_HAPMAIN HAP_KEY_LTSKA (take 32 (p_ltk (priv st))) 32 ?s1 =
      Some (0, sk, 32, ?s1\<lparr>nvs := m2\<rparr>)" "ks_view (?s1\<lparr>nvs := m2\<rparr>) = ks_view ?s1"
    by (rule ks_get_hit [OF r1, of HAP_KEYSTORE_NAMESPACE_HAPMAIN HAP_KEY_LTSKA sk 32 "take 32 (p_ltk (priv st))"])
      (use assms g1 in auto)
  let ?s2 = "upd_priv (\<lambda>p. p\<lparr>p_ltk := sk @ drop 32 (p_ltk p)\<rparr>) (?s1\<lparr>nvs := m2\<rparr>)"
  have r2: "ks_ready ?s2" "ks_view ?s2 = ks_view st" using assms(1) g1(2) g2(2) by simp_all
  obtain m3 where g3: "hap_keystore_get HAP_KEYSTORE_NAMESPACE_HAPMAIN HAP_KEY_LTPKA (drop 32 (p_ltk (priv st))) 32 ?s2 =
      Some (0, pk, 32, ?s2\<lparr>nvs := m3\<rparr>)" "ks_view (?s2\<lparr>nvs := m3\<rparr>) = ks_view ?s2"
    by (rule ks_get_hit [OF r2(1), of HAP_KEYSTORE_NAMESPACE_HAPMAIN HAP_KEY_LTPKA pk 32 "drop 32 (p_ltk (priv st))"])
      (use assms r2(2) in auto)
  let ?s3 = "upd_priv (\<lambda>p. p\<lparr>p_raw_acc_id := aid, p_acc_id := join_colon (map hex02X aid)\<rparr>)
      (upd_priv (\<lambda>p. p\<lparr>p_ltk := take 32 (p_ltk p) @ pk\<rparr>) (?s2\<lparr>nvs := m3\<rparr>))"
  have r3: "ks_ready ?s3" "ks_view ?s3 = ks_view st" using r2 g3(2) by simp_all
  have p3: "p_raw_acc_id (priv ?s3) = aid" "p_acc_id (priv ?s3) = join_colon (map hex02X aid)"
    "p_ltk (priv ?s3) = sk @ pk" using assms(6) by simp_all
  obtain s4 where s4: "hap_controllers_init ?s3 = Some (HAP_SUCCESS, s4)"
    "p_controllers (priv s4) = map (ctrl_entry (ks_view st)) [0..<16]" "synced s4" "priv_frame s4 = priv_frame ?s3"
    by (rule hap_controllers_table [OF r3(1)]) (use r3(2) in auto)
  have i4: "ident (priv s4) = (aid, join_colon (map hex02X aid), sk @ pk, map (ctrl_entry (ks_view st)) [0..<16])"
    using ident_frame [OF s4(4)] p3 s4(2) by (simp add: ident_def)
  have r4: "ks_ready s4" using s4(3) by (simp add: synced_def)
  obtain s5 where s5: "hap_get_config_number s4 = Some s5" "ks_ready s5" "ident (priv s5) = ident (priv s4)"
    using ident_step_config r4 unfolding ident_step_def by blast
  obtain s6 where s6: "hap_get_cur_aid s5 = Some s6" "ks_ready s6" "ident (priv s6) = ident (priv s5)"
    using ident_step_aid s5(2) unfolding ident_step_def by blast
  obtain s7 where s7: "hap_init_state_number s6 = Some s7" "ident (priv s7) = ident (priv s6)"
    using ident_step_state s6(2) unfolding ident_step_def by blast
  have "hap_database_init st = Some (HAP_SUCCESS, s7)"
    using g1(1) g2(1) g3(1) s4(1) s5(1) s6(1) s7(1) assms(6) by (simp add: hap_database_init_def Let_def)
  moreover have "ident (priv s7) = (aid, join_colon (map hex02X aid), sk @ pk, map (ctrl_entry (ks_view st)) [0..<16])"
    using s7(2) s6(3) s5(3) i4 by simp
  ultimately show ?thesis by (auto simp: ident_def)
qed

text \<open>A device that was paired to nobody but has its identity.\<close>

definition known_nvs :: "string \<times> string \<times> string \<rightharpoonup> byte list" where
  "known_nvs = Map.empty(
     (''nvs'', HAP_KEYSTORE_NAMESPACE_HAPMAIN, HAP_KEY_ACC_ID) \<mapsto> [1, 2, 3, 4, 5, 171],
     (''nvs'', HAP_KEYSTORE_NAMESPACE_HAPMAIN, HAP_KEY_LTSKA) \<mapsto> replicate 32 7,
     (''nvs'', HAP_KEYSTORE_NAMESPACE_HAPMAIN, HAP_KEY_LTPKA) \<mapsto> replicate 32 9)"

lemma database_init_restores_witness:
  "\<exists>st'. hap_database_init (boot_sys\<lparr>nvs := known_nvs\<rparr>) = Some (HAP_SUCCESS, st') \<and>
     p_acc_id (priv st') = ''01:02:03:04:05:AB'' \<and> p_ltk (priv st') = replicate 32 7 @ replicate 32 9"
proof -
  let ?st = "boot_sys\<lparr>nvs := known_nvs\<rparr>"
  have r: "ks_ready ?st" by simp
  have l: "length (p_ltk (priv ?st)) = 64" by (simp add: zero_priv_def)
  have fn: "nvs_fn boot_sys = map_nvs" "hap_platform_nvs_partition boot_sys = Some ''nvs''"
    by (simp_all add: boot_sys_def hap_ks.defs boot_ks_def hap_objs.defs)
  have v: "ks_view ?st (HAP_KEYSTORE_NAMESPACE_HAPMAIN, HAP_KEY_ACC_ID) = Some [1, 2, 3, 4, 5, 171]"
    "ks_view ?st (HAP_KEYSTORE_NAMESPACE_HAPMAIN, HAP_KEY_LTSKA) = Some (replicate 32 7)"
    "ks_view ?st (HAP_KEYSTORE_NAMESPACE_HAPMAIN, HAP_KEY_LTPKA) = Some (replicate 32 9)"
    by (simp_all add: ks_view_def fn map_nvs_view known_nvs_def db_key_defs)
  have id: "join_colon (map hex02X [1, 2, 3, 4, 5, 171]) = ''01:02:03:04:05:AB''" by code_simp
  from database_init_restores [OF r l v(1) _ v(2) _ v(3)] id show ?thesis by auto
qed

end
