(* ===== verification/Hap_Acc.thy ===== *)
theory Hap_Acc
  imports Apple_Servs Database
begin

text \<open>
  Accessories (\<open>esp_hap_core/src/esp_hap_acc.c\<close>): construction with the two services that every
  accessory has, instance ids, the list of accessories behind \<open>primary_acc\<close>, accessory ids,
  lookups and deletion; and \<open>hap_disable_all_char_notif\<close> of \<open>esp_hap_char.c\<close>, which walks the
  whole database. The identify routine of the application is a parameter. Strings are copied by
  value into \<open>hap_priv.primary_acc\<close>, where the code copies the pointers.
\<close>

section \<open>Accessors and lookups\<close>

definition hap_get_first_acc :: "'s hap_objs_scheme \<Rightarrow> ptr option" where
  "hap_get_first_acc st = primary_acc st"

definition hap_acc_get_next :: "ptr option \<Rightarrow> 's hap_objs_scheme \<Rightarrow> ptr option option" where
  "hap_acc_get_next ha st =
     (if ha = None then Some None else do { a \<leftarrow> get_acc ha st; Some (a_next a) })"

definition hap_check_aid :: "ptr option \<Rightarrow> u32 \<Rightarrow> 's hap_objs_scheme \<Rightarrow> bool option" where
  "hap_check_aid accessory aid st = do { a \<leftarrow> get_acc accessory st; Some (a_aid a = aid) }"

definition hap_acc_get_first_serv :: "ptr option \<Rightarrow> 's hap_objs_scheme \<Rightarrow> ptr option option" where
  "hap_acc_get_first_serv ha st = do { a \<leftarrow> get_acc ha st; Some (a_servs a) }"

definition hap_acc_get_serv_by_iid ::
    "ptr option \<Rightarrow> u32 \<Rightarrow> 's hap_objs_scheme \<Rightarrow> ptr option option" where
  "hap_acc_get_serv_by_iid ha iid st =
     (if ha = None then Some None else do {
        hs \<leftarrow> hap_acc_get_first_serv ha st;
        list_find (\<lambda>hs. hap_serv_get_next (Some hs) st)
          (\<lambda>hs. do { s \<leftarrow> serv_at st hs; Some (s_iid s = iid) }) hs })"

definition hap_acc_get_serv_by_uuid ::
    "ptr option \<Rightarrow> string \<Rightarrow> 's hap_objs_scheme \<Rightarrow> ptr option option" where
  "hap_acc_get_serv_by_uuid ha uuid st =
     (if ha = None then Some None else do {
        hs \<leftarrow> hap_acc_get_first_serv ha st;
        list_find (\<lambda>hs. hap_serv_get_next (Some hs) st)
          (\<lambda>hs. do { s \<leftarrow> serv_at st hs; Some (s_type_uuid s = uuid) }) hs })"

text \<open>The loop of \<open>hap_acc_get_char_by_iid\<close>.\<close>

partial_function (option) find_char_in_servs ::
    "u32 \<Rightarrow> ptr option \<Rightarrow> 's hap_objs_scheme \<Rightarrow> ptr option option" where
  "find_char_in_servs iid hs st = (case hs of
       None \<Rightarrow> Some None
     | Some _ \<Rightarrow> do {
         hc \<leftarrow> hap_serv_get_char_by_iid hs iid st;
         if hc \<noteq> None then Some hc
         else do { hs \<leftarrow> hap_serv_get_next hs st; find_char_in_servs iid hs st } })"

declare find_char_in_servs.simps [code]

definition hap_acc_get_char_by_iid ::
    "ptr option \<Rightarrow> u32 \<Rightarrow> 's hap_objs_scheme \<Rightarrow> ptr option option" where
  "hap_acc_get_char_by_iid ha iid st =
     (if ha = None then Some None else do {
        hs \<leftarrow> hap_acc_get_first_serv ha st;
        find_char_in_servs iid hs st })"

definition hap_acc_get_aid :: "ptr option \<Rightarrow> 's hap_objs_scheme \<Rightarrow> u32 option" where
  "hap_acc_get_aid ha st = do { a \<leftarrow> get_acc ha st; Some (a_aid a) }"

definition hap_acc_get_by_aid :: "u32 \<Rightarrow> 's hap_objs_scheme \<Rightarrow> ptr option option" where
  "hap_acc_get_by_aid aid st =
     list_find (\<lambda>ha. hap_acc_get_next (Some ha) st)
       (\<lambda>ha. do { a \<leftarrow> acc_at st ha; Some (a_aid a = aid) }) (hap_get_first_acc st)"

text \<open>The counter of \<open>hap_count_accessories\<close> is an \<open>int\<close> that no list can overflow.\<close>

partial_function (option) count_accs :: "nat \<Rightarrow> ptr option \<Rightarrow> 's hap_objs_scheme \<Rightarrow> nat option" where
  "count_accs c ha st = (case ha of
       None \<Rightarrow> Some c
     | Some _ \<Rightarrow> do { a \<leftarrow> get_acc ha st; count_accs (Suc c) (a_next a) st })"

declare count_accs.simps [code]

definition hap_count_accessories :: "'s hap_objs_scheme \<Rightarrow> nat option" where
  "hap_count_accessories st = count_accs 0 (primary_acc st) st"

section \<open>Services and instance ids\<close>

definition acc_add_serv_char :: "ptr \<Rightarrow> 's hap_objs_scheme \<Rightarrow> ptr \<Rightarrow> 's hap_objs_scheme option" where
  "acc_add_serv_char ha st hc = do {
     a \<leftarrow> acc_at st ha;
     st \<leftarrow> upd_acc (Some ha) (\<lambda>a. a\<lparr>a_next_iid := a_next_iid a + 1\<rparr>) st;
     upd_char (Some hc) (\<lambda>c. c\<lparr>c_iid := a_next_iid a\<rparr>) st }"

definition hap_acc_add_serv ::
    "ptr option \<Rightarrow> ptr option \<Rightarrow> 's hap_objs_scheme \<Rightarrow> (int \<times> 's hap_objs_scheme) option" where
  "hap_acc_add_serv ha hs st = do {
     pa \<leftarrow> ha;
     ps \<leftarrow> hs;
     s \<leftarrow> serv_at st ps;
     if s_parent s \<noteq> None then Some (HAP_FAIL, st) else do {
       a \<leftarrow> acc_at st pa;
       st \<leftarrow> (case a_servs a of
           None \<Rightarrow> upd_acc ha (\<lambda>a. a\<lparr>a_servs := hs\<rparr>) st
         | Some temp \<Rightarrow> do {
             temp \<leftarrow> list_last (serv_next st) temp;
             upd_serv (Some temp) (\<lambda>s. s\<lparr>s_next_serv := hs\<rparr>) st });
       a \<leftarrow> acc_at st pa;
       st \<leftarrow> upd_serv hs (\<lambda>s. s\<lparr>s_iid := a_next_iid a\<rparr>) st;
       st \<leftarrow> upd_acc ha (\<lambda>a. a\<lparr>a_next_iid := a_next_iid a + 1\<rparr>) st;
       s \<leftarrow> serv_at st ps;
       st \<leftarrow> list_iter char_next (acc_add_serv_char pa) st (s_chars s);
       st \<leftarrow> upd_serv hs (\<lambda>s. s\<lparr>s_parent := ha\<rparr>) st;
       Some (0, st) } }"

text \<open>The loop of \<open>hap_acc_delete\<close>.\<close>

partial_function (option) acc_delete_servs ::
    "ptr option \<Rightarrow> ptr option \<Rightarrow> 's hap_objs_scheme \<Rightarrow> 's hap_objs_scheme option" where
  "acc_delete_servs ha hs st = (case hs of
       None \<Rightarrow> Some st
     | Some _ \<Rightarrow> do {
         s \<leftarrow> get_serv hs st;
         st \<leftarrow> upd_acc ha (\<lambda>a. a\<lparr>a_servs := s_next_serv s\<rparr>) st;
         st \<leftarrow> hap_serv_delete hs st;
         a \<leftarrow> get_acc ha st;
         acc_delete_servs ha (a_servs a) st })"

declare acc_delete_servs.simps [code]

definition hap_acc_delete :: "ptr option \<Rightarrow> 's hap_objs_scheme \<Rightarrow> 's hap_objs_scheme option" where
  "hap_acc_delete ha st = (case ha of
       None \<Rightarrow> Some st
     | Some p \<Rightarrow> do {
         a \<leftarrow> acc_at st p;
         st \<leftarrow> acc_delete_servs ha (a_servs a) st;
         Some (st\<lparr>acc_at := (acc_at st)(p := None)\<rparr>) })"

partial_function (option) delete_accs :: "ptr option \<Rightarrow> 's hap_objs_scheme \<Rightarrow> 's hap_objs_scheme option" where
  "delete_accs ha st = (case ha of
       None \<Rightarrow> Some st
     | Some _ \<Rightarrow> do {
         a \<leftarrow> get_acc ha st;
         st \<leftarrow> hap_acc_delete ha st;
         delete_accs (a_next a) st })"

declare delete_accs.simps [code]

definition hap_delete_all_accessories :: "'s hap_objs_scheme \<Rightarrow> 's hap_objs_scheme option" where
  "hap_delete_all_accessories st = delete_accs (primary_acc st) st"

section \<open>Construction\<close>

definition zero_acc :: hap_acc where
  "zero_acc = \<lparr>a_next = None, a_aid = 0, a_servs = None, a_power_off = False, a_next_iid = 0,
     a_identify_routine = None\<rparr>"

text \<open>
  The calls of \<open>hap_serv_add_char\<close> in \<open>hap_acc_create\<close>: unlike in the service constructors, a
  failure does not stop them, the results are or-ed.
\<close>

fun add_all_or :: "ptr option \<Rightarrow> 's char_ctor list \<Rightarrow> int \<Rightarrow> 's hap_objs_scheme \<Rightarrow> (int \<times> 's hap_objs_scheme) option" where
  "add_all_or hs [] ret st = Some (ret, st)"
| "add_all_or hs (mk # mks) ret st = do {
     (hc, st) \<leftarrow> mk st;
     (r, st) \<leftarrow> hap_serv_add_char hs hc st;
     add_all_or hs mks (ret OR r) st }"

definition acc_info_chars :: "hap_acc_cfg \<Rightarrow> 's char_ctor list" where
  "acc_info_chars acc_cfg =
     [\<lambda>st. Some (hap_char_bool_create HAP_CHAR_UUID_IDENTIFY HAP_CHAR_PERM_PW False st),
      \<lambda>st. Some (hap_char_string_create HAP_CHAR_UUID_MANUFACTURER HAP_CHAR_PERM_PR (cfg_manufacturer acc_cfg) st),
      \<lambda>st. Some (hap_char_string_create HAP_CHAR_UUID_MODEL HAP_CHAR_PERM_PR (cfg_model acc_cfg) st),
      \<lambda>st. Some (hap_char_string_create HAP_CHAR_UUID_NAME HAP_CHAR_PERM_PR (cfg_name acc_cfg) st),
      \<lambda>st. Some (hap_char_string_create HAP_CHAR_UUID_SERIAL_NUMBER HAP_CHAR_PERM_PR (cfg_serial_num acc_cfg) st),
      \<lambda>st. Some (hap_char_string_create HAP_CHAR_UUID_FIRMWARE_REVISION HAP_CHAR_PERM_PR (cfg_fw_rev acc_cfg) st)] @
     (if cfg_hw_rev acc_cfg \<noteq> None
      then [\<lambda>st. Some (hap_char_string_create HAP_CHAR_UUID_HARDWARE_REVISION HAP_CHAR_PERM_PR (cfg_hw_rev acc_cfg) st)]
      else [])"

text \<open>The label \<open>acc_create_fail\<close>, and the block \<open>if (first)\<close> with the protocol information service.\<close>

definition acc_create_fail :: "ptr \<Rightarrow> 's hap_objs_scheme \<Rightarrow> (ptr option \<times> 's hap_objs_scheme) option" where
  "acc_create_fail pa st = do { st \<leftarrow> hap_acc_delete (Some pa) st; Some (None, st) }"

definition acc_create_first ::
    "hap_acc_cfg \<Rightarrow> ptr \<Rightarrow> ('n, 'h, 's) hap_sys_scheme \<Rightarrow> (ptr option \<times> ('n, 'h, 's) hap_sys_scheme) option" where
  "acc_create_first acc_cfg pa st = (case hap_serv_create ''A2'' st of
       (None, st) \<Rightarrow> acc_create_fail pa st
     | (Some hs, st) \<Rightarrow> do {
         (ret, st) \<leftarrow> add_all_or (Some hs)
           [\<lambda>st. Some (hap_char_string_create ''37'' HAP_CHAR_PERM_PR (Some ''1.1.0'') st)] 0 st;
         if ret \<noteq> 0 then acc_create_fail pa st else do {
           (_, st) \<leftarrow> hap_acc_add_serv (Some pa) (Some hs) st;
           Some (Some pa, upd_priv (\<lambda>p. p\<lparr>p_cid := cfg_cid acc_cfg\<rparr>) st) } })"

definition hap_acc_create ::
    "hap_acc_cfg \<Rightarrow> ('n, 'h, 's) hap_sys_scheme \<Rightarrow> (ptr option \<times> ('n, 'h, 's) hap_sys_scheme) option" where
  "hap_acc_create acc_cfg st = (case new_addr st of
       (None, st) \<Rightarrow> Some (None, st)
     | (Some pa, st) \<Rightarrow>
         (let st = st\<lparr>acc_at := (acc_at st)(pa \<mapsto>
            zero_acc\<lparr>a_identify_routine := cfg_identify_routine acc_cfg, a_next_iid := 1\<rparr>)\<rparr>
          in case hap_serv_create ''3E'' st of
            (None, st) \<Rightarrow> acc_create_fail pa st
          | (Some hs, st) \<Rightarrow> do {
              (ret, st) \<leftarrow> add_all_or (Some hs) (acc_info_chars acc_cfg) 0 st;
              if ret \<noteq> 0 then acc_create_fail pa st else do {
                st \<leftarrow> hap_serv_set_write_cb (Some hs) (Some Write_acc_info) st;
                st \<leftarrow> hap_serv_set_priv (Some hs) (Some pa) st;
                (_, st) \<leftarrow> hap_acc_add_serv (Some pa) (Some hs) st;
                acc_create_first acc_cfg pa st } }))"

section \<open>The accessory information service\<close>

definition hap_acc_add_accessory_flags ::
    "ptr option \<Rightarrow> u32 \<Rightarrow> 's hap_objs_scheme \<Rightarrow> (int \<times> 's hap_objs_scheme) option" where
  "hap_acc_add_accessory_flags ha flags st =
     (if ha = None then Some (HAP_FAIL, st) else do {
        hs \<leftarrow> hap_acc_get_serv_by_uuid ha HAP_SERV_UUID_ACCESSORY_INFORMATION st;
        if hs = None then Some (HAP_FAIL, st) else do {
          (hc, st) \<leftarrow> hap_char_accessory_flags_create flags st;
          hap_serv_add_char hs hc st } })"

definition hap_acc_update_accessory_flags ::
    "ptr option \<Rightarrow> u32 \<Rightarrow> 's hap_objs_scheme \<Rightarrow> (int \<times> 's hap_objs_scheme) option" where
  "hap_acc_update_accessory_flags ha flags st =
     (if ha = None then Some (HAP_FAIL, st) else do {
        hs \<leftarrow> hap_acc_get_serv_by_uuid ha HAP_SERV_UUID_ACCESSORY_INFORMATION st;
        if hs = None then Some (HAP_FAIL, st) else do {
          hc \<leftarrow> hap_serv_get_char_by_uuid hs (Some HAP_CHAR_UUID_ACCESSORY_FLAGS) st;
          if hc = None then Some (HAP_FAIL, st)
          else hap_char_update_val hc (Some (set_u flags zero_val)) st } })"

definition hap_acc_add_product_data ::
    "ptr option \<Rightarrow> byte list \<Rightarrow> u32 \<Rightarrow> 's hap_objs_scheme \<Rightarrow> (int \<times> 's hap_objs_scheme) option" where
  "hap_acc_add_product_data ha product_data data_size st =
     (if ha = None then Some (HAP_FAIL, st) else do {
        hs \<leftarrow> hap_acc_get_serv_by_uuid ha HAP_SERV_UUID_ACCESSORY_INFORMATION st;
        if hs = None then Some (HAP_FAIL, st) else (case new_addr st of
            (None, st) \<Rightarrow> Some (HAP_FAIL, st)
          | (Some _, st) \<Rightarrow> do {
              buf \<leftarrow> rd_block product_data 0 (uint data_size);
              (hc, st) \<leftarrow> hap_char_product_data_create (Some \<lparr>dv_buf = Some buf, dv_buflen = data_size\<rparr>) st;
              hap_serv_add_char hs hc st }) })"

definition hap_get_product_data :: "'s hap_objs_scheme \<Rightarrow> hap_val option option" where
  "hap_get_product_data st = do {
     acc_info \<leftarrow> hap_acc_get_serv_by_uuid (hap_get_first_acc st) HAP_SERV_UUID_ACCESSORY_INFORMATION st;
     if acc_info = None then Some None else do {
       product_data \<leftarrow> hap_serv_get_char_by_uuid acc_info (Some HAP_CHAR_UUID_PRODUCT_DATA) st;
       if product_data = None then Some None else hap_char_get_val product_data st } }"

text \<open>\<open>((__hap_char_t *)hc)->val.s\<close> of the characteristic of a type.\<close>

definition char_string :: "ptr option \<Rightarrow> string \<Rightarrow> 's hap_objs_scheme \<Rightarrow> string option option" where
  "char_string hs uuid st = do {
     hc \<leftarrow> hap_serv_get_char_by_uuid hs (Some uuid) st; c \<leftarrow> get_char hc st; Some (val_s (c_val c)) }"

text \<open>It fills the strings of the structure that \<open>acc_cfg\<close> points to, and keeps the rest of it.\<close>

definition hap_acc_get_info :: "hap_acc_cfg option \<Rightarrow> 's hap_objs_scheme \<Rightarrow> hap_acc_cfg option" where
  "hap_acc_get_info acc_cfg st = do {
     cfg \<leftarrow> acc_cfg;
     ha \<leftarrow> hap_get_first_acc st;
     hs \<leftarrow> hap_acc_get_serv_by_uuid (Some ha) HAP_SERV_UUID_ACCESSORY_INFORMATION st;
     name \<leftarrow> char_string hs HAP_CHAR_UUID_NAME st;
     model \<leftarrow> char_string hs HAP_CHAR_UUID_MODEL st;
     manufacturer \<leftarrow> char_string hs HAP_CHAR_UUID_MANUFACTURER st;
     serial_num \<leftarrow> char_string hs HAP_CHAR_UUID_SERIAL_NUMBER st;
     fw_rev \<leftarrow> char_string hs HAP_CHAR_UUID_FIRMWARE_REVISION st;
     hc \<leftarrow> hap_serv_get_char_by_uuid hs (Some HAP_CHAR_UUID_HARDWARE_REVISION) st;
     hw_rev \<leftarrow> (if hc \<noteq> None then do { c \<leftarrow> get_char hc st; Some (val_s (c_val c)) } else Some None);
     hs \<leftarrow> hap_acc_get_serv_by_uuid (Some ha) HAP_SERV_UUID_PROTOCOL_INFORMATION st;
     pv \<leftarrow> char_string hs HAP_CHAR_UUID_VERSION st;
     Some (cfg\<lparr>cfg_name := name, cfg_model := model, cfg_manufacturer := manufacturer,
       cfg_serial_num := serial_num, cfg_fw_rev := fw_rev, cfg_hw_rev := hw_rev, cfg_pv := pv\<rparr>) }"

section \<open>Identify\<close>

text \<open>
  The write routine of the accessory information service. \<open>write_data\<close> is the characteristics of
  the request, \<open>statuses\<close> the status each entry points to. \<open>write_data->status\<close> is the status of
  the first entry, in every round.
\<close>

definition HAP_STATUS_SUCCESS :: int where "HAP_STATUS_SUCCESS = 0"
definition HAP_STATUS_VAL_INVALID :: int where "HAP_STATUS_VAL_INVALID = - 70410"

definition acc_info_write_one ::
    "(nat \<Rightarrow> ptr \<Rightarrow> 's hap_objs_scheme \<Rightarrow> 's hap_objs_scheme option) \<Rightarrow> ptr option \<Rightarrow> ptr option \<Rightarrow>
     int list \<Rightarrow> 's hap_objs_scheme \<Rightarrow> (int list \<times> 's hap_objs_scheme) option" where
  "acc_info_write_one app serv_priv hc statuses st = do {
     c \<leftarrow> get_char hc st;
     if c_type_uuid c = HAP_CHAR_UUID_IDENTIFY \<and> serv_priv \<noteq> None then do {
       pa \<leftarrow> serv_priv;
       a \<leftarrow> acc_at st pa;
       f \<leftarrow> a_identify_routine a;
       st \<leftarrow> app f pa st;
       Some (statuses[0 := HAP_STATUS_SUCCESS], st) }
     else Some (statuses[0 := HAP_STATUS_VAL_INVALID], st) }"

fun acc_info_write_loop ::
    "(nat \<Rightarrow> ptr \<Rightarrow> 's hap_objs_scheme \<Rightarrow> 's hap_objs_scheme option) \<Rightarrow> ptr option \<Rightarrow> ptr option list \<Rightarrow>
     int list \<Rightarrow> 's hap_objs_scheme \<Rightarrow> (int list \<times> 's hap_objs_scheme) option" where
  "acc_info_write_loop app serv_priv [] statuses st = Some (statuses, st)"
| "acc_info_write_loop app serv_priv (hc # hcs) statuses st = do {
     (statuses, st) \<leftarrow> acc_info_write_one app serv_priv hc statuses st;
     acc_info_write_loop app serv_priv hcs statuses st }"

definition hap_acc_info_write ::
    "(nat \<Rightarrow> ptr \<Rightarrow> 's hap_objs_scheme \<Rightarrow> 's hap_objs_scheme option) \<Rightarrow> ptr option list \<Rightarrow> int list \<Rightarrow>
     ptr option \<Rightarrow> 's hap_objs_scheme \<Rightarrow> (int \<times> int list \<times> 's hap_objs_scheme) option" where
  "hap_acc_info_write app write_data statuses serv_priv st = do {
     (statuses, st) \<leftarrow> acc_info_write_loop app serv_priv write_data statuses st;
     Some (HAP_SUCCESS, statuses, st) }"

section \<open>The list of accessories\<close>

definition hap_add_acc_to_list ::
    "ptr option \<Rightarrow> ptr option \<Rightarrow> 's hap_objs_scheme \<Rightarrow> 's hap_objs_scheme option" where
  "hap_add_acc_to_list primary new st = do {
     p \<leftarrow> primary;
     cur \<leftarrow> list_last (acc_next st) p;
     upd_acc (Some cur) (\<lambda>a. a\<lparr>a_next := new\<rparr>) st }"

partial_function (option) find_pred :: "ptr \<Rightarrow> ptr option \<Rightarrow> 's hap_objs_scheme \<Rightarrow> ptr option" where
  "find_pred cur old st = do {
     a \<leftarrow> acc_at st cur;
     if a_next a \<noteq> old then do { n \<leftarrow> a_next a; find_pred n old st } else Some cur }"

declare find_pred.simps [code]

definition hap_remove_acc_from_list ::
    "ptr option \<Rightarrow> ptr option \<Rightarrow> 's hap_objs_scheme \<Rightarrow> 's hap_objs_scheme option" where
  "hap_remove_acc_from_list primary old st = do {
     p \<leftarrow> primary;
     cur \<leftarrow> find_pred p old st;
     a \<leftarrow> acc_at st cur;
     b \<leftarrow> get_acc (a_next a) st;
     upd_acc (Some cur) (\<lambda>a. a\<lparr>a_next := a_next b\<rparr>) st }"

text \<open>
  The aid of a bridged accessory is kept in the keystore under the application's identifier. The
  result is an \<open>int\<close>; \<open>- 1\<close> is both the error and an aid.
\<close>

definition hap_get_unique_aid ::
    "string option \<Rightarrow> ('n, 'h, 's) hap_sys_scheme \<Rightarrow> (int \<times> ('n, 'h, 's) hap_sys_scheme) option" where
  "hap_get_unique_aid i st = (case i of
       None \<Rightarrow> Some (- 1, st)
     | Some key \<Rightarrow> do {
         (ret, buf, _, st) \<leftarrow> hap_keystore_get HAP_KEYSTORE_NAMESPACE_HAPMAIN key (replicate 4 0) 4 st;
         if ret \<noteq> HAP_SUCCESS then do {
           (aid, st) \<leftarrow> hap_get_next_aid st;
           (_, st) \<leftarrow> hap_keystore_set HAP_KEYSTORE_NAMESPACE_HAPMAIN key (le_bytes 4 aid) st;
           Some (sint aid, st) }
         else Some (sint (of_nat (le_val buf) :: u32), st) })"

text \<open>\<open>snprintf\<close> cuts the name at 73 characters; \<open>%s\<close> of NULL is undefined.\<close>

definition hap_add_accessory ::
    "ptr option \<Rightarrow> ('n, 'h, 's) hap_sys_scheme \<Rightarrow> ('n, 'h, 's) hap_sys_scheme option" where
  "hap_add_accessory ha st =
     (if ha = None then Some st else do {
        st \<leftarrow> upd_acc ha (\<lambda>a. a\<lparr>a_aid := 1\<rparr>) st;
        let st = st\<lparr>primary_acc := ha\<rparr>;
        st \<leftarrow> (if unique_param (p_cfg (priv st)) = UNIQUE_NAME then do {
            let eth_mac = wifi_mac (env st);
            hs \<leftarrow> hap_acc_get_serv_by_uuid ha HAP_SERV_UUID_ACCESSORY_INFORMATION st;
            hc \<leftarrow> hap_serv_get_char_by_uuid hs (Some HAP_CHAR_UUID_NAME) st;
            c \<leftarrow> get_char hc st;
            old \<leftarrow> val_s (c_val c);
            let name = take 73 (old @ ''-'' @ concat (map hex02X (take 3 (drop 3 eth_mac))));
            let (s, st) = strdup name st;
            upd_char hc (\<lambda>c. c\<lparr>c_val := (c_val c)\<lparr>val_s := s\<rparr>\<rparr>) st }
          else Some st);
        cfg \<leftarrow> hap_acc_get_info (Some (p_primary_acc (priv st))) st;
        Some (upd_priv (\<lambda>p. p\<lparr>p_primary_acc := cfg\<rparr>) st) })"

definition hap_add_bridged_accessory ::
    "ptr option \<Rightarrow> u32 \<Rightarrow> ('n, 'h, 's) hap_sys_scheme \<Rightarrow> ('n, 'h, 's) hap_sys_scheme option" where
  "hap_add_bridged_accessory ha aid st =
     (if ha = None then Some st else do {
        (aid, st) \<leftarrow> (if aid \<noteq> 0 then Some (aid, st) else hap_get_next_aid st);
        st \<leftarrow> upd_acc ha (\<lambda>a. a\<lparr>a_aid := aid\<rparr>) st;
        st \<leftarrow> hap_add_acc_to_list (primary_acc st) ha st;
        Some (if \<not> disable_config_num_update (p_cfg (priv st))
              then snd (hap_update_config_number st) else st) })"

definition hap_remove_bridged_accessory ::
    "ptr option \<Rightarrow> ('n, 'h, 's) hap_sys_scheme \<Rightarrow> ('n, 'h, 's) hap_sys_scheme option" where
  "hap_remove_bridged_accessory ha st =
     (if ha = primary_acc st then Some st
      else if ha \<noteq> None then do {
        st \<leftarrow> hap_remove_acc_from_list (primary_acc st) ha st;
        Some (if \<not> disable_config_num_update (p_cfg (priv st))
              then snd (hap_update_config_number st) else st) }
      else Some st)"

section \<open>Notifications of a session that ended\<close>

definition disable_char :: "int \<Rightarrow> 's hap_objs_scheme \<Rightarrow> ptr \<Rightarrow> 's hap_objs_scheme option" where
  "disable_char index st hc = do {
     m \<leftarrow> bit_mask16 index; upd_char (Some hc) (\<lambda>c. c\<lparr>c_ev_ctrls := c_ev_ctrls c AND NOT m\<rparr>) st }"

definition disable_serv :: "int \<Rightarrow> 's hap_objs_scheme \<Rightarrow> ptr \<Rightarrow> 's hap_objs_scheme option" where
  "disable_serv index st hs = do {
     hc \<leftarrow> hap_serv_get_first_char (Some hs) st;
     list_iter (\<lambda>st hc. hap_char_get_next (Some hc) st) (disable_char index) st hc }"

definition disable_acc :: "int \<Rightarrow> 's hap_objs_scheme \<Rightarrow> ptr \<Rightarrow> 's hap_objs_scheme option" where
  "disable_acc index st ha = do {
     hs \<leftarrow> hap_acc_get_first_serv (Some ha) st;
     list_iter (\<lambda>st hs. hap_serv_get_next (Some hs) st) (disable_serv index) st hs }"

definition hap_disable_all_char_notif :: "int \<Rightarrow> 's hap_objs_scheme \<Rightarrow> 's hap_objs_scheme option" where
  "hap_disable_all_char_notif index st =
     list_iter (\<lambda>st ha. hap_acc_get_next (Some ha) st) (disable_acc index) st (hap_get_first_acc st)"

section \<open>The services of an accessory\<close>

definition acc_head :: "'s hap_objs_scheme \<Rightarrow> ptr \<Rightarrow> ptr option option" where
  "acc_head st a = map_option a_servs (acc_at st a)"

definition serv_iid_key :: "'s hap_objs_scheme \<Rightarrow> ptr \<Rightarrow> u32 option" where
  "serv_iid_key st s = map_option s_iid (serv_at st s)"

definition serv_uuid_key :: "'s hap_objs_scheme \<Rightarrow> ptr \<Rightarrow> string option" where
  "serv_uuid_key st s = map_option s_type_uuid (serv_at st s)"

definition acc_aid_key :: "'s hap_objs_scheme \<Rightarrow> ptr \<Rightarrow> u32 option" where
  "acc_aid_key st a = map_option a_aid (acc_at st a)"

lemma walk_next:
  "(\<lambda>hs. hap_serv_get_next (Some hs) st) = serv_next st" "(\<lambda>ha. hap_acc_get_next (Some ha) st) = acc_next st"
  by (auto simp: hap_serv_get_next_def read_serv_def serv_next_def hap_acc_get_next_def acc_next_def
      map_option_case intro!: ext split: option.split)

interpretation serv_by_iid: obj_lookup acc_head serv_next serv_iid_key
    "\<lambda>a iid. hap_acc_get_serv_by_iid (Some a) iid"
proof
  show "hap_acc_get_serv_by_iid (Some h) k st = do { p \<leftarrow> acc_head st h;
      list_find (serv_next st) (\<lambda>x. do { k' \<leftarrow> serv_iid_key st x; Some (k' = k) }) p }"
    for h k and st :: "'a hap_objs_scheme"
    by (simp add: hap_acc_get_serv_by_iid_def hap_acc_get_first_serv_def walk_next
        acc_head_def serv_iid_key_def map_conv_bind_option)
  show "serv_next st x \<noteq> None \<Longrightarrow> serv_iid_key st x \<noteq> None" for st :: "'a hap_objs_scheme" and x
    by (simp add: serv_iid_key_def serv_next_def)
qed

interpretation serv_by_uuid: obj_lookup acc_head serv_next serv_uuid_key
    "\<lambda>a uuid. hap_acc_get_serv_by_uuid (Some a) uuid"
proof
  show "hap_acc_get_serv_by_uuid (Some h) k st = do { p \<leftarrow> acc_head st h;
      list_find (serv_next st) (\<lambda>x. do { k' \<leftarrow> serv_uuid_key st x; Some (k' = k) }) p }"
    for h k and st :: "'a hap_objs_scheme"
    by (simp add: hap_acc_get_serv_by_uuid_def hap_acc_get_first_serv_def walk_next
        acc_head_def serv_uuid_key_def map_conv_bind_option)
  show "serv_next st x \<noteq> None \<Longrightarrow> serv_uuid_key st x \<noteq> None" for st :: "'a hap_objs_scheme" and x
    by (simp add: serv_uuid_key_def serv_next_def)
qed

interpretation acc_by_aid: obj_lookup "\<lambda>st _. Some (primary_acc st)" acc_next acc_aid_key
    "\<lambda>_ aid. hap_acc_get_by_aid aid"
proof
  show "hap_acc_get_by_aid k st = do { p \<leftarrow> Some (primary_acc st);
      list_find (acc_next st) (\<lambda>x. do { k' \<leftarrow> acc_aid_key st x; Some (k' = k) }) p }"
    for k and st :: "'a hap_objs_scheme"
    by (simp add: hap_acc_get_by_aid_def hap_get_first_acc_def walk_next acc_aid_key_def map_conv_bind_option)
  show "acc_next st x \<noteq> None \<Longrightarrow> acc_aid_key st x \<noteq> None" for st :: "'a hap_objs_scheme" and x
    by (simp add: acc_aid_key_def acc_next_def)
qed

text \<open>\<open>acc_servs st a ss\<close>: the accessory \<open>a\<close> is live and its list of services is \<open>ss\<close>.\<close>

definition acc_servs :: "'s hap_objs_scheme \<Rightarrow> ptr \<Rightarrow> ptr list \<Rightarrow> bool" where
  "acc_servs st a ss \<longleftrightarrow> (\<exists>ac. acc_at st a = Some ac \<and> chain (serv_next st) (a_servs ac) ss)"

lemma acc_servs_head: "acc_servs st a ss \<longleftrightarrow> (\<exists>p. acc_head st a = Some p \<and> chain (serv_next st) p ss)"
  by (auto simp: acc_servs_def acc_head_def)

lemma acc_servs_live: "acc_servs st a ss \<Longrightarrow> s \<in> set ss \<Longrightarrow> \<exists>sv. serv_at st s = Some sv"
  by (auto simp: acc_servs_def serv_next_def dest!: chain_live)

lemma acc_servs_distinct: "acc_servs st a ss \<Longrightarrow> distinct ss"
  by (auto simp: acc_servs_def dest: chain_distinct)

section \<open>Numbering\<close>

text \<open>The characteristics of a new service get successive instance ids.\<close>

fun number_chars :: "ptr list \<Rightarrow> u32 \<Rightarrow> (ptr \<rightharpoonup> hap_char) \<Rightarrow> (ptr \<rightharpoonup> hap_char)" where
  "number_chars [] n m = m"
| "number_chars (c # cs) n m = number_chars cs (n + 1) (m(c \<mapsto> (the (m c))\<lparr>c_iid := n\<rparr>))"

lemma number_chars_other: "x \<notin> set cs \<Longrightarrow> number_chars cs n m x = m x"
  by (induction cs n m rule: number_chars.induct) auto

lemma number_chars_nth:
  "distinct cs \<Longrightarrow> i < length cs \<Longrightarrow>
   number_chars cs n m (cs ! i) = Some ((the (m (cs ! i)))\<lparr>c_iid := n + of_nat i\<rparr>)"
proof (induction cs n m arbitrary: i rule: number_chars.induct)
  case (2 c cs n m)
  show ?case
  proof (cases i)
    case 0
    with 2(2) show ?thesis by (simp add: number_chars_other)
  next
    case (Suc j)
    then have "cs ! j \<noteq> c" using 2(2,3) by auto
    moreover have "number_chars cs (n + 1) (m(c \<mapsto> (the (m c))\<lparr>c_iid := n\<rparr>)) (cs ! j) =
        Some ((the ((m(c \<mapsto> (the (m c))\<lparr>c_iid := n\<rparr>)) (cs ! j)))\<lparr>c_iid := n + 1 + of_nat j\<rparr>)"
      by (rule 2(1)) (use 2(2,3) Suc in simp_all)
    ultimately show ?thesis using Suc by (simp add: ac_simps)
  qed
qed simp

lemma number_chars_next:
  assumes "distinct cs" "\<forall>c \<in> set cs. m c \<noteq> None"
  shows "map_option c_next_char (number_chars cs n m x) = map_option c_next_char (m x)"
proof (cases "x \<in> set cs")
  case True
  then obtain i where "i < length cs" "x = cs ! i" by (auto simp: in_set_conv_nth)
  moreover obtain d where "m x = Some d" using True assms(2) by auto
  ultimately show ?thesis using assms by (auto simp: number_chars_nth)
qed (simp add: number_chars_other)

lemma number_loop:
  "chain (char_next st) p cs \<Longrightarrow> acc_at st a = Some ac \<Longrightarrow>
   list_iter char_next (acc_add_serv_char a) st p =
     Some (st\<lparr>acc_at := (acc_at st)(a \<mapsto> ac\<lparr>a_next_iid := a_next_iid ac + of_nat (length cs)\<rparr>),
              char_at := number_chars cs (a_next_iid ac) (char_at st)\<rparr>)"
proof (induction cs arbitrary: st p ac)
  case Nil
  then have "(acc_at st)(a \<mapsto> ac\<lparr>a_next_iid := a_next_iid ac + of_nat (length [])\<rparr>) = acc_at st"
    by (auto intro!: ext)
  with Nil show ?case by (subst list_iter.simps) (simp del: fun_upd_apply)
next
  case (Cons c cs)
  then obtain ch where c: "p = Some c" "char_at st c = Some ch" "chain (char_next st) (c_next_char ch) cs"
    by (auto simp: next_Some_iff)
  let ?st = "st\<lparr>acc_at := (acc_at st)(a \<mapsto> ac\<lparr>a_next_iid := a_next_iid ac + 1\<rparr>),
     char_at := (char_at st)(c \<mapsto> ch\<lparr>c_iid := a_next_iid ac\<rparr>)\<rparr>"
  have nx: "char_next ?st = char_next st" using c by (auto simp: char_next_def intro!: ext)
  have "list_iter char_next (acc_add_serv_char a) ?st (c_next_char ch) =
     Some (?st\<lparr>acc_at := (acc_at ?st)(a \<mapsto> ac\<lparr>a_next_iid := a_next_iid ac + 1\<rparr>\<lparr>a_next_iid :=
        a_next_iid (ac\<lparr>a_next_iid := a_next_iid ac + 1\<rparr>) + of_nat (length cs)\<rparr>),
        char_at := number_chars cs (a_next_iid (ac\<lparr>a_next_iid := a_next_iid ac + 1\<rparr>)) (char_at ?st)\<rparr>)"
    by (rule Cons.IH) (use c nx in simp_all)
  moreover have "acc_add_serv_char a st c = Some ?st"
    using c Cons.prems(2) by (simp add: acc_add_serv_char_def del: fun_upd_apply)
  moreover have "char_next ?st c = Some (c_next_char ch)" using c by (simp add: char_next_def)
  ultimately show ?case
    using c by (subst list_iter.simps) (simp add: ac_simps del: fun_upd_apply)
qed

text \<open>The effect of \<open>hap_acc_add_serv\<close> as one update of the state.\<close>

definition attach_serv :: "ptr \<Rightarrow> ptr list \<Rightarrow> ptr \<Rightarrow> ptr list \<Rightarrow> 's hap_objs_scheme \<Rightarrow> 's hap_objs_scheme" where
  "attach_serv a ss s cs st = (let sv = the (serv_at st s); ac = the (acc_at st a); n = a_next_iid ac
     in st\<lparr>serv_at := (if ss = [] then serv_at st
             else (serv_at st)(last ss \<mapsto> (the (serv_at st (last ss)))\<lparr>s_next_serv := Some s\<rparr>))
               (s \<mapsto> sv\<lparr>s_iid := n, s_parent := Some a\<rparr>),
           acc_at := (acc_at st)(a \<mapsto> ac\<lparr>a_servs := (if ss = [] then Some s else a_servs ac),
             a_next_iid := n + 1 + of_nat (length cs)\<rparr>),
           char_at := number_chars cs (n + 1) (char_at st)\<rparr>)"

lemma add_serv_effect:
  assumes a: "acc_servs st a ss" and s: "serv_at st s = Some sv" "s_parent sv = None" "s_next_serv sv = None"
    and "s \<notin> set ss" and cs: "serv_chars st s cs"
  shows "hap_acc_add_serv (Some a) (Some s) st = Some (0, attach_serv a ss s cs st)"
proof -
  obtain ac where ac: "acc_at st a = Some ac" "chain (serv_next st) (a_servs ac) ss"
    using a by (auto simp: acc_servs_def)
  have ch: "chain (char_next st) (s_chars sv) cs" using cs s by (auto simp: serv_chars_def)
  define ac1 where "ac1 = ac\<lparr>a_servs := (if ss = [] then Some s else a_servs ac)\<rparr>"
  define m1 where "m1 = (if ss = [] then serv_at st
             else (serv_at st)(last ss \<mapsto> (the (serv_at st (last ss)))\<lparr>s_next_serv := Some s\<rparr>))"
  have m1s: "m1 s = Some sv" using s assms(5) by (auto simp: m1_def)
  have n1: "a_next_iid ac1 = a_next_iid ac" by (simp add: ac1_def)
  define st1 where "st1 = st\<lparr>serv_at := m1, acc_at := (acc_at st)(a \<mapsto> ac1)\<rparr>"
  have step1: "(case a_servs ac of
           None \<Rightarrow> upd_acc (Some a) (\<lambda>a. a\<lparr>a_servs := Some s\<rparr>) st
         | Some temp \<Rightarrow> do {
             temp \<leftarrow> list_last (serv_next st) temp;
             upd_serv (Some temp) (\<lambda>s'. s'\<lparr>s_next_serv := Some s\<rparr>) st }) = Some st1"
  proof (cases ss rule: rev_cases)
    case Nil
    with ac have "a_servs ac = None" by simp
    with Nil ac show ?thesis by (auto simp: st1_def m1_def ac1_def intro!: hap_objs.equality)
  next
    case (snoc ys y)
    then obtain z where z: "a_servs ac = Some z" using ac by (cases ys) auto
    have y: "list_last (serv_next st) z = Some y"
      using list_last_chain [of "serv_next st" z ys y] ac z snoc by simp
    obtain sy where "serv_at st y = Some sy" using acc_servs_live [OF a, of y] snoc by auto
    with snoc z y ac show ?thesis
      by (auto simp: st1_def m1_def ac1_def intro!: hap_objs.equality ext)
  qed
  define st2 where "st2 = st1\<lparr>serv_at := m1(s \<mapsto> sv\<lparr>s_iid := a_next_iid ac\<rparr>),
     acc_at := (acc_at st)(a \<mapsto> ac1\<lparr>a_next_iid := a_next_iid ac + 1\<rparr>)\<rparr>"
  have st1: "acc_at st1 a = Some ac1" "serv_at st1 s = Some sv" using m1s by (simp_all add: st1_def)
  have st2: "upd_serv (Some s) (\<lambda>s. s\<lparr>s_iid := a_next_iid ac1\<rparr>) st1 \<bind>
      upd_acc (Some a) (\<lambda>a. a\<lparr>a_next_iid := a_next_iid a + 1\<rparr>) = Some st2"
    using st1 n1 by (auto simp: st2_def st1_def intro!: hap_objs.equality)
  have "char_next st2 = char_next st" by (simp add: char_next_def st2_def st1_def fun_eq_iff)
  then have loop: "list_iter char_next (acc_add_serv_char a) st2 (s_chars sv) =
     Some (st2\<lparr>acc_at := (acc_at st2)(a \<mapsto> ac1\<lparr>a_next_iid := a_next_iid ac + 1\<rparr>\<lparr>a_next_iid :=
        a_next_iid (ac1\<lparr>a_next_iid := a_next_iid ac + 1\<rparr>) + of_nat (length cs)\<rparr>),
        char_at := number_chars cs (a_next_iid (ac1\<lparr>a_next_iid := a_next_iid ac + 1\<rparr>)) (char_at st2)\<rparr>)"
    using number_loop [of st2 "s_chars sv" cs a "ac1\<lparr>a_next_iid := a_next_iid ac + 1\<rparr>"] ch
    by (simp add: st2_def)
  have s2: "serv_at st2 s = Some (sv\<lparr>s_iid := a_next_iid ac\<rparr>)" by (simp add: st2_def)
  obtain t1 where t1: "upd_serv (Some s) (\<lambda>s. s\<lparr>s_iid := a_next_iid ac1\<rparr>) st1 = Some t1"
    "upd_acc (Some a) (\<lambda>a. a\<lparr>a_next_iid := a_next_iid a + 1\<rparr>) t1 = Some st2"
    using st2 by (auto split: bind_splits)
  have "hap_acc_add_serv (Some a) (Some s) st =
     do { st' \<leftarrow> list_iter char_next (acc_add_serv_char a) st2 (s_chars sv);
          st' \<leftarrow> upd_serv (Some s) (\<lambda>s. s\<lparr>s_parent := Some a\<rparr>) st'; Some (0, st') }"
    unfolding hap_acc_add_serv_def using s ac(1) step1 st1(1) t1 s2 by simp
  also have "\<dots> = Some (0, attach_serv a ss s cs st)"
    unfolding loop using s ac s2
    by (auto simp: attach_serv_def st2_def st1_def m1_def ac1_def Let_def intro!: hap_objs.equality)
  finally show ?thesis .
qed

lemma attach_serv_serv_at:
  assumes "acc_servs st a ss" "serv_at st s = Some sv" "s \<notin> set ss"
  shows "serv_at (attach_serv a ss s cs st) x =
    (if x = s then Some (sv\<lparr>s_iid := a_next_iid (the (acc_at st a)), s_parent := Some a\<rparr>)
     else if ss \<noteq> [] \<and> x = last ss then map_option (\<lambda>v. v\<lparr>s_next_serv := Some s\<rparr>) (serv_at st x)
     else serv_at st x)"
proof -
  have "ss \<noteq> [] \<Longrightarrow> \<exists>v. serv_at st (last ss) = Some v" using acc_servs_live [OF assms(1)] by simp
  with assms(2,3) show ?thesis by (auto simp: attach_serv_def Let_def)
qed

lemma attach_serv_next:
  assumes "acc_servs st a ss" "serv_at st s = Some sv" "s_next_serv sv = None" "s \<notin> set ss"
  shows "acc_servs (attach_serv a ss s cs st) a (ss @ [s])"
proof -
  let ?st = "attach_serv a ss s cs st"
  note at = attach_serv_serv_at [OF assms(1,2,4), of cs]
  obtain ac where ac: "acc_at st a = Some ac" "chain (serv_next st) (a_servs ac) ss"
    using assms(1) by (auto simp: acc_servs_def)
  have acc: "acc_at ?st a = Some (ac\<lparr>a_servs := (if ss = [] then Some s else a_servs ac),
      a_next_iid := a_next_iid ac + 1 + of_nat (length cs)\<rparr>)"
    using ac by (simp add: attach_serv_def Let_def)
  have last: "serv_next ?st s = Some None" using assms(3) by (simp add: serv_next_def at)
  have "chain (serv_next ?st) (if ss = [] then Some s else a_servs ac) (ss @ [s])"
  proof (cases "ss = []")
    case True
    with last show ?thesis by simp
  next
    case False
    then obtain v where v: "serv_at st (last ss) = Some v" using acc_servs_live [OF assms(1)] by fastforce
    have d: "distinct ss" using acc_servs_distinct [OF assms(1)] .
    have "chain (serv_next ?st) (a_servs ac) (ss @ [s])"
    proof (rule chain_append_single [OF ac(2) False])
      show "serv_next ?st (last ss) = Some (Some s)"
        using False v assms(4) by (auto simp: serv_next_def at)
      show "serv_next ?st s = Some None" by (rule last)
      fix x assume x: "x \<in> set (butlast ss)"
      then have "x \<in> set ss" by (simp add: in_set_butlastD)
      moreover have "x \<noteq> last ss"
        using x d False by (metis append_butlast_last_id distinct_append distinct_singleton
            disjoint_iff list.set_intros(1))
      ultimately show "serv_next ?st x = serv_next st x" using assms(4) by (auto simp: serv_next_def at)
    qed
    with False show ?thesis by simp
  qed
  with acc show ?thesis by (simp add: acc_servs_def)
qed

lemma attach_serv_chars:
  assumes "acc_servs st a ss" "serv_at st s = Some sv" "s \<notin> set ss" "serv_chars st s cs"
    and "serv_chars st t cs'"
  shows "serv_chars (attach_serv a ss s cs st) t cs'"
proof -
  let ?st = "attach_serv a ss s cs st"
  have live: "\<forall>c \<in> set cs. char_at st c \<noteq> None" using serv_chars_live [OF assms(4)] by fastforce
  have "char_next ?st x = char_next st x" for x
    using number_chars_next [OF serv_chars_distinct [OF assms(4)] live]
    by (simp add: char_next_def attach_serv_def Let_def)
  then have nx: "char_next ?st = char_next st" by blast
  obtain v where v: "serv_at st t = Some v" "chain (char_next st) (s_chars v) cs'"
    using assms(5) by (auto simp: serv_chars_def)
  then obtain v' where "serv_at ?st t = Some v'" "s_chars v' = s_chars v"
    using assms(2) attach_serv_serv_at [OF assms(1-3), of cs t] by (auto split: if_splits)
  with v nx show ?thesis by (auto simp: serv_chars_def)
qed

text \<open>Adding a service that belongs to no accessory appends it to the list of the accessory,
  numbers the service and its characteristics with the next instance ids in order, and leaves
  every other characteristic and the lists of the other services alone. The service cannot be
  added a second time, to this or another accessory.\<close>

theorem hap_acc_add_serv_correct:
  assumes "acc_servs st a ss" "acc_at st a = Some ac" "serv_chars st s cs" "s \<notin> set ss"
    and "serv_at st s = Some sv" "s_parent sv = None" "s_next_serv sv = None"
  shows "\<exists>st'. hap_acc_add_serv (Some a) (Some s) st = Some (HAP_SUCCESS, st') \<and>
    acc_servs st' a (ss @ [s]) \<and>
    serv_at st' s = Some (sv\<lparr>s_iid := a_next_iid ac, s_parent := Some a\<rparr>) \<and>
    (\<forall>i < length cs. char_at st' (cs ! i) =
       Some ((the (char_at st (cs ! i)))\<lparr>c_iid := a_next_iid ac + 1 + of_nat i\<rparr>)) \<and>
    map_option a_next_iid (acc_at st' a) = Some (a_next_iid ac + 1 + of_nat (length cs)) \<and>
    (\<forall>x. x \<notin> set cs \<longrightarrow> char_at st' x = char_at st x) \<and>
    (\<forall>t cs'. serv_chars st t cs' \<longrightarrow> serv_chars st' t cs') \<and>
    (\<forall>b. b \<noteq> a \<longrightarrow> acc_at st' b = acc_at st b) \<and>
    (\<forall>b. hap_acc_add_serv (Some b) (Some s) st' = Some (HAP_FAIL, st'))"
proof -
  let ?st = "attach_serv a ss s cs st"
  note eff = add_serv_effect [OF assms(1,5-7,4,3)]
  have serv: "serv_at ?st s = Some (sv\<lparr>s_iid := a_next_iid ac, s_parent := Some a\<rparr>)"
    using attach_serv_serv_at [OF assms(1,5,4)] assms(2) by simp
  have chars: "char_at ?st = number_chars cs (a_next_iid ac + 1) (char_at st)"
    "acc_at ?st = (acc_at st)(a \<mapsto> ac\<lparr>a_servs := (if ss = [] then Some s else a_servs ac),
             a_next_iid := a_next_iid ac + 1 + of_nat (length cs)\<rparr>)"
    using assms(2) by (simp_all add: attach_serv_def Let_def)
  have "hap_acc_add_serv (Some b) (Some s) ?st = Some (HAP_FAIL, ?st)" for b
    using serv by (simp add: hap_acc_add_serv_def)
  then show ?thesis
    using eff serv attach_serv_next [OF assms(1,5,7,4)] attach_serv_chars [OF assms(1,5,4,3)]
      number_chars_nth [OF serv_chars_distinct [OF assms(3)]] number_chars_other
    by (intro exI [of _ ?st]) (simp add: chars)
qed

lemma hap_acc_add_serv_correct_witness:
  "\<exists>st'. hap_acc_add_serv (Some 1) (Some 2)
      (boot_objs\<lparr>acc_at := [1 \<mapsto> zero_acc\<lparr>a_next_iid := 1\<rparr>], serv_at := [2 \<mapsto> zero_serv\<lparr>s_chars := Some 3\<rparr>],
         char_at := [3 \<mapsto> zero_char]\<rparr>) = Some (HAP_SUCCESS, st') \<and>
    acc_servs st' 1 [2] \<and> char_at st' 3 = Some (zero_char\<lparr>c_iid := 2\<rparr>)"
proof -
  let ?st = "boot_objs\<lparr>acc_at := [1 \<mapsto> zero_acc\<lparr>a_next_iid := 1\<rparr>], serv_at := [2 \<mapsto> zero_serv\<lparr>s_chars := Some 3\<rparr>],
         char_at := [3 \<mapsto> zero_char]\<rparr>"
  have "acc_servs ?st 1 []" "serv_chars ?st 2 [3]"
    by (simp_all add: acc_servs_def serv_chars_def zero_acc_def char_next_def)
  from hap_acc_add_serv_correct [OF this(1) _ this(2)] show ?thesis by fastforce
qed

section \<open>Instance ids are unique\<close>

text \<open>
  \<open>acc_tree st a t\<close>: the services of \<open>a\<close> with their characteristics are \<open>t\<close>. The instance ids
  in order are \<open>acc_iids\<close>; \<open>iids_ok\<close> is the invariant of the numbering.
\<close>

definition acc_tree :: "'s hap_objs_scheme \<Rightarrow> ptr \<Rightarrow> (ptr \<times> ptr list) list \<Rightarrow> bool" where
  "acc_tree st a t \<longleftrightarrow> acc_servs st a (map fst t) \<and> (\<forall>(s, cs) \<in> set t. serv_chars st s cs) \<and>
     distinct (concat (map snd t))"

definition acc_iids :: "'s hap_objs_scheme \<Rightarrow> (ptr \<times> ptr list) list \<Rightarrow> u32 option list" where
  "acc_iids st t = concat (map (\<lambda>(s, cs). serv_iid_key st s # map (char_iid_key st) cs) t)"

definition iids_ok :: "'s hap_objs_scheme \<Rightarrow> ptr \<Rightarrow> (ptr \<times> ptr list) list \<Rightarrow> bool" where
  "iids_ok st a t \<longleftrightarrow> acc_tree st a t \<and> distinct (acc_iids st t) \<and>
     (\<forall>i ac. Some i \<in> set (acc_iids st t) \<and> acc_at st a = Some ac \<longrightarrow> i < a_next_iid ac)"

lemma acc_iids_cong:
  assumes "\<And>s cs. (s, cs) \<in> set t \<Longrightarrow> serv_iid_key st s = serv_iid_key st' s"
    and "\<And>s cs c. (s, cs) \<in> set t \<Longrightarrow> c \<in> set cs \<Longrightarrow> char_iid_key st c = char_iid_key st' c"
  shows "acc_iids st t = acc_iids st' t"
  unfolding acc_iids_def using assms by (intro arg_cong [of _ _ concat] map_cong) auto

lemma of_nat_add_less:
  assumes "unat (n :: u32) + k < 2 ^ 32" "i < k"
  shows "unat (n + of_nat i) = unat n + i"
  using assms by (simp add: unat_word_ariths unat_of_nat)

lemma find_char_in_servs_finds:
  "chain (serv_next st) p (map fst t) \<Longrightarrow> (\<forall>(s, cs) \<in> set t. serv_chars st s cs) \<Longrightarrow>
   find_char_in_servs iid p st = Some (find (\<lambda>c. char_iid_key st c = Some iid) (concat (map snd t)))"
proof (induction t arbitrary: p)
  case Nil
  then show ?case by (subst find_char_in_servs.simps) simp
next
  case (Cons x t)
  obtain s cs where x: "x = (s, cs)" by (cases x)
  from Cons.prems x obtain n where p: "p = Some s" "serv_next st s = Some n"
    "chain (serv_next st) n (map fst t)" by auto
  have "hap_serv_get_char_by_iid (Some s) iid st = Some (find (\<lambda>c. char_iid_key st c = Some iid) cs)"
    by (rule get_char_by_iid_finds) (use Cons.prems x in auto)
  moreover have "hap_serv_get_next (Some s) st = Some n" using p(2)
    by (auto simp: hap_serv_get_next_def read_serv_def serv_next_def)
  moreover have "find (\<lambda>c. char_iid_key st c = Some iid) (cs @ ds) =
      (case find (\<lambda>c. char_iid_key st c = Some iid) cs of
         None \<Rightarrow> find (\<lambda>c. char_iid_key st c = Some iid) ds | Some c \<Rightarrow> Some c)" for ds
    by (induction cs) auto
  ultimately show ?case
    using Cons.IH [OF p(3)] Cons.prems(2) p(1) x
    by (subst find_char_in_servs.simps) (auto split: option.split)
qed

lemma acc_get_char_by_iid_finds:
  assumes "acc_tree st a t"
  shows "hap_acc_get_char_by_iid (Some a) iid st =
    Some (find (\<lambda>c. char_iid_key st c = Some iid) (concat (map snd t)))"
  using assms find_char_in_servs_finds [of st _ t iid]
  by (auto simp: acc_tree_def acc_servs_def hap_acc_get_char_by_iid_def hap_acc_get_first_serv_def)

lemma acc_iids_chars:
  "set (map (char_iid_key st) (concat (map snd t))) \<subseteq> set (acc_iids st t)"
  "distinct (acc_iids st t) \<Longrightarrow> distinct (map (char_iid_key st) (concat (map snd t)))"
proof -
  show sub: "set (map (char_iid_key st) (concat (map snd t))) \<subseteq> set (acc_iids st t)" for t
    by (auto simp: acc_iids_def)
  show "distinct (acc_iids st t) \<Longrightarrow> distinct (map (char_iid_key st) (concat (map snd t)))"
  proof (induction t)
    case (Cons x t)
    obtain s cs where x: "x = (s, cs)" by (cases x)
    with Cons.prems have d: "distinct (map (char_iid_key st) cs)" "distinct (acc_iids st t)"
      "set (map (char_iid_key st) cs) \<inter> set (acc_iids st t) = {}"
      by (auto simp: acc_iids_def)
    with Cons.IH sub [of t] x show ?case by auto
  qed simp
qed

lemma attach_serv_iids:
  assumes t: "acc_tree st a t" and ac: "acc_at st a = Some ac" and s: "serv_at st s = Some sv" "s \<notin> fst ` set t"
    and cs: "serv_chars st s cs" "set cs \<inter> set (concat (map snd t)) = {}"
  shows "acc_iids (attach_serv a (map fst t) s cs st) (t @ [(s, cs)]) =
    acc_iids st t @ map (\<lambda>i. Some (a_next_iid ac + of_nat i)) [0..<Suc (length cs)]"
proof -
  let ?st = "attach_serv a (map fst t) s cs st"
  have ss: "acc_servs st a (map fst t)" "s \<notin> set (map fst t)" using t s by (simp_all add: acc_tree_def)
  note at = attach_serv_serv_at [OF ss(1) s(1) ss(2), of cs]
  have ch: "char_at ?st = number_chars cs (a_next_iid ac + 1) (char_at st)"
    using ac by (simp add: attach_serv_def Let_def)
  have "acc_iids ?st t = acc_iids st t"
  proof (rule acc_iids_cong)
    fix u us assume u: "(u, us) \<in> set t"
    then have "u \<noteq> s" using s(2) by force
    then show "serv_iid_key ?st u = serv_iid_key st u"
      by (simp add: serv_iid_key_def at option.map_comp o_def)
    fix c assume "c \<in> set us"
    then have "c \<notin> set cs" using u cs(2) by force
    then show "char_iid_key ?st c = char_iid_key st c"
      by (simp add: char_iid_key_def ch number_chars_other)
  qed
  moreover have "serv_iid_key ?st s = Some (a_next_iid ac)"
    using ac by (simp add: serv_iid_key_def at)
  moreover have "map (char_iid_key ?st) cs = map (\<lambda>i. Some (a_next_iid ac + of_nat (Suc i))) [0..<length cs]"
    using number_chars_nth [OF serv_chars_distinct [OF cs(1)], of _ "a_next_iid ac + 1" "char_at st"]
    by (intro nth_equalityI) (simp_all add: char_iid_key_def ch ac_simps)
  moreover have "map (\<lambda>i. Some (a_next_iid ac + of_nat i)) [0..<Suc (length cs)] =
      Some (a_next_iid ac) # map (\<lambda>i. Some (a_next_iid ac + of_nat (Suc i))) [0..<length cs]"
    by (simp add: map_upt_Suc del: upt_Suc of_nat_Suc)
  ultimately show ?thesis by (simp add: acc_iids_def)
qed

lemma fresh_ids_distinct:
  assumes "unat (n :: u32) + k < 2 ^ 32"
  shows "distinct (map (\<lambda>i. Some (n + of_nat i)) [0..<k])"
  unfolding distinct_map
proof (intro conjI distinct_upt inj_onI)
  fix i j assume ij: "i \<in> set [0..<k]" "j \<in> set [0..<k]" "Some (n + of_nat i) = Some (n + of_nat j)"
  have "unat n + i = unat n + j"
    using ij of_nat_add_less [OF assms, of i] of_nat_add_less [OF assms, of j]
    by (metis atLeastLessThan_iff option.inject set_upt)
  then show "i = j" by simp
qed

lemma fresh_id_less:
  assumes "unat (n :: u32) + k < 2 ^ 32" "i < k"
  shows "n + of_nat i < n + of_nat k" "\<not> n + of_nat i < n"
proof -
  have k: "unat (n + of_nat k) = unat n + k" using assms by (simp add: unat_word_ariths unat_of_nat)
  show "n + of_nat i < n + of_nat k" "\<not> n + of_nat i < n"
    unfolding word_less_nat_alt k of_nat_add_less [OF assms] using assms(2) by simp_all
qed

lemma acc_tree_attach:
  assumes t: "acc_tree st a t" and s: "serv_at st s = Some sv" "s_next_serv sv = None"
    and new: "s \<notin> fst ` set t" "set cs \<inter> set (concat (map snd t)) = {}" and cs: "serv_chars st s cs"
  shows "acc_tree (attach_serv a (map fst t) s cs st) a (t @ [(s, cs)])"
proof -
  have ss: "acc_servs st a (map fst t)" "s \<notin> set (map fst t)" using t new by (simp_all add: acc_tree_def)
  note ch = attach_serv_chars [OF ss(1) s(1) ss(2) cs]
  have "\<forall>(u, us) \<in> set (t @ [(s, cs)]). serv_chars (attach_serv a (map fst t) s cs st) u us"
    using t ch [OF cs] ch by (auto simp: acc_tree_def)
  moreover have "distinct (concat (map snd (t @ [(s, cs)])))"
    using t new(2) serv_chars_distinct [OF cs] by (auto simp: acc_tree_def)
  ultimately show ?thesis
    using attach_serv_next [OF ss(1) s ss(2), of cs] by (simp add: acc_tree_def)
qed

lemma iids_ok_attach:
  assumes ok: "iids_ok st a t" and ac: "acc_at st a = Some ac" and s: "serv_at st s = Some sv" "s_next_serv sv = None"
    and new: "s \<notin> fst ` set t" "set cs \<inter> set (concat (map snd t)) = {}" and cs: "serv_chars st s cs"
    and room: "unat (a_next_iid ac) + Suc (length cs) < 2 ^ 32"
  shows "iids_ok (attach_serv a (map fst t) s cs st) a (t @ [(s, cs)])"
proof -
  let ?st = "attach_serv a (map fst t) s cs st" and ?n = "a_next_iid ac"
  have t: "acc_tree st a t" using ok by (simp add: iids_ok_def)
  have old: "Some x \<in> set (acc_iids st t) \<Longrightarrow> x < ?n" for x using ok ac by (simp add: iids_ok_def)
  note ids = attach_serv_iids [OF t ac s(1) new(1) cs new(2)]
  have dis: "distinct (acc_iids ?st (t @ [(s, cs)]))"
    unfolding ids distinct_append
  proof (intro conjI fresh_ids_distinct room)
    show "distinct (acc_iids st t)" using ok by (simp add: iids_ok_def)
    have "Some (?n + of_nat i) \<notin> set (acc_iids st t)" if "i < Suc (length cs)" for i
      using old fresh_id_less(2) [OF room that] by blast
    then show "set (acc_iids st t) \<inter> set (map (\<lambda>i. Some (?n + of_nat i)) [0..<Suc (length cs)]) = {}"
      by (auto simp del: upt_Suc)
  qed
  have top: "?n < ?n + of_nat (Suc (length cs))"
    using fresh_id_less(1) [OF room, of 0] by simp
  have below: "x < ?n + of_nat (Suc (length cs))" if "Some x \<in> set (acc_iids ?st (t @ [(s, cs)]))" for x
  proof -
    from that consider "Some x \<in> set (acc_iids st t)" | i where "i < Suc (length cs)" "x = ?n + of_nat i"
      unfolding ids by (auto simp del: upt_Suc)
    then show ?thesis
    proof cases
      case 1
      from old [OF this] top show ?thesis by (rule less_trans)
    next
      case 2
      then show ?thesis using fresh_id_less(1) [OF room] by blast
    qed
  qed
  have acc: "a_next_iid ac' = ?n + of_nat (Suc (length cs))" if "acc_at ?st a = Some ac'" for ac'
    using that ac by (auto simp: attach_serv_def Let_def)
  show ?thesis
    unfolding iids_ok_def
    using acc_tree_attach [OF t s new cs] dis below acc by metis
qed

text \<open>C14: The instance ids of an accessory are unique. The invariant (all ids of services and
  characteristics are different and below the counter) is kept by every service that is added,
  as long as the 32 bit counter does not wrap, and then the lookup by instance id finds exactly
  the characteristic of this accessory that has the id.\<close>

theorem iids_unique_lookup:
  assumes "iids_ok st a t" "acc_at st a = Some ac" "serv_chars st s cs"
    and "serv_at st s = Some sv" "s_parent sv = None" "s_next_serv sv = None"
    and "s \<notin> fst ` set t" "set cs \<inter> set (concat (map snd t)) = {}"
    and "unat (a_next_iid ac) + Suc (length cs) < 2 ^ 32"
  shows "\<exists>st'. hap_acc_add_serv (Some a) (Some s) st = Some (HAP_SUCCESS, st') \<and> iids_ok st' a (t @ [(s, cs)]) \<and>
    (\<forall>iid c. hap_acc_get_char_by_iid (Some a) iid st' = Some (Some c) \<longleftrightarrow>
       c \<in> set (concat (map snd (t @ [(s, cs)]))) \<and> char_iid_key st' c = Some iid) \<and>
    (\<forall>iid. hap_acc_get_char_by_iid (Some a) iid st' = Some None \<longleftrightarrow>
       Some iid \<notin> char_iid_key st' ` set (concat (map snd (t @ [(s, cs)]))))"
proof -
  let ?t = "t @ [(s, cs)]" and ?st = "attach_serv a (map fst t) s cs st"
  have "acc_servs st a (map fst t)" using assms(1) by (simp add: iids_ok_def acc_tree_def)
  then have add: "hap_acc_add_serv (Some a) (Some s) st = Some (0, ?st)"
    by (rule add_serv_effect) (use assms in auto)
  have ok: "iids_ok ?st a ?t" by (rule iids_ok_attach) (use assms in auto)
  then have "distinct (map (char_iid_key ?st) (concat (map snd ?t)))"
    by (intro acc_iids_chars(2)) (simp add: iids_ok_def)
  then have f: "find (\<lambda>c. char_iid_key ?st c = k) (concat (map snd ?t)) = Some c \<longleftrightarrow>
      c \<in> set (concat (map snd ?t)) \<and> char_iid_key ?st c = k" for k c
    by (rule find_Some_iff_unique)
  have look: "hap_acc_get_char_by_iid (Some a) iid ?st =
      Some (find (\<lambda>c. char_iid_key ?st c = Some iid) (concat (map snd ?t)))" for iid
    using ok by (intro acc_get_char_by_iid_finds) (simp add: iids_ok_def)
  have "hap_acc_get_char_by_iid (Some a) iid ?st = Some None \<longleftrightarrow>
       Some iid \<notin> char_iid_key ?st ` set (concat (map snd ?t))" for iid
    unfolding look option.inject find_None_iff image_iff by metis
  then show ?thesis using add ok f look by (intro exI [of _ ?st]) simp
qed

lemma iids_unique_lookup_witness:
  "\<exists>st'. hap_acc_add_serv (Some 1) (Some 2)
      (boot_objs\<lparr>acc_at := [1 \<mapsto> zero_acc\<lparr>a_next_iid := 1\<rparr>], serv_at := [2 \<mapsto> zero_serv\<lparr>s_chars := Some 3\<rparr>],
         char_at := [3 \<mapsto> zero_char]\<rparr>) = Some (HAP_SUCCESS, st') \<and>
    iids_ok st' 1 [(2, [3])] \<and> (hap_acc_get_char_by_iid (Some 1) 7 st' = Some (Some 3) \<longleftrightarrow> char_iid_key st' 3 = Some 7)"
proof -
  let ?st = "boot_objs\<lparr>acc_at := [1 \<mapsto> zero_acc\<lparr>a_next_iid := 1\<rparr>], serv_at := [2 \<mapsto> zero_serv\<lparr>s_chars := Some 3\<rparr>],
         char_at := [3 \<mapsto> zero_char]\<rparr>"
  have ok: "iids_ok ?st 1 []" "serv_chars ?st 2 [3]"
    by (simp_all add: iids_ok_def acc_tree_def acc_iids_def acc_servs_def serv_chars_def zero_acc_def char_next_def)
  have at: "acc_at ?st 1 = Some (zero_acc\<lparr>a_next_iid := 1\<rparr>)" "serv_at ?st 2 = Some (zero_serv\<lparr>s_chars := Some 3\<rparr>)"
    by simp_all
  from iids_unique_lookup [OF ok(1) at(1) ok(2) at(2)] show ?thesis by force
qed

section \<open>Deletion\<close>

text \<open>A service with its characteristics and its links.\<close>

definition serv_owns :: "'s hap_objs_scheme \<Rightarrow> ptr \<Rightarrow> ptr list \<Rightarrow> ptr list \<Rightarrow> bool" where
  "serv_owns st s cs ls \<longleftrightarrow> (\<exists>sv. serv_at st s = Some sv \<and> chain (char_next st) (s_chars sv) cs \<and>
     chain (link_next st) (s_linked_servs sv) ls)"

definition all_chars :: "(ptr \<times> ptr list \<times> ptr list) list \<Rightarrow> ptr list" where
  "all_chars t = concat (map (fst \<circ> snd) t)"

definition all_links :: "(ptr \<times> ptr list \<times> ptr list) list \<Rightarrow> ptr list" where
  "all_links t = concat (map (snd \<circ> snd) t)"

lemma serv_owns_restrict:
  assumes "serv_owns st s cs ls" "set cs \<inter> C = {}" "set ls \<inter> L = {}" "s \<noteq> u"
  shows "serv_owns (st\<lparr>acc_at := m, char_at := char_at st |` (- C), link_at := link_at st |` (- L),
      serv_at := (serv_at st)(u := None)\<rparr>) s cs ls"
proof -
  let ?st = "st\<lparr>acc_at := m, char_at := char_at st |` (- C), link_at := link_at st |` (- L),
      serv_at := (serv_at st)(u := None)\<rparr>"
  obtain sv where sv: "serv_at st s = Some sv" "chain (char_next st) (s_chars sv) cs"
    "chain (link_next st) (s_linked_servs sv) ls" using assms(1) by (auto simp: serv_owns_def)
  have "chain (char_next ?st) (s_chars sv) cs"
    using sv(2) assms(2) by (subst chain_cong [of _ _ "char_next st"]) (auto simp: char_next_def restrict_map_def)
  moreover have "chain (link_next ?st) (s_linked_servs sv) ls"
    using sv(3) assms(3) by (subst chain_cong [of _ _ "link_next st"]) (auto simp: link_next_def restrict_map_def)
  ultimately show ?thesis using sv(1) assms(4) by (simp add: serv_owns_def)
qed

lemma acc_delete_servs_effect:
  assumes "acc_at st a = Some ac" "chain (serv_next st) (a_servs ac) (map fst t)"
    and "\<forall>(s, cs, ls) \<in> set t. serv_owns st s cs ls" "distinct (all_chars t)" "distinct (all_links t)"
  shows "acc_delete_servs (Some a) (a_servs ac) st = Some (st\<lparr>char_at := char_at st |` (- set (all_chars t)),
    serv_at := serv_at st |` (- fst ` set t), acc_at := (acc_at st)(a \<mapsto> ac\<lparr>a_servs := None\<rparr>),
    link_at := link_at st |` (- set (all_links t))\<rparr>)"
  using assms
proof (induction t arbitrary: st ac)
  case Nil
  then have "ac\<lparr>a_servs := None\<rparr> = ac" by simp
  with Nil have "(acc_at st)(a \<mapsto> ac\<lparr>a_servs := None\<rparr>) = acc_at st" by (auto intro!: ext)
  with Nil show ?case
    by (subst acc_delete_servs.simps)
      (auto simp: all_chars_def all_links_def restrict_map_def intro!: hap_objs.equality)
next
  case (Cons x t)
  obtain s cs ls where x: "x = (s, cs, ls)" by (cases x)
  obtain sv where sv: "serv_at st s = Some sv" "chain (char_next st) (s_chars sv) cs"
      "chain (link_next st) (s_linked_servs sv) ls"
    using Cons.prems(3) x by (auto simp: serv_owns_def)
  have hd: "a_servs ac = Some s" "chain (serv_next st) (s_next_serv sv) (map fst t)"
    using Cons.prems(2) x sv(1) by (auto simp: next_Some_iff)
  have ns: "s \<notin> fst ` set t" using chain_distinct [OF Cons.prems(2)] x by simp
  let ?st1 = "st\<lparr>acc_at := (acc_at st)(a \<mapsto> ac\<lparr>a_servs := s_next_serv sv\<rparr>)\<rparr>"
  let ?st2 = "?st1\<lparr>char_at := char_at st |` (- set cs), link_at := link_at st |` (- set ls),
      serv_at := (serv_at st)(s := None)\<rparr>"
  have nx1: "char_next ?st1 = char_next st" "link_next ?st1 = link_next st"
    by (simp_all add: char_next_def link_next_def fun_eq_iff)
  have del: "hap_serv_delete (Some s) ?st1 = Some ?st2"
    using hap_serv_delete_effect [of ?st1 s sv cs ls] sv nx1 by simp
  have owns: "\<forall>(u, us, ks) \<in> set t. serv_owns ?st2 u us ks"
  proof (intro ballI, clarify)
    fix u us ks assume u: "(u, us, ks) \<in> set t"
    have "set us \<inter> set cs = {}" "set ks \<inter> set ls = {}"
      using Cons.prems(4,5) x u by (fastforce simp: all_chars_def all_links_def)+
    moreover have "u \<noteq> s" using ns u by force
    moreover have "serv_owns st u us ks" using Cons.prems(3) u by auto
    ultimately show "serv_owns ?st2 u us ks" by (intro serv_owns_restrict) auto
  qed
  have ch: "chain (serv_next ?st2) (s_next_serv sv) (map fst t)"
    using hd(2) ns by (subst chain_cong [of _ _ "serv_next st"]) (auto simp: serv_next_def)
  have "acc_delete_servs (Some a) (a_servs (ac\<lparr>a_servs := s_next_serv sv\<rparr>)) ?st2 =
      Some (?st2\<lparr>char_at := char_at ?st2 |` (- set (all_chars t)),
        serv_at := serv_at ?st2 |` (- fst ` set t),
        acc_at := (acc_at ?st2)(a \<mapsto> ac\<lparr>a_servs := s_next_serv sv\<rparr>\<lparr>a_servs := None\<rparr>),
        link_at := link_at ?st2 |` (- set (all_links t))\<rparr>)"
    by (rule Cons.IH) (use ch owns Cons.prems(4,5) in \<open>auto simp: all_chars_def all_links_def\<close>)
  also have "?st2\<lparr>char_at := char_at ?st2 |` (- set (all_chars t)), serv_at := serv_at ?st2 |` (- fst ` set t),
        acc_at := (acc_at ?st2)(a \<mapsto> ac\<lparr>a_servs := s_next_serv sv\<rparr>\<lparr>a_servs := None\<rparr>),
        link_at := link_at ?st2 |` (- set (all_links t))\<rparr> =
      st\<lparr>char_at := char_at st |` (- set (all_chars (x # t))), serv_at := serv_at st |` (- fst ` set (x # t)),
        acc_at := (acc_at st)(a \<mapsto> ac\<lparr>a_servs := None\<rparr>), link_at := link_at st |` (- set (all_links (x # t)))\<rparr>"
    by (rule hap_objs.equality)
      (auto simp: x all_chars_def all_links_def restrict_map_def intro!: ext)
  finally have rec: "acc_delete_servs (Some a) (a_servs (ac\<lparr>a_servs := s_next_serv sv\<rparr>)) ?st2 =
      Some (st\<lparr>char_at := char_at st |` (- set (all_chars (x # t))), serv_at := serv_at st |` (- fst ` set (x # t)),
        acc_at := (acc_at st)(a \<mapsto> ac\<lparr>a_servs := None\<rparr>), link_at := link_at st |` (- set (all_links (x # t)))\<rparr>)"
    .
  have acc: "acc_at ?st2 a = Some (ac\<lparr>a_servs := s_next_serv sv\<rparr>)" by simp
  have upd: "upd_acc (Some a) (\<lambda>b. b\<lparr>a_servs := s_next_serv sv\<rparr>) st = Some ?st1"
    using Cons.prems(1) by simp
  show ?case
    unfolding hd(1)
    by (subst acc_delete_servs.simps)
      (simp only: option.case heap_get_simps sv(1) upd del acc rec Option.bind.bind_lunit)
qed



section \<open>Notifications\<close>

text \<open>The state with one bit cleared in the characteristics of a set.\<close>

definition clear_ev :: "u16 \<Rightarrow> ptr set \<Rightarrow> 's hap_objs_scheme \<Rightarrow> 's hap_objs_scheme" where
  "clear_ev m C st = st\<lparr>char_at := (\<lambda>c. if c \<in> C
     then map_option (\<lambda>ch. ch\<lparr>c_ev_ctrls := c_ev_ctrls ch AND NOT m\<rparr>) (char_at st c) else char_at st c)\<rparr>"

lemma clear_ev_simps [simp]:
  "serv_at (clear_ev m C st) = serv_at st" "acc_at (clear_ev m C st) = acc_at st"
  "primary_acc (clear_ev m C st) = primary_acc st" "char_next (clear_ev m C st) = char_next st"
  "serv_next (clear_ev m C st) = serv_next st" "acc_next (clear_ev m C st) = acc_next st"
  "clear_ev m {} st = st"
  by (auto simp: clear_ev_def char_next_def serv_next_def acc_next_def intro!: ext)
    (simp add: option.map_comp o_def)

lemma iter_clear:
  assumes "chain (nx st) p xs" "\<And>D. nx (clear_ev m D st) = nx st"
    and "\<And>D x. x \<in> set xs \<Longrightarrow> body (clear_ev m D st) x = Some (clear_ev m (D \<union> F x) st)"
  shows "list_iter nx body (clear_ev m D st) p = Some (clear_ev m (D \<union> \<Union> (F ` set xs)) st)"
  using assms(1,3)
proof (induction xs arbitrary: p D)
  case Nil
  then show ?case by (subst list_iter.simps) simp
next
  case (Cons x xs)
  then obtain n where n: "p = Some x" "nx st x = Some n" "chain (nx st) n xs" by auto
  have "list_iter nx body (clear_ev m (D \<union> F x) st) n =
      Some (clear_ev m (D \<union> F x \<union> \<Union> (F ` set xs)) st)"
    by (rule Cons.IH) (use n Cons.prems(2) in auto)
  then show ?case using n Cons.prems(2) [of x D] assms(2)
    by (subst list_iter.simps) (simp add: Un_assoc)
qed

lemma disable_char_clear:
  assumes "bit_mask16 i = Some m" "char_at st c \<noteq> None"
  shows "disable_char i (clear_ev m D st) c = Some (clear_ev m (D \<union> {c}) st)"
proof -
  obtain ch where ch: "char_at st c = Some ch" using assms(2) by blast
  show ?thesis
    by (cases "c \<in> D") (auto simp: disable_char_def assms(1) clear_ev_def ch ac_simps intro!: hap_objs.equality ext)
qed

lemma walk_char: "(\<lambda>st hc. hap_char_get_next (Some hc) st) = char_next"
  "(\<lambda>st hs. hap_serv_get_next (Some hs) st) = serv_next"
  "(\<lambda>st ha. hap_acc_get_next (Some ha) st) = acc_next"
  by (intro ext, simp add: walk_char_next walk_next fun_cong [OF walk_char_next] fun_cong [OF walk_next(1)]
      fun_cong [OF walk_next(2)])+

lemma disable_serv_clear:
  assumes "bit_mask16 i = Some m" "serv_chars st s cs"
  shows "disable_serv i (clear_ev m D st) s = Some (clear_ev m (D \<union> set cs) st)"
proof -
  obtain sv where sv: "serv_at st s = Some sv" "chain (char_next st) (s_chars sv) cs"
    using assms(2) by (auto simp: serv_chars_def)
  have "list_iter char_next (disable_char i) (clear_ev m D st) (s_chars sv) =
      Some (clear_ev m (D \<union> \<Union> ((\<lambda>c. {c}) ` set cs)) st)"
  proof (rule iter_clear [where nx = char_next, OF sv(2)])
    fix D c assume "c \<in> set cs"
    then have "char_at st c \<noteq> None" using serv_chars_live [OF assms(2)] by fastforce
    with assms(1) show "disable_char i (clear_ev m D st) c = Some (clear_ev m (D \<union> {c}) st)"
      by (rule disable_char_clear)
  qed simp
  with sv(1) show ?thesis by (simp add: disable_serv_def hap_serv_get_first_char_def walk_char)
qed

lemma UN_fst:
  assumes "\<And>a t. (a, t) \<in> set d \<Longrightarrow> F a = G t"
  shows "\<Union> (F ` set (map fst d)) = (\<Union>(a, t) \<in> set d. G t)"
proof -
  have "\<Union> (F ` set (map fst d)) = (\<Union>x \<in> set d. F (fst x))" by simp
  also have "\<dots> = (\<Union>x \<in> set d. G (snd x))" using assms by (intro SUP_cong) auto
  finally show ?thesis by (simp add: case_prod_beta)
qed

lemma disable_acc_clear:
  assumes "bit_mask16 i = Some m" "acc_servs st a (map fst t)" "\<forall>(s, cs) \<in> set t. serv_chars st s cs"
  shows "disable_acc i (clear_ev m D st) a = Some (clear_ev m (D \<union> set (concat (map snd t))) st)"
proof -
  obtain ac where ac: "acc_at st a = Some ac" "chain (serv_next st) (a_servs ac) (map fst t)"
    using assms(2) by (auto simp: acc_servs_def)
  define F where "F s = \<Union> {set cs | cs. (s, cs) \<in> set t}" for s
  have F: "F s = set cs" if "(s, cs) \<in> set t" for s cs
  proof -
    have "cs' = cs" if "(s, cs') \<in> set t" for cs'
      by (rule serv_chars_unique [of st s]) (use that \<open>(s, cs) \<in> set t\<close> assms(3) in blast)+
    then show ?thesis unfolding F_def using that by blast
  qed
  have "list_iter serv_next (disable_serv i) (clear_ev m D st) (a_servs ac) =
      Some (clear_ev m (D \<union> \<Union> (F ` set (map fst t))) st)"
  proof (rule iter_clear [where nx = serv_next, OF ac(2)])
    fix D s assume "s \<in> set (map fst t)"
    then obtain cs where s: "(s, cs) \<in> set t" by auto
    then have "serv_chars st s cs" using assms(3) by blast
    then show "disable_serv i (clear_ev m D st) s = Some (clear_ev m (D \<union> F s) st)"
      unfolding F [OF s] by (rule disable_serv_clear [OF assms(1)])
  qed simp
  moreover have "\<Union> (F ` set (map fst t)) = set (concat (map snd t))"
  proof -
    have "\<Union> (F ` set (map fst t)) = (\<Union>(s, cs) \<in> set t. set cs)" by (rule UN_fst [OF F])
    then show ?thesis by auto
  qed
  ultimately show ?thesis using ac(1)
    by (simp add: disable_acc_def hap_acc_get_first_serv_def walk_char)
qed

text \<open>The whole database: the accessories of the list with their trees.\<close>

definition db_tree :: "'s hap_objs_scheme \<Rightarrow> (ptr \<times> (ptr \<times> ptr list) list) list \<Rightarrow> bool" where
  "db_tree st d \<longleftrightarrow> chain (acc_next st) (primary_acc st) (map fst d) \<and> (\<forall>(a, t) \<in> set d. acc_tree st a t)"

definition db_chars :: "(ptr \<times> (ptr \<times> ptr list) list) list \<Rightarrow> ptr set" where
  "db_chars d = (\<Union>(a, t) \<in> set d. set (concat (map snd t)))"

lemma acc_tree_chars_unique:
  assumes "acc_tree st a t" "acc_tree st a t'"
  shows "set (concat (map snd t)) = set (concat (map snd t'))"
proof -
  have f: "map fst t = map fst t'"
    using assms by (auto simp: acc_tree_def acc_servs_def dest: chain_unique)
  have sub: "set (concat (map snd u)) \<subseteq> set (concat (map snd u'))"
    if "acc_tree st a u" "acc_tree st a u'" "map fst u = map fst u'" for u u'
  proof
    fix c assume "c \<in> set (concat (map snd u))"
    then obtain s cs where s: "(s, cs) \<in> set u" "c \<in> set cs" by auto
    then have "s \<in> set (map fst u')" using that(3) by (metis fst_conv image_eqI list.set_map)
    then obtain cs' where "(s, cs') \<in> set u'" by auto
    moreover have "cs' = cs" using that(1,2) s(1) calculation serv_chars_unique [of st s cs' cs]
      by (fastforce simp: acc_tree_def)
    ultimately show "c \<in> set (concat (map snd u'))" using s(2) by force
  qed
  from sub [OF assms f] sub [OF assms(2,1) f [symmetric]] show ?thesis by blast
qed

lemma hap_disable_clear:
  assumes "bit_mask16 i = Some m" "db_tree st d"
  shows "hap_disable_all_char_notif i st = Some (clear_ev m (db_chars d) st)"
proof -
  define F where "F a = \<Union> {set (concat (map snd t)) | t. (a, t) \<in> set d}" for a
  have F: "F a = set (concat (map snd t))" if "(a, t) \<in> set d" for a t
  proof -
    have "set (concat (map snd t')) = set (concat (map snd t))" if "(a, t') \<in> set d" for t'
      by (rule acc_tree_chars_unique [of st a]) (use that \<open>(a, t) \<in> set d\<close> assms(2) in \<open>auto simp: db_tree_def\<close>)
    then show ?thesis using that unfolding F_def by blast
  qed
  have "list_iter acc_next (disable_acc i) (clear_ev m {} st) (primary_acc st) =
      Some (clear_ev m ({} \<union> \<Union> (F ` set (map fst d))) st)"
  proof (rule iter_clear [where nx = acc_next])
    show "chain (acc_next st) (primary_acc st) (map fst d)" using assms(2) by (simp add: db_tree_def)
    fix D a assume "a \<in> set (map fst d)"
    then obtain t where t: "(a, t) \<in> set d" by auto
    then have "acc_tree st a t" using assms(2) by (auto simp: db_tree_def)
    then show "disable_acc i (clear_ev m D st) a = Some (clear_ev m (D \<union> F a) st)"
      unfolding F [OF t] by (intro disable_acc_clear [OF assms(1)]) (simp_all add: acc_tree_def)
  qed simp
  moreover have "\<Union> (F ` set (map fst d)) = db_chars d"
    unfolding db_chars_def by (rule UN_fst [OF F])
  ultimately show ?thesis by (simp add: hap_disable_all_char_notif_def walk_char hap_get_first_acc_def)
qed

text \<open>When a session ends, its bit is cleared in every characteristic of the database and every
  other subscription stays: afterwards a controller is subscribed exactly if it was and is not
  the one that left.\<close>

theorem hap_disable_all_char_notif_correct:
  assumes "db_tree st d" "c \<in> db_chars d" "0 \<le> i" "i < 8" "0 \<le> j" "j < 8"
  shows "\<exists>st'. hap_disable_all_char_notif i st = Some st' \<and>
    hap_char_is_ctrl_subscribed (Some c) j st' =
      map_option (\<lambda>b. b \<and> j \<noteq> i) (hap_char_is_ctrl_subscribed (Some c) j st) \<and>
    (\<forall>x. x \<notin> db_chars d \<longrightarrow> char_at st' x = char_at st x) \<and>
    serv_at st' = serv_at st \<and> acc_at st' = acc_at st"
proof -
  have m: "bit_mask16 i = Some (2 ^ nat i)" "bit_mask16 j = Some (2 ^ nat j)"
    using assms(3-6) by (simp_all add: bit_mask16_Some)
  let ?st = "clear_ev (2 ^ nat i) (db_chars d) st"
  have "hap_char_is_ctrl_subscribed (Some c) j ?st =
      map_option (\<lambda>b. b \<and> j \<noteq> i) (hap_char_is_ctrl_subscribed (Some c) j st)"
    using assms(2-6) by (cases "char_at st c")
      (auto simp: hap_char_is_ctrl_subscribed_def m clear_ev_def mask16_test bits16_set)
  moreover have "\<forall>x. x \<notin> db_chars d \<longrightarrow> char_at ?st x = char_at st x" by (simp add: clear_ev_def)
  ultimately show ?thesis
    using hap_disable_clear [OF m(1) assms(1)] by (intro exI [of _ ?st]) simp
qed

lemma hap_disable_all_char_notif_correct_witness:
  "\<exists>st'. hap_disable_all_char_notif 2 (boot_objs\<lparr>acc_at := [1 \<mapsto> zero_acc\<lparr>a_servs := Some 2\<rparr>], primary_acc := Some 1,
      serv_at := [2 \<mapsto> zero_serv\<lparr>s_chars := Some 3\<rparr>], char_at := [3 \<mapsto> zero_char\<lparr>c_ev_ctrls := 4\<rparr>]\<rparr>) = Some st' \<and>
    hap_char_is_ctrl_subscribed (Some 3) 2 st' = Some False"
proof -
  let ?st = "boot_objs\<lparr>acc_at := [1 \<mapsto> zero_acc\<lparr>a_servs := Some 2\<rparr>], primary_acc := Some 1,
      serv_at := [2 \<mapsto> zero_serv\<lparr>s_chars := Some 3\<rparr>], char_at := [3 \<mapsto> zero_char\<lparr>c_ev_ctrls := 4\<rparr>]\<rparr>"
  have d: "db_tree ?st [(1, [(2, [3])])]" "3 \<in> db_chars [(1, [(2, [3])])]"
    by (simp_all add: db_tree_def db_chars_def acc_tree_def acc_servs_def serv_chars_def acc_next_def
        serv_next_def char_next_def zero_acc_def)
  have "hap_char_is_ctrl_subscribed (Some 3) 2 ?st = Some True"
    by (simp add: hap_char_is_ctrl_subscribed_def bit_mask16_def)
  with hap_disable_all_char_notif_correct [OF d, of 2 2] show ?thesis by auto
qed

section \<open>The list of accessories\<close>

definition acc_list :: "'s hap_objs_scheme \<Rightarrow> ptr list \<Rightarrow> bool" where
  "acc_list st as \<longleftrightarrow> chain (acc_next st) (primary_acc st) as"

text \<open>What a step does to the accessories: everything else but the event queue is kept.\<close>

lemma config_event:
  obtains q where "(if b then snd (hap_update_config_number st) else st) = st\<lparr>xQueue := q\<rparr>"
proof (cases b)
  case True
  then show thesis using hap_send_event_frame [of HAP_INTERNAL_EVENT_CONFIG_NUM_UPDATED st] that
    by (auto simp: hap_update_config_number_def)
next
  case False
  then show thesis using that [of "xQueue st"] by simp
qed

lemma acc_next_cong: "acc_at st = acc_at st' \<Longrightarrow> acc_next st = acc_next st'"
  by (simp add: acc_next_def fun_eq_iff)

lemma acc_list_cong:
  "acc_at st = acc_at st' \<Longrightarrow> primary_acc st = primary_acc st' \<Longrightarrow> acc_list st as = acc_list st' as"
  using acc_next_cong [of st st'] by (simp add: acc_list_def)

lemma add_to_list_effect:
  assumes "acc_list st as" "as \<noteq> []" "acc_at st a = Some ac" "a_next ac = None" "a \<notin> set as"
  obtains l where "acc_at st (last as) = Some l"
    "hap_add_acc_to_list (primary_acc st) (Some a) st = Some (st\<lparr>acc_at := (acc_at st)(last as \<mapsto> l\<lparr>a_next := Some a\<rparr>)\<rparr>)"
    "acc_list (st\<lparr>acc_at := (acc_at st)(last as \<mapsto> l\<lparr>a_next := Some a\<rparr>)\<rparr>) (as @ [a])"
proof -
  have ch: "chain (acc_next st) (primary_acc st) as" using assms(1) by (simp add: acc_list_def)
  obtain ys y where as: "as = ys @ [y]" using assms(2) by (cases as rule: rev_cases) auto
  obtain l where l: "acc_at st y = Some l" using chain_live [OF ch, of y] as by (auto simp: next_Some_iff)
  obtain p where p: "primary_acc st = Some p" using ch assms(2) by (cases as) auto
  let ?st = "st\<lparr>acc_at := (acc_at st)(y \<mapsto> l\<lparr>a_next := Some a\<rparr>)\<rparr>"
  have "hap_add_acc_to_list (primary_acc st) (Some a) st = Some ?st"
    using list_last_chain [of "acc_next st" p ys y] ch p as l by (simp add: hap_add_acc_to_list_def)
  moreover have "chain (acc_next ?st) (primary_acc st) (as @ [a])"
  proof (rule chain_append_single [OF ch assms(2)])
    show "acc_next ?st (last as) = Some (Some a)" by (simp add: as acc_next_def)
    show "acc_next ?st a = Some None" using assms(3-5) as by (auto simp: acc_next_def)
    fix x assume "x \<in> set (butlast as)"
    then have "x \<noteq> y" using chain_distinct [OF ch] as by auto
    then show "acc_next ?st x = acc_next st x" by (simp add: acc_next_def)
  qed
  ultimately show thesis using that [of l] as l by (simp add: acc_list_def)
qed

text \<open>Adding a bridged accessory gives it the aid and appends it to the list; every accessory
  keeps its aid, and if the aid is new the lookup by aid finds the new accessory. The
  configuration number is updated unless the application switched that off.\<close>

theorem hap_add_bridged_accessory_correct:
  assumes "acc_list st as" "as \<noteq> []" "acc_at st a = Some ac" "a_next ac = None" "a \<notin> set as"
    and "aid \<noteq> 0" "Some aid \<notin> acc_aid_key st ` set as"
  shows "\<exists>st'. hap_add_bridged_accessory (Some a) aid st = Some st' \<and> acc_list st' (as @ [a]) \<and>
    (\<forall>b \<in> set as. acc_aid_key st' b = acc_aid_key st b) \<and>
    hap_acc_get_by_aid aid st' = Some (Some a) \<and>
    xQueue st' = (if disable_config_num_update (p_cfg (priv st)) then xQueue st
      else xQueue (snd (hap_update_config_number st)))"
proof -
  let ?st1 = "st\<lparr>acc_at := (acc_at st)(a \<mapsto> ac\<lparr>a_aid := aid\<rparr>)\<rparr>"
  have nx: "acc_next ?st1 = acc_next st" using assms(3) by (auto simp: acc_next_def intro!: ext)
  have pre: "acc_list ?st1 as" "acc_at ?st1 a = Some (ac\<lparr>a_aid := aid\<rparr>)" "a_next (ac\<lparr>a_aid := aid\<rparr>) = None"
    using assms(1,4) nx by (simp_all add: acc_list_def)
  from add_to_list_effect [OF pre(1) assms(2) pre(2,3) assms(5)] obtain l where
    l: "acc_at ?st1 (last as) = Some l" and
    add: "hap_add_acc_to_list (primary_acc ?st1) (Some a) ?st1 = Some (?st1\<lparr>acc_at := (acc_at ?st1)(last as \<mapsto> l\<lparr>a_next := Some a\<rparr>)\<rparr>)" and
    lst: "acc_list (?st1\<lparr>acc_at := (acc_at ?st1)(last as \<mapsto> l\<lparr>a_next := Some a\<rparr>)\<rparr>) (as @ [a])" .
  let ?st2 = "?st1\<lparr>acc_at := (acc_at ?st1)(last as \<mapsto> l\<lparr>a_next := Some a\<rparr>)\<rparr>"
  let ?ev = "\<not> disable_config_num_update (p_cfg (priv st))"
  obtain q where q: "(if ?ev then snd (hap_update_config_number ?st2) else ?st2) = ?st2\<lparr>xQueue := q\<rparr>"
    by (rule config_event)
  have res: "hap_add_bridged_accessory (Some a) aid st = Some (?st2\<lparr>xQueue := q\<rparr>)"
    using add q assms(3,6)
    by (cases "disable_config_num_update (p_cfg (priv st))") (simp_all add: hap_add_bridged_accessory_def)
  have "xQueue (snd (hap_update_config_number ?st2)) = xQueue (snd (hap_update_config_number st))"
    by (auto simp: hap_update_config_number_def hap_send_event_def split: option.split)
  then have xq: "q = (if disable_config_num_update (p_cfg (priv st)) then xQueue st
      else xQueue (snd (hap_update_config_number st)))"
    using q by (cases ?ev) (auto dest: arg_cong [of _ _ xQueue])
  let ?st3 = "?st2\<lparr>xQueue := q\<rparr>"
  have lst3: "acc_list ?st3 (as @ [a])" using lst by (subst acc_list_cong [of _ ?st2]) simp_all
  have aids: "acc_aid_key ?st3 b = (if b = a then Some aid else acc_aid_key st b)" for b
    using assms(2,3,5) l by (auto simp: acc_aid_key_def)
  have "hap_acc_get_by_aid aid ?st3 = Some (find (\<lambda>x. acc_aid_key ?st3 x = Some aid) (as @ [a]))"
    by (rule acc_by_aid.look_finds) (use lst3 in \<open>simp_all add: acc_list_def\<close>)
  moreover have "find (\<lambda>x. acc_aid_key ?st3 x = Some aid) (as @ [a]) = Some a"
  proof -
    have none: "find (\<lambda>x. acc_aid_key ?st3 x = Some aid) as = None"
      unfolding find_None_iff aids using assms(5,7) by (metis imageI)
    have app: "find P (xs @ ys) = (case find P xs of None \<Rightarrow> find P ys | Some x \<Rightarrow> Some x)" for P :: "nat \<Rightarrow> bool" and xs ys
      by (induction xs) auto
    show ?thesis using aids [of a] by (simp only: app none find.simps option.case simp_thms if_True)
  qed
  moreover have "\<forall>b \<in> set as. acc_aid_key ?st3 b = acc_aid_key st b" using aids assms(5) by auto
  ultimately show ?thesis using res lst3 xq by (intro exI [of _ ?st3]) simp
qed

lemma find_pred_chain:
  "chain (acc_next st) (Some x) (xs @ y # a # ys) \<Longrightarrow> find_pred x (Some a) st = Some y"
proof (induction xs arbitrary: x)
  case Nil
  then show ?case by (subst find_pred.simps) (auto simp: next_Some_iff)
next
  case (Cons z xs)
  then obtain ac where ac: "z = x" "acc_at st x = Some ac" "chain (acc_next st) (a_next ac) (xs @ y # a # ys)"
    by (auto simp: next_Some_iff)
  then obtain n where n: "a_next ac = Some n" by (cases xs) auto
  have "distinct (xs @ y # a # ys)" using chain_distinct [OF ac(3)] .
  moreover have "n = hd (xs @ y # a # ys)" using ac(3) n by (cases xs) auto
  ultimately have "n \<noteq> a" by (cases xs) auto
  with Cons.IH [of n] ac n show ?case by (subst find_pred.simps) auto
qed

lemma chain_skip:
  assumes "chain nx p (xs @ y # a # ys)" "nx a = Some n" "nx' y = Some n"
    and "\<And>x. x \<noteq> y \<Longrightarrow> nx' x = nx x"
  shows "chain nx' p (xs @ y # ys)"
proof -
  have d: "distinct (xs @ y # a # ys)" using chain_distinct [OF assms(1)] .
  have tail: "chain nx n ys" using assms(1,2) by (induction xs arbitrary: p) auto
  moreover have "x \<in> set ys \<Longrightarrow> nx' x = nx x" for x using d by (intro assms(4)) auto
  ultimately have "chain nx' n ys" using chain_cong [of ys nx' nx] by simp
  then have last: "chain nx' (Some y) (y # ys)" using assms(3) by simp
  show ?thesis using assms(1) d
  proof (induction xs arbitrary: p)
    case Nil
    then show ?case using last by simp
  next
    case (Cons x xs)
    then obtain q where "p = Some x" "nx x = Some q" "chain nx q (xs @ y # a # ys)" by auto
    with Cons show ?case using assms(4) by auto
  qed
qed

lemma remove_effect:
  assumes "acc_list st (xs @ y # a # ys)"
  obtains l ac where "acc_at st y = Some l" "acc_at st a = Some ac"
    "hap_remove_acc_from_list (primary_acc st) (Some a) st = Some (st\<lparr>acc_at := (acc_at st)(y \<mapsto> l\<lparr>a_next := a_next ac\<rparr>)\<rparr>)"
    "acc_list (st\<lparr>acc_at := (acc_at st)(y \<mapsto> l\<lparr>a_next := a_next ac\<rparr>)\<rparr>) (xs @ y # ys)"
proof -
  have ch: "chain (acc_next st) (primary_acc st) (xs @ y # a # ys)" using assms by (simp add: acc_list_def)
  have d: "distinct (xs @ y # a # ys)" using chain_distinct [OF ch] .
  obtain l where l: "acc_at st y = Some l" "a_next l = Some a"
  proof -
    have "chain (acc_next st) p (xs @ y # a # ys) \<Longrightarrow> acc_next st y = Some (Some a)" for p
      by (induction xs arbitrary: p) auto
    from this [OF ch] show thesis using that by (auto simp: next_Some_iff)
  qed
  obtain ac where ac: "acc_at st a = Some ac" using chain_live [OF ch, of a] by (auto simp: next_Some_iff)
  let ?st = "st\<lparr>acc_at := (acc_at st)(y \<mapsto> l\<lparr>a_next := a_next ac\<rparr>)\<rparr>"
  obtain p where p: "primary_acc st = Some p" using ch by (cases xs) auto
  have "find_pred p (Some a) st = Some y"
    by (rule find_pred_chain [where xs = xs and ys = ys]) (use ch p in simp)
  then have "hap_remove_acc_from_list (primary_acc st) (Some a) st = Some ?st"
    using p l ac by (simp add: hap_remove_acc_from_list_def)
  moreover have "chain (acc_next ?st) (primary_acc st) (xs @ y # ys)"
    by (rule chain_skip [OF ch, of "a_next ac"]) (use l ac in \<open>auto simp: acc_next_def\<close>)
  ultimately show thesis using that l(1) ac by (simp add: acc_list_def)
qed

text \<open>Removing a bridged accessory takes it, and only it, out of the list; the primary
  accessory cannot be removed.\<close>

theorem hap_remove_bridged_accessory_correct:
  assumes "acc_list st (p # xs @ a # ys)"
  shows "hap_remove_bridged_accessory (Some p) st = Some st \<and>
    (\<exists>st'. hap_remove_bridged_accessory (Some a) st = Some st' \<and> acc_list st' (p # xs @ ys) \<and>
      (\<forall>b. acc_aid_key st' b = acc_aid_key st b) \<and> char_at st' = char_at st \<and> serv_at st' = serv_at st)"
proof -
  have p: "primary_acc st = Some p" using assms by (simp add: acc_list_def)
  have d: "distinct (p # xs @ a # ys)" using assms unfolding acc_list_def by (rule chain_distinct)
  obtain us y where us: "p # xs = us @ [y]" by (metis neq_Nil_conv rev_exhaust)
  then have "acc_list st (us @ y # a # ys)" using assms by (metis append_Cons append_assoc append_Nil)
  from remove_effect [OF this] obtain l ac where r: "acc_at st y = Some l" "acc_at st a = Some ac"
    "hap_remove_acc_from_list (primary_acc st) (Some a) st = Some (st\<lparr>acc_at := (acc_at st)(y \<mapsto> l\<lparr>a_next := a_next ac\<rparr>)\<rparr>)"
    "acc_list (st\<lparr>acc_at := (acc_at st)(y \<mapsto> l\<lparr>a_next := a_next ac\<rparr>)\<rparr>) (us @ y # ys)" .
  let ?st1 = "st\<lparr>acc_at := (acc_at st)(y \<mapsto> l\<lparr>a_next := a_next ac\<rparr>)\<rparr>"
  obtain q where q: "(if \<not> disable_config_num_update (p_cfg (priv st)) then snd (hap_update_config_number ?st1) else ?st1)
      = ?st1\<lparr>xQueue := q\<rparr>"
    by (rule config_event)
  have res: "hap_remove_bridged_accessory (Some a) st = Some (?st1\<lparr>xQueue := q\<rparr>)"
    using r(3) q p d by (simp add: hap_remove_bridged_accessory_def)
  have eq: "us @ y # ys = p # xs @ ys" using us by (metis append_Cons append_assoc append_Nil)
  have "acc_list (?st1\<lparr>xQueue := q\<rparr>) (p # xs @ ys)"
    using r(4) [unfolded eq] by (subst acc_list_cong [of _ ?st1]) simp_all
  moreover have "\<forall>b. acc_aid_key (?st1\<lparr>xQueue := q\<rparr>) b = acc_aid_key st b"
    using r(1) by (auto simp: acc_aid_key_def)
  ultimately show ?thesis using res p by (auto simp: hap_remove_bridged_accessory_def)
qed

text \<open>Three accessories on a fresh device, for the examples.\<close>

definition demo_accs :: "(kv, string \<times> string) hap_sys" where
  "demo_accs = boot_sys\<lparr>acc_at := [1 \<mapsto> zero_acc\<lparr>a_next := Some 2, a_aid := 1\<rparr>,
     2 \<mapsto> zero_acc\<lparr>a_next := Some 3, a_aid := 2\<rparr>, 3 \<mapsto> zero_acc\<lparr>a_aid := 3\<rparr>, 4 \<mapsto> zero_acc], primary_acc := Some 1\<rparr>"

lemma demo_accs_list: "acc_list demo_accs [1, 2, 3]"
  by (simp add: acc_list_def demo_accs_def acc_next_def zero_acc_def)

lemma hap_add_bridged_accessory_correct_witness:
  "\<exists>st'. hap_add_bridged_accessory (Some 4) 9 demo_accs = Some st' \<and> acc_list st' [1, 2, 3, 4] \<and>
     hap_acc_get_by_aid 9 st' = Some (Some 4)"
proof -
  have a: "acc_at demo_accs 4 = Some zero_acc" "a_next zero_acc = None"
    by (simp_all add: demo_accs_def zero_acc_def)
  have n: "Some 9 \<notin> acc_aid_key demo_accs ` set [1, 2, 3]"
    by (simp add: acc_aid_key_def demo_accs_def zero_acc_def)
  from hap_add_bridged_accessory_correct [OF demo_accs_list _ a _ _ n] show ?thesis by auto
qed

lemma hap_remove_bridged_accessory_correct_witness:
  "\<exists>st'. hap_remove_bridged_accessory (Some 2) demo_accs = Some st' \<and> acc_list st' [1, 3]"
  using hap_remove_bridged_accessory_correct [of demo_accs 1 "[]" 2 "[3]"] demo_accs_list by auto

lemma count_accs_chain:
  assumes "count_accs c ha st = Some n"
  shows "\<exists>xs. chain (acc_next st) ha xs \<and> n = c + length xs"
  using _ assms
proof (rule count_accs.raw_induct [where P = "\<lambda>c ha st n. \<exists>xs. chain (acc_next st) ha xs \<and> n = c + length xs"])
  fix f c ha and st :: "'a hap_objs_scheme" and n
  assume IH: "\<And>c ha (st :: 'a hap_objs_scheme) n. f c ha st = Some n \<Longrightarrow> \<exists>xs. chain (acc_next st) ha xs \<and> n = c + length xs"
    and run: "(case ha of None \<Rightarrow> Some c
      | Some x \<Rightarrow> get_acc ha st \<bind> (\<lambda>a. f (Suc c) (a_next a) st)) = Some n"
  show "\<exists>xs. chain (acc_next st) ha xs \<and> n = c + length xs"
  proof (cases ha)
    case None
    with run show ?thesis by (intro exI [of _ "[]"]) simp
  next
    case (Some x)
    with run obtain ac where ac: "acc_at st x = Some ac" "f (Suc c) (a_next ac) st = Some n"
      by (auto split: bind_splits)
    from IH [OF ac(2)] obtain xs where "chain (acc_next st) (a_next ac) xs" "n = Suc c + length xs" by blast
    with Some ac(1) show ?thesis by (intro exI [of _ "x # xs"]) (simp add: acc_next_def)
  qed
qed

lemma cycle_no_chain:
  assumes "nx b = Some (Some a)" "nx a = Some (Some b)"
  shows "\<not> chain nx (Some b) xs"
proof
  assume ch: "chain nx (Some b) xs"
  then obtain ys where xs: "xs = b # ys" "chain nx (Some a) ys" using assms by (cases xs) auto
  then obtain zs where ys: "ys = a # zs" "chain nx (Some b) zs" using assms by (cases ys) auto
  have "zs = xs" using chain_unique [OF ys(2) ch] .
  then show False using xs(1) ys(1) by simp
qed

text \<open>A bridged accessory that was removed keeps its link into the list. When the application
  adds it again, the list becomes a cycle, and the count of the accessories (like every other
  walk of the list that does not find what it looks for) never returns.\<close>

theorem bridged_accessory_added_again:
  assumes "acc_list st [p, a, b]" "aid \<noteq> 0"
  shows "\<exists>st1 st2. hap_remove_bridged_accessory (Some a) st = Some st1 \<and>
    hap_add_bridged_accessory (Some a) aid st1 = Some st2 \<and> hap_count_accessories st2 = None"
proof -
  have "acc_list st ([] @ p # a # [b])" using assms(1) by simp
  from remove_effect [OF this] obtain l ac where r: "acc_at st p = Some l" "acc_at st a = Some ac"
    "hap_remove_acc_from_list (primary_acc st) (Some a) st = Some (st\<lparr>acc_at := (acc_at st)(p \<mapsto> l\<lparr>a_next := a_next ac\<rparr>)\<rparr>)"
    "acc_list (st\<lparr>acc_at := (acc_at st)(p \<mapsto> l\<lparr>a_next := a_next ac\<rparr>)\<rparr>) ([] @ p # [b])" .
  have ch: "chain (acc_next st) (primary_acc st) [p, a, b]" using assms(1) by (simp add: acc_list_def)
  have d: "p \<noteq> a" "p \<noteq> b" "a \<noteq> b" using chain_distinct [OF ch] by auto
  obtain bc where bc: "acc_at st b = Some bc" "a_next ac = Some b" "a_next bc = None" "primary_acc st = Some p"
  proof -
    obtain n where n: "acc_next st a = Some n" "chain (acc_next st) n [b]" using ch by auto
    then have "a_next ac = Some b" "acc_next st b = Some None" using r(2) by (auto simp: acc_next_def)
    moreover have "primary_acc st = Some p" using ch by simp
    ultimately show thesis using that by (auto simp: next_Some_iff)
  qed
  define M1 where "M1 = (acc_at st)(p \<mapsto> l\<lparr>a_next := a_next ac\<rparr>)"
  define M2 where "M2 = M1(a \<mapsto> ac\<lparr>a_aid := aid\<rparr>)"
  define M3 where "M3 = M2(b \<mapsto> bc\<lparr>a_next := Some a\<rparr>)"
  have at: "M1 a = Some ac" "M2 p = Some (l\<lparr>a_next := Some b\<rparr>)" "M2 b = Some bc"
    "M3 a = Some (ac\<lparr>a_aid := aid\<rparr>)" "M3 b = Some (bc\<lparr>a_next := Some a\<rparr>)" "M3 p = Some (l\<lparr>a_next := Some b\<rparr>)"
    using d r(2) bc by (simp_all add: M1_def M2_def M3_def)
  let ?cfg = "disable_config_num_update (p_cfg (priv st))"
  obtain q where q: "(if \<not> ?cfg then snd (hap_update_config_number (st\<lparr>acc_at := M1\<rparr>)) else st\<lparr>acc_at := M1\<rparr>)
      = st\<lparr>acc_at := M1\<rparr>\<lparr>xQueue := q\<rparr>"
    by (rule config_event)
  define t1 where "t1 = st\<lparr>acc_at := M1\<rparr>\<lparr>xQueue := q\<rparr>"
  have t1: "acc_at t1 = M1" "primary_acc t1 = Some p" "priv t1 = priv st" using bc(4) by (simp_all add: t1_def)
  have rem: "hap_remove_bridged_accessory (Some a) st = Some t1"
    unfolding hap_remove_bridged_accessory_def using r(3) [folded M1_def] q bc(4) d by (simp add: t1_def)
  define t2 where "t2 = t1\<lparr>acc_at := M2\<rparr>"
  have t2: "acc_at t2 = M2" "primary_acc t2 = Some p" "priv t2 = priv st" using t1 by (simp_all add: t2_def)
  obtain q' where q': "(if \<not> ?cfg then snd (hap_update_config_number (t2\<lparr>acc_at := M3\<rparr>)) else t2\<lparr>acc_at := M3\<rparr>)
      = t2\<lparr>acc_at := M3\<rparr>\<lparr>xQueue := q'\<rparr>"
    by (rule config_event)
  define t3 where "t3 = t2\<lparr>acc_at := M3\<rparr>\<lparr>xQueue := q'\<rparr>"
  have t3: "acc_at t3 = M3" "primary_acc t3 = Some p" using t2 by (simp_all add: t3_def)
  have u: "upd_acc (Some a) (\<lambda>c. c\<lparr>a_aid := aid\<rparr>) t1 = Some t2" using at(1) t1(1) by (simp add: t2_def M2_def)
  have "chain (acc_next t2) (Some p) ([p] @ [b])" using at bc(3) t2(1) by (simp add: acc_next_def)
  then have "list_last (acc_next t2) p = Some b" by (rule list_last_chain)
  then have lst: "hap_add_acc_to_list (primary_acc t2) (Some a) t2 = Some (t2\<lparr>acc_at := M3\<rparr>)"
    using t2 at(3) by (simp add: hap_add_acc_to_list_def M3_def)
  have add: "hap_add_bridged_accessory (Some a) aid t1 = Some t3"
    unfolding hap_add_bridged_accessory_def using assms(2) u lst q' t2(3) by (simp add: t3_def)
  have nx: "acc_next t3 b = Some (Some a)" "acc_next t3 a = Some (Some b)" "acc_next t3 p = Some (Some b)"
    using at bc(2) t3(1) by (simp_all add: acc_next_def)
  have "\<not> chain (acc_next t3) (Some p) xs" for xs
    using nx(3) cycle_no_chain [where nx = "acc_next t3", OF nx(1,2)] by (cases xs) auto
  then have "hap_count_accessories t3 = None"
    using count_accs_chain [of 0 "Some p" t3] t3(2) unfolding hap_count_accessories_def by (metis not_None_eq)
  with rem add show ?thesis by blast
qed

lemma bridged_accessory_added_again_witness:
  "\<exists>st1 st2. hap_remove_bridged_accessory (Some 2) demo_accs = Some st1 \<and>
    hap_add_bridged_accessory (Some 2) 2 st1 = Some st2 \<and> hap_count_accessories st2 = None"
  by (rule bridged_accessory_added_again [OF demo_accs_list]) simp

section \<open>Identify\<close>

lemma acc_info_write_loop_status:
  "acc_info_write_loop app sp hcs ss st = Some (ss', st') \<Longrightarrow>
     length ss' = length ss \<and> (\<forall>k > 0. ss' ! k = ss ! k)"
proof (induction app sp hcs ss st rule: acc_info_write_loop.induct)
  case (2 app sp hc hcs ss st)
  from 2(2) obtain s1 st1 where s1: "acc_info_write_one app sp hc ss st = Some (s1, st1)"
    "acc_info_write_loop app sp hcs s1 st1 = Some (ss', st')"
    by (auto split: bind_splits)
  have "length s1 = length ss \<and> (\<forall>k > 0. s1 ! k = ss ! k)"
    using s1(1) by (auto simp: acc_info_write_one_def split: bind_splits if_splits)
  moreover from 2(1) [OF s1(1) refl s1(2)] have "length ss' = length s1 \<and> (\<forall>k > 0. ss' ! k = s1 ! k)" .
  ultimately show ?case by simp
qed simp

text \<open>A write to the accessory information service that names several characteristics sets the
  status of the first entry only: whatever the request, the status of every other entry stays
  what it was before the call.\<close>

theorem acc_info_write_first_status:
  assumes "hap_acc_info_write app write_data statuses serv_priv st = Some (r, statuses', st')"
  shows "r = HAP_SUCCESS \<and> length statuses' = length statuses \<and> (\<forall>k > 0. statuses' ! k = statuses ! k)"
  using assms acc_info_write_loop_status
  by (fastforce simp: hap_acc_info_write_def split: bind_splits)

lemma acc_info_write_first_status_witness:
  "\<exists>ss. hap_acc_info_write (\<lambda>_ _. Some) [Some 3, Some 3] [5, 6] None
      (boot_objs\<lparr>char_at := [3 \<mapsto> zero_char]\<rparr>) = Some (0, ss, boot_objs\<lparr>char_at := [3 \<mapsto> zero_char]\<rparr>) \<and> ss ! 1 = 6"
proof -
  have "hap_acc_info_write (\<lambda>_ _. Some) [Some 3, Some 3] [5, 6] None
      (boot_objs\<lparr>char_at := [3 \<mapsto> zero_char]\<rparr>) =
    Some (0, [HAP_STATUS_VAL_INVALID, 6], boot_objs\<lparr>char_at := [3 \<mapsto> zero_char]\<rparr>)"
    by (simp add: hap_acc_info_write_def acc_info_write_one_def)
  from acc_info_write_first_status [OF this] this show ?thesis by auto
qed

section \<open>Accessory ids of bridged accessories\<close>

lemma hap_get_unique_aid_known:
  assumes "ks_ready st" "ks_view st (HAP_KEYSTORE_NAMESPACE_HAPMAIN, key) = Some (le_bytes 4 (aid :: u32))"
  obtains m where "hap_get_unique_aid (Some key) st = Some (sint aid, st\<lparr>nvs := m\<rparr>)"
    "ks_view (st\<lparr>nvs := m\<rparr>) = ks_view st"
proof -
  obtain m where "hap_keystore_get HAP_KEYSTORE_NAMESPACE_HAPMAIN key (replicate 4 0) 4 st =
      Some (0, le_bytes 4 aid, 4, st\<lparr>nvs := m\<rparr>)" "ks_view (st\<lparr>nvs := m\<rparr>) = ks_view st"
    by (rule ks_get_hit [OF assms, of 4 "replicate 4 0"]) auto
  then show thesis using that by (simp add: hap_get_unique_aid_def of_nat_le_val_bytes)
qed

text \<open>The aid of a bridged accessory is stable: once it could be stored under the identifier of
  the accessory, every later call with this identifier, also after a reboot, gives it again and
  changes nothing in the keystore.\<close>

theorem hap_get_unique_aid_stable:
  assumes "ks_ready st" "hap_get_unique_aid (Some key) st = Some (aid, st1)"
    and "ks_view st1 (HAP_KEYSTORE_NAMESPACE_HAPMAIN, key) = Some (le_bytes 4 (of_int aid :: u32))"
    and "ks_ready st2" "ks_view st2 = ks_view st1"
  shows "\<exists>st3. hap_get_unique_aid (Some key) st2 = Some (aid, st3) \<and> ks_view st3 = ks_view st2"
proof -
  have "ks_view st2 (HAP_KEYSTORE_NAMESPACE_HAPMAIN, key) = Some (le_bytes 4 (of_int aid :: u32))"
    using assms(3,5) by simp
  from hap_get_unique_aid_known [OF assms(4) this] obtain m where
    m: "hap_get_unique_aid (Some key) st2 = Some (sint (of_int aid :: u32), st2\<lparr>nvs := m\<rparr>)"
    "ks_view (st2\<lparr>nvs := m\<rparr>) = ks_view st2" .
  have "\<exists>w :: u32. aid = sint w"
    using assms(2) unfolding hap_get_unique_aid_def by (auto split: bind_splits if_splits) blast+
  then have "sint (of_int aid :: u32) = aid" by auto
  with m show ?thesis by (intro exI [of _ "st2\<lparr>nvs := m\<rparr>"]) simp
qed

lemma hap_get_unique_aid_stable_witness:
  "\<exists>st1 st3. hap_get_unique_aid (Some ''mac'') (boot_sys\<lparr>nvs := [(''nvs'', HAP_KEYSTORE_NAMESPACE_HAPMAIN, ''mac'') \<mapsto>
      le_bytes 4 (7 :: u32)]\<rparr>) = Some (7, st1) \<and> hap_get_unique_aid (Some ''mac'') st1 = Some (7, st3)"
proof -
  let ?st = "boot_sys\<lparr>nvs := [(''nvs'', HAP_KEYSTORE_NAMESPACE_HAPMAIN, ''mac'') \<mapsto> le_bytes 4 (7 :: u32)]\<rparr>"
  have fn: "nvs_fn boot_sys = map_nvs" "hap_platform_nvs_partition boot_sys = Some ''nvs''"
    by (simp_all add: boot_sys_def hap_ks.defs boot_ks_def hap_objs.defs)
  have r: "ks_ready ?st" by simp
  have v: "ks_view ?st (HAP_KEYSTORE_NAMESPACE_HAPMAIN, ''mac'') = Some (le_bytes 4 (7 :: u32))"
    by (simp add: ks_view_def fn map_nvs_view)
  obtain m where m: "hap_get_unique_aid (Some ''mac'') ?st = Some (sint (7 :: u32), ?st\<lparr>nvs := m\<rparr>)"
    "ks_view (?st\<lparr>nvs := m\<rparr>) = ks_view ?st"
    by (rule hap_get_unique_aid_known [OF r v])
  have r1: "ks_ready (?st\<lparr>nvs := m\<rparr>)" by simp
  have v1: "ks_view (?st\<lparr>nvs := m\<rparr>) (HAP_KEYSTORE_NAMESPACE_HAPMAIN, ''mac'') = Some (le_bytes 4 (of_int (sint (7 :: u32)) :: u32))"
    unfolding m(2) v by simp
  from hap_get_unique_aid_stable [OF r m(1) v1 r1 refl] m(1) show ?thesis by auto
qed

section \<open>A new accessory\<close>

definition acc_info_specs :: "hap_acc_cfg \<Rightarrow> (bool \<times> string) list" where
  "acc_info_specs cfg = [(True, HAP_CHAR_UUID_IDENTIFY), (string_fits (cfg_manufacturer cfg), HAP_CHAR_UUID_MANUFACTURER),
     (string_fits (cfg_model cfg), HAP_CHAR_UUID_MODEL), (string_fits (cfg_name cfg), HAP_CHAR_UUID_NAME),
     (string_fits (cfg_serial_num cfg), HAP_CHAR_UUID_SERIAL_NUMBER),
     (string_fits (cfg_fw_rev cfg), HAP_CHAR_UUID_FIRMWARE_REVISION)] @
     (if cfg_hw_rev cfg \<noteq> None then [(string_fits (cfg_hw_rev cfg), HAP_CHAR_UUID_HARDWARE_REVISION)] else [])"

lemma creates_bool: "creates (\<lambda>st. Some (hap_char_bool_create u p b st)) True (\<lambda>ch. c_type_uuid ch = u)"
  unfolding hap_char_bool_create_def by (rule creates_plain) simp_all

lemma creates_str:
  "creates (\<lambda>st. Some (hap_char_string_create u p s st)) (string_fits s) (\<lambda>ch. c_type_uuid ch = u)"
  by (rule creates_string) simp

lemma acc_info_chars_create:
  "list_all2 (\<lambda>mk vu. creates mk (fst vu) (\<lambda>ch. c_type_uuid ch = snd vu)) (acc_info_chars cfg) (acc_info_specs cfg)"
  unfolding acc_info_chars_def acc_info_specs_def by (simp add: creates_bool creates_str)

lemma built_memory_ok: "built st0 st s uuid cs \<Longrightarrow> memory_ok st0 \<Longrightarrow> memory_ok st"
  using built_frame [of st0 st s uuid cs] unfolding memory_ok_def
  by (metis hap_objs.select_convs(6) hap_objs.surjective hap_objs.update_convs(1,2,5))

lemma built_keeps_tree:
  assumes b: "built st0 st s uuid cs" and h: "heap_ok st0" and t: "acc_tree st0 a t"
  shows "acc_tree st a t" "acc_iids st t = acc_iids st0 t" "s \<notin> fst ` set t"
    "set cs \<inter> set (concat (map snd t)) = {}"
proof -
  obtain sv where sv: "serv_at st = (serv_at st0)(s \<mapsto> sv)" using b by (auto simp: built_def)
  have fresh: "next_addr st0 \<le> s" "\<And>c. c \<in> set cs \<Longrightarrow> next_addr st0 \<le> c"
    and other: "\<And>c. c \<notin> set cs \<Longrightarrow> char_at st c = char_at st0 c" using b by (auto simp: built_def)
  have acc: "acc_at st = acc_at st0" by (subst built_frame [OF b]) simp
  have ss: "acc_servs st0 a (map fst t)" and cc: "\<And>u us. (u, us) \<in> set t \<Longrightarrow> serv_chars st0 u us"
    using t by (auto simp: acc_tree_def)
  show s: "s \<notin> fst ` set t"
  proof
    assume "s \<in> fst ` set t"
    then obtain v where "serv_at st0 s = Some v" using acc_servs_live [OF ss] by fastforce
    then show False using heap_ok_fresh(2) [OF h fresh(1)] by simp
  qed
  have live: "c \<notin> set cs" if "(u, us) \<in> set t" "c \<in> set us" for c u us
    using serv_chars_live [OF cc [OF that(1)] that(2)] heap_ok_fresh(1) [OF h fresh(2)] by fastforce
  then show cs: "set cs \<inter> set (concat (map snd t)) = {}" by fastforce
  have "acc_servs st a (map fst t)"
  proof -
    obtain ac where ac: "acc_at st0 a = Some ac" "chain (serv_next st0) (a_servs ac) (map fst t)"
      using ss by (auto simp: acc_servs_def)
    have "chain (serv_next st) (a_servs ac) (map fst t) = chain (serv_next st0) (a_servs ac) (map fst t)"
      by (rule chain_cong) (use s sv in \<open>auto simp: serv_next_def\<close>)
    with ac acc show ?thesis by (auto simp: acc_servs_def)
  qed
  moreover have "serv_chars st u us" if u: "(u, us) \<in> set t" for u us
  proof -
    obtain v where v: "serv_at st0 u = Some v" "chain (char_next st0) (s_chars v) us"
      using cc [OF u] by (auto simp: serv_chars_def)
    have "chain (char_next st) (s_chars v) us = chain (char_next st0) (s_chars v) us"
      by (rule chain_cong) (use live [OF u] other in \<open>simp add: char_next_def\<close>)
    moreover have "u \<noteq> s" using s u by force
    ultimately show ?thesis using v sv by (auto simp: serv_chars_def)
  qed
  ultimately show "acc_tree st a t" using t by (auto simp: acc_tree_def)
  show "acc_iids st t = acc_iids st0 t"
  proof (rule acc_iids_cong)
    fix u us assume u: "(u, us) \<in> set t"
    then have "u \<noteq> s" using s by force
    then show "serv_iid_key st u = serv_iid_key st0 u" by (simp add: serv_iid_key_def sv)
    fix c assume "c \<in> set us"
    then show "char_iid_key st c = char_iid_key st0 c" using live [OF u] other by (simp add: char_iid_key_def)
  qed
qed

lemma built_iids_ok:
  assumes "built st0 st s uuid cs" "heap_ok st0" "iids_ok st0 a t"
  shows "iids_ok st a t"
proof -
  have "acc_at st = acc_at st0" by (subst built_frame [OF assms(1)]) simp
  with assms(3) built_keeps_tree [OF assms(1,2), of a t] show ?thesis by (simp add: iids_ok_def)
qed

lemma attach_heap_ok:
  assumes h: "heap_ok st" and "acc_servs st a ss" "serv_at st s = Some sv" "s \<notin> set ss" "serv_chars st s cs"
  shows "heap_ok (attach_serv a ss s cs st)"
proof -
  let ?st = "attach_serv a ss s cs st"
  note at = attach_serv_serv_at [OF assms(2-4), of cs]
  have n: "next_addr ?st = next_addr st" "link_at ?st = link_at st"
    "char_at ?st = number_chars cs (a_next_iid (the (acc_at st a)) + 1) (char_at st)"
    by (simp_all add: attach_serv_def Let_def)
  obtain ac where ac: "acc_at st a = Some ac" using assms(2) by (auto simp: acc_servs_def)
  have "char_at ?st p = None \<and> serv_at ?st p = None \<and> acc_at ?st p = None \<and> link_at ?st p = None"
    if p: "next_addr st \<le> p" for p
  proof (intro conjI)
    have "p \<notin> set cs" using serv_chars_live [OF assms(5)] heap_ok_fresh(1) [OF h p] by fastforce
    then show "char_at ?st p = None" using heap_ok_fresh(1) [OF h p] by (simp add: n number_chars_other)
    have "p \<noteq> s" using assms(3) heap_ok_fresh(2) [OF h p] by auto
    then show "serv_at ?st p = None" using heap_ok_fresh(2) [OF h p] by (auto simp: at)
    have "p \<noteq> a" using ac heap_ok_fresh(3) [OF h p] by auto
    then show "acc_at ?st p = None" using heap_ok_fresh(3) [OF h p] by (simp add: attach_serv_def Let_def)
    show "link_at ?st p = None" using heap_ok_fresh(4) [OF h p] by (simp add: n)
  qed
  then show ?thesis by (simp add: heap_ok_def n)
qed

text \<open>The step that \<open>hap_acc_create\<close> does twice: a new service becomes part of the accessory.\<close>

lemma built_add_serv:
  assumes b: "built st0 st s uuid cs" and h: "heap_ok st0" and ok: "iids_ok st0 a t" and ac: "acc_at st0 a = Some ac"
    and mem: "memory_ok st0" and room: "unat (a_next_iid ac) + Suc (length cs) < 2 ^ 32"
  obtains st' where "hap_acc_add_serv (Some a) (Some s) st = Some (0, st')" "heap_ok st'" "iids_ok st' a (t @ [(s, cs)])"
    "acc_iids st' (t @ [(s, cs)]) = acc_iids st0 t @ map (\<lambda>i. Some (a_next_iid ac + of_nat i)) [0..<Suc (length cs)]"
    "serv_uuid_key st' = (serv_uuid_key st0)(s := Some uuid)" "char_uuids st' cs = char_uuids st cs"
    "map_option a_next_iid (acc_at st' a) = Some (a_next_iid ac + 1 + of_nat (length cs))"
    "\<forall>c. c \<notin> set cs \<longrightarrow> char_at st' c = char_at st0 c" "memory_ok st'"
proof -
  let ?st = "attach_serv a (map fst t) s cs st"
  obtain sv where sv: "serv_at st = (serv_at st0)(s \<mapsto> sv)" "s_parent sv = None" "s_next_serv sv = None"
    "s_type_uuid sv = uuid" using b by (auto simp: built_def)
  have s: "serv_at st s = Some sv" using sv by simp
  have t: "acc_tree st0 a t" using ok by (simp add: iids_ok_def)
  note k = built_keeps_tree [OF b h t]
  have acc: "acc_at st a = Some ac" using ac by (subst built_frame [OF b]) simp
  have cs: "serv_chars st s cs" using b by (rule built_serv_chars)
  have ss: "acc_servs st a (map fst t)" "s \<notin> set (map fst t)" using k by (simp_all add: acc_tree_def)
  note at = attach_serv_serv_at [OF ss(1) s ss(2), of cs]
  have ch: "char_at ?st = number_chars cs (a_next_iid ac + 1) (char_at st)"
    using acc by (simp add: attach_serv_def Let_def)
  show thesis
  proof (rule that [of ?st])
    show "hap_acc_add_serv (Some a) (Some s) st = Some (0, ?st)"
      by (rule add_serv_effect [OF ss(1) s sv(2,3) ss(2) cs])
    show "heap_ok ?st" by (rule attach_heap_ok [OF built_heap_ok [OF b h] ss(1) s ss(2) cs])
    show "iids_ok ?st a (t @ [(s, cs)])"
      by (rule iids_ok_attach [OF built_iids_ok [OF b h ok] acc s sv(3) k(3,4) cs room])
    show "acc_iids ?st (t @ [(s, cs)]) = acc_iids st0 t @ map (\<lambda>i. Some (a_next_iid ac + of_nat i)) [0..<Suc (length cs)]"
      using attach_serv_iids [OF k(1) acc s k(3) cs k(4)] k(2) by simp
    show "serv_uuid_key ?st = (serv_uuid_key st0)(s := Some uuid)"
      using sv(1,4) by (auto simp: serv_uuid_key_def at option.map_comp o_def intro!: ext)
    show "map_option a_next_iid (acc_at ?st a) = Some (a_next_iid ac + 1 + of_nat (length cs))"
      using acc by (simp add: attach_serv_def Let_def)
    show "\<forall>c. c \<notin> set cs \<longrightarrow> char_at ?st c = char_at st0 c"
      using b by (simp add: ch number_chars_other built_def)
    show "memory_ok ?st"
      using built_memory_ok [OF b mem] by (simp add: memory_ok_def attach_serv_def Let_def)
    show "char_uuids ?st cs = char_uuids st cs"
      unfolding char_uuids_def
    proof (rule map_cong [OF refl])
      fix c assume "c \<in> set cs"
      then obtain i where "i < length cs" "c = cs ! i" by (auto simp: in_set_conv_nth)
      then show "c_type_uuid (the (char_at ?st c)) = c_type_uuid (the (char_at st c))"
        using number_chars_nth [OF serv_chars_distinct [OF cs]] by (simp add: ch)
    qed
  qed
qed

lemma built_set_serv:
  assumes b: "built st0 st s uuid cs"
    and f: "\<And>v. s_parent (f v) = s_parent v" "\<And>v. s_linked_servs (f v) = s_linked_servs v"
      "\<And>v. s_next_serv (f v) = s_next_serv v" "\<And>v. s_type_uuid (f v) = s_type_uuid v" "\<And>v. s_chars (f v) = s_chars v"
  obtains st' where "set_serv (Some s) f st = Some st'" "built st0 st' s uuid cs" "char_at st' = char_at st"
proof -
  obtain sv where sv: "serv_at st = (serv_at st0)(s \<mapsto> sv)" "s_parent sv = None" "s_linked_servs sv = None"
    "s_next_serv sv = None" "s_type_uuid sv = uuid" "chain (char_next st) (s_chars sv) cs"
    using b by (auto simp: built_def)
  let ?st = "st\<lparr>serv_at := (serv_at st)(s \<mapsto> f sv)\<rparr>"
  have "char_next ?st = char_next st" by (simp add: char_next_def fun_eq_iff)
  moreover have "serv_at ?st = (serv_at st0)(s \<mapsto> f sv)" using sv(1) by simp
  moreover have "?st = st0\<lparr>next_addr := next_addr ?st, serv_at := serv_at ?st, char_at := char_at ?st\<rparr>"
    by (subst (1) built_frame [OF b]) simp
  ultimately have "built st0 ?st s uuid cs"
    using b sv f unfolding built_def by (intro conjI exI [of _ "f sv"]) simp_all
  moreover have "set_serv (Some s) f st = Some ?st" using sv(1) by (simp add: set_serv_def)
  ultimately show thesis using that [of ?st] by simp
qed

lemma iids_ok_cong:
  assumes "char_at st = char_at st'" "serv_at st = serv_at st'" "acc_at st = acc_at st'"
  shows "iids_ok st a t = iids_ok st' a t" "acc_iids st t = acc_iids st' t"
proof -
  have n: "char_next st = char_next st'" "serv_next st = serv_next st'" "char_iid_key st = char_iid_key st'"
    "serv_iid_key st = serv_iid_key st'"
    using assms by (simp_all add: char_next_def serv_next_def char_iid_key_def serv_iid_key_def fun_eq_iff)
  show "acc_iids st t = acc_iids st' t" by (simp add: acc_iids_def n)
  then show "iids_ok st a t = iids_ok st' a t"
    using assms n by (simp add: iids_ok_def acc_tree_def acc_servs_def serv_chars_def)
qed

lemma consecutive:
  "map (\<lambda>i. Some (1 + of_nat i :: u32)) [0..<Suc n] @ map (\<lambda>i. Some (2 + of_nat n + of_nat i)) [0..<2] =
     map (\<lambda>i. Some (of_nat i)) [1..<n + 4]"
proof -
  have "[1..<n + 4] = map Suc [0..<Suc n] @ [n + 2, n + 3]"
    by (simp add: map_Suc_upt eval_nat_numeral)
  moreover have "[0..<2] = [0, 1 :: nat]" by (simp add: upt_rec)
  ultimately show ?thesis by (simp add: ac_simps del: upt_Suc)
qed

lemma new_acc_ok:
  assumes "heap_ok st" "new_addr st = (Some a, st1)" "a_servs ac = None"
  shows "heap_ok (st1\<lparr>acc_at := (acc_at st1)(a \<mapsto> ac)\<rparr>)" "iids_ok (st1\<lparr>acc_at := (acc_at st1)(a \<mapsto> ac)\<rparr>) a []"
  using assms by (auto simp: new_addr_def heap_ok_def iids_ok_def acc_tree_def acc_iids_def acc_servs_def
      split: if_splits)

lemma add_all_or_true:
  "serv_add_all (Some s) mks st = Some (True, st') \<Longrightarrow> add_all_or (Some s) mks 0 st = Some (0, st')"
  by (induction mks arbitrary: st) (auto split: bind_splits if_splits)

text \<open>With enough memory and strings that fit, the characteristics are all added.\<close>

lemma add_all_or_built:
  assumes "list_all2 (\<lambda>mk vu. creates mk (fst vu) (\<lambda>ch. c_type_uuid ch = snd vu)) mks specs"
    and "heap_ok st0" "memory_ok st0" "list_all fst specs"
  obtains s st st' cs where "hap_serv_create uuid st0 = (Some s, st)" "add_all_or (Some s) mks 0 st = Some (0, st')"
    "built st0 st' s uuid cs" "char_uuids st' cs = map snd specs" "length cs = length specs"
proof -
  obtain s st where c: "hap_serv_create uuid st0 = (Some s, st)"
    using assms(3) by (simp add: hap_serv_create_def new_addr_def memory_ok_def)
  have "\<not> out_of_memory st0 n" for n using assms(3) by (simp add: out_of_memory_def memory_ok_def)
  with serv_add_all_spec [OF assms(1) built_create [OF c] assms(2)] assms(4) obtain st' cs where
    cs: "serv_add_all (Some s) mks st = Some (True, st')" "built st0 st' s uuid cs"
      "char_uuids st' cs = char_uuids st [] @ map snd specs" by auto
  moreover have "length cs = length specs"
    using arg_cong [OF cs(3), of length] by (simp add: char_uuids_def)
  ultimately show thesis using that [OF c add_all_or_true] by (simp add: char_uuids_def)
qed

text \<open>C27: With enough memory and strings of at most 256 characters an accessory is created. It has
  the accessory information and the protocol information service with the characteristics of the
  specification in order, and all its instance ids are assigned, from 1 on and without gap; the
  hardware revision is there exactly if it was configured.\<close>

theorem hap_acc_create_correct:
  assumes "heap_ok st" "memory_ok st" "list_all fst (acc_info_specs cfg)"
  shows "\<exists>a st' s1 cs1 s2 c2. hap_acc_create cfg st = Some (Some a, st') \<and>
    iids_ok st' a [(s1, cs1), (s2, [c2])] \<and> heap_ok st' \<and>
    serv_uuid_key st' s1 = Some HAP_SERV_UUID_ACCESSORY_INFORMATION \<and>
    serv_uuid_key st' s2 = Some HAP_SERV_UUID_PROTOCOL_INFORMATION \<and>
    char_uuids st' cs1 = map snd (acc_info_specs cfg) \<and> char_uuids st' [c2] = [HAP_CHAR_UUID_VERSION] \<and>
    acc_iids st' [(s1, cs1), (s2, [c2])] = map (\<lambda>i. Some (of_nat i)) [1..<length cs1 + 4] \<and>
    p_cid (priv st') = cfg_cid cfg"
proof -
  define ac where "ac = zero_acc\<lparr>a_identify_routine := cfg_identify_routine cfg, a_next_iid := 1\<rparr>"
  have ac: "a_servs ac = None" "a_next_iid ac = 1" by (simp_all add: ac_def zero_acc_def)
  obtain a st1 where st1: "new_addr st = (Some a, st1)" using assms(2) by (simp add: new_addr_def memory_ok_def)
  define ta where "ta = st1\<lparr>acc_at := (acc_at st1)(a \<mapsto> ac)\<rparr>"
  have ha: "heap_ok ta" "iids_ok ta a []" "acc_at ta a = Some ac" "memory_ok ta"
    using new_acc_ok [OF assms(1) st1 ac(1)] new_addr_props(1) [OF st1] assms(2)
    by (simp_all add: ta_def memory_ok_def)
  obtain s1 st2 st3 cs1 where c1: "hap_serv_create ''3E'' ta = (Some s1, st2)"
    "add_all_or (Some s1) (acc_info_chars cfg) 0 st2 = Some (0, st3)"
    and b1: "built ta st3 s1 ''3E'' cs1" "char_uuids st3 cs1 = map snd (acc_info_specs cfg)"
    "length cs1 = length (acc_info_specs cfg)"
    by (rule add_all_or_built [OF acc_info_chars_create ha(1,4) assms(3)])
  obtain st4 where b2: "set_serv (Some s1) (\<lambda>s. s\<lparr>s_write_cb := Some Write_acc_info\<rparr>) st3 = Some st4"
    "built ta st4 s1 ''3E'' cs1" "char_at st4 = char_at st3"
    by (rule built_set_serv [OF b1(1), of "\<lambda>s. s\<lparr>s_write_cb := Some Write_acc_info\<rparr>"]) simp_all
  obtain st5 where b3: "set_serv (Some s1) (\<lambda>s. s\<lparr>s_priv := Some a\<rparr>) st4 = Some st5"
    "built ta st5 s1 ''3E'' cs1" "char_at st5 = char_at st4"
    by (rule built_set_serv [OF b2(2), of "\<lambda>s. s\<lparr>s_priv := Some a\<rparr>"]) simp_all
  have n1: "length cs1 \<le> 7" using b1(3) by (simp add: acc_info_specs_def)
  have room: "unat (a_next_iid ac) + Suc (length cs1) < 2 ^ 32" using n1 ac(2) by simp
  obtain t6 where t6: "hap_acc_add_serv (Some a) (Some s1) st5 = Some (0, t6)" "heap_ok t6" "iids_ok t6 a ([] @ [(s1, cs1)])"
    "acc_iids t6 ([] @ [(s1, cs1)]) = acc_iids ta [] @ map (\<lambda>i. Some (a_next_iid ac + of_nat i)) [0..<Suc (length cs1)]"
    "serv_uuid_key t6 = (serv_uuid_key ta)(s1 := Some ''3E'')" "char_uuids t6 cs1 = char_uuids st5 cs1"
    "map_option a_next_iid (acc_at t6 a) = Some (a_next_iid ac + 1 + of_nat (length cs1))"
    "\<forall>c. c \<notin> set cs1 \<longrightarrow> char_at t6 c = char_at ta c" "memory_ok t6"
    by (rule built_add_serv [OF b3(2) ha room])
  obtain ac6 where ac6: "acc_at t6 a = Some ac6" "a_next_iid ac6 = 2 + of_nat (length cs1)"
    using t6(7) ac(2) by auto
  have "list_all2 (\<lambda>mk vu. creates mk (fst vu) (\<lambda>ch. c_type_uuid ch = snd vu))
      [\<lambda>st. Some (hap_char_string_create ''37'' HAP_CHAR_PERM_PR (Some ''1.1.0'') st)] [(string_fits (Some ''1.1.0''), ''37'')]"
    by (simp add: creates_str)
  then obtain s2 st7 st8 cs2 where c2: "hap_serv_create ''A2'' t6 = (Some s2, st7)"
    "add_all_or (Some s2) [\<lambda>st. Some (hap_char_string_create ''37'' HAP_CHAR_PERM_PR (Some ''1.1.0'') st)] 0 st7 = Some (0, st8)"
    and b4: "built t6 st8 s2 ''A2'' cs2" "char_uuids st8 cs2 = map snd [(string_fits (Some ''1.1.0''), ''37'')]"
      "length cs2 = length [(string_fits (Some ''1.1.0''), ''37'')]"
    by (rule add_all_or_built [OF _ t6(2,9)]) (simp add: string_fits_def HAP_CHAR_STRING_MAX_LEN_def)
  obtain c where c: "cs2 = [c]" using b4(3) by (cases cs2) auto
  have u6: "unat (a_next_iid ac6) = 2 + length cs1"
    using n1 by (simp add: ac6 unat_word_ariths unat_of_nat)
  have room2: "unat (a_next_iid ac6) + Suc (length cs2) < 2 ^ 32" using u6 n1 c by simp
  obtain t9 where t9: "hap_acc_add_serv (Some a) (Some s2) st8 = Some (0, t9)" "heap_ok t9"
    "iids_ok t9 a (([] @ [(s1, cs1)]) @ [(s2, cs2)])"
    "acc_iids t9 (([] @ [(s1, cs1)]) @ [(s2, cs2)]) =
       acc_iids t6 ([] @ [(s1, cs1)]) @ map (\<lambda>i. Some (a_next_iid ac6 + of_nat i)) [0..<Suc (length cs2)]"
    "serv_uuid_key t9 = (serv_uuid_key t6)(s2 := Some ''A2'')" "char_uuids t9 cs2 = char_uuids st8 cs2"
    "map_option a_next_iid (acc_at t9 a) = Some (a_next_iid ac6 + 1 + of_nat (length cs2))"
    "\<forall>c. c \<notin> set cs2 \<longrightarrow> char_at t9 c = char_at t6 c" "memory_ok t9"
    by (rule built_add_serv [OF b4(1) t6(2,3) ac6(1) t6(9) room2])
  have tree6: "acc_tree t6 a [(s1, cs1)]" using t6(3) by (simp add: iids_ok_def)
  note k = built_keeps_tree(3,4) [OF b4(1) t6(2) tree6]
  have neq: "s1 \<noteq> s2" "set cs2 \<inter> set cs1 = {}" using k by auto
  let ?st' = "upd_priv (\<lambda>p. p\<lparr>p_cid := cfg_cid cfg\<rparr>) t9"
  have st': "char_at ?st' = char_at t9" "serv_at ?st' = serv_at t9" "acc_at ?st' = acc_at t9"
    by (simp_all add: upd_priv_def)
  note cg = iids_ok_cong [OF st']
  have "hap_acc_create cfg st = Some (Some a, ?st')"
    unfolding hap_acc_create_def st1 acc_create_first_def
    using c1 b2(1) b3(1) t6(1) c2 t9(1)
    by (simp add: Let_def ta_def [symmetric] ac_def [symmetric] hap_serv_set_write_cb_def hap_serv_set_priv_def)
  moreover have "acc_iids t9 [(s1, cs1), (s2, [c])] = map (\<lambda>i. Some (of_nat i)) [1..<length cs1 + 4]"
  proof -
    have "acc_iids ta [] = []" by (simp add: acc_iids_def)
    then have "acc_iids t9 [(s1, cs1), (s2, [c])] = map (\<lambda>i. Some (1 + of_nat i)) [0..<Suc (length cs1)] @
        map (\<lambda>i. Some (2 + of_nat (length cs1) + of_nat i)) [0..<2]"
      using t9(4) t6(4) ac(2) ac6(2) c by (simp add: numeral_2_eq_2 del: upt_Suc)
    also have "\<dots> = map (\<lambda>i. Some (of_nat i)) [1..<length cs1 + 4]"
      by (rule consecutive)
    finally show ?thesis .
  qed
  moreover have "char_uuids ?st' cs1 = map snd (acc_info_specs cfg)"
  proof -
    have "char_uuids ?st' cs1 = char_uuids t6 cs1"
      unfolding char_uuids_def st' using t9(8) neq(2) by (intro map_cong refl) auto
    also have "\<dots> = char_uuids st3 cs1" unfolding t6(6) by (simp add: char_uuids_def b2(3) b3(3))
    finally show ?thesis using b1(2) by simp
  qed
  moreover have "heap_ok ?st'" using t9(2) by (simp add: heap_ok_def upd_priv_def)
  moreover have "serv_uuid_key ?st' = serv_uuid_key t9" by (simp add: serv_uuid_key_def st' fun_eq_iff)
  moreover have "char_uuids ?st' [c] = [''37'']"
    using b4(2) t9(6) c by (simp add: char_uuids_def st')
  moreover have "iids_ok ?st' a [(s1, cs1), (s2, [c])]" using t9(3) c cg(1) by simp
  ultimately show ?thesis
    using t9(5) t6(5) neq(1) cg(2)
    by (intro exI [of _ a] exI [of _ ?st'] exI [of _ s1] exI [of _ cs1] exI [of _ s2] exI [of _ c])
      (simp add: HAP_SERV_UUID_ACCESSORY_INFORMATION_def HAP_SERV_UUID_PROTOCOL_INFORMATION_def HAP_CHAR_UUID_VERSION_def)
qed

lemma hap_acc_create_correct_witness:
  "\<exists>a st' s1 cs1 s2 c2. hap_acc_create (p_primary_acc zero_priv) boot_sys = Some (Some a, st') \<and>
     iids_ok st' a [(s1, cs1), (s2, [c2])]"
proof -
  have h: "heap_ok boot_sys" "memory_ok boot_sys"
    by (simp_all add: heap_ok_def memory_ok_def boot_sys_def hap_ks.defs boot_ks_def hap_objs.defs boot_objs_def)
  have "list_all fst (acc_info_specs (p_primary_acc zero_priv))"
    by (simp add: acc_info_specs_def zero_priv_def string_fits_def)
  from hap_acc_create_correct [OF h this] show ?thesis by blast
qed

end
