(* ===== verification/Sha512.thy ===== *)
theory Sha512
  imports Hap_Prelude
begin

text \<open>
  SHA-512 (\<open>hkdf-sha/upstream/sha384-512.c\<close>, without \<open>USE_32BIT_ONLY\<close>), the hash of the SRP
  handshake and of the key derivation. The context is a record, the message block a bounds
  checked buffer of 128 bytes. The last part shows that any sequence of \<open>SHA512Input\<close> calls
  computes the hash of FIPS 180-4 of the concatenated input.
\<close>

section \<open>The code\<close>

abbreviation (input) shaSuccess :: int where "shaSuccess \<equiv> 0"
abbreviation (input) shaNull :: int where "shaNull \<equiv> 1"
abbreviation (input) shaInputTooLong :: int where "shaInputTooLong \<equiv> 2"
abbreviation (input) shaStateError :: int where "shaStateError \<equiv> 3"
abbreviation (input) shaBadParam :: int where "shaBadParam \<equiv> 4"

definition SHA512_Message_Block_Size :: nat where "SHA512_Message_Block_Size = 128"
definition SHA512HashSize :: nat where "SHA512HashSize = 64"

record SHA512Context =
  Intermediate_Hash :: "u64 list"
  Length_High :: u64
  Length_Low :: u64
  Message_Block_Index :: nat
  Message_Block :: "byte list"
  Computed :: bool
  Corrupted :: int

definition SHA_Ch :: "u64 \<Rightarrow> u64 \<Rightarrow> u64 \<Rightarrow> u64" where
  "SHA_Ch x y z = (x AND y) XOR (NOT x AND z)"

definition SHA_Maj :: "u64 \<Rightarrow> u64 \<Rightarrow> u64 \<Rightarrow> u64" where
  "SHA_Maj x y z = (x AND y) XOR (x AND z) XOR (y AND z)"

text \<open>The variants with \<open>USE_MODIFIED_MACROS\<close>.\<close>

definition SHA_Ch_modified :: "u64 \<Rightarrow> u64 \<Rightarrow> u64 \<Rightarrow> u64" where
  "SHA_Ch_modified x y z = (x AND (y XOR z)) XOR z"

definition SHA_Maj_modified :: "u64 \<Rightarrow> u64 \<Rightarrow> u64 \<Rightarrow> u64" where
  "SHA_Maj_modified x y z = (x AND (y OR z)) OR (y AND z)"

definition SHA512_SHR :: "nat \<Rightarrow> u64 \<Rightarrow> u64" where "SHA512_SHR bits w = drop_bit bits w"

definition SHA512_ROTR :: "nat \<Rightarrow> u64 \<Rightarrow> u64" where
  "SHA512_ROTR bits w = drop_bit bits w OR push_bit (64 - bits) w"

definition SHA512_SIGMA0 :: "u64 \<Rightarrow> u64" where
  "SHA512_SIGMA0 w = SHA512_ROTR 28 w XOR SHA512_ROTR 34 w XOR SHA512_ROTR 39 w"

definition SHA512_SIGMA1 :: "u64 \<Rightarrow> u64" where
  "SHA512_SIGMA1 w = SHA512_ROTR 14 w XOR SHA512_ROTR 18 w XOR SHA512_ROTR 41 w"

definition SHA512_sigma0 :: "u64 \<Rightarrow> u64" where
  "SHA512_sigma0 w = SHA512_ROTR 1 w XOR SHA512_ROTR 8 w XOR SHA512_SHR 7 w"

definition SHA512_sigma1 :: "u64 \<Rightarrow> u64" where
  "SHA512_sigma1 w = SHA512_ROTR 19 w XOR SHA512_ROTR 61 w XOR SHA512_SHR 6 w"

definition SHA512_H0 :: "u64 list" where
  "SHA512_H0 = [0x6A09E667F3BCC908, 0xBB67AE8584CAA73B, 0x3C6EF372FE94F82B,
     0xA54FF53A5F1D36F1, 0x510E527FADE682D1, 0x9B05688C2B3E6C1F,
     0x1F83D9ABFB41BD6B, 0x5BE0CD19137E2179]"

definition SHA512_K :: "u64 list" where
  "SHA512_K = [0x428A2F98D728AE22, 0x7137449123EF65CD, 0xB5C0FBCFEC4D3B2F,
     0xE9B5DBA58189DBBC, 0x3956C25BF348B538, 0x59F111F1B605D019,
     0x923F82A4AF194F9B, 0xAB1C5ED5DA6D8118, 0xD807AA98A3030242,
     0x12835B0145706FBE, 0x243185BE4EE4B28C, 0x550C7DC3D5FFB4E2,
     0x72BE5D74F27B896F, 0x80DEB1FE3B1696B1, 0x9BDC06A725C71235,
     0xC19BF174CF692694, 0xE49B69C19EF14AD2, 0xEFBE4786384F25E3,
     0x0FC19DC68B8CD5B5, 0x240CA1CC77AC9C65, 0x2DE92C6F592B0275,
     0x4A7484AA6EA6E483, 0x5CB0A9DCBD41FBD4, 0x76F988DA831153B5,
     0x983E5152EE66DFAB, 0xA831C66D2DB43210, 0xB00327C898FB213F,
     0xBF597FC7BEEF0EE4, 0xC6E00BF33DA88FC2, 0xD5A79147930AA725,
     0x06CA6351E003826F, 0x142929670A0E6E70, 0x27B70A8546D22FFC,
     0x2E1B21385C26C926, 0x4D2C6DFC5AC42AED, 0x53380D139D95B3DF,
     0x650A73548BAF63DE, 0x766A0ABB3C77B2A8, 0x81C2C92E47EDAEE6,
     0x92722C851482353B, 0xA2BFE8A14CF10364, 0xA81A664BBC423001,
     0xC24B8B70D0F89791, 0xC76C51A30654BE30, 0xD192E819D6EF5218,
     0xD69906245565A910, 0xF40E35855771202A, 0x106AA07032BBD1B8,
     0x19A4C116B8D2D0C8, 0x1E376C085141AB53, 0x2748774CDF8EEB99,
     0x34B0BCB5E19B48A8, 0x391C0CB3C5C95A63, 0x4ED8AA4AE3418ACB,
     0x5B9CCA4F7763E373, 0x682E6FF3D6B2B8A3, 0x748F82EE5DEFB2FC,
     0x78A5636F43172F60, 0x84C87814A1F0AB72, 0x8CC702081A6439EC,
     0x90BEFFFA23631E28, 0xA4506CEBDE82BDE9, 0xBEF9A3F7B2C67915,
     0xC67178F2E372532B, 0xCA273ECEEA26619C, 0xD186B8C721C0C207,
     0xEADA7DD6CDE0EB1E, 0xF57D4F7FEE6ED178, 0x06F067AA72176FBA,
     0x0A637DC5A2C898A6, 0x113F9804BEF90DAE, 0x1B710B35131C471B,
     0x28DB77F523047D84, 0x32CAAB7B40C72493, 0x3C9EBE0A15C9BEBC,
     0x431D67C49C100D4C, 0x4CC5D4BECB3E42B6, 0x597F299CFC657E2A,
     0x5FCB6FAB3AD6FAEC, 0x6C44198C4A475817]"

definition SHA384_512AddLength :: "SHA512Context \<Rightarrow> u64 \<Rightarrow> int \<times> SHA512Context" where
  "SHA384_512AddLength context len =
     (let addTemp = Length_Low context;
          context = context\<lparr>Length_Low := Length_Low context + len\<rparr> in
      if Length_Low context < addTemp
      then (let context = context\<lparr>Length_High := Length_High context + 1\<rparr>;
                r = (if Length_High context = 0 then shaInputTooLong else Corrupted context)
            in (r, context\<lparr>Corrupted := r\<rparr>))
      else (Corrupted context, context))"

definition SHA384_512Reset :: "u64 list \<Rightarrow> SHA512Context \<Rightarrow> int \<times> SHA512Context" where
  "SHA384_512Reset H0 context = (shaSuccess, context\<lparr>Message_Block_Index := 0, Length_High := 0,
     Length_Low := 0, Intermediate_Hash := H0, Computed := False, Corrupted := shaSuccess\<rparr>)"

definition SHA512Reset :: "SHA512Context \<Rightarrow> int \<times> SHA512Context" where
  "SHA512Reset context = SHA384_512Reset SHA512_H0 context"

text \<open>The word \<open>W[t]\<close> of the block, for \<open>t < 16\<close>: eight bytes, the first the most significant.\<close>

definition block_word :: "byte list \<Rightarrow> nat \<Rightarrow> u64" where
  "block_word b t8 =
     push_bit 56 (ucast (b ! t8)) OR push_bit 48 (ucast (b ! (t8 + 1))) OR
     push_bit 40 (ucast (b ! (t8 + 2))) OR push_bit 32 (ucast (b ! (t8 + 3))) OR
     push_bit 24 (ucast (b ! (t8 + 4))) OR push_bit 16 (ucast (b ! (t8 + 5))) OR
     push_bit 8 (ucast (b ! (t8 + 6))) OR ucast (b ! (t8 + 7))"

definition schedule_step :: "nat \<Rightarrow> u64 list \<Rightarrow> u64 list" where
  "schedule_step t W = W @ [SHA512_sigma1 (W ! (t - 2)) + W ! (t - 7) + SHA512_sigma0 (W ! (t - 15)) + W ! (t - 16)]"

definition schedule :: "byte list \<Rightarrow> u64 list" where
  "schedule b = fold schedule_step [16..<80] (map (\<lambda>t. block_word b (8 * t)) [0..<16])"

type_synonym word_buffers = "u64 \<times> u64 \<times> u64 \<times> u64 \<times> u64 \<times> u64 \<times> u64 \<times> u64"

definition round_step :: "u64 list \<Rightarrow> nat \<Rightarrow> word_buffers \<Rightarrow> word_buffers" where
  "round_step W t r = (case r of (A, B, C, D, E, F, G, H) \<Rightarrow>
     let temp1 = H + SHA512_SIGMA1 E + SHA_Ch E F G + SHA512_K ! t + W ! t;
         temp2 = SHA512_SIGMA0 A + SHA_Maj A B C
     in (temp1 + temp2, A, B, C, D + temp1, E, F, G))"

definition compress :: "u64 list \<Rightarrow> byte list \<Rightarrow> u64 list" where
  "compress h b =
     (case fold (round_step (schedule b)) [0..<80] (h ! 0, h ! 1, h ! 2, h ! 3, h ! 4, h ! 5, h ! 6, h ! 7) of
        (A, B, C, D, E, F, G, H) \<Rightarrow>
          [h ! 0 + A, h ! 1 + B, h ! 2 + C, h ! 3 + D, h ! 4 + E, h ! 5 + F, h ! 6 + G, h ! 7 + H])"

definition SHA384_512ProcessMessageBlock :: "SHA512Context \<Rightarrow> SHA512Context" where
  "SHA384_512ProcessMessageBlock context =
     context\<lparr>Intermediate_Hash := compress (Intermediate_Hash context) (Message_Block context),
             Message_Block_Index := 0\<rparr>"

text \<open>\<open>context->Message_Block[context->Message_Block_Index++] = b\<close>\<close>

definition put_byte :: "byte \<Rightarrow> SHA512Context \<Rightarrow> SHA512Context option" where
  "put_byte b context = do {
     blk \<leftarrow> wr_block (Message_Block context) (int (Message_Block_Index context)) [b];
     Some (context\<lparr>Message_Block := blk, Message_Block_Index := Suc (Message_Block_Index context)\<rparr>) }"

definition SHA512Input_byte :: "byte \<Rightarrow> SHA512Context \<Rightarrow> SHA512Context option" where
  "SHA512Input_byte b context = do {
     context \<leftarrow> put_byte b context;
     let (r, context) = SHA384_512AddLength context 8;
     Some (if r = shaSuccess \<and> Message_Block_Index context = SHA512_Message_Block_Size
           then SHA384_512ProcessMessageBlock context else context) }"

primrec SHA512Input_loop :: "byte list \<Rightarrow> SHA512Context \<Rightarrow> SHA512Context option" where
  "SHA512Input_loop [] context = Some context"
| "SHA512Input_loop (b # bs) context = do { context \<leftarrow> SHA512Input_byte b context; SHA512Input_loop bs context }"

text \<open>\<open>message_array\<close> is \<open>None\<close> for NULL.\<close>

definition SHA512Input :: "byte list option \<Rightarrow> nat \<Rightarrow> SHA512Context \<Rightarrow> (int \<times> SHA512Context) option" where
  "SHA512Input message_array len context =
     (if len = 0 then Some (shaSuccess, context)
      else case message_array of
        None \<Rightarrow> Some (shaNull, context)
      | Some bytes \<Rightarrow>
          if Computed context then Some (shaStateError, context\<lparr>Corrupted := shaStateError\<rparr>)
          else if Corrupted context \<noteq> 0 then Some (Corrupted context, context)
          else do {
            msg \<leftarrow> rd_block bytes 0 (int len);
            context \<leftarrow> SHA512Input_loop msg context;
            Some (Corrupted context, context) })"

function put_zeros :: "nat \<Rightarrow> SHA512Context \<Rightarrow> SHA512Context option" where
  "put_zeros limit context =
     (if Message_Block_Index context < limit
      then do { context' \<leftarrow> put_byte 0 context; put_zeros limit context' }
      else Some context)"
  by pat_completeness auto
termination
  by (relation "measure (\<lambda>(limit, context). limit - Message_Block_Index context)")
    (auto simp: put_byte_def split: bind_splits)

text \<open>The stores of the length: \<open>(uint8_t)(len >> 56)\<close> and so on.\<close>

definition be_word :: "u64 \<Rightarrow> byte list" where
  "be_word w = map (\<lambda>k. ucast (drop_bit k w)) [56, 48, 40, 32, 24, 16, 8, 0]"

definition SHA384_512PadMessage :: "byte \<Rightarrow> SHA512Context \<Rightarrow> SHA512Context option" where
  "SHA384_512PadMessage Pad_Byte context = do {
     context \<leftarrow> (if Message_Block_Index context \<ge> SHA512_Message_Block_Size - 16
       then do {
         context \<leftarrow> put_byte Pad_Byte context;
         context \<leftarrow> put_zeros SHA512_Message_Block_Size context;
         Some (SHA384_512ProcessMessageBlock context) }
       else put_byte Pad_Byte context);
     context \<leftarrow> put_zeros (SHA512_Message_Block_Size - 16) context;
     blk \<leftarrow> wr_block (Message_Block context) 112 (be_word (Length_High context) @ be_word (Length_Low context));
     Some (SHA384_512ProcessMessageBlock (context\<lparr>Message_Block := blk\<rparr>)) }"

definition SHA384_512Finalize :: "byte \<Rightarrow> SHA512Context \<Rightarrow> SHA512Context option" where
  "SHA384_512Finalize Pad_Byte context = do {
     context \<leftarrow> SHA384_512PadMessage Pad_Byte context;
     Some (context\<lparr>Message_Block := replicate SHA512_Message_Block_Size 0, Length_High := 0,
       Length_Low := 0, Computed := True\<rparr>) }"

definition SHA512FinalBits :: "byte \<Rightarrow> nat \<Rightarrow> SHA512Context \<Rightarrow> (int \<times> SHA512Context) option" where
  "SHA512FinalBits message_bits len context =
     (if len = 0 then Some (shaSuccess, context)
      else if Corrupted context \<noteq> 0 then Some (Corrupted context, context)
      else if Computed context then Some (shaStateError, context\<lparr>Corrupted := shaStateError\<rparr>)
      else if len \<ge> 8 then Some (shaBadParam, context\<lparr>Corrupted := shaBadParam\<rparr>)
      else do {
        let (_, context) = SHA384_512AddLength context (of_nat len);
        context \<leftarrow> SHA384_512Finalize
          ((message_bits AND [0, 0x80, 0xC0, 0xE0, 0xF0, 0xF8, 0xFC, 0xFE] ! len) OR
           [0x80, 0x40, 0x20, 0x10, 8, 4, 2, 1] ! len) context;
        Some (Corrupted context, context) })"

definition SHA384_512ResultN :: "nat \<Rightarrow> SHA512Context \<Rightarrow> (int \<times> byte list option \<times> SHA512Context) option" where
  "SHA384_512ResultN HashSize context =
     (if Corrupted context \<noteq> 0 then Some (Corrupted context, None, context)
      else do {
        context \<leftarrow> (if \<not> Computed context then SHA384_512Finalize 0x80 context else Some context);
        Some (shaSuccess, Some (map (\<lambda>i. ucast (drop_bit (8 * (7 - i mod 8)) (Intermediate_Hash context ! (i div 8))))
          [0..<HashSize]), context) })"

definition SHA512Result :: "SHA512Context \<Rightarrow> (int \<times> byte list option \<times> SHA512Context) option" where
  "SHA512Result context = SHA384_512ResultN SHA512HashSize context"

section \<open>The hash of FIPS 180-4\<close>

text \<open>
  The standard on whole messages: pad to a multiple of 128 bytes, run the compression function
  over the blocks, and write the eight words. The words of the code and of the standard are
  the same; what the code adds is the buffering, the padding in place and the 128 bit length.
\<close>

function hash_blocks :: "u64 list \<Rightarrow> byte list \<Rightarrow> u64 list" where
  "hash_blocks h m = (if length m < 128 then h else hash_blocks (compress h (take 128 m)) (drop 128 m))"
  by pat_completeness auto
termination by (relation "measure (length \<circ> snd)") auto

declare hash_blocks.simps [simp del]

definition sha512_pad :: "byte list \<Rightarrow> byte list" where
  "sha512_pad m = m @ [0x80] @ replicate ((239 - length m mod 128) mod 128) 0 @
     be_word (of_nat (8 * length m div 2 ^ 64)) @ be_word (of_nat (8 * length m))"

definition sha512_digest :: "u64 list \<Rightarrow> byte list" where
  "sha512_digest h = concat (map be_word h)"

definition sha512_spec :: "byte list \<Rightarrow> byte list" where
  "sha512_spec m = sha512_digest (hash_blocks SHA512_H0 (sha512_pad m))"

lemma length_be_word [simp]: "length (be_word w) = 8"
  by (simp add: be_word_def)

lemma length_compress [simp]: "length (compress h b) = 8"
  by (simp add: compress_def split: prod.split)

lemma hash_blocks_short: "128 dvd length m \<Longrightarrow> length r < 128 \<Longrightarrow> hash_blocks h (m @ r) = hash_blocks h m"
proof (induction h m rule: hash_blocks.induct)
  case (1 h m)
  show ?case
  proof (cases "length m < 128")
    case True
    then have "m = []" using 1(2) by (auto elim!: dvdE)
    with 1(3) show ?thesis by (simp add: hash_blocks.simps)
  next
    case False
    moreover have "128 dvd length (drop 128 m)" using 1(2) by (simp add: dvd_diff_nat)
    ultimately show ?thesis using 1 by (subst (1 2) hash_blocks.simps) simp
  qed
qed

lemma hash_blocks_snoc: "128 dvd length m \<Longrightarrow> length b = 128 \<Longrightarrow> hash_blocks h (m @ b) = compress (hash_blocks h m) b"
proof (induction h m rule: hash_blocks.induct)
  case (1 h m)
  show ?case
  proof (cases "length m < 128")
    case True
    then have "m = []" using 1(2) by (auto elim!: dvdE)
    with 1(3) show ?thesis by (simp add: hash_blocks.simps)
  next
    case False
    moreover have "128 dvd length (drop 128 m)" using 1(2) by (simp add: dvd_diff_nat)
    ultimately show ?thesis using 1 by (subst (1 2) hash_blocks.simps) simp
  qed
qed

lemma length_hash_blocks: "length h = 8 \<Longrightarrow> length (hash_blocks h m) = 8"
  by (induction h m rule: hash_blocks.induct) (subst hash_blocks.simps, auto)

lemma length_SHA512_H0 [simp]: "length SHA512_H0 = 8"
  by (simp add: SHA512_H0_def)

lemma be_word_upt: "be_word w = map (\<lambda>k. ucast (drop_bit (8 * (7 - k)) w)) [0..<8]"
proof -
  have "[56, 48, 40, 32, 24, 16, 8, 0] = map (\<lambda>k :: nat. 8 * (7 - k)) [0..<8]" by code_simp
  then show ?thesis by (simp add: be_word_def)
qed

lemma digest_words:
  assumes "length h = 8"
  shows "map (\<lambda>i. ucast (drop_bit (8 * (7 - i mod 8)) (h ! (i div 8)))) [0..<SHA512HashSize] = sha512_digest h"
proof -
  have upt: "[0..<SHA512HashSize] = concat (map (\<lambda>j. map (\<lambda>k. 8 * j + k) [0..<8]) [0..<8])" by code_simp
  have word: "map (\<lambda>k. ucast (drop_bit (8 * (7 - k mod 8)) (h ! (j + k div 8)))) [0..<8] = be_word (h ! j)" for j
    by (auto simp: be_word_upt intro!: map_cong)
  have "map be_word h = map (\<lambda>j. be_word (h ! j)) [0..<8]" by (rule nth_equalityI) (simp_all add: assms)
  then show ?thesis unfolding upt sha512_digest_def by (simp add: map_concat o_def word)
qed

section \<open>Any sequence of inputs\<close>

definition sha_inv :: "byte list \<Rightarrow> SHA512Context \<Rightarrow> bool" where
  "sha_inv m c \<longleftrightarrow> Intermediate_Hash c = hash_blocks SHA512_H0 m \<and> Message_Block_Index c = length m mod 128 \<and>
     length (Message_Block c) = 128 \<and>
     take (length m mod 128) (Message_Block c) = drop (128 * (length m div 128)) m \<and>
     Length_High c = of_nat (length m div 2 ^ 61) \<and> Length_Low c = of_nat (8 * length m) \<and>
     \<not> Computed c \<and> Corrupted c = 0"

lemma sha_inv_reset: "length (Message_Block c) = 128 \<Longrightarrow> sha_inv [] (snd (SHA512Reset c))"
  by (simp add: sha_inv_def SHA512Reset_def SHA384_512Reset_def hash_blocks.simps)

lemma bits_div: "8 * n div 2 ^ 64 = n div (2 ^ 61 :: nat)"
  using div_mult_mult1 [of 8 n "2 ^ 61"] by simp

lemma add_length_byte:
  assumes "Length_Low c = of_nat (8 * n)" "Length_High c = of_nat (n div 2 ^ 61)" "Corrupted c = 0"
    and "8 * Suc n < 2 ^ 128"
  shows "SHA384_512AddLength c 8 = (0, c\<lparr>Length_Low := of_nat (8 * Suc n), Length_High := of_nat (Suc n div 2 ^ 61)\<rparr>)"
proof -
  define Q :: nat where "Q = 2 ^ 61"
  have Q: "2 ^ 64 = 8 * Q" "0 < Q" by (simp_all add: Q_def)
  have unat: "unat (of_nat (8 * k) :: u64) = 8 * (k mod Q)" for k
    unfolding unat_of_nat mult_mod_right Q_def by simp
  have low': "Length_Low c + 8 = of_nat (8 * Suc n)" by (simp add: assms(1))
  have less: "Length_Low c + 8 < Length_Low c \<longleftrightarrow> Suc n mod Q < n mod Q"
    unfolding word_less_nat_alt low' unfolding assms(1) unat by simp
  show ?thesis
  proof (cases "Suc n mod Q = 0")
    case True
    then have d: "Suc n div Q = Suc (n div Q)" by (simp add: div_Suc)
    have "n mod Q = Q - 1" using True Q by (simp add: mod_Suc split: if_splits)
    then have lt: "Length_Low c + 8 < Length_Low c" using True by (simp add: less Q_def)
    have "Suc n div Q < 2 ^ 64" using assms(4) Q by (intro div_less_iff_less_mult [THEN iffD2]) (simp_all add: Q_def)
    moreover have hi: "Length_High c + 1 = of_nat (Suc n div Q)" unfolding d unfolding assms(2) Q_def by simp
    ultimately have "unat (Length_High c + 1) = Suc n div Q" by (simp add: unat_of_nat)
    then have "Length_High c + 1 \<noteq> 0" using d by (metis unat_0 nat.distinct(1))
    then show ?thesis using lt hi low' by (simp add: SHA384_512AddLength_def Let_def assms(3) Q_def add.commute)
  next
    case False
    then have "Suc n div Q = n div Q" "Suc n mod Q = Suc (n mod Q)" by (auto simp: div_Suc mod_Suc)
    then have "\<not> Length_Low c + 8 < Length_Low c" "of_nat (Suc n div Q) = Length_High c"
      by (simp_all add: less assms(2) Q_def)
    then show ?thesis using low' by (simp add: SHA384_512AddLength_def Let_def assms(3) Q_def add.commute)
  qed
qed


lemma put_byte_inv:
  assumes "sha_inv m c"
  shows "put_byte b c = Some (c\<lparr>Message_Block := (Message_Block c)[length m mod 128 := b],
    Message_Block_Index := Suc (length m mod 128)\<rparr>)"
  using assms by (simp add: sha_inv_def put_byte_def wr_block_def upd_conv_take_nth_drop)

lemma take_update_block:
  assumes "take i blk = r" "i < length blk"
  shows "take (Suc i) (blk[i := b]) = r @ [b]"
  using assms by (simp add: take_Suc_conv_app_nth)

lemma input_byte_inv:
  assumes "sha_inv m c" "8 * Suc (length m) < 2 ^ 128"
  shows "\<exists>c'. SHA512Input_byte b c = Some c' \<and> sha_inv (m @ [b]) c'"
proof -
  define i where "i = length m mod 128"
  define r where "r = drop (128 * (length m div 128)) m"
  define full where "full = take (128 * (length m div 128)) m"
  have m: "m = full @ r" "length full = 128 * (length m div 128)" "length r = i" "i < 128"
    unfolding i_def r_def full_def by (simp_all add: minus_mult_div_eq_mod)
  have dv: "128 dvd length full" unfolding m(2) by simp
  define c1 where "c1 = c\<lparr>Message_Block := (Message_Block c)[i := b], Message_Block_Index := Suc i\<rparr>"
  have p: "put_byte b c = Some c1" using put_byte_inv [OF assms(1)] by (simp add: c1_def i_def)
  have inv: "Intermediate_Hash c = hash_blocks SHA512_H0 m" "length (Message_Block c) = 128"
    "take i (Message_Block c) = r" "Length_High c = of_nat (length m div 2 ^ 61)"
    "Length_Low c = of_nat (8 * length m)" "\<not> Computed c" "Corrupted c = 0"
    using assms(1) unfolding sha_inv_def i_def r_def by blast+
  define c2 where "c2 = c1\<lparr>Length_Low := of_nat (8 * Suc (length m)), Length_High := of_nat (Suc (length m) div 2 ^ 61)\<rparr>"
  have a: "SHA384_512AddLength c1 8 = (0, c2)"
    unfolding c2_def by (rule add_length_byte) (use inv assms(2) in \<open>simp_all add: c1_def\<close>)
  have blk: "take (Suc i) (Message_Block c1) = r @ [b]"
    using inv m(4) by (simp add: c1_def take_update_block)
  have hash: "hash_blocks SHA512_H0 m = hash_blocks SHA512_H0 full"
    using hash_blocks_short [OF dv, of r SHA512_H0] m(1,3,4) by simp
  show ?thesis
  proof (cases "Suc i = 128")
    case True
    then have full': "Message_Block c1 = r @ [b]" using blk inv by (simp add: c1_def)
    have mb: "m @ [b] = full @ (r @ [b])" using m(1) by simp
    have idx: "length (m @ [b]) mod 128 = 0" "128 * (length (m @ [b]) div 128) = length (m @ [b])"
      using True by (simp_all add: i_def mod_Suc minus_mod_eq_mult_div [symmetric])
    have "hash_blocks SHA512_H0 (m @ [b]) = compress (hash_blocks SHA512_H0 full) (r @ [b])"
      unfolding mb by (rule hash_blocks_snoc [OF dv]) (use m(3) True in simp)
    then have "sha_inv (m @ [b]) (SHA384_512ProcessMessageBlock c2)"
      using inv idx hash full' m(3) True
      by (simp add: sha_inv_def SHA384_512ProcessMessageBlock_def c2_def c1_def)
    moreover have "SHA512Input_byte b c = Some (SHA384_512ProcessMessageBlock c2)"
      using p a True by (simp add: SHA512Input_byte_def c2_def c1_def SHA512_Message_Block_Size_def)
    ultimately show ?thesis by blast
  next
    case False
    have idx: "length (m @ [b]) mod 128 = Suc i" "length (m @ [b]) div 128 = length m div 128"
      using False by (simp_all add: i_def mod_Suc div_Suc)
    have mb: "m @ [b] = full @ (r @ [b])" using m(1) by simp
    have "hash_blocks SHA512_H0 (m @ [b]) = hash_blocks SHA512_H0 full"
      unfolding mb by (rule hash_blocks_short [OF dv]) (use m(3,4) False in simp)
    moreover have "drop (128 * (length (m @ [b]) div 128)) (m @ [b]) = r @ [b]"
      unfolding idx(2) r_def by (simp add: minus_mult_div_eq_mod)
    ultimately have "sha_inv (m @ [b]) c2"
      unfolding sha_inv_def idx(1) using inv hash blk by (simp add: c2_def c1_def)
    moreover have "SHA512Input_byte b c = Some c2"
      using p a False by (simp add: SHA512Input_byte_def c2_def c1_def SHA512_Message_Block_Size_def)
    ultimately show ?thesis by blast
  qed
qed

lemma input_loop_inv:
  assumes "sha_inv m c" "8 * length (m @ bs) < 2 ^ 128"
  shows "\<exists>c'. SHA512Input_loop bs c = Some c' \<and> sha_inv (m @ bs) c'"
  using assms
proof (induction bs arbitrary: m c)
  case (Cons b bs)
  have "8 * Suc (length m) < 2 ^ 128" by (rule le_less_trans [OF _ Cons.prems(2)]) simp
  then obtain c1 where c1: "SHA512Input_byte b c = Some c1" "sha_inv (m @ [b]) c1"
    using input_byte_inv [OF Cons.prems(1)] by blast
  then obtain c' where "SHA512Input_loop bs c1 = Some c'" "sha_inv ((m @ [b]) @ bs) c'"
    using Cons.IH [OF c1(2)] Cons.prems(2) by auto
  with c1(1) show ?case by auto
qed simp

lemma SHA512Input_inv:
  assumes "sha_inv m c" "8 * length (m @ bs) < 2 ^ 128"
  shows "\<exists>c'. SHA512Input (Some bs) (length bs) c = Some (0, c') \<and> sha_inv (m @ bs) c'"
proof (cases "bs = []")
  case True
  then show ?thesis using assms(1) by (simp add: SHA512Input_def)
next
  case False
  obtain c' where "SHA512Input_loop bs c = Some c'" "sha_inv (m @ bs) c'" using input_loop_inv [OF assms] by blast
  with False assms(1) show ?thesis by (simp add: SHA512Input_def sha_inv_def rd_block_def)
qed

section \<open>The padding and the result\<close>

definition block_is :: "byte list \<Rightarrow> SHA512Context \<Rightarrow> bool" where
  "block_is r c \<longleftrightarrow> length (Message_Block c) = 128 \<and> Message_Block_Index c = length r \<and>
     take (length r) (Message_Block c) = r"

lemma put_byte_block:
  assumes "block_is r c" "length r < 128"
  obtains blk where "put_byte b c = Some (c\<lparr>Message_Block := blk, Message_Block_Index := Suc (length r)\<rparr>)"
    "block_is (r @ [b]) (c\<lparr>Message_Block := blk, Message_Block_Index := Suc (length r)\<rparr>)"
proof (rule that [of "(Message_Block c)[length r := b]"])
  have blk: "length (Message_Block c) = 128" "Message_Block_Index c = length r" "take (length r) (Message_Block c) = r"
    using assms(1) by (simp_all add: block_is_def)
  show "put_byte b c = Some (c\<lparr>Message_Block := (Message_Block c)[length r := b], Message_Block_Index := Suc (length r)\<rparr>)"
    using blk assms(2) by (simp add: put_byte_def wr_block_def upd_conv_take_nth_drop)
  show "block_is (r @ [b]) (c\<lparr>Message_Block := (Message_Block c)[length r := b], Message_Block_Index := Suc (length r)\<rparr>)"
    using blk assms(2) take_update_block [OF blk(3), of b] by (simp add: block_is_def)
qed

lemma put_zeros_block:
  assumes "block_is r c" "length r \<le> limit" "limit \<le> 128"
  shows "\<exists>blk. put_zeros limit c = Some (c\<lparr>Message_Block := blk, Message_Block_Index := limit\<rparr>) \<and>
    block_is (r @ replicate (limit - length r) 0) (c\<lparr>Message_Block := blk, Message_Block_Index := limit\<rparr>)"
  using assms
proof (induction "limit - length r" arbitrary: r c)
  case 0
  then have "c = c\<lparr>Message_Block := Message_Block c, Message_Block_Index := limit\<rparr>"
    by (simp add: block_is_def)
  with 0 show ?case by (subst put_zeros.simps) (force simp: block_is_def)
next
  case (Suc k)
  from Suc.hyps(2) Suc.prems(3) have lt: "length r < 128" by simp
  obtain blk where b: "put_byte 0 c = Some (c\<lparr>Message_Block := blk, Message_Block_Index := Suc (length r)\<rparr>)"
    "block_is (r @ [0]) (c\<lparr>Message_Block := blk, Message_Block_Index := Suc (length r)\<rparr>)"
    by (rule put_byte_block [OF Suc.prems(1) lt])
  have "\<exists>blk'. put_zeros limit (c\<lparr>Message_Block := blk, Message_Block_Index := Suc (length r)\<rparr>) =
      Some (c\<lparr>Message_Block := blk, Message_Block_Index := Suc (length r), Message_Block := blk', Message_Block_Index := limit\<rparr>) \<and>
      block_is ((r @ [0]) @ replicate (limit - length (r @ [0])) 0)
        (c\<lparr>Message_Block := blk, Message_Block_Index := Suc (length r), Message_Block := blk', Message_Block_Index := limit\<rparr>)"
    by (rule Suc.hyps(1)) (use Suc.hyps(2) Suc.prems b(2) in simp_all)
  moreover have "r @ replicate (limit - length r) 0 = (r @ [0]) @ replicate (limit - length (r @ [0])) (0 :: byte)"
    using Suc.hyps(2) by (cases "limit - length r") (simp_all add: Suc_diff_le)
  moreover have "Message_Block_Index c < limit" using Suc.hyps(2) Suc.prems(1) by (simp add: block_is_def)
  ultimately show ?case using b(1) by (subst put_zeros.simps) simp
qed

lemma finish_block:
  assumes "block_is r c" "length r = 112" "Intermediate_Hash c = hash_blocks SHA512_H0 full" "128 dvd length full"
    and "length len = 16"
  shows "\<exists>blk. wr_block (Message_Block c) 112 len = Some blk \<and>
    Intermediate_Hash (SHA384_512ProcessMessageBlock (c\<lparr>Message_Block := blk\<rparr>)) = hash_blocks SHA512_H0 (full @ r @ len)"
proof -
  have "wr_block (Message_Block c) 112 len = Some (r @ len)"
    using assms by (simp add: wr_block_def block_is_def)
  moreover have "hash_blocks SHA512_H0 (full @ (r @ len)) = compress (hash_blocks SHA512_H0 full) (r @ len)"
    by (rule hash_blocks_snoc) (use assms in simp_all)
  ultimately show ?thesis using assms(3) by (simp add: SHA384_512ProcessMessageBlock_def)
qed

lemma pad_inv:
  assumes "sha_inv m c"
  shows "\<exists>c'. SHA384_512PadMessage 0x80 c = Some c' \<and> Corrupted c' = 0 \<and>
    Intermediate_Hash c' = hash_blocks SHA512_H0 (sha512_pad m)"
proof -
  define r where "r = drop (128 * (length m div 128)) m"
  define full where "full = take (128 * (length m div 128)) m"
  define len where "len = be_word (of_nat (8 * length m div 2 ^ 64)) @ be_word (of_nat (8 * length m))"
  have lens: "length full = 128 * (length m div 128)" "length r = length m mod 128" "length len = 16"
    by (simp_all add: r_def full_def len_def minus_mult_div_eq_mod)
  have m: "m = full @ r" by (simp add: r_def full_def)
  have dv: "128 dvd length full" unfolding lens by simp
  have r: "length r < 128" unfolding lens by simp
  have hash: "hash_blocks SHA512_H0 m = hash_blocks SHA512_H0 full"
    using hash_blocks_short [OF dv r, of SHA512_H0] m by simp
  have blk: "block_is r c" and inv: "Intermediate_Hash c = hash_blocks SHA512_H0 full" "Corrupted c = 0"
    "be_word (Length_High c) @ be_word (Length_Low c) = len"
    using assms hash unfolding sha_inv_def block_is_def lens len_def bits_div by (simp_all add: r_def)
  obtain b1 where b1: "put_byte 0x80 c = Some (c\<lparr>Message_Block := b1, Message_Block_Index := Suc (length r)\<rparr>)"
    "block_is (r @ [0x80]) (c\<lparr>Message_Block := b1, Message_Block_Index := Suc (length r)\<rparr>)"
    by (rule put_byte_block [OF blk r])
  let ?c1 = "c\<lparr>Message_Block := b1, Message_Block_Index := Suc (length r)\<rparr>"
  have idx: "Message_Block_Index c = length r" using blk by (simp add: block_is_def)
  show ?thesis
  proof (cases "length r \<ge> 112")
    case False
    obtain b2 where b2: "put_zeros 112 ?c1 = Some (?c1\<lparr>Message_Block := b2, Message_Block_Index := 112\<rparr>)"
      "block_is ((r @ [0x80]) @ replicate (111 - length r) 0) (?c1\<lparr>Message_Block := b2, Message_Block_Index := 112\<rparr>)"
      using put_zeros_block [OF b1(2), of 112] False by auto
    obtain b3 where b3: "wr_block b2 112 len = Some b3"
      "Intermediate_Hash (SHA384_512ProcessMessageBlock (?c1\<lparr>Message_Block := b2, Message_Block_Index := 112, Message_Block := b3\<rparr>)) =
         hash_blocks SHA512_H0 (full @ ((r @ [0x80]) @ replicate (111 - length r) 0) @ len)"
      using finish_block [OF b2(2) _ _ dv lens(3)] False inv(1) by auto
    have pad: "sha512_pad m = full @ ((r @ [0x80]) @ replicate (111 - length r) 0) @ len"
    proof -
      have "(239 - length r) mod 128 = 111 - length r" using False by (simp add: mod_if)
      then show ?thesis using m unfolding sha512_pad_def len_def lens(2) [symmetric] by simp
    qed
    have "SHA384_512PadMessage 0x80 c =
        Some (SHA384_512ProcessMessageBlock (?c1\<lparr>Message_Block := b2, Message_Block_Index := 112, Message_Block := b3\<rparr>))"
      using False b1(1) b2(1) b3(1) inv(3) idx by (simp add: SHA384_512PadMessage_def SHA512_Message_Block_Size_def)
    with b3(2) inv(2) pad show ?thesis by (simp add: SHA384_512ProcessMessageBlock_def)
  next
    case True
    obtain b2 where b2: "put_zeros 128 ?c1 = Some (?c1\<lparr>Message_Block := b2, Message_Block_Index := 128\<rparr>)"
      "block_is ((r @ [0x80]) @ replicate (127 - length r) 0) (?c1\<lparr>Message_Block := b2, Message_Block_Index := 128\<rparr>)"
      using put_zeros_block [OF b1(2), of 128] r by auto
    let ?c2 = "SHA384_512ProcessMessageBlock (?c1\<lparr>Message_Block := b2, Message_Block_Index := 128\<rparr>)"
    have b2eq: "b2 = (r @ [0x80]) @ replicate (127 - length r) 0" using b2(2) r take_all [of b2 128] by (simp add: block_is_def)
    have h2: "Intermediate_Hash ?c2 = hash_blocks SHA512_H0 (full @ b2)"
      using hash_blocks_snoc [OF dv, of b2] inv(1) b2(2)
      by (simp add: SHA384_512ProcessMessageBlock_def block_is_def)
    have dv2: "128 dvd length (full @ b2)" using dv b2(2) by (simp add: block_is_def)
    have "block_is [] ?c2" using b2(2) by (simp add: block_is_def SHA384_512ProcessMessageBlock_def)
    then obtain b3 where b3: "put_zeros 112 ?c2 = Some (?c2\<lparr>Message_Block := b3, Message_Block_Index := 112\<rparr>)"
      "block_is (replicate 112 0) (?c2\<lparr>Message_Block := b3, Message_Block_Index := 112\<rparr>)"
      using put_zeros_block [of "[]" ?c2 112] by auto
    obtain b4 where b4: "wr_block b3 112 len = Some b4"
      "Intermediate_Hash (SHA384_512ProcessMessageBlock (?c2\<lparr>Message_Block := b3, Message_Block_Index := 112, Message_Block := b4\<rparr>)) =
         hash_blocks SHA512_H0 ((full @ b2) @ replicate 112 0 @ len)"
      using finish_block [OF b3(2) _ _ dv2 lens(3)] h2 by auto
    have pad: "sha512_pad m = (full @ b2) @ replicate 112 0 @ len"
    proof -
      have "(239 - length r) mod 128 = (127 - length r) + 112" using True r by (simp add: mod_if)
      then have "replicate ((239 - length r) mod 128) (0 :: byte) = replicate (127 - length r) 0 @ replicate 112 0"
        by (simp only: replicate_add)
      then show ?thesis using m unfolding sha512_pad_def len_def lens(2) [symmetric] b2eq
        by (simp only: append_assoc)
    qed
    have lc: "Length_High ?c2 = Length_High c" "Length_Low ?c2 = Length_Low c" "Corrupted ?c2 = Corrupted c"
      by (simp_all add: SHA384_512ProcessMessageBlock_def)
    have "SHA384_512PadMessage 0x80 c =
        Some (SHA384_512ProcessMessageBlock (?c2\<lparr>Message_Block := b3, Message_Block_Index := 112, Message_Block := b4\<rparr>))"
      using True b1(1) b2(1) b3(1) b4(1) inv(3) idx lc by (simp add: SHA384_512PadMessage_def SHA512_Message_Block_Size_def)
    with b4(2) inv(2) pad lc show ?thesis by (simp add: SHA384_512ProcessMessageBlock_def)
  qed
qed

lemma SHA512Result_inv:
  assumes "sha_inv m c"
  shows "\<exists>c'. SHA512Result c = Some (0, Some (sha512_spec m), c') \<and> length (Message_Block c') = 128"
proof -
  obtain c1 where c1: "SHA384_512PadMessage 0x80 c = Some c1" "Intermediate_Hash c1 = hash_blocks SHA512_H0 (sha512_pad m)"
    using pad_inv [OF assms] by blast
  have "length (hash_blocks SHA512_H0 (sha512_pad m)) = 8" by (simp add: length_hash_blocks)
  from digest_words [OF this] c1 assms show ?thesis
    by (simp add: SHA512Result_def SHA384_512ResultN_def SHA384_512Finalize_def sha512_spec_def sha_inv_def
        SHA512_Message_Block_Size_def)
qed

text \<open>A run of the three functions: reset, one input after the other, result.\<close>

primrec sha512_inputs :: "byte list list \<Rightarrow> SHA512Context \<Rightarrow> SHA512Context option" where
  "sha512_inputs [] c = Some c"
| "sha512_inputs (bs # bss) c = do { (_, c) \<leftarrow> SHA512Input (Some bs) (length bs) c; sha512_inputs bss c }"

lemma sha512_inputs_inv:
  assumes "sha_inv m c" "8 * length (m @ concat bss) < 2 ^ 128"
  shows "\<exists>c'. sha512_inputs bss c = Some c' \<and> sha_inv (m @ concat bss) c'"
  using assms
proof (induction bss arbitrary: m c)
  case (Cons bs bss)
  have "8 * length (m @ bs) < 2 ^ 128" by (rule le_less_trans [OF _ Cons.prems(2)]) simp
  then obtain c1 where c1: "SHA512Input (Some bs) (length bs) c = Some (0, c1)" "sha_inv (m @ bs) c1"
    using SHA512Input_inv [OF Cons.prems(1)] by blast
  obtain c' where "sha512_inputs bss c1 = Some c'" "sha_inv ((m @ bs) @ concat bss) c'"
    using Cons.IH [OF c1(2)] Cons.prems(2) by auto
  with c1(1) show ?case by auto
qed simp

text \<open>C24: However a message is cut into pieces for \<open>SHA512Input\<close>, the three functions return
  the hash that the standard defines for the whole message, whatever the context held before.\<close>

theorem sha512_incremental:
  assumes "length (Message_Block c) = 128" "8 * length (concat bss) < 2 ^ 128"
  shows "\<exists>c1 c2. sha512_inputs bss (snd (SHA512Reset c)) = Some c1 \<and>
    SHA512Result c1 = Some (shaSuccess, Some (sha512_spec (concat bss)), c2)"
proof -
  obtain c1 where "sha512_inputs bss (snd (SHA512Reset c)) = Some c1" "sha_inv ([] @ concat bss) c1"
    using sha512_inputs_inv [OF sha_inv_reset [OF assms(1)], of bss] assms(2) by auto
  with SHA512Result_inv [of "concat bss" c1] show ?thesis by auto
qed

lemma sha512_incremental_witness:
  "\<exists>c1 c2. sha512_inputs [[97], [], [98, 99]]
      (snd (SHA512Reset \<lparr>Intermediate_Hash = [], Length_High = 7, Length_Low = 7, Message_Block_Index = 3,
         Message_Block = replicate 128 9, Computed = True, Corrupted = 1\<rparr>)) = Some c1 \<and>
    SHA512Result c1 = Some (0, Some (sha512_spec [97, 98, 99]), c2)"
  using sha512_incremental [of "\<lparr>Intermediate_Hash = [], Length_High = 7, Length_Low = 7, Message_Block_Index = 3,
         Message_Block = replicate 128 9, Computed = True, Corrupted = 1\<rparr>" "[[97], [], [98, 99]]"] by simp

text \<open>The macros of \<open>USE_MODIFIED_MACROS\<close> compute the same functions as the standard's.\<close>

theorem sha_macros_equivalent:
  "SHA_Ch_modified x y z = SHA_Ch x y z \<and> SHA_Maj_modified x y z = SHA_Maj x y z"
  unfolding SHA_Ch_modified_def SHA_Ch_def SHA_Maj_modified_def SHA_Maj_def
  by (intro conjI bit_word_eqI) (auto simp: bit_simps)

end
