(* ===== verification/Hkdf.thy ===== *)
theory Hkdf
  imports Sha512
begin

text \<open>
  HMAC and HKDF (\<open>hkdf-sha/upstream/hmac.c\<close>, \<open>hkdf.c\<close>). The library can use five hash functions
  (\<open>usha.c\<close>); the callers in this repository pass \<open>SHA512\<close>, and the model has this case only:
  \<open>USHAReset\<close>, \<open>USHAInput\<close> and \<open>USHAResult\<close> are the functions of SHA-512. A context on the stack is
  not initialised; \<open>SHA512Reset\<close> and \<open>hmacReset\<close> set every field before it is read.
\<close>

section \<open>The code\<close>

definition stack_context :: SHA512Context where
  "stack_context = \<lparr>Intermediate_Hash = replicate 8 0, Length_High = 0, Length_Low = 0,
     Message_Block_Index = 0, Message_Block = replicate 128 0, Computed = False, Corrupted = 0\<rparr>"

record HMACContext =
  shaContext :: SHA512Context
  k_opad :: "byte list"
  hmac_Computed :: bool
  hmac_Corrupted :: int

definition stack_hmac :: HMACContext where
  "stack_hmac = \<lparr>shaContext = stack_context, k_opad = replicate 128 0, hmac_Computed = False, hmac_Corrupted = 0\<rparr>"

text \<open>\<open>r || k\<close> of C for a result code \<open>r\<close>: 1 when it is not zero, else the rest.\<close>

definition c_or :: "int \<Rightarrow> 's \<Rightarrow> (int \<times> 's) option \<Rightarrow> (int \<times> 's) option" where
  "c_or r s k = (if r \<noteq> 0 then Some (1, s) else do { (r, s) \<leftarrow> k; Some (if r \<noteq> 0 then 1 else 0, s) })"

definition hmacReset :: "byte list \<Rightarrow> HMACContext \<Rightarrow> (int \<times> HMACContext) option" where
  "hmacReset key context = do {
     let context = context\<lparr>hmac_Computed := False, hmac_Corrupted := shaSuccess\<rparr>;
     (err, key) \<leftarrow>
       (if length key > SHA512_Message_Block_Size then do {
          let (r, tcontext) = SHA512Reset stack_context;
          (err, digest) \<leftarrow> c_or r None (do {
            (r, tcontext) \<leftarrow> SHA512Input (Some key) (length key) tcontext;
            c_or r None (do { (r, digest, _) \<leftarrow> SHA512Result tcontext; Some (r, digest) }) });
          Some (err, case digest of Some d \<Rightarrow> d | None \<Rightarrow> key) }
        else Some (0, key));
     if err \<noteq> 0 then Some (err, context)
     else do {
       let pad = replicate (SHA512_Message_Block_Size - length key) 0;
       let k_ipad = map (\<lambda>b. b XOR 0x36) (key @ pad);
       let context = context\<lparr>k_opad := map (\<lambda>b. b XOR 0x5c) (key @ pad)\<rparr>;
       let (r, sha) = SHA512Reset (shaContext context);
       (ret, sha) \<leftarrow> c_or r sha (SHA512Input (Some k_ipad) SHA512_Message_Block_Size sha);
       Some (ret, context\<lparr>shaContext := sha, hmac_Corrupted := ret\<rparr>) } }"

definition hmacInput :: "byte list option \<Rightarrow> nat \<Rightarrow> HMACContext \<Rightarrow> (int \<times> HMACContext) option" where
  "hmacInput txt text_len context =
     (if hmac_Corrupted context \<noteq> 0 then Some (hmac_Corrupted context, context)
      else if hmac_Computed context then Some (shaStateError, context\<lparr>hmac_Corrupted := shaStateError\<rparr>)
      else do {
        (r, sha) \<leftarrow> SHA512Input txt text_len (shaContext context);
        Some (r, context\<lparr>shaContext := sha, hmac_Corrupted := r\<rparr>) })"

text \<open>\<open>digest\<close> is the buffer of the caller, of 64 bytes; a result that fails leaves it as it is.\<close>

definition usha_result ::
    "byte list \<Rightarrow> SHA512Context \<Rightarrow> (int \<times> byte list \<times> SHA512Context) option" where
  "usha_result digest sha = do {
     (r, d, sha) \<leftarrow> SHA512Result sha;
     Some (r, case d of Some d \<Rightarrow> d | None \<Rightarrow> digest, sha) }"

definition hmacResult :: "byte list \<Rightarrow> HMACContext \<Rightarrow> (int \<times> byte list \<times> HMACContext) option" where
  "hmacResult digest context =
     (if hmac_Corrupted context \<noteq> 0 then Some (hmac_Corrupted context, digest, context)
      else if hmac_Computed context then Some (shaStateError, digest, context\<lparr>hmac_Corrupted := shaStateError\<rparr>)
      else do {
        (r, digest, sha) \<leftarrow> usha_result digest (shaContext context);
        (ret, digest, sha) \<leftarrow> c_or r (digest, sha) (do {
          let (r, sha) = SHA512Reset sha;
          c_or r (digest, sha) (do {
            (r, sha) \<leftarrow> SHA512Input (Some (k_opad context)) SHA512_Message_Block_Size sha;
            c_or r (digest, sha) (do {
              (r, sha) \<leftarrow> SHA512Input (Some digest) SHA512HashSize sha;
              c_or r (digest, sha) (usha_result digest sha) }) }) });
        Some (ret, digest, context\<lparr>shaContext := sha, hmac_Computed := True, hmac_Corrupted := ret\<rparr>) })"

definition hmac ::
    "byte list option \<Rightarrow> nat \<Rightarrow> byte list \<Rightarrow> byte list \<Rightarrow> (int \<times> byte list) option" where
  "hmac message_array len key digest = do {
     (r, context) \<leftarrow> hmacReset key stack_hmac;
     c_or r digest (do {
       (r, context) \<leftarrow> hmacInput message_array len context;
       c_or r digest (do { (r, digest, _) \<leftarrow> hmacResult digest context; Some (r, digest) }) }) }"

text \<open>A salt that is NULL stands for 64 zero bytes.\<close>

definition hkdfExtract ::
    "byte list option \<Rightarrow> byte list option \<Rightarrow> nat \<Rightarrow> byte list \<Rightarrow> (int \<times> byte list) option" where
  "hkdfExtract salt ikm ikm_len prk =
     hmac ikm ikm_len (case salt of None \<Rightarrow> replicate SHA512HashSize 0 | Some s \<Rightarrow> s) prk"

fun hkdfExpand_loop ::
    "byte list \<Rightarrow> byte list \<Rightarrow> nat \<Rightarrow> nat \<Rightarrow> nat list \<Rightarrow> byte list \<Rightarrow> nat \<Rightarrow> nat \<Rightarrow> byte list \<Rightarrow> (int \<times> byte list) option" where
  "hkdfExpand_loop prk info okm_len N [] T Tlen wher okm = Some (shaSuccess, okm)"
| "hkdfExpand_loop prk info okm_len N (i # is) T Tlen wher okm = do {
     (r, context) \<leftarrow> hmacReset prk stack_hmac;
     (ret, T) \<leftarrow> c_or r T (do {
       (r, context) \<leftarrow> hmacInput (Some T) Tlen context;
       c_or r T (do {
         (r, context) \<leftarrow> hmacInput (Some info) (length info) context;
         c_or r T (do {
           (r, context) \<leftarrow> hmacInput (Some [of_nat i]) 1 context;
           c_or r T (do { (r, T, _) \<leftarrow> hmacResult T context; Some (r, T) }) }) }) });
     if ret \<noteq> 0 then Some (ret, okm)
     else do {
       src \<leftarrow> rd_block T 0 (if i \<noteq> N then int SHA512HashSize else int okm_len - int wher);
       okm \<leftarrow> wr_block okm (int wher) src;
       hkdfExpand_loop prk info okm_len N is T SHA512HashSize (wher + SHA512HashSize) okm } }"

definition hkdfExpand ::
    "byte list \<Rightarrow> byte list \<Rightarrow> byte list \<Rightarrow> nat \<Rightarrow> (int \<times> byte list) option" where
  "hkdfExpand prk info okm okm_len =
     (if okm_len = 0 then Some (shaBadParam, okm)
      else if length prk < SHA512HashSize then Some (shaBadParam, okm)
      else let N = (if okm_len mod SHA512HashSize \<noteq> 0 then okm_len div SHA512HashSize + 1 else okm_len div SHA512HashSize) in
        if N > 255 then Some (shaBadParam, okm)
        else hkdfExpand_loop prk info okm_len N [1..<N + 1] (replicate SHA512HashSize 0) 0 0 okm)"

definition hkdf ::
    "byte list option \<Rightarrow> byte list option \<Rightarrow> nat \<Rightarrow> byte list \<Rightarrow> byte list \<Rightarrow> nat \<Rightarrow> (int \<times> byte list) option" where
  "hkdf salt ikm ikm_len info okm okm_len = do {
     (r, prk) \<leftarrow> hkdfExtract salt ikm ikm_len (replicate SHA512HashSize 0);
     c_or r okm (hkdfExpand prk info okm okm_len) }"

section \<open>The functions of the RFCs\<close>

definition hmac_key :: "byte list \<Rightarrow> byte list" where
  "hmac_key key = (let k = (if length key > 128 then sha512_spec key else key) in k @ replicate (128 - length k) 0)"

definition hmac_spec :: "byte list \<Rightarrow> byte list \<Rightarrow> byte list" where
  "hmac_spec key m = sha512_spec (map (\<lambda>b. b XOR 0x5c) (hmac_key key) @
     sha512_spec (map (\<lambda>b. b XOR 0x36) (hmac_key key) @ m))"

fun hkdf_block :: "byte list \<Rightarrow> byte list \<Rightarrow> nat \<Rightarrow> byte list" where
  "hkdf_block prk info 0 = []"
| "hkdf_block prk info (Suc i) = hmac_spec prk (hkdf_block prk info i @ info @ [of_nat (Suc i)])"

definition hkdf_spec :: "byte list \<Rightarrow> byte list \<Rightarrow> byte list \<Rightarrow> nat \<Rightarrow> byte list" where
  "hkdf_spec salt ikm info len =
     take len (concat (map (hkdf_block (hmac_spec salt ikm) info) [1..<(len + 63) div 64 + 1]))"

lemma length_sha512_spec [simp]: "length (sha512_spec m) = 64"
  by (simp add: sha512_spec_def sha512_digest_def length_concat o_def sum_list_triv length_hash_blocks)

lemma length_hmac_spec [simp]: "length (hmac_spec k m) = 64"
  by (simp add: hmac_spec_def)

lemma length_hkdf_spec: "length (hkdf_spec salt ikm info 32) = 32"
  by (simp add: hkdf_spec_def numeral_2_eq_2)

lemma length_hmac_key [simp]: "length (hmac_key k) = 128"
  by (simp add: hmac_key_def Let_def)

section \<open>The code computes them\<close>

lemma c_or_simps [simp]:
  "c_or 0 s (Some (0, t)) = Some (0, t)" "c_or 0 s None = None"
  by (simp_all add: c_or_def)

definition hm_inv :: "byte list \<Rightarrow> byte list \<Rightarrow> HMACContext \<Rightarrow> bool" where
  "hm_inv key m c \<longleftrightarrow> sha_inv (map (\<lambda>b. b XOR 0x36) (hmac_key key) @ m) (shaContext c) \<and>
     k_opad c = map (\<lambda>b. b XOR 0x5c) (hmac_key key) \<and> \<not> hmac_Computed c \<and> hmac_Corrupted c = 0"

lemma sha_reset_input:
  assumes "length (Message_Block c) = 128" "8 * length bs < 2 ^ 128"
  obtains c0 c' where "SHA512Reset c = (0, c0)" "SHA512Input (Some bs) (length bs) c0 = Some (0, c')" "sha_inv bs c'"
proof -
  have "fst (SHA512Reset c) = 0" by (simp add: SHA512Reset_def SHA384_512Reset_def)
  then have "SHA512Reset c = (0, snd (SHA512Reset c))" by (metis prod.collapse)
  with SHA512Input_inv [OF sha_inv_reset [OF assms(1)], of bs] assms(2) that show thesis by auto
qed

lemma stack_block [simp]: "length (Message_Block stack_context) = 128"
  by (simp add: stack_context_def)

lemma stack_hmac_context [simp]: "shaContext stack_hmac = stack_context"
  by (simp add: stack_hmac_def)

lemma hmacReset_inv:
  assumes "8 * length key < 2 ^ 128"
  shows "\<exists>c. hmacReset key stack_hmac = Some (0, c) \<and> hm_inv key [] c"
proof -
  obtain c0 c' where c': "SHA512Reset stack_context = (0, c0)"
    "SHA512Input (Some (map (\<lambda>b. b XOR 0x36) (hmac_key key))) SHA512_Message_Block_Size c0 = Some (0, c')"
    "sha_inv (map (\<lambda>b. b XOR 0x36) (hmac_key key)) c'"
    by (rule sha_reset_input [of stack_context "map (\<lambda>b. b XOR 0x36) (hmac_key key)"])
      (auto simp: SHA512_Message_Block_Size_def)
  show ?thesis
  proof (cases "length key > 128")
    case False
    then have k: "hmac_key key = key @ replicate (128 - length key) 0" by (simp add: hmac_key_def)
    show ?thesis using False c'
      unfolding hmacReset_def hm_inv_def Let_def k append_Nil2
      by (simp add: SHA512_Message_Block_Size_def)
  next
    case True
    then have k: "hmac_key key = sha512_spec key @ replicate 64 0" by (simp add: hmac_key_def Let_def)
    obtain c1 where c1: "SHA512Input (Some key) (length key) c0 = Some (0, c1)" "sha_inv key c1"
      by (rule sha_reset_input [OF stack_block assms]) (use c'(1) in auto)
    obtain c2 where c2: "SHA512Result c1 = Some (0, Some (sha512_spec key), c2)"
      using SHA512Result_inv [OF c1(2)] by blast
    show ?thesis using True c' c1(1) c2
      unfolding hmacReset_def hm_inv_def Let_def k append_Nil2
      by (simp add: SHA512_Message_Block_Size_def)
  qed
qed

lemma hmacInput_inv:
  assumes "hm_inv key m c" "8 * length (m @ bs) + 1024 < 2 ^ 128"
  shows "\<exists>c'. hmacInput (Some bs) (length bs) c = Some (0, c') \<and> hm_inv key (m @ bs) c'"
proof -
  have inv: "sha_inv (map (\<lambda>b. b XOR 0x36) (hmac_key key) @ m) (shaContext c)" "\<not> hmac_Computed c" "hmac_Corrupted c = 0"
    using assms(1) by (simp_all add: hm_inv_def)
  obtain c' where "SHA512Input (Some bs) (length bs) (shaContext c) = Some (0, c')"
    "sha_inv ((map (\<lambda>b. b XOR 0x36) (hmac_key key) @ m) @ bs) c'"
    using SHA512Input_inv [OF inv(1), of bs] assms(2) by auto
  with inv assms(1) show ?thesis by (simp add: hmacInput_def hm_inv_def)
qed

lemma hmacInput_null:
  assumes "hm_inv key m c"
  shows "\<exists>c'. hmacInput None 0 c = Some (0, c') \<and> hm_inv key m c'"
  using assms by (simp add: hmacInput_def SHA512Input_def hm_inv_def)

lemma hmacResult_inv:
  assumes "hm_inv key m c"
  shows "\<exists>c'. hmacResult d c = Some (0, hmac_spec key m, c')"
proof -
  let ?o = "map (\<lambda>b. b XOR 0x5c) (hmac_key key)"
  let ?d = "sha512_spec (map (\<lambda>b. b XOR 0x36) (hmac_key key) @ m)"
  have inv: "sha_inv (map (\<lambda>b. b XOR 0x36) (hmac_key key) @ m) (shaContext c)" "k_opad c = ?o"
    "\<not> hmac_Computed c" "hmac_Corrupted c = 0"
    using assms by (simp_all add: hm_inv_def)
  obtain c1 where c1: "SHA512Result (shaContext c) = Some (0, Some ?d, c1)" "length (Message_Block c1) = 128"
    using SHA512Result_inv [OF inv(1)] by blast
  obtain c0 c2 where c2: "SHA512Reset c1 = (0, c0)" "SHA512Input (Some ?o) SHA512_Message_Block_Size c0 = Some (0, c2)" "sha_inv ?o c2"
    by (rule sha_reset_input [OF c1(2), of ?o]) (auto simp: SHA512_Message_Block_Size_def)
  obtain c3 where c3: "SHA512Input (Some ?d) SHA512HashSize c2 = Some (0, c3)" "sha_inv (?o @ ?d) c3"
    using SHA512Input_inv [OF c2(3), of ?d] by (auto simp: SHA512HashSize_def)
  obtain c4 where c4: "SHA512Result c3 = Some (0, Some (sha512_spec (?o @ ?d)), c4)"
    using SHA512Result_inv [OF c3(2)] by blast
  show ?thesis
    using inv(2-4) c1 c2(1,2) c3(1) c4
    by (simp add: hmacResult_def usha_result_def hmac_spec_def)
qed

text \<open>\<open>NULL\<close> with the length 0 is the empty text.\<close>

definition c_bytes :: "byte list option \<Rightarrow> nat \<Rightarrow> byte list \<Rightarrow> bool" where
  "c_bytes p n bs \<longleftrightarrow> n = length bs \<and> (p = Some bs \<or> p = None \<and> bs = [])"

lemma hmac_correct:
  assumes "c_bytes p n m" "8 * length key < 2 ^ 128" "8 * length m + 1024 < 2 ^ 128"
  shows "hmac p n key d = Some (0, hmac_spec key m)"
proof -
  obtain c1 where c1: "hmacReset key stack_hmac = Some (0, c1)" "hm_inv key [] c1"
    using hmacReset_inv [OF assms(2)] by blast
  have "\<exists>c2. hmacInput p n c1 = Some (0, c2) \<and> hm_inv key m c2"
    using hmacInput_inv [OF c1(2), of m] hmacInput_null [OF c1(2)] assms(1,3) by (auto simp: c_bytes_def)
  then obtain c2 where c2: "hmacInput p n c1 = Some (0, c2)" "hm_inv key m c2" by blast
  obtain c3 where "hmacResult d c2 = Some (0, hmac_spec key m, c3)" using hmacResult_inv [OF c2(2)] by blast
  with c1(1) c2(1) show ?thesis by (simp add: hmac_def)
qed

lemma hmacInput_zero:
  assumes "hm_inv key m c"
  shows "\<exists>c'. hmacInput p 0 c = Some (0, c') \<and> hm_inv key m c'"
  using assms by (simp add: hmacInput_def SHA512Input_def hm_inv_def)

lemma hkdf_block_step:
  assumes "8 * length prk < 2 ^ 128" "8 * length info + 2048 < 2 ^ 128"
    and "k = 0 \<and> Tlen = 0 \<or> T = hkdf_block prk info k \<and> Tlen = length T"
    and "hmacReset prk stack_hmac = Some (r, c0)"
  shows "c_or r T (do {
       (r, context) \<leftarrow> hmacInput (Some T) Tlen c0;
       c_or r T (do {
         (r, context) \<leftarrow> hmacInput (Some info) (length info) context;
         c_or r T (do {
           (r, context) \<leftarrow> hmacInput (Some [of_nat (Suc k)]) 1 context;
           c_or r T (do { (r, T, _) \<leftarrow> hmacResult T context; Some (r, T) }) }) }) }) =
    Some (0, hkdf_block prk info (Suc k))"
proof -
  let ?t = "hkdf_block prk info k"
  have len: "length ?t \<le> 64" by (cases k) simp_all
  have c0: "r = 0" "hm_inv prk [] c0" using hmacReset_inv [OF assms(1)] assms(4) by auto
  have "\<exists>c1. hmacInput (Some T) Tlen c0 = Some (0, c1) \<and> hm_inv prk ([] @ ?t) c1"
    using assms(3)
  proof (elim disjE conjE)
    assume "k = 0" "Tlen = 0"
    with hmacInput_zero [OF c0(2)] show ?thesis by simp
  next
    assume "T = ?t" "Tlen = length T"
    with hmacInput_inv [OF c0(2), of ?t] len assms(2) show ?thesis by simp
  qed
  then obtain c1 where c1: "hmacInput (Some T) Tlen c0 = Some (0, c1)" "hm_inv prk ?t c1" by auto
  obtain c2 where c2: "hmacInput (Some info) (length info) c1 = Some (0, c2)" "hm_inv prk (?t @ info) c2"
    using hmacInput_inv [OF c1(2), of info] len assms(2) by auto
  obtain c3 where c3: "hmacInput (Some [of_nat (Suc k)]) 1 c2 = Some (0, c3)" "hm_inv prk ((?t @ info) @ [of_nat (Suc k)]) c3"
    using hmacInput_inv [OF c2(2), of "[of_nat (Suc k)]"] len assms(2) by auto
  obtain c4 where "hmacResult T c3 = Some (0, hmac_spec prk ((?t @ info) @ [of_nat (Suc k)]), c4)"
    using hmacResult_inv [OF c3(2)] by blast
  with c0(1) c1(1) c2(1) c3(1) show ?thesis by simp
qed

lemma expand_loop_correct:
  assumes "8 * length prk < 2 ^ 128" "8 * length info + 2048 < 2 ^ 128"
    and "k = 0 \<and> Tlen = 0 \<or> T = hkdf_block prk info k \<and> Tlen = length T"
    and "k \<le> N" "64 * N < L + 64" "L \<le> 64 * N" "length okm = L"
    and "take (64 * k) okm = take L (concat (map (hkdf_block prk info) [1..<Suc k]))"
  shows "hkdfExpand_loop prk info L N [Suc k..<N + 1] T Tlen (64 * k) okm =
    Some (0, take L (concat (map (hkdf_block prk info) [1..<N + 1])))"
  using assms(3-)
proof (induction "N - k" arbitrary: k T Tlen okm)
  case 0
  then have "k = N" by simp
  with 0 show ?case by simp
next
  case (Suc d)
  let ?B = "hkdf_block prk info"
  from Suc.hyps(2) have lt: "k < N" and d: "d = N - Suc k" by simp_all
  obtain r c0 where rst: "hmacReset prk stack_hmac = Some (r, c0)"
    using hmacReset_inv [OF assms(1)] by blast
  have cons: "[Suc k..<N + 1] = Suc k # [Suc (Suc k)..<N + 1]" using lt by (simp add: upt_conv_Cons)
  have lenB: "length (?B (Suc k)) = 64" by simp
  have wk: "64 * k < L" using lt Suc.prems(3) by simp
  have split: "concat (map ?B [1..<Suc (Suc k)]) = concat (map ?B [1..<Suc k]) @ ?B (Suc k)" by simp
  have lenc: "length (concat (map ?B [1..<Suc k])) = 64 * k"
  proof (induction k)
    case (Suc k)
    then show ?case by simp
  qed simp
  have pre: "take (64 * k) okm = concat (map ?B [1..<Suc k])" using Suc.prems(6) lenc wk by simp
  define n where "n = (if Suc k \<noteq> N then 64 else L - 64 * k)"
  have n: "n \<le> 64" "64 * k + n \<le> L" "Suc k = N \<Longrightarrow> 64 * k + n = L"
    using lt Suc.prems(3,4) by (auto simp: n_def)
  have src: "rd_block (?B (Suc k)) 0 (if Suc k \<noteq> N then int SHA512HashSize else int L - int (64 * k)) =
      Some (take n (?B (Suc k)))"
  proof -
    have "(if Suc k \<noteq> N then int SHA512HashSize else int L - int (64 * k)) = int n"
      using wk by (simp add: n_def SHA512HashSize_def of_nat_diff)
    then show ?thesis using lenB n(1) by (simp add: rd_block_def del: hkdf_block.simps)
  qed
  define okm' where "okm' = take (64 * k) okm @ take n (?B (Suc k)) @ drop (64 * k + n) okm"
  have wr: "wr_block okm (int (64 * k)) (take n (?B (Suc k))) = Some okm'"
    unfolding wr_block_def nat_int okm'_def using lenB n Suc.prems(5)
    by (simp del: hkdf_block.simps of_nat_mult)
  have step: "hkdfExpand_loop prk info L N [Suc k..<N + 1] T Tlen (64 * k) okm =
      hkdfExpand_loop prk info L N [Suc (Suc k)..<N + 1] (?B (Suc k)) 64 (64 * Suc k) okm'"
    unfolding cons hkdfExpand_loop.simps rst
    using hkdf_block_step [OF assms(1,2) Suc.prems(1) rst] src wr
    by (simp add: SHA512HashSize_def add.commute del: hkdf_block.simps)
  have lenokm: "length okm' = L" using Suc.prems(5) n lenB by (simp add: okm'_def)
  have pre': "take (64 * Suc k) okm' = take L (concat (map ?B [1..<Suc (Suc k)]))"
  proof (cases "Suc k = N")
    case True
    then have "okm' = concat (map ?B [1..<Suc k]) @ take (L - 64 * k) (?B (Suc k))"
      using n(3) Suc.prems(5) pre by (simp add: okm'_def n_def)
    then show ?thesis unfolding split using lenokm lenc True Suc.prems(4) by simp
  next
    case False
    then have nn: "n = 64" by (simp add: n_def)
    have "take (64 * Suc k) okm' = concat (map ?B [1..<Suc k]) @ ?B (Suc k)"
      using lenB lenc unfolding okm'_def pre nn by simp
    moreover have "64 * Suc k \<le> L" using n(2) nn by simp
    ultimately show ?thesis unfolding split using lenc lenB by simp
  qed
  show ?case unfolding step
    by (rule Suc.hyps(1) [OF d]) (use lt lenB lenokm pre' Suc.prems in simp_all)
qed

lemma ceil_64:
  fixes n :: nat
  shows "(if n mod 64 \<noteq> 0 then n div 64 + 1 else n div 64) = (n + 63) div 64"
    "64 * ((n + 63) div 64) < n + 64" "n \<le> 64 * ((n + 63) div 64)" "n \<le> 255 * 64 \<Longrightarrow> (n + 63) div 64 \<le> 255"
proof -
  define q r where "q = n div 64" and "r = n mod 64"
  have n: "n = 64 * q + r" "r < 64" by (simp_all add: q_def r_def)
  have d: "(n + 63) div 64 = (if r = 0 then q else q + 1)"
  proof (cases "r = 0")
    case False
    then have "n + 63 = 64 * (q + 1) + (r - 1)" "r - 1 < 64" using n by simp_all
    then have "(n + 63) div 64 = q + 1" by simp
    with False show ?thesis by simp
  qed (simp add: n)
  show "(if n mod 64 \<noteq> 0 then n div 64 + 1 else n div 64) = (n + 63) div 64"
    unfolding d by (simp add: q_def r_def)
  show "64 * ((n + 63) div 64) < n + 64" "n \<le> 64 * ((n + 63) div 64)" "n \<le> 255 * 64 \<Longrightarrow> (n + 63) div 64 \<le> 255"
    unfolding d using n by auto
qed

lemma hkdf_computes:
  assumes "c_bytes p n ikm" "8 * length ikm + 1024 < 2 ^ 128" "8 * length salt < 2 ^ 128" "8 * length info + 2048 < 2 ^ 128"
    and "length okm = len" "0 < len" "len \<le> 255 * 64"
  shows "hkdf (Some salt) p n info okm len = Some (shaSuccess, hkdf_spec salt ikm info len)"
proof -
  let ?prk = "hmac_spec salt ikm"
  let ?N = "(len + 63) div 64"
  have ext: "hkdfExtract (Some salt) p n (replicate SHA512HashSize 0) = Some (0, ?prk)"
    using hmac_correct [OF assms(1) assms(3) assms(2)] by (simp add: hkdfExtract_def)
  have N: "(if len mod SHA512HashSize \<noteq> 0 then len div SHA512HashSize + 1 else len div SHA512HashSize) = ?N"
    unfolding SHA512HashSize_def by (rule ceil_64)
  have bounds: "?N \<le> 255" "64 * ?N < len + 64" "len \<le> 64 * ?N" using assms(7) by (simp_all only: ceil_64)
  have "hkdfExpand_loop ?prk info len ?N [Suc 0..<?N + 1] (replicate SHA512HashSize 0) 0 (64 * 0) okm =
      Some (0, take len (concat (map (hkdf_block ?prk info) [1..<?N + 1])))"
    by (rule expand_loop_correct) (use assms(4,5) bounds in simp_all)
  then have "hkdfExpand ?prk info okm len = Some (0, hkdf_spec salt ikm info len)"
    unfolding hkdfExpand_def Let_def N using assms(6) bounds(1) by (simp add: hkdf_spec_def SHA512HashSize_def)
  with ext show ?thesis by (simp add: hkdf_def)
qed

text \<open>C25: HKDF-SHA-512 gives the key of RFC 5869 for every length up to 255 blocks; key material that
  is NULL with the length 0 counts as empty.\<close>

theorem hkdf_correct:
  assumes "c_bytes p n ikm" "8 * length ikm + 1024 < 2 ^ 128" "8 * length salt < 2 ^ 128" "8 * length info + 2048 < 2 ^ 128"
    and "length okm = len" "0 < len" "len \<le> 255 * 64"
  shows "hkdf (Some salt) p n info okm len = Some (shaSuccess, hkdf_spec salt ikm info len)"
  using hkdf_computes assms .

lemma hkdf_correct_witness:
  "hkdf (Some [1, 2]) None 0 [3] (replicate 70 0) 70 = Some (0, hkdf_spec [1, 2] [] [3] 70)"
  using hkdf_correct [of None 0 "[]" "[1, 2]" "[3]" "replicate 70 0" 70] by (simp add: c_bytes_def)

end
