(* ===== verification/Mu_Srp.thy ===== *)
theory Mu_Srp
  imports Hap_Priv Hkdf
begin

text \<open>
  The accessory's side of the SRP-6a handshake (\<open>mu_srp/mu_srp.c\<close>). The big numbers of mbedTLS
  are not part of the repository: \<open>mpi_api\<close> has the functions that \<open>mu_bignum.h\<close> calls, on natural
  numbers, and \<open>mpi_lawful\<close> their documented behaviour. Every allocation may fail; a pointer of
  the handle is \<open>None\<close> for NULL, and what it points to is its value. The codes that the mbedTLS
  functions return are ignored by the code.
\<close>

section \<open>The big numbers\<close>

record mpi_api =
  mpi_read_binary :: "byte list \<Rightarrow> nat"
  mpi_write_binary :: "nat \<Rightarrow> byte list"
  mpi_fill_random :: "nat \<Rightarrow> nat \<Rightarrow> nat"
  mpi_exp_mod :: "nat \<Rightarrow> nat \<Rightarrow> nat \<Rightarrow> nat"
  mpi_mul_mpi_mod :: "nat \<Rightarrow> nat \<Rightarrow> nat \<Rightarrow> nat"
  mpi_add_mpi :: "nat \<Rightarrow> nat \<Rightarrow> nat"
  mpi_mod_mpi :: "nat \<Rightarrow> nat \<Rightarrow> nat"

text \<open>
  \<open>mbedtls_mpi_read_binary\<close> is big endian, \<open>mbedtls_mpi_size\<close> the length without leading zeros.
\<close>

definition be_nat :: "byte list \<Rightarrow> nat" where
  "be_nat bs = foldl (\<lambda>n b. 256 * n + unat b) 0 bs"

definition mpi_lawful :: "mpi_api \<Rightarrow> bool" where
  "mpi_lawful api \<longleftrightarrow> mpi_read_binary api = be_nat \<and>
     (\<forall>n. be_nat (mpi_write_binary api n) = n \<and> (mpi_write_binary api n = [] \<longleftrightarrow> n = 0) \<and>
        (\<forall>k. n < 256 ^ k \<longrightarrow> length (mpi_write_binary api n) \<le> k)) \<and>
     (\<forall>k i. mpi_fill_random api k i < 256 ^ k) \<and>
     (\<forall>a b c. 0 < c \<longrightarrow> mpi_exp_mod api a b c = a ^ b mod c \<and> mpi_mul_mpi_mod api a b c = a * b mod c \<and>
        mpi_mod_mpi api a c = a mod c) \<and>
     (\<forall>a b. mpi_add_mpi api a b = a + b)"

definition bn_alloc :: "nat \<Rightarrow> ('n, 'h, 's) hap_sys_scheme \<Rightarrow> nat option \<times> ('n, 'h, 's) hap_sys_scheme" where
  "bn_alloc v st = (case new_addr st of (p, st) \<Rightarrow> (case p of None \<Rightarrow> None | Some _ \<Rightarrow> Some v, st))"

definition mu_bn_new :: "('n, 'h, 's) hap_sys_scheme \<Rightarrow> nat option \<times> ('n, 'h, 's) hap_sys_scheme" where
  "mu_bn_new st = bn_alloc 0 st"

definition mu_bn_new_from_bin ::
    "mpi_api \<Rightarrow> byte list \<Rightarrow> ('n, 'h, 's) hap_sys_scheme \<Rightarrow> nat option \<times> ('n, 'h, 's) hap_sys_scheme" where
  "mu_bn_new_from_bin api str st = bn_alloc (mpi_read_binary api str) st"

text \<open>The bytes, in a block of their own if there is one, and their number.\<close>

definition mu_bn_to_bin ::
    "mpi_api \<Rightarrow> nat \<Rightarrow> ('n, 'h, 's) hap_sys_scheme \<Rightarrow> byte list option \<times> nat \<times> ('n, 'h, 's) hap_sys_scheme" where
  "mu_bn_to_bin api bn st = (case new_addr st of (p, st) \<Rightarrow>
     (case p of None \<Rightarrow> None | Some _ \<Rightarrow> Some (mpi_write_binary api bn), length (mpi_write_binary api bn), st))"

definition mu_bn_get_rand :: "mpi_api \<Rightarrow> nat \<Rightarrow> ('n, 'h, 's) hap_sys_scheme \<Rightarrow> nat \<times> ('n, 'h, 's) hap_sys_scheme" where
  "mu_bn_get_rand api bits st =
     (mpi_fill_random api (bits div 8) (rng_count st), st\<lparr>rng_count := Suc (rng_count st)\<rparr>)"

definition mu_bn_a_exp_b_mod_c :: "mpi_api \<Rightarrow> nat \<Rightarrow> nat \<Rightarrow> nat \<Rightarrow> nat" where
  "mu_bn_a_exp_b_mod_c api a b c = mpi_exp_mod api a b c"

definition mu_bn_a_mul_b_mod_c :: "mpi_api \<Rightarrow> nat \<Rightarrow> nat \<Rightarrow> nat \<Rightarrow> nat" where
  "mu_bn_a_mul_b_mod_c api a b c = mpi_mul_mpi_mod api a b c"

definition mu_bn_a_add_b_mod_c :: "mpi_api \<Rightarrow> nat \<Rightarrow> nat \<Rightarrow> nat \<Rightarrow> nat" where
  "mu_bn_a_add_b_mod_c api a b c = mpi_mod_mpi api (mpi_add_mpi api a b) c"

section \<open>The handle\<close>

definition N_3072 :: "byte list" where
  "N_3072 = [0xff, 0xff, 0xff, 0xff, 0xff, 0xff, 0xff, 0xff, 0xc9, 0x0f, 0xda, 0xa2, 0x21, 0x68, 0xc2, 0x34,
     0xc4, 0xc6, 0x62, 0x8b, 0x80, 0xdc, 0x1c, 0xd1, 0x29, 0x02, 0x4e, 0x08, 0x8a, 0x67, 0xcc, 0x74,
     0x02, 0x0b, 0xbe, 0xa6, 0x3b, 0x13, 0x9b, 0x22, 0x51, 0x4a, 0x08, 0x79, 0x8e, 0x34, 0x04, 0xdd,
     0xef, 0x95, 0x19, 0xb3, 0xcd, 0x3a, 0x43, 0x1b, 0x30, 0x2b, 0x0a, 0x6d, 0xf2, 0x5f, 0x14, 0x37,
     0x4f, 0xe1, 0x35, 0x6d, 0x6d, 0x51, 0xc2, 0x45, 0xe4, 0x85, 0xb5, 0x76, 0x62, 0x5e, 0x7e, 0xc6,
     0xf4, 0x4c, 0x42, 0xe9, 0xa6, 0x37, 0xed, 0x6b, 0x0b, 0xff, 0x5c, 0xb6, 0xf4, 0x06, 0xb7, 0xed,
     0xee, 0x38, 0x6b, 0xfb, 0x5a, 0x89, 0x9f, 0xa5, 0xae, 0x9f, 0x24, 0x11, 0x7c, 0x4b, 0x1f, 0xe6,
     0x49, 0x28, 0x66, 0x51, 0xec, 0xe4, 0x5b, 0x3d, 0xc2, 0x00, 0x7c, 0xb8, 0xa1, 0x63, 0xbf, 0x05,
     0x98, 0xda, 0x48, 0x36, 0x1c, 0x55, 0xd3, 0x9a, 0x69, 0x16, 0x3f, 0xa8, 0xfd, 0x24, 0xcf, 0x5f,
     0x83, 0x65, 0x5d, 0x23, 0xdc, 0xa3, 0xad, 0x96, 0x1c, 0x62, 0xf3, 0x56, 0x20, 0x85, 0x52, 0xbb,
     0x9e, 0xd5, 0x29, 0x07, 0x70, 0x96, 0x96, 0x6d, 0x67, 0x0c, 0x35, 0x4e, 0x4a, 0xbc, 0x98, 0x04,
     0xf1, 0x74, 0x6c, 0x08, 0xca, 0x18, 0x21, 0x7c, 0x32, 0x90, 0x5e, 0x46, 0x2e, 0x36, 0xce, 0x3b,
     0xe3, 0x9e, 0x77, 0x2c, 0x18, 0x0e, 0x86, 0x03, 0x9b, 0x27, 0x83, 0xa2, 0xec, 0x07, 0xa2, 0x8f,
     0xb5, 0xc5, 0x5d, 0xf0, 0x6f, 0x4c, 0x52, 0xc9, 0xde, 0x2b, 0xcb, 0xf6, 0x95, 0x58, 0x17, 0x18,
     0x39, 0x95, 0x49, 0x7c, 0xea, 0x95, 0x6a, 0xe5, 0x15, 0xd2, 0x26, 0x18, 0x98, 0xfa, 0x05, 0x10,
     0x15, 0x72, 0x8e, 0x5a, 0x8a, 0xaa, 0xc4, 0x2d, 0xad, 0x33, 0x17, 0x0d, 0x04, 0x50, 0x7a, 0x33,
     0xa8, 0x55, 0x21, 0xab, 0xdf, 0x1c, 0xba, 0x64, 0xec, 0xfb, 0x85, 0x04, 0x58, 0xdb, 0xef, 0x0a,
     0x8a, 0xea, 0x71, 0x57, 0x5d, 0x06, 0x0c, 0x7d, 0xb3, 0x97, 0x0f, 0x85, 0xa6, 0xe1, 0xe4, 0xc7,
     0xab, 0xf5, 0xae, 0x8c, 0xdb, 0x09, 0x33, 0xd7, 0x1e, 0x8c, 0x94, 0xe0, 0x4a, 0x25, 0x61, 0x9d,
     0xce, 0xe3, 0xd2, 0x26, 0x1a, 0xd2, 0xee, 0x6b, 0xf1, 0x2f, 0xfa, 0x06, 0xd9, 0x8a, 0x08, 0x64,
     0xd8, 0x76, 0x02, 0x73, 0x3e, 0xc8, 0x6a, 0x64, 0x52, 0x1f, 0x2b, 0x18, 0x17, 0x7b, 0x20, 0x0c,
     0xbb, 0xe1, 0x17, 0x57, 0x7a, 0x61, 0x5d, 0x6c, 0x77, 0x09, 0x88, 0xc0, 0xba, 0xd9, 0x46, 0xe2,
     0x08, 0xe2, 0x4f, 0xa0, 0x74, 0xe5, 0xab, 0x31, 0x43, 0xdb, 0x5b, 0xfc, 0xe0, 0xfd, 0x10, 0x8e,
     0x4b, 0x82, 0xd1, 0x20, 0xa9, 0x3a, 0xd2, 0xca, 0xff, 0xff, 0xff, 0xff, 0xff, 0xff, 0xff, 0xff]"

definition g_3072 :: "byte list" where "g_3072 = [5]"

definition MU_NG_3072 :: nat where "MU_NG_3072 = 0"

record mu_srp_handle =
  sh_allocated :: bool
  sh_type :: nat
  sh_ctx :: "nat option"
  sh_n :: "nat option"
  sh_bytes_n :: "byte list option"
  sh_len_n :: nat
  sh_g :: "nat option"
  sh_bytes_g :: "byte list option"
  sh_len_g :: nat
  sh_s :: "nat option"
  sh_bytes_s :: "byte list option"
  sh_len_s :: nat
  sh_v :: "nat option"
  sh_B :: "nat option"
  sh_bytes_B :: "byte list option"
  sh_len_B :: nat
  sh_b :: "nat option"
  sh_A :: "nat option"
  sh_bytes_A :: "byte list option"
  sh_len_A :: nat
  sh_session_key :: "byte list option"

definition zero_srp :: mu_srp_handle where
  "zero_srp = \<lparr>sh_allocated = False, sh_type = 0, sh_ctx = None, sh_n = None, sh_bytes_n = None, sh_len_n = 0,
     sh_g = None, sh_bytes_g = None, sh_len_g = 0, sh_s = None, sh_bytes_s = None, sh_len_s = 0, sh_v = None,
     sh_B = None, sh_bytes_B = None, sh_len_B = 0, sh_b = None, sh_A = None, sh_bytes_A = None, sh_len_A = 0,
     sh_session_key = None\<rparr>"

definition mu_srp_free :: "mu_srp_handle \<Rightarrow> mu_srp_handle" where
  "mu_srp_free srp = (if \<not> sh_allocated srp then srp else zero_srp)"

definition mu_srp_init ::
    "mpi_api \<Rightarrow> nat \<Rightarrow> mu_srp_handle \<Rightarrow> ('n, 'h, 's) hap_sys_scheme \<Rightarrow>
     int \<times> mu_srp_handle \<times> ('n, 'h, 's) hap_sys_scheme" where
  "mu_srp_init api ng srp st =
     (let srp = zero_srp\<lparr>sh_allocated := True\<rparr>;
          (ctx, st) = mu_bn_new st;
          srp = srp\<lparr>sh_ctx := ctx\<rparr> in
      if ctx = None \<or> ng \<noteq> MU_NG_3072 then (- 1, mu_srp_free srp, st)
      else let (n, st) = mu_bn_new_from_bin api N_3072 st;
               srp = srp\<lparr>sh_n := n, sh_bytes_n := Some N_3072, sh_len_n := length N_3072\<rparr> in
      if n = None then (- 1, mu_srp_free srp, st)
      else let (g, st) = mu_bn_new_from_bin api g_3072 st;
               srp = srp\<lparr>sh_g := g, sh_bytes_g := Some g_3072, sh_len_g := length g_3072\<rparr> in
      if g = None then (- 1, mu_srp_free srp, st)
      else (0, srp\<lparr>sh_type := ng\<rparr>, st))"

section \<open>Hashes\<close>

text \<open>
  \<open>SHA512Reset\<close>, one \<open>SHA512Input\<close> per part (a pointer and a length), \<open>SHA512Result\<close>. The codes are
  ignored; the digest of a hash that failed would be the uninitialised buffer, which is \<open>None\<close>.
\<close>

primrec sha512_feed :: "(byte list option \<times> nat) list \<Rightarrow> SHA512Context \<Rightarrow> SHA512Context option" where
  "sha512_feed [] c = Some c"
| "sha512_feed (p # ps) c = do { (_, c) \<leftarrow> SHA512Input (fst p) (snd p) c; sha512_feed ps c }"

definition sha512_parts :: "(byte list option \<times> nat) list \<Rightarrow> byte list option" where
  "sha512_parts ps = do {
     let (_, c) = SHA512Reset stack_context;
     c \<leftarrow> sha512_feed ps c;
     (_, d, _) \<leftarrow> SHA512Result c;
     d }"

definition SHA512_hash :: "byte list option \<Rightarrow> nat \<Rightarrow> byte list option" where
  "SHA512_hash bytes byte_count = sha512_parts [(bytes, byte_count)]"

definition str_bytes :: "string \<Rightarrow> byte list" where
  "str_bytes s = map of_char s"

definition calculate_x ::
    "mpi_api \<Rightarrow> byte list option \<Rightarrow> nat \<Rightarrow> string \<Rightarrow> byte list \<Rightarrow>
     ('n, 'h, 's) hap_sys_scheme \<Rightarrow> (nat option \<times> ('n, 'h, 's) hap_sys_scheme) option" where
  "calculate_x api bytes_salt salt_len username pass st = do {
     d1 \<leftarrow> sha512_parts [(Some (str_bytes username), length username), (Some (str_bytes '':''), 1), (Some pass, length pass)];
     d2 \<leftarrow> sha512_parts [(bytes_salt, salt_len), (Some d1, SHA512HashSize)];
     Some (mu_bn_new_from_bin api d2 st) }"

text \<open>
  Both values are padded from one block of zeros, as long as the longer padding; when there is
  no memory for it the code leaves the padding out. A negative length is a huge one in C.
\<close>

definition pad_part :: "byte list option \<Rightarrow> int \<Rightarrow> (byte list option \<times> nat) list option" where
  "pad_part s n = (if s = None \<or> n = 0 then Some []
     else if n < 0 then None else Some [(s, nat n)])"

definition calculate_padded_hash ::
    "mpi_api \<Rightarrow> mu_srp_handle \<Rightarrow> byte list option \<Rightarrow> nat \<Rightarrow> byte list option \<Rightarrow> nat \<Rightarrow>
     ('n, 'h, 's) hap_sys_scheme \<Rightarrow> (nat option \<times> ('n, 'h, 's) hap_sys_scheme) option" where
  "calculate_padded_hash api srp a len_a b len_b st = do {
     let pad_len = (if len_a > len_b then int (sh_len_n srp) - int len_b else int (sh_len_n srp) - int len_a);
     let (s, st) = (if pad_len \<noteq> 0
       then (case new_addr st of (p, st) \<Rightarrow>
         (if p = None \<or> pad_len < 0 then None else Some (replicate (nat pad_len) 0), st))
       else (None, st));
     pad_a \<leftarrow> pad_part s (int (sh_len_n srp) - int len_a);
     pad_b \<leftarrow> pad_part s (int (sh_len_n srp) - int len_b);
     digest \<leftarrow> sha512_parts (pad_a @ [(a, len_a)] @ pad_b @ [(b, len_b)]);
     Some (mu_bn_new_from_bin api digest st) }"

definition calculate_k ::
    "mpi_api \<Rightarrow> mu_srp_handle \<Rightarrow> ('n, 'h, 's) hap_sys_scheme \<Rightarrow> (nat option \<times> ('n, 'h, 's) hap_sys_scheme) option" where
  "calculate_k api srp st =
     calculate_padded_hash api srp (sh_bytes_n srp) (sh_len_n srp) (sh_bytes_g srp) (sh_len_g srp) st"

definition calculate_u ::
    "mpi_api \<Rightarrow> mu_srp_handle \<Rightarrow> byte list option \<Rightarrow> nat \<Rightarrow> ('n, 'h, 's) hap_sys_scheme \<Rightarrow>
     (nat option \<times> ('n, 'h, 's) hap_sys_scheme) option" where
  "calculate_u api srp A len_A st =
     calculate_padded_hash api srp A len_A (sh_bytes_B srp) (sh_len_B srp) st"

section \<open>The handshake\<close>

text \<open>
  The result is the code, \<open>*bytes_B\<close> and \<open>*len_B\<close> when they are written, the handle and the state.
\<close>

definition mu_srp_srv_pubkey_core ::
    "mpi_api \<Rightarrow> mu_srp_handle \<Rightarrow> ('n, 'h, 's) hap_sys_scheme \<Rightarrow>
     (int \<times> (byte list option \<times> nat) option \<times> mu_srp_handle \<times> ('n, 'h, 's) hap_sys_scheme) option" where
  "mu_srp_srv_pubkey_core api srp st = do {
     (k, st) \<leftarrow> calculate_k api srp st;
     case k of None \<Rightarrow> Some (- 1, None, srp\<lparr>sh_B := None, sh_b := None\<rparr>, st)
     | Some k \<Rightarrow>
       let (b, st) = mu_bn_new st; srp = srp\<lparr>sh_b := b\<rparr> in
       if b = None then Some (- 1, None, srp\<lparr>sh_B := None, sh_b := None\<rparr>, st)
       else
         let (b, st) = mu_bn_get_rand api 256 st; srp = srp\<lparr>sh_b := Some b\<rparr>;
             (kv, st) = mu_bn_new st; (gb, st) = mu_bn_new st; (B, st) = mu_bn_new st; srp = srp\<lparr>sh_B := B\<rparr> in
         if kv = None \<or> gb = None \<or> B = None then Some (- 1, None, srp\<lparr>sh_B := None, sh_b := None\<rparr>, st)
         else do {
           v \<leftarrow> sh_v srp; n \<leftarrow> sh_n srp; g \<leftarrow> sh_g srp;
           let kv = mu_bn_a_mul_b_mod_c api k v n;
           let gb = mu_bn_a_exp_b_mod_c api g b n;
           let B = mu_bn_a_add_b_mod_c api kv gb n;
           let (bytes, len, st) = mu_bn_to_bin api B st;
           Some (0, Some (bytes, len), srp\<lparr>sh_B := Some B, sh_bytes_B := bytes, sh_len_B := len\<rparr>, st) } }"

definition mu_srp_srv_pubkey ::
    "mpi_api \<Rightarrow> mu_srp_handle \<Rightarrow> string \<Rightarrow> byte list \<Rightarrow> nat \<Rightarrow> byte list option \<Rightarrow> ('n, 'h, 's) hap_sys_scheme \<Rightarrow>
     (int \<times> (byte list option \<times> nat) option \<times> byte list option \<times> mu_srp_handle \<times> ('n, 'h, 's) hap_sys_scheme) option" where
  "mu_srp_srv_pubkey api srp username pass salt_len bytes_salt0 st = do {
     let (s, st) = mu_bn_new st; let srp = srp\<lparr>sh_s := s\<rparr>;
     let fail = (\<lambda>salt out srp st. Some (- 1, out, None,
       (if salt = None then srp else srp\<lparr>sh_bytes_s := None, sh_len_s := 0\<rparr>)\<lparr>sh_s := None, sh_v := None\<rparr>, st));
     if s = None then fail bytes_salt0 None srp st
     else do {
       let (s, st) = mu_bn_get_rand api (8 * salt_len) st; let srp = srp\<lparr>sh_s := Some s\<rparr>;
       let (bytes_salt, str_salt_len, st) = mu_bn_to_bin api s st;
       if bytes_salt = None then fail None None srp st
       else do {
         let srp = srp\<lparr>sh_bytes_s := bytes_salt, sh_len_s := salt_len\<rparr>;
         (x, st) \<leftarrow> calculate_x api bytes_salt str_salt_len username pass st;
         case x of None \<Rightarrow> fail bytes_salt None srp st
         | Some x \<Rightarrow>
           let (v, st) = mu_bn_new st; srp = srp\<lparr>sh_v := v\<rparr> in
           if v = None then fail bytes_salt None srp st
           else do {
             g \<leftarrow> sh_g srp; n \<leftarrow> sh_n srp;
             let srp = srp\<lparr>sh_v := Some (mu_bn_a_exp_b_mod_c api g x n)\<rparr>;
             (r, out, srp, st) \<leftarrow> mu_srp_srv_pubkey_core api srp st;
             if r < 0 then fail bytes_salt out srp st
             else Some (0, out, bytes_salt, srp, st) } } } }"

definition mu_srp_srv_pubkey_from_salt_verifier ::
    "mpi_api \<Rightarrow> mu_srp_handle \<Rightarrow> ('n, 'h, 's) hap_sys_scheme \<Rightarrow>
     (int \<times> (byte list option \<times> nat) option \<times> mu_srp_handle \<times> ('n, 'h, 's) hap_sys_scheme) option" where
  "mu_srp_srv_pubkey_from_salt_verifier api srp st = mu_srp_srv_pubkey_core api srp st"

definition mu_srp_set_salt_verifier ::
    "mpi_api \<Rightarrow> mu_srp_handle \<Rightarrow> byte list \<Rightarrow> byte list \<Rightarrow> ('n, 'h, 's) hap_sys_scheme \<Rightarrow>
     int \<times> mu_srp_handle \<times> ('n, 'h, 's) hap_sys_scheme" where
  "mu_srp_set_salt_verifier api srp salt verifier st =
     (let (p, st) = new_addr st in
      if p = None then (- 1, srp\<lparr>sh_bytes_s := None, sh_s := None, sh_v := None\<rparr>, st)
      else let srp = srp\<lparr>sh_bytes_s := Some salt, sh_len_s := length salt\<rparr>;
               (s, st) = mu_bn_new_from_bin api salt st; srp = srp\<lparr>sh_s := s\<rparr> in
      if s = None then (- 1, srp\<lparr>sh_bytes_s := None, sh_len_s := 0, sh_v := None\<rparr>, st)
      else let (v, st) = mu_bn_new_from_bin api verifier st; srp = srp\<lparr>sh_v := v\<rparr> in
      if v = None then (- 1, srp\<lparr>sh_bytes_s := None, sh_len_s := 0, sh_s := None\<rparr>, st)
      else (0, srp, st))"

text \<open>The third part of the result is \<open>*bytes_key\<close> and \<open>*len_key\<close> when they are written.\<close>

definition mu_srp_get_session_key ::
    "mpi_api \<Rightarrow> mu_srp_handle \<Rightarrow> byte list \<Rightarrow> nat \<Rightarrow> ('n, 'h, 's) hap_sys_scheme \<Rightarrow>
     (int \<times> (byte list \<times> nat) option \<times> mu_srp_handle \<times> ('n, 'h, 's) hap_sys_scheme) option" where
  "mu_srp_get_session_key api srp bytes_A len_A st = do {
     let fail = (\<lambda>srp st. Some (- 1, None, srp\<lparr>sh_session_key := None, sh_A := None, sh_bytes_A := None\<rparr>, st));
     let (p, st) = new_addr st;
     if p = None then fail srp st
     else do {
       A_copy \<leftarrow> rd_block bytes_A 0 (int len_A);
       let srp = srp\<lparr>sh_bytes_A := Some A_copy, sh_len_A := len_A\<rparr>;
       let (A, st) = mu_bn_new_from_bin api A_copy st; let srp = srp\<lparr>sh_A := A\<rparr>;
       if A = None then fail srp st
       else do {
         (u, st) \<leftarrow> calculate_u api srp (Some bytes_A) len_A st;
         let (vu, st1) = mu_bn_new st; let (avu, st2) = mu_bn_new st1; let (S, st3) = mu_bn_new st2;
         case u of None \<Rightarrow> fail srp st
         | Some u \<Rightarrow>
           if vu = None \<or> avu = None \<or> S = None then fail srp st3
           else do {
             v \<leftarrow> sh_v srp; n \<leftarrow> sh_n srp; A \<leftarrow> A; b \<leftarrow> sh_b srp;
             let vu = mu_bn_a_exp_b_mod_c api v u n;
             let avu = mu_bn_a_mul_b_mod_c api A vu n;
             let S = mu_bn_a_exp_b_mod_c api avu b n;
             let (bytes_S, len_S, st) = mu_bn_to_bin api S st3;
             let (key, st) = new_addr st;
             if key = None \<or> bytes_S = None then fail srp st
             else do {
               digest \<leftarrow> SHA512_hash bytes_S len_S;
               Some (0, Some (digest, SHA512HashSize), srp\<lparr>sh_session_key := Some digest\<rparr>, st) } } } } }"

text \<open>The result is the code and \<open>bytes_host_proof\<close> when it is written.\<close>

definition mu_srp_exchange_proofs ::
    "mu_srp_handle \<Rightarrow> string \<Rightarrow> byte list \<Rightarrow> (int \<times> byte list option) option" where
  "mu_srp_exchange_proofs srp username bytes_user_proof = do {
     hash_n \<leftarrow> SHA512_hash (sh_bytes_n srp) (sh_len_n srp);
     hash_g \<leftarrow> SHA512_hash (sh_bytes_g srp) (sh_len_g srp);
     let hash_n_xor_g = map2 (XOR) hash_n hash_g;
     hash_I \<leftarrow> SHA512_hash (Some (str_bytes username)) (length username);
     digest \<leftarrow> sha512_parts [(Some hash_n_xor_g, SHA512HashSize), (Some hash_I, SHA512HashSize),
       (sh_bytes_s srp, sh_len_s srp), (sh_bytes_A srp, sh_len_A srp), (sh_bytes_B srp, sh_len_B srp),
       (sh_session_key srp, SHA512HashSize)];
     proof_bytes \<leftarrow> rd_block bytes_user_proof 0 (int SHA512HashSize);
     if proof_bytes \<noteq> digest then Some (0, None)
     else do {
       amk \<leftarrow> sha512_parts [(sh_bytes_A srp, sh_len_A srp), (Some digest, SHA512HashSize), (sh_session_key srp, SHA512HashSize)];
       Some (1, Some amk) } }"

section \<open>The hash of several parts\<close>

definition part_ok :: "byte list option \<times> nat \<Rightarrow> bool" where
  "part_ok p \<longleftrightarrow> (case fst p of None \<Rightarrow> True | Some b \<Rightarrow> snd p \<le> length b)"

definition part_bytes :: "byte list option \<times> nat \<Rightarrow> byte list" where
  "part_bytes p = (case fst p of None \<Rightarrow> [] | Some b \<Rightarrow> take (snd p) b)"

lemma part_simps [simp]:
  "part_ok (None, n)" "part_ok (Some b, length b)" "part_bytes (None, n) = []" "part_bytes (Some b, length b) = b"
  by (simp_all add: part_ok_def part_bytes_def)

lemma sha512_feed_inv:
  assumes "sha_inv m c" "list_all part_ok ps" "8 * length (m @ concat (map part_bytes ps)) < 2 ^ 128"
  shows "\<exists>c'. sha512_feed ps c = Some c' \<and> sha_inv (m @ concat (map part_bytes ps)) c'"
  using assms
proof (induction ps arbitrary: m c)
  case (Cons p ps)
  have len: "8 * length (m @ part_bytes p) < 2 ^ 128" by (rule le_less_trans [OF _ Cons.prems(3)]) simp
  have "\<exists>r c1. SHA512Input (fst p) (snd p) c = Some (r, c1) \<and> sha_inv (m @ part_bytes p) c1"
  proof (cases "fst p")
    case None
    then have "part_bytes p = []" by (simp add: part_bytes_def)
    with None Cons.prems(1) show ?thesis by (cases "snd p = 0") (simp_all add: SHA512Input_def)
  next
    case (Some b)
    then have n: "snd p \<le> length b" "part_bytes p = take (snd p) b" using Cons.prems(2)
      by (simp_all add: part_ok_def part_bytes_def)
    have "SHA512Input (Some b) (snd p) c = SHA512Input (Some (take (snd p) b)) (length (take (snd p) b)) c"
      using n(1) by (simp add: SHA512Input_def rd_block_def)
    with SHA512Input_inv [OF Cons.prems(1) len [unfolded n(2)]] Some n show ?thesis by auto
  qed
  then obtain r c1 where c1: "SHA512Input (fst p) (snd p) c = Some (r, c1)" "sha_inv (m @ part_bytes p) c1" by blast
  obtain c' where "sha512_feed ps c1 = Some c'" "sha_inv ((m @ part_bytes p) @ concat (map part_bytes ps)) c'"
    using Cons.IH [OF c1(2)] Cons.prems(2,3) by auto
  with c1(1) show ?case by simp
qed simp

lemma sha512_parts_spec:
  assumes "list_all part_ok ps" "8 * length (concat (map part_bytes ps)) < 2 ^ 128"
  shows "sha512_parts ps = Some (sha512_spec (concat (map part_bytes ps)))"
proof -
  obtain c0 where c0: "SHA512Reset stack_context = (0, c0)" "sha_inv [] c0"
    using sha_inv_reset [OF stack_block] sha_reset_input [OF stack_block, of "[]"] by (metis snd_conv length_0_conv mult_0_right zero_less_numeral zero_less_power list.size(3))
  obtain c1 where c1: "sha512_feed ps c0 = Some c1" "sha_inv (concat (map part_bytes ps)) c1"
    using sha512_feed_inv [OF c0(2) assms(1)] assms(2) by auto
  obtain c2 where "SHA512Result c1 = Some (0, Some (sha512_spec (concat (map part_bytes ps))), c2)"
    using SHA512Result_inv [OF c1(2)] by blast
  with c0(1) c1(1) show ?thesis by (simp add: sha512_parts_def)
qed

lemma mpi_laws:
  assumes "mpi_lawful api"
  shows "mpi_read_binary api = be_nat" "be_nat (mpi_write_binary api n) = n"
    "mpi_write_binary api n = [] \<longleftrightarrow> n = 0" "n < 256 ^ k \<Longrightarrow> length (mpi_write_binary api n) \<le> k"
    "mpi_fill_random api k i < 256 ^ k" "mpi_add_mpi api a b = a + b"
    "0 < c \<Longrightarrow> mpi_exp_mod api a b c = a ^ b mod c" "0 < c \<Longrightarrow> mpi_mul_mpi_mod api a b c = a * b mod c"
    "0 < c \<Longrightarrow> mpi_mod_mpi api a c = a mod c"
  using assms by (simp_all add: mpi_lawful_def)

section \<open>The values of the handshake\<close>

lemma memory_ok_rng [simp]: "memory_ok (st\<lparr>rng_count := r\<rparr>) = memory_ok st"
  by (simp add: memory_ok_def)

lemma bn_alloc_ok [simp]:
  "memory_ok st \<Longrightarrow> bn_alloc v st = (Some v, st\<lparr>next_addr := Suc (next_addr st)\<rparr>)"
  by (simp add: bn_alloc_def)

definition srp_N :: nat where "srp_N = be_nat N_3072"

lemma length_N_3072 [simp]: "length N_3072 = 384"
  by (simp add: N_3072_def)

lemma be_nat_acc: "foldl (\<lambda>n b. 256 * n + unat b) k bs = k * 256 ^ length bs + be_nat bs" for bs :: "byte list"
  unfolding be_nat_def
proof (induction bs arbitrary: k)
  case (Cons b bs)
  show ?case using Cons.IH [of "256 * k + unat b"] Cons.IH [of "unat b"] by (simp add: algebra_simps)
qed simp

lemma be_nat_Cons: "be_nat (b # bs) = unat b * 256 ^ length bs + be_nat bs"
  using be_nat_acc [of "unat b" bs] by (simp add: be_nat_def)

lemma be_nat_less: "be_nat bs < 256 ^ length bs"
proof (induction bs)
  case (Cons b bs)
  have "unat b \<le> 255" using unat_byte_less [of b] by simp
  then have le: "unat b * 256 ^ length bs \<le> 255 * 256 ^ length bs" by (rule mult_right_mono) simp
  show ?case using add_le_less_mono [OF le Cons.IH] by (simp add: be_nat_Cons)
qed (simp add: be_nat_def)

lemma srp_N_pos: "0 < srp_N"
proof -
  have "N_3072 = hd N_3072 # tl N_3072" "hd N_3072 = 255" by (simp_all add: N_3072_def)
  then have "srp_N = unat (255 :: byte) * 256 ^ length (tl N_3072) + be_nat (tl N_3072)"
    unfolding srp_N_def by (metis be_nat_Cons)
  then show ?thesis by simp
qed

lemma srp_N_less: "srp_N < 256 ^ 384"
  using be_nat_less [of N_3072] by (simp add: srp_N_def)

definition srp_pad :: "byte list \<Rightarrow> byte list" where
  "srp_pad a = replicate (384 - length a) 0 @ a"

definition srp_padded_hash :: "byte list \<Rightarrow> byte list \<Rightarrow> nat" where
  "srp_padded_hash a b = be_nat (sha512_spec (srp_pad a @ srp_pad b))"

lemma calculate_padded_hash_ok:
  assumes "mpi_lawful api" "memory_ok st" "sh_len_n srp = 384" "length a \<le> 384" "length b \<le> 384"
  shows "\<exists>n. calculate_padded_hash api srp (Some a) (length a) (Some b) (length b) st =
    Some (Some (srp_padded_hash a b), st\<lparr>next_addr := n\<rparr>)"
proof -
  define g where "g = (if length a > length b then 384 - length b else 384 - length a)"
  have g: "(if length a > length b then int 384 - int (length b) else int 384 - int (length a)) = int g"
    using assms(4,5) by (simp add: g_def of_nat_diff)
  have ga: "int 384 - int (length a) = int (384 - length a)" "384 - length a \<le> g" using assms(4) by (auto simp: g_def)
  have gb: "int 384 - int (length b) = int (384 - length b)" "384 - length b \<le> g" using assms(5) by (auto simp: g_def)
  define s where "s = (if g = 0 then None else Some (replicate g (0 :: byte)))"
  define st1 where "st1 = st\<lparr>next_addr := if g = 0 then next_addr st else Suc (next_addr st)\<rparr>"
  have alloc: "(if int g \<noteq> 0 then (case new_addr st of (p, st) \<Rightarrow>
         (if p = None \<or> int g < 0 then None else Some (replicate (nat (int g)) 0), st)) else (None, st)) = (s, st1)"
    using assms(2) by (simp add: s_def st1_def)
  have pad: "\<exists>ps. pad_part s (int n) = Some ps \<and> list_all part_ok ps \<and> concat (map part_bytes ps) = replicate n 0"
    if "n \<le> g" for n
    using that by (auto simp: pad_part_def s_def part_ok_def part_bytes_def)
  obtain pa where pa: "pad_part s (int (384 - length a)) = Some pa" "list_all part_ok pa"
    "concat (map part_bytes pa) = replicate (384 - length a) 0" using pad [OF ga(2)] by blast
  obtain pb where pb: "pad_part s (int (384 - length b)) = Some pb" "list_all part_ok pb"
    "concat (map part_bytes pb) = replicate (384 - length b) 0" using pad [OF gb(2)] by blast
  have parts: "sha512_parts (pa @ [(Some a, length a)] @ pb @ [(Some b, length b)]) = Some (sha512_spec (srp_pad a @ srp_pad b))"
    using sha512_parts_spec [of "pa @ [(Some a, length a)] @ pb @ [(Some b, length b)]"] pa pb assms(4,5)
    by (simp add: srp_pad_def)
  have "calculate_padded_hash api srp (Some a) (length a) (Some b) (length b) st =
      Some (mu_bn_new_from_bin api (sha512_spec (srp_pad a @ srp_pad b)) st1)"
    unfolding calculate_padded_hash_def assms(3) Let_def unfolding g unfolding alloc ga(1) gb(1) prod.case pa(1) pb(1)
      Option.bind.bind_lunit parts ..
  then show ?thesis
    using assms(1,2) by (auto simp: mu_bn_new_from_bin_def srp_padded_hash_def mpi_laws st1_def)
qed


section \<open>The steps when memory does not run out\<close>

definition srp_ready :: "mu_srp_handle \<Rightarrow> bool" where
  "srp_ready srp \<longleftrightarrow> sh_n srp = Some srp_N \<and> sh_bytes_n srp = Some N_3072 \<and> sh_len_n srp = 384 \<and>
     sh_g srp = Some 5 \<and> sh_bytes_g srp = Some g_3072 \<and> sh_len_g srp = 1"

definition srp_k :: nat where "srp_k = srp_padded_hash N_3072 g_3072"

lemma be_nat_g [simp]: "be_nat g_3072 = 5"
  by (simp add: be_nat_def g_3072_def)

lemma length_g [simp]: "length g_3072 = 1"
  by (simp add: g_3072_def)

lemma mu_srp_init_ok:
  assumes "mpi_lawful api" "memory_ok st"
  obtains srp1 st1 where "mu_srp_init api MU_NG_3072 srp st = (0, srp1, st1)" "srp_ready srp1" "memory_ok st1"
  using assms that
  by (auto simp: mu_srp_init_def Let_def mu_bn_new_def mu_bn_new_from_bin_def mpi_laws srp_ready_def srp_N_def)

lemma set_salt_verifier_ok:
  assumes "mpi_lawful api" "memory_ok st"
  obtains st' where "mu_srp_set_salt_verifier api srp salt verifier st =
      (0, srp\<lparr>sh_bytes_s := Some salt, sh_len_s := length salt, sh_s := Some (be_nat salt),
              sh_v := Some (be_nat verifier)\<rparr>, st')" "memory_ok st'"
  using assms that by (auto simp: mu_srp_set_salt_verifier_def mu_bn_new_from_bin_def mpi_laws)

lemma srv_pubkey_ok:
  assumes "mpi_lawful api" "memory_ok st" "srp_ready srp" "sh_v srp = Some v"
  obtains b B st' where "mu_srp_srv_pubkey_core api srp st = Some (0, Some (Some B, length B),
      srp\<lparr>sh_b := Some b, sh_B := Some (be_nat B), sh_bytes_B := Some B, sh_len_B := length B\<rparr>, st')"
    "be_nat B = (srp_k * v + 5 ^ b) mod srp_N" "length B \<le> 384" "b = mpi_fill_random api 32 (rng_count st)" "memory_ok st'"
proof -
  have r: "sh_n srp = Some srp_N" "sh_bytes_n srp = Some N_3072" "sh_len_n srp = 384" "sh_g srp = Some 5"
    "sh_bytes_g srp = Some g_3072" "sh_len_g srp = 1" using assms(3) by (simp_all add: srp_ready_def)
  define b where "b = mpi_fill_random api 32 (rng_count st)"
  define Bn where "Bn = (srp_k * v + 5 ^ b) mod srp_N"
  have Bn: "mu_bn_a_add_b_mod_c api (mu_bn_a_mul_b_mod_c api srp_k v srp_N) (mu_bn_a_exp_b_mod_c api 5 b srp_N) srp_N = Bn"
    using srp_N_pos assms(1)
    by (simp add: mu_bn_a_add_b_mod_c_def mu_bn_a_mul_b_mod_c_def mu_bn_a_exp_b_mod_c_def mpi_laws Bn_def mod_add_eq)
  have "calculate_padded_hash api srp (Some N_3072) (length N_3072) (Some g_3072) (length g_3072) st =
      calculate_k api srp st"
    by (simp add: calculate_k_def r)
  then obtain m where k: "calculate_k api srp st = Some (Some srp_k, st\<lparr>next_addr := m\<rparr>)"
    using calculate_padded_hash_ok [OF assms(1,2) r(3), of N_3072 g_3072] by (auto simp: srp_k_def)
  show thesis
  proof (rule that)
    let ?B = "mpi_write_binary api Bn"
    show "mu_srp_srv_pubkey_core api srp st = Some (0, Some (Some ?B, length ?B),
        srp\<lparr>sh_b := Some b, sh_B := Some (be_nat ?B), sh_bytes_B := Some ?B, sh_len_B := length ?B\<rparr>,
        st\<lparr>next_addr := Suc (Suc (Suc (Suc (Suc m)))), rng_count := Suc (rng_count st)\<rparr>)"
      using assms(1,2,4) r(1,4)
      by (simp add: mu_srp_srv_pubkey_core_def k mu_bn_new_def mu_bn_get_rand_def mu_bn_to_bin_def Bn mpi_laws
          flip: b_def)
    show "be_nat ?B = (srp_k * v + 5 ^ b) mod srp_N" using assms(1) by (simp add: mpi_laws Bn_def)
    have "Bn < 256 ^ 384" using srp_N_less srp_N_pos by (metis Bn_def mod_less_divisor order_less_trans)
    then show "length ?B \<le> 384" by (rule mpi_laws [OF assms(1)])
  qed (use assms(2) in \<open>simp_all add: b_def\<close>)
qed

lemma get_session_key_ok:
  assumes "mpi_lawful api" "memory_ok st" "srp_ready srp" "sh_v srp = Some v" "sh_b srp = Some b"
    and "sh_bytes_B srp = Some B" "sh_len_B srp = length B" "length B \<le> 384" "length A \<le> 384"
    and "key = sha512_spec (mpi_write_binary api ((be_nat A * (v ^ srp_padded_hash A B mod srp_N) mod srp_N) ^ b mod srp_N))"
  obtains st' where "mu_srp_get_session_key api srp A (length A) st = Some (0, Some (key, 64),
      srp\<lparr>sh_bytes_A := Some A, sh_len_A := length A, sh_A := Some (be_nat A), sh_session_key := Some key\<rparr>, st')"
    "memory_ok st'"
proof -
  let ?srp = "srp\<lparr>sh_bytes_A := Some A, sh_len_A := length A, sh_A := Some (be_nat A)\<rparr>"
  have r: "sh_n srp = Some srp_N" "sh_len_n ?srp = 384" using assms(3) by (simp_all add: srp_ready_def)
  define S where "S = (be_nat A * (v ^ srp_padded_hash A B mod srp_N) mod srp_N) ^ b mod srp_N"
  have Sn: "mu_bn_a_exp_b_mod_c api (mu_bn_a_mul_b_mod_c api (be_nat A) (mu_bn_a_exp_b_mod_c api v (srp_padded_hash A B) srp_N) srp_N) b srp_N = S"
    using srp_N_pos assms(1)
    by (simp add: mu_bn_a_mul_b_mod_c_def mu_bn_a_exp_b_mod_c_def mpi_laws S_def)
  have A: "rd_block A 0 (int (length A)) = Some A" by (simp add: rd_block_def)
  have "S < 256 ^ 384" using srp_N_less srp_N_pos by (metis S_def mod_less_divisor order_less_trans)
  then have lenS: "length (mpi_write_binary api S) \<le> 384" by (rule mpi_laws [OF assms(1)])
  have key: "SHA512_hash (Some (mpi_write_binary api S)) (length (mpi_write_binary api S)) = Some key"
    unfolding SHA512_hash_def assms(10) S_def [symmetric]
    by (subst sha512_parts_spec) (use lenS in simp_all)
  obtain m where u: "calculate_u api ?srp (Some A) (length A) (st\<lparr>next_addr := Suc (Suc (next_addr st))\<rparr>) =
      Some (Some (srp_padded_hash A B), st\<lparr>next_addr := m\<rparr>)"
    using calculate_padded_hash_ok [OF assms(1) _ r(2) assms(9,8), of "st\<lparr>next_addr := Suc (Suc (next_addr st))\<rparr>"] assms(2,6,7)
    by (auto simp: calculate_u_def)
  show thesis
  proof (rule that)
    show "mu_srp_get_session_key api srp A (length A) st = Some (0, Some (key, 64),
        ?srp\<lparr>sh_session_key := Some key\<rparr>, st\<lparr>next_addr := Suc (Suc (Suc (Suc (Suc m))))\<rparr>)"
      using assms(1,2,4,5) r(1) key
      by (simp add: mu_srp_get_session_key_def Let_def A mu_bn_new_from_bin_def mu_bn_new_def u mpi_laws Sn
          mu_bn_to_bin_def SHA512HashSize_def)
  qed (use assms(2) in simp)
qed


section \<open>Agreement\<close>

text \<open>
  The client knows the code: it has \<open>x\<close> (the hash of salt and code), an own secret \<open>a\<close>, and
  computes its secret from the accessory's public key by the formula of RFC 5054.
\<close>

definition srp_client_secret :: "nat \<Rightarrow> nat \<Rightarrow> byte list \<Rightarrow> byte list \<Rightarrow> nat" where
  "srp_client_secret a x A B =
     nat ((int (be_nat B) - int (srp_k * 5 ^ x)) ^ (a + srp_padded_hash A B * x) mod int srp_N)"

lemma srp_secrets_agree:
  assumes "v = 5 ^ x mod N" "A = 5 ^ a mod N" "B = (k * v + 5 ^ b) mod N" "0 < (N :: nat)"
  shows "int ((A * (v ^ u mod N) mod N) ^ b mod N) = (int B - int (k * 5 ^ x)) ^ (a + u * x) mod int N"
proof -
  have "(A * (v ^ u mod N) mod N) ^ b mod N = (5 ^ a * (5 ^ x) ^ u) ^ b mod N"
    unfolding assms(1,2) by (simp add: power_mod mod_mult_eq)
  also have "(5 ^ a * (5 ^ x) ^ u) ^ b = ((5 :: nat) ^ b) ^ (a + u * x)"
    by (simp add: power_mult_distrib ac_simps flip: power_mult power_add)
  finally have l: "int ((A * (v ^ u mod N) mod N) ^ b mod N) = (5 ^ b) ^ (a + u * x) mod int N"
    by (simp add: zmod_int)
  have "B = (k * 5 ^ x + 5 ^ b) mod N"
    unfolding assms(3,1) by (metis mod_add_left_eq mod_mult_right_eq)
  then have "int B = (int (k * 5 ^ x) + 5 ^ b) mod int N" by (simp add: zmod_int)
  then have "(int B - int (k * 5 ^ x)) mod int N = 5 ^ b mod int N"
    by (simp add: mod_diff_left_eq)
  then have "(int B - int (k * 5 ^ x)) ^ (a + u * x) mod int N = (5 ^ b) ^ (a + u * x) mod int N"
    by (metis power_mod)
  with l show ?thesis by simp
qed



text \<open>The big numbers as they are documented, with a random source that always gives 1.\<close>

fun nat_be :: "nat \<Rightarrow> byte list" where
  "nat_be n = (if n = 0 then [] else nat_be (n div 256) @ [of_nat n])"

declare nat_be.simps [simp del]

lemma be_nat_snoc: "be_nat (bs @ [b]) = 256 * be_nat bs + unat b"
  by (simp add: be_nat_def)

lemma be_nat_nat_be: "be_nat (nat_be n) = n"
proof (induction n rule: nat_be.induct)
  case (1 n)
  show ?case
  proof (cases "n = 0")
    case False
    then show ?thesis using 1 by (subst nat_be.simps) (simp add: be_nat_snoc unat_of_nat)
  qed (simp add: nat_be.simps be_nat_def)
qed

lemma length_nat_be: "n < 256 ^ k \<Longrightarrow> length (nat_be n) \<le> k"
proof (induction k arbitrary: n)
  case (Suc k)
  show ?case
  proof (cases "n = 0")
    case False
    have "n div 256 < 256 ^ k" using Suc.prems by (simp add: div_less_iff_less_mult mult.commute)
    from Suc.IH [OF this] False show ?thesis by (subst nat_be.simps) simp
  qed (simp add: nat_be.simps)
qed (simp add: nat_be.simps)

definition demo_mpi :: mpi_api where
  "demo_mpi = \<lparr>mpi_read_binary = be_nat, mpi_write_binary = nat_be, mpi_fill_random = \<lambda>k i. if k = 0 then 0 else 1,
     mpi_exp_mod = \<lambda>a b c. a ^ b mod c, mpi_mul_mpi_mod = \<lambda>a b c. a * b mod c,
     mpi_add_mpi = (+), mpi_mod_mpi = (mod)\<rparr>"

lemma demo_mpi_lawful: "mpi_lawful demo_mpi"
proof -
  have "nat_be n = [] \<longleftrightarrow> n = 0" for n by (subst nat_be.simps) simp
  moreover have "Suc 0 < 256 ^ k" if "0 < k" for k using one_less_power [of "256 :: nat" k] that by simp
  ultimately show ?thesis by (simp add: mpi_lawful_def demo_mpi_def be_nat_nat_be length_nat_be)
qed

lemma srp_N_gt: "5 < srp_N"
proof -
  have "N_3072 = hd N_3072 # tl N_3072" "hd N_3072 = 255" by (simp_all add: N_3072_def)
  then have "srp_N = unat (255 :: byte) * 256 ^ length (tl N_3072) + be_nat (tl N_3072)"
    unfolding srp_N_def by (metis be_nat_Cons)
  then have "255 * 256 ^ 383 \<le> srp_N" by simp
  moreover have "(1 :: nat) \<le> 256 ^ 383" by (rule one_le_power) simp
  ultimately show ?thesis by linarith
qed

lemma memory_ok_boot [simp]: "memory_ok boot_sys"
  by (simp add: memory_ok_def boot_sys_def hap_ks.defs boot_ks_def hap_objs.defs boot_objs_def)


section \<open>The proofs\<close>

text \<open>The proof that the accessory expects; a pointer that is NULL contributes nothing.\<close>

definition opt_bytes :: "byte list option \<Rightarrow> byte list" where
  "opt_bytes p = (case p of None \<Rightarrow> [] | Some b \<Rightarrow> b)"

definition srp_M :: "byte list \<Rightarrow> byte list \<Rightarrow> byte list \<Rightarrow> byte list \<Rightarrow> byte list" where
  "srp_M salt A B key = sha512_spec (map2 (XOR) (sha512_spec N_3072) (sha512_spec g_3072) @
     sha512_spec (str_bytes ''Pair-Setup'') @ salt @ A @ B @ key)"

definition part_fits :: "byte list option \<Rightarrow> nat \<Rightarrow> nat \<Rightarrow> bool" where
  "part_fits p n k \<longleftrightarrow> (case p of None \<Rightarrow> True | Some b \<Rightarrow> n = length b \<and> n \<le> k)"

lemma part_fits_bytes:
  "part_fits p n k \<Longrightarrow> part_ok (p, n)" "part_fits p n k \<Longrightarrow> part_bytes (p, n) = opt_bytes p"
  "part_fits p n k \<Longrightarrow> length (opt_bytes p) \<le> k"
  by (auto simp: part_fits_def part_ok_def part_bytes_def opt_bytes_def split: option.splits)

lemma exchange_proofs_ok:
  assumes "srp_ready srp" "length p = 64"
    and "part_fits (sh_bytes_s srp) (sh_len_s srp) 1000" "part_fits (sh_bytes_A srp) (sh_len_A srp) 1000"
    and "part_fits (sh_bytes_B srp) (sh_len_B srp) 1000" "part_fits (sh_session_key srp) 64 64"
    and "M = srp_M (opt_bytes (sh_bytes_s srp)) (opt_bytes (sh_bytes_A srp)) (opt_bytes (sh_bytes_B srp)) (opt_bytes (sh_session_key srp))"
  shows "mu_srp_exchange_proofs srp ''Pair-Setup'' p =
    (if p = M then Some (1, Some (sha512_spec (opt_bytes (sh_bytes_A srp) @ M @ opt_bytes (sh_session_key srp))))
     else Some (0, None))"
proof -
  have r: "sh_bytes_n srp = Some N_3072" "sh_len_n srp = length N_3072" "sh_bytes_g srp = Some g_3072" "sh_len_g srp = length g_3072"
    using assms(1) by (simp_all add: srp_ready_def)
  have one: "SHA512_hash (Some b) (length b) = Some (sha512_spec b)" if "length b \<le> 1000" for b
    unfolding SHA512_hash_def by (subst sha512_parts_spec) (use that in simp_all)
  have user: "SHA512_hash (Some (str_bytes ''Pair-Setup'')) (length ''Pair-Setup'') = Some (sha512_spec (str_bytes ''Pair-Setup''))"
    using one [of "str_bytes ''Pair-Setup''"] by (simp add: str_bytes_def)
  let ?x = "map2 (XOR) (sha512_spec N_3072) (sha512_spec g_3072)"
  let ?I = "sha512_spec (str_bytes ''Pair-Setup'')"
  note fits = part_fits_bytes [OF assms(3)] part_fits_bytes [OF assms(4)] part_fits_bytes [OF assms(5)] part_fits_bytes [OF assms(6)]
  have x: "part_ok (Some ?x, 64)" "part_bytes (Some ?x, 64) = ?x" "part_ok (Some ?I, 64)" "part_bytes (Some ?I, 64) = ?I"
    by (simp_all add: part_ok_def part_bytes_def)
  have M: "sha512_parts [(Some ?x, SHA512HashSize), (Some ?I, SHA512HashSize), (sh_bytes_s srp, sh_len_s srp),
      (sh_bytes_A srp, sh_len_A srp), (sh_bytes_B srp, sh_len_B srp), (sh_session_key srp, SHA512HashSize)] = Some M"
    unfolding SHA512HashSize_def assms(7) srp_M_def
    by (subst sha512_parts_spec) (use fits x in simp_all)
  have lenM: "length M = 64" by (simp add: assms(7) srp_M_def)
  have m: "part_ok (Some M, 64)" "part_bytes (Some M, 64) = M"
    using lenM by (simp_all add: part_ok_def part_bytes_def)
  have amk: "sha512_parts [(sh_bytes_A srp, sh_len_A srp), (Some M, SHA512HashSize), (sh_session_key srp, SHA512HashSize)] =
      Some (sha512_spec (opt_bytes (sh_bytes_A srp) @ M @ opt_bytes (sh_session_key srp)))"
    unfolding SHA512HashSize_def by (subst sha512_parts_spec) (use fits m lenM in simp_all)
  have p: "rd_block p 0 (int SHA512HashSize) = Some p" using assms(2) by (simp add: rd_block_def SHA512HashSize_def)
  show ?thesis
    unfolding mu_srp_exchange_proofs_def r using one [of N_3072] one [of g_3072] user M amk p
    by (simp add: Let_def)
qed


section \<open>A public key that is zero modulo N\<close>

lemma session_key_zero:
  assumes "mpi_lawful api" "srp_ready srp" "sh_v srp = Some v" "sh_b srp = Some b" "0 < b" "srp_N dvd be_nat A"
    and "mu_srp_get_session_key api srp A (length A) st = Some (r, key, srp', st')"
  shows "r = 0 \<and> srp' = srp\<lparr>sh_bytes_A := Some A, sh_len_A := length A, sh_A := Some (be_nat A), sh_session_key := Some (sha512_spec [])\<rparr> \<or>
    r = - 1 \<and> srp' = srp\<lparr>sh_bytes_A := None, sh_len_A := sh_len_A srp', sh_A := None, sh_session_key := None\<rparr>"
proof -
  have r: "sh_n srp = Some srp_N" using assms(2) by (simp add: srp_ready_def)
  have S: "mu_bn_a_exp_b_mod_c api (mu_bn_a_mul_b_mod_c api (be_nat A) w srp_N) b srp_N = 0" for w
  proof -
    have "be_nat A * w mod srp_N = 0" using assms(6) by (simp add: dvd_mult2)
    then show ?thesis using srp_N_pos assms(1,5)
      by (simp add: mu_bn_a_mul_b_mod_c_def mu_bn_a_exp_b_mod_c_def mpi_laws zero_power)
  qed
  have w0: "mpi_write_binary api 0 = []" using assms(1) by (simp add: mpi_laws)
  have h0: "SHA512_hash (Some []) 0 = Some (sha512_spec [])"
    unfolding SHA512_hash_def by (subst sha512_parts_spec) (simp_all add: part_ok_def part_bytes_def)
  have A: "rd_block A 0 (int (length A)) = Some A" by (simp add: rd_block_def)
  have self: "srp = srp\<lparr>sh_len_A := sh_len_A srp\<rparr>" by simp
  have bin: "mu_bn_new_from_bin api A s = bn_alloc (be_nat A) s" for s :: "('a, 'b, 'c) hap_sys_scheme"
    using assms(1) by (simp add: mu_bn_new_from_bin_def mpi_laws)
  have bn: "fst (bn_alloc n s) = None \<or> fst (bn_alloc n s) = Some n" for n and s :: "('a, 'b, 'c) hap_sys_scheme"
    by (auto simp: bn_alloc_def split: prod.split option.split)
  obtain p1 s1 where 1: "new_addr st = (p1, s1)" by fastforce
  show ?thesis
  proof (cases "p1 = None")
    case True
    with 1 assms(7) show ?thesis
      by (intro disjI2) (auto simp: mu_srp_get_session_key_def Let_def intro!: mu_srp_handle.equality)
  next
    case False
    obtain p2 s2 where 2: "bn_alloc (be_nat A) s1 = (p2, s2)" by fastforce
    let ?srp = "srp\<lparr>sh_bytes_A := Some A, sh_len_A := length A, sh_A := p2\<rparr>"
    show ?thesis
    proof (cases "p2 = None")
      case True
      with False 1 2 assms(7) show ?thesis
        by (intro disjI2) (auto simp: mu_srp_get_session_key_def Let_def A bin)
    next
      case p2: False
      then have p2': "p2 = Some (be_nat A)" using bn [of "be_nat A" s1] 2 by auto
      obtain u s3 where 3: "calculate_u api ?srp (Some A) (length A) s2 = Some (u, s3)"
        using assms(7) False p2 1 2
        by (auto simp: mu_srp_get_session_key_def Let_def A bin split: bind_splits)
      obtain q1 t1 where q1: "mu_bn_new s3 = (q1, t1)" by fastforce
      obtain q2 t2 where q2: "mu_bn_new t1 = (q2, t2)" by fastforce
      obtain q3 t3 where q3: "mu_bn_new t2 = (q3, t3)" by fastforce
      obtain bS l t4 where bS: "mu_bn_to_bin api 0 t3 = (bS, l, t4)" by (metis prod_cases3)
      have bS': "bS = None \<or> bS = Some []" "l = 0"
        using bS w0 by (auto simp: mu_bn_to_bin_def split: prod.splits option.splits)
      obtain k t5 where k: "new_addr t4 = (k, t5)" by fastforce
      from assms(7) False p2' 1 2 3 q1 q2 q3 bS bS' k show ?thesis
        by (cases u; cases bS; cases k)
          (auto simp: mu_srp_get_session_key_def Let_def A bin assms(3,4) r S h0 SHA512HashSize_def split: if_splits)
    qed
  qed
qed

lemma exchange_proofs_accepts:
  assumes "srp_ready srp" "part_fits (sh_bytes_s srp) (sh_len_s srp) 1000" "part_fits (sh_bytes_A srp) (sh_len_A srp) 1000"
    and "part_fits (sh_bytes_B srp) (sh_len_B srp) 1000" "part_fits (sh_session_key srp) 64 64"
    and "opt_bytes (sh_bytes_s srp) = salt" "opt_bytes (sh_bytes_A srp) = A" "opt_bytes (sh_bytes_B srp) = B"
    and "opt_bytes (sh_session_key srp) = key"
  shows "\<exists>host. mu_srp_exchange_proofs srp ''Pair-Setup'' (srp_M salt A B key) = Some (1, Some host)"
proof -
  have len: "length (srp_M salt A B key) = 64" by (simp add: srp_M_def)
  show ?thesis unfolding exchange_proofs_ok [OF assms(1) len assms(2-5) refl] assms(6-9) by simp
qed

text \<open>A public key \<open>A\<close> that is zero modulo N is not refused. The session key then does not
  depend on the setup code (it is the hash of nothing, or none at all when \<open>malloc\<close> of a block of no
  bytes gives NULL), and the proof that the accessory accepts is a hash of public values: whoever
  sends such an \<open>A\<close> authenticates without the setup code.\<close>

theorem srp_zero_public_key:
  assumes "mpi_lawful api" "srp_ready srp" "sh_v srp = Some v" "sh_b srp = Some b" "0 < b"
    and "sh_bytes_s srp = Some salt" "sh_len_s srp = length salt" "length salt \<le> 1000"
    and "sh_bytes_B srp = Some B" "sh_len_B srp = length B" "length B \<le> 384"
    and "srp_N dvd be_nat A" "length A \<le> 384"
    and "mu_srp_get_session_key api srp A (length A) st = Some (r, key, srp', st')"
  shows "\<exists>host. mu_srp_exchange_proofs srp' ''Pair-Setup''
    (if r = 0 then srp_M salt A B (sha512_spec []) else srp_M salt [] B []) = Some (1, Some host)"
proof -
  from session_key_zero [OF assms(1-5,12,14)] show ?thesis
  proof (elim disjE conjE exE)
    assume r: "r = 0" and s: "srp' = srp\<lparr>sh_bytes_A := Some A, sh_len_A := length A, sh_A := Some (be_nat A), sh_session_key := Some (sha512_spec [])\<rparr>"
    have "\<exists>host. mu_srp_exchange_proofs srp' ''Pair-Setup'' (srp_M salt A B (sha512_spec [])) = Some (1, Some host)"
      by (rule exchange_proofs_accepts)
        (use assms(2,6-11,13) in \<open>simp_all add: s part_fits_def opt_bytes_def srp_ready_def\<close>)
    with r show ?thesis by simp
  next
    assume r: "r = - 1" and s': "srp' = srp\<lparr>sh_bytes_A := None, sh_len_A := sh_len_A srp', sh_A := None, sh_session_key := None\<rparr>"
    define l where "l = sh_len_A srp'"
    have s: "srp' = srp\<lparr>sh_bytes_A := None, sh_len_A := l, sh_A := None, sh_session_key := None\<rparr>"
      using s' unfolding l_def .
    have "\<exists>host. mu_srp_exchange_proofs srp' ''Pair-Setup'' (srp_M salt [] B []) = Some (1, Some host)"
      by (rule exchange_proofs_accepts)
        (use assms(2,6-11) in \<open>simp_all add: s part_fits_def opt_bytes_def srp_ready_def\<close>)
    with r show ?thesis by simp
  qed
qed

lemma srp_zero_public_key_witness:
  "\<exists>srp r key srp' st' host. sh_v srp = Some 5 \<and> mu_srp_get_session_key demo_mpi srp [0] 1 boot_sys = Some (r, key, srp', st') \<and>
     mu_srp_exchange_proofs srp' ''Pair-Setup''
       (if r = 0 then srp_M [7] [0] [5] (sha512_spec []) else srp_M [7] [] [5] []) = Some (1, Some host)"
proof -
  let ?srp = "zero_srp\<lparr>sh_n := Some srp_N, sh_bytes_n := Some N_3072, sh_len_n := 384, sh_g := Some 5, sh_bytes_g := Some g_3072,
    sh_len_g := 1, sh_v := Some 5, sh_b := Some 1, sh_bytes_s := Some [7], sh_len_s := 1, sh_bytes_B := Some [5], sh_len_B := 1\<rparr>"
  have rdy: "srp_ready ?srp" by (simp add: srp_ready_def)
  have v: "sh_v ?srp = Some 5" "sh_b ?srp = Some 1" "sh_bytes_B ?srp = Some [5]" "sh_len_B ?srp = length [5 :: byte]" by simp_all
  obtain key srp' st' where s: "mu_srp_get_session_key demo_mpi ?srp [0] (length [0 :: byte]) boot_sys = Some (0, key, srp', st')"
    by (rule get_session_key_ok [OF demo_mpi_lawful memory_ok_boot rdy v _ _ refl, of "[0]"]) (simp, simp, blast)
  have z: "(0 :: nat) < 1" "srp_N dvd be_nat [0]" "length [5 :: byte] \<le> 384" "length [0 :: byte] \<le> 384" "length [7 :: byte] \<le> 1000"
    by (simp_all add: be_nat_def)
  have b: "sh_bytes_s ?srp = Some [7]" "sh_len_s ?srp = length [7 :: byte]" by simp_all
  obtain host where h: "mu_srp_exchange_proofs srp' ''Pair-Setup''
    (if (0 :: int) = 0 then srp_M [7] [0] [5] (sha512_spec []) else srp_M [7] [] [5] []) = Some (1, Some host)"
    using srp_zero_public_key [OF demo_mpi_lawful rdy v(1,2) z(1) b z(5) v(3,4) z(3,2,4) s] by blast
  show ?thesis
    by (rule exI [of _ ?srp], rule exI [of _ 0], rule exI [of _ key], rule exI [of _ srp'], rule exI [of _ st'],
        rule exI [of _ host], rule conjI [OF v(1)], rule conjI) (use s h in \<open>simp_all only: list.size One_nat_def plus_nat.add_0 add_0_right add_Suc_right\<close>)
qed

end
