(* ===== verification/Hap_Session.thy ===== *)
theory Hap_Session
  imports Controllers Hap_Acc Mu_Srp
begin

text \<open>
  The secure sessions: their structure (\<open>hap_secure_session_t\<close> of \<open>esp_hap_pair_common.h\<close>), the
  table of the eight active ones in \<open>hap_priv\<close>, and the operations on it of
  \<open>esp_hap_pair_verify.c\<close>.

  The HTTP server keeps one context pointer per connection. It points to a pair verify context,
  a pair setup context or a secure session; all three structures begin with the state byte, and
  the code reads this byte before it knows which one it has (\<open>ctx_state\<close>).

  The cryptography of libsodium (\<open>hap_crypto\<close>) and the sockets and sessions of the HTTP server
  (\<open>httpd_api\<close>, on a state of any type) are not part of the repository: they are parameters, fields
  of the state that no operation changes. A socket is its number.
\<close>

section \<open>Structures\<close>

definition STATE_M0 :: byte where "STATE_M0 = 0"
definition STATE_M1 :: byte where "STATE_M1 = 1"
definition STATE_M2 :: byte where "STATE_M2 = 2"
definition STATE_M3 :: byte where "STATE_M3 = 3"
definition STATE_M4 :: byte where "STATE_M4 = 4"
definition STATE_M5 :: byte where "STATE_M5 = 5"
definition STATE_M6 :: byte where "STATE_M6 = 6"
definition STATE_VERIFIED :: byte where "STATE_VERIFIED = 0x55"
definition STATE_INVALID :: byte where "STATE_INVALID = 0xaa"

lemmas session_states = STATE_M0_def STATE_M1_def STATE_M2_def STATE_M3_def STATE_M4_def STATE_M5_def
  STATE_M6_def STATE_VERIFIED_def STATE_INVALID_def

definition ENCRYPT_KEY_LEN :: nat where "ENCRYPT_KEY_LEN = 32"
definition POLY_AUTHTAG_LEN :: int where "POLY_AUTHTAG_LEN = 16"
definition CURVE_KEY_LEN :: int where "CURVE_KEY_LEN = 32"
definition ED_SIGN_LEN :: int where "ED_SIGN_LEN = 64"
definition NONCE_LEN :: nat where "NONCE_LEN = 8"

text \<open>A pointer to a controller is its position in the table of the controllers.\<close>

record hap_secure_session =
  ss_state :: byte
  ss_encrypt_key :: "byte list"
  ss_decrypt_key :: "byte list"
  ss_encrypt_nonce :: "byte list"
  ss_decrypt_nonce :: "byte list"
  ss_ctrl :: "nat option"
  ss_pid :: u64
  ss_ttl :: int
  ss_prepare_time :: int
  ss_conn_identifier :: int

definition zero_session :: hap_secure_session where
  "zero_session = \<lparr>ss_state = 0, ss_encrypt_key = replicate ENCRYPT_KEY_LEN 0,
     ss_decrypt_key = replicate ENCRYPT_KEY_LEN 0, ss_encrypt_nonce = replicate NONCE_LEN 0,
     ss_decrypt_nonce = replicate NONCE_LEN 0, ss_ctrl = None, ss_pid = 0, ss_ttl = 0,
     ss_prepare_time = 0, ss_conn_identifier = 0\<rparr>"

record pair_verify_ctx =
  pv_state :: byte
  pv_ctrl_curve_pk :: "byte list"
  pv_acc_curve_pk :: "byte list"
  pv_hkdf_key :: "byte list"
  pv_shared_secret :: "byte list"
  pv_session :: "ptr option"

text \<open>
  \<open>pair_setup_ctx_t\<close>: \<open>bytes_s\<close> and \<open>shared_secret\<close> point into the SRP handle or to the salt of the
  setup info and are kept as the bytes there.
\<close>

record pair_setup_ctx =
  ps_state :: byte
  ps_method :: byte
  ps_pairing_flags :: u32
  ps_pairing_flags_len :: byte
  ps_len_s :: nat
  ps_bytes_s :: "byte list option"
  ps_secret_len :: nat
  ps_shared_secret :: "byte list option"
  ps_srp_hd :: mu_srp_handle
  ps_ctrl :: "nat option"
  ps_session_key :: "byte list"
  ps_timer :: "ptr option"
  ps_session :: "ptr option"
  ps_sock_fd :: int

text \<open>
  Chacha20-Poly1305 takes the key, the nonce, the additional data and the text, detached from
  its tag; Curve25519 the secret and the public key (no result for a weak point).
\<close>

record hap_crypto =
  aead_encrypt :: "byte list \<Rightarrow> byte list \<Rightarrow> byte list \<Rightarrow> byte list \<Rightarrow> byte list \<times> byte list"
  aead_decrypt :: "byte list \<Rightarrow> byte list \<Rightarrow> byte list \<Rightarrow> byte list \<Rightarrow> byte list \<Rightarrow> byte list option"
  curve25519 :: "byte list \<Rightarrow> byte list \<Rightarrow> byte list option"
  ed25519_sign :: "byte list \<Rightarrow> byte list \<Rightarrow> byte list"
  ed25519_verify :: "byte list \<Rightarrow> byte list \<Rightarrow> byte list \<Rightarrow> bool"

text \<open>
  \<open>sock_recv fd n flags\<close> gives the result of \<open>recv\<close> and the bytes it wrote, \<open>sock_send\<close> the result
  of \<open>send\<close>; \<open>httpd_sess_trigger_close\<close> asks the server to close the session of a socket.
\<close>

record 'w httpd_api =
  sock_recv :: "int \<Rightarrow> nat \<Rightarrow> int \<Rightarrow> 'w \<Rightarrow> int \<times> byte list \<times> 'w"
  sock_send :: "int \<Rightarrow> byte list \<Rightarrow> int \<Rightarrow> 'w \<Rightarrow> int \<times> 'w"
  httpd_sess_get_ctx :: "int \<Rightarrow> 'w \<Rightarrow> ptr option"
  httpd_sess_trigger_close :: "int \<Rightarrow> 'w \<Rightarrow> 'w"

text \<open>The frame that \<open>hap_httpd_recv\<close> keeps between its calls (\<open>esp_hap_network_io.c\<close>).\<close>

record hap_decrypt_frame =
  df_pkt_size :: u16
  df_bytes_read :: u16
  df_data :: "byte list"
  df_session :: "ptr option"

record ('n, 'h, 'w) hap_net = "('n, 'h) hap_sys" +
  sess_at :: "ptr \<rightharpoonup> hap_secure_session"
  pv_at :: "ptr \<rightharpoonup> pair_verify_ctx"
  ps_at :: "ptr \<rightharpoonup> pair_setup_ctx"
  setup_ctx :: "ptr option"
  timers :: "ptr \<rightharpoonup> ptr"
  decrypt_frame :: hap_decrypt_frame
  stack_mem :: "nat \<Rightarrow> byte list"
  crypto :: hap_crypto
  mpi :: mpi_api
  httpd :: "'w httpd_api"
  world :: 'w

text \<open>
  \<open>setup_ctx\<close> is the static variable of \<open>hap_pair_setup_ctx_action\<close>, \<open>timers\<close> the FreeRTOS timers
  that exist, with their IDs. \<open>stack_mem\<close> gives what an array of a function holds before the
  function writes it: nothing is assumed of it.
\<close>

definition stack_array :: "nat \<Rightarrow> ('n, 'h, 'w, 's) hap_net_scheme \<Rightarrow> byte list" where
  "stack_array n st = take n (stack_mem st n @ replicate n 0)"

lemma length_stack_array [simp]: "length (stack_array n st) = n"
  by (simp add: stack_array_def)

definition ctx_state :: "ptr \<Rightarrow> ('n, 'h, 'w, 's) hap_net_scheme \<Rightarrow> byte option" where
  "ctx_state p st = (case sess_at st p of Some s \<Rightarrow> Some (ss_state s)
     | None \<Rightarrow> (case pv_at st p of Some v \<Rightarrow> Some (pv_state v) | None \<Rightarrow> map_option ps_state (ps_at st p)))"

definition upd_sess ::
    "ptr \<Rightarrow> (hap_secure_session \<Rightarrow> hap_secure_session) \<Rightarrow>
     ('n, 'h, 'w, 's) hap_net_scheme \<Rightarrow> ('n, 'h, 'w, 's) hap_net_scheme option" where
  "upd_sess p f st = do { s \<leftarrow> sess_at st p; Some (st\<lparr>sess_at := (sess_at st)(p \<mapsto> f s)\<rparr>) }"

section \<open>The code\<close>

primrec for_each :: "('a \<Rightarrow> 's \<Rightarrow> 's option) \<Rightarrow> 'a list \<Rightarrow> 's \<Rightarrow> 's option" where
  "for_each f [] st = Some st"
| "for_each f (x # xs) st = do { st \<leftarrow> f x st; for_each f xs st }"

definition session_at :: "nat \<Rightarrow> ('n, 'h, 's) hap_sys_scheme \<Rightarrow> ptr option" where
  "session_at i st = p_sessions (priv st) ! i"

definition session_disconnect ::
    "ptr \<Rightarrow> nat \<Rightarrow> ('n, 'h, 'w, 's) hap_net_scheme \<Rightarrow> ('n, 'h, 'w, 's) hap_net_scheme option" where
  "session_disconnect q c st = do {
     let st = hap_report_event HAP_EVENT_CTRL_DISCONNECTED (info_id (ci_info (p_controllers (priv st) ! c))) st;
     s \<leftarrow> sess_at st q;
     Some (st\<lparr>world := httpd_sess_trigger_close (httpd st) (ss_conn_identifier s) (world st)\<rparr>) }"

definition hap_close_session ::
    "ptr option \<Rightarrow> ('n, 'h, 'w, 's) hap_net_scheme \<Rightarrow> ('n, 'h, 'w, 's) hap_net_scheme option" where
  "hap_close_session session st = (case session of
       None \<Rightarrow> Some st
     | Some q \<Rightarrow> for_each (\<lambda>i st.
         if session_at i st = Some q
         then do { s \<leftarrow> sess_at st q; c \<leftarrow> ss_ctrl s; session_disconnect q c st }
         else Some st) [0..<HAP_MAX_SESSIONS] st)"

definition hap_close_sessions_of_ctrl ::
    "nat option \<Rightarrow> ('n, 'h, 'w, 's) hap_net_scheme \<Rightarrow> ('n, 'h, 'w, 's) hap_net_scheme option" where
  "hap_close_sessions_of_ctrl ctrl st = (case ctrl of
       None \<Rightarrow> Some st
     | Some c \<Rightarrow> for_each (\<lambda>i st. case session_at i st of
           None \<Rightarrow> Some st
         | Some q \<Rightarrow> do {
             s \<leftarrow> sess_at st q;
             if ss_ctrl s = Some c then session_disconnect q c st else Some st }) [0..<HAP_MAX_SESSIONS] st)"

definition hap_get_ctrl_session_index :: "ptr option \<Rightarrow> ('n, 'h, 's) hap_sys_scheme \<Rightarrow> int" where
  "hap_get_ctrl_session_index session st =
     (case find (\<lambda>i. session_at i st = session) [0..<HAP_MAX_SESSIONS] of
        None \<Rightarrow> - 1
      | Some i \<Rightarrow> int i)"

definition hap_close_all_sessions ::
    "('n, 'h, 'w, 's) hap_net_scheme \<Rightarrow> ('n, 'h, 'w, 's) hap_net_scheme option" where
  "hap_close_all_sessions st = for_each (\<lambda>i st. case session_at i st of
       None \<Rightarrow> Some st
     | Some q \<Rightarrow> hap_close_session (Some q) st) [0..<HAP_MAX_SESSIONS] st"

definition hap_add_secure_session ::
    "ptr \<Rightarrow> ('n, 'h, 'w, 's) hap_net_scheme \<Rightarrow> ('n, 'h, 'w, 's) hap_net_scheme option" where
  "hap_add_secure_session session st =
     (case find (\<lambda>i. session_at i st = None) [0..<HAP_MAX_SESSIONS] of
        None \<Rightarrow> Some st
      | Some i \<Rightarrow> do {
          let st = upd_priv (\<lambda>p. p\<lparr>p_sessions := (p_sessions p)[i := Some session]\<rparr>) st;
          s \<leftarrow> sess_at st session; c \<leftarrow> ss_ctrl s;
          let st = hap_report_event HAP_EVENT_CTRL_CONNECTED (info_id (ci_info (p_controllers (priv st) ! c))) st;
          Some (upd_priv (\<lambda>p. p\<lparr>p_disconnected_event_sent := False\<rparr>) st) })"

definition sess_free ::
    "ptr \<Rightarrow> ('n, 'h, 'w, 's) hap_net_scheme \<Rightarrow> ('n, 'h, 'w, 's) hap_net_scheme option" where
  "sess_free p st = do { _ \<leftarrow> sess_at st p; Some (st\<lparr>sess_at := (sess_at st)(p := None)\<rparr>) }"

definition hap_free_session ::
    "ptr option \<Rightarrow> ('n, 'h, 'w, 's) hap_net_scheme \<Rightarrow> ('n, 'h, 'w, 's) hap_net_scheme option" where
  "hap_free_session session st = (case session of
       None \<Rightarrow> Some st
     | Some q \<Rightarrow> do {
         st \<leftarrow> (case find (\<lambda>i. session_at i st = session) [0..<HAP_MAX_SESSIONS] of
             None \<Rightarrow> Some st
           | Some i \<Rightarrow> do {
               st \<leftarrow> hap_disable_all_char_notif (int i) st;
               Some (upd_priv (\<lambda>p. p\<lparr>p_sessions := (p_sessions p)[i := None]\<rparr>) st) });
         sess_free q st })"

definition hap_is_req_secure :: "ptr option \<Rightarrow> ('n, 'h, 'w, 's) hap_net_scheme \<Rightarrow> bool option" where
  "hap_is_req_secure session st = (case session of
       None \<Rightarrow> Some False
     | Some q \<Rightarrow> do { s \<leftarrow> ctx_state q st; Some (s = STATE_VERIFIED) })"

definition hap_is_req_admin :: "ptr option \<Rightarrow> ('n, 'h, 'w, 's) hap_net_scheme \<Rightarrow> bool option" where
  "hap_is_req_admin session st = (case session of
       None \<Rightarrow> Some False
     | Some q \<Rightarrow> do {
         s \<leftarrow> ctx_state q st;
         if s = STATE_VERIFIED then do {
           s \<leftarrow> sess_at st q; c \<leftarrow> ss_ctrl s;
           Some (info_perms (ci_info (p_controllers (priv st) ! c)) = 1) }
         else Some False })"

text \<open>The identifier of the controller of the session, as its 64 bytes.\<close>

definition hap_req_get_ctrl_id :: "ptr option \<Rightarrow> ('n, 'h, 'w, 's) hap_net_scheme \<Rightarrow> byte list option option" where
  "hap_req_get_ctrl_id session st = (case session of
       None \<Rightarrow> Some None
     | Some q \<Rightarrow> do {
         s \<leftarrow> ctx_state q st;
         if s = STATE_VERIFIED then do {
           s \<leftarrow> sess_at st q; c \<leftarrow> ss_ctrl s;
           Some (Some (info_id (ci_info (p_controllers (priv st) ! c)))) }
         else Some None })"

section \<open>The table of sessions\<close>

definition sessions :: "('n, 'h, 's) hap_sys_scheme \<Rightarrow> ptr option list" where
  "sessions st = p_sessions (priv st)"

definition live_session :: "('n, 'h, 'w, 's) hap_net_scheme \<Rightarrow> ptr \<Rightarrow> bool" where
  "live_session st q \<longleftrightarrow> (\<exists>s c. sess_at st q = Some s \<and> ss_ctrl s = Some c \<and> c < HAP_MAX_CONTROLLERS)"

text \<open>The table has eight entries, an entry is a live session of a controller, and none is entered twice.\<close>

definition sessions_ok :: "('n, 'h, 'w, 's) hap_net_scheme \<Rightarrow> bool" where
  "sessions_ok st \<longleftrightarrow> length (sessions st) = HAP_MAX_SESSIONS \<and>
     (\<forall>q. Some q \<in> set (sessions st) \<longrightarrow> live_session st q) \<and>
     (\<forall>i j. i < HAP_MAX_SESSIONS \<longrightarrow> j < HAP_MAX_SESSIONS \<longrightarrow> sessions st ! i \<noteq> None \<longrightarrow>
        sessions st ! i = sessions st ! j \<longrightarrow> i = j)"

lemma sessions_okI:
  assumes "length (sessions st) = HAP_MAX_SESSIONS" "\<And>q. Some q \<in> set (sessions st) \<Longrightarrow> live_session st q"
    "\<And>i j. i < HAP_MAX_SESSIONS \<Longrightarrow> j < HAP_MAX_SESSIONS \<Longrightarrow> sessions st ! i \<noteq> None \<Longrightarrow>
      sessions st ! i = sessions st ! j \<Longrightarrow> i = j"
  shows "sessions_ok st"
  unfolding sessions_ok_def using assms by blast

lemma find_upt_None: "find P [0..<n] = None \<longleftrightarrow> (\<forall>i < n. \<not> P i)"
  by (auto simp: find_None_iff)

lemma find_upt_Some: "find P [0..<n] = Some i \<longleftrightarrow> i < n \<and> P i \<and> (\<forall>j < i. \<not> P j)"
proof -
  have "find P [0..<n] = Some i \<longleftrightarrow> (\<exists>k < n. P k \<and> i = k \<and> (\<forall>j < k. \<not> P j))"
    by (fastforce simp: find_Some_iff)
  then show ?thesis by blast
qed

lemma session_at_sessions: "session_at i st = sessions st ! i"
  by (simp add: session_at_def sessions_def)

lemma in_sessions_iff:
  "sessions_ok st \<Longrightarrow> x \<in> set (sessions st) \<longleftrightarrow> (\<exists>i < HAP_MAX_SESSIONS. session_at i st = x)"
  by (auto simp: sessions_ok_def in_set_conv_nth session_at_sessions)

lemma session_index:
  assumes "sessions_ok st" "i < HAP_MAX_SESSIONS" "session_at i st = Some q"
  shows "find (\<lambda>j. session_at j st = Some q) [0..<HAP_MAX_SESSIONS] = Some i"
    "hap_get_ctrl_session_index (Some q) st = int i"
proof -
  have "\<not> session_at j st = Some q" if "j < i" for j
  proof -
    have "sessions st ! i = sessions st ! j \<longrightarrow> i = j"
      using assms that unfolding sessions_ok_def session_at_sessions by (metis less_trans option.distinct(1))
    then show ?thesis using assms(3) that by (auto simp: session_at_sessions)
  qed
  with assms(2,3) show "find (\<lambda>j. session_at j st = Some q) [0..<HAP_MAX_SESSIONS] = Some i"
    by (simp add: find_upt_Some)
  then show "hap_get_ctrl_session_index (Some q) st = int i"
    by (simp add: hap_get_ctrl_session_index_def)
qed

lemma session_index_absent:
  assumes "sessions_ok st" "Some q \<notin> set (sessions st)"
  shows "find (\<lambda>j. session_at j st = Some q) [0..<HAP_MAX_SESSIONS] = None"
    "hap_get_ctrl_session_index (Some q) st = - 1"
proof -
  show "find (\<lambda>j. session_at j st = Some q) [0..<HAP_MAX_SESSIONS] = None"
    using assms in_sessions_iff [OF assms(1)] by (auto simp: find_upt_None)
  then show "hap_get_ctrl_session_index (Some q) st = - 1"
    by (simp add: hap_get_ctrl_session_index_def)
qed

text \<open>Entering a session in a free place and taking it out again.\<close>

lemma sessions_ok_enter:
  assumes "sessions_ok st" "i < HAP_MAX_SESSIONS" "live_session st q" "Some q \<notin> set (sessions st)"
    "sessions st' = (sessions st)[i := Some q]" "sess_at st' = sess_at st"
  shows "sessions_ok st'"
proof -
  have "live_session st' q'" if "Some q' \<in> set (sessions st')" for q'
    using that assms(1,3,5,6) set_update_subset_insert [of "sessions st" i "Some q"]
    by (auto simp: sessions_ok_def live_session_def)
  moreover have "a = b" if "a < HAP_MAX_SESSIONS" "b < HAP_MAX_SESSIONS" "sessions st' ! a \<noteq> None" "sessions st' ! a = sessions st' ! b" for a b
    using that assms(1,2,4,5) unfolding sessions_ok_def
    by (cases "a = i"; cases "b = i") (force simp: in_set_conv_nth)+
  moreover have "length (sessions st') = HAP_MAX_SESSIONS" using assms(1,5) by (simp add: sessions_ok_def)
  ultimately show ?thesis by (intro sessions_okI)
qed

lemma sessions_ok_leave:
  assumes "sessions_ok st" "i < HAP_MAX_SESSIONS" "session_at i st = Some q"
    "sessions st' = (sessions st)[i := None]" "sess_at st' = (sess_at st)(q := None)"
  shows "sessions_ok st'"
proof -
  have live: "sess_at st' q' = sess_at st q' \<and> Some q' \<in> set (sessions st)" if q': "Some q' \<in> set (sessions st')" for q'
  proof -
    obtain j where j: "j < HAP_MAX_SESSIONS" "sessions st' ! j = Some q'"
      using q' assms(1,4) by (auto simp: in_set_conv_nth sessions_ok_def)
    then have "j \<noteq> i" "sessions st ! j = Some q'" using assms(1,2,4)
      by (auto simp: sessions_ok_def nth_list_update split: if_splits)
    moreover have "q' \<noteq> q"
    proof
      assume "q' = q"
      then have "sessions st ! i = sessions st ! j" "sessions st ! i \<noteq> None"
        using assms(3) \<open>sessions st ! j = Some q'\<close> by (simp_all add: session_at_sessions)
      then have "i = j" using assms(1,2) j(1) unfolding sessions_ok_def by blast
      with \<open>j \<noteq> i\<close> show False by simp
    qed
    ultimately show ?thesis using assms(1,5) j(1) by (auto simp: sessions_ok_def in_set_conv_nth)
  qed
  have "live_session st' q'" if "Some q' \<in> set (sessions st')" for q'
    using live [OF that] assms(1) by (auto simp: sessions_ok_def live_session_def)
  moreover have "a = b" if "a < HAP_MAX_SESSIONS" "b < HAP_MAX_SESSIONS" "sessions st' ! a \<noteq> None" "sessions st' ! a = sessions st' ! b" for a b
    using that assms(1,2,4) unfolding sessions_ok_def by (cases "a = i"; cases "b = i") auto
  moreover have "length (sessions st') = HAP_MAX_SESSIONS" using assms(1,4) by (simp add: sessions_ok_def)
  ultimately show ?thesis by (intro sessions_okI)
qed

lemma add_secure_session:
  assumes "sessions_ok st" "sess_at st q = Some s" "ss_ctrl s = Some c"
  shows "hap_add_secure_session q st = Some (case find (\<lambda>i. session_at i st = None) [0..<HAP_MAX_SESSIONS] of
      None \<Rightarrow> st
    | Some i \<Rightarrow> upd_priv (\<lambda>p. p\<lparr>p_sessions := (p_sessions p)[i := Some q], p_disconnected_event_sent := False\<rparr>)
        (hap_report_event HAP_EVENT_CTRL_CONNECTED (info_id (ci_info (p_controllers (priv st) ! c))) st))"
  using assms(2,3)
  by (auto simp: hap_add_secure_session_def upd_priv_def hap_report_event_def split: option.split)

text \<open>A new verified session is entered in the first free place of the table, which is its
  index from then on, and the application is told of the controller; when all eight places are taken nothing
  changes and the session has the index -1. Either way the table stays well formed.\<close>

theorem session_table_add:
  assumes "sessions_ok st" "sess_at st q = Some s" "ss_ctrl s = Some c" "c < HAP_MAX_CONTROLLERS"
    and "Some q \<notin> set (sessions st)"
  shows "\<exists>st'. hap_add_secure_session q st = Some st' \<and> sessions_ok st' \<and>
    (if None \<in> set (sessions st)
     then \<exists>i < HAP_MAX_SESSIONS. session_at i st = None \<and> (\<forall>j < i. session_at j st \<noteq> None) \<and>
       sessions st' = (sessions st)[i := Some q] \<and> hap_get_ctrl_session_index (Some q) st' = int i \<and>
       reported st' = reported st @ [(HAP_EVENT_CTRL_CONNECTED, info_id (ci_info (p_controllers (priv st) ! c)))]
     else st' = st \<and> hap_get_ctrl_session_index (Some q) st' = - 1)"
proof (cases "find (\<lambda>i. session_at i st = None) [0..<HAP_MAX_SESSIONS]")
  case None
  then have "None \<notin> set (sessions st)" using in_sessions_iff [OF assms(1)] by (auto simp: find_upt_None)
  with None assms session_index_absent(2) [OF assms(1,5)] add_secure_session [OF assms(1-3)] show ?thesis by simp
next
  case (Some i)
  let ?st = "upd_priv (\<lambda>p. p\<lparr>p_sessions := (p_sessions p)[i := Some q], p_disconnected_event_sent := False\<rparr>)
        (hap_report_event HAP_EVENT_CTRL_CONNECTED (info_id (ci_info (p_controllers (priv st) ! c))) st)"
  have i: "i < HAP_MAX_SESSIONS" "session_at i st = None" "\<forall>j < i. session_at j st \<noteq> None"
    using Some by (auto simp: find_upt_Some)
  have t: "sessions ?st = (sessions st)[i := Some q]" "sess_at ?st = sess_at st"
    "reported ?st = reported st @ [(HAP_EVENT_CTRL_CONNECTED, info_id (ci_info (p_controllers (priv st) ! c)))]"
    by (simp_all add: sessions_def upd_priv_def hap_report_event_def)
  have ok: "sessions_ok ?st"
    by (rule sessions_ok_enter [OF assms(1) i(1) _ assms(5) t(1,2)]) (use assms in \<open>auto simp: live_session_def\<close>)
  have n: "session_at i ?st = Some q" using t(1) i(1) assms(1) by (simp add: session_at_sessions sessions_ok_def)
  have m: "None \<in> set (sessions st)" using i in_sessions_iff [OF assms(1)] by auto
  have "hap_add_secure_session q st = Some ?st" using add_secure_session [OF assms(1-3)] Some by simp
  then show ?thesis using ok i t(1,3) session_index(2) [OF ok i(1) n] m by auto
qed

text \<open>
  A server of stream sockets for the examples: per socket the bytes that arrive and the bytes
  that were sent, and the sockets whose closing was requested. The context of a socket has the
  socket's number as its address.
\<close>

type_synonym streams = "(int \<Rightarrow> byte list) \<times> (int \<Rightarrow> byte list) \<times> int list"

definition stream_httpd :: "streams httpd_api" where
  "stream_httpd = \<lparr>
     sock_recv = \<lambda>fd n flags (inp, out, closed).
       (int (min n (length (inp fd))), take n (inp fd), (inp(fd := drop n (inp fd)), out, closed)),
     sock_send = \<lambda>fd bs flags (inp, out, closed). (int (length bs), (inp, out(fd := out fd @ bs), closed)),
     httpd_sess_get_ctx = \<lambda>fd w. Some (nat fd),
     httpd_sess_trigger_close = \<lambda>fd (inp, out, closed). (inp, out, closed @ [fd])\<rparr>"

definition sum_tag :: "byte list \<Rightarrow> byte list \<Rightarrow> byte list \<Rightarrow> byte list \<Rightarrow> byte list" where
  "sum_tag k n ad c = replicate 16 (sum_list (k @ n @ ad @ c))"

definition demo_crypto :: hap_crypto where
  "demo_crypto = \<lparr>
     aead_encrypt = \<lambda>k n ad m. (m, sum_tag k n ad m),
     aead_decrypt = \<lambda>k n ad c tag. if tag = sum_tag k n ad c then Some c else None,
     curve25519 = \<lambda>sk pk. Some (map2 (+) sk pk),
     ed25519_sign = \<lambda>sk m. drop 32 sk @ replicate 32 (sum_list m),
     ed25519_verify = \<lambda>pk sig m. sig = pk @ replicate 32 (sum_list m)\<rparr>"

definition zero_frame :: hap_decrypt_frame where
  "zero_frame = \<lparr>df_pkt_size = 0, df_bytes_read = 0, df_data = replicate 1040 0, df_session = None\<rparr>"

definition boot_net :: "(kv, string \<times> string, streams) hap_net" where
  "boot_net = hap_sys.extend boot_sys \<lparr>sess_at = Map.empty, pv_at = Map.empty, ps_at = Map.empty, setup_ctx = None,
     timers = Map.empty, decrypt_frame = zero_frame, stack_mem = \<lambda>_. [], crypto = demo_crypto, mpi = demo_mpi,
     httpd = stream_httpd, world = (\<lambda>_. [], \<lambda>_. [], [])\<rparr>"

lemma boot_net_simps [simp]:
  "sess_at boot_net = Map.empty" "pv_at boot_net = Map.empty" "ps_at boot_net = Map.empty" "setup_ctx boot_net = None"
  "timers boot_net = Map.empty" "decrypt_frame boot_net = zero_frame" "crypto boot_net = demo_crypto"
  "mpi boot_net = demo_mpi" "httpd boot_net = stream_httpd" "world boot_net = (\<lambda>_. [], \<lambda>_. [], [])"
  "priv boot_net = zero_priv" "memory_ok boot_net" "char_at boot_net = Map.empty" "serv_at boot_net = Map.empty"
  "acc_at boot_net = Map.empty" "primary_acc boot_net = None" "rng_count boot_net = 0" "reported boot_net = []"
  by (simp_all add: boot_net_def hap_sys.defs memory_ok_def boot_sys_def hap_ks.defs boot_ks_def hap_objs.defs boot_objs_def)

lemma session_table_add_witness:
  "\<exists>st'. hap_add_secure_session 5 (boot_net\<lparr>sess_at := [5 \<mapsto> zero_session\<lparr>ss_ctrl := Some 3\<rparr>]\<rparr>) = Some st' \<and>
    sessions st' = Some 5 # replicate 7 None"
proof -
  let ?st = "boot_net\<lparr>sess_at := [5 \<mapsto> zero_session\<lparr>ss_ctrl := Some 3\<rparr>]\<rparr>"
  have t: "sessions ?st = replicate 8 None" by (simp add: sessions_def zero_priv_def HAP_MAX_SESSIONS_def)
  then have ok: "sessions_ok ?st" by (simp add: sessions_ok_def HAP_MAX_SESSIONS_def)
  obtain st' i where r: "hap_add_secure_session 5 ?st = Some st'" "i < HAP_MAX_SESSIONS" "\<forall>j < i. session_at j ?st \<noteq> None"
    "sessions st' = (sessions ?st)[i := Some 5]"
    using session_table_add [OF ok, of 5 "zero_session\<lparr>ss_ctrl := Some 3\<rparr>" 3] t by (auto simp: HAP_MAX_CONTROLLERS_def)
  have "session_at 0 ?st = None" using t by (simp add: session_at_sessions)
  with r(3) have "i = 0" by auto
  with r(1,4) t show ?thesis by (simp add: eval_nat_numeral)
qed

section \<open>The end of a session\<close>

lemma clear_ev_net [simp]:
  "sessions (clear_ev m C st) = sessions st" "sess_at (clear_ev m C st') = sess_at st'"
  by (simp_all add: clear_ev_def sessions_def)

lemma free_session:
  assumes "sessions_ok st" "db_tree st d" "i < HAP_MAX_SESSIONS" "session_at i st = Some q"
  shows "hap_free_session (Some q) st = Some ((upd_priv (\<lambda>p. p\<lparr>p_sessions := (p_sessions p)[i := None]\<rparr>)
      (clear_ev (2 ^ i) (db_chars d) st))\<lparr>sess_at := (sess_at st)(q := None)\<rparr>)"
proof -
  have "Some q \<in> set (sessions st)" using in_sessions_iff [OF assms(1)] assms(3,4) by blast
  then have "live_session st q" using assms(1) unfolding sessions_ok_def by blast
  then obtain s where s: "sess_at st q = Some s" by (auto simp: live_session_def)
  have "bit_mask16 (int i) = Some (2 ^ i)" using assms(3) by (simp add: bit_mask16_Some HAP_MAX_SESSIONS_def)
  with s session_index(1) [OF assms(1,3,4)] hap_disable_clear [OF _ assms(2)] show ?thesis
    by (simp add: hap_free_session_def sess_free_def upd_priv_def clear_ev_def)
qed

text \<open>C15: When the server frees the context of a session, the session leaves the table and its
  memory is given back; every other entry keeps its place; and in the whole database the
  subscriptions of its index, and only these, are gone.\<close>

theorem session_table_remove:
  assumes "sessions_ok st" "db_tree st d" "i < HAP_MAX_SESSIONS" "session_at i st = Some q"
  shows "\<exists>st'. hap_free_session (Some q) st = Some st' \<and> sessions_ok st' \<and>
    sessions st' = (sessions st)[i := None] \<and> sess_at st' = (sess_at st)(q := None) \<and>
    hap_get_ctrl_session_index (Some q) st' = - 1 \<and>
    (\<forall>c \<in> db_chars d. \<forall>j < HAP_MAX_SESSIONS. hap_char_is_ctrl_subscribed (Some c) (int j) st' =
       map_option (\<lambda>b. b \<and> j \<noteq> i) (hap_char_is_ctrl_subscribed (Some c) (int j) st))"
proof -
  let ?st = "(upd_priv (\<lambda>p. p\<lparr>p_sessions := (p_sessions p)[i := None]\<rparr>)
      (clear_ev (2 ^ i) (db_chars d) st))\<lparr>sess_at := (sess_at st)(q := None)\<rparr>"
  have t: "sessions ?st = (sessions st)[i := None]" "sess_at ?st = (sess_at st)(q := None)"
    by (simp_all add: sessions_def upd_priv_def clear_ev_def)
  have ok: "sessions_ok ?st" by (rule sessions_ok_leave [OF assms(1,3,4) t])
  have "\<not> live_session ?st q" by (simp add: live_session_def)
  with ok have a: "Some q \<notin> set (sessions ?st)" unfolding sessions_ok_def by blast
  have "hap_char_is_ctrl_subscribed (Some c) (int j) ?st =
       map_option (\<lambda>b. b \<and> j \<noteq> i) (hap_char_is_ctrl_subscribed (Some c) (int j) st)" if "c \<in> db_chars d" "j < HAP_MAX_SESSIONS" for c j
    using assms(3) that by (cases "char_at st c")
      (auto simp: hap_char_is_ctrl_subscribed_def bit_mask16_Some HAP_MAX_SESSIONS_def clear_ev_def upd_priv_def mask16_test bits16_set)
  with free_session [OF assms] ok t session_index_absent(2) [OF ok a] show ?thesis by simp
qed

lemma boot_table: "sessions (boot_net\<lparr>priv := zero_priv\<lparr>p_sessions := t\<rparr>, sess_at := m\<rparr>) = t"
  by (simp add: sessions_def)

lemma session_table_remove_witness:
  "\<exists>st'. hap_free_session (Some 5) (boot_net\<lparr>priv := zero_priv\<lparr>p_sessions := None # Some 5 # replicate 6 None\<rparr>,
      sess_at := [5 \<mapsto> zero_session\<lparr>ss_ctrl := Some 3\<rparr>]\<rparr>) = Some st' \<and> sessions st' = replicate 8 None"
proof -
  let ?st = "boot_net\<lparr>priv := zero_priv\<lparr>p_sessions := None # Some 5 # replicate 6 None\<rparr>,
      sess_at := [5 \<mapsto> zero_session\<lparr>ss_ctrl := Some 3\<rparr>]\<rparr>"
  have t: "sessions ?st = None # Some 5 # replicate 6 None" by (rule boot_table)
  have "live_session ?st 5" by (simp add: live_session_def HAP_MAX_CONTROLLERS_def)
  then have ok: "sessions_ok ?st"
    by (intro sessions_okI) (auto simp: t HAP_MAX_SESSIONS_def nth_Cons' split: if_splits)
  have d: "db_tree ?st []" by (simp add: db_tree_def)
  have "session_at 1 ?st = Some 5" by (simp add: session_at_sessions t)
  from session_table_remove [OF ok d _ this] obtain st' where
    "hap_free_session (Some 5) ?st = Some st'" "sessions st' = (None # Some 5 # replicate 6 None)[1 := None]"
    unfolding t by (auto simp: HAP_MAX_SESSIONS_def)
  then show ?thesis by (simp add: eval_nat_numeral)
qed

section \<open>Closing sessions\<close>

definition ctrl_sockets :: "nat \<Rightarrow> ('n, 'h, 'w, 's) hap_net_scheme \<Rightarrow> ptr option list \<Rightarrow> int list" where
  "ctrl_sockets c st qs = [ss_conn_identifier (the (sess_at st q)).
     q \<leftarrow> map the (filter (\<lambda>q. q \<noteq> None) qs), ss_ctrl (the (sess_at st q)) = Some c]"

definition disconnect :: "nat \<Rightarrow> int list \<Rightarrow> ('n, 'h, 'w, 's) hap_net_scheme \<Rightarrow> ('n, 'h, 'w, 's) hap_net_scheme" where
  "disconnect c fds st = st\<lparr>
     reported := reported st @ map (\<lambda>_. (HAP_EVENT_CTRL_DISCONNECTED, info_id (ci_info (p_controllers (priv st) ! c)))) fds,
     world := fold (httpd_sess_trigger_close (httpd st)) fds (world st)\<rparr>"

lemma disconnect_simps [simp]:
  "disconnect c [] st = st" "sess_at (disconnect c fds st) = sess_at st" "priv (disconnect c fds st) = priv st"
  "disconnect c (fds @ fds') st = disconnect c fds' (disconnect c fds st)"
  by (simp_all add: disconnect_def)

lemma session_disconnect_eq:
  "sess_at st q = Some s \<Longrightarrow> session_disconnect q c st = Some (disconnect c [ss_conn_identifier s] st)"
  by (simp add: session_disconnect_def disconnect_def hap_report_event_def)

text \<open>All the sockets of the controller are closed, in the order of the table, and no other socket.\<close>

lemma close_sessions_of_ctrl:
  assumes "sessions_ok st"
  shows "hap_close_sessions_of_ctrl (Some c) st = Some (disconnect c (ctrl_sockets c st (sessions st)) st)"
proof -
  let ?f = "\<lambda>i st. case session_at i st of None \<Rightarrow> Some st | Some q \<Rightarrow> do {
      s \<leftarrow> sess_at st q; if ss_ctrl s = Some c then session_disconnect q c st else Some st }"
  have "for_each ?f is (disconnect c fds st) =
      Some (disconnect c (fds @ ctrl_sockets c st (map (\<lambda>i. sessions st ! i) is)) st)"
    if "\<forall>i \<in> set is. i < HAP_MAX_SESSIONS" for "is" fds
    using that
  proof (induction "is" arbitrary: fds)
    case (Cons i "is")
    show ?case
    proof (cases "sessions st ! i")
      case None
      with Cons show ?thesis by (simp add: session_at_def sessions_def ctrl_sockets_def)
    next
      case (Some q)
      have "Some q \<in> set (sessions st)" using Some Cons.prems assms by (auto simp: sessions_ok_def in_set_conv_nth)
      then obtain s where s: "sess_at st q = Some s" using assms unfolding sessions_ok_def live_session_def by blast
      show ?thesis
      proof (cases "ss_ctrl s = Some c")
        case True
        have "?f i (disconnect c fds st) = Some (disconnect c (fds @ [ss_conn_identifier s]) st)"
          using Some s True by (simp add: session_at_def sessions_def session_disconnect_eq)
        with Cons.IH [of "fds @ [ss_conn_identifier s]"] Cons.prems Some s True show ?thesis
          by (simp add: ctrl_sockets_def del: disconnect_simps)
      next
        case False
        with Cons Some s show ?thesis by (simp add: session_at_def sessions_def ctrl_sockets_def)
      qed
    qed
  qed (simp add: ctrl_sockets_def)
  note all = this [of "[0..<HAP_MAX_SESSIONS]" "[]"]
  have "map (\<lambda>i. sessions st ! i) [0..<HAP_MAX_SESSIONS] = sessions st"
    using assms map_nth [of "sessions st"] by (simp add: sessions_ok_def)
  with all show ?thesis by (simp add: hap_close_sessions_of_ctrl_def)
qed

text \<open>The ninth session: when the table is full and the session is not in it, its index is -1 and
  subscribing it or marking it as the owner of a change shifts by a negative amount.\<close>

theorem session_table_full:
  assumes "sessions_ok st" "None \<notin> set (sessions st)" "Some q \<notin> set (sessions st)" "sess_at st q = Some s" "ss_ctrl s = Some c"
  shows "\<exists>st'. hap_add_secure_session q st = Some st' \<and>
    hap_char_manage_notification hc (hap_get_ctrl_session_index (Some q) st') ev st' = None \<and>
    hap_char_set_owner_ctrl hc (hap_get_ctrl_session_index (Some q) st') st' = None"
proof -
  have "find (\<lambda>i. session_at i st = None) [0..<HAP_MAX_SESSIONS] = None"
    using in_sessions_iff [OF assms(1)] assms(2) by (auto simp: find_upt_None)
  then have "hap_add_secure_session q st = Some st" using add_secure_session [OF assms(1,4,5)] by simp
  then show ?thesis using session_index_absent(2) [OF assms(1,3)]
    by (simp add: hap_char_manage_notification_def hap_char_set_owner_ctrl_def bit_mask16_def)
qed

lemma session_table_full_witness:
  "\<exists>(st :: (kv, string \<times> string, streams) hap_net) st'. hap_add_secure_session 9 st = Some st' \<and>
    hap_char_manage_notification None (hap_get_ctrl_session_index (Some 9) st') True st' = None"
proof -
  let ?st = "boot_net\<lparr>priv := zero_priv\<lparr>p_sessions := map Some [0..<8]\<rparr>,
      sess_at := \<lambda>_. Some (zero_session\<lparr>ss_ctrl := Some 3\<rparr>)\<rparr>"
  have t: "sessions ?st = map Some [0..<8]" by (rule boot_table)
  have ok: "sessions_ok ?st"
    by (intro sessions_okI) (simp_all add: t HAP_MAX_SESSIONS_def live_session_def HAP_MAX_CONTROLLERS_def)
  have "\<exists>st'. hap_add_secure_session 9 ?st = Some st' \<and>
    hap_char_manage_notification None (hap_get_ctrl_session_index (Some 9) st') True st' = None"
    using session_table_full [OF ok, of 9 "zero_session\<lparr>ss_ctrl := Some 3\<rparr>" 3 None True] by (fastforce simp: t)
  then show ?thesis by blast
qed

end
