(* ===== verification/Network_Io.thy ===== *)
theory Network_Io
  imports Hap_Session Byte_Convert
begin

text \<open>
  The encrypted transport (\<open>esp_hap_network_io.c\<close>): the send and receive functions of the HTTP
  server on a socket whose session is verified. A frame is two bytes of length, the encrypted data
  and a tag of 16 bytes; every frame of a direction is encrypted under the next nonce.

  \<open>recv\<close> and \<open>send\<close> are those of \<open>httpd_api\<close>, with what they return and write. The buffers of the
  code are blocks of their size: a frame to send has 1042 bytes (length, data and tag are adjacent
  members), the data of the frame that is received 1040.
\<close>

section \<open>The code\<close>

definition HAP_MAX_NW_FRAME_SIZE :: int where "HAP_MAX_NW_FRAME_SIZE = 1024"
definition AUTH_TAG_LEN :: nat where "AUTH_TAG_LEN = 16"

definition zero_encrypt_frame :: "byte list" where
  "zero_encrypt_frame = replicate (2 + nat HAP_MAX_NW_FRAME_SIZE + AUTH_TAG_LEN) 0"

definition hap_httpd_raw_recv ::
    "int \<Rightarrow> nat \<Rightarrow> ('n, 'h, 'w, 's) hap_net_scheme \<Rightarrow> int \<times> byte list \<times> ('n, 'h, 'w, 's) hap_net_scheme" where
  "hap_httpd_raw_recv sock buf_size st =
     (case sock_recv (httpd st) sock buf_size 0 (world st) of (r, bs, w) \<Rightarrow> (r, bs, st\<lparr>world := w\<rparr>))"

text \<open>The increment of a nonce: \<open>get_u64_le\<close>, \<open>++\<close>, \<open>put_u64_le\<close>.\<close>

definition next_nonce :: "byte list \<Rightarrow> byte list option" where
  "next_nonce nonce = do { int_nonce \<leftarrow> get_u64_le nonce; put_u64_le nonce (int_nonce + 1) }"

definition hap_encrypt_data ::
    "byte list \<Rightarrow> ptr option \<Rightarrow> byte list \<Rightarrow> int \<Rightarrow> ('n, 'h, 'w, 's) hap_net_scheme \<Rightarrow>
     (int \<times> byte list \<times> ('n, 'h, 'w, 's) hap_net_scheme) option" where
  "hap_encrypt_data frame session buf buflen st = (case session of
       None \<Rightarrow> Some (HAP_FAIL, frame, st)
     | Some q \<Rightarrow> do {
         s \<leftarrow> sess_at st q;
         frame \<leftarrow> put_u16_le frame (of_int buflen);
         msg \<leftarrow> rd_block buf 0 buflen;
         let newnonce = replicate 4 0 @ ss_encrypt_nonce s;
         let (c, tag) = aead_encrypt (crypto st) (ss_encrypt_key s) newnonce (take 2 frame) msg;
         frame \<leftarrow> wr_block frame 2 c;
         frame \<leftarrow> wr_block frame (2 + buflen) tag;
         nonce \<leftarrow> next_nonce (ss_encrypt_nonce s);
         st \<leftarrow> upd_sess q (\<lambda>s. s\<lparr>ss_encrypt_nonce := nonce\<rparr>) st;
         Some (2 + buflen + 16, frame, st) })"

definition hap_session_error ::
    "ptr option \<Rightarrow> ('n, 'h, 'w, 's) hap_net_scheme \<Rightarrow> (int \<times> ('n, 'h, 'w, 's) hap_net_scheme) option" where
  "hap_session_error session st = (case session of
       None \<Rightarrow> Some (HAP_FAIL, st)
     | Some q \<Rightarrow> do {
         st \<leftarrow> upd_sess q (\<lambda>s. s\<lparr>ss_state := STATE_INVALID\<rparr>) st;
         st \<leftarrow> hap_close_session (Some q) st;
         Some (HAP_FAIL, st) })"

text \<open>
  The loop that reads data and tag; the result is False when \<open>read_fn\<close> gave nothing. The counters
  are \<open>uint16_t\<close>.
\<close>

partial_function (option) decrypt_read_loop ::
    "(nat \<Rightarrow> 'st \<Rightarrow> int \<times> byte list \<times> 'st) \<Rightarrow> u16 \<Rightarrow> hap_decrypt_frame \<Rightarrow> 'st \<Rightarrow>
     (bool \<times> hap_decrypt_frame \<times> 'st) option" where
  "decrypt_read_loop read_fn bytes_to_read frame st =
     (if bytes_to_read = 0 then Some (True, frame, st)
      else case read_fn (unat bytes_to_read) st of (num_bytes, bs, st) \<Rightarrow> do {
        data \<leftarrow> wr_block (df_data frame) (uint (df_bytes_read frame)) bs;
        let frame = frame\<lparr>df_data := data\<rparr>;
        if num_bytes \<le> 0 then Some (False, frame, st)
        else decrypt_read_loop read_fn (bytes_to_read - of_int num_bytes)
          (frame\<lparr>df_bytes_read := df_bytes_read frame + of_int num_bytes\<rparr>) st })"

declare decrypt_read_loop.simps [code]

text \<open>A frame that could not be read or decrypted: the session ends. The frame stays as it is.\<close>

definition decrypt_fail ::
    "ptr \<Rightarrow> hap_decrypt_frame \<Rightarrow> ('n, 'h, 'w, 's) hap_net_scheme \<Rightarrow>
     (int \<times> hap_decrypt_frame \<times> ('n, 'h, 'w, 's) hap_net_scheme) option" where
  "decrypt_fail q frame st = do { (r, st) \<leftarrow> hap_session_error (Some q) st; Some (r, frame, st) }"

text \<open>Reading and decrypting one frame in place; the result is 0 when it succeeds.\<close>

definition decrypt_frame_data ::
    "(nat \<Rightarrow> ('n, 'h, 'w, 's) hap_net_scheme \<Rightarrow> int \<times> byte list \<times> ('n, 'h, 'w, 's) hap_net_scheme) \<Rightarrow> ptr \<Rightarrow>
     hap_decrypt_frame \<Rightarrow> ('n, 'h, 'w, 's) hap_net_scheme \<Rightarrow>
     (int \<times> hap_decrypt_frame \<times> ('n, 'h, 'w, 's) hap_net_scheme) option" where
  "decrypt_frame_data read_fn q frame st = (case read_fn 2 st of (r, bs, st) \<Rightarrow> do {
     data \<leftarrow> wr_block (df_data frame) 0 bs;
     let frame = frame\<lparr>df_data := data\<rparr>;
     if r < 2 then decrypt_fail q frame st
     else do {
       pkt_size \<leftarrow> get_u16_le (df_data frame);
       let frame = frame\<lparr>df_pkt_size := pkt_size, df_bytes_read := 0\<rparr>;
       (ok, frame, st) \<leftarrow> decrypt_read_loop read_fn (df_pkt_size frame + of_nat AUTH_TAG_LEN) frame st;
       if \<not> ok then decrypt_fail q frame st
       else do {
         let frame = frame\<lparr>df_bytes_read := df_bytes_read frame - of_nat AUTH_TAG_LEN\<rparr>;
         aad \<leftarrow> put_u16_le [0, 0] (df_pkt_size frame);
         s \<leftarrow> sess_at st q;
         let newnonce = replicate 4 0 @ ss_decrypt_nonce s;
         c \<leftarrow> rd_block (df_data frame) 0 (uint (df_pkt_size frame));
         tag \<leftarrow> rd_block (df_data frame) (uint (df_bytes_read frame)) 16;
         case aead_decrypt (crypto st) (ss_decrypt_key s) newnonce aad c tag of
           None \<Rightarrow> decrypt_fail q frame st
         | Some m \<Rightarrow> do {
             data \<leftarrow> wr_block (df_data frame) 0 m;
             let frame = frame\<lparr>df_data := data, df_bytes_read := 0\<rparr>;
             nonce \<leftarrow> next_nonce (ss_decrypt_nonce s);
             st \<leftarrow> upd_sess q (\<lambda>s. s\<lparr>ss_decrypt_nonce := nonce\<rparr>) st;
             Some (0, frame, st) } } } })"

text \<open>The bytes of the result are what is written to \<open>buf\<close>.\<close>

definition hap_decrypt_data ::
    "hap_decrypt_frame \<Rightarrow> ptr option \<Rightarrow> int \<Rightarrow>
     (nat \<Rightarrow> ('n, 'h, 'w, 's) hap_net_scheme \<Rightarrow> int \<times> byte list \<times> ('n, 'h, 'w, 's) hap_net_scheme) \<Rightarrow>
     ('n, 'h, 'w, 's) hap_net_scheme \<Rightarrow>
     (int \<times> byte list \<times> hap_decrypt_frame \<times> ('n, 'h, 'w, 's) hap_net_scheme) option" where
  "hap_decrypt_data frame session buf_size read_fn st = (case session of
       None \<Rightarrow> Some (- 1, [], frame, st)
     | Some q \<Rightarrow> do {
         let frame = (if df_session frame \<noteq> session then zero_frame\<lparr>df_session := session\<rparr> else frame);
         (r, frame, st) \<leftarrow> (if uint (df_pkt_size frame) - uint (df_bytes_read frame) = 0
           then decrypt_frame_data read_fn q frame st else Some (0, frame, st));
         if r \<noteq> 0 then Some (r, [], frame, st)
         else do {
           let bytes = min (uint (df_pkt_size frame) - uint (df_bytes_read frame)) buf_size;
           bs \<leftarrow> rd_block (df_data frame) (uint (df_bytes_read frame)) bytes;
           Some (bytes, bs, frame\<lparr>df_bytes_read := df_bytes_read frame + of_int bytes\<rparr>, st) } })"

function send_loop ::
    "int \<Rightarrow> ptr \<Rightarrow> int \<Rightarrow> int \<Rightarrow> byte list \<Rightarrow> ('n, 'h, 'w, 's) hap_net_scheme \<Rightarrow>
     (bool \<times> ('n, 'h, 'w, 's) hap_net_scheme) option" where
  "send_loop sockfd q flags tmp_buf_len buf_ptr st =
     (if tmp_buf_len = 0 then Some (True, st)
      else do {
        let len = min tmp_buf_len HAP_MAX_NW_FRAME_SIZE;
        (send_len, encrypt_frame, st) \<leftarrow> hap_encrypt_data zero_encrypt_frame (Some q) buf_ptr len st;
        out \<leftarrow> rd_block encrypt_frame 0 send_len;
        let (r, w) = sock_send (httpd st) sockfd out flags (world st);
        let st = st\<lparr>world := w\<rparr>;
        if r \<le> 0 then Some (False, st)
        else send_loop sockfd q flags (tmp_buf_len - len) (drop (nat len) buf_ptr) st })"
  by pat_completeness auto
termination
  by (relation "measure (\<lambda>(_, _, _, n, _, _). nat \<bar>n\<bar>)") (auto simp: HAP_MAX_NW_FRAME_SIZE_def min_def split: if_splits)

declare send_loop.simps [simp del]

definition hap_httpd_send ::
    "int \<Rightarrow> byte list \<Rightarrow> int \<Rightarrow> int \<Rightarrow> ('n, 'h, 'w, 's) hap_net_scheme \<Rightarrow> (int \<times> ('n, 'h, 'w, 's) hap_net_scheme) option" where
  "hap_httpd_send sockfd buf buf_len flags st = do {
     let session = httpd_sess_get_ctx (httpd st) sockfd (world st);
     secure \<leftarrow> (case session of None \<Rightarrow> Some False | Some q \<Rightarrow> map_option (\<lambda>s. s = STATE_VERIFIED) (ctx_state q st));
     if secure then do {
       q \<leftarrow> session;
       (ok, st) \<leftarrow> send_loop sockfd q flags buf_len buf st;
       Some (if ok then buf_len else HAP_FAIL, st) }
     else do {
       out \<leftarrow> rd_block buf 0 buf_len;
       let (r, w) = sock_send (httpd st) sockfd out flags (world st);
       Some (r, st\<lparr>world := w\<rparr>) } }"

text \<open>Without a session the socket is passed as the flags of \<open>recv\<close>.\<close>

definition hap_httpd_recv ::
    "int \<Rightarrow> nat \<Rightarrow> ('n, 'h, 'w, 's) hap_net_scheme \<Rightarrow> (int \<times> byte list \<times> ('n, 'h, 'w, 's) hap_net_scheme) option" where
  "hap_httpd_recv sockfd buf_len st =
     (case httpd_sess_get_ctx (httpd st) sockfd (world st) of
        Some q \<Rightarrow> do {
          s \<leftarrow> ctx_state q st;
          if s = STATE_VERIFIED then do {
            (r, bs, frame, st) \<leftarrow> hap_decrypt_data (decrypt_frame st) (Some q) (int buf_len) (hap_httpd_raw_recv sockfd) st;
            Some (r, bs, st\<lparr>decrypt_frame := frame\<rparr>) }
          else Some (HAP_FAIL, [], st) }
      | None \<Rightarrow> (case sock_recv (httpd st) sockfd buf_len sockfd (world st) of
          (r, bs, w) \<Rightarrow> Some (r, bs, st\<lparr>world := w\<rparr>)))"

section \<open>What goes over the wire\<close>

text \<open>The documented behaviour of the AEAD: sizes, and decryption inverts encryption.\<close>

definition aead_lawful :: "hap_crypto \<Rightarrow> bool" where
  "aead_lawful cr \<longleftrightarrow> (\<forall>k n ad m c t. aead_encrypt cr k n ad m = (c, t) \<longrightarrow>
       length c = length m \<and> length t = 16 \<and> aead_decrypt cr k n ad c t = Some m) \<and>
     (\<forall>k n ad c t m. aead_decrypt cr k n ad c t = Some m \<longrightarrow> length m = length c)"

text \<open>The frame of one piece of at most 1024 bytes, and the nonces in their order.\<close>

definition frame_bytes :: "hap_crypto \<Rightarrow> byte list \<Rightarrow> byte list \<Rightarrow> byte list \<Rightarrow> byte list" where
  "frame_bytes cr k nonce m = (let n = le_bytes 2 (of_nat (length m) :: u16);
       (c, t) = aead_encrypt cr k (replicate 4 0 @ nonce) n m in n @ c @ t)"

definition nonce_inc :: "byte list \<Rightarrow> byte list" where
  "nonce_inc nonce = le_bytes 8 (of_nat (le_val nonce + 1) :: u64)"

primrec frames :: "hap_crypto \<Rightarrow> byte list \<Rightarrow> byte list \<Rightarrow> byte list list \<Rightarrow> byte list list" where
  "frames cr k nonce [] = []"
| "frames cr k nonce (m # ms) = frame_bytes cr k nonce m # frames cr k (nonce_inc nonce) ms"

function pieces :: "byte list \<Rightarrow> byte list list" where
  "pieces m = (if m = [] then [] else take 1024 m # pieces (drop 1024 m))"
  by pat_completeness auto
termination by (relation "measure length") auto

declare pieces.simps [simp del]

lemma concat_pieces: "concat (pieces m) = m"
  by (induction m rule: pieces.induct) (subst pieces.simps, simp)

lemma pieces_size: "p \<in> set (pieces m) \<Longrightarrow> p \<noteq> [] \<and> length p \<le> 1024"
proof (induction m rule: pieces.induct)
  case (1 m)
  have "p \<in> set (if m = [] then [] else take 1024 m # pieces (drop 1024 m))"
    using 1(2) by (subst (asm) pieces.simps)
  then have "m \<noteq> []" "p = take 1024 m \<or> p \<in> set (pieces (drop 1024 m))" by (auto split: if_splits)
  with 1(1) show ?case by auto
qed

lemma next_nonce_inc: "length nonce = 8 \<Longrightarrow> next_nonce nonce = Some (nonce_inc nonce)"
  by (simp add: next_nonce_def nonce_inc_def get_u64_le_val put_u64_bytes ac_simps)

lemma length_nonce_inc [simp]: "length (nonce_inc nonce) = 8"
  by (simp add: nonce_inc_def)

text \<open>The frames handed to \<open>send\<close> one after the other, until one of them fails.\<close>

primrec send_frames ::
    "'w httpd_api \<Rightarrow> hap_crypto \<Rightarrow> int \<Rightarrow> int \<Rightarrow> byte list \<Rightarrow> byte list list \<Rightarrow> byte list \<Rightarrow> 'w \<Rightarrow> bool \<times> byte list \<times> 'w" where
  "send_frames api cr fd flags k [] nonce w = (True, nonce, w)"
| "send_frames api cr fd flags k (m # ms) nonce w =
     (case sock_send api fd (frame_bytes cr k nonce m) flags w of (r, w) \<Rightarrow>
        if r \<le> 0 then (False, nonce_inc nonce, w)
        else send_frames api cr fd flags k ms (nonce_inc nonce) w)"

lemma encrypt_data:
  assumes "aead_lawful (crypto st)" "sess_at st q = Some s" "length (ss_encrypt_nonce s) = 8" "n \<le> length buf" "n \<le> 1024"
  shows "\<exists>fr. hap_encrypt_data zero_encrypt_frame (Some q) buf (int n) st =
      Some (2 + int n + 16, fr, st\<lparr>sess_at := (sess_at st)(q \<mapsto> s\<lparr>ss_encrypt_nonce := nonce_inc (ss_encrypt_nonce s)\<rparr>)\<rparr>) \<and>
    rd_block fr 0 (2 + int n + 16) = Some (frame_bytes (crypto st) (ss_encrypt_key s) (ss_encrypt_nonce s) (take n buf))"
proof -
  obtain c t where ct: "aead_encrypt (crypto st) (ss_encrypt_key s) (replicate 4 0 @ ss_encrypt_nonce s)
      (le_bytes 2 (of_nat n :: u16)) (take n buf) = (c, t)" by fastforce
  have l: "length c = n" "length t = 16" using assms(1,4) ct unfolding aead_lawful_def by fastforce+
  have z: "zero_encrypt_frame = [0, 0] @ replicate n 0 @ replicate 16 0 @ replicate (1024 - n) 0"
    using assms(5) by (simp add: zero_encrypt_frame_def HAP_MAX_NW_FRAME_SIZE_def AUTH_TAG_LEN_def
      replicate_add [symmetric] flip: replicate_Suc)
  let ?h = "le_bytes 2 (of_nat n :: u16)" and ?r = "replicate (1024 - n) (0 :: byte)"
  have 1: "put_u16_le zero_encrypt_frame (of_int (int n)) = Some (?h @ replicate n 0 @ replicate 16 0 @ ?r)"
    unfolding z by (simp add: put_u16_bytes)
  have 2: "wr_block (?h @ replicate n 0 @ replicate 16 0 @ ?r) 2 c = Some (?h @ c @ replicate 16 0 @ ?r)"
    using wr_block_mid [of "replicate n 0" c ?h "replicate 16 0 @ ?r"] l by simp
  have 3: "wr_block (?h @ c @ replicate 16 0 @ ?r) (2 + int n) t = Some (?h @ c @ t @ ?r)"
    using wr_block_mid [of "replicate 16 0" t "?h @ c" ?r] l by simp
  have 4: "rd_block (?h @ c @ t @ ?r) 0 (2 + int n + 16) = Some (?h @ c @ t)"
    using rd_block_append [of "[]" "?h @ c @ t" ?r] l by (simp add: ac_simps)
  have m: "rd_block buf 0 (int n) = Some (take n buf)" using assms(4) by (simp add: rd_block_def)
  show ?thesis
    using 1 2 3 4 m assms(2-4) ct by (simp add: hap_encrypt_data_def next_nonce_inc upd_sess_def frame_bytes_def)
qed

lemma send_loop_frames:
  assumes "aead_lawful (crypto st)" "sess_at st q = Some s" "length (ss_encrypt_nonce s) = 8"
  shows "send_loop fd q flags (int (length buf)) buf st =
    (case send_frames (httpd st) (crypto st) fd flags (ss_encrypt_key s) (pieces buf) (ss_encrypt_nonce s) (world st) of
       (ok, nonce, w) \<Rightarrow> Some (ok, st\<lparr>sess_at := (sess_at st)(q \<mapsto> s\<lparr>ss_encrypt_nonce := nonce\<rparr>), world := w\<rparr>))"
  using assms
proof (induction buf arbitrary: st s rule: pieces.induct)
  case (1 buf)
  show ?case
  proof (cases "buf = []")
    case True
    have "s\<lparr>ss_encrypt_nonce := ss_encrypt_nonce s\<rparr> = s" by simp
    moreover have "(sess_at st)(q \<mapsto> s) = sess_at st" using 1(3) by auto
    ultimately show ?thesis using True by (simp add: pieces.simps send_loop.simps del: fun_upd_apply)
  next
    case False
    let ?n = "min (length buf) 1024"
    let ?s = "s\<lparr>ss_encrypt_nonce := nonce_inc (ss_encrypt_nonce s)\<rparr>"
    let ?st = "st\<lparr>sess_at := (sess_at st)(q \<mapsto> ?s)\<rparr>"
    let ?f = "frame_bytes (crypto st) (ss_encrypt_key s) (ss_encrypt_nonce s) (take 1024 buf)"
    obtain r w where rw: "sock_send (httpd st) fd ?f flags (world st) = (r, w)" by fastforce
    obtain fr where fr: "hap_encrypt_data zero_encrypt_frame (Some q) buf (int ?n) st = Some (2 + int ?n + 16, fr, ?st)"
      "rd_block fr 0 (2 + int ?n + 16) = Some ?f"
    proof -
      have "take ?n buf = take 1024 buf" by (simp add: min_def)
      with encrypt_data [OF 1(2-4), of ?n buf] that show thesis by auto
    qed
    have n: "min (int (length buf)) HAP_MAX_NW_FRAME_SIZE = int ?n" by (simp add: HAP_MAX_NW_FRAME_SIZE_def)
    have d: "drop ?n buf = drop 1024 buf" "int (length buf) - int ?n = int (length (drop 1024 buf))"
      by (simp_all add: min_def of_nat_diff)
    have step: "send_loop fd q flags (int (length buf)) buf st =
        (if r \<le> 0 then Some (False, ?st\<lparr>world := w\<rparr>)
         else send_loop fd q flags (int (length (drop 1024 buf))) (drop 1024 buf) (?st\<lparr>world := w\<rparr>))"
      using False rw by (subst send_loop.simps) (simp only: n fr bind.bind_lunit d nat_int Let_def prod.case, simp)
    have p: "pieces buf = take 1024 buf # pieces (drop 1024 buf)" using False by (subst pieces.simps) simp
    show ?thesis
    proof (cases "r \<le> 0")
      case True
      with step rw p show ?thesis by (simp del: fun_upd_apply)
    next
      case r: False
      have "send_loop fd q flags (int (length (drop 1024 buf))) (drop 1024 buf) (?st\<lparr>world := w\<rparr>) =
        (case send_frames (httpd st) (crypto st) fd flags (ss_encrypt_key s) (pieces (drop 1024 buf)) (nonce_inc (ss_encrypt_nonce s)) w of
         (ok, nonce, w') \<Rightarrow> Some (ok, st\<lparr>sess_at := (sess_at st)(q \<mapsto> s\<lparr>ss_encrypt_nonce := nonce\<rparr>), world := w'\<rparr>))"
        using 1(1) [OF False, of "?st\<lparr>world := w\<rparr>" ?s] 1(2) by (simp add: fun_upd_same del: fun_upd_apply)
      with step r rw p show ?thesis by (simp del: fun_upd_apply)
    qed
  qed
qed

lemma ctx_state_sess: "sess_at st q = Some s \<Longrightarrow> ctx_state q st = Some (ss_state s)"
  by (simp add: ctx_state_def)

text \<open>C31: Sending on a verified session cuts the data into pieces of at most 1024 bytes and hands to
  the socket one frame per piece, encrypted under the session key and successive nonces, until
  the socket fails; the result is the length of the data or the failure, and nothing of the
  state changes but the nonce of the session and the socket.\<close>

theorem hap_httpd_send_correct:
  assumes "aead_lawful (crypto st)" "httpd_sess_get_ctx (httpd st) fd (world st) = Some q"
    and "sess_at st q = Some s" "ss_state s = STATE_VERIFIED" "length (ss_encrypt_nonce s) = 8"
  shows "hap_httpd_send fd buf (int (length buf)) flags st =
      (case send_frames (httpd st) (crypto st) fd flags (ss_encrypt_key s) (pieces buf) (ss_encrypt_nonce s) (world st) of
         (ok, nonce, w) \<Rightarrow> Some (if ok then int (length buf) else HAP_FAIL,
            st\<lparr>sess_at := (sess_at st)(q \<mapsto> s\<lparr>ss_encrypt_nonce := nonce\<rparr>), world := w\<rparr>)) \<and>
    concat (pieces buf) = buf \<and> (\<forall>p \<in> set (pieces buf). p \<noteq> [] \<and> length p \<le> 1024)"
proof (intro conjI)
  show "hap_httpd_send fd buf (int (length buf)) flags st =
      (case send_frames (httpd st) (crypto st) fd flags (ss_encrypt_key s) (pieces buf) (ss_encrypt_nonce s) (world st) of
         (ok, nonce, w) \<Rightarrow> Some (if ok then int (length buf) else HAP_FAIL,
            st\<lparr>sess_at := (sess_at st)(q \<mapsto> s\<lparr>ss_encrypt_nonce := nonce\<rparr>), world := w\<rparr>))"
    using assms(2,4) send_loop_frames [OF assms(1,3,5), of fd flags buf] ctx_state_sess [OF assms(3)]
    by (simp add: hap_httpd_send_def split: prod.splits del: fun_upd_apply)
qed (use concat_pieces pieces_size in blast)+

lemma demo_aead_lawful: "aead_lawful demo_crypto"
  by (simp add: aead_lawful_def demo_crypto_def sum_tag_def)

lemma hap_httpd_send_correct_witness:
  "\<exists>st'. hap_httpd_send 5 [1, 2, 3] 3 0 (boot_net\<lparr>sess_at := [5 \<mapsto> zero_session\<lparr>ss_state := STATE_VERIFIED\<rparr>]\<rparr>) = Some (3, st') \<and>
    fst (snd (world st')) 5 = frame_bytes demo_crypto (ss_encrypt_key zero_session) (ss_encrypt_nonce zero_session) [1, 2, 3]"
proof -
  let ?s = "zero_session\<lparr>ss_state := STATE_VERIFIED\<rparr>"
  let ?st = "boot_net\<lparr>sess_at := [5 \<mapsto> ?s]\<rparr>"
  have p: "pieces [1, 2, 3 :: byte] = [[1, 2, 3]]" by (simp add: pieces.simps)
  have n: "length (ss_encrypt_nonce ?s) = 8" by (simp add: zero_session_def NONCE_LEN_def)
  have c: "httpd_sess_get_ctx (httpd ?st) 5 (world ?st) = Some 5" by (simp add: stream_httpd_def)
  have l: "aead_lawful (crypto ?st)" by (simp add: demo_aead_lawful)
  have "hap_httpd_send 5 [1, 2, 3] (int (length [1, 2, 3 :: byte])) 0 ?st =
      (case send_frames (httpd ?st) (crypto ?st) 5 0 (ss_encrypt_key ?s) (pieces [1, 2, 3]) (ss_encrypt_nonce ?s) (world ?st) of
         (ok, nonce, w) \<Rightarrow> Some (if ok then int (length [1, 2, 3 :: byte]) else HAP_FAIL,
            ?st\<lparr>sess_at := (sess_at ?st)(5 \<mapsto> ?s\<lparr>ss_encrypt_nonce := nonce\<rparr>), world := w\<rparr>))"
    by (rule hap_httpd_send_correct [OF l c _ _ n, THEN conjunct1]) simp_all
  moreover have "send_frames (httpd ?st) (crypto ?st) 5 0 (ss_encrypt_key ?s) (pieces [1, 2, 3]) (ss_encrypt_nonce ?s) (world ?st) =
     (True, nonce_inc (ss_encrypt_nonce zero_session), (\<lambda>_. [], (\<lambda>_. [])(5 := frame_bytes demo_crypto (ss_encrypt_key zero_session) (ss_encrypt_nonce zero_session) [1, 2, 3]), []))"
  proof -
    have "0 < length (frame_bytes demo_crypto k n [1, 2, 3])" for k n
      by (simp add: frame_bytes_def Let_def demo_crypto_def)
    then show ?thesis unfolding p by (simp add: stream_httpd_def)
  qed
  ultimately show ?thesis by simp
qed

section \<open>Receiving frames\<close>

text \<open>
  A stream socket: \<open>recv\<close> takes from the bytes that have arrived, at least one and at most what
  was asked for, and the context of the socket stays. The last condition is what the code
  relies on when it reads the two bytes of the length with one call.
\<close>

definition stream_lawful :: "'w httpd_api \<Rightarrow> int \<Rightarrow> ('w \<Rightarrow> byte list) \<Rightarrow> bool" where
  "stream_lawful api fd inp \<longleftrightarrow> (\<forall>n flags w. 0 < n \<and> inp w \<noteq> [] \<longrightarrow>
     (\<exists>k w'. sock_recv api fd n flags w = (int k, take k (inp w), w') \<and> 0 < k \<and> k \<le> n \<and> k \<le> length (inp w) \<and>
        inp w' = drop k (inp w) \<and> httpd_sess_get_ctx api fd w' = httpd_sess_get_ctx api fd w \<and>
        (n = 2 \<and> 2 \<le> length (inp w) \<longrightarrow> k = 2)))"

lemma stream_recv:
  assumes "stream_lawful api fd inp" "0 < n" "inp w \<noteq> []"
  obtains k w' where "sock_recv api fd n flags w = (int k, take k (inp w), w')" "0 < k" "k \<le> n" "k \<le> length (inp w)"
    "inp w' = drop k (inp w)" "httpd_sess_get_ctx api fd w' = httpd_sess_get_ctx api fd w"
    "n = 2 \<Longrightarrow> 2 \<le> length (inp w) \<Longrightarrow> k = 2"
  using assms unfolding stream_lawful_def by blast

lemma wr_block_at:
  "length xs = n \<Longrightarrow> b + length ys \<le> n \<Longrightarrow> wr_block xs (int b) ys = Some (take b xs @ ys @ drop (b + length ys) xs)"
  by (auto simp: wr_block_def)

lemma read_loop_stream:
  assumes "stream_lawful (httpd st) fd inp" "inp (world st) = d @ rest" "length (df_data f) = 1040"
    "unat (df_bytes_read f) = b" "b + length d \<le> 1040"
  shows "\<exists>w. decrypt_read_loop (hap_httpd_raw_recv fd) (of_nat (length d)) f st =
      Some (True, f\<lparr>df_data := take b (df_data f) @ d @ drop (b + length d) (df_data f),
          df_bytes_read := df_bytes_read f + of_nat (length d)\<rparr>, st\<lparr>world := w\<rparr>) \<and>
    inp w = rest \<and> httpd_sess_get_ctx (httpd st) fd w = httpd_sess_get_ctx (httpd st) fd (world st)"
  using assms
proof (induction "length d" arbitrary: d f st b rule: less_induct)
  case less
  show ?case
  proof (cases "d = []")
    case True
    have "decrypt_read_loop (hap_httpd_raw_recv fd) (of_nat (length d)) f st = Some (True, f, st\<lparr>world := world st\<rparr>)"
      using True by (subst decrypt_read_loop.simps) simp
    with True less.prems(2) show ?thesis by (intro exI [of _ "world st"]) simp
  next
    case False
    have n: "unat (of_nat (length d) :: u16) = length d"
      using less.prems(5) by (simp add: unat_of_nat take_bit_eq_mod unsigned_of_nat)
    obtain k w' where k: "sock_recv (httpd st) fd (length d) 0 (world st) = (int k, take k (d @ rest), w')" "0 < k" "k \<le> length d"
      "inp w' = drop k (d @ rest)" "httpd_sess_get_ctx (httpd st) fd w' = httpd_sess_get_ctx (httpd st) fd (world st)"
      by (rule stream_recv [OF less.prems(1), of "length d" "world st" 0]) (use False less.prems(2) in auto)
    have t: "take k (d @ rest) = take k d" "drop k (d @ rest) = drop k d @ rest" using k(3) by auto
    let ?data = "take b (df_data f) @ take k d @ drop (b + k) (df_data f)"
    let ?f = "f\<lparr>df_data := ?data, df_bytes_read := df_bytes_read f + of_nat k\<rparr>"
    have wr: "wr_block (df_data f) (uint (df_bytes_read f)) (take k d) = Some ?data"
      using wr_block_at [of "df_data f" 1040 b "take k d"] less.prems(3-5) k(3) by (simp add: uint_nat min_def)
    have nz: "(of_nat (length d) :: u16) \<noteq> 0" using n False by (metis length_0_conv unsigned_0)
    have sub: "(of_nat (length d) - of_nat k :: u16) = of_nat (length d - k)" using k(3) by (simp add: of_nat_diff)
    have step: "decrypt_read_loop (hap_httpd_raw_recv fd) (of_nat (length d)) f st =
        decrypt_read_loop (hap_httpd_raw_recv fd) (of_nat (length (drop k d))) ?f (st\<lparr>world := w'\<rparr>)"
      using nz k(1) [unfolded t(1)] k(2) wr n by (subst decrypt_read_loop.simps) (simp add: hap_httpd_raw_recv_def sub)
    have b: "unat (df_bytes_read ?f) = b + k"
      using less.prems(4,5) k(3) by (simp add: unat_word_ariths unat_of_nat unsigned_of_nat take_bit_eq_mod)
    obtain w where w: "decrypt_read_loop (hap_httpd_raw_recv fd) (of_nat (length (drop k d))) ?f (st\<lparr>world := w'\<rparr>) =
        Some (True, ?f\<lparr>df_data := take (b + k) ?data @ drop k d @ drop (b + k + length (drop k d)) ?data,
          df_bytes_read := df_bytes_read ?f + of_nat (length (drop k d))\<rparr>, st\<lparr>world := w\<rparr>)" "inp w = rest"
        "httpd_sess_get_ctx (httpd st) fd w = httpd_sess_get_ctx (httpd st) fd w'"
      using less.hyps [of "drop k d" "st\<lparr>world := w'\<rparr>" ?f "b + k"] False less.prems(1,3,5) k(2-4) t(2) b by auto
    have e: "take k d @ drop k d @ z = d @ z" for z by (metis append_take_drop_id append.assoc)
    have "take (b + k) ?data @ drop k d @ drop (b + k + length (drop k d)) ?data =
        take b (df_data f) @ d @ drop (b + length d) (df_data f)"
      using less.prems(3,5) k(3) by (simp add: min_def e ac_simps)
    moreover have "df_bytes_read f + of_nat k + of_nat (length (drop k d)) = df_bytes_read f + of_nat (length d)"
      using k(3) by (simp add: of_nat_diff)
    ultimately show ?thesis using step w k(5) by (intro exI [of _ w]) simp
  qed
qed

lemma decrypt_frame_stream:
  assumes cr: "aead_lawful (crypto st)" and st: "stream_lawful (httpd st) fd inp"
    and inp: "inp (world st) = frame_bytes (crypto st) (ss_decrypt_key s) (ss_decrypt_nonce s) m @ rest"
    and s: "sess_at st q = Some s" "length (ss_decrypt_nonce s) = 8" and m: "length m \<le> 1024" and f: "length (df_data f) = 1040"
  shows "\<exists>w data. decrypt_frame_data (hap_httpd_raw_recv fd) q f st =
      Some (0, f\<lparr>df_data := m @ data, df_pkt_size := of_nat (length m), df_bytes_read := 0\<rparr>,
        st\<lparr>sess_at := (sess_at st)(q \<mapsto> s\<lparr>ss_decrypt_nonce := nonce_inc (ss_decrypt_nonce s)\<rparr>), world := w\<rparr>) \<and>
    length (m @ data) = 1040 \<and> inp w = rest \<and> httpd_sess_get_ctx (httpd st) fd w = httpd_sess_get_ctx (httpd st) fd (world st)"
proof -
  let ?h = "le_bytes 2 (of_nat (length m) :: u16)"
  obtain c t where ct: "aead_encrypt (crypto st) (ss_decrypt_key s) (replicate 4 0 @ ss_decrypt_nonce s) ?h m = (c, t)" by fastforce
  have l: "length c = length m" "length t = 16" "aead_decrypt (crypto st) (ss_decrypt_key s) (replicate 4 0 @ ss_decrypt_nonce s) ?h c t = Some m"
    using cr ct unfolding aead_lawful_def by blast+
  have i: "inp (world st) = ?h @ c @ t @ rest" using inp ct by (simp add: frame_bytes_def)
  obtain k w1 where "sock_recv (httpd st) fd 2 0 (world st) = (int k, take k (?h @ c @ t @ rest), w1)"
    "inp w1 = drop k (?h @ c @ t @ rest)" "httpd_sess_get_ctx (httpd st) fd w1 = httpd_sess_get_ctx (httpd st) fd (world st)" "k = 2"
    by (rule stream_recv [OF st, of 2 "world st" 0]) (use i l(2) in auto)
  then have w1: "sock_recv (httpd st) fd 2 0 (world st) = (2, ?h, w1)" "inp w1 = (c @ t) @ rest"
    "httpd_sess_get_ctx (httpd st) fd w1 = httpd_sess_get_ctx (httpd st) fd (world st)" by simp_all
  have wr: "wr_block (df_data f) 0 ?h = Some (?h @ drop 2 (df_data f))" using wr_block_at [of "df_data f" 1040 0 ?h] f by (simp add: numeral_2_eq_2)
  let ?f = "f\<lparr>df_data := ?h @ drop 2 (df_data f), df_pkt_size := of_nat (length m), df_bytes_read := 0\<rparr>"
  have n: "(of_nat (length m) + of_nat AUTH_TAG_LEN :: u16) = of_nat (length (c @ t))" using l by (simp add: AUTH_TAG_LEN_def)
  define R where "R = drop (length (c @ t)) (?h @ drop 2 (df_data f))"
  obtain w where w: "decrypt_read_loop (hap_httpd_raw_recv fd) (of_nat (length (c @ t))) ?f (st\<lparr>world := w1\<rparr>) =
      Some (True, ?f\<lparr>df_data := (c @ t) @ R, df_bytes_read := of_nat (length (c @ t))\<rparr>, st\<lparr>world := w\<rparr>)"
    "inp w = rest" "httpd_sess_get_ctx (httpd st) fd w = httpd_sess_get_ctx (httpd st) fd w1"
    using read_loop_stream [of "st\<lparr>world := w1\<rparr>" fd inp "c @ t" rest ?f 0] st w1(2) f l(1,2) m by (auto simp: R_def)
  have len: "uint (of_nat (length m) :: u16) = int (length m)" "(of_nat (length (c @ t)) - of_nat AUTH_TAG_LEN :: u16) = of_nat (length m)"
    using m l by (simp_all add: unsigned_of_nat take_bit_eq_mod AUTH_TAG_LEN_def)
  have rc: "rd_block ((c @ t) @ R) 0 (int (length m)) = Some c" using rd_block_append [of "[]" c "t @ R"] l(1) by simp
  have rt: "rd_block ((c @ t) @ R) (int (length m)) 16 = Some t" using rd_block_append [of c t R] l(1,2) by simp
  have wm: "wr_block ((c @ t) @ R) 0 m = Some (m @ t @ R)" using wr_block_mid [of c m "[]" "t @ R"] l(1) by simp
  have aad: "put_u16_le [0, 0] (of_nat (length m)) = Some ?h" by (simp add: put_u16_bytes)
  have "decrypt_frame_data (hap_httpd_raw_recv fd) q f st =
      Some (0, f\<lparr>df_data := m @ t @ R, df_pkt_size := of_nat (length m), df_bytes_read := 0\<rparr>,
        st\<lparr>sess_at := (sess_at st)(q \<mapsto> s\<lparr>ss_decrypt_nonce := nonce_inc (ss_decrypt_nonce s)\<rparr>), world := w\<rparr>)"
    unfolding decrypt_frame_data_def hap_httpd_raw_recv_def [of fd 2 st] w1(1)
    using w(1) by (simp add: wr u16_le.get_enc n s aad len rc rt l(3) wm next_nonce_inc upd_sess_def del: length_append append_assoc of_nat_add)
  moreover have "length (m @ t @ R) = 1040" using l f m by (simp add: R_def)
  ultimately show ?thesis using w(2,3) w1(3) by (intro exI [of _ w] exI [of _ "t @ R"]) simp
qed

text \<open>
  The receiver as an abstract byte stream: what is left of the frame that was decrypted, and
  behind it the text of the frames that have arrived.
\<close>

definition frame_ok :: "ptr \<Rightarrow> hap_decrypt_frame \<Rightarrow> bool" where
  "frame_ok q f \<longleftrightarrow> df_session f = Some q \<longrightarrow>
     length (df_data f) = 1040 \<and> df_bytes_read f \<le> df_pkt_size f \<and> df_pkt_size f \<le> 1024"

definition pending :: "ptr \<Rightarrow> hap_decrypt_frame \<Rightarrow> byte list" where
  "pending q f = (if df_session f = Some q
     then take (unat (df_pkt_size f) - unat (df_bytes_read f)) (drop (unat (df_bytes_read f)) (df_data f)) else [])"

definition receives :: "int \<Rightarrow> ('w \<Rightarrow> byte list) \<Rightarrow> byte list \<Rightarrow> ('n, 'h, 'w, 's) hap_net_scheme \<Rightarrow> bool" where
  "receives fd inp msg st \<longleftrightarrow> (\<exists>q s ms. httpd_sess_get_ctx (httpd st) fd (world st) = Some q \<and>
     sess_at st q = Some s \<and> ss_state s = STATE_VERIFIED \<and> length (ss_decrypt_nonce s) = 8 \<and>
     frame_ok q (decrypt_frame st) \<and> (\<forall>m \<in> set ms. m \<noteq> [] \<and> length m \<le> 1024) \<and>
     inp (world st) = concat (frames (crypto st) (ss_decrypt_key s) (ss_decrypt_nonce s) ms) \<and>
     msg = pending q (decrypt_frame st) @ concat ms)"

lemma serve_pending:
  assumes "df_session f = Some q" "frame_ok q f" "n = min (uint (df_pkt_size f) - uint (df_bytes_read f)) (int k)"
  shows "rd_block (df_data f) (uint (df_bytes_read f)) n = Some (take k (pending q f))"
    "n = int (length (take k (pending q f)))"
    "frame_ok q (f\<lparr>df_bytes_read := df_bytes_read f + of_int n\<rparr>)"
    "pending q (f\<lparr>df_bytes_read := df_bytes_read f + of_int n\<rparr>) = drop k (pending q f)"
proof -
  obtain p r where pr: "unat (df_pkt_size f) = p" "unat (df_bytes_read f) = r" by blast
  have le: "r \<le> p" "p \<le> 1024" "length (df_data f) = 1040"
    using assms(1,2) pr by (auto simp: frame_ok_def word_le_nat_alt)
  have u: "uint (df_pkt_size f) = int p" "uint (df_bytes_read f) = int r" using pr by (simp_all add: uint_nat)
  let ?m = "min (p - r) k"
  have n: "n = int ?m" using assms(3) u le(1) by (simp add: of_nat_diff)
  have pe: "pending q f = take (p - r) (drop r (df_data f))" using assms(1) pr by (simp add: pending_def)
  show "n = int (length (take k (pending q f)))" using n le pe by (simp add: min_def)
  show "rd_block (df_data f) (uint (df_bytes_read f)) n = Some (take k (pending q f))"
    using n le pe u by (simp add: rd_block_def min.commute)
  have r': "unat (df_bytes_read f + of_int n) = r + ?m"
    using n le pr by (simp add: unat_word_ariths unat_of_nat unsigned_of_nat take_bit_eq_mod min_def)
  then show "frame_ok q (f\<lparr>df_bytes_read := df_bytes_read f + of_int n\<rparr>)"
    using assms(1,2) pr le by (simp add: frame_ok_def word_le_nat_alt)
  have "p - (r + ?m) = p - r - k \<or> (p - r \<le> k \<and> p - (r + ?m) = 0)" by auto
  then show "pending q (f\<lparr>df_bytes_read := df_bytes_read f + of_int n\<rparr>) = drop k (pending q f)"
    using assms(1) pr(1) r' pe le by (auto simp: pending_def drop_take min_def add.commute)
qed

lemma recv_step:
  assumes cr: "aead_lawful (crypto st)" and sl: "stream_lawful (httpd st) fd inp"
    and rc: "receives fd inp msg st" and n: "0 < n" "msg \<noteq> []"
  shows "\<exists>bs rest st'. hap_httpd_recv fd n st = Some (int (length bs), bs, st') \<and> bs \<noteq> [] \<and> length bs \<le> n \<and>
    msg = bs @ rest \<and> receives fd inp rest st' \<and> crypto st' = crypto st \<and> httpd st' = httpd st"
proof -
  obtain q s ms where q: "httpd_sess_get_ctx (httpd st) fd (world st) = Some q"
    and s: "sess_at st q = Some s" "ss_state s = STATE_VERIFIED" "length (ss_decrypt_nonce s) = 8"
    and f: "frame_ok q (decrypt_frame st)" and ms: "\<forall>m \<in> set ms. m \<noteq> [] \<and> length m \<le> 1024"
    and inp: "inp (world st) = concat (frames (crypto st) (ss_decrypt_key s) (ss_decrypt_nonce s) ms)"
    and msg: "msg = pending q (decrypt_frame st) @ concat ms"
    using rc unfolding receives_def by blast
  define f0 where "f0 = (if df_session (decrypt_frame st) \<noteq> Some q then zero_frame\<lparr>df_session := Some q\<rparr> else decrypt_frame st)"
  have f0: "df_session f0 = Some q" "frame_ok q f0" "pending q f0 = pending q (decrypt_frame st)"
    using f by (auto simp: f0_def frame_ok_def pending_def zero_frame_def)
  have "\<exists>f1 st1 s1 ms1. (if uint (df_pkt_size f0) - uint (df_bytes_read f0) = 0
        then decrypt_frame_data (hap_httpd_raw_recv fd) q f0 st else Some (0, f0, st)) = Some (0, f1, st1) \<and>
      df_session f1 = Some q \<and> frame_ok q f1 \<and> pending q f1 \<noteq> [] \<and> msg = pending q f1 @ concat ms1 \<and>
      httpd_sess_get_ctx (httpd st1) fd (world st1) = Some q \<and>
      sess_at st1 q = Some s1 \<and> ss_state s1 = STATE_VERIFIED \<and> length (ss_decrypt_nonce s1) = 8 \<and>
      (\<forall>m \<in> set ms1. m \<noteq> [] \<and> length m \<le> 1024) \<and>
      inp (world st1) = concat (frames (crypto st1) (ss_decrypt_key s1) (ss_decrypt_nonce s1) ms1) \<and>
      crypto st1 = crypto st \<and> httpd st1 = httpd st"
  proof (cases "uint (df_pkt_size f0) - uint (df_bytes_read f0) = 0")
    case True
    then have "df_pkt_size f0 = df_bytes_read f0" by (simp add: word_uint_eq_iff)
    then have "pending q f0 = []" by (simp add: pending_def)
    with f0(3) msg n(2) obtain m ms1 where m: "ms = m # ms1" by (cases ms) auto
    have l: "length (df_data f0) = 1040" "length m \<le> 1024" using f0(1,2) ms m by (simp_all add: frame_ok_def)
    have i: "inp (world st) = frame_bytes (crypto st) (ss_decrypt_key s) (ss_decrypt_nonce s) m @
        concat (frames (crypto st) (ss_decrypt_key s) (nonce_inc (ss_decrypt_nonce s)) ms1)" using inp m by simp
    obtain w data where w: "decrypt_frame_data (hap_httpd_raw_recv fd) q f0 st =
      Some (0, f0\<lparr>df_data := m @ data, df_pkt_size := of_nat (length m), df_bytes_read := 0\<rparr>,
        st\<lparr>sess_at := (sess_at st)(q \<mapsto> s\<lparr>ss_decrypt_nonce := nonce_inc (ss_decrypt_nonce s)\<rparr>), world := w\<rparr>)"
      "length (m @ data) = 1040" "inp w = concat (frames (crypto st) (ss_decrypt_key s) (nonce_inc (ss_decrypt_nonce s)) ms1)"
      "httpd_sess_get_ctx (httpd st) fd w = httpd_sess_get_ctx (httpd st) fd (world st)"
      using decrypt_frame_stream [OF cr sl i s(1,3) l(2,1)] by blast
    have p: "unat (of_nat (length m) :: u16) = length m" using l(2) by (simp add: unsigned_of_nat take_bit_eq_mod)
    have "pending q (f0\<lparr>df_data := m @ data, df_pkt_size := of_nat (length m), df_bytes_read := 0\<rparr>) = m"
      using f0(1) p by (simp add: pending_def)
    moreover have "frame_ok q (f0\<lparr>df_data := m @ data, df_pkt_size := of_nat (length m), df_bytes_read := 0\<rparr>)"
      using w(2) l(2) p by (simp add: frame_ok_def word_le_nat_alt)
    moreover have "msg = m @ concat ms1" "m \<noteq> []" "\<forall>m \<in> set ms1. m \<noteq> [] \<and> length m \<le> 1024"
      using msg f0(3) \<open>pending q f0 = []\<close> m ms by simp_all
    ultimately show ?thesis using True w(1,3,4) f0(1) s q
      by (intro exI [of _ "f0\<lparr>df_data := m @ data, df_pkt_size := of_nat (length m), df_bytes_read := 0\<rparr>"]
          exI [of _ "st\<lparr>sess_at := (sess_at st)(q \<mapsto> s\<lparr>ss_decrypt_nonce := nonce_inc (ss_decrypt_nonce s)\<rparr>), world := w\<rparr>"]
          exI [of _ "s\<lparr>ss_decrypt_nonce := nonce_inc (ss_decrypt_nonce s)\<rparr>"] exI [of _ ms1]) simp
  next
    case False
    have "df_bytes_read f0 < df_pkt_size f0" using False f0(1,2) by (auto simp: frame_ok_def word_le_def word_less_def)
    moreover have "length (df_data f0) = 1040" "df_pkt_size f0 \<le> 1024" using f0(1,2) by (simp_all add: frame_ok_def)
    ultimately have "pending q f0 \<noteq> []" using f0(1) by (auto simp: pending_def word_less_nat_alt word_le_nat_alt)
    with False f0 msg q s ms inp show ?thesis
      by (intro exI [of _ f0] exI [of _ st] exI [of _ s] exI [of _ ms]) simp
  qed
  then obtain f1 st1 s1 ms1 where *: "(if uint (df_pkt_size f0) - uint (df_bytes_read f0) = 0
        then decrypt_frame_data (hap_httpd_raw_recv fd) q f0 st else Some (0, f0, st)) = Some (0, f1, st1)"
      "df_session f1 = Some q" "frame_ok q f1" "pending q f1 \<noteq> []" "msg = pending q f1 @ concat ms1"
      "httpd_sess_get_ctx (httpd st1) fd (world st1) = Some q"
      "sess_at st1 q = Some s1" "ss_state s1 = STATE_VERIFIED" "length (ss_decrypt_nonce s1) = 8"
      "\<forall>m \<in> set ms1. m \<noteq> [] \<and> length m \<le> 1024"
      "inp (world st1) = concat (frames (crypto st1) (ss_decrypt_key s1) (ss_decrypt_nonce s1) ms1)"
      "crypto st1 = crypto st" "httpd st1 = httpd st" by blast
  define k where "k = min (uint (df_pkt_size f1) - uint (df_bytes_read f1)) (int n)"
  note sv = serve_pending [OF *(2,3) k_def]
  let ?bs = "take n (pending q f1)" and ?f = "f1\<lparr>df_bytes_read := df_bytes_read f1 + of_int k\<rparr>"
  have "hap_httpd_recv fd n st = Some (k, ?bs, st1\<lparr>decrypt_frame := ?f\<rparr>)"
    unfolding hap_httpd_recv_def hap_decrypt_data_def
    using q s(1,2) *(1) sv(1) by (simp add: ctx_state_sess f0_def [symmetric] k_def [symmetric])
  moreover have "receives fd inp (drop n (pending q f1) @ concat ms1) (st1\<lparr>decrypt_frame := ?f\<rparr>)"
    unfolding receives_def using *(6-11) sv(3,4) by (intro exI [of _ q] exI [of _ s1] exI [of _ ms1]) simp
  moreover have "msg = ?bs @ drop n (pending q f1) @ concat ms1" using *(5) by simp
  ultimately show ?thesis using n(1) *(4,12,13) sv(2)
    by (intro exI [of _ ?bs] exI [of _ "drop n (pending q f1) @ concat ms1"] exI [of _ "st1\<lparr>decrypt_frame := ?f\<rparr>"]) simp
qed

text \<open>C16: Receiving on a verified session is reading a byte stream: whatever pieces the socket
  delivers and whatever buffer the caller offers, the result is a nonempty piece from the front
  of the text that the peer encrypted, at most as long as the buffer, and the rest of the text
  is what later calls read.\<close>

theorem hap_httpd_recv_refines:
  assumes "aead_lawful (crypto st)" "stream_lawful (httpd st) fd inp" "receives fd inp msg st" "0 < n" "msg \<noteq> []"
  shows "\<exists>bs rest st'. hap_httpd_recv fd n st = Some (int (length bs), bs, st') \<and> bs \<noteq> [] \<and> length bs \<le> n \<and>
    msg = bs @ rest \<and> receives fd inp rest st' \<and> crypto st' = crypto st \<and> httpd st' = httpd st"
  by (rule recv_step [OF assms])

lemma stream_httpd_lawful: "stream_lawful stream_httpd fd (\<lambda>(inp, out, closed). inp fd)"
  unfolding stream_lawful_def
proof (intro allI impI, elim conjE)
  fix n :: nat and flags :: int and w :: streams
  assume n: "0 < n" "(\<lambda>(inp, out, closed). inp fd) w \<noteq> []"
  obtain i out cl where w: "w = (i, out, cl)" using prod_cases3 by blast
  show "\<exists>k w'. sock_recv stream_httpd fd n flags w = (int k, take k ((\<lambda>(inp, out, closed). inp fd) w), w') \<and> 0 < k \<and> k \<le> n \<and>
      k \<le> length ((\<lambda>(inp, out, closed). inp fd) w) \<and> (\<lambda>(inp, out, closed). inp fd) w' = drop k ((\<lambda>(inp, out, closed). inp fd) w) \<and>
      httpd_sess_get_ctx stream_httpd fd w' = httpd_sess_get_ctx stream_httpd fd w \<and>
      (n = 2 \<and> 2 \<le> length ((\<lambda>(inp, out, closed). inp fd) w) \<longrightarrow> k = 2)"
    using n by (intro exI [of _ "min n (length (i fd))"] exI [of _ "(i(fd := drop (min n (length (i fd))) (i fd)), out, cl)"])
      (auto simp: stream_httpd_def w min_def)
qed

text \<open>A session at the address 5 whose peer sent one frame.\<close>

definition one_frame :: "byte list \<Rightarrow> (kv, string \<times> string, streams) hap_net" where
  "one_frame m = boot_net\<lparr>sess_at := [5 \<mapsto> zero_session\<lparr>ss_state := STATE_VERIFIED\<rparr>],
     world := ((\<lambda>_. [])(5 := frame_bytes demo_crypto (ss_decrypt_key zero_session) (ss_decrypt_nonce zero_session) m), \<lambda>_. [], [])\<rparr>"

lemma one_frame_receives: "m \<noteq> [] \<Longrightarrow> length m \<le> 1024 \<Longrightarrow> receives 5 (\<lambda>(inp, out, closed). inp 5) m (one_frame m)"
  unfolding receives_def
  by (intro exI [of _ 5] exI [of _ "zero_session\<lparr>ss_state := STATE_VERIFIED\<rparr>"] exI [of _ "[m]"])
    (simp add: one_frame_def stream_httpd_def frame_ok_def pending_def zero_frame_def zero_session_def NONCE_LEN_def)

lemma hap_httpd_recv_refines_witness:
  "\<exists>bs rest st'. hap_httpd_recv 5 2 (one_frame [1, 2, 3]) = Some (int (length bs), bs, st') \<and> bs \<noteq> [] \<and> length bs \<le> 2 \<and>
    [1, 2, 3] = bs @ rest"
  using hap_httpd_recv_refines [of "one_frame [1, 2, 3]" 5 "\<lambda>(inp, out, closed). inp 5" "[1, 2, 3]" 2]
    one_frame_receives [of "[1, 2, 3]"] stream_httpd_lawful [of 5] demo_aead_lawful
  by (fastforce simp: one_frame_def)

section \<open>From one end to the other\<close>

text \<open>A sender of stream sockets, and a reader that calls \<open>recv\<close> until it has what it wants.\<close>

definition send_lawful :: "'w httpd_api \<Rightarrow> int \<Rightarrow> ('w \<Rightarrow> byte list) \<Rightarrow> bool" where
  "send_lawful api fd out \<longleftrightarrow> (\<forall>bs flags w. bs \<noteq> [] \<longrightarrow>
     (\<exists>r w'. sock_send api fd bs flags w = (r, w') \<and> 0 < r \<and> out w' = out w @ bs))"

function recv_all ::
    "int \<Rightarrow> nat \<Rightarrow> nat \<Rightarrow> ('n, 'h, 'w, 's) hap_net_scheme \<Rightarrow> (byte list \<times> ('n, 'h, 'w, 's) hap_net_scheme) option" where
  "recv_all fd n k st = (if k = 0 then Some ([], st) else
     case hap_httpd_recv fd (min n k) st of None \<Rightarrow> None
     | Some (r, bs, st) \<Rightarrow> if bs = [] then Some ([], st)
       else (case recv_all fd n (k - length bs) st of None \<Rightarrow> None | Some (rest, st) \<Rightarrow> Some (bs @ rest, st)))"
  by pat_completeness auto
termination by (relation "measure (\<lambda>(fd, n, k, st). k)") auto

declare recv_all.simps [simp del]

lemma recv_all_message:
  assumes "aead_lawful (crypto st)" "stream_lawful (httpd st) fd inp" "receives fd inp msg st" "0 < n"
  shows "\<exists>st'. recv_all fd n (length msg) st = Some (msg, st')"
  using assms
proof (induction "length msg" arbitrary: msg st rule: less_induct)
  case less
  show ?case
  proof (cases "msg = []")
    case False
    have "0 < min n (length msg)" using less.prems(4) False by simp
    from recv_step [OF less.prems(1-3) this False]
    obtain bs rest st1 where r: "hap_httpd_recv fd (min n (length msg)) st = Some (int (length bs), bs, st1)" "bs \<noteq> []"
      "msg = bs @ rest" "receives fd inp rest st1" "crypto st1 = crypto st" "httpd st1 = httpd st"
      by blast
    then obtain st' where "recv_all fd n (length rest) st1 = Some (rest, st')"
      using less.hyps [of rest st1] less.prems(1,2,4) by auto
    moreover have "length msg - length bs = length rest" using r(3) by simp
    ultimately show ?thesis using r(1-3) False by (subst recv_all.simps) simp
  qed (simp add: recv_all.simps)
qed

lemma frame_bytes_not_empty: "frame_bytes cr k nonce m \<noteq> []"
proof -
  have "le_bytes 2 (v :: u16) \<noteq> []" for v by (metis length_le_bytes list.size(3) zero_neq_numeral)
  then show ?thesis by (simp add: frame_bytes_def Let_def split: prod.split)
qed

lemma send_frames_lawful:
  assumes "send_lawful api fd out"
  shows "\<exists>nonce' w'. send_frames api cr fd flags k ms nonce w = (True, nonce', w') \<and>
    out w' = out w @ concat (frames cr k nonce ms)"
proof (induction ms arbitrary: nonce w)
  case (Cons m ms)
  obtain r w1 where w1: "sock_send api fd (frame_bytes cr k nonce m) flags w = (r, w1)" "0 < r" "out w1 = out w @ frame_bytes cr k nonce m"
    using assms frame_bytes_not_empty [of cr k nonce m] unfolding send_lawful_def by blast
  from Cons.IH [of "nonce_inc nonce" w1] w1 show ?case by auto
qed simp

text \<open>C5: A message of any length that one end sends on a verified session is read by the other end,
  whose key and nonce for this direction are the same, exactly as it was sent, whatever the
  sizes of its reads.\<close>

theorem session_roundtrip:
  fixes st1 :: "('n, 'h, 'w, 's) hap_net_scheme" and st2 :: "('m, 'g, 'v, 't) hap_net_scheme"
  assumes "aead_lawful (crypto st1)" "crypto st2 = crypto st1"
    and "send_lawful (httpd st1) fd1 out" "httpd_sess_get_ctx (httpd st1) fd1 (world st1) = Some q1"
    and "sess_at st1 q1 = Some s1" "ss_state s1 = STATE_VERIFIED" "length (ss_encrypt_nonce s1) = 8"
    and "stream_lawful (httpd st2) fd2 inp" "sess_at st2 q2 = Some s2" "ss_state s2 = STATE_VERIFIED" "frame_ok q2 (decrypt_frame st2)" "pending q2 (decrypt_frame st2) = []"
    and "ss_decrypt_key s2 = ss_encrypt_key s1" "ss_decrypt_nonce s2 = ss_encrypt_nonce s1" "0 < n"
  shows "\<exists>st1' wire. hap_httpd_send fd1 msg (int (length msg)) flags st1 = Some (int (length msg), st1') \<and>
    out (world st1') = out (world st1) @ wire \<and>
    (\<forall>w2. inp w2 = wire \<and> httpd_sess_get_ctx (httpd st2) fd2 w2 = Some q2 \<longrightarrow>
       (\<exists>st2'. recv_all fd2 n (length msg) (st2\<lparr>world := w2\<rparr>) = Some (msg, st2')))"
proof -
  let ?fs = "frames (crypto st1) (ss_encrypt_key s1) (ss_encrypt_nonce s1) (pieces msg)"
  obtain nonce' w' where w: "send_frames (httpd st1) (crypto st1) fd1 flags (ss_encrypt_key s1) (pieces msg) (ss_encrypt_nonce s1) (world st1) =
      (True, nonce', w')" "out w' = out (world st1) @ concat ?fs"
    using send_frames_lawful [OF assms(3)] by blast
  obtain st1' where "hap_httpd_send fd1 msg (int (length msg)) flags st1 = Some (int (length msg), st1')" "world st1' = w'"
    using assms(4,6) send_loop_frames [OF assms(1,5,7), of fd1 flags msg] ctx_state_sess [OF assms(5)] w(1)
    by (simp add: hap_httpd_send_def)
  moreover have "\<exists>st2'. recv_all fd2 n (length msg) (st2\<lparr>world := w2\<rparr>) = Some (msg, st2')"
    if i: "inp w2 = concat ?fs" "httpd_sess_get_ctx (httpd st2) fd2 w2 = Some q2" for w2
  proof (rule recv_all_message [OF _ _ _ assms(15)])
    show "aead_lawful (crypto (st2\<lparr>world := w2\<rparr>))" using assms(1,2) by simp
    show "stream_lawful (httpd (st2\<lparr>world := w2\<rparr>)) fd2 inp" using assms(8) by simp
    show "receives fd2 inp msg (st2\<lparr>world := w2\<rparr>)" unfolding receives_def
      using assms(2,7,9-14) i concat_pieces [of msg] pieces_size
      by (intro exI [of _ q2] exI [of _ s2] exI [of _ "pieces msg"]) auto
  qed
  ultimately show ?thesis using w(2) by (intro exI [of _ st1'] exI [of _ "concat ?fs"]) simp
qed

lemma stream_httpd_send_lawful: "send_lawful stream_httpd fd (\<lambda>(inp, out, closed). out fd)"
  by (auto simp: send_lawful_def stream_httpd_def)

lemma session_roundtrip_witness:
  "\<exists>st1' wire. hap_httpd_send 5 [1, 2, 3] 3 0 (one_frame [9]) = Some (3, st1') \<and>
    (\<exists>st2'. recv_all 5 2 3 ((one_frame [9])\<lparr>world := (\<lambda>_. wire, \<lambda>_. [], [])\<rparr>) = Some ([1, 2, 3], st2'))"
proof -
  let ?s = "zero_session\<lparr>ss_state := STATE_VERIFIED\<rparr>" and ?i = "\<lambda>(inp, out, closed). inp 5" and ?st = "one_frame [9]"
  have st: "aead_lawful (crypto ?st)" "httpd_sess_get_ctx (httpd ?st) 5 w = Some 5" "sess_at ?st 5 = Some ?s"
    "stream_lawful (httpd ?st) 5 ?i" "send_lawful (httpd ?st) 5 (\<lambda>(inp, out, closed). out 5)" "decrypt_frame ?st = zero_frame" for w
    using stream_httpd_lawful [of 5] stream_httpd_send_lawful [of 5] demo_aead_lawful by (simp_all add: one_frame_def stream_httpd_def)
  have s: "ss_state ?s = STATE_VERIFIED" "length (ss_encrypt_nonce ?s) = 8" "ss_decrypt_key ?s = ss_encrypt_key ?s"
    "ss_decrypt_nonce ?s = ss_encrypt_nonce ?s" "frame_ok 5 (decrypt_frame ?st)" "pending 5 (decrypt_frame ?st) = []"
    by (simp_all add: st(6) zero_session_def NONCE_LEN_def frame_ok_def pending_def zero_frame_def)
  obtain st1' wire where "hap_httpd_send 5 [1, 2, 3] (int (length [1, 2, 3 :: byte])) 0 ?st = Some (int (length [1, 2, 3 :: byte]), st1')"
    and r: "\<forall>w2. ?i w2 = wire \<and> httpd_sess_get_ctx (httpd ?st) 5 w2 = Some 5 \<longrightarrow>
       (\<exists>st2'. recv_all 5 2 (length [1, 2, 3 :: byte]) (?st\<lparr>world := w2\<rparr>) = Some ([1, 2, 3], st2'))"
    using session_roundtrip [OF st(1) refl st(5,2,3) s(1,2) st(4,3) s(1,5,6,3,4), of 2 "[1, 2, 3]" 0] by auto
  moreover from r have "\<exists>st2'. recv_all 5 2 (length [1, 2, 3 :: byte]) (?st\<lparr>world := (\<lambda>_. wire, \<lambda>_. [], [])\<rparr>) = Some ([1, 2, 3], st2')"
    using st(2) by simp
  ultimately show ?thesis by (auto simp: numeral_3_eq_3)
qed

section \<open>When a frame is refused\<close>

lemma for_each_keeps:
  assumes "for_each f xs st = Some st'" "\<And>x st st'. f x st = Some st' \<Longrightarrow> g st' = g st"
  shows "g st' = g st"
  using assms(1) by (induction xs arbitrary: st) (auto split: bind_splits dest: assms(2))

lemma close_session_keeps:
  assumes "hap_close_session session st = Some st'"
  shows "sess_at st' = sess_at st" "httpd st' = httpd st" "crypto st' = crypto st" "decrypt_frame st' = decrypt_frame st"
    "priv st' = priv st"
proof -
  have "g st' = g st" if "\<And>st r w. g (st\<lparr>reported := r, world := w\<rparr>) = g st" for g
  proof (cases session)
    case (Some q)
    have step: "g b = g a" if "(if session_at i a = Some q then do { s \<leftarrow> sess_at a q; c \<leftarrow> ss_ctrl s; session_disconnect q c a } else Some a) = Some b" for i a b
      using that \<open>\<And>st r w. g (st\<lparr>reported := r, world := w\<rparr>) = g st\<close>
      by (auto simp: session_disconnect_def hap_report_event_def split: if_splits bind_splits)
    show ?thesis using assms Some unfolding hap_close_session_def by (auto intro: for_each_keeps [OF _ step])
  qed (use assms in \<open>simp add: hap_close_session_def\<close>)
  note k = this
  show "sess_at st' = sess_at st" "httpd st' = httpd st" "crypto st' = crypto st" "decrypt_frame st' = decrypt_frame st" "priv st' = priv st"
    by (rule k, simp)+
qed

lemma decrypt_fail_result:
  assumes "decrypt_fail q f st = Some (r, f', st')" "sess_at st q = Some s"
  shows "r = - 1" "f' = f" "sess_at st' = (sess_at st)(q \<mapsto> s\<lparr>ss_state := STATE_INVALID\<rparr>)" "httpd st' = httpd st" "crypto st' = crypto st"
  using assms close_session_keeps
  by (fastforce simp: decrypt_fail_def hap_session_error_def upd_sess_def split: bind_splits)+

lemma world_ex [simp]: "\<exists>w. st = st\<lparr>world := w\<rparr>" for st :: "('n, 'h, 'w, 's) hap_net_scheme"
  by (rule exI [of _ "world st"]) simp

definition same_but_world ::
    "hap_decrypt_frame \<Rightarrow> ('n, 'h, 'w, 's) hap_net_scheme \<Rightarrow> hap_decrypt_frame \<Rightarrow> ('n, 'h, 'w, 's) hap_net_scheme \<Rightarrow> bool" where
  "same_but_world f st f' st' \<longleftrightarrow> (\<exists>w. st' = st\<lparr>world := w\<rparr>) \<and> df_pkt_size f' = df_pkt_size f \<and>
     df_session f' = df_session f \<and> length (df_data f') = length (df_data f)"

lemma read_loop_keeps:
  assumes "decrypt_read_loop (hap_httpd_raw_recv fd) n f st = Some (ok, f', st')"
  shows "same_but_world f st f' st'"
proof -
  have "rf = hap_httpd_raw_recv fd \<longrightarrow> same_but_world f st (fst (snd y)) (snd (snd y))"
    if "decrypt_read_loop rf n f st = Some y" for rf y
    using that
  proof (rule decrypt_read_loop.raw_induct [where P = "\<lambda>rf n f st y. rf = hap_httpd_raw_recv fd \<longrightarrow>
      same_but_world f st (fst (snd y)) (snd (snd y))", rotated], goal_cases)
    case (1 loop rf n f st y)
    show ?case
    proof
      assume rf: "rf = hap_httpd_raw_recv fd"
      obtain k bs w where r: "sock_recv (httpd st) fd (unat n) 0 (world st) = (k, bs, w)" using prod_cases3 by blast
      show "same_but_world f st (fst (snd y)) (snd (snd y))"
      proof (cases "n = 0")
        case True
        with 1(2) show ?thesis by (auto simp: same_but_world_def)
      next
        case False
        then obtain d where d: "wr_block (df_data f) (uint (df_bytes_read f)) bs = Some d" "length d = length (df_data f)"
          and y: "(if k \<le> 0 then Some (False, f\<lparr>df_data := d\<rparr>, st\<lparr>world := w\<rparr>)
            else loop rf (n - of_int k) (f\<lparr>df_data := d, df_bytes_read := df_bytes_read f + of_int k\<rparr>) (st\<lparr>world := w\<rparr>)) = Some y"
          using 1(2) r by (auto simp: rf hap_httpd_raw_recv_def Let_def split: bind_splits dest: length_wr_block cong: if_cong)
        show ?thesis
        proof (cases "k \<le> 0")
          case True
          with y d(2) show ?thesis by (auto simp: same_but_world_def)
        next
          case False
          with y 1(1) rf have "same_but_world (f\<lparr>df_data := d, df_bytes_read := df_bytes_read f + of_int k\<rparr>) (st\<lparr>world := w\<rparr>)
            (fst (snd y)) (snd (snd y))" by auto
          with d(2) show ?thesis by (auto simp: same_but_world_def)
        qed
      qed
    qed
  qed
  from this [OF assms] show ?thesis by simp
qed

definition opened ::
    "hap_crypto \<Rightarrow> hap_secure_session \<Rightarrow> byte list \<Rightarrow> bool" where
  "opened cr s m \<longleftrightarrow> (\<exists>c tag. aead_decrypt cr (ss_decrypt_key s) (replicate 4 0 @ ss_decrypt_nonce s)
     (le_bytes 2 (of_nat (length c) :: u16)) c tag = Some m)"

lemma decrypt_frame_result:
  assumes "decrypt_frame_data (hap_httpd_raw_recv fd) q f st = Some (r, f', st')"
    and cr: "aead_lawful (crypto st)" and s: "sess_at st q = Some s" "length (ss_decrypt_nonce s) = 8"
  shows "httpd st' = httpd st" "df_session f' = df_session f"
    "(r = - 1 \<and> sess_at st' = (sess_at st)(q \<mapsto> s\<lparr>ss_state := STATE_INVALID\<rparr>)) \<or>
     (r = 0 \<and> sess_at st' = (sess_at st)(q \<mapsto> s\<lparr>ss_decrypt_nonce := nonce_inc (ss_decrypt_nonce s)\<rparr>) \<and>
      (\<exists>m z. opened (crypto st) s m \<and> df_data f' = m @ z \<and> uint (df_pkt_size f') = int (length m) \<and> df_bytes_read f' = 0))"
proof -
  let ?R = "httpd st' = httpd st \<and> df_session f' = df_session f \<and>
    ((r = - 1 \<and> sess_at st' = (sess_at st)(q \<mapsto> s\<lparr>ss_state := STATE_INVALID\<rparr>)) \<or>
     (r = 0 \<and> sess_at st' = (sess_at st)(q \<mapsto> s\<lparr>ss_decrypt_nonce := nonce_inc (ss_decrypt_nonce s)\<rparr>) \<and>
      (\<exists>m z. opened (crypto st) s m \<and> df_data f' = m @ z \<and> uint (df_pkt_size f') = int (length m) \<and> df_bytes_read f' = 0)))"
  have fail: ?R if "decrypt_fail q g st1 = Some (r, f', st')" "same_but_world f0 st g st1" "df_session f0 = df_session f" for g st1 f0
  proof -
    have "sess_at st1 q = Some s" using that(2) s(1) by (auto simp: same_but_world_def)
    from decrypt_fail_result [OF that(1) this] that(2,3) show ?thesis by (auto simp: same_but_world_def)
  qed
  obtain k bs st1 where k: "hap_httpd_raw_recv fd 2 st = (k, bs, st1)" using prod_cases3 by blast
  then have w1: "\<exists>w. st1 = st\<lparr>world := w\<rparr>" by (auto simp: hap_httpd_raw_recv_def split: prod.splits)
  then obtain data where d: "wr_block (df_data f) 0 bs = Some data"
    using assms(1) k by (cases "wr_block (df_data f) 0 bs") (simp_all add: decrypt_frame_data_def)
  note rest = assms(1) [unfolded decrypt_frame_data_def k prod.case d bind.bind_lunit]
  have ?R
  proof (cases "k < 2")
    case True
    have "same_but_world (f\<lparr>df_data := data\<rparr>) st (f\<lparr>df_data := data\<rparr>) st1" using w1 by (auto simp: same_but_world_def)
    with fail [of "f\<lparr>df_data := data\<rparr>" st1 "f\<lparr>df_data := data\<rparr>"] rest True show ?thesis by simp
  next
    case False
    then obtain p where p: "get_u16_le data = Some p" using rest by (auto split: bind_splits)
    let ?f0 = "f\<lparr>df_data := data, df_pkt_size := p, df_bytes_read := 0\<rparr>"
    obtain ok g st2 where g: "decrypt_read_loop (hap_httpd_raw_recv fd) (p + of_nat AUTH_TAG_LEN) ?f0 st1 = Some (ok, g, st2)"
      using rest False p by (auto simp: Let_def split: bind_splits)
    have kg: "same_but_world ?f0 st g st2"
      using read_loop_keeps [OF g] w1 by (auto simp: same_but_world_def)
    then have st2: "httpd st2 = httpd st" "crypto st2 = crypto st" "sess_at st2 = sess_at st" "df_pkt_size g = p" "df_session g = df_session f"
      by (auto simp: same_but_world_def)
    let ?g = "g\<lparr>df_bytes_read := df_bytes_read g - of_nat AUTH_TAG_LEN\<rparr>"
    have kg': "same_but_world ?f0 st ?g st2" using kg by (auto simp: same_but_world_def)
    show ?thesis
    proof (cases ok)
      case False
      with fail [OF _ kg] rest \<open>\<not> k < 2\<close> p g show ?thesis by simp
    next
      case True
      obtain c tag where ct: "rd_block (df_data g) 0 (uint p) = Some c" "rd_block (df_data g) (uint (df_bytes_read ?g)) 16 = Some tag"
        and r2: "(case aead_decrypt (crypto st) (ss_decrypt_key s) (replicate 4 0 @ ss_decrypt_nonce s) (le_bytes 2 p) c tag of
           None \<Rightarrow> decrypt_fail q ?g st2
         | Some m \<Rightarrow> do {
             data \<leftarrow> wr_block (df_data g) 0 m;
             Some (0, ?g\<lparr>df_data := data, df_bytes_read := 0\<rparr>,
               st2\<lparr>sess_at := (sess_at st2)(q \<mapsto> s\<lparr>ss_decrypt_nonce := nonce_inc (ss_decrypt_nonce s)\<rparr>)\<rparr>) }) = Some (r, f', st')"
        using rest \<open>\<not> k < 2\<close> p g True st2 s
        by (auto simp: Let_def put_u16_bytes next_nonce_inc upd_sess_def split: bind_splits option.splits)
      show ?thesis
      proof (cases "aead_decrypt (crypto st) (ss_decrypt_key s) (replicate 4 0 @ ss_decrypt_nonce s) (le_bytes 2 p) c tag")
        case None
        with fail [OF _ kg'] r2 show ?thesis by simp
      next
        case (Some m)
        have lc: "int (length c) = uint p" using length_rd_block [OF ct(1)] .
        then have pc: "p = of_nat (length c)" by (metis of_int_of_nat_eq word_of_int_uint)
        have lm: "length m = length c" using cr Some unfolding aead_lawful_def by blast
        obtain d' where d': "wr_block (df_data g) 0 m = Some d'" and
          res: "r = 0" "f' = ?g\<lparr>df_data := d', df_bytes_read := 0\<rparr>"
            "st' = st2\<lparr>sess_at := (sess_at st2)(q \<mapsto> s\<lparr>ss_decrypt_nonce := nonce_inc (ss_decrypt_nonce s)\<rparr>)\<rparr>"
          using r2 Some by (auto split: bind_splits)
        have "\<exists>z. d' = m @ z" using d' by (auto simp: wr_block_def split: if_splits)
        moreover have "opened (crypto st) s m" using Some pc unfolding opened_def by blast
        ultimately show ?thesis using res st2 lc lm by auto
      qed
    qed
  qed
  then show "httpd st' = httpd st" "df_session f' = df_session f"
    "(r = - 1 \<and> sess_at st' = (sess_at st)(q \<mapsto> s\<lparr>ss_state := STATE_INVALID\<rparr>)) \<or>
     (r = 0 \<and> sess_at st' = (sess_at st)(q \<mapsto> s\<lparr>ss_decrypt_nonce := nonce_inc (ss_decrypt_nonce s)\<rparr>) \<and>
      (\<exists>m z. opened (crypto st) s m \<and> df_data f' = m @ z \<and> uint (df_pkt_size f') = int (length m) \<and> df_bytes_read f' = 0))" by blast+
qed

text \<open>The frame that a receive starts with, and a receive with nothing pending.\<close>

definition frame_for :: "ptr \<Rightarrow> hap_decrypt_frame \<Rightarrow> hap_decrypt_frame" where
  "frame_for q f = (if df_session f \<noteq> Some q then zero_frame\<lparr>df_session := Some q\<rparr> else f)"

lemma frame_for:
  assumes "frame_ok q f"
  shows "df_session (frame_for q f) = Some q" "frame_ok q (frame_for q f)" "length (df_data (frame_for q f)) = 1040"
    "pending q (frame_for q f) = pending q f"
    "pending q f = [] \<Longrightarrow> df_pkt_size (frame_for q f) = df_bytes_read (frame_for q f)"
proof -
  show "df_session (frame_for q f) = Some q" "frame_ok q (frame_for q f)" "length (df_data (frame_for q f)) = 1040"
    "pending q (frame_for q f) = pending q f"
    using assms by (auto simp: frame_for_def frame_ok_def pending_def zero_frame_def)
  show "df_pkt_size (frame_for q f) = df_bytes_read (frame_for q f)" if p: "pending q f = []"
  proof (cases "df_session f = Some q")
    case True
    then have "length (df_data f) = 1040" "unat (df_bytes_read f) \<le> unat (df_pkt_size f)" "unat (df_pkt_size f) \<le> 1024"
      using assms by (simp_all add: frame_ok_def word_le_nat_alt)
    then show ?thesis using p True by (auto simp: pending_def frame_for_def word_unat_eq_iff)
  qed (simp add: frame_for_def zero_frame_def)
qed

definition deliver ::
    "nat \<Rightarrow> int \<times> hap_decrypt_frame \<times> ('n, 'h, 'w, 's) hap_net_scheme \<Rightarrow> (int \<times> byte list \<times> ('n, 'h, 'w, 's) hap_net_scheme) option" where
  "deliver n = (\<lambda>(r, frame, st). if r \<noteq> 0 then Some (r, [], st\<lparr>decrypt_frame := frame\<rparr>)
     else do {
       let bytes = min (uint (df_pkt_size frame) - uint (df_bytes_read frame)) (int n);
       bs \<leftarrow> rd_block (df_data frame) (uint (df_bytes_read frame)) bytes;
       Some (bytes, bs, st\<lparr>decrypt_frame := frame\<lparr>df_bytes_read := df_bytes_read frame + of_int bytes\<rparr>\<rparr>) })"

lemma recv_unfold:
  fixes st :: "('n, 'h, 'w, 's) hap_net_scheme"
  assumes "httpd_sess_get_ctx (httpd st) fd (world st) = Some q" "sess_at st q = Some s" "ss_state s = STATE_VERIFIED"
  shows "hap_httpd_recv fd n st =
    (let f = frame_for q (decrypt_frame st) in
     (if df_pkt_size f = df_bytes_read f then decrypt_frame_data (hap_httpd_raw_recv fd) q f st else Some (0, f, st)) \<bind> deliver n)"
proof -
  define f where "f = frame_for q (decrypt_frame st)"
  have e: "(uint (df_pkt_size f) = uint (df_bytes_read f)) = (df_pkt_size f = df_bytes_read f)"
    by (simp add: word_uint_eq_iff)
  define x where "x = (if df_pkt_size f = df_bytes_read f then decrypt_frame_data (hap_httpd_raw_recv fd) q f st else Some (0, f, st))"
  define g :: "int \<times> hap_decrypt_frame \<times> ('n, 'h, 'w, 's) hap_net_scheme \<Rightarrow> _" where
    "g = (\<lambda>(r, frame, st). if r \<noteq> 0 then Some (r, [], frame, st)
         else do {
           let bytes = min (uint (df_pkt_size frame) - uint (df_bytes_read frame)) (int n);
           bs \<leftarrow> rd_block (df_data frame) (uint (df_bytes_read frame)) bytes;
           Some (bytes, bs, frame\<lparr>df_bytes_read := df_bytes_read frame + of_int bytes\<rparr>, st) })"
  have d: "hap_decrypt_data (decrypt_frame st) (Some q) (int n) (hap_httpd_raw_recv fd) st = x \<bind> g"
    unfolding hap_decrypt_data_def frame_for_def [symmetric]
    by (simp add: x_def e f_def [symmetric] frame_for_def [symmetric] g_def)
  have "g y \<bind> (\<lambda>(r, bs, frame, st). Some (r, bs, st\<lparr>decrypt_frame := frame\<rparr>)) = deliver n y" for y
  proof (cases y)
    case (fields r fr st)
    show ?thesis unfolding fields g_def deliver_def
      by (cases "r = 0"; cases "rd_block (df_data fr) (uint (df_bytes_read fr)) (min (uint (df_pkt_size fr) - uint (df_bytes_read fr)) (int n))")
        (simp_all add: Let_def)
  qed
  then have "x \<bind> g \<bind> (\<lambda>(r, bs, frame, st). Some (r, bs, st\<lparr>decrypt_frame := frame\<rparr>)) = x \<bind> deliver n"
    by (cases x) simp_all
  moreover have "hap_httpd_recv fd n st = x \<bind> g \<bind> (\<lambda>(r, bs, frame, st). Some (r, bs, st\<lparr>decrypt_frame := frame\<rparr>))"
    using assms(1,3) ctx_state_sess [OF assms(2)] d by (simp add: hap_httpd_recv_def)
  ultimately have "hap_httpd_recv fd n st = x \<bind> deliver n" by simp
  then show ?thesis by (simp add: x_def f_def)
qed

lemma recv_idle:
  assumes "httpd_sess_get_ctx (httpd st) fd (world st) = Some q" "sess_at st q = Some s" "ss_state s = STATE_VERIFIED"
    "frame_ok q (decrypt_frame st)" "pending q (decrypt_frame st) = []"
  shows "hap_httpd_recv fd n st =
    decrypt_frame_data (hap_httpd_raw_recv fd) q (frame_for q (decrypt_frame st)) st \<bind> deliver n"
  using frame_for(5) [OF assms(4,5)] by (simp add: recv_unfold [OF assms(1-3)])



section \<open>What goes wrong\<close>

text \<open>A stream that brings more than the rest of the buffer overruns it.\<close>

lemma read_loop_overrun:
  assumes "stream_lawful (httpd st) fd inp" "inp (world st) = d @ rest" "length (df_data f) = 1040"
    "unat (df_bytes_read f) = b" "b \<le> 1040" "1040 < b + length d" "length d < 2 ^ 16"
  shows "decrypt_read_loop (hap_httpd_raw_recv fd) (of_nat (length d)) f st = None"
  using assms
proof (induction "length d" arbitrary: d f st b rule: less_induct)
  case less
  have n: "unat (of_nat (length d) :: u16) = length d" using less.prems(7) by (simp add: unsigned_of_nat take_bit_eq_mod)
  have ne: "d \<noteq> []" using less.prems(5,6) by auto
  obtain k w' where k: "sock_recv (httpd st) fd (length d) 0 (world st) = (int k, take k (d @ rest), w')" "0 < k" "k \<le> length d"
    "inp w' = drop k (d @ rest)"
    by (rule stream_recv [OF less.prems(1), of "length d" "world st" 0]) (use ne less.prems(2) in auto)
  have t: "take k (d @ rest) = take k d" "drop k (d @ rest) = drop k d @ rest" using k(3) by auto
  have nz: "(of_nat (length d) :: u16) \<noteq> 0" using n ne by (metis length_0_conv unsigned_0)
  show ?case
  proof (cases "b + k \<le> 1040")
    case False
    then have "wr_block (df_data f) (uint (df_bytes_read f)) (take k d) = None"
      using less.prems(3,4) k(3) by (simp add: wr_block_def uint_nat min_def)
    then show ?thesis using nz k(1) [unfolded t(1)] n by (subst decrypt_read_loop.simps) (simp add: hap_httpd_raw_recv_def)
  next
    case True
    let ?data = "take b (df_data f) @ take k d @ drop (b + k) (df_data f)"
    let ?f = "f\<lparr>df_data := ?data, df_bytes_read := df_bytes_read f + of_nat k\<rparr>"
    have wr: "wr_block (df_data f) (uint (df_bytes_read f)) (take k d) = Some ?data"
      using wr_block_at [of "df_data f" 1040 b "take k d"] less.prems(3,4) k(3) True by (simp add: uint_nat min_def)
    have sub: "(of_nat (length d) - of_nat k :: u16) = of_nat (length d - k)" using k(3) by (simp add: of_nat_diff)
    have step: "decrypt_read_loop (hap_httpd_raw_recv fd) (of_nat (length d)) f st =
        decrypt_read_loop (hap_httpd_raw_recv fd) (of_nat (length (drop k d))) ?f (st\<lparr>world := w'\<rparr>)"
      using nz k(1) [unfolded t(1)] k(2) wr n by (subst decrypt_read_loop.simps) (simp add: hap_httpd_raw_recv_def sub)
    have b: "unat (df_bytes_read ?f) = b + k"
      using less.prems(4) True by (simp add: unat_word_ariths unsigned_of_nat take_bit_eq_mod)
    have "decrypt_read_loop (hap_httpd_raw_recv fd) (of_nat (length (drop k d))) ?f (st\<lparr>world := w'\<rparr>) = None"
      using less.hyps [of "drop k d" "st\<lparr>world := w'\<rparr>" ?f "b + k"] ne less.prems(1,3,6,7) k(2-4) t(2) b True by auto
    with step show ?thesis by simp
  qed
qed

text \<open>C32: The announced length is not tested: on a verified session with nothing pending, a frame
  whose header announces more than 1024 bytes makes the receive leave the frame buffer, as soon as the
  bytes have arrived.\<close>

theorem recv_frame_overflow:
  assumes "stream_lawful (httpd st) fd inp" "httpd_sess_get_ctx (httpd st) fd (world st) = Some q"
    and "sess_at st q = Some s" "ss_state s = STATE_VERIFIED"
    and "frame_ok q (decrypt_frame st)" "pending q (decrypt_frame st) = []"
    and "inp (world st) = le_bytes 2 (p :: u16) @ d" "1024 < p" "unat p + 16 \<le> length d"
  shows "hap_httpd_recv fd n st = None"
proof -
  define f where "f = frame_for q (decrypt_frame st)"
  have f: "length (df_data f) = 1040" using frame_for(3) [OF assms(5)] by (simp add: f_def)
  obtain k w1 where "sock_recv (httpd st) fd 2 0 (world st) = (int k, take k (le_bytes 2 p @ d), w1)"
    "inp w1 = drop k (le_bytes 2 p @ d)" "k = 2"
    by (rule stream_recv [OF assms(1), of 2 "world st" 0]) (use assms(7,9) in auto)
  then have w1: "hap_httpd_raw_recv fd 2 st = (2, le_bytes 2 p, st\<lparr>world := w1\<rparr>)" "inp w1 = d"
    by (simp_all add: hap_httpd_raw_recv_def)
  have wr: "wr_block (df_data f) 0 (le_bytes 2 p) = Some (le_bytes 2 p @ drop 2 (df_data f))"
    using wr_block_at [of "df_data f" 1040 0 "le_bytes 2 p"] f by (simp add: numeral_2_eq_2)
  let ?f = "f\<lparr>df_data := le_bytes 2 p @ drop 2 (df_data f), df_pkt_size := p, df_bytes_read := 0\<rparr>"
  have lf: "length (df_data ?f) = 1040" using f by simp
  have p: "1024 < unat p" "unat p < 65536" using assms(8) unsigned_less [of p] by (simp_all add: word_less_nat_alt)
  have "decrypt_frame_data (hap_httpd_raw_recv fd) q f st = None"
  proof (cases "unat p + 16 < 65536")
    case True
    let ?d = "take (unat p + 16) d"
    have n: "length ?d = unat p + 16" using assms(9) by simp
    have "(p + of_nat AUTH_TAG_LEN :: u16) = of_nat (length ?d)" unfolding n by (simp add: AUTH_TAG_LEN_def)
    moreover have "decrypt_read_loop (hap_httpd_raw_recv fd) (of_nat (length ?d)) ?f (st\<lparr>world := w1\<rparr>) = None"
      by (rule read_loop_overrun [of _ fd inp ?d "drop (unat p + 16) d" _ 0]) (use assms(1) w1(2) lf p n True in simp_all)
    ultimately show ?thesis by (simp add: decrypt_frame_data_def w1(1) wr u16_le.get_enc)
  next
    case False
    let ?d = "take (unat p - 65520) d"
    have n: "length ?d = unat p - 65520" using assms(9) by simp
    obtain e where e: "unat p = 65520 + e" using False le_Suc_ex [of 65520 "unat p"] by auto
    have "p = of_nat (unat p)" by simp
    then have "p = of_nat (65520 + e)" by (simp only: e)
    moreover have "length ?d = e" "(65536 :: u16) = 0" using n e by simp_all
    ultimately have b: "(p + of_nat AUTH_TAG_LEN :: u16) = of_nat (length ?d)" by (simp add: AUTH_TAG_LEN_def del: length_take)
    have "unat p - 65520 \<le> 1040" using p by simp
    then obtain w where w: "decrypt_read_loop (hap_httpd_raw_recv fd) (of_nat (length ?d)) ?f (st\<lparr>world := w1\<rparr>) =
        Some (True, ?f\<lparr>df_data := take 0 (df_data ?f) @ ?d @ drop (0 + length ?d) (df_data ?f),
          df_bytes_read := df_bytes_read ?f + of_nat (length ?d)\<rparr>, (st\<lparr>world := w1\<rparr>)\<lparr>world := w\<rparr>)"
      using read_loop_stream [of "st\<lparr>world := w1\<rparr>" fd inp ?d "drop (unat p - 65520) d" ?f 0] assms(1) w1(2) lf n p by auto
    have r: "rd_block (?d @ drop (length ?d) (df_data ?f)) 0 (uint p) = None"
    proof -
      have "length (?d @ drop (length ?d) (df_data ?f)) = 1040"
        unfolding length_append length_drop lf using \<open>unat p - 65520 \<le> 1040\<close> n by arith
      moreover have "1040 < int (unat p)" using False by linarith
      ultimately show ?thesis by (simp add: rd_block_def del: length_append)
    qed
    have w': "decrypt_read_loop (hap_httpd_raw_recv fd) (of_nat (length ?d)) ?f (st\<lparr>world := w1\<rparr>) =
        Some (True, ?f\<lparr>df_data := ?d @ drop (length ?d) (df_data ?f), df_bytes_read := of_nat (length ?d)\<rparr>, st\<lparr>world := w\<rparr>)"
      using w by simp
    show ?thesis
      using w' assms(3) r by (simp add: decrypt_frame_data_def w1(1) wr u16_le.get_enc put_u16_bytes b del: length_take)
  qed
  then show ?thesis using recv_idle [OF assms(2-6), of n] by (simp add: f_def)
qed

lemma recv_frame_overflow_witness:
  "hap_httpd_recv 5 64 (boot_net\<lparr>sess_at := [5 \<mapsto> zero_session\<lparr>ss_state := STATE_VERIFIED\<rparr>],
     world := (\<lambda>_. le_bytes 2 (1025 :: u16) @ replicate 1041 0, \<lambda>_. [], [])\<rparr>) = None"
proof -
  let ?s = "zero_session\<lparr>ss_state := STATE_VERIFIED\<rparr>"
  let ?st = "boot_net\<lparr>sess_at := [5 \<mapsto> ?s], world := (\<lambda>_. le_bytes 2 (1025 :: u16) @ replicate 1041 0, \<lambda>_. [], [])\<rparr>"
  have s: "sess_at ?st 5 = Some ?s" "ss_state ?s = STATE_VERIFIED" by simp_all
  have f: "frame_ok 5 (decrypt_frame ?st)" "pending 5 (decrypt_frame ?st) = []"
    by (simp_all add: frame_ok_def pending_def zero_frame_def)
  have i: "(\<lambda>(inp, out, closed). inp 5) (world ?st) = le_bytes 2 (1025 :: u16) @ replicate 1041 0" by simp
  show ?thesis
    by (rule recv_frame_overflow [where st = ?st and inp = "\<lambda>(inp, out, closed). inp 5" and p = 1025 and d = "replicate 1041 0",
        OF _ _ s f i])
      (use stream_httpd_lawful [of 5] in \<open>simp_all, simp add: stream_httpd_def\<close>)
qed

text \<open>
  The frame is kept in one static variable for all sockets: a receive on another session
  discards the text that was pending.
\<close>

lemma shared_frame_discards:
  assumes "httpd_sess_get_ctx (httpd st) fd (world st) = Some q'" "sess_at st q' = Some s'" "ss_state s' = STATE_VERIFIED"
    "q' \<noteq> q" "length (ss_decrypt_nonce s') = 8" "aead_lawful (crypto st)" "frame_ok q' (decrypt_frame st)"
    "hap_httpd_recv fd n st = Some (r, bs, st')"
  shows "pending q (decrypt_frame st') = []"
proof -
  let ?f = "frame_for q' (decrypt_frame st)"
  let ?x = "(if df_pkt_size ?f = df_bytes_read ?f then decrypt_frame_data (hap_httpd_raw_recv fd) q' ?f st else Some (0, ?f, st))"
  have u: "?x \<bind> deliver n = Some (r, bs, st')" using assms(8) recv_unfold [OF assms(1-3), of n] by (simp add: Let_def)
  then obtain r1 f1 st2 where g: "?x = Some (r1, f1, st2)" by (cases ?x) auto
  have "df_session f1 = Some q'"
    using g decrypt_frame_result(2) [OF _ assms(6,2,5)] frame_for(1) [OF assms(7)] by (auto split: if_splits)
  moreover have "df_session (decrypt_frame st') = df_session f1"
    using u g by (auto simp: deliver_def Let_def split: if_splits bind_splits)
  ultimately show ?thesis using assms(4) by (simp add: pending_def)
qed

text \<open>C34: The frame belongs to the address of the session: when a session ends with text pending and the
  next session is allocated at its address, a receive on the new session delivers the text of
  the old one, without reading from the socket or decrypting anything.\<close>

theorem freed_session_text:
  assumes "frame_ok q (decrypt_frame st)" "pending q (decrypt_frame st) \<noteq> []" "sess_free q st = Some st1"
    and "httpd_sess_get_ctx (httpd st) fd w = Some q" "ss_state s = STATE_VERIFIED"
  shows "\<exists>st3. hap_httpd_recv fd n (st1\<lparr>sess_at := (sess_at st1)(q \<mapsto> s), world := w\<rparr>) =
      Some (int (length (take n (pending q (decrypt_frame st)))), take n (pending q (decrypt_frame st)), st3) \<and>
    world st3 = w \<and> sess_at st3 q = Some s"
proof -
  let ?st = "st1\<lparr>sess_at := (sess_at st1)(q \<mapsto> s), world := w\<rparr>"
  have st: "decrypt_frame ?st = decrypt_frame st" "httpd ?st = httpd st" "world ?st = w" "sess_at ?st q = Some s"
    using assms(3) by (auto simp: sess_free_def split: bind_splits)
  define f where "f = frame_for q (decrypt_frame st)"
  have f: "df_session f = Some q" "frame_ok q f" "pending q f = pending q (decrypt_frame st)"
    using frame_for [OF assms(1)] by (simp_all add: f_def)
  have ne: "df_pkt_size f \<noteq> df_bytes_read f"
  proof
    assume "df_pkt_size f = df_bytes_read f"
    then have "pending q f = []" by (simp add: pending_def)
    with f(3) assms(2) show False by simp
  qed
  have c: "httpd_sess_get_ctx (httpd ?st) fd (world ?st) = Some q" using assms(4) st by simp
  have "hap_httpd_recv fd n ?st = deliver n (0, f, ?st)"
    using recv_unfold [OF c st(4) assms(5), of n] ne by (simp add: st(1) f_def)
  then show ?thesis
    using serve_pending(1,2) [OF f(1,2) refl, of n] f(3) st(3,4) by (simp add: deliver_def Let_def)
qed

lemma freed_session_text_witness:
  "\<exists>st3. hap_httpd_recv 5 9 (boot_net\<lparr>decrypt_frame := zero_frame\<lparr>df_session := Some 5, df_pkt_size := 2\<rparr>,
      sess_at := Map.empty(5 \<mapsto> zero_session\<lparr>ss_state := STATE_VERIFIED\<rparr>), world := (\<lambda>_. [], \<lambda>_. [], [])\<rparr>) = Some (2, [0, 0], st3)"
proof -
  let ?f = "zero_frame\<lparr>df_session := Some 5, df_pkt_size := 2\<rparr>"
  let ?st = "boot_net\<lparr>decrypt_frame := ?f, sess_at := [5 \<mapsto> zero_session]\<rparr>"
  have p: "frame_ok 5 (decrypt_frame ?st)" "pending 5 (decrypt_frame ?st) = [0, 0]"
  proof -
    have "replicate 2 (0 :: byte) = [0, 0]" by (simp add: numeral_2_eq_2)
    then show "frame_ok 5 (decrypt_frame ?st)" "pending 5 (decrypt_frame ?st) = [0, 0]"
      by (simp_all add: frame_ok_def pending_def zero_frame_def)
  qed
  have "\<exists>st3. hap_httpd_recv 5 9 (?st\<lparr>sess_at := Map.empty, sess_at := Map.empty(5 \<mapsto> zero_session\<lparr>ss_state := STATE_VERIFIED\<rparr>), world := (\<lambda>_. [], \<lambda>_. [], [])\<rparr>) =
      Some (int (length (take 9 (pending 5 (decrypt_frame ?st)))), take 9 (pending 5 (decrypt_frame ?st)), st3)"
    using freed_session_text [OF p(1), of "?st\<lparr>sess_at := Map.empty\<rparr>" 5 "(\<lambda>_. [], \<lambda>_. [], [])" "zero_session\<lparr>ss_state := STATE_VERIFIED\<rparr>" 9]
    by (auto simp: p(2) [simplified] sess_free_def stream_httpd_def)
  then show ?thesis unfolding p(2) by simp
qed

section \<open>Every receive returns\<close>

text \<open>
  Any socket that keeps within the buffer it is given, in pieces of any size, with errors and the end
  of the connection at any point.
\<close>

definition recv_bounded :: "'w httpd_api \<Rightarrow> int \<Rightarrow> bool" where
  "recv_bounded api fd \<longleftrightarrow> (\<forall>n flags w r bs w'. sock_recv api fd n flags w = (r, bs, w') \<longrightarrow>
     length bs \<le> n \<and> (if 0 < r then int (length bs) = r else bs = []))"

lemma read_loop_total:
  assumes "recv_bounded (httpd st) fd" "length (df_data f) = 1040" "unat (df_bytes_read f) + unat n \<le> 1040"
  shows "\<exists>ok f' st'. decrypt_read_loop (hap_httpd_raw_recv fd) n f st = Some (ok, f', st') \<and>
    (ok \<longrightarrow> df_bytes_read f' = df_bytes_read f + n)"
  using assms
proof (induction "unat n" arbitrary: n f st rule: less_induct)
  case less
  obtain r bs w where r: "sock_recv (httpd st) fd (unat n) 0 (world st) = (r, bs, w)" using prod_cases3 by blast
  have bs: "length bs \<le> unat n" "if 0 < r then int (length bs) = r else bs = []"
    using less.prems(1) r unfolding recv_bounded_def by blast+
  let ?data = "take (unat (df_bytes_read f)) (df_data f) @ bs @ drop (unat (df_bytes_read f) + length bs) (df_data f)"
  have wr: "wr_block (df_data f) (uint (df_bytes_read f)) bs = Some ?data"
    using wr_block_at [of "df_data f" 1040 "unat (df_bytes_read f)" bs] less.prems(2,3) bs(1) by simp
  show ?case
  proof (cases "n = 0 \<or> r \<le> 0")
    case True
    then show ?thesis using r wr by (subst decrypt_read_loop.simps) (auto simp: hap_httpd_raw_recv_def)
  next
    case False
    then have k: "r = int (length bs)" "0 < length bs" using bs(2) by (auto split: if_splits)
    let ?f = "f\<lparr>df_data := ?data, df_bytes_read := df_bytes_read f + of_nat (length bs)\<rparr>"
    have n': "unat (n - of_nat (length bs)) = unat n - length bs"
      using bs(1) less.prems(3) by (simp add: unat_sub_if' unsigned_of_nat take_bit_eq_mod)
    have b': "unat (df_bytes_read ?f) = unat (df_bytes_read f) + length bs"
      using bs(1) less.prems(3) by (simp add: unat_word_ariths unsigned_of_nat take_bit_eq_mod)
    have step: "decrypt_read_loop (hap_httpd_raw_recv fd) n f st =
        decrypt_read_loop (hap_httpd_raw_recv fd) (n - of_nat (length bs)) ?f (st\<lparr>world := w\<rparr>)"
      using False r wr k by (subst decrypt_read_loop.simps) (simp add: hap_httpd_raw_recv_def)
    have "\<exists>ok f' st'. decrypt_read_loop (hap_httpd_raw_recv fd) (n - of_nat (length bs)) ?f (st\<lparr>world := w\<rparr>) = Some (ok, f', st') \<and>
        (ok \<longrightarrow> df_bytes_read f' = df_bytes_read ?f + (n - of_nat (length bs)))"
    proof (rule less.hyps)
      show "unat (n - of_nat (length bs)) < unat n" unfolding n' using k(2) bs(1) by linarith
      show "length (df_data ?f) = 1040" using less.prems(2,3) bs(1) by simp
      show "unat (df_bytes_read ?f) + unat (n - of_nat (length bs)) \<le> 1040" using n' b' less.prems(3) bs(1) by simp
    qed (use less.prems(1) in simp)
    with step show ?thesis by simp
  qed
qed

lemma close_session_total:
  assumes "sessions_ok st" "live_session st q"
  shows "\<exists>st'. hap_close_session (Some q) st = Some st'"
proof -
  obtain s c where s: "sess_at st q = Some s" "ss_ctrl s = Some c" using assms(2) by (auto simp: live_session_def)
  have "\<exists>st'. for_each (\<lambda>i st. if session_at i st = Some q then do { s \<leftarrow> sess_at st q; c \<leftarrow> ss_ctrl s; session_disconnect q c st }
      else Some st) is st = Some st'" for "is"
    using s
  proof (induction "is" arbitrary: st)
    case (Cons i "is")
    show ?case
    proof (cases "session_at i st = Some q")
      case True
      have "sess_at (disconnect c [ss_conn_identifier s] st) q = Some s" using Cons.prems(1) by simp
      from Cons.IH [OF this Cons.prems(2)] True Cons.prems show ?thesis by (simp add: session_disconnect_eq)
    qed (use Cons in simp)
  qed simp
  then show ?thesis by (simp add: hap_close_session_def)
qed

lemma sessions_ok_cong:
  assumes "\<And>p. live_session st' p = live_session st p" "sessions st' = sessions st"
  shows "sessions_ok st' = sessions_ok st"
  by (simp only: sessions_ok_def assms)

lemma sessions_ok_upd:
  assumes "sessions_ok st" "sess_at st q = Some s" "sess_at st' = (sess_at st)(q \<mapsto> s')" "ss_ctrl s' = ss_ctrl s" "priv st' = priv st"
  shows "sessions_ok st'"
proof -
  have "live_session st' p = live_session st p" for p using assms(2-4) by (auto simp: live_session_def)
  moreover have "sessions st' = sessions st" using assms(5) by (simp add: sessions_def)
  ultimately show ?thesis using assms(1) sessions_ok_cong [of st' st] by simp
qed

lemma decrypt_fail_total:
  assumes "sessions_ok st" "sess_at st q = Some s" "ss_ctrl s = Some c" "c < HAP_MAX_CONTROLLERS"
  shows "\<exists>st'. decrypt_fail q f st = Some (- 1, f, st') \<and> sessions_ok st'"
proof -
  let ?s = "s\<lparr>ss_state := STATE_INVALID\<rparr>" and ?st = "st\<lparr>sess_at := (sess_at st)(q \<mapsto> s\<lparr>ss_state := STATE_INVALID\<rparr>)\<rparr>"
  have ok: "sessions_ok ?st" by (rule sessions_ok_upd [OF assms(1,2), of _ ?s]) simp_all
  have "live_session ?st q" using assms(3,4) by (simp add: live_session_def)
  with close_session_total [OF ok] obtain st' where st': "hap_close_session (Some q) ?st = Some st'" by blast
  have "sessions_ok st'"
  proof (rule sessions_ok_upd [OF ok])
    show "sess_at ?st q = Some ?s" by simp
    show "sess_at st' = (sess_at ?st)(q \<mapsto> ?s)" "priv st' = priv ?st" using close_session_keeps(1,5) [OF st'] by simp_all
  qed simp
  with st' assms(2) show ?thesis by (simp add: decrypt_fail_def hap_session_error_def upd_sess_def)
qed

lemma same_sessions_ok: "same_but_world f0 st f st' \<Longrightarrow> sessions_ok st' = sessions_ok st"
  by (rule sessions_ok_cong) (auto simp: same_but_world_def live_session_def sessions_def)

lemma decrypt_frame_total:
  assumes b: "recv_bounded (httpd st) fd" and cr: "aead_lawful (crypto st)" and ok: "sessions_ok st"
    and s: "sess_at st q = Some s" "ss_ctrl s = Some c" "c < HAP_MAX_CONTROLLERS" "length (ss_decrypt_nonce s) = 8"
    and f: "length (df_data f) = 1040"
    and h: "\<forall>bs w. sock_recv (httpd st) fd 2 0 (world st) = (2, bs, w) \<longrightarrow> le_val bs \<le> 1024"
  shows "\<exists>r f' st'. decrypt_frame_data (hap_httpd_raw_recv fd) q f st = Some (r, f', st') \<and> sessions_ok st' \<and>
    (r = 0 \<longrightarrow> length (df_data f') = 1040)"
proof -
  have fail: "\<exists>st'. decrypt_fail q g st1 = Some (- 1, g, st') \<and> sessions_ok st'" if "same_but_world f0 st g st1" for f0 g st1
    by (rule decrypt_fail_total [OF _ _ s(2,3)])
      (use that s(1) ok same_sessions_ok [OF that] in \<open>auto simp: same_but_world_def\<close>)
  obtain r bs w where r: "sock_recv (httpd st) fd 2 0 (world st) = (r, bs, w)" using prod_cases3 by blast
  then have bs: "length bs \<le> 2" "if 0 < r then int (length bs) = r else bs = []" using b unfolding recv_bounded_def by blast+
  have raw: "hap_httpd_raw_recv fd 2 st = (r, bs, st\<lparr>world := w\<rparr>)" using r by (simp add: hap_httpd_raw_recv_def)
  let ?data = "bs @ drop (length bs) (df_data f)"
  have wr: "wr_block (df_data f) 0 bs = Some ?data" using wr_block_at [of "df_data f" 1040 0 bs] f bs(1) by simp
  have d: "decrypt_frame_data (hap_httpd_raw_recv fd) q f st = (if r < 2 then decrypt_fail q (f\<lparr>df_data := ?data\<rparr>) (st\<lparr>world := w\<rparr>)
    else the_rest)" if "\<not> r < 2 \<Longrightarrow> the_rest = decrypt_frame_data (hap_httpd_raw_recv fd) q f st" for the_rest
    using that by (cases "r < 2") (simp_all add: decrypt_frame_data_def raw wr)
  show ?thesis
  proof (cases "r < 2")
    case True
    have "same_but_world (f\<lparr>df_data := ?data\<rparr>) st (f\<lparr>df_data := ?data\<rparr>) (st\<lparr>world := w\<rparr>)" by (auto simp: same_but_world_def)
    from fail [OF this] d [of undefined] True show ?thesis by auto
  next
    case False
    then have two: "r = 2" "length bs = 2" using bs by (auto split: if_splits)
    define p where "p = (of_nat (le_val bs) :: u16)"
    have p: "unat p \<le> 1024" "get_u16_le ?data = Some p"
      using h r two f by (simp_all add: p_def unsigned_of_nat take_bit_eq_mod get_u16_le_val)
    let ?f = "f\<lparr>df_data := ?data, df_pkt_size := p, df_bytes_read := 0\<rparr>"
    have lf: "length (df_data ?f) = 1040" using f two by simp
    have n: "unat (p + of_nat AUTH_TAG_LEN) = unat p + 16"
      using p(1) by (simp add: AUTH_TAG_LEN_def unat_word_ariths unsigned_of_nat take_bit_eq_mod)
    obtain ok g st2 where g: "decrypt_read_loop (hap_httpd_raw_recv fd) (p + of_nat AUTH_TAG_LEN) ?f (st\<lparr>world := w\<rparr>) = Some (ok, g, st2)"
      "ok \<longrightarrow> df_bytes_read g = p + of_nat AUTH_TAG_LEN"
      using read_loop_total [of "st\<lparr>world := w\<rparr>" fd ?f "p + of_nat AUTH_TAG_LEN"] b lf p(1) n by auto
    have kg: "same_but_world ?f st g st2" using read_loop_keeps [OF g(1)] by (auto simp: same_but_world_def)
    then have st2: "crypto st2 = crypto st" "sess_at st2 = sess_at st" "df_pkt_size g = p" "length (df_data g) = 1040"
      using lf by (auto simp: same_but_world_def)
    let ?g = "g\<lparr>df_bytes_read := df_bytes_read g - of_nat AUTH_TAG_LEN\<rparr>"
    have kg': "same_but_world ?f st ?g st2" using kg by (auto simp: same_but_world_def)
    show ?thesis
    proof (cases ok)
      case False
      from fail [OF kg] g(1) False two p show ?thesis by (auto simp: decrypt_frame_data_def raw wr)
    next
      case True
      have pos: "df_bytes_read ?g = p" using g(2) True by simp
      define C where "C = take (unat p) (df_data g)"
      define tag where "tag = take 16 (drop (unat p) (df_data g))"
      have rc: "rd_block (df_data g) 0 (uint p) = Some C" "rd_block (df_data g) (uint p) 16 = Some tag"
      proof -
        have "int (unat p) \<le> 1024" using p(1) by linarith
        then show "rd_block (df_data g) 0 (uint p) = Some C" "rd_block (df_data g) (uint p) 16 = Some tag"
          using st2(4) by (simp_all add: rd_block_def C_def tag_def)
      qed
      have e: "decrypt_frame_data (hap_httpd_raw_recv fd) q f st =
        (case aead_decrypt (crypto st) (ss_decrypt_key s) (replicate 4 0 @ ss_decrypt_nonce s) (le_bytes 2 p) C tag of
           None \<Rightarrow> decrypt_fail q ?g st2
         | Some m \<Rightarrow> do {
             data \<leftarrow> wr_block (df_data g) 0 m;
             Some (0, ?g\<lparr>df_data := data, df_bytes_read := 0\<rparr>,
               st2\<lparr>sess_at := (sess_at st2)(q \<mapsto> s\<lparr>ss_decrypt_nonce := nonce_inc (ss_decrypt_nonce s)\<rparr>)\<rparr>) })"
        using g(1) True two p st2 s pos rc
        by (simp add: decrypt_frame_data_def raw wr put_u16_bytes next_nonce_inc upd_sess_def del: fun_upd_apply split: option.split)
      show ?thesis
      proof (cases "aead_decrypt (crypto st) (ss_decrypt_key s) (replicate 4 0 @ ss_decrypt_nonce s) (le_bytes 2 p) C tag")
        case None
        with fail [OF kg'] e show ?thesis by auto
      next
        case (Some m)
        then have "length m = length C" using cr unfolding aead_lawful_def by blast
        then have "length m \<le> 1040" using p(1) by (simp add: C_def)
        then obtain data where "wr_block (df_data g) 0 m = Some data" using st2(4) by (simp add: wr_block_def)
        moreover from this have "length data = 1040" using st2(4) length_wr_block by metis
        moreover have "sessions_ok (st2\<lparr>sess_at := (sess_at st2)(q \<mapsto> s\<lparr>ss_decrypt_nonce := nonce_inc (ss_decrypt_nonce s)\<rparr>)\<rparr>)"
          by (rule sessions_ok_upd [of st2 q s _ "s\<lparr>ss_decrypt_nonce := nonce_inc (ss_decrypt_nonce s)\<rparr>"]) (use ok same_sessions_ok [OF kg] st2(2) s(1) in simp_all)
        ultimately show ?thesis using e Some by auto
      qed
    qed
  qed
qed

text \<open>C33: Whatever the peer and the network do, a receive on a verified session returns, stays within
  the caller's buffer and the frame, and leaves the table of sessions well formed, provided that the
  header of the next frame, if one is read, announces at most 1024 bytes.\<close>

theorem recv_returns:
  assumes "recv_bounded (httpd st) fd" "aead_lawful (crypto st)" "sessions_ok st"
    and "httpd_sess_get_ctx (httpd st) fd (world st) = Some q" "sess_at st q = Some s" "ss_state s = STATE_VERIFIED"
    and "ss_ctrl s = Some c" "c < HAP_MAX_CONTROLLERS" "length (ss_decrypt_nonce s) = 8" "frame_ok q (decrypt_frame st)"
    and "\<forall>bs w. sock_recv (httpd st) fd 2 0 (world st) = (2, bs, w) \<longrightarrow> le_val bs \<le> 1024"
  shows "\<exists>r bs st'. hap_httpd_recv fd n st = Some (r, bs, st') \<and> length bs \<le> n \<and> sessions_ok st'"
proof -
  define f where "f = frame_for q (decrypt_frame st)"
  have f: "df_session f = Some q" "frame_ok q f" "length (df_data f) = 1040" using frame_for(1-3) [OF assms(10)] by (simp_all add: f_def)
  let ?x = "if df_pkt_size f = df_bytes_read f then decrypt_frame_data (hap_httpd_raw_recv fd) q f st else Some (0, f, st)"
  have u: "hap_httpd_recv fd n st = ?x \<bind> deliver n"
    using recv_unfold [OF assms(4-6), of n] by (simp only: Let_def f_def)
  have del: "\<exists>r bs st'. deliver n (0, g, st1) = Some (r, bs, st') \<and> length bs \<le> n \<and> sessions_ok st'"
    if d: "df_bytes_read g \<le> df_pkt_size g" "int (unat (df_pkt_size g)) \<le> 1040" "length (df_data g) = 1040" "sessions_ok st1" for g st1
  proof -
    have "0 \<le> min (uint (df_pkt_size g) - uint (df_bytes_read g)) (int n)" using d(1) by (simp add: word_le_def)
    moreover have "uint (df_bytes_read g) + min (uint (df_pkt_size g) - uint (df_bytes_read g)) (int n) \<le> 1040" using d(2) by simp
    ultimately obtain bs where bs: "rd_block (df_data g) (uint (df_bytes_read g)) (min (uint (df_pkt_size g) - uint (df_bytes_read g)) (int n)) = Some bs"
      using d(3) by (simp add: rd_block_def)
    then have "length bs \<le> n" using length_rd_block [OF bs] by simp
    moreover have "sessions_ok (st1\<lparr>decrypt_frame := f'\<rparr>) = sessions_ok st1" for f'
      by (rule sessions_ok_cong) (simp_all add: live_session_def sessions_def)
    ultimately show ?thesis using bs d(4) by (simp add: deliver_def Let_def)
  qed
  show ?thesis
  proof (cases "df_pkt_size f = df_bytes_read f")
    case False
    have "df_bytes_read f \<le> df_pkt_size f" "unat (df_pkt_size f) \<le> 1024" using f by (simp_all add: frame_ok_def word_le_nat_alt)
    then have "int (unat (df_pkt_size f)) \<le> 1040" by linarith
    with del [OF \<open>df_bytes_read f \<le> df_pkt_size f\<close> this f(3) assms(3)] u False show ?thesis by simp
  next
    case True
    obtain r g st1 where g: "decrypt_frame_data (hap_httpd_raw_recv fd) q f st = Some (r, g, st1)" "sessions_ok st1"
      "r = 0 \<longrightarrow> length (df_data g) = 1040"
      using decrypt_frame_total [OF assms(1-3,5,7-9) f(3) assms(11)] by blast
    show ?thesis
    proof (cases "r = 0")
      case True
      obtain m z where m: "df_data g = m @ z" "uint (df_pkt_size g) = int (length m)" "df_bytes_read g = 0"
        using decrypt_frame_result(3) [OF g(1) assms(2,5,9)] True by auto
      have "length m \<le> 1040" using m(1) g(3) True by simp
      with m have "df_bytes_read g \<le> df_pkt_size g" "int (unat (df_pkt_size g)) \<le> 1040" by simp_all
      from del [OF this _ g(2)] g(1,3) u \<open>df_pkt_size f = df_bytes_read f\<close> True show ?thesis by simp
    next
      case False
      have "sessions_ok (st1\<lparr>decrypt_frame := f'\<rparr>) = sessions_ok st1" for f'
        by (rule sessions_ok_cong) (simp_all add: live_session_def sessions_def)
      with g u True False show ?thesis by (simp add: deliver_def)
    qed
  qed
qed

lemma stream_httpd_bounded: "recv_bounded stream_httpd fd"
  by (auto simp: recv_bounded_def stream_httpd_def min_def split: if_splits)

lemma recv_returns_witness:
  "\<exists>r bs st'. hap_httpd_recv 5 9 (boot_net\<lparr>sess_at := [5 \<mapsto> zero_session\<lparr>ss_state := STATE_VERIFIED, ss_ctrl := Some 2\<rparr>],
     world := (\<lambda>_. [7], \<lambda>_. [], [])\<rparr>) = Some (r, bs, st')"
proof -
  let ?s = "zero_session\<lparr>ss_state := STATE_VERIFIED, ss_ctrl := Some 2\<rparr>"
  let ?st = "boot_net\<lparr>sess_at := [5 \<mapsto> ?s], world := (\<lambda>_. [7], \<lambda>_. [], [])\<rparr>"
  have t: "sessions ?st = replicate 8 None" by (simp add: sessions_def zero_priv_def HAP_MAX_SESSIONS_def)
  then have ok: "sessions_ok ?st" by (simp add: sessions_ok_def HAP_MAX_SESSIONS_def)
  have st: "recv_bounded (httpd ?st) 5" "aead_lawful (crypto ?st)" "httpd_sess_get_ctx (httpd ?st) 5 (world ?st) = Some 5"
    "sess_at ?st 5 = Some ?s" "ss_state ?s = STATE_VERIFIED" "ss_ctrl ?s = Some 2" "2 < HAP_MAX_CONTROLLERS"
    "length (ss_decrypt_nonce ?s) = 8" "frame_ok 5 (decrypt_frame ?st)"
    using stream_httpd_bounded demo_aead_lawful
    by (simp_all add: HAP_MAX_CONTROLLERS_def zero_session_def NONCE_LEN_def frame_ok_def zero_frame_def)
      (simp add: stream_httpd_def)
  have h: "\<forall>bs w. sock_recv (httpd ?st) 5 2 0 (world ?st) = (2, bs, w) \<longrightarrow> le_val bs \<le> 1024"
    by (simp add: stream_httpd_def)
  obtain r bs st' where "hap_httpd_recv 5 9 ?st = Some (r, bs, st')" "length bs \<le> 9"
    using recv_returns [OF st(1,2) ok st(3-9) h, where n = 9] by blast
  then show ?thesis by blast
qed

end
