(* ===== verification/Pair_Common.thy ===== *)
theory Pair_Common
  imports Hap_Session Tlv Hkdf
begin

text \<open>
  What the pairing handlers (\<open>esp_hap_pair_setup.c\<close>, \<open>esp_hap_pair_verify.c\<close>, \<open>esp_hap_pairings.c\<close>)
  share. A handler gets the request in the buffer in which it leaves the reply, a block of
  \<open>bufsize\<close> bytes, and the length of the request; its result is the return code, the buffer with \<open>*outlen\<close>,
  and the state. Arrays on the stack hold anything (\<open>stack_array\<close>) until they are written.
\<close>

type_synonym 'st reply = "int \<times> byte list \<times> int \<times> 'st"

definition error_reply :: "byte \<Rightarrow> byte \<Rightarrow> byte list \<Rightarrow> 'st \<Rightarrow> 'st reply option" where
  "error_reply state error buf st = do {
     (buf, outlen) \<leftarrow> hap_prepare_error_tlv state error buf (int (length buf));
     Some (HAP_FAIL, buf, outlen, st) }"

text \<open>\<open>get_value_from_tlv\<close> into a whole array.\<close>

definition tlv_read :: "byte list \<Rightarrow> int \<Rightarrow> byte \<Rightarrow> byte list \<Rightarrow> (int \<times> byte list) option" where
  "tlv_read buf inlen type val = do {
     (r, v) \<leftarrow> get_value_from_tlv (Some buf) inlen type (Some val) (int (length val));
     v \<leftarrow> v;
     Some (r, v) }"

text \<open>\<open>add_tlv\<close> for one item after the other, up to the first that fails (\<open>||\<close> of C).\<close>

primrec add_tlv_all :: "(byte \<times> int \<times> byte list) list \<Rightarrow> hap_tlv_data \<Rightarrow> (bool \<times> hap_tlv_data) option" where
  "add_tlv_all [] tlv = Some (True, tlv)"
| "add_tlv_all (x # xs) tlv = do {
     (r, tlv) \<leftarrow> add_tlv tlv (fst x) (fst (snd x)) (snd (snd x));
     if r < 0 then Some (False, tlv) else add_tlv_all xs tlv }"

text \<open>Successive \<open>memcpy\<close> of parts into an array of \<open>n\<close> bytes: the bytes written.\<close>

definition cat_into :: "nat \<Rightarrow> byte list list \<Rightarrow> byte list option" where
  "cat_into n parts = (if length (concat parts) \<le> n then Some (concat parts) else None)"

text \<open>\<open>strlen\<close> and the bytes before the terminator.\<close>

definition c_string :: "byte list \<Rightarrow> byte list option" where
  "c_string b = (if 0 \<in> set b then Some (c_str b) else None)"

text \<open>The nonce of a message: four zero bytes and the eight characters of its name.\<close>

definition msg_nonce :: "string \<Rightarrow> byte list" where
  "msg_nonce name = replicate 4 0 @ str_bytes name"

text \<open>\<open>hkdf\<close> with salt and info given as strings, for a key of 32 bytes.\<close>

definition derive :: "string \<Rightarrow> string \<Rightarrow> byte list \<Rightarrow> byte list option" where
  "derive salt info ikm = do {
     (_, key) \<leftarrow> hkdf (Some (str_bytes salt)) (Some ikm) (length ikm) (str_bytes info) (replicate 32 0) 32;
     Some key }"

definition HAP_ACC_ID_LEN :: nat where "HAP_ACC_ID_LEN = 18"

lemma derive_spec:
  assumes "8 * length ikm + 1024 < 2 ^ 128" "8 * length salt < 2 ^ 128" "8 * length info + 2048 < 2 ^ 128"
  shows "derive salt info ikm = Some (hkdf_spec (str_bytes salt) ikm (str_bytes info) 32)"
  using hkdf_computes [of "Some ikm" "length ikm" ikm "str_bytes salt" "str_bytes info" "replicate 32 0" 32] assms
  by (simp add: derive_def c_bytes_def str_bytes_def)

section \<open>Messages\<close>

text \<open>A message as a list of items, and the buffer that holds it.\<close>

type_synonym items = "(byte \<times> byte list) list"

definition message :: "items \<Rightarrow> byte list" where
  "message xs = tlv_bytes (msg_frags xs)"

lemma message_Nil [simp]: "message [] = []"
  by (simp add: message_def)

lemma message_Cons: "message (x # xs) = tlv_bytes (tlv_frags (fst x) (snd x)) @ message xs"
  by (simp add: message_def)

lemma message_short [simp]:
  "length v \<le> 255 \<Longrightarrow> message ((t, v) # xs) = t # of_nat (length v) # v @ message xs"
  by (simp add: message_Cons tlv_bytes_frags_short)

lemma length_enc_ge: "length v + 2 \<le> length (tlv_bytes (tlv_frags t v))"
  by (simp add: length_tlv_frags)

lemma add_tlv_fits:
  assumes "bufptr tlv = Some b" "bufsize tlv = int (length b)" "curlen tlv = int n"
    "n + length (tlv_bytes (tlv_frags t v)) \<le> length b"
  shows "add_tlv tlv t (int (length v)) v = Some (int (length (tlv_bytes (tlv_frags t v))),
    tlv\<lparr>bufptr := Some (take n b @ tlv_bytes (tlv_frags t v) @ drop (n + length (tlv_bytes (tlv_frags t v))) b),
      curlen := int (n + length (tlv_bytes (tlv_frags t v)))\<rparr>)"
proof -
  let ?e = "tlv_bytes (tlv_frags t v)"
  have "wr_block b (int n) ?e = Some (take n b @ ?e @ drop (n + length ?e) b)"
    using assms(4) by (simp add: wr_block_def)
  moreover have "int (length v) + 2 \<le> bufsize tlv - curlen tlv"
    using assms length_enc_ge [of v t] by linarith
  ultimately show ?thesis using add_tlv_bytes [OF assms(1,2), of t v] assms(3) by (simp add: Let_def)
qed

text \<open>One more item behind the bytes that are already there.\<close>

lemma add_tlv_step:
  assumes "length P + length (tlv_bytes (tlv_frags t v)) \<le> length s" "Q = P @ tlv_bytes (tlv_frags t v)" "n = int (length v)"
  shows "\<exists>r. add_tlv \<lparr>bufptr = Some (P @ drop (length P) s), bufsize = int (length s), curlen = int (length P)\<rparr> t n v =
    Some (r, \<lparr>bufptr = Some (Q @ drop (length Q) s), bufsize = int (length s), curlen = int (length Q)\<rparr>)"
  using add_tlv_fits [of "\<lparr>bufptr = Some (P @ drop (length P) s), bufsize = int (length s), curlen = int (length P)\<rparr>" "P @ drop (length P) s"
      "length P" t v] assms by (simp add: ac_simps)

definition to_add :: "items \<Rightarrow> (byte \<times> int \<times> byte list) list" where
  "to_add xs = map (\<lambda>(t, v). (t, int (length v), v)) xs"

lemma to_add_simps: "to_add [] = []" "to_add ((t, v) # xs) = (t, int (length v), v) # to_add xs"
  by (simp_all add: to_add_def)

lemma add_tlv_all_fits:
  assumes "bufptr tlv = Some b" "bufsize tlv = int (length b)" "curlen tlv = int n"
    "n + length (message xs) \<le> length b"
  shows "add_tlv_all (to_add xs) tlv = Some (True,
    tlv\<lparr>bufptr := Some (take n b @ message xs @ drop (n + length (message xs)) b), curlen := int (n + length (message xs))\<rparr>)"
  using assms
proof (induction xs arbitrary: tlv b n)
  case Nil
  then show ?case by (cases tlv) (simp add: to_add_def)
next
  case (Cons x xs)
  obtain t v where x: "x = (t, v)" by fastforce
  let ?e = "tlv_bytes (tlv_frags t v)"
  let ?b = "take n b @ ?e @ drop (n + length ?e) b"
  have len: "n + length ?e \<le> length b" using Cons.prems(4) by (simp add: x message_Cons)
  have "length ?b = length b" using len by simp
  note ih = Cons.IH [of "tlv\<lparr>bufptr := Some ?b, curlen := int (n + length ?e)\<rparr>" ?b "n + length ?e"]
  have "0 \<le> int (length ?e)" by simp
  with add_tlv_fits [OF Cons.prems(1-3) len] ih Cons.prems len show ?case
    by (simp add: x to_add_simps message_Cons ac_simps min_absorb2)
qed

lemma add_tlv_all_message:
  assumes "length (message xs) \<le> length b"
  shows "add_tlv_all (to_add xs) (hap_tlv_data_init (Some b) (int (length b))) = Some (True,
    \<lparr>bufptr = Some (message xs @ drop (length (message xs)) b), bufsize = int (length b), curlen = int (length (message xs))\<rparr>)"
  using add_tlv_all_fits [of "hap_tlv_data_init (Some b) (int (length b))" b 0 xs] assms
  by (simp add: hap_tlv_data_init_def)

lemma tlv_read_item:
  assumes "take (length (message xs)) buf = message xs" "inlen = int (length (message xs))"
    "map_of xs t = Some v" "terminated t xs" "length v \<le> length val"
  shows "tlv_read buf inlen t val = Some (int (length v), v @ drop (length v) val)"
proof -
  let ?fs = "msg_frags xs"
  have buf: "buf = tlv_bytes ?fs @ drop (length (message xs)) buf"
    using assms(1) by (metis append_take_drop_id message_def)
  have "wr_block val 0 v = Some (v @ drop (length v) val)" using assms(5) by (simp add: wr_block_def)
  with get_value_loop_stream [of ?fs 0 "int (length val)" val "[]" "drop (length (message xs)) buf" t False]
    tlv_find_msg [OF assms(3,4)] assms(2,5) buf show ?thesis
    by (auto simp: tlv_read_def get_value_from_tlv_def message_def)
qed

lemma error_reply_bytes:
  "6 \<le> length buf \<Longrightarrow> error_reply state e buf st =
     Some (HAP_FAIL, message [(kTLVType_State, [state]), (kTLVType_Error, [e])] @ drop 6 buf, 6, st)"
  using hap_prepare_error_tlv_bytes [of buf "int (length buf)" state e] by (simp add: error_reply_def)

text \<open>Reads of any request: inside the buffer, with at most the bytes of the array.\<close>

lemma tlv_read_total:
  assumes "inlen + 1 \<le> int (length buf)"
  shows "\<exists>r v. tlv_read buf inlen t val = Some (r, v) \<and> length v = length val \<and> (r = - 1 \<or> 0 \<le> r \<and> r \<le> int (length val))"
  using get_value_loop_safe [of 0 inlen buf 0 "int (length val)" val t False] assms
  by (auto simp: tlv_read_def get_value_from_tlv_def)

lemma get_value_loop_length:
  "get_value_loop buf n t cur val sz k f = Some (r, v) \<Longrightarrow> length v = length val"
proof (induction "nat n" arbitrary: n cur val sz k f r v rule: less_induct)
  case less
  have ih: "length v' = length val'"
    if "get_value_loop buf (n - (2 + uint (l :: byte))) t cur' val' sz' k' f' = Some (r', v')" "0 < n \<or> \<not> n - uint l < 2"
    for l cur' val' sz' k' f' r' v'
  proof (rule less.hyps [OF _ that(1)])
    have "0 \<le> uint l" by simp
    with that(2) show "nat (n - (2 + uint l)) < nat n" by linarith
  qed
  show ?case using less.prems
    by (subst (asm) get_value_loop.simps)
      (auto simp: Let_def split: if_splits bind_splits dest!: ih dest: length_wr_block)
qed

lemma tlv_read_length: "tlv_read buf inlen t val = Some (r, v) \<Longrightarrow> length v = length val"
  by (auto simp: tlv_read_def get_value_from_tlv_def split: bind_splits dest: get_value_loop_length)

end
