(* ===== verification/Pair_Verify.thy ===== *)
theory Pair_Verify
  imports Pair_Common Network_Io
begin

text \<open>
  Pair Verify (\<open>esp_hap_pair_verify.c\<close>): the station-to-station exchange by which a paired controller
  and the accessory agree on the keys of a session. The context of the exchange is a
  \<open>pair_verify_ctx\<close>, found by the context pointer of the HTTP session; when the exchange succeeds
  the pointer becomes that of the new session.
\<close>

section \<open>The code\<close>

definition zero_pv :: pair_verify_ctx where
  "zero_pv = \<lparr>pv_state = 0, pv_ctrl_curve_pk = replicate 32 0, pv_acc_curve_pk = replicate 32 0,
     pv_hkdf_key = replicate 32 0, pv_shared_secret = replicate 32 0, pv_session = None\<rparr>"

definition pv_put ::
    "ptr \<Rightarrow> pair_verify_ctx \<Rightarrow> ('n, 'h, 'w, 's) hap_net_scheme \<Rightarrow> ('n, 'h, 'w, 's) hap_net_scheme" where
  "pv_put p v st = st\<lparr>pv_at := (pv_at st)(p \<mapsto> v)\<rparr>"

definition basepoint :: "byte list" where "basepoint = 9 # replicate 31 0"

text \<open>
  The encrypted part of M2: identifier and signature of the accessory under the session key, in an
  array of 102 bytes, with its length. The results of the two \<open>add_tlv\<close> are not looked at.
\<close>

definition pv_m2_edata ::
    "byte list \<Rightarrow> byte list \<Rightarrow> ('n, 'h, 'w, 's) hap_net_scheme \<Rightarrow> (byte list \<times> int) option" where
  "pv_m2_edata key ed_sign st = do {
     let acc_id = str_bytes (p_acc_id (priv st));
     let n = 4 + HAP_ACC_ID_LEN + nat ED_SIGN_LEN + nat POLY_AUTHTAG_LEN;
     let tlv = hap_tlv_data_init (Some (stack_array n st)) (int n);
     (_, tlv) \<leftarrow> add_tlv tlv kTLVType_Identifier (int (length acc_id)) acc_id;
     (_, tlv) \<leftarrow> add_tlv tlv kTLVType_Signature 64 ed_sign;
     subtlv \<leftarrow> bufptr tlv;
     msg \<leftarrow> rd_block subtlv 0 (curlen tlv);
     let (c, tag) = aead_encrypt (crypto st) key (msg_nonce ''PV-Msg02'') [] msg;
     edata \<leftarrow> wr_block (stack_array n st) 0 c;
     edata \<leftarrow> wr_block edata (curlen tlv) tag;
     Some (edata, curlen tlv + POLY_AUTHTAG_LEN) }"

definition hap_pair_verify_process_start ::
    "ptr option \<Rightarrow> byte list \<Rightarrow> int \<Rightarrow> ('n, 'h, 'w, 's) hap_net_scheme \<Rightarrow>
     ('n, 'h, 'w, 's) hap_net_scheme reply option" where
  "hap_pair_verify_process_start pv_ctx buf inlen st = (case pv_ctx of
       None \<Rightarrow> error_reply STATE_M2 kTLVError_Unknown buf st
     | Some p \<Rightarrow> do {
         v \<leftarrow> pv_at st p;
         (r, state) \<leftarrow> tlv_read buf inlen kTLVType_State (stack_array 1 st);
         if r < 0 then error_reply STATE_M2 kTLVError_Unknown buf st
         else do {
           (r, pk) \<leftarrow> tlv_read buf inlen kTLVType_PublicKey (pv_ctrl_curve_pk v);
           let v = v\<lparr>pv_ctrl_curve_pk := pk\<rparr>;
           if r < 0 then error_reply STATE_M2 kTLVError_Unknown buf (pv_put p v st)
           else if state ! 0 \<noteq> STATE_M1 then error_reply STATE_M2 kTLVError_Unknown buf (pv_put p v st)
           else do {
             let (acc_curve_sk, st) = esp_mfi_get_random 32 st;
             case curve25519 (crypto st) acc_curve_sk basepoint of
               None \<Rightarrow> error_reply STATE_M2 kTLVError_Unknown buf (pv_put p v st)
             | Some acc_pk \<Rightarrow> do {
                 let v = v\<lparr>pv_acc_curve_pk := acc_pk\<rparr>;
                 case curve25519 (crypto st) acc_curve_sk (pv_ctrl_curve_pk v) of
                   None \<Rightarrow> error_reply STATE_M2 kTLVError_Unknown buf (pv_put p v st)
                 | Some secret \<Rightarrow> do {
                     let v = v\<lparr>pv_shared_secret := secret\<rparr>;
                     acc_info \<leftarrow> cat_into (2 * 32 + HAP_ACC_ID_LEN)
                       [pv_acc_curve_pk v, str_bytes (p_acc_id (priv st)), pv_ctrl_curve_pk v];
                     let ed_sign = ed25519_sign (crypto st) (p_ltk (priv st)) acc_info;
                     key \<leftarrow> derive ''Pair-Verify-Encrypt-Salt'' ''Pair-Verify-Encrypt-Info'' (pv_shared_secret v);
                     let v = v\<lparr>pv_hkdf_key := key\<rparr>;
                     (edata, edata_len) \<leftarrow> pv_m2_edata (pv_hkdf_key v) ed_sign st;
                     (ok, tlv) \<leftarrow> add_tlv_all [(kTLVType_State, 1, [STATE_M2]),
                         (kTLVType_PublicKey, CURVE_KEY_LEN, pv_acc_curve_pk v),
                         (kTLVType_EncryptedData, edata_len, edata)] (hap_tlv_data_init (Some buf) (int (length buf)));
                     buf \<leftarrow> bufptr tlv;
                     if \<not> ok then error_reply STATE_M2 kTLVError_Unknown buf (pv_put p v st)
                     else Some (HAP_SUCCESS, buf, curlen tlv, pv_put p (v\<lparr>pv_state := STATE_M2\<rparr>) st) } } } } })"

text \<open>
  The last part of \<open>hap_pair_verify_process_finish\<close>, once the signature is good: the session is
  allocated, the keys are derived, and the session enters the table.
\<close>

definition pv_new_session ::
    "ptr \<Rightarrow> pair_verify_ctx \<Rightarrow> nat \<Rightarrow> byte list \<Rightarrow> ('n, 'h, 'w, 's) hap_net_scheme \<Rightarrow>
     ('n, 'h, 'w, 's) hap_net_scheme reply option" where
  "pv_new_session p v ctrl buf st = do {
     let (session, st) = new_addr st;
     case session of None \<Rightarrow> error_reply STATE_M4 kTLVError_Unknown buf st
     | Some q \<Rightarrow> do {
         (r, tlv) \<leftarrow> add_tlv (hap_tlv_data_init (Some buf) (int (length buf))) kTLVType_State 1 [STATE_M4];
         buf \<leftarrow> bufptr tlv;
         if r < 0 then error_reply STATE_M4 kTLVError_Unknown buf st
         else do {
           ek \<leftarrow> derive ''Control-Salt'' ''Control-Read-Encryption-Key'' (pv_shared_secret v);
           dk \<leftarrow> derive ''Control-Salt'' ''Control-Write-Encryption-Key'' (pv_shared_secret v);
           let s = zero_session\<lparr>ss_encrypt_key := ek, ss_decrypt_key := dk, ss_state := STATE_VERIFIED,
             ss_encrypt_nonce := replicate 8 0, ss_decrypt_nonce := replicate 8 0, ss_ctrl := Some ctrl\<rparr>;
           let st = pv_put p (v\<lparr>pv_state := STATE_VERIFIED, pv_session := Some q\<rparr>) (st\<lparr>sess_at := (sess_at st)(q \<mapsto> s)\<rparr>);
           st \<leftarrow> hap_add_secure_session q st;
           Some (HAP_SUCCESS, buf, curlen tlv, st) } } }"

text \<open>What M3 carries, decrypted in place in an array of 148 bytes.\<close>

definition pv_decrypt ::
    "byte list \<Rightarrow> byte list \<Rightarrow> int \<Rightarrow> hap_crypto \<Rightarrow> byte list option option" where
  "pv_decrypt key edata edata_len cr = do {
     c \<leftarrow> rd_block edata 0 (edata_len - POLY_AUTHTAG_LEN);
     tag \<leftarrow> rd_block edata (edata_len - POLY_AUTHTAG_LEN) POLY_AUTHTAG_LEN;
     case aead_decrypt cr key (msg_nonce ''PV-Msg03'') [] c tag of
       None \<Rightarrow> Some None
     | Some m \<Rightarrow> do { edata \<leftarrow> wr_block edata 0 m; Some (Some edata) } }"

definition hap_pair_verify_process_finish ::
    "ptr option \<Rightarrow> byte list \<Rightarrow> int \<Rightarrow> ('n, 'h, 'w, 's) hap_net_scheme \<Rightarrow>
     ('n, 'h, 'w, 's) hap_net_scheme reply option" where
  "hap_pair_verify_process_finish pv_ctx buf inlen st = (case pv_ctx of
       None \<Rightarrow> error_reply STATE_M4 kTLVError_Unknown buf st
     | Some p \<Rightarrow> do {
         v \<leftarrow> pv_at st p;
         (r, state) \<leftarrow> tlv_read buf inlen kTLVType_State (stack_array 1 st);
         if r < 0 then error_reply STATE_M4 kTLVError_Unknown buf st
         else do {
           (edata_len, edata) \<leftarrow> tlv_read buf inlen kTLVType_EncryptedData
             (stack_array (4 + HAP_CTRL_ID_LEN + nat ED_SIGN_LEN + nat POLY_AUTHTAG_LEN) st);
           if edata_len < 0 then error_reply STATE_M4 kTLVError_Unknown buf st
           else if state ! 0 \<noteq> STATE_M3 then error_reply STATE_M4 kTLVError_Unknown buf st
           else do {
             d \<leftarrow> pv_decrypt (pv_hkdf_key v) edata edata_len (crypto st);
             case d of None \<Rightarrow> error_reply STATE_M4 kTLVError_Authentication buf st
             | Some edata \<Rightarrow> do {
                 let edata_len = edata_len - POLY_AUTHTAG_LEN;
                 (r, ctrl_id) \<leftarrow> tlv_read edata edata_len kTLVType_Identifier (replicate HAP_CTRL_ID_LEN 0);
                 if r < 0 then error_reply STATE_M4 kTLVError_Unknown buf st
                 else do {
                   (r, ed_sign) \<leftarrow> tlv_read edata edata_len kTLVType_Signature (stack_array 64 st);
                   if r < 0 then error_reply STATE_M4 kTLVError_Unknown buf st
                   else do {
                     ctrl \<leftarrow> hap_get_controller ctrl_id st;
                     case ctrl of None \<Rightarrow> error_reply STATE_M4 kTLVError_Authentication buf st
                     | Some i \<Rightarrow> do {
                         id_str \<leftarrow> c_string ctrl_id;
                         ios_dev_info \<leftarrow> cat_into (2 * 32 + HAP_CTRL_ID_LEN)
                           [pv_ctrl_curve_pk v, id_str, pv_acc_curve_pk v];
                         if \<not> ed25519_verify (crypto st) (info_ltpk (ci_info (p_controllers (priv st) ! i))) ed_sign ios_dev_info
                         then error_reply STATE_M4 kTLVError_Authentication buf st
                         else pv_new_session p v i buf st } } } } } } })"

text \<open>The context pointer of the HTTP session is passed and returned.\<close>

definition hap_pair_verify_process ::
    "ptr option \<Rightarrow> byte list \<Rightarrow> int \<Rightarrow> ('n, 'h, 'w, 's) hap_net_scheme \<Rightarrow>
     (ptr option \<times> ('n, 'h, 'w, 's) hap_net_scheme reply) option" where
  "hap_pair_verify_process ctx buf inlen st = do {
     state \<leftarrow> (case ctx of None \<Rightarrow> Some None | Some p \<Rightarrow> map_option Some (ctx_state p st));
     if state = Some STATE_M0 then do {
       rep \<leftarrow> hap_pair_verify_process_start ctx buf inlen st; Some (ctx, rep) }
     else if state = Some STATE_M2 then do {
       (ret, buf, outlen, st) \<leftarrow> hap_pair_verify_process_finish ctx buf inlen st;
       if ret = HAP_SUCCESS then do {
         p \<leftarrow> ctx; v \<leftarrow> pv_at st p;
         Some (pv_session v, ret, buf, outlen, st\<lparr>pv_at := (pv_at st)(p := None)\<rparr>) }
       else Some (ctx, ret, buf, outlen, st) }
     else do { rep \<leftarrow> error_reply STATE_M2 kTLVError_Unknown buf st; Some (ctx, rep) } }"

definition hap_pair_verify_context_init ::
    "ptr option \<Rightarrow> byte list \<Rightarrow> ('n, 'h, 'w, 's) hap_net_scheme \<Rightarrow>
     (ptr option \<times> ('n, 'h, 'w, 's) hap_net_scheme reply) option" where
  "hap_pair_verify_context_init ctx buf st = do {
     let (p, st) = new_addr st;
     case p of None \<Rightarrow> do { rep \<leftarrow> error_reply STATE_M2 kTLVError_Unknown buf st; Some (ctx, rep) }
     | Some a \<Rightarrow> Some (p, HAP_SUCCESS, buf, 0, pv_put a zero_pv st) }"

definition hap_pair_verify_get_state :: "ptr option \<Rightarrow> ('n, 'h, 'w, 's) hap_net_scheme \<Rightarrow> byte option" where
  "hap_pair_verify_get_state ctx st = (case ctx of None \<Rightarrow> Some 0 | Some p \<Rightarrow> ctx_state p st)"

section \<open>Who gets a session\<close>

lemma error_replyE:
  assumes "error_reply state e buf st = Some (ret, buf', n, st')"
  shows "ret = HAP_FAIL \<and> st' = st"
  using assms by (auto simp: error_reply_def split: bind_splits)

lemma new_addr_sess [simp]: "sess_at (snd (new_addr st)) = sess_at st" "pv_at (snd (new_addr st)) = pv_at st"
  "priv (snd (new_addr st)) = priv st" "crypto (snd (new_addr st)) = crypto st"
  by (simp_all add: new_addr_def)

lemma pv_put_simps [simp]:
  "sess_at (pv_put p v st) = sess_at st" "pv_at (pv_put p v st) = (pv_at st)(p \<mapsto> v)"
  "priv (pv_put p v st) = priv st" "crypto (pv_put p v st) = crypto st"
  by (simp_all add: pv_put_def)

lemma mfi_randomD:
  "esp_mfi_get_random n st = (b, st') \<Longrightarrow> sess_at st' = sess_at st \<and> pv_at st' = pv_at st \<and> priv st' = priv st \<and>
    crypto st' = crypto st \<and> stack_mem st' = stack_mem st"
  by (auto simp: esp_mfi_get_random_def)

lemma add_secure_session_keeps:
  assumes "hap_add_secure_session q st = Some st'"
  shows "sess_at st' = sess_at st \<and> pv_at st' = pv_at st \<and> crypto st' = crypto st \<and>
    p_controllers (priv st') = p_controllers (priv st)"
  using assms by (auto simp: hap_add_secure_session_def upd_priv_def hap_report_event_def split: option.splits bind_splits)

lemma strcmp_eq_True: "strcmp_eq a b = Some True \<Longrightarrow> c_str a = c_str b"
  by (induction a b rule: strcmp_eq.induct) (auto simp: c_str_def split: if_splits)

lemma find_ctrl_Some:
  "find_ctrl ctrl_id cs is = Some (Some i) \<Longrightarrow> i \<in> set is \<and> ci_valid (cs ! i) \<and> c_str (ci_info (cs ! i)) = c_str ctrl_id"
  by (induction "is") (auto split: if_splits bind_splits dest: strcmp_eq_True)

lemma get_controller_Some:
  "hap_get_controller ctrl_id st = Some (Some i) \<Longrightarrow> i < HAP_MAX_CONTROLLERS \<and> ci_valid (p_controllers (priv st) ! i) \<and>
    c_str (ci_info (p_controllers (priv st) ! i)) = c_str ctrl_id"
  unfolding hap_get_controller_def by (drule find_ctrl_Some) auto

lemma start_keeps_sessions:
  assumes "hap_pair_verify_process_start ctx buf inlen st = Some (ret, buf', n, st')"
  shows "sess_at st' = sess_at st"
  using assms unfolding hap_pair_verify_process_start_def
  by (auto simp: Let_def split: option.splits bind_splits if_splits prod.splits dest!: error_replyE mfi_randomD)

text \<open>The session that the exchange gives, from the shared secret and the controller.\<close>

definition verified_session :: "byte list \<Rightarrow> nat \<Rightarrow> hap_secure_session" where
  "verified_session secret ctrl = zero_session\<lparr>ss_state := STATE_VERIFIED,
     ss_encrypt_key := hkdf_spec (str_bytes ''Control-Salt'') secret (str_bytes ''Control-Read-Encryption-Key'') 32,
     ss_decrypt_key := hkdf_spec (str_bytes ''Control-Salt'') secret (str_bytes ''Control-Write-Encryption-Key'') 32,
     ss_ctrl := Some ctrl\<rparr>"

lemma new_session_result:
  assumes "pv_new_session p v ctrl buf st = Some (ret, buf', n, st')" "8 * length (pv_shared_secret v) + 1024 < 2 ^ 128"
  shows "ret = HAP_FAIL \<and> sess_at st' = sess_at st \<or>
    (\<exists>q. ret = HAP_SUCCESS \<and> sess_at st' = (sess_at st)(q \<mapsto> verified_session (pv_shared_secret v) ctrl) \<and>
      pv_at st' = (pv_at st)(p \<mapsto> v\<lparr>pv_state := STATE_VERIFIED, pv_session := Some q\<rparr>))"
proof -
  have k: "derive ''Control-Salt'' ''Control-Read-Encryption-Key'' (pv_shared_secret v) =
      Some (hkdf_spec (str_bytes ''Control-Salt'') (pv_shared_secret v) (str_bytes ''Control-Read-Encryption-Key'') 32)"
    "derive ''Control-Salt'' ''Control-Write-Encryption-Key'' (pv_shared_secret v) =
      Some (hkdf_spec (str_bytes ''Control-Salt'') (pv_shared_secret v) (str_bytes ''Control-Write-Encryption-Key'') 32)"
    using assms(2) by (simp_all add: derive_spec)
  have z: "zero_session\<lparr>ss_encrypt_key := a, ss_decrypt_key := b, ss_state := STATE_VERIFIED,
      ss_encrypt_nonce := replicate 8 0, ss_decrypt_nonce := replicate 8 0, ss_ctrl := Some ctrl\<rparr> =
    zero_session\<lparr>ss_state := STATE_VERIFIED, ss_encrypt_key := a, ss_decrypt_key := b, ss_ctrl := Some ctrl\<rparr>" for a b
    by (simp add: zero_session_def NONCE_LEN_def)
  show ?thesis
    using assms(1) unfolding pv_new_session_def k z verified_session_def
    by (auto simp: new_addr_def Let_def split: option.splits bind_splits if_splits prod.splits
        dest!: error_replyE add_secure_session_keeps simp del: fun_upd_apply)
qed

lemma finish_result:
  assumes "hap_pair_verify_process_finish (Some p) buf inlen st = Some (ret, buf', n, st')" "pv_at st p = Some v"
    "8 * length (pv_shared_secret v) + 1024 < 2 ^ 128"
  shows "ret = HAP_FAIL \<and> sess_at st' = sess_at st \<or>
    (\<exists>i c tag m id sig q. aead_decrypt (crypto st) (pv_hkdf_key v) (msg_nonce ''PV-Msg03'') [] c tag = Some m \<and>
       i < HAP_MAX_CONTROLLERS \<and> ci_valid (p_controllers (priv st) ! i) \<and> c_str (ci_info (p_controllers (priv st) ! i)) = id \<and>
       ed25519_verify (crypto st) (info_ltpk (ci_info (p_controllers (priv st) ! i))) sig
         (pv_ctrl_curve_pk v @ id @ pv_acc_curve_pk v) \<and>
       ret = HAP_SUCCESS \<and> sess_at st' = (sess_at st)(q \<mapsto> verified_session (pv_shared_secret v) i) \<and>
       pv_at st' = (pv_at st)(p \<mapsto> v\<lparr>pv_state := STATE_VERIFIED, pv_session := Some q\<rparr>))"
proof (cases "ret = HAP_FAIL \<and> sess_at st' = sess_at st")
  case False
  have "\<exists>edata edata_len d ctrl_id sig i. pv_decrypt (pv_hkdf_key v) edata edata_len (crypto st) = Some (Some d) \<and>
      hap_get_controller ctrl_id st = Some (Some i) \<and>
      ed25519_verify (crypto st) (info_ltpk (ci_info (p_controllers (priv st) ! i))) sig
         (pv_ctrl_curve_pk v @ c_str ctrl_id @ pv_acc_curve_pk v) \<and>
      pv_new_session p v i buf st = Some (ret, buf', n, st')"
    using assms(1,2) False unfolding hap_pair_verify_process_finish_def
    by (auto simp: Let_def cat_into_def c_string_def split: option.split_asm bind_split_asm if_split_asm prod.splits dest!: error_replyE)

  then obtain edata edata_len d ctrl_id sig i where
      e: "pv_decrypt (pv_hkdf_key v) edata edata_len (crypto st) = Some (Some d)"
      and r: "hap_get_controller ctrl_id st = Some (Some i)"
      "ed25519_verify (crypto st) (info_ltpk (ci_info (p_controllers (priv st) ! i))) sig
         (pv_ctrl_curve_pk v @ c_str ctrl_id @ pv_acc_curve_pk v)"
      "pv_new_session p v i buf st = Some (ret, buf', n, st')" by blast
  have "\<exists>c tag m. aead_decrypt (crypto st) (pv_hkdf_key v) (msg_nonce ''PV-Msg03'') [] c tag = Some m"
    using e by (auto simp: pv_decrypt_def split: bind_splits option.splits)
  moreover obtain q where "ret = HAP_SUCCESS" "sess_at st' = (sess_at st)(q \<mapsto> verified_session (pv_shared_secret v) i)"
    "pv_at st' = (pv_at st)(p \<mapsto> v\<lparr>pv_state := STATE_VERIFIED, pv_session := Some q\<rparr>)"
    using new_session_result [OF r(3) assms(3)] False by blast
  moreover note get_controller_Some [OF r(1)] r(2)
  ultimately show ?thesis by (intro disjI2) blast
qed blast


text \<open>C3: A request can only leave the sessions as they are, unless the exchange was at its second step, the
  encrypted part of the request opened under the key of the exchange, and it carries a signature of a
  controller in the table over the public keys of the exchange and its own identifier. Then there is one new
  session, it belongs to this controller, its keys come from the shared secret, and it replaces the context.\<close>

theorem pair_verify_authenticated:
  assumes "hap_pair_verify_process ctx buf inlen st = Some (ctx', ret, buf', n, st')"
    and "\<forall>p v. pv_at st p = Some v \<longrightarrow> length (pv_shared_secret v) = 32"
  shows "ctx' = ctx \<and> sess_at st' = sess_at st \<or>
    (\<exists>p v i sig q c tag m. ctx = Some p \<and> ctx_state p st = Some STATE_M2 \<and> pv_at st p = Some v \<and> ret = HAP_SUCCESS \<and>
       aead_decrypt (crypto st) (pv_hkdf_key v) (msg_nonce ''PV-Msg03'') [] c tag = Some m \<and>
       i < HAP_MAX_CONTROLLERS \<and> ci_valid (p_controllers (priv st) ! i) \<and>
       ed25519_verify (crypto st) (info_ltpk (ci_info (p_controllers (priv st) ! i))) sig
         (pv_ctrl_curve_pk v @ c_str (ci_info (p_controllers (priv st) ! i)) @ pv_acc_curve_pk v) \<and>
       ctx' = Some q \<and> sess_at st' = (sess_at st)(q \<mapsto> verified_session (pv_shared_secret v) i) \<and>
       pv_at st' = (pv_at st)(p := None))"
proof -
  consider (start) rep where "hap_pair_verify_process_start ctx buf inlen st = Some rep" "ctx' = ctx" "rep = (ret, buf', n, st')"
    | (fail) "error_reply STATE_M2 kTLVError_Unknown buf st = Some (ret, buf', n, st')" "ctx' = ctx"
    | (finish) p st1 where "ctx = Some p" "ctx_state p st = Some STATE_M2"
        "hap_pair_verify_process_finish ctx buf inlen st = Some (ret, buf', n, st1)"
        "if ret = HAP_SUCCESS then \<exists>v. pv_at st1 p = Some v \<and> ctx' = pv_session v \<and> st' = st1\<lparr>pv_at := (pv_at st1)(p := None)\<rparr>
          else ctx' = ctx \<and> st' = st1"
  proof (cases ctx)
    case None
    with assms(1) fail show thesis
      by (auto simp: hap_pair_verify_process_def split: bind_splits)
  next
    case (Some p)
    then obtain s where s: "ctx_state p st = Some s" using assms(1)
      by (cases "ctx_state p st") (simp_all add: hap_pair_verify_process_def)
    show thesis
    proof (cases "s = STATE_M0")
      case True
      with assms(1) Some s start show thesis by (auto simp: hap_pair_verify_process_def split: bind_splits)
    next
      case m0: False
      show thesis
      proof (cases "s = STATE_M2")
        case True
        obtain rep st1 where f: "hap_pair_verify_process_finish ctx buf inlen st = Some (fst rep, fst (snd rep), snd (snd rep), st1)"
          using assms(1) Some s m0 True by (auto simp: hap_pair_verify_process_def split: bind_splits)
        show thesis
        proof (cases "fst rep = HAP_SUCCESS")
          case ok: True
          then show thesis using assms(1) Some s m0 True f finish [of p st1]
            by (auto simp: hap_pair_verify_process_def split: bind_splits)
        next
          case bad: False
          then show thesis using assms(1) Some s m0 True f finish [of p st1]
            by (auto simp: hap_pair_verify_process_def)
        qed
      next
        case False
        with assms(1) Some s m0 fail show thesis by (auto simp: hap_pair_verify_process_def split: bind_splits)
      qed
    qed
  qed
  then show ?thesis
  proof cases
    case start
    then show ?thesis using start_keeps_sessions by blast
  next
    case fail
    then show ?thesis using error_replyE [OF fail(1)] by simp
  next
    case (finish p st1)
    obtain v where v: "pv_at st p = Some v"
      using finish(1,3) by (auto simp: hap_pair_verify_process_finish_def split: bind_splits)
    then have len: "8 * length (pv_shared_secret v) + 1024 < 2 ^ 128" using assms(2) by simp
    from finish_result [OF finish(3) [unfolded finish(1)] v len] show ?thesis
    proof
      assume "ret = HAP_FAIL \<and> sess_at st1 = sess_at st"
      with finish(4) show ?thesis by simp
    next
      assume r: "\<exists>i c tag m id sig q. aead_decrypt (crypto st) (pv_hkdf_key v) (msg_nonce ''PV-Msg03'') [] c tag = Some m \<and>
       i < HAP_MAX_CONTROLLERS \<and> ci_valid (p_controllers (priv st) ! i) \<and> c_str (ci_info (p_controllers (priv st) ! i)) = id \<and>
       ed25519_verify (crypto st) (info_ltpk (ci_info (p_controllers (priv st) ! i))) sig
         (pv_ctrl_curve_pk v @ id @ pv_acc_curve_pk v) \<and>
       ret = HAP_SUCCESS \<and> sess_at st1 = (sess_at st)(q \<mapsto> verified_session (pv_shared_secret v) i) \<and>
       pv_at st1 = (pv_at st)(p \<mapsto> v\<lparr>pv_state := STATE_VERIFIED, pv_session := Some q\<rparr>)"
      then obtain i c tag m sig q where r: "aead_decrypt (crypto st) (pv_hkdf_key v) (msg_nonce ''PV-Msg03'') [] c tag = Some m"
       "i < HAP_MAX_CONTROLLERS" "ci_valid (p_controllers (priv st) ! i)"
       "ed25519_verify (crypto st) (info_ltpk (ci_info (p_controllers (priv st) ! i))) sig
         (pv_ctrl_curve_pk v @ c_str (ci_info (p_controllers (priv st) ! i)) @ pv_acc_curve_pk v)"
       "ret = HAP_SUCCESS" "sess_at st1 = (sess_at st)(q \<mapsto> verified_session (pv_shared_secret v) i)"
       "pv_at st1 = (pv_at st)(p \<mapsto> v\<lparr>pv_state := STATE_VERIFIED, pv_session := Some q\<rparr>)" by blast
      have "ctx' = Some q" "sess_at st' = sess_at st1" "pv_at st' = (pv_at st)(p := None)"
        using finish(4) r(5,7) by auto
      with r finish(1,2) v show ?thesis
        by (intro disjI2 exI [of _ p] exI [of _ v] exI [of _ i] exI [of _ sig] exI [of _ q] exI [of _ c] exI [of _ tag] exI [of _ m]) simp
    qed
  qed
qed

section \<open>An honest controller\<close>

text \<open>
  The documented behaviour of Curve25519 and Ed25519: the sizes, and the agreement of the two sides
  of a key exchange. A key pair of Ed25519 verifies what it signed.
\<close>

definition curve_lawful :: "hap_crypto \<Rightarrow> bool" where
  "curve_lawful cr \<longleftrightarrow>
     (\<forall>sk pk s. length sk = 32 \<longrightarrow> length pk = 32 \<longrightarrow> curve25519 cr sk pk = Some s \<longrightarrow> length s = 32) \<and>
     (\<forall>a b A B. length a = 32 \<longrightarrow> length b = 32 \<longrightarrow> curve25519 cr a basepoint = Some A \<longrightarrow> curve25519 cr b basepoint = Some B \<longrightarrow>
        curve25519 cr a B = curve25519 cr b A) \<and>
     (\<forall>sk m. length sk = 64 \<longrightarrow> length (ed25519_sign cr sk m) = 64)"

definition key_pair :: "hap_crypto \<Rightarrow> byte list \<Rightarrow> byte list \<Rightarrow> bool" where
  "key_pair cr sk pk \<longleftrightarrow> length sk = 64 \<and> length pk = 32 \<and> (\<forall>m. ed25519_verify cr pk (ed25519_sign cr sk m) m)"

definition seal :: "hap_crypto \<Rightarrow> byte list \<Rightarrow> string \<Rightarrow> byte list \<Rightarrow> byte list" where
  "seal cr key name m = (case aead_encrypt cr key (msg_nonce name) [] m of (c, t) \<Rightarrow> c @ t)"

definition pv_key :: "byte list \<Rightarrow> byte list" where
  "pv_key secret = hkdf_spec (str_bytes ''Pair-Verify-Encrypt-Salt'') secret (str_bytes ''Pair-Verify-Encrypt-Info'') 32"

text \<open>The four messages.\<close>

definition pv_m1 :: "byte list \<Rightarrow> items" where
  "pv_m1 pk = [(kTLVType_State, [STATE_M1]), (kTLVType_PublicKey, pk)]"

definition pv_m2 :: "hap_crypto \<Rightarrow> byte list \<Rightarrow> byte list \<Rightarrow> byte list \<Rightarrow> byte list \<Rightarrow> byte list \<Rightarrow> items" where
  "pv_m2 cr ltsk acc_id apk cpk secret = [(kTLVType_State, [STATE_M2]), (kTLVType_PublicKey, apk),
     (kTLVType_EncryptedData, seal cr (pv_key secret) ''PV-Msg02''
       (message [(kTLVType_Identifier, acc_id), (kTLVType_Signature, ed25519_sign cr ltsk (apk @ acc_id @ cpk))]))]"

definition pv_m3 :: "hap_crypto \<Rightarrow> byte list \<Rightarrow> byte list \<Rightarrow> byte list \<Rightarrow> byte list \<Rightarrow> byte list \<Rightarrow> items" where
  "pv_m3 cr ltsk ctrl_id apk cpk secret = [(kTLVType_State, [STATE_M3]),
     (kTLVType_EncryptedData, seal cr (pv_key secret) ''PV-Msg03''
       (message [(kTLVType_Identifier, ctrl_id), (kTLVType_Signature, ed25519_sign cr ltsk (cpk @ ctrl_id @ apk))]))]"

lemma length_seal: "aead_lawful cr \<Longrightarrow> length (seal cr k name m) = length m + 16"
  by (auto simp: seal_def aead_lawful_def split: prod.split)

lemma length_le_bytes4 [simp]: "length (concat (map (\<lambda>i. le_bytes 4 (f i)) xs)) = 4 * length xs"
  by (induction xs) simp_all

lemma mfi_random_32:
  assumes "esp_mfi_get_random 32 st = (b, st1)"
  shows "length b = 32"
  using assms by (auto simp: esp_mfi_get_random_def)

lemma length_msg_nonce: "length (msg_nonce name) = 4 + length name"
  by (simp add: msg_nonce_def str_bytes_def)

text \<open>A request that starts with the bytes of a message, as the handler gets it.\<close>

definition request :: "items \<Rightarrow> byte list \<Rightarrow> int \<Rightarrow> bool" where
  "request xs buf inlen \<longleftrightarrow> take (length (message xs)) buf = message xs \<and> inlen = int (length (message xs))"

lemma request_read:
  "request xs buf inlen \<Longrightarrow> map_of xs t = Some v \<Longrightarrow> terminated t xs \<Longrightarrow> length v \<le> length val \<Longrightarrow>
    tlv_read buf inlen t val = Some (int (length v), v @ drop (length v) val)"
  unfolding request_def using tlv_read_item by blast

lemma seal_m2:
  assumes "aead_lawful (crypto st)" "length (p_acc_id (priv st)) < HAP_ACC_ID_LEN" "length sig = 64"
  shows "\<exists>edata. pv_m2_edata key sig st = Some (edata, int (length (p_acc_id (priv st))) + 84) \<and>
    take (length (p_acc_id (priv st)) + 84) edata = seal (crypto st) key ''PV-Msg02''
      (message [(kTLVType_Identifier, str_bytes (p_acc_id (priv st))), (kTLVType_Signature, sig)])"
proof -
  let ?id = "str_bytes (p_acc_id (priv st))"
  let ?m1 = "message [(kTLVType_Identifier, ?id)]" and ?m = "message [(kTLVType_Identifier, ?id), (kTLVType_Signature, sig)]"
  let ?k = "length (p_acc_id (priv st))"
  have k: "length ?id = ?k" "?k \<le> 17" using assms(2) by (simp_all add: str_bytes_def HAP_ACC_ID_LEN_def)
  have len: "length ?m = ?k + 68" using k assms(3) by simp
  obtain c tag where ct: "aead_encrypt (crypto st) key (msg_nonce ''PV-Msg02'') [] ?m = (c, tag)" by fastforce
  then have l: "length c = ?k + 68" "length tag = 16" using assms(1) len unfolding aead_lawful_def by metis+
  let ?s = "stack_array 102 st" and ?e1 = "tlv_bytes (tlv_frags kTLVType_Identifier ?id)" and ?e2 = "tlv_bytes (tlv_frags kTLVType_Signature sig)"
  have e: "length ?e1 = ?k + 2" "length ?e2 = 66" "?e1 @ ?e2 = ?m" using k assms(3)
    by (simp_all add: tlv_bytes_frags_short)
  let ?t1 = "\<lparr>bufptr = Some (?e1 @ drop (?k + 2) ?s), bufsize = 102, curlen = int (?k + 2)\<rparr>"
  have a1: "add_tlv (hap_tlv_data_init (Some ?s) 102) kTLVType_Identifier (int (length ?id)) ?id = Some (int (?k + 2), ?t1)"
    using add_tlv_fits [of "hap_tlv_data_init (Some ?s) 102" ?s 0 kTLVType_Identifier ?id] e(1) k
    by (simp add: hap_tlv_data_init_def)
  have "add_tlv ?t1 kTLVType_Signature (int (length sig)) sig =
      Some (66, \<lparr>bufptr = Some (?m @ drop (?k + 68) ?s), bufsize = 102, curlen = int (?k + 68)\<rparr>)"
    using add_tlv_fits [of ?t1 "?e1 @ drop (?k + 2) ?s" "?k + 2" kTLVType_Signature sig] e(1,2) k
    unfolding e(3) [symmetric] by (simp add: ac_simps)
  then have a2: "add_tlv ?t1 kTLVType_Signature 64 sig =
      Some (66, \<lparr>bufptr = Some (?m @ drop (?k + 68) ?s), bufsize = 102, curlen = int (?k + 68)\<rparr>)"
    using assms(3) by simp
  have r: "rd_block (?m @ drop (?k + 68) ?s) 0 (int (?k + 68)) = Some ?m"
    using len k(2) by (simp add: rd_block_def del: message_short)
  have w1: "wr_block ?s 0 c = Some (c @ drop (?k + 68) ?s)" using l k by (simp add: wr_block_def)
  have w2: "wr_block (c @ drop (?k + 68) ?s) (int (?k + 68)) tag = Some (c @ tag @ drop (?k + 84) ?s)"
    using l k by (simp add: wr_block_def nat_add_distrib ac_simps)
  have "pv_m2_edata key sig st = Some (c @ tag @ drop (?k + 84) ?s, int ?k + 84)"
    using a1 a2 r ct w1 w2 unfolding pv_m2_edata_def
    by (simp add: Let_def HAP_ACC_ID_LEN_def ED_SIGN_LEN_def POLY_AUTHTAG_LEN_def del: message_short)
  moreover have "seal (crypto st) key ''PV-Msg02'' ?m = c @ tag" using ct by (simp add: seal_def del: message_short)
  ultimately show ?thesis using l by (intro exI [of _ "c @ tag @ drop (?k + 84) ?s"]) simp
qed


lemma add_tlv_take:
  assumes "n \<le> length v"
  shows "add_tlv tlv t (int n) v = add_tlv tlv t (int n) (take n v)"
proof (cases "bufptr tlv")
  case (Some b)
  have "add_tlv_loop b (curlen tlv) t (int n) v 0 = add_tlv_loop b (curlen tlv) t (int n) (take n v) 0"
    using add_tlv_loop_bytes [of "int n" 0 v b "curlen tlv" t] add_tlv_loop_bytes [of "int n" 0 "take n v" b "curlen tlv" t] assms
    by simp
  with Some show ?thesis by (simp add: add_tlv_def)
qed (simp add: add_tlv_def)

lemma curve_lengths:
  assumes "curve_lawful cr"
  shows "length sk = 32 \<Longrightarrow> length pk = 32 \<Longrightarrow> curve25519 cr sk pk = Some s \<Longrightarrow> length s = 32"
    "length k = 64 \<Longrightarrow> length (ed25519_sign cr k m) = 64"
  using assms unfolding curve_lawful_def by blast+

lemma length_basepoint: "length basepoint = 32"
  by (simp add: basepoint_def)

lemma start_ok:
  assumes v: "pv_at st p = Some v" "length (pv_ctrl_curve_pk v) = 32"
    and req: "request (pv_m1 pk) buf inlen" "length pk = 32"
    and rng: "esp_mfi_get_random 32 st = (sk, st1)"
    and keys: "curve25519 (crypto st) sk basepoint = Some apk" "curve25519 (crypto st) sk pk = Some secret"
    and cr: "aead_lawful (crypto st)" "curve_lawful (crypto st)"
    and acc: "length (p_acc_id (priv st)) < HAP_ACC_ID_LEN" "length (p_ltk (priv st)) = 64" and room: "150 \<le> length buf"
  shows "\<exists>buf' n v'. hap_pair_verify_process_start (Some p) buf inlen st = Some (HAP_SUCCESS, buf', n, pv_put p v' st1) \<and>
    request (pv_m2 (crypto st) (p_ltk (priv st)) (str_bytes (p_acc_id (priv st))) apk pk secret) buf' n \<and>
    v' = v\<lparr>pv_state := STATE_M2, pv_ctrl_curve_pk := pk, pv_acc_curve_pk := apk, pv_shared_secret := secret,
      pv_hkdf_key := pv_key secret\<rparr>"
proof -
  let ?id = "str_bytes (p_acc_id (priv st))" and ?k = "length (p_acc_id (priv st))"
  let ?sig = "ed25519_sign (crypto st) (p_ltk (priv st)) (apk @ ?id @ pk)"
  let ?m2 = "pv_m2 (crypto st) (p_ltk (priv st)) ?id apk pk secret"
  have k: "length ?id = ?k" "?k \<le> 17" using acc by (simp_all add: str_bytes_def HAP_ACC_ID_LEN_def)
  have len: "length sk = 32" "length apk = 32" "length secret = 32" "length ?sig = 64"
    using curve_lengths [OF cr(2)] mfi_random_32 [OF rng] length_basepoint keys acc(2) req(2) by blast+
  note st1 = mfi_randomD [OF rng]
  have r1: "tlv_read buf inlen kTLVType_State (stack_array 1 st) = Some (1, [STATE_M1])"
    using request_read [OF req(1), of kTLVType_State "[STATE_M1]" "stack_array 1 st"]
    by (simp add: pv_m1_def tlv_consts)
  have r2: "tlv_read buf inlen kTLVType_PublicKey (pv_ctrl_curve_pk v) = Some (32, pk)"
    using request_read [OF req(1), of kTLVType_PublicKey pk "pv_ctrl_curve_pk v"] req(2) v(2)
    by (simp add: pv_m1_def tlv_consts)
  have key: "derive ''Pair-Verify-Encrypt-Salt'' ''Pair-Verify-Encrypt-Info'' secret = Some (pv_key secret)"
    using len by (simp add: derive_spec pv_key_def)
  have info: "cat_into (2 * 32 + HAP_ACC_ID_LEN) [apk, ?id, pk] = Some (apk @ ?id @ pk)"
    using len k req(2) by (simp add: cat_into_def HAP_ACC_ID_LEN_def)
  obtain edata where ed: "pv_m2_edata (pv_key secret) ?sig st1 = Some (edata, int ?k + 84)"
    "take (?k + 84) edata = seal (crypto st) (pv_key secret) ''PV-Msg02''
      (message [(kTLVType_Identifier, ?id), (kTLVType_Signature, ?sig)])"
    using seal_m2 [of st1 ?sig "pv_key secret"] st1 cr acc len by auto
  have sl: "length (seal (crypto st) (pv_key secret) ''PV-Msg02''
      (message [(kTLVType_Identifier, ?id), (kTLVType_Signature, ?sig)])) = ?k + 84"
    using length_seal [OF cr(1)] k len by simp
  have ln: "length (message ?m2) = ?k + 123"
    using sl len k unfolding pv_m2_def by simp
  have cut: "add_tlv t kTLVType_EncryptedData (int ?k + 84) edata = add_tlv t kTLVType_EncryptedData (int ?k + 84)
      (seal (crypto st) (pv_key secret) ''PV-Msg02'' (message [(kTLVType_Identifier, ?id), (kTLVType_Signature, ?sig)]))" for t
  proof -
    have "?k + 84 \<le> length edata" using ed(2) sl by (metis length_take min.cobounded1)
    from add_tlv_take [OF this, of t kTLVType_EncryptedData] show ?thesis unfolding ed(2) by simp
  qed
  have add: "add_tlv_all [(kTLVType_State, 1, [STATE_M2]), (kTLVType_PublicKey, CURVE_KEY_LEN, apk),
      (kTLVType_EncryptedData, int ?k + 84, edata)] (hap_tlv_data_init (Some buf) (int (length buf))) =
    Some (True, \<lparr>bufptr = Some (message ?m2 @ drop (?k + 123) buf), bufsize = int (length buf), curlen = int (?k + 123)\<rparr>)"
    using add_tlv_all_message [of ?m2 buf] room k len(2) sl unfolding ln
    by (simp add: pv_m2_def to_add_simps cut CURVE_KEY_LEN_def del: message_short cong: if_cong)
  have "hap_pair_verify_process_start (Some p) buf inlen st = Some (HAP_SUCCESS, message ?m2 @ drop (?k + 123) buf, int (?k + 123),
      pv_put p (v\<lparr>pv_ctrl_curve_pk := pk, pv_acc_curve_pk := apk, pv_shared_secret := secret,
      pv_hkdf_key := pv_key secret, pv_state := STATE_M2\<rparr>) st1)"
    using v(1) r1 r2 rng keys key info ed(1) add st1 unfolding hap_pair_verify_process_start_def
    by (simp add: Let_def del: message_short add_tlv_all.simps)
  then show ?thesis unfolding request_def using ln by (intro exI conjI) (assumption | simp)+
qed


lemma add_secure_session_total:
  "sess_at st q = Some s \<Longrightarrow> ss_ctrl s = Some c \<Longrightarrow> \<exists>st'. hap_add_secure_session q st = Some st'"
  by (auto simp: hap_add_secure_session_def upd_priv_def hap_report_event_def split: option.split)

lemma c_str_append_zero: "0 \<notin> set a \<Longrightarrow> c_str (a @ 0 # b) = a"
  by (induction a) (auto simp: c_str_def)

lemma padded_id:
  assumes "length cid < 64" "0 \<notin> set cid"
  shows "c_string (cid @ replicate (64 - length cid) 0) = Some cid"
proof -
  obtain k where "64 - length cid = Suc k" using assms(1) by (cases "64 - length cid") auto
  with c_str_append_zero [OF assms(2)] show ?thesis by (simp add: c_string_def)
qed

text \<open>A sealed text comes out again.\<close>

lemma unseal:
  assumes "aead_lawful cr" "length m + 16 \<le> length a" "take (length m + 16) a = seal cr key name m"
  shows "\<exists>c t. rd_block a 0 (int (length m)) = Some c \<and> rd_block a (int (length m)) 16 = Some t \<and>
    aead_decrypt cr key (msg_nonce name) [] c t = Some m \<and> wr_block a 0 m = Some (m @ drop (length m) a)"
proof -
  obtain c t where ct: "aead_encrypt cr key (msg_nonce name) [] m = (c, t)" by fastforce
  then have l: "length c = length m" "length t = 16" "aead_decrypt cr key (msg_nonce name) [] c t = Some m"
    using assms(1) unfolding aead_lawful_def by metis+
  have a: "a = c @ t @ drop (length m + 16) a"
    using assms(3) ct by (metis append.assoc append_take_drop_id case_prod_conv seal_def)
  have "rd_block a 0 (int (length m)) = Some c" "rd_block a (int (length m)) 16 = Some t"
    using l(1,2) by (subst a, simp add: rd_block_def)+
  moreover have "wr_block a 0 m = Some (m @ drop (length m) a)" using assms(2) by (simp add: wr_block_def)
  ultimately show ?thesis using l(3) by blast
qed

lemma decrypt_seal:
  assumes "aead_lawful cr" "length m + 16 \<le> length a" "take (length m + 16) a = seal cr key ''PV-Msg03'' m"
  shows "pv_decrypt key a (int (length m + 16)) cr = Some (Some (m @ drop (length m) a))"
  using unseal [OF assms] by (auto simp: pv_decrypt_def POLY_AUTHTAG_LEN_def)

lemma new_session_ok:
  assumes "malloc_ok st (next_addr st)" "3 \<le> length buf" "length (pv_shared_secret v) = 32"
  shows "\<exists>st'. pv_new_session p v i buf st = Some (HAP_SUCCESS, message [(kTLVType_State, [STATE_M4])] @ drop 3 buf, 3, st') \<and>
    sess_at st' = (sess_at st)(next_addr st \<mapsto> verified_session (pv_shared_secret v) i) \<and>
    pv_at st' = (pv_at st)(p \<mapsto> v\<lparr>pv_state := STATE_VERIFIED, pv_session := Some (next_addr st)\<rparr>)"
proof -
  let ?q = "next_addr st"
  have add: "add_tlv (hap_tlv_data_init (Some buf) (int (length buf))) kTLVType_State 1 [STATE_M4] =
      Some (3, \<lparr>bufptr = Some (message [(kTLVType_State, [STATE_M4])] @ drop 3 buf), bufsize = int (length buf), curlen = 3\<rparr>)"
    using add_tlv_fits [of "hap_tlv_data_init (Some buf) (int (length buf))" buf 0 kTLVType_State "[STATE_M4]"] assms(2)
    by (simp add: hap_tlv_data_init_def tlv_bytes_frags_short numeral_3_eq_3)
  let ?s = "zero_session\<lparr>ss_encrypt_key := hkdf_spec (str_bytes ''Control-Salt'') (pv_shared_secret v) (str_bytes ''Control-Read-Encryption-Key'') 32,
      ss_decrypt_key := hkdf_spec (str_bytes ''Control-Salt'') (pv_shared_secret v) (str_bytes ''Control-Write-Encryption-Key'') 32, ss_state := STATE_VERIFIED,
      ss_encrypt_nonce := replicate 8 0, ss_decrypt_nonce := replicate 8 0, ss_ctrl := Some i\<rparr>"
  let ?st = "pv_put p (v\<lparr>pv_state := STATE_VERIFIED, pv_session := Some ?q\<rparr>)
      (st\<lparr>next_addr := Suc (next_addr st), sess_at := (sess_at st)(?q \<mapsto> ?s)\<rparr>)"
  have s: "?s = verified_session (pv_shared_secret v) i"
    by (simp add: verified_session_def zero_session_def NONCE_LEN_def)
  obtain st' where st': "hap_add_secure_session ?q ?st = Some st'"
    using add_secure_session_total [of ?st ?q ?s i] by auto
  have "pv_new_session p v i buf st = Some (HAP_SUCCESS, message [(kTLVType_State, [STATE_M4])] @ drop 3 buf, 3, st')"
    unfolding pv_new_session_def using assms add st'
    by (simp add: new_addr_def derive_spec Let_def del: message_short)
  with add_secure_session_keeps [OF st'] s show ?thesis by simp
qed


lemma finish_ok:
  assumes v: "pv_at st p = Some v" "pv_hkdf_key v = pv_key secret" "pv_shared_secret v = secret" "pv_ctrl_curve_pk v = cpk"
      "pv_acc_curve_pk v = apk" "length secret = 32" "length cpk = 32" "length apk = 32"
    and req: "request (pv_m3 (crypto st) ltsk cid apk cpk secret) buf inlen"
    and ctrl: "hap_get_controller (cid @ replicate (64 - length cid) 0) st = Some (Some i)" "length cid < 64" "0 \<notin> set cid"
      "key_pair (crypto st) ltsk (info_ltpk (ci_info (p_controllers (priv st) ! i)))"
    and cr: "aead_lawful (crypto st)" "curve_lawful (crypto st)"
    and room: "malloc_ok st (next_addr st)" "3 \<le> length buf"
  shows "\<exists>st'. hap_pair_verify_process_finish (Some p) buf inlen st =
      Some (HAP_SUCCESS, message [(kTLVType_State, [STATE_M4])] @ drop 3 buf, 3, st') \<and>
    sess_at st' = (sess_at st)(next_addr st \<mapsto> verified_session secret i) \<and>
    pv_at st' = (pv_at st)(p \<mapsto> v\<lparr>pv_state := STATE_VERIFIED, pv_session := Some (next_addr st)\<rparr>)"
proof -
  let ?sig = "ed25519_sign (crypto st) ltsk (cpk @ cid @ apk)"
  let ?sub = "[(kTLVType_Identifier, cid), (kTLVType_Signature, ?sig)]"
  let ?e = "seal (crypto st) (pv_key secret) ''PV-Msg03'' (message ?sub)"
  have sig: "length ?sig = 64" using curve_lengths(2) [OF cr(2)] ctrl(4) by (simp add: key_pair_def)
  have lsub: "length (message ?sub) = length cid + 68" using sig ctrl(2) by simp
  have le: "length ?e = length cid + 84" using length_seal [OF cr(1)] lsub by simp
  have arr: "4 + HAP_CTRL_ID_LEN + nat ED_SIGN_LEN + nat POLY_AUTHTAG_LEN = 148"
    by (simp add: HAP_CTRL_ID_LEN_def ED_SIGN_LEN_def POLY_AUTHTAG_LEN_def)
  have r1: "tlv_read buf inlen kTLVType_State (stack_array 1 st) = Some (1, [STATE_M3])"
    using request_read [OF req, of kTLVType_State "[STATE_M3]" "stack_array 1 st"] by (simp add: pv_m3_def)
  let ?a = "?e @ drop (length cid + 84) (stack_array 148 st)"
  have r2: "tlv_read buf inlen kTLVType_EncryptedData (stack_array 148 st) = Some (int (length cid + 84), ?a)"
    using request_read [OF req, of kTLVType_EncryptedData ?e "stack_array 148 st"] le ctrl(2)
    by (simp add: pv_m3_def tlv_consts)
  let ?d = "message ?sub @ drop (length cid + 68) ?a"
  have d: "pv_decrypt (pv_key secret) ?a (int (length cid + 84)) (crypto st) = Some (Some ?d)"
    using decrypt_seal [OF cr(1), of "message ?sub" ?a "pv_key secret"] le lsub by (simp del: message_short add: add.commute)
  have q: "request ?sub ?d (int (length cid + 84) - POLY_AUTHTAG_LEN)"
    using lsub by (simp add: request_def POLY_AUTHTAG_LEN_def del: message_short)
  have r3: "tlv_read ?d (int (length cid + 84) - POLY_AUTHTAG_LEN) kTLVType_Identifier (replicate HAP_CTRL_ID_LEN 0) =
      Some (int (length cid), cid @ replicate (64 - length cid) 0)"
    using request_read [OF q, of kTLVType_Identifier cid "replicate HAP_CTRL_ID_LEN 0"] ctrl(2)
    by (auto simp: HAP_CTRL_ID_LEN_def)
  have r4: "tlv_read ?d (int (length cid + 84) - POLY_AUTHTAG_LEN) kTLVType_Signature (stack_array 64 st) = Some (64, ?sig)"
    using request_read [OF q, of kTLVType_Signature ?sig "stack_array 64 st"] sig by (simp add: tlv_consts)
  have info: "cat_into (2 * 32 + HAP_CTRL_ID_LEN) [cpk, cid, apk] = Some (cpk @ cid @ apk)"
    using v(7,8) ctrl(2) by (simp add: cat_into_def HAP_CTRL_ID_LEN_def)
  have ver: "ed25519_verify (crypto st) (info_ltpk (ci_info (p_controllers (priv st) ! i))) ?sig (cpk @ cid @ apk)"
    using ctrl(4) by (simp add: key_pair_def)
  obtain st' where "pv_new_session p v i buf st = Some (HAP_SUCCESS, message [(kTLVType_State, [STATE_M4])] @ drop 3 buf, 3, st')"
    "sess_at st' = (sess_at st)(next_addr st \<mapsto> verified_session secret i)"
    "pv_at st' = (pv_at st)(p \<mapsto> v\<lparr>pv_state := STATE_VERIFIED, pv_session := Some (next_addr st)\<rparr>)"
    using new_session_ok [OF room, of v p i] v(3,6) by auto
  then show ?thesis
    unfolding hap_pair_verify_process_finish_def option.case v(1) bind.bind_lunit r1 prod.case arr r2
    using d r3 r4 info ver ctrl(1) padded_id [OF ctrl(2,3)] v
    by (simp add: Let_def del: message_short)
qed


text \<open>C4: A controller of the table that follows the protocol gets a session, whatever the random numbers are:
  its first message is answered with the public key and the signature of the accessory, sealed under the key
  of the shared secret; its second message is answered with success, and the new session has the keys that the controller
  derives from its own side of the key exchange.\<close>

theorem pair_verify_agreement:
  assumes cr: "aead_lawful (crypto st)" "curve_lawful (crypto st)"
    and ctx: "pv_at st p = Some zero_pv" "sess_at st p = None"
    and acc: "esp_mfi_get_random 32 st = (sk, st1)" "curve25519 (crypto st) sk basepoint = Some apk"
      "length (p_acc_id (priv st)) < HAP_ACC_ID_LEN" "length (p_ltk (priv st)) = 64"
    and cli: "length csk = 32" "curve25519 (crypto st) csk basepoint = Some cpk" "curve25519 (crypto st) csk apk = Some secret"
    and ctrl: "hap_get_controller (cid @ replicate (64 - length cid) 0) st = Some (Some i)" "length cid < 64" "0 \<notin> set cid"
      "key_pair (crypto st) ltsk (info_ltpk (ci_info (p_controllers (priv st) ! i)))"
    and req: "request (pv_m1 cpk) buf inlen" "150 \<le> length buf" "malloc_ok st (next_addr st)"
  shows "\<exists>buf1 n1 st2. hap_pair_verify_process (Some p) buf inlen st = Some (Some p, HAP_SUCCESS, buf1, n1, st2) \<and>
    request (pv_m2 (crypto st) (p_ltk (priv st)) (str_bytes (p_acc_id (priv st))) apk cpk secret) buf1 n1 \<and>
    (\<forall>buf' inlen'. request (pv_m3 (crypto st) ltsk cid apk cpk secret) buf' inlen' \<longrightarrow> 3 \<le> length buf' \<longrightarrow>
      (\<exists>st3. hap_pair_verify_process (Some p) buf' inlen' st2 = Some (Some (next_addr st), HAP_SUCCESS,
          message [(kTLVType_State, [STATE_M4])] @ drop 3 buf', 3, st3) \<and>
        sess_at st3 (next_addr st) = Some (verified_session secret i) \<and> pv_at st3 p = None))"
proof -
  have len: "length sk = 32" "length apk = 32" "length cpk = 32" "length secret = 32"
    using curve_lengths(1) [OF cr(2)] mfi_random_32 [OF acc(1)] length_basepoint acc(2) cli by blast+
  have dh: "curve25519 (crypto st) sk cpk = Some secret"
    using cr(2) len(1) cli acc(2) unfolding curve_lawful_def by metis
  have z: "length (pv_ctrl_curve_pk zero_pv) = 32" "pv_state zero_pv = STATE_M0" by (simp_all add: zero_pv_def STATE_M0_def)
  obtain buf1 n1 v where s: "hap_pair_verify_process_start (Some p) buf inlen st = Some (HAP_SUCCESS, buf1, n1, pv_put p v st1)"
    "request (pv_m2 (crypto st) (p_ltk (priv st)) (str_bytes (p_acc_id (priv st))) apk cpk secret) buf1 n1"
    "v = zero_pv\<lparr>pv_state := STATE_M2, pv_ctrl_curve_pk := cpk, pv_acc_curve_pk := apk, pv_shared_secret := secret,
      pv_hkdf_key := pv_key secret\<rparr>"
    using start_ok [OF ctx(1) z(1) req(1) len(3) acc(1,2) dh cr acc(3,4) req(2)] by blast
  let ?st2 = "pv_put p v st1"
  have k: "crypto ?st2 = crypto st" "priv ?st2 = priv st" "sess_at ?st2 = sess_at st" "pv_at ?st2 p = Some v"
    "next_addr ?st2 = next_addr st" "malloc_ok ?st2 = malloc_ok st"
    using acc(1) by (auto simp: esp_mfi_get_random_def pv_put_def)
  have p1: "hap_pair_verify_process (Some p) buf inlen st = Some (Some p, HAP_SUCCESS, buf1, n1, ?st2)"
    using s(1) ctx z(2) by (simp add: hap_pair_verify_process_def ctx_state_def)
  have c2: "hap_get_controller x ?st2 = hap_get_controller x st" for x
    using k(2) by (simp add: hap_get_controller_def)
  have s2: "ctx_state p ?st2 = Some STATE_M2" using k ctx(2) s(3) by (simp add: ctx_state_def)
  have "\<exists>st3. hap_pair_verify_process (Some p) buf' inlen' ?st2 = Some (Some (next_addr st), HAP_SUCCESS,
          message [(kTLVType_State, [STATE_M4])] @ drop 3 buf', 3, st3) \<and>
        sess_at st3 (next_addr st) = Some (verified_session secret i) \<and> pv_at st3 p = None"
    if r: "request (pv_m3 (crypto st) ltsk cid apk cpk secret) buf' inlen'" "3 \<le> length buf'" for buf' inlen'
  proof -
    have "request (pv_m3 (crypto ?st2) ltsk cid apk cpk secret) buf' inlen'" using r k by simp
    then obtain st3 where "hap_pair_verify_process_finish (Some p) buf' inlen' ?st2 =
      Some (HAP_SUCCESS, message [(kTLVType_State, [STATE_M4])] @ drop 3 buf', 3, st3)"
      "sess_at st3 = (sess_at ?st2)(next_addr ?st2 \<mapsto> verified_session secret i)"
      "pv_at st3 = (pv_at ?st2)(p \<mapsto> v\<lparr>pv_state := STATE_VERIFIED, pv_session := Some (next_addr ?st2)\<rparr>)"
      using finish_ok [of ?st2 p v secret cpk apk ltsk cid buf' inlen' i] s(3) len k c2 ctrl cr req(3) r(2) by auto
    then show ?thesis using s2 k
      by (simp add: hap_pair_verify_process_def session_states del: message_short)
  qed
  with p1 s(2) show ?thesis by blast
qed

text \<open>An accessory with one controller, for the examples.\<close>

definition paired_net :: "(kv, string \<times> string, streams) hap_net" where
  "paired_net = boot_net\<lparr>pv_at := [5 \<mapsto> zero_pv], priv := zero_priv\<lparr>p_controllers :=
     \<lparr>ci_info = demo_info, ci_valid = True, ci_index = 0\<rparr> # replicate 15 zero_ctrl\<rparr>\<rparr>"

definition demo_sk :: "byte list" where "demo_sk = replicate 32 0 @ replicate 32 7"

lemma paired_net_simps [simp]:
  "crypto paired_net = demo_crypto" "pv_at paired_net = [5 \<mapsto> zero_pv]" "sess_at paired_net = Map.empty"
  "p_acc_id (priv paired_net) = ''''" "length (p_ltk (priv paired_net)) = 64" "malloc_ok paired_net n"
  "p_controllers (priv paired_net) = \<lparr>ci_info = demo_info, ci_valid = True, ci_index = 0\<rparr> # replicate 15 zero_ctrl"
  using boot_net_simps(12) by (simp_all add: paired_net_def zero_priv_def memory_ok_def)

lemma demo_info_parts: "c_str demo_info = replicate 36 65" "0 \<in> set demo_info" "info_ltpk demo_info = replicate 32 7"
proof -
  have "demo_info = replicate 36 65 @ 0 # replicate 27 0 @ replicate 32 7 @ [1]"
    by (simp add: demo_info_def numeral_eq_Suc)
  moreover have "c_str (replicate 36 65 @ 0 # replicate 27 0 @ replicate 32 7 @ [1]) = replicate 36 65"
    by (rule c_str_append_zero) simp
  ultimately show "c_str demo_info = replicate 36 65" by (simp only:)
  show "0 \<in> set demo_info" "info_ltpk demo_info = replicate 32 7" by (simp_all add: demo_info_def info_ltpk_def)
qed

lemma demo_curve_lawful: "curve_lawful demo_crypto"
proof -
  have "map2 (+) a (map2 (+) b c) = map2 (+) b (map2 (+) a c)" for a b c :: "byte list"
    by (rule nth_equalityI) (auto simp: add.left_commute)
  then show ?thesis by (auto simp: curve_lawful_def demo_crypto_def)
qed

lemma demo_key_pair: "key_pair demo_crypto demo_sk (info_ltpk demo_info)"
  by (simp add: key_pair_def demo_crypto_def demo_sk_def demo_info_parts)

lemma demo_controller: "hap_get_controller (replicate 36 65 @ replicate 28 0) paired_net = Some (Some 0)"
proof -
  have "[0..<HAP_MAX_CONTROLLERS] = 0 # [1..<16]" by (simp add: HAP_MAX_CONTROLLERS_def upt_conv_Cons)
  moreover have "c_str (replicate 36 65 @ replicate 28 0) = replicate 36 65"
    using c_str_append_zero [of "replicate 36 65" "replicate 27 0"] by (simp add: replicate_Suc [symmetric] del: replicate_Suc)
  moreover have "strcmp_eq demo_info (replicate 36 65 @ replicate 28 0) = Some (c_str demo_info = c_str (replicate 36 65 @ replicate 28 0))"
    by (rule strcmp_eq_c_str) (simp_all add: demo_info_parts)
  ultimately show ?thesis by (simp add: hap_get_controller_def demo_info_parts)
qed

lemma pair_verify_agreement_witness:
  "\<exists>buf1 n1 st2 buf2 st3 q. hap_pair_verify_process (Some 5) (message (pv_m1 (9 # replicate 31 0)) @ replicate 150 0) 37 paired_net =
      Some (Some 5, HAP_SUCCESS, buf1, n1, st2) \<and>
    hap_pair_verify_process (Some 5) buf2 (int (length buf2)) st2 = Some (Some q, HAP_SUCCESS, st3) \<and>
    map_option ss_state (sess_at (snd (snd st3)) q) = Some STATE_VERIFIED"
proof -
  let ?buf = "message (pv_m1 (9 # replicate 31 0)) @ replicate 150 0"
  obtain sk st1 where rng: "esp_mfi_get_random 32 paired_net = (sk, st1)" by fastforce
  have l: "length sk = 32" using mfi_random_32 [OF rng] .
  have c: "curve25519 (crypto paired_net) a b = Some (map2 (+) a b)" for a b by (simp add: demo_crypto_def)
  have z: "map2 (+) (replicate 32 0) basepoint = 9 # replicate 31 (0 :: byte)"
    by (simp add: basepoint_def numeral_eq_Suc)
  have req: "request (pv_m1 (9 # replicate 31 0)) ?buf 37" by (simp add: request_def pv_m1_def)
  have k: "curve25519 (crypto paired_net) (replicate 32 0) basepoint = Some (9 # replicate 31 0)" using c z by simp
  have h: "hap_get_controller (replicate 36 65 @ replicate (64 - length (replicate 36 (65 :: byte))) 0) paired_net = Some (Some 0)"
    using demo_controller by simp
  note a = pair_verify_agreement [of paired_net 5 sk st1 _ "replicate 32 0" "9 # replicate 31 0" _ "replicate 36 65" 0 demo_sk ?buf 37,
      OF _ _ _ _ rng c _ _ _ k c h _ _ _ req]
  obtain buf1 n1 st2 where r: "hap_pair_verify_process (Some 5) ?buf 37 paired_net = Some (Some 5, HAP_SUCCESS, buf1, n1, st2)"
    "\<And>buf' inlen'. request (pv_m3 demo_crypto demo_sk (replicate 36 65) (map2 (+) sk basepoint) (9 # replicate 31 0)
        (map2 (+) (replicate 32 0) (map2 (+) sk basepoint))) buf' inlen' \<Longrightarrow> 3 \<le> length buf' \<Longrightarrow>
      \<exists>st3. hap_pair_verify_process (Some 5) buf' inlen' st2 = Some (Some (next_addr paired_net), HAP_SUCCESS,
          message [(kTLVType_State, [STATE_M4])] @ drop 3 buf', 3, st3) \<and>
        sess_at st3 (next_addr paired_net) = Some (verified_session (map2 (+) (replicate 32 0) (map2 (+) sk basepoint)) 0) \<and> pv_at st3 5 = None"
    using a demo_aead_lawful demo_curve_lawful demo_key_pair by (simp add: HAP_ACC_ID_LEN_def) blast
  let ?b = "message (pv_m3 demo_crypto demo_sk (replicate 36 65) (map2 (+) sk basepoint) (9 # replicate 31 0)
        (map2 (+) (replicate 32 0) (map2 (+) sk basepoint)))"
  have "request (pv_m3 demo_crypto demo_sk (replicate 36 65) (map2 (+) sk basepoint) (9 # replicate 31 0)
        (map2 (+) (replicate 32 0) (map2 (+) sk basepoint))) ?b (int (length ?b))" "3 \<le> length ?b"
    by (simp_all add: request_def) (simp add: pv_m3_def)
  from r(2) [OF this] r(1) show ?thesis by (fastforce simp: verified_session_def)
qed


definition step2_net :: "(kv, string \<times> string, streams) hap_net" where
  "step2_net = paired_net\<lparr>pv_at := [5 \<mapsto> zero_pv\<lparr>pv_state := STATE_M2, pv_shared_secret := replicate 32 1,
     pv_hkdf_key := pv_key (replicate 32 1)\<rparr>]\<rparr>"

lemma pair_verify_authenticated_witness:
  "\<exists>q ret buf' n st' sig. hap_pair_verify_process (Some 5)
      (message (pv_m3 demo_crypto demo_sk (replicate 36 65) (replicate 32 0) (replicate 32 0) (replicate 32 1)))
      (int (length (message (pv_m3 demo_crypto demo_sk (replicate 36 65) (replicate 32 0) (replicate 32 0) (replicate 32 1)))))
      step2_net = Some (Some q, ret, buf', n, st') \<and> sess_at st' q \<noteq> None \<and>
    ed25519_verify demo_crypto (replicate 32 7) sig (replicate 32 0 @ replicate 36 65 @ replicate 32 0)"
proof -
  let ?buf = "message (pv_m3 demo_crypto demo_sk (replicate 36 65) (replicate 32 0) (replicate 32 0) (replicate 32 1))"
  have k: "crypto step2_net = demo_crypto" "sess_at step2_net = Map.empty" "malloc_ok step2_net (next_addr step2_net)"
    "priv step2_net = priv paired_net" by (simp_all add: step2_net_def)
  let ?v = "zero_pv\<lparr>pv_state := STATE_M2, pv_shared_secret := replicate 32 1, pv_hkdf_key := pv_key (replicate 32 1)\<rparr>"
  have v: "pv_at step2_net = [5 \<mapsto> ?v]" by (simp add: step2_net_def)
  have v5: "pv_at step2_net 5 = Some ?v" using v by simp
  have z: "pv_hkdf_key ?v = pv_key (replicate 32 1)" "pv_shared_secret ?v = replicate 32 1"
    "pv_ctrl_curve_pk ?v = replicate 32 0" "pv_acc_curve_pk ?v = replicate 32 0" by (simp_all add: zero_pv_def)
  have h: "hap_get_controller (replicate 36 65 @ replicate (64 - length (replicate 36 (65 :: byte))) 0) step2_net = Some (Some 0)"
    using demo_controller k(4) by (simp add: hap_get_controller_def)
  have req: "request (pv_m3 (crypto step2_net) demo_sk (replicate 36 65) (replicate 32 0) (replicate 32 0) (replicate 32 1)) ?buf (int (length ?buf))"
    by (simp add: request_def k)
  have room: "3 \<le> length ?buf" by (simp add: pv_m3_def)
  obtain st1 where f: "hap_pair_verify_process_finish (Some 5) ?buf (int (length ?buf)) step2_net =
      Some (HAP_SUCCESS, message [(kTLVType_State, [STATE_M4])] @ drop 3 ?buf, 3, st1)"
    "pv_at st1 = (pv_at step2_net)(5 \<mapsto> ?v\<lparr>pv_state := STATE_VERIFIED, pv_session := Some (next_addr step2_net)\<rparr>)"
    "sess_at st1 = (sess_at step2_net)(next_addr step2_net \<mapsto> verified_session (replicate 32 1) 0)"
    using finish_ok [OF v5 z _ _ _ req h _ _ _ _ _ k(3) room] k demo_aead_lawful demo_curve_lawful demo_key_pair by auto
  let ?st = "st1\<lparr>pv_at := (pv_at st1)(5 := None)\<rparr>" and ?rep = "message [(kTLVType_State, [STATE_M4])] @ drop 3 ?buf"
  have p: "hap_pair_verify_process (Some 5) ?buf (int (length ?buf)) step2_net = Some (Some (next_addr step2_net), HAP_SUCCESS, ?rep, 3, ?st)"
    using f(1,2) k(2) v by (simp add: hap_pair_verify_process_def ctx_state_def session_states del: message_short)
  have new: "sess_at ?st \<noteq> sess_at step2_net" using f(3) k(2) by (auto simp: fun_eq_iff)
  have "\<forall>p v. pv_at step2_net p = Some v \<longrightarrow> length (pv_shared_secret v) = 32" using v z(2) by auto
  from pair_verify_authenticated [OF p this] new obtain i sig v' where
    "ed25519_verify (crypto step2_net) (info_ltpk (ci_info (p_controllers (priv step2_net) ! i))) sig
      (pv_ctrl_curve_pk v' @ c_str (ci_info (p_controllers (priv step2_net) ! i)) @ pv_acc_curve_pk v')"
    "pv_at step2_net 5 = Some v'" "i < HAP_MAX_CONTROLLERS" "ci_valid (p_controllers (priv step2_net) ! i)" by auto
  moreover from this(3,4) k(4) have "i = 0" by (cases i) (auto simp: HAP_MAX_CONTROLLERS_def nth_Cons')
  ultimately have "ed25519_verify demo_crypto (replicate 32 7) sig (replicate 32 0 @ replicate 36 65 @ replicate 32 0)"
    using v5 k z demo_info_parts by simp
  with p f(3) show ?thesis by (intro exI conjI) (assumption | simp)+
qed

text \<open>Encrypted data shorter than its tag: M3 with fewer than 16 bytes makes the accessory
  decrypt a negative number of bytes, with a tag in front of the array. Nothing has been authenticated at this point.\<close>

theorem pair_verify_short_data:
  assumes "pv_at st p = Some v" "sess_at st p = None" "pv_state v = STATE_M2"
    and "request [(kTLVType_State, [STATE_M3]), (kTLVType_EncryptedData, e)] buf inlen" "length e < 16"
  shows "hap_pair_verify_process (Some p) buf inlen st = None"
proof -
  have r1: "tlv_read buf inlen kTLVType_State (stack_array 1 st) = Some (1, [STATE_M3])"
    using request_read [OF assms(4), of kTLVType_State "[STATE_M3]" "stack_array 1 st"] by simp
  have arr: "4 + HAP_CTRL_ID_LEN + nat ED_SIGN_LEN + nat POLY_AUTHTAG_LEN = 148"
    by (simp add: HAP_CTRL_ID_LEN_def ED_SIGN_LEN_def POLY_AUTHTAG_LEN_def)
  have r2: "tlv_read buf inlen kTLVType_EncryptedData (stack_array 148 st) = Some (int (length e), e @ drop (length e) (stack_array 148 st))"
    using request_read [OF assms(4), of kTLVType_EncryptedData e "stack_array 148 st"] assms(5) by (simp add: tlv_consts)
  have "rd_block (e @ drop (length e) (stack_array 148 st)) 0 (int (length e) - 16) = None"
    using assms(5) by (simp add: rd_block_def)
  then have "pv_decrypt (pv_hkdf_key v) (e @ drop (length e) (stack_array 148 st)) (int (length e)) (crypto st) = None"
    by (simp add: pv_decrypt_def POLY_AUTHTAG_LEN_def)
  then have "hap_pair_verify_process_finish (Some p) buf inlen st = None"
    unfolding hap_pair_verify_process_finish_def option.case assms(1) bind.bind_lunit r1 prod.case arr r2 by simp
  then show ?thesis using assms(1-3) by (simp add: hap_pair_verify_process_def ctx_state_def session_states)
qed

lemma pair_verify_short_data_witness:
  "hap_pair_verify_process (Some 5) [6, 1, 3, 5, 1, 7] 6 (paired_net\<lparr>pv_at := [5 \<mapsto> zero_pv\<lparr>pv_state := STATE_M2\<rparr>]\<rparr>) = None"
  using pair_verify_short_data [of "paired_net\<lparr>pv_at := [5 \<mapsto> zero_pv\<lparr>pv_state := STATE_M2\<rparr>]\<rparr>" 5 _ "[7]" "[6, 1, 3, 5, 1, 7]" 6]
  by (simp add: request_def tlv_consts session_states)

end
