(* ===== verification/Pairings.thy ===== *)
theory Pairings
  imports Pair_Verify
begin

text \<open>
  The pairings of the accessory (\<open>esp_hap_pairings.c\<close>): adding, removing and listing controllers, by a
  controller whose session is verified and that is an administrator.
\<close>

section \<open>The code\<close>

definition HAP_METHOD_PAIR_SETUP :: byte where "HAP_METHOD_PAIR_SETUP = 1"
definition HAP_METHOD_ADD_PAIRING :: byte where "HAP_METHOD_ADD_PAIRING = 3"
definition HAP_METHOD_REMOVE_PAIRING :: byte where "HAP_METHOD_REMOVE_PAIRING = 4"
definition HAP_METHOD_LIST_PAIRINGS :: byte where "HAP_METHOD_LIST_PAIRINGS = 5"

lemmas pairing_methods = HAP_METHOD_PAIR_SETUP_def HAP_METHOD_ADD_PAIRING_def HAP_METHOD_REMOVE_PAIRING_def
  HAP_METHOD_LIST_PAIRINGS_def

definition hap_remove_all_controllers ::
    "('n, 'h, 'w, 's) hap_net_scheme \<Rightarrow> ('n, 'h, 'w, 's) hap_net_scheme option" where
  "hap_remove_all_controllers st = for_each (\<lambda>i st.
     if ci_valid (p_controllers (priv st) ! i) then do {
       st \<leftarrow> hap_close_sessions_of_ctrl (Some i) st;
       hap_controller_remove (Some i) st }
     else Some st) [0..<HAP_MAX_CONTROLLERS] st"

text \<open>A reply that is the state alone.\<close>

definition state_reply ::
    "byte \<Rightarrow> byte list \<Rightarrow> ('n, 'h, 'w, 's) hap_net_scheme \<Rightarrow> ('n, 'h, 'w, 's) hap_net_scheme reply option" where
  "state_reply state buf st = do {
     (r, tlv) \<leftarrow> add_tlv (hap_tlv_data_init (Some buf) (int (length buf))) kTLVType_State 1 [state];
     buf \<leftarrow> bufptr tlv;
     if r < 0 then error_reply state kTLVError_Unknown buf st
     else Some (HAP_SUCCESS, buf, curlen tlv, st) }"

definition hap_process_pair_remove ::
    "byte list \<Rightarrow> int \<Rightarrow> ('n, 'h, 'w, 's) hap_net_scheme \<Rightarrow> ('n, 'h, 'w, 's) hap_net_scheme reply option" where
  "hap_process_pair_remove buf inlen st = do {
     (r, ctrl_id) \<leftarrow> tlv_read buf inlen kTLVType_Identifier (replicate HAP_CTRL_ID_LEN 0);
     if r < 0 then error_reply STATE_M2 kTLVError_Unknown buf st
     else do {
       ctrl \<leftarrow> hap_get_controller ctrl_id st;
       st \<leftarrow> hap_close_sessions_of_ctrl ctrl st;
       st \<leftarrow> hap_controller_remove ctrl st;
       let acc_unpaired = \<not> is_admin_paired st;
       st \<leftarrow> (if acc_unpaired then hap_remove_all_controllers st else Some st);
       (ret, buf, outlen, st) \<leftarrow> state_reply STATE_M2 buf st;
       Some (ret, buf, outlen, if ret = HAP_SUCCESS \<and> acc_unpaired
         then snd (hap_send_event HAP_INTERNAL_EVENT_ACC_UNPAIRED st) else st) } }"

text \<open>\<open>strcpy\<close> of the identifier, \<open>memcpy\<close> of the key, and the permissions, into the 97 bytes of the entry.\<close>

definition fill_ctrl_info :: "byte list \<Rightarrow> byte list \<Rightarrow> byte \<Rightarrow> byte list \<Rightarrow> byte list option" where
  "fill_ctrl_info ctrl_id ltpkc perms info = do {
     s \<leftarrow> c_string ctrl_id;
     info \<leftarrow> wr_block info 0 (s @ [0]);
     info \<leftarrow> wr_block info 64 ltpkc;
     wr_block info 96 [perms] }"

definition hap_process_pair_add ::
    "byte list \<Rightarrow> int \<Rightarrow> ('n, 'h, 'w, 's) hap_net_scheme \<Rightarrow> ('n, 'h, 'w, 's) hap_net_scheme reply option" where
  "hap_process_pair_add buf inlen st = do {
     (r, ctrl_id) \<leftarrow> tlv_read buf inlen kTLVType_Identifier (replicate HAP_CTRL_ID_LEN 0);
     if r < 0 then error_reply STATE_M4 kTLVError_Unknown buf st
     else do {
       (r, ltpkc) \<leftarrow> tlv_read buf inlen kTLVType_PublicKey (stack_array ED_KEY_LEN st);
       if r < 0 then error_reply STATE_M4 kTLVError_Unknown buf st
       else do {
         (r, perms) \<leftarrow> tlv_read buf inlen kTLVType_Permissions (stack_array 1 st);
         if r < 0 then error_reply STATE_M4 kTLVError_Unknown buf st
         else do {
           ctrl \<leftarrow> hap_get_controller ctrl_id st;
           case ctrl of
             Some i \<Rightarrow>
               if ltpkc \<noteq> info_ltpk (ci_info (p_controllers (priv st) ! i))
               then error_reply STATE_M2 kTLVError_Unknown buf st
               else do {
                 info \<leftarrow> wr_block (ci_info (p_controllers (priv st) ! i)) 96 [perms ! 0];
                 (_, st) \<leftarrow> hap_controller_save i (upd_ctrl i (\<lambda>c. c\<lparr>ci_info := info\<rparr>) st);
                 state_reply STATE_M2 buf st }
           | None \<Rightarrow> (case hap_controller_get_empty_loc st of
               (None, st) \<Rightarrow> error_reply STATE_M2 kTLVError_MaxPeers buf st
             | (Some i, st) \<Rightarrow> do {
                 info \<leftarrow> fill_ctrl_info ctrl_id ltpkc (perms ! 0) (ci_info (p_controllers (priv st) ! i));
                 (_, st) \<leftarrow> hap_controller_save i (upd_ctrl i (\<lambda>c. c\<lparr>ci_info := info\<rparr>) st);
                 state_reply STATE_M2 buf st }) } } } }"

text \<open>The items of one controller in the list: the state before the first, a separator before the others.\<close>

definition list_entry :: "bool \<Rightarrow> byte list \<Rightarrow> (byte \<times> int \<times> byte list) list option" where
  "list_entry entry_added info = do {
     s \<leftarrow> c_string info;
     Some [if entry_added then (kTLVType_Separator, 0, []) else (kTLVType_State, 1, [STATE_M2]),
       (kTLVType_Identifier, int (length s), s),
       (kTLVType_PublicKey, int ED_KEY_LEN, info_ltpk info),
       (kTLVType_Permissions, 1, [info_perms info])] }"

fun pair_list_loop :: "hap_ctrl_data list \<Rightarrow> bool \<Rightarrow> hap_tlv_data \<Rightarrow> (bool \<times> hap_tlv_data) option" where
  "pair_list_loop [] entry_added tlv = Some (True, tlv)"
| "pair_list_loop (c # cs) entry_added tlv =
     (if \<not> ci_valid c then pair_list_loop cs entry_added tlv
      else do {
        xs \<leftarrow> list_entry entry_added (ci_info c);
        (ok, tlv) \<leftarrow> add_tlv_all xs tlv;
        if \<not> ok then Some (False, tlv) else pair_list_loop cs True tlv })"

definition hap_process_pair_list ::
    "byte list \<Rightarrow> int \<Rightarrow> ('n, 'h, 'w, 's) hap_net_scheme \<Rightarrow> ('n, 'h, 'w, 's) hap_net_scheme reply option" where
  "hap_process_pair_list buf inlen st = do {
     (ok, tlv) \<leftarrow> pair_list_loop (p_controllers (priv st)) False (hap_tlv_data_init (Some buf) (int (length buf)));
     buf \<leftarrow> bufptr tlv;
     if \<not> ok then error_reply STATE_M2 kTLVError_Unknown buf st
     else Some (HAP_SUCCESS, buf, curlen tlv, st) }"

definition hap_pairings_process ::
    "ptr option \<Rightarrow> byte list \<Rightarrow> int \<Rightarrow> ('n, 'h, 'w, 's) hap_net_scheme \<Rightarrow> ('n, 'h, 'w, 's) hap_net_scheme reply option" where
  "hap_pairings_process ctx buf inlen st = do {
     admin \<leftarrow> hap_is_req_admin ctx st;
     if \<not> admin then error_reply STATE_M2 kTLVError_Authentication buf st
     else do {
       (r, state) \<leftarrow> tlv_read buf inlen kTLVType_State (stack_array 1 st);
       if r < 0 then error_reply STATE_M2 kTLVError_Unknown buf st
       else do {
         (r, pairing_method) \<leftarrow> tlv_read buf inlen kTLVType_Method (stack_array 1 st);
         if r < 0 \<or> state ! 0 \<noteq> STATE_M1 then error_reply STATE_M2 kTLVError_Unknown buf st
         else if pairing_method ! 0 = HAP_METHOD_ADD_PAIRING then hap_process_pair_add buf inlen st
         else if pairing_method ! 0 = HAP_METHOD_REMOVE_PAIRING then hap_process_pair_remove buf inlen st
         else if pairing_method ! 0 = HAP_METHOD_LIST_PAIRINGS then hap_process_pair_list buf inlen st
         else error_reply STATE_M2 kTLVError_Unknown buf st } } }"

section \<open>Removing a controller\<close>

text \<open>The sockets of the sessions of some controllers.\<close>

definition sockets_of :: "(nat \<Rightarrow> bool) \<Rightarrow> ('n, 'h, 'w, 's) hap_net_scheme \<Rightarrow> int set" where
  "sockets_of P st = {ss_conn_identifier s | q s c. Some q \<in> set (sessions st) \<and> sess_at st q = Some s \<and>
     ss_ctrl s = Some c \<and> P c}"

text \<open>What the removal of controllers leaves as it is, and the sockets it closes.\<close>

definition net_same :: "('n, 'h, 'w, 's) hap_net_scheme \<Rightarrow> ('n, 'h, 'w, 's) hap_net_scheme \<Rightarrow> bool" where
  "net_same st st' \<longleftrightarrow> sessions st' = sessions st \<and> sess_at st' = sess_at st \<and> httpd st' = httpd st \<and> crypto st' = crypto st \<and>
     stack_mem st' = stack_mem st \<and> loop_started st' = loop_started st \<and> xQueue st' = xQueue st \<and> queue_ok st' = queue_ok st \<and>
     next_addr st' = next_addr st \<and> malloc_ok st' = malloc_ok st"

definition closes :: "int list \<Rightarrow> ('n, 'h, 'w, 's) hap_net_scheme \<Rightarrow> ('n, 'h, 'w, 's) hap_net_scheme \<Rightarrow> bool" where
  "closes fds st st' \<longleftrightarrow> world st' = fold (httpd_sess_trigger_close (httpd st)) fds (world st)"

lemma net_same_trans: "net_same st st1 \<Longrightarrow> net_same st1 st2 \<Longrightarrow> net_same st st2"
  by (simp add: net_same_def)

lemma closes_trans: "net_same st st1 \<Longrightarrow> closes as st st1 \<Longrightarrow> closes bs st1 st2 \<Longrightarrow> closes (as @ bs) st st2"
  by (simp add: net_same_def closes_def)

lemma net_same_sockets: "net_same st st' \<Longrightarrow> sockets_of P st' = sockets_of P st"
  by (simp add: net_same_def sockets_of_def)

lemma net_same_ok: "net_same st st' \<Longrightarrow> sessions_ok st' = sessions_ok st"
  by (simp add: net_same_def sessions_ok_def live_session_def)

lemma set_ctrl_sockets:
  assumes "sessions_ok st"
  shows "set (ctrl_sockets c st (sessions st)) = sockets_of (\<lambda>j. j = c) st"
proof -
  have "\<exists>s. sess_at st q = Some s" if "Some q \<in> set (sessions st)" for q
    using assms that by (auto simp: sessions_ok_def live_session_def)
  then show ?thesis by (force simp: ctrl_sockets_def sockets_of_def)
qed

lemma sockets_of_Un: "sockets_of P st \<union> sockets_of Q st = sockets_of (\<lambda>j. P j \<or> Q j) st"
  unfolding sockets_of_def by blast

lemma ks_rest_nvs: "ks_rest st1 = ks_rest st \<Longrightarrow> st1 = st\<lparr>nvs := nvs st1\<rparr>"
proof -
  assume "ks_rest st1 = ks_rest st"
  then have "(st1\<lparr>nvs := undefined\<rparr>)\<lparr>nvs := nvs st1\<rparr> = (st\<lparr>nvs := undefined\<rparr>)\<lparr>nvs := nvs st1\<rparr>" by (simp add: ks_rest_def)
  then show ?thesis by simp
qed

lemma remove_step:
  assumes "ks_ready st" "sessions_ok st"
  shows "\<exists>st1 st'. hap_close_sessions_of_ctrl (Some i) st = Some st1 \<and> hap_controller_remove (Some i) st1 = Some st' \<and>
    p_controllers (priv st') = (p_controllers (priv st))[i := zero_ctrl] \<and> net_same st st' \<and> ks_ready st' \<and>
    closes (ctrl_sockets i st (sessions st)) st st'"
proof -
  let ?st1 = "disconnect i (ctrl_sockets i st (sessions st)) st"
  have c: "hap_close_sessions_of_ctrl (Some i) st = Some ?st1" using close_sessions_of_ctrl [OF assms(2)] .
  have r: "ks_ready ?st1" using assms(1) by (simp add: disconnect_def ks_ready_def)
  obtain q st2 where d: "hap_keystore_delete HAP_KEYSTORE_NAMESPACE_CTRL (dec_str (unat (ci_index (p_controllers (priv st) ! i)))) ?st1 = Some (q, st2)"
    "ks_ready st2" "ks_rest st2 = ks_rest ?st1"
    using ks.del_law [OF r, of HAP_KEYSTORE_NAMESPACE_CTRL "dec_str (unat (ci_index (p_controllers (priv st) ! i)))"] by blast
  obtain n where st2: "st2 = ?st1\<lparr>nvs := n\<rparr>" using ks_rest_nvs [OF d(3)] by blast
  let ?st' = "hap_report_event HAP_EVENT_CTRL_UNPAIRED (strncpy HAP_CTRL_ID_LEN (ci_info (p_controllers (priv st) ! i))) (upd_ctrl i (\<lambda>_. zero_ctrl) st2)"
  have "hap_controller_remove (Some i) ?st1 = Some ?st'"
    using d(1) by (simp add: hap_controller_remove_def)
  moreover have "p_controllers (priv ?st') = (p_controllers (priv st))[i := zero_ctrl]" using st2 by simp
  moreover have "net_same st ?st'" "closes (ctrl_sockets i st (sessions st)) st ?st'"
    unfolding st2 by (simp_all add: net_same_def closes_def hap_report_event_def upd_ctrl_def upd_priv_def disconnect_def sessions_def)
  moreover have "ks_ready ?st'" using d(2) by simp
  ultimately show ?thesis using c by blast
qed

lemma remove_all_loop:
  assumes "ks_ready st" "sessions_ok st" "distinct is" "length (p_controllers (priv st)) = 16" "set is \<subseteq> {..<16}"
  shows "\<exists>st' fds. for_each (\<lambda>i st. if ci_valid (p_controllers (priv st) ! i) then do {
       st \<leftarrow> hap_close_sessions_of_ctrl (Some i) st;
       hap_controller_remove (Some i) st } else Some st) is st = Some st' \<and>
    p_controllers (priv st') = map (\<lambda>j. if j \<in> set is \<and> ci_valid (p_controllers (priv st) ! j) then zero_ctrl else p_controllers (priv st) ! j) [0..<16] \<and>
    net_same st st' \<and> ks_ready st' \<and> closes fds st st' \<and>
    set fds = sockets_of (\<lambda>j. j \<in> set is \<and> ci_valid (p_controllers (priv st) ! j)) st"
  using assms
proof (induction "is" arbitrary: st)
  case Nil
  have "map (\<lambda>j. p_controllers (priv st) ! j) [0..<16] = p_controllers (priv st)"
    using Nil.prems(4) map_nth [of "p_controllers (priv st)"] by simp
  then show ?case by (auto intro!: exI [of _ "[]"] simp: net_same_def closes_def sockets_of_def Nil.prems(1))
next
  case (Cons i "is")
  have i: "i < 16" "i \<notin> set is" using Cons.prems by auto
  show ?case
  proof (cases "ci_valid (p_controllers (priv st) ! i)")
    case False
    have e: "(j \<in> set (i # is) \<and> ci_valid (p_controllers (priv st) ! j)) = (j \<in> set is \<and> ci_valid (p_controllers (priv st) ! j))" for j
      using False by auto
    have p: "ks_ready st" "sessions_ok st" "distinct is" "length (p_controllers (priv st)) = 16" "set is \<subseteq> {..<16}"
      using Cons.prems by auto
    show ?thesis using Cons.IH [OF p] False unfolding e by (simp only: for_each.simps if_False bind.bind_lunit)
  next
    case True
    obtain st1 st2 where s: "hap_close_sessions_of_ctrl (Some i) st = Some st1" "hap_controller_remove (Some i) st1 = Some st2"
      "p_controllers (priv st2) = (p_controllers (priv st))[i := zero_ctrl]" "net_same st st2" "ks_ready st2"
      "closes (ctrl_sockets i st (sessions st)) st st2"
      using remove_step [OF Cons.prems(1,2), of i] by blast
    have "sessions_ok st2" "length (p_controllers (priv st2)) = 16" using net_same_ok [OF s(4)] Cons.prems s(3) by simp_all
    then obtain st' fds where ih: "for_each (\<lambda>i st. if ci_valid (p_controllers (priv st) ! i) then do {
         st \<leftarrow> hap_close_sessions_of_ctrl (Some i) st;
         hap_controller_remove (Some i) st } else Some st) is st2 = Some st'"
      "p_controllers (priv st') = map (\<lambda>j. if j \<in> set is \<and> ci_valid (p_controllers (priv st2) ! j) then zero_ctrl else p_controllers (priv st2) ! j) [0..<16]"
      "net_same st2 st'" "ks_ready st'" "closes fds st2 st'"
      "set fds = sockets_of (\<lambda>j. j \<in> set is \<and> ci_valid (p_controllers (priv st2) ! j)) st2"
      using Cons.IH [of st2] s(5) Cons.prems by auto
    have nth: "p_controllers (priv st2) ! j = (if j = i then zero_ctrl else p_controllers (priv st) ! j)" for j
      using s(3) i(1) Cons.prems(4) by (cases "j = i") simp_all
    have "closes (ctrl_sockets i st (sessions st) @ fds) st st'" by (rule closes_trans [OF s(4,6) ih(5)])
    moreover have "set (ctrl_sockets i st (sessions st) @ fds) = sockets_of (\<lambda>j. j \<in> set (i # is) \<and> ci_valid (p_controllers (priv st) ! j)) st"
      unfolding set_append ih(6) set_ctrl_sockets [OF Cons.prems(2)] net_same_sockets [OF s(4)] nth sockets_of_Un
      by (rule arg_cong [where f = "\<lambda>P. sockets_of P st"]) (use True i(2) in auto)
    moreover have "p_controllers (priv st') = map (\<lambda>j. if j \<in> set (i # is) \<and> ci_valid (p_controllers (priv st) ! j) then zero_ctrl else p_controllers (priv st) ! j) [0..<16]"
      unfolding ih(2) nth using True i(2) by auto
    moreover note net_same_trans [OF s(4) ih(3)] ih(4)
    ultimately show ?thesis using s(1,2) True ih(1) by (intro exI [of _ st'] exI [of _ "ctrl_sockets i st (sessions st) @ fds"]) simp
  qed
qed


lemma state_reply_ok:
  assumes "3 \<le> length buf"
  shows "state_reply state buf st = Some (HAP_SUCCESS, message [(kTLVType_State, [state])] @ drop 3 buf, 3, st)"
  using add_tlv_fits [of "hap_tlv_data_init (Some buf) (int (length buf))" buf 0 kTLVType_State "[state]"] assms
  by (simp add: state_reply_def hap_tlv_data_init_def tlv_bytes_frags_short numeral_3_eq_3)

lemma is_admin_paired_iff: "is_admin_paired st \<longleftrightarrow>
    (\<exists>j < 16. ci_valid (p_controllers (priv st) ! j) \<and> info_perms (ci_info (p_controllers (priv st) ! j)) \<noteq> 0)"
  by (auto simp: is_admin_paired_def list_ex_iff HAP_MAX_CONTROLLERS_def)

lemma is_accessory_paired_iff: "is_accessory_paired st \<longleftrightarrow> (\<exists>j < 16. ci_valid (p_controllers (priv st) ! j))"
  by (auto simp: is_accessory_paired_def list_ex_iff HAP_MAX_CONTROLLERS_def)

text \<open>A request of the pairings handler reaches its operation.\<close>

lemma pairings_dispatch:
  assumes "hap_is_req_admin ctx st = Some True" "request xs buf inlen"
    "map_of xs kTLVType_State = Some [STATE_M1]" "terminated kTLVType_State xs"
    "map_of xs kTLVType_Method = Some [op_code]" "terminated kTLVType_Method xs"
  shows "hap_pairings_process ctx buf inlen st =
    (if op_code = HAP_METHOD_ADD_PAIRING then hap_process_pair_add buf inlen st
     else if op_code = HAP_METHOD_REMOVE_PAIRING then hap_process_pair_remove buf inlen st
     else if op_code = HAP_METHOD_LIST_PAIRINGS then hap_process_pair_list buf inlen st
     else error_reply STATE_M2 kTLVError_Unknown buf st)"
  using assms(1) request_read [OF assms(2-4), of "stack_array 1 st"] request_read [OF assms(2,5,6), of "stack_array 1 st"]
  by (simp add: hap_pairings_process_def)

lemma hap_send_event_keeps:
  "priv (snd (hap_send_event e st)) = priv st" "sessions (snd (hap_send_event e st)) = sessions st"
  "world (snd (hap_send_event e st)) = world st" "sess_at (snd (hap_send_event e st)) = sess_at st"
  by (simp_all add: hap_send_event_def sessions_def split: option.split)

text \<open>C7: Removing a controller, at the request of an administrator: the entry is gone; as long as an
  administrator remains, the other entries are untouched, and when the last one went, every other controller is removed too, and
  the main loop is told. The sockets that are closed are those of the sessions of the removed
  controllers, and no others.\<close>

theorem pair_remove_correct:
  assumes "hap_is_req_admin ctx st = Some True"
    and "request [(kTLVType_State, [STATE_M1]), (kTLVType_Method, [HAP_METHOD_REMOVE_PAIRING]), (kTLVType_Identifier, cid)] buf inlen"
    and "length cid < 64" "0 \<notin> set cid" "3 \<le> length buf"
    and "hap_get_controller (cid @ replicate (64 - length cid) 0) st = Some (Some i)" "i < 16"
    and "ks_ready st" "length (p_controllers (priv st)) = 16" "sessions_ok st"
  shows "\<exists>st' fds. hap_pairings_process ctx buf inlen st =
      Some (HAP_SUCCESS, message [(kTLVType_State, [STATE_M2])] @ drop 3 buf, 3, st') \<and>
    \<not> ci_valid (p_controllers (priv st') ! i) \<and> (is_accessory_paired st' \<longrightarrow> is_admin_paired st') \<and>
    (is_admin_paired st' \<longrightarrow> (\<forall>j < 16. j \<noteq> i \<longrightarrow> p_controllers (priv st') ! j = p_controllers (priv st) ! j)) \<and>
    xQueue st' = (if is_admin_paired st' then xQueue st else xQueue (snd (hap_send_event HAP_INTERNAL_EVENT_ACC_UNPAIRED st))) \<and>
    world st' = fold (httpd_sess_trigger_close (httpd st)) fds (world st) \<and>
    set fds = sockets_of (\<lambda>j. j < 16 \<and> (j = i \<or> ci_valid (p_controllers (priv st) ! j)) \<and> \<not> ci_valid (p_controllers (priv st') ! j)) st"
proof -
  have r: "tlv_read buf inlen kTLVType_Identifier (replicate HAP_CTRL_ID_LEN 0) =
      Some (int (length cid), cid @ replicate (64 - length cid) 0)"
    using request_read [OF assms(2), of kTLVType_Identifier cid "replicate HAP_CTRL_ID_LEN 0"] assms(3)
    by (auto simp: tlv_consts HAP_CTRL_ID_LEN_def)
  have disp: "hap_pairings_process ctx buf inlen st = hap_process_pair_remove buf inlen st"
    using pairings_dispatch [OF assms(1,2), of HAP_METHOD_REMOVE_PAIRING] by (simp add: tlv_consts pairing_methods)
  obtain st1 st2 where s: "hap_close_sessions_of_ctrl (Some i) st = Some st1" "hap_controller_remove (Some i) st1 = Some st2"
      "p_controllers (priv st2) = (p_controllers (priv st))[i := zero_ctrl]" "net_same st st2" "ks_ready st2"
      "closes (ctrl_sockets i st (sessions st)) st st2"
    using remove_step [OF assms(8,10), of i] by blast
  note unf = hap_process_pair_remove_def disp r s(1,2) assms(6) state_reply_ok [OF assms(5)]
  have nth: "p_controllers (priv st2) ! j = (if j = i then zero_ctrl else p_controllers (priv st) ! j)" for j
    using s(3) assms(7,9) by (cases "j = i") simp_all
  show ?thesis
  proof (cases "is_admin_paired st2")
    case True
    have "sockets_of (\<lambda>j. j = i) st =
        sockets_of (\<lambda>j. j < 16 \<and> (j = i \<or> ci_valid (p_controllers (priv st) ! j)) \<and> \<not> ci_valid (p_controllers (priv st2) ! j)) st"
      by (rule arg_cong [where f = "\<lambda>P. sockets_of P st"]) (use assms(7) nth in auto)
    with True s(4,6) nth show ?thesis
      by (intro exI [of _ st2] exI [of _ "ctrl_sockets i st (sessions st)"])
        (simp add: unf set_ctrl_sockets [OF assms(10)] net_same_def closes_def del: message_short)
  next
    case False
    have d: "distinct [0..<HAP_MAX_CONTROLLERS]" "set [0..<HAP_MAX_CONTROLLERS] \<subseteq> {..<16}" "length (p_controllers (priv st2)) = 16"
      using s(3) assms(9) by (auto simp: HAP_MAX_CONTROLLERS_def)
    have ok2: "sessions_ok st2" using net_same_ok [OF s(4)] assms(10) by simp
    obtain st3 fds where t: "hap_remove_all_controllers st2 = Some st3"
      "p_controllers (priv st3) = map (\<lambda>j. if j \<in> set [0..<HAP_MAX_CONTROLLERS] \<and> ci_valid (p_controllers (priv st2) ! j) then zero_ctrl
         else p_controllers (priv st2) ! j) [0..<16]"
      "net_same st2 st3" "closes fds st2 st3"
      "set fds = sockets_of (\<lambda>j. j \<in> set [0..<HAP_MAX_CONTROLLERS] \<and> ci_valid (p_controllers (priv st2) ! j)) st2"
      using remove_all_loop [OF s(5) ok2 d(1,3,2)] unfolding hap_remove_all_controllers_def by blast
    let ?st' = "snd (hap_send_event HAP_INTERNAL_EVENT_ACC_UNPAIRED st3)"
    have none: "\<not> ci_valid (p_controllers (priv ?st') ! j)" if "j < 16" for j
      using that t(2) by (simp add: hap_send_event_keeps HAP_MAX_CONTROLLERS_def)
    have unp: "\<not> is_accessory_paired ?st'" "\<not> is_admin_paired ?st'"
      using none by (auto simp: is_accessory_paired_iff is_admin_paired_iff)
    have c: "closes (ctrl_sockets i st (sessions st) @ fds) st ?st'"
      using closes_trans [OF s(4,6) t(4)] by (simp add: closes_def hap_send_event_keeps)
    have q: "xQueue ?st' = xQueue (snd (hap_send_event HAP_INTERNAL_EVENT_ACC_UNPAIRED st))"
      using net_same_trans [OF s(4) t(3)] by (simp add: net_same_def hap_send_event_def split: option.split)
    have "set (ctrl_sockets i st (sessions st) @ fds) =
        sockets_of (\<lambda>j. j < 16 \<and> (j = i \<or> ci_valid (p_controllers (priv st) ! j)) \<and> \<not> ci_valid (p_controllers (priv ?st') ! j)) st"
      unfolding set_append t(5) set_ctrl_sockets [OF assms(10)] net_same_sockets [OF s(4)] sockets_of_Un nth
      by (rule arg_cong [where f = "\<lambda>P. sockets_of P st"]) (use assms(7) none in \<open>auto simp: HAP_MAX_CONTROLLERS_def\<close>)
    with False t(1) none unp c q assms(7) show ?thesis
      by (intro exI [of _ ?st'] exI [of _ "ctrl_sockets i st (sessions st) @ fds"])
        (simp add: unf closes_def del: message_short)
  qed
qed

section \<open>Adding a controller\<close>

lemma controller_save_total:
  assumes "ks_ready st"
  shows "\<exists>r st'. hap_controller_save i st = Some (r, st') \<and>
    p_controllers (priv st') = (p_controllers (priv st))[i := (p_controllers (priv st) ! i)\<lparr>ci_valid := True\<rparr>]"
proof -
  let ?st = "upd_ctrl i (\<lambda>c. c\<lparr>ci_valid := True\<rparr>) st"
  have r: "ks_ready ?st" using assms by simp
  obtain q st1 where d: "hap_keystore_set HAP_KEYSTORE_NAMESPACE_CTRL (dec_str (unat (ci_index (p_controllers (priv ?st) ! i))))
      (ci_info (p_controllers (priv ?st) ! i)) ?st = Some (q, st1)" "ks_rest st1 = ks_rest ?st"
    using ks.set_law [OF r, of HAP_KEYSTORE_NAMESPACE_CTRL "dec_str (unat (ci_index (p_controllers (priv ?st) ! i)))"
        "ci_info (p_controllers (priv ?st) ! i)"] by blast
  have "priv st1 = priv ?st" using d(2) by (rule ks_rest_priv)
  with d(1) show ?thesis unfolding hap_controller_save_def Let_def by simp
qed

text \<open>The 97 bytes of an entry: the identifier with its terminator, the key and the permissions.\<close>

definition ctrl_bytes :: "byte list \<Rightarrow> byte list \<Rightarrow> byte \<Rightarrow> byte list \<Rightarrow> byte list" where
  "ctrl_bytes cid pk perms old = cid @ 0 # drop (Suc (length cid)) (take 64 old) @ pk @ [perms]"

lemma split_info:
  assumes "length old = 97"
  obtains a b c where "old = a @ b @ [c]" "length a = 64" "length b = 32"
proof
  have "drop 96 old = [old ! 96]" using Cons_nth_drop_Suc [of 96 old] assms by simp
  moreover have "take 32 (drop 64 old) @ drop 32 (drop 64 old) = drop 64 old" "take 64 old @ drop 64 old = old"
    by (simp_all only: append_take_drop_id)
  ultimately show "old = take 64 old @ take 32 (drop 64 old) @ [old ! 96]" by (simp add: drop_drop)
qed (use assms in simp_all)

lemma fill_ctrl_info_ok:
  assumes "length cid < 64" "0 \<notin> set cid" "length pk = 32" "length old = 97"
  shows "fill_ctrl_info (cid @ replicate (64 - length cid) 0) pk perms old = Some (ctrl_bytes cid pk perms old)"
proof -
  obtain a b c where old: "old = a @ b @ [c]" "length a = 64" "length b = 32" using split_info [OF assms(4)] .
  let ?x = "cid @ 0 # drop (Suc (length cid)) a"
  have x: "length ?x = 64" using assms(1) old by simp
  have "wr_block old 0 (cid @ [0]) = Some (?x @ b @ [c])" using assms old by (simp add: wr_block_def)
  moreover have "wr_block (?x @ b @ [c]) 64 pk = Some (?x @ pk @ [c])"
    using wr_block_mid [of b pk ?x "[c]"] old assms(3) x by simp
  moreover have "wr_block (?x @ pk @ [c]) 96 [perms] = Some (?x @ pk @ [perms])"
  proof -
    have "wr_block (y @ pk @ [c]) 96 [perms] = Some (y @ pk @ [perms])" if "length y = 64" for y
      using that assms(3) by (simp add: wr_block_def)
    from this [OF x] show ?thesis .
  qed
  ultimately show ?thesis using padded_id [OF assms(1,2)] old by (simp add: fill_ctrl_info_def ctrl_bytes_def)
qed

lemma ctrl_bytes_parts:
  assumes "length cid < 64" "0 \<notin> set cid" "length pk = 32" "length old = 97"
  shows "c_str (ctrl_bytes cid pk perms old) = cid" "info_ltpk (ctrl_bytes cid pk perms old) = pk"
    "info_perms (ctrl_bytes cid pk perms old) = perms" "length (ctrl_bytes cid pk perms old) = ctrl_info_size"
proof -
  let ?x = "cid @ 0 # drop (Suc (length cid)) (take 64 old)"
  have x: "length ?x = 64" and b: "ctrl_bytes cid pk perms old = ?x @ pk @ [perms]" using assms by (simp_all add: ctrl_bytes_def)
  show "c_str (ctrl_bytes cid pk perms old) = cid" using assms(2) by (simp add: ctrl_bytes_def c_str_append_zero)
  have "info_ltpk (y @ pk @ [perms]) = pk" "info_perms (y @ pk @ [perms]) = perms" "length (y @ pk @ [perms]) = 97"
    if "length y = 64" for y using that assms(3) by (simp_all add: info_ltpk_def info_perms_def nth_append)
  from this [OF x] show "info_ltpk (ctrl_bytes cid pk perms old) = pk"
    "info_perms (ctrl_bytes cid pk perms old) = perms" "length (ctrl_bytes cid pk perms old) = ctrl_info_size"
    unfolding b ctrl_info_size_def .
qed

lemma ctrl_fields: "(c :: hap_ctrl_data)\<lparr>ci_index := a, ci_info := b, ci_valid := d\<rparr> = \<lparr>ci_info = b, ci_valid = d, ci_index = a\<rparr>"
  by (cases c) simp

text \<open>C30: Adding a controller that is not in the table, at the request of an administrator: it takes the first free
  entry with its identifier, key and permissions, no other entry changes, and the reply is success. The reply does not
  depend on the keystore: when the entry was not saved, which the code does not look at, it is gone after the next
  reboot; when it was saved, table and keystore are in step. Without a free entry the reply is an error and
  nothing changes.\<close>

theorem pair_add_correct:
  assumes "hap_is_req_admin ctx st = Some True"
    and "request [(kTLVType_State, [STATE_M1]), (kTLVType_Method, [HAP_METHOD_ADD_PAIRING]), (kTLVType_Identifier, cid),
      (kTLVType_PublicKey, pk), (kTLVType_Permissions, [perms])] buf inlen"
    and "length cid < 64" "0 \<notin> set cid" "length pk = 32" "6 \<le> length buf"
    and "hap_get_controller (cid @ replicate (64 - length cid) 0) st = Some None" "synced st"
    and "\<forall>j < 16. length (ci_info (p_controllers (priv st) ! j)) = 97"
  shows "case hap_controller_get_empty_loc st of
      (None, st1) \<Rightarrow> st1 = st \<and> hap_pairings_process ctx buf inlen st = Some (HAP_FAIL,
        message [(kTLVType_State, [STATE_M2]), (kTLVType_Error, [kTLVError_MaxPeers])] @ drop 6 buf, 6, st)
    | (Some i, st1) \<Rightarrow> (\<exists>info r st'. hap_controller_save i (upd_ctrl i (\<lambda>c. c\<lparr>ci_info := info\<rparr>) st1) = Some (r, st') \<and>
        hap_pairings_process ctx buf inlen st = Some (HAP_SUCCESS, message [(kTLVType_State, [STATE_M2])] @ drop 3 buf, 3, st') \<and>
        c_str info = cid \<and> info_ltpk info = pk \<and> info_perms info = perms \<and>
        p_controllers (priv st') = (p_controllers (priv st))[i := \<lparr>ci_info = info, ci_valid = True, ci_index = of_nat i\<rparr>] \<and>
        (r = HAP_SUCCESS \<longrightarrow> synced st'))"
proof -
  note req = assms(2)
  have disp: "hap_pairings_process ctx buf inlen st = hap_process_pair_add buf inlen st"
    using pairings_dispatch [OF assms(1) req, of HAP_METHOD_ADD_PAIRING] by (simp add: tlv_consts pairing_methods)
  have r1: "tlv_read buf inlen kTLVType_Identifier (replicate HAP_CTRL_ID_LEN 0) =
      Some (int (length cid), cid @ replicate (64 - length cid) 0)"
    using request_read [OF req, of kTLVType_Identifier cid "replicate HAP_CTRL_ID_LEN 0"] assms(3)
    by (auto simp: tlv_consts HAP_CTRL_ID_LEN_def)
  have r2: "tlv_read buf inlen kTLVType_PublicKey (stack_array ED_KEY_LEN st) = Some (32, pk)"
    using request_read [OF req, of kTLVType_PublicKey pk "stack_array ED_KEY_LEN st"] assms(5)
    by (simp add: tlv_consts ED_KEY_LEN_def)
  have r3: "tlv_read buf inlen kTLVType_Permissions (stack_array 1 st) = Some (1, [perms])"
    using request_read [OF req, of kTLVType_Permissions "[perms]" "stack_array 1 st"] by (simp add: tlv_consts)
  note unf = disp hap_process_pair_add_def r1 r2 r3 [unfolded One_nat_def] assms(7)
  have b3: "3 \<le> length buf" using assms(6) by simp
  have len: "length (p_controllers (priv st)) = 16" "ks_ready st" using assms(8) by (simp_all add: synced_def)
  show ?thesis
  proof (cases "hap_controller_get_empty_loc st")
    case (Pair l st1)
    show ?thesis
    proof (cases l)
      case None
      with Pair have "st1 = st" by (auto simp: hap_controller_get_empty_loc_def split: option.splits)
      with Pair None show ?thesis using error_reply_bytes [OF assms(6)] by (simp add: unf del: message_short)
    next
      case (Some i)
      note e = find_empty [OF Pair [unfolded Some]]
      let ?old = "ci_info (p_controllers (priv st1) ! i)"
      have old: "length ?old = 97" using assms(9) e len by simp
      let ?info = "ctrl_bytes cid pk perms ?old"
      note parts = ctrl_bytes_parts [OF assms(3-5) old, of perms]
      have rdy: "ks_ready (upd_ctrl i (\<lambda>c. c\<lparr>ci_info := ?info\<rparr>) st1)" using e len by simp
      obtain r st' where sv: "hap_controller_save i (upd_ctrl i (\<lambda>c. c\<lparr>ci_info := ?info\<rparr>) st1) = Some (r, st')"
        "p_controllers (priv st') = (p_controllers (priv (upd_ctrl i (\<lambda>c. c\<lparr>ci_info := ?info\<rparr>) st1)))
          [i := (p_controllers (priv (upd_ctrl i (\<lambda>c. c\<lparr>ci_info := ?info\<rparr>) st1)) ! i)\<lparr>ci_valid := True\<rparr>]"
        using controller_save_total [OF rdy] by blast
      have tab: "p_controllers (priv st') = (p_controllers (priv st))[i := \<lparr>ci_info = ?info, ci_valid = True, ci_index = of_nat i\<rparr>]"
        unfolding sv(2) using e len by (simp add: ctrl_fields)
      have proc: "hap_pairings_process ctx buf inlen st = Some (HAP_SUCCESS, message [(kTLVType_State, [STATE_M2])] @ drop 3 buf, 3, st')"
        using Pair Some sv(1) fill_ctrl_info_ok [OF assms(3-5) old, of perms] state_reply_ok [OF b3]
        by (simp add: unf del: message_short)
      have "r = HAP_SUCCESS \<longrightarrow> synced st'"
        using controller_added [OF assms(8) Pair [unfolded Some] parts(4), of st'] sv(1) by auto
      with Pair Some sv(1) tab proc parts(1-3) show ?thesis by (simp del: message_short) blast
    qed
  qed
qed

section \<open>Listing the controllers\<close>

text \<open>The list as items: the state first, a separator between two controllers.\<close>

fun list_items :: "bool \<Rightarrow> hap_ctrl_data list \<Rightarrow> items" where
  "list_items entry_added [] = []"
| "list_items entry_added (c # cs) =
     (if \<not> ci_valid c then list_items entry_added cs
      else (if entry_added then (kTLVType_Separator, []) else (kTLVType_State, [STATE_M2])) #
        (kTLVType_Identifier, c_str (ci_info c)) # (kTLVType_PublicKey, info_ltpk (ci_info c)) #
        (kTLVType_Permissions, [info_perms (ci_info c)]) # list_items True cs)"

lemma message_append: "message (xs @ ys) = message xs @ message ys"
  by (induction xs) (simp_all add: message_Cons)

lemma list_loop_ok:
  assumes "bufptr tlv = Some b" "bufsize tlv = int (length b)" "curlen tlv = int n"
    "n + length (message (list_items f cs)) \<le> length b"
    "\<forall>c \<in> set cs. ci_valid c \<longrightarrow> 0 \<in> set (ci_info c) \<and> length (ci_info c) = 97"
  shows "pair_list_loop cs f tlv = Some (True, tlv\<lparr>bufptr := Some (take n b @ message (list_items f cs) @
      drop (n + length (message (list_items f cs))) b), curlen := int (n + length (message (list_items f cs)))\<rparr>)"
  using assms
proof (induction cs arbitrary: f tlv b n)
  case Nil
  then show ?case by (cases tlv) simp
next
  case (Cons c cs)
  show ?case
  proof (cases "ci_valid c")
    case False
    with Cons show ?thesis by simp
  next
    case True
    let ?i = "ci_info c"
    define xs where "xs = [if f then (kTLVType_Separator, []) else (kTLVType_State, [STATE_M2]),
        (kTLVType_Identifier, c_str ?i), (kTLVType_PublicKey, info_ltpk ?i), (kTLVType_Permissions, [info_perms ?i])]"
    have i: "0 \<in> set ?i" "length ?i = 97" using Cons.prems(5) True by simp_all
    have e: "list_entry f ?i = Some (to_add xs)"
      using i by (simp add: xs_def list_entry_def c_string_def to_add_def info_ltpk_def ED_KEY_LEN_def)
    have m: "message (list_items f (c # cs)) = message xs @ message (list_items True cs)"
      using True unfolding message_append [symmetric] by (simp add: xs_def del: message_short)
    have len: "n + length (message xs) \<le> length b" using Cons.prems(4) unfolding m by simp
    let ?b = "take n b @ message xs @ drop (n + length (message xs)) b"
    let ?t = "tlv\<lparr>bufptr := Some ?b, curlen := int (n + length (message xs))\<rparr>"
    have lb: "length ?b = length b" using len by simp
    have a: "add_tlv_all (to_add xs) tlv = Some (True, ?t)" by (rule add_tlv_all_fits [OF Cons.prems(1-3) len])
    have ih: "pair_list_loop cs True ?t = Some (True, ?t\<lparr>bufptr := Some (take (n + length (message xs)) ?b @ message (list_items True cs) @
        drop (n + length (message xs) + length (message (list_items True cs))) ?b),
        curlen := int (n + length (message xs) + length (message (list_items True cs)))\<rparr>)"
      by (rule Cons.IH) (use Cons.prems(2-5) lb m in simp_all)
    have "pair_list_loop (c # cs) f tlv = pair_list_loop cs True ?t" using True e a by simp
    with ih len show ?thesis unfolding m by (simp add: ac_simps min_absorb2)
  qed
qed


lemma list_size:
  assumes "\<forall>c \<in> set cs. ci_valid c \<longrightarrow> 0 \<in> set (take 64 (ci_info c)) \<and> length (ci_info c) = 97"
  shows "length (message (list_items f cs)) \<le> 106 * length cs"
  using assms
proof (induction cs arbitrary: f)
  case (Cons c cs)
  have ih: "length (message (list_items g cs)) \<le> 106 * length cs" for g using Cons by simp
  show ?case
  proof (cases "ci_valid c")
    case True
    have z: "0 \<in> set (take 64 (ci_info c))" "length (ci_info c) = 97" using Cons.prems True by simp_all
    have "c_str (ci_info c) = c_str (take 64 (ci_info c) @ drop 64 (ci_info c))" by simp
    also have "\<dots> = c_str (take 64 (ci_info c))" unfolding c_str_def using z(1) by (intro takeWhile_append1) auto
    finally have "length (c_str (ci_info c)) \<le> length (take 64 (ci_info c))" unfolding c_str_def by (simp only: length_takeWhile_le)
    then have "length (c_str (ci_info c)) \<le> 64" by simp
    moreover have "length (info_ltpk (ci_info c)) = 32" using z(2) by (simp add: info_ltpk_def)
    ultimately show ?thesis using True ih [of True] by (simp split: if_splits)
  next
    case False
    with ih [of f] show ?thesis by simp
  qed
qed simp

text \<open>Listing: an administrator gets every controller of the table, in its order, with identifier, key and permissions,
  the entries separated. The buffer of 2048 bytes of the handler is large enough for any sixteen entries.\<close>

theorem pair_list_correct:
  assumes "hap_is_req_admin ctx st = Some True"
    and "request [(kTLVType_State, [STATE_M1]), (kTLVType_Method, [HAP_METHOD_LIST_PAIRINGS])] buf inlen"
    and "\<forall>c \<in> set (p_controllers (priv st)). ci_valid c \<longrightarrow> 0 \<in> set (take 64 (ci_info c)) \<and> length (ci_info c) = 97"
    and "length (p_controllers (priv st)) = 16" "2048 \<le> length buf"
  shows "\<exists>buf' n. hap_pairings_process ctx buf inlen st = Some (HAP_SUCCESS, buf', n, st) \<and>
    request (list_items False (p_controllers (priv st))) buf' n"
proof -
  let ?m = "message (list_items False (p_controllers (priv st)))"
  have fits: "length ?m \<le> length buf" using list_size [OF assms(3), of False] assms(4,5) by simp
  have z: "\<forall>c \<in> set (p_controllers (priv st)). ci_valid c \<longrightarrow> 0 \<in> set (ci_info c) \<and> length (ci_info c) = 97"
    using assms(3) by (meson in_set_takeD)
  have disp: "hap_pairings_process ctx buf inlen st = hap_process_pair_list buf inlen st"
    using pairings_dispatch [OF assms(1,2), of HAP_METHOD_LIST_PAIRINGS] by (simp add: tlv_consts pairing_methods)
  have "pair_list_loop (p_controllers (priv st)) False (hap_tlv_data_init (Some buf) (int (length buf))) =
      Some (True, \<lparr>bufptr = Some (?m @ drop (length ?m) buf), bufsize = int (length buf), curlen = int (length ?m)\<rparr>)"
    using list_loop_ok [of "hap_tlv_data_init (Some buf) (int (length buf))" buf 0 False "p_controllers (priv st)"] z fits
    by (simp add: hap_tlv_data_init_def)
  then show ?thesis by (simp add: disp hap_process_pair_list_def request_def)
qed

section \<open>Who may use it\<close>

text \<open>C8: A request on a connection that is not the verified session of an administrator is refused and changes nothing.\<close>

theorem pairings_admin_only:
  assumes "hap_is_req_admin ctx st = Some False" "6 \<le> length buf"
  shows "hap_pairings_process ctx buf inlen st = Some (HAP_FAIL,
    message [(kTLVType_State, [STATE_M2]), (kTLVType_Error, [kTLVError_Authentication])] @ drop 6 buf, 6, st)"
  using assms error_reply_bytes [OF assms(2)] by (simp add: hap_pairings_process_def)

text \<open>An accessory with one controller, saved and connected, for the examples.\<close>

definition admin_net :: "(kv, string \<times> string, streams) hap_net" where
  "admin_net = paired_net\<lparr>pv_at := Map.empty, sess_at := [6 \<mapsto> verified_session [] 0],
     nvs := [(''nvs'', HAP_KEYSTORE_NAMESPACE_CTRL, dec_str 0) \<mapsto> demo_info]\<rparr>"

lemma admin_net_simps [simp]:
  "sess_at admin_net = [6 \<mapsto> verified_session [] 0]" "priv admin_net = priv paired_net" "ks_ready admin_net"
  "sessions_ok admin_net" "hap_is_req_admin (Some 6) admin_net = Some True"
  "hap_get_controller (replicate 36 65 @ replicate 28 0) admin_net = Some (Some 0)"
proof -
  show s: "sess_at admin_net = [6 \<mapsto> verified_session [] 0]" "priv admin_net = priv paired_net"
    by (simp_all add: admin_net_def)
  show "ks_ready admin_net"
    by (simp add: ks_ready_def admin_net_def paired_net_def boot_net_def hap_sys.defs boot_sys_def hap_ks.defs boot_ks_def hap_objs.defs map_nvs_lawful)
  have "sessions admin_net = replicate 8 None" using s(2) by (simp add: sessions_def paired_net_def zero_priv_def HAP_MAX_SESSIONS_def)
  then show "sessions_ok admin_net" by (simp add: sessions_ok_def HAP_MAX_SESSIONS_def)
  have "info_perms demo_info = 1" by (simp add: info_perms_def demo_info_def nth_append)
  with s show "hap_is_req_admin (Some 6) admin_net = Some True"
    by (simp add: hap_is_req_admin_def ctx_state_def verified_session_def)
  show "hap_get_controller (replicate 36 65 @ replicate 28 0) admin_net = Some (Some 0)"
    using demo_controller s(2) by (simp add: hap_get_controller_def)
qed

lemma request_self: "request xs (message xs) (int (length (message xs)))"
  by (simp add: request_def)

lemma pair_remove_correct_witness:
  "\<exists>st'. hap_pairings_process (Some 6)
      (message [(kTLVType_State, [STATE_M1]), (kTLVType_Method, [HAP_METHOD_REMOVE_PAIRING]), (kTLVType_Identifier, replicate 36 65)])
      (int (length (message [(kTLVType_State, [STATE_M1]), (kTLVType_Method, [HAP_METHOD_REMOVE_PAIRING]), (kTLVType_Identifier, replicate 36 65)])))
      admin_net = Some (HAP_SUCCESS, st') \<and> \<not> is_accessory_paired (snd (snd st'))"
proof -
  let ?buf = "message [(kTLVType_State, [STATE_M1]), (kTLVType_Method, [HAP_METHOD_REMOVE_PAIRING]), (kTLVType_Identifier, replicate 36 65)]"
  have h: "hap_get_controller (replicate 36 65 @ replicate (64 - length (replicate 36 (65 :: byte))) 0) admin_net = Some (Some 0)" by simp
  have "3 \<le> length ?buf" by simp
  from pair_remove_correct [OF admin_net_simps(5) request_self _ _ this h _ admin_net_simps(3) _ admin_net_simps(4)]
  obtain st' where r: "hap_pairings_process (Some 6) ?buf (int (length ?buf)) admin_net =
      Some (HAP_SUCCESS, message [(kTLVType_State, [STATE_M2])] @ drop 3 ?buf, 3, st')"
    "is_accessory_paired st' \<longrightarrow> is_admin_paired st'" "\<not> ci_valid (p_controllers (priv st') ! 0)"
    "is_admin_paired st' \<longrightarrow> (\<forall>j < 16. j \<noteq> 0 \<longrightarrow> p_controllers (priv st') ! j = p_controllers (priv admin_net) ! j)"
    by auto
  have "\<not> ci_valid (p_controllers (priv st') ! j)" if "is_admin_paired st'" "j < 16" for j
    using r(3,4) that by (cases j) auto
  then have "\<not> is_admin_paired st'" unfolding is_admin_paired_iff by blast
  with r show ?thesis by auto
qed

lemma pair_add_correct_witness:
  "\<exists>st'. hap_pairings_process (Some 6)
      (message [(kTLVType_State, [STATE_M1]), (kTLVType_Method, [HAP_METHOD_ADD_PAIRING]), (kTLVType_Identifier, [66]),
        (kTLVType_PublicKey, replicate 32 8), (kTLVType_Permissions, [1])])
      (int (length (message [(kTLVType_State, [STATE_M1]), (kTLVType_Method, [HAP_METHOD_ADD_PAIRING]), (kTLVType_Identifier, [66]),
        (kTLVType_PublicKey, replicate 32 8), (kTLVType_Permissions, [1])])))
      admin_net = Some (HAP_SUCCESS, st') \<and> ci_valid (p_controllers (priv (snd (snd st'))) ! 1) \<and>
    c_str (ci_info (p_controllers (priv (snd (snd st'))) ! 1)) = [66]"
proof -
  let ?buf = "message [(kTLVType_State, [STATE_M1]), (kTLVType_Method, [HAP_METHOD_ADD_PAIRING]), (kTLVType_Identifier, [66]),
        (kTLVType_PublicKey, replicate 32 8), (kTLVType_Permissions, [1 :: byte])]"
  have tab: "p_controllers (priv admin_net) = \<lparr>ci_info = demo_info, ci_valid = True, ci_index = 0\<rparr> # replicate 15 zero_ctrl" by simp
  have nth: "p_controllers (priv admin_net) ! j = (if j = 0 then \<lparr>ci_info = demo_info, ci_valid = True, ci_index = 0\<rparr> else zero_ctrl)" if "j < 16" for j
    using that unfolding tab by (cases j) auto
  have dl: "length demo_info = 97" by (simp add: demo_info_def)
  have "view": "ks_view admin_net = [ctrl_key 0 \<mapsto> demo_info]"
    by (auto simp: dl ks_view_def fun_eq_iff ctrl_key_def map_nvs_view admin_net_def paired_net_def boot_net_def hap_sys.defs boot_sys_def hap_ks.defs boot_ks_def hap_objs.defs)
  have sync: "synced admin_net"
    unfolding synced_def Let_def
  proof (intro conjI allI impI)
    fix j :: nat assume j: "j < 16"
    show "if ci_valid (p_controllers (priv admin_net) ! j)
         then ci_index (p_controllers (priv admin_net) ! j) = of_nat j \<and>
           length (ci_info (p_controllers (priv admin_net) ! j)) = ctrl_info_size \<and>
           ks_view admin_net (ctrl_key j) = Some (ci_info (p_controllers (priv admin_net) ! j))
         else \<forall>v. ks_view admin_net (ctrl_key j) = Some v \<longrightarrow> length v \<noteq> ctrl_info_size"
      using j ctrl_key_inj [OF j, of 0] dl by (simp add: nth "view" ctrl_info_size_def)
  qed simp_all
  have idx: "[0..<HAP_MAX_CONTROLLERS] = 0 # 1 # [2..<16]" by (simp add: HAP_MAX_CONTROLLERS_def upt_conv_Cons)
  have e: "hap_controller_get_empty_loc admin_net = (Some 1, upd_ctrl 1 (\<lambda>c. c\<lparr>ci_index := of_nat 1\<rparr>) admin_net)"
    unfolding hap_controller_get_empty_loc_def idx by (simp add: nth)
  have n: "hap_get_controller ([66] @ replicate (64 - length [66 :: byte]) 0) admin_net = Some None"
  proof -
    have c: "c_str (66 # replicate 63 0) = [66]" by (simp add: c_str_def)
    have "find_ctrl (66 # replicate 63 0) (p_controllers (priv admin_net)) [0..<HAP_MAX_CONTROLLERS] =
      Some (find (\<lambda>i. ci_valid (p_controllers (priv admin_net) ! i) \<and> c_str (ci_info (p_controllers (priv admin_net) ! i)) = c_str (66 # replicate 63 0)) [0..<HAP_MAX_CONTROLLERS])"
      by (rule find_ctrl_spec) (use demo_info_parts in \<open>auto simp: HAP_MAX_CONTROLLERS_def nth_Cons' split: if_splits\<close>)
    moreover have "c_str demo_info \<noteq> [66]"
    proof
      assume "c_str demo_info = [66]"
      then have "length (replicate 36 (65 :: byte)) = length [66 :: byte]" using demo_info_parts(1) by metis
      then show False by simp
    qed
    moreover from this have "find (\<lambda>i. ci_valid (p_controllers (priv admin_net) ! i) \<and> c_str (ci_info (p_controllers (priv admin_net) ! i)) = c_str (66 # replicate 63 0)) [0..<HAP_MAX_CONTROLLERS] = None"
      using c by (auto simp: find_None_iff HAP_MAX_CONTROLLERS_def nth_Cons' split: if_splits)
    ultimately show ?thesis by (simp add: hap_get_controller_def)
  qed
  have lens: "\<forall>j < 16. length (ci_info (p_controllers (priv admin_net) ! j)) = 97" using dl by (auto simp: ctrl_info_size_def nth_Cons')
  have b: "6 \<le> length ?buf" by simp
  from pair_add_correct [OF admin_net_simps(5) request_self _ _ _ b n sync lens] e obtain info st' where
    "hap_pairings_process (Some 6) ?buf (int (length ?buf)) admin_net = Some (HAP_SUCCESS, message [(kTLVType_State, [STATE_M2])] @ drop 3 ?buf, 3, st')"
    "c_str info = [66]"
    "p_controllers (priv st') = (p_controllers (priv admin_net))[1 := \<lparr>ci_info = info, ci_valid = True, ci_index = of_nat 1\<rparr>]"
    by (auto simp del: message_short)
  then show ?thesis using tab by (simp del: message_short)
qed

lemma pair_list_correct_witness:
  "\<exists>buf' n. hap_pairings_process (Some 6) (message [(kTLVType_State, [STATE_M1]), (kTLVType_Method, [HAP_METHOD_LIST_PAIRINGS])] @ replicate 2048 0) 6
      admin_net = Some (HAP_SUCCESS, buf', n, admin_net)"
proof -
  let ?m = "message [(kTLVType_State, [STATE_M1]), (kTLVType_Method, [HAP_METHOD_LIST_PAIRINGS])]"
  have r: "request [(kTLVType_State, [STATE_M1]), (kTLVType_Method, [HAP_METHOD_LIST_PAIRINGS])] (?m @ replicate 2048 0) 6"
    by (simp add: request_def)
  have "0 \<in> set (take 64 demo_info)" "length demo_info = 97" by (simp_all add: demo_info_def)
  then have "\<forall>c \<in> set (p_controllers (priv admin_net)). ci_valid c \<longrightarrow> 0 \<in> set (take 64 (ci_info c)) \<and> length (ci_info c) = 97" by auto
  from pair_list_correct [OF admin_net_simps(5) r this] show ?thesis by auto
qed

lemma pairings_admin_only_witness:
  "hap_pairings_process None (replicate 6 0) 6 admin_net = Some (HAP_FAIL, message [(kTLVType_State, [STATE_M2]), (kTLVType_Error, [kTLVError_Authentication])], 6, admin_net)"
  using pairings_admin_only [of None admin_net "replicate 6 0" 6] by (simp add: hap_is_req_admin_def)

text \<open>C35: An administrator can take the permission away from the last administrator, itself included: the accessory stays
  paired and no controller can manage it, and the reply is success.\<close>

theorem pair_add_demotes_last_admin:
  assumes "hap_is_req_admin ctx st = Some True"
    and "request [(kTLVType_State, [STATE_M1]), (kTLVType_Method, [HAP_METHOD_ADD_PAIRING]), (kTLVType_Identifier, cid),
      (kTLVType_PublicKey, info_ltpk (ci_info (p_controllers (priv st) ! i))), (kTLVType_Permissions, [0])] buf inlen"
    and "length cid < 64" "3 \<le> length buf" "length (ci_info (p_controllers (priv st) ! i)) = 97"
    and "hap_get_controller (cid @ replicate (64 - length cid) 0) st = Some (Some i)" "i < 16"
    and "ks_ready st" "length (p_controllers (priv st)) = 16"
    and "\<forall>j < 16. j \<noteq> i \<and> ci_valid (p_controllers (priv st) ! j) \<longrightarrow> info_perms (ci_info (p_controllers (priv st) ! j)) = 0"
  shows "\<exists>st'. hap_pairings_process ctx buf inlen st = Some (HAP_SUCCESS, message [(kTLVType_State, [STATE_M2])] @ drop 3 buf, 3, st') \<and>
    is_accessory_paired st' \<and> \<not> is_admin_paired st'"
proof -
  let ?info = "ci_info (p_controllers (priv st) ! i)"
  note req = assms(2)
  have lpk: "length (info_ltpk ?info) = 32" using assms(5) by (simp add: info_ltpk_def)
  have disp: "hap_pairings_process ctx buf inlen st = hap_process_pair_add buf inlen st"
    using pairings_dispatch [OF assms(1) req, of HAP_METHOD_ADD_PAIRING] by (simp add: tlv_consts pairing_methods)
  have r1: "tlv_read buf inlen kTLVType_Identifier (replicate HAP_CTRL_ID_LEN 0) =
      Some (int (length cid), cid @ replicate (64 - length cid) 0)"
    using request_read [OF req, of kTLVType_Identifier cid "replicate HAP_CTRL_ID_LEN 0"] assms(3)
    by (auto simp: tlv_consts HAP_CTRL_ID_LEN_def)
  have r2: "tlv_read buf inlen kTLVType_PublicKey (stack_array ED_KEY_LEN st) = Some (32, info_ltpk ?info)"
    using request_read [OF req, of kTLVType_PublicKey "info_ltpk ?info" "stack_array ED_KEY_LEN st"] lpk
    by (simp add: tlv_consts ED_KEY_LEN_def)
  have r3: "tlv_read buf inlen kTLVType_Permissions (stack_array 1 st) = Some (1, [0])"
    using request_read [OF req, of kTLVType_Permissions "[0]" "stack_array 1 st"] by (simp add: tlv_consts)
  obtain a b c where old: "?info = a @ b @ [c]" "length a = 64" "length b = 32" using split_info [OF assms(5)] .
  have w: "wr_block ?info 96 [0] = Some (a @ b @ [0])" unfolding old(1) using old(2,3) by (simp add: wr_block_def)
  let ?st = "upd_ctrl i (\<lambda>c. c\<lparr>ci_info := a @ b @ [0]\<rparr>) st"
  have rdy: "ks_ready ?st" using assms(8) by simp
  obtain r st' where sv: "hap_controller_save i ?st = Some (r, st')"
    "p_controllers (priv st') = (p_controllers (priv ?st))[i := (p_controllers (priv ?st) ! i)\<lparr>ci_valid := True\<rparr>]"
    using controller_save_total [OF rdy, of i] by blast
  have proc: "hap_pairings_process ctx buf inlen st = Some (HAP_SUCCESS, message [(kTLVType_State, [STATE_M2])] @ drop 3 buf, 3, st')"
    using w sv(1) state_reply_ok [OF assms(4)]
    by (simp add: disp hap_process_pair_add_def r1 r2 r3 [unfolded One_nat_def] assms(6) del: message_short)
  have nth: "p_controllers (priv st') ! j = (if j = i then (p_controllers (priv st) ! i)\<lparr>ci_info := a @ b @ [0], ci_valid := True\<rparr>
      else p_controllers (priv st) ! j)" for j
    unfolding sv(2) using assms(7,9) by (cases "j = i") simp_all
  have p: "info_perms (a @ b @ [0]) = 0" using old(2,3) by (simp add: info_perms_def nth_append)
  have "is_accessory_paired st'" using assms(7) nth by (auto simp: is_accessory_paired_iff intro!: exI [of _ i])
  moreover have "\<not> is_admin_paired st'" using assms(10) nth p by (auto simp: is_admin_paired_iff split: if_splits)
  ultimately show ?thesis using proc by blast
qed


lemma pair_add_demotes_last_admin_witness:
  "\<exists>st'. hap_pairings_process (Some 6)
      (message [(kTLVType_State, [STATE_M1]), (kTLVType_Method, [HAP_METHOD_ADD_PAIRING]), (kTLVType_Identifier, replicate 36 65),
        (kTLVType_PublicKey, replicate 32 7), (kTLVType_Permissions, [0])])
      (int (length (message [(kTLVType_State, [STATE_M1]), (kTLVType_Method, [HAP_METHOD_ADD_PAIRING]), (kTLVType_Identifier, replicate 36 65),
        (kTLVType_PublicKey, replicate 32 7), (kTLVType_Permissions, [0])]))) admin_net = Some (HAP_SUCCESS, st') \<and>
    is_accessory_paired (snd (snd st')) \<and> \<not> is_admin_paired (snd (snd st'))"
proof -
  let ?xs = "\<lambda>pk. [(kTLVType_State, [STATE_M1]), (kTLVType_Method, [HAP_METHOD_ADD_PAIRING]), (kTLVType_Identifier, replicate 36 65),
        (kTLVType_PublicKey, pk), (kTLVType_Permissions, [0 :: byte])]"
  let ?buf = "message (?xs (replicate 32 7))"
  have tab: "p_controllers (priv admin_net) = \<lparr>ci_info = demo_info, ci_valid = True, ci_index = 0\<rparr> # replicate 15 zero_ctrl" by simp
  have r: "request (?xs (info_ltpk (ci_info (p_controllers (priv admin_net) ! 0)))) ?buf (int (length ?buf))"
    by (simp add: request_def demo_info_parts)
  have h: "hap_get_controller (replicate 36 65 @ replicate (64 - length (replicate 36 (65 :: byte))) 0) admin_net = Some (Some 0)" by simp
  have b: "3 \<le> length ?buf" by simp
  have l: "length (ci_info (p_controllers (priv admin_net) ! 0)) = 97" by (simp add: demo_info_def)
  have o: "\<forall>j < 16. j \<noteq> 0 \<and> ci_valid (p_controllers (priv admin_net) ! j) \<longrightarrow> info_perms (ci_info (p_controllers (priv admin_net) ! j)) = 0"
    unfolding tab by (auto simp: nth_Cons')
  from pair_add_demotes_last_admin [OF admin_net_simps(5) r _ b l h _ admin_net_simps(3) _ o] show ?thesis by auto
qed

end
