(* ===== verification/Pair_Setup.thy ===== *)
theory Pair_Setup
  imports Pairings
begin

text \<open>
  Pair Setup (\<open>esp_hap_pair_setup.c\<close>, with the variant \<open>esp_mfi_dummy.c\<close> of the MFi authentication): the
  exchange by which the first controller is paired, with the setup code as the password of SRP-6a. There
  is one context, kept in a static variable (\<open>setup_ctx\<close>) and in the HTTP session of the controller, with
  a timer that ends an exchange that takes too long.

  The structure of a controller in the table is written to while the exchange goes on. The pointers
  \<open>bytes_s\<close> and \<open>shared_secret\<close> are the bytes they point to.
\<close>

section \<open>The code\<close>

definition HAP_PAIR_SETUP_MAX_ATTEMPTS :: byte where "HAP_PAIR_SETUP_MAX_ATTEMPTS = 100"
definition PAIR_FLAG_TRANSIENT :: u32 where "PAIR_FLAG_TRANSIENT = 0x10"
definition PAIR_FLAG_SPLIT :: u32 where "PAIR_FLAG_SPLIT = 0x1000000"

definition zero_ps :: pair_setup_ctx where
  "zero_ps = \<lparr>ps_state = 0, ps_method = 0, ps_pairing_flags = 0, ps_pairing_flags_len = 0, ps_len_s = 0, ps_bytes_s = None,
     ps_secret_len = 0, ps_shared_secret = None, ps_srp_hd = zero_srp, ps_ctrl = None, ps_session_key = replicate 32 0,
     ps_timer = None, ps_session = None, ps_sock_fd = 0\<rparr>"

definition ps_put ::
    "ptr \<Rightarrow> pair_setup_ctx \<Rightarrow> ('n, 'h, 'w, 's) hap_net_scheme \<Rightarrow> ('n, 'h, 'w, 's) hap_net_scheme" where
  "ps_put p v st = st\<lparr>ps_at := (ps_at st)(p \<mapsto> v)\<rparr>"

text \<open>
  The public key of the accessory, from the setup code or from salt and verifier. The result is None
  inside when the code has already replied with an error (salt and verifier not accepted), else
  \<open>bytes_B\<close> with its length, which is undefined when it was not written.
\<close>

definition srp_public_key ::
    "pair_setup_ctx \<Rightarrow> ('n, 'h, 'w, 's) hap_net_scheme \<Rightarrow>
     (((byte list option \<times> nat) option) option \<times> pair_setup_ctx \<times> ('n, 'h, 'w, 's) hap_net_scheme) option" where
  "srp_public_key v st = do {
     let (_, srp, st) = mu_srp_init (mpi st) MU_NG_3072 (ps_srp_hd v) st;
     case p_setup_code (priv st) of
       Some setup_code \<Rightarrow> do {
         let v = v\<lparr>ps_len_s := 16\<rparr>;
         (_, B, bytes_s, srp, st) \<leftarrow> mu_srp_srv_pubkey (mpi st) srp ''Pair-Setup'' (str_bytes setup_code) (ps_len_s v) (ps_bytes_s v) st;
         Some (Some B, v\<lparr>ps_srp_hd := srp, ps_bytes_s := bytes_s\<rparr>, st) }
     | None \<Rightarrow> do {
         setup_info \<leftarrow> p_setup_info (priv st);
         let (r, srp, st) = mu_srp_set_salt_verifier (mpi st) srp (si_salt setup_info) (si_verifier setup_info) st;
         if r < 0 then Some (None, v\<lparr>ps_srp_hd := srp\<rparr>, st)
         else do {
           let v = v\<lparr>ps_bytes_s := Some (si_salt setup_info), ps_len_s := length (si_salt setup_info)\<rparr>;
           (_, B, srp, st) \<leftarrow> mu_srp_srv_pubkey_from_salt_verifier (mpi st) srp st;
           Some (Some B, v\<lparr>ps_srp_hd := srp\<rparr>, st) } } }"

text \<open>The reply of the first step.\<close>

definition srp_start_reply ::
    "ptr \<Rightarrow> pair_setup_ctx \<Rightarrow> byte list \<Rightarrow> byte list option \<times> nat \<Rightarrow> ('n, 'h, 'w, 's) hap_net_scheme \<Rightarrow>
     ('n, 'h, 'w, 's) hap_net_scheme reply option" where
  "srp_start_reply p v buf B st = (case (ps_bytes_s v, fst B) of
     (Some bytes_s, Some bytes_B) \<Rightarrow> do {
       (ok, tlv) \<leftarrow> add_tlv_all [(kTLVType_State, 1, [STATE_M2]), (kTLVType_PublicKey, int (snd B), bytes_B),
         (kTLVType_Salt, int (ps_len_s v), bytes_s)] (hap_tlv_data_init (Some buf) (int (length buf)));
       buf \<leftarrow> bufptr tlv;
       if \<not> ok then error_reply STATE_M2 kTLVError_Unknown buf (ps_put p v st)
       else do {
         (_, tlv) \<leftarrow> (if ps_pairing_flags_len v \<noteq> 0
           then add_tlv tlv kTLVType_Flags (uint (ps_pairing_flags_len v)) (le_bytes 4 (ps_pairing_flags v))
           else Some (0, tlv));
         buf \<leftarrow> bufptr tlv;
         Some (HAP_SUCCESS, buf, curlen tlv,
           hap_report_event HAP_EVENT_PAIRING_STARTED [] (ps_put p (v\<lparr>ps_state := STATE_M2\<rparr>) st)) } }
   | _ \<Rightarrow> error_reply STATE_M2 kTLVError_Unknown buf (ps_put p v st))"

definition hap_pair_setup_process_srp_start ::
    "ptr \<Rightarrow> byte list \<Rightarrow> int \<Rightarrow> ('n, 'h, 'w, 's) hap_net_scheme \<Rightarrow>
     ('n, 'h, 'w, 's) hap_net_scheme reply option" where
  "hap_pair_setup_process_srp_start p buf inlen st =
     (if is_accessory_paired st then error_reply STATE_M2 kTLVError_Unavailable buf st
      else if HAP_PAIR_SETUP_MAX_ATTEMPTS \<le> p_pair_attempts (priv st) then error_reply STATE_M2 kTLVError_MaxTries buf st
      else do {
        v \<leftarrow> ps_at st p;
        let (ctrl, st) = hap_controller_get_empty_loc st;
        let v = v\<lparr>ps_ctrl := ctrl\<rparr>;
        if ctrl = None then error_reply STATE_M2 kTLVError_Unknown buf (ps_put p v st)
        else do {
          (r, state) \<leftarrow> tlv_read buf inlen kTLVType_State (stack_array 1 st);
          if r < 0 then error_reply STATE_M2 kTLVError_Unknown buf (ps_put p v st)
          else do {
            (r, m) \<leftarrow> tlv_read buf inlen kTLVType_Method [ps_method v];
            let v = v\<lparr>ps_method := m ! 0\<rparr>;
            if r < 0 \<or> state ! 0 \<noteq> STATE_M1 then error_reply STATE_M2 kTLVError_Unknown buf (ps_put p v st)
            else do {
              (flags_len, flags) \<leftarrow> tlv_read buf inlen kTLVType_Flags (le_bytes 4 (ps_pairing_flags v));
              let v = v\<lparr>ps_pairing_flags := of_nat (le_val flags)\<rparr>;
              let v = (if flags_len > 0 then v\<lparr>ps_pairing_flags_len := of_int flags_len\<rparr> else v);
              if flags_len > 0 \<and> ps_pairing_flags v AND PAIR_FLAG_SPLIT = 0
              then error_reply STATE_M2 kTLVError_Unknown buf (ps_put p v st)
              else if flags_len > 0 \<and> (ps_pairing_flags v OR p_pairing_flags (priv st)) AND PAIR_FLAG_TRANSIENT = 0
              then error_reply STATE_M2 kTLVError_Authentication buf (ps_put p v st)
              else do {
                let st = upd_priv (\<lambda>h. h\<lparr>p_pairing_flags := ps_pairing_flags v\<rparr>) st;
                (B, v, st) \<leftarrow> srp_public_key v st;
                case B of None \<Rightarrow> error_reply STATE_M2 kTLVError_Unknown buf (ps_put p v st)
                | Some B \<Rightarrow>
                    if ps_bytes_s v = None then error_reply STATE_M2 kTLVError_Unknown buf (ps_put p v st)
                    else do { B \<leftarrow> B; srp_start_reply p v buf B st } } } } } })"

text \<open>\<open>hkdf\<close> on the shared secret of the exchange, a pointer and a length.\<close>

definition derive_shared :: "string \<Rightarrow> string \<Rightarrow> pair_setup_ctx \<Rightarrow> byte list option" where
  "derive_shared salt info v = do {
     (_, key) \<leftarrow> hkdf (Some (str_bytes salt)) (ps_shared_secret v) (ps_secret_len v) (str_bytes info) (replicate 32 0) 32;
     Some key }"

text \<open>\<open>esp_mfi_dummy.c\<close>: without the MFi software only plain pair setup is offered.\<close>

definition hap_pair_setup_manage_mfi_auth :: "pair_setup_ctx \<Rightarrow> byte \<Rightarrow> int \<times> byte" where
  "hap_pair_setup_manage_mfi_auth v tlv_error =
     (if ps_method v = HAP_METHOD_PAIR_SETUP then (HAP_FAIL, kTLVError_Unknown) else (0, tlv_error))"

definition hap_enable_mfi_auth ::
    "nat \<Rightarrow> ('n, 'h, 'w, 's) hap_net_scheme \<Rightarrow> int \<times> ('n, 'h, 'w, 's) hap_net_scheme" where
  "hap_enable_mfi_auth auth_type st = (0, upd_priv (\<lambda>h. h\<lparr>p_auth_type := 0\<rparr>) st)"

definition hap_pair_setup_process_srp_verify ::
    "ptr \<Rightarrow> byte list \<Rightarrow> int \<Rightarrow> ('n, 'h, 'w, 's) hap_net_scheme \<Rightarrow>
     ('n, 'h, 'w, 's) hap_net_scheme reply option" where
  "hap_pair_setup_process_srp_verify p buf inlen st = do {
     v \<leftarrow> ps_at st p;
     (r, state) \<leftarrow> tlv_read buf inlen kTLVType_State (stack_array 1 st);
     if r < 0 then error_reply STATE_M4 kTLVError_Unknown buf st
     else do {
       (key_len, ctrl_public_key) \<leftarrow> tlv_read buf inlen kTLVType_PublicKey (stack_array 384 st);
       if key_len < 0 then error_reply STATE_M4 kTLVError_Unknown buf st
       else do {
         (proof_len, ctrl_proof) \<leftarrow> tlv_read buf inlen kTLVType_Proof (stack_array 64 st);
         if proof_len < 0 \<or> state ! 0 \<noteq> STATE_M3 then error_reply STATE_M4 kTLVError_Unknown buf st
         else do {
           (_, key, srp, st) \<leftarrow> mu_srp_get_session_key (mpi st) (ps_srp_hd v) ctrl_public_key (nat key_len) st;
           let v = v\<lparr>ps_srp_hd := srp\<rparr>;
           let v = (case key of None \<Rightarrow> v | Some (k, n) \<Rightarrow> v\<lparr>ps_shared_secret := Some k, ps_secret_len := n\<rparr>);
           (ret, host_proof) \<leftarrow> mu_srp_exchange_proofs srp ''Pair-Setup'' ctrl_proof;
           if ret \<noteq> 1 then do {
             (ret, buf, outlen, st) \<leftarrow> error_reply STATE_M4 kTLVError_Authentication buf (ps_put p v st);
             Some (ret, buf, outlen, hap_report_event HAP_EVENT_PAIRING_ABORTED [] st) }
           else do {
             host_proof \<leftarrow> host_proof;
             k \<leftarrow> derive_shared ''Pair-Setup-Encrypt-Salt'' ''Pair-Setup-Encrypt-Info'' v;
             let v = v\<lparr>ps_session_key := k\<rparr>;
             (ok, tlv) \<leftarrow> add_tlv_all [(kTLVType_State, 1, [STATE_M4]), (kTLVType_Proof, int SHA512HashSize, host_proof)]
               (hap_tlv_data_init (Some buf) (int (length buf)));
             buf \<leftarrow> bufptr tlv;
             if \<not> ok then error_reply STATE_M4 kTLVError_Unknown buf (ps_put p v st)
             else let (r, tlv_error) = hap_pair_setup_manage_mfi_auth v 0 in
               if r \<noteq> 0 then error_reply STATE_M4 tlv_error buf (ps_put p v st)
               else Some (HAP_SUCCESS, buf, curlen tlv, ps_put p (v\<lparr>ps_state := STATE_M4\<rparr>) st) } } } } }"


text \<open>What M5 carries, decrypted in place.\<close>

definition ps_decrypt :: "byte list \<Rightarrow> byte list \<Rightarrow> int \<Rightarrow> hap_crypto \<Rightarrow> byte list option option" where
  "ps_decrypt key edata edata_len cr = do {
     c \<leftarrow> rd_block edata 0 edata_len;
     tag \<leftarrow> rd_block edata edata_len 16;
     case aead_decrypt cr key (msg_nonce ''PS-Msg05'') [] c tag of
       None \<Rightarrow> Some None
     | Some m \<Rightarrow> do { edata \<leftarrow> wr_block edata 0 m; Some (Some edata) } }"

text \<open>
  The items of M5, read into the entry of the controller: the identifier, its terminator, which for an identifier of
  64 bytes is the first byte of the key, and the key. The result is the length of the identifier and the signature.
\<close>

definition ps_read_ctrl ::
    "byte list \<Rightarrow> int \<Rightarrow> byte list \<Rightarrow> byte list \<Rightarrow> ((int \<times> byte list) option \<times> byte list) option" where
  "ps_read_ctrl edata edata_len info ed_sign = do {
     (id_len, cid) \<leftarrow> tlv_read edata edata_len kTLVType_Identifier (info_id info);
     let info = cid @ drop 64 info;
     if id_len < 0 then Some (None, info)
     else do {
       (r, pk) \<leftarrow> tlv_read edata edata_len kTLVType_PublicKey (info_ltpk info);
       let info = take 64 info @ pk @ drop 96 info;
       if r \<noteq> int ED_KEY_LEN then Some (None, info)
       else do {
         (r, sig) \<leftarrow> tlv_read edata edata_len kTLVType_Signature ed_sign;
         if r \<noteq> 64 then Some (None, info)
         else do { info \<leftarrow> wr_block info id_len [0]; Some (Some (id_len, sig), info) } } } }"

text \<open>The encrypted part of M6, in the array \<open>subtlv\<close>, and its length with the tag.\<close>

definition ps_m6_edata ::
    "byte list \<Rightarrow> byte list \<Rightarrow> ('n, 'h, 'w, 's) hap_net_scheme \<Rightarrow> (byte list \<times> int) option" where
  "ps_m6_edata key ed_sign st = do {
     let acc_id = str_bytes (p_acc_id (priv st));
     let n = 6 + HAP_ACC_ID_LEN + ED_KEY_LEN + nat ED_SIGN_LEN + nat POLY_AUTHTAG_LEN;
     let tlv = hap_tlv_data_init (Some (stack_array n st)) (int n);
     (_, tlv) \<leftarrow> add_tlv tlv kTLVType_Identifier (int (length acc_id)) acc_id;
     (_, tlv) \<leftarrow> add_tlv tlv kTLVType_PublicKey 32 (drop 32 (p_ltk (priv st)));
     (_, tlv) \<leftarrow> add_tlv tlv kTLVType_Signature 64 ed_sign;
     subtlv \<leftarrow> bufptr tlv;
     msg \<leftarrow> rd_block subtlv 0 (curlen tlv);
     let (c, tag) = aead_encrypt (crypto st) key (msg_nonce ''PS-Msg06'') [] msg;
     subtlv \<leftarrow> wr_block subtlv 0 c;
     subtlv \<leftarrow> wr_block subtlv (curlen tlv) tag;
     Some (subtlv, curlen tlv + 16) }"

definition hap_pair_setup_process_exchange ::
    "ptr \<Rightarrow> byte list \<Rightarrow> int \<Rightarrow> ('n, 'h, 'w, 's) hap_net_scheme \<Rightarrow>
     ('n, 'h, 'w, 's) hap_net_scheme reply option" where
  "hap_pair_setup_process_exchange p buf inlen st = do {
     v \<leftarrow> ps_at st p;
     (r, state) \<leftarrow> tlv_read buf inlen kTLVType_State (stack_array 1 st);
     if r < 0 then error_reply STATE_M6 kTLVError_Unknown buf st
     else do {
       (edata_len, edata) \<leftarrow> tlv_read buf inlen kTLVType_EncryptedData (stack_array 220 st);
       if edata_len < 0 \<or> state ! 0 \<noteq> STATE_M5 then error_reply STATE_M6 kTLVError_Unknown buf st
       else do {
         let edata_len = edata_len - 16;
         d \<leftarrow> ps_decrypt (ps_session_key v) edata edata_len (crypto st);
         case d of None \<Rightarrow> error_reply STATE_M6 kTLVError_Authentication buf st
         | Some edata \<Rightarrow> do {
             i \<leftarrow> ps_ctrl v;
             (items, info) \<leftarrow> ps_read_ctrl edata edata_len (ci_info (p_controllers (priv st) ! i)) (stack_array 64 st);
             let st = upd_ctrl i (\<lambda>c. c\<lparr>ci_info := info\<rparr>) st;
             case items of None \<Rightarrow> error_reply STATE_M6 kTLVError_Authentication buf st
             | Some (id_len, sig) \<Rightarrow> do {
                 ios_device_x \<leftarrow> derive_shared ''Pair-Setup-Controller-Sign-Salt'' ''Pair-Setup-Controller-Sign-Info'' v;
                 cid \<leftarrow> rd_block info 0 id_len;
                 ios_dev_info \<leftarrow> cat_into (HAP_CTRL_ID_LEN + 32 + ED_KEY_LEN) [ios_device_x, cid, info_ltpk info];
                 if \<not> ed25519_verify (crypto st) (info_ltpk info) sig ios_dev_info
                 then error_reply STATE_M6 kTLVError_Authentication buf st
                 else do {
                   acc_x \<leftarrow> derive_shared ''Pair-Setup-Accessory-Sign-Salt'' ''Pair-Setup-Accessory-Sign-Info'' v;
                   acc_info \<leftarrow> cat_into (HAP_CTRL_ID_LEN + 32 + ED_KEY_LEN)
                     [acc_x, str_bytes (p_acc_id (priv st)), drop 32 (p_ltk (priv st))];
                   let ed_sign = ed25519_sign (crypto st) (p_ltk (priv st)) acc_info;
                   (subtlv, n) \<leftarrow> ps_m6_edata (ps_session_key v) ed_sign st;
                   (ok, tlv) \<leftarrow> add_tlv_all [(kTLVType_State, 1, [STATE_M6]), (kTLVType_EncryptedData, n, subtlv)]
                     (hap_tlv_data_init (Some buf) (int (length buf)));
                   buf \<leftarrow> bufptr tlv;
                   if \<not> ok then error_reply STATE_M4 kTLVError_Unknown buf st
                   else do {
                     let st = ps_put p (v\<lparr>ps_state := STATE_M6\<rparr>) st;
                     info \<leftarrow> wr_block info 96 [1];
                     let st = upd_ctrl i (\<lambda>c. c\<lparr>ci_info := info\<rparr>) st;
                     let st = upd_priv (\<lambda>h. h\<lparr>p_pair_attempts := 0\<rparr>) st;
                     (_, st) \<leftarrow> hap_controller_save i st;
                     Some (HAP_SUCCESS, buf, curlen tlv, snd (hap_send_event HAP_INTERNAL_EVENT_ACC_PAIRED st)) } } } } } } }"

definition hap_pair_setup_get_received_state :: "byte list \<Rightarrow> int \<Rightarrow> byte option" where
  "hap_pair_setup_get_received_state buf inlen = do { (_, state) \<leftarrow> tlv_read buf inlen kTLVType_State [0]; Some (state ! 0) }"

text \<open>The callback of the timer.\<close>

definition hap_pair_setup_timeout ::
    "ptr \<Rightarrow> ('n, 'h, 'w, 's) hap_net_scheme \<Rightarrow> ('n, 'h, 'w, 's) hap_net_scheme option" where
  "hap_pair_setup_timeout handle st = do {
     p \<leftarrow> timers st handle;
     v \<leftarrow> ps_at st p;
     let st = st\<lparr>world := httpd_sess_trigger_close (httpd st) (ps_sock_fd v) (world st)\<rparr>;
     Some (hap_report_event HAP_EVENT_PAIRING_ABORTED [] st) }"

text \<open>\<open>hap_pair_setup_ctx_action\<close> with \<open>PS_CTX_INIT\<close> and \<open>PS_CTX_DEINIT\<close>. A timer that could not be created would be started all the same.\<close>

definition ps_ctx_init ::
    "('n, 'h, 'w, 's) hap_net_scheme \<Rightarrow> (ptr option \<times> ('n, 'h, 'w, 's) hap_net_scheme) option" where
  "ps_ctx_init st =
     (if setup_ctx st \<noteq> None then Some (None, st)
      else let (p, st) = new_addr st in case p of
        None \<Rightarrow> Some (None, st)
      | Some a \<Rightarrow> do {
          let (t, st) = new_addr st;
          t \<leftarrow> t;
          Some (Some a, ps_put a (zero_ps\<lparr>ps_timer := Some t\<rparr>) (st\<lparr>setup_ctx := Some a, timers := (timers st)(t \<mapsto> a)\<rparr>)) })"

definition ps_ctx_deinit ::
    "('n, 'h, 'w, 's) hap_net_scheme \<Rightarrow> ('n, 'h, 'w, 's) hap_net_scheme option" where
  "ps_ctx_deinit st = (case setup_ctx st of
       None \<Rightarrow> Some st
     | Some p \<Rightarrow> do {
         v \<leftarrow> ps_at st p;
         let st = (case ps_timer v of None \<Rightarrow> st | Some t \<Rightarrow> st\<lparr>timers := (timers st)(t := None)\<rparr>);
         Some (st\<lparr>ps_at := (ps_at st)(p := None), setup_ctx := None\<rparr>) })"

definition hap_pair_setup_ctx_clean ::
    "ptr option \<Rightarrow> ('n, 'h, 'w, 's) hap_net_scheme \<Rightarrow> ('n, 'h, 'w, 's) hap_net_scheme option" where
  "hap_pair_setup_ctx_clean sess_ctx st = (if sess_ctx = None then Some st else ps_ctx_deinit st)"

text \<open>The context pointer, then the reply; on success \<open>*outlen\<close> is not written, which is the 0 here.\<close>

definition hap_pair_setup_context_init ::
    "int \<Rightarrow> ptr option \<Rightarrow> byte list \<Rightarrow> ('n, 'h, 'w, 's) hap_net_scheme \<Rightarrow>
     (ptr option \<times> ('n, 'h, 'w, 's) hap_net_scheme reply) option" where
  "hap_pair_setup_context_init sock_fd ctx buf st = do {
     (p, st) \<leftarrow> ps_ctx_init st;
     case p of None \<Rightarrow> do { rep \<leftarrow> error_reply STATE_M2 kTLVError_Busy buf st; Some (ctx, rep) }
     | Some a \<Rightarrow> do {
         v \<leftarrow> ps_at st a;
         Some (Some a, HAP_SUCCESS, buf, 0, ps_put a (v\<lparr>ps_sock_fd := sock_fd\<rparr>) st) } }"

text \<open>The steps of \<open>hap_pair_setup_process\<close> by the state of the context.\<close>

definition ps_step ::
    "ptr \<Rightarrow> byte list \<Rightarrow> int \<Rightarrow> ('n, 'h, 'w, 's) hap_net_scheme \<Rightarrow>
     (ptr option \<times> ('n, 'h, 'w, 's) hap_net_scheme reply) option" where
  "ps_step p buf inlen st = do {
     s \<leftarrow> ctx_state p st;
     if s = STATE_M0 then do { rep \<leftarrow> hap_pair_setup_process_srp_start p buf inlen st; Some (Some p, rep) }
     else if s = STATE_M2 then do {
       let st = upd_priv (\<lambda>h. h\<lparr>p_pair_attempts := p_pair_attempts h + 1\<rparr>) st;
       (ret, buf, outlen, st) \<leftarrow> hap_pair_setup_process_srp_verify p buf inlen st;
       v \<leftarrow> ps_at st p;
       if ps_session v \<noteq> None then do {
         st \<leftarrow> hap_pair_setup_ctx_clean (Some p) st;
         Some (ps_session v, ret, buf, outlen, st) }
       else Some (Some p, ret, buf, outlen, st) }
     else if s = STATE_M4 then do {
       (ret, buf, outlen, st) \<leftarrow> hap_pair_setup_process_exchange p buf inlen st;
       if ret = HAP_SUCCESS then do {
         st \<leftarrow> hap_pair_setup_ctx_clean (Some p) st;
         Some (None, ret, buf, outlen, st) }
       else Some (Some p, ret, buf, outlen, st) }
     else do { rep \<leftarrow> error_reply STATE_M2 kTLVError_Unknown buf st; Some (Some p, rep) } }"

definition hap_pair_setup_process ::
    "ptr option \<Rightarrow> byte list \<Rightarrow> int \<Rightarrow> ('n, 'h, 'w, 's) hap_net_scheme \<Rightarrow>
     (ptr option \<times> ('n, 'h, 'w, 's) hap_net_scheme reply) option" where
  "hap_pair_setup_process ctx buf inlen st = do {
     recv_state \<leftarrow> hap_pair_setup_get_received_state buf inlen;
     case ctx of None \<Rightarrow> do { rep \<leftarrow> error_reply (recv_state + 1) kTLVError_Unknown buf st; Some (ctx, rep) }
     | Some p \<Rightarrow> do {
         s \<leftarrow> ctx_state p st;
         if recv_state = STATE_M1 \<and> s \<noteq> STATE_M0 then do {
           v \<leftarrow> ps_at st p;
           st \<leftarrow> hap_pair_setup_ctx_clean ctx st;
           (ctx, ret, buf, outlen, st) \<leftarrow> hap_pair_setup_context_init (ps_sock_fd v) ctx buf st;
           if ret \<noteq> HAP_SUCCESS then Some (ctx, ret, buf, outlen, st)
           else do { p \<leftarrow> ctx; ps_step p buf inlen st } }
         else ps_step p buf inlen st } }"

definition hap_set_setup_code ::
    "string \<Rightarrow> ('n, 'h, 'w, 's) hap_net_scheme \<Rightarrow> ('n, 'h, 'w, 's) hap_net_scheme" where
  "hap_set_setup_code setup_code st =
     (let (a, st) = new_addr st in upd_priv (\<lambda>h. h\<lparr>p_setup_code := (if a = None then None else Some setup_code)\<rparr>) st)"

definition hap_set_setup_info ::
    "hap_setup_info option \<Rightarrow> ('n, 'h, 'w, 's) hap_net_scheme \<Rightarrow> int \<times> ('n, 'h, 'w, 's) hap_net_scheme" where
  "hap_set_setup_info setup_info st = (case setup_info of
       None \<Rightarrow> (HAP_FAIL, st)
     | Some i \<Rightarrow> let (a, st) = new_addr st in
         (if a = None then HAP_FAIL else HAP_SUCCESS,
          upd_priv (\<lambda>h. h\<lparr>p_setup_info := (if a = None then None else Some i)\<rparr>) st))"

definition hap_set_setup_id ::
    "string option \<Rightarrow> ('n, 'h, 'w, 's) hap_net_scheme \<Rightarrow> int \<times> ('n, 'h, 'w, 's) hap_net_scheme" where
  "hap_set_setup_id setup_id st = (case setup_id of
       None \<Rightarrow> (HAP_FAIL, st)
     | Some s \<Rightarrow> if length s \<noteq> 4 then (HAP_FAIL, st) else (HAP_SUCCESS, upd_priv (\<lambda>h. h\<lparr>p_setup_id := s\<rparr>) st))"

section \<open>What the SRP code leaves as it is\<close>

definition bn_rest :: "('n, 'h, 's) hap_sys_scheme \<Rightarrow> ('n, 'h, 's) hap_sys_scheme" where
  "bn_rest st = st\<lparr>next_addr := 0, rng_count := 0\<rparr>"

lemma bn_rest_upd [simp]:
  "bn_rest (st\<lparr>next_addr := n\<rparr>) = bn_rest st" "bn_rest (st\<lparr>rng_count := n\<rparr>) = bn_rest st"
  by (simp_all add: bn_rest_def)

lemma bn_restD: "bn_rest st' = bn_rest st \<Longrightarrow> \<exists>n m. st' = st\<lparr>next_addr := n, rng_count := m\<rparr>"
proof -
  assume "bn_rest st' = bn_rest st"
  then have "bn_rest st'\<lparr>next_addr := next_addr st', rng_count := rng_count st'\<rparr> = bn_rest st\<lparr>next_addr := next_addr st', rng_count := rng_count st'\<rparr>"
    by simp
  then have "st' = st\<lparr>next_addr := next_addr st', rng_count := rng_count st'\<rparr>" by (simp add: bn_rest_def)
  then show ?thesis by blast
qed

lemma frame_addr: "new_addr st = (a, st') \<Longrightarrow> bn_rest st' = bn_rest st"
  by (auto simp: new_addr_def)

lemma frame_alloc: "bn_alloc v st = (b, st') \<Longrightarrow> bn_rest st' = bn_rest st"
  by (auto simp: bn_alloc_def frame_addr split: prod.splits)

lemma frame_bn:
  "mu_bn_new st = (b, st') \<Longrightarrow> bn_rest st' = bn_rest st"
  "mu_bn_new_from_bin api d st = (b, st') \<Longrightarrow> bn_rest st' = bn_rest st"
  "mu_bn_get_rand api k st = (n, st') \<Longrightarrow> bn_rest st' = bn_rest st"
  "mu_bn_to_bin api n st = (bs, l, st') \<Longrightarrow> bn_rest st' = bn_rest st"
  by (auto simp: mu_bn_new_def mu_bn_new_from_bin_def frame_alloc mu_bn_get_rand_def mu_bn_to_bin_def frame_addr split: prod.splits)

lemmas bn_frames = frame_addr frame_alloc frame_bn

lemma frame_padded:
  "calculate_padded_hash api srp a la b lb st = Some (r, st') \<Longrightarrow> bn_rest st' = bn_rest st"
  unfolding calculate_padded_hash_def
  by (auto simp: Let_def split: prod.splits if_splits bind_splits dest!: bn_frames)

lemma frame_k_u:
  "calculate_k api srp st = Some (r, st') \<Longrightarrow> bn_rest st' = bn_rest st"
  "calculate_u api srp A la st = Some (r, st') \<Longrightarrow> bn_rest st' = bn_rest st"
  by (simp_all add: calculate_k_def calculate_u_def frame_padded)

lemma frame_init: "mu_srp_init api ng srp st = (r, srp', st') \<Longrightarrow> bn_rest st' = bn_rest st"
  unfolding mu_srp_init_def
  by (auto simp: Let_def split: prod.splits if_splits dest!: bn_frames)

lemma frame_set_salt: "mu_srp_set_salt_verifier api srp salt v st = (r, srp', st') \<Longrightarrow> bn_rest st' = bn_rest st"
  unfolding mu_srp_set_salt_verifier_def
  by (auto simp: Let_def split: prod.splits if_splits dest!: bn_frames)

lemma frame_core: "mu_srp_srv_pubkey_core api srp st = Some (r, out, srp', st') \<Longrightarrow> bn_rest st' = bn_rest st"
  unfolding mu_srp_srv_pubkey_core_def
  by (auto simp: Let_def split: prod.splits if_splits bind_splits option.splits dest!: bn_frames frame_k_u)

lemma frame_session_key: "mu_srp_get_session_key api srp A la st = Some (r, key, srp', st') \<Longrightarrow> bn_rest st' = bn_rest st"
  unfolding mu_srp_get_session_key_def
  by (auto simp: Let_def split: prod.splits if_splits bind_splits option.splits dest!: bn_frames frame_k_u)

end
