(* ===== verification/Setup_Exchange.thy ===== *)
theory Setup_Exchange
  imports Pair_Setup
begin

text \<open>
  What Pair Setup achieves: an exchange that a controller with the setup code carries through, step by step
  (\<open>srp_start_ok\<close>, \<open>srp_verify_ok\<close>, \<open>exchange_ok\<close>) and as a whole, who can be
  paired at all, and what the code does with malformed messages.
\<close>

section \<open>A controller that follows the protocol\<close>

text \<open>The state after the first step: the public key \<open>B\<close> for the secret \<open>b\<close> and the verifier \<open>w\<close>.\<close>

definition srp_open :: "mu_srp_handle \<Rightarrow> byte list \<Rightarrow> byte list \<Rightarrow> nat \<Rightarrow> nat \<Rightarrow> bool" where
  "srp_open srp salt B w b \<longleftrightarrow> srp_ready srp \<and> sh_v srp = Some w \<and> sh_b srp = Some b \<and>
     sh_bytes_B srp = Some B \<and> sh_len_B srp = length B \<and> length B \<le> 384 \<and>
     sh_bytes_s srp = Some salt \<and> sh_len_s srp = length salt"

definition ps_m1 :: items where
  "ps_m1 = [(kTLVType_State, [STATE_M1]), (kTLVType_Method, [0])]"

definition ps_m2 :: "byte list \<Rightarrow> byte list \<Rightarrow> items" where
  "ps_m2 salt B = [(kTLVType_State, [STATE_M2]), (kTLVType_PublicKey, B), (kTLVType_Salt, salt)]"

definition ps_m3 :: "byte list \<Rightarrow> byte list \<Rightarrow> items" where
  "ps_m3 A M = [(kTLVType_State, [STATE_M3]), (kTLVType_PublicKey, A), (kTLVType_Proof, M)]"

definition ps_m4 :: "byte list \<Rightarrow> items" where
  "ps_m4 M = [(kTLVType_State, [STATE_M4]), (kTLVType_Proof, M)]"

definition ps_key :: "byte list \<Rightarrow> byte list" where
  "ps_key K = hkdf_spec (str_bytes ''Pair-Setup-Encrypt-Salt'') K (str_bytes ''Pair-Setup-Encrypt-Info'') 32"

definition ps_ctrl_x :: "byte list \<Rightarrow> byte list" where
  "ps_ctrl_x K = hkdf_spec (str_bytes ''Pair-Setup-Controller-Sign-Salt'') K (str_bytes ''Pair-Setup-Controller-Sign-Info'') 32"

definition ps_acc_x :: "byte list \<Rightarrow> byte list" where
  "ps_acc_x K = hkdf_spec (str_bytes ''Pair-Setup-Accessory-Sign-Salt'') K (str_bytes ''Pair-Setup-Accessory-Sign-Info'') 32"

definition ps_m5 :: "hap_crypto \<Rightarrow> byte list \<Rightarrow> byte list \<Rightarrow> byte list \<Rightarrow> byte list \<Rightarrow> items" where
  "ps_m5 cr K ltsk ltpk cid = [(kTLVType_State, [STATE_M5]), (kTLVType_EncryptedData, seal cr (ps_key K) ''PS-Msg05''
     (message [(kTLVType_Identifier, cid), (kTLVType_PublicKey, ltpk), (kTLVType_Signature, ed25519_sign cr ltsk (ps_ctrl_x K @ cid @ ltpk))]))]"

definition ps_m6 :: "hap_crypto \<Rightarrow> byte list \<Rightarrow> byte list \<Rightarrow> byte list \<Rightarrow> items" where
  "ps_m6 cr K ltk acc_id = [(kTLVType_State, [STATE_M6]), (kTLVType_EncryptedData, seal cr (ps_key K) ''PS-Msg06''
     (message [(kTLVType_Identifier, acc_id), (kTLVType_PublicKey, drop 32 ltk),
       (kTLVType_Signature, ed25519_sign cr ltk (ps_acc_x K @ acc_id @ drop 32 ltk))]))]"

lemma public_key_ok:
  assumes "mpi_lawful (mpi st)" "memory_ok st" "p_setup_code (priv st) = None"
    "p_setup_info (priv st) = Some \<lparr>si_salt = salt, si_verifier = verifier\<rparr>"
  shows "\<exists>B b k srp st'. srp_public_key v st = Some (Some (Some (Some B, length B)),
      v\<lparr>ps_bytes_s := Some salt, ps_len_s := length salt, ps_srp_hd := srp\<rparr>, st') \<and>
    srp_open srp salt B (be_nat verifier) b \<and> be_nat B = (srp_k * be_nat verifier + 5 ^ b) mod srp_N \<and>
    b = mpi_fill_random (mpi st) 32 k \<and> memory_ok st' \<and> bn_rest st' = bn_rest st"
proof -
  obtain srp1 st1 where 1: "mu_srp_init (mpi st) MU_NG_3072 (ps_srp_hd v) st = (0, srp1, st1)" "srp_ready srp1" "memory_ok st1"
    by (rule mu_srp_init_ok [OF assms(1,2)])
  define srp2 where "srp2 = srp1\<lparr>sh_bytes_s := Some salt, sh_len_s := length salt, sh_s := Some (be_nat salt),
              sh_v := Some (be_nat verifier)\<rparr>"
  obtain st2 where 2: "mu_srp_set_salt_verifier (mpi st) srp1 salt verifier st1 = (0, srp2, st2)" "memory_ok st2"
    using set_salt_verifier_ok [OF assms(1) 1(3), of srp1 salt verifier] unfolding srp2_def by blast
  have r2: "srp_ready srp2" "sh_v srp2 = Some (be_nat verifier)" using 1(2) by (simp_all add: srp2_def srp_ready_def)
  have f: "bn_rest st1 = bn_rest st" "bn_rest st2 = bn_rest st" using frame_init [OF 1(1)] frame_set_salt [OF 2(1)] by simp_all
  obtain b B st3 where 3: "mu_srp_srv_pubkey_core (mpi st) srp2 st2 = Some (0, Some (Some B, length B),
      srp2\<lparr>sh_b := Some b, sh_B := Some (be_nat B), sh_bytes_B := Some B, sh_len_B := length B\<rparr>, st3)"
    "be_nat B = (srp_k * be_nat verifier + 5 ^ b) mod srp_N" "length B \<le> 384" "b = mpi_fill_random (mpi st) 32 (rng_count st2)" "memory_ok st3"
    by (rule srv_pubkey_ok [OF assms(1) 2(2) r2])
  have c: "priv st1 = priv st" "mpi st1 = mpi st" "mpi st2 = mpi st" using bn_restD [OF f(1)] bn_restD [OF f(2)] by auto
  have f3: "bn_rest st3 = bn_rest st" using frame_core [OF 3(1)] f(2) by simp
  define srp3 where "srp3 = srp2\<lparr>sh_b := Some b, sh_B := Some (be_nat B), sh_bytes_B := Some B, sh_len_B := length B\<rparr>"
  have o: "srp_open srp3 salt B (be_nat verifier) b"
    using 1(2) 3(3) by (simp add: srp_open_def srp3_def srp2_def srp_ready_def)
  have "srp_public_key v st = Some (Some (Some (Some B, length B)),
      v\<lparr>ps_bytes_s := Some salt, ps_len_s := length salt, ps_srp_hd := srp3\<rparr>, st3)"
    unfolding srp_public_key_def 1(1) prod.case Let_def c assms(3,4) option.case bind.bind_lunit
    using 2(1) 3(1) c(3) by (simp add: mu_srp_srv_pubkey_from_salt_verifier_def srp3_def)
  with o 3(2,4,5) f3 show ?thesis by blast
qed

text \<open>What a step of the exchange keeps.\<close>

definition setup_frame :: "('n, 'h, 'w, 's) hap_net_scheme \<Rightarrow> ('n, 'h, 'w, 's) hap_net_scheme \<Rightarrow> bool" where
  "setup_frame st st' \<longleftrightarrow> sess_at st' = sess_at st \<and> pv_at st' = pv_at st \<and> crypto st' = crypto st \<and> mpi st' = mpi st \<and>
     setup_ctx st' = setup_ctx st \<and> timers st' = timers st \<and> stack_mem st' = stack_mem st \<and> ks_ready st' = ks_ready st \<and>
     ks_view st' = ks_view st \<and> p_acc_id (priv st') = p_acc_id (priv st) \<and> p_ltk (priv st') = p_ltk (priv st)"

lemma setup_frame_trans: "setup_frame st st1 \<Longrightarrow> setup_frame st1 st2 \<Longrightarrow> setup_frame st st2"
  by (simp add: setup_frame_def)

lemma read_state:
  assumes "request xs buf inlen" "map_of xs kTLVType_State = Some [s]" "terminated kTLVType_State xs"
  shows "tlv_read buf inlen kTLVType_State (stack_array 1 st) = Some (1, [s])"
    "hap_pair_setup_get_received_state buf inlen = Some s"
  using request_read [OF assms, of "stack_array 1 st"] request_read [OF assms, of "[0]"]
  by (simp_all add: hap_pair_setup_get_received_state_def)

lemma get_value_absent:
  assumes "wf_frags fs" "\<forall>f \<in> set fs. fst f \<noteq> type"
  shows "get_value_loop (pre @ tlv_bytes fs @ post) (int (length (tlv_bytes fs))) type (int (length pre)) val val_size val_len False = Some (- 1, val)"
  using assms
proof (induction fs arbitrary: pre)
  case Nil
  then show ?case by (subst get_value_loop.simps) simp
next
  case (Cons f fs)
  obtain t v where f: "f = (t, v)" by fastforce
  have lv: "length v \<le> 255" and t: "t \<noteq> type" using Cons.prems f by simp_all
  have "get_value_loop (pre @ tlv_bytes (f # fs) @ post) (int (length (tlv_bytes (f # fs)))) type (int (length pre)) val val_size val_len False
    = get_value_loop (pre @ tlv_bytes (f # fs) @ post) (int (length (tlv_bytes fs))) type (int (length pre) + (2 + int (length v))) val val_size val_len False"
    using t by (subst get_value_loop.simps) (simp add: f buf_simps uint_of_nat_byte [OF lv])
  then show ?case using Cons.IH [of "pre @ t # of_nat (length v) # v"] Cons.prems by (simp add: f ac_simps)
qed

text \<open>An item that the message does not have.\<close>

lemma request_absent:
  assumes "request xs buf inlen" "t \<notin> fst ` set xs"
  shows "tlv_read buf inlen t val = Some (- 1, val)"
proof -
  have f: "fst ` set (tlv_frags s v) \<subseteq> {s}" for s v
    by (induction s v rule: tlv_frags.induct) (subst tlv_frags.simps, auto)
  have "\<forall>f \<in> set (msg_frags xs). fst f \<noteq> t" using assms(2)
  proof (induction xs)
    case (Cons x xs)
    with f [of "fst x" "snd x"] show ?case by auto
  qed simp
  moreover have "buf = tlv_bytes (msg_frags xs) @ drop (length (message xs)) buf"
    using assms(1) unfolding request_def message_def by (metis append_take_drop_id)
  ultimately show ?thesis
    using get_value_absent [of "msg_frags xs" t "[]" "drop (length (message xs)) buf" val "int (length val)" 0] assms(1)
    by (simp add: tlv_read_def get_value_from_tlv_def request_def message_def)
qed

lemma le_val_le_bytes4: "of_nat (le_val (le_bytes 4 (x :: u32))) = x"
  using unsigned_less [of x, where ?'a = nat] by (simp add: le_val_le_bytes word_unat_eq_iff unat_of_nat)

lemma srp_start_ok:
  assumes v: "ps_at st p = Some v" "ps_pairing_flags_len v = 0"
    and pre: "\<not> is_accessory_paired st" "p_pair_attempts (priv st) < 100" "length (p_controllers (priv st)) = 16"
    and srp: "mpi_lawful (mpi st)" "memory_ok st" "p_setup_code (priv st) = None"
      "p_setup_info (priv st) = Some \<lparr>si_salt = salt, si_verifier = verifier\<rparr>" "length salt = 16"
    and req: "request ps_m1 buf inlen" and room: "512 \<le> length buf"
  shows "\<exists>B b k buf' n st' v'. hap_pair_setup_process_srp_start p buf inlen st = Some (HAP_SUCCESS, buf', n, st') \<and>
    request (ps_m2 salt B) buf' n \<and> srp_open (ps_srp_hd v') salt B (be_nat verifier) b \<and>
    be_nat B = (srp_k * be_nat verifier + 5 ^ b) mod srp_N \<and> b = mpi_fill_random (mpi st) 32 k \<and>
    ps_at st' = (ps_at st)(p \<mapsto> v') \<and> ps_state v' = STATE_M2 \<and> ps_method v' = 0 \<and> ps_ctrl v' = Some 0 \<and>
    ps_session v' = ps_session v \<and> ps_timer v' = ps_timer v \<and> memory_ok st' \<and> setup_frame st st' \<and>
    p_controllers (priv st') = (p_controllers (priv st))[0 := (p_controllers (priv st) ! 0)\<lparr>ci_index := 0\<rparr>]"
proof -
  have free: "\<not> ci_valid (p_controllers (priv st) ! j)" if "j < 16" for j
    using pre(1) that by (auto simp: is_accessory_paired_iff)
  have "[0..<HAP_MAX_CONTROLLERS] = 0 # [1..<16]" by (simp add: HAP_MAX_CONTROLLERS_def upt_conv_Cons)
  then have e: "hap_controller_get_empty_loc st = (Some 0, upd_ctrl 0 (\<lambda>c. c\<lparr>ci_index := 0\<rparr>) st)"
    using free [of 0] by (simp add: hap_controller_get_empty_loc_def)
  let ?st = "upd_ctrl 0 (\<lambda>c. c\<lparr>ci_index := 0\<rparr>) st"
  let ?v = "v\<lparr>ps_ctrl := Some 0, ps_method := 0, ps_pairing_flags := ps_pairing_flags v\<rparr>"
  let ?st1 = "upd_priv (\<lambda>h. h\<lparr>p_pairing_flags := ps_pairing_flags ?v\<rparr>) ?st"
  have k: "priv ?st1 = (priv st)\<lparr>p_controllers := (p_controllers (priv st))[0 := (p_controllers (priv st) ! 0)\<lparr>ci_index := 0\<rparr>],
      p_pairing_flags := ps_pairing_flags v\<rparr>" "mpi ?st1 = mpi st" "memory_ok ?st1" "stack_mem ?st = stack_mem st"
    using srp(2) by (simp_all add: upd_ctrl_def upd_priv_def memory_ok_def)
  have r1: "tlv_read buf inlen kTLVType_State (stack_array 1 ?st) = Some (1, [STATE_M1])"
    using read_state(1) [OF req, of STATE_M1 ?st] by (simp add: ps_m1_def)
  have r2: "tlv_read buf inlen kTLVType_Method [x] = Some (1, [0])" for x
    using request_read [OF req, of kTLVType_Method "[0]" "[x]"] by (simp add: ps_m1_def tlv_consts)
  have r3: "tlv_read buf inlen kTLVType_Flags x = Some (- 1, x)" for x
    by (rule request_absent [OF req]) (simp add: ps_m1_def tlv_consts)
  have pkex: "\<exists>B b j srp' st2. srp_public_key ?v ?st1 = Some (Some (Some (Some B, length B)),
      ?v\<lparr>ps_bytes_s := Some salt, ps_len_s := length salt, ps_srp_hd := srp'\<rparr>, st2) \<and>
    srp_open srp' salt B (be_nat verifier) b \<and> be_nat B = (srp_k * be_nat verifier + 5 ^ b) mod srp_N \<and>
    b = mpi_fill_random (mpi st) 32 j \<and> memory_ok st2 \<and> bn_rest st2 = bn_rest ?st1"
  proof -
    have m: "mpi_lawful (mpi ?st1)" unfolding k(2) by (rule srp(1))
    have c: "p_setup_code (priv ?st1) = None" "p_setup_info (priv ?st1) = Some \<lparr>si_salt = salt, si_verifier = verifier\<rparr>"
      unfolding k(1) using srp(3,4) by simp_all
    from public_key_ok [OF m k(3) c, of ?v] show ?thesis unfolding k(2) .
  qed
  obtain B b j srp' st2 where pk: "srp_public_key ?v ?st1 = Some (Some (Some (Some B, length B)),
      ?v\<lparr>ps_bytes_s := Some salt, ps_len_s := length salt, ps_srp_hd := srp'\<rparr>, st2)"
    "srp_open srp' salt B (be_nat verifier) b" "be_nat B = (srp_k * be_nat verifier + 5 ^ b) mod srp_N"
    "b = mpi_fill_random (mpi st) 32 j" "memory_ok st2" "bn_rest st2 = bn_rest ?st1"
    using pkex by blast
  let ?v2 = "?v\<lparr>ps_bytes_s := Some salt, ps_len_s := length salt, ps_srp_hd := srp'\<rparr>"
  have lB: "length B \<le> 384" using pk(2) by (simp add: srp_open_def)
  have enc: "length (tlv_bytes (tlv_frags t B)) \<le> length B + 4" for t
    using lB by (simp add: length_tlv_frags) 
  have lm: "length (message (ps_m2 salt B)) \<le> length buf"
    using lB enc [of kTLVType_PublicKey] room srp(5) by (simp add: ps_m2_def message_Cons tlv_bytes_frags_short del: message_short)
  let ?m = "message (ps_m2 salt B)"
  have add: "add_tlv_all [(kTLVType_State, 1, [STATE_M2]), (kTLVType_PublicKey, int (length B), B), (kTLVType_Salt, int (length salt), salt)]
      (hap_tlv_data_init (Some buf) (int (length buf))) =
      Some (True, \<lparr>bufptr = Some (?m @ drop (length ?m) buf), bufsize = int (length buf), curlen = int (length ?m)\<rparr>)"
    using add_tlv_all_message [OF lm] by (simp add: ps_m2_def to_add_simps del: message_short cong: if_cong)
  let ?st' = "hap_report_event HAP_EVENT_PAIRING_STARTED [] (ps_put p (?v2\<lparr>ps_state := STATE_M2\<rparr>) st2)"
  have rep: "srp_start_reply p ?v2 buf (Some B, length B) st2 = Some (HAP_SUCCESS, ?m @ drop (length ?m) buf, int (length ?m), ?st')"
    using add v(2) by (simp add: srp_start_reply_def del: message_short add_tlv_all.simps)
  have na: "\<not> HAP_PAIR_SETUP_MAX_ATTEMPTS \<le> p_pair_attempts (priv st)" using pre(2) by (simp add: HAP_PAIR_SETUP_MAX_ATTEMPTS_def)
  note norm = pk(1) [simplified] rep [simplified]
  have run: "hap_pair_setup_process_srp_start p buf inlen st = Some (HAP_SUCCESS, ?m @ drop (length ?m) buf, int (length ?m), ?st')"
    unfolding hap_pair_setup_process_srp_start_def e v(1) bind.bind_lunit prod.case Let_def
    by (simp add: na pre(1) r1 [unfolded One_nat_def] r2 r3 [of "le_bytes 4 (ps_pairing_flags v)"] norm le_val_le_bytes4 cong: if_cong del: message_short)
  obtain n' m' where st2: "st2 = ?st1\<lparr>next_addr := n', rng_count := m'\<rparr>" using bn_restD [OF pk(6)] by blast
  have fr: "setup_frame st ?st'" unfolding st2
    by (simp add: setup_frame_def hap_report_event_def ps_put_def upd_ctrl_def upd_priv_def ks_ready_def ks_view_def)
  have ps: "ps_at ?st' = (ps_at st)(p \<mapsto> ?v2\<lparr>ps_state := STATE_M2\<rparr>)"
    "memory_ok ?st'" "p_controllers (priv ?st') = (p_controllers (priv st))[0 := (p_controllers (priv st) ! 0)\<lparr>ci_index := 0\<rparr>]"
    using pk(5) unfolding st2 by (simp_all add: hap_report_event_def ps_put_def upd_ctrl_def upd_priv_def memory_ok_def)
  have "request (ps_m2 salt B) (?m @ drop (length ?m) buf) (int (length ?m))"
    by (simp add: request_def)
  then show ?thesis
    using run pk(2,3,4) ps fr
    by (intro exI [of _ B] exI [of _ b] exI [of _ j] exI [of _ "?m @ drop (length ?m) buf"] exI [of _ "int (length ?m)"]
      exI [of _ ?st'] exI [of _ "?v2\<lparr>ps_state := STATE_M2\<rparr>"] conjI) simp_all
qed

lemma derive_shared_spec:
  assumes "ps_shared_secret v = Some K" "ps_secret_len v = length K" "length K = 64"
  shows "derive_shared ''Pair-Setup-Encrypt-Salt'' ''Pair-Setup-Encrypt-Info'' v = Some (ps_key K)"
    "derive_shared ''Pair-Setup-Controller-Sign-Salt'' ''Pair-Setup-Controller-Sign-Info'' v = Some (ps_ctrl_x K)"
    "derive_shared ''Pair-Setup-Accessory-Sign-Salt'' ''Pair-Setup-Accessory-Sign-Info'' v = Some (ps_acc_x K)"
proof -
  have "derive_shared s i v = Some (hkdf_spec (str_bytes s) K (str_bytes i) 32)" if "length s < 100" "length i < 100" for s i
    using derive_spec [of K s i] that assms by (simp add: derive_def derive_shared_def)
  then show "derive_shared ''Pair-Setup-Encrypt-Salt'' ''Pair-Setup-Encrypt-Info'' v = Some (ps_key K)"
    "derive_shared ''Pair-Setup-Controller-Sign-Salt'' ''Pair-Setup-Controller-Sign-Info'' v = Some (ps_ctrl_x K)"
    "derive_shared ''Pair-Setup-Accessory-Sign-Salt'' ''Pair-Setup-Accessory-Sign-Info'' v = Some (ps_acc_x K)"
    by (simp_all add: ps_key_def ps_ctrl_x_def ps_acc_x_def)
qed

definition srp_shared :: "mpi_api \<Rightarrow> byte list \<Rightarrow> byte list \<Rightarrow> nat \<Rightarrow> nat \<Rightarrow> byte list" where
  "srp_shared api A B w b =
     sha512_spec (mpi_write_binary api ((be_nat A * (w ^ srp_padded_hash A B mod srp_N) mod srp_N) ^ b mod srp_N))"

text \<open>The session key and the decision about the proof that M3 brings.\<close>

lemma srp_check:
  assumes "srp_open srp salt B w b" "mpi_lawful (mpi st)" "memory_ok st" "length salt \<le> 1000" "length A = 384"
    and "key = srp_shared (mpi st) A B w b" "length M = 64"
    and "srp' = srp\<lparr>sh_bytes_A := Some A, sh_len_A := length A, sh_A := Some (be_nat A), sh_session_key := Some key\<rparr>"
  shows "\<exists>st1. mu_srp_get_session_key (mpi st) srp A 384 st = Some (0, Some (key, 64), srp', st1) \<and> memory_ok st1 \<and>
    mu_srp_exchange_proofs srp' ''Pair-Setup'' M = (if M = srp_M salt A B key
      then Some (1, Some (sha512_spec (A @ M @ key))) else Some (0, None))"
proof -
  have o: "srp_ready srp" "sh_v srp = Some w" "sh_b srp = Some b" "sh_bytes_B srp = Some B"
    "sh_len_B srp = length B" "length B \<le> 384" "sh_bytes_s srp = Some salt" "sh_len_s srp = length salt"
    using assms(1) by (simp_all add: srp_open_def)
  obtain st1 where k: "mu_srp_get_session_key (mpi st) srp A 384 st = Some (0, Some (key, 64), srp', st1)" "memory_ok st1"
    using get_session_key_ok [OF assms(2,3) o(1-6), of A key] assms(5,6) by (auto simp: assms(8) srp_shared_def)
  have r: "srp_ready srp'" using o(1) by (simp add: assms(8) srp_ready_def)
  have "mu_srp_exchange_proofs srp' ''Pair-Setup'' M = (if M = srp_M salt A B key
      then Some (1, Some (sha512_spec (A @ M @ key))) else Some (0, None))"
    by (subst exchange_proofs_ok [OF r assms(7), where M = "srp_M salt A B key"])
      (use o(4-8) assms in \<open>simp_all add: part_fits_def opt_bytes_def srp_shared_def\<close>)
  with k show ?thesis by blast
qed

text \<open>M3 as the accessory reads it.\<close>

lemma m3_read:
  assumes "request (ps_m3 A M) buf inlen" "length A = 384" "length M = 64"
  shows "tlv_read buf inlen kTLVType_State (stack_array 1 st) = Some (1, [STATE_M3])"
    "tlv_read buf inlen kTLVType_PublicKey (stack_array 384 st) = Some (384, A)"
    "tlv_read buf inlen kTLVType_Proof (stack_array 64 st) = Some (64, M)"
    "hap_pair_setup_get_received_state buf inlen = Some STATE_M3"
  using read_state [OF assms(1), of STATE_M3] request_read [OF assms(1), of kTLVType_PublicKey A "stack_array 384 st"]
    request_read [OF assms(1), of kTLVType_Proof M "stack_array 64 st"] assms(2,3) by (simp_all add: ps_m3_def tlv_consts)

lemma srp_verify_ok:
  assumes v: "ps_at st p = Some v" "ps_method v = 0" "srp_open (ps_srp_hd v) salt B w b"
    and srp: "mpi_lawful (mpi st)" "memory_ok st" "length salt \<le> 1000" "length A = 384"
    and key: "key = srp_shared (mpi st) A B w b"
    and req: "request (ps_m3 A (srp_M salt A B key)) buf inlen" and room: "512 \<le> length buf"
  shows "\<exists>buf' n st' v'. hap_pair_setup_process_srp_verify p buf inlen st = Some (HAP_SUCCESS, buf', n, st') \<and>
    request (ps_m4 (sha512_spec (A @ srp_M salt A B key @ key))) buf' n \<and>
    ps_at st' = (ps_at st)(p \<mapsto> v') \<and> ps_state v' = STATE_M4 \<and> ps_ctrl v' = ps_ctrl v \<and> ps_timer v' = ps_timer v \<and>
    ps_session v' = ps_session v \<and> ps_shared_secret v' = Some key \<and> ps_secret_len v' = 64 \<and> ps_session_key v' = ps_key key \<and>
    memory_ok st' \<and> setup_frame st st' \<and> priv st' = priv st"
proof -
  define M where "M = srp_M salt A B key"
  define host where "host = sha512_spec (A @ M @ key)"
  have len: "length M = 64" "length key = 64" "length host = 64" by (simp_all add: M_def key host_def srp_shared_def srp_M_def)
  note req = req [folded M_def]
  note r = m3_read [OF req srp(4) len(1)]
  define srp' where "srp' = (ps_srp_hd v)\<lparr>sh_bytes_A := Some A, sh_len_A := length A, sh_A := Some (be_nat A), sh_session_key := Some key\<rparr>"
  obtain st1 where k: "mu_srp_get_session_key (mpi st) (ps_srp_hd v) A 384 st = Some (0, Some (key, 64), srp', st1)" "memory_ok st1"
    "mu_srp_exchange_proofs srp' ''Pair-Setup'' M = Some (1, Some host)"
    using srp_check [OF v(3) srp(1-4) key len(1) srp'_def] by (auto simp: M_def host_def)
  let ?v = "v\<lparr>ps_srp_hd := srp', ps_shared_secret := Some key, ps_secret_len := 64\<rparr>"
  have d: "derive_shared ''Pair-Setup-Encrypt-Salt'' ''Pair-Setup-Encrypt-Info'' ?v = Some (ps_key key)"
    by (rule derive_shared_spec(1)) (simp_all add: len)
  let ?v' = "?v\<lparr>ps_session_key := ps_key key, ps_state := STATE_M4\<rparr>"
  let ?m = "message (ps_m4 host)"
  have lm: "length ?m \<le> length buf" using room len by (simp add: ps_m4_def)
  have add: "add_tlv_all [(kTLVType_State, 1, [STATE_M4]), (kTLVType_Proof, int SHA512HashSize, host)]
      (hap_tlv_data_init (Some buf) (int (length buf))) =
      Some (True, \<lparr>bufptr = Some (?m @ drop (length ?m) buf), bufsize = int (length buf), curlen = int (length ?m)\<rparr>)"
    using add_tlv_all_message [OF lm] len by (simp add: ps_m4_def to_add_simps SHA512HashSize_def del: message_short cong: if_cong)
  have run: "hap_pair_setup_process_srp_verify p buf inlen st =
      Some (HAP_SUCCESS, ?m @ drop (length ?m) buf, int (length ?m), ps_put p ?v' st1)"
    unfolding hap_pair_setup_process_srp_verify_def v(1) bind.bind_lunit prod.case Let_def r(1-3)
    using v(2) by (simp add: k(1,3) d [simplified] add hap_pair_setup_manage_mfi_auth_def HAP_METHOD_PAIR_SETUP_def cong: if_cong del: message_short add_tlv_all.simps)
  obtain n' m' where st1: "st1 = st\<lparr>next_addr := n', rng_count := m'\<rparr>" using bn_restD [OF frame_session_key [OF k(1)]] by blast
  have fr: "ps_at (ps_put p ?v' st1) = (ps_at st)(p \<mapsto> ?v')" "setup_frame st (ps_put p ?v' st1)" "priv (ps_put p ?v' st1) = priv st"
    "memory_ok (ps_put p ?v' st1)"
    using k(2) unfolding st1 by (simp_all add: setup_frame_def ps_put_def ks_ready_def ks_view_def memory_ok_def)
  have "request (ps_m4 host) (?m @ drop (length ?m) buf) (int (length ?m))" by (simp add: request_def)
  then show ?thesis
    using run fr unfolding host_def M_def
    by (intro exI [of _ "message (ps_m4 (sha512_spec (A @ srp_M salt A B key @ key))) @ drop (length (message (ps_m4 (sha512_spec (A @ srp_M salt A B key @ key))))) buf"]
      exI [of _ "int (length (message (ps_m4 (sha512_spec (A @ srp_M salt A B key @ key)))))"]
      exI [of _ "ps_put p ?v' st1"] exI [of _ ?v'] conjI) simp_all
qed

lemma ps_decrypt_seal:
  assumes "aead_lawful cr" "length m + 16 \<le> length a" "take (length m + 16) a = seal cr key ''PS-Msg05'' m"
  shows "ps_decrypt key a (int (length m)) cr = Some (Some (m @ drop (length m) a))"
  using unseal [OF assms] by (auto simp: ps_decrypt_def)

lemma seal_m6:
  assumes "aead_lawful (crypto st)" "length (p_acc_id (priv st)) < HAP_ACC_ID_LEN" "length sig = 64" "length (p_ltk (priv st)) = 64"
    and "xs = [(kTLVType_Identifier, str_bytes (p_acc_id (priv st))), (kTLVType_PublicKey, drop 32 (p_ltk (priv st))), (kTLVType_Signature, sig)]"
  shows "\<exists>rest. ps_m6_edata key sig st = Some (seal (crypto st) key ''PS-Msg06'' (message xs) @ rest, int (length (seal (crypto st) key ''PS-Msg06'' (message xs))))"
proof -
  let ?id = "str_bytes (p_acc_id (priv st))" and ?s = "stack_array 136 st"
  have k: "length ?id \<le> 17" using assms(2) by (simp add: str_bytes_def HAP_ACC_ID_LEN_def)
  define P1 where "P1 = tlv_bytes (tlv_frags kTLVType_Identifier ?id)"
  define P2 where "P2 = P1 @ tlv_bytes (tlv_frags kTLVType_PublicKey (drop 32 (p_ltk (priv st))))"
  define P3 where "P3 = P2 @ tlv_bytes (tlv_frags kTLVType_Signature sig)"
  have l: "length P1 \<le> 19" "length P2 = length P1 + 34" "length P3 = length P2 + 66" "P3 = message xs"
    using k assms(3,4) by (simp_all add: P1_def P2_def P3_def tlv_bytes_frags_short assms(5))
  obtain c tag where ct: "aead_encrypt (crypto st) key (msg_nonce ''PS-Msg06'') [] P3 = (c, tag)" by fastforce
  then have lc: "length c = length P3" "length tag = 16" using assms(1) unfolding aead_lawful_def by metis+
  obtain r1 where a1: "add_tlv (hap_tlv_data_init (Some ?s) 136) kTLVType_Identifier (int (length ?id)) ?id =
      Some (r1, \<lparr>bufptr = Some (P1 @ drop (length P1) ?s), bufsize = 136, curlen = int (length P1)\<rparr>)"
    using add_tlv_step [of "[]" kTLVType_Identifier ?id ?s P1 "int (length ?id)"] l by (auto simp: P1_def hap_tlv_data_init_def)
  obtain r2 where a2: "add_tlv \<lparr>bufptr = Some (P1 @ drop (length P1) ?s), bufsize = 136, curlen = int (length P1)\<rparr>
      kTLVType_PublicKey 32 (drop 32 (p_ltk (priv st))) =
      Some (r2, \<lparr>bufptr = Some (P2 @ drop (length P2) ?s), bufsize = 136, curlen = int (length P2)\<rparr>)"
    using add_tlv_step [OF _ P2_def, of ?s 32] l assms(4) by (auto simp: P2_def)
  obtain r3 where a3: "add_tlv \<lparr>bufptr = Some (P2 @ drop (length P2) ?s), bufsize = 136, curlen = int (length P2)\<rparr> kTLVType_Signature 64 sig =
      Some (r3, \<lparr>bufptr = Some (P3 @ drop (length P3) ?s), bufsize = 136, curlen = int (length P3)\<rparr>)"
    using add_tlv_step [OF _ P3_def, of ?s 64] l assms(3) by (auto simp: P3_def)
  have r: "rd_block (P3 @ drop (length P3) ?s) 0 (int (length P3)) = Some P3" using l by (simp add: rd_block_def)
  have w1: "wr_block (P3 @ drop (length P3) ?s) 0 c = Some (c @ drop (length P3) ?s)" using l lc by (simp add: wr_block_def)
  have w2: "wr_block (c @ drop (length P3) ?s) (int (length P3)) tag = Some ((c @ tag) @ drop (length P3 + 16) ?s)"
    using l lc by (simp add: wr_block_def nat_add_distrib ac_simps)
  have "ps_m6_edata key sig st = Some ((c @ tag) @ drop (length P3 + 16) ?s, int (length P3) + 16)"
    using a1 a2 a3 r ct w1 w2 unfolding ps_m6_edata_def
    by (simp add: Let_def HAP_ACC_ID_LEN_def ED_SIGN_LEN_def POLY_AUTHTAG_LEN_def ED_KEY_LEN_def)
  moreover have "seal (crypto st) key ''PS-Msg06'' (message xs) = c @ tag" using ct l(4) by (simp add: seal_def)
  ultimately show ?thesis using lc by auto
qed

lemma ps_read_ctrl_ok:
  assumes "request [(kTLVType_Identifier, cid), (kTLVType_PublicKey, ltpk), (kTLVType_Signature, sig)] d n"
    and "length cid < 64" "length ltpk = 32" "length sig = 64" "length old = 97" "length arr = 64"
  shows "ps_read_ctrl d n old arr = Some (Some (int (length cid), sig), ctrl_bytes cid ltpk (old ! 96) old)"
proof -
  obtain a b c where old: "old = a @ b @ [c]" "length a = 64" "length b = 32" using split_info [OF assms(5)] .
  have r1: "tlv_read d n kTLVType_Identifier a = Some (int (length cid), cid @ drop (length cid) a)"
    using request_read [OF assms(1), of kTLVType_Identifier cid a] assms(2) old by simp
  have r2: "tlv_read d n kTLVType_PublicKey b = Some (32, ltpk)"
    using request_read [OF assms(1), of kTLVType_PublicKey ltpk b] assms(3) old by (simp add: tlv_consts)
  have r3: "tlv_read d n kTLVType_Signature arr = Some (64, sig)"
    using request_read [OF assms(1), of kTLVType_Signature sig arr] assms(4,6) by (simp add: tlv_consts)
  have w: "wr_block ((cid @ drop (length cid) a) @ ltpk @ [c]) (int (length cid)) [0] =
      Some (cid @ 0 # drop (Suc (length cid)) a @ ltpk @ [c])"
    using assms(2,3) old by (simp add: wr_block_def)
  have x: "info_id old = a" "info_ltpk (y @ b @ [c]) = b" "drop 64 old = b @ [c]" "old ! 96 = c" "take 64 old = a"
    "take 64 (y @ z) = y" "drop 96 (y @ b @ [c]) = [c]" if "length y = 64" for y z
    using that old by (simp_all add: info_id_def info_ltpk_def nth_append)
  have len: "length (cid @ drop (length cid) a) = 64" using assms(2) old by simp
  show ?thesis
    unfolding ps_read_ctrl_def x(1) [OF len] r1 bind.bind_lunit prod.case Let_def x(3) [OF len] x(2,6,7) [OF len] r2
    using r3 w x(4,5) [OF len] by (simp add: ED_KEY_LEN_def ctrl_bytes_def)
qed

lemma exchange_ok:
  assumes v: "ps_at st p = Some v" "ps_ctrl v = Some i" "ps_shared_secret v = Some K" "ps_secret_len v = length K" "length K = 64"
      "ps_session_key v = ps_key K"
    and ctrl: "i < length (p_controllers (priv st))" "length (ci_info (p_controllers (priv st) ! i)) = 97"
      "length cid < 64" "0 \<notin> set cid" "key_pair (crypto st) ltsk ltpk"
    and cr: "aead_lawful (crypto st)" "curve_lawful (crypto st)"
    and acc: "length (p_acc_id (priv st)) < HAP_ACC_ID_LEN" "length (p_ltk (priv st)) = 64"
    and req: "request (ps_m5 (crypto st) K ltsk ltpk cid) buf inlen" and room: "250 \<le> length buf"
    and info: "info = ctrl_bytes cid ltpk 1 (ci_info (p_controllers (priv st) ! i))"
    and sv: "hap_controller_save i (upd_priv (\<lambda>h. h\<lparr>p_pair_attempts := 0\<rparr>) (upd_ctrl i (\<lambda>c. c\<lparr>ci_info := info\<rparr>)
      (ps_put p (v\<lparr>ps_state := STATE_M6\<rparr>) st))) = Some (r, st1)"
  shows "\<exists>buf' n. hap_pair_setup_process_exchange p buf inlen st =
      Some (HAP_SUCCESS, buf', n, snd (hap_send_event HAP_INTERNAL_EVENT_ACC_PAIRED st1)) \<and>
    request (ps_m6 (crypto st) K (p_ltk (priv st)) (str_bytes (p_acc_id (priv st)))) buf' n"
proof -
  let ?old = "ci_info (p_controllers (priv st) ! i)" and ?ltk = "p_ltk (priv st)" and ?aid = "str_bytes (p_acc_id (priv st))"
  let ?sig = "ed25519_sign (crypto st) ltsk (ps_ctrl_x K @ cid @ ltpk)"
  let ?sub = "[(kTLVType_Identifier, cid), (kTLVType_PublicKey, ltpk), (kTLVType_Signature, ?sig)]"
  let ?e = "seal (crypto st) (ps_key K) ''PS-Msg05'' (message ?sub)"
  have pk: "length ltpk = 32" "length ltsk = 64" using ctrl(5) by (simp_all add: key_pair_def)
  have sig: "length (ed25519_sign (crypto st) k m) = 64" if "length k = 64" for k m using curve_lengths(2) [OF cr(2) that] .
  have lsub: "length (message ?sub) = length cid + 102" using sig pk ctrl(3) by simp
  have le: "length ?e = length cid + 118" using length_seal [OF cr(1)] lsub by simp
  have x: "length (ps_ctrl_x K) = 32" "length (ps_acc_x K) = 32" by (simp_all add: ps_ctrl_x_def ps_acc_x_def length_hkdf_spec)
  note ds = derive_shared_spec [OF v(3,4,5)]
  have r1: "tlv_read buf inlen kTLVType_State (stack_array 1 st) = Some (1, [STATE_M5])"
    using request_read [OF req, of kTLVType_State "[STATE_M5]" "stack_array 1 st"] by (simp add: ps_m5_def)
  let ?a = "?e @ drop (length cid + 118) (stack_array 220 st)"
  have r2: "tlv_read buf inlen kTLVType_EncryptedData (stack_array 220 st) = Some (int (length cid + 118), ?a)"
    using request_read [OF req, of kTLVType_EncryptedData ?e "stack_array 220 st"] le ctrl(3)
    by (simp add: ps_m5_def tlv_consts)
  let ?d = "message ?sub @ drop (length cid + 102) ?a"
  have d: "ps_decrypt (ps_key K) ?a (int (length cid + 102)) (crypto st) = Some (Some ?d)"
    using ps_decrypt_seal [OF cr(1), of "message ?sub" ?a "ps_key K"] le lsub by (simp del: message_short)
  have n: "int (length cid + 118) - 16 = int (length cid + 102)" by simp
  have q: "request ?sub ?d (int (length cid + 102))" using lsub by (simp add: request_def del: message_short)
  have rc: "ps_read_ctrl ?d (int (length cid + 102)) ?old (stack_array 64 st) =
      Some (Some (int (length cid), ?sig), ctrl_bytes cid ltpk (?old ! 96) ?old)"
    by (rule ps_read_ctrl_ok [OF q ctrl(3) pk(1) sig [OF pk(2)] ctrl(2)]) simp
  let ?info = "ctrl_bytes cid ltpk (?old ! 96) ?old"
  note parts = ctrl_bytes_parts [OF ctrl(3,4) pk(1) ctrl(2), of "?old ! 96"]
  have rd: "rd_block ?info 0 (int (length cid)) = Some cid" using ctrl(2,3) by (simp add: rd_block_def ctrl_bytes_def)
  have ci: "cat_into (HAP_CTRL_ID_LEN + 32 + ED_KEY_LEN) [ps_ctrl_x K, cid, ltpk] = Some (ps_ctrl_x K @ cid @ ltpk)"
    "cat_into (HAP_CTRL_ID_LEN + 32 + ED_KEY_LEN) [ps_acc_x K, ?aid, drop 32 ?ltk] = Some (ps_acc_x K @ ?aid @ drop 32 ?ltk)"
    using x pk(1) ctrl(3) acc by (simp_all add: cat_into_def HAP_CTRL_ID_LEN_def ED_KEY_LEN_def HAP_ACC_ID_LEN_def str_bytes_def)
  have ver: "ed25519_verify (crypto st) ltpk ?sig (ps_ctrl_x K @ cid @ ltpk)" using ctrl(5) by (simp add: key_pair_def)
  let ?asig = "ed25519_sign (crypto st) ?ltk (ps_acc_x K @ ?aid @ drop 32 ?ltk)"
  let ?st = "upd_ctrl i (\<lambda>c. c\<lparr>ci_info := ?info\<rparr>) st"
  let ?asub = "[(kTLVType_Identifier, ?aid), (kTLVType_PublicKey, drop 32 ?ltk), (kTLVType_Signature, ?asig)]"
  let ?s = "seal (crypto st) (ps_key K) ''PS-Msg06'' (message ?asub)"
  have st: "crypto ?st = crypto st" "p_acc_id (priv ?st) = p_acc_id (priv st)" "p_ltk (priv ?st) = p_ltk (priv st)"
    by (simp_all add: upd_ctrl_def upd_priv_def)
  obtain rest where m6: "ps_m6_edata (ps_key K) ?asig ?st = Some (?s @ rest, int (length ?s))"
    using seal_m6 [of ?st ?asig _ "ps_key K"] cr(1) acc sig [OF acc(2)] unfolding st by blast
  have ls: "length ?s \<le> 180" using length_seal [OF cr(1)] sig [OF acc(2)] acc by (simp add: str_bytes_def HAP_ACC_ID_LEN_def)
  let ?m6 = "ps_m6 (crypto st) K ?ltk ?aid"
  have "length (message [(kTLVType_State, [STATE_M6]), (kTLVType_EncryptedData, x)]) \<le> 250" if "length x \<le> 180" for x
    using that by simp
  from this [OF ls] have lm: "length (message ?m6) \<le> length buf" unfolding ps_m6_def using room by linarith
  have cut: "add_tlv t kTLVType_EncryptedData (int (length ?s)) (?s @ rest) = add_tlv t kTLVType_EncryptedData (int (length ?s)) ?s" for t
    using add_tlv_take [of "length ?s" "?s @ rest" t] by simp
  let ?buf = "message ?m6 @ drop (length (message ?m6)) buf"
  have add: "add_tlv_all [(kTLVType_State, 1, [STATE_M6]), (kTLVType_EncryptedData, int (length ?s), ?s @ rest)]
      (hap_tlv_data_init (Some buf) (int (length buf))) =
      Some (True, \<lparr>bufptr = Some ?buf, bufsize = int (length buf), curlen = int (length (message ?m6))\<rparr>)"
    using add_tlv_all_message [OF lm] by (simp add: ps_m6_def to_add_simps cut del: message_short cong: if_cong)
  have wp: "wr_block ?info 96 [1] = Some info"
  proof -
    have "wr_block (y @ ltpk @ [c]) 96 [1] = Some (y @ ltpk @ [1])" if "length y = 64" for y c
      using that pk(1) by (simp add: wr_block_def)
    from this [of "cid @ 0 # drop (Suc (length cid)) (take 64 ?old)"] show ?thesis
      using ctrl(2,3) unfolding info ctrl_bytes_def by simp
  qed
  have ov: "upd_ctrl i (\<lambda>c. c\<lparr>ci_info := info\<rparr>) (ps_put p (v\<lparr>ps_state := STATE_M6\<rparr>) ?st) =
      upd_ctrl i (\<lambda>c. c\<lparr>ci_info := info\<rparr>) (ps_put p (v\<lparr>ps_state := STATE_M6\<rparr>) st)"
    using ctrl(1) by (simp add: upd_ctrl_def upd_priv_def ps_put_def)
  have "hap_pair_setup_process_exchange p buf inlen st =
      Some (HAP_SUCCESS, ?buf, int (length (message ?m6)), snd (hap_send_event HAP_INTERNAL_EVENT_ACC_PAIRED st1))"
  proof -
    define a d' k info1 s buf' where "a = ?a" and "d' = ?d" and k: "k = int (length cid + 102)" and "info1 = ?info"
      and "s = ?s" and "buf' = ?buf"
    note defs = this(1-2,4-6)
    have st0: "\<not> int (length cid + 118) < 0" by simp
    note f = d [folded defs k] rc [folded defs k] rd [folded defs] ver m6 [folded defs] add [folded defs] wp [folded defs]
      ov [folded defs] parts(2) [folded defs]
    show ?thesis
      unfolding hap_pair_setup_process_exchange_def v(1) bind.bind_lunit prod.case r1 r2 defs [symmetric] Let_def n k [symmetric]
      using f v ds ci sv st0 st [folded defs] ctrl(1) by (simp del: message_short add_tlv_all.simps)
  qed
  then show ?thesis unfolding request_def by (intro exI conjI) (assumption | simp)+
qed

section \<open>The whole exchange\<close>

lemma process_at:
  assumes "hap_pair_setup_get_received_state buf inlen = Some s" "ctx_state p st = Some c" "s = STATE_M1 \<longrightarrow> c = STATE_M0"
  shows "hap_pair_setup_process (Some p) buf inlen st = ps_step p buf inlen st"
  using assms by (auto simp: hap_pair_setup_process_def)

lemma setup_cleaned:
  assumes "setup_ctx st = Some p" "ps_at st p = Some v"
  shows "\<exists>st'. hap_pair_setup_ctx_clean (Some p) st = Some st' \<and> ps_at st' = (ps_at st)(p := None) \<and> setup_ctx st' = None \<and>
    priv st' = priv st"
  using assms by (cases "ps_timer v") (simp_all add: hap_pair_setup_ctx_clean_def ps_ctx_deinit_def)

lemma setup_m3:
  assumes c: "ctx_state p st = Some STATE_M2" "ps_session v = None"
    and v: "ps_at st p = Some v" "ps_method v = 0" "srp_open (ps_srp_hd v) salt B w b"
    and srp: "mpi_lawful (mpi st)" "memory_ok st" "length salt \<le> 1000" "length A = 384" "key = srp_shared (mpi st) A B w b"
    and req: "request (ps_m3 A (srp_M salt A B key)) buf inlen" and room: "512 \<le> length buf"
  shows "\<exists>buf' n st' v'. hap_pair_setup_process (Some p) buf inlen st = Some (Some p, HAP_SUCCESS, buf', n, st') \<and>
    request (ps_m4 (sha512_spec (A @ srp_M salt A B key @ key))) buf' n \<and>
    ps_at st' = (ps_at st)(p \<mapsto> v') \<and> ps_state v' = STATE_M4 \<and> ps_ctrl v' = ps_ctrl v \<and> ps_timer v' = ps_timer v \<and>
    ps_shared_secret v' = Some key \<and> ps_secret_len v' = 64 \<and> ps_session_key v' = ps_key key \<and>
    setup_frame st st' \<and> p_controllers (priv st') = p_controllers (priv st)"
proof -
  let ?st = "upd_priv (\<lambda>h. h\<lparr>p_pair_attempts := p_pair_attempts h + 1\<rparr>) st"
  have s: "ps_at ?st = ps_at st" "mpi ?st = mpi st" "memory_ok ?st" "setup_frame st ?st"
    "p_controllers (priv ?st) = p_controllers (priv st)"
    using srp(2) by (simp_all add: upd_priv_def memory_ok_def setup_frame_def ks_ready_def ks_view_def)
  have v1: "ps_at ?st p = Some v" "mpi_lawful (mpi ?st)" "key = srp_shared (mpi ?st) A B w b" unfolding s using v srp by simp_all
  obtain buf' n st' v' where r: "hap_pair_setup_process_srp_verify p buf inlen ?st = Some (HAP_SUCCESS, buf', n, st')"
    "request (ps_m4 (sha512_spec (A @ srp_M salt A B key @ key))) buf' n" "ps_at st' = (ps_at ?st)(p \<mapsto> v')"
    "ps_state v' = STATE_M4" "ps_ctrl v' = ps_ctrl v" "ps_timer v' = ps_timer v" "ps_session v' = ps_session v"
    "ps_shared_secret v' = Some key" "ps_secret_len v' = 64" "ps_session_key v' = ps_key key" "setup_frame ?st st'" "priv st' = priv ?st"
    using srp_verify_ok [OF v1(1) v(2,3) v1(2) s(3) srp(3,4) v1(3) req room] by blast
  have m: "hap_pair_setup_get_received_state buf inlen = Some STATE_M3"
    by (rule read_state(2) [OF req]) (simp_all add: ps_m3_def)
  have "hap_pair_setup_process (Some p) buf inlen st = Some (Some p, HAP_SUCCESS, buf', n, st')"
    using process_at [OF m c(1)] r(1,3,7) c by (simp add: ps_step_def session_states)
  with r(2-6,8-10) setup_frame_trans [OF s(4) r(11)] r(12) s(1,5) show ?thesis by (intro exI conjI) (assumption | simp)+
qed

lemma save_keeps:
  assumes "ks_ready st"
  shows "\<exists>r st'. hap_controller_save i st = Some (r, st') \<and> ps_at st' = ps_at st \<and> setup_ctx st' = setup_ctx st \<and>
    p_controllers (priv st') = (p_controllers (priv st))[i := (p_controllers (priv st) ! i)\<lparr>ci_valid := True\<rparr>]"
proof -
  let ?st = "upd_ctrl i (\<lambda>c. c\<lparr>ci_valid := True\<rparr>) st"
  have r: "ks_ready ?st" using assms by simp
  obtain q st1 where d: "hap_keystore_set HAP_KEYSTORE_NAMESPACE_CTRL (dec_str (unat (ci_index (p_controllers (priv ?st) ! i))))
      (ci_info (p_controllers (priv ?st) ! i)) ?st = Some (q, st1)" "ks_rest st1 = ks_rest ?st"
    using ks.set_law [OF r, of HAP_KEYSTORE_NAMESPACE_CTRL "dec_str (unat (ci_index (p_controllers (priv ?st) ! i)))"
        "ci_info (p_controllers (priv ?st) ! i)"] by blast
  obtain n where st1: "st1 = ?st\<lparr>nvs := n\<rparr>" using ks_rest_nvs [OF d(2)] by blast
  show ?thesis
    using d(1) unfolding hap_controller_save_def Let_def st1
    by (cases "q = HAP_SUCCESS") (simp_all add: upd_ctrl_def upd_priv_def hap_report_event_def)
qed

lemma setup_m5:
  assumes c: "ctx_state p st = Some STATE_M4" "setup_ctx st = Some p"
    and v: "ps_at st p = Some v" "ps_ctrl v = Some i" "ps_shared_secret v = Some K" "ps_secret_len v = length K" "length K = 64"
      "ps_session_key v = ps_key K"
    and ctrl: "i < length (p_controllers (priv st))" "length (ci_info (p_controllers (priv st) ! i)) = 97"
      "length cid < 64" "0 \<notin> set cid" "key_pair (crypto st) ltsk ltpk"
    and cr: "aead_lawful (crypto st)" "curve_lawful (crypto st)"
    and acc: "length (p_acc_id (priv st)) < HAP_ACC_ID_LEN" "length (p_ltk (priv st)) = 64" "ks_ready st"
    and req: "request (ps_m5 (crypto st) K ltsk ltpk cid) buf inlen" and room: "250 \<le> length buf"
  shows "\<exists>buf' n st' info. hap_pair_setup_process (Some p) buf inlen st = Some (None, HAP_SUCCESS, buf', n, st') \<and>
    request (ps_m6 (crypto st) K (p_ltk (priv st)) (str_bytes (p_acc_id (priv st)))) buf' n \<and>
    p_controllers (priv st') = (p_controllers (priv st))[i := \<lparr>ci_info = info, ci_valid = True, ci_index = ci_index (p_controllers (priv st) ! i)\<rparr>] \<and>
    c_str info = cid \<and> info_ltpk info = ltpk \<and> info_perms info = 1 \<and> ps_at st' p = None \<and> setup_ctx st' = None"
proof -
  let ?info = "ctrl_bytes cid ltpk 1 (ci_info (p_controllers (priv st) ! i))"
  have pk: "length ltpk = 32" using ctrl(5) by (simp add: key_pair_def)
  note parts = ctrl_bytes_parts [OF ctrl(3,4) pk ctrl(2), of 1]
  let ?st0 = "upd_priv (\<lambda>h. h\<lparr>p_pair_attempts := 0\<rparr>) (upd_ctrl i (\<lambda>c. c\<lparr>ci_info := ?info\<rparr>) (ps_put p (v\<lparr>ps_state := STATE_M6\<rparr>) st))"
  have s0: "ks_ready ?st0" "ps_at ?st0 = (ps_at st)(p \<mapsto> v\<lparr>ps_state := STATE_M6\<rparr>)" "setup_ctx ?st0 = setup_ctx st"
    "p_controllers (priv ?st0) = (p_controllers (priv st))[i := (p_controllers (priv st) ! i)\<lparr>ci_info := ?info\<rparr>]"
    using acc(3) by (simp_all add: ps_put_def upd_ctrl_def upd_priv_def ks_ready_def)
  obtain r st1 where sv: "hap_controller_save i ?st0 = Some (r, st1)" "ps_at st1 = ps_at ?st0" "setup_ctx st1 = setup_ctx ?st0"
    "p_controllers (priv st1) = (p_controllers (priv ?st0))[i := (p_controllers (priv ?st0) ! i)\<lparr>ci_valid := True\<rparr>]"
    using save_keeps [OF s0(1), of i] by blast
  obtain buf' n where x: "hap_pair_setup_process_exchange p buf inlen st =
      Some (HAP_SUCCESS, buf', n, snd (hap_send_event HAP_INTERNAL_EVENT_ACC_PAIRED st1))"
    "request (ps_m6 (crypto st) K (p_ltk (priv st)) (str_bytes (p_acc_id (priv st)))) buf' n"
    using exchange_ok [OF v(1-6) ctrl cr acc(1,2) req room refl sv(1)] by blast
  let ?st2 = "snd (hap_send_event HAP_INTERNAL_EVENT_ACC_PAIRED st1)"
  have s2: "ps_at ?st2 p = Some (v\<lparr>ps_state := STATE_M6\<rparr>)" "setup_ctx ?st2 = Some p" "priv ?st2 = priv st1"
    using sv(2,3) s0(2,3) c(2) by (simp_all add: hap_send_event_def split: option.split)
  obtain st3 where cl: "hap_pair_setup_ctx_clean (Some p) ?st2 = Some st3" "ps_at st3 p = None" "setup_ctx st3 = None"
    "priv st3 = priv ?st2"
    using setup_cleaned [OF s2(2,1)] by (auto simp: fun_upd_def)
  have m: "hap_pair_setup_get_received_state buf inlen = Some STATE_M5"
    by (rule read_state(2) [OF req]) (simp_all add: ps_m5_def)
  have "hap_pair_setup_process (Some p) buf inlen st = Some (None, HAP_SUCCESS, buf', n, st3)"
    using process_at [OF m c(1)] x(1) cl(1) c(1) by (simp add: ps_step_def session_states)
  moreover have "p_controllers (priv st3) = (p_controllers (priv st))[i := \<lparr>ci_info = ?info, ci_valid = True, ci_index = ci_index (p_controllers (priv st) ! i)\<rparr>]"
    unfolding cl(4) s2(3) sv(4) s0(4) using ctrl(1) by (cases "p_controllers (priv st) ! i") simp
  ultimately show ?thesis using x(2) parts(1-3) cl(2,3)
    by (intro exI [of _ buf'] exI [of _ n] exI [of _ st3] exI [of _ ?info]) simp
qed

text \<open>The key of a controller that knows the secret \<open>x\<close> of the setup code, from its own \<open>a\<close> and the two public keys.\<close>

definition ctrl_shared :: "mpi_api \<Rightarrow> byte list \<Rightarrow> byte list \<Rightarrow> nat \<Rightarrow> nat \<Rightarrow> byte list" where
  "ctrl_shared api A B x a = sha512_spec (mpi_write_binary api
     (nat ((int (be_nat B) - int (srp_k * 5 ^ x)) ^ (a + srp_padded_hash A B * x) mod int srp_N)))"

lemma shared_agree:
  assumes "w = 5 ^ x mod srp_N" "be_nat A = 5 ^ a mod srp_N" "be_nat B = (srp_k * w + 5 ^ b) mod srp_N"
  shows "srp_shared api A B w b = ctrl_shared api A B x a"
proof -
  have N: "0 < srp_N" by (rule srp_N_pos)
  show ?thesis unfolding srp_shared_def ctrl_shared_def srp_secrets_agree [OF assms N, symmetric] nat_int by (rule refl)
qed

text \<open>
  From the second request on: \<open>p\<close> is the context, \<open>st\<close> the state before the exchange, \<open>st1\<close> the state after
  the first request, \<open>K\<close> the key that the controller uses. M3 with the proof for \<open>K\<close> is answered with the proof of the
  accessory, M5 with its identity; then the controller is in the table as an administrator, and the context is free again.
\<close>

definition setup_completes ::
    "('n, 'h, 'w, 's) hap_net_scheme \<Rightarrow> ('n, 'h, 'w, 's) hap_net_scheme \<Rightarrow> ptr \<Rightarrow> byte list \<Rightarrow> byte list \<Rightarrow> byte list \<Rightarrow> byte list \<Rightarrow>
     byte list \<Rightarrow> byte list \<Rightarrow> byte list \<Rightarrow> bool" where
  "setup_completes st st1 p salt A B K ltsk ltpk cid \<longleftrightarrow>
     (\<forall>buf2 n2. request (ps_m3 A (srp_M salt A B K)) buf2 n2 \<longrightarrow> 512 \<le> length buf2 \<longrightarrow>
      (\<exists>buf3 n3 st2. hap_pair_setup_process (Some p) buf2 n2 st1 = Some (Some p, HAP_SUCCESS, buf3, n3, st2) \<and>
        request (ps_m4 (sha512_spec (A @ srp_M salt A B K @ K))) buf3 n3 \<and>
        (\<forall>buf4 n4. request (ps_m5 (crypto st) K ltsk ltpk cid) buf4 n4 \<longrightarrow> 250 \<le> length buf4 \<longrightarrow>
          (\<exists>buf5 n5 st3 info. hap_pair_setup_process (Some p) buf4 n4 st2 = Some (None, HAP_SUCCESS, buf5, n5, st3) \<and>
            request (ps_m6 (crypto st) K (p_ltk (priv st)) (str_bytes (p_acc_id (priv st)))) buf5 n5 \<and>
            p_controllers (priv st3) = (p_controllers (priv st))[0 := \<lparr>ci_info = info, ci_valid = True, ci_index = 0\<rparr>] \<and>
            c_str info = cid \<and> info_ltpk info = ltpk \<and> info_perms info = 1 \<and> ps_at st3 p = None \<and> setup_ctx st3 = None))))"

lemma setup_from_m3:
  assumes lib: "mpi_lawful (mpi st)" "aead_lawful (crypto st)" "curve_lawful (crypto st)" "memory_ok st1" "ks_ready st"
    and acc: "length (p_controllers (priv st)) = 16" "length (ci_info (p_controllers (priv st) ! 0)) = 97"
      "length (p_acc_id (priv st)) < HAP_ACC_ID_LEN" "length (p_ltk (priv st)) = 64"
    and ctx: "setup_ctx st = Some p" "sess_at st p = None" "pv_at st p = None" "ps_at st1 p = Some v1" "ps_state v1 = STATE_M2"
      "ps_method v1 = 0" "ps_ctrl v1 = Some 0" "ps_session v1 = None" "setup_frame st st1"
      "p_controllers (priv st1) = (p_controllers (priv st))[0 := (p_controllers (priv st) ! 0)\<lparr>ci_index := 0\<rparr>]"
    and srp: "srp_open (ps_srp_hd v1) salt B w b" "length salt = 16" "length A = 384" "K = srp_shared (mpi st) A B w b"
    and cli: "length cid < 64" "0 \<notin> set cid" "key_pair (crypto st) ltsk ltpk"
  shows "setup_completes st st1 p salt A B K ltsk ltpk cid"
  unfolding setup_completes_def
proof (intro allI impI)
  fix buf2 n2
  assume r: "request (ps_m3 A (srp_M salt A B K)) buf2 n2" "512 \<le> length buf2"
  have f1: "sess_at st1 p = None" "pv_at st1 p = None" "mpi st1 = mpi st" "setup_ctx st1 = Some p"
    using ctx by (simp_all add: setup_frame_def)
  have c1: "ctx_state p st1 = Some STATE_M2" "mpi_lawful (mpi st1)" "length salt \<le> 1000" "K = srp_shared (mpi st1) A B w b"
    using f1 ctx(4,5) lib(1) srp(2,4) by (simp_all add: ctx_state_def)
  have lK: "length K = 64" unfolding srp(4) srp_shared_def by simp
  obtain buf3 n3 st2 v2 where 2: "hap_pair_setup_process (Some p) buf2 n2 st1 = Some (Some p, HAP_SUCCESS, buf3, n3, st2)"
    "request (ps_m4 (sha512_spec (A @ srp_M salt A B K @ K))) buf3 n3" "ps_at st2 = (ps_at st1)(p \<mapsto> v2)" "ps_state v2 = STATE_M4"
    "ps_ctrl v2 = ps_ctrl v1" "ps_shared_secret v2 = Some K" "ps_secret_len v2 = 64" "ps_session_key v2 = ps_key K"
    "setup_frame st1 st2" "p_controllers (priv st2) = p_controllers (priv st1)"
    using setup_m3 [OF c1(1) ctx(8,4,6) srp(1) c1(2) lib(4) c1(3) srp(3) c1(4) r] by blast
  have f2: "sess_at st2 p = None" "pv_at st2 p = None" "crypto st2 = crypto st" "setup_ctx st2 = Some p" "ks_ready st2"
    "p_acc_id (priv st2) = p_acc_id (priv st)" "p_ltk (priv st2) = p_ltk (priv st)"
    using setup_frame_trans [OF ctx(9) 2(9)] ctx lib(5) by (simp_all add: setup_frame_def)
  have t2: "p_controllers (priv st2) = (p_controllers (priv st))[0 := (p_controllers (priv st) ! 0)\<lparr>ci_index := 0\<rparr>]"
    using 2(10) ctx(10) by simp
  have c2: "ctx_state p st2 = Some STATE_M4" "ps_at st2 p = Some v2" "ps_ctrl v2 = Some 0" "ps_secret_len v2 = length K"
    "0 < length (p_controllers (priv st2))" "length (ci_info (p_controllers (priv st2) ! 0)) = 97"
    using f2 2(3-5,7) ctx(7) lK t2 acc(1,2) by (simp_all add: ctx_state_def)
  note m5 = setup_m5 [OF c2(1) f2(4) c2(2,3) 2(6) c2(4) lK 2(8) c2(5,6) cli(1,2), unfolded f2(3,6,7) t2, OF cli(3) lib(2,3) acc(3,4) f2(5)]
  from m5 2(1,2) acc(1) show "\<exists>buf3 n3 st2. hap_pair_setup_process (Some p) buf2 n2 st1 = Some (Some p, HAP_SUCCESS, buf3, n3, st2) \<and>
        request (ps_m4 (sha512_spec (A @ srp_M salt A B K @ K))) buf3 n3 \<and>
        (\<forall>buf4 n4. request (ps_m5 (crypto st) K ltsk ltpk cid) buf4 n4 \<longrightarrow> 250 \<le> length buf4 \<longrightarrow>
          (\<exists>buf5 n5 st3 info. hap_pair_setup_process (Some p) buf4 n4 st2 = Some (None, HAP_SUCCESS, buf5, n5, st3) \<and>
            request (ps_m6 (crypto st) K (p_ltk (priv st)) (str_bytes (p_acc_id (priv st)))) buf5 n5 \<and>
            p_controllers (priv st3) = (p_controllers (priv st))[0 := \<lparr>ci_info = info, ci_valid = True, ci_index = 0\<rparr>] \<and>
            c_str info = cid \<and> info_ltpk info = ltpk \<and> info_perms info = 1 \<and> ps_at st3 p = None \<and> setup_ctx st3 = None))"
    by simp
qed

text \<open>What an accessory needs for Pair Setup with the context at \<open>p\<close>, whatever its secrets are.\<close>

definition setup_ready :: "('n, 'h, 'w, 's) hap_net_scheme \<Rightarrow> ptr \<Rightarrow> byte list \<Rightarrow> byte list \<Rightarrow> bool" where
  "setup_ready st p salt verifier \<longleftrightarrow>
     mpi_lawful (mpi st) \<and> aead_lawful (crypto st) \<and> curve_lawful (crypto st) \<and> memory_ok st \<and> ks_ready st \<and>
     ps_at st p = Some zero_ps \<and> setup_ctx st = Some p \<and> sess_at st p = None \<and> pv_at st p = None \<and>
     \<not> is_accessory_paired st \<and> p_pair_attempts (priv st) < 100 \<and> length (p_controllers (priv st)) = 16 \<and>
     length (ci_info (p_controllers (priv st) ! 0)) = 97 \<and> length (p_acc_id (priv st)) < HAP_ACC_ID_LEN \<and> length (p_ltk (priv st)) = 64 \<and>
     p_setup_code (priv st) = None \<and> p_setup_info (priv st) = Some \<lparr>si_salt = salt, si_verifier = verifier\<rparr> \<and> length salt = 16"

lemma setup_run:
  assumes rdy: "setup_ready st p salt verifier"
    and cli: "length A = 384" "length cid < 64" "0 \<notin> set cid" "key_pair (crypto st) ltsk ltpk"
    and req: "request ps_m1 buf inlen" "512 \<le> length buf"
  shows "\<exists>B b k buf1 n1 st1. hap_pair_setup_process (Some p) buf inlen st = Some (Some p, HAP_SUCCESS, buf1, n1, st1) \<and>
    request (ps_m2 salt B) buf1 n1 \<and> be_nat B = (srp_k * be_nat verifier + 5 ^ b) mod srp_N \<and> b = mpi_fill_random (mpi st) 32 k \<and>
    setup_completes st st1 p salt A B (srp_shared (mpi st) A B (be_nat verifier) b) ltsk ltpk cid"
proof -
  have r: "mpi_lawful (mpi st)" "aead_lawful (crypto st)" "curve_lawful (crypto st)" "memory_ok st" "ks_ready st"
    "ps_at st p = Some zero_ps" "setup_ctx st = Some p" "sess_at st p = None" "pv_at st p = None"
    "\<not> is_accessory_paired st" "p_pair_attempts (priv st) < 100" "length (p_controllers (priv st)) = 16"
    "length (ci_info (p_controllers (priv st) ! 0)) = 97" "length (p_acc_id (priv st)) < HAP_ACC_ID_LEN" "length (p_ltk (priv st)) = 64"
    "p_setup_code (priv st) = None" "p_setup_info (priv st) = Some \<lparr>si_salt = salt, si_verifier = verifier\<rparr>" "length salt = 16"
    using rdy by (simp_all add: setup_ready_def)
  have z: "ps_pairing_flags_len zero_ps = 0" "ps_session zero_ps = None" "ctx_state p st = Some STATE_M0"
    using r(6,8,9) by (simp_all add: zero_ps_def ctx_state_def STATE_M0_def)
  obtain B b k buf1 n1 st1 v1 where 1: "hap_pair_setup_process_srp_start p buf inlen st = Some (HAP_SUCCESS, buf1, n1, st1)"
    "request (ps_m2 salt B) buf1 n1" "srp_open (ps_srp_hd v1) salt B (be_nat verifier) b"
    "be_nat B = (srp_k * be_nat verifier + 5 ^ b) mod srp_N" "b = mpi_fill_random (mpi st) 32 k"
    "ps_at st1 = (ps_at st)(p \<mapsto> v1)" "ps_state v1 = STATE_M2" "ps_method v1 = 0" "ps_ctrl v1 = Some 0" "ps_session v1 = ps_session zero_ps"
    "memory_ok st1" "setup_frame st st1" "p_controllers (priv st1) = (p_controllers (priv st))[0 := (p_controllers (priv st) ! 0)\<lparr>ci_index := 0\<rparr>]"
    using srp_start_ok [OF r(6) z(1) r(10-12,1,4,16-18) req] by blast
  have m1: "hap_pair_setup_get_received_state buf inlen = Some STATE_M1" by (rule read_state(2) [OF req(1)]) (simp_all add: ps_m1_def)
  have p1: "hap_pair_setup_process (Some p) buf inlen st = Some (Some p, HAP_SUCCESS, buf1, n1, st1)"
    using process_at [OF m1 z(3)] 1(1) z(3) by (simp add: ps_step_def)
  have v1: "ps_at st1 p = Some v1" "ps_session v1 = None" using 1(6,10) z(2) by simp_all
  have "setup_completes st st1 p salt A B (srp_shared (mpi st) A B (be_nat verifier) b) ltsk ltpk cid"
    by (rule setup_from_m3 [OF r(1-3) 1(11) r(5,12-15,7-9) v1(1) 1(7-9) v1(2) 1(12,13,3) r(18) cli(1) refl cli(2-4)])
  with p1 1(2,4,5) show ?thesis by blast
qed




text \<open>An accessory that is not paired, for the examples: the secret of its setup code is 1.\<close>

definition setup_net :: "(kv, string \<times> string, streams) hap_net" where
  "setup_net = boot_net\<lparr>ps_at := [5 \<mapsto> zero_ps], setup_ctx := Some 5,
     priv := zero_priv\<lparr>p_setup_info := Some \<lparr>si_salt = replicate 16 7, si_verifier = [5]\<rparr>\<rparr>\<rparr>"

lemma setup_net_ready: "setup_ready setup_net 5 (replicate 16 7) [5]"
proof -
  have "ks_ready setup_net"
    by (simp add: ks_ready_def setup_net_def boot_net_def hap_sys.defs boot_sys_def hap_ks.defs boot_ks_def hap_objs.defs map_nvs_lawful)
  moreover have "\<not> is_accessory_paired setup_net"
    by (simp add: is_accessory_paired_iff setup_net_def zero_priv_def HAP_MAX_CONTROLLERS_def zero_ctrl_def)
  moreover have "memory_ok setup_net" using boot_net_simps(12) by (simp add: setup_net_def memory_ok_def)
  ultimately show ?thesis
    by (simp add: setup_ready_def setup_net_def zero_priv_def demo_mpi_lawful demo_aead_lawful demo_curve_lawful
      HAP_MAX_CONTROLLERS_def zero_ctrl_def ctrl_info_size_def HAP_ACC_ID_LEN_def)
qed

lemma setup_net_libs: "crypto setup_net = demo_crypto" "mpi setup_net = demo_mpi"
  by (simp_all add: setup_net_def)

lemma demo_pair: "key_pair demo_crypto demo_sk (replicate 32 7)"
  using demo_key_pair by (simp add: demo_info_parts)




text \<open>Taking the result of a monadic definition apart by elimination, which stays fast on long definitions.\<close>

lemma bind_SomeE: "m \<bind> f = Some y \<Longrightarrow> (\<And>x. m = Some x \<Longrightarrow> f x = Some y \<Longrightarrow> P) \<Longrightarrow> P"
  by (cases m) auto

lemma if_resultE: "(if b then x else y) = z \<Longrightarrow> (b \<Longrightarrow> x = z \<Longrightarrow> P) \<Longrightarrow> (\<not> b \<Longrightarrow> y = z \<Longrightarrow> P) \<Longrightarrow> P"
  by (cases b) auto

lemma prod_resultE: "(case x of (a, b) \<Rightarrow> f a b) = z \<Longrightarrow> (\<And>a b. x = (a, b) \<Longrightarrow> f a b = z \<Longrightarrow> P) \<Longrightarrow> P"
  by (cases x) auto

lemma option_resultE:
  "(case x of None \<Rightarrow> f | Some a \<Rightarrow> g a) = z \<Longrightarrow> (x = None \<Longrightarrow> f = z \<Longrightarrow> P) \<Longrightarrow> (\<And>a. x = Some a \<Longrightarrow> g a = z \<Longrightarrow> P) \<Longrightarrow> P"
  by (cases x) auto

lemmas resultE = bind_SomeE if_resultE prod_resultE option_resultE

text \<open>C28: A wrong proof in M3 is answered with an authentication error, the attempt is counted, the application is told, and
  the exchange stays where it is: nobody gets further without the session key.\<close>

theorem pair_setup_wrong_proof:
  assumes "ctx_state p st = Some STATE_M2" "ps_at st p = Some v" "ps_session v = None" "srp_open (ps_srp_hd v) salt B w b"
    and "mpi_lawful (mpi st)" "memory_ok st" "length salt \<le> 1000" "length A = 384" "length M = 64"
    and "M \<noteq> srp_M salt A B (srp_shared (mpi st) A B w b)"
    and "request (ps_m3 A M) buf inlen" "6 \<le> length buf"
  shows "\<exists>st' v'. hap_pair_setup_process (Some p) buf inlen st = Some (Some p, HAP_FAIL,
      message [(kTLVType_State, [STATE_M4]), (kTLVType_Error, [kTLVError_Authentication])] @ drop 6 buf, 6, st') \<and>
    ps_at st' = (ps_at st)(p \<mapsto> v') \<and> ps_state v' = ps_state v \<and>
    p_pair_attempts (priv st') = p_pair_attempts (priv st) + 1 \<and> p_controllers (priv st') = p_controllers (priv st) \<and>
    reported st' = reported st @ [(HAP_EVENT_PAIRING_ABORTED, [])]"
proof -
  let ?st = "upd_priv (\<lambda>h. h\<lparr>p_pair_attempts := p_pair_attempts h + 1\<rparr>) st"
  have s: "ps_at ?st = ps_at st" "mpi ?st = mpi st" "memory_ok ?st" "reported ?st = reported st" "p_controllers (priv ?st) = p_controllers (priv st)"
    "p_pair_attempts (priv ?st) = p_pair_attempts (priv st) + 1"
    using assms(6) by (simp_all add: upd_priv_def memory_ok_def)
  define key where "key = srp_shared (mpi ?st) A B w b"
  define srp' where "srp' = (ps_srp_hd v)\<lparr>sh_bytes_A := Some A, sh_len_A := length A, sh_A := Some (be_nat A), sh_session_key := Some key\<rparr>"
  have l: "mpi_lawful (mpi ?st)" "M \<noteq> srp_M salt A B key" using assms(5,10) s(2) by (simp_all add: key_def)
  obtain st1 where k: "mu_srp_get_session_key (mpi ?st) (ps_srp_hd v) A 384 ?st = Some (0, Some (key, 64), srp', st1)"
    "mu_srp_exchange_proofs srp' ''Pair-Setup'' M = Some (0, None)"
    using srp_check [OF assms(4) l(1) s(3) assms(7,8) key_def assms(9) srp'_def] l(2) by auto
  obtain n' m' where st1: "st1 = ?st\<lparr>next_addr := n', rng_count := m'\<rparr>" using bn_restD [OF frame_session_key [OF k(1)]] by blast
  let ?v = "v\<lparr>ps_srp_hd := srp', ps_shared_secret := Some key, ps_secret_len := 64\<rparr>"
  let ?st' = "hap_report_event HAP_EVENT_PAIRING_ABORTED [] (ps_put p ?v st1)"
  note r = m3_read [OF assms(11,8,9)]
  have v: "ps_at ?st p = Some v" using assms(2) s(1) by simp
  have x: "hap_pair_setup_process_srp_verify p buf inlen ?st = Some (HAP_FAIL,
      message [(kTLVType_State, [STATE_M4]), (kTLVType_Error, [kTLVError_Authentication])] @ drop 6 buf, 6, ?st')"
    unfolding hap_pair_setup_process_srp_verify_def v bind.bind_lunit prod.case Let_def r(1-3)
    by (simp add: k [simplified] error_reply_bytes [OF assms(12)] cong: if_cong del: message_short)
  have f: "ps_at ?st' = (ps_at st)(p \<mapsto> ?v)" "priv ?st' = priv ?st" "reported ?st' = reported st @ [(HAP_EVENT_PAIRING_ABORTED, [])]"
    unfolding st1 using s(1,4) by (simp_all add: ps_put_def hap_report_event_def)
  have "hap_pair_setup_process (Some p) buf inlen st = Some (Some p, HAP_FAIL,
      message [(kTLVType_State, [STATE_M4]), (kTLVType_Error, [kTLVError_Authentication])] @ drop 6 buf, 6, ?st')"
    using process_at [OF r(4) assms(1)] x f(1) assms(1,3) by (simp add: ps_step_def session_states del: message_short)
  with f s show ?thesis by (intro exI [of _ ?st'] exI [of _ ?v]) (simp del: message_short)
qed

section \<open>Who is paired\<close>

lemma frame_x: "calculate_x api s n u p st = Some (x, st') \<Longrightarrow> bn_rest st' = bn_rest st"
  unfolding calculate_x_def by (auto split: bind_splits prod.splits dest!: bn_frames)

lemma frame_pubkey: "mu_srp_srv_pubkey api srp u p n s st = Some (r, out, s', srp', st') \<Longrightarrow> bn_rest st' = bn_rest st"
  unfolding mu_srp_srv_pubkey_def
  by (auto simp: Let_def split: prod.splits if_splits bind_splits option.splits dest!: bn_frames frame_x frame_core)

lemma bn_rest_eqD: "bn_rest st' = bn_rest st \<Longrightarrow> priv st' = priv st"
  by (drule bn_restD) auto

lemma frame_public_key: "srp_public_key v st = Some (B, v', st') \<Longrightarrow> priv st' = priv st"
  unfolding srp_public_key_def mu_srp_srv_pubkey_from_salt_verifier_def
  by (auto simp: Let_def split: prod.splits if_splits bind_splits option.splits
    dest!: frame_init frame_set_salt frame_core frame_pubkey bn_rest_eqD)

text \<open>The table of controllers, without the bytes of the entries.\<close>

definition valid_ctrls :: "('n, 'h, 's) hap_sys_scheme \<Rightarrow> bool list" where
  "valid_ctrls st = map ci_valid (p_controllers (priv st))"

lemma valid_ctrls_simps [simp]:
  "valid_ctrls (ps_put p v st) = valid_ctrls st" "valid_ctrls (hap_report_event e bs st) = valid_ctrls st"
  "valid_ctrls (upd_priv (p_pairing_flags_update g) st) = valid_ctrls st"
  "valid_ctrls (upd_priv (p_pair_attempts_update h) st) = valid_ctrls st"
  "valid_ctrls (upd_priv (\<lambda>h. h\<lparr>p_pair_attempts := k h\<rparr>) st) = valid_ctrls st"
  by (simp_all add: valid_ctrls_def ps_put_def upd_priv_def)

lemma valid_upd_ctrl:
  assumes "\<And>c. ci_valid (f c) = ci_valid c"
  shows "valid_ctrls (upd_ctrl i f st) = valid_ctrls st"
proof -
  have "map ci_valid (xs[i := f (xs ! i)]) = map ci_valid xs" for xs
    using assms list_update_id [of "map ci_valid xs" i] by (cases "length xs \<le> i") (simp_all add: map_update list_update_beyond)
  then show ?thesis by (simp add: valid_ctrls_def upd_ctrl_def upd_priv_def)
qed

lemma valid_empty_loc: "hap_controller_get_empty_loc st = (c, st') \<Longrightarrow> valid_ctrls st' = valid_ctrls st"
  by (auto simp: hap_controller_get_empty_loc_def valid_upd_ctrl split: option.splits)

lemma valid_priv: "priv st' = priv st \<Longrightarrow> valid_ctrls st' = valid_ctrls st"
  by (simp add: valid_ctrls_def)

lemma start_reply_valid: "srp_start_reply p v buf B st = Some (ret, buf', n, st') \<Longrightarrow> valid_ctrls st' = valid_ctrls st"
  unfolding srp_start_reply_def by (auto split: option.splits bind_splits if_splits prod.splits dest!: error_replyE)

lemma srp_start_valid:
  "hap_pair_setup_process_srp_start p buf inlen st = Some (ret, buf', n, st') \<Longrightarrow> valid_ctrls st' = valid_ctrls st"
  unfolding hap_pair_setup_process_srp_start_def Let_def
  by (elim resultE; auto dest!: error_replyE start_reply_valid valid_empty_loc frame_public_key [THEN valid_priv])

lemma srp_verify_valid:
  "hap_pair_setup_process_srp_verify p buf inlen st = Some (ret, buf', n, st') \<Longrightarrow> valid_ctrls st' = valid_ctrls st"
  unfolding hap_pair_setup_process_srp_verify_def Let_def
  by (elim resultE; auto dest!: error_replyE frame_session_key [THEN bn_rest_eqD, THEN valid_priv])

text \<open>A step of the exchange that changes who is in the table.\<close>

definition setup_verified :: "hap_crypto \<Rightarrow> pair_setup_ctx \<Rightarrow> byte list \<Rightarrow> bool" where
  "setup_verified cr v ltpk \<longleftrightarrow> (\<exists>c tag m x sig cid.
     aead_decrypt cr (ps_session_key v) (msg_nonce ''PS-Msg05'') [] c tag = Some m \<and>
     derive_shared ''Pair-Setup-Controller-Sign-Salt'' ''Pair-Setup-Controller-Sign-Info'' v = Some x \<and>
     ed25519_verify cr ltpk sig (x @ cid @ ltpk))"

lemma ps_decrypt_opened:
  "ps_decrypt key e n cr = Some (Some d) \<Longrightarrow> \<exists>c tag m. aead_decrypt cr key (msg_nonce ''PS-Msg05'') [] c tag = Some m"
  by (auto simp: ps_decrypt_def split: bind_splits option.splits)

lemma exchange_cases:
  assumes "hap_pair_setup_process_exchange p buf inlen st = Some (ret, buf', n, st')"
  obtains "valid_ctrls st' = valid_ctrls st"
  | v i e k d sig x cid ios info info2 r st1 where
    "ps_at st p = Some v" "ps_ctrl v = Some i" "ps_decrypt (ps_session_key v) e k (crypto st) = Some (Some d)"
    "derive_shared ''Pair-Setup-Controller-Sign-Salt'' ''Pair-Setup-Controller-Sign-Info'' v = Some x"
    "cat_into (HAP_CTRL_ID_LEN + 32 + ED_KEY_LEN) [x, cid, info_ltpk info] = Some ios"
    "ed25519_verify (crypto st) (info_ltpk info) sig ios" "wr_block info 96 [1] = Some info2" "ret = HAP_SUCCESS"
    "hap_controller_save i (upd_priv (\<lambda>h. h\<lparr>p_pair_attempts := 0\<rparr>) (upd_ctrl i (\<lambda>c. c\<lparr>ci_info := info2\<rparr>)
      (ps_put p (v\<lparr>ps_state := STATE_M6\<rparr>) (upd_ctrl i (\<lambda>c. c\<lparr>ci_info := info\<rparr>) st)))) = Some (r, st1)"
    "st' = snd (hap_send_event HAP_INTERNAL_EVENT_ACC_PAIRED st1)"
proof -
  have c: "crypto (upd_ctrl i f st) = crypto st" for i f by (simp add: upd_ctrl_def upd_priv_def)
  show thesis
    using assms unfolding hap_pair_setup_process_exchange_def Let_def
    apply -
    apply (elim resultE)
    apply (auto dest!: error_replyE simp: valid_upd_ctrl intro: that(1); fail)+
    apply (rule that(2))
    apply (assumption | simp add: c; fail)+
    done
qed

lemma exchange_valid:
  assumes "hap_pair_setup_process_exchange p buf inlen st = Some (ret, buf', n, st')" "ks_ready st" "valid_ctrls st' \<noteq> valid_ctrls st"
  shows "\<exists>v i. ps_at st p = Some v \<and> ps_ctrl v = Some i \<and> ret = HAP_SUCCESS \<and> i < length (p_controllers (priv st)) \<and>
    valid_ctrls st' = (valid_ctrls st)[i := True] \<and>
    setup_verified (crypto st) v (info_ltpk (ci_info (p_controllers (priv st') ! i)))"
  using assms(1)
proof (cases rule: exchange_cases)
  case 1
  with assms(3) show ?thesis by simp
next
  case (2 v i e k d sig x cid ios info info2 r st1)
  let ?st0 = "upd_priv (\<lambda>h. h\<lparr>p_pair_attempts := 0\<rparr>) (upd_ctrl i (\<lambda>c. c\<lparr>ci_info := info2\<rparr>)
      (ps_put p (v\<lparr>ps_state := STATE_M6\<rparr>) (upd_ctrl i (\<lambda>c. c\<lparr>ci_info := info\<rparr>) st)))"
  have "ks_ready ?st0" using assms(2) by (simp add: ks_ready_def upd_priv_def upd_ctrl_def ps_put_def)
  from save_keeps [OF this, of i] 2(9) have s1: "p_controllers (priv st1) =
      (p_controllers (priv ?st0))[i := (p_controllers (priv ?st0) ! i)\<lparr>ci_valid := True\<rparr>]" by auto
  have t: "p_controllers (priv st') = p_controllers (priv st1)" unfolding 2(10) by (simp add: hap_send_event_keeps)
  have v0: "valid_ctrls ?st0 = valid_ctrls st" by (simp add: valid_upd_ctrl)
  have v: "valid_ctrls st' = (valid_ctrls st)[i := True]"
    unfolding v0 [symmetric] by (simp add: valid_ctrls_def t s1 map_update)
  have i: "i < length (p_controllers (priv st))"
    using assms(3) v by (cases "length (p_controllers (priv st)) \<le> i") (simp_all add: list_update_beyond valid_ctrls_def)
  have w: "info_ltpk info2 = info_ltpk info"
    using 2(7) by (auto simp: wr_block_def info_ltpk_def drop_take split: if_split_asm)
  have c: "ci_info (p_controllers (priv st') ! i) = info2"
    using i by (simp add: t s1 upd_ctrl_def upd_priv_def ps_put_def)
  have "ios = x @ cid @ info_ltpk info" using 2(5) by (auto simp: cat_into_def split: if_split_asm)
  with 2(4,6) ps_decrypt_opened [OF 2(3)] have "setup_verified (crypto st) v (info_ltpk info)"
    unfolding setup_verified_def by blast
  with 2(1,2,8) i v c w show ?thesis by (intro exI [of _ v] exI [of _ i]) simp
qed

lemma timer_case: "(case t of None \<Rightarrow> st | Some h \<Rightarrow> st\<lparr>timers := f h\<rparr>) = st\<lparr>timers := (case t of None \<Rightarrow> timers st | Some h \<Rightarrow> f h)\<rparr>"
  by (cases t) simp_all

lemma clean_priv:
  "hap_pair_setup_ctx_clean c st = Some st' \<Longrightarrow> priv st' = priv st \<and> ks_ready st' = ks_ready st"
  unfolding hap_pair_setup_ctx_clean_def ps_ctx_deinit_def Let_def
  unfolding timer_case by (elim resultE) (auto simp: ks_ready_def)

lemma init_fresh:
  "hap_pair_setup_context_init fd ctx buf st = Some (ctx', ret, buf', n, st') \<Longrightarrow>
    priv st' = priv st \<and> ks_ready st' = ks_ready st \<and>
    (ret = HAP_SUCCESS \<longrightarrow> (\<exists>a v. ctx' = Some a \<and> ps_at st' a = Some v \<and> ps_ctrl v = None))"
  unfolding hap_pair_setup_context_init_def ps_ctx_init_def Let_def
  by (elim resultE) (auto simp: ks_ready_def ps_put_def new_addr_def zero_ps_def dest!: error_replyE split: if_split_asm)

lemma ps_step_valid:
  assumes "ps_step p buf inlen st = Some (ctx', ret, buf', n, st')" "ks_ready st" "valid_ctrls st' \<noteq> valid_ctrls st"
  shows "ctx_state p st = Some STATE_M4 \<and> (\<exists>v i. ps_at st p = Some v \<and> ps_ctrl v = Some i \<and> ret = HAP_SUCCESS \<and>
    valid_ctrls st' = (valid_ctrls st)[i := True] \<and>
    setup_verified (crypto st) v (info_ltpk (ci_info (p_controllers (priv st') ! i))))"
proof -
  have "valid_ctrls st' = valid_ctrls st \<or> ctx_state p st = Some STATE_M4 \<and>
      (\<exists>buf0 n0 st0. hap_pair_setup_process_exchange p buf inlen st = Some (ret, buf0, n0, st0) \<and> priv st' = priv st0)"
    using assms(1) unfolding ps_step_def Let_def
    apply -
    apply (elim resultE)
    apply (rule disjI1, (auto dest!: error_replyE srp_start_valid srp_verify_valid clean_priv [THEN conjunct1, THEN valid_priv] ; fail)
      | rule disjI2, (auto dest!: clean_priv [THEN conjunct1]; fail))+
    done
  then obtain buf0 n0 st0 where x: "ctx_state p st = Some STATE_M4" "hap_pair_setup_process_exchange p buf inlen st = Some (ret, buf0, n0, st0)"
    "priv st' = priv st0" using assms(3) by blast
  have v: "valid_ctrls st' = valid_ctrls st0" by (rule valid_priv [OF x(3)])
  with exchange_valid [OF x(2) assms(2)] assms(3) x(1,3) show ?thesis by auto
qed


definition open_ctx :: pair_setup_ctx where
  "open_ctx = zero_ps\<lparr>ps_state := STATE_M4, ps_ctrl := Some 0, ps_shared_secret := Some (replicate 64 1), ps_secret_len := 64,
     ps_session_key := ps_key (replicate 64 1)\<rparr>"


definition proof_ctx :: pair_setup_ctx where
  "proof_ctx = zero_ps\<lparr>ps_state := STATE_M2, ps_srp_hd := zero_srp\<lparr>sh_n := Some srp_N, sh_bytes_n := Some N_3072, sh_len_n := 384,
     sh_g := Some 5, sh_bytes_g := Some g_3072, sh_len_g := 1, sh_v := Some 5, sh_b := Some 1, sh_bytes_s := Some [7], sh_len_s := 1,
     sh_bytes_B := Some [5], sh_len_B := 1\<rparr>\<rparr>"

lemma pair_setup_wrong_proof_witness:
  "\<exists>M st'. length M = 64 \<and> hap_pair_setup_process (Some 5) (message (ps_m3 (replicate 384 1) M)) (int (length (message (ps_m3 (replicate 384 1) M))))
      (setup_net\<lparr>ps_at := [5 \<mapsto> proof_ctx]\<rparr>) = Some (Some 5, HAP_FAIL, st') \<and> p_pair_attempts (priv (snd (snd st'))) = 1"
proof -
  let ?st = "setup_net\<lparr>ps_at := [5 \<mapsto> proof_ctx]\<rparr>" and ?A = "replicate 384 1 :: byte list"
  obtain M where M: "length M = 64" "M \<noteq> srp_M [7] ?A [5] (srp_shared (mpi ?st) ?A [5] 5 1)"
  proof -
    have "\<exists>M. length M = 64 \<and> M \<noteq> x" for x :: "byte list"
    proof (cases "x = replicate 64 0")
      case True
      then have "replicate 64 1 \<noteq> x" by (simp add: numeral_eq_Suc)
      then show ?thesis by (intro exI [of _ "replicate 64 1"]) simp
    next
      case False
      then show ?thesis by (intro exI [of _ "replicate 64 0"]) simp
    qed
    with that show thesis by blast
  qed
  have c: "ctx_state 5 ?st = Some STATE_M2" "ps_at ?st 5 = Some proof_ctx" "ps_session proof_ctx = None"
    "srp_open (ps_srp_hd proof_ctx) [7] [5] 5 1" "mpi_lawful (mpi ?st)" "memory_ok ?st"
    using setup_net_ready by (simp_all add: ctx_state_def proof_ctx_def setup_ready_def zero_ps_def srp_open_def srp_ready_def memory_ok_def)
  have r: "request (ps_m3 ?A M) (message (ps_m3 ?A M)) (int (length (message (ps_m3 ?A M))))" by (simp add: request_def)
  have l: "length [7 :: byte] \<le> 1000" "length ?A = 384" "6 \<le> length (message (ps_m3 ?A M))"
    using M(1) by (simp_all add: ps_m3_def message_Cons [of "(kTLVType_PublicKey, _)"])
  from pair_setup_wrong_proof [OF c l(1,2) M r l(3)] obtain st' where
    "hap_pair_setup_process (Some 5) (message (ps_m3 ?A M)) (int (length (message (ps_m3 ?A M)))) ?st = Some (Some 5, HAP_FAIL,
      message [(kTLVType_State, [STATE_M4]), (kTLVType_Error, [kTLVError_Authentication])] @ drop 6 (message (ps_m3 ?A M)), 6, st')"
    "p_pair_attempts (priv st') = p_pair_attempts (priv ?st) + 1" by blast
  moreover have "p_pair_attempts (priv ?st) = 0" by (simp add: setup_net_def zero_priv_def)
  ultimately show ?thesis using M(1) by (intro exI [of _ M]) (simp del: message_short)
qed

end
