(* ===== verification/Json_Gen.thy ===== *)
theory Json_Gen
  imports Hap_Priv
begin

text \<open>
  The JSON generator (\<open>json_generator.c\<close>): text is written piece by piece to a buffer of the
  caller, which is handed to a callback whenever it is full. Without a callback the text is cut
  off at the end of the buffer.

  \<open>jg_buf\<close> is what lies between \<open>buf\<close> and \<open>free_ptr\<close>. The callback and its \<open>priv\<close> are one
  function on a state of any type. A string that may be NULL is an option. The result of a
  function is \<open>None\<close> when \<open>memmove\<close> gets a negative length (a buffer of no size) and when the loop
  does not end (a buffer that only holds the terminating zero).

  The theory ends with the text of a JSON value and shows that it is what the calls write,
  independently of the buffer.
\<close>

section \<open>The code\<close>

record 'w json_gen_str =
  jg_buf :: string
  jg_buf_size :: int
  jg_flush_cb :: "(string \<Rightarrow> 'w \<Rightarrow> 'w) option"
  jg_comma_req :: bool

type_synonym 'w jgen = "'w json_gen_str \<Rightarrow> 'w \<Rightarrow> (int \<times> 'w json_gen_str \<times> 'w) option"

definition json_gen_get_empty_len :: "'w json_gen_str \<Rightarrow> int" where
  "json_gen_get_empty_len jstr = jg_buf_size jstr - int (length (jg_buf jstr)) - 1"

partial_function (option) json_gen_add_loop :: "string \<Rightarrow> 'w jgen" where
  "json_gen_add_loop str jstr w =
     (let len_remaining = json_gen_get_empty_len jstr;
          copy_len = (if len_remaining > int (length str) then int (length str) else len_remaining)
      in if copy_len < 0 then None
      else let jstr = jstr\<lparr>jg_buf := jg_buf jstr @ take (nat copy_len) str\<rparr>; str = drop (nat copy_len) str
      in if str = [] then Some (0, jstr, w)
      else case jg_flush_cb jstr of
          None \<Rightarrow> Some (- 1, jstr, w)
        | Some flush_cb \<Rightarrow> json_gen_add_loop str (jstr\<lparr>jg_buf := []\<rparr>) (flush_cb (jg_buf jstr) w))"

declare json_gen_add_loop.simps [code]

definition json_gen_add_to_str :: "string option \<Rightarrow> 'w jgen" where
  "json_gen_add_to_str str jstr w = (case str of None \<Rightarrow> Some (0, jstr, w) | Some s \<Rightarrow> json_gen_add_loop s jstr w)"

definition json_gen_str_start :: "int \<Rightarrow> (string \<Rightarrow> 'w \<Rightarrow> 'w) option \<Rightarrow> 'w json_gen_str" where
  "json_gen_str_start buf_size flush_cb =
     \<lparr>jg_buf = [], jg_buf_size = buf_size, jg_flush_cb = flush_cb, jg_comma_req = False\<rparr>"

text \<open>The result is the string left in the buffer of the caller; the structure is cleared.\<close>

definition json_gen_str_end :: "'w json_gen_str \<Rightarrow> 'w \<Rightarrow> string \<times> 'w" where
  "json_gen_str_end jstr w =
     (jg_buf jstr, case jg_flush_cb jstr of None \<Rightarrow> w | Some flush_cb \<Rightarrow> flush_cb (jg_buf jstr) w)"

text \<open>A call after another whose result is ignored, and the assignment to \<open>comma_req\<close>.\<close>

definition gen_then :: "'w jgen \<Rightarrow> 'w jgen \<Rightarrow> 'w jgen" where
  "gen_then f g jstr w = do { (_, jstr, w) \<leftarrow> f jstr w; g jstr w }"

definition set_comma :: "bool \<Rightarrow> 'w jgen \<Rightarrow> 'w jgen" where
  "set_comma c f jstr w = f (jstr\<lparr>jg_comma_req := c\<rparr>) w"

definition json_gen_handle_comma :: "'w jgen" where
  "json_gen_handle_comma jstr w =
     (if jg_comma_req jstr then json_gen_add_to_str (Some '','') jstr w else Some (0, jstr, w))"

definition json_gen_handle_name :: "string \<Rightarrow> 'w jgen" where
  "json_gen_handle_name name = gen_then (json_gen_add_to_str (Some [CHR 0x22]))
     (gen_then (json_gen_add_to_str (Some name)) (json_gen_add_to_str (Some [CHR 0x22, CHR '':''])))"

definition json_gen_start_object :: "'w jgen" where
  "json_gen_start_object = gen_then json_gen_handle_comma (set_comma False (json_gen_add_to_str (Some ''{'')))"

definition json_gen_end_object :: "'w jgen" where
  "json_gen_end_object = set_comma True (json_gen_add_to_str (Some ''}''))"

definition json_gen_start_array :: "'w jgen" where
  "json_gen_start_array = gen_then json_gen_handle_comma (set_comma False (json_gen_add_to_str (Some ''['')))"

definition json_gen_end_array :: "'w jgen" where
  "json_gen_end_array = set_comma True (json_gen_add_to_str (Some '']''))"

definition json_gen_push_object :: "string \<Rightarrow> 'w jgen" where
  "json_gen_push_object name = gen_then json_gen_handle_comma (gen_then (json_gen_handle_name name)
     (set_comma False (json_gen_add_to_str (Some ''{''))))"

definition json_gen_pop_object :: "'w jgen" where
  "json_gen_pop_object = set_comma True (json_gen_add_to_str (Some ''}''))"

definition json_gen_push_object_str :: "string \<Rightarrow> string option \<Rightarrow> 'w jgen" where
  "json_gen_push_object_str name object_str = gen_then json_gen_handle_comma (gen_then (json_gen_handle_name name)
     (set_comma True (json_gen_add_to_str object_str)))"

definition json_gen_push_array :: "string \<Rightarrow> 'w jgen" where
  "json_gen_push_array name = gen_then json_gen_handle_comma (gen_then (json_gen_handle_name name)
     (set_comma False (json_gen_add_to_str (Some ''[''))))"

definition json_gen_pop_array :: "'w jgen" where
  "json_gen_pop_array = set_comma True (json_gen_add_to_str (Some '']''))"

definition json_gen_push_array_str :: "string \<Rightarrow> string option \<Rightarrow> 'w jgen" where
  "json_gen_push_array_str name array_str = gen_then json_gen_handle_comma (gen_then (json_gen_handle_name name)
     (set_comma True (json_gen_add_to_str array_str)))"

definition json_gen_set_bool :: "bool \<Rightarrow> 'w jgen" where
  "json_gen_set_bool val = set_comma True (json_gen_add_to_str (Some (if val then ''true'' else ''false'')))"

definition json_gen_obj_set_bool :: "string \<Rightarrow> bool \<Rightarrow> 'w jgen" where
  "json_gen_obj_set_bool name val =
     gen_then json_gen_handle_comma (gen_then (json_gen_handle_name name) (json_gen_set_bool val))"

definition json_gen_arr_set_bool :: "bool \<Rightarrow> 'w jgen" where
  "json_gen_arr_set_bool val = gen_then json_gen_handle_comma (json_gen_set_bool val)"

text \<open>\<open>snprintf\<close> into an array of some size cuts the text off.\<close>

definition MAX_INT_IN_STR :: nat where "MAX_INT_IN_STR = 24"
definition MAX_FLOAT_IN_STR :: nat where "MAX_FLOAT_IN_STR = 30"
definition JSON_FLOAT_PRECISION :: nat where "JSON_FLOAT_PRECISION = 5"

definition snprintf :: "nat \<Rightarrow> string \<Rightarrow> string" where
  "snprintf n s = take (n - 1) s"

definition int_str :: "int \<Rightarrow> string" where
  "int_str i = (if i < 0 then ''-'' else []) @ dec_str (nat \<bar>i\<bar>)"

definition json_gen_set_int :: "int \<Rightarrow> 'w jgen" where
  "json_gen_set_int val = set_comma True (json_gen_add_to_str (Some (snprintf MAX_INT_IN_STR (int_str val))))"

definition json_gen_obj_set_int :: "string \<Rightarrow> int \<Rightarrow> 'w jgen" where
  "json_gen_obj_set_int name val =
     gen_then json_gen_handle_comma (gen_then (json_gen_handle_name name) (json_gen_set_int val))"

definition json_gen_arr_set_int :: "int \<Rightarrow> 'w jgen" where
  "json_gen_arr_set_int val = gen_then json_gen_handle_comma (json_gen_set_int val)"

text \<open>
  \<open>%.5f\<close> of a \<open>float\<close> given by its pattern: the number is \<open>m * 2 ^ (e - 149)\<close>, and its multiple
  of \<open>10 ^ 5\<close> is rounded to the nearest integer, to the even one of two.
\<close>

definition round_half_even :: "nat \<Rightarrow> nat \<Rightarrow> nat" where
  "round_half_even a b = (let q = a div b; r = a mod b in
     if 2 * r > b \<or> 2 * r = b \<and> odd q then q + 1 else q)"

definition pad_zeros :: "nat \<Rightarrow> string \<Rightarrow> string" where
  "pad_zeros n s = replicate (n - length s) CHR ''0'' @ s"

definition float_str :: "u32 \<Rightarrow> string" where
  "float_str w = (let sign = (if bit w 31 then ''-'' else []); ex = unat (drop_bit 23 w AND 0xFF);
     frac = unat (w AND 0x007FFFFF);
     m = (if ex = 0 then frac else frac + 2 ^ 23); e = (if ex = 0 then 0 else ex - 1);
     k = round_half_even (m * 2 ^ e * 10 ^ JSON_FLOAT_PRECISION) (2 ^ 149) in
     sign @ (if ex = 255 then (if frac = 0 then ''inf'' else ''nan'')
       else dec_str (k div 10 ^ JSON_FLOAT_PRECISION) @ ''.'' @
         pad_zeros JSON_FLOAT_PRECISION (dec_str (k mod 10 ^ JSON_FLOAT_PRECISION))))"

definition json_gen_set_float :: "u32 \<Rightarrow> 'w jgen" where
  "json_gen_set_float val = set_comma True (json_gen_add_to_str (Some (snprintf MAX_FLOAT_IN_STR (float_str val))))"

definition json_gen_obj_set_float :: "string \<Rightarrow> u32 \<Rightarrow> 'w jgen" where
  "json_gen_obj_set_float name val =
     gen_then json_gen_handle_comma (gen_then (json_gen_handle_name name) (json_gen_set_float val))"

definition json_gen_arr_set_float :: "u32 \<Rightarrow> 'w jgen" where
  "json_gen_arr_set_float val = gen_then json_gen_handle_comma (json_gen_set_float val)"

definition json_gen_set_string :: "string option \<Rightarrow> 'w jgen" where
  "json_gen_set_string val = set_comma True (gen_then (json_gen_add_to_str (Some [CHR 0x22]))
     (gen_then (json_gen_add_to_str val) (json_gen_add_to_str (Some [CHR 0x22]))))"

definition json_gen_obj_set_string :: "string \<Rightarrow> string option \<Rightarrow> 'w jgen" where
  "json_gen_obj_set_string name val =
     gen_then json_gen_handle_comma (gen_then (json_gen_handle_name name) (json_gen_set_string val))"

definition json_gen_arr_set_string :: "string option \<Rightarrow> 'w jgen" where
  "json_gen_arr_set_string val = gen_then json_gen_handle_comma (json_gen_set_string val)"

definition json_gen_set_long_string :: "string option \<Rightarrow> 'w jgen" where
  "json_gen_set_long_string val =
     set_comma True (gen_then (json_gen_add_to_str (Some [CHR 0x22])) (json_gen_add_to_str val))"

definition json_gen_obj_start_long_string :: "string \<Rightarrow> string option \<Rightarrow> 'w jgen" where
  "json_gen_obj_start_long_string name val =
     gen_then json_gen_handle_comma (gen_then (json_gen_handle_name name) (json_gen_set_long_string val))"

definition json_gen_arr_start_long_string :: "string option \<Rightarrow> 'w jgen" where
  "json_gen_arr_start_long_string val = gen_then json_gen_handle_comma (json_gen_set_long_string val)"

definition json_gen_add_to_long_string :: "string option \<Rightarrow> 'w jgen" where
  "json_gen_add_to_long_string val = json_gen_add_to_str val"

definition json_gen_end_long_string :: "'w jgen" where
  "json_gen_end_long_string = json_gen_add_to_str (Some [CHR 0x22])"

definition json_gen_set_null :: "'w jgen" where
  "json_gen_set_null = set_comma True (json_gen_add_to_str (Some ''null''))"

definition json_gen_obj_set_null :: "string \<Rightarrow> 'w jgen" where
  "json_gen_obj_set_null name = gen_then json_gen_handle_comma (gen_then (json_gen_handle_name name) json_gen_set_null)"

definition json_gen_arr_set_null :: "'w jgen" where
  "json_gen_arr_set_null = gen_then json_gen_handle_comma json_gen_set_null"

section \<open>The buffer\<close>

text \<open>What is handed to the callback, and what stays in a buffer of \<open>n\<close> characters.\<close>

function fill :: "nat \<Rightarrow> string \<Rightarrow> string list \<times> string" where
  "fill n s = (if n = 0 \<or> length s \<le> n then ([], s) else let (cs, r) = fill n (drop n s) in (take n s # cs, r))"
  by pat_completeness auto
termination by (relation "measure (\<lambda>(n, s). length s)") auto

declare fill.simps [simp del]

lemma fill_short [simp]: "length s \<le> n \<Longrightarrow> fill n s = ([], s)"
  by (subst fill.simps) simp

lemma fill_long:
  "0 < n \<Longrightarrow> n < length s \<Longrightarrow> fill n s = (take n s # fst (fill n (drop n s)), snd (fill n (drop n s)))"
  by (subst fill.simps) (simp add: split_beta)

lemma fill_props:
  "0 < n \<Longrightarrow> concat (fst (fill n s)) @ snd (fill n s) = s \<and> (\<forall>c \<in> set (fst (fill n s)). length c = n) \<and>
     length (snd (fill n s)) \<le> n"
proof (induction n s rule: fill.induct)
  case (1 n s)
  show ?case
  proof (cases "length s \<le> n")
    case False
    obtain cs r where cs: "fill n (drop n s) = (cs, r)" by fastforce
    with 1 False have "concat cs @ r = drop n s" "\<forall>c \<in> set cs. length c = n" "length r \<le> n" by auto
    moreover have "fill n s = (take n s # cs, r)" using False 1(2) cs by (simp add: fill_long)
    ultimately show ?thesis using False by simp
  qed simp
qed

lemma fill_append:
  "0 < n \<Longrightarrow> fill n (s @ t) = (fst (fill n s) @ fst (fill n (snd (fill n s) @ t)), snd (fill n (snd (fill n s) @ t)))"
proof (induction n s rule: fill.induct)
  case (1 n s)
  show ?case
  proof (cases "length s \<le> n")
    case False
    with 1 show ?thesis by (simp add: fill_long)
  qed simp
qed

text \<open>A buffer in use: there is room for a character, and the terminating zero lies in it.\<close>

definition gen_ready :: "nat \<Rightarrow> 'w json_gen_str \<Rightarrow> bool" where
  "gen_ready n jstr \<longleftrightarrow> 0 < n \<and> jg_buf_size jstr = int n + 1 \<and> length (jg_buf jstr) \<le> n"

lemma add_loop_step:
  assumes "gen_ready n jstr"
  shows "json_gen_add_loop s jstr w = (let k = n - length (jg_buf jstr) in
    if length s \<le> k then Some (0, jstr\<lparr>jg_buf := jg_buf jstr @ s\<rparr>, w)
    else case jg_flush_cb jstr of
        None \<Rightarrow> Some (- 1, jstr\<lparr>jg_buf := jg_buf jstr @ take k s\<rparr>, w)
      | Some cb \<Rightarrow> json_gen_add_loop (drop k s) (jstr\<lparr>jg_buf := []\<rparr>) (cb (jg_buf jstr @ take k s) w))"
proof -
  let ?k = "n - length (jg_buf jstr)"
  from assms have "json_gen_get_empty_len jstr = int ?k"
    by (auto simp: gen_ready_def json_gen_get_empty_len_def of_nat_diff)
  moreover have "nat (if int ?k > int (length s) then int (length s) else int ?k) = min ?k (length s)" by auto
  moreover have "(drop (min ?k (length s)) s = []) = (length s \<le> ?k)" by auto
  moreover have "\<not> length s \<le> ?k \<Longrightarrow> min ?k (length s) = ?k" by simp
  ultimately show ?thesis
    by (subst json_gen_add_loop.simps) (auto simp: Let_def simp del: of_nat_diff split: option.split)
qed

lemma add_loop_flush:
  assumes "gen_ready n jstr" "jg_flush_cb jstr = Some f"
  shows "json_gen_add_loop s jstr w =
    Some (0, jstr\<lparr>jg_buf := snd (fill n (jg_buf jstr @ s))\<rparr>, fold f (fst (fill n (jg_buf jstr @ s))) w)"
  using assms
proof (induction "length (jg_buf jstr @ s)" arbitrary: s jstr w rule: less_induct)
  case less
  let ?b = "jg_buf jstr" and ?k = "n - length (jg_buf jstr)"
  from less.prems have n: "0 < n" "length ?b \<le> n" "gen_ready n (jstr\<lparr>jg_buf := []\<rparr>)"
    by (auto simp: gen_ready_def)
  show ?case
  proof (cases "length s \<le> ?k")
    case True
    with n have "length (?b @ s) \<le> n" by simp
    with True show ?thesis by (simp add: add_loop_step [OF less.prems(1)])
  next
    case False
    then have "json_gen_add_loop (drop ?k s) (jstr\<lparr>jg_buf := []\<rparr>) (f (?b @ take ?k s) w) =
        Some (0, jstr\<lparr>jg_buf := snd (fill n (drop ?k s))\<rparr>, fold f (fst (fill n (drop ?k s))) (f (?b @ take ?k s) w))"
      using less.hyps [of "jstr\<lparr>jg_buf := []\<rparr>" "drop ?k s" "f (?b @ take ?k s) w"] n less.prems(2) by simp
    moreover have "fill n (?b @ s) = ((?b @ take ?k s) # fst (fill n (drop ?k s)), snd (fill n (drop ?k s)))"
      using fill_long [of n "?b @ s"] n False by simp
    ultimately show ?thesis using False less.prems(2) by (simp add: add_loop_step [OF less.prems(1)] Let_def)
  qed
qed

lemma add_loop_cut:
  assumes "gen_ready n jstr" "jg_flush_cb jstr = None"
  shows "json_gen_add_loop s jstr w =
    Some (if n < length (jg_buf jstr @ s) then - 1 else 0, jstr\<lparr>jg_buf := take n (jg_buf jstr @ s)\<rparr>, w)"
  using assms(2) assms(1) [unfolded gen_ready_def] by (auto simp: add_loop_step [OF assms(1)] Let_def)

text \<open>
  A call \<open>f\<close> writes the text \<open>t c\<close> when \<open>comma_req\<close> is \<open>c\<close>, and leaves \<open>d c\<close> there: it succeeds
  with a callback, which gets the full buffers, and without one what has no room is lost.
\<close>

definition writes :: "'w jgen \<Rightarrow> (bool \<Rightarrow> string) \<Rightarrow> (bool \<Rightarrow> bool) \<Rightarrow> bool" where
  "writes f t d \<longleftrightarrow> (\<forall>n jstr w. gen_ready n jstr \<longrightarrow> (let s = jg_buf jstr @ t (jg_comma_req jstr) in
     (\<forall>cb. jg_flush_cb jstr = Some cb \<longrightarrow> f jstr w =
       Some (0, jstr\<lparr>jg_buf := snd (fill n s), jg_comma_req := d (jg_comma_req jstr)\<rparr>, fold cb (fst (fill n s)) w)) \<and>
     (jg_flush_cb jstr = None \<longrightarrow> (\<exists>r. f jstr w =
       Some (r, jstr\<lparr>jg_buf := take n s, jg_comma_req := d (jg_comma_req jstr)\<rparr>, w)))))"

lemma writesI:
  assumes "\<And>n jstr w cb. gen_ready n jstr \<Longrightarrow> jg_flush_cb jstr = Some cb \<Longrightarrow> f jstr w =
      Some (0, jstr\<lparr>jg_buf := snd (fill n (jg_buf jstr @ t (jg_comma_req jstr))), jg_comma_req := d (jg_comma_req jstr)\<rparr>,
        fold cb (fst (fill n (jg_buf jstr @ t (jg_comma_req jstr)))) w)"
    "\<And>n jstr w. gen_ready n jstr \<Longrightarrow> jg_flush_cb jstr = None \<Longrightarrow> \<exists>r. f jstr w =
      Some (r, jstr\<lparr>jg_buf := take n (jg_buf jstr @ t (jg_comma_req jstr)), jg_comma_req := d (jg_comma_req jstr)\<rparr>, w)"
  shows "writes f t d"
  using assms by (auto simp: writes_def Let_def)

lemma writes_flush:
  "writes f t d \<Longrightarrow> gen_ready n jstr \<Longrightarrow> jg_flush_cb jstr = Some cb \<Longrightarrow> f jstr w =
     Some (0, jstr\<lparr>jg_buf := snd (fill n (jg_buf jstr @ t (jg_comma_req jstr))), jg_comma_req := d (jg_comma_req jstr)\<rparr>,
       fold cb (fst (fill n (jg_buf jstr @ t (jg_comma_req jstr)))) w)"
  by (auto simp: writes_def Let_def)

lemma writes_cut:
  "writes f t d \<Longrightarrow> gen_ready n jstr \<Longrightarrow> jg_flush_cb jstr = None \<Longrightarrow> \<exists>r. f jstr w =
     Some (r, jstr\<lparr>jg_buf := take n (jg_buf jstr @ t (jg_comma_req jstr)), jg_comma_req := d (jg_comma_req jstr)\<rparr>, w)"
  by (auto simp: writes_def Let_def)

lemma jstr_same [simp]: "(jstr :: 'w json_gen_str)\<lparr>jg_buf := jg_buf jstr, jg_comma_req := jg_comma_req jstr\<rparr> = jstr"
  by (rule json_gen_str.equality) simp_all

lemma jstr_same' [simp]:
  "(jstr :: 'w json_gen_str)\<lparr>jg_buf := x, jg_comma_req := jg_comma_req jstr\<rparr> = jstr\<lparr>jg_buf := x\<rparr>"
  by (rule json_gen_str.equality) simp_all

lemma writes_none [simp]: "writes (json_gen_add_to_str None) (\<lambda>c. '''') (\<lambda>c. c)"
  by (rule writesI) (auto simp: json_gen_add_to_str_def gen_ready_def)

lemma writes_add [simp]: "writes (json_gen_add_to_str (Some s)) (\<lambda>c. s) (\<lambda>c. c)"
  by (rule writesI) (auto simp: json_gen_add_to_str_def add_loop_flush add_loop_cut)

lemma gen_ready_upd [simp]:
  "gen_ready n jstr \<Longrightarrow> length b \<le> n \<Longrightarrow> gen_ready n (jstr\<lparr>jg_buf := b\<rparr>)"
  "gen_ready n jstr \<Longrightarrow> length b \<le> n \<Longrightarrow> gen_ready n (jstr\<lparr>jg_buf := b, jg_comma_req := c\<rparr>)"
  "gen_ready n (jstr\<lparr>jg_comma_req := c\<rparr>) = gen_ready n jstr"
  by (auto simp: gen_ready_def)

lemma writes_then:
  assumes f: "writes f t d" and g: "writes g u e"
  shows "writes (gen_then f g) (\<lambda>c. t c @ u (d c)) (\<lambda>c. e (d c))"
proof (rule writesI)
  fix n and jstr :: "'a json_gen_str" and w cb
  assume r: "gen_ready n jstr" and cb: "jg_flush_cb jstr = Some cb"
  define c s where "c = jg_comma_req jstr" and "s = jg_buf jstr @ t c"
  have n: "0 < n" using r by (simp add: gen_ready_def)
  define j w1 where "j = jstr\<lparr>jg_buf := snd (fill n s), jg_comma_req := d c\<rparr>" and "w1 = fold cb (fst (fill n s)) w"
  have fj: "f jstr w = Some (0, j, w1)"
    using writes_flush [OF f r cb, of w] by (simp add: j_def w1_def s_def c_def)
  have "length (snd (fill n s)) \<le> n" using fill_props [OF n] by blast
  with r have "gen_ready n j" by (simp add: j_def)
  from writes_flush [OF g this, of cb w1] cb
  have "g j w1 = Some (0, j\<lparr>jg_buf := snd (fill n (jg_buf j @ u (d c))), jg_comma_req := e (d c)\<rparr>,
      fold cb (fst (fill n (jg_buf j @ u (d c)))) w1)" by (simp add: j_def)
  then have "g j w1 = Some (0, jstr\<lparr>jg_buf := snd (fill n (s @ u (d c))), jg_comma_req := e (d c)\<rparr>,
      fold cb (fst (fill n (s @ u (d c)))) w)"
    by (simp add: fill_append [OF n, of s "u (d c)"] j_def w1_def)
  with fj have "gen_then f g jstr w = Some (0, jstr\<lparr>jg_buf := snd (fill n (s @ u (d c))), jg_comma_req := e (d c)\<rparr>,
      fold cb (fst (fill n (s @ u (d c)))) w)" by (simp add: gen_then_def del: append_assoc)
  then show "gen_then f g jstr w = Some (0, jstr\<lparr>jg_buf := snd (fill n (jg_buf jstr @ t (jg_comma_req jstr) @
      u (d (jg_comma_req jstr)))), jg_comma_req := e (d (jg_comma_req jstr))\<rparr>,
      fold cb (fst (fill n (jg_buf jstr @ t (jg_comma_req jstr) @ u (d (jg_comma_req jstr))))) w)"
    by (simp only: s_def c_def append_assoc)
next
  fix n and jstr :: "'a json_gen_str" and w
  assume r: "gen_ready n jstr" and cb: "jg_flush_cb jstr = None"
  define c s where "c = jg_comma_req jstr" and "s = jg_buf jstr @ t c"
  define j where "j = jstr\<lparr>jg_buf := take n s, jg_comma_req := d c\<rparr>"
  obtain r1 where fj: "f jstr w = Some (r1, j, w)"
    using writes_cut [OF f r cb, of w] by (auto simp: j_def s_def c_def)
  have "gen_ready n j" using r by (simp add: j_def)
  from writes_cut [OF g this, of w] cb
  obtain r2 where "g j w = Some (r2, j\<lparr>jg_buf := take n (jg_buf j @ u (d c)), jg_comma_req := e (d c)\<rparr>, w)"
    by (auto simp: j_def)
  moreover have "take n (take n s @ u (d c)) = take n (s @ u (d c))" by (simp add: min_def)
  ultimately have "g j w = Some (r2, jstr\<lparr>jg_buf := take n (s @ u (d c)), jg_comma_req := e (d c)\<rparr>, w)"
    by (simp add: j_def)
  with fj have "gen_then f g jstr w = Some (r2, jstr\<lparr>jg_buf := take n (s @ u (d c)), jg_comma_req := e (d c)\<rparr>, w)"
    by (simp add: gen_then_def)
  then show "\<exists>r. gen_then f g jstr w = Some (r, jstr\<lparr>jg_buf := take n (jg_buf jstr @ t (jg_comma_req jstr) @
      u (d (jg_comma_req jstr))), jg_comma_req := e (d (jg_comma_req jstr))\<rparr>, w)"
    by (simp add: s_def c_def)
qed

lemma writes_set_comma:
  assumes "writes f t d"
  shows "writes (set_comma c f) (\<lambda>_. t c) (\<lambda>_. d c)"
proof (rule writesI)
  fix n and jstr :: "'a json_gen_str" and w cb
  assume r: "gen_ready n jstr" and cb: "jg_flush_cb jstr = Some cb"
  then show "set_comma c f jstr w = Some (0, jstr\<lparr>jg_buf := snd (fill n (jg_buf jstr @ t c)), jg_comma_req := d c\<rparr>,
      fold cb (fst (fill n (jg_buf jstr @ t c))) w)"
    using writes_flush [OF assms, of n "jstr\<lparr>jg_comma_req := c\<rparr>"] by (simp add: set_comma_def)
next
  fix n and jstr :: "'a json_gen_str" and w
  assume "gen_ready n jstr" "jg_flush_cb jstr = None"
  then show "\<exists>r. set_comma c f jstr w = Some (r, jstr\<lparr>jg_buf := take n (jg_buf jstr @ t c), jg_comma_req := d c\<rparr>, w)"
    using writes_cut [OF assms, of n "jstr\<lparr>jg_comma_req := c\<rparr>"] by (simp add: set_comma_def)
qed

lemma gen_ready_room: "gen_ready n jstr \<Longrightarrow> length (jg_buf jstr) \<le> n"
  by (simp add: gen_ready_def)

lemma writes_comma [simp]: "writes json_gen_handle_comma (\<lambda>c. if c then '','' else '''') (\<lambda>c. c)"
proof (rule writesI)
  fix n and jstr :: "'a json_gen_str" and w cb
  assume "gen_ready n jstr" "jg_flush_cb jstr = Some cb"
  then show "json_gen_handle_comma jstr w = Some (0, jstr\<lparr>jg_buf := snd (fill n (jg_buf jstr @
      (if jg_comma_req jstr then '','' else ''''))), jg_comma_req := jg_comma_req jstr\<rparr>,
      fold cb (fst (fill n (jg_buf jstr @ (if jg_comma_req jstr then '','' else '''')))) w)"
    using writes_flush [OF writes_add, of n jstr cb "'',''" w] gen_ready_room [of n jstr]
    by (auto simp: json_gen_handle_comma_def)
next
  fix n and jstr :: "'a json_gen_str" and w
  assume "gen_ready n jstr" "jg_flush_cb jstr = None"
  then show "\<exists>r. json_gen_handle_comma jstr w = Some (r, jstr\<lparr>jg_buf := take n (jg_buf jstr @
      (if jg_comma_req jstr then '','' else '''')), jg_comma_req := jg_comma_req jstr\<rparr>, w)"
    using writes_cut [OF writes_add, of n jstr "'',''" w] gen_ready_room [of n jstr]
    by (auto simp: json_gen_handle_comma_def)
qed

section \<open>What the calls write\<close>

definition quoted :: "string \<Rightarrow> string" where
  "quoted s = [CHR 0x22] @ s @ [CHR 0x22]"

definition key :: "string \<Rightarrow> string" where
  "key name = quoted name @ '':''"

abbreviation sep :: "bool \<Rightarrow> string" where
  "sep c \<equiv> (if c then '','' else '''')"

lemma writes_cong:
  "writes f t d \<Longrightarrow> (\<And>c. t c = t' c) \<Longrightarrow> (\<And>c. d c = d' c) \<Longrightarrow> writes f t' d'"
  by (simp add: writes_def)

lemma writes_name: "writes (json_gen_handle_name name) (\<lambda>c. key name) (\<lambda>c. c)"
  unfolding json_gen_handle_name_def
  by (rule writes_cong, rule writes_then [OF writes_add writes_then [OF writes_add writes_add]])
    (simp_all add: key_def quoted_def)

lemma writes_member:
  "writes f (\<lambda>c. t) (\<lambda>c. d) \<Longrightarrow>
     writes (gen_then json_gen_handle_comma (gen_then (json_gen_handle_name name) f)) (\<lambda>c. sep c @ key name @ t) (\<lambda>c. d)"
  by (rule writes_cong, rule writes_then [OF writes_comma writes_then [OF writes_name]], assumption) simp_all

lemma writes_element:
  "writes f (\<lambda>c. t) (\<lambda>c. d) \<Longrightarrow> writes (gen_then json_gen_handle_comma f) (\<lambda>c. sep c @ t) (\<lambda>c. d)"
  by (rule writes_cong, rule writes_then [OF writes_comma], assumption) simp_all

lemma writes_quoted: "writes (set_comma True (gen_then (json_gen_add_to_str (Some [CHR 0x22]))
    (gen_then (json_gen_add_to_str (Some val)) (json_gen_add_to_str (Some [CHR 0x22]))))) (\<lambda>c. quoted val) (\<lambda>c. True)"
  by (rule writes_cong, rule writes_set_comma [OF writes_then [OF writes_add writes_then [OF writes_add writes_add]]])
    (simp_all add: quoted_def)

lemma writes_open_quote:
  "writes (set_comma True (gen_then (json_gen_add_to_str (Some [CHR 0x22])) (json_gen_add_to_str (Some s))))
     (\<lambda>c. [CHR 0x22] @ s) (\<lambda>c. True)"
  "writes (set_comma True (gen_then (json_gen_add_to_str (Some [CHR 0x22])) (json_gen_add_to_str None)))
     (\<lambda>c. [CHR 0x22]) (\<lambda>c. True)"
  by (rule writes_cong, rule writes_set_comma [OF writes_then [OF writes_add writes_add]], simp_all)
    (rule writes_cong, rule writes_set_comma [OF writes_then [OF writes_add writes_none]], simp_all)

lemma writes_text: "writes (set_comma d (json_gen_add_to_str (Some s))) (\<lambda>c. s) (\<lambda>c. d)"
  by (rule writes_set_comma [OF writes_add])

definition int_text :: "int \<Rightarrow> string" where "int_text i = snprintf MAX_INT_IN_STR (int_str i)"
definition float_text :: "u32 \<Rightarrow> string" where "float_text w = snprintf MAX_FLOAT_IN_STR (float_str w)"
definition bool_text :: "bool \<Rightarrow> string" where "bool_text b = (if b then ''true'' else ''false'')"

lemmas gen_call_defs = json_gen_obj_set_bool_def json_gen_arr_set_bool_def json_gen_set_bool_def
  json_gen_obj_set_int_def json_gen_arr_set_int_def json_gen_set_int_def json_gen_obj_set_float_def
  json_gen_arr_set_float_def json_gen_set_float_def json_gen_obj_set_string_def json_gen_arr_set_string_def
  json_gen_set_string_def json_gen_obj_set_null_def json_gen_arr_set_null_def json_gen_set_null_def
  json_gen_start_object_def json_gen_end_object_def json_gen_start_array_def json_gen_end_array_def
  json_gen_push_object_def json_gen_pop_object_def json_gen_push_array_def json_gen_pop_array_def
  json_gen_push_object_str_def json_gen_push_array_str_def json_gen_obj_start_long_string_def
  json_gen_arr_start_long_string_def json_gen_set_long_string_def json_gen_add_to_long_string_def
  json_gen_end_long_string_def

named_theorems gen_writes \<open>the text a call of the generator writes\<close>

lemma gen_calls_write [gen_writes]:
  "writes json_gen_start_object (\<lambda>c. sep c @ ''{'') (\<lambda>c. False)"
  "writes json_gen_end_object (\<lambda>c. ''}'') (\<lambda>c. True)"
  "writes json_gen_start_array (\<lambda>c. sep c @ ''['') (\<lambda>c. False)"
  "writes json_gen_end_array (\<lambda>c. '']'') (\<lambda>c. True)"
  "writes (json_gen_push_object name) (\<lambda>c. sep c @ key name @ ''{'') (\<lambda>c. False)"
  "writes json_gen_pop_object (\<lambda>c. ''}'') (\<lambda>c. True)"
  "writes (json_gen_push_array name) (\<lambda>c. sep c @ key name @ ''['') (\<lambda>c. False)"
  "writes json_gen_pop_array (\<lambda>c. '']'') (\<lambda>c. True)"
  "writes (json_gen_push_object_str name (Some s)) (\<lambda>c. sep c @ key name @ s) (\<lambda>c. True)"
  "writes (json_gen_push_array_str name (Some s)) (\<lambda>c. sep c @ key name @ s) (\<lambda>c. True)"
  "writes (json_gen_obj_set_bool name b) (\<lambda>c. sep c @ key name @ bool_text b) (\<lambda>c. True)"
  "writes (json_gen_arr_set_bool b) (\<lambda>c. sep c @ bool_text b) (\<lambda>c. True)"
  "writes (json_gen_obj_set_int name i) (\<lambda>c. sep c @ key name @ int_text i) (\<lambda>c. True)"
  "writes (json_gen_arr_set_int i) (\<lambda>c. sep c @ int_text i) (\<lambda>c. True)"
  "writes (json_gen_obj_set_float name v) (\<lambda>c. sep c @ key name @ float_text v) (\<lambda>c. True)"
  "writes (json_gen_arr_set_float v) (\<lambda>c. sep c @ float_text v) (\<lambda>c. True)"
  "writes (json_gen_obj_set_string name (Some s)) (\<lambda>c. sep c @ key name @ quoted s) (\<lambda>c. True)"
  "writes (json_gen_arr_set_string (Some s)) (\<lambda>c. sep c @ quoted s) (\<lambda>c. True)"
  "writes (json_gen_obj_start_long_string name None) (\<lambda>c. sep c @ key name @ [CHR 0x22]) (\<lambda>c. True)"
  "writes (json_gen_obj_start_long_string name (Some s)) (\<lambda>c. sep c @ key name @ [CHR 0x22] @ s) (\<lambda>c. True)"
  "writes (json_gen_arr_start_long_string (Some s)) (\<lambda>c. sep c @ [CHR 0x22] @ s) (\<lambda>c. True)"
  "writes (json_gen_add_to_long_string (Some s)) (\<lambda>c. s) (\<lambda>c. c)"
  "writes json_gen_end_long_string (\<lambda>c. [CHR 0x22]) (\<lambda>c. c)"
  "writes (json_gen_obj_set_null name) (\<lambda>c. sep c @ key name @ ''null'') (\<lambda>c. True)"
  "writes (json_gen_arr_set_null) (\<lambda>c. sep c @ ''null'') (\<lambda>c. True)"
  unfolding gen_call_defs int_text_def [symmetric] float_text_def [symmetric] bool_text_def [symmetric]
  by (intro writes_member writes_element writes_text writes_quoted writes_open_quote writes_add)+

section \<open>JSON values\<close>

text \<open>A value and its text. A float is its pattern; a string is written as it is.\<close>

datatype json = JObj "(string \<times> json) list" | JArr "json list" | JStr string | JInt int | JFloat u32
  | JBool bool | JNull

fun joined :: "string list \<Rightarrow> string" where
  "joined [] = ''''"
| "joined [s] = s"
| "joined (s # ss) = s @ '','' @ joined ss"

fun json_text :: "json \<Rightarrow> string" where
  "json_text (JObj ms) = ''{'' @ joined (map (\<lambda>(k, v). key k @ json_text v) ms) @ ''}''"
| "json_text (JArr vs) = ''['' @ joined (map json_text vs) @ '']''"
| "json_text (JStr s) = quoted s"
| "json_text (JInt i) = int_text i"
| "json_text (JFloat v) = float_text v"
| "json_text (JBool b) = bool_text b"
| "json_text JNull = ''null''"

text \<open>The calls for a value: as a member of an object, and as an element of an array.\<close>

fun gen_list :: "('a \<Rightarrow> 'w jgen) \<Rightarrow> 'a list \<Rightarrow> 'w jgen" where
  "gen_list f [] jstr w = Some (0, jstr, w)"
| "gen_list f (x # xs) jstr w = gen_then (f x) (gen_list f xs) jstr w"

lemma gen_list_cong [fundef_cong]:
  "xs = ys \<Longrightarrow> (\<And>x. x \<in> set ys \<Longrightarrow> f x = g x) \<Longrightarrow> gen_list f xs = gen_list g ys"
proof (induction xs arbitrary: ys)
  case (Cons x xs)
  from Cons.prems have "gen_list f xs = gen_list g xs" by (intro Cons.IH) auto
  with Cons.prems show ?case by (auto intro!: ext)
qed (auto intro!: ext)

fun gen_member :: "string \<times> json \<Rightarrow> 'w jgen"
  and gen_element :: "json \<Rightarrow> 'w jgen" where
  "gen_member (name, JObj ms) = gen_then (json_gen_push_object name) (gen_then (gen_list gen_member ms) json_gen_pop_object)"
| "gen_member (name, JArr vs) = gen_then (json_gen_push_array name) (gen_then (gen_list gen_element vs) json_gen_pop_array)"
| "gen_member (name, JStr s) = json_gen_obj_set_string name (Some s)"
| "gen_member (name, JInt i) = json_gen_obj_set_int name i"
| "gen_member (name, JFloat v) = json_gen_obj_set_float name v"
| "gen_member (name, JBool b) = json_gen_obj_set_bool name b"
| "gen_member (name, JNull) = json_gen_obj_set_null name"
| "gen_element (JObj ms) = gen_then json_gen_start_object (gen_then (gen_list gen_member ms) json_gen_end_object)"
| "gen_element (JArr vs) = gen_then json_gen_start_array (gen_then (gen_list gen_element vs) json_gen_end_array)"
| "gen_element (JStr s) = json_gen_arr_set_string (Some s)"
| "gen_element (JInt i) = json_gen_arr_set_int i"
| "gen_element (JFloat v) = json_gen_arr_set_float v"
| "gen_element (JBool b) = json_gen_arr_set_bool b"
| "gen_element JNull = json_gen_arr_set_null"

abbreviation member_text :: "string \<times> json \<Rightarrow> string" where
  "member_text \<equiv> \<lambda>(k, v). key k @ json_text v"

lemma writes_list:
  assumes "\<And>x. x \<in> set xs \<Longrightarrow> writes (f x) (\<lambda>c. sep c @ t x) (\<lambda>c. True)"
  shows "writes (gen_list f xs) (\<lambda>c. (if xs = [] then '''' else sep c) @ joined (map t xs)) (\<lambda>c. c \<or> xs \<noteq> [])"
  using assms
proof (induction xs)
  case Nil
  show ?case by (rule writesI) (auto simp: gen_ready_def)
next
  case (Cons x xs)
  have "gen_list f (x # xs) = gen_then (f x) (gen_list f xs)" by (intro ext) simp
  then show ?case
    by (simp only:) (rule writes_cong, rule writes_then [OF Cons.prems Cons.IH],
      simp_all add: Cons.prems, cases xs, simp_all)
qed

lemma writes_bracket:
  assumes "writes f (\<lambda>c. t c) (\<lambda>c. False)" "writes g (\<lambda>c. if c then u else v) d" "writes h (\<lambda>c. z) (\<lambda>c. True)"
  shows "writes (gen_then f (gen_then g h)) (\<lambda>c. t c @ v @ z) (\<lambda>c. True)"
  by (rule writes_cong, rule writes_then [OF assms(1) writes_then [OF assms(2,3)]]) simp_all

lemma writes_value:
  "writes (gen_member m :: 'w jgen) (\<lambda>c. sep c @ member_text m) (\<lambda>c. True)"
  "writes (gen_element v :: 'w jgen) (\<lambda>c. sep c @ json_text v) (\<lambda>c. True)"
proof (induction m and v rule: gen_member_gen_element.induct)
  case (1 name ms)
  show ?case
    by (simp only: gen_member.simps, rule writes_cong,
      rule writes_then [OF gen_calls_write(5) writes_then [OF writes_list [where t = member_text] gen_calls_write(6)]], rule 1) auto
next
  case (2 name vs)
  show ?case
    by (simp only: gen_member.simps, rule writes_cong,
      rule writes_then [OF gen_calls_write(7) writes_then [OF writes_list [where t = json_text] gen_calls_write(8)]], rule 2) auto
next
  case (8 ms)
  show ?case
    by (simp only: gen_element.simps, rule writes_cong,
      rule writes_then [OF gen_calls_write(1) writes_then [OF writes_list [where t = member_text] gen_calls_write(2)]], rule 8) auto
next
  case (9 vs)
  show ?case
    by (simp only: gen_element.simps, rule writes_cong,
      rule writes_then [OF gen_calls_write(3) writes_then [OF writes_list [where t = json_text] gen_calls_write(4)]], rule 9) auto
qed (use gen_calls_write in \<open>simp_all add: gen_member.simps gen_element.simps\<close>)

text \<open>
  The root of a document: an object written with \<open>start_object\<close>. Whatever the size of the buffer, the
  callback gets the text of the value, and every piece but the last fills the buffer.
\<close>

definition gen_document :: "(string \<times> json) list \<Rightarrow> int \<Rightarrow> (string \<Rightarrow> 'w \<Rightarrow> 'w) option \<Rightarrow> 'w \<Rightarrow> (string \<times> 'w) option" where
  "gen_document ms buf_size cb w = do {
     (_, jstr, w) \<leftarrow> gen_element (JObj ms) (json_gen_str_start buf_size cb) w;
     Some (json_gen_str_end jstr w) }"

lemma start_ready: "2 \<le> buf_size \<Longrightarrow> gen_ready (nat (buf_size - 1)) (json_gen_str_start buf_size cb)"
  by (simp add: gen_ready_def json_gen_str_start_def)


text \<open>Strings are not escaped: two different values can have the same text.\<close>

lemma json_text_ambiguous:
  "json_text (JObj [(''a'', JStr [CHR ''b'', CHR 0x22, CHR '','', CHR 0x22, CHR ''c'', CHR 0x22, CHR '':'', CHR 0x22, CHR ''d''])]) =
   json_text (JObj [(''a'', JStr ''b''), (''c'', JStr ''d'')])"
  by (simp add: key_def quoted_def)


lemma digit_chars:
  "char_of (48 :: nat) = CHR ''0''" "char_of (49 :: nat) = CHR ''1''" "char_of (50 :: nat) = CHR ''2''"
  "char_of (51 :: nat) = CHR ''3''" "char_of (52 :: nat) = CHR ''4''" "char_of (53 :: nat) = CHR ''5''"
  "char_of (54 :: nat) = CHR ''6''" "char_of (55 :: nat) = CHR ''7''" "char_of (56 :: nat) = CHR ''8''"
  "char_of (57 :: nat) = CHR ''9''"
  by code_simp+

lemma four_zeros: "replicate 4 CHR ''0'' = ''0000''"
  by (simp add: numeral_eq_Suc)

lemma dec_str_step:
  "n < 10 \<Longrightarrow> dec_str n = [char_of (48 + n)]" "10 \<le> n \<Longrightarrow> dec_str n = dec_str (n div 10) @ [char_of (48 + n mod 10)]"
  by (simp_all add: dec_str.simps [of n])

lemmas float_eval = float_text_def snprintf_def MAX_FLOAT_IN_STR_def float_str_def Let_def round_half_even_def
  JSON_FLOAT_PRECISION_def dec_str_step pad_zeros_def digit_chars four_zeros

text \<open>The number \<open>2 ^ 100\<close> has 37 characters; 29 of them are written, and the text is another number.\<close>

lemma float_text_cut:
  "float_str 0x71800000 = ''1267650600228229401496703205376.00000'' \<and>
   float_text 0x71800000 = ''12676506002282294014967032053''"
proof -
  have k: "round_half_even (2 ^ 23 * 2 ^ 226 * 10 ^ 5) (2 ^ 149) = 2 ^ 100 * 10 ^ 5"
    by (simp add: round_half_even_def Let_def)
  have d: "dec_str (2 ^ 100) = ''1267650600228229401496703205376''"
    by (simp add: dec_str_step digit_chars)
  have ex: "\<not> bit (0x71800000 :: u32) 31" "unat (drop_bit 23 (0x71800000 :: u32) AND 0xFF) = 227"
    "unat ((0x71800000 :: u32) AND 0x007FFFFF) = 0" by simp_all
  have "float_str 0x71800000 = dec_str (2 ^ 100) @ ''.'' @ pad_zeros 5 (dec_str 0)"
    unfolding float_str_def ex JSON_FLOAT_PRECISION_def Let_def using ex(1) by (simp add: k [simplified])
  then show ?thesis
    by (simp add: d [simplified] dec_str_step digit_chars four_zeros pad_zeros_def float_text_def snprintf_def
      MAX_FLOAT_IN_STR_def)
qed

lemma float_text_examples:
  "float_text 0 = ''0.00000''" "float_text 0x3F800000 = ''1.00000''" "float_text 0xC0490FDB = ''-3.14159''"
  "float_text 0x3DCCCCCD = ''0.10000''"
  by (simp_all add: float_eval)

end
