(* ===== verification/Json_Parse.thy ===== *)
theory Json_Parse
  imports Json_Gen
begin

text \<open>
  The JSON parser: the tokenizer \<open>jsmn.h\<close>, compiled with \<open>JSMN_STRICT\<close> and
  \<open>JSMN_PARENT_LINKS\<close>, and the accessors of \<open>json_parser.c\<close> on its tokens.

  The text is the list of the \<open>len\<close> characters that are parsed. A token pointer is an index into
  the tokens, \<open>None\<close> as the array of tokens is NULL: the first of the two passes of
  \<open>json_parse_start\<close> only counts. The result of a function is \<open>None\<close> when it follows an index
  that is no token (and when the walk over the parents would not end).

  \<open>strtof\<close> of the C library is a parameter: the pattern of the number, and how many characters it
  took. \<open>strtoul\<close> and \<open>strtoull\<close> are modelled.
\<close>

section \<open>The tokenizer\<close>

datatype jsmntype = JSMN_UNDEFINED | JSMN_OBJECT | JSMN_ARRAY | JSMN_STRING | JSMN_PRIMITIVE

definition JSMN_ERROR_NOMEM :: int where "JSMN_ERROR_NOMEM = - 1"
definition JSMN_ERROR_INVAL :: int where "JSMN_ERROR_INVAL = - 2"
definition JSMN_ERROR_PART :: int where "JSMN_ERROR_PART = - 3"

record jsmntok =
  t_type :: jsmntype
  t_start :: int
  t_end :: int
  t_size :: int
  t_parent :: int

definition zero_tok :: jsmntok where
  "zero_tok = \<lparr>t_type = JSMN_UNDEFINED, t_start = 0, t_end = 0, t_size = 0, t_parent = 0\<rparr>"

record jsmn_parser =
  j_pos :: nat
  j_toknext :: nat
  j_toksuper :: int
  j_tokens :: "jsmntok list option"

definition jsmn_init :: "jsmntok list option \<Rightarrow> jsmn_parser" where
  "jsmn_init tokens = \<lparr>j_pos = 0, j_toknext = 0, j_toksuper = - 1, j_tokens = tokens\<rparr>"

text \<open>Fields of the token \<open>i\<close>, and an assignment to it.\<close>

definition tok_at :: "int \<Rightarrow> jsmntok list \<Rightarrow> jsmntok option" where
  "tok_at i ts = rd ts i"

definition upd_tok :: "int \<Rightarrow> (jsmntok \<Rightarrow> jsmntok) \<Rightarrow> jsmntok list \<Rightarrow> jsmntok list option" where
  "upd_tok i f ts = do { t \<leftarrow> tok_at i ts; Some (ts[nat i := f t]) }"

text \<open>\<open>jsmn_alloc_token\<close> gives the index of the token, or None when all are used.\<close>

definition jsmn_alloc_token :: "jsmntok list \<Rightarrow> jsmn_parser \<Rightarrow> (nat \<times> jsmntok list) option" where
  "jsmn_alloc_token ts p = (let i = j_toknext p in if i \<ge> length ts then None
     else Some (i, ts[i := (ts ! i)\<lparr>t_start := - 1, t_end := - 1, t_size := 0, t_parent := - 1\<rparr>]))"

definition jsmn_fill_token :: "jsmntype \<Rightarrow> int \<Rightarrow> int \<Rightarrow> jsmntok \<Rightarrow> jsmntok" where
  "jsmn_fill_token type start end_pos t = t\<lparr>t_type := type, t_start := start, t_end := end_pos, t_size := 0\<rparr>"

text \<open>A new token of the given type and place, with the current \<open>toksuper\<close> as its parent.\<close>

definition jsmn_add_token :: "jsmntype \<Rightarrow> nat \<Rightarrow> nat \<Rightarrow> jsmn_parser \<Rightarrow> jsmn_parser option" where
  "jsmn_add_token type start end_pos p = (case j_tokens p of
       None \<Rightarrow> Some p
     | Some ts \<Rightarrow> (case jsmn_alloc_token ts p of
           None \<Rightarrow> None
         | Some (i, ts) \<Rightarrow> Some (p\<lparr>j_toknext := Suc i, j_tokens := Some (ts[i :=
             (jsmn_fill_token type (int start) (int end_pos) (ts ! i))\<lparr>t_parent := j_toksuper p\<rparr>])\<rparr>)))"

definition prim_end :: "char \<Rightarrow> bool" where
  "prim_end c \<longleftrightarrow> c \<in> {CHR 0x09, CHR 0x0D, CHR 0x0A, CHR '' '', CHR '','', CHR '']'', CHR ''}''}"

text \<open>The scan of a primitive: the position of its end, or an error.\<close>

function prim_scan :: "string \<Rightarrow> nat \<Rightarrow> int + nat" where
  "prim_scan js pos = (if pos < length js \<and> js ! pos \<noteq> CHR 0x00 then
       if prim_end (js ! pos) then Inr pos
       else if of_char (js ! pos) < (32 :: nat) \<or> of_char (js ! pos) \<ge> (127 :: nat) then Inl JSMN_ERROR_INVAL
       else prim_scan js (Suc pos)
     else Inl JSMN_ERROR_PART)"
  by pat_completeness auto
termination by (relation "measure (\<lambda>(js, pos). length js - pos)") auto

definition jsmn_parse_primitive :: "string \<Rightarrow> jsmn_parser \<Rightarrow> int + jsmn_parser" where
  "jsmn_parse_primitive js p = (let start = j_pos p in case prim_scan js start of
       Inl e \<Rightarrow> Inl e
     | Inr pos \<Rightarrow> (case jsmn_add_token JSMN_PRIMITIVE start pos p of
           None \<Rightarrow> Inl JSMN_ERROR_NOMEM
         | Some p \<Rightarrow> Inr (p\<lparr>j_pos := pos - 1\<rparr>)))"

definition is_hex :: "char \<Rightarrow> bool" where
  "is_hex c \<longleftrightarrow> (let n = of_char c :: nat in 48 \<le> n \<and> n \<le> 57 \<or> 65 \<le> n \<and> n \<le> 70 \<or> 97 \<le> n \<and> n \<le> 102)"

text \<open>The digits of \<open>\u\<close>: at most \<open>n\<close> of them, from \<open>pos\<close> on; None when one is not hexadecimal.\<close>

fun hex_scan :: "string \<Rightarrow> nat \<Rightarrow> nat \<Rightarrow> nat option" where
  "hex_scan js pos 0 = Some pos"
| "hex_scan js pos (Suc n) = (if pos < length js \<and> js ! pos \<noteq> CHR 0x00 then
     if is_hex (js ! pos) then hex_scan js (Suc pos) n else None
     else Some pos)"

lemma hex_scan_ge: "hex_scan js pos n = Some q \<Longrightarrow> pos \<le> q"
  by (induction js pos n rule: hex_scan.induct) (auto split: if_splits)

text \<open>The scan of a string from a position after the opening quote: the position of the closing one.\<close>

function str_scan :: "string \<Rightarrow> nat \<Rightarrow> int + nat" where
  "str_scan js pos = (if pos < length js \<and> js ! pos \<noteq> CHR 0x00 then
       if js ! pos = CHR 0x22 then Inr pos
       else if js ! pos = CHR 0x5C \<and> pos + 1 < length js then
         (let c = js ! (pos + 1) in
          if c \<in> {CHR 0x22, CHR ''/'', CHR 0x5C, CHR ''b'', CHR ''f'', CHR ''r'', CHR ''n'', CHR ''t''}
          then str_scan js (pos + 2)
          else if c = CHR ''u'' then
            (case hex_scan js (pos + 2) 4 of None \<Rightarrow> Inl JSMN_ERROR_INVAL | Some q \<Rightarrow> str_scan js q)
          else Inl JSMN_ERROR_INVAL)
       else str_scan js (Suc pos)
     else Inl JSMN_ERROR_PART)"
  by pat_completeness auto
termination
  by (relation "measure (\<lambda>(js, pos). length js - pos)") (auto dest: hex_scan_ge)

definition jsmn_parse_string :: "string \<Rightarrow> jsmn_parser \<Rightarrow> int + jsmn_parser" where
  "jsmn_parse_string js p = (let start = j_pos p in case str_scan js (start + 1) of
       Inl e \<Rightarrow> Inl e
     | Inr pos \<Rightarrow> (case jsmn_add_token JSMN_STRING (start + 1) pos p of
           None \<Rightarrow> Inl JSMN_ERROR_NOMEM
         | Some p \<Rightarrow> Inr (p\<lparr>j_pos := pos\<rparr>)))"

declare prim_scan.simps [simp del] str_scan.simps [simp del]

text \<open>The cases of \<open>jsmn_parse\<close>: an opening bracket.\<close>

definition jsmn_open :: "char \<Rightarrow> jsmn_parser \<Rightarrow> (int + jsmn_parser) option" where
  "jsmn_open c p = (case j_tokens p of
       None \<Rightarrow> Some (Inr p)
     | Some ts \<Rightarrow> (case jsmn_alloc_token ts p of
           None \<Rightarrow> Some (Inl JSMN_ERROR_NOMEM)
         | Some (i, ts) \<Rightarrow> do {
             super \<leftarrow> (if j_toksuper p = - 1 then Some None else map_option Some (tok_at (j_toksuper p) ts));
             if map_option t_type super = Some JSMN_OBJECT then Some (Inl JSMN_ERROR_INVAL)
             else do {
               ts \<leftarrow> (if j_toksuper p = - 1 then Some ts else do {
                 ts \<leftarrow> upd_tok (j_toksuper p) (\<lambda>t. t\<lparr>t_size := t_size t + 1\<rparr>) ts;
                 upd_tok (int i) (\<lambda>t. t\<lparr>t_parent := j_toksuper p\<rparr>) ts });
               ts \<leftarrow> upd_tok (int i) (\<lambda>t. t\<lparr>t_type := if c = CHR ''{'' then JSMN_OBJECT else JSMN_ARRAY,
                 t_start := int (j_pos p)\<rparr>) ts;
               Some (Inr (p\<lparr>j_toknext := Suc i, j_toksuper := int i, j_tokens := Some ts\<rparr>)) } }))"

text \<open>An object or array that was opened and not closed.\<close>

definition tok_open :: "jsmntok \<Rightarrow> bool" where
  "tok_open t \<longleftrightarrow> t_start t \<noteq> - 1 \<and> t_end t = - 1"

text \<open>A closing bracket: the walk from the last token over the parents to the open one.\<close>

partial_function (option) close_walk ::
    "jsmntype \<Rightarrow> int \<Rightarrow> jsmntok list \<Rightarrow> jsmn_parser \<Rightarrow> (int + jsmn_parser) option" where
  "close_walk type i ts p = do {
     t \<leftarrow> tok_at i ts;
     if tok_open t then
       if t_type t \<noteq> type then Some (Inl JSMN_ERROR_INVAL)
       else do {
         ts \<leftarrow> upd_tok i (\<lambda>t. t\<lparr>t_end := int (j_pos p) + 1\<rparr>) ts;
         Some (Inr (p\<lparr>j_toksuper := t_parent t, j_tokens := Some ts\<rparr>)) }
     else if t_parent t = - 1 then
       Some (if t_type t \<noteq> type \<or> j_toksuper p = - 1 then Inl JSMN_ERROR_INVAL else Inr p)
     else close_walk type (t_parent t) ts p }"

definition jsmn_close :: "char \<Rightarrow> jsmn_parser \<Rightarrow> (int + jsmn_parser) option" where
  "jsmn_close c p = (case j_tokens p of
       None \<Rightarrow> Some (Inr p)
     | Some ts \<Rightarrow> if j_toknext p < 1 then Some (Inl JSMN_ERROR_INVAL)
         else close_walk (if c = CHR ''}'' then JSMN_OBJECT else JSMN_ARRAY) (int (j_toknext p) - 1) ts p)"

text \<open>A value or a key was added: its parent has one more.\<close>

definition jsmn_count :: "jsmn_parser \<Rightarrow> jsmn_parser option" where
  "jsmn_count p = (case j_tokens p of
       Some ts \<Rightarrow> if j_toksuper p = - 1 then Some p else do {
         ts \<leftarrow> upd_tok (j_toksuper p) (\<lambda>t. t\<lparr>t_size := t_size t + 1\<rparr>) ts;
         Some (p\<lparr>j_tokens := Some ts\<rparr>) }
     | None \<Rightarrow> Some p)"

definition jsmn_comma :: "jsmn_parser \<Rightarrow> jsmn_parser option" where
  "jsmn_comma p = (case j_tokens p of
       Some ts \<Rightarrow> if j_toksuper p = - 1 then Some p else do {
         t \<leftarrow> tok_at (j_toksuper p) ts;
         Some (if t_type t \<noteq> JSMN_ARRAY \<and> t_type t \<noteq> JSMN_OBJECT then p\<lparr>j_toksuper := t_parent t\<rparr> else p) }
     | None \<Rightarrow> Some p)"

text \<open>Whether a primitive stands where only a key may stand.\<close>

definition prim_as_key :: "jsmn_parser \<Rightarrow> bool option" where
  "prim_as_key p = (case j_tokens p of
       Some ts \<Rightarrow> if j_toksuper p = - 1 then Some False else do {
         t \<leftarrow> tok_at (j_toksuper p) ts;
         Some (t_type t = JSMN_OBJECT \<or> t_type t = JSMN_STRING \<and> t_size t \<noteq> 0) }
     | None \<Rightarrow> Some False)"

definition prim_start :: "char \<Rightarrow> bool" where
  "prim_start c \<longleftrightarrow> c \<in> set ''-0123456789tfn''"

text \<open>One round of the loop on the character at \<open>pos\<close>; the flag says whether \<open>count\<close> grows.\<close>

definition jsmn_step :: "string \<Rightarrow> jsmn_parser \<Rightarrow> (int + bool \<times> jsmn_parser) option" where
  "jsmn_step js p = (let c = js ! j_pos p; with_flag = (\<lambda>b. map_option (map_sum (\<lambda>e. e) (Pair b))) in
     if c = CHR ''{'' \<or> c = CHR ''['' then with_flag True (jsmn_open c p)
     else if c = CHR ''}'' \<or> c = CHR '']'' then with_flag False (jsmn_close c p)
     else if c = CHR 0x22 then (case jsmn_parse_string js p of
         Inl e \<Rightarrow> Some (Inl e)
       | Inr p \<Rightarrow> with_flag True (map_option Inr (jsmn_count p)))
     else if c \<in> {CHR 0x09, CHR 0x0D, CHR 0x0A, CHR '' ''} then Some (Inr (False, p))
     else if c = CHR '':'' then Some (Inr (False, p\<lparr>j_toksuper := int (j_toknext p) - 1\<rparr>))
     else if c = CHR '','' then with_flag False (map_option Inr (jsmn_comma p))
     else if prim_start c then do {
       key \<leftarrow> prim_as_key p;
       if key then Some (Inl JSMN_ERROR_INVAL)
       else (case jsmn_parse_primitive js p of
         Inl e \<Rightarrow> Some (Inl e)
       | Inr p \<Rightarrow> with_flag True (map_option Inr (jsmn_count p))) }
     else Some (Inl JSMN_ERROR_INVAL))"

partial_function (option) jsmn_loop :: "string \<Rightarrow> int \<Rightarrow> jsmn_parser \<Rightarrow> (int + int \<times> jsmn_parser) option" where
  "jsmn_loop js count p = (if j_pos p < length js \<and> js ! j_pos p \<noteq> CHR 0x00 then do {
       r \<leftarrow> jsmn_step js p;
       case r of
         Inl e \<Rightarrow> Some (Inl e)
       | Inr (b, p) \<Rightarrow> jsmn_loop js (if b then count + 1 else count) (p\<lparr>j_pos := Suc (j_pos p)\<rparr>) }
     else Some (Inr (count, p)))"

declare close_walk.simps [code] jsmn_loop.simps [code]

definition jsmn_parse :: "string \<Rightarrow> jsmn_parser \<Rightarrow> (int \<times> jsmntok list option) option" where
  "jsmn_parse js p = do {
     r \<leftarrow> jsmn_loop js (int (j_toknext p)) p;
     Some (case r of
         Inl e \<Rightarrow> (e, None)
       | Inr (count, p) \<Rightarrow>
           (case j_tokens p of
              None \<Rightarrow> (count, None)
            | Some ts \<Rightarrow> if list_ex tok_open (take (j_toknext p) ts) then (JSMN_ERROR_PART, None)
                else (count, Some ts))) }"

section \<open>The parser context\<close>

record jparse_ctx =
  jp_js :: string
  jp_tokens :: "jsmntok list"
  jp_cur :: int
  jp_num_tokens :: int

definition zero_jctx :: jparse_ctx where
  "zero_jctx = \<lparr>jp_js = [], jp_tokens = [], jp_cur = 0, jp_num_tokens = 0\<rparr>"

text \<open>\<open>OS_FAIL\<close> is -1 and the functions return \<open>-OS_FAIL\<close>.\<close>

definition OS_SUCCESS :: int where "OS_SUCCESS = 0"
definition OS_FAIL :: int where "OS_FAIL = - 1"

definition json_parse_start :: "string \<Rightarrow> 's hap_objs_scheme \<Rightarrow> (int \<times> jparse_ctx \<times> 's hap_objs_scheme) option" where
  "json_parse_start js st = do {
     (num_tokens, _) \<leftarrow> jsmn_parse js (jsmn_init None);
     if num_tokens \<le> 0 then Some (- OS_FAIL, zero_jctx, st)
     else case new_addr st of
         (None, st) \<Rightarrow> Some (- OS_FAIL, zero_jctx\<lparr>jp_num_tokens := num_tokens\<rparr>, st)
       | (Some _, st) \<Rightarrow> do {
           (ret, tokens) \<leftarrow> jsmn_parse js (jsmn_init (Some (replicate (nat num_tokens) zero_tok)));
           case tokens of
             Some ts \<Rightarrow> if ret \<le> 0 then Some (- OS_FAIL, zero_jctx, st)
               else Some (OS_SUCCESS, \<lparr>jp_js = js, jp_tokens = ts, jp_cur = 0, jp_num_tokens = num_tokens\<rparr>, st)
           | None \<Rightarrow> Some (- OS_FAIL, zero_jctx, st) } }"

definition json_parse_end :: "jparse_ctx \<Rightarrow> int \<times> jparse_ctx" where
  "json_parse_end jctx = (OS_SUCCESS, zero_jctx)"

section \<open>Tokens\<close>

definition token_matches_str :: "jparse_ctx \<Rightarrow> jsmntok \<Rightarrow> string \<Rightarrow> bool" where
  "token_matches_str ctx tok str \<longleftrightarrow>
     take (length str) (drop (nat (t_start tok)) (jp_js ctx)) = str \<and> int (length str) = t_end tok - t_start tok"

text \<open>The loop of \<open>json_skip_elem\<close>, with \<open>cnt\<close> rounds to go.\<close>

partial_function (option) json_skip_elems :: "jsmntok list \<Rightarrow> int \<Rightarrow> int \<Rightarrow> int option" where
  "json_skip_elems ts cnt cur = (if cnt = 0 then Some cur else do {
     t \<leftarrow> tok_at (cur + 1) ts;
     cur \<leftarrow> json_skip_elems ts (t_size t) (cur + 1);
     json_skip_elems ts (cnt - 1) cur })"

declare json_skip_elems.simps [code]

definition json_skip_elem :: "jsmntok list \<Rightarrow> int \<Rightarrow> int option" where
  "json_skip_elem ts cur = do { t \<leftarrow> tok_at cur ts; json_skip_elems ts (t_size t) cur }"

text \<open>
  \<open>strtoul\<close> and \<open>strtoull\<close> with base 10 on \<open>w\<close> bits: the value, and how many characters they took. A
  value that does not fit is the largest one.
\<close>

definition is_digit :: "char \<Rightarrow> bool" where
  "is_digit c \<longleftrightarrow> (let n = of_char c :: nat in 48 \<le> n \<and> n \<le> 57)"

definition is_space :: "char \<Rightarrow> bool" where
  "is_space c \<longleftrightarrow> (let n = of_char c :: nat in n = 32 \<or> 9 \<le> n \<and> n \<le> 13)"

definition digits_val :: "string \<Rightarrow> int" where
  "digits_val ds = foldl (\<lambda>v c. 10 * v + (of_char c - 48)) 0 ds"

definition strtou :: "nat \<Rightarrow> string \<Rightarrow> int \<times> nat" where
  "strtou w s = (let ws = length (takeWhile is_space s); s = drop ws s;
     neg = (s \<noteq> [] \<and> s ! 0 = CHR ''-''); sg = (if s \<noteq> [] \<and> (s ! 0 = CHR ''-'' \<or> s ! 0 = CHR ''+'') then 1 else 0);
     ds = takeWhile is_digit (drop sg s); v = digits_val ds in
     if ds = [] then (0, 0)
     else (if v \<ge> 2 ^ w then 2 ^ w - 1 else if neg then (2 ^ w - v) mod 2 ^ w else v, ws + sg + length ds))"

text \<open>The conversions: None when the conversion fails.\<close>

definition json_tok_to_bool :: "jparse_ctx \<Rightarrow> jsmntok \<Rightarrow> bool option" where
  "json_tok_to_bool jctx tok =
     (if token_matches_str jctx tok ''true'' \<or> token_matches_str jctx tok ''1'' then Some True
      else if token_matches_str jctx tok ''false'' \<or> token_matches_str jctx tok ''0'' then Some False
      else None)"

definition tok_text :: "jparse_ctx \<Rightarrow> jsmntok \<Rightarrow> string" where
  "tok_text jctx tok = drop (nat (t_start tok)) (jp_js jctx)"

definition json_tok_to_int :: "jparse_ctx \<Rightarrow> jsmntok \<Rightarrow> int option" where
  "json_tok_to_int jctx tok = (case strtou 32 (tok_text jctx tok) of (v, n) \<Rightarrow>
     if t_start tok + int n = t_end tok then Some (sint (of_int v :: u32)) else None)"

definition json_tok_to_int64 :: "jparse_ctx \<Rightarrow> jsmntok \<Rightarrow> int option" where
  "json_tok_to_int64 jctx tok = (case strtou 64 (tok_text jctx tok) of (v, n) \<Rightarrow>
     if t_start tok + int n = t_end tok then Some (sint (of_int v :: u64)) else None)"

definition json_tok_to_float :: "(string \<Rightarrow> u32 \<times> nat) \<Rightarrow> jparse_ctx \<Rightarrow> jsmntok \<Rightarrow> u32 option" where
  "json_tok_to_float strtof jctx tok = (case strtof (tok_text jctx tok) of (v, n) \<Rightarrow>
     if t_start tok + int n = t_end tok then Some v else None)"

text \<open>What lands in a buffer of \<open>n\<close> characters, without the terminating zero.\<close>

definition json_tok_to_string :: "jparse_ctx \<Rightarrow> jsmntok \<Rightarrow> int \<Rightarrow> string option" where
  "json_tok_to_string jctx tok n = (if t_end tok - t_start tok > n - 1 then None
     else Some (take (nat (t_end tok - t_start tok)) (tok_text jctx tok)))"

section \<open>Objects\<close>

text \<open>The search: \<open>n\<close> keys are left, \<open>tok\<close> is the token before the next one.\<close>

fun obj_search :: "jparse_ctx \<Rightarrow> string \<Rightarrow> nat \<Rightarrow> int \<Rightarrow> int option option" where
  "obj_search jctx k 0 tok = Some None"
| "obj_search jctx k (Suc n) tok = do {
     t \<leftarrow> tok_at (tok + 1) (jp_tokens jctx);
     if token_matches_str jctx t k then Some (Some (tok + 1))
     else do { tok \<leftarrow> json_skip_elem (jp_tokens jctx) (tok + 1); obj_search jctx k n tok } }"

definition json_obj_search :: "jparse_ctx \<Rightarrow> string \<Rightarrow> int option option" where
  "json_obj_search jctx k = do {
     t \<leftarrow> tok_at (jp_cur jctx) (jp_tokens jctx);
     if t_size t \<le> 0 \<or> t_type t \<noteq> JSMN_OBJECT then Some None
     else obj_search jctx k (nat (t_size t)) (jp_cur jctx) }"

definition json_obj_get_val_tok :: "jparse_ctx \<Rightarrow> string \<Rightarrow> jsmntype \<Rightarrow> int option option" where
  "json_obj_get_val_tok jctx name type = do {
     tok \<leftarrow> json_obj_search jctx name;
     case tok of
       None \<Rightarrow> Some None
     | Some i \<Rightarrow> do { t \<leftarrow> tok_at (i + 1) (jp_tokens jctx); Some (if t_type t \<noteq> type then None else Some (i + 1)) } }"

text \<open>A value of an object: None (inside) when the function returns an error.\<close>

definition obj_get :: "(jparse_ctx \<Rightarrow> jsmntok \<Rightarrow> 'a option) \<Rightarrow> jsmntype \<Rightarrow> jparse_ctx \<Rightarrow> string \<Rightarrow> 'a option option" where
  "obj_get conv type jctx name = do {
     i \<leftarrow> json_obj_get_val_tok jctx name type;
     case i of None \<Rightarrow> Some None | Some i \<Rightarrow> map_option (conv jctx) (tok_at i (jp_tokens jctx)) }"

definition json_obj_get_bool :: "jparse_ctx \<Rightarrow> string \<Rightarrow> bool option option" where
  "json_obj_get_bool = obj_get json_tok_to_bool JSMN_PRIMITIVE"

definition json_obj_get_int :: "jparse_ctx \<Rightarrow> string \<Rightarrow> int option option" where
  "json_obj_get_int = obj_get json_tok_to_int JSMN_PRIMITIVE"

definition json_obj_get_int64 :: "jparse_ctx \<Rightarrow> string \<Rightarrow> int option option" where
  "json_obj_get_int64 = obj_get json_tok_to_int64 JSMN_PRIMITIVE"

definition json_obj_get_float :: "(string \<Rightarrow> u32 \<times> nat) \<Rightarrow> jparse_ctx \<Rightarrow> string \<Rightarrow> u32 option option" where
  "json_obj_get_float strtof = obj_get (json_tok_to_float strtof) JSMN_PRIMITIVE"

definition json_obj_get_string :: "jparse_ctx \<Rightarrow> string \<Rightarrow> int \<Rightarrow> string option option" where
  "json_obj_get_string jctx name n = obj_get (\<lambda>jctx tok. json_tok_to_string jctx tok n) JSMN_STRING jctx name"

definition tok_len :: "jparse_ctx \<Rightarrow> jsmntok \<Rightarrow> int option" where
  "tok_len jctx tok = Some (t_end tok - t_start tok)"

definition json_obj_get_strlen :: "jparse_ctx \<Rightarrow> string \<Rightarrow> int option option" where
  "json_obj_get_strlen = obj_get tok_len JSMN_STRING"

definition json_obj_get_object_str :: "jparse_ctx \<Rightarrow> string \<Rightarrow> int \<Rightarrow> string option option" where
  "json_obj_get_object_str jctx name n = obj_get (\<lambda>jctx tok. json_tok_to_string jctx tok n) JSMN_OBJECT jctx name"

definition json_obj_get_object_strlen :: "jparse_ctx \<Rightarrow> string \<Rightarrow> int option option" where
  "json_obj_get_object_strlen = obj_get tok_len JSMN_OBJECT"

definition json_obj_get_array_str :: "jparse_ctx \<Rightarrow> string \<Rightarrow> int \<Rightarrow> string option option" where
  "json_obj_get_array_str jctx name n = obj_get (\<lambda>jctx tok. json_tok_to_string jctx tok n) JSMN_ARRAY jctx name"

definition json_obj_get_array_strlen :: "jparse_ctx \<Rightarrow> string \<Rightarrow> int option option" where
  "json_obj_get_array_strlen = obj_get tok_len JSMN_ARRAY"

text \<open>Entering an array gives the number of its elements.\<close>

definition json_obj_get_array :: "jparse_ctx \<Rightarrow> string \<Rightarrow> (int \<times> jparse_ctx) option option" where
  "json_obj_get_array jctx name = do {
     i \<leftarrow> json_obj_get_val_tok jctx name JSMN_ARRAY;
     case i of None \<Rightarrow> Some None
     | Some i \<Rightarrow> map_option (\<lambda>t. Some (t_size t, jctx\<lparr>jp_cur := i\<rparr>)) (tok_at i (jp_tokens jctx)) }"

definition json_obj_get_object :: "jparse_ctx \<Rightarrow> string \<Rightarrow> (int \<times> jparse_ctx) option" where
  "json_obj_get_object jctx name = do {
     i \<leftarrow> json_obj_get_val_tok jctx name JSMN_OBJECT;
     Some (case i of None \<Rightarrow> (- OS_FAIL, jctx) | Some i \<Rightarrow> (OS_SUCCESS, jctx\<lparr>jp_cur := i\<rparr>)) }"

text \<open>One step to the parent, and the two steps from a named value to its object.\<close>

definition to_parent :: "jparse_ctx \<Rightarrow> (int \<times> jparse_ctx) option" where
  "to_parent jctx = do {
     t \<leftarrow> tok_at (jp_cur jctx) (jp_tokens jctx);
     Some (if t_parent t < 0 then (- OS_FAIL, jctx) else (OS_SUCCESS, jctx\<lparr>jp_cur := t_parent t\<rparr>)) }"

definition to_grandparent :: "jparse_ctx \<Rightarrow> (int \<times> jparse_ctx) option" where
  "to_grandparent jctx = do {
     (r, jctx) \<leftarrow> to_parent jctx;
     if r \<noteq> OS_SUCCESS then Some (r, jctx) else to_parent jctx }"

definition json_obj_leave_array :: "jparse_ctx \<Rightarrow> (int \<times> jparse_ctx) option" where
  "json_obj_leave_array jctx = to_grandparent jctx"

definition json_obj_leave_object :: "jparse_ctx \<Rightarrow> (int \<times> jparse_ctx) option" where
  "json_obj_leave_object jctx = to_grandparent jctx"

section \<open>Arrays\<close>

fun arr_search :: "jparse_ctx \<Rightarrow> nat \<Rightarrow> int \<Rightarrow> int option" where
  "arr_search jctx 0 tok = Some tok"
| "arr_search jctx (Suc n) tok = do { tok \<leftarrow> json_skip_elem (jp_tokens jctx) tok; arr_search jctx n (tok + 1) }"

definition json_arr_search :: "jparse_ctx \<Rightarrow> u32 \<Rightarrow> int option option" where
  "json_arr_search jctx index = do {
     t \<leftarrow> tok_at (jp_cur jctx) (jp_tokens jctx);
     if t_type t \<noteq> JSMN_ARRAY \<or> t_size t \<le> 0 then Some None
     else if index > of_int (t_size t - 1) then Some None
     else map_option Some (arr_search jctx (unat index) (jp_cur jctx + 1)) }"

definition json_arr_get_val_tok :: "jparse_ctx \<Rightarrow> u32 \<Rightarrow> jsmntype \<Rightarrow> int option option" where
  "json_arr_get_val_tok jctx index type = do {
     i \<leftarrow> json_arr_search jctx index;
     case i of None \<Rightarrow> Some None
     | Some i \<Rightarrow> map_option (\<lambda>t. if t_type t \<noteq> type then None else Some i) (tok_at i (jp_tokens jctx)) }"

definition arr_enter :: "jsmntype \<Rightarrow> jparse_ctx \<Rightarrow> u32 \<Rightarrow> (int \<times> jparse_ctx) option" where
  "arr_enter type jctx index = do {
     i \<leftarrow> json_arr_get_val_tok jctx index type;
     Some (case i of None \<Rightarrow> (- OS_FAIL, jctx) | Some i \<Rightarrow> (OS_SUCCESS, jctx\<lparr>jp_cur := i\<rparr>)) }"

definition json_arr_get_array :: "jparse_ctx \<Rightarrow> u32 \<Rightarrow> (int \<times> jparse_ctx) option" where
  "json_arr_get_array = arr_enter JSMN_ARRAY"

definition json_arr_get_object :: "jparse_ctx \<Rightarrow> u32 \<Rightarrow> (int \<times> jparse_ctx) option" where
  "json_arr_get_object = arr_enter JSMN_OBJECT"

definition json_arr_leave_array :: "jparse_ctx \<Rightarrow> (int \<times> jparse_ctx) option" where
  "json_arr_leave_array jctx = to_parent jctx"

definition json_arr_leave_object :: "jparse_ctx \<Rightarrow> (int \<times> jparse_ctx) option" where
  "json_arr_leave_object jctx = to_parent jctx"

definition arr_get :: "(jparse_ctx \<Rightarrow> jsmntok \<Rightarrow> 'a option) \<Rightarrow> jsmntype \<Rightarrow> jparse_ctx \<Rightarrow> u32 \<Rightarrow> 'a option option" where
  "arr_get conv type jctx index = do {
     i \<leftarrow> json_arr_get_val_tok jctx index type;
     case i of None \<Rightarrow> Some None | Some i \<Rightarrow> map_option (conv jctx) (tok_at i (jp_tokens jctx)) }"

definition json_arr_get_bool :: "jparse_ctx \<Rightarrow> u32 \<Rightarrow> bool option option" where
  "json_arr_get_bool = arr_get json_tok_to_bool JSMN_PRIMITIVE"

definition json_arr_get_int :: "jparse_ctx \<Rightarrow> u32 \<Rightarrow> int option option" where
  "json_arr_get_int = arr_get json_tok_to_int JSMN_PRIMITIVE"

definition json_arr_get_int64 :: "jparse_ctx \<Rightarrow> u32 \<Rightarrow> int option option" where
  "json_arr_get_int64 = arr_get json_tok_to_int64 JSMN_PRIMITIVE"

definition json_arr_get_float :: "(string \<Rightarrow> u32 \<times> nat) \<Rightarrow> jparse_ctx \<Rightarrow> u32 \<Rightarrow> u32 option option" where
  "json_arr_get_float strtof = arr_get (json_tok_to_float strtof) JSMN_PRIMITIVE"

definition json_arr_get_string :: "jparse_ctx \<Rightarrow> u32 \<Rightarrow> int \<Rightarrow> string option option" where
  "json_arr_get_string jctx index n = arr_get (\<lambda>jctx tok. json_tok_to_string jctx tok n) JSMN_STRING jctx index"

definition json_arr_get_strlen :: "jparse_ctx \<Rightarrow> u32 \<Rightarrow> int option option" where
  "json_arr_get_strlen = arr_get tok_len JSMN_STRING"

section \<open>The tree of the tokens\<close>

text \<open>
  \<open>P\<close> are the parents of the tokens, -1 for none, and \<open>S\<close> their sizes. Every parent lies on the way
  from the token before up to the root, and a size is the number of children.
\<close>

inductive anc :: "int list \<Rightarrow> int \<Rightarrow> int \<Rightarrow> bool" for P where
  anc_refl: "anc P j j"
| anc_up: "0 \<le> j \<Longrightarrow> anc P (P ! nat j) i \<Longrightarrow> anc P j i"

definition kids :: "int list \<Rightarrow> int \<Rightarrow> nat \<Rightarrow> nat \<Rightarrow> nat" where
  "kids P p lo hi = length (filter (\<lambda>j. P ! j = p) [lo..<hi])"

definition preorder_ok :: "int list \<Rightarrow> bool" where
  "preorder_ok P \<longleftrightarrow> (\<forall>j < length P. - 1 \<le> P ! j \<and> P ! j < int j \<and> anc P (int j - 1) (P ! j))"

definition tree_ok :: "int list \<Rightarrow> int list \<Rightarrow> int \<Rightarrow> bool" where
  "tree_ok P S super \<longleftrightarrow> preorder_ok P \<and> length S = length P \<and>
     (\<forall>i < length P. S ! i = int (kids P (int i) 0 (length P))) \<and> anc P (int (length P) - 1) super"

lemma anc_trans: "anc P j i \<Longrightarrow> anc P i k \<Longrightarrow> anc P j k"
  by (induction rule: anc.induct) (auto intro: anc_up)

lemma anc_parent: "0 \<le> j \<Longrightarrow> anc P j (P ! nat j)"
  by (blast intro: anc_refl anc_up)

lemma anc_step: "anc P j i \<Longrightarrow> j \<noteq> i \<Longrightarrow> 0 \<le> j \<and> anc P (P ! nat j) i"
  by (erule anc.cases) auto

lemma anc_le: "anc P j i \<Longrightarrow> preorder_ok P \<Longrightarrow> j < int (length P) \<Longrightarrow> i \<le> j"
proof (induction rule: anc.induct)
  case (anc_up j i)
  then have "P ! nat j < j" by (auto simp: preorder_ok_def dest!: spec [of _ "nat j"])
  with anc_up show ?case by simp
qed simp

lemma anc_root: "preorder_ok P \<Longrightarrow> - 1 \<le> j \<Longrightarrow> j < int (length P) \<Longrightarrow> anc P j (- 1)"
proof (induction "nat (j + 1)" arbitrary: j rule: less_induct)
  case less
  show ?case
  proof (cases "j = - 1")
    case False
    with less.prems have j: "0 \<le> j" "- 1 \<le> P ! nat j" "P ! nat j < j"
      by (auto simp: preorder_ok_def dest!: spec [of _ "nat j"])
    with less.hyps [of "P ! nat j"] less.prems have "anc P (P ! nat j) (- 1)" by simp
    with j show ?thesis by (blast intro: anc_up)
  qed (simp add: anc_refl)
qed

lemma anc_linear: "anc P j i \<Longrightarrow> anc P j k \<Longrightarrow> anc P i k \<or> anc P k i"
proof (induction rule: anc.induct)
  case (anc_up j i)
  then show ?case by (metis anc_step anc.anc_up)
qed simp

lemma anc_antisym: "anc P j i \<Longrightarrow> anc P i j \<Longrightarrow> preorder_ok P \<Longrightarrow> j < int (length P) \<Longrightarrow> i = j"
  by (metis anc_le order_antisym order_le_less_trans)

lemma parent_less: "preorder_ok P \<Longrightarrow> 0 \<le> j \<Longrightarrow> j < int (length P) \<Longrightarrow> - 1 \<le> P ! nat j \<and> P ! nat j < j"
  by (auto simp: preorder_ok_def dest!: spec [of _ "nat j"])

lemma anc_ge: "anc P j i \<Longrightarrow> preorder_ok P \<Longrightarrow> - 1 \<le> j \<Longrightarrow> j < int (length P) \<Longrightarrow> - 1 \<le> i"
proof (induction rule: anc.induct)
  case (anc_up j i)
  with parent_less [of P j] show ?case by simp
qed simp

lemma anc_append1: "anc (P @ Q) j i \<Longrightarrow> preorder_ok P \<Longrightarrow> j < int (length P) \<Longrightarrow> anc P j i"
proof (induction rule: anc.induct)
  case (anc_up j i)
  then have j: "P ! nat j < j" "(P @ Q) ! nat j = P ! nat j" using parent_less [of P j] by (auto simp: nth_append)
  with anc_up have "anc P (P ! nat j) i" by simp
  with anc_up.hyps(1) show ?case by (rule anc.anc_up)
qed (rule anc_refl)

lemma anc_append2: "anc P j i \<Longrightarrow> preorder_ok P \<Longrightarrow> j < int (length P) \<Longrightarrow> anc (P @ Q) j i"
proof (induction rule: anc.induct)
  case (anc_up j i)
  then have j: "P ! nat j < j" "(P @ Q) ! nat j = P ! nat j" using parent_less [of P j] by (auto simp: nth_append)
  with anc_up have "anc (P @ Q) ((P @ Q) ! nat j) i" by simp
  with anc_up.hyps(1) show ?case by (rule anc.anc_up)
qed (rule anc_refl)

lemma super_range: "tree_ok P S super \<Longrightarrow> - 1 \<le> super \<and> super < int (length P)"
  using anc_le [of P "int (length P) - 1" super] anc_ge [of P "int (length P) - 1" super] by (auto simp: tree_ok_def)

lemma kids_append:
  "kids (P @ [s]) p 0 (Suc (length P)) = kids P p 0 (length P) + (if s = p then 1 else 0)"
proof -
  have "filter (\<lambda>j. (P @ [s]) ! j = p) [0..<length P] = filter (\<lambda>j. P ! j = p) [0..<length P]"
    by (rule filter_cong) (auto simp: nth_append)
  then show ?thesis by (simp add: kids_def)
qed

lemma kids_none: "(\<And>j. lo \<le> j \<Longrightarrow> j < hi \<Longrightarrow> P ! j \<noteq> p) \<Longrightarrow> kids P p lo hi = 0"
  by (simp add: kids_def)

lemma kids_split: "lo \<le> m \<Longrightarrow> m \<le> hi \<Longrightarrow> kids P p lo hi = kids P p lo m + kids P p m hi"
  using upt_add_eq_append [of lo m "hi - m"] by (simp add: kids_def)

lemma kids_Suc: "lo < hi \<Longrightarrow> kids P p lo hi = (if P ! lo = p then 1 else 0) + kids P p (Suc lo) hi"
  by (simp add: kids_def upt_conv_Cons)

lemma tree_push:
  assumes t: "tree_ok P S s"
  shows "tree_ok (P @ [s]) ((if s = - 1 then S else S[nat s := S ! nat s + 1]) @ [0]) s"
proof -
  have p: "preorder_ok P" and l: "length S = length P" and a: "anc P (int (length P) - 1) s" and r: "- 1 \<le> s" "s < int (length P)"
    using t super_range [OF t] by (auto simp: tree_ok_def)
  have a': "anc (P @ [s]) (int (length P) - 1) s" using a p by (rule anc_append2) simp
  have "preorder_ok (P @ [s])"
    unfolding preorder_ok_def
  proof (intro allI impI)
    fix j assume "j < length (P @ [s])"
    then consider "j < length P" | "j = length P" by fastforce
    then show "- 1 \<le> (P @ [s]) ! j \<and> (P @ [s]) ! j < int j \<and> anc (P @ [s]) (int j - 1) ((P @ [s]) ! j)"
    proof cases
      case 1
      with p have "anc P (int j - 1) (P ! j)" by (simp add: preorder_ok_def)
      with 1 p show ?thesis using anc_append2 [of P "int j - 1" "P ! j" "[s]"] by (auto simp: preorder_ok_def nth_append)
    next
      case 2
      with a' r show ?thesis by (simp add: nth_append)
    qed
  qed
  moreover have "anc (P @ [s]) (int (length (P @ [s])) - 1) s"
    using anc_parent [of "int (length P)" "P @ [s]"] by (simp add: nth_append)
  moreover have "((if s = - 1 then S else S[nat s := S ! nat s + 1]) @ [0]) ! i = int (kids (P @ [s]) (int i) 0 (length (P @ [s])))"
    if i: "i < length (P @ [s])" for i
  proof (cases "i = length P")
    case True
    have "kids P (int i) 0 (length P) = 0"
      by (rule kids_none) (use p True in \<open>auto simp: preorder_ok_def\<close>)
    with True l r show ?thesis by (simp add: kids_append nth_append)
  next
    case False
    with i have "i < length P" "S ! i = int (kids P (int i) 0 (length P))" using t by (auto simp: tree_ok_def)
    with l r show ?thesis by (cases "i = nat s") (auto simp: kids_append nth_append nth_list_update)
  qed
  ultimately show ?thesis using l by (simp add: tree_ok_def)
qed

lemma tree_up: "tree_ok P S i \<Longrightarrow> 0 \<le> i \<Longrightarrow> tree_ok P S (P ! nat i)"
  by (auto simp: tree_ok_def intro: anc_trans anc_parent)

lemma tree_last: "tree_ok P S i \<Longrightarrow> tree_ok P S (int (length P) - 1)"
  by (simp add: tree_ok_def anc_refl)

text \<open>The descendants of a token are the tokens after it up to some place.\<close>

lemma anc_before:
  assumes "preorder_ok P" "anc P (int j) i" "i < int j" "j < length P"
  shows "anc P (int j - 1) i"
proof -
  have "anc P (P ! j) i" using anc_step [OF assms(2)] assms(3) by simp
  moreover have "anc P (int j - 1) (P ! j)" using assms(1,4) by (simp add: preorder_ok_def)
  ultimately show ?thesis by (rule anc_trans [rotated])
qed

definition subtree :: "int list \<Rightarrow> int \<Rightarrow> nat \<Rightarrow> bool" where
  "subtree P i m \<longleftrightarrow> i < int m \<and> m \<le> length P \<and> (\<forall>j < length P. i \<le> int j \<longrightarrow> (j < m \<longleftrightarrow> anc P (int j) i))"

lemma subtree_exists:
  assumes "preorder_ok P" "- 1 \<le> i" "i < int (length P)"
  shows "\<exists>m. subtree P i m"
proof -
  define A where "A j \<longleftrightarrow> i \<le> int j \<and> (j < length P \<longrightarrow> \<not> anc P (int j) i)" for j
  have "A (length P)" using assms by (simp add: A_def)
  then obtain m where m: "A m" "\<And>j. j < m \<Longrightarrow> \<not> A j" "m \<le> length P"
    using exists_least_iff [of A] by (metis not_less)
  have "i \<noteq> int m"
  proof
    assume "i = int m"
    with m(1) assms have "\<not> anc P i i" by (simp add: A_def)
    then show False by (simp add: anc_refl)
  qed
  with m(1) have im: "i < int m" by (simp add: A_def)
  have no: "\<not> anc P (int j) i" if "m \<le> j" "j < length P" for j
    using that
  proof (induction j rule: dec_induct)
    case base
    with m(1) show ?case by (simp add: A_def)
  next
    case (step j)
    with anc_before [OF assms(1), of "Suc j" i] im show ?case by auto
  qed
  have "\<forall>j < length P. i \<le> int j \<longrightarrow> (j < m \<longleftrightarrow> anc P (int j) i)"
    using m(2) no unfolding A_def by (metis not_less)
  with im m(3) show ?thesis unfolding subtree_def by blast
qed

text \<open>The children of a token are in its subtree, the first right behind it.\<close>

lemma subtree_kids:
  assumes pre: "preorder_ok P" and m: "subtree P (int c) m"
  shows "kids P (int c) 0 (length P) = kids P (int c) (Suc c) m" "Suc c < m \<Longrightarrow> P ! Suc c = int c"
proof -
  have cm: "c < m" "m \<le> length P" using m by (auto simp: subtree_def)
  have desc: "anc P (int j) (int c) \<longleftrightarrow> j < m" if "c \<le> j" "j < length P" for j
    using m that by (auto simp: subtree_def)
  have "kids P (int c) 0 (Suc c) = 0"
  proof (rule kids_none)
    fix j assume "j < Suc c"
    with pre cm have "P ! j < int j" by (simp add: preorder_ok_def)
    with \<open>j < Suc c\<close> show "P ! j \<noteq> int c" by simp
  qed
  moreover have "kids P (int c) m (length P) = 0"
  proof (rule kids_none)
    fix j assume j: "m \<le> j" "j < length P"
    with desc [of j] cm have "\<not> anc P (int j) (int c)" by simp
    then show "P ! j \<noteq> int c" using anc_parent [of "int j" P] by auto
  qed
  ultimately show "kids P (int c) 0 (length P) = kids P (int c) (Suc c) m"
    using cm kids_split [of 0 "Suc c" "length P" P "int c"] kids_split [of "Suc c" m "length P" P "int c"] by simp
  assume sm: "Suc c < m"
  have l: "Suc c < length P" using sm cm by simp
  then have x: "anc P (int c) (P ! Suc c)" "P ! Suc c < int (Suc c)"
    using pre by (auto simp: preorder_ok_def dest!: spec [of _ "Suc c"])
  have "anc P (int (Suc c)) (int c)" using desc [of "Suc c"] sm l by simp
  then have "anc P (P ! Suc c) (int c)" using anc_step [of P "int (Suc c)" "int c"] by (simp del: of_nat_Suc)
  with x anc_antisym [of P "int c" "P ! Suc c"] pre cm show "P ! Suc c = int c" by simp
qed

text \<open>The first of the children from \<open>lo\<close> on has its subtree up to \<open>m\<close>, where the next one is.\<close>

lemma child_step:
  assumes pre: "preorder_ok P" and "subtree P p hi" "- 1 \<le> p" "p < int lo" and lh: "lo < hi" "P ! lo = p"
  shows "\<exists>m. subtree P (int lo) m \<and> lo < m \<and> m \<le> hi \<and> (m < hi \<longrightarrow> P ! m = p) \<and> kids P p lo hi = Suc (kids P p m hi) \<and>
    kids P (int lo) 0 (length P) = kids P (int lo) (Suc lo) m \<and> (Suc lo < m \<longrightarrow> P ! Suc lo = int lo)"
proof -
  have hl: "hi \<le> length P" using assms(2) by (simp add: subtree_def)
  note lh = lh hl
  obtain m where m: "subtree P (int lo) m" using subtree_exists [OF pre, of "int lo"] lh by auto
  have desc_p: "anc P (int j) p" if "lo \<le> j" "j < hi" for j
    using assms(2,4) that lh by (auto simp: subtree_def dest!: spec [of _ j])
  have desc_lo: "anc P (int j) (int lo) \<longleftrightarrow> j < m" if "lo \<le> j" "j < length P" for j
    using m that by (auto simp: subtree_def)
  have m_le: "lo < m" "m \<le> hi"
  proof -
    show "lo < m" using m by (simp add: subtree_def)
    show "m \<le> hi"
    proof (rule ccontr)
      assume h: "\<not> m \<le> hi"
      with m have hl: "hi < length P" by (simp add: subtree_def)
      with desc_lo [of hi] h lh have "anc P (int hi) (int lo)" by simp
      then have "anc P (int hi) p" by (rule anc_trans) (use anc_parent [of "int lo" P] lh in simp)
      with hl assms(2,4) lh show False by (auto simp: subtree_def dest!: spec [of _ hi])
    qed
  qed
  have next_p: "P ! m = p" if mh: "m < hi"
  proof -
    have mp: "anc P (int m - 1) (P ! m)" "P ! m < int m" using pre mh lh by (auto simp: preorder_ok_def)
    have "anc P (int m) p" using desc_p m_le mh by simp
    then have pp: "anc P (P ! m) p" using anc_step [of P "int m" p] assms(4) m_le by simp
    have "anc P (int m - 1) (int lo)" using desc_lo [of "m - 1"] m_le mh lh by (simp add: of_nat_diff)
    with mp anc_linear consider "anc P (P ! m) (int lo)" | "anc P (int lo) (P ! m)" by blast
    then show ?thesis
    proof cases
      case 1
      then have "anc P (int m) (int lo)" using anc_up [of "int m" P "int lo"] by simp
      with desc_lo [of m] m_le mh lh show ?thesis by simp
    next
      case 2
      have "P ! m \<noteq> int lo"
      proof
        assume "P ! m = int lo"
        then have "anc P (int m) (int lo)" using anc_parent [of "int m" P] by simp
        with desc_lo [of m] m_le mh lh show False by simp
      qed
      with 2 anc_step [of P "int lo" "P ! m"] lh have "anc P p (P ! m)" by simp
      with pp anc_antisym [of P p "P ! m"] pre lh assms(4) show ?thesis by simp
    qed
  qed
  have split: "kids P p lo hi = Suc (kids P p m hi)"
  proof -
    have "kids P p (Suc lo) m = 0"
    proof (rule kids_none)
      fix j assume j: "Suc lo \<le> j" "j < m"
      show "P ! j \<noteq> p"
      proof
        assume "P ! j = p"
        with j m_le lh desc_lo [of j] anc_step [of P "int j" "int lo"] have "anc P p (int lo)" by simp
        with anc_le [of P p "int lo"] pre assms(4) lh show False by simp
      qed
    qed
    with m_le lh kids_split [of "Suc lo" m hi P p] show ?thesis by (simp add: kids_Suc)
  qed
  show ?thesis using m m_le next_p split subtree_kids [OF pre m] by blast
qed

text \<open>A walk over the children from \<open>lo\<close> on, with their subtrees, ends before \<open>hi\<close>.\<close>

lemma json_skip_elems_tree:
  assumes "preorder_ok P" "map t_parent ts = P" "\<forall>i < length P. t_size (ts ! i) = int (kids P (int i) 0 (length P))"
    and "subtree P p hi" "- 1 \<le> p" "p < int lo" "lo \<le> hi" "lo < hi \<Longrightarrow> P ! lo = p"
  shows "json_skip_elems ts (int (kids P p lo hi)) (int lo - 1) = Some (int hi - 1)"
  using assms
proof (induction "hi - lo" arbitrary: lo hi p rule: less_induct)
  case less
  have len: "length ts = length P" using less.prems(2) by auto
  show ?case
  proof (cases "lo = hi")
    case True
    then show ?thesis by (simp add: json_skip_elems.simps kids_def)
  next
    case False
    with less.prems(4,7,8) have lh: "lo < hi" "hi \<le> length P" "P ! lo = p" by (simp_all add: subtree_def)
    obtain m where m: "subtree P (int lo) m" "lo < m" "m \<le> hi" "m < hi \<longrightarrow> P ! m = p" "kids P p lo hi = Suc (kids P p m hi)"
      "kids P (int lo) 0 (length P) = kids P (int lo) (Suc lo) m" "Suc lo < m \<longrightarrow> P ! Suc lo = int lo"
      using child_step [OF less.prems(1,4,5,6) lh(1,3)] by blast
    have 1: "json_skip_elems ts (t_size (ts ! lo)) (int lo) = Some (int m - 1)"
      using less.hyps [of m "Suc lo" "int lo"] less.prems(1-3) m lh by simp
    have 2: "json_skip_elems ts (int (kids P p m hi)) (int m - 1) = Some (int hi - 1)"
      using less.hyps [of hi m p] less.prems m lh by simp
    show ?thesis
      using 1 2 lh len by (subst json_skip_elems.simps) (simp add: m(5) tok_at_def rd_def)
  qed
qed

section \<open>The tokenizer is safe\<close>

text \<open>A token of the text before \<open>pos\<close>; an array or object that is open has no end yet.\<close>

definition span_ok :: "nat \<Rightarrow> jsmntok \<Rightarrow> bool" where
  "span_ok pos t \<longleftrightarrow> 0 \<le> t_start t \<and> t_start t \<le> int pos \<and> (t_end t = - 1 \<or> t_start t \<le> t_end t \<and> t_end t \<le> int pos)"

definition jsmn_ok :: "nat \<Rightarrow> jsmn_parser \<Rightarrow> bool" where
  "jsmn_ok pos p \<longleftrightarrow> (\<exists>ts. j_tokens p = Some ts \<and> j_toknext p \<le> length ts \<and>
     tree_ok (map t_parent (take (j_toknext p) ts)) (map t_size (take (j_toknext p) ts)) (j_toksuper p) \<and>
     (\<forall>t \<in> set (take (j_toknext p) ts). span_ok pos t))"

lemma span_ok_mono: "span_ok pos t \<Longrightarrow> pos \<le> pos' \<Longrightarrow> span_ok pos' t"
  by (auto simp: span_ok_def)

lemma jsmn_ok_mono: "jsmn_ok pos p \<Longrightarrow> pos \<le> pos' \<Longrightarrow> jsmn_ok pos' p"
  by (auto simp: jsmn_ok_def intro: span_ok_mono)

lemma jsmn_ok_pos [simp]: "jsmn_ok pos (p\<lparr>j_pos := q\<rparr>) = jsmn_ok pos p"
  by (simp add: jsmn_ok_def)

lemma tok_at_Some: "0 \<le> i \<Longrightarrow> i < int (length ts) \<Longrightarrow> tok_at i ts = Some (ts ! nat i)"
  by (simp add: tok_at_def rd_def)

lemma upd_tok_Some: "0 \<le> i \<Longrightarrow> i < int (length ts) \<Longrightarrow> upd_tok i f ts = Some (ts[nat i := f (ts ! nat i)])"
  by (simp add: upd_tok_def tok_at_Some)

lemma jsmn_super_range: "jsmn_ok pos p \<Longrightarrow> - 1 \<le> j_toksuper p \<and> j_toksuper p < int (j_toknext p)"
  by (auto simp: jsmn_ok_def dest!: super_range)

text \<open>A new token, a child of \<open>toksuper\<close>, whose size is counted there.\<close>

definition counted :: "int \<Rightarrow> jsmntok list \<Rightarrow> jsmntok list" where
  "counted s ts = (if s = - 1 then ts else ts[nat s := (ts ! nat s)\<lparr>t_size := t_size (ts ! nat s) + 1\<rparr>])"

lemma counted_parents [simp]: "map t_parent (counted s ts) = map t_parent ts"
  by (cases "nat s < length ts") (simp_all add: counted_def map_update list_update_beyond list_update_same_conv)

lemma counted_sizes: "s < int (length ts) \<Longrightarrow> - 1 \<le> s \<Longrightarrow>
  map t_size (counted s ts) = (if s = - 1 then map t_size ts else (map t_size ts)[nat s := map t_size ts ! nat s + 1])"
  by (auto simp: counted_def map_update)

lemma span_ok_size [simp]: "span_ok pos (t\<lparr>t_size := n\<rparr>) = span_ok pos t"
  by (simp add: span_ok_def)

lemma counted_span:
  assumes "\<forall>t \<in> set ts. span_ok pos t" "s < int (length ts)" "- 1 \<le> s"
  shows "\<forall>t \<in> set (counted s ts). span_ok pos t"
proof
  fix t assume "t \<in> set (counted s ts)"
  then consider "t \<in> set ts" | "s \<noteq> - 1" "t = (ts ! nat s)\<lparr>t_size := t_size (ts ! nat s) + 1\<rparr>"
    by (auto simp: counted_def split: if_splits dest: subsetD [OF set_update_subset_insert])
  then show "span_ok pos t" using assms by cases auto
qed

lemma jsmn_ok_push:
  assumes ok: "jsmn_ok pos p" "j_tokens p = Some ts" "j_toknext p < length ts"
    and t: "t_parent t = j_toksuper p" "t_size t = 0" "span_ok pos t"
    and p': "j_tokens p' = Some (counted (j_toksuper p) (take (j_toknext p) ts) @ t # drop (Suc (j_toknext p)) ts)"
      "j_toknext p' = Suc (j_toknext p)" "j_toksuper p' = j_toksuper p \<or> j_toksuper p' = int (j_toknext p)"
  shows "jsmn_ok pos p'"
proof -
  let ?n = "j_toknext p" and ?s = "j_toksuper p"
  let ?c = "counted ?s (take ?n ts)"
  have s: "- 1 \<le> ?s" "?s < int ?n" using jsmn_super_range [OF ok(1)] by auto
  have l: "length ?c = ?n" using ok(3) by (simp add: counted_def)
  then have tk: "take (Suc ?n) (?c @ t # drop (Suc ?n) ts) = ?c @ [t]" by simp
  have 0: "tree_ok (map t_parent (take ?n ts)) (map t_size (take ?n ts)) ?s" "\<forall>t \<in> set (take ?n ts). span_ok pos t"
    using ok by (auto simp: jsmn_ok_def)
  have "tree_ok (map t_parent (?c @ [t])) (map t_size (?c @ [t])) ?s"
    using tree_push [OF 0(1)] s t ok(3) by (simp add: counted_sizes)
  then have "tree_ok (map t_parent (?c @ [t])) (map t_size (?c @ [t])) (j_toksuper p')"
    using p'(3) tree_last [of "map t_parent (?c @ [t])" "map t_size (?c @ [t])" ?s] l
    by (elim disjE) (simp_all del: counted_parents)
  moreover have "\<forall>x \<in> set (?c @ [t]). span_ok pos x"
    using counted_span [OF 0(2), of ?s] s ok(3) t(3) by auto
  ultimately show ?thesis using l tk ok(3) by (simp add: jsmn_ok_def p'(1,2))
qed

lemma prim_scan_range: "case prim_scan js pos of Inl e \<Rightarrow> e < 0 | Inr q \<Rightarrow> pos \<le> q \<and> q < length js \<and> prim_end (js ! q)"
proof (induction js pos rule: prim_scan.induct)
  case (1 js pos)
  let ?r = "prim_scan js (Suc pos)"
  show ?case
    by (subst prim_scan.simps) (use 1 in \<open>cases ?r; auto simp: JSMN_ERROR_INVAL_def JSMN_ERROR_PART_def\<close>)
qed

lemma prim_scan_bound: "prim_scan js pos = Inr q \<Longrightarrow> pos \<le> q \<and> q < length js \<and> prim_end (js ! q)"
  using prim_scan_range [where js = js and pos = pos] by simp

lemmas jsmn_errors = JSMN_ERROR_INVAL_def JSMN_ERROR_PART_def JSMN_ERROR_NOMEM_def

lemma str_scan_range: "case str_scan js pos of Inl e \<Rightarrow> e < 0 | Inr q \<Rightarrow> pos \<le> q \<and> q < length js"
proof (induction js pos rule: str_scan.induct)
  case (1 js pos)
  note IH = 1
  let ?esc = "js ! (pos + 1) \<in> {CHR 0x22, CHR ''/'', CHR 0x5C, CHR ''b'', CHR ''f'', CHR ''r'', CHR ''n'', CHR ''t''}"
  let ?R = "\<lambda>p r. case r of Inl e \<Rightarrow> e < (0 :: int) | Inr q \<Rightarrow> p \<le> q \<and> q < length js"
  have mono: "?R p' r \<Longrightarrow> p \<le> p' \<Longrightarrow> ?R p r" for p p' r by (auto split: sum.splits)
  show ?case
  proof (cases "pos < length js \<and> js ! pos \<noteq> CHR 0x00 \<and> js ! pos \<noteq> CHR 0x22")
    case False
    then show ?thesis by (subst str_scan.simps) (auto simp: jsmn_errors)
  next
    case c: True
    then have c': "pos < length js \<and> js ! pos \<noteq> CHR 0x00" "js ! pos \<noteq> CHR 0x22" by auto
    show ?thesis
    proof (cases "js ! pos = CHR 0x5C \<and> pos + 1 < length js")
      case False
      with c have "str_scan js pos = str_scan js (Suc pos)" by (subst str_scan.simps) auto
      with IH(3) [OF c' False] mono [of "Suc pos" _ pos] show ?thesis by simp
    next
      case bs: True
      show ?thesis
      proof (cases ?esc)
        case True
        with c bs have "str_scan js pos = str_scan js (pos + 2)" by (subst str_scan.simps) (simp add: Let_def)
        with IH(1) [OF c' bs refl True] mono [of "pos + 2" _ pos] show ?thesis by simp
      next
        case False
        show ?thesis
        proof (cases "js ! (pos + 1) = CHR ''u'' \<and> hex_scan js (pos + 2) 4 \<noteq> None")
          case True
          then obtain r where r: "hex_scan js (pos + 2) 4 = Some r" by blast
          with c bs False True have "str_scan js pos = str_scan js r" by (subst str_scan.simps) (simp add: Let_def)
          with IH(2) [OF c' bs refl False _ r] True hex_scan_ge [OF r] mono [of r _ pos] show ?thesis by simp
        next
          case no: False
          with c bs False have "str_scan js pos = Inl JSMN_ERROR_INVAL"
            by (subst str_scan.simps) (auto simp: Let_def split: option.splits)
          then show ?thesis by (simp add: jsmn_errors)
        qed
      qed
    qed
  qed
qed

lemma str_scan_bound: "str_scan js pos = Inr q \<Longrightarrow> pos \<le> q \<and> q < length js"
  using str_scan_range [where js = js and pos = pos] by simp

lemma jsmn_add_token_eq:
  assumes "j_tokens p = Some ts"
  shows "jsmn_add_token type start end_pos p = (if j_toknext p < length ts
    then Some (p\<lparr>j_toknext := Suc (j_toknext p), j_tokens := Some (ts[j_toknext p :=
      \<lparr>t_type = type, t_start = int start, t_end = int end_pos, t_size = 0, t_parent = j_toksuper p\<rparr>])\<rparr>) else None)"
  using assms by (cases "ts ! j_toknext p") (simp add: jsmn_add_token_def jsmn_alloc_token_def jsmn_fill_token_def Let_def)

lemma upd_between: "n \<noteq> m \<Longrightarrow> ts[n := a, m := x, n := b] = ts[n := b, m := x]"
  by (simp add: list_update_swap [of n m])

lemma pushed_eq:
  assumes "n < length ts" "s < int n" "- 1 \<le> s"
  shows "counted s (take n ts) @ t # drop (Suc n) ts = (if s = - 1 then ts[n := t]
    else ts[n := t, nat s := (ts ! nat s)\<lparr>t_size := t_size (ts ! nat s) + 1\<rparr>])"
  using assms by (auto simp: counted_def upd_conv_take_nth_drop [of n] list_update_append)

text \<open>A string or a primitive: a token and its count.\<close>

lemma add_count_ok:
  assumes ok: "jsmn_ok pos p" "j_tokens p = Some ts" "j_toknext p < length ts" "start \<le> end_pos" "end_pos \<le> pos"
    "jsmn_add_token type start end_pos p = Some p1"
  shows "\<exists>ts'. jsmn_count (p1\<lparr>j_pos := q\<rparr>) =
      Some (p\<lparr>j_pos := q, j_toknext := Suc (j_toknext p), j_tokens := Some ts'\<rparr>) \<and> length ts' = length ts \<and>
      jsmn_ok pos (p\<lparr>j_pos := q, j_toknext := Suc (j_toknext p), j_tokens := Some ts'\<rparr>)"
proof -
  let ?n = "j_toknext p" and ?s = "j_toksuper p"
  let ?t = "\<lparr>t_type = type, t_start = int start, t_end = int end_pos, t_size = 0, t_parent = ?s\<rparr>"
  let ?ts = "counted ?s (take ?n ts) @ ?t # drop (Suc ?n) ts"
  have s: "- 1 \<le> ?s" "?s < int ?n" using jsmn_super_range [OF ok(1)] by auto
  have p1: "p1 = p\<lparr>j_toknext := Suc ?n, j_tokens := Some (ts[?n := ?t])\<rparr>"
    using ok by (simp add: jsmn_add_token_eq)
  have "jsmn_count (p1\<lparr>j_pos := q\<rparr>) = Some (p\<lparr>j_pos := q, j_toknext := Suc ?n, j_tokens := Some ?ts\<rparr>)"
    unfolding pushed_eq [OF ok(3) s(2,1)] using s ok(3) by (auto simp: p1 jsmn_count_def upd_tok_Some)
  moreover have "jsmn_ok pos (p\<lparr>j_pos := q, j_toknext := Suc ?n, j_tokens := Some ?ts\<rparr>)"
    by (rule jsmn_ok_push [OF ok(1-3), of ?t]) (use ok in \<open>auto simp: span_ok_def\<close>)
  moreover have "length ?ts = length ts" using ok(3) by (simp add: counted_def)
  ultimately show ?thesis by blast
qed

text \<open>An opening and a closing bracket.\<close>

lemma jsmn_open_ok:
  assumes ok: "jsmn_ok pos p" "j_tokens p = Some ts" "j_toknext p < length ts" "j_pos p \<le> pos"
  shows "jsmn_open c p = Some (Inl JSMN_ERROR_INVAL) \<or>
    (\<exists>p' ts'. jsmn_open c p = Some (Inr p') \<and> jsmn_ok pos p' \<and> j_pos p' = j_pos p \<and>
       j_toknext p' = Suc (j_toknext p) \<and> j_tokens p' = Some ts' \<and> length ts' = length ts)"
proof -
  let ?n = "j_toknext p" and ?s = "j_toksuper p"
  let ?t = "\<lparr>t_type = if c = CHR ''{'' then JSMN_OBJECT else JSMN_ARRAY, t_start = int (j_pos p), t_end = - 1,
    t_size = 0, t_parent = ?s\<rparr>"
  let ?ts = "counted ?s (take ?n ts) @ ?t # drop (Suc ?n) ts"
  let ?p = "p\<lparr>j_toknext := Suc ?n, j_toksuper := int ?n, j_tokens := Some ?ts\<rparr>"
  have s: "- 1 \<le> ?s" "?s < int ?n" using jsmn_super_range [OF ok(1)] by auto
  have "jsmn_open c p = Some (Inl JSMN_ERROR_INVAL) \<or> jsmn_open c p = Some (Inr ?p)"
    unfolding pushed_eq [OF ok(3) s(2,1)] using s ok(2,3)
    by (cases "ts ! ?n") (auto simp: jsmn_open_def jsmn_alloc_token_def Let_def tok_at_Some upd_tok_Some nth_list_update upd_between)
  moreover have "jsmn_ok pos ?p"
    by (rule jsmn_ok_push [OF ok(1-3), of ?t]) (use ok(4) in \<open>auto simp: span_ok_def\<close>)
  moreover have "length ?ts = length ts" using ok(3) by (simp add: counted_def)
  ultimately show ?thesis by auto
qed

lemma close_walk_ok:
  assumes "jsmn_ok (j_pos p) p" "j_tokens p = Some ts" "tree_ok (map t_parent (take (j_toknext p) ts)) (map t_size (take (j_toknext p) ts)) i"
    and "0 \<le> i"
  shows "close_walk type i ts p = Some (Inl JSMN_ERROR_INVAL) \<or>
    (\<exists>p' ts'. close_walk type i ts p = Some (Inr p') \<and> jsmn_ok (Suc (j_pos p)) p' \<and> j_pos p' = j_pos p \<and>
       j_toknext p' = j_toknext p \<and> j_tokens p' = Some ts' \<and> length ts' = length ts)"
  using assms(3,4)
proof (induction "nat i" arbitrary: i rule: less_induct)
  case less
  let ?n = "j_toknext p"
  have n: "?n \<le> length ts" using assms(1,2) by (auto simp: jsmn_ok_def)
  with super_range [OF less.prems(1)] less.prems(2) have i: "i < int ?n" "nat i < ?n" "i < int (length ts)" by auto
  have at: "tok_at i ts = Some (ts ! nat i)" using i less.prems(2) by (simp add: tok_at_Some)
  have par: "map t_parent (take ?n ts) ! nat i = t_parent (ts ! nat i)" using i n by simp
  have up: "tree_ok (map t_parent (take ?n ts)) (map t_size (take ?n ts)) (t_parent (ts ! nat i))"
    using tree_up [OF less.prems(1)] less.prems(2) par by simp
  have less_i: "t_parent (ts ! nat i) < i" "- 1 \<le> t_parent (ts ! nat i)"
    using parent_less [of "map t_parent (take ?n ts)" i] less.prems i n par by (auto simp: tree_ok_def)
  consider "tok_open (ts ! nat i)" "t_type (ts ! nat i) = type" | "tok_open (ts ! nat i)" "t_type (ts ! nat i) \<noteq> type"
    | "\<not> tok_open (ts ! nat i)" "t_parent (ts ! nat i) = - 1" | "\<not> tok_open (ts ! nat i)" "t_parent (ts ! nat i) \<noteq> - 1"
    by blast
  then show ?case
  proof cases
    case 1
    let ?ts = "ts[nat i := (ts ! nat i)\<lparr>t_end := int (j_pos p) + 1\<rparr>]"
    let ?p = "p\<lparr>j_toksuper := t_parent (ts ! nat i), j_tokens := Some ?ts\<rparr>"
    have "map t_parent (take ?n ?ts) = map t_parent (take ?n ts)" "map t_size (take ?n ?ts) = map t_size (take ?n ts)"
      using i n by (simp_all add: take_update_swap map_update list_update_same_conv)
    moreover have "\<forall>t \<in> set (take ?n ?ts). span_ok (Suc (j_pos p)) t"
    proof
      fix t assume "t \<in> set (take ?n ?ts)"
      then have "t = (ts ! nat i)\<lparr>t_end := int (j_pos p) + 1\<rparr> \<or> t \<in> set (take ?n ts)"
        by (auto simp: take_update_swap dest: subsetD [OF set_update_subset_insert])
      moreover have old: "\<forall>t \<in> set (take ?n ts). span_ok (j_pos p) t" using assms(1,2) by (auto simp: jsmn_ok_def)
      moreover have "ts ! nat i \<in> set (take ?n ts)" using i n by (auto simp: in_set_conv_nth)
      ultimately show "span_ok (Suc (j_pos p)) t" by (auto simp: span_ok_def)
    qed
    ultimately have "jsmn_ok (Suc (j_pos p)) ?p" using up n by (simp add: jsmn_ok_def)
    with 1 at i less.prems(2) have "close_walk type i ts p = Some (Inr ?p)"
      by (subst close_walk.simps) (simp add: upd_tok_Some)
    with \<open>jsmn_ok (Suc (j_pos p)) ?p\<close> show ?thesis by auto
  next
    case 2
    with at show ?thesis by (subst close_walk.simps) simp
  next
    case 3
    with at assms(1,2) jsmn_ok_mono [of "j_pos p" p "Suc (j_pos p)"] show ?thesis
      using close_walk.simps [of type i ts p] by auto
  next
    case 4
    with at less_i less.prems(2) less.hyps [of "t_parent (ts ! nat i)"] up show ?thesis
      by (subst (1 2) close_walk.simps) simp
  qed
qed


text \<open>
  One round of the second pass, beside the same round of the first one: it fails with an error of the
  text or makes the same step, and it does not leave the tokens.
\<close>

definition jsmn_sim :: "jsmn_parser \<Rightarrow> bool \<Rightarrow> jsmn_parser \<Rightarrow> (int + bool \<times> jsmn_parser) \<Rightarrow> nat \<Rightarrow> bool" where
  "jsmn_sim p b q' r n \<longleftrightarrow> (case r of
       Inl e \<Rightarrow> e < 0 \<and> e \<noteq> JSMN_ERROR_NOMEM
     | Inr (b', p') \<Rightarrow> b' = b \<and> j_pos p' = j_pos q' \<and> jsmn_ok (Suc (j_pos p')) p' \<and>
         j_toknext p' = (if b then Suc (j_toknext p) else j_toknext p) \<and> map_option length (j_tokens p') = Some n)"

lemma tree_last': "tree_ok (map t_parent (take n ts)) S i \<Longrightarrow> n \<le> length ts \<Longrightarrow> tree_ok (map t_parent (take n ts)) S (int n - 1)"
  using tree_last [of "map t_parent (take n ts)" S i] by simp

lemma jsmn_string_ok:
  assumes ok: "jsmn_ok (j_pos p) p" "j_tokens p = Some ts" "j_toknext p < length ts"
    and q: "jsmn_parse_string js q = Inr q'" "j_pos q = j_pos p" "j_tokens q = None"
  shows "\<exists>p1 p'. jsmn_parse_string js p = Inr p1 \<and> jsmn_count p1 = Some p' \<and> jsmn_sim p True q' (Inr (True, p')) (length ts) \<and>
    j_pos q' < length js \<and> j_pos p \<le> j_pos q' \<and> j_tokens q' = None"
proof -
  obtain pos where pos: "str_scan js (j_pos p + 1) = Inr pos" "q' = q\<lparr>j_pos := pos\<rparr>"
    using q by (auto simp: jsmn_parse_string_def jsmn_add_token_def Let_def split: sum.splits)
  note b = str_scan_bound [OF pos(1)]
  obtain p1 where p1: "jsmn_add_token JSMN_STRING (j_pos p + 1) pos p = Some p1" using ok(2,3) by (simp add: jsmn_add_token_eq)
  have "jsmn_ok pos p" using jsmn_ok_mono [OF ok(1)] b by simp
  from add_count_ok [OF this ok(2,3) _ _ p1, of pos] b obtain ts' where
    "jsmn_count (p1\<lparr>j_pos := pos\<rparr>) = Some (p\<lparr>j_pos := pos, j_toknext := Suc (j_toknext p), j_tokens := Some ts'\<rparr>)"
    "length ts' = length ts" "jsmn_ok pos (p\<lparr>j_pos := pos, j_toknext := Suc (j_toknext p), j_tokens := Some ts'\<rparr>)"
    by auto
  then show ?thesis using pos b p1 q by (auto simp: jsmn_parse_string_def Let_def jsmn_sim_def intro: jsmn_ok_mono)
qed

lemma jsmn_primitive_ok:
  assumes ok: "jsmn_ok (j_pos p) p" "j_tokens p = Some ts" "j_toknext p < length ts"
    and q: "jsmn_parse_primitive js q = Inr q'" "j_pos q = j_pos p" "j_tokens q = None" "\<not> prim_end (js ! j_pos p)"
  shows "\<exists>p1 p'. jsmn_parse_primitive js p = Inr p1 \<and> jsmn_count p1 = Some p' \<and> jsmn_sim p True q' (Inr (True, p')) (length ts) \<and>
    j_pos q' < length js \<and> j_pos p \<le> j_pos q' \<and> j_tokens q' = None"
proof -
  obtain pos where pos: "prim_scan js (j_pos p) = Inr pos" "q' = q\<lparr>j_pos := pos - 1\<rparr>"
    using q by (auto simp: jsmn_parse_primitive_def jsmn_add_token_def Let_def split: sum.splits)
  note b = prim_scan_bound [OF pos(1)]
  then have b': "j_pos p < pos" using q(4) by (metis order_le_less)
  obtain p1 where p1: "jsmn_add_token JSMN_PRIMITIVE (j_pos p) pos p = Some p1" using ok(2,3) by (simp add: jsmn_add_token_eq)
  have "jsmn_ok pos p" using jsmn_ok_mono [OF ok(1)] b by simp
  from add_count_ok [OF this ok(2,3) _ _ p1, of "pos - 1"] b obtain ts' where
    "jsmn_count (p1\<lparr>j_pos := pos - 1\<rparr>) = Some (p\<lparr>j_pos := pos - 1, j_toknext := Suc (j_toknext p), j_tokens := Some ts'\<rparr>)"
    "length ts' = length ts" "jsmn_ok pos (p\<lparr>j_pos := pos - 1, j_toknext := Suc (j_toknext p), j_tokens := Some ts'\<rparr>)"
    by auto
  then show ?thesis using pos b b' p1 q by (auto simp: jsmn_parse_primitive_def Let_def jsmn_sim_def)
qed

lemma first_pass_count: "j_tokens q = None \<Longrightarrow> jsmn_count q = Some q"
  by (simp add: jsmn_count_def)

lemma first_pass_string: "jsmn_parse_string js q = Inr q' \<Longrightarrow> j_tokens q = None \<Longrightarrow> j_tokens q' = None"
  by (auto simp: jsmn_parse_string_def jsmn_add_token_def Let_def split: sum.splits)

lemma first_pass_primitive: "jsmn_parse_primitive js q = Inr q' \<Longrightarrow> j_tokens q = None \<Longrightarrow> j_tokens q' = None"
  by (auto simp: jsmn_parse_primitive_def jsmn_add_token_def Let_def split: sum.splits)

lemma jsmn_comma_ok:
  assumes "jsmn_ok pos p" "j_tokens p = Some ts"
  shows "\<exists>s. jsmn_comma p = Some (p\<lparr>j_toksuper := s\<rparr>) \<and> jsmn_ok pos (p\<lparr>j_toksuper := s\<rparr>)"
proof (cases "j_toksuper p = - 1 \<or> t_type (ts ! nat (j_toksuper p)) \<in> {JSMN_ARRAY, JSMN_OBJECT}")
  case True
  have "- 1 \<le> j_toksuper p" "j_toksuper p < int (length ts)" using assms jsmn_super_range [OF assms(1)] by (auto simp: jsmn_ok_def)
  with True assms show ?thesis by (intro exI [of _ "j_toksuper p"]) (auto simp: jsmn_comma_def tok_at_Some)
next
  case False
  let ?n = "j_toknext p" and ?s = "j_toksuper p"
  have s: "0 \<le> ?s" "?s < int ?n" "?n \<le> length ts" using False assms jsmn_super_range [OF assms(1)] by (auto simp: jsmn_ok_def)
  then have "map t_parent (take ?n ts) ! nat ?s = t_parent (ts ! nat ?s)" by simp
  with tree_up [of "map t_parent (take ?n ts)" "map t_size (take ?n ts)" ?s] assms s
  have "jsmn_ok pos (p\<lparr>j_toksuper := t_parent (ts ! nat ?s)\<rparr>)" by (simp add: jsmn_ok_def)
  with False assms s show ?thesis by (auto simp: jsmn_comma_def tok_at_Some)
qed

lemma prim_as_key_ok: "jsmn_ok pos p \<Longrightarrow> j_tokens p = Some ts \<Longrightarrow> \<exists>k. prim_as_key p = Some k"
  using jsmn_super_range [of pos p] by (auto simp: prim_as_key_def jsmn_ok_def tok_at_Some)

lemma jsmn_step_ok:
  assumes ok: "jsmn_ok (j_pos p) p" "j_tokens p = Some ts" "b \<Longrightarrow> j_toknext p < length ts" "j_pos p < length js"
    and q: "j_pos q = j_pos p" "j_tokens q = None" "jsmn_step js q = Some (Inr (b, q'))"
  shows "j_tokens q' = None \<and> j_pos p \<le> j_pos q' \<and> j_pos q' < length js \<and> (\<exists>r. jsmn_step js p = Some r \<and> jsmn_sim p b q' r (length ts))"
proof -
  let ?c = "js ! j_pos p"
  have ok1: "jsmn_ok (Suc (j_pos p)) p" using jsmn_ok_mono [OF ok(1)] by simp
  consider (a) "?c = CHR ''{'' \<or> ?c = CHR ''[''" | (b) "?c = CHR ''}'' \<or> ?c = CHR '']''" | (c) "?c = CHR 0x22"
    | (d) "?c \<in> {CHR 0x09, CHR 0x0D, CHR 0x0A, CHR '' ''}" | (e) "?c = CHR '':''" | (f) "?c = CHR '',''" | (g) "prim_start ?c"
    using q by (auto simp: jsmn_step_def Let_def split: if_splits)
  then show ?thesis
  proof cases
    case a
    then have "b" "q' = q" using q by (auto simp: jsmn_step_def Let_def jsmn_open_def)
    with a ok q jsmn_open_ok [OF ok1 ok(2), of ?c] show ?thesis
      by (auto simp: jsmn_step_def Let_def jsmn_sim_def JSMN_ERROR_INVAL_def JSMN_ERROR_NOMEM_def)
  next
    case b
    then have "\<not> b" "q' = q" using q by (auto simp: jsmn_step_def Let_def jsmn_close_def)
    have "jsmn_step js p = Some (Inl JSMN_ERROR_INVAL) \<or>
      (\<exists>p' ts'. jsmn_step js p = Some (Inr (False, p')) \<and> jsmn_ok (Suc (j_pos p)) p' \<and> j_pos p' = j_pos p \<and>
       j_toknext p' = j_toknext p \<and> j_tokens p' = Some ts' \<and> length ts' = length ts)"
    proof (cases "j_toknext p = 0")
      case True
      with b ok show ?thesis by (auto simp: jsmn_step_def Let_def jsmn_close_def)
    next
      case False
      obtain S where "tree_ok (map t_parent (take (j_toknext p) ts)) (map t_size (take (j_toknext p) ts)) S" "j_toknext p \<le> length ts"
        using ok(1,2) by (auto simp: jsmn_ok_def)
      note tree_last' [OF this]
      from close_walk_ok [OF ok(1,2) this, of "if ?c = CHR ''}'' then JSMN_OBJECT else JSMN_ARRAY"] False b ok(2) show ?thesis
        by (auto simp: jsmn_step_def Let_def jsmn_close_def)
    qed
    with \<open>\<not> b\<close> \<open>q' = q\<close> q ok show ?thesis
      by (auto simp: jsmn_sim_def JSMN_ERROR_INVAL_def JSMN_ERROR_NOMEM_def)
  next
    case c
    then obtain "b" and qs: "jsmn_parse_string js q = Inr q'"
      using q first_pass_string [of js q] by (auto simp: jsmn_step_def Let_def first_pass_count split: sum.splits)
    from jsmn_string_ok [OF ok(1,2) ok(3) [OF \<open>b\<close>] qs q(1,2)] c \<open>b\<close> show ?thesis
      by (auto simp: jsmn_step_def Let_def)
  next
    case d
    with q ok1 ok show ?thesis by (auto simp: jsmn_step_def Let_def jsmn_sim_def)
  next
    case e
    with q ok1 ok show ?thesis by (auto simp: jsmn_step_def Let_def jsmn_sim_def jsmn_ok_def intro: tree_last')
  next
    case f
    then have "\<not> b" "q' = q" using q by (auto simp: jsmn_step_def Let_def jsmn_comma_def)
    with f q ok jsmn_comma_ok [OF ok1 ok(2)] show ?thesis by (auto simp: jsmn_step_def Let_def jsmn_sim_def)
  next
    case g
    then have ne: "?c \<notin> {CHR ''{'', CHR ''['', CHR ''}'', CHR '']'', CHR 0x22, CHR 0x09, CHR 0x0D, CHR 0x0A, CHR '' '', CHR '':'', CHR '',''}"
      by (auto simp: prim_start_def)
    then have "\<not> prim_end ?c" by (auto simp: prim_end_def)
    obtain k where k: "prim_as_key p = Some k" using prim_as_key_ok [OF ok(1,2)] by blast
    have kq: "prim_as_key q = Some False" using q(2) by (simp add: prim_as_key_def)
    obtain "b" and qp: "jsmn_parse_primitive js q = Inr q'"
      using q g ne first_pass_primitive [of js q] kq by (auto simp: jsmn_step_def Let_def first_pass_count split: sum.splits)
    from jsmn_primitive_ok [OF ok(1,2) ok(3) [OF \<open>b\<close>] qp q(1,2) \<open>\<not> prim_end ?c\<close>] g ne \<open>b\<close> k show ?thesis
      by (cases k) (auto simp: jsmn_step_def Let_def jsmn_sim_def JSMN_ERROR_INVAL_def JSMN_ERROR_NOMEM_def)
  qed
qed

text \<open>The two passes.\<close>


lemma first_step:
  assumes "j_tokens q = None"
  shows "\<exists>r. jsmn_step js q = Some r \<and> (case r of Inl e \<Rightarrow> e < 0 | Inr (b, q') \<Rightarrow> j_tokens q' = None \<and> j_pos q \<le> j_pos q')"
proof -
  have str: "j_tokens q' = None \<and> j_pos q \<le> j_pos q'" if "jsmn_parse_string js q = Inr q'" for q'
    using that assms by (auto simp: jsmn_parse_string_def jsmn_add_token_def Let_def split: sum.splits dest!: str_scan_bound)
  have prim: "j_tokens q' = None \<and> j_pos q \<le> j_pos q'" if pq: "jsmn_parse_primitive js q = Inr q'" "\<not> prim_end (js ! j_pos q)" for q'
  proof -
    obtain pos where "prim_scan js (j_pos q) = Inr pos" "q' = q\<lparr>j_pos := pos - 1\<rparr>"
      using pq(1) assms by (auto simp: jsmn_parse_primitive_def jsmn_add_token_def Let_def split: sum.splits)
    with prim_scan_bound [of js "j_pos q" pos] pq(2) assms show ?thesis by (cases "pos = j_pos q") auto
  qed
  have prim_error: "e < 0" if "jsmn_parse_primitive js q = Inl e" for e
    using that assms prim_scan_range [where js = js and pos = "j_pos q"]
    by (auto simp: jsmn_parse_primitive_def jsmn_add_token_def Let_def split: sum.splits)
  have str_error: "e < 0" if "jsmn_parse_string js q = Inl e" for e
    using that assms str_scan_range [where js = js and pos = "j_pos q + 1"]
    by (auto simp: jsmn_parse_string_def jsmn_add_token_def Let_def split: sum.splits)
  have pe: "prim_start c \<Longrightarrow> \<not> prim_end c" for c by (auto simp: prim_start_def prim_end_def)
  show ?thesis
    using assms str prim pe prim_error str_error
    by (auto simp: jsmn_errors jsmn_step_def Let_def jsmn_open_def jsmn_close_def jsmn_comma_def prim_as_key_def first_pass_count split: sum.splits)
qed

lemma first_pass_returns:
  "j_tokens q = None \<Longrightarrow> \<exists>r. jsmn_loop js c q = Some r \<and> (case r of Inl e \<Rightarrow> e < 0 | Inr (n, q') \<Rightarrow> c \<le> n \<and> j_tokens q' = None)"
proof (induction "length js - j_pos q" arbitrary: q c rule: less_induct)
  case less
  show ?case
  proof (cases "j_pos q < length js \<and> js ! j_pos q \<noteq> CHR 0x00")
    case True
    obtain r where r: "jsmn_step js q = Some r" "case r of Inl e \<Rightarrow> e < 0 | Inr (b, q') \<Rightarrow> j_tokens q' = None \<and> j_pos q \<le> j_pos q'"
      using first_step [OF less.prems] by blast
    show ?thesis
    proof (cases r)
      case (Inl e)
      with True r show ?thesis by (subst jsmn_loop.simps) auto
    next
      case (Inr x)
      obtain b q' where x: "x = (b, q')" by (cases x)
      with r Inr have q': "j_tokens q' = None" "j_pos q \<le> j_pos q'" by auto
      obtain r' where "jsmn_loop js (if b then c + 1 else c) (q'\<lparr>j_pos := Suc (j_pos q')\<rparr>) = Some r'"
        "case r' of Inl e \<Rightarrow> e < 0 | Inr (n, q') \<Rightarrow> (if b then c + 1 else c) \<le> n \<and> j_tokens q' = None"
        using less.hyps [of "q'\<lparr>j_pos := Suc (j_pos q')\<rparr>" "if b then c + 1 else c"] q' True by fastforce
      with True r Inr x show ?thesis by (subst jsmn_loop.simps) (fastforce split: if_splits sum.splits)
    qed
  qed (use less.prems in \<open>subst jsmn_loop.simps, auto\<close>)
qed

lemma jsmn_loop_ok:
  assumes "jsmn_ok (j_pos p) p" "map_option length (j_tokens p) = Some (nat n)" "j_pos p \<le> length js"
    and "j_pos q = j_pos p" "j_tokens q = None" "jsmn_loop js (int (j_toknext p)) q = Some (Inr (n, q'))"
  shows "\<exists>r. jsmn_loop js (int (j_toknext p)) p = Some r \<and> (case r of
       Inl e \<Rightarrow> e < 0 \<and> e \<noteq> JSMN_ERROR_NOMEM
     | Inr (n', p') \<Rightarrow> n' = n \<and> jsmn_ok (length js) p' \<and> int (j_toknext p') = n \<and> map_option length (j_tokens p') = Some (nat n))"
  using assms
proof (induction "length js - j_pos q" arbitrary: p q rule: less_induct)
  case less
  show ?case
  proof (cases "j_pos q < length js \<and> js ! j_pos q \<noteq> CHR 0x00")
    case False
    then have "jsmn_loop js c q = Some (Inr (c, q))" for c by (subst jsmn_loop.simps) (rule if_not_P)
    moreover have "jsmn_loop js c p = Some (Inr (c, p))" for c
      using False unfolding less.prems(4) by (subst jsmn_loop.simps) (rule if_not_P)
    ultimately show ?thesis using less.prems(2,6) jsmn_ok_mono [OF less.prems(1,3)] by simp
  next
    case True
    obtain ts where ts: "j_tokens p = Some ts" "length ts = nat n" using less.prems(2) by auto
    obtain r where r: "jsmn_step js q = Some r" "case r of Inl e \<Rightarrow> e < 0 | Inr (b, q') \<Rightarrow> j_tokens q' = None \<and> j_pos q \<le> j_pos q'"
      using first_step [OF less.prems(5)] by blast
    have lp: "jsmn_loop js c q = (case r of Inl e \<Rightarrow> Some (Inl e)
       | Inr (b, p) \<Rightarrow> jsmn_loop js (if b then c + 1 else c) (p\<lparr>j_pos := Suc (j_pos p)\<rparr>))" for c
      using True r(1) by (subst jsmn_loop.simps) simp
    obtain b q1 where q1: "r = Inr (b, q1)" using less.prems(6) lp by (cases r) auto
    let ?c = "if b then int (j_toknext p) + 1 else int (j_toknext p)"
    let ?q = "q1\<lparr>j_pos := Suc (j_pos q1)\<rparr>"
    have lq: "jsmn_loop js ?c ?q = Some (Inr (n, q'))"
      using less.prems(6) lp q1 by simp
    have "j_tokens ?q = None" using r(2) q1 by simp
    from first_pass_returns [OF this, of js ?c] lq have "?c \<le> n" by (auto split: if_splits)
    then have room: "b \<Longrightarrow> j_toknext p < length ts" using ts by simp
    have "jsmn_step js q = Some (Inr (b, q1))" "j_pos p < length js" using r(1) q1 True less.prems(4) by simp_all
    from jsmn_step_ok [OF less.prems(1) ts(1) room this(2) less.prems(4,5) this(1)]
    obtain r2 where st: "j_pos p \<le> j_pos q1" "j_pos q1 < length js" "j_tokens q1 = None"
      "jsmn_step js p = Some r2" "jsmn_sim p b q1 r2 (length ts)" by blast
    show ?thesis
    proof (cases r2)
      case (Inl e)
      then have "jsmn_loop js c p = Some (Inl e)" for c using st(4) True less.prems(4) by (subst jsmn_loop.simps) simp
      with Inl st(5) show ?thesis by (simp add: jsmn_sim_def)
    next
      case (Inr x)
      with st(5) obtain p' where p': "x = (b, p')" "j_pos p' = j_pos q1" "jsmn_ok (Suc (j_pos p')) p'"
        "j_toknext p' = (if b then Suc (j_toknext p) else j_toknext p)" "map_option length (j_tokens p') = Some (length ts)"
        by (cases x) (auto simp: jsmn_sim_def)
      have c: "?c = int (j_toknext (p'\<lparr>j_pos := Suc (j_pos p')\<rparr>))" using p' by simp
      have "\<exists>r. jsmn_loop js (int (j_toknext (p'\<lparr>j_pos := Suc (j_pos p')\<rparr>))) (p'\<lparr>j_pos := Suc (j_pos p')\<rparr>) = Some r \<and> (case r of
         Inl e \<Rightarrow> e < 0 \<and> e \<noteq> JSMN_ERROR_NOMEM
       | Inr (n', p') \<Rightarrow> n' = n \<and> jsmn_ok (length js) p' \<and> int (j_toknext p') = n \<and> map_option length (j_tokens p') = Some (nat n))"
        by (rule less.hyps [of ?q]) (use True st p' ts less.prems(4) lq c in auto)
      moreover have "jsmn_loop js (int (j_toknext p)) p = jsmn_loop js ?c (p'\<lparr>j_pos := Suc (j_pos p')\<rparr>)"
        using st(4) Inr p'(1) True less.prems(4) by (subst jsmn_loop.simps) simp
      ultimately show ?thesis by (simp only: c)
    qed
  qed
qed


section \<open>Parsing and looking up\<close>

text \<open>A context after parsing: the tokens form a tree, and every one is a part of the text.\<close>

definition jctx_ok :: "jparse_ctx \<Rightarrow> bool" where
  "jctx_ok jctx \<longleftrightarrow> (let ts = jp_tokens jctx; P = map t_parent ts in
     int (length ts) = jp_num_tokens jctx \<and> 0 \<le> jp_cur jctx \<and> jp_cur jctx < jp_num_tokens jctx \<and> preorder_ok P \<and>
     (\<forall>i < length P. t_size (ts ! i) = int (kids P (int i) 0 (length P))) \<and>
     (\<forall>t \<in> set ts. 0 \<le> t_start t \<and> t_start t \<le> t_end t \<and> t_end t \<le> int (length (jp_js jctx))))"

lemma jsmn_ok_init: "jsmn_ok 0 (jsmn_init (Some ts))"
  by (simp add: jsmn_ok_def jsmn_init_def tree_ok_def preorder_ok_def anc_refl)

lemma parsed_tokens:
  assumes "jsmn_ok (length js) p" "j_tokens p = Some ts" "j_toknext p = length ts" "\<not> list_ex tok_open ts" "ts \<noteq> []"
  shows "jctx_ok \<lparr>jp_js = js, jp_tokens = ts, jp_cur = 0, jp_num_tokens = int (length ts)\<rparr>"
proof -
  have t: "tree_ok (map t_parent ts) (map t_size ts) (j_toksuper p)" "\<forall>t \<in> set ts. span_ok (length js) t"
    using assms by (auto simp: jsmn_ok_def)
  have "0 \<le> t_start t \<and> t_start t \<le> t_end t \<and> t_end t \<le> int (length js)" if "t \<in> set ts" for t
  proof -
    have "span_ok (length js) t" "\<not> tok_open t" using t(2) assms(4) that by (auto simp: list_ex_iff)
    then show ?thesis by (auto simp: span_ok_def tok_open_def)
  qed
  with t assms(5) show ?thesis by (auto simp: jctx_ok_def tree_ok_def Let_def)
qed

lemma json_parse_start_returns:
  "\<exists>r jctx st'. json_parse_start js st = Some (r, jctx, st') \<and>
     (r = OS_SUCCESS \<and> jctx_ok jctx \<and> jp_js jctx = js \<and> jp_cur jctx = 0 \<or> r = - OS_FAIL)"
proof -
  let ?q = "jsmn_init None"
  obtain r where r: "jsmn_loop js 0 ?q = Some r" "case r of Inl e \<Rightarrow> e < 0 | Inr (n, q') \<Rightarrow> 0 \<le> n \<and> j_tokens q' = None"
    using first_pass_returns [of ?q js 0] by (auto simp: jsmn_init_def)
  show ?thesis
  proof (cases "\<exists>n q'. r = Inr (n, q') \<and> 0 < n")
    case False
    then have "\<exists>c o'. jsmn_parse js ?q = Some (c, o') \<and> c \<le> 0"
      using r by (cases r) (auto simp: jsmn_parse_def jsmn_init_def)
    then show ?thesis by (auto simp: json_parse_start_def)
  next
    case True
    then obtain n q' where n: "r = Inr (n, q')" "0 < n" by blast
    have p1: "jsmn_parse js ?q = Some (n, None)" using r n by (simp add: jsmn_parse_def jsmn_init_def)
    let ?p = "jsmn_init (Some (replicate (nat n) zero_tok))"
    obtain r2 where r2: "jsmn_loop js (int (j_toknext ?p)) ?p = Some r2" "case r2 of
       Inl e \<Rightarrow> e < 0 \<and> e \<noteq> JSMN_ERROR_NOMEM
     | Inr (n', p') \<Rightarrow> n' = n \<and> jsmn_ok (length js) p' \<and> int (j_toknext p') = n \<and> map_option length (j_tokens p') = Some (nat n)"
      using jsmn_loop_ok [of ?p n js ?q q'] r(1) n(1) jsmn_ok_init by (auto simp: jsmn_init_def)
    obtain x where na: "new_addr st = x" by blast
    show ?thesis
    proof (cases "\<exists>p' ts. r2 = Inr (n, p') \<and> j_tokens p' = Some ts \<and> \<not> list_ex tok_open ts")
      case False
      have "\<exists>e. jsmn_parse js ?p = Some (e, None)"
      proof (cases r2)
        case (Inl e)
        with r2 show ?thesis by (simp add: jsmn_parse_def)
      next
        case (Inr x)
        with r2 obtain p' ts where x: "x = (n, p')" "j_tokens p' = Some ts" "j_toknext p' = length ts" by (cases x) auto
        with False Inr r2 show ?thesis by (auto simp: jsmn_parse_def)
      qed
      with p1 n na show ?thesis by (cases x; cases "fst x") (auto simp: json_parse_start_def)
    next
      case True
      then obtain p' ts where t: "r2 = Inr (n, p')" "j_tokens p' = Some ts" "\<not> list_ex tok_open ts" by blast
      with r2 have l: "jsmn_ok (length js) p'" "j_toknext p' = length ts" "length ts = nat n" by auto
      then have "ts \<noteq> []" using n(2) by auto
      with n(2) parsed_tokens [OF l(1) t(2) l(2) t(3)] l(3) have ok: "jctx_ok \<lparr>jp_js = js, jp_tokens = ts, jp_cur = 0, jp_num_tokens = n\<rparr>" by auto
      have "jsmn_parse js ?p = Some (n, Some ts)" using r2 t l by (simp add: jsmn_parse_def)
      with p1 n na ok show ?thesis by (cases x; cases "fst x") (auto simp: json_parse_start_def)
    qed
  qed
qed

text \<open>
  A walk in the tree below the token \<open>p\<close>: the token \<open>lo\<close> is the next of the remaining \<open>n\<close> children,
  whose subtrees end at \<open>hi\<close>.
\<close>

definition at_child :: "jsmntok list \<Rightarrow> int \<Rightarrow> nat \<Rightarrow> nat \<Rightarrow> nat \<Rightarrow> bool" where
  "at_child ts p n lo hi \<longleftrightarrow> (let P = map t_parent ts in
     preorder_ok P \<and> (\<forall>i < length P. t_size (ts ! i) = int (kids P (int i) 0 (length P))) \<and>
     subtree P p hi \<and> 0 \<le> p \<and> p < int lo \<and> lo \<le> hi \<and> (lo < hi \<longrightarrow> P ! lo = p) \<and> n = kids P p lo hi)"

lemma at_child_step:
  assumes "at_child ts p (Suc n) lo hi"
  shows "lo < length ts \<and> (\<exists>m. json_skip_elem ts (int lo) = Some (int m - 1) \<and> lo < m \<and> at_child ts p n m hi)"
proof -
  let ?P = "map t_parent ts"
  have a: "preorder_ok ?P" "\<forall>i < length ?P. t_size (ts ! i) = int (kids ?P (int i) 0 (length ?P))" "subtree ?P p hi" "0 \<le> p" "p < int lo"
    "lo \<le> hi" "lo < hi \<longrightarrow> ?P ! lo = p" "Suc n = kids ?P p lo hi"
    using assms by (auto simp: at_child_def Let_def)
  have lh: "lo < hi" using a(6,8) by (cases "lo = hi") (auto simp: kids_def)
  obtain m where m: "subtree ?P (int lo) m" "lo < m" "m \<le> hi" "m < hi \<longrightarrow> ?P ! m = p" "kids ?P p lo hi = Suc (kids ?P p m hi)"
    "kids ?P (int lo) 0 (length ?P) = kids ?P (int lo) (Suc lo) m" "Suc lo < m \<longrightarrow> ?P ! Suc lo = int lo"
    using child_step [OF a(1,3) _ a(5) lh] a(4,7) lh by fastforce
  have hl: "hi \<le> length ts" using a(3) by (simp add: subtree_def)
  have "json_skip_elems ts (int (kids ?P (int lo) (Suc lo) m)) (int (Suc lo) - 1) = Some (int m - 1)"
    by (rule json_skip_elems_tree [OF a(1) refl a(2) m(1)]) (use m in auto)
  then have "json_skip_elem ts (int lo) = Some (int m - 1)"
    using a(2) m(6) lh hl by (simp add: json_skip_elem_def tok_at_Some)
  moreover have "at_child ts p n m hi" using a m by (simp add: at_child_def Let_def)
  ultimately show ?thesis using lh hl m(2) by auto
qed

lemma at_child_first:
  assumes "jctx_ok jctx" "tok_at (jp_cur jctx) (jp_tokens jctx) = Some t"
  shows "\<exists>hi. at_child (jp_tokens jctx) (jp_cur jctx) (nat (t_size t)) (nat (jp_cur jctx) + 1) hi \<and> 0 \<le> t_size t"
proof -
  let ?ts = "jp_tokens jctx"
  let ?P = "map t_parent ?ts" and ?p = "jp_cur jctx"
  have a: "preorder_ok ?P" "\<forall>i < length ?P. t_size (?ts ! i) = int (kids ?P (int i) 0 (length ?P))" "0 \<le> ?p" "?p < int (length ?P)"
    using assms(1) by (auto simp: jctx_ok_def Let_def)
  define c where "c = nat ?p"
  have c: "?p = int c" using a(3) by (simp add: c_def)
  have cl: "c < length ?P" using a(4) c by simp
  have "tok_at (int c) ?ts = Some (?ts ! c)" using cl by (simp add: tok_at_Some)
  then have "t = ?ts ! c" using assms(2) c by simp
  with a(2) cl have t: "t_size t = int (kids ?P (int c) 0 (length ?P))" by blast
  obtain hi where hi: "subtree ?P (int c) hi" using subtree_exists [OF a(1), of "int c"] a(4) c by auto
  have hl: "c < hi" using hi by (simp add: subtree_def)
  have k: "t_size t = int (kids ?P (int c) (Suc c) hi)" using t subtree_kids(1) [OF a(1) hi] by simp
  have "at_child ?ts (int c) (nat (t_size t)) (c + 1) hi"
    unfolding at_child_def Let_def using a(1,2) hi hl k subtree_kids(2) [OF a(1) hi] by simp
  then show ?thesis unfolding c using k by auto
qed

lemma obj_search_ok:
  "at_child (jp_tokens jctx) p n lo hi \<Longrightarrow> \<exists>r. obj_search jctx k n (int lo - 1) = Some r \<and>
     (\<forall>i. r = Some i \<longrightarrow> int lo \<le> i \<and> i < int (length (jp_tokens jctx)))"
proof (induction n arbitrary: lo)
  case (Suc n)
  from at_child_step [OF Suc.prems] obtain m where m: "lo < length (jp_tokens jctx)"
    "json_skip_elem (jp_tokens jctx) (int lo) = Some (int m - 1)" "lo < m" "at_child (jp_tokens jctx) p n m hi" by blast
  with Suc.IH [OF m(4)] show ?case by (auto simp: tok_at_Some)
qed simp

lemma cur_tok: "jctx_ok jctx \<Longrightarrow> tok_at (jp_cur jctx) (jp_tokens jctx) = Some (jp_tokens jctx ! nat (jp_cur jctx))"
  by (simp add: jctx_ok_def Let_def tok_at_Some)

lemma json_obj_search_ok:
  assumes "jctx_ok jctx"
  shows "\<exists>r. json_obj_search jctx k = Some r \<and> (\<forall>i. r = Some i \<longrightarrow> jp_cur jctx < i \<and> i < jp_num_tokens jctx)"
proof -
  let ?t = "jp_tokens jctx ! nat (jp_cur jctx)"
  obtain hi where c: "at_child (jp_tokens jctx) (jp_cur jctx) (nat (t_size ?t)) (nat (jp_cur jctx) + 1) hi"
    using at_child_first [OF assms cur_tok [OF assms]] by blast
  have n: "0 \<le> jp_cur jctx" "int (length (jp_tokens jctx)) = jp_num_tokens jctx" using assms by (auto simp: jctx_ok_def Let_def)
  then have lo: "int (nat (jp_cur jctx) + 1) = jp_cur jctx + 1" by simp
  obtain r where r: "obj_search jctx k (nat (t_size ?t)) (jp_cur jctx) = Some r"
    "\<forall>i. r = Some i \<longrightarrow> jp_cur jctx + 1 \<le> i \<and> i < jp_num_tokens jctx"
    using obj_search_ok [OF c, of k] unfolding lo n(2) by auto
  then have "\<forall>i. r = Some i \<longrightarrow> jp_cur jctx < i \<and> i < jp_num_tokens jctx" by fastforce
  with r(1) show ?thesis using cur_tok [OF assms] by (auto simp: json_obj_search_def)
qed

lemma arr_search_ok:
  "at_child (jp_tokens jctx) p n lo hi \<Longrightarrow> i < n \<Longrightarrow>
     \<exists>r. arr_search jctx i (int lo) = Some r \<and> int lo \<le> r \<and> r < int (length (jp_tokens jctx))"
proof (induction i arbitrary: n lo)
  case 0
  then show ?case using at_child_step [of "jp_tokens jctx" p "n - 1" lo hi] by simp
next
  case (Suc i)
  then have "at_child (jp_tokens jctx) p (Suc (n - 1)) lo hi" by simp
  from at_child_step [OF this] obtain m where
    "json_skip_elem (jp_tokens jctx) (int lo) = Some (int m - 1)" "lo < m" "at_child (jp_tokens jctx) p (n - 1) m hi" by blast
  moreover have "i < n - 1" using Suc.prems(2) by simp
  ultimately show ?case using Suc.IH [of "n - 1" m] by fastforce
qed

lemma json_arr_search_ok:
  assumes "jctx_ok jctx"
  shows "\<exists>r. json_arr_search jctx index = Some r \<and> (\<forall>i. r = Some i \<longrightarrow> jp_cur jctx < i \<and> i < jp_num_tokens jctx)"
proof -
  let ?t = "jp_tokens jctx ! nat (jp_cur jctx)"
  obtain hi where c: "at_child (jp_tokens jctx) (jp_cur jctx) (nat (t_size ?t)) (nat (jp_cur jctx) + 1) hi"
    using at_child_first [OF assms cur_tok [OF assms]] by blast
  have n: "0 \<le> jp_cur jctx" "int (length (jp_tokens jctx)) = jp_num_tokens jctx" using assms by (auto simp: jctx_ok_def Let_def)
  show ?thesis
  proof (cases "t_type ?t = JSMN_ARRAY \<and> 0 < t_size ?t \<and> index \<le> of_int (t_size ?t - 1)")
    case False
    then show ?thesis using cur_tok [OF assms] by (auto simp: json_arr_search_def)
  next
    case True
    have "uint (of_int (t_size ?t - 1) :: u32) \<le> t_size ?t - 1"
      using True take_bit_int_less_eq_self_iff [of 32 "t_size ?t - 1"] by (simp add: unsigned_of_int del: of_int_diff)
    with True have "int (unat index) \<le> t_size ?t - 1"
      by (metis order_trans uint_nat word_le_def)
    with True have "unat index < nat (t_size ?t)" by linarith
    moreover have lo: "int (nat (jp_cur jctx) + 1) = jp_cur jctx + 1" using n by simp
    ultimately obtain r where "arr_search jctx (unat index) (jp_cur jctx + 1) = Some r"
      "jp_cur jctx + 1 \<le> r" "r < jp_num_tokens jctx"
      using arr_search_ok [OF c] unfolding lo n(2) by blast
    with True show ?thesis using cur_tok [OF assms] by (auto simp: json_arr_search_def)
  qed
qed

lemma jctx_ok_cur: "jctx_ok jctx \<Longrightarrow> 0 \<le> i \<Longrightarrow> i < jp_num_tokens jctx \<Longrightarrow> jctx_ok (jctx\<lparr>jp_cur := i\<rparr>)"
  by (simp add: jctx_ok_def Let_def)

lemma tok_at_in: "jctx_ok jctx \<Longrightarrow> 0 \<le> i \<Longrightarrow> i < jp_num_tokens jctx \<Longrightarrow> \<exists>t. tok_at i (jp_tokens jctx) = Some t"
  by (auto simp: jctx_ok_def Let_def tok_at_Some)

lemma arr_enter_ok: "jctx_ok jctx \<Longrightarrow> \<exists>r jctx'. arr_enter type jctx index = Some (r, jctx') \<and> jctx_ok jctx' \<and> jp_tokens jctx' = jp_tokens jctx"
proof -
  assume ok: "jctx_ok jctx"
  obtain r where r: "json_arr_search jctx index = Some r" "\<forall>i. r = Some i \<longrightarrow> jp_cur jctx < i \<and> i < jp_num_tokens jctx"
    using json_arr_search_ok [OF ok] by blast
  have c: "0 \<le> jp_cur jctx" using ok by (simp add: jctx_ok_def Let_def)
  show ?thesis
  proof (cases r)
    case (Some i)
    with r c have i: "0 \<le> i" "i < jp_num_tokens jctx" by auto
    with tok_at_in [OF ok] obtain t where "tok_at i (jp_tokens jctx) = Some t" by blast
    with Some r i ok show ?thesis by (auto simp: arr_enter_def json_arr_get_val_tok_def jctx_ok_cur split: option.splits)
  qed (use r ok in \<open>simp add: arr_enter_def json_arr_get_val_tok_def\<close>)
qed

lemma to_parent_ok: "jctx_ok jctx \<Longrightarrow> \<exists>r jctx'. to_parent jctx = Some (r, jctx') \<and> jctx_ok jctx' \<and> jp_tokens jctx' = jp_tokens jctx"
proof -
  assume ok: "jctx_ok jctx"
  let ?t = "jp_tokens jctx ! nat (jp_cur jctx)"
  have c: "0 \<le> jp_cur jctx" "jp_cur jctx < int (length (jp_tokens jctx))" "int (length (jp_tokens jctx)) = jp_num_tokens jctx"
    "preorder_ok (map t_parent (jp_tokens jctx))" using ok by (auto simp: jctx_ok_def Let_def)
  have "t_parent ?t < jp_cur jctx" using parent_less [OF c(4), of "jp_cur jctx"] c(1,2) by simp
  with ok c have "0 \<le> t_parent ?t \<Longrightarrow> jctx_ok (jctx\<lparr>jp_cur := t_parent ?t\<rparr>)" by (simp add: jctx_ok_cur)
  with ok cur_tok [OF ok] show ?thesis by (auto simp: to_parent_def)
qed

lemma json_obj_get_val_tok_ok:
  assumes "jctx_ok jctx"
  shows "json_obj_get_val_tok jctx k type = None \<longleftrightarrow> json_obj_search jctx k = Some (Some (jp_num_tokens jctx - 1))"
    and "json_obj_get_val_tok jctx k type = Some (Some i) \<Longrightarrow> 0 < i \<and> i < jp_num_tokens jctx"
proof -
  obtain r where r: "json_obj_search jctx k = Some r" "\<forall>i. r = Some i \<longrightarrow> jp_cur jctx < i \<and> i < jp_num_tokens jctx"
    using json_obj_search_ok [OF assms] by blast
  have c: "0 \<le> jp_cur jctx" "int (length (jp_tokens jctx)) = jp_num_tokens jctx" using assms by (auto simp: jctx_ok_def Let_def)
  have out: "tok_at (jp_num_tokens jctx) (jp_tokens jctx) = None" using c by (simp add: tok_at_def rd_def)
  show "json_obj_get_val_tok jctx k type = None \<longleftrightarrow> json_obj_search jctx k = Some (Some (jp_num_tokens jctx - 1))"
  proof (cases r)
    case (Some i)
    with r c have i: "0 < i + 1" "i + 1 \<le> jp_num_tokens jctx" by auto
    show ?thesis
    proof (cases "i + 1 = jp_num_tokens jctx")
      case True
      with r(1) Some out show ?thesis by (auto simp: json_obj_get_val_tok_def)
    next
      case False
      with i obtain t where "tok_at (i + 1) (jp_tokens jctx) = Some t" using tok_at_in [OF assms, of "i + 1"] by auto
      with False r(1) Some show ?thesis by (auto simp: json_obj_get_val_tok_def)
    qed
  qed (use r in \<open>simp add: json_obj_get_val_tok_def\<close>)
  assume "json_obj_get_val_tok jctx k type = Some (Some i)"
  with r obtain t where "r = Some (i - 1)" "tok_at i (jp_tokens jctx) = Some t"
    by (cases r; cases "tok_at (the r + 1) (jp_tokens jctx)") (auto simp: json_obj_get_val_tok_def split: if_splits)
  with r(2) c show "0 < i \<and> i < jp_num_tokens jctx" by (auto simp: tok_at_def rd_def split: if_splits)
qed

section \<open>Properties\<close>

text \<open>C18: parsing a text of any form returns, with an error or with tokens that form a tree in preorder:
  the array has exactly the counted tokens, each is a part of the text, its parent comes before it and
  its size is the number of its children. No access leaves the array of tokens.\<close>

theorem json_parse_start_ok:
  "\<exists>r jctx st'. json_parse_start js st = Some (r, jctx, st') \<and> (r = OS_SUCCESS \<or> r = - OS_FAIL) \<and>
     (r = OS_SUCCESS \<longrightarrow> jctx_ok jctx \<and> jp_js jctx = js \<and> jp_cur jctx = 0)"
  using json_parse_start_returns [of js st] by (auto simp: OS_SUCCESS_def OS_FAIL_def)

definition pid_text :: string where
  "pid_text = [CHR ''{'', CHR 0x22, CHR ''p'', CHR ''i'', CHR ''d'', CHR 0x22, CHR ''}'']"

definition pid_ctx :: jparse_ctx where
  "pid_ctx = (case json_parse_start pid_text boot_objs of Some (_, j, _) \<Rightarrow> j | None \<Rightarrow> zero_jctx)"

lemma pid_parse: "map_option fst (json_parse_start pid_text boot_objs) = Some OS_SUCCESS"
  by code_simp

theorem json_parse_start_ok_witness: "jctx_ok pid_ctx \<and> jp_js pid_ctx = pid_text \<and> jp_cur pid_ctx = 0"
  using json_parse_start_ok [of pid_text boot_objs] pid_parse by (auto simp: pid_ctx_def)

text \<open>C19: looking up a key, entering an element of an array and leaving it stay inside of the tokens of a
  parsed text; the only access behind them is the read of the value of a key that is the last token.\<close>

theorem json_lookup_bounds:
  assumes "jctx_ok jctx"
  shows "(\<exists>r. json_obj_search jctx k = Some r \<and> (\<forall>i. r = Some i \<longrightarrow> jp_cur jctx < i \<and> i < jp_num_tokens jctx)) \<and>
    (json_obj_get_val_tok jctx k type = None \<longleftrightarrow> json_obj_search jctx k = Some (Some (jp_num_tokens jctx - 1))) \<and>
    (\<exists>r jctx'. json_arr_get_object jctx index = Some (r, jctx') \<and> jctx_ok jctx' \<and> jp_tokens jctx' = jp_tokens jctx) \<and>
    (\<exists>r jctx'. json_arr_leave_object jctx = Some (r, jctx') \<and> jctx_ok jctx' \<and> jp_tokens jctx' = jp_tokens jctx)"
  using json_obj_search_ok [OF assms] json_obj_get_val_tok_ok(1) [OF assms] arr_enter_ok [OF assms] to_parent_ok [OF assms]
  by (simp add: json_arr_get_object_def json_arr_leave_object_def)

text \<open>In the body \<open>{"pid"}\<close> the key is there and its value is read behind the array.\<close>

lemma pid_ctx_ok: "jctx_ok pid_ctx"
  using json_parse_start_returns [of pid_text boot_objs] pid_parse by (auto simp: pid_ctx_def OS_SUCCESS_def OS_FAIL_def)

theorem json_lookup_bounds_witness: "json_obj_get_val_tok pid_ctx ''pid'' JSMN_PRIMITIVE = None"
proof -
  have "json_obj_search pid_ctx ''pid'' = Some (Some (jp_num_tokens pid_ctx - 1))" by code_simp
  with json_lookup_bounds [OF pid_ctx_ok, of "''pid''" JSMN_PRIMITIVE 0] show ?thesis by blast
qed

end
