(* ===== verification/Hap_Sdk.thy ===== *)
theory Hap_Sdk
  imports Network_Io Json_Parse
begin

text \<open>
  The services of ESP-IDF that the main loop, the mDNS announcement and the request handlers use:
  the HTTP server, mDNS, Wi-Fi, timers and tasks. They are not part of the repository. A call is a
  value of \<open>sdk_call\<close>; making it appends the value to \<open>sdk_log\<close> and takes the result and the next
  state of the world from \<open>sdk_do\<close>, about which nothing is assumed. So the log is what the code
  asks of the platform, in the order in which it asks. What the server puts into a response is the
  argument of the call; the sending and receiving itself, which runs through \<open>hap_httpd_send\<close> and
  \<open>hap_httpd_recv\<close> on a verified session, is the subject of \<open>Network_Io\<close>.

  The theory also has the platform layers \<open>hap_platform_httpd.c\<close>, \<open>hap_platform_os.c\<close> and
  \<open>esp_hap_wifi.c\<close>.
\<close>

section \<open>Calls and state\<close>

datatype http_method = HTTP_GET | HTTP_POST | HTTP_PUT | HTTP_OTHER nat
datatype free_ctx_fn = Free_session | Free_pair_setup
datatype wifi_mode = WIFI_MODE_NULL | WIFI_MODE_STA | WIFI_MODE_AP | WIFI_MODE_APSTA

text \<open>
  A response belongs to the request on a socket, the first argument of the calls that make it up;
  the handlers with a URI are the ones of \<open>esp_hap_ip_services.c\<close>.
\<close>

datatype sdk_call =
    Resp_set_status int string
  | Resp_set_type int string
  | Resp_send int "byte list"
  | Resp_send_chunk int "byte list"
  | Httpd_send int "byte list"
  | Sess_set_send_override int
  | Sess_set_recv_override int
  | Setsockopt int string int
  | Sess_update_lru_counter int
  | Queue_work_notification
  | Httpd_start nat nat nat nat
  | Httpd_stop
  | Register_uri string http_method
  | Unregister_uri string http_method
  | Mdns_init
  | Mdns_free
  | Mdns_hostname_set string
  | Mdns_service_add "string option" string string int "(string \<times> string option) list"
  | Mdns_service_txt_set string string "(string \<times> string option) list"
  | Mdns_service_instance_name_set string string string
  | Mdns_service_remove string string
  | Task_delay nat
  | Task_create u32 byte
  | Task_delete
  | Restart
  | Wifi_restore
  | Wifi_start
  | Wifi_stop
  | Wifi_connect
  | Wifi_set_mode wifi_mode
  | Wifi_set_ap_config "byte list"
  | Wifi_set_sta_config "byte list"

text \<open>
  What the SDK answers: received bytes, the time in microseconds, the SSID of the station
  configuration, the Wi-Fi mode, the query part of a URI and the value of a key in it (the error, and
  what is written to the buffer), base64 and \<open>strtof\<close>.
\<close>

record 'w sdk_api =
  sdk_do :: "sdk_call \<Rightarrow> 'w \<Rightarrow> int \<times> 'w"
  req_recv :: "int \<Rightarrow> nat \<Rightarrow> 'w \<Rightarrow> int \<times> byte list \<times> 'w"
  esp_timer_time :: "'w \<Rightarrow> int \<times> 'w"
  wifi_get_config :: "'w \<Rightarrow> int \<times> string"
  wifi_get_mode :: "'w \<Rightarrow> wifi_mode"
  req_url_query :: "string \<Rightarrow> string"
  query_key_value :: "string \<Rightarrow> string \<Rightarrow> nat \<Rightarrow> int \<times> string"
  base64_decode :: "string \<Rightarrow> byte list option"
  c_strtof :: "string \<Rightarrow> u32 \<times> nat"
  msec_per_tick :: nat

record module_t =
  m_state :: bool
  m_hc :: "ptr option"

record ('n, 'h, 'w) hap_ip = "('n, 'h, 'w) hap_net" +
  api :: "'w sdk_api"
  sdk_log :: "sdk_call list"
  int_handle :: bool
  http_debug :: bool
  hap_http_registered :: bool
  first_announce_done :: bool
  hap_ip_services_started :: bool
  mdns_init_done :: bool
  mdns_handle :: "string \<times> string"
  new_name :: "string option"
  modules :: "module_t list"
  uart_queue :: "(nat \<times> byte list) list"

definition sdk :: "sdk_call \<Rightarrow> ('n, 'h, 'w, 's) hap_ip_scheme \<Rightarrow> int \<times> ('n, 'h, 'w, 's) hap_ip_scheme" where
  "sdk c st = (case sdk_do (api st) c (world st) of (r, w) \<Rightarrow> (r, st\<lparr>world := w, sdk_log := sdk_log st @ [c]\<rparr>))"

text \<open>A call whose result is ignored, and several of them.\<close>

definition do_sdk :: "sdk_call \<Rightarrow> ('n, 'h, 'w, 's) hap_ip_scheme \<Rightarrow> ('n, 'h, 'w, 's) hap_ip_scheme" where
  "do_sdk c st = snd (sdk c st)"

definition sdks :: "sdk_call list \<Rightarrow> ('n, 'h, 'w, 's) hap_ip_scheme \<Rightarrow> ('n, 'h, 'w, 's) hap_ip_scheme" where
  "sdks cs st = fold do_sdk cs st"

section \<open>The platform\<close>

definition hap_platform_os_get_msec_per_tick :: "('n, 'h, 'w, 's) hap_ip_scheme \<Rightarrow> nat" where
  "hap_platform_os_get_msec_per_tick st = msec_per_tick (api st)"

definition vTaskDelay_ms :: "nat \<Rightarrow> ('n, 'h, 'w, 's) hap_ip_scheme \<Rightarrow> ('n, 'h, 'w, 's) hap_ip_scheme" where
  "vTaskDelay_ms ms st = do_sdk (Task_delay (ms div hap_platform_os_get_msec_per_tick st)) st"

definition esp_timer_get_time :: "('n, 'h, 'w, 's) hap_ip_scheme \<Rightarrow> int \<times> ('n, 'h, 'w, 's) hap_ip_scheme" where
  "esp_timer_get_time st = (case esp_timer_time (api st) (world st) of (t, w) \<Rightarrow> (t, st\<lparr>world := w\<rparr>))"

text \<open>The configuration of the server: the values of \<open>sdkconfig\<close>.\<close>

definition CONFIG_HAP_HTTP_SERVER_PORT :: nat where "CONFIG_HAP_HTTP_SERVER_PORT = 51826"
definition CONFIG_HAP_HTTP_CONTROL_PORT :: nat where "CONFIG_HAP_HTTP_CONTROL_PORT = 32768"
definition CONFIG_HAP_HTTP_MAX_OPEN_SOCKETS :: nat where "CONFIG_HAP_HTTP_MAX_OPEN_SOCKETS = 10"
definition CONFIG_HAP_HTTP_MAX_URI_HANDLERS :: nat where "CONFIG_HAP_HTTP_MAX_URI_HANDLERS = 10"

definition hap_platform_httpd_start ::
    "('n, 'h, 'w, 's) hap_ip_scheme \<Rightarrow> int \<times> ('n, 'h, 'w, 's) hap_ip_scheme" where
  "hap_platform_httpd_start st =
     (case sdk (Httpd_start CONFIG_HAP_HTTP_SERVER_PORT CONFIG_HAP_HTTP_CONTROL_PORT
          CONFIG_HAP_HTTP_MAX_OPEN_SOCKETS CONFIG_HAP_HTTP_MAX_URI_HANDLERS) st of
        (err, st) \<Rightarrow> (err, if err = 0 then st\<lparr>int_handle := True\<rparr> else st))"

definition hap_platform_httpd_stop ::
    "('n, 'h, 'w, 's) hap_ip_scheme \<Rightarrow> int \<times> ('n, 'h, 'w, 's) hap_ip_scheme" where
  "hap_platform_httpd_stop st =
     (case sdk Httpd_stop st of (err, st) \<Rightarrow> (err, if err = 0 then st\<lparr>int_handle := False\<rparr> else st))"

definition hap_platform_httpd_get_port :: int where
  "hap_platform_httpd_get_port = int CONFIG_HAP_HTTP_SERVER_PORT"

text \<open>A request; the pointer to it is never NULL in the handlers.\<close>

record http_req =
  rq_fd :: int
  rq_method :: http_method
  rq_uri :: string
  rq_content_len :: int
  rq_sess_ctx :: "ptr option"
  rq_free_ctx :: "free_ctx_fn option"
  rq_ignore_sess_ctx_changes :: bool

definition hap_platform_httpd_get_sess_ctx :: "http_req option \<Rightarrow> ptr option" where
  "hap_platform_httpd_get_sess_ctx req = (case req of None \<Rightarrow> None | Some r \<Rightarrow> rq_sess_ctx r)"

definition hap_platform_httpd_set_sess_ctx ::
    "http_req \<Rightarrow> ptr option \<Rightarrow> free_ctx_fn option \<Rightarrow> bool \<Rightarrow> http_req" where
  "hap_platform_httpd_set_sess_ctx req ctx free_ctx ignore_ctx_changes =
     req\<lparr>rq_sess_ctx := ctx, rq_free_ctx := free_ctx, rq_ignore_sess_ctx_changes := ignore_ctx_changes\<rparr>"

definition hap_platform_httpd_rqtype_to_string :: "http_method \<Rightarrow> string" where
  "hap_platform_httpd_rqtype_to_string m = (case m of HTTP_GET \<Rightarrow> ''GET'' | HTTP_POST \<Rightarrow> ''POST''
     | HTTP_PUT \<Rightarrow> ''PUT'' | HTTP_OTHER _ \<Rightarrow> ''INVALID'')"

definition hap_platform_httpd_get_req_method :: "http_req option \<Rightarrow> string option" where
  "hap_platform_httpd_get_req_method req = map_option (hap_platform_httpd_rqtype_to_string \<circ> rq_method) req"

definition hap_platform_httpd_get_req_uri :: "http_req option \<Rightarrow> string option" where
  "hap_platform_httpd_get_req_uri req = map_option rq_uri req"

definition hap_platform_httpd_get_content_len :: "http_req option \<Rightarrow> int" where
  "hap_platform_httpd_get_content_len req = (case req of None \<Rightarrow> - 1 | Some r \<Rightarrow> rq_content_len r)"

definition hap_platform_httpd_get_handle :: "('n, 'h, 'w, 's) hap_ip_scheme \<Rightarrow> bool" where
  "hap_platform_httpd_get_handle st = int_handle st"

text \<open>\<open>httpd_req_recv\<close>: what it returns and the bytes that it writes to the buffer.\<close>

definition httpd_req_recv ::
    "int \<Rightarrow> nat \<Rightarrow> ('n, 'h, 'w, 's) hap_ip_scheme \<Rightarrow> int \<times> byte list \<times> ('n, 'h, 'w, 's) hap_ip_scheme" where
  "httpd_req_recv fd n st = (case req_recv (api st) fd n (world st) of (r, bs, w) \<Rightarrow> (r, bs, st\<lparr>world := w\<rparr>))"

section \<open>Wi-Fi\<close>

definition HAP_TRANSPORT_WIFI :: nat where "HAP_TRANSPORT_WIFI = 1"
definition HAP_TRANSPORT_ETHERNET :: nat where "HAP_TRANSPORT_ETHERNET = 2"
definition ESP_FAIL :: int where "ESP_FAIL = - 1"
definition ESP_ERR_INVALID_ARG :: int where "ESP_ERR_INVALID_ARG = 0x102"

text \<open>\<open>provisioned\<close> is the variable that is pointed to, None for NULL.\<close>

definition hap_wifi_is_provisioned ::
    "bool option \<Rightarrow> ('n, 'h, 'w, 's) hap_ip_scheme \<Rightarrow> int \<times> bool option" where
  "hap_wifi_is_provisioned provisioned st = (case provisioned of
       None \<Rightarrow> (ESP_ERR_INVALID_ARG, None)
     | Some _ \<Rightarrow> (case wifi_get_config (api st) (world st) of (err, ssid) \<Rightarrow>
         if err \<noteq> 0 then (ESP_FAIL, Some False) else (0, Some (ssid \<noteq> []))))"

definition hap_is_network_configured :: "('n, 'h, 'w, 's) hap_ip_scheme \<Rightarrow> bool" where
  "hap_is_network_configured st =
     (if p_transport (priv st) = HAP_TRANSPORT_ETHERNET then True
      else snd (hap_wifi_is_provisioned (Some False) st) = Some True)"

definition hap_erase_network_info :: "('n, 'h, 'w, 's) hap_ip_scheme \<Rightarrow> ('n, 'h, 'w, 's) hap_ip_scheme" where
  "hap_erase_network_info st = do_sdk Wifi_restore st"

text \<open>The SSID is copied into an array of 32 bytes; NULL is dereferenced after it was reported.\<close>

definition hap_wifi_softap_start ::
    "string option \<Rightarrow> ('n, 'h, 'w, 's) hap_ip_scheme \<Rightarrow> (int \<times> ('n, 'h, 'w, 's) hap_ip_scheme) option" where
  "hap_wifi_softap_start ssid st = do {
     ssid \<leftarrow> ssid;
     let st = do_sdk (Wifi_set_mode (if wifi_get_mode (api st) (world st) = WIFI_MODE_STA
       then WIFI_MODE_APSTA else WIFI_MODE_AP)) st;
     Some (0, sdks [Wifi_set_ap_config (bytes_of (take 32 ssid)), Wifi_start] st) }"

definition hap_wifi_softap_stop :: "('n, 'h, 'w, 's) hap_ip_scheme \<Rightarrow> int \<times> ('n, 'h, 'w, 's) hap_ip_scheme" where
  "hap_wifi_softap_stop st =
     (let st = (if wifi_get_mode (api st) (world st) = WIFI_MODE_AP then do_sdk Wifi_stop st else st)
      in (0, do_sdk (Wifi_set_mode WIFI_MODE_STA) st))"

definition hap_wifi_sta_connect ::
    "byte list \<Rightarrow> ('n, 'h, 'w, 's) hap_ip_scheme \<Rightarrow> int \<times> ('n, 'h, 'w, 's) hap_ip_scheme" where
  "hap_wifi_sta_connect config st =
     (let mode = wifi_get_mode (api st) (world st) in
      (0, sdks [Wifi_set_mode (if mode = WIFI_MODE_AP \<or> mode = WIFI_MODE_APSTA then WIFI_MODE_APSTA else WIFI_MODE_STA),
        Wifi_set_sta_config config, Wifi_start, Wifi_connect] st))"

section \<open>What a call changes\<close>

lemma do_sdk_eq: "do_sdk c st = st\<lparr>world := snd (sdk_do (api st) c (world st)), sdk_log := sdk_log st @ [c]\<rparr>"
  by (cases "sdk_do (api st) c (world st)") (simp add: sdk_def do_sdk_def)

lemma sdk_simps [simp]:
  "sdk_log (do_sdk c st) = sdk_log st @ [c]"
  "api (do_sdk c st) = api st"
  "priv (do_sdk c st) = priv st"
  "sess_at (do_sdk c st) = sess_at st"
  "pv_at (do_sdk c st) = pv_at st"
  "ps_at (do_sdk c st) = ps_at st"
  "setup_ctx (do_sdk c st) = setup_ctx st"
  "char_at (do_sdk c st) = char_at st"
  "serv_at (do_sdk c st) = serv_at st"
  "acc_at (do_sdk c st) = acc_at st"
  "reported (do_sdk c st) = reported st"
  "first_announce_done (do_sdk c st) = first_announce_done st"
  "hap_http_registered (do_sdk c st) = hap_http_registered st"
  "hap_ip_services_started (do_sdk c st) = hap_ip_services_started st"
  "mdns_init_done (do_sdk c st) = mdns_init_done st"
  "mdns_handle (do_sdk c st) = mdns_handle st"
  "xQueue (do_sdk c st) = xQueue st"
  "loop_started (do_sdk c st) = loop_started st"
  "primary_acc (do_sdk c st) = primary_acc st"
  "hap_event_queue (do_sdk c st) = hap_event_queue st"
  "httpd (do_sdk c st) = httpd st"
  "crypto (do_sdk c st) = crypto st"
  "modules (do_sdk c st) = modules st"
  "uart_queue (do_sdk c st) = uart_queue st"
  "new_name (do_sdk c st) = new_name st"
  "nvs (do_sdk c st) = nvs st"
  "next_addr (do_sdk c st) = next_addr st"
  "link_at (do_sdk c st) = link_at st"
  by (simp_all add: do_sdk_eq)

lemma snd_sdk [simp]: "snd (sdk c st) = do_sdk c st"
  by (simp add: do_sdk_def)

lemma sdk_eq: "sdk c st = (fst (sdk c st), do_sdk c st)"
  by (simp add: prod_eq_iff)

lemma sdks_simps [simp]: "sdks [] st = st" "sdks (c # cs) st = sdks cs (do_sdk c st)"
  by (simp_all add: sdks_def)

end
