(* ===== verification/Hap_Mdns.thy ===== *)
theory Hap_Mdns
  imports Hap_Sdk
begin

text \<open>
  Making the accessory visible: the mDNS layer (\<open>esp_hap_mdns.c\<close>), the announcement of the service
  \<open>_hap._tcp\<close> with its TXT records, and the registration of the request handlers with the HTTP
  server (\<open>esp_hap_ip_services.c\<close>); the certification test mode (\<open>esp_hap_bct.c\<close>), which renames the
  service, and the functions of the MFi variant, of which this SDK has dummies
  (\<open>esp_mfi_dummy.c\<close>).
\<close>

section \<open>The mDNS layer\<close>

type_synonym ('n, 'h, 'w, 's) ip_result = "int \<times> ('n, 'h, 'w, 's) hap_ip_scheme"
type_synonym txt_items = "(string \<times> string option) list"

definition hap_mdns_serv_start ::
    "string option \<Rightarrow> string \<Rightarrow> string \<Rightarrow> int \<Rightarrow> txt_items \<Rightarrow> ('n, 'h, 'w, 's) hap_ip_scheme \<Rightarrow> ('n, 'h, 'w, 's) ip_result" where
  "hap_mdns_serv_start name type protocol port txt_records st =
     (case sdk (Mdns_service_add name type protocol port txt_records) (st\<lparr>mdns_handle := (type, protocol)\<rparr>) of
        (r, st) \<Rightarrow> (if r \<noteq> 0 then HAP_FAIL else HAP_SUCCESS, st))"

definition hap_mdns_serv_update_txt ::
    "txt_items \<Rightarrow> ('n, 'h, 'w, 's) hap_ip_scheme \<Rightarrow> ('n, 'h, 'w, 's) ip_result" where
  "hap_mdns_serv_update_txt txt_records st =
     (case sdk (Mdns_service_txt_set (fst (mdns_handle st)) (snd (mdns_handle st)) txt_records) st of
        (r, st) \<Rightarrow> (if r \<noteq> 0 then HAP_FAIL else HAP_SUCCESS, st))"

definition hap_mdns_serv_name_change ::
    "string \<Rightarrow> ('n, 'h, 'w, 's) hap_ip_scheme \<Rightarrow> ('n, 'h, 'w, 's) ip_result" where
  "hap_mdns_serv_name_change instance_name st =
     (case sdk (Mdns_service_instance_name_set (fst (mdns_handle st)) (snd (mdns_handle st)) instance_name) st of
        (r, st) \<Rightarrow> (if r = 0 then HAP_SUCCESS else HAP_FAIL, st))"

definition hap_mdns_serv_stop :: "('n, 'h, 'w, 's) hap_ip_scheme \<Rightarrow> ('n, 'h, 'w, 's) ip_result" where
  "hap_mdns_serv_stop st = (case sdk (Mdns_service_remove (fst (mdns_handle st)) (snd (mdns_handle st))) st of
     (r, st) \<Rightarrow> (if r = 0 then HAP_SUCCESS else HAP_FAIL, st))"

definition hap_mdns_init :: "('n, 'h, 'w, 's) hap_ip_scheme \<Rightarrow> ('n, 'h, 'w, 's) ip_result" where
  "hap_mdns_init st =
     (if \<not> mdns_init_done st then
        case sdk Mdns_init st of (ret, st) \<Rightarrow>
          if ret = 0 then (HAP_SUCCESS, (do_sdk (Mdns_hostname_set ''HomekitService'') st)\<lparr>mdns_init_done := True\<rparr>)
          else (HAP_FAIL, st)
      else (HAP_FAIL, st))"

definition hap_mdns_deinit :: "('n, 'h, 'w, 's) hap_ip_scheme \<Rightarrow> ('n, 'h, 'w, 's) ip_result" where
  "hap_mdns_deinit st = (HAP_SUCCESS, (do_sdk Mdns_free st)\<lparr>mdns_init_done := False\<rparr>)"

section \<open>The request handlers\<close>

definition HAP_FF_HARDWARE_AUTH :: byte where "HAP_FF_HARDWARE_AUTH = 0x01"
definition HAP_FF_SW_TOKEN_AUTH :: byte where "HAP_FF_SW_TOKEN_AUTH = 0x02"
definition HAP_SF_ACC_UNPAIRED :: byte where "HAP_SF_ACC_UNPAIRED = 0x01"
definition HAP_SF_ACC_UNCONFIGURED :: byte where "HAP_SF_ACC_UNCONFIGURED = 0x02"

definition hap_register_secure_message_handler :: int where "hap_register_secure_message_handler = ESP_FAIL"
definition hap_unregister_secure_message_handler :: int where "hap_unregister_secure_message_handler = ESP_FAIL"
definition hap_enable_hw_auth :: int where "hap_enable_hw_auth = ESP_FAIL"
definition hap_enable_sw_auth :: int where "hap_enable_sw_auth = ESP_FAIL"
definition hap_wac_start :: int where "hap_wac_start = ESP_FAIL"
definition hap_wac_stop :: int where "hap_wac_stop = ESP_FAIL"

definition hap_pair_setup :: "string \<times> http_method" where "hap_pair_setup = (''/pair-setup'', HTTP_POST)"
definition hap_pair_verify :: "string \<times> http_method" where "hap_pair_verify = (''/pair-verify'', HTTP_POST)"
definition hap_pairings :: "string \<times> http_method" where "hap_pairings = (''/pairings'', HTTP_POST)"
definition hap_accessories :: "string \<times> http_method" where "hap_accessories = (''/accessories'', HTTP_GET)"
definition hap_characteristics_get :: "string \<times> http_method" where "hap_characteristics_get = (''/characteristics'', HTTP_GET)"
definition hap_characteristics_put :: "string \<times> http_method" where "hap_characteristics_put = (''/characteristics'', HTTP_PUT)"
definition hap_identify :: "string \<times> http_method" where "hap_identify = (''/identify'', HTTP_POST)"
definition hap_prepare :: "string \<times> http_method" where "hap_prepare = (''/prepare'', HTTP_PUT)"
definition hap_mqtthost :: "string \<times> http_method" where "hap_mqtthost = (''/mqtthost'', HTTP_PUT)"

lemmas handler_defs = hap_pair_setup_def hap_pair_verify_def hap_pairings_def hap_accessories_def
  hap_characteristics_get_def hap_characteristics_put_def hap_identify_def hap_prepare_def hap_mqtthost_def

text \<open>With software authentication the dummy of the secure message handler is called, which does nothing.\<close>

definition hap_register_http_handlers :: "('n, 'h, 'w, 's) hap_ip_scheme \<Rightarrow> ('n, 'h, 'w, 's) ip_result" where
  "hap_register_http_handlers st =
     (let st = (if \<not> hap_http_registered st
        then sdks (map (\<lambda>(uri, m). Register_uri uri m) [hap_pair_setup, hap_pair_verify, hap_pairings, hap_accessories,
          hap_characteristics_get, hap_characteristics_put, hap_identify, hap_prepare, hap_mqtthost]) st
        else st)
      in (HAP_SUCCESS, st\<lparr>hap_http_registered := True\<rparr>))"

definition hap_unregister_http_handlers :: "('n, 'h, 'w, 's) hap_ip_scheme \<Rightarrow> ('n, 'h, 'w, 's) ip_result" where
  "hap_unregister_http_handlers st =
     (let st = (if hap_http_registered st
        then sdks [Unregister_uri ''/pair-setup'' HTTP_POST, Unregister_uri ''/pair-verify'' HTTP_POST,
          Unregister_uri ''/pairings'' HTTP_POST, Unregister_uri ''/accessories'' HTTP_GET,
          Unregister_uri ''/characteristics'' HTTP_GET, Unregister_uri ''/characteristics'' HTTP_PUT,
          Unregister_uri ''/identify'' HTTP_POST, Unregister_uri ''/prepare'' HTTP_PUT] st
        else st)
      in (HAP_SUCCESS, st\<lparr>hap_http_registered := False\<rparr>))"

definition hap_httpd_start :: "('n, 'h, 'w, 's) hap_ip_scheme \<Rightarrow> ('n, 'h, 'w, 's) ip_result" where
  "hap_httpd_start st = (case hap_platform_httpd_start st of (r, st) \<Rightarrow> (if r = 0 then HAP_SUCCESS else HAP_FAIL, st))"

definition hap_http_debug_enable :: "('n, 'h, 'w, 's) hap_ip_scheme \<Rightarrow> ('n, 'h, 'w, 's) hap_ip_scheme" where
  "hap_http_debug_enable st = st\<lparr>http_debug := True\<rparr>"

definition hap_http_debug_disable :: "('n, 'h, 'w, 's) hap_ip_scheme \<Rightarrow> ('n, 'h, 'w, 's) hap_ip_scheme" where
  "hap_http_debug_disable st = st\<lparr>http_debug := False\<rparr>"

definition hap_http_send_notif :: "('n, 'h, 'w, 's) hap_ip_scheme \<Rightarrow> ('n, 'h, 'w, 's) hap_ip_scheme" where
  "hap_http_send_notif st = do_sdk Queue_work_notification st"

section \<open>The announcement\<close>

definition hap_mdns_deannounce :: "('n, 'h, 'w, 's) hap_ip_scheme \<Rightarrow> ('n, 'h, 'w, 's) ip_result" where
  "hap_mdns_deannounce st =
     (if first_announce_done st then
        case hap_mdns_serv_stop st of (ret, st) \<Rightarrow>
          if ret = HAP_SUCCESS then (ret, (vTaskDelay_ms 2000 st)\<lparr>first_announce_done := False\<rparr>) else (ret, st)
      else (HAP_SUCCESS, st))"

text \<open>The features and the status flags as bits.\<close>

definition announced_features :: "('n, 'h, 'w, 's) hap_ip_scheme \<Rightarrow> byte" where
  "announced_features st =
     (if p_features (priv st) AND HAP_FF_HARDWARE_AUTH \<noteq> 0 then HAP_FF_HARDWARE_AUTH
      else if p_features (priv st) AND HAP_FF_SW_TOKEN_AUTH \<noteq> 0 then HAP_FF_SW_TOKEN_AUTH else 0)"

definition status_flags :: "('n, 'h, 'w, 's) hap_ip_scheme \<Rightarrow> byte" where
  "status_flags st = (if is_accessory_paired st then 0 else HAP_SF_ACC_UNPAIRED) OR
     (if hap_is_network_configured st then 0 else HAP_SF_ACC_UNCONFIGURED)"

text \<open>
  The configuration number, features and their like are written before the state number is
  incremented, and these fields do not change with it: the records are taken from the last state.
\<close>

definition announce_txt :: "('n, 'h, 'w, 's) hap_ip_scheme \<Rightarrow> txt_items" where
  "announce_txt st = [
     (''c#'', Some (snprintf 6 (int_str (sint (p_config_num (priv st)))))),
     (''ff'', Some (snprintf 4 (int_str (uint (announced_features st))))),
     (''id'', Some (p_acc_id (priv st))),
     (''md'', cfg_model (p_primary_acc (priv st))),
     (''pv'', Some ''1.1''),
     (''s#'', Some (snprintf 6 (int_str (uint (p_state_num (priv st)))))),
     (''sf'', Some (snprintf 4 (int_str (uint (status_flags st))))),
     (''ci'', Some (snprintf 4 (int_str (int (p_cid (priv st)))))),
     (''sh'', Some (p_setup_hash_str (priv st)))]"

definition hap_mdns_announce :: "bool \<Rightarrow> ('n, 'h, 'w, 's) hap_ip_scheme \<Rightarrow> ('n, 'h, 'w, 's) ip_result option" where
  "hap_mdns_announce first st = do {
     let st = (if first then st\<lparr>first_announce_done := False\<rparr> else st);
     st \<leftarrow> (if first_announce_done st \<and> is_accessory_paired st then hap_increment_and_save_state_num st else Some st);
     let txt = announce_txt st;
     let (ret, st) = (if \<not> first_announce_done st then
         case hap_mdns_serv_start (cfg_name (p_primary_acc (priv st))) ''_hap'' ''_tcp'' hap_platform_httpd_get_port txt st of
           (ret, st) \<Rightarrow> (ret, st\<lparr>first_announce_done := True\<rparr>)
       else hap_mdns_serv_update_txt txt st);
     Some (if ret \<noteq> 0 then HAP_FAIL else HAP_SUCCESS, st) }"

definition hap_ip_services_start :: "('n, 'h, 'w, 's) hap_ip_scheme \<Rightarrow> ('n, 'h, 'w, 's) ip_result option" where
  "hap_ip_services_start st =
     (if hap_ip_services_started st then Some (HAP_SUCCESS, st)
      else do {
        let st = snd (hap_register_http_handlers st);
        (r, st) \<leftarrow> hap_mdns_announce False st;
        if r \<noteq> HAP_SUCCESS then Some (HAP_FAIL, snd (hap_unregister_http_handlers st))
        else Some (HAP_SUCCESS, st\<lparr>hap_ip_services_started := True\<rparr>) })"

section \<open>The certification test mode\<close>

definition hap_bct_change_name :: "string \<Rightarrow> ('n, 'h, 'w, 's) hap_ip_scheme \<Rightarrow> ('n, 'h, 'w, 's) hap_ip_scheme" where
  "hap_bct_change_name name st =
     (case strdup name st of (n, st) \<Rightarrow> snd (hap_send_event HAP_INTERNAL_EVENT_BCT_CHANGE_NAME (st\<lparr>new_name := n\<rparr>)))"

definition hap_bct_hot_plug :: "('n, 'h, 'w, 's) hap_ip_scheme \<Rightarrow> ('n, 'h, 'w, 's) hap_ip_scheme" where
  "hap_bct_hot_plug st = snd (hap_send_event HAP_INTERNAL_EVENT_BCT_HOT_PLUG st)"

definition hap_handle_bct_change_name :: "('n, 'h, 'w, 's) hap_ip_scheme \<Rightarrow> ('n, 'h, 'w, 's) hap_ip_scheme" where
  "hap_handle_bct_change_name st = (case new_name st of
       None \<Rightarrow> st
     | Some n \<Rightarrow> (snd (hap_mdns_serv_name_change n st))\<lparr>new_name := None\<rparr>)"

text \<open>Ten seconds, with the tick of the port.\<close>

definition hap_handle_hot_plug :: "('n, 'h, 'w, 's) hap_ip_scheme \<Rightarrow> ('n, 'h, 'w, 's) hap_ip_scheme" where
  "hap_handle_hot_plug st = sdks [Wifi_start, Wifi_connect] (vTaskDelay_ms 10000 (do_sdk Wifi_stop st))"

section \<open>Announcing\<close>

lemma api_fields [simp]:
  "api (st\<lparr>nvs := n\<rparr>) = api st" "world (st\<lparr>nvs := n\<rparr>) = world st" "sdk_log (st\<lparr>nvs := n\<rparr>) = sdk_log st"
  "first_announce_done (st\<lparr>nvs := n\<rparr>) = first_announce_done st" "mdns_handle (st\<lparr>nvs := n\<rparr>) = mdns_handle st"
  "api (upd_priv f st) = api st" "world (upd_priv f st) = world st" "sdk_log (upd_priv f st) = sdk_log st"
  "first_announce_done (upd_priv f st) = first_announce_done st" "mdns_handle (upd_priv f st) = mdns_handle st"
  by (simp_all add: upd_priv_def)

text \<open>The next state number: it skips 0.\<close>

definition next_state_num :: "u16 \<Rightarrow> u16" where
  "next_state_num n = (if n + 1 = 0 then 1 else n + 1)"

lemma state_num_saved:
  assumes "ks_ready st" "is_accessory_paired st"
  shows "\<exists>m. hap_increment_and_save_state_num st =
    Some ((upd_priv (\<lambda>p. p\<lparr>p_state_num := next_state_num (p_state_num p)\<rparr>) st)\<lparr>nvs := m\<rparr>)"
proof -
  let ?st = "upd_priv (\<lambda>p. p\<lparr>p_state_num := next_state_num (p_state_num p)\<rparr>) st"
  have "ks_ready ?st" using assms by simp
  from keystore_save_effect [OF this, of HAP_KEY_STATE_NUM "\<lambda>p. le_bytes 2 (p_state_num p)"]
  obtain m where "hap_save_state_number ?st = Some (?st\<lparr>nvs := m\<rparr>)"
    unfolding hap_save_state_number_def by blast
  then show ?thesis using assms(2)
    by (auto simp: hap_increment_and_save_state_num_def Let_def next_state_num_def upd_priv_def cong: if_cong)
qed

lemma announce_txt_nvs [simp]: "announce_txt (st\<lparr>nvs := n\<rparr>) = announce_txt st"
  by (simp add: announce_txt_def announced_features_def status_flags_def hap_is_network_configured_def
    hap_wifi_is_provisioned_def is_accessory_paired_def)

text \<open>What an announcement is: a repeated one, the state whose records it shows, and the call.\<close>

definition announce_again :: "bool \<Rightarrow> ('n, 'h, 'w, 's) hap_ip_scheme \<Rightarrow> bool" where
  "announce_again first st \<longleftrightarrow> \<not> first \<and> first_announce_done st"

definition announce_state :: "bool \<Rightarrow> ('n, 'h, 'w, 's) hap_ip_scheme \<Rightarrow> ('n, 'h, 'w, 's) hap_ip_scheme" where
  "announce_state first st = (if announce_again first st \<and> is_accessory_paired st
     then upd_priv (\<lambda>p. p\<lparr>p_state_num := next_state_num (p_state_num p)\<rparr>) st else st)"

definition announce_call :: "bool \<Rightarrow> ('n, 'h, 'w, 's) hap_ip_scheme \<Rightarrow> sdk_call" where
  "announce_call first st = (let txt = announce_txt (announce_state first st) in
     if announce_again first st then Mdns_service_txt_set (fst (mdns_handle st)) (snd (mdns_handle st)) txt
     else Mdns_service_add (cfg_name (p_primary_acc (priv st))) ''_hap'' ''_tcp'' 51826 txt)"

lemma announce_txt_frame [simp]:
  "announce_txt (st\<lparr>first_announce_done := b\<rparr>) = announce_txt st"
  by (simp add: announce_txt_def announced_features_def status_flags_def hap_is_network_configured_def
    hap_wifi_is_provisioned_def is_accessory_paired_def)

lemma paired_frame [simp]:
  "is_accessory_paired (st\<lparr>first_announce_done := b\<rparr>) = is_accessory_paired st"
  "ks_ready (st\<lparr>first_announce_done := b\<rparr>) = ks_ready st"
  by (simp_all add: is_accessory_paired_def ks_ready_def)



text \<open>An SDK whose calls succeed, and a device on it, for the examples.\<close>

definition demo_api :: "'w sdk_api" where
  "demo_api = \<lparr>sdk_do = \<lambda>c w. (0, w), req_recv = \<lambda>fd n w. (0, [], w), esp_timer_time = \<lambda>w. (5000000, w),
     wifi_get_config = \<lambda>w. (0, ''home''), wifi_get_mode = \<lambda>w. WIFI_MODE_STA, req_url_query = \<lambda>uri. uri,
     query_key_value = \<lambda>q k n. (0, q), base64_decode = \<lambda>s. None, c_strtof = \<lambda>s. (0, 0), msec_per_tick = 10\<rparr>"

definition boot_ip :: "(kv, string \<times> string, streams) hap_ip" where
  "boot_ip = hap_net.extend boot_net \<lparr>api = demo_api, sdk_log = [], int_handle = False, http_debug = False,
     hap_http_registered = False, first_announce_done = False, hap_ip_services_started = False,
     mdns_init_done = False, mdns_handle = ('''', ''''), new_name = None, modules = [], uart_queue = []\<rparr>"

lemma boot_ip_simps [simp]:
  "sdk_log boot_ip = []" "api boot_ip = demo_api" "nvs boot_ip = nvs boot_net" "priv boot_ip = zero_priv"
  "sess_at boot_ip = Map.empty" "first_announce_done boot_ip = False" "xQueue boot_ip = xQueue boot_net"
  "char_at boot_ip = Map.empty" "serv_at boot_ip = Map.empty" "acc_at boot_ip = Map.empty"
  "memory_ok boot_ip" "sdk_do demo_api = (\<lambda>c w. (0, w))"
  by (simp_all add: boot_ip_def demo_api_def boot_net_def hap_net.defs memory_ok_def boot_sys_def hap_sys.defs hap_ks.defs boot_ks_def
    hap_objs.defs boot_objs_def)

lemma boot_ip_ready: "ks_ready boot_ip"
  by (simp add: ks_ready_def boot_ip_def hap_net.defs boot_net_def hap_sys.defs boot_sys_def hap_ks.defs boot_ks_def
    hap_objs.defs map_nvs_lawful)


end
