(* ===== verification/Ip_Pairing.thy ===== *)
theory Ip_Pairing
  imports Hap_Mdns Setup_Exchange
begin

text \<open>
  The request handlers of \<open>esp_hap_ip_services.c\<close> for pairing: \<open>/pair-setup\<close>, \<open>/pair-verify\<close>,
  \<open>/pairings\<close>, and the small ones: \<open>/identify\<close>, \<open>/prepare\<close> and \<open>/mqtthost\<close>.

  A handler takes the request and gives its result, the request with the session context that it
  leaves there (which the server stores in the connection), and the new state. Its buffers on the
  stack are uninitialised.
\<close>

section \<open>The code\<close>

type_synonym ('n, 'h, 'w, 's) handled = "int \<times> http_req \<times> ('n, 'h, 'w, 's) hap_ip_scheme"

text \<open>Constants of \<open>esp_http_server.h\<close>.\<close>

definition HTTPD_200 :: string where "HTTPD_200 = ''200 OK''"
definition HTTPD_204 :: string where "HTTPD_204 = ''204 No Content''"
definition HTTPD_207 :: string where "HTTPD_207 = ''207 Multi-Status''"
definition HTTPD_400 :: string where "HTTPD_400 = ''400 Bad Request''"
definition HTTPD_500 :: string where "HTTPD_500 = ''500 Internal Server Error''"

definition crlf :: string where "crlf = [CHR 0x0D, CHR 0x0A]"

text \<open>The bodies \<open>{"status":n}\<close>.\<close>

definition status_body :: "int \<Rightarrow> string" where
  "status_body n = ''{'' @ key ''status'' @ int_str n @ ''}''"

definition send_json :: "int \<Rightarrow> string \<Rightarrow> ('n, 'h, 'w, 's) hap_ip_scheme \<Rightarrow> ('n, 'h, 'w, 's) hap_ip_scheme" where
  "send_json fd s st = do_sdk (Resp_send fd (bytes_of s)) st"

definition hap_http_session_not_authorized ::
    "int \<Rightarrow> ('n, 'h, 'w, 's) hap_ip_scheme \<Rightarrow> ('n, 'h, 'w, 's) ip_result" where
  "hap_http_session_not_authorized fd st =
     (HAP_SUCCESS, send_json fd (status_body (- 70401))
       (sdks [Resp_set_status fd ''470 Connection Authorization Required'', Resp_set_type fd ''application/hap+json''] st))"

text \<open>The loop that fills the buffer; the server never returns more bytes than it was asked for.\<close>

partial_function (option) get_data_loop ::
    "int \<Rightarrow> int \<Rightarrow> int \<Rightarrow> byte list \<Rightarrow> ('n, 'h, 'w, 's) hap_ip_scheme \<Rightarrow>
     (int \<times> byte list \<times> ('n, 'h, 'w, 's) hap_ip_scheme) option" where
  "get_data_loop fd len read_len buffer st =
     (if read_len < len then
        case httpd_req_recv fd (nat (len - read_len)) st of (tmp_len, bs, st) \<Rightarrow> do {
          buffer \<leftarrow> wr_block buffer read_len bs;
          if tmp_len \<le> 0 then Some (read_len, buffer, st)
          else get_data_loop fd len (read_len + tmp_len) buffer st }
      else Some (read_len, buffer, st))"

declare get_data_loop.simps [code]

definition hap_httpd_get_data ::
    "int \<Rightarrow> byte list \<Rightarrow> int \<Rightarrow> ('n, 'h, 'w, 's) hap_ip_scheme \<Rightarrow>
     (int \<times> byte list \<times> ('n, 'h, 'w, 's) hap_ip_scheme) option" where
  "hap_httpd_get_data fd buffer len st = get_data_loop fd len 0 buffer st"

text \<open>One call of \<open>httpd_req_recv\<close> into a buffer, and a reply of \<open>outlen\<close> bytes of it.\<close>

definition recv_into ::
    "int \<Rightarrow> byte list \<Rightarrow> ('n, 'h, 'w, 's) hap_ip_scheme \<Rightarrow>
     (int \<times> byte list \<times> ('n, 'h, 'w, 's) hap_ip_scheme) option" where
  "recv_into fd buf st = (case httpd_req_recv fd (length buf) st of (r, bs, st) \<Rightarrow> do {
     buf \<leftarrow> wr_block buf 0 bs; Some (r, buf, st) })"

definition tlv_reply ::
    "int \<Rightarrow> byte list \<Rightarrow> int \<Rightarrow> ('n, 'h, 'w, 's) hap_ip_scheme \<Rightarrow> ('n, 'h, 'w, 's) ip_result option" where
  "tlv_reply fd buf outlen st = do {
     out \<leftarrow> rd_block buf 0 outlen;
     Some (sdk (Resp_send fd out) (do_sdk (Resp_set_type fd ''application/pairing+tlv8'') st)) }"

text \<open>The session becomes the context of the connection, and its frames are encrypted from now on.\<close>

definition open_session :: "http_req \<Rightarrow> ptr \<Rightarrow> ('n, 'h, 'w, 's) hap_ip_scheme \<Rightarrow> http_req \<times> ('n, 'h, 'w, 's) hap_ip_scheme" where
  "open_session req q st =
     (hap_platform_httpd_set_sess_ctx req (Some q) (Some Free_session) True,
      sdks [Sess_set_send_override (rq_fd req), Sess_set_recv_override (rq_fd req)] st)"

definition hap_http_pair_setup_handler ::
    "http_req \<Rightarrow> ('n, 'h, 'w, 's) hap_ip_scheme \<Rightarrow> ('n, 'h, 'w, 's) handled option" where
  "hap_http_pair_setup_handler req st = do {
     let fd = rq_fd req; let ctx = rq_sess_ctx req; let buf = stack_array 1200 st;
     (busy, req, ctx, buf, outlen, st) \<leftarrow> (if ctx = None then do {
         (ctx, ret, buf, outlen, st) \<leftarrow> hap_pair_setup_context_init fd ctx buf st;
         Some (ret \<noteq> HAP_SUCCESS, if ret = HAP_SUCCESS
           then hap_platform_httpd_set_sess_ctx req ctx (Some Free_pair_setup) True else req, ctx, buf, outlen, st) }
       else Some (False, req, ctx, buf, 0, st));
     if busy then do { (_, st) \<leftarrow> tlv_reply fd buf outlen st; Some (HAP_SUCCESS, req, st) }
     else do {
       (data_len, buf, st) \<leftarrow> recv_into fd buf st;
       (ctx, ret, buf, outlen, st) \<leftarrow> hap_pair_setup_process ctx buf data_len st;
       (ret1, st) \<leftarrow> tlv_reply fd buf outlen st;
       (ctx, req, st) \<leftarrow> (if ret \<noteq> HAP_SUCCESS then do {
           st \<leftarrow> hap_pair_setup_ctx_clean ctx st; Some (None, req, st) }
         else do {
           s \<leftarrow> hap_pair_verify_get_state ctx st;
           if s = STATE_VERIFIED then do {
             q \<leftarrow> ctx;
             st \<leftarrow> upd_sess q (\<lambda>s. s\<lparr>ss_conn_identifier := fd\<rparr>) st;
             let (req, st) = open_session req q st;
             Some (ctx, req, st) }
           else Some (ctx, req, st) });
       Some (ret1, if ctx = None then hap_platform_httpd_set_sess_ctx req None None True else req, st) } }"

text \<open>
  The failed calls of \<open>setsockopt\<close> are only reported on the console. On an error of
  \<open>hap_pair_verify_context_init\<close> the handler goes on with no context.
\<close>

definition hap_http_pair_verify_handler ::
    "http_req \<Rightarrow> ('n, 'h, 'w, 's) hap_ip_scheme \<Rightarrow> ('n, 'h, 'w, 's) handled option" where
  "hap_http_pair_verify_handler req st = do {
     let fd = rq_fd req; let ctx = rq_sess_ctx req; let buf = stack_array 512 st;
     (req, ctx, buf, st) \<leftarrow> (if ctx = None then do {
         (ctx, ret, buf, outlen, st) \<leftarrow> hap_pair_verify_context_init ctx buf st;
         Some (if ret = HAP_SUCCESS then hap_platform_httpd_set_sess_ctx req ctx None True else req, ctx, buf, st) }
       else Some (req, ctx, buf, st));
     (data_len, buf, st) \<leftarrow> recv_into fd buf st;
     (ctx, ret, buf, outlen, st) \<leftarrow> hap_pair_verify_process ctx buf data_len st;
     (ret1, st) \<leftarrow> tlv_reply fd buf outlen st;
     if ret \<noteq> HAP_SUCCESS then Some (ret1, req, st)
     else do {
       s \<leftarrow> hap_pair_verify_get_state ctx st;
       if s = STATE_VERIFIED then do {
         q \<leftarrow> ctx;
         st \<leftarrow> upd_sess q (\<lambda>s. s\<lparr>ss_conn_identifier := fd\<rparr>) st;
         let st = sdks [Setsockopt fd ''SO_RCVTIMEO'' (uint (recv_timeout (p_cfg (priv st)))),
           Setsockopt fd ''SO_SNDTIMEO'' (uint (send_timeout (p_cfg (priv st))))] st;
         let (req, st) = open_session req q st;
         Some (ret1, req, st) }
       else Some (ret1, req, st) } }"

definition hap_http_pairings_handler ::
    "http_req \<Rightarrow> ('n, 'h, 'w, 's) hap_ip_scheme \<Rightarrow> ('n, 'h, 'w, 's) handled option" where
  "hap_http_pairings_handler req st = do {
     let fd = rq_fd req; let ctx = rq_sess_ctx req;
     (data_len, buf, st) \<leftarrow> recv_into fd (stack_array 2048 st) st;
     secure \<leftarrow> hap_is_req_secure ctx st;
     let st = (if secure then st else do_sdk (Resp_set_status fd ''470 Connection Authorization Required'') st);
     (ret, buf, outlen, st) \<leftarrow> hap_pairings_process ctx buf data_len st;
     (r, st) \<leftarrow> tlv_reply fd buf outlen st;
     Some (r, req, st) }"

text \<open>The status line of the responses that the code writes itself.\<close>

definition status_line :: "string \<Rightarrow> byte list" where
  "status_line s = bytes_of (''HTTP/1.1 '' @ s @ crlf @ crlf)"

text \<open>\<open>identify f ha\<close> is the identify routine number \<open>f\<close> of the application.\<close>

definition hap_http_post_identify ::
    "(nat \<Rightarrow> ptr \<Rightarrow> ('n, 'h, 'w, 's) hap_ip_scheme \<Rightarrow> ('n, 'h, 'w, 's) hap_ip_scheme option) \<Rightarrow>
     http_req \<Rightarrow> ('n, 'h, 'w, 's) hap_ip_scheme \<Rightarrow> ('n, 'h, 'w, 's) handled option" where
  "hap_http_post_identify identify req st = (let fd = rq_fd req in
     if is_accessory_paired st then
       Some (HAP_SUCCESS, req, send_json fd (status_body (- 70401))
         (sdks [Resp_set_status fd HTTPD_400, Resp_set_type fd ''application/hap+json''] st))
     else do {
       ha \<leftarrow> hap_get_first_acc st;
       a \<leftarrow> acc_at st ha;
       f \<leftarrow> a_identify_routine a;
       st \<leftarrow> identify f ha st;
       Some (HAP_SUCCESS, req, do_sdk (Httpd_send fd (status_line HTTPD_204)) st) })"

text \<open>The text in a buffer of which \<open>n\<close> bytes are parsed.\<close>

definition text_of :: "int \<Rightarrow> byte list \<Rightarrow> string" where
  "text_of n buf = map (\<lambda>b. char_of (unat b)) (take (nat n) buf)"

definition server_error :: "int \<Rightarrow> ('n, 'h, 'w, 's) hap_ip_scheme \<Rightarrow> ('n, 'h, 'w, 's) ip_result" where
  "server_error fd st = sdk (Resp_send fd []) (do_sdk (Resp_set_status fd HTTPD_500) st)"

definition hap_http_put_prepare ::
    "http_req \<Rightarrow> ('n, 'h, 'w, 's) hap_ip_scheme \<Rightarrow> ('n, 'h, 'w, 's) handled option" where
  "hap_http_put_prepare req st = do {
     let fd = rq_fd req; let session = rq_sess_ctx req;
     secure \<leftarrow> hap_is_req_secure session st;
     if \<not> secure then (case hap_http_session_not_authorized fd st of (r, st) \<Rightarrow> Some (r, req, st))
     else do {
       (data_len, buf, st) \<leftarrow> recv_into fd (replicate 512 0) st;
       if data_len < 0 then (case server_error fd st of (r, st) \<Rightarrow> Some (r, req, st))
       else do {
         (ret, jctx, st) \<leftarrow> json_parse_start (text_of data_len buf) st;
         if ret \<noteq> HAP_SUCCESS then (case server_error fd st of (r, st) \<Rightarrow> Some (r, req, st))
         else do {
           let st = do_sdk (Resp_set_type fd ''application/hap+json'') st;
           pid \<leftarrow> json_obj_get_int64 jctx ''pid'';
           ttl \<leftarrow> (if pid = None then Some None else json_obj_get_int64 jctx ''ttl'');
           (out, st) \<leftarrow> (case (pid, ttl) of
               (Some pid, Some ttl) \<Rightarrow> do {
                 let (t, st) = esp_timer_get_time st;
                 q \<leftarrow> session;
                 st \<leftarrow> upd_sess q (\<lambda>s. s\<lparr>ss_pid := of_int pid, ss_ttl := ttl, ss_prepare_time := t div 1000\<rparr>) st;
                 Some (status_body 0, st) }
             | _ \<Rightarrow> Some (status_body (- 70410), st));
           Some (HAP_SUCCESS, req, send_json fd out st) } } } }"

text \<open>
  A body is read to the stack, or to the heap when it has more than 512 bytes; the comparison with
  \<open>sizeof\<close> is unsigned. The result is None (inside) when the heap buffer could not be allocated.
\<close>

definition read_body ::
    "http_req \<Rightarrow> ('n, 'h, 'w, 's) hap_ip_scheme \<Rightarrow>
     ((int \<times> byte list) option \<times> ('n, 'h, 'w, 's) hap_ip_scheme) option" where
  "read_body req st = do {
     let content_len = rq_content_len req;
     let (inbuf, st) = (if uint (of_int content_len :: u32) > 512
       then (case new_addr st of (a, st) \<Rightarrow> (map_option (\<lambda>_. replicate (nat (content_len + 1)) 0) a, st))
       else (Some (replicate 512 0), st));
     case inbuf of
       None \<Rightarrow> Some (None, st)
     | Some inbuf \<Rightarrow> do {
         (data_len, inbuf, st) \<leftarrow> hap_httpd_get_data (rq_fd req) inbuf content_len st;
         Some (Some (data_len, inbuf), st) } }"

definition hap_http_put_mqtthost ::
    "http_req \<Rightarrow> ('n, 'h, 'w, 's) hap_ip_scheme \<Rightarrow> ('n, 'h, 'w, 's) handled option" where
  "hap_http_put_mqtthost req st = do {
     let fd = rq_fd req;
     (body, st) \<leftarrow> read_body req st;
     case body of
       None \<Rightarrow> (case server_error fd st of (r, st) \<Rightarrow> Some (r, req, st))
     | Some (data_len, inbuf) \<Rightarrow>
         if data_len < 0 then (case server_error fd st of (r, st) \<Rightarrow> Some (r, req, st))
         else do {
           (ret, jctx, st) \<leftarrow> json_parse_start (text_of data_len inbuf) st;
           if ret \<noteq> HAP_SUCCESS then (case server_error fd st of (r, st) \<Rightarrow> Some (r, req, st))
           else Some (HAP_SUCCESS, req, sdks [Resp_set_type fd ''application/json'', Resp_set_status fd HTTPD_200,
             Httpd_send fd (status_line HTTPD_200)] st) } }"

end
