(* ===== verification/Ip_Chars.thy ===== *)
theory Ip_Chars
  imports Ip_Pairing
begin

text \<open>
  Reading the accessory database over HTTP (\<open>esp_hap_ip_services.c\<close>): the JSON form of values,
  characteristics, services and accessories, and the handlers of \<open>GET /accessories\<close> and
  \<open>GET /characteristics\<close>.

  The state of the JSON generator is passed along with the state of the library; the callback of the
  generator sends a chunk of the response. The read routines of the application are parameters.
\<close>

section \<open>Values and characteristics\<close>

type_synonym ('n, 'h, 'w, 's) ip_gen = "('n, 'h, 'w, 's) hap_ip_scheme jgen"

text \<open>A generator that depends on the state, and a change of the state that writes nothing.\<close>

definition gen_of :: "('st \<Rightarrow> 'st jgen) \<Rightarrow> 'st jgen" where
  "gen_of f jstr st = f st jstr st"

definition gen_upd :: "('st \<Rightarrow> 'st option) \<Rightarrow> 'st jgen" where
  "gen_upd f jstr st = do { st \<leftarrow> f st; Some (0, jstr, st) }"

definition gen_skip :: "'st jgen" where
  "gen_skip jstr st = Some (HAP_SUCCESS, jstr, st)"

definition gen_if :: "bool \<Rightarrow> 'st jgen \<Rightarrow> 'st jgen" where
  "gen_if b f = (if b then f else gen_skip)"

fun gens :: "'st jgen list \<Rightarrow> 'st jgen" where
  "gens [] = gen_skip"
| "gens (f # fs) = gen_then f (gens fs)"

text \<open>The pieces of 60 bytes that are encoded one by one.\<close>

function pieces60 :: "byte list \<Rightarrow> byte list list" where
  "pieces60 bs = (if bs = [] then [] else take 60 bs # pieces60 (drop 60 bs))"
  by pat_completeness auto
termination by (relation "measure length") auto

declare pieces60.simps [simp del]

definition hap_add_char_val_json :: "hap_char_format \<Rightarrow> string \<Rightarrow> hap_val \<Rightarrow> ('n, 'h, 'w, 's) ip_gen" where
  "hap_add_char_val_json format k val jstr st = (case format of
       HAP_CHAR_FORMAT_BOOL \<Rightarrow> json_gen_obj_set_bool k (val_b val) jstr st
     | HAP_CHAR_FORMAT_UINT8 \<Rightarrow> json_gen_obj_set_int k (val_i val) jstr st
     | HAP_CHAR_FORMAT_UINT16 \<Rightarrow> json_gen_obj_set_int k (val_i val) jstr st
     | HAP_CHAR_FORMAT_UINT32 \<Rightarrow> json_gen_obj_set_int k (val_i val) jstr st
     | HAP_CHAR_FORMAT_INT \<Rightarrow> json_gen_obj_set_int k (val_i val) jstr st
     | HAP_CHAR_FORMAT_FLOAT \<Rightarrow> json_gen_obj_set_float k (val_f val) jstr st
     | HAP_CHAR_FORMAT_STRING \<Rightarrow> (case val_s val of
           Some s \<Rightarrow> json_gen_obj_set_string k (Some s) jstr st
         | None \<Rightarrow> json_gen_obj_set_null k jstr st)
     | HAP_CHAR_FORMAT_UINT64 \<Rightarrow> gen_skip jstr st
     | HAP_CHAR_FORMAT_NONE \<Rightarrow> gen_skip jstr st
     | _ \<Rightarrow> (case dv_buf (val_d val) of
           Some buf \<Rightarrow> do {
             bs \<leftarrow> rd_block buf 0 (uint (dv_buflen (val_d val)));
             gen_then (json_gen_obj_start_long_string k None)
               (gen_then (gen_list (\<lambda>p. json_gen_add_to_long_string (Some (base64_encode (env st) p))) (pieces60 bs))
                 json_gen_end_long_string) jstr st }
         | None \<Rightarrow> json_gen_obj_set_null k jstr st))"

definition hap_add_char_format_json :: "hap_char \<Rightarrow> 'st jgen" where
  "hap_add_char_format_json hc = (case c_format hc of
       HAP_CHAR_FORMAT_UINT8 \<Rightarrow> json_gen_obj_set_string ''format'' (Some ''uint8'')
     | HAP_CHAR_FORMAT_UINT16 \<Rightarrow> json_gen_obj_set_string ''format'' (Some ''uint16'')
     | HAP_CHAR_FORMAT_UINT32 \<Rightarrow> json_gen_obj_set_string ''format'' (Some ''uint32'')
     | HAP_CHAR_FORMAT_INT \<Rightarrow> json_gen_obj_set_string ''format'' (Some ''int'')
     | HAP_CHAR_FORMAT_BOOL \<Rightarrow> json_gen_obj_set_string ''format'' (Some ''bool'')
     | HAP_CHAR_FORMAT_STRING \<Rightarrow> json_gen_obj_set_string ''format'' (Some ''string'')
     | HAP_CHAR_FORMAT_FLOAT \<Rightarrow> json_gen_obj_set_string ''format'' (Some ''float'')
     | HAP_CHAR_FORMAT_DATA \<Rightarrow> json_gen_obj_set_string ''format'' (Some ''data'')
     | HAP_CHAR_FORMAT_TLV8 \<Rightarrow> json_gen_obj_set_string ''format'' (Some ''tlv8'')
     | _ \<Rightarrow> gen_skip)"

definition hap_add_char_type :: "hap_char \<Rightarrow> 'st jgen" where
  "hap_add_char_type hc = json_gen_obj_set_string ''type'' (Some (c_type_uuid hc))"

definition HAP_CHAR_MAXDATALEN_FLAG :: byte where "HAP_CHAR_MAXDATALEN_FLAG = 0x10"

definition hap_add_char_meta :: "hap_char \<Rightarrow> ('n, 'h, 'w, 's) ip_gen" where
  "hap_add_char_meta hc = (let has = (\<lambda>flag. c_constraint_flags hc AND flag \<noteq> 0) in gens [
     hap_add_char_format_json hc,
     gen_if (has HAP_CHAR_MIN_FLAG) (hap_add_char_val_json (c_format hc) ''minValue'' (c_min hc)),
     gen_if (has HAP_CHAR_MAX_FLAG) (hap_add_char_val_json (c_format hc) ''maxValue'' (c_max hc)),
     gen_if (has HAP_CHAR_STEP_FLAG) (hap_add_char_val_json (c_format hc) ''minStep'' (c_step hc)),
     gen_if (has HAP_CHAR_MAXLEN_FLAG) (hap_add_char_val_json HAP_CHAR_FORMAT_INT ''maxLen'' (c_max hc)),
     gen_if (has HAP_CHAR_MAXDATALEN_FLAG) (hap_add_char_val_json HAP_CHAR_FORMAT_INT ''maxDataLen'' (c_max hc)),
     gen_if (c_description hc \<noteq> None) (json_gen_obj_set_string ''description'' (c_description hc)),
     gen_if (c_unit hc \<noteq> None) (json_gen_obj_set_string ''unit'' (c_unit hc))])"

definition hap_add_char_perms :: "hap_char \<Rightarrow> 'st jgen" where
  "hap_add_char_perms hc = (let perm = (\<lambda>p s. gen_if (c_permission hc AND p \<noteq> 0) (json_gen_arr_set_string (Some s))) in
     gens [json_gen_push_array ''perms'',
       perm HAP_CHAR_PERM_PR ''pr'', perm HAP_CHAR_PERM_PW ''pw'', perm HAP_CHAR_PERM_EV ''ev'',
       perm HAP_CHAR_PERM_AA ''aa'', perm HAP_CHAR_PERM_TW ''tw'', perm HAP_CHAR_PERM_HD ''hd'',
       json_gen_pop_array])"

text \<open>The index of the session is passed as a byte.\<close>

definition hap_add_char_ev :: "ptr \<Rightarrow> int \<Rightarrow> ('n, 'h, 'w, 's) ip_gen" where
  "hap_add_char_ev hc session_index jstr st = do {
     b \<leftarrow> hap_char_is_ctrl_subscribed (Some hc) (uint (of_int session_index :: byte)) st;
     json_gen_obj_set_bool ''ev'' b jstr st }"

text \<open>The loop over the valid values reads \<open>valid_vals_cnt\<close> of them.\<close>

definition hap_add_char_valid_vals :: "hap_char \<Rightarrow> 'st jgen" where
  "hap_add_char_valid_vals hc jstr st = do {
     vals \<leftarrow> (case c_valid_vals hc of None \<Rightarrow> Some [] | Some vs \<Rightarrow> rd_block vs 0 (int (c_valid_vals_cnt hc)));
     range \<leftarrow> (case c_valid_vals_range hc of None \<Rightarrow> Some [] | Some vs \<Rightarrow> rd_block vs 0 2);
     gens [
       gen_if (c_valid_vals hc \<noteq> None) (gens [json_gen_push_array ''valid-values'',
         gen_list (\<lambda>v. json_gen_arr_set_int (uint v)) vals, json_gen_pop_array]),
       gen_if (c_valid_vals_range hc \<noteq> None) (gens [json_gen_push_array ''valid-values-range'',
         gen_list (\<lambda>v. json_gen_arr_set_int (uint v)) range, json_gen_pop_array])] jstr st }"

text \<open>An owner is kept only when the read routine has updated the value.\<close>

definition settle_owner :: "ptr \<Rightarrow> 's hap_objs_scheme \<Rightarrow> 's hap_objs_scheme option" where
  "settle_owner hc st = upd_char (Some hc) (\<lambda>c. c\<lparr>c_owner_ctrl := (if c_update_called c then c_owner_ctrl c else 0),
     c_update_called := False\<rparr>) st"

definition on_char :: "ptr \<Rightarrow> (hap_char \<Rightarrow> ('n, 'h, 'w, 's) ip_gen) \<Rightarrow> ('n, 'h, 'w, 's) ip_gen" where
  "on_char hc f jstr st = do { c \<leftarrow> char_at st hc; f c jstr st }"

definition hap_prepare_char_db :: "int \<Rightarrow> ptr \<Rightarrow> ('n, 'h, 'w, 's) ip_gen" where
  "hap_prepare_char_db session_index hc = gens [
     json_gen_start_object,
     on_char hc (\<lambda>c. json_gen_obj_set_int ''iid'' (sint (c_iid c))),
     gen_upd (settle_owner hc),
     on_char hc (\<lambda>c. gen_if (c_permission c AND HAP_CHAR_PERM_PR \<noteq> 0)
       (if c_permission c AND HAP_CHAR_PERM_SPECIAL_READ \<noteq> 0 then json_gen_obj_set_null ''value''
        else hap_add_char_val_json (c_format c) ''value'' (c_val c))),
     on_char hc hap_add_char_type,
     on_char hc hap_add_char_perms,
     hap_add_char_ev hc session_index,
     on_char hc hap_add_char_meta,
     on_char hc hap_add_char_valid_vals,
     json_gen_end_object]"

section \<open>Services and accessories\<close>

text \<open>
  The routines of the application: \<open>app_read f hc status priv\<close> reads one value (see
  \<open>Hap_Serv\<close>), \<open>app_bulk_read f read_data serv_priv read_priv\<close> several, each with the status that it
  leaves; both give their result.
\<close>

record 'st app_fns =
  app_read :: "nat \<Rightarrow> ptr option \<Rightarrow> int \<Rightarrow> ptr option \<Rightarrow> 'st \<Rightarrow> (int \<times> int \<times> 'st) option"
  app_bulk_read :: "nat \<Rightarrow> (ptr option \<times> int) list \<Rightarrow> ptr option \<Rightarrow> ptr option \<Rightarrow> 'st \<Rightarrow>
    (int \<times> (ptr option \<times> int) list \<times> 'st) option"

definition call_bulk_read ::
    "('n, 'h, 'w, 's) hap_ip_scheme app_fns \<Rightarrow> ptr option \<Rightarrow> (ptr option \<times> int) list \<Rightarrow> ptr option \<Rightarrow>
     ('n, 'h, 'w, 's) hap_ip_scheme \<Rightarrow> (int \<times> (ptr option \<times> int) list \<times> ('n, 'h, 'w, 's) hap_ip_scheme) option" where
  "call_bulk_read app hs read_data read_priv st = do {
     s \<leftarrow> get_serv hs st;
     f \<leftarrow> s_bulk_read s;
     case f of
       Bulk_read_def \<Rightarrow> hap_serv_def_bulk_read_cb (app_read app) read_data (s_priv s) st
     | Bulk_read_app n \<Rightarrow> app_bulk_read app n read_data (s_priv s) read_priv st }"

text \<open>A loop over a linked list whose body generates; the link is read after the body.\<close>

definition gen_each :: "('st \<Rightarrow> ptr \<Rightarrow> ptr option option) \<Rightarrow> (ptr \<Rightarrow> 'st jgen) \<Rightarrow> ptr option \<Rightarrow> 'st jgen" where
  "gen_each nx f p jstr st = do {
     (jstr, st) \<leftarrow> list_iter (\<lambda>(_, st) x. nx st x)
       (\<lambda>(jstr, st) x. do { (_, jstr, st) \<leftarrow> f x jstr st; Some (jstr, st) }) (jstr, st) p;
     Some (HAP_SUCCESS, jstr, st) }"

definition for_ptrs :: "('st \<Rightarrow> ptr \<Rightarrow> ptr option option) \<Rightarrow> ('a \<Rightarrow> 'st \<Rightarrow> ptr \<Rightarrow> ('a \<times> 'st) option) \<Rightarrow> 'a \<Rightarrow> ptr option \<Rightarrow>
    'st \<Rightarrow> ('a \<times> 'st) option" where
  "for_ptrs nx f a p st = list_iter (\<lambda>(_, st) x. nx st x) (\<lambda>(a, st) x. f a st x) (a, st) p"

definition is_readable :: "ptr \<Rightarrow> 's hap_objs_scheme \<Rightarrow> bool option" where
  "is_readable hc st = do { c \<leftarrow> char_at st hc; Some (c_permission c AND HAP_CHAR_PERM_PR \<noteq> 0) }"

definition next_char_of :: "'s hap_objs_scheme \<Rightarrow> ptr \<Rightarrow> ptr option option" where
  "next_char_of st hc = hap_char_get_next (Some hc) st"

text \<open>
  The values of the readable characteristics of a service are read in one call; the result is False
  when an array could not be allocated.
\<close>

definition claim_char :: "int \<Rightarrow> ptr \<Rightarrow> 's hap_objs_scheme \<Rightarrow> 's hap_objs_scheme option" where
  "claim_char session_index hc st = do {
     st \<leftarrow> hap_char_set_owner_ctrl (Some hc) session_index st;
     upd_char (Some hc) (\<lambda>c. c\<lparr>c_update_called := False\<rparr>) st }"

definition serv_read_all ::
    "('n, 'h, 'w, 's) hap_ip_scheme app_fns \<Rightarrow> int \<Rightarrow> ptr \<Rightarrow> ('n, 'h, 'w, 's) hap_ip_scheme \<Rightarrow>
     (bool \<times> ('n, 'h, 'w, 's) hap_ip_scheme) option" where
  "serv_read_all app session_index hs st = do {
     hc \<leftarrow> hap_serv_get_first_char (Some hs) st;
     (char_cnt, st) \<leftarrow> for_ptrs next_char_of
       (\<lambda>n st hc. do { b \<leftarrow> is_readable hc st; Some (if b then Suc n else n, st) }) (0 :: nat) hc st;
     if char_cnt = 0 then Some (True, st)
     else do {
       let (read_arr, st) = new_addr st;
       let (status_codes, st) = (if read_arr = None then (None, st) else new_addr st);
       if status_codes = None then Some (False, st)
       else do {
         hc \<leftarrow> hap_serv_get_first_char (Some hs) st;
         (reads, st) \<leftarrow> for_ptrs next_char_of (\<lambda>reads st hc. do {
             b \<leftarrow> is_readable hc st;
             if b then do { st \<leftarrow> claim_char session_index hc st; Some (reads @ [(Some hc, HAP_STATUS_SUCCESS)], st) }
             else Some (reads, st) }) [] hc st;
         (_, _, st) \<leftarrow> call_bulk_read app (Some hs) reads None st;
         Some (True, st) } } }"

definition gen_linked :: "ptr option \<Rightarrow> ('n, 'h, 'w, 's) ip_gen" where
  "gen_linked linked = gen_each link_next (\<lambda>l jstr st. do {
     lk \<leftarrow> link_at st l; s \<leftarrow> serv_at st (l_hs lk);
     json_gen_arr_set_int (sint (s_iid s)) jstr st }) linked"

text \<open>The second argument of \<open>json_gen_obj_set_bool\<close> is a string there, which is true.\<close>

definition hap_prepare_serv_db ::
    "('n, 'h, 'w, 's) hap_ip_scheme app_fns \<Rightarrow> int \<Rightarrow> ptr \<Rightarrow> ('n, 'h, 'w, 's) ip_gen" where
  "hap_prepare_serv_db app session_index hs jstr st = do {
     s \<leftarrow> serv_at st hs;
     (_, jstr, st) \<leftarrow> gens [
       json_gen_start_object,
       json_gen_obj_set_int ''iid'' (sint (s_iid s)),
       json_gen_obj_set_string ''type'' (Some (s_type_uuid s)),
       gen_if (s_hidden s) (json_gen_obj_set_bool ''hidden'' True),
       gen_if (s_primary s) (json_gen_obj_set_bool ''primary'' True),
       gen_if (s_linked_servs s \<noteq> None) (gens [json_gen_push_array ''linked'', gen_linked (s_linked_servs s), json_gen_pop_array]),
       json_gen_push_array ''characteristics''] jstr st;
     (ok, st) \<leftarrow> serv_read_all app session_index hs st;
     if \<not> ok then Some (HAP_FAIL, jstr, st)
     else do {
       hc \<leftarrow> hap_serv_get_first_char (Some hs) st;
       (_, jstr, st) \<leftarrow> gens [gen_each next_char_of (hap_prepare_char_db session_index) hc,
         json_gen_pop_array, json_gen_end_object] jstr st;
       Some (HAP_SUCCESS, jstr, st) } }"

definition hap_prepare_acc_db ::
    "('n, 'h, 'w, 's) hap_ip_scheme app_fns \<Rightarrow> int \<Rightarrow> ptr \<Rightarrow> ('n, 'h, 'w, 's) ip_gen" where
  "hap_prepare_acc_db app session_index ha jstr st = do {
     a \<leftarrow> acc_at st ha;
     (_, jstr, st) \<leftarrow> gens [json_gen_start_object, json_gen_obj_set_int ''aid'' (sint (a_aid a)),
       json_gen_push_array ''services''] jstr st;
     hs \<leftarrow> hap_acc_get_first_serv (Some ha) st;
     (_, jstr, st) \<leftarrow> gens [gen_each (\<lambda>st hs. hap_serv_get_next (Some hs) st) (hap_prepare_serv_db app session_index) hs,
       json_gen_pop_array, json_gen_end_object] jstr st;
     Some (HAP_SUCCESS, jstr, st) }"

definition hap_http_json_flush_chunk :: "int \<Rightarrow> string \<Rightarrow> ('n, 'h, 'w, 's) hap_ip_scheme \<Rightarrow> ('n, 'h, 'w, 's) hap_ip_scheme" where
  "hap_http_json_flush_chunk fd data st = do_sdk (Resp_send_chunk fd (bytes_of data)) st"

definition hap_prepare_json_database ::
    "('n, 'h, 'w, 's) hap_ip_scheme app_fns \<Rightarrow> int \<Rightarrow> http_req option \<Rightarrow> ('n, 'h, 'w, 's) hap_ip_scheme \<Rightarrow>
     ('n, 'h, 'w, 's) ip_result option" where
  "hap_prepare_json_database app buf_size req st = (case req of
       None \<Rightarrow> Some (HAP_FAIL, st)
     | Some r \<Rightarrow> (case rq_sess_ctx r of
         None \<Rightarrow> Some (HAP_FAIL, st)
       | Some session \<Rightarrow> do {
           (_, jstr, st) \<leftarrow> gens [json_gen_start_object, json_gen_push_array ''accessories'']
             (json_gen_str_start buf_size (Some (hap_http_json_flush_chunk (rq_fd r)))) st;
           (_, jstr, st) \<leftarrow> gens [gen_each (\<lambda>st ha. hap_acc_get_next (Some ha) st)
               (\<lambda>ha jstr st. hap_prepare_acc_db app (hap_get_ctrl_session_index (Some session) st) ha jstr st)
               (hap_get_first_acc st),
             json_gen_pop_array, json_gen_end_object] jstr st;
           Some (HAP_SUCCESS, snd (json_gen_str_end jstr st)) }))"

definition hap_http_get_accessories ::
    "('n, 'h, 'w, 's) hap_ip_scheme app_fns \<Rightarrow> http_req \<Rightarrow> ('n, 'h, 'w, 's) hap_ip_scheme \<Rightarrow>
     ('n, 'h, 'w, 's) handled option" where
  "hap_http_get_accessories app req st = do {
     secure \<leftarrow> hap_is_req_secure (rq_sess_ctx req) st;
     if \<not> secure then (case hap_http_session_not_authorized (rq_fd req) st of (r, st) \<Rightarrow> Some (r, req, st))
     else do {
       let st = do_sdk (Resp_set_type (rq_fd req) ''application/hap+json'') st;
       (_, st) \<leftarrow> hap_prepare_json_database app 1000 (Some req) st;
       let st = do_sdk (Resp_send_chunk (rq_fd req) []) st;
       Some (HAP_SUCCESS, req, hap_report_event HAP_EVENT_GET_ACC_COMPLETED [] st) } }"

section \<open>Reading some characteristics\<close>

definition HAP_STATUS_RD_ON_WRONLY :: int where "HAP_STATUS_RD_ON_WRONLY = - 70405"
definition HAP_STATUS_RES_ABSENT :: int where "HAP_STATUS_RES_ABSENT = - 70409"

text \<open>\<open>include_status\<close> is passed and returned.\<close>

definition hap_set_char_report_status ::
    "bool \<Rightarrow> int \<Rightarrow> int \<Rightarrow> int \<Rightarrow> 'st json_gen_str \<Rightarrow> 'st \<Rightarrow> (bool \<times> 'st json_gen_str \<times> 'st) option" where
  "hap_set_char_report_status include_status aid iid status jstr st = do {
     (_, jstr, st) \<leftarrow> gens [
       gen_if (\<not> include_status) (gens [json_gen_start_object, json_gen_push_array ''characteristics'']),
       json_gen_start_object, json_gen_obj_set_int ''aid'' aid, json_gen_obj_set_int ''iid'' iid,
       json_gen_obj_set_int ''status'' status, json_gen_end_object] jstr st;
     Some (True, jstr, st) }"

text \<open>\<open>httpd_query_key_value\<close> into a buffer of 6 bytes.\<close>

definition hap_get_bool_url_param :: "'w sdk_api \<Rightarrow> string \<Rightarrow> string \<Rightarrow> bool" where
  "hap_get_bool_url_param ap query_str k =
     (case query_key_value ap query_str k 6 of (r, val) \<Rightarrow> r = HAP_SUCCESS \<and> (val = ''true'' \<or> val = ''1''))"

text \<open>\<open>strsep\<close>: the token (NULL at the end) and what is left. \<open>atoi\<close> of newlib saturates.\<close>

definition strsep :: "char \<Rightarrow> string option \<Rightarrow> string option \<times> string option" where
  "strsep d s = (case s of None \<Rightarrow> (None, None)
     | Some s \<Rightarrow> (Some (takeWhile (\<lambda>c. c \<noteq> d) s),
         if d \<in> set s then Some (drop (Suc (length (takeWhile (\<lambda>c. c \<noteq> d) s))) s) else None))"

definition c_atoi :: "string \<Rightarrow> int" where
  "c_atoi s = (let s = dropWhile is_space s; neg = (s \<noteq> [] \<and> s ! 0 = CHR ''-'');
     s = (if s \<noteq> [] \<and> (s ! 0 = CHR ''-'' \<or> s ! 0 = CHR ''+'') then drop 1 s else s);
     v = digits_val (takeWhile is_digit s) in
     if neg then max (- (2 ^ 31)) (- v) else min (2 ^ 31 - 1) v)"

text \<open>
  The loop over the \<open>aid.iid\<close> pairs: the characteristics to read so far, \<open>p\<close> and \<open>val_ptr\<close>. The
  array of the code has \<open>size\<close> places. \<open>atoi(NULL)\<close> is undefined.
\<close>

partial_function (option) parse_ids ::
    "nat \<Rightarrow> ptr option \<Rightarrow> ptr list \<Rightarrow> string option \<Rightarrow> string option \<Rightarrow> bool \<Rightarrow>
     ('n, 'h, 'w, 's) hap_ip_scheme json_gen_str \<Rightarrow> ('n, 'h, 'w, 's) hap_ip_scheme \<Rightarrow>
     (ptr list \<times> bool \<times> ('n, 'h, 'w, 's) hap_ip_scheme json_gen_str \<times> ('n, 'h, 'w, 's) hap_ip_scheme) option" where
  "parse_ids size_arr session hcs p val_ptr include_status jstr st = (case p of
       None \<Rightarrow> Some (hcs, include_status, jstr, st)
     | Some a \<Rightarrow> (let aid = c_atoi a; (b, val_ptr) = strsep CHR '','' val_ptr in do {
         b \<leftarrow> b;
         let iid = c_atoi b;
         let (p, val_ptr) = strsep CHR ''.'' val_ptr;
         ha \<leftarrow> hap_acc_get_by_aid (of_int aid) st;
         hc \<leftarrow> hap_acc_get_char_by_iid ha (of_int iid) st;
         case hc of
           None \<Rightarrow> do {
             (include_status, jstr, st) \<leftarrow> hap_set_char_report_status include_status aid iid HAP_STATUS_RES_ABSENT jstr st;
             parse_ids size_arr session hcs p val_ptr include_status jstr st }
         | Some q \<Rightarrow> do {
             readable \<leftarrow> is_readable q st;
             if \<not> readable then do {
               (include_status, jstr, st) \<leftarrow> hap_set_char_report_status include_status aid iid HAP_STATUS_RD_ON_WRONLY jstr st;
               parse_ids size_arr session hcs p val_ptr include_status jstr st }
             else do {
               st \<leftarrow> claim_char (hap_get_ctrl_session_index session st) q st;
               if length hcs < size_arr then parse_ids size_arr session (hcs @ [q]) p val_ptr include_status jstr st
               else None } } }))"

declare parse_ids.simps [code]

text \<open>
  One call of the bulk read for all consecutive characteristics of a service: \<open>grp\<close> are those since
  \<open>hs_index\<close>, \<open>done\<close> those that were read, with their statuses.
\<close>

fun bulk_read_groups ::
    "('n, 'h, 'w, 's) hap_ip_scheme app_fns \<Rightarrow> ptr option \<Rightarrow> ptr option \<Rightarrow> ptr list \<Rightarrow> ptr list \<Rightarrow> (ptr option \<times> int) list \<Rightarrow>
     bool \<Rightarrow> ('n, 'h, 'w, 's) hap_ip_scheme \<Rightarrow>
     ((ptr option \<times> int) list \<times> bool \<times> ('n, 'h, 'w, 's) hap_ip_scheme) option" where
  "bulk_read_groups app session hs grp [] done_reads read_err st = do {
     (r, reads, st) \<leftarrow> call_bulk_read app hs (map (\<lambda>hc. (Some hc, HAP_STATUS_SUCCESS)) grp) session st;
     Some (done_reads @ reads, read_err \<or> r \<noteq> HAP_SUCCESS, st) }"
| "bulk_read_groups app session hs grp (hc # hcs) done_reads read_err st = do {
     par \<leftarrow> hap_char_get_parent (Some hc) st;
     if hs = par then bulk_read_groups app session hs (grp @ [hc]) hcs done_reads read_err st
     else do {
       (r, reads, st) \<leftarrow> call_bulk_read app hs (map (\<lambda>hc. (Some hc, HAP_STATUS_SUCCESS)) grp) session st;
       hs \<leftarrow> hap_char_get_parent (Some hc) st;
       bulk_read_groups app session hs [hc] hcs (done_reads @ reads) (read_err \<or> r \<noteq> HAP_SUCCESS) st } }"

text \<open>The member of the response for one characteristic.\<close>

definition char_aid :: "ptr \<Rightarrow> 's hap_objs_scheme \<Rightarrow> u32 option" where
  "char_aid hc st = do {
     hs \<leftarrow> hap_char_get_parent (Some hc) st; ha \<leftarrow> hap_serv_get_parent hs st; a \<leftarrow> get_acc ha st; Some (a_aid a) }"

definition read_entry ::
    "bool \<Rightarrow> bool \<Rightarrow> bool \<Rightarrow> bool \<Rightarrow> bool \<Rightarrow> ptr option \<Rightarrow> ptr option \<times> int \<Rightarrow> ('n, 'h, 'w, 's) ip_gen" where
  "read_entry with_status meta perms type ev session rd_entry jstr st = do {
     hc \<leftarrow> fst rd_entry;
     st \<leftarrow> settle_owner hc st;
     aid \<leftarrow> char_aid hc st;
     c \<leftarrow> char_at st hc;
     gens [
       json_gen_start_object,
       json_gen_obj_set_int ''aid'' (sint aid),
       json_gen_obj_set_int ''iid'' (sint (c_iid c)),
       if c_permission c AND HAP_CHAR_PERM_SPECIAL_READ \<noteq> 0 then json_gen_obj_set_null ''value''
       else gen_if (snd rd_entry = HAP_STATUS_SUCCESS) (hap_add_char_val_json (c_format c) ''value'' (c_val c)),
       gen_if with_status (json_gen_obj_set_int ''status'' (snd rd_entry)),
       gen_if type (hap_add_char_type c),
       gen_if perms (hap_add_char_perms c),
       gen_if ev (gen_of (\<lambda>st. hap_add_char_ev hc (hap_get_ctrl_session_index session st))),
       gen_if meta (hap_add_char_meta c),
       json_gen_end_object] jstr st }"

definition bad_request :: "int \<Rightarrow> string \<Rightarrow> int \<Rightarrow> ('n, 'h, 'w, 's) hap_ip_scheme \<Rightarrow> ('n, 'h, 'w, 's) hap_ip_scheme" where
  "bad_request fd line n st =
     send_json fd (status_body n) (sdks [Resp_set_status fd line, Resp_set_type fd ''application/hap+json''] st)"

definition get_char_response ::
    "('n, 'h, 'w, 's) hap_ip_scheme app_fns \<Rightarrow> http_req \<Rightarrow> string \<Rightarrow> string \<Rightarrow> nat \<Rightarrow> ('n, 'h, 'w, 's) hap_ip_scheme \<Rightarrow>
     ('n, 'h, 'w, 's) hap_ip_scheme option" where
  "get_char_response app req query val size_arr st = do {
     let fd = rq_fd req;
     let session = rq_sess_ctx req;
     let param = hap_get_bool_url_param (api st) query;
     let st = sdks [Resp_set_status fd HTTPD_207, Resp_set_type fd ''application/hap+json''] st;
     let (p, val_ptr) = strsep CHR ''.'' (Some val);
     (hcs, include_status, jstr, st) \<leftarrow> parse_ids size_arr session [] p val_ptr False
       (json_gen_str_start 512 (Some (hap_http_json_flush_chunk fd))) st;
     (jstr, st) \<leftarrow> (case hcs of [] \<Rightarrow> Some (jstr, st)
       | hc # _ \<Rightarrow> do {
           hs \<leftarrow> hap_char_get_parent (Some hc) st;
           (reads, read_err, st) \<leftarrow> bulk_read_groups app session hs [] hcs [] False st;
           let st = (if \<not> include_status \<and> \<not> read_err then do_sdk (Resp_set_status fd HTTPD_200) st else st);
           (_, jstr, st) \<leftarrow> gens [
             gen_if (\<not> include_status) (gens [json_gen_start_object, json_gen_push_array ''characteristics'']),
             gen_list (read_entry (include_status \<or> read_err) (param ''meta'') (param ''perms'') (param ''type'')
               (param ''ev'') session) reads] jstr st;
           Some (jstr, st) });
     (_, jstr, st) \<leftarrow> gens [json_gen_pop_array, json_gen_end_object] jstr st;
     Some (do_sdk (Resp_send_chunk fd []) (snd (json_gen_str_end jstr st))) }"

definition hap_http_get_characteristics ::
    "('n, 'h, 'w, 's) hap_ip_scheme app_fns \<Rightarrow> http_req \<Rightarrow> ('n, 'h, 'w, 's) hap_ip_scheme \<Rightarrow>
     ('n, 'h, 'w, 's) handled option" where
  "hap_http_get_characteristics app req st = do {
     let fd = rq_fd req;
     let uri = rq_uri req;
     secure \<leftarrow> hap_is_req_secure (rq_sess_ctx req) st;
     if \<not> secure then (case hap_http_session_not_authorized fd st of (r, st) \<Rightarrow> Some (r, req, st))
     else do {
       let (ok, st) = (if length uri > 512 then (case new_addr st of (a, st) \<Rightarrow> (a \<noteq> None, st)) else (True, st));
       if \<not> ok then (case server_error fd st of (r, st) \<Rightarrow> Some (r, req, st))
       else do {
         let (url_query_str, st) = new_addr st;
         let query = req_url_query (api st) uri;
         let (r, val) = query_key_value (api st) query ''id'' (length uri + 1);
         st \<leftarrow> (if url_query_str = None \<or> r \<noteq> HAP_SUCCESS then Some (bad_request fd HTTPD_400 (- 70409) st)
           else do {
             let size_arr = Suc (length (filter (\<lambda>c. c = CHR '','') val));
             let (read_arr, st) = new_addr st;
             let (status_codes, st) = (if read_arr = None then (None, st) else new_addr st);
             if status_codes = None then Some (bad_request fd HTTPD_500 (- 70407) st)
             else get_char_response app req query val size_arr st });
         Some (HAP_SUCCESS, req, hap_report_event HAP_EVENT_GET_CHAR_COMPLETED [] st) } } }"

section \<open>What sequences of calls write\<close>

lemma writes_skip: "writes gen_skip (\<lambda>c. []) (\<lambda>c. c)"
  by (rule writesI) (auto simp: gen_skip_def gen_ready_def)

lemma writes_gens:
  "writes (gens []) (\<lambda>c. []) (\<lambda>c. c)"
  "writes f t d \<Longrightarrow> writes (gens fs) u e \<Longrightarrow> writes (gens (f # fs)) (\<lambda>c. t c @ u (d c)) (\<lambda>c. e (d c))"
  "writes f t d \<Longrightarrow> writes (gen_if b f) (\<lambda>c. if b then t c else []) (\<lambda>c. if b then d c else c)"
  by (simp_all add: writes_skip writes_then gen_if_def)

section \<open>The array of characteristics to read\<close>

text \<open>How many pairs can still be read: the commas are the separators, and one more.\<close>

definition commas :: "string \<Rightarrow> nat" where
  "commas s = length (filter (\<lambda>c. c = CHR '','') s)"

definition pairs_left :: "string option \<Rightarrow> nat" where
  "pairs_left s = (case s of None \<Rightarrow> 0 | Some s \<Rightarrow> Suc (commas s))"

lemma strsep_left: "strsep d s = (a, r) \<Longrightarrow> pairs_left r \<le> pairs_left s"
proof (cases s)
  case (Some t)
  assume "strsep d s = (a, r)"
  moreover have "commas (drop n t) \<le> commas t" for n
    by (metis append_take_drop_id commas_def filter_append le_add2 length_append)
  ultimately show ?thesis using Some by (auto simp: strsep_def pairs_left_def split: if_splits)
qed (auto simp: strsep_def)

lemma strsep_comma:
  assumes "strsep CHR '','' s = (Some a, r)"
  shows "pairs_left r < pairs_left s"
proof -
  from assms obtain t where t: "s = Some t" "r = (if CHR '','' \<in> set t
      then Some (drop (Suc (length (takeWhile (\<lambda>c. c \<noteq> CHR '','') t))) t) else None)"
    by (auto simp: strsep_def split: option.splits)
  have "commas (drop (Suc (length (takeWhile (\<lambda>c. c \<noteq> CHR '','') t))) t) < commas t" if "CHR '','' \<in> set t"
    using that by (induction t) (auto simp: commas_def)
  with t show ?thesis by (auto simp: pairs_left_def)
qed

lemma parse_ids_size:
  assumes "length hcs + pairs_left vp \<le> n" "length hcs + pairs_left vp \<le> m"
  shows "parse_ids n session hcs p vp inc jstr st = parse_ids m session hcs p vp inc jstr st \<and>
    (\<forall>hcs' inc' jstr' st'. parse_ids n session hcs p vp inc jstr st = Some (hcs', inc', jstr', st') \<longrightarrow>
       length hcs' \<le> length hcs + pairs_left vp)"
  using assms
proof (induction "pairs_left vp" arbitrary: hcs p vp inc jstr st rule: less_induct)
  case less
  show ?case
  proof (cases p)
    case None
    then show ?thesis by (simp add: parse_ids.simps)
  next
    case (Some a)
    obtain b vp1 where b: "strsep CHR '','' vp = (b, vp1)" by fastforce
    obtain p2 vp2 where p2: "strsep CHR ''.'' vp1 = (p2, vp2)" by fastforce
    show ?thesis
    proof (cases b)
      case None
      with Some b show ?thesis by (simp add: parse_ids.simps Let_def)
    next
      case (Some b')
      have left: "pairs_left vp2 < pairs_left vp" using strsep_comma [of vp b' vp1] strsep_left [OF p2] b Some by simp
      let ?aid = "c_atoi a" and ?iid = "c_atoi b'"
      have unf: "parse_ids k session hcs p vp inc jstr st = do {
          ha \<leftarrow> hap_acc_get_by_aid (of_int ?aid) st;
          hc \<leftarrow> hap_acc_get_char_by_iid ha (of_int ?iid) st;
          case hc of
            None \<Rightarrow> do {
              (inc, jstr, st) \<leftarrow> hap_set_char_report_status inc ?aid ?iid HAP_STATUS_RES_ABSENT jstr st;
              parse_ids k session hcs p2 vp2 inc jstr st }
          | Some q \<Rightarrow> do {
              readable \<leftarrow> is_readable q st;
              if \<not> readable then do {
                (inc, jstr, st) \<leftarrow> hap_set_char_report_status inc ?aid ?iid HAP_STATUS_RD_ON_WRONLY jstr st;
                parse_ids k session hcs p2 vp2 inc jstr st }
              else do {
                st \<leftarrow> claim_char (hap_get_ctrl_session_index session st) q st;
                if length hcs < k then parse_ids k session (hcs @ [q]) p2 vp2 inc jstr st else None } } }" for k
        by (subst parse_ids.simps) (simp add: \<open>p = Some a\<close> b Some p2 Let_def)
      have same: "parse_ids n session hcs p2 vp2 i j s = parse_ids m session hcs p2 vp2 i j s \<and>
          (\<forall>hcs' inc' jstr' st'. parse_ids n session hcs p2 vp2 i j s = Some (hcs', inc', jstr', st') \<longrightarrow>
             length hcs' \<le> length hcs + pairs_left vp)" for i j and s :: "('a, 'b, 'c, 'd) hap_ip_scheme"
        using less.hyps [OF left, of hcs p2 i j s] less.prems left by fastforce
      have more: "parse_ids n session (hcs @ [q]) p2 vp2 i j s = parse_ids m session (hcs @ [q]) p2 vp2 i j s \<and>
          (\<forall>hcs' inc' jstr' st'. parse_ids n session (hcs @ [q]) p2 vp2 i j s = Some (hcs', inc', jstr', st') \<longrightarrow>
             length hcs' \<le> length hcs + pairs_left vp)" for q i j and s :: "('a, 'b, 'c, 'd) hap_ip_scheme"
        using less.hyps [OF left, of "hcs @ [q]" p2 i j s] less.prems left by fastforce
      have room: "length hcs < n" "length hcs < m" using less.prems left by simp_all
      show ?thesis unfolding unf
        using same more room by (auto split: bind_splits option.splits)
    qed
  qed
qed



end
