(* ===== verification/Ip_Write.thy ===== *)
theory Ip_Write
  imports Ip_Chars
begin

text \<open>
  Writing characteristics: the handler of \<open>PUT /characteristics\<close> (\<open>esp_hap_ip_services.c\<close>) with timed
  writes, subscriptions and the values of every format, and the connector to the host processor
  (\<open>src/main/CoreBridge/CConnector.cpp\<close>, \<open>CoreBridge.cpp\<close>), which this firmware calls in place of
  the write routines of the services.

  Memory from \<open>malloc\<close> and the variable \<open>ret\<close> that a \<open>goto\<close> jumps over hold what \<open>stack_array\<close>
  gives. The two arrays for the host are freed by it.

  It is shown what a request may change (permissions, timed writes, constraints), what the host is sent,
  and that without a verified session nothing is read or written.
\<close>

section \<open>The connector\<close>

definition CMD_DO_MODULE :: byte where "CMD_DO_MODULE = 0x44"
definition DO_TURN_ON :: byte where "DO_TURN_ON = 0x6E"
definition DO_TURN_OFF :: byte where "DO_TURN_OFF = 0x66"

text \<open>The modules are numbered from 1; the instance ids of the characteristics are compared.\<close>

fun find_module :: "u32 \<Rightarrow> nat \<Rightarrow> module_t list \<Rightarrow> 's hap_objs_scheme \<Rightarrow> byte option" where
  "find_module iid i [] st = Some 0"
| "find_module iid i (m # ms) st = do {
     m_iid \<leftarrow> hap_char_get_iid (m_hc m) st;
     if m_iid = iid then Some (of_nat i + 1) else find_module iid (Suc i) ms st }"

definition CoreBridge_getModuleAddrByHc :: "ptr option \<Rightarrow> ('n, 'h, 'w, 's) hap_ip_scheme \<Rightarrow> byte option" where
  "CoreBridge_getModuleAddrByHc hc st =
     (if modules st = [] then Some 0 else do { iid \<leftarrow> hap_char_get_iid hc st; find_module iid 0 (modules st) st })"

definition action_bytes :: "byte list \<Rightarrow> byte list \<Rightarrow> byte list" where
  "action_bytes addrs actions = CMD_DO_MODULE # concat (map2 (\<lambda>a b. [a, b]) addrs actions)"

definition CoreBridge_doModulesAction ::
    "byte list \<Rightarrow> byte list \<Rightarrow> byte \<Rightarrow> ('n, 'h, 'w, 's) hap_ip_scheme \<Rightarrow> ('n, 'h, 'w, 's) hap_ip_scheme option" where
  "CoreBridge_doModulesAction addrs actions len st = do {
     as \<leftarrow> rd_block addrs 0 (uint len);
     bs \<leftarrow> rd_block actions 0 (uint len);
     Some (st\<lparr>uart_queue := uart_queue st @ [(3, action_bytes as bs)]\<rparr>) }"

section \<open>One element of the request\<close>

definition HAP_STATUS_WR_ON_RDONLY :: int where "HAP_STATUS_WR_ON_RDONLY = - 70404"
definition HAP_STATUS_NO_NOTIF :: int where "HAP_STATUS_NO_NOTIF = - 70406"
definition HAP_STATUS_OO_RES :: int where "HAP_STATUS_OO_RES = - 70407"
definition HAP_STATUS_INSUFFICIENT_AUTH :: int where "HAP_STATUS_INSUFFICIENT_AUTH = - 70411"

record hap_write_data =
  wd_hc :: ptr
  wd_val :: hap_val
  wd_auth_data :: "byte list option"
  wd_remote :: bool

text \<open>
  The value of a request for a format: None (inside, left) is the status to report, and memory may
  be allocated. Bytes of base64 are decoded in place.
\<close>

definition get_number :: "jparse_ctx \<Rightarrow> bool \<Rightarrow> (int + hap_val) option" where
  "get_number jctx or_bool = do {
     i \<leftarrow> json_obj_get_int jctx ''value'';
     case i of Some i \<Rightarrow> Some (Inr (set_i i zero_val))
     | None \<Rightarrow> if or_bool then do {
           b \<leftarrow> json_obj_get_bool jctx ''value'';
           Some (case b of Some b \<Rightarrow> Inr (set_b b zero_val) | None \<Rightarrow> Inl HAP_STATUS_VAL_INVALID) }
         else Some (Inl HAP_STATUS_VAL_INVALID) }"

text \<open>A string of the request in a buffer of its length and one more; the buffer may not be had.\<close>

definition get_text ::
    "jparse_ctx \<Rightarrow> 's hap_objs_scheme \<Rightarrow> ((int + string) \<times> 's hap_objs_scheme) option" where
  "get_text jctx st = do {
     len \<leftarrow> json_obj_get_strlen jctx ''value'';
     case len of None \<Rightarrow> Some (Inl HAP_STATUS_VAL_INVALID, st)
     | Some n \<Rightarrow> (case new_addr st of
           (None, st) \<Rightarrow> Some (Inl HAP_STATUS_OO_RES, st)
         | (Some _, st) \<Rightarrow> do {
             s \<leftarrow> json_obj_get_string jctx ''value'' (n + 1);
             Some (Inr (case s of Some s \<Rightarrow> s | None \<Rightarrow> ''''), st) }) }"

definition get_value ::
    "hap_char \<Rightarrow> jparse_ctx \<Rightarrow> ('n, 'h, 'w, 's) hap_ip_scheme \<Rightarrow>
     ((int + hap_val) \<times> ('n, 'h, 'w, 's) hap_ip_scheme) option" where
  "get_value c jctx st = (case c_format c of
       HAP_CHAR_FORMAT_BOOL \<Rightarrow> do {
         b \<leftarrow> json_obj_get_bool jctx ''value'';
         Some (case b of Some b \<Rightarrow> Inr (set_b b zero_val) | None \<Rightarrow> Inl HAP_STATUS_VAL_INVALID, st) }
     | HAP_CHAR_FORMAT_UINT8 \<Rightarrow> map_option (\<lambda>r. (r, st)) (get_number jctx True)
     | HAP_CHAR_FORMAT_UINT16 \<Rightarrow> map_option (\<lambda>r. (r, st)) (get_number jctx False)
     | HAP_CHAR_FORMAT_UINT32 \<Rightarrow> map_option (\<lambda>r. (r, st)) (get_number jctx False)
     | HAP_CHAR_FORMAT_INT \<Rightarrow> map_option (\<lambda>r. (r, st)) (get_number jctx False)
     | HAP_CHAR_FORMAT_FLOAT \<Rightarrow> do {
         f \<leftarrow> json_obj_get_float (c_strtof (api st)) jctx ''value'';
         Some (case f of Some f \<Rightarrow> Inr (set_f f zero_val) | None \<Rightarrow> Inl HAP_STATUS_VAL_INVALID, st) }
     | HAP_CHAR_FORMAT_STRING \<Rightarrow> do {
         (r, st) \<leftarrow> get_text jctx st;
         Some (map_sum (\<lambda>e. e) (\<lambda>s. zero_val\<lparr>val_s := Some s\<rparr>) r, st) }
     | HAP_CHAR_FORMAT_UINT64 \<Rightarrow> Some (Inl HAP_STATUS_VAL_INVALID, st)
     | HAP_CHAR_FORMAT_NONE \<Rightarrow> Some (Inl HAP_STATUS_VAL_INVALID, st)
     | _ \<Rightarrow> do {
         (r, st) \<leftarrow> get_text jctx st;
         case r of Inl e \<Rightarrow> Some (Inl e, st)
         | Inr s \<Rightarrow> (case base64_decode (api st) s of
               None \<Rightarrow> Some (Inl HAP_STATUS_VAL_INVALID, st)
             | Some d \<Rightarrow> do {
                 buf \<leftarrow> wr_block (bytes_of s @ [0]) 0 d;
                 Some (Inr (zero_val\<lparr>val_d := \<lparr>dv_buf = Some buf, dv_buflen = of_nat (length d)\<rparr>\<rparr>), st) }) })"

text \<open>The authorization data; the buffer for it is not checked, and neither is the decoding.\<close>

definition get_auth_data ::
    "jparse_ctx \<Rightarrow> ('n, 'h, 'w, 's) hap_ip_scheme \<Rightarrow> (byte list option \<times> ('n, 'h, 'w, 's) hap_ip_scheme) option" where
  "get_auth_data jctx st = do {
     len \<leftarrow> json_obj_get_strlen jctx ''authData'';
     case len of None \<Rightarrow> Some (None, st)
     | Some n \<Rightarrow> do {
         let (a, st) = new_addr st;
         _ \<leftarrow> a;
         s \<leftarrow> json_obj_get_string jctx ''authData'' (n + 1);
         s \<leftarrow> s;
         Some (Some (case base64_decode (api st) s of Some d \<Rightarrow> d | None \<Rightarrow> bytes_of s), st) } }"

text \<open>
  What becomes of an element, once its characteristic is known: nothing to report (a subscription),
  a status to report, or an entry of the array of writes.
\<close>

datatype write_outcome = Done | Report int | Write hap_write_data

definition check_write ::
    "ptr option \<Rightarrow> bool \<Rightarrow> bool \<Rightarrow> ptr \<Rightarrow> jparse_ctx \<Rightarrow> ('n, 'h, 'w, 's) hap_ip_scheme \<Rightarrow>
     (write_outcome \<times> ('n, 'h, 'w, 's) hap_ip_scheme) option" where
  "check_write session req_tw valid_tw hc jctx st = do {
     c \<leftarrow> char_at st hc;
     let perm = (\<lambda>p. c_permission c AND p \<noteq> 0);
     if req_tw \<and> \<not> valid_tw then Some (Report HAP_STATUS_VAL_INVALID, st)
     else if perm HAP_CHAR_PERM_TW \<and> \<not> valid_tw then Some (Report HAP_STATUS_VAL_INVALID, st)
     else do {
       ev \<leftarrow> json_obj_get_bool jctx ''ev'';
       case ev of
         Some ev \<Rightarrow>
           if perm HAP_CHAR_PERM_EV then do {
             st \<leftarrow> hap_char_manage_notification (Some hc) (hap_get_ctrl_session_index session st) ev st;
             Some (Done, st) }
           else Some (Report HAP_STATUS_NO_NOTIF, st)
       | None \<Rightarrow>
           if \<not> perm HAP_CHAR_PERM_PW then Some (Report HAP_STATUS_WR_ON_RDONLY, st)
           else do {
             auth_len \<leftarrow> (if perm HAP_CHAR_PERM_AA then json_obj_get_strlen jctx ''authData'' else Some (Some 0));
             if auth_len = None then Some (Report HAP_STATUS_INSUFFICIENT_AUTH, st)
             else do {
               hs \<leftarrow> hap_char_get_parent (Some hc) st;
               s \<leftarrow> get_serv hs st;
               if s_write_cb s = None then Some (Report HAP_STATUS_VAL_INVALID, st)
               else do {
                 (v, st) \<leftarrow> get_value c jctx st;
                 case v of
                   Inl e \<Rightarrow> Some (Report e, st)
                 | Inr val \<Rightarrow> do {
                     r \<leftarrow> hap_char_check_val_constraints c val;
                     if r \<noteq> HAP_SUCCESS then Some (Report HAP_STATUS_VAL_INVALID, st)
                     else do {
                       (auth_data, st) \<leftarrow> get_auth_data jctx st;
                       remote \<leftarrow> json_obj_get_bool jctx ''remote'';
                       st \<leftarrow> hap_char_set_owner_ctrl (Some hc) (hap_get_ctrl_session_index session st) st;
                       Some (Write \<lparr>wd_hc = hc, wd_val = val, wd_auth_data = auth_data, wd_remote = (remote = Some True)\<rparr>, st) } } } } } } }"

text \<open>The loop over the \<open>n\<close> elements from \<open>i\<close> on; \<open>jctx\<close> stands in the previous element.\<close>

fun set_char_loop ::
    "ptr option \<Rightarrow> bool \<Rightarrow> bool \<Rightarrow> nat \<Rightarrow> nat \<Rightarrow> jparse_ctx \<Rightarrow> bool \<Rightarrow> hap_write_data list \<Rightarrow>
     ('n, 'h, 'w, 's) hap_ip_scheme json_gen_str \<Rightarrow> ('n, 'h, 'w, 's) hap_ip_scheme \<Rightarrow>
     (bool \<times> hap_write_data list \<times> ('n, 'h, 'w, 's) hap_ip_scheme json_gen_str \<times> ('n, 'h, 'w, 's) hap_ip_scheme) option" where
  "set_char_loop session req_tw valid_tw i 0 jctx include_status wrs jstr st = Some (include_status, wrs, jstr, st)"
| "set_char_loop session req_tw valid_tw i (Suc n) jctx include_status wrs jstr st = do {
     (_, jctx) \<leftarrow> json_arr_leave_object jctx;
     (_, jctx) \<leftarrow> json_arr_get_object jctx (of_nat i);
     aid \<leftarrow> json_obj_get_int jctx ''aid'';
     iid \<leftarrow> json_obj_get_int jctx ''iid'';
     let aid = (case aid of Some a \<Rightarrow> a | None \<Rightarrow> 0);
     let iid = (case iid of Some a \<Rightarrow> a | None \<Rightarrow> 0);
     ha \<leftarrow> hap_acc_get_by_aid (of_int aid) st;
     hc \<leftarrow> hap_acc_get_char_by_iid ha (of_int iid) st;
     (out, st) \<leftarrow> (case hc of
         None \<Rightarrow> Some (Report HAP_STATUS_RES_ABSENT, st)
       | Some hc \<Rightarrow> check_write session req_tw valid_tw hc jctx st);
     (include_status, wrs, jstr, st) \<leftarrow> (case out of
         Done \<Rightarrow> Some (include_status, wrs, jstr, st)
       | Report status \<Rightarrow> do {
           (include_status, jstr, st) \<leftarrow> hap_set_char_report_status include_status aid iid status jstr st;
           Some (include_status, wrs, jstr, st) }
       | Write w \<Rightarrow> Some (include_status, wrs @ [w], jstr, st));
     set_char_loop session req_tw valid_tw (Suc i) n jctx include_status wrs jstr st }"

section \<open>The writes\<close>

text \<open>
  The loop of a group of consecutive characteristics of a service: the arrays for the host with
  \<open>pos\<close>, and the statuses.
\<close>

fun write_group ::
    "hap_write_data list \<Rightarrow> byte list \<Rightarrow> byte list \<Rightarrow> nat \<Rightarrow> int list \<Rightarrow> ('n, 'h, 'w, 's) hap_ip_scheme \<Rightarrow>
     (byte list \<times> byte list \<times> nat \<times> int list) option" where
  "write_group [] addrs acts pos statuses st = Some (addrs, acts, pos, statuses)"
| "write_group (w # ws) addrs acts pos statuses st = do {
     uuid \<leftarrow> hap_char_get_type_uuid (Some (wd_hc w)) st;
     if uuid = HAP_CHAR_UUID_ON then do {
       addr \<leftarrow> CoreBridge_getModuleAddrByHc (Some (wd_hc w)) st;
       addrs \<leftarrow> wr_block addrs (int pos) [addr];
       acts \<leftarrow> wr_block acts (int pos) [if val_b (wd_val w) then DO_TURN_ON else DO_TURN_OFF];
       write_group ws addrs acts (pos + 1) (statuses @ [HAP_STATUS_SUCCESS]) st }
     else write_group ws addrs acts pos (statuses @ [HAP_STATUS_RES_ABSENT]) st }"

fun write_groups ::
    "ptr option \<Rightarrow> hap_write_data list \<Rightarrow> hap_write_data list \<Rightarrow> byte list \<Rightarrow> byte list \<Rightarrow> nat \<Rightarrow> int list \<Rightarrow>
     ('n, 'h, 'w, 's) hap_ip_scheme \<Rightarrow> (byte list \<times> byte list \<times> int list) option" where
  "write_groups hs grp [] addrs acts pos statuses st = do {
     (addrs, acts, pos, statuses) \<leftarrow> write_group grp addrs acts pos statuses st; Some (addrs, acts, statuses) }"
| "write_groups hs grp (w # ws) addrs acts pos statuses st = do {
     par \<leftarrow> hap_char_get_parent (Some (wd_hc w)) st;
     if hs = par then write_groups hs (grp @ [w]) ws addrs acts pos statuses st
     else do {
       (addrs, acts, pos, statuses) \<leftarrow> write_group grp addrs acts pos statuses st;
       write_groups par [w] ws addrs acts pos statuses st } }"

fun report_statuses ::
    "(hap_write_data \<times> int) list \<Rightarrow> bool \<Rightarrow> ('n, 'h, 'w, 's) hap_ip_scheme json_gen_str \<Rightarrow> ('n, 'h, 'w, 's) hap_ip_scheme \<Rightarrow>
     (bool \<times> ('n, 'h, 'w, 's) hap_ip_scheme json_gen_str \<times> ('n, 'h, 'w, 's) hap_ip_scheme) option" where
  "report_statuses [] include_status jstr st = Some (include_status, jstr, st)"
| "report_statuses ((w, status) # ws) include_status jstr st = do {
     aid \<leftarrow> char_aid (wd_hc w) st;
     c \<leftarrow> char_at st (wd_hc w);
     (include_status, jstr, st) \<leftarrow> hap_set_char_report_status include_status (sint aid) (sint (c_iid c)) status jstr st;
     report_statuses ws include_status jstr st }"

text \<open>The variable \<open>ret\<close> before it is written.\<close>

definition uninit_int :: "('n, 'h, 'w, 's) hap_net_scheme \<Rightarrow> int" where
  "uninit_int st = sint (of_nat (le_val (stack_array 4 st)) :: u32)"

text \<open>The label \<open>set_char_end\<close>.\<close>

definition set_char_end ::
    "bool \<Rightarrow> int \<Rightarrow> ('n, 'h, 'w, 's) hap_ip_scheme json_gen_str \<Rightarrow> ('n, 'h, 'w, 's) hap_ip_scheme \<Rightarrow>
     ('n, 'h, 'w, 's) ip_result option" where
  "set_char_end include_status ret jstr st =
     (if include_status then do {
        (_, jstr, st) \<leftarrow> gens [json_gen_pop_array, json_gen_end_object] jstr st;
        Some (HAP_FAIL, snd (json_gen_str_end jstr st)) }
      else Some (ret, st))"

text \<open>
  The timed write: a preceding prepare, or a \<open>pid\<close> in the request, makes it one; it is valid when
  the \<open>pid\<close> is the prepared one and the time to live is not over.
\<close>

definition timed_write ::
    "jparse_ctx \<Rightarrow> ptr \<Rightarrow> ('n, 'h, 'w, 's) hap_ip_scheme \<Rightarrow> (bool \<times> bool \<times> ('n, 'h, 'w, 's) hap_ip_scheme) option" where
  "timed_write jctx q st = do {
     let (t, st) = esp_timer_get_time st;
     s \<leftarrow> sess_at st q;
     let cur_time = t div 1000;
     let prepare_time = ss_prepare_time s;
     pid \<leftarrow> json_obj_get_int64 jctx ''pid'';
     let valid_tw = (case pid of Some pid \<Rightarrow> (of_int pid :: u64) = ss_pid s \<and> cur_time - prepare_time \<le> ss_ttl s | None \<Rightarrow> False);
     st \<leftarrow> upd_sess q (\<lambda>s. s\<lparr>ss_prepare_time := 0, ss_pid := 0, ss_ttl := 0\<rparr>) st;
     Some (prepare_time \<noteq> 0 \<or> pid \<noteq> None, valid_tw, st) }"

definition hap_http_handle_set_char ::
    "jparse_ctx \<Rightarrow> int \<Rightarrow> http_req \<Rightarrow> ('n, 'h, 'w, 's) hap_ip_scheme \<Rightarrow> ('n, 'h, 'w, 's) ip_result option" where
  "hap_http_handle_set_char jctx buf_size req st = (case rq_sess_ctx req of
       None \<Rightarrow> Some (HAP_FAIL, st)
     | Some q \<Rightarrow> do {
         (req_tw, valid_tw, st) \<leftarrow> timed_write jctx q st;
         arr \<leftarrow> json_obj_get_array jctx ''characteristics'';
         let (cnt, jctx) = (case arr of Some (n, j) \<Rightarrow> (n, j) | None \<Rightarrow> (0, jctx));
         if cnt \<le> 0 then Some (HAP_FAIL, st)
         else do {
           let (write_arr, st) = new_addr st;
           let (status_arr, st) = new_addr st;
           let jstr = json_gen_str_start buf_size (Some (hap_http_json_flush_chunk (rq_fd req)));
           if write_arr = None \<or> status_arr = None then Some (uninit_int st, st)
           else do {
             (_, jctx) \<leftarrow> json_arr_get_object jctx 0;
             (include_status, wrs, jstr, st) \<leftarrow> set_char_loop (Some q) req_tw valid_tw 0 (nat cnt) jctx False [] jstr st;
             if wrs = [] then set_char_end include_status (uninit_int st) jstr st
             else do {
               hs \<leftarrow> hap_char_get_parent (Some (wd_hc (hd wrs))) st;
               let (a, st) = new_addr st;
               let (b, st) = new_addr st;
               let addrs = (if a = None then [] else stack_array (length wrs) st);
               let acts = (if b = None then [] else stack_array (length wrs) st);
               (addrs, acts, statuses) \<leftarrow> write_groups hs [] wrs addrs acts 0 [] st;
               (include_status, jstr, st) \<leftarrow> (if include_status
                 then report_statuses (zip wrs statuses) include_status jstr st
                 else Some (include_status, jstr, st));
               st \<leftarrow> CoreBridge_doModulesAction addrs acts (of_nat (length wrs)) st;
               set_char_end include_status HAP_SUCCESS jstr st } } } })"

definition hap_http_put_characteristics ::
    "http_req \<Rightarrow> ('n, 'h, 'w, 's) hap_ip_scheme \<Rightarrow> ('n, 'h, 'w, 's) handled option" where
  "hap_http_put_characteristics req st = do {
     let fd = rq_fd req;
     secure \<leftarrow> hap_is_req_secure (rq_sess_ctx req) st;
     if \<not> secure then (case hap_http_session_not_authorized fd st of (r, st) \<Rightarrow> Some (r, req, st))
     else do {
       (body, st) \<leftarrow> read_body req st;
       case body of
         None \<Rightarrow> (case server_error fd st of (r, st) \<Rightarrow> Some (r, req, st))
       | Some (data_len, inbuf) \<Rightarrow>
           if data_len < 0 then (case server_error fd st of (r, st) \<Rightarrow> Some (r, req, st))
           else do {
             (ret, jctx, st) \<leftarrow> json_parse_start (text_of data_len inbuf) st;
             if ret \<noteq> HAP_SUCCESS then (case server_error fd st of (r, st) \<Rightarrow> Some (r, req, st))
             else do {
               let st = sdks [Resp_set_type fd ''application/hap+json'', Resp_set_status fd HTTPD_207] st;
               (r, st) \<leftarrow> hap_http_handle_set_char jctx 512 req st;
               let st = do_sdk (if r = HAP_SUCCESS then Httpd_send fd (status_line HTTPD_204) else Resp_send_chunk fd []) st;
               Some (HAP_SUCCESS, req, hap_report_event HAP_EVENT_SET_CHAR_COMPLETED [] st) } } } }"

section \<open>What a write request may change\<close>

text \<open>Of a characteristic only the subscriptions, when it has events, and the owner, when it is written.\<close>

definition char_kept :: "bool \<Rightarrow> hap_char \<Rightarrow> hap_char \<Rightarrow> bool" where
  "char_kept written c c' \<longleftrightarrow> c' = c\<lparr>c_ev_ctrls := c_ev_ctrls c', c_owner_ctrl := c_owner_ctrl c'\<rparr> \<and>
     (c_permission c AND HAP_CHAR_PERM_EV = 0 \<longrightarrow> c_ev_ctrls c' = c_ev_ctrls c) \<and>
     (\<not> written \<longrightarrow> c_owner_ctrl c' = c_owner_ctrl c)"

definition put_frame :: "('n, 'h, 'w, 's) hap_ip_scheme \<Rightarrow> ('n, 'h, 'w, 's) hap_ip_scheme \<Rightarrow> bool" where
  "put_frame st st' \<longleftrightarrow>
     st' = st\<lparr>next_addr := next_addr st', char_at := char_at st', world := world st', sdk_log := sdk_log st'\<rparr>"

definition put_rel :: "ptr set \<Rightarrow> ('n, 'h, 'w, 's) hap_ip_scheme \<Rightarrow> ('n, 'h, 'w, 's) hap_ip_scheme \<Rightarrow> bool" where
  "put_rel W st st' \<longleftrightarrow> put_frame st st' \<and> (\<forall>p. rel_option (char_kept (p \<in> W)) (char_at st p) (char_at st' p))"

lemma char_kept_refl [simp]: "char_kept b c c"
  by (simp add: char_kept_def)

lemma char_kept_trans: "char_kept b c c' \<Longrightarrow> char_kept b' c' c'' \<Longrightarrow> char_kept (b \<or> b') c c''"
proof -
  assume a: "char_kept b c c'" "char_kept b' c' c''"
  from a(1) obtain e o1 where c': "c' = c\<lparr>c_ev_ctrls := e, c_owner_ctrl := o1\<rparr>" unfolding char_kept_def by blast
  from a(2) obtain e2 o2 where "c'' = c'\<lparr>c_ev_ctrls := e2, c_owner_ctrl := o2\<rparr>" unfolding char_kept_def by blast
  then have "c'' = c\<lparr>c_ev_ctrls := e2, c_owner_ctrl := o2\<rparr>" using c' by simp
  with a c' show ?thesis by (auto simp: char_kept_def)
qed

lemma put_frame_I:
  "st' = st\<lparr>next_addr := n, char_at := cs, world := w, sdk_log := l\<rparr> \<Longrightarrow> put_frame st st'"
  by (simp add: put_frame_def)

lemma put_frame_refl [simp]: "put_frame st st"
  by (simp add: put_frame_def)

lemma put_frame_trans: "put_frame st st' \<Longrightarrow> put_frame st' st'' \<Longrightarrow> put_frame st st''"
proof -
  assume "put_frame st st'" "put_frame st' st''"
  then obtain n cs w l n' cs' w' l' where
    "st' = st\<lparr>next_addr := n, char_at := cs, world := w, sdk_log := l\<rparr>"
    "st'' = st'\<lparr>next_addr := n', char_at := cs', world := w', sdk_log := l'\<rparr>"
    unfolding put_frame_def by blast
  then have "st'' = st\<lparr>next_addr := n', char_at := cs', world := w', sdk_log := l'\<rparr>" by simp
  then show ?thesis by (rule put_frame_I)
qed

lemma put_rel_refl [simp]: "put_rel W st st"
  by (simp add: put_rel_def option.rel_refl)

lemma put_rel_trans: "put_rel W st st' \<Longrightarrow> put_rel W' st' st'' \<Longrightarrow> put_rel (W \<union> W') st st''"
  unfolding put_rel_def
proof (elim conjE, intro conjI allI)
  fix p
  assume a: "\<forall>p. rel_option (char_kept (p \<in> W)) (char_at st p) (char_at st' p)"
    "\<forall>p. rel_option (char_kept (p \<in> W')) (char_at st' p) (char_at st'' p)"
  from a(1) [rule_format, of p] a(2) [rule_format, of p]
  show "rel_option (char_kept (p \<in> W \<union> W')) (char_at st p) (char_at st'' p)"
    by (cases "char_at st p"; cases "char_at st' p"; cases "char_at st'' p") (auto dest: char_kept_trans)
qed (rule put_frame_trans)

lemma put_frame_fields:
  assumes "put_frame st st'"
  shows "serv_at st' = serv_at st \<and> acc_at st' = acc_at st \<and> sess_at st' = sess_at st \<and> priv st' = priv st \<and>
     uart_queue st' = uart_queue st \<and> modules st' = modules st \<and> api st' = api st \<and> stack_mem st' = stack_mem st \<and> env st' = env st"
proof -
  from assms obtain n cs w l where "st' = st\<lparr>next_addr := n, char_at := cs, world := w, sdk_log := l\<rparr>"
    unfolding put_frame_def by blast
  then show ?thesis by simp
qed

lemmas put_rel_fields = put_frame_fields [OF conjunct1 [OF put_rel_def [THEN iffD1]]]

lemma put_rel_I:
  "st' = st\<lparr>next_addr := n, world := w, sdk_log := l\<rparr> \<Longrightarrow> put_rel W st st'"
  by (simp add: put_rel_def put_frame_def option.rel_refl)

lemma new_addr_rel: "new_addr st = (a, st') \<Longrightarrow> put_rel W st st'"
  by (auto simp: new_addr_def intro: put_rel_I [where w = "world st" and l = "sdk_log st"])

lemma get_text_rel: "get_text jctx st = Some (r, st') \<Longrightarrow> put_rel {} st st'"
  by (auto simp: get_text_def dest: new_addr_rel split: bind_splits option.splits prod.splits)


lemma get_value_rel: "get_value c jctx st = Some (r, st') \<Longrightarrow> put_rel {} st st'"
  unfolding get_value_def
  by (cases "c_format c") (auto dest: get_text_rel split: bind_splits option.splits prod.splits sum.splits)

lemma get_auth_data_rel:
  assumes "get_auth_data jctx st = Some (a, st')"
  shows "put_rel {} st st' \<and> (json_obj_get_strlen jctx ''authData'' = Some (Some n) \<longrightarrow> a \<noteq> None)"
proof -
  from assms have "put_rel {} st st'"
    by (auto simp: get_auth_data_def Let_def dest: new_addr_rel split: bind_splits option.splits prod.splits)
  moreover have "a \<noteq> None" if n: "json_obj_get_strlen jctx ''authData'' = Some (Some n)"
    using assms n by (auto simp: get_auth_data_def Let_def split: bind_splits prod.splits)
  ultimately show ?thesis by blast
qed

lemma char_upd_rel:
  assumes "char_at st p = Some c" "char_kept (p \<in> W) c c'"
  shows "put_rel W st (st\<lparr>char_at := (char_at st)(p \<mapsto> c')\<rparr>)"
proof -
  have "put_frame st (st\<lparr>char_at := (char_at st)(p \<mapsto> c')\<rparr>)" by (simp add: put_frame_def)
  with assms show ?thesis by (simp add: put_rel_def option.rel_refl)
qed

lemma manage_notification_rel:
  assumes "hap_char_manage_notification (Some p) i ev st = Some st'" "char_at st p = Some c" "c_permission c AND HAP_CHAR_PERM_EV \<noteq> 0"
  shows "put_rel {} st st'"
proof -
  from assms(1,2) obtain m where "st' = st\<lparr>char_at := (char_at st)(p \<mapsto>
      c\<lparr>c_ev_ctrls := if ev then c_ev_ctrls c OR m else c_ev_ctrls c AND NOT m\<rparr>)\<rparr>"
    by (auto simp: hap_char_manage_notification_def upd_char_def split: bind_splits)
  then show ?thesis using assms(2,3) by (simp only:) (rule char_upd_rel, assumption, cases c, simp add: char_kept_def)
qed

lemma set_owner_rel:
  assumes "hap_char_set_owner_ctrl (Some p) i st = Some st'"
  shows "put_rel {p} st st'"
proof -
  from assms obtain m c where c: "char_at st p = Some c" "st' = st\<lparr>char_at := (char_at st)(p \<mapsto> c\<lparr>c_owner_ctrl := 0 OR m\<rparr>)\<rparr>"
    by (auto simp: hap_char_set_owner_ctrl_def upd_char_def split: bind_splits)
  show ?thesis unfolding c(2) by (rule char_upd_rel [OF c(1)]) (simp add: char_kept_def)
qed

text \<open>
  A write that the code accepts: the characteristic may be written, a timed write is one when it has
  to be, authorization data are there when it asks for them, and the value is within the constraints.
\<close>

definition write_ok :: "bool \<Rightarrow> bool \<Rightarrow> 's hap_objs_scheme \<Rightarrow> hap_write_data \<Rightarrow> bool" where
  "write_ok req_tw valid_tw st w \<longleftrightarrow> (\<exists>c. char_at st (wd_hc w) = Some c \<and> c_permission c AND HAP_CHAR_PERM_PW \<noteq> 0 \<and>
     (req_tw \<or> c_permission c AND HAP_CHAR_PERM_TW \<noteq> 0 \<longrightarrow> valid_tw) \<and>
     (c_permission c AND HAP_CHAR_PERM_AA \<noteq> 0 \<longrightarrow> wd_auth_data w \<noteq> None) \<and>
     hap_char_check_val_constraints c (wd_val w) = Some HAP_SUCCESS)"

definition outcome_ok :: "bool \<Rightarrow> bool \<Rightarrow> ptr \<Rightarrow> ('n, 'h, 'w, 's) hap_ip_scheme \<Rightarrow> write_outcome \<Rightarrow> ('n, 'h, 'w, 's) hap_ip_scheme \<Rightarrow> bool" where
  "outcome_ok req_tw valid_tw hc st out st' \<longleftrightarrow> (case out of
       Write w \<Rightarrow> wd_hc w = hc \<and> write_ok req_tw valid_tw st w \<and> put_rel {hc} st st'
     | _ \<Rightarrow> put_rel {} st st') \<and> (req_tw \<and> \<not> valid_tw \<longrightarrow> st' = st)"

lemma check_write_refused:
  "check_write session True False hc jctx st = Some (out, st') \<Longrightarrow> out = Report HAP_STATUS_VAL_INVALID \<and> st' = st"
  by (auto simp: check_write_def Let_def split: bind_splits)

lemma check_write_ok:
  assumes "check_write session req_tw valid_tw hc jctx st = Some (out, st')"
  shows "outcome_ok req_tw valid_tw hc st out st'"
proof (cases "req_tw \<and> \<not> valid_tw")
  case True
  with assms check_write_refused show ?thesis by (fastforce simp: outcome_ok_def)
next
  case tw: False
  from assms obtain c where c: "char_at st hc = Some c" by (auto simp: check_write_def split: bind_splits)
  show ?thesis
  proof (cases "c_permission c AND HAP_CHAR_PERM_TW \<noteq> 0 \<and> \<not> valid_tw")
    case True
    with assms c tw show ?thesis by (auto simp: check_write_def Let_def outcome_ok_def)
  next
    case tw2: False
    from assms c tw tw2 obtain ev where ev: "json_obj_get_bool jctx ''ev'' = Some ev"
      by (auto simp: check_write_def Let_def split: bind_splits if_splits)
    show ?thesis
    proof (cases ev)
      case (Some e)
      with assms c tw tw2 ev show ?thesis
        by (auto simp: check_write_def Let_def outcome_ok_def split: bind_splits if_splits dest: manage_notification_rel)
    next
      case None
      let ?perm = "\<lambda>p. c_permission c AND p \<noteq> 0"
      show ?thesis
      proof (cases "?perm HAP_CHAR_PERM_PW")
        case False
        with assms c tw tw2 ev None show ?thesis by (auto simp: check_write_def Let_def outcome_ok_def)
      next
        case pw: True
        from assms c tw tw2 ev None pw obtain auth_len where
          al: "(if ?perm HAP_CHAR_PERM_AA then json_obj_get_strlen jctx ''authData'' else Some (Some 0)) = Some auth_len"
          by (auto simp: check_write_def Let_def split: bind_splits)
        show ?thesis
        proof (cases auth_len)
          case None
          with assms c tw tw2 ev \<open>ev = None\<close> pw al show ?thesis by (auto simp: check_write_def Let_def outcome_ok_def)
        next
          case auth: (Some n)
          have "do {
               hs \<leftarrow> hap_char_get_parent (Some hc) st;
               s \<leftarrow> get_serv hs st;
               if s_write_cb s = None then Some (Report HAP_STATUS_VAL_INVALID, st)
               else do {
                 (v, st) \<leftarrow> get_value c jctx st;
                 case v of
                   Inl e \<Rightarrow> Some (Report e, st)
                 | Inr val \<Rightarrow> do {
                     r \<leftarrow> hap_char_check_val_constraints c val;
                     if r \<noteq> HAP_SUCCESS then Some (Report HAP_STATUS_VAL_INVALID, st)
                     else do {
                       (auth_data, st) \<leftarrow> get_auth_data jctx st;
                       remote \<leftarrow> json_obj_get_bool jctx ''remote'';
                       st \<leftarrow> hap_char_set_owner_ctrl (Some hc) (hap_get_ctrl_session_index session st) st;
                       Some (Write \<lparr>wd_hc = hc, wd_val = val, wd_auth_data = auth_data, wd_remote = (remote = Some True)\<rparr>, st) } } } } = Some (out, st')"
            using assms c tw tw2 ev None pw al auth by (auto simp: check_write_def Let_def split: if_splits)
          moreover from this obtain hs s where "hap_char_get_parent (Some hc) st = Some hs" "get_serv hs st = Some s"
            by (auto split: bind_splits)
          ultimately have s: "(if s_write_cb s = None then Some (Report HAP_STATUS_VAL_INVALID, st)
               else do {
                 (v, st) \<leftarrow> get_value c jctx st;
                 case v of
                   Inl e \<Rightarrow> Some (Report e, st)
                 | Inr val \<Rightarrow> do {
                     r \<leftarrow> hap_char_check_val_constraints c val;
                     if r \<noteq> HAP_SUCCESS then Some (Report HAP_STATUS_VAL_INVALID, st)
                     else do {
                       (auth_data, st) \<leftarrow> get_auth_data jctx st;
                       remote \<leftarrow> json_obj_get_bool jctx ''remote'';
                       st \<leftarrow> hap_char_set_owner_ctrl (Some hc) (hap_get_ctrl_session_index session st) st;
                       Some (Write \<lparr>wd_hc = hc, wd_val = val, wd_auth_data = auth_data, wd_remote = (remote = Some True)\<rparr>, st) } } }) = Some (out, st')" by simp
          show ?thesis
          proof (cases "s_write_cb s = None")
            case True
            with s tw show ?thesis by (auto simp: outcome_ok_def)
          next
            case False
            with s obtain v st1 where v: "get_value c jctx st = Some (v, st1)" by (auto split: bind_splits)
            note rel1 = get_value_rel [OF v]
            show ?thesis
            proof (cases v)
              case (Inl e)
              with s False v rel1 tw show ?thesis by (auto simp: outcome_ok_def)
            next
              case (Inr val)
              with s False v obtain r where r: "hap_char_check_val_constraints c val = Some r" by (auto split: bind_splits)
              show ?thesis
              proof (cases "r = HAP_SUCCESS")
                case False
                with s \<open>s_write_cb s \<noteq> None\<close> v Inr r rel1 tw show ?thesis by (auto simp: outcome_ok_def)
              next
                case True
                with s \<open>s_write_cb s \<noteq> None\<close> v Inr r obtain a st2 remote where
                  a: "get_auth_data jctx st1 = Some (a, st2)"
                    "hap_char_set_owner_ctrl (Some hc) (hap_get_ctrl_session_index session st2) st2 = Some st'"
                    "out = Write \<lparr>wd_hc = hc, wd_val = val, wd_auth_data = a, wd_remote = (remote = Some True)\<rparr>"
                  by (auto split: bind_splits)
                note rel2 = get_auth_data_rel [OF a(1), of n]
                from rel1 rel2 set_owner_rel [OF a(2)] have "put_rel {hc} st st'"
                  by (auto dest: put_rel_trans)
                moreover have "?perm HAP_CHAR_PERM_AA \<longrightarrow> a \<noteq> None" using al auth rel2 by (auto split: if_splits)
                ultimately show ?thesis using a(3) tw tw2 c pw r True by (auto simp: outcome_ok_def write_ok_def)
              qed
            qed
          qed
        qed
      qed
    qed
  qed
qed

section \<open>The requests\<close>

text \<open>A generator whose callback sends chunks only adds to what is sent.\<close>

definition chunked :: "int \<Rightarrow> ('n, 'h, 'w, 's) hap_ip_scheme json_gen_str \<Rightarrow> bool" where
  "chunked fd jstr \<longleftrightarrow> (\<exists>n. gen_ready n jstr) \<and> jg_flush_cb jstr = Some (hap_http_json_flush_chunk fd)"

definition only_sent :: "('n, 'h, 'w, 's) hap_ip_scheme \<Rightarrow> ('n, 'h, 'w, 's) hap_ip_scheme \<Rightarrow> bool" where
  "only_sent st st' \<longleftrightarrow> st' = st\<lparr>world := world st', sdk_log := sdk_log st'\<rparr>"

lemma only_sent_I: "st' = st\<lparr>world := w, sdk_log := l\<rparr> \<Longrightarrow> only_sent st st'"
  by (simp add: only_sent_def)

lemma only_sent_refl [simp]: "only_sent st st"
  by (simp add: only_sent_def)

lemma only_sent_trans: "only_sent st st' \<Longrightarrow> only_sent st' st'' \<Longrightarrow> only_sent st st''"
proof -
  assume "only_sent st st'" "only_sent st' st''"
  then obtain w l w' l' where "st' = st\<lparr>world := w, sdk_log := l\<rparr>" "st'' = st'\<lparr>world := w', sdk_log := l'\<rparr>"
    unfolding only_sent_def by blast
  then show ?thesis by (intro only_sent_I [where w = w' and l = l']) simp
qed

lemma only_sent_put: "only_sent st st' \<Longrightarrow> put_rel W st st' \<and> char_at st' = char_at st"
proof -
  assume "only_sent st st'"
  then obtain w l where e: "st' = st\<lparr>world := w, sdk_log := l\<rparr>" unfolding only_sent_def by blast
  have "put_rel W st st'" by (rule put_rel_I [where n = "next_addr st"]) (simp add: e)
  then show ?thesis by (simp add: e)
qed

lemma do_sdk_sent: "only_sent st (do_sdk c st)"
  by (auto simp: do_sdk_def sdk_def split: prod.split intro!: only_sent_I)

lemma flush_sent: "only_sent st (fold (hap_http_json_flush_chunk fd) ps st)"
proof (induction ps arbitrary: st)
  case (Cons s ps)
  have "only_sent st (hap_http_json_flush_chunk fd s st)" by (simp add: hap_http_json_flush_chunk_def do_sdk_sent)
  with Cons [of "hap_http_json_flush_chunk fd s st"] show ?case by (auto intro: only_sent_trans)
qed simp

lemma chunked_writes:
  assumes "writes f t d" "chunked fd jstr"
  shows "\<exists>jstr' st'. f jstr st = Some (0, jstr', st') \<and> chunked fd jstr' \<and> only_sent st st'"
proof -
  from assms(2) obtain n where n: "gen_ready n jstr" "jg_flush_cb jstr = Some (hap_http_json_flush_chunk fd)"
    by (auto simp: chunked_def)
  have "0 < n" using n(1) by (simp add: gen_ready_def)
  then have "length (snd (fill n (jg_buf jstr @ t (jg_comma_req jstr)))) \<le> n" using fill_props by blast
  then have "gen_ready n (jstr\<lparr>jg_buf := snd (fill n (jg_buf jstr @ t (jg_comma_req jstr))), jg_comma_req := d (jg_comma_req jstr)\<rparr>)"
    by (rule gen_ready_upd(2) [OF n(1)])
  then have "chunked fd (jstr\<lparr>jg_buf := snd (fill n (jg_buf jstr @ t (jg_comma_req jstr))), jg_comma_req := d (jg_comma_req jstr)\<rparr>)"
    unfolding chunked_def using n(2) by auto
  with writes_flush [OF assms(1) n, of st] flush_sent show ?thesis by blast
qed

lemma report_status_sent:
  assumes "chunked fd jstr"
  shows "\<exists>jstr' st'. hap_set_char_report_status inc aid iid status jstr st = Some (True, jstr', st') \<and>
    chunked fd jstr' \<and> only_sent st st'"
proof -
  let ?f = "gens [
       gen_if (\<not> inc) (gens [json_gen_start_object, json_gen_push_array ''characteristics'']),
       json_gen_start_object, json_gen_obj_set_int ''aid'' aid, json_gen_obj_set_int ''iid'' iid,
       json_gen_obj_set_int ''status'' status, json_gen_end_object]"
  have "\<exists>jstr' st'. ?f jstr st = Some (0, jstr', st') \<and> chunked fd jstr' \<and> only_sent st st'"
    by (rule chunked_writes [OF _ assms], (rule writes_gens gen_calls_write)+)
  then show ?thesis by (auto simp: hap_set_char_report_status_def simp del: gens.simps)
qed

lemma char_kept_checks:
  "char_kept b c c' \<Longrightarrow> c_permission c' = c_permission c \<and> hap_char_check_val_constraints c' v = hap_char_check_val_constraints c v"
proof -
  assume "char_kept b c c'"
  then obtain e o1 where "c' = c\<lparr>c_ev_ctrls := e, c_owner_ctrl := o1\<rparr>" unfolding char_kept_def by blast
  then show ?thesis by (simp add: hap_char_check_val_constraints_def check_uint_def cong: if_cong split: hap_char_format.split)
qed

lemma write_ok_back:
  assumes "put_rel W st st'" "write_ok req_tw valid_tw st' w"
  shows "write_ok req_tw valid_tw st w"
proof -
  from assms(2) obtain c' where c': "char_at st' (wd_hc w) = Some c'" "c_permission c' AND HAP_CHAR_PERM_PW \<noteq> 0"
     "req_tw \<or> c_permission c' AND HAP_CHAR_PERM_TW \<noteq> 0 \<longrightarrow> valid_tw"
     "c_permission c' AND HAP_CHAR_PERM_AA \<noteq> 0 \<longrightarrow> wd_auth_data w \<noteq> None"
     "hap_char_check_val_constraints c' (wd_val w) = Some HAP_SUCCESS"
    unfolding write_ok_def by blast
  from assms(1) [unfolded put_rel_def, THEN conjunct2, rule_format, of "wd_hc w"] c'(1) obtain c where c: "char_at st (wd_hc w) = Some c"
    "char_kept (wd_hc w \<in> W) c c'" by (auto simp: option_rel_Some2)
  from char_kept_checks [OF c(2), of "wd_val w"] c' show ?thesis unfolding write_ok_def using c(1) by auto
qed

text \<open>What a part of the loop adds to the writes, and the state after it.\<close>

definition loop_ok :: "bool \<Rightarrow> bool \<Rightarrow> hap_write_data list \<Rightarrow> ('n, 'h, 'w, 's) hap_ip_scheme \<Rightarrow> ('n, 'h, 'w, 's) hap_ip_scheme \<Rightarrow> bool" where
  "loop_ok req_tw valid_tw ws st st' \<longleftrightarrow> (\<forall>w \<in> set ws. write_ok req_tw valid_tw st w) \<and> put_rel (wd_hc ` set ws) st st' \<and>
     (req_tw \<and> \<not> valid_tw \<longrightarrow> ws = [] \<and> char_at st' = char_at st)"

lemma loop_ok_trans: "loop_ok req_tw valid_tw ws st st' \<Longrightarrow> loop_ok req_tw valid_tw ws' st' st'' \<Longrightarrow> loop_ok req_tw valid_tw (ws @ ws') st st''"
proof -
  assume a: "loop_ok req_tw valid_tw ws st st'" "loop_ok req_tw valid_tw ws' st' st''"
  then have "put_rel (wd_hc ` set ws \<union> wd_hc ` set ws') st st''" unfolding loop_ok_def by (blast intro: put_rel_trans)
  moreover have "\<forall>w \<in> set ws'. write_ok req_tw valid_tw st w" using a unfolding loop_ok_def by (blast intro: write_ok_back)
  ultimately show ?thesis using a unfolding loop_ok_def by (auto simp: image_Un)
qed

lemma loop_ok_sent: "only_sent st st' \<Longrightarrow> loop_ok req_tw valid_tw [] st st'"
  using only_sent_put by (fastforce simp: loop_ok_def)

lemma loop_ok_outcome:
  assumes "outcome_ok req_tw valid_tw hc st out st'"
  shows "loop_ok req_tw valid_tw (case out of Write w \<Rightarrow> [w] | _ \<Rightarrow> []) st st'"
  using assms by (cases out) (auto simp: outcome_ok_def loop_ok_def write_ok_def)

lemma set_char_loop_ok:
  assumes "set_char_loop session req_tw valid_tw i n jctx inc wrs jstr st = Some (inc', wrs', jstr', st')" "chunked fd jstr"
  shows "\<exists>ws. wrs' = wrs @ ws \<and> loop_ok req_tw valid_tw ws st st' \<and> chunked fd jstr'"
  using assms
proof (induction n arbitrary: i jctx inc wrs jstr st)
  case 0
  then show ?case using loop_ok_sent [OF only_sent_refl] by auto
next
  case (Suc n)
  from Suc.prems(1) obtain jctx1 r jctx2 r2 aid iid ha hc where h: "json_arr_leave_object jctx = Some (r, jctx1)"
      "json_arr_get_object jctx1 (of_nat i) = Some (r2, jctx2)"
      "json_obj_get_int jctx2 ''aid'' = Some aid" "json_obj_get_int jctx2 ''iid'' = Some iid"
      "hap_acc_get_by_aid (of_int (case aid of Some a \<Rightarrow> a | None \<Rightarrow> 0)) st = Some ha"
      "hap_acc_get_char_by_iid ha (of_int (case iid of Some a \<Rightarrow> a | None \<Rightarrow> 0)) st = Some hc"
    by (auto simp: Let_def split: bind_splits)
  let ?aid = "case aid of Some a \<Rightarrow> a | None \<Rightarrow> 0" and ?iid = "case iid of Some a \<Rightarrow> a | None \<Rightarrow> 0"
  from Suc.prems(1) h have "do {
      (out, st) \<leftarrow> (case hc of
          None \<Rightarrow> Some (Report HAP_STATUS_RES_ABSENT, st)
        | Some hc \<Rightarrow> check_write session req_tw valid_tw hc jctx2 st);
      (inc, wrs, jstr, st) \<leftarrow> (case out of
          Done \<Rightarrow> Some (inc, wrs, jstr, st)
        | Report status \<Rightarrow> do {
            (inc, jstr, st) \<leftarrow> hap_set_char_report_status inc ?aid ?iid status jstr st;
            Some (inc, wrs, jstr, st) }
        | Write w \<Rightarrow> Some (inc, wrs @ [w], jstr, st));
      set_char_loop session req_tw valid_tw (Suc i) n jctx2 inc wrs jstr st } = Some (inc', wrs', jstr', st')" (is "Option.bind ?check ?rest = _")
    by (simp add: Let_def)
  then obtain out st1 where out: "?check = Some (out, st1)" "?rest (out, st1) = Some (inc', wrs', jstr', st')"
    by (cases ?check) auto
  have ok: "loop_ok req_tw valid_tw (case out of Write w \<Rightarrow> [w] | _ \<Rightarrow> []) st st1"
  proof (cases hc)
    case None
    with out(1) loop_ok_sent [OF only_sent_refl] show ?thesis by auto
  next
    case (Some q)
    with out(1) check_write_ok loop_ok_outcome show ?thesis by fastforce
  qed
  show ?case
  proof (cases out)
    case Done
    with out(2) Suc.IH [of _ _ _ _ _ st1] Suc.prems(2) obtain ws where "wrs' = wrs @ ws" "loop_ok req_tw valid_tw ws st1 st'" "chunked fd jstr'"
      by force
    with loop_ok_trans [OF ok] Done show ?thesis by auto
  next
    case (Report s)
    obtain jstr1 st2 where r: "hap_set_char_report_status inc ?aid ?iid s jstr st1 = Some (True, jstr1, st2)"
        "chunked fd jstr1" "only_sent st1 st2"
      using report_status_sent [OF Suc.prems(2)] by blast
    from out(2) Report r Suc.IH [OF _ r(2), of _ _ _ _ st2] obtain ws where
        ws: "wrs' = wrs @ ws" "loop_ok req_tw valid_tw ws st2 st'" "chunked fd jstr'" by force
    from loop_ok_trans [OF loop_ok_trans [OF ok loop_ok_sent [OF r(3)]] ws(2)] ws Report show ?thesis by auto
  next
    case (Write w)
    with out(2) Suc.IH [of _ _ _ _ _ st1] Suc.prems(2) obtain ws where "wrs' = (wrs @ [w]) @ ws" "loop_ok req_tw valid_tw ws st1 st'" "chunked fd jstr'"
      by force
    with loop_ok_trans [OF ok] Write show ?thesis by auto
  qed
qed

text \<open>The message to the host: the switches, and behind them what was in the arrays.\<close>

definition is_on :: "'s hap_objs_scheme \<Rightarrow> hap_write_data \<Rightarrow> bool" where
  "is_on st w \<longleftrightarrow> hap_char_get_type_uuid (Some (wd_hc w)) st = Some HAP_CHAR_UUID_ON"

definition host_addr :: "('n, 'h, 'w, 's) hap_ip_scheme \<Rightarrow> hap_write_data \<Rightarrow> byte" where
  "host_addr st w = (case CoreBridge_getModuleAddrByHc (Some (wd_hc w)) st of Some a \<Rightarrow> a | None \<Rightarrow> 0)"

definition host_action :: "hap_write_data \<Rightarrow> byte" where
  "host_action w = (if val_b (wd_val w) then DO_TURN_ON else DO_TURN_OFF)"

definition host_message :: "('n, 'h, 'w, 's) hap_ip_scheme \<Rightarrow> hap_write_data list \<Rightarrow> byte list" where
  "host_message st ws = (let on = filter (is_on st) ws; old = drop (length on) (stack_array (length ws) st) in
     action_bytes (map (host_addr st) on @ old) (map host_action on @ old))"

lemma wr_block_place:
  "wr_block xs (int pos) [y] = (if pos < length xs then Some (take pos xs @ y # drop (Suc pos) xs) else None)"
  by (auto simp: wr_block_def)

lemma write_group_append:
  "write_group (xs @ ys) addrs acts pos sts st = do {
     (addrs, acts, pos, sts) \<leftarrow> write_group xs addrs acts pos sts st; write_group ys addrs acts pos sts st }"
proof (induction xs arbitrary: addrs acts pos sts)
  case (Cons w xs)
  show ?case by (cases "hap_char_get_type_uuid (Some (wd_hc w)) st") (simp_all add: Cons.IH)
qed simp

lemma write_groups_group:
  "write_groups hs grp ws addrs acts pos sts st = Some (as, bs, ss) \<Longrightarrow>
     \<exists>p. write_group (grp @ ws) addrs acts pos sts st = Some (as, bs, p, ss)"
proof (induction ws arbitrary: hs grp addrs acts pos sts)
  case (Cons w ws)
  from Cons.prems obtain par where par: "hap_char_get_parent (Some (wd_hc w)) st = Some par" by (auto split: bind_splits)
  show ?case
  proof (cases "hs = par")
    case True
    with Cons.IH [of hs "grp @ [w]"] Cons.prems par show ?thesis by simp
  next
    case False
    with Cons.prems par obtain a b p s where g: "write_group grp addrs acts pos sts st = Some (a, b, p, s)"
      "write_groups par [w] ws a b p s st = Some (as, bs, ss)" by (auto split: bind_splits)
    from Cons.IH [OF g(2)] g(1) show ?thesis by (auto simp: write_group_append [of grp "w # ws"])
  qed
qed (auto split: bind_splits)

lemma write_group_places:
  assumes "write_group ws addrs acts pos sts st = Some (as, bs, p, ss)" "pos \<le> length addrs" "pos \<le> length acts"
  shows "let on = filter (is_on st) ws in p = pos + length on \<and> length as = length addrs \<and> length bs = length acts \<and>
    p \<le> length as \<and> p \<le> length bs \<and>
    as = take pos addrs @ map (host_addr st) on @ drop p addrs \<and> bs = take pos acts @ map host_action on @ drop p acts"
  using assms
proof (induction ws arbitrary: addrs acts pos sts)
  case (Cons w ws)
  from Cons.prems(1) obtain u where u: "hap_char_get_type_uuid (Some (wd_hc w)) st = Some u" by (auto split: bind_splits)
  show ?case
  proof (cases "u = HAP_CHAR_UUID_ON")
    case False
    with Cons u show ?thesis by (simp add: is_on_def)
  next
    case True
    with Cons.prems(1) u obtain a where a: "CoreBridge_getModuleAddrByHc (Some (wd_hc w)) st = Some a" "pos < length addrs" "pos < length acts"
        "write_group ws (take pos addrs @ a # drop (Suc pos) addrs) (take pos acts @ host_action w # drop (Suc pos) acts)
          (pos + 1) (sts @ [HAP_STATUS_SUCCESS]) st = Some (as, bs, p, ss)"
      by (auto simp: wr_block_place host_action_def split: bind_splits if_splits)
    have "is_on st w" "host_addr st w = a" using True u a by (simp_all add: is_on_def host_addr_def)
    moreover have "take (Suc pos) (take pos xs @ y # drop (Suc pos) xs) = take pos xs @ [y]"
      "length (take pos xs @ y # drop (Suc pos) xs) = length xs"
      "drop (Suc pos + k) (take pos xs @ y # drop (Suc pos) xs) = drop (Suc pos + k) xs" if "pos < length xs" for k y and xs :: "byte list"
      using that by (simp_all add: add.commute)
    ultimately show ?thesis using Cons.IH [OF a(4)] a(2,3) by (simp add: Let_def host_action_def)
  qed
qed (auto simp: Let_def)

lemma put_rel_names:
  assumes "put_rel W st st'"
  shows "hap_char_get_iid hc st' = hap_char_get_iid hc st" "hap_char_get_type_uuid hc st' = hap_char_get_type_uuid hc st"
    "CoreBridge_getModuleAddrByHc hc st' = CoreBridge_getModuleAddrByHc hc st"
    "is_on st' = is_on st" "host_addr st' = host_addr st" "host_message st' = host_message st"
proof -
  have c: "case get_char hc st of None \<Rightarrow> get_char hc st' = None
      | Some c \<Rightarrow> \<exists>c'. get_char hc st' = Some c' \<and> c_iid c' = c_iid c \<and> c_type_uuid c' = c_type_uuid c" for hc
  proof (cases hc)
    case (Some p)
    have "c_iid c' = c_iid c \<and> c_type_uuid c' = c_type_uuid c" if "char_kept b c c'" for b c c'
    proof -
      from that obtain e o1 where "c' = c\<lparr>c_ev_ctrls := e, c_owner_ctrl := o1\<rparr>" unfolding char_kept_def by blast
      then show ?thesis by simp
    qed
    moreover have "rel_option (char_kept (p \<in> W)) (char_at st p) (char_at st' p)" using assms by (simp add: put_rel_def)
    ultimately show ?thesis using Some by (cases "char_at st p") (auto simp: get_char_def option_rel_Some1)
  qed (simp add: get_char_def)
  show iid: "hap_char_get_iid hc st' = hap_char_get_iid hc st" for hc
    using c [of hc] by (auto simp: hap_char_get_iid_def split: option.splits)
  show uuid: "hap_char_get_type_uuid hc st' = hap_char_get_type_uuid hc st" for hc
    using c [of hc] by (auto simp: hap_char_get_type_uuid_def split: option.splits)
  have f: "modules st' = modules st" "stack_mem st' = stack_mem st" using put_frame_fields assms by (auto simp: put_rel_def)
  have find: "find_module iid i ms st' = find_module iid i ms st" for iid i ms
    by (induction ms arbitrary: i) (simp_all add: iid cong: if_cong)
  show addr: "CoreBridge_getModuleAddrByHc hc st' = CoreBridge_getModuleAddrByHc hc st" for hc
    by (simp add: CoreBridge_getModuleAddrByHc_def f iid find)
  show on: "is_on st' = is_on st" by (simp add: fun_eq_iff is_on_def uuid)
  show host: "host_addr st' = host_addr st" by (simp add: fun_eq_iff host_addr_def addr)
  have "stack_array n st' = stack_array n st" for n by (simp add: stack_array_def f)
  then show "host_message st' = host_message st" by (simp add: fun_eq_iff host_message_def on host)
qed

text \<open>The timed write of a request on a session: whether it is one, and whether it is valid at a time.\<close>

definition tw_request :: "jparse_ctx \<Rightarrow> hap_secure_session \<Rightarrow> bool" where
  "tw_request jctx s \<longleftrightarrow> ss_prepare_time s \<noteq> 0 \<or> json_obj_get_int64 jctx ''pid'' \<noteq> Some None"

definition tw_valid :: "jparse_ctx \<Rightarrow> hap_secure_session \<Rightarrow> int \<Rightarrow> bool" where
  "tw_valid jctx s cur_time \<longleftrightarrow> (case json_obj_get_int64 jctx ''pid'' of
       Some (Some pid) \<Rightarrow> (of_int pid :: u64) = ss_pid s \<and> cur_time - ss_prepare_time s \<le> ss_ttl s
     | _ \<Rightarrow> False)"

definition now_ms :: "('n, 'h, 'w, 's) hap_ip_scheme \<Rightarrow> int" where
  "now_ms st = fst (esp_timer_time (api st) (world st)) div 1000"

lemma timed_write_effect:
  assumes "timed_write jctx q st = Some (req_tw, valid_tw, st')" "sess_at st q = Some s"
  shows "req_tw = tw_request jctx s \<and> valid_tw = tw_valid jctx s (now_ms st) \<and> (\<exists>w. st' = st\<lparr>world := w,
    sess_at := (sess_at st)(q \<mapsto> s\<lparr>ss_prepare_time := 0, ss_pid := 0, ss_ttl := 0\<rparr>)\<rparr>)"
  using assms by (auto simp: timed_write_def esp_timer_get_time_def upd_sess_def tw_request_def tw_valid_def now_ms_def
      split: prod.splits bind_splits option.splits)

lemma set_char_end_sent:
  assumes "set_char_end inc ret jstr st = Some (r, st')" "chunked fd jstr"
  shows "only_sent st st'"
proof (cases inc)
  case True
  have "\<exists>jstr' st'. gens [json_gen_pop_array, json_gen_end_object] jstr st = Some (0, jstr', st') \<and> chunked fd jstr' \<and> only_sent st st'"
    by (rule chunked_writes [OF _ assms(2)], (rule writes_gens gen_calls_write)+)
  then obtain jstr1 st1 where j: "gens [json_gen_pop_array, json_gen_end_object] jstr st = Some (0, jstr1, st1)"
    "jg_flush_cb jstr1 = Some (hap_http_json_flush_chunk fd)" "only_sent st st1"
    by (auto simp: chunked_def simp del: gens.simps)
  with True assms(1) have "st' = hap_http_json_flush_chunk fd (jg_buf jstr1) st1"
    by (auto simp: set_char_end_def json_gen_str_end_def simp del: gens.simps)
  with only_sent_trans [OF j(3) do_sdk_sent] show ?thesis by (simp add: hap_http_json_flush_chunk_def)
next
  case False
  with assms(1) show ?thesis by (simp add: set_char_end_def)
qed

lemma report_statuses_sent:
  assumes "report_statuses ws inc jstr st = Some (inc', jstr', st')" "chunked fd jstr"
  shows "chunked fd jstr' \<and> only_sent st st'"
  using assms
proof (induction ws inc jstr st rule: report_statuses.induct)
  case (2 w status ws inc jstr st)
  from 2(2) obtain aid c where a: "char_aid (wd_hc w) st = Some aid" "char_at st (wd_hc w) = Some c"
    by (auto split: bind_splits)
  obtain jstr1 st1 where r: "hap_set_char_report_status inc (sint aid) (sint (c_iid c)) status jstr st = Some (True, jstr1, st1)"
     "chunked fd jstr1" "only_sent st st1" using report_status_sent [OF 2(3)] by blast
  from 2(1) [OF a r(1) refl refl] 2(2) a r only_sent_trans [OF r(3)] show ?case by auto
qed simp

lemma host_message_world: "host_message (st\<lparr>world := w, sess_at := m\<rparr>) = host_message st"
proof -
  have find: "find_module iid i ms (st\<lparr>world := w, sess_at := m\<rparr>) = find_module iid i ms st" for iid i ms
    by (induction ms arbitrary: i) (simp_all add: hap_char_get_iid_def get_char_def cong: if_cong)
  have "is_on (st\<lparr>world := w, sess_at := m\<rparr>) = is_on st"
    by (simp add: fun_eq_iff is_on_def hap_char_get_type_uuid_def get_char_def)
  moreover have "host_addr (st\<lparr>world := w, sess_at := m\<rparr>) = host_addr st"
    by (simp add: fun_eq_iff host_addr_def CoreBridge_getModuleAddrByHc_def find hap_char_get_iid_def get_char_def)
  moreover have "stack_array n (st\<lparr>world := w, sess_at := m\<rparr>) = stack_array n st" for n
    by (simp add: stack_array_def)
  ultimately show ?thesis by (intro ext) (simp add: host_message_def)
qed

lemma loop_ok_addr: "new_addr st = (a, st') \<Longrightarrow> loop_ok req_tw valid_tw [] st st'"
  using new_addr_rel [of st a st'] by (auto simp: loop_ok_def new_addr_def)


section \<open>A request, for the examples\<close>

text \<open>A lamp with one switch, a session, and a request that turns it on, as the parser leaves it.\<close>

definition lamp_char :: hap_char where
  "lamp_char = zero_char\<lparr>c_iid := 9, c_type_uuid := HAP_CHAR_UUID_ON, c_permission := HAP_CHAR_PERM_PR OR HAP_CHAR_PERM_PW,
     c_format := HAP_CHAR_FORMAT_BOOL, c_parent := Some 12\<rparr>"

definition lamp_ip :: "(kv, string \<times> string, streams) hap_ip" where
  "lamp_ip = (upd_priv (\<lambda>p. p\<lparr>p_sessions := (p_sessions p)[0 := Some 20]\<rparr>) boot_ip)\<lparr>
     acc_at := [11 \<mapsto> zero_acc\<lparr>a_aid := 1, a_servs := Some 12\<rparr>], primary_acc := Some 11,
     serv_at := [12 \<mapsto> zero_serv\<lparr>s_chars := Some 13, s_parent := Some 11, s_write_cb := Some (Write_app 0)\<rparr>],
     char_at := [13 \<mapsto> lamp_char], sess_at := [20 \<mapsto> zero_session], modules := [\<lparr>m_state = False, m_hc = Some 13\<rparr>]\<rparr>"

definition on_text :: string where
  "on_text = ''{'' @ key ''characteristics'' @ ''[{'' @ key ''aid'' @ ''1,'' @ key ''iid'' @ ''9,'' @ key ''value'' @ ''true}]}''"

definition on_ctx :: jparse_ctx where
  "on_ctx = \<lparr>jp_js = on_text, jp_tokens = map (\<lambda>(ty, s, e, n, p). \<lparr>t_type = ty, t_start = s, t_end = e, t_size = n, t_parent = p\<rparr>)
     [(JSMN_OBJECT, 0, 52, 1, - 1), (JSMN_STRING, 2, 17, 1, 0), (JSMN_ARRAY, 19, 51, 1, 1), (JSMN_OBJECT, 20, 50, 3, 2),
      (JSMN_STRING, 22, 25, 1, 3), (JSMN_PRIMITIVE, 27, 28, 0, 4), (JSMN_STRING, 30, 33, 1, 3), (JSMN_PRIMITIVE, 35, 36, 0, 6),
      (JSMN_STRING, 38, 43, 1, 3), (JSMN_PRIMITIVE, 45, 49, 0, 8)], jp_cur = 0, jp_num_tokens = 10\<rparr>"

definition on_req :: http_req where
  "on_req = \<lparr>rq_fd = 3, rq_method = HTTP_PUT, rq_uri = '''', rq_content_len = 52, rq_sess_ctx = Some 20, rq_free_ctx = None, rq_ignore_sess_ctx_changes = False\<rparr>"

lemma on_lookups:
  "json_obj_get_array on_ctx ''characteristics'' = Some (Some (1, on_ctx\<lparr>jp_cur := 2\<rparr>))"
  "json_arr_get_object (on_ctx\<lparr>jp_cur := 2\<rparr>) 0 = Some (0, on_ctx\<lparr>jp_cur := 3\<rparr>)"
  "json_arr_leave_object (on_ctx\<lparr>jp_cur := 3\<rparr>) = Some (0, on_ctx\<lparr>jp_cur := 2\<rparr>)"
  "json_obj_get_int64 on_ctx ''pid'' = Some None"
  "json_obj_get_int (on_ctx\<lparr>jp_cur := 3\<rparr>) ''aid'' = Some (Some 1)"
  "json_obj_get_int (on_ctx\<lparr>jp_cur := 3\<rparr>) ''iid'' = Some (Some 9)"
  "json_obj_get_bool (on_ctx\<lparr>jp_cur := 3\<rparr>) ''ev'' = Some None"
  "json_obj_get_bool (on_ctx\<lparr>jp_cur := 3\<rparr>) ''value'' = Some (Some True)"
  "json_obj_get_bool (on_ctx\<lparr>jp_cur := 3\<rparr>) ''remote'' = Some None"
  "json_obj_get_strlen (on_ctx\<lparr>jp_cur := 3\<rparr>) ''authData'' = Some None"
  by code_simp+

lemma boot_ip_more [simp]: "malloc_ok boot_ip k" "uart_queue boot_ip = []" "esp_timer_time demo_api = (\<lambda>w. (5000000, w))"
  using boot_ip_simps(11) by (simp_all add: memory_ok_def boot_ip_def demo_api_def hap_net.defs)

lemma lamp_fields [simp]:
  "acc_at lamp_ip = [11 \<mapsto> zero_acc\<lparr>a_aid := 1, a_servs := Some 12\<rparr>]" "primary_acc lamp_ip = Some 11"
  "serv_at lamp_ip = [12 \<mapsto> zero_serv\<lparr>s_chars := Some 13, s_parent := Some 11, s_write_cb := Some (Write_app 0)\<rparr>]"
  "char_at lamp_ip = [13 \<mapsto> lamp_char]" "sess_at lamp_ip = [20 \<mapsto> zero_session]" "modules lamp_ip = [\<lparr>m_state = False, m_hc = Some 13\<rparr>]"
  "memory_ok lamp_ip" "api lamp_ip = demo_api" "sdk_log lamp_ip = []" "uart_queue lamp_ip = []"
  "p_sessions (priv lamp_ip) = Some 20 # replicate 7 None"
  by (simp_all add: lamp_ip_def upd_priv_def memory_ok_def zero_priv_def HAP_MAX_SESSIONS_def eval_nat_numeral)

definition lamp_like :: "('n, 'h, 'w, 's) hap_ip_scheme \<Rightarrow> bool" where
  "lamp_like st \<longleftrightarrow> acc_at st = [11 \<mapsto> zero_acc\<lparr>a_aid := 1, a_servs := Some 12\<rparr>] \<and> primary_acc st = Some 11 \<and>
     serv_at st = [12 \<mapsto> zero_serv\<lparr>s_chars := Some 13, s_parent := Some 11, s_write_cb := Some (Write_app 0)\<rparr>] \<and>
     (\<exists>n. char_at st = [13 \<mapsto> lamp_char\<lparr>c_owner_ctrl := n\<rparr>]) \<and> modules st = [\<lparr>m_state = False, m_hc = Some 13\<rparr>] \<and>
     p_sessions (priv st) = Some 20 # replicate 7 None"

lemma lamp_lookups:
  assumes "lamp_like st"
  shows "hap_acc_get_by_aid 1 st = Some (Some 11)" "hap_acc_get_char_by_iid (Some 11) 9 st = Some (Some 13)"
    "hap_get_ctrl_session_index (Some 20) st = 0" "CoreBridge_getModuleAddrByHc (Some 13) st = Some 1"
    "hap_char_get_parent (Some 13) st = Some (Some 12)" "hap_char_get_type_uuid (Some 13) st = Some HAP_CHAR_UUID_ON"
  using assms
  by (auto simp: lamp_like_def hap_acc_get_by_aid_def list_find.simps hap_get_first_acc_def hap_acc_get_char_by_iid_def
    hap_acc_get_first_serv_def get_acc_def find_char_in_servs.simps hap_serv_get_char_by_iid_def hap_serv_get_first_char_def
    get_serv_def get_char_def lamp_char_def hap_get_ctrl_session_index_def session_at_def HAP_MAX_SESSIONS_def upt_rec
    CoreBridge_getModuleAddrByHc_def hap_char_get_iid_def hap_char_get_parent_def hap_char_get_type_uuid_def)

definition lamp_write :: hap_write_data where
  "lamp_write = \<lparr>wd_hc = 13, wd_val = set_b True zero_val, wd_auth_data = None, wd_remote = False\<rparr>"

lemma lamp_check:
  assumes "lamp_like st"
  shows "\<exists>st'. check_write (Some 20) False False 13 (on_ctx\<lparr>jp_cur := 3\<rparr>) st = Some (Write lamp_write, st') \<and> lamp_like st' \<and>
    next_addr st' = next_addr st \<and> malloc_ok st' = malloc_ok st \<and> uart_queue st' = uart_queue st"
  using assms lamp_lookups(3) [of st]
  by (auto simp: check_write_def on_lookups lamp_like_def lamp_char_def zero_char_def get_serv_def get_value_def get_auth_data_def
    hap_char_check_val_constraints_def hap_char_get_parent_def get_char_def hap_char_set_owner_ctrl_def bit_mask16_def upd_char_def
    lamp_write_def HAP_CHAR_PERM_TW_def HAP_CHAR_PERM_AA_def HAP_CHAR_PERM_PW_def HAP_CHAR_PERM_PR_def)

lemma lamp_loop:
  assumes "lamp_like st"
  shows "\<exists>st'. set_char_loop (Some 20) False False 0 1 (on_ctx\<lparr>jp_cur := 3\<rparr>) False [] jstr st =
      Some (False, [lamp_write], jstr, st') \<and> lamp_like st' \<and> malloc_ok st' = malloc_ok st \<and> uart_queue st' = uart_queue st"
proof -
  obtain st1 where st1: "check_write (Some 20) False False 13 (on_ctx\<lparr>jp_cur := 3\<rparr>) st = Some (Write lamp_write, st1)"
    "lamp_like st1" "malloc_ok st1 = malloc_ok st" "uart_queue st1 = uart_queue st" using lamp_check [OF assms] by blast
  have "set_char_loop (Some 20) False False 0 (Suc 0) (on_ctx\<lparr>jp_cur := 3\<rparr>) False [] jstr st = Some (False, [lamp_write], jstr, st1)"
    using st1(1) lamp_lookups [OF assms] by (simp add: on_lookups)
  then show ?thesis using st1 by auto
qed

lemma lamp_put: "\<exists>r st'. hap_http_handle_set_char on_ctx 512 on_req lamp_ip = Some (r, st') \<and>
    uart_queue st' = [(3, [CMD_DO_MODULE, 1, DO_TURN_ON])]"
proof -
  let ?s = "lamp_ip\<lparr>sess_at := [20 \<mapsto> zero_session\<lparr>ss_prepare_time := 0, ss_pid := 0, ss_ttl := 0\<rparr>]\<rparr>"
  have tw: "timed_write on_ctx 20 lamp_ip = Some (False, False, ?s)"
    by (simp add: timed_write_def on_lookups esp_timer_get_time_def upd_sess_def zero_session_def)
  let ?s2 = "?s\<lparr>next_addr := Suc (Suc (next_addr lamp_ip))\<rparr>"
  have mem: "malloc_ok lamp_ip k" for k using lamp_fields(7) by (simp only: memory_ok_def)
  have "lamp_like ?s2" by (simp add: lamp_like_def, rule exI [of _ 0], simp add: lamp_char_def zero_char_def)
  from lamp_loop [OF this] obtain st3 where l: "set_char_loop (Some 20) False False 0 1 (on_ctx\<lparr>jp_cur := 3\<rparr>) False []
      (json_gen_str_start 512 (Some (hap_http_json_flush_chunk 3))) ?s2 = Some (False, [lamp_write],
      json_gen_str_start 512 (Some (hap_http_json_flush_chunk 3)), st3)" "lamp_like st3" "malloc_ok st3 = malloc_ok lamp_ip" "uart_queue st3 = []" by auto
  let ?s5 = "st3\<lparr>next_addr := Suc (Suc (next_addr st3))\<rparr>"
  have s5: "lamp_like ?s5" using l(2) by (simp add: lamp_like_def)
  have n: "new_addr lamp_ip = (Some (next_addr lamp_ip), lamp_ip\<lparr>next_addr := Suc (next_addr lamp_ip)\<rparr>)" by simp
  show ?thesis using tw l lamp_lookups [OF l(2)] lamp_lookups [OF s5] mem
    by (simp add: hap_http_handle_set_char_def on_req_def on_lookups new_addr_def Let_def lamp_write_def wr_block_def stack_array_def
      CoreBridge_doModulesAction_def rd_block_def set_char_end_def action_bytes_def)
qed


section \<open>Requests without a session\<close>

lemma sdks_log: "\<exists>w. sdks cs st = st\<lparr>world := w, sdk_log := sdk_log st @ cs\<rparr>"
proof (induction cs arbitrary: st)
  case (Cons c cs)
  have "do_sdk c st = st\<lparr>world := snd (sdk_do (api st) c (world st)), sdk_log := sdk_log st @ [c]\<rparr>"
    by (simp add: do_sdk_def sdk_def split_beta)
  then obtain w where w: "do_sdk c st = st\<lparr>world := w, sdk_log := sdk_log st @ [c]\<rparr>" by blast
  from Cons [of "do_sdk c st"] w show ?case by (auto simp: sdks_def)
qed (auto simp: sdks_def intro: exI [of _ "world st"])

text \<open>C10: without a verified session the accessories and the characteristics can be neither read nor
  written, and no write can be prepared: the request is answered with status 470 and nothing changes but
  what is sent.\<close>

theorem http_requires_session:
  assumes "hap_is_req_secure (rq_sess_ctx req) st = Some False"
  shows "\<exists>w. let st' = st\<lparr>world := w, sdk_log := sdk_log st @ [
         Resp_set_status (rq_fd req) ''470 Connection Authorization Required'',
         Resp_set_type (rq_fd req) ''application/hap+json'', Resp_send (rq_fd req) (bytes_of (status_body (- 70401)))]\<rparr>
       in hap_http_get_accessories app req st = Some (HAP_SUCCESS, req, st') \<and>
          hap_http_get_characteristics app req st = Some (HAP_SUCCESS, req, st') \<and>
          hap_http_put_characteristics req st = Some (HAP_SUCCESS, req, st') \<and>
          hap_http_put_prepare req st = Some (HAP_SUCCESS, req, st')"
proof -
  let ?cs = "[Resp_set_status (rq_fd req) ''470 Connection Authorization Required'',
    Resp_set_type (rq_fd req) ''application/hap+json'', Resp_send (rq_fd req) (bytes_of (status_body (- 70401)))]"
  from sdks_log [of ?cs st] obtain w where w: "sdks ?cs st = st\<lparr>world := w, sdk_log := sdk_log st @ ?cs\<rparr>" ..
  have "hap_http_session_not_authorized (rq_fd req) st = (HAP_SUCCESS, sdks ?cs st)"
    by (simp add: hap_http_session_not_authorized_def send_json_def sdks_def)
  then have n: "hap_http_session_not_authorized (rq_fd req) st = (HAP_SUCCESS, st\<lparr>world := w, sdk_log := sdk_log st @ ?cs\<rparr>)"
    unfolding w .
  define st1 where "st1 = st\<lparr>world := w, sdk_log := sdk_log st @ ?cs\<rparr>"
  note n1 = n [folded st1_def]
  have r1: "hap_http_get_accessories app req st = Some (HAP_SUCCESS, req, st1)"
    by (subst hap_http_get_accessories_def, subst assms, subst Option.bind.bind_lunit, simp only: not_False_eq_True if_True n1 prod.case)
  have r2: "hap_http_get_characteristics app req st = Some (HAP_SUCCESS, req, st1)"
    by (subst hap_http_get_characteristics_def, subst Let_def, subst Let_def, subst assms, subst Option.bind.bind_lunit, simp only: not_False_eq_True if_True n1 prod.case)
  have r3: "hap_http_put_characteristics req st = Some (HAP_SUCCESS, req, st1)"
    by (subst hap_http_put_characteristics_def, subst Let_def, subst assms, subst Option.bind.bind_lunit, simp only: not_False_eq_True if_True n1 prod.case)
  have r4: "hap_http_put_prepare req st = Some (HAP_SUCCESS, req, st1)"
    by (subst hap_http_put_prepare_def, subst Let_def, subst Let_def, subst assms, subst Option.bind.bind_lunit, simp only: not_False_eq_True if_True n1 prod.case)
  from r1 r2 r3 r4 show ?thesis unfolding Let_def st1_def by blast
qed

theorem http_requires_session_witness:
  "\<exists>st'. hap_http_put_characteristics (on_req\<lparr>rq_sess_ctx := None\<rparr>) lamp_ip = Some (HAP_SUCCESS, on_req\<lparr>rq_sess_ctx := None\<rparr>, st') \<and>
     uart_queue st' = [] \<and> char_at st' = char_at lamp_ip"
  using http_requires_session [of "on_req\<lparr>rq_sess_ctx := None\<rparr>" lamp_ip undefined]
  by (auto simp: hap_is_req_secure_def Let_def)

end
