(* ===== verification/Ip_Notif.thy ===== *)
theory Ip_Notif
  imports Ip_Write
begin

text \<open>
  Event notifications (\<open>hap_send_notification\<close> of \<open>esp_hap_ip_services.c\<close>): the pending
  characteristics are taken from the queue, and every session gets one message with the ones it is
  subscribed to and did not change itself. The message is written to a buffer of 1024 bytes without a
  callback and sent over \<open>hap_httpd_send\<close>. It is shown who is told what.
\<close>

section \<open>The code\<close>

fun take_pending :: "nat \<Rightarrow> 's hap_objs_scheme \<Rightarrow> (ptr list \<times> 's hap_objs_scheme) option" where
  "take_pending 0 st = Some ([], st)"
| "take_pending (Suc n) st = do {
     (hc, st) \<leftarrow> hap_get_pending_notif_char st;
     case hc of None \<Rightarrow> Some ([], st)
     | Some q \<Rightarrow> do { (hcs, st) \<leftarrow> take_pending n st; Some (q # hcs, st) } }"

definition notif_entry :: "ptr \<Rightarrow> ('n, 'h, 'w, 's) ip_gen" where
  "notif_entry hc jstr st = do {
     aid \<leftarrow> char_aid hc st;
     c \<leftarrow> char_at st hc;
     gens [json_gen_start_object, json_gen_obj_set_int ''aid'' (sint aid), json_gen_obj_set_int ''iid'' (sint (c_iid c)),
       hap_add_char_val_json (c_format c) ''value'' (c_val c), json_gen_end_object] jstr st }"

text \<open>The characteristics for the session number \<open>i\<close>; the flag is \<open>notif_to_send\<close>.\<close>

fun notif_chars :: "nat \<Rightarrow> ptr list \<Rightarrow> bool \<Rightarrow> ('n, 'h, 'w, 's) hap_ip_scheme json_gen_str \<Rightarrow> ('n, 'h, 'w, 's) hap_ip_scheme \<Rightarrow>
     (bool \<times> ('n, 'h, 'w, 's) hap_ip_scheme json_gen_str \<times> ('n, 'h, 'w, 's) hap_ip_scheme) option" where
  "notif_chars i [] notif_to_send jstr st = Some (notif_to_send, jstr, st)"
| "notif_chars i (hc # hcs) notif_to_send jstr st = do {
     owner \<leftarrow> hap_char_is_ctrl_owner (Some hc) (int i) st;
     if owner then do {
       st \<leftarrow> upd_char (Some hc) (\<lambda>c. c\<lparr>c_owner_ctrl := 0\<rparr>) st;
       notif_chars i hcs notif_to_send jstr st }
     else do {
       sub \<leftarrow> hap_char_is_ctrl_subscribed (Some hc) (int i) st;
       if \<not> sub then notif_chars i hcs notif_to_send jstr st
       else do {
         (_, jstr, st) \<leftarrow> notif_entry hc jstr st;
         notif_chars i hcs True jstr st } } }"

definition notif_header :: "nat \<Rightarrow> string" where
  "notif_header n = ''EVENT/1.0 200 OK'' @ crlf @ ''Content-Type: application/hap+json'' @ crlf @
     ''Content-Length: '' @ dec_str n @ crlf"

definition httpd_send_str :: "int \<Rightarrow> string \<Rightarrow> ('n, 'h, 'w, 's) hap_ip_scheme \<Rightarrow> ('n, 'h, 'w, 's) hap_ip_scheme option" where
  "httpd_send_str fd s st = map_option snd (hap_httpd_send fd (bytes_of s) (int (length s)) 0 st)"

definition notify_session :: "ptr list \<Rightarrow> nat \<Rightarrow> ptr \<Rightarrow> ('n, 'h, 'w, 's) hap_ip_scheme \<Rightarrow> ('n, 'h, 'w, 's) hap_ip_scheme option" where
  "notify_session hcs i q st = do {
     s \<leftarrow> sess_at st q;
     let fd = ss_conn_identifier s;
     (_, jstr, st) \<leftarrow> gens [json_gen_start_object, json_gen_push_array ''characteristics''] (json_gen_str_start 1024 None) st;
     (notif_to_send, jstr, st) \<leftarrow> notif_chars i hcs False jstr st;
     if \<not> notif_to_send then Some st
     else do {
       (_, jstr, st) \<leftarrow> gens [json_gen_pop_array, json_gen_end_object] jstr st;
       let (notif_json, st) = json_gen_str_end jstr st;
       st \<leftarrow> httpd_send_str fd (snprintf 250 (notif_header (length notif_json))) st;
       st \<leftarrow> httpd_send_str fd crlf st;
       st \<leftarrow> httpd_send_str fd notif_json st;
       Some (do_sdk (Sess_update_lru_counter fd) st) } }"

fun notify_sessions :: "ptr list \<Rightarrow> nat list \<Rightarrow> bool \<Rightarrow> ('n, 'h, 'w, 's) hap_ip_scheme \<Rightarrow> (bool \<times> ('n, 'h, 'w, 's) hap_ip_scheme) option" where
  "notify_sessions hcs [] ctrl_connected st = Some (ctrl_connected, st)"
| "notify_sessions hcs (i # js) ctrl_connected st = (case session_at i st of
       None \<Rightarrow> notify_sessions hcs js ctrl_connected st
     | Some q \<Rightarrow> do { st \<leftarrow> notify_session hcs i q st; notify_sessions hcs js True st })"

definition hap_send_notification :: "('n, 'h, 'w, 's) hap_ip_scheme \<Rightarrow> ('n, 'h, 'w, 's) hap_ip_scheme option" where
  "hap_send_notification st = do {
     let num_char = unat (max_event_notif_chars (p_cfg (priv st)));
     let (char_arr, st) = new_addr st;
     if char_arr = None then Some st
     else do {
       (hcs, st) \<leftarrow> take_pending num_char st;
       if hcs = [] then Some st
       else do {
         (ctrl_connected, st) \<leftarrow> notify_sessions hcs [0..<HAP_MAX_SESSIONS] False st;
         if \<not> ctrl_connected \<and> \<not> p_disconnected_event_sent (priv st) then do {
           (_, st) \<leftarrow> hap_mdns_announce False st;
           Some (upd_priv (\<lambda>p. p\<lparr>p_disconnected_event_sent := True\<rparr>) st) }
         else Some st } } }"

section \<open>What a notification says\<close>

text \<open>Without a callback a call leaves the state alone; this is \<open>writes\<close> at one state.\<close>

definition cuts :: "'st \<Rightarrow> 'st jgen \<Rightarrow> (bool \<Rightarrow> string) \<Rightarrow> (bool \<Rightarrow> bool) \<Rightarrow> bool" where
  "cuts st f t d \<longleftrightarrow> (\<forall>n jstr. gen_ready n jstr \<and> jg_flush_cb jstr = None \<longrightarrow> (\<exists>r. f jstr st =
     Some (r, jstr\<lparr>jg_buf := take n (jg_buf jstr @ t (jg_comma_req jstr)), jg_comma_req := d (jg_comma_req jstr)\<rparr>, st)))"

lemma cuts_writes: "writes f t d \<Longrightarrow> cuts st f t d"
  using writes_cut by (fastforce simp: cuts_def)

lemma cuts_D:
  "cuts st f t d \<Longrightarrow> gen_ready n jstr \<Longrightarrow> jg_flush_cb jstr = None \<Longrightarrow> \<exists>r. f jstr st =
     Some (r, jstr\<lparr>jg_buf := take n (jg_buf jstr @ t (jg_comma_req jstr)), jg_comma_req := d (jg_comma_req jstr)\<rparr>, st)"
  by (simp add: cuts_def)

lemma cuts_cong: "cuts st f t d \<Longrightarrow> (\<And>c. t c = t' c) \<Longrightarrow> (\<And>c. d c = d' c) \<Longrightarrow> cuts st f t' d'"
  by (simp add: cuts_def)

lemma cuts_then:
  assumes "cuts st f t d" "cuts st g u e"
  shows "cuts st (gen_then f g) (\<lambda>c. t c @ u (d c)) (\<lambda>c. e (d c))"
  unfolding cuts_def
proof (intro allI impI, elim conjE)
  fix n and jstr :: "'a json_gen_str"
  assume r: "gen_ready n jstr" and cb: "jg_flush_cb jstr = None"
  define c s where "c = jg_comma_req jstr" and "s = jg_buf jstr @ t c"
  define j where "j = jstr\<lparr>jg_buf := take n s, jg_comma_req := d c\<rparr>"
  obtain r1 where f: "f jstr st = Some (r1, j, st)" using cuts_D [OF assms(1) r cb] by (auto simp: j_def s_def c_def)
  have "gen_ready n j" "jg_flush_cb j = None" using r cb by (simp_all add: j_def)
  from cuts_D [OF assms(2) this] obtain r2 where
    "g j st = Some (r2, j\<lparr>jg_buf := take n (jg_buf j @ u (d c)), jg_comma_req := e (d c)\<rparr>, st)"
    by (auto simp: j_def)
  moreover have "take n (take n s @ u (d c)) = take n (s @ u (d c))" by (simp add: min_def)
  ultimately have "g j st = Some (r2, jstr\<lparr>jg_buf := take n (s @ u (d c)), jg_comma_req := e (d c)\<rparr>, st)"
    by (simp add: j_def)
  with f have "gen_then f g jstr st = Some (r2, jstr\<lparr>jg_buf := take n (s @ u (d c)), jg_comma_req := e (d c)\<rparr>, st)"
    by (simp add: gen_then_def)
  then show "\<exists>r. gen_then f g jstr st = Some (r, jstr\<lparr>jg_buf := take n (jg_buf jstr @ t (jg_comma_req jstr) @
      u (d (jg_comma_req jstr))), jg_comma_req := e (d (jg_comma_req jstr))\<rparr>, st)"
    by (simp add: s_def c_def)
qed

lemma cuts_gens:
  "cuts st (gens []) (\<lambda>c. []) (\<lambda>c. c)"
  "cuts st f t d \<Longrightarrow> cuts st (gens fs) u e \<Longrightarrow> cuts st (gens (f # fs)) (\<lambda>c. t c @ u (d c)) (\<lambda>c. e (d c))"
  by (simp_all add: cuts_writes writes_skip cuts_then)

text \<open>The value of a characteristic in JSON; nothing for the formats that have none. The bytes are
  encoded in pieces. No result means that the value cannot be read.\<close>

definition value_members :: "('n, 'h, 'w, 's) hap_ip_scheme \<Rightarrow> hap_char_format \<Rightarrow> hap_val \<Rightarrow> (string \<times> json) list option" where
  "value_members st fmt v = (let mem = (\<lambda>j. Some [(''value'', j)]) in case fmt of
       HAP_CHAR_FORMAT_BOOL \<Rightarrow> mem (JBool (val_b v))
     | HAP_CHAR_FORMAT_UINT8 \<Rightarrow> mem (JInt (val_i v))
     | HAP_CHAR_FORMAT_UINT16 \<Rightarrow> mem (JInt (val_i v))
     | HAP_CHAR_FORMAT_UINT32 \<Rightarrow> mem (JInt (val_i v))
     | HAP_CHAR_FORMAT_INT \<Rightarrow> mem (JInt (val_i v))
     | HAP_CHAR_FORMAT_FLOAT \<Rightarrow> mem (JFloat (val_f v))
     | HAP_CHAR_FORMAT_STRING \<Rightarrow> mem (case val_s v of Some s \<Rightarrow> JStr s | None \<Rightarrow> JNull)
     | HAP_CHAR_FORMAT_UINT64 \<Rightarrow> Some []
     | HAP_CHAR_FORMAT_NONE \<Rightarrow> Some []
     | _ \<Rightarrow> (case dv_buf (val_d v) of
           Some buf \<Rightarrow> do {
             bs \<leftarrow> rd_block buf 0 (uint (dv_buflen (val_d v)));
             mem (JStr (concat (map (base64_encode (env st)) (pieces60 bs)))) }
         | None \<Rightarrow> mem JNull))"

lemma writes_pieces: "writes (gen_list (\<lambda>p. json_gen_add_to_long_string (Some (f p))) ps) (\<lambda>c. concat (map f ps)) (\<lambda>c. c)"
proof (induction ps)
  case Nil
  show ?case by (rule writesI) (auto simp: gen_ready_def)
next
  case (Cons p ps)
  have "gen_list (\<lambda>p. json_gen_add_to_long_string (Some (f p))) (p # ps) =
      gen_then (json_gen_add_to_long_string (Some (f p))) (gen_list (\<lambda>p. json_gen_add_to_long_string (Some (f p))) ps)"
    by (intro ext) simp
  then show ?case using writes_then [OF gen_calls_write(22) Cons.IH] by simp
qed

lemma cuts_data:
  assumes "fmt = HAP_CHAR_FORMAT_DATA \<or> fmt = HAP_CHAR_FORMAT_TLV8" "dv_buf (val_d v) = Some buf"
    "rd_block buf 0 (uint (dv_buflen (val_d v))) = Some bs"
  shows "cuts st (hap_add_char_val_json fmt ''value'' v)
    (\<lambda>c. sep c @ member_text (''value'', JStr (concat (map (base64_encode (env st)) (pieces60 bs))))) (\<lambda>c. True)"
proof -
  have eq: "hap_add_char_val_json fmt ''value'' v jstr st = gen_then (json_gen_obj_start_long_string ''value'' None)
      (gen_then (gen_list (\<lambda>p. json_gen_add_to_long_string (Some (base64_encode (env st) p))) (pieces60 bs))
        json_gen_end_long_string) jstr st" for jstr
    using assms by (auto simp: hap_add_char_val_json_def)
  have cut: "cuts st (gen_then (json_gen_obj_start_long_string ''value'' None)
      (gen_then (gen_list (\<lambda>p. json_gen_add_to_long_string (Some (base64_encode (env st) p))) (pieces60 bs))
        json_gen_end_long_string)) (\<lambda>c. sep c @ member_text (''value'', JStr (concat (map (base64_encode (env st)) (pieces60 bs))))) (\<lambda>c. True)"
    by (rule cuts_writes, rule writes_cong, rule writes_then [OF gen_calls_write(19) writes_then [OF writes_pieces gen_calls_write(23)]])
      (simp_all add: quoted_def)
  show ?thesis using cut unfolding cuts_def eq .
qed

lemma cuts_value:
  assumes "value_members st fmt v = Some ms"
  shows "cuts st (hap_add_char_val_json fmt ''value'' v) (\<lambda>c. if ms = [] then [] else sep c @ joined (map member_text ms)) (\<lambda>c. c \<or> ms \<noteq> [])"
proof -
  have one: ?thesis if "\<And>jstr. hap_add_char_val_json fmt ''value'' v jstr st = gen_member (''value'', j) jstr st" "ms = [(''value'', j)]" for j
    using cuts_writes [OF writes_value(1) [of "(''value'', j)"], of st] that(2) unfolding cuts_def that(1) by simp
  have none: ?thesis if "\<And>jstr. hap_add_char_val_json fmt ''value'' v jstr st = gen_skip jstr st" "ms = []"
    using cuts_writes [OF writes_skip, of st] that(2) unfolding cuts_def that(1) by simp
  have data: ?thesis if f: "fmt = HAP_CHAR_FORMAT_DATA \<or> fmt = HAP_CHAR_FORMAT_TLV8"
  proof (cases "dv_buf (val_d v)")
    case None
    with f assms show ?thesis by (intro one [of JNull]) (auto simp: value_members_def hap_add_char_val_json_def)
  next
    case (Some buf)
    with f assms obtain bs where bs: "rd_block buf 0 (uint (dv_buflen (val_d v))) = Some bs"
      "ms = [(''value'', JStr (concat (map (base64_encode (env st)) (pieces60 bs))))]"
      by (auto simp: value_members_def split: bind_splits)
    from cuts_data [OF f Some bs(1), of st] bs(2) show ?thesis by simp
  qed
  note defs = value_members_def hap_add_char_val_json_def
  show ?thesis
  proof (cases fmt)
    case HAP_CHAR_FORMAT_BOOL
    with assms show ?thesis by (intro one [of "JBool (val_b v)"]) (auto simp: defs)
  next
    case HAP_CHAR_FORMAT_UINT8
    with assms show ?thesis by (intro one [of "JInt (val_i v)"]) (auto simp: defs)
  next
    case HAP_CHAR_FORMAT_UINT16
    with assms show ?thesis by (intro one [of "JInt (val_i v)"]) (auto simp: defs)
  next
    case HAP_CHAR_FORMAT_UINT32
    with assms show ?thesis by (intro one [of "JInt (val_i v)"]) (auto simp: defs)
  next
    case HAP_CHAR_FORMAT_INT
    with assms show ?thesis by (intro one [of "JInt (val_i v)"]) (auto simp: defs)
  next
    case HAP_CHAR_FORMAT_FLOAT
    with assms show ?thesis by (intro one [of "JFloat (val_f v)"]) (auto simp: defs)
  next
    case HAP_CHAR_FORMAT_STRING
    with assms show ?thesis by (intro one [of "case val_s v of Some s \<Rightarrow> JStr s | None \<Rightarrow> JNull"]) (auto simp: defs split: option.splits)
  next
    case HAP_CHAR_FORMAT_NONE
    with assms show ?thesis by (intro none) (auto simp: defs)
  next
    case HAP_CHAR_FORMAT_UINT64
    with assms show ?thesis by (intro none) (auto simp: defs)
  next
    case HAP_CHAR_FORMAT_DATA
    then show ?thesis by (intro data) simp
  next
    case HAP_CHAR_FORMAT_TLV8
    then show ?thesis by (intro data) simp
  qed
qed

text \<open>The member of a message for one characteristic.\<close>

definition char_told :: "('n, 'h, 'w, 's) hap_ip_scheme \<Rightarrow> ptr \<Rightarrow> json option" where
  "char_told st hc = do {
     aid \<leftarrow> char_aid hc st;
     c \<leftarrow> char_at st hc;
     ms \<leftarrow> value_members st (c_format c) (c_val c);
     Some (JObj ([(''aid'', JInt (sint aid)), (''iid'', JInt (sint (c_iid c)))] @ ms)) }"

lemma cuts_entry:
  assumes "char_told st hc = Some j"
  shows "cuts st (notif_entry hc) (\<lambda>c. sep c @ json_text j) (\<lambda>c. True)"
proof -
  from assms obtain aid c ms where a: "char_aid hc st = Some aid" "char_at st hc = Some c"
      "value_members st (c_format c) (c_val c) = Some ms"
      "j = JObj ([(''aid'', JInt (sint aid)), (''iid'', JInt (sint (c_iid c)))] @ ms)"
    by (auto simp: char_told_def split: bind_splits)
  let ?f = "gens [json_gen_start_object, json_gen_obj_set_int ''aid'' (sint aid), json_gen_obj_set_int ''iid'' (sint (c_iid c)),
       hap_add_char_val_json (c_format c) ''value'' (c_val c), json_gen_end_object]"
  have eq: "notif_entry hc jstr st = ?f jstr st" for jstr using a by (simp add: notif_entry_def)
  have "cuts st ?f (\<lambda>c. sep c @ json_text j) (\<lambda>c. True)"
    by (rule cuts_cong, (rule cuts_gens cuts_value [OF a(3)] cuts_writes [OF gen_calls_write(1)]
      cuts_writes [OF gen_calls_write(2)] cuts_writes [OF gen_calls_write(13)])+) (cases ms; simp add: a(4))+
  then show ?thesis unfolding cuts_def eq .
qed

text \<open>Who is told: the subscribers, but not the one that made the change.\<close>

definition told :: "nat \<Rightarrow> 's hap_objs_scheme \<Rightarrow> ptr \<Rightarrow> bool" where
  "told i st hc \<longleftrightarrow> (case char_at st hc of Some c \<Rightarrow> \<not> bit (c_owner_ctrl c) i \<and> bit (c_ev_ctrls c) i | None \<Rightarrow> False)"

definition clear_owners :: "nat \<Rightarrow> ptr set \<Rightarrow> (ptr \<rightharpoonup> hap_char) \<Rightarrow> ptr \<rightharpoonup> hap_char" where
  "clear_owners i P m = (\<lambda>p. if p \<in> P then map_option (\<lambda>c. if bit (c_owner_ctrl c) i then c\<lparr>c_owner_ctrl := 0\<rparr> else c) (m p) else m p)"

definition owners_cleared :: "nat \<Rightarrow> ptr set \<Rightarrow> 's hap_objs_scheme \<Rightarrow> 's hap_objs_scheme" where
  "owners_cleared i P st = st\<lparr>char_at := clear_owners i P (char_at st)\<rparr>"

definition told_text :: "('n, 'h, 'w, 's) hap_ip_scheme \<Rightarrow> ptr \<Rightarrow> json" where
  "told_text st hc = (case char_told st hc of Some j \<Rightarrow> j | None \<Rightarrow> JNull)"

lemma owners_cleared_empty [simp]: "owners_cleared i {} st = st"
  by (simp add: owners_cleared_def clear_owners_def)

lemma owners_cleared_insert:
  assumes "char_at st hc = Some c" "hc \<notin> P"
  shows "bit (c_owner_ctrl c) i \<Longrightarrow> owners_cleared i P (st\<lparr>char_at := (char_at st)(hc \<mapsto> c\<lparr>c_owner_ctrl := 0\<rparr>)\<rparr>) = owners_cleared i (insert hc P) st"
    "\<not> bit (c_owner_ctrl c) i \<Longrightarrow> owners_cleared i P st = owners_cleared i (insert hc P) st"
proof -
  have "clear_owners i P ((char_at st)(hc \<mapsto> c\<lparr>c_owner_ctrl := 0\<rparr>)) = clear_owners i (insert hc P) (char_at st)" if "bit (c_owner_ctrl c) i"
    using assms that by (auto simp: fun_eq_iff clear_owners_def)
  then show "bit (c_owner_ctrl c) i \<Longrightarrow> owners_cleared i P (st\<lparr>char_at := (char_at st)(hc \<mapsto> c\<lparr>c_owner_ctrl := 0\<rparr>)\<rparr>) = owners_cleared i (insert hc P) st"
    by (simp add: owners_cleared_def)
  have "clear_owners i P (char_at st) = clear_owners i (insert hc P) (char_at st)" if "\<not> bit (c_owner_ctrl c) i"
    using assms that by (auto simp: fun_eq_iff clear_owners_def)
  then show "\<not> bit (c_owner_ctrl c) i \<Longrightarrow> owners_cleared i P st = owners_cleared i (insert hc P) st"
    by (simp add: owners_cleared_def)
qed

lemma char_bits:
  assumes "char_at st hc = Some c" "i < 16"
  shows "hap_char_is_ctrl_owner (Some hc) (int i) st = Some (bit (c_owner_ctrl c) i)"
    "hap_char_is_ctrl_subscribed (Some hc) (int i) st = Some (bit (c_ev_ctrls c) i)"
  using assms by (simp_all add: hap_char_is_ctrl_owner_def hap_char_is_ctrl_subscribed_def get_char_def bit_mask16_Some mask16_test)

lemma char_told_upd: "hc' \<noteq> hc \<Longrightarrow> char_told (st\<lparr>char_at := (char_at st)(hc \<mapsto> c)\<rparr>) hc' = char_told st hc'"
proof -
  assume n: "hc' \<noteq> hc"
  let ?st = "st\<lparr>char_at := (char_at st)(hc \<mapsto> c)\<rparr>"
  have at: "char_at ?st hc' = char_at st hc'" using n by simp
  have aid: "char_aid hc' ?st = char_aid hc' st"
    by (simp add: char_aid_def hap_char_get_parent_def get_char_def n hap_serv_get_parent_def read_serv_def get_serv_def get_acc_def
      cong: if_cong)
  have val: "value_members ?st fmt v = value_members st fmt v" for fmt v by (cases fmt) (simp_all add: value_members_def split: option.split)
  show ?thesis unfolding char_told_def at aid val ..
qed

lemma notif_chars_told:
  assumes "distinct hcs" "i < 16" "\<forall>hc \<in> set hcs. char_at st hc \<noteq> None" "\<forall>hc \<in> set hcs. told i st hc \<longrightarrow> char_told st hc \<noteq> None"
    "gen_ready n jstr" "jg_flush_cb jstr = None"
  shows "notif_chars i hcs flag jstr st = Some (flag \<or> filter (told i st) hcs \<noteq> [],
     jstr\<lparr>jg_buf := take n (jg_buf jstr @ (if filter (told i st) hcs = [] then []
         else sep (jg_comma_req jstr) @ joined (map (\<lambda>hc. json_text (told_text st hc)) (filter (told i st) hcs)))),
       jg_comma_req := jg_comma_req jstr \<or> filter (told i st) hcs \<noteq> []\<rparr>, owners_cleared i (set hcs) st)"
  using assms
proof (induction hcs arbitrary: flag jstr st)
  case Nil
  then show ?case by (simp add: gen_ready_def)
next
  case (Cons hc hcs)
  from Cons.prems obtain c where c: "char_at st hc = Some c" by auto
  note b = char_bits [OF c \<open>i < 16\<close>]
  show ?case
  proof (cases "bit (c_owner_ctrl c) i")
    case True
    let ?st = "st\<lparr>char_at := (char_at st)(hc \<mapsto> c\<lparr>c_owner_ctrl := 0\<rparr>)\<rparr>"
    have same: "told i ?st x = told i st x" "char_told ?st x = char_told st x" "told_text ?st x = told_text st x" "char_at ?st x = char_at st x"
      if "x \<in> set hcs" for x
    proof -
      have n: "x \<noteq> hc" using that Cons.prems(1) by auto
      show "char_at ?st x = char_at st x" "told i ?st x = told i st x" using n by (simp_all add: told_def)
      show "char_told ?st x = char_told st x" "told_text ?st x = told_text st x" using n by (simp_all add: told_text_def char_told_upd)
    qed
    have fs: "filter (told i ?st) hcs = filter (told i st) hcs" by (rule filter_cong) (simp_all add: same(1))
    have ms: "map (\<lambda>hc. json_text (told_text ?st hc)) (filter (told i st) hcs) = map (\<lambda>hc. json_text (told_text st hc)) (filter (told i st) hcs)"
      by (rule map_cong) (simp_all add: same(3))
    have nt: "filter (told i st) (hc # hcs) = filter (told i st) hcs" using c True by (simp add: told_def)
    have cl: "owners_cleared i (set hcs) ?st = owners_cleared i (set (hc # hcs)) st"
      using owners_cleared_insert(1) [OF c _ True, of "set hcs"] Cons.prems(1) by simp
    have step: "notif_chars i (hc # hcs) flag jstr st = notif_chars i hcs flag jstr ?st"
      using b(1) True c by (simp add: upd_char_def)
    have "\<forall>hc \<in> set hcs. char_at ?st hc \<noteq> None" "\<forall>hc \<in> set hcs. told i ?st hc \<longrightarrow> char_told ?st hc \<noteq> None"
      using Cons.prems(3,4) same by auto
    from Cons.IH [OF _ Cons.prems(2) this Cons.prems(5,6), of flag] Cons.prems(1) show ?thesis
      unfolding step fs ms nt cl by simp
  next
    case False
    have cl: "owners_cleared i (set hcs) st = owners_cleared i (set (hc # hcs)) st"
      using owners_cleared_insert(2) [OF c _ False, of "set hcs"] Cons.prems(1) by simp
    have pre: "distinct hcs" "\<forall>hc \<in> set hcs. char_at st hc \<noteq> None" "\<forall>hc \<in> set hcs. told i st hc \<longrightarrow> char_told st hc \<noteq> None"
      using Cons.prems by auto
    show ?thesis
    proof (cases "bit (c_ev_ctrls c) i")
      case nsub: False
      have nt: "filter (told i st) (hc # hcs) = filter (told i st) hcs" using c nsub by (simp add: told_def)
      have step: "notif_chars i (hc # hcs) flag jstr st = notif_chars i hcs flag jstr st" using b False nsub by simp
      from Cons.IH [OF pre(1) Cons.prems(2) pre(2,3) Cons.prems(5,6), of flag] show ?thesis unfolding step nt cl .
    next
      case sub: True
      have t: "told i st hc" using c False sub by (simp add: told_def)
      then obtain j where j: "char_told st hc = Some j" "told_text st hc = j" using Cons.prems(4) by (auto simp: told_text_def)
      define S where "S = jg_buf jstr @ sep (jg_comma_req jstr) @ json_text j"
      let ?j = "jstr\<lparr>jg_buf := take n S, jg_comma_req := True\<rparr>"
      obtain r where r: "notif_entry hc jstr st = Some (r, ?j, st)"
        using cuts_D [OF cuts_entry [OF j(1)] Cons.prems(5,6)] unfolding S_def by blast
      have step: "notif_chars i (hc # hcs) flag jstr st = notif_chars i hcs True ?j st" using b False sub r by simp
      have rj: "gen_ready n ?j" using Cons.prems(5) by simp
      have cj: "jg_flush_cb ?j = None" using Cons.prems(6) by simp
      have tk: "take n (take n s @ x) = take n (s @ x)" for s x :: string by (simp add: min_def)
      note ih = Cons.IH [OF pre(1) Cons.prems(2) pre(2,3) rj cj, of True]
      show ?thesis
      proof (cases "filter (told i st) hcs = []")
        case True
        with ih show ?thesis unfolding step cl using t j(2)
          by (simp add: S_def [symmetric] del: take_append append_assoc)
      next
        case more: False
        have jn: "joined (a # bs) = a @ '','' @ joined bs" if "bs \<noteq> []" for a bs using that by (cases bs) simp_all
        let ?F = "filter (told i st) hcs" and ?t = "\<lambda>hc. json_text (told_text st hc)"
        have nt: "filter (told i st) (hc # hcs) = hc # ?F" using t by simp
        have eq: "jg_buf jstr @ sep (jg_comma_req jstr) @ joined (map ?t (hc # ?F)) = S @ '','' @ joined (map ?t ?F)"
          using more j(2) by (simp add: S_def jn)
        from ih more have "notif_chars i hcs True ?j st = Some (True, jstr\<lparr>jg_buf := take n (S @ '','' @ joined (map ?t ?F)), jg_comma_req := True\<rparr>,
            owners_cleared i (set hcs) st)" by (simp add: tk del: append_assoc take_append)
        then show ?thesis unfolding step nt cl [symmetric] eq [symmetric] by (simp del: take_append)
      qed
    qed
  qed
qed

lemma dec_str_length: "n \<le> 1023 \<Longrightarrow> length (dec_str n) \<le> 4"
  by (simp add: dec_str.simps [of n] dec_str.simps [of "n div 10"] dec_str.simps [of "n div 100"] dec_str.simps [of "n div 1000"] div_mult2_eq [symmetric])

lemma notif_header_fits: "n \<le> 1023 \<Longrightarrow> snprintf 250 (notif_header n) = notif_header n"
proof -
  assume "n \<le> 1023"
  then have "length (dec_str n) \<le> 4" by (rule dec_str_length)
  then show ?thesis by (simp add: snprintf_def notif_header_def crlf_def)
qed


definition bell_ip :: "(kv, string \<times> string, streams) hap_ip" where
  "bell_ip = lamp_ip\<lparr>char_at := [13 \<mapsto> lamp_char\<lparr>c_ev_ctrls := 1\<rparr>]\<rparr>"

definition bell_text :: string where
  "bell_text = ''{'' @ key ''characteristics'' @ ''[{'' @ key ''aid'' @ ''1,'' @ key ''iid'' @ ''9,'' @ key ''value'' @ ''false}]}''"

lemma bell_told: "told 0 bell_ip 13" "char_told bell_ip 13 =
    Some (JObj [(''aid'', JInt 1), (''iid'', JInt 9), (''value'', JBool False)])"
  by (auto simp: told_def bell_ip_def lamp_char_def zero_char_def char_told_def char_aid_def hap_char_get_parent_def get_char_def
    hap_serv_get_parent_def read_serv_def get_serv_def get_acc_def value_members_def val_b_def zero_val_def)

lemma bell_json: "json_text (JObj [(''characteristics'', JArr [JObj [(''aid'', JInt 1), (''iid'', JInt 9), (''value'', JBool False)]])]) = bell_text"
  by (simp add: bell_text_def int_text_def int_str_def snprintf_def MAX_INT_IN_STR_def dec_str_step digit_chars bool_text_def)


end
