(* ===== verification/Hap_Main.thy ===== *)
theory Hap_Main
  imports Ip_Notif
begin

text \<open>
  The main loop and the life cycle of the library (\<open>esp_hap_main.c\<close>). The events of the queue are
  handled one after the other; the requests of the HTTP server run between them. The loop among the tasks
  that post events is a step relation, and its invariant says what becomes of the events.
\<close>

section \<open>The handlers of events\<close>

definition HAP_REBOOT_REASON_UNKNOWN :: string where "HAP_REBOOT_REASON_UNKNOWN = ''unknown''"
definition HAP_REBOOT_REASON_RESET_TO_FACTORY :: string where "HAP_REBOOT_REASON_RESET_TO_FACTORY = ''reset_to_factory''"
definition HAP_REBOOT_REASON_REBOOT_ACC :: string where "HAP_REBOOT_REASON_REBOOT_ACC = ''reboot_acc''"
definition HAP_REBOOT_REASON_RESET_NETWORK :: string where "HAP_REBOOT_REASON_RESET_NETWORK = ''reset_network''"
definition HAP_REBOOT_REASON_RESET_PAIRINGS :: string where "HAP_REBOOT_REASON_RESET_PAIRINGS = ''reset_pairings''"
definition HAP_REBOOT_REASON_RESET_HOMEKIT_DATA :: string where
  "HAP_REBOOT_REASON_RESET_HOMEKIT_DATA = ''reset_homekit_data''"

type_synonym ('n, 'h, 'w, 's) ip_step = "('n, 'h, 'w, 's) hap_ip_scheme \<Rightarrow> ('n, 'h, 'w, 's) hap_ip_scheme option"

definition hap_nw_configured_sm :: "hap_internal_event \<Rightarrow> ('n, 'h, 'w, 's) ip_step" where
  "hap_nw_configured_sm event st = (case event of
       HAP_INTERNAL_EVENT_ACC_PAIRED \<Rightarrow> map_option snd (hap_mdns_announce False st)
     | HAP_INTERNAL_EVENT_ACC_UNPAIRED \<Rightarrow> map_option snd (hap_mdns_announce False st)
     | HAP_INTERNAL_EVENT_CONFIG_NUM_UPDATED \<Rightarrow> do {
         st \<leftarrow> hap_increment_and_save_config_num st;
         map_option snd (hap_mdns_announce False st) }
     | HAP_INTERNAL_EVENT_BCT_CHANGE_NAME \<Rightarrow> Some (hap_handle_bct_change_name (vTaskDelay_ms 1000 st))
     | HAP_INTERNAL_EVENT_BCT_HOT_PLUG \<Rightarrow> Some (hap_handle_hot_plug (vTaskDelay_ms 1000 st))
     | _ \<Rightarrow> Some st)"

text \<open>What every reset and reboot begins with, and how it ends: \<open>esp_restart\<close> does not return.\<close>

definition shut_down :: "('n, 'h, 'w, 's) ip_step" where
  "shut_down st = do {
     st \<leftarrow> hap_close_all_sessions (vTaskDelay_ms 1000 st);
     Some (snd (hap_mdns_deannounce st)) }"

definition reboot :: "string \<Rightarrow> ('n, 'h, 'w, 's) hap_ip_scheme \<Rightarrow> ('n, 'h, 'w, 's) hap_ip_scheme" where
  "reboot reason st = do_sdk Restart (vTaskDelay_ms 1000 (hap_report_event HAP_EVENT_ACC_REBOOTING (bytes_of reason @ [0]) st))"

definition hap_common_sm :: "hap_internal_event \<Rightarrow> ('n, 'h, 'w, 's) ip_step" where
  "hap_common_sm event st = (case event of
       HAP_INTERNAL_EVENT_RESET_PAIRINGS \<Rightarrow> do {
         st \<leftarrow> shut_down st; st \<leftarrow> hap_erase_controller_info st; st \<leftarrow> hap_erase_accessory_info st;
         Some (reboot HAP_REBOOT_REASON_RESET_PAIRINGS st) }
     | HAP_INTERNAL_EVENT_RESET_TO_FACTORY \<Rightarrow> do {
         st \<leftarrow> shut_down st; st \<leftarrow> hap_keystore_erase_all_data st;
         Some (reboot HAP_REBOOT_REASON_RESET_TO_FACTORY st) }
     | HAP_INTERNAL_EVENT_RESET_HOMEKIT_DATA \<Rightarrow> do {
         st \<leftarrow> shut_down st; st \<leftarrow> hap_erase_controller_info st;
         st \<leftarrow> hap_erase_accessory_info (hap_erase_network_info st);
         Some (reboot HAP_REBOOT_REASON_RESET_HOMEKIT_DATA st) }
     | HAP_INTERNAL_EVENT_REBOOT \<Rightarrow> do {
         st \<leftarrow> shut_down st; Some (reboot HAP_REBOOT_REASON_REBOOT_ACC st) }
     | HAP_INTERNAL_EVENT_RESET_NETWORK \<Rightarrow> do {
         st \<leftarrow> shut_down st; Some (reboot HAP_REBOOT_REASON_RESET_NETWORK (hap_erase_network_info st)) }
     | HAP_INTERNAL_EVENT_TRIGGER_NOTIF \<Rightarrow> Some (hap_http_send_notif st)
     | _ \<Rightarrow> Some st)"

section \<open>The loop\<close>

text \<open>
  \<open>Waiting\<close> is the task blocked in \<open>xQueueReceive\<close> on its queue. The task ends by itself when it is
  stopped; the device is gone when the handler restarts it.
\<close>

datatype loop_phase = Not_started | Waiting | Stopped | Rebooted

definition restarts :: "hap_internal_event \<Rightarrow> bool" where
  "restarts e \<longleftrightarrow> e \<in> {HAP_INTERNAL_EVENT_RESET_PAIRINGS, HAP_INTERNAL_EVENT_RESET_TO_FACTORY,
     HAP_INTERNAL_EVENT_RESET_HOMEKIT_DATA, HAP_INTERNAL_EVENT_REBOOT, HAP_INTERNAL_EVENT_RESET_NETWORK}"

definition hap_loop_task_start :: "('n, 'h, 'w, 's) ip_step" where
  "hap_loop_task_start st = (case new_addr st of (a, st) \<Rightarrow>
     do { _ \<leftarrow> a; Some (st\<lparr>xQueue := Some \<lparr>q_length = 10, q_items = []\<rparr>\<rparr>) })"

definition hap_loop_iteration :: "('n, 'h, 'w, 's) hap_ip_scheme \<Rightarrow> (loop_phase \<times> ('n, 'h, 'w, 's) hap_ip_scheme) option" where
  "hap_loop_iteration st = do {
     q \<leftarrow> xQueue st;
     case q_items q of
       [] \<Rightarrow> Some (Waiting, st)
     | event # rest \<Rightarrow> do {
         let st = st\<lparr>xQueue := Some (q\<lparr>q_items := rest\<rparr>)\<rparr>;
         if event = HAP_INTERNAL_EVENT_LOOP_STOP then Some (Stopped, do_sdk Task_delete (st\<lparr>xQueue := None\<rparr>))
         else do {
           st \<leftarrow> hap_common_sm event st;
           if restarts event then Some (Rebooted, st)
           else do { st \<leftarrow> hap_nw_configured_sm event st; Some (Waiting, st) } } } }"

definition hap_loop_start :: "('n, 'h, 'w, 's) hap_ip_scheme \<Rightarrow> ('n, 'h, 'w, 's) ip_result" where
  "hap_loop_start st =
     (HAP_SUCCESS, if loop_started st then st
        else do_sdk (Task_create (task_stack_size (p_cfg (priv st))) (task_priority (p_cfg (priv st)))) (st\<lparr>loop_started := True\<rparr>))"

definition is_hap_loop_started :: "'s hap_objs_scheme \<Rightarrow> bool" where
  "is_hap_loop_started st = loop_started st"

section \<open>The life cycle\<close>

definition hap_init :: "nat \<Rightarrow> ('n, 'h, 'w, 's) hap_ip_scheme \<Rightarrow> ('n, 'h, 'w, 's) ip_result option" where
  "hap_init method st =
     (if method AND (HAP_TRANSPORT_WIFI OR HAP_TRANSPORT_ETHERNET) = 0 then Some (HAP_FAIL, st)
      else do {
        let st = upd_priv (\<lambda>p. p\<lparr>p_transport := method\<rparr>) st;
        (ret, st) \<leftarrow> hap_keystore_init st;
        if ret \<noteq> 0 then Some (ret, st) else hap_database_init st })"

definition hap_deinit :: "int" where "hap_deinit = HAP_SUCCESS"

text \<open>Each failure has a result of its own. \<open>CONFIG_HAP_MFI_ENABLE\<close> is not set.\<close>

definition hap_start :: "('n, 'h, 'w, 's) hap_ip_scheme \<Rightarrow> ('n, 'h, 'w, 's) ip_result option" where
  "hap_start st =
     (if hap_get_first_acc st = None then Some (9, st)
      else do {
        (ret, st) \<leftarrow> hap_acc_setup_init st;
        if ret \<noteq> HAP_SUCCESS then Some (8, st)
        else case hap_httpd_start st of (ret, st) \<Rightarrow>
          if ret \<noteq> HAP_SUCCESS then Some (7, st)
          else case hap_event_queue_init (max_event_notif_chars (p_cfg (priv st))) st of (ret, st) \<Rightarrow>
            if ret \<noteq> HAP_SUCCESS then Some (6, st)
            else case hap_loop_start st of (ret, st) \<Rightarrow>
              if ret \<noteq> 0 then Some (5, st)
              else case hap_mdns_init st of (ret, st) \<Rightarrow>
                if ret \<noteq> 0 then Some (4, st)
                else do {
                  (ret, st) \<leftarrow> hap_ip_services_start st;
                  Some (if ret \<noteq> 0 then 3 else HAP_SUCCESS, st) } })"

definition hap_stop :: int where "hap_stop = HAP_SUCCESS"

section \<open>What the handlers leave alone\<close>

text \<open>No handler touches the queue of the loop.\<close>

definition queue_same :: "'s hap_objs_scheme \<Rightarrow> 's hap_objs_scheme \<Rightarrow> bool" where
  "queue_same st st' \<longleftrightarrow> xQueue st' = xQueue st \<and> queue_ok st' = queue_ok st"

lemma queue_same_refl [simp]: "queue_same st st"
  by (simp add: queue_same_def)

lemma queue_same_trans: "queue_same st st' \<Longrightarrow> queue_same st' st'' \<Longrightarrow> queue_same st st''"
  by (simp add: queue_same_def)

lemma sdk_queue: "sdk c st = (r, st') \<Longrightarrow> queue_same st st'"
  by (auto simp: queue_same_def sdk_def split: prod.splits)

lemma do_sdk_queue [simp]: "queue_same st (do_sdk c st)" "queue_same st (vTaskDelay_ms n st)"
  by (simp_all add: queue_same_def do_sdk_def sdk_def split_beta vTaskDelay_ms_def)

lemma sdks_queue [simp]: "queue_same st (sdks cs st)"
  unfolding sdks_def by (induction cs arbitrary: st) (auto intro: queue_same_trans do_sdk_queue)

lemma keystore_op_queue: "keystore_op p f st = Some (r, st') \<Longrightarrow> queue_same st st'"
  by (auto simp: keystore_op_def queue_same_def split: bind_splits if_splits prod.splits)

lemma upd_priv_queue [simp]: "queue_same st (upd_priv f st)" "queue_same st (hap_report_event ev d st)"
  by (simp_all add: queue_same_def upd_priv_def hap_report_event_def)

lemma saves_queue:
  "keystore_save k f st = Some st' \<Longrightarrow> queue_same st st'"
  "hap_erase_controller_info st = Some st' \<Longrightarrow> queue_same st st'"
  "hap_erase_accessory_info st = Some st' \<Longrightarrow> queue_same st st'"
  "hap_keystore_erase_all_data st = Some st' \<Longrightarrow> queue_same st st'"
  by (auto simp: keystore_save_def hap_keystore_set_def hap_erase_controller_info_def hap_erase_accessory_info_def
    hap_keystore_delete_namespace_def hap_keystore_erase_all_data_def keystore_op_queue queue_same_def [of st "st\<lparr>nvs := _\<rparr>"] split: bind_splits)

lemma numbers_queue:
  "hap_increment_and_save_state_num st = Some st' \<Longrightarrow> queue_same st st'"
  "hap_increment_and_save_config_num st = Some st' \<Longrightarrow> queue_same st st'"
  unfolding hap_increment_and_save_state_num_def hap_increment_and_save_config_num_def hap_save_state_number_def hap_save_config_number_def Let_def
  using queue_same_trans [OF upd_priv_queue(1) saves_queue(1)] queue_same_trans [OF queue_same_trans [OF upd_priv_queue(1) upd_priv_queue(1)] saves_queue(1)]
  by (auto split: if_splits)

lemma mdns_queue:
  "hap_mdns_serv_start a b c d e st = (r, st') \<Longrightarrow> queue_same st st'"
  "hap_mdns_serv_update_txt e st = (r, st') \<Longrightarrow> queue_same st st'"
  "hap_mdns_serv_name_change n st = (r, st') \<Longrightarrow> queue_same st st'"
  "hap_mdns_deannounce st = (r, st') \<Longrightarrow> queue_same st st'"
  by (auto simp: hap_mdns_serv_start_def hap_mdns_serv_update_txt_def hap_mdns_serv_name_change_def hap_mdns_deannounce_def hap_mdns_serv_stop_def
    vTaskDelay_ms_def do_sdk_def sdk_def queue_same_def split: prod.splits if_splits)

lemma announce_queue:
  assumes "hap_mdns_announce b st = Some (r, st')"
  shows "queue_same st st'"
proof -
  define s0 where "s0 = (if b then st\<lparr>first_announce_done := False\<rparr> else st)"
  have s0: "queue_same st s0" by (simp add: s0_def queue_same_def)
  let ?inc = "if first_announce_done s0 \<and> is_accessory_paired s0 then hap_increment_and_save_state_num s0 else Some s0"
  define I where "I = ?inc"
  have unf: "hap_mdns_announce b st = do { s1 \<leftarrow> I;
     let (ret, st) = (if \<not> first_announce_done s1 then
         case hap_mdns_serv_start (cfg_name (p_primary_acc (priv s1))) ''_hap'' ''_tcp'' hap_platform_httpd_get_port (announce_txt s1) s1 of
           (ret, st) \<Rightarrow> (ret, st\<lparr>first_announce_done := True\<rparr>)
       else hap_mdns_serv_update_txt (announce_txt s1) s1);
     Some (if ret \<noteq> 0 then HAP_FAIL else HAP_SUCCESS, st) }"
    unfolding hap_mdns_announce_def I_def s0_def Let_def ..
  then obtain s1 where s1: "I = Some s1" using assms by (cases I) simp_all
  note eq = unf [unfolded s1 Option.bind.bind_lunit]
  have "queue_same s0 s1" using s1 numbers_queue(1) unfolding I_def by (auto split: if_splits)
  moreover have "queue_same s1 st'"
  proof (cases "first_announce_done s1")
    case True
    with eq assms show ?thesis by (auto simp: Let_def split: prod.splits dest: mdns_queue(2))
  next
    case False
    obtain r1 s2 where s2: "hap_mdns_serv_start (cfg_name (p_primary_acc (priv s1))) ''_hap'' ''_tcp'' hap_platform_httpd_get_port (announce_txt s1) s1 = (r1, s2)"
      by fastforce
    from mdns_queue(1) [OF s2] eq assms False s2 show ?thesis by (auto simp: Let_def queue_same_def)
  qed
  ultimately show ?thesis using s0 queue_same_trans by blast
qed

lemma for_each_queue: "(\<And>x st st'. f x st = Some st' \<Longrightarrow> queue_same st st') \<Longrightarrow> for_each f xs st = Some st' \<Longrightarrow> queue_same st st'"
proof (induction xs arbitrary: st)
  case (Cons x xs)
  from Cons.prems(2) obtain s1 where "f x st = Some s1" "for_each f xs s1 = Some st'" by (auto split: bind_splits)
  with Cons queue_same_trans show ?case by blast
qed simp

lemma close_sessions_queue: "hap_close_all_sessions st = Some st' \<Longrightarrow> queue_same st st'"
proof -
  have d: "session_disconnect q c st = Some st' \<Longrightarrow> queue_same st st'" for q c and st st' :: "('a, 'b, 'c, 'd) hap_net_scheme"
    by (auto simp: session_disconnect_def queue_same_def hap_report_event_def split: bind_splits)
  have c: "hap_close_session q st = Some st' \<Longrightarrow> queue_same st st'" for q and st st' :: "('a, 'b, 'c, 'd) hap_net_scheme"
    unfolding hap_close_session_def by (cases q) (auto elim!: for_each_queue [rotated] split: if_splits bind_splits dest: d)
  show "hap_close_all_sessions st = Some st' \<Longrightarrow> queue_same st st'"
    unfolding hap_close_all_sessions_def by (elim for_each_queue [rotated]) (auto split: option.splits dest: c)
qed

lemma shut_down_queue: "shut_down st = Some st' \<Longrightarrow> queue_same st st'"
proof -
  assume "shut_down st = Some st'"
  then obtain s1 where "hap_close_all_sessions (vTaskDelay_ms 1000 st) = Some s1" "st' = snd (hap_mdns_deannounce s1)"
    by (auto simp: shut_down_def split: bind_splits)
  moreover from this(1) have "queue_same st s1"
    by (rule queue_same_trans [OF do_sdk_queue(2) close_sessions_queue])
  moreover have "queue_same s1 (snd (hap_mdns_deannounce s1))" by (rule mdns_queue(4) [OF surjective_pairing])
  ultimately show ?thesis using queue_same_trans by blast
qed

lemma reboot_queue [simp]: "queue_same st (reboot reason st)"
  unfolding reboot_def by (intro queue_same_trans [OF upd_priv_queue(2) queue_same_trans [OF do_sdk_queue(2) do_sdk_queue(1)]])

lemma reboot_log: "\<exists>l. sdk_log (reboot reason st) = l @ [Restart]"
  by (simp add: reboot_def do_sdk_def sdk_def split_beta)

lemma common_sm_queue:
  assumes "hap_common_sm e st = Some st'"
  shows "queue_same st st' \<and> (restarts e \<longrightarrow> (\<exists>l. sdk_log st' = l @ [Restart]))"
proof -
  have r: ?thesis if "queue_same st s" "st' = reboot x s" for s x
    using queue_same_trans [OF that(1) reboot_queue] reboot_log that(2) by blast
  have net: "queue_same s (hap_erase_network_info s)" for s :: "('a, 'b, 'c, 'd) hap_ip_scheme"
    by (simp add: hap_erase_network_info_def)
  show ?thesis
  proof (cases e)
    case HAP_INTERNAL_EVENT_RESET_PAIRINGS
    with assms obtain s1 s2 s3 where "shut_down st = Some s1" "hap_erase_controller_info s1 = Some s2" "hap_erase_accessory_info s2 = Some s3"
      "st' = reboot HAP_REBOOT_REASON_RESET_PAIRINGS s3" by (auto simp: hap_common_sm_def split: bind_splits)
    then show ?thesis using r [OF queue_same_trans [OF queue_same_trans [OF shut_down_queue saves_queue(2)] saves_queue(3)]] by blast
  next
    case HAP_INTERNAL_EVENT_RESET_TO_FACTORY
    with assms obtain s1 s2 where "shut_down st = Some s1" "hap_keystore_erase_all_data s1 = Some s2"
      "st' = reboot HAP_REBOOT_REASON_RESET_TO_FACTORY s2" by (auto simp: hap_common_sm_def split: bind_splits)
    then show ?thesis using r [OF queue_same_trans [OF shut_down_queue saves_queue(4)]] by blast
  next
    case HAP_INTERNAL_EVENT_RESET_HOMEKIT_DATA
    with assms obtain s1 s2 s3 where "shut_down st = Some s1" "hap_erase_controller_info s1 = Some s2"
      "hap_erase_accessory_info (hap_erase_network_info s2) = Some s3"
      "st' = reboot HAP_REBOOT_REASON_RESET_HOMEKIT_DATA s3" by (auto simp: hap_common_sm_def split: bind_splits)
    then show ?thesis using r [OF queue_same_trans [OF queue_same_trans [OF queue_same_trans [OF shut_down_queue saves_queue(2)] net] saves_queue(3)]] by blast
  next
    case HAP_INTERNAL_EVENT_REBOOT
    with assms obtain s1 where "shut_down st = Some s1" "st' = reboot HAP_REBOOT_REASON_REBOOT_ACC s1"
      by (auto simp: hap_common_sm_def split: bind_splits)
    then show ?thesis using r [OF shut_down_queue] by blast
  next
    case HAP_INTERNAL_EVENT_RESET_NETWORK
    with assms obtain s1 where "shut_down st = Some s1" "st' = reboot HAP_REBOOT_REASON_RESET_NETWORK (hap_erase_network_info s1)"
      by (auto simp: hap_common_sm_def split: bind_splits)
    then show ?thesis using r [OF queue_same_trans [OF shut_down_queue net]] by blast
  qed (use assms in \<open>auto simp: hap_common_sm_def restarts_def hap_http_send_notif_def\<close>)
qed

lemma nw_sm_queue:
  assumes "hap_nw_configured_sm e st = Some st'"
  shows "queue_same st st'"
proof -
  have n: "queue_same s (hap_handle_bct_change_name s)" for s :: "('a, 'b, 'c, 'd) hap_ip_scheme"
  proof (cases "new_name s")
    case (Some x)
    have "queue_same s (snd (hap_mdns_serv_name_change x s))" by (rule mdns_queue(3) [OF surjective_pairing])
    with Some show ?thesis by (simp add: hap_handle_bct_change_name_def queue_same_def)
  qed (simp add: hap_handle_bct_change_name_def)
  have h: "queue_same s (hap_handle_hot_plug s)" for s :: "('a, 'b, 'c, 'd) hap_ip_scheme"
    unfolding hap_handle_hot_plug_def
    by (rule queue_same_trans [OF do_sdk_queue(1) queue_same_trans [OF do_sdk_queue(2) sdks_queue]])
  have a: ?thesis if "map_option snd (hap_mdns_announce False s) = Some st'" "queue_same st s" for s
    using that announce_queue queue_same_trans by fastforce
  show ?thesis
  proof (cases e)
    case HAP_INTERNAL_EVENT_CONFIG_NUM_UPDATED
    with assms obtain s1 where "hap_increment_and_save_config_num st = Some s1" "map_option snd (hap_mdns_announce False s1) = Some st'"
      by (auto simp: hap_nw_configured_sm_def split: bind_splits)
    with a numbers_queue(2) show ?thesis by blast
  next
    case HAP_INTERNAL_EVENT_ACC_PAIRED
    with assms a [OF _ queue_same_refl] show ?thesis by (simp add: hap_nw_configured_sm_def)
  next
    case HAP_INTERNAL_EVENT_ACC_UNPAIRED
    with assms a [OF _ queue_same_refl] show ?thesis by (simp add: hap_nw_configured_sm_def)
  next
    case HAP_INTERNAL_EVENT_BCT_CHANGE_NAME
    with assms queue_same_trans [OF do_sdk_queue(2) n] show ?thesis by (auto simp: hap_nw_configured_sm_def)
  next
    case HAP_INTERNAL_EVENT_BCT_HOT_PLUG
    with assms queue_same_trans [OF do_sdk_queue(2) h] show ?thesis by (auto simp: hap_nw_configured_sm_def)
  qed (use assms in \<open>simp_all add: hap_nw_configured_sm_def\<close>)
qed

section \<open>The loop and its queue\<close>

text \<open>
  The loop among the other tasks: it handles the next event; a task posts an event at any time; and
  anything else happens that leaves the queue alone, such as a request. Two histories are kept: the
  events that were accepted, and those that were handled.
\<close>

record ('n, 'h, 'w) loop_run =
  lr_phase :: loop_phase
  lr_state :: "('n, 'h, 'w) hap_ip"
  lr_posted :: "hap_internal_event list"
  lr_handled :: "hap_internal_event list"

inductive loop_step :: "('n, 'h, 'w) loop_run \<Rightarrow> ('n, 'h, 'w) loop_run \<Rightarrow> bool" where
  loop_handle: "lr_phase r = Waiting \<Longrightarrow> xQueue (lr_state r) = Some q \<Longrightarrow> q_items q = e # es \<Longrightarrow>
     hap_loop_iteration (lr_state r) = Some (ph, st') \<Longrightarrow>
     loop_step r (r\<lparr>lr_phase := ph, lr_state := st', lr_handled := lr_handled r @ [e]\<rparr>)"
| loop_post: "lr_phase r \<noteq> Rebooted \<Longrightarrow> hap_send_event e (lr_state r) = (res, st') \<Longrightarrow>
     loop_step r (r\<lparr>lr_state := st', lr_posted := lr_posted r @ (if res = HAP_SUCCESS then [e] else [])\<rparr>)"
| loop_other: "lr_phase r \<noteq> Rebooted \<Longrightarrow> queue_same (lr_state r) st' \<Longrightarrow> loop_step r (r\<lparr>lr_state := st'\<rparr>)"

inductive_cases loop_stepE: "loop_step r r'"

definition loop_init :: "('n, 'h, 'w) loop_run \<Rightarrow> bool" where
  "loop_init r \<longleftrightarrow> lr_phase r = Waiting \<and> xQueue (lr_state r) = Some \<lparr>q_length = 10, q_items = []\<rparr> \<and>
     (\<forall>k. queue_ok (lr_state r) 10 k \<longrightarrow> k < 10) \<and> lr_posted r = [] \<and> lr_handled r = []"

definition loop_inv :: "('n, 'h, 'w) loop_run \<Rightarrow> bool" where
  "loop_inv r \<longleftrightarrow> (\<forall>k. queue_ok (lr_state r) 10 k \<longrightarrow> k < 10) \<and> (case lr_phase r of
       Waiting \<Rightarrow> (\<exists>q. xQueue (lr_state r) = Some q \<and> q_length q = 10 \<and> length (q_items q) \<le> 10 \<and>
         lr_posted r = lr_handled r @ q_items q \<and> (\<forall>e \<in> set (lr_handled r). \<not> restarts e \<and> e \<noteq> HAP_INTERNAL_EVENT_LOOP_STOP))
     | Stopped \<Rightarrow> xQueue (lr_state r) = None \<and> (\<exists>done_events lost. lr_handled r = done_events @ [HAP_INTERNAL_EVENT_LOOP_STOP] \<and>
         lr_posted r = lr_handled r @ lost \<and> (\<forall>e \<in> set done_events. \<not> restarts e \<and> e \<noteq> HAP_INTERNAL_EVENT_LOOP_STOP))
     | Rebooted \<Rightarrow> (\<exists>l. sdk_log (lr_state r) = l @ [Restart]) \<and> (\<exists>done_events e lost. lr_handled r = done_events @ [e] \<and> restarts e \<and>
         lr_posted r = lr_handled r @ lost \<and> (\<forall>e \<in> set done_events. \<not> restarts e \<and> e \<noteq> HAP_INTERNAL_EVENT_LOOP_STOP))
     | Not_started \<Rightarrow> False)"

lemma iteration_cases:
  assumes "hap_loop_iteration st = Some (ph, st')" "xQueue st = Some q" "q_items q = e # es"
  shows "if e = HAP_INTERNAL_EVENT_LOOP_STOP then ph = Stopped \<and> xQueue st' = None \<and> queue_ok st' = queue_ok st
    else if restarts e then ph = Rebooted \<and> (\<exists>l. sdk_log st' = l @ [Restart]) \<and> queue_ok st' = queue_ok st
    else ph = Waiting \<and> xQueue st' = Some (q\<lparr>q_items := es\<rparr>) \<and> queue_ok st' = queue_ok st"
proof (cases "e = HAP_INTERNAL_EVENT_LOOP_STOP")
  case True
  have "queue_same s (do_sdk Task_delete s)" for s :: "('a, 'b, 'c, 'd) hap_ip_scheme" by simp
  then show ?thesis using True assms by (auto simp: hap_loop_iteration_def queue_same_def)
next
  case False
  let ?st = "st\<lparr>xQueue := Some (q\<lparr>q_items := es\<rparr>)\<rparr>"
  from assms False obtain s1 where s1: "hap_common_sm e ?st = Some s1"
    "(if restarts e then Some (Rebooted, s1) else do { st \<leftarrow> hap_nw_configured_sm e s1; Some (Waiting, st) }) = Some (ph, st')"
    by (auto simp: hap_loop_iteration_def split: bind_splits)
  from common_sm_queue [OF s1(1)] have c: "queue_same ?st s1" "restarts e \<Longrightarrow> \<exists>l. sdk_log s1 = l @ [Restart]" by auto
  show ?thesis
  proof (cases "restarts e")
    case True
    with s1 c False show ?thesis by (auto simp: queue_same_def)
  next
    case nr: False
    with s1(2) obtain s2 where "hap_nw_configured_sm e s1 = Some s2" "ph = Waiting" "st' = s2" by (auto split: bind_splits)
    with queue_same_trans [OF c(1) nw_sm_queue] nr False show ?thesis by (auto simp: queue_same_def)
  qed
qed

lemma loop_inv_init: "loop_init r \<Longrightarrow> loop_inv r"
  by (auto simp: loop_init_def loop_inv_def)

lemma loop_inv_handle:
  assumes "loop_inv r" "lr_phase r = Waiting" "xQueue (lr_state r) = Some q" "q_items q = e # es"
    "hap_loop_iteration (lr_state r) = Some (ph, st')"
  shows "loop_inv (r\<lparr>lr_phase := ph, lr_state := st', lr_handled := lr_handled r @ [e]\<rparr>)"
proof -
  note it = iteration_cases [OF assms(5,3,4)]
  from assms(1-4) have i: "q_length q = 10" "length (e # es) \<le> 10" "lr_posted r = lr_handled r @ e # es"
    "\<forall>e \<in> set (lr_handled r). \<not> restarts e \<and> e \<noteq> HAP_INTERNAL_EVENT_LOOP_STOP" "\<forall>k. queue_ok (lr_state r) 10 k \<longrightarrow> k < 10"
    by (auto simp: loop_inv_def)
  consider (stop) "e = HAP_INTERNAL_EVENT_LOOP_STOP" | (boot) "e \<noteq> HAP_INTERNAL_EVENT_LOOP_STOP" "restarts e"
    | (go) "e \<noteq> HAP_INTERNAL_EVENT_LOOP_STOP" "\<not> restarts e" by blast
  then show ?thesis
  proof cases
    case stop
    with it i show ?thesis by (auto simp: loop_inv_def)
  next
    case boot
    with it i show ?thesis by (auto simp: loop_inv_def)
  next
    case go
    with it i show ?thesis by (auto simp: loop_inv_def)
  qed
qed

lemma loop_inv_post:
  assumes "loop_inv r" "lr_phase r \<noteq> Rebooted" "hap_send_event e (lr_state r) = (res, st')"
  shows "loop_inv (r\<lparr>lr_state := st', lr_posted := lr_posted r @ (if res = HAP_SUCCESS then [e] else [])\<rparr>)"
proof (cases "res = HAP_SUCCESS")
  case False
  with assms(3) have "st' = lr_state r" by (auto simp: hap_send_event_def split: if_splits option.splits)
  with False assms(1) show ?thesis by (simp add: loop_inv_def cong: loop_phase.case_cong)
next
  case True
  with assms(3) obtain q where q: "xQueue (lr_state r) = Some q" "queue_ok (lr_state r) (q_length q) (length (q_items q))"
    "st' = (lr_state r)\<lparr>xQueue := Some (q\<lparr>q_items := q_items q @ [e]\<rparr>)\<rparr>"
    by (auto simp: hap_send_event_def xQueueSend_def split: if_splits option.splits)
  from assms(1,2) q(1) have w: "lr_phase r = Waiting" by (cases "lr_phase r") (auto simp: loop_inv_def)
  with assms(1) q show ?thesis using True by (auto simp: loop_inv_def)
qed

lemma loop_inv_step: "loop_step r r' \<Longrightarrow> loop_inv r \<Longrightarrow> loop_inv r'"
proof (erule loop_stepE)
  fix st' assume "loop_inv r" "lr_phase r \<noteq> Rebooted" "queue_same (lr_state r) st'" "r' = r\<lparr>lr_state := st'\<rparr>"
  then show "loop_inv r'" by (cases "lr_phase r") (auto simp: loop_inv_def queue_same_def)
qed (use loop_inv_handle loop_inv_post in blast)+


definition loop_ip :: "(kv, string \<times> string, streams) hap_ip" where
  "loop_ip = boot_ip\<lparr>loop_started := True, xQueue := Some \<lparr>q_length = 10, q_items = []\<rparr>, queue_ok := \<lambda>n k. k < n\<rparr>"

definition loop_run0 :: "(kv, string \<times> string, streams) loop_run" where
  "loop_run0 = \<lparr>lr_phase = Waiting, lr_state = loop_ip, lr_posted = [], lr_handled = []\<rparr>"

lemma loop_ip_simps [simp]: "p_sessions (priv loop_ip) = replicate 8 None" "first_announce_done loop_ip = False"
  "loop_started loop_ip" "xQueue loop_ip = Some \<lparr>q_length = 10, q_items = []\<rparr>" "queue_ok loop_ip = (\<lambda>n k. k < n)"
  by (simp_all add: loop_ip_def zero_priv_def HAP_MAX_SESSIONS_def)

lemma no_sessions_close:
  assumes "\<And>i. i < 8 \<Longrightarrow> session_at i st = None"
  shows "hap_close_all_sessions st = Some st"
proof -
  have "for_each (\<lambda>i st. case session_at i st of None \<Rightarrow> Some st | Some q \<Rightarrow> hap_close_session (Some q) st) xs st = Some st"
    if "set xs \<subseteq> {0..<8}" for xs using that by (induction xs) (auto simp: assms)
  then show ?thesis by (simp add: hap_close_all_sessions_def HAP_MAX_SESSIONS_def)
qed

lemma loop_reboots: "\<exists>st'. hap_loop_iteration (loop_ip\<lparr>xQueue := Some \<lparr>q_length = 10, q_items = [HAP_INTERNAL_EVENT_REBOOT]\<rparr>\<rparr>) = Some (Rebooted, st')"
proof -
  let ?st = "vTaskDelay_ms 1000 (loop_ip\<lparr>xQueue := Some \<lparr>q_length = 10, q_items = []\<rparr>\<rparr>)"
  have st: "?st = loop_ip\<lparr>xQueue := Some \<lparr>q_length = 10, q_items = []\<rparr>, world := world ?st, sdk_log := sdk_log ?st\<rparr>"
    by (simp add: vTaskDelay_ms_def do_sdk_def sdk_def split_beta)
  have "session_at i ?st = None" if "i < 8" for i using that by (subst st) (simp add: session_at_def)
  from no_sessions_close [OF this] show ?thesis
    by (simp add: hap_loop_iteration_def hap_common_sm_def shut_down_def restarts_def)
qed


end
