(* ===== verification/Spec2Isabelle.thy ===== *)
theory Spec2Isabelle
  imports Byte_Convert Tlv Text_Codec Apple_Servs Hap_Acc Hkdf Network_Io Setup_Exchange Hap_Main
begin

text \<open>
  A verification development for the HomeKit accessory firmware for the ESP32 in
  \<open>src/arduino/libraries/Homekit\<close>: the HomeKit core (\<open>esp_hap_core\<close>), the profile of
  characteristics and services (\<open>esp_hap_apple_profiles\<close>) and the part of the platform layer
  that keeps persistent data (\<open>esp_hap_platform\<close>).

  \<^bold>\<open>The program.\<close>  An accessory owns a list of services and a service a list of
  characteristics; all three are allocated structures linked by \<open>next\<close> pointers, the
  accessories of a bridge form a list of their own.  A characteristic has a value in a union, a
  constraint, and two bitmaps over the eight sessions: who is subscribed and who made the last
  change.  The application updates values, a change puts the characteristic in a queue, the
  main loop takes it out and notifies the subscribed controllers.  Controllers are paired with
  the accessory; their keys, the configuration number, the last accessory id and the identity
  of the accessory are in the keystore, which lives in the flash (NVS).

  \<^bold>\<open>Theories.\<close>
  \<^item> \<open>Hap_Prelude\<close>: words and bytes (\<open>byte\<close>, \<open>u16\<close>, \<dots>), bounds checked buffers
    (\<open>rd_block\<close>, \<open>wr_block\<close>: None is an access outside of the block), collections of
    simplification rules, and the locale of lists linked by pointers.
  \<^item> \<open>Byte_Convert\<close> (\<open>byte_convert.c\<close>), \<open>Tlv\<close> (\<open>esp_hap_pair_common.c\<close>),
    \<open>Text_Codec\<close> (\<open>hexbin.c\<close>, \<open>base36.h\<close>, \<open>esp_hap_setup_payload.c\<close>): codecs.  Their
    lemmas show the round trips and which accesses are inside of the buffers.
  \<^item> \<open>Hap_Value\<close> (\<open>hap.h\<close>): formats and the union of values.  Floats are their bit
    patterns, compared by an order on them (NaN included).
  \<^item> \<open>Hap_Objs\<close>: the structures of \<open>esp_hap_char.h\<close>, \<open>esp_hap_serv.h\<close>, \<open>esp_hap_acc.h\<close>
    as records, the heap of live objects, \<open>malloc\<close> that may fail, \<open>free\<close>, and the send side of the queues
    of \<open>esp_hap_main.c\<close>.  An operation returns \<open>option\<close>: None is a fault of C (a NULL or
    freed pointer dereferenced, a write outside of a block).
  \<^item> \<open>Hap_Char\<close> (\<open>esp_hap_char.c\<close>), \<open>Hap_Serv\<close> (\<open>esp_hap_serv.c\<close>), \<open>Hap_Acc\<close>
    (\<open>esp_hap_acc.c\<close>): the operations, one definition per function.  List walks are
    \<open>partial_function (option)\<close>, since a list can be a cycle.  The lemmas describe the lists a
    structure holds (\<open>serv_chars\<close>, \<open>acc_tree\<close>, \<open>acc_list\<close>) and what each operation does to them.
  \<^item> \<open>Hap_Build\<close>, \<open>Apple_Chars\<close>, \<open>Apple_Servs\<close>: the constructors of the profile, and what
    each of them makes.
  \<^item> \<open>Keystore\<close>: \<open>hap_platform_keystore.c\<close> and \<open>esp_hap_keystore.c\<close> over NVS.  NVS is code
    of the SDK: a parameter (\<open>nvs_api\<close>), with its documented behaviour as the hypothesis
    \<open>nvs_lawful\<close>, and a map as the instance for the witnesses.
  \<^item> \<open>Hap_Priv\<close>: the global \<open>hap_priv\<close> (\<open>esp_hap_database.h\<close>), the table of
    controllers (\<open>esp_hap_controllers.h\<close>), random bytes, events to the application.
  \<^item> \<open>Controllers\<close> (\<open>esp_hap_controllers.c\<close>), \<open>Database\<close> (\<open>esp_hap_database.c\<close>): the
    operations on them.  The lemmas relate the table in memory to the keystore and a reboot.
  \<^item> \<open>Sha512\<close>, \<open>Hkdf\<close> (\<open>hkdf-sha/upstream\<close>), \<open>Mu_Srp\<close> (\<open>mu_srp\<close>): the hash, the key
    derivation and the SRP handshake, refining FIPS 180-4, RFC 2104/5869 and SRP-6a.  The big
    numbers of mbedTLS are a parameter (\<open>mpi_api\<close>) with arithmetic as its hypothesis (\<open>mpi_lawful\<close>).
  \<^item> \<open>Hap_Session\<close>: the secure sessions and their table (\<open>esp_hap_pair_common.h\<close>,
    \<open>esp_hap_pair_verify.c\<close>), with the state that the network parts share (\<open>hap_net\<close>).  libsodium
    (\<open>hap_crypto\<close>) and the sockets and sessions of the HTTP server (\<open>httpd_api\<close>) are parameters.
  \<^item> \<open>Network_Io\<close> (\<open>esp_hap_network_io.c\<close>): the frames of an encrypted session.  The lemmas show
    the sender as a map from bytes to frames, the receiver as an abstract byte stream, and their composition.
  \<^item> \<open>Pair_Common\<close>: what the three pairing protocols share, replies and the reading and writing of
    messages.  A message is a list of items (\<open>items\<close>), \<open>message\<close> its bytes.  \<open>Pair_Verify\<close>
    (\<open>esp_hap_pair_verify.c\<close>), \<open>Pairings\<close> (\<open>esp_hap_pairings.c\<close>), \<open>Pair_Setup\<close>
    (\<open>esp_hap_pair_setup.c\<close>, \<open>esp_mfi_dummy.c\<close>): one definition per function, a reply is the result with the
    buffer, its length and the state.  An array on the stack holds anything before it is
    written (\<open>stack_array\<close>).  The lemmas show that a controller following the protocol gets through, that
    nobody else does, with the exceptions the code has (\<open>Setup_Exchange\<close> for Pair Setup), and what happens to
    the table and to the sessions.
  \<^item> \<open>Setup_Exchange\<close>: the lemmas about Pair Setup.
  \<^item> \<open>Json_Gen\<close> (\<open>json_generator.c\<close>): the streaming generator over a buffer with a callback that
    takes what is full.  \<open>writes\<close> says which text a call writes, for any buffer; a whole document is its text.
  \<^item> \<open>Json_Parse\<close> (\<open>jsmn.h\<close>, \<open>json_parser.c\<close>): the tokenizer in its two passes and the lookups.  The lemmas
    show that the tokens form a tree in preorder (\<open>tree_ok\<close>), that the counted array is exactly large enough, and
    which lookup can leave it.
  \<^item> \<open>Hap_Sdk\<close>: the calls of the SDK as a log (\<open>sdk_log\<close>) with their results as a parameter, the state of all the
    following parts (\<open>hap_ip\<close>), the HTTP and OS layers of the platform, and Wi-Fi.
  \<^item> \<open>Hap_Mdns\<close> (\<open>esp_hap_mdns.c\<close>, \<open>esp_hap_bct.c\<close>, the announcement and the registration of handlers of
    \<open>esp_hap_ip_services.c\<close>), \<open>Ip_Pairing\<close>, \<open>Ip_Chars\<close>, \<open>Ip_Write\<close>, \<open>Ip_Notif\<close>: the request handlers of
    \<open>esp_hap_ip_services.c\<close> for pairing, for reading, for writing (with the connector
    \<open>CoreBridge\<close> to the host processor), and the event notifications, one definition per function.  A handler
    takes a request and gives its result, the request with its session context, and the state.
  \<^item> \<open>Hap_Main\<close> (\<open>esp_hap_main.c\<close>): the handlers of the events of the queue, the loop, start and reset.

  \<^bold>\<open>Bounds.\<close>  Machine integers have their width.  Nothing uses fuel: the parsers terminate by a
  measure, the walks over linked lists are partial functions and their results on lists that end
  are proved, as is that one does not return on a cycle.

  \<^bold>\<open>Not modelled.\<close>  The SDK (NVS, the HTTP server, FreeRTOS, mDNS, Wi-Fi, libsodium, mbedTLS) is not in the
  sources: its calls are parameters.  The bytes of a response pass the server, which calls
  \<open>hap_httpd_send\<close> for them; the handlers log the call of the server and do not go through it
  again.  A task of the loop and a request are whole operations, so their interleaving is that of the
  operations.  An address is not used twice by \<open>malloc\<close> within a run.
  The driver of the authentication coprocessor (bit level GPIO), the debug output, the firmware
  upgrade, the Arduino core, and the rest of the application in C++ are left out: they are register
  access, output, or glue over the SDK.  Allocation failures are modelled, exhaustion of the stack is not.  Text that
  is only logged is left out.
\<close>

end
